(* ===== verification/Prelude.thy ===== *)
theory Prelude
  imports Main "HOL-Library.Word"
begin

unbundle bit_operations_syntax

text \<open>
  The vocabulary every component shares: the result type of a fallible operation and of a
  fallible operation over a state, with the lemmas that let the simplifier run through them;
  the fixed-width types of the source; and facts on lists and words that several components use.

  A Go function that returns \<open>(T, error)\<close> is modelled with result type \<open>'e + 'a\<close>: \<open>Inl e\<close> is
  the error return, \<open>Inr x\<close> the success. A Go function that also mutates memory or an iterator
  is a function from the state to the result together with the new state. The new state is
  returned on the error paths too, because a mutation made before the error return stays visible.
\<close>

type_synonym byte = "8 word"
type_synonym u32 = "32 word"
type_synonym u64 = "64 word"

named_theorems res_simps \<open>running through fallible operations\<close>
named_theorems state_simps \<open>running through fallible operations over a state\<close>

subsection \<open>Fallible operations\<close>

text \<open>\<open>x, err := m; if err != nil { return err }; f(x)\<close>\<close>

definition rbind :: "'e + 'a \<Rightarrow> ('a \<Rightarrow> 'e + 'b) \<Rightarrow> 'e + 'b" where
  "rbind m f = (case m of Inl e \<Rightarrow> Inl e | Inr x \<Rightarrow> f x)"

lemma rbind_Inl [simp]: "rbind (Inl e) f = Inl e"
  by (simp add: rbind_def)

lemma rbind_Inr [simp]: "rbind (Inr x) f = f x"
  by (simp add: rbind_def)

lemma rbind_ret [simp]: "rbind m Inr = m"
  by (cases m) auto

lemma rbind_eq_Inr [res_simps]:
  "rbind m f = Inr y \<longleftrightarrow> (\<exists>x. m = Inr x \<and> f x = Inr y)"
  by (cases m) auto

lemma rbind_eq_Inl [res_simps]:
  "rbind m f = Inl e \<longleftrightarrow> m = Inl e \<or> (\<exists>x. m = Inr x \<and> f x = Inl e)"
  by (cases m) auto

lemma rbind_assoc: "rbind (rbind m f) g = rbind m (\<lambda>x. rbind (f x) g)"
  by (cases m) auto

lemma rbind_cong:
  "m = m' \<Longrightarrow> (\<And>x. m' = Inr x \<Longrightarrow> f x = g x) \<Longrightarrow> rbind m f = rbind m' g"
  by (cases m') auto

text \<open>A \<open>for\<close> loop over a slice that carries an accumulator and returns at the first error.\<close>

primrec foldE :: "('a \<Rightarrow> 'b \<Rightarrow> 'e + 'a) \<Rightarrow> 'a \<Rightarrow> 'b list \<Rightarrow> 'e + 'a" where
  "foldE f acc [] = Inr acc"
| "foldE f acc (x # xs) = rbind (f acc x) (\<lambda>acc'. foldE f acc' xs)"

lemma foldE_map: "foldE f acc (map g xs) = foldE (\<lambda>a x. f a (g x)) acc xs"
  by (induction xs arbitrary: acc) (simp_all cong: rbind_cong)

lemma foldE_const [simp]: "foldE (\<lambda>a x. Inr a) acc xs = Inr acc"
  by (induction xs) simp_all

lemma foldE_append: "foldE f acc (xs @ ys) = rbind (foldE f acc xs) (\<lambda>acc'. foldE f acc' ys)"
  by (induction xs arbitrary: acc) (simp_all add: rbind_assoc)

lemma foldE_error: "foldE f acc xs = Inl e \<Longrightarrow> \<exists>x \<in> set xs. \<exists>a. f a x = Inl e"
  by (induction xs arbitrary: acc) (auto simp: rbind_eq_Inl)

text \<open>The rule for such a loop: an invariant of the accumulator that each step keeps.\<close>

lemma foldE_invariant:
  assumes "foldE f acc xs = Inr r" "P acc"
    and "\<And>acc x acc'. x \<in> set xs \<Longrightarrow> P acc \<Longrightarrow> f acc x = Inr acc' \<Longrightarrow> P acc'"
  shows "P r"
  using assms by (induction xs arbitrary: acc) (auto simp: res_simps)

lemma foldE_cong [fundef_cong]:
  "acc = acc' \<Longrightarrow> xs = ys \<Longrightarrow> (\<And>a x. x \<in> set ys \<Longrightarrow> f a x = g a x) \<Longrightarrow> foldE f acc xs = foldE g acc' ys"
  by (induction ys arbitrary: xs acc acc') (auto intro!: rbind_cong)

lemma foldE_steps:
  assumes "foldE f acc xs = Inr r" "x \<in> set xs"
  shows "\<exists>acc acc'. f acc x = Inr acc'"
  using assms by (induction xs arbitrary: acc) (auto simp: res_simps)

definition forE :: "('b \<Rightarrow> 'e + unit) \<Rightarrow> 'b list \<Rightarrow> 'e + unit" where
  "forE f xs = foldE (\<lambda>_. f) () xs"

lemma forE_ok: "forE f xs = Inr u \<longleftrightarrow> (\<forall>x \<in> set xs. f x = Inr ())"
  unfolding forE_def by (induction xs) (auto simp: res_simps)

lemma forE_simps [simp]: "forE f [] = Inr ()" "forE f (x # xs) = rbind (f x) (\<lambda>_. forE f xs)"
  by (simp_all add: forE_def)

subsection \<open>Fallible operations over a state\<close>

text \<open>
  \<open>('s, 'e, 'a) op\<close> is an operation that may change the state \<open>'s\<close> and ends with an error or a
  value. The state reached is part of the result in both cases.
\<close>

type_synonym ('s, 'e, 'a) op = "'s \<Rightarrow> ('e + 'a) \<times> 's"

definition sbind :: "('s, 'e, 'a) op \<Rightarrow> ('a \<Rightarrow> ('s, 'e, 'b) op) \<Rightarrow> ('s, 'e, 'b) op" where
  "sbind m f s = (case m s of (Inl e, s') \<Rightarrow> (Inl e, s') | (Inr x, s') \<Rightarrow> f x s')"

definition sret :: "'a \<Rightarrow> ('s, 'e, 'a) op" where
  "sret x s = (Inr x, s)"

definition sfail :: "'e \<Rightarrow> ('s, 'e, 'a) op" where
  "sfail e s = (Inl e, s)"

text \<open>An operation that does not touch the state.\<close>

definition slift :: "'e + 'a \<Rightarrow> ('s, 'e, 'a) op" where
  "slift r s = (r, s)"

lemma sret_apply [simp]: "sret x s = (Inr x, s)"
  by (simp add: sret_def)

lemma sfail_apply [simp]: "sfail e s = (Inl e, s)"
  by (simp add: sfail_def)

lemma slift_apply [simp]: "slift r s = (r, s)"
  by (simp add: slift_def)

lemma sbind_sret [simp]: "sbind (sret x) f = f x"
  by (simp add: sbind_def fun_eq_iff)

lemma sbind_sfail [simp]: "sbind (sfail e) f = sfail e"
  by (simp add: sbind_def fun_eq_iff)

lemma slift_Inl [simp]: "slift (Inl e) = sfail e"
  by (simp add: fun_eq_iff)

lemma slift_Inr [simp]: "slift (Inr x) = sret x"
  by (simp add: fun_eq_iff)

lemma sbind_eq_Inr [state_simps]:
  "sbind m f s = (Inr y, s'') \<longleftrightarrow> (\<exists>x s'. m s = (Inr x, s') \<and> f x s' = (Inr y, s''))"
  by (auto simp: sbind_def split: prod.splits sum.splits)

lemma sbind_eq_Inl [state_simps]:
  "sbind m f s = (Inl e, s'') \<longleftrightarrow> m s = (Inl e, s'') \<or> (\<exists>x s'. m s = (Inr x, s') \<and> f x s' = (Inl e, s''))"
  by (auto simp: sbind_def split: prod.splits sum.splits)

lemma sbind_step: "m s = (Inr x, s') \<Longrightarrow> sbind m f s = f x s'"
  by (simp add: sbind_def)

lemma sbind_stop: "m s = (Inl e, s') \<Longrightarrow> sbind m f s = (Inl e, s')"
  by (simp add: sbind_def)

lemma sbind_assoc: "sbind (sbind m f) g = sbind m (\<lambda>x. sbind (f x) g)"
  by (auto simp: sbind_def fun_eq_iff split: prod.splits sum.splits)

lemma sbind_slift: "sbind (slift r) f s = (case r of Inl e \<Rightarrow> (Inl e, s) | Inr x \<Rightarrow> f x s)"
  by (cases r) simp_all

text \<open>A relation between the states before and after, closed under sequencing.\<close>

lemma sbind_rel:
  assumes "reflp R" "transp R" "\<And>r s'. m s = (r, s') \<Longrightarrow> R s s'"
    and "\<And>x s' r s''. m s = (Inr x, s') \<Longrightarrow> f x s' = (r, s'') \<Longrightarrow> R s' s''"
    and "sbind m f s = (r, s'')"
  shows "R s s''"
  using assms(5) unfolding sbind_def
  by (auto split: prod.splits sum.splits dest: assms(3,4) transpD [OF assms(2)] intro: transpD [OF assms(2)])

subsection \<open>What an operation leaves alone\<close>

text \<open>
  \<open>keeps R f\<close> says that \<open>f\<close> takes every state to one that \<open>R\<close> relates to it, be the outcome a value or an error. A relation that
  a caller may rely on is reflexive and transitive, which is the contract of the locale \<open>frame_relation\<close>.
\<close>

named_theorems keeping \<open>rules for what an operation keeps\<close>

definition keeps :: "('s \<Rightarrow> 's \<Rightarrow> bool) \<Rightarrow> ('s, 'e, 'b) op \<Rightarrow> bool" where
  "keeps R f \<longleftrightarrow> (\<forall>s r s'. f s = (r, s') \<longrightarrow> R s s')"

lemma keepsD: "keeps R f \<Longrightarrow> f s = (r, s') \<Longrightarrow> R s s'"
  by (simp add: keeps_def)

lemma keeps_option [keeping]: "(\<And>x. m = Some x \<Longrightarrow> keeps R (f x)) \<Longrightarrow> (m = None \<Longrightarrow> keeps R g) \<Longrightarrow>
    keeps R (case m of None \<Rightarrow> g | Some x \<Rightarrow> f x)"
  by (cases m) auto

lemma keeps_if [keeping]: "(b \<Longrightarrow> keeps R f) \<Longrightarrow> (\<not> b \<Longrightarrow> keeps R g) \<Longrightarrow> keeps R (if b then f else g)"
  by auto

locale frame_relation =
  fixes R :: "'s \<Rightarrow> 's \<Rightarrow> bool"
  assumes refl: "R s s" and trans: "R s t \<Longrightarrow> R t u \<Longrightarrow> R s u"
begin

lemma sret [keeping]: "keeps R (sret x)"
  by (simp add: keeps_def refl)

lemma sfail [keeping]: "keeps R (sfail e)"
  by (simp add: keeps_def refl)

lemma slift [keeping]: "keeps R (slift r)"
  by (simp add: keeps_def refl)

lemma sbind [keeping]: "keeps R f \<Longrightarrow> (\<And>x. keeps R (g x)) \<Longrightarrow> keeps R (sbind f g)"
proof (unfold keeps_def, intro allI impI)
  fix s r s'
  assume f: "\<forall>s r s'. f s = (r, s') \<longrightarrow> R s s'" and g: "\<And>x. \<forall>s r s'. g x s = (r, s') \<longrightarrow> R s s'"
    and st: "sbind f g s = (r, s')"
  obtain r1 s1 where 1: "f s = (r1, s1)" by fastforce
  show "R s s'"
  proof (cases r1)
    case (Inl e)
    then show ?thesis using 1 st f by (auto simp: sbind_def)
  next
    case (Inr x)
    then have "g x s1 = (r, s')" using 1 st by (simp add: sbind_def)
    then show ?thesis using f g 1 trans by blast
  qed
qed

end

subsection \<open>Numbers as text\<close>

text \<open>\<open>strconv.FormatUint\<close> in base 10, and \<open>strconv.Itoa\<close> of what is not negative.\<close>

fun FormatUint :: "nat \<Rightarrow> string" where
  "FormatUint n = (if n < 10 then [char_of (48 + n)] else FormatUint (n div 10) @ [char_of (48 + n mod 10)])"

declare FormatUint.simps [simp del]

subsection \<open>Lists read by index\<close>

text \<open>
  \<open>xs[i]\<close> and \<open>xs[i:j]\<close> of the source, which panic where there is no such element or range: \<open>e\<close> is the panic. A slice is taken to
  have no room behind its end.
\<close>

definition indexed :: "'e \<Rightarrow> 'a list \<Rightarrow> nat \<Rightarrow> 'e + 'a" where
  "indexed e xs i = (if i < length xs then Inr (xs ! i) else Inl e)"

definition sliced :: "'e \<Rightarrow> 'a list \<Rightarrow> nat \<Rightarrow> nat \<Rightarrow> 'e + 'a list" where
  "sliced e xs i j = (if i \<le> j \<and> j \<le> length xs then Inr (take (j - i) (drop i xs)) else Inl e)"

lemma indexed_ok [simp]: "i < length xs \<Longrightarrow> indexed e xs i = Inr (xs ! i)"
  by (simp add: indexed_def)

lemma sliced_ok [simp]: "i \<le> j \<Longrightarrow> j \<le> length xs \<Longrightarrow> sliced e xs i j = Inr (take (j - i) (drop i xs))"
  by (simp add: sliced_def)

lemma indexed_checked [simp]:
  "(if length xs \<le> i then r else rbind (indexed e xs i) f) = (if length xs \<le> i then r else f (xs ! i))"
  "(if length xs \<le> i then op else sbind (slift (indexed e xs i)) g) = (if length xs \<le> i then op else g (xs ! i))"
  by (simp_all add: not_le)

lemma drop_nth_split: "i < length xs \<Longrightarrow> drop i xs = xs ! i # drop (Suc i) xs"
  by (rule Cons_nth_drop_Suc [symmetric])

lemma drop_eq_Cons:
  assumes "drop i xs = y # ys"
  shows "i < length xs" "xs ! i = y" "drop (Suc i) xs = ys"
proof -
  show "i < length xs" using assms by (metis drop_eq_Nil linorder_not_le list.distinct(1))
  then show "xs ! i = y" "drop (Suc i) xs = ys" using assms by (simp_all add: drop_nth_split)
qed

subsection \<open>Words, bit by bit\<close>

named_theorems bit_masks \<open>the bits of the masks and single-bit constants the code uses\<close>

text \<open>The library reduces a bit of a numeral word to a bit of the same integer numeral.\<close>

lemma bit_int_mask:
  assumes "m = 2 ^ k - (1 :: int)"
  shows "bit m n \<longleftrightarrow> n < k"
  using assms by (metis bit_mask_iff mask_eq_exp_minus_1 possible_bit_int)

lemma bit_int_exp:
  assumes "m = (2 ^ k :: int)"
  shows "bit m n \<longleftrightarrow> n = k"
  using assms by (auto simp: bit_exp_iff)

lemma bit_127 [bit_masks]: "bit (127 :: int) n \<longleftrightarrow> n < 7"
  by (rule bit_int_mask) simp

lemma bit_255 [bit_masks]: "bit (255 :: int) n \<longleftrightarrow> n < 8"
  by (rule bit_int_mask) simp

lemma bit_128 [bit_masks]: "bit (128 :: int) n \<longleftrightarrow> n = 7"
  by (rule bit_int_exp) simp

lemma bit_64 [bit_masks]: "bit (64 :: int) n \<longleftrightarrow> n = 6"
  by (rule bit_int_exp) simp

lemma bit_48 [bit_masks]: "bit (48 :: int) n \<longleftrightarrow> n = 4 \<or> n = 5"
proof -
  have "(48 :: int) = 2 ^ 4 OR 2 ^ 5" by simp
  then show ?thesis by (auto simp only: bit_or_iff bit_exp_iff possible_bit_int)
qed

lemma bit_62 [bit_masks]: "bit (62 :: int) n \<longleftrightarrow> n \<in> {1, 2, 3, 4, 5}"
proof -
  have "(62 :: int) = 2 ^ 1 OR 2 ^ 2 OR 2 ^ 3 OR 2 ^ 4 OR 2 ^ 5" by simp
  then show ?thesis by (auto simp only: bit_or_iff bit_exp_iff possible_bit_int insert_iff empty_iff)
qed

lemma bit_240 [bit_masks]: "bit (240 :: int) n \<longleftrightarrow> n \<in> {4, 5, 6, 7}"
proof -
  have "(240 :: int) = 2 ^ 4 OR 2 ^ 5 OR 2 ^ 6 OR 2 ^ 7" by simp
  then show ?thesis by (auto simp only: bit_or_iff bit_exp_iff possible_bit_int insert_iff empty_iff)
qed

lemma sint_sdrop7: "sint (signed_drop_bit 7 (v :: 'a::len word)) = sint v div 128"
  by (simp only: sint_signed_drop_bit_eq drop_bit_eq_div) simp

lemma unat_drop7: "unat (drop_bit 7 (v :: 'a::len word)) = unat v div 128"
  by (simp only: unat_drop_bit_eq drop_bit_eq_div [where 'a = nat]) simp

lemma word_eq_0_bits: "(x :: 'a::len word) = 0 \<longleftrightarrow> (\<forall>n. \<not> bit x n)"
  by (auto intro: bit_word_eqI)

lemma mask7: "(127 :: 'a::len word) = mask 7"
  by (simp add: mask_eq_exp_minus_1)

lemma and_exp_word: "(x :: 'a::len word) AND 2 ^ k = (if bit x k then 2 ^ k else 0)"
proof -
  have "bit (x AND 2 ^ k) n = bit (if bit x k then 2 ^ k else 0 :: 'a word) n" for n
    by (cases "n = k"; cases "bit x k")
      (simp_all only: bit_and_iff bit_exp_iff possible_bit_word if_True if_False bit_0_eq bot_apply bot_bool_def, auto)
  then show ?thesis by (intro bit_word_eqI)
qed

lemma and_128_eq_0: "(x :: byte) AND 0x80 = 0 \<longleftrightarrow> \<not> bit x 7"
  by (auto simp: word_eq_0_bits bit_simps bit_masks dest: spec [of _ 7])

lemma byte_less_128: "(x :: byte) < 0x80 \<longleftrightarrow> \<not> bit x 7"
proof -
  have "bit x 7 \<longleftrightarrow> bit (unat x) 7" by (simp add: bit_unsigned_iff)
  also have "\<dots> \<longleftrightarrow> odd (unat x div 128)" by (simp add: bit_iff_odd)
  also have "\<dots> \<longleftrightarrow> \<not> unat x < 128"
  proof -
    have "unat x < 256" using unsigned_less [of x] by simp
    then have "unat x div 128 < 2" by (simp add: less_mult_imp_div_less)
    then show ?thesis by (cases "unat x < 128") (auto simp: div_eq_0_iff)
  qed
  finally show ?thesis by (simp add: word_less_nat_alt)
qed

text \<open>A value in the signed range of \<open>k + 1\<close> bits has copies of its sign from bit \<open>k\<close> on.\<close>

lemma sint_range_bits:
  fixes v :: "'a::len word"
  assumes "- (2 ^ k) \<le> sint v" "sint v < 2 ^ k" "k \<le> n" "n < LENGTH('a)"
  shows "bit v n \<longleftrightarrow> sint v < 0"
proof -
  have "(2 :: int) ^ k \<le> 2 ^ n" using assms(3) by simp
  then have range: "- (2 ^ n) \<le> sint v" "sint v < 2 ^ n" using assms(1,2) by linarith+
  have "bit v n \<longleftrightarrow> bit (sint v) n"
    using assms(4) by (auto simp: bit_sint_iff)
  also have "\<dots> \<longleftrightarrow> odd (sint v div 2 ^ n)" by (simp add: bit_iff_odd)
  also have "\<dots> \<longleftrightarrow> sint v < 0"
  proof (cases "sint v < 0")
    case True
    then have "sint v div 2 ^ n = - 1"
      using range by (intro int_div_pos_eq [where r = "sint v + 2 ^ n"]) auto
    with True show ?thesis by simp
  next
    case False
    with range show ?thesis by (simp add: div_pos_pos_trivial)
  qed
  finally show ?thesis .
qed

end
