(* ===== verification/Leb128.thy ===== *)
theory Leb128
  imports Prelude
begin

text \<open>
  The LEB128 integers of \<open>internal/leb128/leb128.go\<close>: the encoders, the decoders that read
  through an \<open>io.ByteReader\<close> and their twins that index into a buffer.
  A reader is the list of the bytes still to come; reading past its end is \<open>io.EOF\<close>.
  The accumulators keep their width (\<open>u32\<close>, \<open>u64\<close>), so a shift past the width
  drops bits as Go's \<open><<\<close> does, and \<open>sint\<close> reads a result as the signed integer Go returns.
\<close>

datatype leb_error = EOF | Overflow32 | Overflow33 | Overflow64

definition maxVarintLen32 :: nat where "maxVarintLen32 = 5"
definition maxVarintLen33 :: nat where "maxVarintLen33 = maxVarintLen32"
definition maxVarintLen64 :: nat where "maxVarintLen64 = 10"

lemmas leb_consts [simp] = maxVarintLen32_def maxVarintLen33_def maxVarintLen64_def

subsection \<open>Encoders\<close>

function EncodeUint64 :: "u64 \<Rightarrow> byte list" where
  "EncodeUint64 value =
     (let b = (ucast (value AND 0x7f) :: byte);
          value' = drop_bit 7 value;
          b' = (if value' \<noteq> 0 then b OR 0x80 else b)
      in b' # (if b' AND 0x80 = 0 then [] else EncodeUint64 value'))"
  by pat_completeness auto

lemma low7_and_128 [simp]: "(ucast ((v :: u64) AND 0x7f) :: byte) AND 0x80 = 0"
  by (simp add: and_128_eq_0 bit_simps bit_masks)

lemma or_128_and_128 [simp]: "((b :: byte) OR 0x80) AND 0x80 \<noteq> 0"
  by (simp add: and_128_eq_0 bit_simps bit_masks)

lemma drop_bit_7_less: "drop_bit 7 v \<noteq> 0 \<Longrightarrow> unat (drop_bit 7 (v :: u64)) < unat v"
  by (metis unat_drop7 div_less_dividend unat_gt_0 div_0 gr0I one_less_numeral_iff semiring_norm(76) unat_0 unat_eq_zero)

termination EncodeUint64
  by (relation "measure unat") (auto simp: Let_def drop_bit_7_less split: if_splits)

declare EncodeUint64.simps [simp del]

lemma EncodeUint64_unfold:
  "EncodeUint64 v =
     (if drop_bit 7 v = 0 then [ucast (v AND 0x7f)]
      else (ucast (v AND 0x7f) OR 0x80) # EncodeUint64 (drop_bit 7 v))"
  by (subst EncodeUint64.simps) (simp add: Let_def)

definition EncodeUint32 :: "u32 \<Rightarrow> byte list" where
  "EncodeUint32 value = EncodeUint64 (ucast value)"

text \<open>\<open>int64\<close> values are held in a \<open>u64\<close>; \<open>>>=\<close> on them is the arithmetic shift.\<close>

function EncodeInt64 :: "u64 \<Rightarrow> byte list" where
  "EncodeInt64 value =
     (let b = (ucast (value AND 0x7f) :: byte);
          s = (ucast (value AND 0x40) :: byte);
          value' = signed_drop_bit 7 value;
          b' = (if (value' \<noteq> - 1 \<or> s = 0) \<and> (value' \<noteq> 0 \<or> s \<noteq> 0) then b OR 0x80 else b)
      in b' # (if b' AND 0x80 = 0 then [] else EncodeInt64 value'))"
  by pat_completeness auto

definition int64_rank :: "u64 \<Rightarrow> nat" where
  "int64_rank v = (if sint v < 0 then nat (- sint v - 1) else nat (sint v))"

lemma int64_rank_0: "int64_rank v = 0 \<Longrightarrow> v = 0 \<or> v = - 1"
proof -
  assume "int64_rank v = 0"
  then have "sint v = sint (0 :: u64) \<or> sint v = sint (- 1 :: u64)"
    by (auto simp: int64_rank_def split: if_splits)
  then show ?thesis by (auto intro: signed_word_eqI)
qed

lemma int64_rank_decreases:
  assumes "v \<noteq> 0" "v \<noteq> - 1"
  shows "int64_rank (signed_drop_bit 7 v) < int64_rank v"
proof -
  have "sint v \<noteq> 0" "sint v \<noteq> - 1"
    using assms by (auto intro: signed_word_eqI)
  then show ?thesis
    by (auto simp: int64_rank_def sint_sdrop7)
qed

lemma sdrop7_fix [simp]: "signed_drop_bit 7 (0 :: u64) = 0" "signed_drop_bit 7 (- 1 :: u64) = - 1"
  by simp_all

termination EncodeInt64
proof (relation "measure int64_rank", simp, unfold in_measure)
  fix v :: u64 and b s v' b'
  assume *: "b = (ucast (v AND 0x7f) :: byte)" "s = (ucast (v AND 0x40) :: byte)"
    "v' = signed_drop_bit 7 v"
    "b' = (if (v' \<noteq> - 1 \<or> s = 0) \<and> (v' \<noteq> 0 \<or> s \<noteq> 0) then b OR 0x80 else b)"
    "b' AND 0x80 \<noteq> 0"
  have "v \<noteq> 0" "v \<noteq> - 1"
    using * by (auto split: if_splits)
  then show "int64_rank v' < int64_rank v"
    using * int64_rank_decreases by simp
qed

declare EncodeInt64.simps [simp del]

text \<open>The last byte is reached when the remaining value is the sign extension of its low 7 bits.\<close>

definition last_group :: "u64 \<Rightarrow> bool" where
  "last_group v \<longleftrightarrow> (signed_drop_bit 7 v = - 1 \<and> bit v 6) \<or> (signed_drop_bit 7 v = 0 \<and> \<not> bit v 6)"

lemma low_bit6 [simp]: "(ucast ((v :: u64) AND 0x40) :: byte) = 0 \<longleftrightarrow> \<not> bit v 6"
  by (auto simp: word_eq_0_bits bit_simps bit_masks dest: spec [of _ 6])

lemma EncodeInt64_unfold:
  "EncodeInt64 v =
     (if last_group v then [ucast (v AND 0x7f)]
      else (ucast (v AND 0x7f) OR 0x80) # EncodeInt64 (signed_drop_bit 7 v))"
  by (subst EncodeInt64.simps) (auto simp: Let_def last_group_def)

definition EncodeInt32 :: "u32 \<Rightarrow> byte list" where
  "EncodeInt32 value = EncodeInt64 (scast value)"


subsection \<open>Unsigned decoders\<close>

text \<open>The loop of \<open>DecodeUint32\<close>: \<open>r\<close> holds the bytes the reader has left.\<close>

fun DecodeUint32_loop :: "nat \<Rightarrow> nat \<Rightarrow> u32 \<Rightarrow> byte list \<Rightarrow> leb_error + u32 \<times> nat \<times> byte list" where
  "DecodeUint32_loop i s ret r =
     (if i < maxVarintLen32 then
        (case r of [] \<Rightarrow> Inl EOF
         | b # r' \<Rightarrow>
             if b < 0x80 then
               (if i = maxVarintLen32 - 1 \<and> b AND 0xf0 > 0 then Inl Overflow32
                else Inr (ret OR push_bit s (ucast b), i + 1, r'))
             else DecodeUint32_loop (i + 1) (s + 7) (ret OR push_bit s (ucast (b AND 0x7f))) r')
      else Inl Overflow32)"

definition DecodeUint32 :: "byte list \<Rightarrow> leb_error + u32 \<times> nat \<times> byte list" where
  "DecodeUint32 r = DecodeUint32_loop 0 0 0 r"

function LoadUint32_loop :: "byte list \<Rightarrow> nat \<Rightarrow> nat \<Rightarrow> u32 \<Rightarrow> leb_error + u32 \<times> nat" where
  "LoadUint32_loop buf i s ret =
     (if i < maxVarintLen32 then
        (if i \<ge> length buf then Inl EOF
         else let b = buf ! i in
           if b < 0x80 then
             (if i = maxVarintLen32 - 1 \<and> b AND 0xf0 > 0 then Inl Overflow32
              else Inr (ret OR push_bit s (ucast b), i + 1))
           else LoadUint32_loop buf (i + 1) (s + 7) (ret OR push_bit s (ucast (b AND 0x7f))))
      else Inl Overflow32)"
  by pat_completeness auto
termination
  by (relation "measure (\<lambda>(buf, i, s, ret). maxVarintLen32 - i)") auto

definition LoadUint32 :: "byte list \<Rightarrow> leb_error + u32 \<times> nat" where
  "LoadUint32 buf = LoadUint32_loop buf 0 0 0"

function LoadUint64_loop :: "byte list \<Rightarrow> nat \<Rightarrow> nat \<Rightarrow> u64 \<Rightarrow> leb_error + u64 \<times> nat" where
  "LoadUint64_loop buf i s ret =
     (if i < maxVarintLen64 then
        (if i \<ge> length buf then Inl EOF
         else let b = buf ! i in
           if b < 0x80 then
             (if i = maxVarintLen64 - 1 \<and> b > 1 then Inl Overflow64
              else Inr (ret OR push_bit s (ucast b), i + 1))
           else LoadUint64_loop buf (i + 1) (s + 7) (ret OR push_bit s (ucast (b AND 0x7f))))
      else Inl Overflow64)"
  by pat_completeness auto
termination
  by (relation "measure (\<lambda>(buf, i, s, ret). maxVarintLen64 - i)") auto

definition LoadUint64 :: "byte list \<Rightarrow> leb_error + u64 \<times> nat" where
  "LoadUint64 buf = (if length buf = 0 then Inl EOF else LoadUint64_loop buf 0 0 0)"

declare DecodeUint32_loop.simps [simp del] LoadUint32_loop.simps [simp del] LoadUint64_loop.simps [simp del]

subsection \<open>Signed decoders\<close>

text \<open>\<open>ret < 0\<close> on the signed result is its sign bit.\<close>

definition int32OverflowCheck :: "byte \<Rightarrow> nat \<Rightarrow> u32 \<Rightarrow> bool" where
  "int32OverflowCheck finalByte bytesRead ret =
     (if bytesRead > maxVarintLen32 then True
      else if bytesRead = maxVarintLen32 then
        (let unusedBits = 0b00110000;
             unused = finalByte AND unusedBits;
             want = (if sint ret < 0 then unusedBits else 0)
         in unused \<noteq> want)
      else False)"

definition int64OverflowCheck :: "byte \<Rightarrow> nat \<Rightarrow> u64 \<Rightarrow> bool" where
  "int64OverflowCheck finalByte bytesRead ret =
     (if bytesRead > maxVarintLen64 then True
      else if bytesRead = maxVarintLen64 then
        (let unusedBits = 0b00111110;
             unused = finalByte AND unusedBits;
             want = (if sint ret < 0 then unusedBits else 0)
         in unused \<noteq> want)
      else False)"

fun DecodeInt32_loop :: "nat \<Rightarrow> nat \<Rightarrow> u32 \<Rightarrow> byte list \<Rightarrow> leb_error + u32 \<times> nat \<times> byte list" where
  "DecodeInt32_loop shift bytesRead ret [] = Inl EOF"
| "DecodeInt32_loop shift bytesRead ret (b # r') =
     (let ret' = ret OR push_bit shift (ucast b AND 0x7f);
          shift' = shift + 7;
          bytesRead' = bytesRead + 1
      in if b AND 0x80 = 0 then
           (let ret'' = (if shift' < 32 \<and> b AND 0x40 \<noteq> 0 then ret' OR push_bit shift' (- 1) else ret')
            in if int32OverflowCheck b bytesRead' ret'' then Inl Overflow32
               else Inr (ret'', bytesRead', r'))
         else DecodeInt32_loop shift' bytesRead' ret' r')"

definition DecodeInt32 :: "byte list \<Rightarrow> leb_error + u32 \<times> nat \<times> byte list" where
  "DecodeInt32 r = DecodeInt32_loop 0 0 0 r"

function LoadInt32_loop :: "byte list \<Rightarrow> nat \<Rightarrow> nat \<Rightarrow> u32 \<Rightarrow> leb_error + u32 \<times> nat" where
  "LoadInt32_loop buf i shift ret =
     (if i \<ge> length buf then Inl EOF
      else let b = buf ! i;
               ret' = ret OR push_bit shift (ucast b AND 0x7f);
               shift' = shift + 7
           in if b AND 0x80 = 0 then
                (let bytesRead = i + 1;
                     ret'' = (if shift' < 32 \<and> b AND 0x40 \<noteq> 0 then ret' OR push_bit shift' (- 1) else ret')
                 in if int32OverflowCheck b bytesRead ret'' then Inl Overflow32
                    else Inr (ret'', bytesRead))
              else LoadInt32_loop buf (i + 1) shift' ret')"
  by pat_completeness auto
termination
  by (relation "measure (\<lambda>(buf, i, shift, ret). length buf - i)") auto

definition LoadInt32 :: "byte list \<Rightarrow> leb_error + u32 \<times> nat" where
  "LoadInt32 buf = LoadInt32_loop buf 0 0 0"

fun DecodeInt64_loop :: "nat \<Rightarrow> nat \<Rightarrow> u64 \<Rightarrow> byte list \<Rightarrow> leb_error + u64 \<times> nat \<times> byte list" where
  "DecodeInt64_loop shift bytesRead ret [] = Inl EOF"
| "DecodeInt64_loop shift bytesRead ret (b # r') =
     (let ret' = ret OR push_bit shift (ucast b AND 0x7f);
          shift' = shift + 7;
          bytesRead' = bytesRead + 1
      in if b AND 0x80 = 0 then
           (let ret'' = (if shift' < 64 \<and> b AND 0x40 = 0x40 then ret' OR push_bit shift' (- 1) else ret')
            in if int64OverflowCheck b bytesRead' ret'' then Inl Overflow64
               else Inr (ret'', bytesRead', r'))
         else DecodeInt64_loop shift' bytesRead' ret' r')"

definition DecodeInt64 :: "byte list \<Rightarrow> leb_error + u64 \<times> nat \<times> byte list" where
  "DecodeInt64 r = DecodeInt64_loop 0 0 0 r"

function LoadInt64_loop :: "byte list \<Rightarrow> nat \<Rightarrow> nat \<Rightarrow> u64 \<Rightarrow> leb_error + u64 \<times> nat" where
  "LoadInt64_loop buf i shift ret =
     (if i \<ge> length buf then Inl EOF
      else let b = buf ! i;
               ret' = ret OR push_bit shift (ucast b AND 0x7f);
               shift' = shift + 7
           in if b AND 0x80 = 0 then
                (let bytesRead = i + 1;
                     ret'' = (if shift' < 64 \<and> b AND 0x40 = 0x40 then ret' OR push_bit shift' (- 1) else ret')
                 in if int64OverflowCheck b bytesRead ret'' then Inl Overflow64
                    else Inr (ret'', bytesRead))
              else LoadInt64_loop buf (i + 1) shift' ret')"
  by pat_completeness auto
termination
  by (relation "measure (\<lambda>(buf, i, shift, ret). length buf - i)") auto

definition LoadInt64 :: "byte list \<Rightarrow> leb_error + u64 \<times> nat" where
  "LoadInt64 buf = LoadInt64_loop buf 0 0 0"

declare LoadInt32_loop.simps [simp del] LoadInt64_loop.simps [simp del]

subsection \<open>The 33-bit decoders\<close>

definition int33Finish :: "u64 \<Rightarrow> nat \<Rightarrow> nat \<Rightarrow> u64 \<Rightarrow> leb_error + u64 \<times> nat" where
  "int33Finish b shift bytesRead ret =
     (let int33Mask3 = 2 ^ 6; int33Mask4 = 8589934591; int33Mask5 = 2 ^ 32; int33Mask6 = int33Mask4 + 1;
          ret1 = (if shift < 33 \<and> b AND int33Mask3 = int33Mask3 then ret OR push_bit shift int33Mask4 else ret);
          ret2 = ret1 AND int33Mask4;
          ret3 = (if sint (ret2 AND int33Mask5) > 0 then ret2 - int33Mask6 else ret2)
      in if bytesRead > maxVarintLen33 then Inl Overflow33
         else if bytesRead = maxVarintLen33 then
           (let unusedBits = 0b00100000;
                unused = b AND unusedBits;
                want = (if sint ret3 < 0 then unusedBits else 0)
            in if unused \<noteq> want then Inl Overflow33 else Inr (ret3, bytesRead))
         else Inr (ret3, bytesRead))"

function DecodeInt33_loop ::
    "nat \<Rightarrow> u64 \<Rightarrow> nat \<Rightarrow> u64 \<Rightarrow> byte list \<Rightarrow> leb_error + u64 \<times> nat \<times> nat \<times> u64 \<times> byte list" where
  "DecodeInt33_loop shift b bytesRead ret r =
     (if shift < 35 then
        (case r of [] \<Rightarrow> Inl EOF
         | rb # r' \<Rightarrow>
             let b' = ucast rb;
                 ret' = ret OR push_bit shift (b' AND NOT (2 ^ 7));
                 shift' = shift + 7;
                 bytesRead' = bytesRead + 1
             in if b' AND 2 ^ 7 = 0 then Inr (b', shift', bytesRead', ret', r')
                else DecodeInt33_loop shift' b' bytesRead' ret' r')
      else Inr (b, shift, bytesRead, ret, r))"
  by pat_completeness auto
termination
  by (relation "measure (\<lambda>(shift, b, n, ret, r). length r)") auto

definition DecodeInt33AsInt64 :: "byte list \<Rightarrow> leb_error + u64 \<times> nat \<times> byte list" where
  "DecodeInt33AsInt64 r =
     rbind (DecodeInt33_loop 0 0 0 0 r) (\<lambda>(b, shift, bytesRead, ret, r').
     rbind (int33Finish b shift bytesRead ret) (\<lambda>(v, n). Inr (v, n, r')))"

function LoadInt33_loop ::
    "byte list \<Rightarrow> nat \<Rightarrow> nat \<Rightarrow> u64 \<Rightarrow> u64 \<Rightarrow> leb_error + u64 \<times> nat \<times> nat \<times> u64" where
  "LoadInt33_loop buf shift i b ret =
     (if shift < 35 then
        (if i \<ge> length buf then Inl EOF
         else let b' = ucast (buf ! i);
                  i' = i + 1;
                  ret' = ret OR push_bit shift (b' AND NOT (2 ^ 7));
                  shift' = shift + 7
              in if b' AND 2 ^ 7 = 0 then Inr (b', shift', i', ret')
                 else LoadInt33_loop buf shift' i' b' ret')
      else Inr (b, shift, i, ret))"
  by pat_completeness auto
termination
  by (relation "measure (\<lambda>(buf, shift, i, b, ret). length buf - i)") auto

definition LoadInt33AsInt64 :: "byte list \<Rightarrow> leb_error + u64 \<times> nat" where
  "LoadInt33AsInt64 buf =
     rbind (LoadInt33_loop buf 0 0 0 0) (\<lambda>(b, shift, i, ret). int33Finish b shift i ret)"

declare DecodeInt33_loop.simps [simp del] LoadInt33_loop.simps [simp del]


subsection \<open>A reader and a buffer give the same result\<close>

definition with_rest :: "byte list \<Rightarrow> 'e + 'a \<times> nat \<Rightarrow> 'e + 'a \<times> nat \<times> byte list" where
  "with_rest buf m = rbind m (\<lambda>(v, n). Inr (v, n, drop n buf))"

lemma with_rest_simps [simp]:
  "with_rest buf (Inl e) = Inl e"
  "with_rest buf (Inr (v, n)) = Inr (v, n, drop n buf)"
  by (simp_all add: with_rest_def)

lemma DecodeUint32_loop_Load:
  "DecodeUint32_loop i s ret (drop i buf) = with_rest buf (LoadUint32_loop buf i s ret)"
proof (induction buf i s ret rule: LoadUint32_loop.induct)
  case (1 buf i s ret)
  then show ?case
    by (cases "i < length buf")
      (auto simp: DecodeUint32_loop.simps [of i] LoadUint32_loop.simps [of buf i] Let_def drop_nth_split)
qed

lemma DecodeInt32_loop_Load:
  "DecodeInt32_loop shift i ret (drop i buf) = with_rest buf (LoadInt32_loop buf i shift ret)"
proof (induction buf i shift ret rule: LoadInt32_loop.induct)
  case (1 buf i shift ret)
  then show ?case
    by (cases "i < length buf")
      (auto simp: LoadInt32_loop.simps [of buf i] Let_def drop_nth_split)
qed

lemma DecodeInt64_loop_Load:
  "DecodeInt64_loop shift i ret (drop i buf) = with_rest buf (LoadInt64_loop buf i shift ret)"
proof (induction buf i shift ret rule: LoadInt64_loop.induct)
  case (1 buf i shift ret)
  then show ?case
    by (cases "i < length buf")
      (auto simp: LoadInt64_loop.simps [of buf i] Let_def drop_nth_split)
qed

lemma DecodeInt33_loop_Load:
  "DecodeInt33_loop shift b i ret (drop i buf) =
     rbind (LoadInt33_loop buf shift i b ret) (\<lambda>(b, shift, n, ret). Inr (b, shift, n, ret, drop n buf))"
proof (induction buf shift i b ret rule: LoadInt33_loop.induct)
  case (1 buf shift i b ret)
  then show ?case
    by (cases "i < length buf")
      (auto simp: DecodeInt33_loop.simps [of shift] LoadInt33_loop.simps [of buf shift] Let_def drop_nth_split)
qed

lemma int33Finish_bytes: "int33Finish b shift n ret = Inr (v, m) \<Longrightarrow> m = n"
  by (auto simp: int33Finish_def Let_def split: if_splits)

subsection \<open>Decoding what was encoded\<close>

lemma low7_uncast [simp]: "(ucast (ucast ((v :: u64) AND 0x7f) :: byte) :: u64) = v AND 0x7f"
  by (rule bit_word_eqI) (auto simp: bit_simps bit_masks)

lemma low7_recover [simp]: "((ucast ((v :: u64) AND 0x7f) :: byte) OR 0x80) AND 0x7f = ucast (v AND 0x7f)"
  by (rule bit_word_eqI) (auto simp: bit_simps bit_masks)

lemma push_split:
  fixes v :: u64
  shows "(ret OR push_bit s (v AND 0x7f)) OR push_bit (s + 7) (drop_bit 7 v) = ret OR push_bit s v"
proof (rule bit_word_eqI)
  fix n
  have "7 + (n - (s + 7)) = n - s" if "\<not> n - s < 7" using that by simp
  then show "bit ((ret OR push_bit s (v AND 0x7f)) OR push_bit (s + 7) (drop_bit 7 v)) n =
      bit (ret OR push_bit s v) n"
    by (cases "n - s < 7") (auto simp: bit_simps bit_masks)
qed

lemma low7_all: "drop_bit 7 (v :: u64) = 0 \<Longrightarrow> v AND 0x7f = v"
proof -
  assume "drop_bit 7 v = 0"
  then have "take_bit 7 v = v" by (metis bits_ident add_0 push_bit_of_0)
  moreover have "(0x7f :: u64) = mask 7" by (simp add: mask_eq_exp_minus_1)
  ultimately show ?thesis by (simp only: take_bit_eq_mask)
qed

lemma byte_test_last: "(ucast ((v :: u64) AND 0x7f) :: byte) < 0x80"
  by (simp add: byte_less_128 bit_simps bit_masks)

lemma byte_test_more: "\<not> (b OR 0x80 :: byte) < 0x80"
  by (simp add: byte_less_128 bit_simps bit_masks)

lemma LoadUint64_loop_encoded:
  assumes "i < 10" "unat v < 2 ^ (64 - 7 * i)" "drop i buf = EncodeUint64 v @ rest"
  shows "LoadUint64_loop buf i (7 * i) ret = Inr (ret OR push_bit (7 * i) v, i + length (EncodeUint64 v))"
  using assms
proof (induction v arbitrary: i ret rule: EncodeUint64.induct)
  case (1 v)
  let ?b = "ucast (v AND 0x7f) :: byte"
  show ?case
  proof (cases "drop_bit 7 v = 0")
    case True
    then have enc: "EncodeUint64 v = [?b]" by (simp add: EncodeUint64_unfold [of v])
    then have i: "i < length buf" "buf ! i = ?b"
      using drop_eq_Cons 1(4) by auto
    have "i = 9 \<Longrightarrow> ?b \<le> 1"
    proof -
      assume "i = 9"
      then have "unat v < 2" using 1(3) by simp
      then have "unat v = unat (0 :: u64) \<or> unat v = unat (1 :: u64)" by auto
      then have "v = 0 \<or> v = 1" by (simp only: word_unat_eq_iff)
      then show ?thesis by auto
    qed
    moreover have "ucast (ucast v :: byte) = v"
      using low7_uncast [of v] low7_all [OF True] by simp
    ultimately show ?thesis
      using i 1(2) enc byte_test_last [of v] low7_all [OF True]
      by (auto simp: LoadUint64_loop.simps [of buf i] Let_def)
  next
    case False
    then have enc: "EncodeUint64 v = (?b OR 0x80) # EncodeUint64 (drop_bit 7 v)"
      by (simp add: EncodeUint64_unfold [of v])
    then have i: "i < length buf" "buf ! i = ?b OR 0x80" "drop (Suc i) buf = EncodeUint64 (drop_bit 7 v) @ rest"
      using drop_eq_Cons 1(4) by auto
    have "unat v \<ge> 128"
      using False unat_drop7 [of v] by (metis div_less not_less unat_eq_zero)
    have "i \<noteq> 9" using \<open>unat v \<ge> 128\<close> 1(3) by auto
    then have "Suc i < 10" using 1(2) by simp
    moreover have "(2 :: nat) ^ (64 - 7 * i) = 128 * 2 ^ (64 - 7 * Suc i)"
    proof -
      have "64 - 7 * i = 7 + (64 - 7 * Suc i)" using \<open>Suc i < 10\<close> by simp
      then show ?thesis by (simp only: power_add) simp
    qed
    ultimately have "unat (drop_bit 7 v) < 2 ^ (64 - 7 * Suc i)"
      using 1(3) by (simp add: unat_drop7 less_mult_imp_div_less mult.commute)
    from 1(1) [OF refl refl refl _ \<open>Suc i < 10\<close> this i(3)] False
    have "LoadUint64_loop buf (Suc i) (7 * Suc i) r =
        Inr (r OR push_bit (7 * Suc i) (drop_bit 7 v), Suc i + length (EncodeUint64 (drop_bit 7 v)))" for r
      by simp
    then show ?thesis
      using i 1(2) enc byte_test_more [of ?b] push_split [of ret "7 * i" v]
      by (simp add: LoadUint64_loop.simps [of buf i] Let_def add.commute)
  qed
qed

lemma byte_and_240: "(b :: byte) AND 0xf0 = 0 \<longleftrightarrow> unat b < 16"
proof -
  have "b AND 0xf0 = 0 \<longleftrightarrow> drop_bit 4 b = 0"
  proof
    assume a: "b AND 0xf0 = 0"
    have "\<not> bit b (4 + n)" for n
    proof (cases "n < 4")
      case True
      then have "4 + n \<in> {4, 5, 6, 7}" by auto
      moreover have "\<not> bit (b AND 0xf0) (4 + n)" using a by simp
      ultimately show ?thesis by (auto simp: bit_simps bit_masks)
    next
      case False
      then show ?thesis using bit_imp_le_length [of b "4 + n"] by auto
    qed
    then show "drop_bit 4 b = 0" by (auto simp: word_eq_0_bits bit_simps)
  next
    assume "drop_bit 4 b = 0"
    then have "\<not> bit b (4 + n)" for n by (auto simp: word_eq_0_bits bit_simps)
    from this [of 0] this [of 1] this [of 2] this [of 3]
    show "b AND 0xf0 = 0" by (auto simp: word_eq_0_bits bit_simps bit_masks)
  qed
  also have "\<dots> \<longleftrightarrow> unat (drop_bit 4 b) = 0" by (simp only: unat_eq_zero)
  also have "\<dots> \<longleftrightarrow> unat b < 16"
    by (simp only: unat_drop_bit_eq drop_bit_eq_div [where 'a = nat]) (simp add: div_eq_0_iff)
  finally show ?thesis .
qed

lemma low7_uncast32 [simp]: "(ucast (ucast ((v :: u64) AND 0x7f) :: byte) :: u32) = ucast (v AND 0x7f)"
  by (rule bit_word_eqI) (auto simp: bit_simps bit_masks)

lemma push_split32:
  "(ret OR push_bit s (ucast ((v :: u64) AND 0x7f))) OR push_bit (s + 7) (ucast (drop_bit 7 v)) =
     ret OR push_bit s (ucast v :: u32)"
proof (rule bit_word_eqI)
  fix n
  have "7 + (n - (s + 7)) = n - s" if "\<not> n - s < 7" using that by simp
  then show "bit ((ret OR push_bit s (ucast (v AND 0x7f))) OR push_bit (s + 7) (ucast (drop_bit 7 v))) n =
      bit (ret OR push_bit s (ucast v :: u32)) n"
    by (cases "n - s < 7") (auto simp: bit_simps bit_masks)
qed

lemma LoadUint32_loop_encoded:
  assumes "i < 5" "unat v < 2 ^ (32 - 7 * i)" "drop i buf = EncodeUint64 v @ rest"
  shows "LoadUint32_loop buf i (7 * i) ret =
      Inr (ret OR push_bit (7 * i) (ucast v), i + length (EncodeUint64 v))"
  using assms
proof (induction v arbitrary: i ret rule: EncodeUint64.induct)
  case (1 v)
  let ?b = "ucast (v AND 0x7f) :: byte"
  show ?case
  proof (cases "drop_bit 7 v = 0")
    case True
    then have enc: "EncodeUint64 v = [?b]" by (simp add: EncodeUint64_unfold [of v])
    then have i: "i < length buf" "buf ! i = ?b"
      using drop_eq_Cons 1(4) by auto
    have cast: "ucast (ucast v :: byte) = v"
      using low7_uncast [of v] low7_all [OF True] by simp
    have "i = 4 \<Longrightarrow> ?b AND 0xf0 = 0"
    proof -
      assume "i = 4"
      then have "unat v < 16" using 1(3) by simp
      then have "unat ?b < 16"
        using low7_all [OF True] by (simp add: unsigned_ucast_eq take_bit_nat_eq_self)
      then show ?thesis by (simp only: byte_and_240)
    qed
    then show ?thesis
      using i 1(2) enc byte_test_last [of v] low7_uncast32 [of v] low7_all [OF True]
      by (auto simp: LoadUint32_loop.simps [of buf i] Let_def)
  next
    case False
    then have enc: "EncodeUint64 v = (?b OR 0x80) # EncodeUint64 (drop_bit 7 v)"
      by (simp add: EncodeUint64_unfold [of v])
    then have i: "i < length buf" "buf ! i = ?b OR 0x80" "drop (Suc i) buf = EncodeUint64 (drop_bit 7 v) @ rest"
      using drop_eq_Cons 1(4) by auto
    have "unat v \<ge> 128"
      using False unat_drop7 [of v] by (metis div_less not_less unat_eq_zero)
    have "i \<noteq> 4" using \<open>unat v \<ge> 128\<close> 1(3) by auto
    then have "Suc i < 5" using 1(2) by simp
    moreover have "(2 :: nat) ^ (32 - 7 * i) = 128 * 2 ^ (32 - 7 * Suc i)"
    proof -
      have "32 - 7 * i = 7 + (32 - 7 * Suc i)" using \<open>Suc i < 5\<close> by simp
      then show ?thesis by (simp only: power_add) simp
    qed
    ultimately have "unat (drop_bit 7 v) < 2 ^ (32 - 7 * Suc i)"
      using 1(3) by (simp add: unat_drop7 less_mult_imp_div_less mult.commute)
    from 1(1) [OF refl refl refl _ \<open>Suc i < 5\<close> this i(3)] False
    have "LoadUint32_loop buf (Suc i) (7 * Suc i) r =
        Inr (r OR push_bit (7 * Suc i) (ucast (drop_bit 7 v)), Suc i + length (EncodeUint64 (drop_bit 7 v)))" for r
      by simp
    then show ?thesis
      using i 1(2) enc byte_test_more [of ?b] push_split32 [of ret "7 * i" v]
      by (simp add: LoadUint32_loop.simps [of buf i] Let_def add.commute)
  qed
qed

text \<open>The round trips of the unsigned integers, and a bound on the bytes read.\<close>

lemma LoadUint64_EncodeUint64: "LoadUint64 (EncodeUint64 v @ rest) = Inr (v, length (EncodeUint64 v))"
proof -
  have "EncodeUint64 v \<noteq> []" by (simp add: EncodeUint64_unfold [of v])
  moreover have "LoadUint64_loop (EncodeUint64 v @ rest) 0 (7 * 0) 0 =
      Inr (0 OR push_bit (7 * 0) v, 0 + length (EncodeUint64 v))"
    using unsigned_less [of v, where 'a = nat] by (intro LoadUint64_loop_encoded) simp_all
  ultimately show ?thesis by (simp add: LoadUint64_def)
qed

lemma LoadUint32_EncodeUint32: "LoadUint32 (EncodeUint32 v @ rest) = Inr (v, length (EncodeUint32 v))"
proof -
  have "unat v < 2 ^ 32" using unsigned_less [of v, where 'a = nat] by simp
  then have "LoadUint32_loop (EncodeUint32 v @ rest) 0 (7 * 0) 0 =
      Inr (0 OR push_bit (7 * 0) (ucast (ucast v :: u64)), 0 + length (EncodeUint64 (ucast v)))"
    unfolding EncodeUint32_def
    by (intro LoadUint32_loop_encoded)
      (simp_all add: unsigned_ucast_eq le_less_trans [OF take_bit_nat_less_eq_self])
  moreover have "ucast (ucast v :: u64) = v"
    by (rule bit_word_eqI) (simp add: bit_simps)
  ultimately show ?thesis by (simp add: LoadUint32_def EncodeUint32_def)
qed

lemma u64_eq_sint: "(v :: u64) = w \<longleftrightarrow> sint v = sint w"
  by (auto intro: signed_word_eqI)

lemma last_group_iff: "last_group v \<longleftrightarrow> - 64 \<le> sint v \<and> sint v < 64"
proof -
  have "bit v 6 \<longleftrightarrow> bit (sint v) 6" by (simp add: bit_sint_iff)
  then have b6: "bit v 6 \<longleftrightarrow> odd (sint v div 64)" by (simp add: bit_iff_odd)
  have m1: "signed_drop_bit 7 v = - 1 \<longleftrightarrow> sint v div 128 = - 1"
    by (simp add: u64_eq_sint sint_sdrop7)
  have z: "signed_drop_bit 7 v = 0 \<longleftrightarrow> sint v div 128 = 0"
    by (simp add: u64_eq_sint sint_sdrop7)
  define y where "y = sint v div 64"
  have "sint v div 128 = y div 2" by (simp add: y_def zdiv_zmult2_eq [symmetric])
  moreover have "(y div 2 = - 1 \<and> odd y) \<or> (y div 2 = 0 \<and> \<not> odd y) \<longleftrightarrow> y = - 1 \<or> y = 0"
    by presburger
  moreover have "y = - 1 \<or> y = 0 \<longleftrightarrow> - 64 \<le> sint v \<and> sint v < 64"
    unfolding y_def by linarith
  ultimately show ?thesis
    unfolding last_group_def m1 z b6 y_def [symmetric] by simp
qed

lemma last_group_bits: "last_group v \<Longrightarrow> 6 \<le> n \<Longrightarrow> n < 64 \<Longrightarrow> bit v n \<longleftrightarrow> bit v 6"
  using sint_range_bits [of 6 v n] sint_range_bits [of 6 v 6] by (simp add: last_group_iff)

lemma low7_bit6:
  "(ucast ((v :: u64) AND 0x7f) :: byte) AND 0x40 = 0x40 \<longleftrightarrow> bit v 6"
  "(ucast ((v :: u64) AND 0x7f) :: byte) AND 0x40 = 0 \<longleftrightarrow> \<not> bit v 6"
proof -
  have *: "(ucast (v AND 0x7f) :: byte) AND 0x40 = (if bit v 6 then 0x40 else 0)"
    by (rule bit_word_eqI) (auto simp: bit_simps bit_masks)
  show "(ucast (v AND 0x7f) :: byte) AND 0x40 = 0x40 \<longleftrightarrow> bit v 6" by (simp add: *)
  show "(ucast (v AND 0x7f) :: byte) AND 0x40 = 0 \<longleftrightarrow> \<not> bit v 6" by (simp add: *)
qed

lemma push_last:
  fixes v :: u64
  assumes "last_group v"
  shows "(if s + 7 < 64 \<and> bit v 6 then (ret OR push_bit s (v AND 0x7f)) OR push_bit (s + 7) (- 1)
          else ret OR push_bit s (v AND 0x7f)) = ret OR push_bit s v"
proof (rule bit_word_eqI)
  fix n assume "n < LENGTH(64)"
  then have high: "bit v (n - s) \<longleftrightarrow> bit v 6" if "\<not> n - s < 7"
    using that by (intro last_group_bits [OF assms]) auto
  show "bit (if s + 7 < 64 \<and> bit v 6 then (ret OR push_bit s (v AND 0x7f)) OR push_bit (s + 7) (- 1)
          else ret OR push_bit s (v AND 0x7f)) n = bit (ret OR push_bit s v) n"
    using \<open>n < LENGTH(64)\<close> high by (cases "n - s < 7") (auto simp: bit_simps bit_masks)
qed

lemma push_sdrop:
  fixes v :: u64
  shows "(ret OR push_bit s (v AND 0x7f)) OR push_bit (s + 7) (signed_drop_bit 7 v) = ret OR push_bit s v"
proof (rule bit_word_eqI)
  fix n assume "n < LENGTH(64)"
  then have "bit (signed_drop_bit 7 v) (n - (s + 7)) = bit v (n - s)" if "\<not> n - s < 7"
    using that by (auto simp: bit_signed_drop_bit_iff)
  then show "bit ((ret OR push_bit s (v AND 0x7f)) OR push_bit (s + 7) (signed_drop_bit 7 v)) n =
      bit (ret OR push_bit s v) n"
    using \<open>n < LENGTH(64)\<close> by (cases "n - s < 7") (auto simp: bit_simps bit_masks)
qed

text \<open>The 64-bit loop on the bytes of an encoded integer.\<close>

lemma sint_range_step:
  assumes "- (2 ^ k) \<le> sint (v :: u64)" "sint v < 2 ^ k" "7 \<le> k"
  shows "- (2 ^ (k - 7)) \<le> sint (signed_drop_bit 7 v)" "sint (signed_drop_bit 7 v) < 2 ^ (k - 7)"
proof -
  have "(2 :: int) ^ k = 128 * 2 ^ (k - 7)"
    using assms(3) power_add [of "2 :: int" 7 "k - 7"] by simp
  then show "- (2 ^ (k - 7)) \<le> sint (signed_drop_bit 7 v)" "sint (signed_drop_bit 7 v) < 2 ^ (k - 7)"
    using assms(1,2) by (auto simp: sint_sdrop7)
qed

lemma int64_sign: "sint (w :: u64) < 0 \<longleftrightarrow> bit w 63"
  using bit_last_iff [of w] by simp

lemma int32_sign: "sint (w :: u32) < 0 \<longleftrightarrow> bit w 31"
  using bit_last_iff [of w] by simp

lemma int64_check_encoded:
  assumes "- (2 ^ (63 - 7 * i)) \<le> sint v" "sint v < 2 ^ (63 - 7 * i)" "i < 10"
    and "\<And>n. 7 * i \<le> n \<Longrightarrow> \<not> bit ret n"
  shows "\<not> int64OverflowCheck (ucast (v AND 0x7f)) (i + 1) (ret OR push_bit (7 * i) v)"
proof (cases "i = 9")
  case True
  have all: "bit v n \<longleftrightarrow> sint v < 0" if "n < 64" for n
    using sint_range_bits [of 0 v n] assms(1,2) True that by simp
  have "sint (ret OR push_bit 63 v) < 0 \<longleftrightarrow> bit v 0"
    using assms(4) [of 63] True by (simp add: int64_sign bit_simps)
  then show ?thesis
    using True all [of 0]
    by (auto simp: int64OverflowCheck_def Let_def all bit_simps bit_masks intro!: bit_word_eqI
        simp: word_eq_0_bits)
next
  case False
  then show ?thesis using assms(3) by (simp add: int64OverflowCheck_def)
qed

lemma encoded_last:
  assumes "last_group v" "drop i buf = EncodeInt64 v @ rest"
  shows "EncodeInt64 v = [ucast (v AND 0x7f)]" "i < length buf" "buf ! i = ucast (v AND 0x7f)"
proof -
  show enc: "EncodeInt64 v = [ucast (v AND 0x7f)]"
    using assms(1) by (simp add: EncodeInt64_unfold [of v])
  show "i < length buf" "buf ! i = ucast (v AND 0x7f)"
    using drop_eq_Cons [OF assms(2) [unfolded enc, simplified]] by simp_all
qed

lemma encoded_more:
  assumes "\<not> last_group v" "drop i buf = EncodeInt64 v @ rest"
  shows "EncodeInt64 v = (ucast (v AND 0x7f) OR 0x80) # EncodeInt64 (signed_drop_bit 7 v)"
    "i < length buf" "buf ! i = ucast (v AND 0x7f) OR 0x80"
    "drop (Suc i) buf = EncodeInt64 (signed_drop_bit 7 v) @ rest"
proof -
  show enc: "EncodeInt64 v = (ucast (v AND 0x7f) OR 0x80) # EncodeInt64 (signed_drop_bit 7 v)"
    using assms(1) by (simp add: EncodeInt64_unfold [of v])
  show "i < length buf" "buf ! i = ucast (v AND 0x7f) OR 0x80"
    "drop (Suc i) buf = EncodeInt64 (signed_drop_bit 7 v) @ rest"
    using drop_eq_Cons [OF assms(2) [unfolded enc append_Cons]] by simp_all
qed

lemma EncodeInt64_induct [case_names last_byte more_bytes]:
  assumes "\<And>v. last_group v \<Longrightarrow> P v"
    and "\<And>v. \<not> last_group v \<Longrightarrow> P (signed_drop_bit 7 v) \<Longrightarrow> P v"
  shows "P v"
proof (induction v rule: measure_induct_rule [of int64_rank])
  case (less v)
  show ?case
  proof (cases "last_group v")
    case False
    then have "v \<noteq> 0" "v \<noteq> - 1" by (auto simp: last_group_iff)
    then show ?thesis using assms(2) [OF False] less int64_rank_decreases by blast
  qed (rule assms(1))
qed

lemma more_cast [simp]:
  "(ucast ((ucast ((v :: u64) AND 0x7f) :: byte) OR 0x80) AND 0x7f :: u64) = v AND 0x7f"
  "(ucast ((ucast ((v :: u64) AND 0x7f) :: byte) OR 0x80) AND 0x7f :: u32) = ucast (v AND 0x7f)"
  by (rule bit_word_eqI; auto simp: bit_simps bit_masks)+

lemma last_cast [simp]:
  "(ucast (ucast ((v :: u64) AND 0x7f) :: byte) AND 0x7f :: u64) = v AND 0x7f"
  "(ucast (ucast ((v :: u64) AND 0x7f) :: byte) AND 0x7f :: u32) = ucast (v AND 0x7f)"
  by (rule bit_word_eqI; auto simp: bit_simps bit_masks)+

lemma fresh_bits_step:
  assumes "\<And>n. s \<le> n \<Longrightarrow> \<not> bit (ret :: 'a::len word) n" "\<And>n. 7 \<le> n \<Longrightarrow> \<not> bit g n" "s + 7 \<le> n"
  shows "\<not> bit (ret OR push_bit s g) n"
  using assms(1) [of n] assms(2) [of "n - s"] assms(3) by (auto simp: bit_simps)

lemma low7_no_high: "7 \<le> n \<Longrightarrow> \<not> bit ((v :: u64) AND 0x7f) n"
  by (auto simp: bit_simps bit_masks)

lemma LoadInt64_loop_more:
  assumes "i < length buf" "buf ! i = b" "b AND 0x80 \<noteq> 0"
  shows "LoadInt64_loop buf i s ret = LoadInt64_loop buf (Suc i) (s + 7) (ret OR push_bit s (ucast b AND 0x7f))"
proof -
  have "(length buf \<le> i) = False" using assms(1) by simp
  then show ?thesis
    by (subst LoadInt64_loop.simps) (simp only: assms(2,3) Let_def if_False Suc_eq_plus1)
qed

lemma LoadInt64_loop_last:
  assumes "i < length buf" "buf ! i = b" "b AND 0x80 = 0"
    and "ret' = ret OR push_bit s (ucast b AND 0x7f)"
    and "ret'' = (if s + 7 < 64 \<and> b AND 0x40 = 0x40 then ret' OR push_bit (s + 7) (- 1) else ret')"
    and "\<not> int64OverflowCheck b (i + 1) ret''"
  shows "LoadInt64_loop buf i s ret = Inr (ret'', i + 1)"
proof -
  have "(length buf \<le> i) = False" using assms(1) by simp
  with assms(6) show ?thesis
    unfolding assms(5) assms(4)
    by (subst LoadInt64_loop.simps) (simp only: Let_def assms(2,3) if_True if_False simp_thms)
qed

lemma LoadInt32_loop_more:
  assumes "i < length buf" "buf ! i = b" "b AND 0x80 \<noteq> 0"
  shows "LoadInt32_loop buf i s ret = LoadInt32_loop buf (Suc i) (s + 7) (ret OR push_bit s (ucast b AND 0x7f))"
proof -
  have "(length buf \<le> i) = False" using assms(1) by simp
  then show ?thesis
    by (subst LoadInt32_loop.simps) (simp only: assms(2,3) Let_def if_False Suc_eq_plus1)
qed

lemma LoadInt32_loop_last:
  assumes "i < length buf" "buf ! i = b" "b AND 0x80 = 0"
    and "ret' = ret OR push_bit s (ucast b AND 0x7f)"
    and "ret'' = (if s + 7 < 32 \<and> b AND 0x40 \<noteq> 0 then ret' OR push_bit (s + 7) (- 1) else ret')"
    and "\<not> int32OverflowCheck b (i + 1) ret''"
  shows "LoadInt32_loop buf i s ret = Inr (ret'', i + 1)"
proof -
  have "(length buf \<le> i) = False" using assms(1) by simp
  with assms(6) show ?thesis
    unfolding assms(5) assms(4)
    by (subst LoadInt32_loop.simps) (simp only: Let_def assms(2,3) if_True if_False simp_thms)
qed

lemma LoadInt64_loop_encoded:
  assumes "i < 10" "- (2 ^ (63 - 7 * i)) \<le> sint v" "sint v < 2 ^ (63 - 7 * i)"
    and "drop i buf = EncodeInt64 v @ rest" "\<And>n. 7 * i \<le> n \<Longrightarrow> \<not> bit ret n"
  shows "LoadInt64_loop buf i (7 * i) ret = Inr (ret OR push_bit (7 * i) v, i + length (EncodeInt64 v))"
  using assms
proof (induction v arbitrary: i ret rule: EncodeInt64_induct)
  case (last_byte v)
  note e = encoded_last [OF last_byte(1,5)]
  have "LoadInt64_loop buf i (7 * i) ret = Inr (ret OR push_bit (7 * i) v, i + 1)"
    by (rule LoadInt64_loop_last [OF e(2,3) low7_and_128 refl _ int64_check_encoded [OF last_byte(3,4,2,6)]])
      (simp only: last_cast low7_bit6 push_last [OF last_byte(1)])
  then show ?case by (simp add: e(1))
next
  case (more_bytes v)
  note e = encoded_more [OF more_bytes(1,6)]
  have "i \<noteq> 9" using more_bytes(1,4,5) by (auto simp: last_group_iff)
  then have i: "Suc i < 10" "63 - 7 * Suc i = 63 - 7 * i - 7" "7 \<le> 63 - 7 * i" using more_bytes(3) by simp_all
  note range = sint_range_step [OF more_bytes(4,5) i(3), folded i(2)]
  have fresh: "\<not> bit (ret OR push_bit (7 * i) (v AND 0x7f)) n" if "7 * Suc i \<le> n" for n
    using that by (intro fresh_bits_step more_bytes(7) low7_no_high) simp_all
  have "LoadInt64_loop buf i (7 * i) ret =
      LoadInt64_loop buf (Suc i) (7 * Suc i) (ret OR push_bit (7 * i) (v AND 0x7f))"
    by (simp only: LoadInt64_loop_more [OF e(2,3) or_128_and_128] more_cast mult_Suc_right add.commute)
  then show ?case
    using more_bytes(2) [OF i(1) range e(4) fresh]
    by (simp only: e(1) push_sdrop mult_Suc_right add.commute [of 7] list.size(4)) simp
qed

lemma LoadInt64_EncodeInt64: "LoadInt64 (EncodeInt64 v @ rest) = Inr (v, length (EncodeInt64 v))"
proof -
  have "- (2 ^ 63) \<le> sint v" "sint v < 2 ^ 63"
    using sint_greater_eq [of v] sint_less [of v] by simp_all
  then have "LoadInt64_loop (EncodeInt64 v @ rest) 0 (7 * 0) 0 =
      Inr (0 OR push_bit (7 * 0) v, 0 + length (EncodeInt64 v))"
    by (intro LoadInt64_loop_encoded) simp_all
  then show ?thesis by (simp add: LoadInt64_def)
qed

text \<open>The 32-bit loop on the bytes of an encoded 32-bit integer.\<close>

lemma push_last32:
  fixes v :: u64
  assumes "last_group v"
  shows "(if s + 7 < 32 \<and> bit v 6 then (ret OR push_bit s (ucast (v AND 0x7f))) OR push_bit (s + 7) (- 1)
          else ret OR push_bit s (ucast (v AND 0x7f))) = (ret OR push_bit s (ucast v) :: u32)"
proof (rule bit_word_eqI)
  fix n assume "n < LENGTH(32)"
  then have high: "bit v (n - s) \<longleftrightarrow> bit v 6" if "\<not> n - s < 7"
    using that by (intro last_group_bits [OF assms]) auto
  show "bit (if s + 7 < 32 \<and> bit v 6 then (ret OR push_bit s (ucast (v AND 0x7f))) OR push_bit (s + 7) (- 1)
          else ret OR push_bit s (ucast (v AND 0x7f))) n = bit (ret OR push_bit s (ucast v) :: u32) n"
    using \<open>n < LENGTH(32)\<close> high by (cases "n - s < 7") (auto simp: bit_simps bit_masks)
qed

lemma push_sdrop32:
  fixes v :: u64
  shows "(ret OR push_bit s (ucast (v AND 0x7f))) OR push_bit (s + 7) (ucast (signed_drop_bit 7 v)) =
    (ret OR push_bit s (ucast v) :: u32)"
proof (rule bit_word_eqI)
  fix n assume "n < LENGTH(32)"
  then have "bit (signed_drop_bit 7 v) (n - (s + 7)) = bit v (n - s)" if "\<not> n - s < 7"
    using that by (auto simp: bit_signed_drop_bit_iff)
  then show "bit ((ret OR push_bit s (ucast (v AND 0x7f))) OR push_bit (s + 7) (ucast (signed_drop_bit 7 v))) n =
      bit (ret OR push_bit s (ucast v) :: u32) n"
    using \<open>n < LENGTH(32)\<close> by (cases "n - s < 7") (auto simp: bit_simps bit_masks)
qed

lemma int32_check_encoded:
  assumes "- (2 ^ (31 - 7 * i)) \<le> sint v" "sint v < 2 ^ (31 - 7 * i)" "i < 5"
    and "\<And>n. 7 * i \<le> n \<Longrightarrow> \<not> bit ret n"
  shows "\<not> int32OverflowCheck (ucast (v AND 0x7f)) (i + 1) (ret OR push_bit (7 * i) (ucast (v :: u64)))"
proof (cases "i = 4")
  case True
  have all: "bit v n \<longleftrightarrow> sint v < 0" if "n < 64" "3 \<le> n" for n
    using sint_range_bits [of 3 v n] assms(1,2) True that by simp
  have "sint (ret OR push_bit 28 (ucast v)) < 0 \<longleftrightarrow> bit v 3"
    using assms(4) [of 31] True by (simp add: int32_sign bit_simps)
  then show ?thesis
    using True all [of 3] all [of 4] all [of 5]
    by (auto simp: int32OverflowCheck_def Let_def bit_simps bit_masks intro!: bit_word_eqI
        simp: word_eq_0_bits)
next
  case False
  then show ?thesis using assms(3) by (simp add: int32OverflowCheck_def)
qed

lemma LoadInt32_loop_encoded:
  assumes "i < 5" "- (2 ^ (31 - 7 * i)) \<le> sint v" "sint v < 2 ^ (31 - 7 * i)"
    and "drop i buf = EncodeInt64 v @ rest" "\<And>n. 7 * i \<le> n \<Longrightarrow> \<not> bit ret n"
  shows "LoadInt32_loop buf i (7 * i) ret =
    Inr (ret OR push_bit (7 * i) (ucast v), i + length (EncodeInt64 v))"
  using assms
proof (induction v arbitrary: i ret rule: EncodeInt64_induct)
  case (last_byte v)
  note e = encoded_last [OF last_byte(1,5)]
  have "LoadInt32_loop buf i (7 * i) ret = Inr (ret OR push_bit (7 * i) (ucast v), i + 1)"
    by (rule LoadInt32_loop_last [OF e(2,3) low7_and_128 refl _ int32_check_encoded [OF last_byte(3,4,2,6)]])
      (simp only: last_cast low7_bit6 not_not push_last32 [OF last_byte(1)])
  then show ?case by (simp add: e(1))
next
  case (more_bytes v)
  note e = encoded_more [OF more_bytes(1,6)]
  have "i \<noteq> 4" using more_bytes(1,4,5) by (auto simp: last_group_iff)
  then have i: "Suc i < 5" "31 - 7 * Suc i = 31 - 7 * i - 7" "7 \<le> 31 - 7 * i" using more_bytes(3) by simp_all
  note range = sint_range_step [OF more_bytes(4,5) i(3), folded i(2)]
  have fresh: "\<not> bit (ret OR push_bit (7 * i) (ucast (v AND 0x7f))) n" if "7 * Suc i \<le> n" for n
    using that by (intro fresh_bits_step more_bytes(7)) (auto simp: bit_simps bit_masks)
  have "LoadInt32_loop buf i (7 * i) ret =
      LoadInt32_loop buf (Suc i) (7 * Suc i) (ret OR push_bit (7 * i) (ucast (v AND 0x7f)))"
    by (simp only: LoadInt32_loop_more [OF e(2,3) or_128_and_128] more_cast mult_Suc_right add.commute)
  then show ?case
    using more_bytes(2) [OF i(1) range e(4) fresh]
    by (simp only: e(1) push_sdrop32 mult_Suc_right add.commute [of 7] list.size(4)) simp
qed

lemma sint_scast64: "sint (scast (v :: u32) :: u64) = sint v"
  by (rule signed_scast_eq [THEN trans]) (simp add: signed_take_bit_int_eq_self sint_greater_eq sint_less
      order_trans [OF _ sint_greater_eq] less_le_trans [OF sint_less])

lemma LoadInt32_EncodeInt32: "LoadInt32 (EncodeInt32 v @ rest) = Inr (v, length (EncodeInt32 v))"
proof -
  have "- (2 ^ 31) \<le> sint v" "sint v < 2 ^ 31"
    using sint_greater_eq [of v] sint_less [of v] by simp_all
  then have "LoadInt32_loop (EncodeInt64 (scast v) @ rest) 0 (7 * 0) 0 =
      Inr (0 OR push_bit (7 * 0) (ucast (scast v :: u64)), 0 + length (EncodeInt64 (scast v)))"
    by (intro LoadInt32_loop_encoded) (simp_all add: sint_scast64)
  moreover have "ucast (scast v :: u64) = v"
    by (rule bit_word_eqI) (simp add: bit_simps)
  ultimately show ?thesis by (simp add: LoadInt32_def EncodeInt32_def)
qed

subsection \<open>Decoding a 33-bit integer\<close>

text \<open>What \<open>int33Finish\<close> makes of its accumulator: the sign extension of the low 33 bits.\<close>

definition sext33 :: "u64 \<Rightarrow> u64" where
  "sext33 x = (let y = x AND 8589934591 in if bit y 32 then y - 8589934592 else y)"

lemma mask33: "(8589934591 :: u64) = mask 33"
  by (simp add: mask_eq_exp_minus_1)

lemma bit_sext33: "n < 64 \<Longrightarrow> bit (sext33 x) n \<longleftrightarrow> bit x (min n 32)"
proof -
  assume n: "n < 64"
  define y where "y = x AND mask 33"
  have y: "bit y m \<longleftrightarrow> m < 33 \<and> bit x m" if "m < 64" for m
    using that by (auto simp: y_def bit_and_iff bit_mask_iff)
  have "y - 2 ^ 33 = y + NOT (mask 33)"
    by (simp add: minus_exp_eq_not_mask [symmetric])
  also have "\<dots> = y OR NOT (mask 33)"
    by (rule disjunctive_add_eq_or) (auto intro!: bit_word_eqI simp: y_def bit_and_iff bit_not_iff bit_mask_iff)
  finally have "y - 8589934592 = y OR NOT (mask 33)" by simp
  then show ?thesis
    using n y [of n] y [of 32]
    by (auto simp: sext33_def Let_def mask33 y_def [symmetric] bit_or_iff bit_not_iff bit_mask_iff min_def)
qed

lemma sext33_cong: "(\<And>n. n < 33 \<Longrightarrow> bit x n = bit y n) \<Longrightarrow> sext33 x = sext33 y"
  by (rule bit_word_eqI) (auto simp: bit_sext33 min_def)

lemma sext33_fits:
  assumes "- (2 ^ 32) \<le> sint v" "sint v < 2 ^ 32"
  shows "sext33 v = v"
proof (rule bit_word_eqI)
  fix n assume "n < LENGTH(64)"
  then show "bit (sext33 v) n = bit v n"
    using sint_range_bits [OF assms, of n] sint_range_bits [OF assms, of 32]
    by (cases "n < 32") (auto simp: bit_sext33 min_def)
qed

lemma sext33_range: "- (2 ^ 32) \<le> sint (sext33 x)" "sint (sext33 x) < 2 ^ 32"
proof -
  have "bit (sint (sext33 x)) n = bit (signed_take_bit 32 (sint (sext33 x))) n" for n
    using bit_imp_le_length [of "sext33 x" n]
    by (cases "n < 64") (auto simp: bit_signed_take_bit_iff bit_sint_iff bit_sext33 min_def)
  then have "sint (sext33 x) = signed_take_bit 32 (sint (sext33 x))"
    by (rule bit_eqI)
  then show "- (2 ^ 32) \<le> sint (sext33 x)" "sint (sext33 x) < 2 ^ 32"
    by (metis signed_take_bit_int_greater_eq_minus_exp, metis signed_take_bit_int_less_exp)
qed

lemma and_bit_32: "sint ((x :: u64) AND 2 ^ 32) > 0 \<longleftrightarrow> bit x 32"
  by (simp only: and_exp_word [of x 32]) simp

lemma int33Finish_value:
  "int33Finish b shift n ret =
     (let v = sext33 (if shift < 33 \<and> bit b 6 then ret OR push_bit shift (mask 33) else ret)
      in if n > 5 then Inl Overflow33
         else if n = 5 \<and> b AND 0x20 \<noteq> (if sint v < 0 then 0x20 else 0) then Inl Overflow33
         else Inr (v, n))"
proof -
  have b6: "b AND 2 ^ 6 = 2 ^ 6 \<longleftrightarrow> bit b 6"
    by (simp only: and_exp_word) simp
  show ?thesis
    by (simp only: int33Finish_def sext33_def Let_def b6 and_bit_32 mask33 [symmetric]) simp
qed

text \<open>The 33-bit loop followed by \<open>int33Finish\<close>, on the bytes of an encoded integer.\<close>

definition int33_from :: "byte list \<Rightarrow> nat \<Rightarrow> nat \<Rightarrow> u64 \<Rightarrow> u64 \<Rightarrow> leb_error + u64 \<times> nat" where
  "int33_from buf shift i b ret =
     rbind (LoadInt33_loop buf shift i b ret) (\<lambda>(b, shift, i, ret). int33Finish b shift i ret)"

lemma clear_bit7: "(ucast (b :: byte) :: u64) AND NOT (2 ^ 7) = ucast b AND 0x7f"
proof (rule bit_word_eqI)
  fix n
  show "bit ((ucast b :: u64) AND NOT (2 ^ 7)) n = bit ((ucast b :: u64) AND 0x7f) n"
    using bit_imp_le_length [of b n]
    by (auto simp only: bit_and_iff bit_not_iff bit_exp_iff bit_ucast_iff possible_bit_word mask7
        bit_mask_iff) simp_all
qed

lemma test_bit7: "(ucast (b :: byte) :: u64) AND 2 ^ 7 = 0 \<longleftrightarrow> b AND 0x80 = 0"
  unfolding and_128_eq_0 by (simp only: and_exp_word) (simp add: bit_ucast_iff)

lemma int33_from_more:
  assumes "i < length buf" "buf ! i = b" "b AND 0x80 \<noteq> 0" "s < 35"
  shows "int33_from buf s i b0 ret = int33_from buf (s + 7) (Suc i) (ucast b) (ret OR push_bit s (ucast b AND 0x7f))"
proof -
  have "(length buf \<le> i) = False" using assms(1) by simp
  then show ?thesis
    unfolding int33_from_def
    by (subst LoadInt33_loop.simps)
      (simp only: assms Let_def test_bit7 clear_bit7 if_True if_False simp_thms rbind_Inr prod.case Suc_eq_plus1)
qed

lemma int33_from_last:
  assumes "i < length buf" "buf ! i = b" "b AND 0x80 = 0" "s < 35"
  shows "int33_from buf s i b0 ret = int33Finish (ucast b) (s + 7) (Suc i) (ret OR push_bit s (ucast b AND 0x7f))"
proof -
  have "(length buf \<le> i) = False" using assms(1) by simp
  then show ?thesis
    unfolding int33_from_def
    by (subst LoadInt33_loop.simps)
      (simp only: assms Let_def test_bit7 clear_bit7 if_True if_False simp_thms rbind_Inr prod.case Suc_eq_plus1)
qed

lemma sext33_last:
  assumes "last_group v"
  shows "sext33 (if s + 7 < 33 \<and> bit (v AND 0x7f) 6
                 then (ret OR push_bit s (v AND 0x7f)) OR push_bit (s + 7) (mask 33)
                 else ret OR push_bit s (v AND 0x7f)) = sext33 (ret OR push_bit s v)"
proof (rule sext33_cong)
  fix n :: nat assume n: "n < 33"
  then have high: "bit v (n - s) \<longleftrightarrow> bit v 6" if "\<not> n - s < 7"
    using that by (intro last_group_bits [OF assms]) auto
  have b6: "bit (v AND 0x7f) 6 \<longleftrightarrow> bit v 6" by (simp add: bit_simps bit_masks)
  show "bit (if s + 7 < 33 \<and> bit (v AND 0x7f) 6
      then (ret OR push_bit s (v AND 0x7f)) OR push_bit (s + 7) (mask 33)
      else ret OR push_bit s (v AND 0x7f)) n = bit (ret OR push_bit s v) n"
    unfolding b6 using n high by (cases "n - s < 7") (auto simp: bit_simps bit_masks)
qed

lemma sext33_sign: "sint (sext33 x) < 0 \<longleftrightarrow> bit x 32"
  by (simp add: int64_sign bit_sext33)

lemma and_32_bit: "(v AND 0x7f) AND 0x20 = (if bit (v :: u64) 5 then 0x20 else 0)"
proof -
  have "(v AND 0x7f) AND 2 ^ 5 = (if bit (v AND 0x7f) 5 then 2 ^ 5 else 0)" by (rule and_exp_word)
  then show ?thesis by (simp add: bit_simps bit_masks)
qed

lemma int33_from_encoded:
  assumes "i < 5" "- (2 ^ (32 - 7 * i)) \<le> sint v" "sint v < 2 ^ (32 - 7 * i)"
    and "drop i buf = EncodeInt64 v @ rest" "\<And>n. 7 * i \<le> n \<Longrightarrow> \<not> bit ret n"
  shows "int33_from buf (7 * i) i b0 ret = Inr (sext33 (ret OR push_bit (7 * i) v), i + length (EncodeInt64 v))"
  using assms
proof (induction v arbitrary: i b0 ret rule: EncodeInt64_induct)
  case (last_byte v)
  note e = encoded_last [OF last_byte(1,5)]
  let ?x = "ret OR push_bit (7 * i) v"
  have "(v AND 0x7f) AND 0x20 = (if sint (sext33 ?x) < 0 then 0x20 else 0)" if "i = 4"
  proof -
    have "bit v 5 \<longleftrightarrow> sint v < 0" "bit v 4 \<longleftrightarrow> sint v < 0"
      using sint_range_bits [of 4 v] last_byte(3,4) that by simp_all
    moreover have "bit ?x 32 \<longleftrightarrow> bit v 4"
      using that last_byte(6) [of 32] by (simp add: bit_simps)
    ultimately show ?thesis by (simp add: sext33_sign and_32_bit)
  qed
  then have ok: "\<not> (Suc i = 5 \<and> (v AND 0x7f) AND 0x20 \<noteq> (if sint (sext33 ?x) < 0 then 0x20 else 0))"
    by auto
  have i: "\<not> Suc i > 5" "7 * i < 35" using last_byte(2) by simp_all
  have "int33Finish (v AND 0x7f) (7 * i + 7) (Suc i) (ret OR push_bit (7 * i) (v AND 0x7f)) =
      Inr (sext33 ?x, Suc i)"
    unfolding int33Finish_value Let_def sext33_last [OF last_byte(1)] using ok i(1)
    by (simp only: if_False)
  then show ?case
    by (simp only: int33_from_last [OF e(2,3) low7_and_128 i(2)] last_cast low7_uncast e(1)) simp
next
  case (more_bytes v)
  note e = encoded_more [OF more_bytes(1,6)]
  have "i \<noteq> 4" using more_bytes(1,4,5) by (auto simp: last_group_iff)
  then have i: "Suc i < 5" "32 - 7 * Suc i = 32 - 7 * i - 7" "7 \<le> 32 - 7 * i" "7 * i < 35"
    using more_bytes(3) by simp_all
  note range = sint_range_step [OF more_bytes(4,5) i(3), folded i(2)]
  have fresh: "\<not> bit (ret OR push_bit (7 * i) (v AND 0x7f)) n" if "7 * Suc i \<le> n" for n
    using that by (intro fresh_bits_step more_bytes(7) low7_no_high) simp_all
  have "\<exists>b. int33_from buf (7 * i) i b0 ret =
      int33_from buf (7 * Suc i) (Suc i) b (ret OR push_bit (7 * i) (v AND 0x7f))"
    by (simp only: int33_from_more [OF e(2,3) or_128_and_128 i(4)] more_cast mult_Suc_right add.commute) blast
  then show ?case
    using more_bytes(2) [OF i(1) range e(4) fresh]
    by (auto simp only: e(1) push_sdrop mult_Suc_right add.commute [of 7] list.size(4))
qed

lemma LoadInt33_EncodeInt64:
  assumes "- (2 ^ 32) \<le> sint v" "sint v < 2 ^ 32"
  shows "LoadInt33AsInt64 (EncodeInt64 v @ rest) = Inr (v, length (EncodeInt64 v))"
proof -
  have "int33_from (EncodeInt64 v @ rest) (7 * 0) 0 0 0 =
      Inr (sext33 (0 OR push_bit (7 * 0) v), 0 + length (EncodeInt64 v))"
    using assms by (intro int33_from_encoded) simp_all
  then show ?thesis by (simp add: LoadInt33AsInt64_def int33_from_def sext33_fits [OF assms])
qed

subsection \<open>The codec interface\<close>

text \<open>
  What the rest of the program relies on in a LEB128 codec: the loader, given the encoding of a value
  with anything behind it, returns the value and the number of bytes that encode it.
\<close>

locale varint =
  fixes enc :: "'v \<Rightarrow> byte list"
    and load :: "byte list \<Rightarrow> leb_error + 'v \<times> nat"
  assumes load_enc: "load (enc v @ rest) = Inr (v, length (enc v))"
begin

lemma load_alone: "load (enc v) = Inr (v, length (enc v))"
  using load_enc [of v "[]"] by simp

lemma enc_unambiguous: "enc v @ xs = enc w @ ys \<Longrightarrow> v = w \<and> xs = ys"
  by (metis load_enc Inr_inject Pair_inject append_same_eq same_append_eq)

lemma enc_inject: "enc v = enc w \<longleftrightarrow> v = w"
  using enc_unambiguous [of v "[]" w "[]"] by auto

lemma concat_enc_inject: "concat (map enc vs) = concat (map enc ws) \<Longrightarrow> enc v \<noteq> [] \<Longrightarrow>
    length vs = length ws \<Longrightarrow> vs = ws"
  by (induction vs ws rule: list_induct2') (auto dest: enc_unambiguous)

end

interpretation leb_u32: varint EncodeUint32 LoadUint32
  by unfold_locales (rule LoadUint32_EncodeUint32)

interpretation leb_u64: varint EncodeUint64 LoadUint64
  by unfold_locales (rule LoadUint64_EncodeUint64)

interpretation leb_s32: varint EncodeInt32 LoadInt32
  by unfold_locales (rule LoadInt32_EncodeInt32)

interpretation leb_s64: varint EncodeInt64 LoadInt64
  by unfold_locales (rule LoadInt64_EncodeInt64)

lemma sint_index64: "sint (ucast (e :: u32) :: u64) = uint e"
proof -
  have u: "0 \<le> uint e" "uint e < 2 ^ 32"
    using uint_bounded [of e] by simp_all
  have "uint (ucast e :: u64) = uint e"
    using u by (simp add: unsigned_ucast_eq take_bit_int_eq_self_iff del: uint_ge_0) linarith?
  then show ?thesis
    unfolding sint_uint using u by (subst signed_take_bit_int_eq_self) (use uint_ge_0 [of e] in \<open>simp_all, linarith\<close>)
qed

text \<open>The codec of the type indices of a component binary: an index, as a non-negative \<open>s33\<close>.\<close>

lemma LoadInt33_index: "LoadInt33AsInt64 (EncodeInt64 (ucast (e :: u32)) @ rest) = Inr (ucast e, length (EncodeInt64 (ucast e)))"
proof -
  have "0 \<le> uint e" "uint e < 2 ^ 32" using uint_bounded [of e] by simp_all
  then show ?thesis by (intro LoadInt33_EncodeInt64) (use sint_index64 [of e] in linarith)+
qed

interpretation leb_s33: varint "\<lambda>e :: u32. EncodeInt64 (ucast e)" "\<lambda>bs. rbind (LoadInt33AsInt64 bs) (\<lambda>(v, n). Inr (ucast v, n))"
  by unfold_locales (simp add: LoadInt33_index ucast_down_ucast_id is_down_def target_size_def source_size_def word_size)

subsection \<open>A reader gives what a buffer gives\<close>

lemma DecodeUint32_Load: "DecodeUint32 buf = with_rest buf (LoadUint32 buf)"
  using DecodeUint32_loop_Load [of 0 0 0 buf] by (simp add: DecodeUint32_def LoadUint32_def)

lemma DecodeInt32_Load: "DecodeInt32 buf = with_rest buf (LoadInt32 buf)"
  using DecodeInt32_loop_Load [of 0 0 0 buf] by (simp add: DecodeInt32_def LoadInt32_def)

lemma DecodeInt64_Load: "DecodeInt64 buf = with_rest buf (LoadInt64 buf)"
  using DecodeInt64_loop_Load [of 0 0 0 buf] by (simp add: DecodeInt64_def LoadInt64_def)

lemma DecodeInt33_Load: "DecodeInt33AsInt64 buf = with_rest buf (LoadInt33AsInt64 buf)"
proof (cases "LoadInt33_loop buf 0 0 0 0")
  case (Inl e)
  then show ?thesis
    using DecodeInt33_loop_Load [of 0 0 0 0 buf] by (simp add: DecodeInt33AsInt64_def LoadInt33AsInt64_def)
next
  case (Inr x)
  then obtain b shift n ret where x: "LoadInt33_loop buf 0 0 0 0 = Inr (b, shift, n, ret)" by (cases x) auto
  show ?thesis
    using DecodeInt33_loop_Load [of 0 0 0 0 buf] int33Finish_bytes [of b shift n ret]
    by (cases "int33Finish b shift n ret") (auto simp: DecodeInt33AsInt64_def LoadInt33AsInt64_def x)
qed

lemma DecodeUint32_encoded: "DecodeUint32 (EncodeUint32 v @ rest) = Inr (v, length (EncodeUint32 v), rest)"
  by (simp add: DecodeUint32_Load LoadUint32_EncodeUint32)

lemma EncodeUint32_nonempty [simp]: "EncodeUint32 v \<noteq> []"
  by (simp add: EncodeUint32_def EncodeUint64_unfold [of "ucast v"])

lemma DecodeUint32_loop_progress:
  "DecodeUint32_loop i s ret r = Inr (v, n, r') \<Longrightarrow>
   i < n \<and> n \<le> maxVarintLen32 \<and> length r' + (n - i) = length r \<and> r' = drop (n - i) r"
proof (induction i s ret r rule: DecodeUint32_loop.induct)
  case (1 i s ret r)
  show ?case
    using 1(2) 1(1)
    by (subst (asm) DecodeUint32_loop.simps)
      (auto split: if_splits list.splits simp: drop_Cons' Suc_diff_le)
qed

lemma DecodeUint32_progress:
  "DecodeUint32 r = Inr (v, n, r') \<Longrightarrow> 0 < n \<and> n \<le> 5 \<and> n + length r' = length r \<and> r' = drop n r"
  using DecodeUint32_loop_progress [of 0 0 0 r] by (auto simp: DecodeUint32_def)

subsection \<open>Properties\<close>

text \<open>C40. LEB128 round trip: each of the four loaders, given an encoded integer followed by any bytes,
  returns the integer and the length of its encoding; the 33-bit loader does so for every
  unsigned 32-bit index, written as the non-negative \<open>s33\<close> it is.\<close>

theorem leb128_roundtrip:
  "LoadUint32 (EncodeUint32 a @ rest) = Inr (a, length (EncodeUint32 a)) \<and>
   LoadUint64 (EncodeUint64 b @ rest) = Inr (b, length (EncodeUint64 b)) \<and>
   LoadInt32 (EncodeInt32 c @ rest) = Inr (c, length (EncodeInt32 c)) \<and>
   LoadInt64 (EncodeInt64 d @ rest) = Inr (d, length (EncodeInt64 d)) \<and>
   LoadInt33AsInt64 (EncodeInt64 (ucast (e :: u32)) @ rest) = Inr (ucast e, length (EncodeInt64 (ucast e)))"
  by (intro conjI; rule leb_u32.load_enc leb_u64.load_enc leb_s32.load_enc leb_s64.load_enc LoadInt33_index)

text \<open>Decoding through a reader and loading from a buffer agree, on the value, on the number of bytes,
  on what is left to read, and on every error.\<close>

theorem leb128_reader_agrees:
  "DecodeUint32 buf = with_rest buf (LoadUint32 buf) \<and>
   DecodeInt32 buf = with_rest buf (LoadInt32 buf) \<and>
   DecodeInt64 buf = with_rest buf (LoadInt64 buf) \<and>
   DecodeInt33AsInt64 buf = with_rest buf (LoadInt33AsInt64 buf)"
  by (intro conjI; rule DecodeUint32_Load DecodeInt32_Load DecodeInt64_Load DecodeInt33_Load)

text \<open>The overflow checks let malformed integers through: bit 6 of the final byte is outside the range of
  an \<open>s32\<close>, \<open>s33\<close> or \<open>s64\<close>, the checks do not look at it, and the 33-bit
  decoder accepts five bytes that all announce another one.\<close>

theorem leb128_accepts_overlong:
  "LoadInt32 [0x80, 0x80, 0x80, 0x80, 0x40] = Inr (0, 5) \<and>
   LoadInt64 [0x80, 0x80, 0x80, 0x80, 0x80, 0x80, 0x80, 0x80, 0x80, 0x40] = Inr (0, 10) \<and>
   LoadInt33AsInt64 [0x80, 0x80, 0x80, 0x80, 0x40] = Inr (0, 5) \<and>
   LoadInt33AsInt64 [0x80, 0x80, 0x80, 0x80, 0x80] = Inr (0, 5)"
  by (intro conjI; code_simp)

end
