(* ===== verification/Types.thy ===== *)
theory Types
  imports Prelude
begin

text \<open>
  The type descriptors of \<open>internal/binary/descriptor.go\<close>, the errors of the Canonical ABI code
  and the resolution of a type reference.

  A descriptor refers to other types by \<open>type_ref\<close> only (a primitive's name or an index), so
  \<open>type_desc\<close> is not recursive: the type graph lives in the resolver. The Go interface value
  \<open>TypeDesc\<close> may be nil, which is \<open>None :: type_desc option\<close>; the resolver, a func
  value, may be nil too. The recursion of the ABI code along the graph is bounded by a fuel
  argument; running out is the error \<open>OutOfFuel\<close>, which stands for a recursion that goes deeper
  than the fuel (in Go: the stack). Texts of error messages are not modelled, nor
  the prefixes that wrapping with \<open>%w\<close> adds: an error is its innermost cause.
\<close>

record type_ref =
  Primitive :: string
  TypeIndex :: "u32 option"

record record_field =
  FieldName :: string
  FieldType :: type_ref

record variant_case =
  CaseName :: string
  CaseType :: "type_ref option"

record func_param =
  ParamName :: string
  ParamType :: type_ref

record func_result =
  ResultName :: string
  ResultType :: type_ref

record func_results =
  Unnamed :: "type_ref option"
  Named :: "func_result list"

record func_desc =
  Params :: "func_param list"
  Results :: func_results
  Async :: bool

datatype type_desc =
    PrimitiveDesc string
  | RecordDesc "record_field list"
  | VariantDesc "variant_case list"
  | ListDesc type_ref
  | TupleDesc "type_ref list"
  | FlagsDesc "string list"
  | EnumDesc "string list"
  | OptionDesc type_ref
  | ResultDesc "type_ref option" "type_ref option"
  | OwnDesc u32
  | BorrowDesc u32
  | StreamDesc "type_ref option"
  | FutureDesc "type_ref option"
  | FuncDesc func_desc
  | InstanceDesc "(string \<times> type_ref) list"
  | ComponentDesc
  | ResourceDesc type_ref "u32 option"

fun Kind :: "type_desc \<Rightarrow> string" where
  "Kind (PrimitiveDesc p) = p"
| "Kind (RecordDesc _) = ''record''"
| "Kind (VariantDesc _) = ''variant''"
| "Kind (ListDesc _) = ''list''"
| "Kind (TupleDesc _) = ''tuple''"
| "Kind (FlagsDesc _) = ''flags''"
| "Kind (EnumDesc _) = ''enum''"
| "Kind (OptionDesc _) = ''option''"
| "Kind (ResultDesc _ _) = ''result''"
| "Kind (OwnDesc _) = ''own''"
| "Kind (BorrowDesc _) = ''borrow''"
| "Kind (StreamDesc _) = ''stream''"
| "Kind (FutureDesc _) = ''future''"
| "Kind (FuncDesc _) = ''func''"
| "Kind (InstanceDesc _) = ''instance''"
| "Kind ComponentDesc = ''component''"
| "Kind (ResourceDesc _ _) = ''resource''"

datatype abi_error =
    OutOfFuel
  | Panic string
  \<comment> \<open>layout.go\<close>
  | NestingTooDeep
  | NeitherPrimitiveNorIndex
  | TypeCycle u32
  | NeedsResolver u32
  | ResolvedToNil u32
  | NilTypeReference
  | AlignOverflow nat nat
  | AddOverflow nat nat
  | UnsupportedType type_desc
  | UnknownDescriptor
  | UnknownPrimitive string
  | InvalidFlags nat
  | InvalidEnum nat
  \<comment> \<open>flatten.go\<close>
  | InvalidContext string
  \<comment> \<open>memory.go\<close>
  | BufferOverflow nat nat nat
  | ByteLengthOverflow nat nat
  | NoRealloc
  | ReallocFailed string
  | NotAligned nat nat
  | CharOutOfRange
  | CharSurrogate
  | InvalidNbytes nat
  | InvalidUtf8 nat nat
  | ListTooLong nat
  | CaseOutOfRange nat nat
  | InvalidDiscriminant nat
  | ExpectedType string
  | WrongArity nat nat
  | AllocatedOutOfBounds nat nat
  | PayloadRequired nat
  \<comment> \<open>coreval.go and flat.go\<close>
  | IterOutOfRange
  | ExpectedDiscriminant
  | UnknownJoinedType string
  | StringNotSingle
  | ExpectedOneValue nat

abbreviation index_at :: "'a list \<Rightarrow> nat \<Rightarrow> abi_error + 'a" where
  "index_at \<equiv> indexed (Panic ''index out of range'')"

abbreviation slice_at :: "'a list \<Rightarrow> nat \<Rightarrow> nat \<Rightarrow> abi_error + 'a list" where
  "slice_at \<equiv> sliced (Panic ''slice bounds out of range'')"

type_synonym resolver = "(u32 \<Rightarrow> type_desc option) option"

definition resolveType :: "type_ref option \<Rightarrow> resolver \<Rightarrow> abi_error + type_desc option" where
  "resolveType ref resolve =
     (case ref of None \<Rightarrow> Inl NilTypeReference
      | Some ref \<Rightarrow>
          if Primitive ref \<noteq> '''' then Inr (Some (PrimitiveDesc (Primitive ref)))
          else (case TypeIndex ref of
                  Some idx \<Rightarrow>
                    (case resolve of None \<Rightarrow> Inl (NeedsResolver idx) | Some f \<Rightarrow> Inr (f idx))
                | None \<Rightarrow> Inl NeitherPrimitiveNorIndex))"

text \<open>References written by hand.\<close>

definition prim :: "string \<Rightarrow> type_ref" where
  "prim p = \<lparr>Primitive = p, TypeIndex = None\<rparr>"

definition tidx :: "u32 \<Rightarrow> type_ref" where
  "tidx i = \<lparr>Primitive = '''', TypeIndex = Some i\<rparr>"

lemma resolveType_simps [simp]:
  "resolveType None r = Inl NilTypeReference"
  "p \<noteq> '''' \<Longrightarrow> resolveType (Some (prim p)) r = Inr (Some (PrimitiveDesc p))"
  "resolveType (Some (tidx i)) (Some f) = Inr (f i)"
  by (simp_all add: resolveType_def prim_def tidx_def)

subsection \<open>Fuel\<close>

text \<open>
  \<open>fuel_le m m'\<close>: \<open>m'\<close> is the result \<open>m\<close> unless \<open>m\<close> ran out of fuel. Every recursive function
  of the ABI model is monotone in this order, so that a result found with some fuel is the
  result with any larger one.
\<close>

definition fuel_le :: "abi_error + 'a \<Rightarrow> abi_error + 'a \<Rightarrow> bool" where
  "fuel_le m m' \<longleftrightarrow> m = Inl OutOfFuel \<or> m' = m"

named_theorems fuel_intros \<open>monotonicity in the fuel\<close>
named_theorems no_fuel \<open>operations that do not recurse along the type graph\<close>

lemma fuel_le_refl [fuel_intros, simp]: "fuel_le m m"
  by (simp add: fuel_le_def)

lemma fuel_le_bot [simp]: "fuel_le (Inl OutOfFuel) m"
  by (simp add: fuel_le_def)

lemma fuel_le_rbind [fuel_intros]:
  "fuel_le m m' \<Longrightarrow> (\<And>x. m = Inr x \<Longrightarrow> fuel_le (f x) (f' x)) \<Longrightarrow> fuel_le (rbind m f) (rbind m' f')"
  by (cases m) (auto simp: fuel_le_def)

lemma fuel_le_foldE [fuel_intros]:
  "(\<And>a x. x \<in> set xs \<Longrightarrow> fuel_le (f a x) (f' a x)) \<Longrightarrow> fuel_le (foldE f acc xs) (foldE f' acc xs)"
  by (induction xs arbitrary: acc) (auto intro!: fuel_le_rbind)

lemma fuel_le_if [fuel_intros]:
  "(c \<Longrightarrow> fuel_le a a') \<Longrightarrow> (\<not> c \<Longrightarrow> fuel_le b b') \<Longrightarrow> fuel_le (if c then a else b) (if c then a' else b')"
  by simp

lemma fuel_leD: "fuel_le m m' \<Longrightarrow> m \<noteq> Inl OutOfFuel \<Longrightarrow> m' = m"
  by (auto simp: fuel_le_def)

text \<open>\<open>returns m\<close>: the fuel was enough.\<close>

definition returns :: "abi_error + 'a \<Rightarrow> bool" where
  "returns m \<longleftrightarrow> m \<noteq> Inl OutOfFuel"

lemma returns_result [simp]: "returns (Inr x)" "returns (Inl e) \<longleftrightarrow> e \<noteq> OutOfFuel"
  by (simp_all add: returns_def)

lemma returns_rbind [no_fuel]:
  "returns m \<Longrightarrow> (\<And>x. m = Inr x \<Longrightarrow> returns (f x)) \<Longrightarrow> returns (rbind m f)"
  by (cases m) auto

lemma returns_foldE [no_fuel]:
  "(\<And>a x. x \<in> set xs \<Longrightarrow> returns (f a x)) \<Longrightarrow> returns (foldE f acc xs)"
  unfolding returns_def by (meson foldE_error)

lemma returns_forE [no_fuel]: "(\<And>x. x \<in> set xs \<Longrightarrow> returns (f x)) \<Longrightarrow> returns (forE f xs)"
  unfolding forE_def by (rule returns_foldE)

lemma returns_option [no_fuel]:
  "returns a \<Longrightarrow> (\<And>y. x = Some y \<Longrightarrow> returns (f y)) \<Longrightarrow> returns (case x of None \<Rightarrow> a | Some y \<Rightarrow> f y)"
  by (cases x) auto

lemma returns_prod [no_fuel]:
  "(\<And>a b. x = (a, b) \<Longrightarrow> returns (f a b)) \<Longrightarrow> returns (case x of (a, b) \<Rightarrow> f a b)"
  by (cases x) auto

lemma returns_if [no_fuel]:
  "(c \<Longrightarrow> returns a) \<Longrightarrow> (\<not> c \<Longrightarrow> returns b) \<Longrightarrow> returns (if c then a else b)"
  by simp

lemma returns_resolveType [simp]: "returns (resolveType ref r)"
  by (auto simp: resolveType_def split: option.splits)

lemma fuel_le_returns: "fuel_le m m' \<Longrightarrow> returns m \<Longrightarrow> m' = m"
  by (auto simp: fuel_le_def returns_def)

lemma fuel_step_le:
  assumes "\<And>n. fuel_le (f n) (f (Suc n))" "m \<le> n" "returns (f m)"
  shows "f n = f m"
  using assms(2)
proof (induction rule: dec_induct)
  case (step n)
  then show ?case using fuel_le_returns [OF assms(1) [of n]] assms(3) by simp
qed simp

lemma fuel_le_option [fuel_intros]:
  "fuel_le a a' \<Longrightarrow> (\<And>y. x = Some y \<Longrightarrow> fuel_le (f y) (f' y)) \<Longrightarrow>
   fuel_le (case x of None \<Rightarrow> a | Some y \<Rightarrow> f y) (case x of None \<Rightarrow> a' | Some y \<Rightarrow> f' y)"
  by (cases x) auto

lemma fuel_le_prod [fuel_intros]:
  "(\<And>a b. x = (a, b) \<Longrightarrow> fuel_le (f a b) (f' a b)) \<Longrightarrow>
   fuel_le (case x of (a, b) \<Rightarrow> f a b) (case x of (a, b) \<Rightarrow> f' a b)"
  by (cases x) auto

text \<open>The order on recursive calls that the functions taking one are monotone in.\<close>

definition rec_le :: "('a \<Rightarrow> abi_error + 'b) \<Rightarrow> ('a \<Rightarrow> abi_error + 'b) \<Rightarrow> bool" where
  "rec_le f g \<longleftrightarrow> (\<forall>t. fuel_le (f t) (g t))"

lemma rec_leD: "rec_le f g \<Longrightarrow> fuel_le (f t) (g t)"
  by (simp add: rec_le_def)

end
