(* ===== verification/Layout.thy ===== *)
theory Layout
  imports Types "HOL-Library.Log_Nat"
begin

text \<open>
  \<open>internal/abi/layout.go\<close>: the byte alignment and size of a type, and the validation of the type
  graph that guards both. Sizes, alignments and offsets are \<open>uint32\<close> in the source with every
  overflow checked in 64-bit arithmetic; here they are naturals with the same checks written out.

  A recursive function takes its recursive call as an argument (\<open>rec\<close>, \<open>al\<close>, \<open>sz\<close>), so that
  each function of the source is a definition of its own; \<open>alignmentUnchecked\<close> and \<open>sizeUnchecked\<close>
  close the recursion on the fuel.
\<close>

definition MaxUint32 :: nat where "MaxUint32 = 4294967295"

definition maxLayoutTypeDepth :: nat where "maxLayoutTypeDepth = 64"

subsection \<open>Validation of the type graph\<close>

definition validateRef ::
    "(type_desc option \<Rightarrow> u32 set \<Rightarrow> abi_error + unit) \<Rightarrow> resolver \<Rightarrow> u32 set \<Rightarrow> type_ref \<Rightarrow> abi_error + unit" where
  "validateRef rec resolve visiting ref =
     (if Primitive ref \<noteq> '''' then Inr ()
      else (case TypeIndex ref of
              None \<Rightarrow> Inl NeitherPrimitiveNorIndex
            | Some idx \<Rightarrow>
                if idx \<in> visiting then Inl (TypeCycle idx)
                else (case resolve of
                        None \<Rightarrow> Inl (NeedsResolver idx)
                      | Some f \<Rightarrow>
                          (case f idx of
                             None \<Rightarrow> Inl (ResolvedToNil idx)
                           | Some d \<Rightarrow> rec (Some d) (insert idx visiting)))))"

text \<open>The marks the source sets around the recursive call are removed when it returns.\<close>

function validateLayoutDesc :: "type_desc option \<Rightarrow> resolver \<Rightarrow> nat \<Rightarrow> u32 set \<Rightarrow> abi_error + unit" where
  "validateLayoutDesc t resolve depth visiting =
     (if depth > maxLayoutTypeDepth then Inl NestingTooDeep
      else let vref = validateRef (\<lambda>d vis. validateLayoutDesc d resolve (depth + 1) vis) resolve visiting
        in case t of
          Some (RecordDesc fs) \<Rightarrow> forE (\<lambda>f. vref (FieldType f)) fs
        | Some (VariantDesc cs) \<Rightarrow>
            forE (\<lambda>c. case CaseType c of None \<Rightarrow> Inr () | Some ref \<Rightarrow> vref ref) cs
        | Some (TupleDesc elems) \<Rightarrow> forE vref elems
        | Some (OptionDesc elem) \<Rightarrow> vref elem
        | Some (ResultDesc okr errr) \<Rightarrow>
            rbind (case okr of None \<Rightarrow> Inr () | Some ref \<Rightarrow> vref ref)
              (\<lambda>_. case errr of None \<Rightarrow> Inr () | Some ref \<Rightarrow> vref ref)
        | _ \<Rightarrow> Inr ())"
  by pat_completeness auto
termination
  by (relation "measure (\<lambda>(t, resolve, depth, visiting). Suc maxLayoutTypeDepth - depth)") auto

declare validateLayoutDesc.simps [simp del]

definition validateLayoutType :: "type_desc option \<Rightarrow> resolver \<Rightarrow> abi_error + unit" where
  "validateLayoutType t resolve = validateLayoutDesc t resolve 0 {}"

subsection \<open>Checked arithmetic\<close>

definition checkedAlign :: "nat \<Rightarrow> nat \<Rightarrow> abi_error + nat" where
  "checkedAlign offset alignment =
     (if alignment = 0 then Inr offset
      else let sum = offset + alignment - 1
        in if sum > MaxUint32 then Inl (AlignOverflow offset alignment)
           else Inr ((sum div alignment) * alignment))"

definition Align :: "nat \<Rightarrow> nat \<Rightarrow> nat" where
  "Align offset alignment =
     (case checkedAlign offset alignment of Inl e \<Rightarrow> MaxUint32 | Inr aligned \<Rightarrow> aligned)"

definition checkedAdd :: "nat \<Rightarrow> nat \<Rightarrow> abi_error + nat" where
  "checkedAdd a b =
     (let sum = a + b in if sum > MaxUint32 then Inl (AddOverflow a b) else Inr sum)"

subsection \<open>Discriminants and primitives\<close>

text \<open>
  \<open>math.Ceil(math.Log2(float64(numCases)) / 8)\<close>, in integers: \<open>ceillog2\<close> is the ceiling of the
  binary logarithm (lemma \<open>logCases_real\<close> below relates the two over the reals).
\<close>

definition logCases :: "nat \<Rightarrow> nat" where
  "logCases numCases = (ceillog2 numCases + 7) div 8"

definition DiscriminantType :: "nat \<Rightarrow> string" where
  "DiscriminantType numCases =
     (if numCases \<le> 0 \<or> numCases > MaxUint32 then ''''
      else let lc = logCases numCases
        in if lc = 0 \<or> lc = 1 then ''u8'' else if lc = 2 then ''u16'' else ''u32'')"

definition alignmentPrimitive :: "string \<Rightarrow> abi_error + nat" where
  "alignmentPrimitive p =
     (if p \<in> {''bool'', ''s8'', ''u8''} then Inr 1
      else if p \<in> {''s16'', ''u16''} then Inr 2
      else if p \<in> {''s32'', ''u32'', ''f32'', ''char''} then Inr 4
      else if p \<in> {''s64'', ''u64'', ''f64''} then Inr 8
      else if p = ''string'' then Inr 4
      else if p = ''error-context'' then Inr 4
      else Inl (UnknownPrimitive p))"

definition sizePrimitive :: "string \<Rightarrow> abi_error + nat" where
  "sizePrimitive p =
     (if p \<in> {''bool'', ''s8'', ''u8''} then Inr 1
      else if p \<in> {''s16'', ''u16''} then Inr 2
      else if p \<in> {''s32'', ''u32'', ''f32'', ''char''} then Inr 4
      else if p \<in> {''s64'', ''u64'', ''f64''} then Inr 8
      else if p = ''string'' then Inr 8
      else if p = ''error-context'' then Inr 4
      else Inl (UnknownPrimitive p))"

type_synonym rec_fn = "type_desc option \<Rightarrow> abi_error + nat"

subsection \<open>Alignments\<close>

text \<open>The alignment of a reference: \<open>resolveType\<close>, then the recursive call.\<close>

definition ref_alignment :: "rec_fn \<Rightarrow> resolver \<Rightarrow> type_ref \<Rightarrow> abi_error + nat" where
  "ref_alignment rec resolve ref = rbind (resolveType (Some ref) resolve) rec"

definition MaxCaseAlignment :: "rec_fn \<Rightarrow> resolver \<Rightarrow> variant_case list \<Rightarrow> abi_error + nat" where
  "MaxCaseAlignment rec resolve cs =
     foldE (\<lambda>maxAlign c. case CaseType c of
              None \<Rightarrow> Inr maxAlign
            | Some ref \<Rightarrow> rbind (ref_alignment rec resolve ref) (\<lambda>align. Inr (if align > maxAlign then align else maxAlign)))
       1 cs"

definition alignmentRecord :: "rec_fn \<Rightarrow> resolver \<Rightarrow> record_field list \<Rightarrow> abi_error + nat" where
  "alignmentRecord rec resolve fs =
     foldE (\<lambda>maxAlign f. rbind (ref_alignment rec resolve (FieldType f))
              (\<lambda>align. Inr (if align > maxAlign then align else maxAlign))) 1 fs"

definition alignmentTuple :: "rec_fn \<Rightarrow> resolver \<Rightarrow> type_ref list \<Rightarrow> abi_error + nat" where
  "alignmentTuple rec resolve elems =
     foldE (\<lambda>maxAlign elem. rbind (ref_alignment rec resolve elem)
              (\<lambda>align. Inr (if align > maxAlign then align else maxAlign))) 1 elems"

definition alignmentVariant :: "rec_fn \<Rightarrow> resolver \<Rightarrow> variant_case list \<Rightarrow> abi_error + nat" where
  "alignmentVariant rec resolve cs =
     rbind (alignmentPrimitive (DiscriminantType (length cs))) (\<lambda>discAlign.
     rbind (MaxCaseAlignment rec resolve cs) (\<lambda>maxCaseAlign.
       if maxCaseAlign > discAlign then Inr maxCaseAlign else Inr discAlign))"

definition alignmentFlagsNumLabels :: "nat \<Rightarrow> abi_error + nat" where
  "alignmentFlagsNumLabels numLabels =
     (if numLabels \<le> 0 \<or> numLabels > 32 then Inl (InvalidFlags numLabels)
      else if numLabels \<le> 8 then Inr 1 else if numLabels \<le> 16 then Inr 2 else Inr 4)"

definition alignmentEnum :: "string list \<Rightarrow> abi_error + nat" where
  "alignmentEnum cs =
     (let discType = DiscriminantType (length cs)
      in if discType = '''' then Inl (InvalidEnum (length cs)) else alignmentPrimitive discType)"

definition alignmentOption :: "rec_fn \<Rightarrow> resolver \<Rightarrow> type_ref \<Rightarrow> abi_error + nat" where
  "alignmentOption rec resolve elem =
     rbind (ref_alignment rec resolve elem) (\<lambda>elemAlign.
       let discAlign = 1 in if elemAlign > discAlign then Inr elemAlign else Inr discAlign)"

text \<open>The alignment of an arm of a result, joined into the running maximum; an arm may be absent.\<close>

definition join_arm_alignment :: "rec_fn \<Rightarrow> resolver \<Rightarrow> type_ref option \<Rightarrow> nat \<Rightarrow> abi_error + nat" where
  "join_arm_alignment rec resolve arm maxAlign =
     (case arm of None \<Rightarrow> Inr maxAlign
      | Some ref \<Rightarrow> rbind (ref_alignment rec resolve ref)
          (\<lambda>align. Inr (if align > maxAlign then align else maxAlign)))"

definition alignmentResult :: "rec_fn \<Rightarrow> resolver \<Rightarrow> type_ref option \<Rightarrow> type_ref option \<Rightarrow> abi_error + nat" where
  "alignmentResult rec resolve okr errr =
     rbind (join_arm_alignment rec resolve okr 1) (\<lambda>m1.
     rbind (join_arm_alignment rec resolve errr m1) (\<lambda>maxAlign.
       let discAlign = 1 in if maxAlign > discAlign then Inr maxAlign else Inr discAlign))"

primrec alignmentUnchecked :: "nat \<Rightarrow> resolver \<Rightarrow> type_desc option \<Rightarrow> abi_error + nat" where
  "alignmentUnchecked 0 resolve t = Inl OutOfFuel"
| "alignmentUnchecked (Suc fuel) resolve t =
     (let rec = alignmentUnchecked fuel resolve
      in case t of
        None \<Rightarrow> Inl UnknownDescriptor
      | Some desc \<Rightarrow>
          (case desc of
             PrimitiveDesc p \<Rightarrow> alignmentPrimitive p
           | ListDesc _ \<Rightarrow> Inr 4
           | RecordDesc fs \<Rightarrow> alignmentRecord rec resolve fs
           | VariantDesc cs \<Rightarrow> alignmentVariant rec resolve cs
           | TupleDesc elems \<Rightarrow> alignmentTuple rec resolve elems
           | FlagsDesc names \<Rightarrow> alignmentFlagsNumLabels (length names)
           | EnumDesc cs \<Rightarrow> alignmentEnum cs
           | OptionDesc elem \<Rightarrow> alignmentOption rec resolve elem
           | ResultDesc okr errr \<Rightarrow> alignmentResult rec resolve okr errr
           | OwnDesc _ \<Rightarrow> Inr 4 | BorrowDesc _ \<Rightarrow> Inr 4
           | StreamDesc _ \<Rightarrow> Inr 4 | FutureDesc _ \<Rightarrow> Inr 4
           | FuncDesc _ \<Rightarrow> Inl (UnsupportedType desc) | InstanceDesc _ \<Rightarrow> Inl (UnsupportedType desc)
           | ComponentDesc \<Rightarrow> Inl (UnsupportedType desc) | ResourceDesc _ _ \<Rightarrow> Inl (UnsupportedType desc)))"

subsection \<open>Sizes\<close>

text \<open>One field of a record or tuple: align the offset, then step over the element.\<close>

definition size_field :: "rec_fn \<Rightarrow> rec_fn \<Rightarrow> resolver \<Rightarrow> nat \<Rightarrow> type_ref \<Rightarrow> abi_error + nat" where
  "size_field al sz resolve offset ref =
     rbind (resolveType (Some ref) resolve) (\<lambda>ft.
     rbind (al ft) (\<lambda>align.
     rbind (checkedAlign offset align) (\<lambda>offset.
     rbind (sz ft) (\<lambda>size.
       checkedAdd offset size))))"

definition sizeRecord :: "rec_fn \<Rightarrow> rec_fn \<Rightarrow> resolver \<Rightarrow> record_field list \<Rightarrow> abi_error + nat" where
  "sizeRecord al sz resolve fs =
     rbind (foldE (\<lambda>offset f. size_field al sz resolve offset (FieldType f)) 0 fs) (\<lambda>offset.
     rbind (alignmentRecord al resolve fs) (\<lambda>recordAlign.
       checkedAlign offset recordAlign))"

definition sizeTuple :: "rec_fn \<Rightarrow> rec_fn \<Rightarrow> resolver \<Rightarrow> type_ref list \<Rightarrow> abi_error + nat" where
  "sizeTuple al sz resolve elems =
     rbind (foldE (\<lambda>offset elem. size_field al sz resolve offset elem) 0 elems) (\<lambda>offset.
     rbind (alignmentTuple al resolve elems) (\<lambda>tupleAlign.
       checkedAlign offset tupleAlign))"

definition sizeVariant :: "rec_fn \<Rightarrow> rec_fn \<Rightarrow> resolver \<Rightarrow> variant_case list \<Rightarrow> abi_error + nat" where
  "sizeVariant al sz resolve cs =
     rbind (sizePrimitive (DiscriminantType (length cs))) (\<lambda>discSize.
     rbind (MaxCaseAlignment al resolve cs) (\<lambda>maxCaseAlign.
     rbind (checkedAlign discSize maxCaseAlign) (\<lambda>offset.
     rbind (foldE (\<lambda>maxCaseSize c. case CaseType c of
                None \<Rightarrow> Inr maxCaseSize
              | Some ref \<Rightarrow> rbind (resolveType (Some ref) resolve) (\<lambda>ct.
                  rbind (sz ct) (\<lambda>cSize. Inr (if cSize > maxCaseSize then cSize else maxCaseSize)))) 0 cs)
       (\<lambda>maxCaseSize.
     rbind (checkedAdd offset maxCaseSize) (\<lambda>offset.
     rbind (alignmentVariant al resolve cs) (\<lambda>variantAlign.
       checkedAlign offset variantAlign))))))"

definition sizeFlagsNumLabels :: "nat \<Rightarrow> abi_error + nat" where
  "sizeFlagsNumLabels numLabels =
     (if numLabels \<le> 0 \<or> numLabels > 32 then Inl (InvalidFlags numLabels)
      else if numLabels \<le> 8 then Inr 1 else if numLabels \<le> 16 then Inr 2 else Inr 4)"

definition sizeEnumNumCases :: "nat \<Rightarrow> abi_error + nat" where
  "sizeEnumNumCases numCases =
     (let discType = DiscriminantType numCases
      in if discType = '''' then Inl (InvalidEnum numCases) else sizePrimitive discType)"

definition sizeOption :: "rec_fn \<Rightarrow> rec_fn \<Rightarrow> resolver \<Rightarrow> type_ref \<Rightarrow> abi_error + nat" where
  "sizeOption al sz resolve elem =
     rbind (resolveType (Some elem) resolve) (\<lambda>elemT.
     rbind (sz elemT) (\<lambda>elemSize.
     rbind (al elemT) (\<lambda>elemAlign.
       let discAlign = 1; offset = 1
       in rbind (checkedAlign offset elemAlign) (\<lambda>offset.
          rbind (checkedAdd offset elemSize) (\<lambda>offset.
            checkedAlign offset (max discAlign elemAlign))))))"

text \<open>The largest payload size and alignment of the arms of a result.\<close>

definition join_arm_size ::
    "rec_fn \<Rightarrow> rec_fn \<Rightarrow> resolver \<Rightarrow> type_ref option \<Rightarrow> nat \<times> nat \<Rightarrow> abi_error + nat \<times> nat" where
  "join_arm_size al sz resolve arm = (\<lambda>(maxPayloadSize, maxPayloadAlign).
     case arm of None \<Rightarrow> Inr (maxPayloadSize, maxPayloadAlign)
     | Some ref \<Rightarrow>
         rbind (resolveType (Some ref) resolve) (\<lambda>t.
         rbind (sz t) (\<lambda>size.
         rbind (al t) (\<lambda>align.
           Inr (if size > maxPayloadSize then size else maxPayloadSize,
                if align > maxPayloadAlign then align else maxPayloadAlign)))))"

definition sizeResult :: "rec_fn \<Rightarrow> rec_fn \<Rightarrow> resolver \<Rightarrow> type_ref option \<Rightarrow> type_ref option \<Rightarrow> abi_error + nat" where
  "sizeResult al sz resolve okr errr =
     rbind (join_arm_size al sz resolve okr (0, 1)) (\<lambda>m1.
     rbind (join_arm_size al sz resolve errr m1) (\<lambda>(maxPayloadSize, maxPayloadAlign).
     rbind (checkedAlign 1 maxPayloadAlign) (\<lambda>offset.
     rbind (checkedAdd offset maxPayloadSize) (\<lambda>offset.
       let discAlign = 1 in checkedAlign offset (max discAlign maxPayloadAlign)))))"

primrec sizeUnchecked :: "nat \<Rightarrow> resolver \<Rightarrow> type_desc option \<Rightarrow> abi_error + nat" where
  "sizeUnchecked 0 resolve t = Inl OutOfFuel"
| "sizeUnchecked (Suc fuel) resolve t =
     (let al = alignmentUnchecked fuel resolve; sz = sizeUnchecked fuel resolve
      in case t of
        None \<Rightarrow> Inl UnknownDescriptor
      | Some desc \<Rightarrow>
          (case desc of
             PrimitiveDesc p \<Rightarrow> sizePrimitive p
           | ListDesc _ \<Rightarrow> Inr 8
           | RecordDesc fs \<Rightarrow> sizeRecord al sz resolve fs
           | VariantDesc cs \<Rightarrow> sizeVariant al sz resolve cs
           | TupleDesc elems \<Rightarrow> sizeTuple al sz resolve elems
           | FlagsDesc names \<Rightarrow> sizeFlagsNumLabels (length names)
           | EnumDesc cs \<Rightarrow> sizeEnumNumCases (length cs)
           | OptionDesc elem \<Rightarrow> sizeOption al sz resolve elem
           | ResultDesc okr errr \<Rightarrow> sizeResult al sz resolve okr errr
           | OwnDesc _ \<Rightarrow> Inr 4 | BorrowDesc _ \<Rightarrow> Inr 4
           | StreamDesc _ \<Rightarrow> Inr 4 | FutureDesc _ \<Rightarrow> Inr 4
           | FuncDesc _ \<Rightarrow> Inl (UnsupportedType desc) | InstanceDesc _ \<Rightarrow> Inl (UnsupportedType desc)
           | ComponentDesc \<Rightarrow> Inl (UnsupportedType desc) | ResourceDesc _ _ \<Rightarrow> Inl (UnsupportedType desc)))"

text \<open>
  \<open>Alignment\<close> and \<open>Size\<close> validate the type first. A validated graph is at most
  \<open>maxLayoutTypeDepth + 1\<close> references deep, so \<open>layout_fuel\<close> is never used up (lemmas
  \<open>Alignment_no_fuel\<close> and \<open>Size_no_fuel\<close>).
\<close>

definition layout_fuel :: nat where "layout_fuel = 66"

definition Alignment :: "type_desc option \<Rightarrow> resolver \<Rightarrow> abi_error + nat" where
  "Alignment t resolve = rbind (validateLayoutType t resolve) (\<lambda>_. alignmentUnchecked layout_fuel resolve t)"

definition Size :: "type_desc option \<Rightarrow> resolver \<Rightarrow> abi_error + nat" where
  "Size t resolve = rbind (validateLayoutType t resolve) (\<lambda>_. sizeUnchecked layout_fuel resolve t)"

subsection \<open>Monotonicity in the fuel\<close>

lemma ref_alignment_mono [fuel_intros]:
  "rec_le al al' \<Longrightarrow> fuel_le (ref_alignment al r ref) (ref_alignment al' r ref)"
  unfolding ref_alignment_def by (intro fuel_intros rec_leD)

lemma alignment_mono [fuel_intros]:
  assumes "rec_le al al'"
  shows "fuel_le (MaxCaseAlignment al r cs) (MaxCaseAlignment al' r cs)"
    and "fuel_le (alignmentRecord al r fs) (alignmentRecord al' r fs)"
    and "fuel_le (alignmentTuple al r es) (alignmentTuple al' r es)"
    and "fuel_le (alignmentVariant al r cs) (alignmentVariant al' r cs)"
    and "fuel_le (alignmentOption al r e) (alignmentOption al' r e)"
    and "fuel_le (alignmentResult al r a b) (alignmentResult al' r a b)"
  unfolding MaxCaseAlignment_def alignmentRecord_def alignmentTuple_def alignmentVariant_def
    alignmentOption_def alignmentResult_def join_arm_alignment_def Let_def
  by (intro fuel_intros assms)+

lemma alignmentUnchecked_step:
  "fuel_le (alignmentUnchecked n r t) (alignmentUnchecked (Suc n) r t)"
proof (induction n arbitrary: t)
  case (Suc n)
  then have "rec_le (alignmentUnchecked n r) (alignmentUnchecked (Suc n) r)"
    unfolding rec_le_def by blast
  then have "fuel_le (alignmentUnchecked (Suc n) r (Some d)) (alignmentUnchecked (Suc (Suc n)) r (Some d))" for d
    by (cases d) (simp_all only: alignmentUnchecked.simps(2)[of _ r] Let_def option.case type_desc.case,
        auto intro: fuel_intros)
  then show ?case by (cases t) (simp, blast)
qed simp

lemma size_mono [fuel_intros]:
  assumes "rec_le al al'" "rec_le sz sz'"
  shows "fuel_le (size_field al sz r off ref) (size_field al' sz' r off ref)"
    and "fuel_le (sizeRecord al sz r fs) (sizeRecord al' sz' r fs)"
    and "fuel_le (sizeTuple al sz r es) (sizeTuple al' sz' r es)"
    and "fuel_le (sizeVariant al sz r cs) (sizeVariant al' sz' r cs)"
    and "fuel_le (sizeOption al sz r e) (sizeOption al' sz' r e)"
    and "fuel_le (join_arm_size al sz r arm m) (join_arm_size al' sz' r arm m)"
    and "fuel_le (sizeResult al sz r a b) (sizeResult al' sz' r a b)"
  unfolding size_field_def sizeRecord_def sizeTuple_def sizeVariant_def sizeOption_def
    join_arm_size_def sizeResult_def Let_def
  by (intro fuel_intros assms rec_leD[OF assms(1)] rec_leD[OF assms(2)])+

lemma sizeUnchecked_step:
  "fuel_le (sizeUnchecked n r t) (sizeUnchecked (Suc n) r t)"
proof (induction n arbitrary: t)
  case (Suc n)
  then have "rec_le (sizeUnchecked n r) (sizeUnchecked (Suc n) r)"
    unfolding rec_le_def by blast
  moreover have "rec_le (alignmentUnchecked n r) (alignmentUnchecked (Suc n) r)"
    unfolding rec_le_def by (blast intro: alignmentUnchecked_step)
  ultimately have "fuel_le (sizeUnchecked (Suc n) r (Some d)) (sizeUnchecked (Suc (Suc n)) r (Some d))" for d
    by (cases d) (simp_all only: sizeUnchecked.simps(2)[of _ r] Let_def option.case type_desc.case,
        auto intro: fuel_intros)
  then show ?case by (cases t) (simp, blast)
qed simp

lemma alignmentUnchecked_mono:
  "m \<le> n \<Longrightarrow> returns (alignmentUnchecked m r t) \<Longrightarrow> alignmentUnchecked n r t = alignmentUnchecked m r t"
  by (rule fuel_step_le [where f = "\<lambda>n. alignmentUnchecked n r t", OF alignmentUnchecked_step])

lemma sizeUnchecked_mono:
  "m \<le> n \<Longrightarrow> returns (sizeUnchecked m r t) \<Longrightarrow> sizeUnchecked n r t = sizeUnchecked m r t"
  by (rule fuel_step_le [where f = "\<lambda>n. sizeUnchecked n r t", OF sizeUnchecked_step])

subsection \<open>A validated type never exhausts the fuel\<close>

text \<open>The references a descriptor has inline: its fields, cases, elements or arms.\<close>

definition case_refs :: "variant_case list \<Rightarrow> type_ref set" where
  "case_refs cs = {ref. \<exists>c \<in> set cs. CaseType c = Some ref}"

fun inline_refs :: "type_desc \<Rightarrow> type_ref set" where
  "inline_refs (RecordDesc fs) = FieldType ` set fs"
| "inline_refs (VariantDesc cs) = case_refs cs"
| "inline_refs (TupleDesc es) = set es"
| "inline_refs (OptionDesc e) = {e}"
| "inline_refs (ResultDesc a b) = set_option a \<union> set_option b"
| "inline_refs _ = {}"

lemma validateLayoutDesc_refs:
  assumes "validateLayoutDesc (Some d) r depth vis = Inr ()" "ref \<in> inline_refs d"
  shows "validateRef (\<lambda>d vis. validateLayoutDesc d r (depth + 1) vis) r vis ref = Inr ()"
  using assms(2) assms(1) [unfolded validateLayoutDesc.simps [of "Some d"]]
  by (cases d) (auto simp: case_refs_def forE_ok res_simps Let_def split: if_splits option.splits)

lemma validateRef_target:
  assumes "validateRef (\<lambda>d vis. validateLayoutDesc d r k vis) r vis ref = Inr ()"
  obtains p where "resolveType (Some ref) r = Inr (Some (PrimitiveDesc p))"
  | d vis' where "resolveType (Some ref) r = Inr (Some d)" "validateLayoutDesc (Some d) r k vis' = Inr ()"
  using assms by (auto simp: validateRef_def resolveType_def split: if_splits option.splits)

lemma validateLayoutDesc_depth: "validateLayoutDesc d r depth vis = Inr u \<Longrightarrow> depth \<le> 64"
  by (subst (asm) validateLayoutDesc.simps) (auto simp: maxLayoutTypeDepth_def split: if_splits)

lemma returns_primitive [simp]:
  "returns (alignmentPrimitive p)" "returns (sizePrimitive p)"
  "returns (alignmentFlagsNumLabels n)" "returns (sizeFlagsNumLabels n)"
  "returns (alignmentEnum ns)" "returns (sizeEnumNumCases n)"
  "returns (checkedAlign a b)" "returns (checkedAdd a b)"
  unfolding alignmentEnum_def sizeEnumNumCases_def alignmentPrimitive_def sizePrimitive_def
    alignmentFlagsNumLabels_def sizeFlagsNumLabels_def checkedAlign_def checkedAdd_def Let_def
  by (intro no_fuel; simp del: insert_iff)+

definition refs_return :: "rec_fn \<Rightarrow> resolver \<Rightarrow> type_ref set \<Rightarrow> bool" where
  "refs_return f r refs \<longleftrightarrow> (\<forall>ref \<in> refs. \<forall>t. resolveType (Some ref) r = Inr t \<longrightarrow> returns (f t))"

lemma refs_returnD:
  "refs_return f r refs \<Longrightarrow> ref \<in> refs \<Longrightarrow> resolveType (Some ref) r = Inr t \<Longrightarrow> returns (f t)"
  by (auto simp: refs_return_def)

lemma returns_ref_alignment:
  "refs_return al r refs \<Longrightarrow> ref \<in> refs \<Longrightarrow> returns (ref_alignment al r ref)"
  unfolding ref_alignment_def by (auto intro!: no_fuel dest: refs_returnD)

lemma returns_alignment:
  "refs_return al r (case_refs cs) \<Longrightarrow> returns (MaxCaseAlignment al r cs)"
  "refs_return al r (FieldType ` set fs) \<Longrightarrow> returns (alignmentRecord al r fs)"
  "refs_return al r (set es) \<Longrightarrow> returns (alignmentTuple al r es)"
  "refs_return al r {e} \<Longrightarrow> returns (alignmentOption al r e)"
  "refs_return al r (set_option a \<union> set_option b) \<Longrightarrow> returns (alignmentResult al r a b)"
  unfolding MaxCaseAlignment_def alignmentRecord_def alignmentTuple_def
    alignmentOption_def alignmentResult_def join_arm_alignment_def Let_def
  by (auto intro!: no_fuel elim!: returns_ref_alignment simp: case_refs_def)

lemma returns_alignmentVariant:
  "refs_return al r (case_refs cs) \<Longrightarrow> returns (alignmentVariant al r cs)"
  unfolding alignmentVariant_def by (auto intro!: no_fuel returns_alignment)

lemma returns_size_field:
  assumes "refs_return al r refs" "refs_return sz r refs" "ref \<in> refs"
  shows "returns (size_field al sz r off ref)"
  unfolding size_field_def using assms by (auto intro!: no_fuel dest: refs_returnD)

lemma returns_size:
  "refs_return al r (case_refs cs) \<Longrightarrow> refs_return sz r (case_refs cs) \<Longrightarrow> returns (sizeVariant al sz r cs)"
  "refs_return al r (FieldType ` set fs) \<Longrightarrow> refs_return sz r (FieldType ` set fs) \<Longrightarrow> returns (sizeRecord al sz r fs)"
  "refs_return al r (set es) \<Longrightarrow> refs_return sz r (set es) \<Longrightarrow> returns (sizeTuple al sz r es)"
  "refs_return al r {e} \<Longrightarrow> refs_return sz r {e} \<Longrightarrow> returns (sizeOption al sz r e)"
  unfolding sizeVariant_def sizeRecord_def sizeTuple_def sizeOption_def Let_def
  by (intro no_fuel returns_alignment returns_alignmentVariant;
      (rule returns_size_field, assumption, assumption)?;
      force simp: refs_return_def case_refs_def)+

lemma returns_join_arm_size:
  "refs_return al r (set_option a) \<Longrightarrow> refs_return sz r (set_option a) \<Longrightarrow> returns (join_arm_size al sz r a m)"
  unfolding join_arm_size_def by (auto intro!: no_fuel dest: refs_returnD)

lemma returns_sizeResult:
  assumes "refs_return al r (set_option a \<union> set_option b)" "refs_return sz r (set_option a \<union> set_option b)"
  shows "returns (sizeResult al sz r a b)"
proof -
  have arm: "returns (join_arm_size al sz r x m)" if "x \<in> {a, b}" for x m
    using assms that by (intro returns_join_arm_size) (auto simp: refs_return_def)
  show ?thesis
    unfolding sizeResult_def Let_def by (intro no_fuel arm) simp_all
qed

lemma inline_refs_return:
  assumes "validateLayoutDesc (Some d) r depth vis = Inr ()"
    and "\<And>t vis. validateLayoutDesc t r (depth + 1) vis = Inr () \<Longrightarrow> returns (f t)"
    and "\<And>p. returns (f (Some (PrimitiveDesc p)))"
  shows "refs_return f r (inline_refs d)"
  unfolding refs_return_def
proof (intro ballI allI impI)
  fix ref t assume ref: "ref \<in> inline_refs d" "resolveType (Some ref) r = Inr t"
  from validateLayoutDesc_refs [OF assms(1) ref(1)] show "returns (f t)"
    by (cases rule: validateRef_target) (use ref(2) assms(2,3) in auto)
qed

lemma alignmentUnchecked_returns:
  assumes "validateLayoutDesc t r depth vis = Inr ()" "66 - depth \<le> n"
  shows "returns (alignmentUnchecked n r t)"
  using assms
proof (induction n arbitrary: t depth vis)
  case 0
  then show ?case using validateLayoutDesc_depth [of t r depth vis] by simp
next
  case (Suc n)
  then obtain m where m: "n = Suc m"
    using validateLayoutDesc_depth [of t r depth vis] by (cases n) auto
  show ?case
  proof (cases t)
    case (Some d)
    have "refs_return (alignmentUnchecked n r) r (inline_refs d)"
    proof (rule inline_refs_return [OF Suc.prems(1) [unfolded Some]])
      show "returns (alignmentUnchecked n r t)" if "validateLayoutDesc t r (depth + 1) vis = Inr ()" for t vis
        using Suc.IH [OF that] Suc.prems(2) by simp
    qed (simp add: m)
    then show ?thesis
      unfolding Some by (cases d) (auto simp: returns_alignment returns_alignmentVariant)
  qed simp
qed

lemma sizeUnchecked_returns:
  assumes "validateLayoutDesc t r depth vis = Inr ()" "66 - depth \<le> n"
  shows "returns (sizeUnchecked n r t)"
  using assms
proof (induction n arbitrary: t depth vis)
  case 0
  then show ?case using validateLayoutDesc_depth [of t r depth vis] by simp
next
  case (Suc n)
  then obtain m where m: "n = Suc m"
    using validateLayoutDesc_depth [of t r depth vis] by (cases n) auto
  show ?case
  proof (cases t)
    case (Some d)
    have "refs_return (alignmentUnchecked n r) r (inline_refs d)"
    proof (rule inline_refs_return [OF Suc.prems(1) [unfolded Some]])
      show "returns (alignmentUnchecked n r t)" if "validateLayoutDesc t r (depth + 1) vis = Inr ()" for t vis
        using alignmentUnchecked_returns [OF that, of n] Suc.prems(2) by simp
    qed (simp add: m)
    moreover have "refs_return (sizeUnchecked n r) r (inline_refs d)"
    proof (rule inline_refs_return [OF Suc.prems(1) [unfolded Some]])
      show "returns (sizeUnchecked n r t)" if "validateLayoutDesc t r (depth + 1) vis = Inr ()" for t vis
        using Suc.IH [OF that] Suc.prems(2) by simp
    qed (simp add: m)
    ultimately show ?thesis
      unfolding Some by (cases d) (auto simp: returns_size returns_sizeResult)
  qed simp
qed

lemma layout_fuel_enough:
  assumes "validateLayoutType t r = Inr ()" "layout_fuel \<le> n"
  shows "alignmentUnchecked n r t = Alignment t r" "sizeUnchecked n r t = Size t r"
  using assms alignmentUnchecked_mono [OF assms(2)] sizeUnchecked_mono [OF assms(2)]
    alignmentUnchecked_returns sizeUnchecked_returns
  by (simp_all add: Alignment_def Size_def validateLayoutType_def layout_fuel_def)

lemma validateLayoutDesc_returns: "returns (validateLayoutDesc t r depth vis)"
proof (induction t r depth vis rule: validateLayoutDesc.induct)
  case (1 t r depth vis)
  show ?case
  proof (cases "depth > maxLayoutTypeDepth")
    case True
    then show ?thesis by (subst validateLayoutDesc.simps) simp
  next
    case False
    have vref: "returns (validateRef (\<lambda>d vis. validateLayoutDesc d r (depth + 1) vis) r vis ref)" for ref
      unfolding validateRef_def using 1 [OF False] by (auto intro!: no_fuel)
    then show ?thesis
    proof (cases t)
      case (Some d)
      with vref show ?thesis
        by (subst validateLayoutDesc.simps, cases d) (auto simp: Let_def intro!: no_fuel)
    qed (subst validateLayoutDesc.simps, simp)
  qed
qed

lemma layout_returns: "returns (Alignment t r)" "returns (Size t r)"
  unfolding Alignment_def Size_def layout_fuel_def
  using alignmentUnchecked_returns [of t r 0 "{}" 66] sizeUnchecked_returns [of t r 0 "{}" 66]
  by (auto intro!: no_fuel simp: validateLayoutDesc_returns validateLayoutType_def)

subsection \<open>Values of alignments and sizes\<close>

definition is_alignment :: "nat \<Rightarrow> bool" where
  "is_alignment a \<longleftrightarrow> a = 1 \<or> a = 2 \<or> a = 4 \<or> a = 8"

lemma is_alignment_simps [simp]:
  "is_alignment (Suc 0)" "is_alignment 2" "is_alignment 4" "is_alignment 8"
  by (simp_all add: is_alignment_def)

definition aligns :: "rec_fn \<Rightarrow> bool" where
  "aligns al \<longleftrightarrow> (\<forall>t a. al t = Inr a \<longrightarrow> is_alignment a)"

lemma alignmentPrimitive_is: "alignmentPrimitive p = Inr a \<Longrightarrow> is_alignment a"
  unfolding alignmentPrimitive_def by (simp del: insert_iff split: if_split_asm) auto

lemma ref_alignment_is: "aligns al \<Longrightarrow> ref_alignment al r ref = Inr a \<Longrightarrow> is_alignment a"
  by (auto simp: ref_alignment_def res_simps aligns_def)

lemma alignment_is:
  assumes "aligns al"
  shows "MaxCaseAlignment al r cs = Inr a \<Longrightarrow> is_alignment a"
    and "alignmentRecord al r fs = Inr a \<Longrightarrow> is_alignment a"
    and "alignmentTuple al r es = Inr a \<Longrightarrow> is_alignment a"
    and "alignmentOption al r e = Inr a \<Longrightarrow> is_alignment a"
    and "alignmentResult al r x y = Inr a \<Longrightarrow> is_alignment a"
proof -
  note ref = ref_alignment_is [OF assms]
  show "MaxCaseAlignment al r cs = Inr a \<Longrightarrow> is_alignment a"
    unfolding MaxCaseAlignment_def
    by (erule foldE_invariant) (auto simp: res_simps split: if_splits option.splits dest: ref)
  show "alignmentRecord al r fs = Inr a \<Longrightarrow> is_alignment a"
    unfolding alignmentRecord_def by (erule foldE_invariant) (auto simp: res_simps split: if_splits dest: ref)
  show "alignmentTuple al r es = Inr a \<Longrightarrow> is_alignment a"
    unfolding alignmentTuple_def by (erule foldE_invariant) (auto simp: res_simps split: if_splits dest: ref)
  show "alignmentOption al r e = Inr a \<Longrightarrow> is_alignment a"
    by (auto simp: alignmentOption_def res_simps split: if_splits dest: ref)
  show "alignmentResult al r x y = Inr a \<Longrightarrow> is_alignment a"
    by (auto simp: alignmentResult_def join_arm_alignment_def res_simps split: if_splits option.splits dest: ref)
qed

lemma alignmentVariant_is: "aligns al \<Longrightarrow> alignmentVariant al r cs = Inr a \<Longrightarrow> is_alignment a"
  by (auto simp: alignmentVariant_def res_simps split: if_splits dest: alignmentPrimitive_is alignment_is)

lemma alignmentUnchecked_is: "aligns (alignmentUnchecked n r)"
proof (induction n)
  case (Suc n)
  have "alignmentUnchecked (Suc n) r (Some d) = Inr a \<Longrightarrow> is_alignment a" for d a
    by (cases d) (auto simp: alignmentFlagsNumLabels_def alignmentEnum_def Let_def split: if_splits
          dest: alignmentPrimitive_is alignment_is [OF Suc.IH] alignmentVariant_is [OF Suc.IH])
  moreover have "alignmentUnchecked (Suc n) r None \<noteq> Inr a" for a by simp
  ultimately show ?case unfolding aligns_def by (metis option.exhaust)
qed (simp add: aligns_def)

text \<open>\<open>checkedAlign\<close> is the least multiple of the alignment that is not below the offset.\<close>

lemma checkedAlign_props:
  assumes "checkedAlign offset a = Inr x" "0 < a"
  shows "a dvd x" "offset \<le> x" "x < offset + a" "x \<le> MaxUint32"
proof -
  have x: "x = (offset + a - 1) div a * a" "offset + a - 1 \<le> MaxUint32"
    using assms by (auto simp: checkedAlign_def Let_def split: if_splits)
  show "a dvd x" by (simp add: x)
  have "x \<le> offset + a - 1" by (simp add: x(1))
  then show "x < offset + a" "x \<le> MaxUint32" using assms(2) x(2) by linarith+
  have "offset + a - 1 < x + a"
    unfolding x(1) using assms(2) dividend_less_div_times [of a "offset + a - 1"] by simp
  then show "offset \<le> x" by linarith
qed

lemma checkedAlign_idem:
  assumes "0 < a" "a dvd x" "x + a \<le> Suc MaxUint32"
  shows "checkedAlign x a = Inr x"
proof -
  obtain k where k: "x = a * k" using assms(2) ..
  have "(x + a - 1) div a = ((a - 1) + a * k) div a" using assms(1) k by (simp add: add.commute)
  also have "\<dots> = k" using assms(1) by (subst div_mult_self2) simp_all
  finally have "(x + a - 1) div a * a = x" using k by simp
  then show ?thesis using assms by (simp add: checkedAlign_def Let_def)
qed

lemma checkedAdd_props: "checkedAdd a b = Inr x \<longleftrightarrow> x = a + b \<and> x \<le> MaxUint32"
  by (auto simp: checkedAdd_def Let_def)

text \<open>
  The alignment divides the size, and both are defined together. The functions for the compound
  types end in \<open>checkedAlign\<close> with the alignment of the type.
\<close>

definition aligned_size :: "abi_error + nat \<Rightarrow> nat \<Rightarrow> bool" where
  "aligned_size m s \<longleftrightarrow> (\<exists>a. m = Inr a \<and> a dvd s \<and> s \<le> MaxUint32)"

lemma aligned_size_Inr [simp]: "aligned_size (Inr a) s \<longleftrightarrow> a dvd s \<and> s \<le> MaxUint32"
  by (auto simp: aligned_size_def)

lemma sizePrimitive_eq: "sizePrimitive p = (if p = ''string'' then Inr 8 else alignmentPrimitive p)"
  unfolding sizePrimitive_def alignmentPrimitive_def by (cases "p = ''string''") simp_all

lemma sizePrimitive_alignment:
  assumes "sizePrimitive p = Inr s"
  shows "aligned_size (alignmentPrimitive p) s"
proof (cases "p = ''string''")
  case True
  with assms show ?thesis by (simp add: sizePrimitive_eq alignmentPrimitive_def MaxUint32_def)
next
  case False
  with assms alignmentPrimitive_is [of p s] show ?thesis
    by (auto simp: sizePrimitive_eq is_alignment_def MaxUint32_def)
qed

lemma aligned_size_tail:
  assumes "m = Inr a" "checkedAlign offset a = Inr s" "is_alignment a"
  shows "aligned_size m s"
proof -
  have "0 < a" using assms(3) by (auto simp: is_alignment_def)
  with assms(1) checkedAlign_props [OF assms(2)] show ?thesis by (simp add: aligned_size_def)
qed

lemma size_aligned:
  assumes "aligns al"
  shows "sizeVariant al sz r cs = Inr s \<Longrightarrow> aligned_size (alignmentVariant al r cs) s"
    and "sizeRecord al sz r fs = Inr s \<Longrightarrow> aligned_size (alignmentRecord al r fs) s"
    and "sizeTuple al sz r es = Inr s \<Longrightarrow> aligned_size (alignmentTuple al r es) s"
  unfolding sizeVariant_def sizeRecord_def sizeTuple_def rbind_eq_Inr
  by (elim exE conjE, rule aligned_size_tail, assumption, assumption,
      erule alignmentVariant_is [OF assms] alignment_is [OF assms])+

lemma sizeOption_aligned:
  assumes "aligns al" "sizeOption al sz r e = Inr s"
  shows "aligned_size (alignmentOption al r e) s"
proof -
  obtain t a offset where 1: "resolveType (Some e) r = Inr t" "al t = Inr a"
    "checkedAlign offset (max 1 a) = Inr s"
    using assms(2) by (auto simp: sizeOption_def rbind_eq_Inr)
  have "is_alignment a" using 1 assms(1) by (simp add: aligns_def)
  moreover have "alignmentOption al r e = Inr (max 1 a)"
    using 1 by (simp add: alignmentOption_def ref_alignment_def max_def)
  ultimately show ?thesis
    using 1(3) by (intro aligned_size_tail) (auto simp: is_alignment_def max_def)
qed

lemma join_arm_size_alignment:
  "join_arm_size al sz r arm (s, a) = Inr (s', a') \<Longrightarrow> join_arm_alignment al r arm a = Inr a'"
  by (auto simp: join_arm_size_def join_arm_alignment_def ref_alignment_def rbind_eq_Inr split: option.splits)

lemma sizeResult_aligned:
  assumes "aligns al" "sizeResult al sz r x y = Inr s"
  shows "aligned_size (alignmentResult al r x y) s"
proof -
  obtain s1 a1 s2 a2 offset where 1: "join_arm_size al sz r x (0, 1) = Inr (s1, a1)"
    "join_arm_size al sz r y (s1, a1) = Inr (s2, a2)" "checkedAlign offset (max 1 a2) = Inr s"
    using assms(2) by (auto simp: sizeResult_def rbind_eq_Inr)
  then have "alignmentResult al r x y = Inr (max 1 a2)"
    by (simp add: alignmentResult_def join_arm_size_alignment max_def)
  with 1(3) alignment_is(5) [OF assms(1)] show ?thesis by (blast intro: aligned_size_tail)
qed

lemma sizeUnchecked_aligned: "sizeUnchecked n r t = Inr s \<Longrightarrow> aligned_size (alignmentUnchecked n r t) s"
proof (cases n)
  case (Suc m)
  assume s: "sizeUnchecked n r t = Inr s"
  have al: "aligns (alignmentUnchecked m r)" by (rule alignmentUnchecked_is)
  show ?thesis
  proof (cases t)
    case (Some d)
    from s show ?thesis
      unfolding Some Suc
      by (cases d) (simp_all add: size_aligned [OF al] sizeOption_aligned [OF al] sizeResult_aligned [OF al]
          sizePrimitive_alignment MaxUint32_def sizeFlagsNumLabels_def alignmentFlagsNumLabels_def
          sizeEnumNumCases_def alignmentEnum_def Let_def split: if_split_asm)
  qed (use s Suc in simp)
qed simp

subsection \<open>Discriminants\<close>

lemma DiscriminantType_u8: "1 \<le> n \<Longrightarrow> n \<le> 256 \<Longrightarrow> DiscriminantType n = ''u8''"
proof -
  assume n: "1 \<le> n" "n \<le> 256"
  then have "ceillog2 n \<le> 8" by (simp add: ceillog2_le_iff)
  then have "logCases n \<le> 1" unfolding logCases_def by linarith
  then have "logCases n = 0 \<or> logCases n = 1" by linarith
  with n show ?thesis by (simp add: DiscriminantType_def MaxUint32_def Let_def)
qed

lemma DiscriminantType_u16: "256 < n \<Longrightarrow> n \<le> 65536 \<Longrightarrow> DiscriminantType n = ''u16''"
proof -
  assume n: "256 < n" "n \<le> 65536"
  then have "ceillog2 n \<le> 16" "\<not> ceillog2 n \<le> 8" by (simp_all add: ceillog2_le_iff)
  then have "logCases n = 2" unfolding logCases_def by linarith
  with n show ?thesis by (simp add: DiscriminantType_def MaxUint32_def Let_def)
qed

lemma DiscriminantType_u32: "65536 < n \<Longrightarrow> n \<le> MaxUint32 \<Longrightarrow> DiscriminantType n = ''u32''"
proof -
  assume n: "65536 < n" "n \<le> MaxUint32"
  then have "\<not> ceillog2 n \<le> 16" by (simp add: ceillog2_le_iff)
  then have "logCases n > 2" unfolding logCases_def by linarith
  with n show ?thesis by (simp add: DiscriminantType_def Let_def)
qed

lemma DiscriminantType_invalid: "n = 0 \<or> MaxUint32 < n \<Longrightarrow> DiscriminantType n = ''''"
  by (auto simp: DiscriminantType_def)

lemma DiscriminantType_cases:
  obtains "n = 0 \<or> MaxUint32 < n" "DiscriminantType n = ''''"
  | "1 \<le> n" "n \<le> 256" "DiscriminantType n = ''u8''"
  | "256 < n" "n \<le> 65536" "DiscriminantType n = ''u16''"
  | "65536 < n" "n \<le> MaxUint32" "DiscriminantType n = ''u32''"
  using DiscriminantType_invalid [of n] DiscriminantType_u8 [of n] DiscriminantType_u16 [of n]
    DiscriminantType_u32 [of n] by (metis One_nat_def Suc_leI bot_nat_0.not_eq_extremum not_le_imp_less)

lemma primitive_values [simp]:
  "alignmentPrimitive ''u8'' = Inr 1" "alignmentPrimitive ''u16'' = Inr 2" "alignmentPrimitive ''u32'' = Inr 4"
  "sizePrimitive ''u8'' = Inr 1" "sizePrimitive ''u16'' = Inr 2" "sizePrimitive ''u32'' = Inr 4"
  "alignmentPrimitive '''' = Inl (UnknownPrimitive '''')" "sizePrimitive '''' = Inl (UnknownPrimitive '''')"
  by (simp_all add: alignmentPrimitive_def sizePrimitive_def)

text \<open>The integer form of the source's floating-point formula.\<close>

lemma logCases_real:
  assumes "0 < n"
  shows "int (logCases n) = \<lceil>log 2 (real n) / 8\<rceil>"
proof -
  have c: "int (ceillog2 n) = \<lceil>log 2 (real n)\<rceil>"
  proof -
    have "0 \<le> log 2 (real n)" using assms by simp
    then show ?thesis using assms by (simp add: ceillog2_def del: zero_le_log_cancel_iff)
  qed
  have "\<lceil>log 2 (real n) / 8\<rceil> \<le> z \<longleftrightarrow> \<lceil>real_of_int (int (ceillog2 n)) / real_of_int 8\<rceil> \<le> z" for z
  proof -
    have "log 2 (real n) / 8 \<le> z \<longleftrightarrow> \<lceil>log 2 (real n)\<rceil> \<le> z * 8"
      by (simp add: ceiling_le_iff divide_le_eq)
    also have "\<dots> \<longleftrightarrow> real_of_int (int (ceillog2 n)) / real_of_int 8 \<le> z"
      using c by linarith
    finally show ?thesis by (simp only: ceiling_le_iff)
  qed
  then have "\<lceil>log 2 (real n) / 8\<rceil> = \<lceil>real_of_int (int (ceillog2 n)) / real_of_int 8\<rceil>"
    by (meson antisym order_refl)
  also have "\<dots> = (int (ceillog2 n) + 7) div 8"
    unfolding ceiling_divide_eq_div by presburger
  finally show ?thesis by (simp add: logCases_def zdiv_int)
qed

subsection \<open>Specialised types\<close>

text \<open>
  The Canonical ABI defines tuple, enum, option and result as abbreviations of record and variant
  types. The source gives each a code path of its own; \<open>despecialize\<close> is the specification the two
  are compared by.
\<close>

definition plain_case :: "string \<Rightarrow> type_ref option \<Rightarrow> variant_case" where
  "plain_case n t = \<lparr>CaseName = n, CaseType = t\<rparr>"

fun despecialize :: "type_desc \<Rightarrow> type_desc" where
  "despecialize (TupleDesc es) = RecordDesc (map (\<lambda>e. \<lparr>FieldName = '''', FieldType = e\<rparr>) es)"
| "despecialize (EnumDesc ns) = VariantDesc (map (\<lambda>n. plain_case n None) ns)"
| "despecialize (OptionDesc e) = VariantDesc [plain_case ''none'' None, plain_case ''some'' (Some e)]"
| "despecialize (ResultDesc a b) = VariantDesc [plain_case ''ok'' a, plain_case ''error'' b]"
| "despecialize d = d"

lemma plain_case_simps [simp]: "CaseType (plain_case n t) = t"
  by (simp add: plain_case_def)

lemma validate_despecialize:
  "validateLayoutDesc (Some (despecialize d)) r depth vis = validateLayoutDesc (Some d) r depth vis"
proof -
  have unit: "foldE (\<lambda>a x. Inr ()) () xs = Inr ()" for xs :: "string list"
    by (induction xs) simp_all
  show ?thesis
    by (cases d; subst (1 2) validateLayoutDesc.simps)
       (simp_all add: Let_def forE_def foldE_map unit)
qed

lemma if_max: "(if a < b then b else a) = max a (b :: nat)" "(if a < b then Inr b else Inr a) = Inr (max a b)"
  by (auto simp: max_def)

lemma alignmentTuple_despecialize:
  "alignmentTuple al r es = alignmentRecord al r (map (\<lambda>e. \<lparr>FieldName = '''', FieldType = e\<rparr>) es)"
  by (simp add: alignmentTuple_def alignmentRecord_def foldE_map)

lemma alignmentOption_despecialize:
  "alignmentOption al r e = alignmentVariant al r [plain_case ''none'' None, plain_case ''some'' (Some e)]"
  by (cases "ref_alignment al r e")
     (simp_all add: alignmentOption_def alignmentVariant_def MaxCaseAlignment_def DiscriminantType_u8)

lemma MaxCaseAlignment_arms:
  "MaxCaseAlignment al r [plain_case n a, plain_case m b] =
   rbind (join_arm_alignment al r a 1) (join_arm_alignment al r b)"
  by (simp add: MaxCaseAlignment_def join_arm_alignment_def [abs_def])

lemma alignmentResult_despecialize:
  "alignmentResult al r a b = alignmentVariant al r [plain_case ''ok'' a, plain_case ''error'' b]"
  by (simp add: alignmentVariant_def MaxCaseAlignment_arms DiscriminantType_u8 alignmentResult_def rbind_assoc)

lemma MaxCaseAlignment_plain: "MaxCaseAlignment al r (map (\<lambda>n. plain_case n None) ns) = Inr 1"
  by (simp add: MaxCaseAlignment_def foldE_map)

lemma alignmentEnum_despecialize:
  "alignmentEnum ns = Inr a \<longleftrightarrow> alignmentVariant al r (map (\<lambda>n. plain_case n None) ns) = Inr a"
  by (cases rule: DiscriminantType_cases [of "length ns"])
     (auto simp: alignmentEnum_def alignmentVariant_def MaxCaseAlignment_plain Let_def)

lemma sizeEnum_despecialize:
  "sizeEnumNumCases (length ns) = Inr s \<longleftrightarrow> sizeVariant al sz r (map (\<lambda>n. plain_case n None) ns) = Inr s"
  by (cases rule: DiscriminantType_cases [of "length ns"])
     (auto simp: sizeEnumNumCases_def sizeVariant_def MaxCaseAlignment_plain alignmentVariant_def
       foldE_map checkedAlign_def checkedAdd_def MaxUint32_def Let_def)

lemma sizeTuple_despecialize:
  "sizeTuple al sz r es = sizeRecord al sz r (map (\<lambda>e. \<lparr>FieldName = '''', FieldType = e\<rparr>) es)"
  by (simp add: sizeTuple_def sizeRecord_def foldE_map alignmentTuple_despecialize)

lemma sizeOption_despecialize:
  assumes "aligns al"
  shows "sizeOption al sz r e = Inr s \<longleftrightarrow>
    sizeVariant al sz r [plain_case ''none'' None, plain_case ''some'' (Some e)] = Inr s"
proof -
  have pos: "al t = Inr a \<Longrightarrow> max (Suc 0) a = a" for t a
    using assms unfolding aligns_def is_alignment_def by fastforce
  show ?thesis
    by (auto simp: sizeOption_def sizeVariant_def DiscriminantType_u8 MaxCaseAlignment_def alignmentVariant_def
      ref_alignment_def rbind_eq_Inr if_max pos)
qed

text \<open>The size part of \<open>join_arm_size\<close>, as the variant code computes it.\<close>

definition arm_size :: "rec_fn \<Rightarrow> resolver \<Rightarrow> type_ref option \<Rightarrow> nat \<Rightarrow> abi_error + nat" where
  "arm_size sz r arm s = (case arm of None \<Rightarrow> Inr s
     | Some ref \<Rightarrow> rbind (resolveType (Some ref) r) (\<lambda>t. rbind (sz t) (\<lambda>size. Inr (if size > s then size else s))))"

lemma join_arm_size_split:
  "join_arm_size al sz r arm (s, m) = Inr (s', m') \<longleftrightarrow>
   arm_size sz r arm s = Inr s' \<and> join_arm_alignment al r arm m = Inr m'"
proof (cases arm)
  case (Some ref)
  show ?thesis
  proof (cases "resolveType (Some ref) r")
    case (Inr t)
    then show ?thesis
      unfolding Some
      by (cases "sz t"; cases "al t")
         (simp_all add: join_arm_size_def arm_size_def join_arm_alignment_def ref_alignment_def)
  qed (simp add: Some join_arm_size_def arm_size_def)
qed (auto simp: join_arm_size_def arm_size_def join_arm_alignment_def)

lemma case_sizes_arms:
  "foldE (\<lambda>maxCaseSize c. case CaseType c of None \<Rightarrow> Inr maxCaseSize
     | Some ref \<Rightarrow> rbind (resolveType (Some ref) r) (\<lambda>ct.
         rbind (sz ct) (\<lambda>cSize. Inr (if cSize > maxCaseSize then cSize else maxCaseSize))))
     0 [plain_case n a, plain_case m b] = rbind (arm_size sz r a 0) (arm_size sz r b)"
  by (simp add: arm_size_def [abs_def])

lemma sizeResult_despecialize:
  "sizeResult al sz r a b = Inr s \<longleftrightarrow>
   sizeVariant al sz r [plain_case ''ok'' a, plain_case ''error'' b] = Inr s"
proof -
  have av: "alignmentVariant al r [plain_case ''ok'' a, plain_case ''error'' b] =
    rbind (rbind (join_arm_alignment al r a 1) (join_arm_alignment al r b)) (\<lambda>m. Inr (max 1 m))"
    by (simp add: alignmentVariant_def MaxCaseAlignment_arms DiscriminantType_u8 if_max)
  have split: "join_arm_size al sz r arm (s, m) =
     rbind (arm_size sz r arm s) (\<lambda>s'. rbind (join_arm_alignment al r arm m) (\<lambda>m'. Inr (s', m')))"
    if "arm_size sz r arm s = Inr s1" "join_arm_alignment al r arm m = Inr m1" for arm s m s1 m1
    using join_arm_size_split [of al sz r arm s m s1 m1] that by simp
  show ?thesis
  proof (cases "\<exists>s1 s2 m1 m2. arm_size sz r a 0 = Inr s1 \<and> arm_size sz r b s1 = Inr s2 \<and>
      join_arm_alignment al r a 1 = Inr m1 \<and> join_arm_alignment al r b m1 = Inr m2")
    case True
    then show ?thesis
      unfolding sizeResult_def sizeVariant_def case_sizes_arms MaxCaseAlignment_arms
      by (auto simp: av split DiscriminantType_u8 Let_def)
  next
    case False
    have "sizeResult al sz r a b \<noteq> Inr s"
      using False unfolding sizeResult_def rbind_eq_Inr by (auto simp: join_arm_size_split)
    moreover have "sizeVariant al sz r [plain_case ''ok'' a, plain_case ''error'' b] \<noteq> Inr s"
      using False unfolding sizeVariant_def case_sizes_arms MaxCaseAlignment_arms rbind_eq_Inr by auto
    ultimately show ?thesis by simp
  qed
qed

lemma Alignment_despecialize:
  "Alignment (Some (despecialize d)) r = Inr n \<longleftrightarrow> Alignment (Some d) r = Inr n"
proof -
  have "alignmentUnchecked (Suc k) r (Some (despecialize d)) = Inr n \<longleftrightarrow> alignmentUnchecked (Suc k) r (Some d) = Inr n" for k
    by (cases d) (simp_all add: alignmentTuple_despecialize alignmentOption_despecialize
        alignmentResult_despecialize alignmentEnum_despecialize [symmetric])
  from this [of 65] show ?thesis
    by (simp add: Alignment_def validateLayoutType_def validate_despecialize layout_fuel_def rbind_eq_Inr
        del: alignmentUnchecked.simps)
qed

lemma Size_despecialize:
  "Size (Some (despecialize d)) r = Inr n \<longleftrightarrow> Size (Some d) r = Inr n"
proof -
  have "sizeUnchecked (Suc k) r (Some (despecialize d)) = Inr n \<longleftrightarrow> sizeUnchecked (Suc k) r (Some d) = Inr n" for k
    by (cases d) (simp_all add: sizeTuple_despecialize sizeOption_despecialize [OF alignmentUnchecked_is]
        sizeResult_despecialize sizeEnum_despecialize [symmetric])
  from this [of 65] show ?thesis
    by (simp add: Size_def validateLayoutType_def validate_despecialize layout_fuel_def rbind_eq_Inr
        del: sizeUnchecked.simps)
qed

subsection \<open>Cycles\<close>

text \<open>One step along an inline reference of a descriptor.\<close>

definition inline_step :: "resolver \<Rightarrow> (type_desc \<times> type_desc) set" where
  "inline_step r = {(d, d'). \<exists>ref \<in> inline_refs d. resolveType (Some ref) r = Inr (Some d')}"

lemma validated_path:
  assumes "(d, d') \<in> inline_step r ^^ k" "validateLayoutDesc (Some d) r depth vis = Inr ()"
  shows "depth + k \<le> 65"
  using assms
proof (induction k arbitrary: d depth vis)
  case 0
  then show ?case using validateLayoutDesc_depth by fastforce
next
  case (Suc k)
  obtain d1 where d1: "(d, d1) \<in> inline_step r" "(d1, d') \<in> inline_step r ^^ k"
    using Suc.prems(1) by (metis relpow_Suc_D2)
  then obtain ref where ref: "ref \<in> inline_refs d" "resolveType (Some ref) r = Inr (Some d1)"
    by (auto simp: inline_step_def)
  from validateLayoutDesc_refs [OF Suc.prems(2) ref(1)] show ?case
  proof (cases rule: validateRef_target)
    case (1 p)
    with ref(2) have "d1 = PrimitiveDesc p" by simp
    then have "(d1, x) \<notin> inline_step r" for x by (simp add: inline_step_def)
    with d1(2) have "k = 0" by (metis not0_implies_Suc relpow_Suc_D2)
    then show ?thesis using validateLayoutDesc_depth [OF Suc.prems(2)] by simp
  next
    case (2 d2 vis')
    with ref(2) Suc.IH [OF d1(2), of "depth + 1" vis'] show ?thesis by simp
  qed
qed

lemma cycle_paths:
  assumes "(d, d) \<in> R\<^sup>+"
  shows "\<exists>k \<ge> n. (d, d) \<in> R ^^ k"
proof (induction n)
  case (Suc n)
  then obtain k where k: "k \<ge> n" "(d, d) \<in> R ^^ k" by blast
  obtain j where j: "0 < j" "(d, d) \<in> R ^^ j" using assms by (auto simp: trancl_power)
  have "(d, d) \<in> R ^^ (k + j)" using k(2) j(2) by (auto simp: relpow_add)
  then show ?case using k(1) j(1) by (intro exI [of _ "k + j"]) auto
qed (auto intro: exI [of _ 0])

lemma cycle_rejected:
  assumes "(t, d) \<in> (inline_step r)\<^sup>*" "(d, d) \<in> (inline_step r)\<^sup>+"
  shows "\<exists>e. validateLayoutType (Some t) r = Inl e"
proof (rule ccontr)
  assume "\<not> ?thesis"
  then have valid: "validateLayoutDesc (Some t) r 0 {} = Inr ()"
    unfolding validateLayoutType_def by (metis (full_types) old.unit.exhaust sum.exhaust_sel)
  obtain j where "(t, d) \<in> inline_step r ^^ j" using assms(1) by (auto simp: rtrancl_power)
  moreover obtain k where "k \<ge> 66" "(d, d) \<in> inline_step r ^^ k" using cycle_paths [OF assms(2)] by blast
  ultimately have "(t, d) \<in> inline_step r ^^ (j + k)" by (auto simp: relpow_add)
  from validated_path [OF this valid] \<open>k \<ge> 66\<close> show False by simp
qed

text \<open>Evaluation with a numeral as the fuel.\<close>

lemmas layout_numeral_fuel =
  alignmentUnchecked.simps(2) [of "pred_numeral k" for k, folded numeral_eq_Suc]
  sizeUnchecked.simps(2) [of "pred_numeral k" for k, folded numeral_eq_Suc]

subsection \<open>The layout equations without fuel\<close>

lemma validate_antimono:
  "validateLayoutDesc t r depth vis = Inr () \<Longrightarrow> depth' \<le> depth \<Longrightarrow> vis' \<subseteq> vis \<Longrightarrow>
   validateLayoutDesc t r depth' vis' = Inr ()"
proof (induction t r depth vis arbitrary: depth' vis' rule: validateLayoutDesc.induct)
  case (1 t r depth vis)
  show ?case
  proof (cases t)
    case None
    with 1 show ?thesis by (subst validateLayoutDesc.simps) (auto simp: validateLayoutDesc.simps split: if_split_asm)
  next
    case (Some d)
    have depth: "\<not> depth > maxLayoutTypeDepth"
      using validateLayoutDesc_depth [OF 1(2)] by (simp add: maxLayoutTypeDepth_def)
    have IH: "validateLayoutDesc t r (Suc depth') v' = Inr ()"
      if "validateLayoutDesc t r (Suc depth) v = Inr ()" "v' \<subseteq> v" for t v v'
      using 1(1) [OF depth] 1(3) that by simp
    have vref: "validateRef (\<lambda>d vis. validateLayoutDesc d r (depth' + 1) vis) r vis' ref = Inr ()"
      if "ref \<in> inline_refs d" for ref
    proof -
      have "validateRef (\<lambda>d vis. validateLayoutDesc d r (depth + 1) vis) r vis ref = Inr ()"
        using validateLayoutDesc_refs 1(2) that Some by blast
      then show ?thesis
        using 1(4) unfolding validateRef_def
        by (simp split: if_split_asm option.split_asm option.split) (metis IH insert_mono subsetD)
    qed
    have "depth' \<le> maxLayoutTypeDepth" using depth 1(3) by simp
    then show ?thesis
      unfolding Some using vref
      by (subst validateLayoutDesc.simps, cases d)
         (auto simp: Let_def case_refs_def forE_ok split: option.splits)
  qed
qed

lemma validated_child:
  assumes "validateLayoutType (Some d) r = Inr ()" "ref \<in> inline_refs d" "resolveType (Some ref) r = Inr t"
  shows "validateLayoutType t r = Inr ()" "alignmentUnchecked 65 r t = Alignment t r" "sizeUnchecked 65 r t = Size t r"
proof -
  have v: "validateLayoutType t r = Inr () \<and> returns (alignmentUnchecked 65 r t) \<and> returns (sizeUnchecked 65 r t)"
    using validateLayoutDesc_refs [OF assms(1) [unfolded validateLayoutType_def] assms(2)]
  proof (cases rule: validateRef_target)
    case (1 p)
    then have "t = Some (PrimitiveDesc p)" using assms(3) by simp
    then show ?thesis
      by (simp add: validateLayoutType_def validateLayoutDesc.simps maxLayoutTypeDepth_def layout_numeral_fuel)
  next
    case (2 d' vis')
    then have t: "validateLayoutDesc t r 1 vis' = Inr ()" using assms(3) by simp
    then show ?thesis
      using validate_antimono [OF t, of 0 "{}"] alignmentUnchecked_returns [OF t, of 65] sizeUnchecked_returns [OF t, of 65]
      by (simp add: validateLayoutType_def)
  qed
  then show "validateLayoutType t r = Inr ()" "alignmentUnchecked 65 r t = Alignment t r" "sizeUnchecked 65 r t = Size t r"
    using alignmentUnchecked_mono [of 65 66 r t] sizeUnchecked_mono [of 65 66 r t]
    by (simp_all add: Alignment_def Size_def layout_fuel_def)
qed

text \<open>The functions for compound types look at the types of the inline references only.\<close>

definition agree_on :: "resolver \<Rightarrow> type_ref set \<Rightarrow> (type_desc option \<Rightarrow> 'a) \<Rightarrow> (type_desc option \<Rightarrow> 'a) \<Rightarrow> bool" where
  "agree_on r refs f g \<longleftrightarrow> (\<forall>ref \<in> refs. \<forall>t. resolveType (Some ref) r = Inr t \<longrightarrow> f t = g t)"

lemma agree_onD: "agree_on r refs f g \<Longrightarrow> ref \<in> refs \<Longrightarrow> rbind (resolveType (Some ref) r) f = rbind (resolveType (Some ref) r) g"
  unfolding agree_on_def by (intro rbind_cong) auto

lemma agree_on_t: "agree_on r refs f g \<Longrightarrow> ref \<in> refs \<Longrightarrow> resolveType (Some ref) r = Inr t \<Longrightarrow> f t = g t"
  by (auto simp: agree_on_def)

lemma agree_on_case:
  "agree_on r (case_refs cs) f g \<Longrightarrow> c \<in> set cs \<Longrightarrow> CaseType c = Some ref \<Longrightarrow> resolveType (Some ref) r = Inr t \<Longrightarrow> f t = g t"
  by (auto simp: agree_on_def case_refs_def)

lemma alignment_agree:
  "agree_on r (case_refs cs) al al' \<Longrightarrow> MaxCaseAlignment al r cs = MaxCaseAlignment al' r cs"
  "agree_on r (FieldType ` set fs) al al' \<Longrightarrow> alignmentRecord al r fs = alignmentRecord al' r fs"
  "agree_on r (set es) al al' \<Longrightarrow> alignmentTuple al r es = alignmentTuple al' r es"
  "agree_on r {e} al al' \<Longrightarrow> alignmentOption al r e = alignmentOption al' r e"
  "agree_on r (set_option a) al al' \<Longrightarrow> join_arm_alignment al r a = join_arm_alignment al' r a"
  unfolding MaxCaseAlignment_def alignmentRecord_def alignmentTuple_def alignmentOption_def
    join_arm_alignment_def [abs_def] ref_alignment_def
  by (auto intro!: foldE_cong rbind_cong split: option.split simp: fun_eq_iff dest: agree_on_t agree_on_case)

lemma agree_Un: "agree_on r (A \<union> B) f g \<longleftrightarrow> agree_on r A f g \<and> agree_on r B f g"
  by (auto simp: agree_on_def)

lemma alignmentResult_agree:
  "agree_on r (set_option a \<union> set_option b) al al' \<Longrightarrow> alignmentResult al r a b = alignmentResult al' r a b"
  using alignment_agree(5) [of r a al al'] alignment_agree(5) [of r b al al']
  by (simp add: alignmentResult_def agree_Un)

lemma size_field_agree:
  "agree_on r refs al al' \<Longrightarrow> agree_on r refs sz sz' \<Longrightarrow> ref \<in> refs \<Longrightarrow>
   size_field al sz r off ref = size_field al' sz' r off ref"
  unfolding size_field_def by (auto intro!: rbind_cong dest: agree_on_t)

lemma size_agree:
  "agree_on r (FieldType ` set fs) al al' \<Longrightarrow> agree_on r (FieldType ` set fs) sz sz' \<Longrightarrow>
   sizeRecord al sz r fs = sizeRecord al' sz' r fs"
  "agree_on r (set es) al al' \<Longrightarrow> agree_on r (set es) sz sz' \<Longrightarrow> sizeTuple al sz r es = sizeTuple al' sz' r es"
  "agree_on r {e} al al' \<Longrightarrow> agree_on r {e} sz sz' \<Longrightarrow> sizeOption al sz r e = sizeOption al' sz' r e"
proof -
  show "agree_on r (FieldType ` set fs) al al' \<Longrightarrow> agree_on r (FieldType ` set fs) sz sz' \<Longrightarrow>
   sizeRecord al sz r fs = sizeRecord al' sz' r fs"
    using alignment_agree(2) [of r fs al al'] size_field_agree [of r "FieldType ` set fs" al al' sz sz']
    by (auto simp: sizeRecord_def intro!: rbind_cong foldE_cong)
  show "agree_on r (set es) al al' \<Longrightarrow> agree_on r (set es) sz sz' \<Longrightarrow> sizeTuple al sz r es = sizeTuple al' sz' r es"
    using alignment_agree(3) [of r es al al'] size_field_agree [of r "set es" al al' sz sz']
    by (auto simp: sizeTuple_def intro!: rbind_cong foldE_cong)
  show "agree_on r {e} al al' \<Longrightarrow> agree_on r {e} sz sz' \<Longrightarrow> sizeOption al sz r e = sizeOption al' sz' r e"
    unfolding sizeOption_def by (auto intro!: rbind_cong dest: agree_on_t)
qed

lemma sizeVariant_agree:
  assumes "agree_on r (case_refs cs) al al'" "agree_on r (case_refs cs) sz sz'"
  shows "sizeVariant al sz r cs = sizeVariant al' sz' r cs"
proof -
  have "alignmentVariant al r cs = alignmentVariant al' r cs"
    using alignment_agree(1) [OF assms(1)] by (simp add: alignmentVariant_def)
  then show ?thesis
    using alignment_agree(1) [OF assms(1)]
    by (auto simp: sizeVariant_def dest: agree_on_case [OF assms(2)] intro!: rbind_cong foldE_cong split: option.split)
qed

lemma join_arm_size_agree:
  "agree_on r (set_option a) al al' \<Longrightarrow> agree_on r (set_option a) sz sz' \<Longrightarrow> join_arm_size al sz r a = join_arm_size al' sz' r a"
  unfolding join_arm_size_def by (auto intro!: rbind_cong dest: agree_on_t split: option.split simp: fun_eq_iff)

lemma sizeResult_agree:
  "agree_on r (set_option a \<union> set_option b) al al' \<Longrightarrow> agree_on r (set_option a \<union> set_option b) sz sz' \<Longrightarrow>
   sizeResult al sz r a b = sizeResult al' sz' r a b"
  using join_arm_size_agree [of r a al al' sz sz'] join_arm_size_agree [of r b al al' sz sz']
  by (simp add: sizeResult_def agree_Un)

text \<open>\<open>Alignment\<close> and \<open>Size\<close> satisfy the equations of the Canonical ABI, without fuel or validation
  in the recursive calls.\<close>

definition layout_alignment :: "resolver \<Rightarrow> type_desc \<Rightarrow> abi_error + nat" where
  "layout_alignment r d =
     (let al = (\<lambda>t. Alignment t r)
      in case d of
           RecordDesc fs \<Rightarrow> alignmentRecord al r fs
         | VariantDesc cs \<Rightarrow> alignmentVariant al r cs
         | TupleDesc es \<Rightarrow> alignmentTuple al r es
         | OptionDesc e \<Rightarrow> alignmentOption al r e
         | ResultDesc a b \<Rightarrow> alignmentResult al r a b
         | _ \<Rightarrow> alignmentUnchecked 1 r (Some d))"

definition layout_size :: "resolver \<Rightarrow> type_desc \<Rightarrow> abi_error + nat" where
  "layout_size r d =
     (let al = (\<lambda>t. Alignment t r); sz = (\<lambda>t. Size t r)
      in case d of
           RecordDesc fs \<Rightarrow> sizeRecord al sz r fs
         | VariantDesc cs \<Rightarrow> sizeVariant al sz r cs
         | TupleDesc es \<Rightarrow> sizeTuple al sz r es
         | OptionDesc e \<Rightarrow> sizeOption al sz r e
         | ResultDesc a b \<Rightarrow> sizeResult al sz r a b
         | _ \<Rightarrow> sizeUnchecked 1 r (Some d))"

lemma layout_equations:
  assumes "validateLayoutType (Some d) r = Inr ()"
  shows "Alignment (Some d) r = layout_alignment r d" "Size (Some d) r = layout_size r d"
proof -
  have ag: "agree_on r (inline_refs d) (alignmentUnchecked 65 r) (\<lambda>t. Alignment t r)"
    "agree_on r (inline_refs d) (sizeUnchecked 65 r) (\<lambda>t. Size t r)"
    using validated_child [OF assms] by (auto simp: agree_on_def)
  have "Alignment (Some d) r = alignmentUnchecked (Suc 65) r (Some d)"
    "Size (Some d) r = sizeUnchecked (Suc 65) r (Some d)"
    using assms by (simp_all add: Alignment_def Size_def layout_fuel_def layout_numeral_fuel)
  moreover have "alignmentUnchecked (Suc 65) r (Some d) = layout_alignment r d"
    using ag by (cases d) (simp_all add: layout_alignment_def Let_def alignment_agree alignmentResult_agree alignmentVariant_def layout_numeral_fuel)
  moreover have "sizeUnchecked (Suc 65) r (Some d) = layout_size r d"
    using ag by (cases d) (simp_all add: layout_size_def Let_def size_agree sizeResult_agree sizeVariant_agree layout_numeral_fuel)
  ultimately show "Alignment (Some d) r = layout_alignment r d" "Size (Some d) r = layout_size r d" by simp_all
qed

subsection \<open>Properties\<close>

text \<open>The layout functions always return: whatever the type graph (cyclic, deeper than any
  bound, dangling, without a resolver), \<open>Alignment\<close> and \<open>Size\<close> end with a value or an error, and
  with a value found by any larger recursion budget too.\<close>

theorem layout_terminates:
  "Alignment t r \<noteq> Inl OutOfFuel \<and> Size t r \<noteq> Inl OutOfFuel \<and>
   (\<forall>n \<ge> layout_fuel. rbind (validateLayoutType t r) (\<lambda>_. alignmentUnchecked n r t) = Alignment t r \<and>
                      rbind (validateLayoutType t r) (\<lambda>_. sizeUnchecked n r t) = Size t r)"
proof (cases "validateLayoutType t r")
  case (Inl e)
  then show ?thesis using layout_returns [of t r] by (simp add: returns_def Alignment_def Size_def)
next
  case (Inr u)
  with layout_fuel_enough [of t r] layout_returns [of t r] show ?thesis by (simp add: returns_def)
qed

theorem layout_terminates_witness:
  "rbind (validateLayoutType (Some (OptionDesc (prim ''u8''))) None)
     (\<lambda>_. sizeUnchecked 100 None (Some (OptionDesc (prim ''u8'')))) = Size (Some (OptionDesc (prim ''u8''))) None"
  by (rule layout_terminates [THEN conjunct2, THEN conjunct2, THEN spec, THEN mp, THEN conjunct2])
     (simp add: layout_fuel_def)

text \<open>A type that has a size has an alignment of 1, 2, 4 or 8 bytes that divides the size, and
  the size fits 32 bits. So consecutive elements of a list are all aligned.\<close>

theorem Size_multiple_of_Alignment:
  assumes "Size t r = Inr s"
  shows "\<exists>a. Alignment t r = Inr a \<and> a \<in> {1, 2, 4, 8} \<and> a dvd s \<and> s \<le> MaxUint32"
proof -
  have v: "validateLayoutType t r = Inr ()" "sizeUnchecked layout_fuel r t = Inr s"
    using assms by (auto simp: Size_def rbind_eq_Inr)
  from sizeUnchecked_aligned [OF v(2)] obtain a
    where a: "alignmentUnchecked layout_fuel r t = Inr a" "a dvd s" "s \<le> MaxUint32"
    by (auto simp: aligned_size_def)
  moreover have "is_alignment a" using a(1) alignmentUnchecked_is by (auto simp: aligns_def)
  ultimately show ?thesis using v(1) by (auto simp: Alignment_def is_alignment_def)
qed

theorem Size_multiple_of_Alignment_witness:
  "\<exists>a. Alignment (Some (OptionDesc (prim ''u16''))) None = Inr a \<and> a \<in> {1, 2, 4, 8} \<and> a dvd 4 \<and> 4 \<le> MaxUint32"
proof (rule Size_multiple_of_Alignment)
  show "Size (Some (OptionDesc (prim ''u16''))) None = Inr 4"
    by (simp add: Size_def validateLayoutType_def validateLayoutDesc.simps validateRef_def prim_def
        resolveType_def layout_fuel_def layout_numeral_fuel sizeOption_def sizePrimitive_def alignmentPrimitive_def
        checkedAlign_def checkedAdd_def Let_def maxLayoutTypeDepth_def MaxUint32_def
        flip: numeral_2_eq_2)
qed

text \<open>The layout code of tuple, enum, option and result computes what the record and variant
  code computes for the despecialised type, for alignment and for size.\<close>

theorem layout_despecialize:
  "(Alignment (Some d) r = Inr a \<longleftrightarrow> Alignment (Some (despecialize d)) r = Inr a) \<and>
   (Size (Some d) r = Inr s \<longleftrightarrow> Size (Some (despecialize d)) r = Inr s)"
  by (simp add: Alignment_despecialize Size_despecialize)

text \<open>A type from which a cycle of inline references can be reached is rejected, by \<open>Alignment\<close>
  and by \<open>Size\<close>; neither recurses on it.\<close>

theorem layout_rejects_cycles:
  assumes "(t, d) \<in> (inline_step r)\<^sup>*" "(d, d) \<in> (inline_step r)\<^sup>+"
  shows "\<exists>e. Alignment (Some t) r = Inl e \<and> Size (Some t) r = Inl e \<and> e \<noteq> OutOfFuel"
proof -
  obtain e where e: "validateLayoutType (Some t) r = Inl e" using cycle_rejected [OF assms] ..
  moreover have "e \<noteq> OutOfFuel"
    using validateLayoutDesc_returns [of "Some t" r 0 "{}"] e by (auto simp: validateLayoutType_def)
  ultimately show ?thesis by (simp add: Alignment_def Size_def)
qed

theorem layout_rejects_cycles_witness:
  "\<exists>e. Alignment (Some (OptionDesc (tidx 0))) (Some (\<lambda>_. Some (OptionDesc (tidx 0)))) = Inl e \<and>
       Size (Some (OptionDesc (tidx 0))) (Some (\<lambda>_. Some (OptionDesc (tidx 0)))) = Inl e \<and> e \<noteq> OutOfFuel"
  by (rule layout_rejects_cycles [where d = "OptionDesc (tidx 0)"])
     (auto simp: inline_step_def intro!: r_into_trancl')

text \<open>\<open>checkedAlign\<close> rounds an offset up to the least multiple of the alignment, and reports an
  overflow exactly when that multiple is not a 32-bit number.\<close>

theorem checkedAlign_least:
  assumes "a \<in> {1, 2, 4, 8}" "offset \<le> MaxUint32"
  shows "checkedAlign offset a =
    (if (LEAST x. offset \<le> x \<and> a dvd x) \<le> MaxUint32 then Inr (LEAST x. offset \<le> x \<and> a dvd x)
     else Inl (AlignOverflow offset a))"
proof -
  let ?x = "(offset + a - 1) div a * a"
  have pos: "0 < a" using assms(1) by auto
  have least: "(LEAST x. offset \<le> x \<and> a dvd x) = ?x"
  proof (rule Least_equality)
    show "offset \<le> ?x \<and> a dvd ?x"
      using pos dividend_less_div_times [of a "offset + a - 1"] by auto
    fix y assume "offset \<le> y \<and> a dvd y"
    then obtain k where k: "y = a * k" "offset \<le> a * k" by (auto elim!: dvdE)
    have "(offset + a - 1) div a \<le> (a * k + a - 1) div a" using k(2) by (intro div_le_mono) simp
    also have "\<dots> = ((a - 1) + a * k) div a" using pos by (simp add: add.commute)
    also have "\<dots> = k" using pos by (subst div_mult_self2) simp_all
    finally show "?x \<le> y" using k(1) by (simp add: mult.commute)
  qed
  have "offset + a - 1 \<le> MaxUint32 \<longleftrightarrow> ?x \<le> MaxUint32"
    using assms unfolding MaxUint32_def by (elim insertE emptyE) (simp_all, presburger+)
  with least pos show ?thesis by (auto simp: checkedAlign_def Let_def)
qed

theorem checkedAlign_least_witness:
  "checkedAlign 4294967290 8 =
    (if (LEAST x. 4294967290 \<le> x \<and> 8 dvd x) \<le> MaxUint32 then Inr (LEAST x. 4294967290 \<le> x \<and> 8 dvd x)
     else Inl (AlignOverflow 4294967290 8))"
  by (rule checkedAlign_least) (simp_all add: MaxUint32_def)

text \<open>The discriminant of a variant or enum is stored in the narrowest of 1, 2 and 4 bytes that
  numbers all its cases.\<close>

theorem discriminant_narrowest:
  assumes "1 \<le> n" "n \<le> MaxUint32"
  shows "sizePrimitive (DiscriminantType n) = Inr (LEAST s. s \<in> {1, 2, 4} \<and> n \<le> 256 ^ s)"
proof (cases rule: DiscriminantType_cases [of n])
  case 2
  moreover have "(LEAST s. s \<in> {1, 2, 4} \<and> n \<le> 256 ^ s) = 1"
    using 2 by (intro Least_equality) auto
  ultimately show ?thesis by simp
next
  case 3
  moreover have "(LEAST s. s \<in> {1, 2, 4} \<and> n \<le> 256 ^ s) = 2"
    using 3 by (intro Least_equality) auto
  ultimately show ?thesis by simp
next
  case 4
  moreover have "(LEAST s. s \<in> {1, 2, 4} \<and> n \<le> 256 ^ s) = 4"
    using 4 by (intro Least_equality) (auto simp: MaxUint32_def)
  ultimately show ?thesis by simp
qed (use assms in simp)

theorem discriminant_narrowest_witness:
  "sizePrimitive (DiscriminantType 257) = Inr (LEAST s. s \<in> {1, 2, 4} \<and> (257 :: nat) \<le> 256 ^ s)"
  by (rule discriminant_narrowest) (simp_all add: MaxUint32_def)

text \<open>On a validated type, \<open>Alignment\<close> and \<open>Size\<close> satisfy the defining equations of the Canonical
  ABI: the value for a record, variant, tuple, option or result is computed from the \<open>Alignment\<close>
  and \<open>Size\<close> of the types it refers to. No bound on the recursion is visible.\<close>

theorem layout_recursion:
  assumes "validateLayoutType (Some d) r = Inr ()"
  shows "Alignment (Some d) r = layout_alignment r d \<and> Size (Some d) r = layout_size r d"
  using layout_equations [OF assms] by simp

theorem layout_recursion_witness:
  "Alignment (Some (TupleDesc [prim ''u8'', prim ''u32''])) None = layout_alignment None (TupleDesc [prim ''u8'', prim ''u32'']) \<and>
   Size (Some (TupleDesc [prim ''u8'', prim ''u32''])) None = layout_size None (TupleDesc [prim ''u8'', prim ''u32''])"
  by (rule layout_recursion)
     (simp add: validateLayoutType_def validateLayoutDesc.simps validateRef_def prim_def maxLayoutTypeDepth_def)

end
