(* ===== verification/Flatten.thy ===== *)
theory Flatten
  imports Layout
begin

text \<open>
  \<open>internal/abi/flatten.go\<close>: the core WebAssembly types a component type is passed as, and the
  core signature of a component function. The recursion of \<open>Flatten\<close> is not guarded by
  \<open>validateLayoutType\<close>, so its fuel is an argument that every caller passes on; the lemmas below
  show that a validated type needs no more than \<open>layout_fuel\<close>, and \<open>Flatten_diverges\<close> that a
  cyclic one exhausts any amount.
\<close>

definition MaxFlatParams :: nat where "MaxFlatParams = 16"

definition MaxFlatResults :: nat where "MaxFlatResults = 1"

type_synonym flat_fn = "type_desc option \<Rightarrow> abi_error + string list"

definition flattenPrimitive :: "string \<Rightarrow> abi_error + string list" where
  "flattenPrimitive p =
     (if p = ''bool'' then Inr [''i32'']
      else if p \<in> {''u8'', ''u16'', ''u32'', ''s8'', ''s16'', ''s32''} then Inr [''i32'']
      else if p \<in> {''s64'', ''u64''} then Inr [''i64'']
      else if p = ''f32'' then Inr [''f32'']
      else if p = ''f64'' then Inr [''f64'']
      else if p = ''char'' then Inr [''i32'']
      else if p = ''string'' then Inr [''i32'', ''i32'']
      else if p = ''error-context'' then Inr [''i32'']
      else Inl (UnknownPrimitive p))"

subsection \<open>Joining the types of one position\<close>

definition joinCoreTypes :: "string list \<Rightarrow> string" where
  "joinCoreTypes types =
     (case types of [] \<Rightarrow> ''i32''
      | al # _ \<Rightarrow>
          let (allSame, allI32OrF32) = fold (\<lambda>t (same, small).
                (if t \<noteq> al then False else same, if t \<noteq> ''i32'' \<and> t \<noteq> ''f32'' then False else small)) types (True, True)
          in if allSame then al else if allI32OrF32 then ''i32'' else ''i64'')"

text \<open>The loop over the positions that both the variant and the result code have.\<close>

definition join_flats :: "string list list \<Rightarrow> string list" where
  "join_flats caseFlats =
     (let maxLen = fold (\<lambda>cFlat m. if length cFlat > m then length cFlat else m) caseFlats 0
      in concat (map (\<lambda>i.
           let candidates = concat (map (\<lambda>cFlat. if i < length cFlat then [cFlat ! i] else []) caseFlats)
           in if length candidates > 0 then [joinCoreTypes candidates] else []) [0..<maxLen]))"

subsection \<open>Compound types\<close>

definition ref_flat :: "flat_fn \<Rightarrow> resolver \<Rightarrow> type_ref \<Rightarrow> abi_error + string list" where
  "ref_flat rec resolve ref = rbind (resolveType (Some ref) resolve) rec"

definition flattenRecord :: "flat_fn \<Rightarrow> resolver \<Rightarrow> record_field list \<Rightarrow> abi_error + string list" where
  "flattenRecord rec resolve fs =
     foldE (\<lambda>flat f. rbind (ref_flat rec resolve (FieldType f)) (\<lambda>fFlat. Inr (flat @ fFlat))) [] fs"

definition flattenTuple :: "flat_fn \<Rightarrow> resolver \<Rightarrow> type_ref list \<Rightarrow> abi_error + string list" where
  "flattenTuple rec resolve elems =
     foldE (\<lambda>flat elem. rbind (ref_flat rec resolve elem) (\<lambda>eFlat. Inr (flat @ eFlat))) [] elems"

definition flattenVariant :: "flat_fn \<Rightarrow> resolver \<Rightarrow> variant_case list \<Rightarrow> abi_error + string list" where
  "flattenVariant rec resolve cs =
     rbind (flattenPrimitive (DiscriminantType (length cs))) (\<lambda>discFlat.
     rbind (foldE (\<lambda>caseFlats c. case CaseType c of
               None \<Rightarrow> Inr caseFlats
             | Some ref \<Rightarrow> rbind (ref_flat rec resolve ref) (\<lambda>cFlat. Inr (caseFlats @ [cFlat]))) [] cs)
       (\<lambda>caseFlats. Inr (discFlat @ join_flats caseFlats)))"

definition flattenFlagsNumLabels :: "nat \<Rightarrow> abi_error + string list" where
  "flattenFlagsNumLabels numLabels =
     (if numLabels \<le> 0 \<or> numLabels > 32 then Inl (InvalidFlags numLabels) else Inr [''i32''])"

definition flattenEnum :: "string list \<Rightarrow> abi_error + string list" where
  "flattenEnum cs = (if length cs \<le> 0 then Inl (InvalidEnum (length cs)) else Inr [''i32''])"

definition flattenOption :: "flat_fn \<Rightarrow> resolver \<Rightarrow> type_ref \<Rightarrow> abi_error + string list" where
  "flattenOption rec resolve elem =
     rbind (ref_flat rec resolve elem) (\<lambda>elemFlat. Inr ([''i32''] @ elemFlat))"

definition arm_flat :: "flat_fn \<Rightarrow> resolver \<Rightarrow> type_ref option \<Rightarrow> abi_error + string list" where
  "arm_flat rec resolve arm = (case arm of None \<Rightarrow> Inr [] | Some ref \<Rightarrow> ref_flat rec resolve ref)"

definition flattenResult :: "flat_fn \<Rightarrow> resolver \<Rightarrow> type_ref option \<Rightarrow> type_ref option \<Rightarrow> abi_error + string list" where
  "flattenResult rec resolve okr errr =
     rbind (arm_flat rec resolve okr) (\<lambda>okFlat.
     rbind (arm_flat rec resolve errr) (\<lambda>errFlat.
       Inr ([''i32''] @ join_flats [okFlat, errFlat])))"

primrec Flatten :: "nat \<Rightarrow> resolver \<Rightarrow> type_desc option \<Rightarrow> abi_error + string list" where
  "Flatten 0 resolve t = Inl OutOfFuel"
| "Flatten (Suc fuel) resolve t =
     (let rec = Flatten fuel resolve
      in case t of
        None \<Rightarrow> Inl UnknownDescriptor
      | Some desc \<Rightarrow>
          (case desc of
             PrimitiveDesc p \<Rightarrow> flattenPrimitive p
           | ListDesc _ \<Rightarrow> Inr [''i32'', ''i32'']
           | RecordDesc fs \<Rightarrow> flattenRecord rec resolve fs
           | VariantDesc cs \<Rightarrow> flattenVariant rec resolve cs
           | TupleDesc elems \<Rightarrow> flattenTuple rec resolve elems
           | FlagsDesc names \<Rightarrow> flattenFlagsNumLabels (length names)
           | EnumDesc cs \<Rightarrow> flattenEnum cs
           | OptionDesc elem \<Rightarrow> flattenOption rec resolve elem
           | ResultDesc okr errr \<Rightarrow> flattenResult rec resolve okr errr
           | OwnDesc _ \<Rightarrow> Inr [''i32''] | BorrowDesc _ \<Rightarrow> Inr [''i32'']
           | StreamDesc _ \<Rightarrow> Inr [''i32''] | FutureDesc _ \<Rightarrow> Inr [''i32'']
           | FuncDesc _ \<Rightarrow> Inl (UnsupportedType desc) | InstanceDesc _ \<Rightarrow> Inl (UnsupportedType desc)
           | ComponentDesc \<Rightarrow> Inl (UnsupportedType desc) | ResourceDesc _ _ \<Rightarrow> Inl (UnsupportedType desc)))"

subsection \<open>Functions\<close>

definition flat_refs :: "flat_fn \<Rightarrow> resolver \<Rightarrow> type_ref list \<Rightarrow> abi_error + string list" where
  "flat_refs rec resolve refs =
     foldE (\<lambda>flat ref. rbind (ref_flat rec resolve ref) (\<lambda>f. Inr (flat @ f))) [] refs"

definition FlattenFunc ::
    "nat \<Rightarrow> func_desc \<Rightarrow> resolver \<Rightarrow> string \<Rightarrow> abi_error + string list \<times> string list" where
  "FlattenFunc fuel f resolve context =
     rbind (flat_refs (Flatten fuel resolve) resolve (map ParamType (Params f))) (\<lambda>params.
     rbind (case Unnamed (Results f) of
              Some ref \<Rightarrow> flat_refs (Flatten fuel resolve) resolve [ref]
            | None \<Rightarrow> flat_refs (Flatten fuel resolve) resolve (map ResultType (Named (Results f)))) (\<lambda>results.
       let params = (if length params > MaxFlatParams then [''i32''] else params)
       in if length results > MaxFlatResults then
            (if context = ''lift'' then Inr (params, [''i32''])
             else if context = ''lower'' then Inr (params @ [''i32''], [])
             else Inl (InvalidContext context))
          else Inr (params, results)))"

subsection \<open>The join\<close>

text \<open>The binary join of the Canonical ABI.\<close>

definition join :: "string \<Rightarrow> string \<Rightarrow> string" where
  "join a b = (if a = b then a
     else if (a = ''i32'' \<and> b = ''f32'') \<or> (a = ''f32'' \<and> b = ''i32'') then ''i32'' else ''i64'')"

definition core_kinds :: "string set" where
  "core_kinds = {''i32'', ''i64'', ''f32'', ''f64''}"

lemma joinCoreTypes_Cons:
  "joinCoreTypes (a # ts) =
     (if \<forall>t \<in> set ts. t = a then a
      else if \<forall>t \<in> set (a # ts). t = ''i32'' \<or> t = ''f32'' then ''i32'' else ''i64'')"
proof -
  have "fold (\<lambda>t (same, small).
      (if t \<noteq> a then False else same, if t \<noteq> ''i32'' \<and> t \<noteq> ''f32'' then False else small)) xs (p, q) =
    (p \<and> (\<forall>t \<in> set xs. t = a), q \<and> (\<forall>t \<in> set xs. t = ''i32'' \<or> t = ''f32''))" for xs p q
    by (induction xs arbitrary: p q) auto
  then show ?thesis by (simp only: joinCoreTypes_def list.case Let_def prod.case) auto
qed

lemma join_step:
  assumes "i \<noteq> f" "i \<noteq> l" "f \<noteq> l" "S \<Longrightarrow> Q \<longleftrightarrow> a = i \<or> a = f" "x = (if S then a else if Q then i else l)"
  shows "(if S \<and> t = a then a else if Q \<and> (t = i \<or> t = f) then i else l) =
    (if x = t then x else if (x = i \<and> t = f) \<or> (x = f \<and> t = i) then i else l)"
proof (cases S)
  case True
  with assms show ?thesis by auto
next
  case False
  with assms show ?thesis by (cases Q) auto
qed

lemma joinCoreTypes_foldl: "joinCoreTypes (a # ts) = foldl join a ts"
proof (induction ts rule: rev_induct)
  case Nil
  show ?case by (simp add: joinCoreTypes_Cons)
next
  case (snoc t ts)
  have "joinCoreTypes (a # ts @ [t]) =
    (if (\<forall>x \<in> set ts. x = a) \<and> t = a then a
     else if (\<forall>x \<in> set (a # ts). x = ''i32'' \<or> x = ''f32'') \<and> (t = ''i32'' \<or> t = ''f32'') then ''i32'' else ''i64'')"
    by (simp only: joinCoreTypes_Cons set_simps set_append ball_simps ball_Un conj_assoc simp_thms cong: if_cong)
  also have "\<dots> = join (joinCoreTypes (a # ts)) t"
    unfolding join_def 
    by (rule join_step, simp, simp, simp, metis list.set_intros(1) set_ConsD, rule joinCoreTypes_Cons)
  finally show ?case using snoc by simp
qed

lemma joinCoreTypes_single [simp]: "joinCoreTypes [a] = a"
  by (simp add: joinCoreTypes_Cons)

lemma joinCoreTypes_kind: "ts \<noteq> [] \<Longrightarrow> set ts \<subseteq> core_kinds \<Longrightarrow> joinCoreTypes ts \<in> core_kinds"
  by (cases ts) (simp_all add: joinCoreTypes_Cons core_kinds_def)

definition max_length :: "'a list list \<Rightarrow> nat" where
  "max_length cfs = fold (\<lambda>cf m. if length cf > m then length cf else m) cfs 0"

definition candidates :: "'a list list \<Rightarrow> nat \<Rightarrow> 'a list" where
  "candidates cfs i = map (\<lambda>cf. cf ! i) (filter (\<lambda>cf. i < length cf) cfs)"

lemma max_length_fold:
  "fold (\<lambda>cf m. if length cf > m then length cf else m) cfs m = max m (max_length cfs)"
  unfolding max_length_def
proof (induction cfs arbitrary: m)
  case (Cons cf cfs)
  show ?case using Cons [of m] Cons [of "length cf"] by (auto simp: max_def)
qed simp

lemma max_length_simps [simp]:
  "max_length [] = 0" "max_length (cf # cfs) = max (length cf) (max_length cfs)"
  using max_length_fold [of cfs "length cf"] by (simp_all add: max_length_def)

lemma max_length_ge: "cf \<in> set cfs \<Longrightarrow> length cf \<le> max_length cfs"
  by (induction cfs) auto

lemma candidates_nonempty: "i < max_length cfs \<Longrightarrow> candidates cfs i \<noteq> []"
  by (induction cfs) (auto simp: candidates_def max_def split: if_splits)

lemma concat_filter: "concat (map (\<lambda>x. if P x then [f x] else []) xs) = map f (filter P xs)"
  by (induction xs) auto

lemma join_flats_eq: "join_flats cfs = map (\<lambda>i. joinCoreTypes (candidates cfs i)) [0..<max_length cfs]"
proof -
  have "concat (map (\<lambda>i. if length (candidates cfs i) > 0 then [joinCoreTypes (candidates cfs i)] else []) [0..<n]) =
    map (\<lambda>i. joinCoreTypes (candidates cfs i)) [0..<n]" if "n \<le> max_length cfs" for n
    using that by (induction n) (auto simp: candidates_nonempty)
  from this [of "max_length cfs"] show ?thesis
    by (simp add: join_flats_def concat_filter Let_def flip: candidates_def max_length_def)
qed

lemma length_join_flats [simp]: "length (join_flats cfs) = max_length cfs"
  by (simp add: join_flats_eq)

lemma join_flats_kinds:
  assumes "\<forall>cf \<in> set cfs. set cf \<subseteq> core_kinds"
  shows "set (join_flats cfs) \<subseteq> core_kinds"
proof -
  have "set (candidates cfs i) \<subseteq> core_kinds" for i
    using assms nth_mem by (fastforce simp: candidates_def)
  then show ?thesis by (auto simp: join_flats_eq intro!: joinCoreTypes_kind candidates_nonempty)
qed

lemma join_flats_Nil [simp]: "join_flats [] = []"
  by (simp add: join_flats_eq)

lemma join_flats_single [simp]: "join_flats [cf] = cf"
  by (rule nth_equalityI) (auto simp: join_flats_eq candidates_def)

lemma join_flats_absent [simp]:
  "join_flats [[], cf] = cf" "join_flats [cf, []] = cf"
  by (rule nth_equalityI; auto simp: join_flats_eq candidates_def)+

subsection \<open>Recursion\<close>

lemma ref_flat_mono [fuel_intros]: "rec_le f f' \<Longrightarrow> fuel_le (ref_flat f r ref) (ref_flat f' r ref)"
  unfolding ref_flat_def by (intro fuel_intros rec_leD)

lemma flatten_mono:
  assumes "rec_le f f'"
  shows "fuel_le (flattenRecord f r fs) (flattenRecord f' r fs)"
    and "fuel_le (flattenTuple f r es) (flattenTuple f' r es)"
    and "fuel_le (flattenVariant f r cs) (flattenVariant f' r cs)"
    and "fuel_le (flattenOption f r e) (flattenOption f' r e)"
    and "fuel_le (flattenResult f r a b) (flattenResult f' r a b)"
    and "fuel_le (flat_refs f r refs) (flat_refs f' r refs)"
  unfolding flattenRecord_def flattenTuple_def flattenVariant_def flattenOption_def flattenResult_def
    arm_flat_def flat_refs_def
  by (intro fuel_intros assms)+

lemma Flatten_step: "fuel_le (Flatten n r t) (Flatten (Suc n) r t)"
proof (induction n arbitrary: t)
  case (Suc n)
  then have "rec_le (Flatten n r) (Flatten (Suc n) r)"
    unfolding rec_le_def by blast
  then have "fuel_le (Flatten (Suc n) r (Some d)) (Flatten (Suc (Suc n)) r (Some d))" for d
    by (cases d) (simp_all only: Flatten.simps(2)[of _ r] Let_def option.case type_desc.case,
        auto intro: flatten_mono)
  then show ?case by (cases t) (simp, blast)
qed simp

lemma Flatten_mono:
  "m \<le> n \<Longrightarrow> returns (Flatten m r t) \<Longrightarrow> Flatten n r t = Flatten m r t"
  by (rule fuel_step_le [where f = "\<lambda>n. Flatten n r t", OF Flatten_step])

lemma Flatten_mono_Inr:
  "m \<le> n \<Longrightarrow> Flatten m r t = Inr fs \<Longrightarrow> Flatten n r t = Inr fs"
  using Flatten_mono [of m n r t] by simp

lemma returns_flattenPrimitive [simp]: "returns (flattenPrimitive p)" "returns (flattenEnum ns)"
  "returns (flattenFlagsNumLabels n)"
  unfolding flattenPrimitive_def flattenEnum_def flattenFlagsNumLabels_def
  by (intro no_fuel; simp del: insert_iff)+

definition refs_flat_return :: "flat_fn \<Rightarrow> resolver \<Rightarrow> type_ref set \<Rightarrow> bool" where
  "refs_flat_return f r refs \<longleftrightarrow> (\<forall>ref \<in> refs. \<forall>t. resolveType (Some ref) r = Inr t \<longrightarrow> returns (f t))"

lemma returns_ref_flat: "refs_flat_return f r refs \<Longrightarrow> ref \<in> refs \<Longrightarrow> returns (ref_flat f r ref)"
  unfolding ref_flat_def refs_flat_return_def by (intro no_fuel) auto

lemma returns_flatten:
  "refs_flat_return f r (FieldType ` set fs) \<Longrightarrow> returns (flattenRecord f r fs)"
  "refs_flat_return f r (set es) \<Longrightarrow> returns (flattenTuple f r es)"
  "refs_flat_return f r (case_refs cs) \<Longrightarrow> returns (flattenVariant f r cs)"
  "refs_flat_return f r {e} \<Longrightarrow> returns (flattenOption f r e)"
  "refs_flat_return f r (set_option a \<union> set_option b) \<Longrightarrow> returns (flattenResult f r a b)"
  unfolding flattenRecord_def flattenTuple_def flattenVariant_def flattenOption_def flattenResult_def
    arm_flat_def
  by (intro no_fuel; (simp; fail)?; rule returns_ref_flat, assumption, (auto simp: case_refs_def)[1])+

lemma inline_refs_flat_return:
  assumes "validateLayoutDesc (Some d) r depth vis = Inr ()"
    and "\<And>t vis. validateLayoutDesc t r (depth + 1) vis = Inr () \<Longrightarrow> returns (f t)"
    and "\<And>p. returns (f (Some (PrimitiveDesc p)))"
  shows "refs_flat_return f r (inline_refs d)"
  unfolding refs_flat_return_def
proof (intro ballI allI impI)
  fix ref t assume ref: "ref \<in> inline_refs d" "resolveType (Some ref) r = Inr t"
  from validateLayoutDesc_refs [OF assms(1) ref(1)] show "returns (f t)"
    by (cases rule: validateRef_target) (use ref(2) assms(2,3) in auto)
qed

lemma Flatten_returns:
  assumes "validateLayoutDesc t r depth vis = Inr ()" "66 - depth \<le> n"
  shows "returns (Flatten n r t)"
  using assms
proof (induction n arbitrary: t depth vis)
  case 0
  then show ?case using validateLayoutDesc_depth [of t r depth vis] by simp
next
  case (Suc n)
  then obtain m where m: "n = Suc m"
    using validateLayoutDesc_depth [of t r depth vis] by (cases n) auto
  show ?case
  proof (cases t)
    case (Some d)
    have "refs_flat_return (Flatten n r) r (inline_refs d)"
    proof (rule inline_refs_flat_return [OF Suc.prems(1) [unfolded Some]])
      show "returns (Flatten n r t)" if "validateLayoutDesc t r (depth + 1) vis = Inr ()" for t vis
        using Suc.IH [OF that] Suc.prems(2) by simp
    qed (simp add: m)
    then show ?thesis unfolding Some by (cases d) (auto simp: returns_flatten)
  qed simp
qed

lemma core_kinds_members [simp]:
  "''i32'' \<in> core_kinds" "''i64'' \<in> core_kinds" "''f32'' \<in> core_kinds" "''f64'' \<in> core_kinds"
  by (simp_all add: core_kinds_def)

definition kinds_res :: "abi_error + string list \<Rightarrow> bool" where
  "kinds_res m \<longleftrightarrow> (\<forall>fs. m = Inr fs \<longrightarrow> set fs \<subseteq> core_kinds)"

lemma kinds_res_if: "kinds_res a \<Longrightarrow> kinds_res b \<Longrightarrow> kinds_res (if c then a else b)"
  by simp

lemma kinds_res_simps [simp]: "kinds_res (Inl e)" "kinds_res (Inr fs) \<longleftrightarrow> set fs \<subseteq> core_kinds"
  by (simp_all add: kinds_res_def)

lemma flattenPrimitive_kinds: "flattenPrimitive p = Inr fs \<Longrightarrow> set fs \<subseteq> core_kinds"
proof -
  have "kinds_res (flattenPrimitive p)"
    unfolding flattenPrimitive_def by (intro kinds_res_if; simp del: insert_iff)
  then show "flattenPrimitive p = Inr fs \<Longrightarrow> set fs \<subseteq> core_kinds" by (simp add: kinds_res_def)
qed

definition kinds_ok :: "flat_fn \<Rightarrow> bool" where
  "kinds_ok f \<longleftrightarrow> (\<forall>t fs. f t = Inr fs \<longrightarrow> set fs \<subseteq> core_kinds)"

lemma ref_flat_kinds: "kinds_ok f \<Longrightarrow> ref_flat f r ref = Inr fs \<Longrightarrow> set fs \<subseteq> core_kinds"
  by (auto simp: ref_flat_def kinds_ok_def rbind_eq_Inr)

lemma flatten_kinds:
  assumes "kinds_ok f"
  shows "flattenRecord f r fds = Inr fs \<Longrightarrow> set fs \<subseteq> core_kinds"
    and "flattenTuple f r es = Inr fs \<Longrightarrow> set fs \<subseteq> core_kinds"
    and "flat_refs f r refs = Inr fs \<Longrightarrow> set fs \<subseteq> core_kinds"
    and "flattenOption f r e = Inr fs \<Longrightarrow> set fs \<subseteq> core_kinds"
    and "arm_flat f r arm = Inr fs \<Longrightarrow> set fs \<subseteq> core_kinds"
proof -
  note ref = ref_flat_kinds [OF assms]
  show "flattenRecord f r fds = Inr fs \<Longrightarrow> set fs \<subseteq> core_kinds"
    unfolding flattenRecord_def by (erule foldE_invariant [where P = "\<lambda>fs. set fs \<subseteq> core_kinds"], simp) (auto simp: rbind_eq_Inr dest!: ref)
  show "flattenTuple f r es = Inr fs \<Longrightarrow> set fs \<subseteq> core_kinds"
    unfolding flattenTuple_def by (erule foldE_invariant [where P = "\<lambda>fs. set fs \<subseteq> core_kinds"], simp) (auto simp: rbind_eq_Inr dest!: ref)
  show "flat_refs f r refs = Inr fs \<Longrightarrow> set fs \<subseteq> core_kinds"
    unfolding flat_refs_def by (erule foldE_invariant [where P = "\<lambda>fs. set fs \<subseteq> core_kinds"], simp) (auto simp: rbind_eq_Inr dest!: ref)
  show "flattenOption f r e = Inr fs \<Longrightarrow> set fs \<subseteq> core_kinds"
    using ref by (fastforce simp: flattenOption_def rbind_eq_Inr)
  show "arm_flat f r arm = Inr fs \<Longrightarrow> set fs \<subseteq> core_kinds"
    by (cases arm) (simp_all add: arm_flat_def ref)
qed

lemma case_flats_kinds:
  assumes "kinds_ok f"
    and "foldE (\<lambda>caseFlats c. case CaseType c of None \<Rightarrow> Inr caseFlats
       | Some ref \<Rightarrow> rbind (ref_flat f r ref) (\<lambda>cFlat. Inr (caseFlats @ [cFlat]))) [] cs = Inr cfs"
  shows "\<forall>cf \<in> set cfs. set cf \<subseteq> core_kinds"
  using assms(2)
  by (rule foldE_invariant)
     (simp, simp add: rbind_eq_Inr split: option.splits, (auto; fail)?, use ref_flat_kinds [OF assms(1)] in fastforce)

lemma flattenVariant_kinds:
  "kinds_ok f \<Longrightarrow> flattenVariant f r cs = Inr fs \<Longrightarrow> set fs \<subseteq> core_kinds"
  by (auto simp: flattenVariant_def rbind_eq_Inr
      dest!: flattenPrimitive_kinds join_flats_kinds [OF case_flats_kinds])

lemma flattenResult_kinds:
  assumes "kinds_ok f" "flattenResult f r a b = Inr fs"
  shows "set fs \<subseteq> core_kinds"
proof -
  obtain af bf where "arm_flat f r a = Inr af" "arm_flat f r b = Inr bf" "fs = ''i32'' # join_flats [af, bf]"
    using assms(2) by (auto simp: flattenResult_def rbind_eq_Inr)
  then show ?thesis
    using flatten_kinds(5) [OF assms(1)] join_flats_kinds [of "[af, bf]"] by simp
qed

lemma Flatten_kinds: "kinds_ok (Flatten n r)"
proof (induction n)
  case (Suc n)
  have "Flatten (Suc n) r (Some d) = Inr fs \<Longrightarrow> set fs \<subseteq> core_kinds" for d fs
    by (cases d) (auto simp: flattenFlagsNumLabels_def flattenEnum_def split: if_split_asm
        dest: flattenPrimitive_kinds flatten_kinds [OF Suc.IH] flattenVariant_kinds [OF Suc.IH]
          flattenResult_kinds [OF Suc.IH])
  moreover have "Flatten (Suc n) r None \<noteq> Inr fs" for fs by simp
  ultimately show ?case unfolding kinds_ok_def by (metis option.exhaust)
qed (simp add: kinds_ok_def)

lemma flattenPrimitive_disc [simp]:
  "flattenPrimitive ''u8'' = Inr [''i32'']" "flattenPrimitive ''u16'' = Inr [''i32'']"
  "flattenPrimitive ''u32'' = Inr [''i32'']" "flattenPrimitive '''' = Inl (UnknownPrimitive '''')"
  by (simp_all add: flattenPrimitive_def)

lemma flattenVariant_head: "flattenVariant f r cs = Inr fs \<Longrightarrow> \<exists>j. fs = ''i32'' # j"
  by (cases rule: DiscriminantType_cases [of "length cs"])
     (auto simp: flattenVariant_def rbind_eq_Inr)

subsection \<open>Specialised types\<close>

lemma flattenTuple_despecialize:
  "flattenTuple f r es = flattenRecord f r (map (\<lambda>e. \<lparr>FieldName = '''', FieldType = e\<rparr>) es)"
  by (simp add: flattenTuple_def flattenRecord_def foldE_map)

lemma flattenOption_despecialize:
  "flattenOption f r e = flattenVariant f r [plain_case ''none'' None, plain_case ''some'' (Some e)]"
  by (simp add: flattenOption_def flattenVariant_def DiscriminantType_u8 rbind_assoc)

lemma flattenResult_despecialize:
  "flattenResult f r a b = flattenVariant f r [plain_case ''ok'' a, plain_case ''error'' b]"
  by (cases a; cases b)
     (simp_all add: flattenResult_def arm_flat_def flattenVariant_def DiscriminantType_u8 rbind_assoc)

lemma flattenEnum_despecialize:
  assumes "length ns \<le> MaxUint32"
  shows "flattenEnum ns = Inr fs \<longleftrightarrow> flattenVariant f r (map (\<lambda>n. plain_case n None) ns) = Inr fs"
  using assms
  by (cases rule: DiscriminantType_cases [of "length ns"])
     (auto simp: flattenEnum_def flattenVariant_def foldE_map)

subsection \<open>Properties\<close>

text \<open>Joining the core types of a position, over all cases at once, is the pairwise join of the
  Canonical ABI folded over the cases.\<close>

theorem joinCoreTypes_is_join: "joinCoreTypes (a # ts) = foldl join a ts"
  by (rule joinCoreTypes_foldl)

text \<open>Flattening yields core value types only, and a variant starts with the \<open>i32\<close> of its
  discriminant, which \<open>lowerFlatVariant\<close> relies on.\<close>

theorem Flatten_core_types:
  assumes "Flatten n r t = Inr fs"
  shows "set fs \<subseteq> {''i32'', ''i64'', ''f32'', ''f64''} \<and>
    (\<forall>cs. t = Some (VariantDesc cs) \<longrightarrow> (\<exists>joined. fs = ''i32'' # joined))"
proof -
  have "set fs \<subseteq> core_kinds" using assms Flatten_kinds unfolding kinds_ok_def by blast
  moreover have "\<exists>joined. fs = ''i32'' # joined" if "t = Some (VariantDesc cs)" for cs
    using assms that by (cases n) (auto dest: flattenVariant_head)
  ultimately show ?thesis unfolding core_kinds_def by blast
qed

theorem Flatten_core_types_witness:
  "\<exists>joined. [''i32'', ''f64''] = ''i32'' # joined \<and> set [''i32'', ''f64''] \<subseteq> {''i32'', ''i64'', ''f32'', ''f64''}"
proof -
  have "Flatten 2 None (Some (VariantDesc [plain_case ''a'' (Some (prim ''f64''))])) = Inr [''i32'', ''f64'']"
    by (simp add: numeral_2_eq_2 flattenVariant_def DiscriminantType_u8 ref_flat_def flattenPrimitive_def)
  from Flatten_core_types [OF this] show ?thesis by blast
qed

text \<open>The flattening of a tuple, enum, option or result is that of the despecialised type.\<close>

theorem Flatten_despecialize:
  assumes "\<And>ns. d = EnumDesc ns \<Longrightarrow> length ns \<le> MaxUint32"
  shows "Flatten n r (Some d) = Inr fs \<longleftrightarrow> Flatten n r (Some (despecialize d)) = Inr fs"
proof (cases n)
  case (Suc m)
  with assms show ?thesis
    by (cases d) (simp_all add: flattenTuple_despecialize flattenOption_despecialize
        flattenResult_despecialize flattenEnum_despecialize)
qed simp

theorem Flatten_despecialize_witness:
  "Flatten 3 None (Some (EnumDesc [''a'', ''b''])) = Inr [''i32''] \<longleftrightarrow>
   Flatten 3 None (Some (despecialize (EnumDesc [''a'', ''b'']))) = Inr [''i32'']"
  by (rule Flatten_despecialize) (simp add: MaxUint32_def)

text \<open>\<open>Flatten\<close> returns for every type that \<open>validateLayoutType\<close> accepts, with \<open>layout_fuel\<close>
  and with any larger budget to the same result. \<open>Flatten\<close> itself does not validate: on a record
  that contains itself it never returns, whereas \<open>Size\<close> reports the cycle.\<close>

theorem Flatten_terminates:
  assumes "validateLayoutType t r = Inr ()" "layout_fuel \<le> n"
  shows "Flatten n r t \<noteq> Inl OutOfFuel \<and> Flatten n r t = Flatten layout_fuel r t"
proof -
  have "returns (Flatten layout_fuel r t)"
    using Flatten_returns [of t r 0 "{}"] assms(1) by (simp add: validateLayoutType_def layout_fuel_def)
  with Flatten_mono [OF assms(2)] show ?thesis by (simp add: returns_def)
qed

theorem Flatten_terminates_witness:
  "Flatten 100 None (Some (OptionDesc (prim ''u8''))) \<noteq> Inl OutOfFuel \<and>
   Flatten 100 None (Some (OptionDesc (prim ''u8''))) = Flatten layout_fuel None (Some (OptionDesc (prim ''u8'')))"
proof (rule Flatten_terminates)
  show "validateLayoutType (Some (OptionDesc (prim ''u8''))) None = Inr ()"
    by (simp add: validateLayoutType_def validateLayoutDesc.simps validateRef_def prim_def maxLayoutTypeDepth_def)
qed (simp add: layout_fuel_def)

text \<open>The missing guard of \<open>Flatten\<close>: on a record type whose field is the record itself no
  recursion depth is enough, although layout validation rejects the type with a cycle error.\<close>

definition self_record :: type_desc where
  "self_record = RecordDesc [\<lparr>FieldName = ''f'', FieldType = tidx 0\<rparr>]"

theorem Flatten_diverges:
  "Flatten n (Some (\<lambda>_. Some self_record)) (Some self_record) = Inl OutOfFuel \<and>
   Size (Some self_record) (Some (\<lambda>_. Some self_record)) = Inl (TypeCycle 0)"
proof
  show "Flatten n (Some (\<lambda>_. Some self_record)) (Some self_record) = Inl OutOfFuel"
  proof (induction n)
    case (Suc n)
    then show ?case
      by (subst self_record_def) (simp add: flattenRecord_def ref_flat_def)
  qed simp
  show "Size (Some self_record) (Some (\<lambda>_. Some self_record)) = Inl (TypeCycle 0)"
    by (simp add: Size_def validateLayoutType_def validateLayoutDesc.simps validateRef_def self_record_def
        maxLayoutTypeDepth_def tidx_def)
qed

text \<open>The core signature of a component function respects the ABI limits: at most one result;
  at most 16 parameters, or 17 for a lowered import whose results are returned through a
  pointer parameter; and a lifted export never gets an extra parameter.\<close>

theorem FlattenFunc_limits:
  assumes "FlattenFunc n f r context = Inr (params, results)"
  shows "length results \<le> MaxFlatResults \<and> length params \<le> MaxFlatParams + 1 \<and>
    (length params = MaxFlatParams + 1 \<longrightarrow> context = ''lower'' \<and> results = [] \<and> last params = ''i32'') \<and>
    set params \<union> set results \<subseteq> {''i32'', ''i64'', ''f32'', ''f64''}"
proof -
  obtain ps rs where ps: "flat_refs (Flatten n r) r (map ParamType (Params f)) = Inr ps"
    and rs: "\<exists>refs. flat_refs (Flatten n r) r refs = Inr rs"
    and out: "(let params = (if length ps > MaxFlatParams then [''i32''] else ps)
       in if length rs > MaxFlatResults then
            (if context = ''lift'' then Inr (params, [''i32''])
             else if context = ''lower'' then Inr (params @ [''i32''], [])
             else Inl (InvalidContext context))
          else Inr (params, rs)) = Inr (params, results)"
    using assms by (auto simp: FlattenFunc_def rbind_eq_Inr split: option.splits)
  have "set ps \<subseteq> core_kinds" "set rs \<subseteq> core_kinds"
    using flatten_kinds(3) [OF Flatten_kinds] ps rs by blast+
  moreover define p where "p = (if length ps > MaxFlatParams then [''i32''] else ps)"
  ultimately have p: "set p \<subseteq> core_kinds" "length p \<le> MaxFlatParams" "set rs \<subseteq> core_kinds"
    by (auto simp: MaxFlatParams_def)
  show ?thesis
    using out p unfolding p_def [symmetric] Let_def core_kinds_def [symmetric]
    by (cases "length rs > MaxFlatResults"; cases "context = ''lift''")
       (auto simp: MaxFlatResults_def MaxFlatParams_def split: if_split_asm)
qed

theorem FlattenFunc_limits_witness:
  "length [''i32''] \<le> MaxFlatResults \<and> length [''f32''] \<le> MaxFlatParams + 1"
proof -
  have "FlattenFunc 1 \<lparr>Params = [\<lparr>ParamName = ''x'', ParamType = prim ''f32''\<rparr>],
      Results = \<lparr>Unnamed = Some (prim ''string''), Named = []\<rparr>, Async = False\<rparr> None ''lift'' = Inr ([''f32''], [''i32''])"
    by (simp add: FlattenFunc_def flat_refs_def ref_flat_def flattenPrimitive_def MaxFlatParams_def MaxFlatResults_def)
  from FlattenFunc_limits [OF this] show ?thesis by blast
qed

end
