(* ===== verification/Values.thy ===== *)
theory Values
  imports Flatten
begin

text \<open>
  \<open>internal/abi/value.go\<close> and \<open>internal/abi/coreval.go\<close>: component values as the host holds them,
  core values of the flat ABI, and the iterators that lifting reads core values from
  (\<open>CoreValueIter\<close>, and \<open>coercingValueIter\<close> of \<open>flat.go\<close>).

  A \<open>Value\<close> of the source is a Go interface value; \<open>val\<close> has one constructor for each dynamic type
  the ABI code distinguishes, \<open>VNil\<close> for the nil interface and \<open>VOther\<close> for any other type. A signed
  integer is kept as the word of its two's complement bits (\<open>rune\<close> is \<open>int32\<close>, so a char is a
  \<open>VI32\<close>), a float as its IEEE bits: the code only moves floats and never computes with them. A
  string is its bytes. A type assertion that panics and an index out of range are the error \<open>Panic\<close>.
\<close>

datatype val =
    VNil
  | VBool bool
  | VU32 u32
  | VI32 u32
  | VU64 u64
  | VI64 u64
  | VF32 u32
  | VF64 u64
  | VString "byte list"
  | VBytes "byte list"
  | VList "val list"
  | VVariant u32 val
  | VResult bool val
  | VOther string

subsection \<open>Core values\<close>

record core_value =
  CoreKind :: string
  Bits :: u64

definition NewCoreValueI32 :: "u32 \<Rightarrow> core_value" where
  "NewCoreValueI32 v = \<lparr>CoreKind = ''i32'', Bits = ucast v\<rparr>"

definition NewCoreValueI64 :: "u64 \<Rightarrow> core_value" where
  "NewCoreValueI64 v = \<lparr>CoreKind = ''i64'', Bits = v\<rparr>"

definition NewCoreValueF32 :: "u32 \<Rightarrow> core_value" where
  "NewCoreValueF32 bits = \<lparr>CoreKind = ''f32'', Bits = ucast bits\<rparr>"

definition NewCoreValueF64 :: "u64 \<Rightarrow> core_value" where
  "NewCoreValueF64 bits = \<lparr>CoreKind = ''f64'', Bits = bits\<rparr>"

definition AsI32 :: "core_value \<Rightarrow> abi_error + u32" where
  "AsI32 cv = (if CoreKind cv \<noteq> ''i32'' then Inl (Panic ''AsI32'') else Inr (ucast (Bits cv)))"

definition AsI64 :: "core_value \<Rightarrow> abi_error + u64" where
  "AsI64 cv = (if CoreKind cv \<noteq> ''i64'' then Inl (Panic ''AsI64'') else Inr (Bits cv))"

definition AsF32 :: "core_value \<Rightarrow> abi_error + u32" where
  "AsF32 cv = (if CoreKind cv \<noteq> ''f32'' then Inl (Panic ''AsF32'') else Inr (ucast (Bits cv)))"

definition AsF64 :: "core_value \<Rightarrow> abi_error + u64" where
  "AsF64 cv = (if CoreKind cv \<noteq> ''f64'' then Inl (Panic ''AsF64'') else Inr (Bits cv))"

lemma ucast_down_up [simp]: "ucast (ucast (w :: u32) :: u64) = w"
  by (rule bit_word_eqI) (auto simp: bit_ucast_iff)

lemma new_as [simp]:
  "AsI32 (NewCoreValueI32 v) = Inr v" "AsI64 (NewCoreValueI64 w) = Inr w"
  "AsF32 (NewCoreValueF32 v) = Inr v" "AsF64 (NewCoreValueF64 w) = Inr w"
  by (simp_all add: AsI32_def NewCoreValueI32_def AsI64_def NewCoreValueI64_def
      AsF32_def NewCoreValueF32_def AsF64_def NewCoreValueF64_def ucast_down_up)

lemma new_kind [simp]:
  "CoreKind (NewCoreValueI32 v) = ''i32''" "CoreKind (NewCoreValueI64 w) = ''i64''"
  "CoreKind (NewCoreValueF32 v) = ''f32''" "CoreKind (NewCoreValueF64 w) = ''f64''"
  by (simp_all add: NewCoreValueI32_def NewCoreValueI64_def NewCoreValueF32_def NewCoreValueF64_def)

subsection \<open>Coercion to and from a joined type\<close>

definition zeroCoreValueForKind :: "string \<Rightarrow> abi_error + core_value" where
  "zeroCoreValueForKind kind =
     (if kind = ''i32'' then Inr (NewCoreValueI32 0)
      else if kind = ''i64'' then Inr (NewCoreValueI64 0)
      else if kind = ''f32'' then Inr (NewCoreValueF32 0)
      else if kind = ''f64'' then Inr (NewCoreValueF64 0)
      else Inl (UnknownJoinedType kind))"

definition coerceValue :: "core_value \<Rightarrow> string \<Rightarrow> string \<Rightarrow> abi_error + core_value" where
  "coerceValue cv have want =
     (if have = want then Inr cv
      else if have = ''f32'' \<and> want = ''i32'' then
        rbind (AsF32 cv) (\<lambda>bits. Inr (NewCoreValueI32 bits))
      else if have = ''i32'' \<and> want = ''i64'' then
        rbind (AsI32 cv) (\<lambda>i. Inr (NewCoreValueI64 (ucast i)))
      else if have = ''f32'' \<and> want = ''i64'' then
        rbind (AsF32 cv) (\<lambda>bits. Inr (NewCoreValueI64 (ucast bits)))
      else if have = ''f64'' \<and> want = ''i64'' then
        rbind (AsF64 cv) (\<lambda>bits. Inr (NewCoreValueI64 bits))
      else Inr cv)"

definition deCoerceValue :: "core_value \<Rightarrow> string \<Rightarrow> string \<Rightarrow> abi_error + core_value" where
  "deCoerceValue cv have want =
     (if have = want then Inr cv
      else if have = ''i32'' \<and> want = ''f32'' then
        rbind (AsI32 cv) (\<lambda>i. Inr (NewCoreValueF32 i))
      else if have = ''i64'' \<and> want = ''i32'' then
        rbind (AsI64 cv) (\<lambda>i. Inr (NewCoreValueI32 (ucast i)))
      else if have = ''i64'' \<and> want = ''f32'' then
        rbind (AsI64 cv) (\<lambda>i. Inr (NewCoreValueF32 (ucast i)))
      else if have = ''i64'' \<and> want = ''f64'' then
        rbind (AsI64 cv) (\<lambda>i. Inr (NewCoreValueF64 i))
      else Inr cv)"

subsection \<open>Iterators\<close>

datatype value_iter =
    CoreValueIter (iter_values: "core_value list") (iter_i: nat)
  | CoercingValueIter (underlying: value_iter) (joinedFlat: "string list") (caseFlat: "string list") (idx: nat)

fun Next :: "value_iter \<Rightarrow> (abi_error + core_value) \<times> value_iter" where
  "Next (CoreValueIter vs i) =
     (if i \<ge> length vs then (Inl IterOutOfRange, CoreValueIter vs i)
      else (index_at vs i, CoreValueIter vs (i + 1)))"
| "Next (CoercingValueIter u joined cas i) =
     (if i \<ge> length cas then (Inl IterOutOfRange, CoercingValueIter u joined cas i)
      else (case rbind (index_at joined i) (\<lambda>have. rbind (index_at cas i) (\<lambda>want. Inr (have, want))) of
          Inl e \<Rightarrow> (Inl e, CoercingValueIter u joined cas i)
        | Inr (have, want) \<Rightarrow>
            (case Next u of
               (Inl e, u') \<Rightarrow> (Inl e, CoercingValueIter u' joined cas (i + 1))
             | (Inr cv, u') \<Rightarrow> (deCoerceValue cv have want, CoercingValueIter u' joined cas (i + 1)))))"

declare Next.simps [simp del]

lemma Next_simps [simp]:
  "Next (CoreValueIter vs i) =
     (if i \<ge> length vs then (Inl IterOutOfRange, CoreValueIter vs i) else (Inr (vs ! i), CoreValueIter vs (i + 1)))"
  "Next (CoercingValueIter u joined cas i) =
     (if i \<ge> length cas then (Inl IterOutOfRange, CoercingValueIter u joined cas i)
      else if i \<ge> length joined then (Inl (Panic ''index out of range''), CoercingValueIter u joined cas i)
      else (case Next u of
              (Inl e, u') \<Rightarrow> (Inl e, CoercingValueIter u' joined cas (i + 1))
            | (Inr cv, u') \<Rightarrow> (deCoerceValue cv (joined ! i) (cas ! i), CoercingValueIter u' joined cas (i + 1))))"
  by (auto simp: Next.simps indexed_def)

fun Done :: "value_iter \<Rightarrow> bool" where
  "Done (CoreValueIter vs i) \<longleftrightarrow> i = length vs"
| "Done (CoercingValueIter u joined cas i) \<longleftrightarrow> i = length cas"

subsection \<open>Lemmas\<close>

lemma coerceValue_simps [simp]:
  "coerceValue cv k k = Inr cv"
  "coerceValue (NewCoreValueF32 v) ''f32'' ''i32'' = Inr (NewCoreValueI32 v)"
  "coerceValue (NewCoreValueI32 v) ''i32'' ''i64'' = Inr (NewCoreValueI64 (ucast v))"
  "coerceValue (NewCoreValueF32 v) ''f32'' ''i64'' = Inr (NewCoreValueI64 (ucast v))"
  "coerceValue (NewCoreValueF64 w) ''f64'' ''i64'' = Inr (NewCoreValueI64 w)"
  by (simp_all add: coerceValue_def)

lemma deCoerceValue_simps [simp]:
  "deCoerceValue cv k k = Inr cv"
  "deCoerceValue (NewCoreValueI32 v) ''i32'' ''f32'' = Inr (NewCoreValueF32 v)"
  "deCoerceValue (NewCoreValueI64 w) ''i64'' ''i32'' = Inr (NewCoreValueI32 (ucast w))"
  "deCoerceValue (NewCoreValueI64 w) ''i64'' ''f32'' = Inr (NewCoreValueF32 (ucast w))"
  "deCoerceValue (NewCoreValueI64 w) ''i64'' ''f64'' = Inr (NewCoreValueF64 w)"
  by (simp_all add: deCoerceValue_def)

text \<open>Coercing a core value to the join of its kind with others, and back, is the identity.\<close>

definition well_kinded :: "core_value \<Rightarrow> bool" where
  "well_kinded cv \<longleftrightarrow> (\<exists>v. cv = NewCoreValueI32 v) \<or> (\<exists>v. cv = NewCoreValueF32 v) \<or>
     (\<exists>w. cv = NewCoreValueI64 w) \<or> (\<exists>w. cv = NewCoreValueF64 w)"

lemma well_kinded_simps [simp]:
  "well_kinded (NewCoreValueI32 v)" "well_kinded (NewCoreValueF32 v)"
  "well_kinded (NewCoreValueI64 w)" "well_kinded (NewCoreValueF64 w)"
  unfolding well_kinded_def by blast+

lemma deCoerce_coerce:
  assumes "well_kinded cv" "want = CoreKind cv \<or> want = ''i64'' \<or> (want = ''i32'' \<and> CoreKind cv = ''f32'')"
  shows "\<exists>cv'. coerceValue cv (CoreKind cv) want = Inr cv' \<and> deCoerceValue cv' want (CoreKind cv) = Inr cv \<and>
    CoreKind cv' = want \<and> well_kinded cv'"
proof (cases "want = CoreKind cv")
  case False
  from assms(1) consider v where "cv = NewCoreValueI32 v" | v where "cv = NewCoreValueF32 v"
    | w where "cv = NewCoreValueI64 w" | w where "cv = NewCoreValueF64 w"
    unfolding well_kinded_def by blast
  then show ?thesis
  proof cases
    case (2 v)
    then have "want = ''i64'' \<or> want = ''i32''" using False assms(2) by simp
    with 2 show ?thesis by (elim disjE) simp_all
  qed (use False assms(2) in simp_all)
qed (simp add: assms(1))

end
