(* ===== verification/Memory.thy ===== *)
theory Memory
  imports Values
begin

text \<open>
  \<open>internal/abi/memory.go\<close>: loading a component value from the guest's linear memory and storing one
  there. A load is a function of the memory's bytes. A store is an operation over \<open>mstate\<close>: the
  bytes of the slice \<open>mem\<close> the source was given, and the rest of the guest, which only the guest's
  allocator sees.

  The allocator, the guest's \<open>cabi_realloc\<close> behind \<open>Realloc.Call\<close>, is a parameter: any operation over
  \<open>mstate\<close> that returns a 32-bit pointer or fails; \<open>None\<close> is the zero \<open>Realloc\<close>.
\<close>

record 'g mstate =
  lin_mem :: "byte list"
  guest :: 'g

type_synonym ('g, 'a) mop = "('g mstate, abi_error, 'a) op"
type_synonym 'g realloc = "(u32 \<Rightarrow> u32 \<Rightarrow> u32 \<Rightarrow> u32 \<Rightarrow> ('g, u32) mop) option"

definition maxListElements :: nat where "maxListElements = 1048576"

definition checkedRange :: "nat \<Rightarrow> nat \<Rightarrow> nat \<Rightarrow> abi_error + nat \<times> nat" where
  "checkedRange memLen ptr sz =
     (let end64 = ptr + sz
      in if end64 > memLen then Inl (BufferOverflow ptr sz memLen) else Inr (ptr, end64))"

definition checkedByteLength :: "nat \<Rightarrow> nat \<Rightarrow> abi_error + nat" where
  "checkedByteLength len elemSize =
     (let byteLen = len * elemSize
      in if byteLen > MaxUint32 then Inl (ByteLengthOverflow len elemSize) else Inr byteLen)"

definition Grow :: "'g realloc \<Rightarrow> nat \<Rightarrow> nat \<Rightarrow> nat \<Rightarrow> nat \<Rightarrow> ('g, nat) mop" where
  "Grow r origPtr origSize align newSize =
     (case r of None \<Rightarrow> sfail NoRealloc
      | Some call \<Rightarrow>
          sbind (call (word_of_nat origPtr) (word_of_nat origSize) (word_of_nat align) (word_of_nat newSize))
            (\<lambda>p. sret (unat p)))"

subsection \<open>Bytes\<close>

definition slice_of :: "byte list \<Rightarrow> nat \<Rightarrow> nat \<Rightarrow> byte list" where
  "slice_of m start len = take len (drop start m)"

text \<open>Overwriting the bytes from \<open>start\<close> on.\<close>

definition write_at :: "nat \<Rightarrow> byte list \<Rightarrow> byte list \<Rightarrow> byte list" where
  "write_at start bs m = take start m @ bs @ drop (start + length bs) m"

text \<open>\<open>binary.LittleEndian\<close>: the number in some bytes, and the low \<open>n\<close> bytes of a number.\<close>

primrec le_nat :: "byte list \<Rightarrow> nat" where
  "le_nat [] = 0"
| "le_nat (b # bs) = unat b + 256 * le_nat bs"

primrec le_bytes :: "nat \<Rightarrow> nat \<Rightarrow> byte list" where
  "le_bytes 0 x = []"
| "le_bytes (Suc n) x = word_of_nat x # le_bytes n (x div 256)"

text \<open>\<open>binary.LittleEndian.Uint16\<close> and its like, which panic when the bytes are too few.\<close>

definition get_le :: "nat \<Rightarrow> byte list \<Rightarrow> abi_error + nat" where
  "get_le n bytes = rbind (index_at bytes (n - 1)) (\<lambda>_. Inr (le_nat (take n bytes)))"

text \<open>\<open>utf8.Valid\<close> of the Go library: the table of well-formed byte sequences.\<close>

definition cont_byte :: "byte \<Rightarrow> bool" where
  "cont_byte b \<longleftrightarrow> 0x80 \<le> b \<and> b \<le> 0xBF"

fun utf8_valid :: "byte list \<Rightarrow> bool" where
  "utf8_valid [] = True"
| "utf8_valid (a # bs) =
     (if a < 0x80 then utf8_valid bs
      else if 0xC2 \<le> a \<and> a \<le> 0xDF then
        (case bs of b # r \<Rightarrow> cont_byte b \<and> utf8_valid r | _ \<Rightarrow> False)
      else if 0xE0 \<le> a \<and> a \<le> 0xEF then
        (case bs of b # c # r \<Rightarrow>
           (if a = 0xE0 then 0xA0 \<le> b \<and> b \<le> 0xBF else if a = 0xED then 0x80 \<le> b \<and> b \<le> 0x9F else cont_byte b)
           \<and> cont_byte c \<and> utf8_valid r | _ \<Rightarrow> False)
      else if 0xF0 \<le> a \<and> a \<le> 0xF4 then
        (case bs of b # c # d # r \<Rightarrow>
           (if a = 0xF0 then 0x90 \<le> b \<and> b \<le> 0xBF else if a = 0xF4 then 0x80 \<le> b \<and> b \<le> 0x8F else cont_byte b)
           \<and> cont_byte c \<and> cont_byte d \<and> utf8_valid r | _ \<Rightarrow> False)
      else False)"

subsection \<open>Type assertions\<close>

definition assert_u32 :: "val \<Rightarrow> abi_error + u32" where
  "assert_u32 v = (case v of VU32 w \<Rightarrow> Inr w | _ \<Rightarrow> Inl (Panic ''uint32''))"

definition assert_u64 :: "val \<Rightarrow> abi_error + u64" where
  "assert_u64 v = (case v of VU64 w \<Rightarrow> Inr w | _ \<Rightarrow> Inl (Panic ''uint64''))"

definition expect_u32 :: "val \<Rightarrow> abi_error + u32" where
  "expect_u32 v = (case v of VU32 w \<Rightarrow> Inr w | _ \<Rightarrow> Inl (ExpectedType ''uint32''))"

definition expect_list :: "val \<Rightarrow> abi_error + val list" where
  "expect_list v = (case v of VList vs \<Rightarrow> Inr vs | _ \<Rightarrow> Inl (ExpectedType ''[]Value''))"

subsection \<open>Loading\<close>

definition loadInt :: "byte list \<Rightarrow> nat \<Rightarrow> nat \<Rightarrow> bool \<Rightarrow> abi_error + val" where
  "loadInt m ptr nbytes sgnd =
     rbind (checkedRange (length m) ptr nbytes) (\<lambda>(start, end').
     rbind (slice_at m start end') (\<lambda>bytes.
       if nbytes = 1 then
         rbind (index_at bytes 0) (\<lambda>b.
           if sgnd \<and> b AND 0x80 \<noteq> 0 then Inr (VI32 (scast b)) else Inr (VU32 (ucast b)))
       else if nbytes = 2 then
         rbind (get_le 2 bytes) (\<lambda>x. let v = word_of_nat x :: 16 word in if sgnd then Inr (VI32 (scast v)) else Inr (VU32 (ucast v)))
       else if nbytes = 4 then
         rbind (get_le 4 bytes) (\<lambda>x. let v = word_of_nat x in if sgnd then Inr (VI32 v) else Inr (VU32 v))
       else if nbytes = 8 then
         rbind (get_le 8 bytes) (\<lambda>x. let v = word_of_nat x in if sgnd then Inr (VI64 v) else Inr (VU64 v))
       else Inl (InvalidNbytes nbytes)))"

definition readU32LE :: "byte list \<Rightarrow> nat \<Rightarrow> abi_error + nat" where
  "readU32LE m ptr =
     rbind (checkedRange (length m) ptr 4) (\<lambda>(start, end').
     rbind (slice_at m start end') (get_le 4))"

definition loadStringFromRange :: "byte list \<Rightarrow> nat \<Rightarrow> nat \<Rightarrow> abi_error + byte list" where
  "loadStringFromRange m ptr byteLen =
     rbind (checkedRange (length m) ptr byteLen) (\<lambda>(start, end').
     rbind (slice_at m start end') (\<lambda>b.
       if \<not> utf8_valid b then Inl (InvalidUtf8 ptr byteLen) else Inr b))"

definition loadString :: "byte list \<Rightarrow> nat \<Rightarrow> abi_error + val" where
  "loadString m ptr =
     rbind (readU32LE m ptr) (\<lambda>strPtr.
     rbind (checkedAdd ptr 4) (\<lambda>lenPtr.
     rbind (readU32LE m lenPtr) (\<lambda>strLen.
     rbind (loadStringFromRange m strPtr strLen) (\<lambda>s. Inr (VString s)))))"

definition char_check :: "u32 \<Rightarrow> abi_error + unit" where
  "char_check i =
     (if i \<ge> 0x110000 then Inl CharOutOfRange
      else if i \<ge> 0xD800 \<and> i \<le> 0xDFFF then Inl CharSurrogate else Inr ())"

definition loadPrimitive :: "byte list \<Rightarrow> nat \<Rightarrow> string \<Rightarrow> abi_error + val" where
  "loadPrimitive m ptr p =
     (if p = ''bool'' then
        rbind (loadInt m ptr 1 False) (\<lambda>v. rbind (assert_u32 v) (\<lambda>w. Inr (VBool (w \<noteq> 0))))
      else if p = ''u8'' then loadInt m ptr 1 False
      else if p = ''u16'' then loadInt m ptr 2 False
      else if p = ''u32'' then loadInt m ptr 4 False
      else if p = ''s8'' then loadInt m ptr 1 True
      else if p = ''s16'' then loadInt m ptr 2 True
      else if p = ''s32'' then loadInt m ptr 4 True
      else if p = ''u64'' then loadInt m ptr 8 False
      else if p = ''s64'' then loadInt m ptr 8 True
      else if p = ''f32'' then
        rbind (loadInt m ptr 4 False) (\<lambda>bits. rbind (assert_u32 bits) (\<lambda>w. Inr (VF32 w)))
      else if p = ''f64'' then
        rbind (loadInt m ptr 8 False) (\<lambda>bits. rbind (assert_u64 bits) (\<lambda>w. Inr (VF64 w)))
      else if p = ''char'' then
        rbind (loadInt m ptr 4 False) (\<lambda>v. rbind (assert_u32 v) (\<lambda>i.
          rbind (char_check i) (\<lambda>_. Inr (VI32 i))))
      else if p = ''string'' then loadString m ptr
      else if p = ''error-context'' then loadInt m ptr 4 False
      else Inl (UnknownPrimitive p))"

type_synonym load_fn = "nat \<Rightarrow> type_desc option \<Rightarrow> abi_error + val"

text \<open>The element loop: \<open>k\<close> elements from \<open>p\<close> on; the pointer is advanced between elements only.\<close>

primrec load_elems :: "(nat \<Rightarrow> abi_error + val) \<Rightarrow> nat \<Rightarrow> nat \<Rightarrow> nat \<Rightarrow> abi_error + val list" where
  "load_elems ld elemSize 0 p = Inr []"
| "load_elems ld elemSize (Suc k) p =
     rbind (ld p) (\<lambda>v.
       if k > 0 then
         rbind (checkedAdd p elemSize) (\<lambda>p'. rbind (load_elems ld elemSize k p') (\<lambda>vs. Inr (v # vs)))
       else Inr [v])"

definition loadListFromRange ::
    "load_fn \<Rightarrow> byte list \<Rightarrow> nat \<Rightarrow> nat \<Rightarrow> type_desc option \<Rightarrow> resolver \<Rightarrow> abi_error + val list" where
  "loadListFromRange rec m ptr len elemType resolve =
     rbind (Size elemType resolve) (\<lambda>elemSize.
     rbind (Alignment elemType resolve) (\<lambda>elemAlign.
     rbind (checkedByteLength len elemSize) (\<lambda>byteLen.
       if len > maxListElements then Inl (ListTooLong len)
       else
         rbind (checkedRange (length m) ptr byteLen) (\<lambda>_.
           if elemAlign \<noteq> 0 \<and> ptr mod elemAlign \<noteq> 0 then Inl (NotAligned ptr elemAlign)
           else load_elems (\<lambda>p. rec p elemType) elemSize len ptr))))"

definition loadList :: "load_fn \<Rightarrow> byte list \<Rightarrow> nat \<Rightarrow> type_desc option \<Rightarrow> resolver \<Rightarrow> abi_error + val" where
  "loadList rec m ptr elemType resolve =
     rbind (loadInt m ptr 4 False) (\<lambda>listPtr.
     rbind (checkedAdd ptr 4) (\<lambda>lenPtr.
     rbind (loadInt m lenPtr 4 False) (\<lambda>listLen.
     rbind (assert_u32 listPtr) (\<lambda>p.
     rbind (assert_u32 listLen) (\<lambda>n.
     rbind (loadListFromRange rec m (unat p) (unat n) elemType resolve) (\<lambda>vs. Inr (VList vs)))))))"

text \<open>The loop of \<open>loadRecord\<close> and of \<open>loadTuple\<close> over the members from \<open>offset\<close> on.\<close>

primrec load_members :: "load_fn \<Rightarrow> resolver \<Rightarrow> type_ref list \<Rightarrow> nat \<Rightarrow> abi_error + val list" where
  "load_members rec resolve [] offset = Inr []"
| "load_members rec resolve (ref # refs) offset =
     rbind (resolveType (Some ref) resolve) (\<lambda>t.
     rbind (Alignment t resolve) (\<lambda>align.
     rbind (checkedAlign offset align) (\<lambda>offset.
     rbind (rec offset t) (\<lambda>v.
     rbind (Size t resolve) (\<lambda>size.
     rbind (checkedAdd offset size) (\<lambda>offset.
     rbind (load_members rec resolve refs offset) (\<lambda>vs. Inr (v # vs))))))))"

definition loadRecord :: "load_fn \<Rightarrow> nat \<Rightarrow> record_field list \<Rightarrow> resolver \<Rightarrow> abi_error + val" where
  "loadRecord rec ptr fs resolve =
     rbind (load_members rec resolve (map FieldType fs) ptr) (\<lambda>vs. Inr (VList vs))"

definition loadTuple :: "load_fn \<Rightarrow> nat \<Rightarrow> type_ref list \<Rightarrow> resolver \<Rightarrow> abi_error + val" where
  "loadTuple rec ptr elems resolve =
     rbind (load_members rec resolve elems ptr) (\<lambda>vs. Inr (VList vs))"

definition load_arm :: "load_fn \<Rightarrow> nat \<Rightarrow> type_ref option \<Rightarrow> resolver \<Rightarrow> abi_error + val" where
  "load_arm rec offset arm resolve =
     (case arm of None \<Rightarrow> Inr VNil | Some ref \<Rightarrow> rbind (resolveType (Some ref) resolve) (rec offset))"

definition loadVariant ::
    "load_fn \<Rightarrow> rec_fn \<Rightarrow> byte list \<Rightarrow> nat \<Rightarrow> variant_case list \<Rightarrow> resolver \<Rightarrow> abi_error + val" where
  "loadVariant rec al m ptr cs resolve =
     rbind (sizePrimitive (DiscriminantType (length cs))) (\<lambda>discSize.
     rbind (loadInt m ptr discSize False) (\<lambda>discVal.
     rbind (assert_u32 discVal) (\<lambda>caseIdx.
       if unat caseIdx \<ge> length cs then Inl (CaseOutOfRange (unat caseIdx) (length cs))
       else
         rbind (checkedAdd ptr discSize) (\<lambda>offset.
         rbind (MaxCaseAlignment al resolve cs) (\<lambda>maxCaseAlign.
         rbind (checkedAlign offset maxCaseAlign) (\<lambda>offset.
         rbind (index_at cs (unat caseIdx)) (\<lambda>c.
         rbind (load_arm rec offset (CaseType c) resolve) (\<lambda>payload.
           Inr (VVariant caseIdx payload)))))))))"

definition loadFlags :: "byte list \<Rightarrow> nat \<Rightarrow> string list \<Rightarrow> abi_error + val" where
  "loadFlags m ptr names =
     rbind (sizeFlagsNumLabels (length names)) (\<lambda>flagsSize. loadInt m ptr flagsSize False)"

definition loadEnum :: "byte list \<Rightarrow> nat \<Rightarrow> string list \<Rightarrow> abi_error + val" where
  "loadEnum m ptr cs =
     rbind (sizeEnumNumCases (length cs)) (\<lambda>enumSize.
     rbind (loadInt m ptr enumSize False) (\<lambda>caseIdx.
     rbind (assert_u32 caseIdx) (\<lambda>idx.
       if unat idx \<ge> length cs then Inl (CaseOutOfRange (unat idx) (length cs)) else Inr (VU32 idx))))"

definition loadOption :: "load_fn \<Rightarrow> byte list \<Rightarrow> nat \<Rightarrow> type_desc option \<Rightarrow> resolver \<Rightarrow> abi_error + val" where
  "loadOption rec m ptr elemType resolve =
     rbind (loadInt m ptr 1 False) (\<lambda>disc.
     rbind (assert_u32 disc) (\<lambda>discIdx.
     rbind (checkedAdd ptr 1) (\<lambda>offset.
     rbind (Alignment elemType resolve) (\<lambda>elemAlign.
     rbind (checkedAlign offset elemAlign) (\<lambda>offset.
       if discIdx = 0 then Inr VNil
       else if discIdx = 1 then rec offset elemType
       else Inl (InvalidDiscriminant (unat discIdx)))))))"

text \<open>The largest alignment of the arms, with the validating \<open>Alignment\<close>.\<close>

definition arms_alignment :: "type_ref option \<Rightarrow> type_ref option \<Rightarrow> resolver \<Rightarrow> abi_error + nat" where
  "arms_alignment okr errr resolve =
     rbind (join_arm_alignment (\<lambda>t. Alignment t resolve) resolve okr 1)
       (join_arm_alignment (\<lambda>t. Alignment t resolve) resolve errr)"

definition loadResult ::
    "load_fn \<Rightarrow> byte list \<Rightarrow> nat \<Rightarrow> type_ref option \<Rightarrow> type_ref option \<Rightarrow> resolver \<Rightarrow> abi_error + val" where
  "loadResult rec m ptr okr errr resolve =
     rbind (loadInt m ptr 1 False) (\<lambda>disc.
     rbind (assert_u32 disc) (\<lambda>discIdx.
     rbind (checkedAdd ptr 1) (\<lambda>offset.
     rbind (arms_alignment okr errr resolve) (\<lambda>maxAlign.
     rbind (checkedAlign offset maxAlign) (\<lambda>offset.
       if discIdx = 0 then rbind (load_arm rec offset okr resolve) (\<lambda>payload. Inr (VResult False payload))
       else if discIdx = 1 then rbind (load_arm rec offset errr resolve) (\<lambda>payload. Inr (VResult True payload))
       else Inl (InvalidDiscriminant (unat discIdx)))))))"

primrec loadValue :: "nat \<Rightarrow> byte list \<Rightarrow> resolver \<Rightarrow> nat \<Rightarrow> type_desc option \<Rightarrow> abi_error + val" where
  "loadValue 0 m resolve ptr t = Inl OutOfFuel"
| "loadValue (Suc fuel) m resolve ptr t =
     (let rec = loadValue fuel m resolve
      in case t of
        None \<Rightarrow> Inl UnknownDescriptor
      | Some desc \<Rightarrow>
          (case desc of
             PrimitiveDesc p \<Rightarrow> loadPrimitive m ptr p
           | ListDesc elem \<Rightarrow>
               rbind (resolveType (Some elem) resolve) (\<lambda>elemType. loadList rec m ptr elemType resolve)
           | RecordDesc fs \<Rightarrow> loadRecord rec ptr fs resolve
           | VariantDesc cs \<Rightarrow> loadVariant rec (alignmentUnchecked fuel resolve) m ptr cs resolve
           | TupleDesc elems \<Rightarrow> loadTuple rec ptr elems resolve
           | FlagsDesc names \<Rightarrow> loadFlags m ptr names
           | EnumDesc cs \<Rightarrow> loadEnum m ptr cs
           | OptionDesc elem \<Rightarrow>
               rbind (resolveType (Some elem) resolve) (\<lambda>elemType. loadOption rec m ptr elemType resolve)
           | ResultDesc okr errr \<Rightarrow> loadResult rec m ptr okr errr resolve
           | OwnDesc _ \<Rightarrow> loadInt m ptr 4 False | BorrowDesc _ \<Rightarrow> loadInt m ptr 4 False
           | StreamDesc _ \<Rightarrow> loadInt m ptr 4 False | FutureDesc _ \<Rightarrow> loadInt m ptr 4 False
           | FuncDesc _ \<Rightarrow> Inl (UnsupportedType desc) | InstanceDesc _ \<Rightarrow> Inl (UnsupportedType desc)
           | ComponentDesc \<Rightarrow> Inl (UnsupportedType desc) | ResourceDesc _ _ \<Rightarrow> Inl (UnsupportedType desc)))"

definition Load :: "nat \<Rightarrow> byte list \<Rightarrow> nat \<Rightarrow> type_desc option \<Rightarrow> resolver \<Rightarrow> abi_error + val" where
  "Load fuel m ptr t resolve =
     rbind (Alignment t resolve) (\<lambda>align.
       if align \<noteq> 0 \<and> ptr mod align \<noteq> 0 then Inl (NotAligned ptr align)
       else
         rbind (Size t resolve) (\<lambda>size.
         rbind (checkedRange (length m) ptr size) (\<lambda>_.
           loadValue fuel m resolve ptr t)))"

subsection \<open>Storing\<close>

text \<open>The four integer types \<open>storeInt\<close> accepts, as 64 bits.\<close>

definition integer_bits :: "val \<Rightarrow> abi_error + u64" where
  "integer_bits v =
     (case v of VU32 w \<Rightarrow> Inr (ucast w) | VI32 w \<Rightarrow> Inr (ucast w)
      | VU64 w \<Rightarrow> Inr w | VI64 w \<Rightarrow> Inr w | _ \<Rightarrow> Inl (ExpectedType ''integer''))"

definition write_bytes :: "nat \<Rightarrow> byte list \<Rightarrow> ('g, unit) mop" where
  "write_bytes start bs s =
     (case slice_at (lin_mem s) start (start + length bs) of
        Inl e \<Rightarrow> (Inl e, s)
      | Inr _ \<Rightarrow> (Inr (), s\<lparr>lin_mem := write_at start bs (lin_mem s)\<rparr>))"

definition checked_range_of :: "nat \<Rightarrow> nat \<Rightarrow> ('g, nat \<times> nat) mop" where
  "checked_range_of ptr sz s = (checkedRange (length (lin_mem s)) ptr sz, s)"

definition storeInt :: "nat \<Rightarrow> val \<Rightarrow> nat \<Rightarrow> ('g, unit) mop" where
  "storeInt ptr v nbytes =
     sbind (checked_range_of ptr nbytes) (\<lambda>(start, end').
     sbind (slift (integer_bits v)) (\<lambda>u64Val.
       if nbytes = 1 then write_bytes start (le_bytes 1 (unat (u64Val AND 0xFF)))
       else if nbytes = 2 then write_bytes start (le_bytes 2 (unat (u64Val AND 0xFFFF)))
       else if nbytes = 4 then write_bytes start (le_bytes 4 (unat (u64Val AND 0xFFFFFFFF)))
       else if nbytes = 8 then write_bytes start (le_bytes 8 (unat u64Val))
       else sfail (InvalidNbytes nbytes)))"

text \<open>Allocating room for bytes and copying them there: \<open>allocStoreString\<close> and \<open>allocStoreBytes\<close>.
  The length is cut to 32 bits before it is used.\<close>

definition alloc_copy :: "byte list \<Rightarrow> 'g realloc \<Rightarrow> ('g, nat \<times> nat) mop" where
  "alloc_copy bs realloc =
     (let byteLen = length bs mod 2 ^ 32
      in sbind (Grow realloc 0 0 1 byteLen) (\<lambda>newPtr. \<lambda>s.
           case checkedRange (length (lin_mem s)) newPtr byteLen of
             Inl _ \<Rightarrow> (Inl (AllocatedOutOfBounds newPtr byteLen), s)
           | Inr (start, end') \<Rightarrow>
               sbind (write_bytes start (take (end' - start) bs)) (\<lambda>_. sret (newPtr, byteLen)) s))"

definition allocStoreString :: "byte list \<Rightarrow> 'g realloc \<Rightarrow> ('g, nat \<times> nat) mop" where
  "allocStoreString str realloc = alloc_copy str realloc"

definition allocStoreBytes :: "byte list \<Rightarrow> 'g realloc \<Rightarrow> ('g, nat \<times> nat) mop" where
  "allocStoreBytes b realloc = alloc_copy b realloc"

definition store_u32 :: "nat \<Rightarrow> nat \<Rightarrow> ('g, unit) mop" where
  "store_u32 ptr x = storeInt ptr (VU32 (word_of_nat x)) 4"

text \<open>Storing the pair of a data pointer and a length at a string or list slot.\<close>

definition store_pair :: "nat \<Rightarrow> nat \<times> nat \<Rightarrow> ('g, unit) mop" where
  "store_pair ptr = (\<lambda>(newPtr, len).
     sbind (store_u32 ptr newPtr) (\<lambda>_.
     sbind (slift (checkedAdd ptr 4)) (\<lambda>lenPtr.
       store_u32 lenPtr len)))"

definition storeString :: "nat \<Rightarrow> byte list \<Rightarrow> 'g realloc \<Rightarrow> ('g, unit) mop" where
  "storeString ptr str realloc = sbind (allocStoreString str realloc) (store_pair ptr)"

definition intByteSize :: "string \<Rightarrow> nat" where
  "intByteSize p =
     (if p \<in> {''u8'', ''s8''} then 1 else if p \<in> {''u16'', ''s16''} then 2 else 4)"

text \<open>A rune is checked as a sgnd number; \<open>char_check\<close> then sees a value below \<open>2\<^sup>3\<^sup>1\<close>.\<close>

definition rune_check :: "u32 \<Rightarrow> abi_error + unit" where
  "rune_check r =
     (if sint r < 0 \<or> sint r \<ge> 0x110000 then Inl CharOutOfRange
      else if sint r \<ge> 0xD800 \<and> sint r \<le> 0xDFFF then Inl CharSurrogate else Inr ())"

definition storePrimitive :: "nat \<Rightarrow> string \<Rightarrow> val \<Rightarrow> 'g realloc \<Rightarrow> ('g, unit) mop" where
  "storePrimitive ptr p v realloc =
     (if p = ''bool'' then
        (case v of VBool b \<Rightarrow> storeInt ptr (VU32 (if b then 1 else 0)) 1 | _ \<Rightarrow> sfail (ExpectedType ''bool''))
      else if p \<in> {''u8'', ''u16'', ''u32''} then
        (case v of VU32 u \<Rightarrow> storeInt ptr (VU32 u) (intByteSize p) | _ \<Rightarrow> sfail (ExpectedType ''uint32''))
      else if p \<in> {''s8'', ''s16'', ''s32''} then
        (case v of VI32 i \<Rightarrow> storeInt ptr (VU32 i) (intByteSize p) | _ \<Rightarrow> sfail (ExpectedType ''int32''))
      else if p = ''u64'' then
        (case v of VU64 u \<Rightarrow> storeInt ptr (VU64 u) 8 | _ \<Rightarrow> sfail (ExpectedType ''uint64''))
      else if p = ''s64'' then
        (case v of VI64 i \<Rightarrow> storeInt ptr (VU64 i) 8 | _ \<Rightarrow> sfail (ExpectedType ''int64''))
      else if p = ''f32'' then
        (case v of VF32 bits \<Rightarrow> storeInt ptr (VU32 bits) 4 | _ \<Rightarrow> sfail (ExpectedType ''float32''))
      else if p = ''f64'' then
        (case v of VF64 bits \<Rightarrow> storeInt ptr (VU64 bits) 8 | _ \<Rightarrow> sfail (ExpectedType ''float64''))
      else if p = ''char'' then
        (case v of VI32 r \<Rightarrow> sbind (slift (rune_check r)) (\<lambda>_. storeInt ptr (VU32 r) 4)
         | _ \<Rightarrow> sfail (ExpectedType ''rune''))
      else if p = ''string'' then
        (case v of VString str \<Rightarrow> storeString ptr str realloc | _ \<Rightarrow> sfail (ExpectedType ''string''))
      else if p = ''error-context'' then
        (case v of VU32 h \<Rightarrow> storeInt ptr (VU32 h) 4 | _ \<Rightarrow> sfail (ExpectedType ''uint32''))
      else sfail (UnknownPrimitive p))"

type_synonym 'g store_fn = "nat \<Rightarrow> type_desc option \<Rightarrow> val \<Rightarrow> ('g, unit) mop"

definition byteListValue :: "val \<Rightarrow> type_desc option \<Rightarrow> byte list option" where
  "byteListValue v elemType =
     (case v of VBytes b \<Rightarrow> if elemType = Some (PrimitiveDesc ''u8'') then Some b else None | _ \<Rightarrow> None)"

primrec store_elems :: "(nat \<Rightarrow> val \<Rightarrow> ('g, unit) mop) \<Rightarrow> nat \<Rightarrow> val list \<Rightarrow> nat \<Rightarrow> ('g, unit) mop" where
  "store_elems st elemSize [] p = sret ()"
| "store_elems st elemSize (v # vs) p =
     sbind (st p v) (\<lambda>_.
       if vs \<noteq> [] then sbind (slift (checkedAdd p elemSize)) (\<lambda>p'. store_elems st elemSize vs p')
       else sret ())"

definition allocStoreList ::
    "'g store_fn \<Rightarrow> val list \<Rightarrow> type_desc option \<Rightarrow> resolver \<Rightarrow> 'g realloc \<Rightarrow> ('g, nat \<times> nat) mop" where
  "allocStoreList rec vs elemType resolve realloc =
     sbind (slift (Size elemType resolve)) (\<lambda>elemSize.
     sbind (slift (Alignment elemType resolve)) (\<lambda>elemAlign.
       if length vs > MaxUint32 then sfail (ListTooLong (length vs))
       else
         sbind (slift (checkedByteLength (length vs) elemSize)) (\<lambda>byteLen.
         sbind (Grow realloc 0 0 elemAlign byteLen) (\<lambda>newPtr. \<lambda>s.
           if newPtr mod elemAlign \<noteq> 0 then (Inl (NotAligned newPtr elemAlign), s)
           else (case checkedRange (length (lin_mem s)) newPtr byteLen of
               Inl _ \<Rightarrow> (Inl (AllocatedOutOfBounds newPtr byteLen), s)
             | Inr _ \<Rightarrow>
                 sbind (store_elems (\<lambda>p. rec p elemType) elemSize vs newPtr)
                   (\<lambda>_. sret (newPtr, length vs)) s)))))"

definition allocStoreAnyList ::
    "'g store_fn \<Rightarrow> val \<Rightarrow> type_desc option \<Rightarrow> resolver \<Rightarrow> 'g realloc \<Rightarrow> ('g, nat \<times> nat) mop" where
  "allocStoreAnyList rec v elemType resolve realloc =
     (case byteListValue v elemType of
        Some b \<Rightarrow> allocStoreBytes b realloc
      | None \<Rightarrow> sbind (slift (expect_list v)) (\<lambda>vs. allocStoreList rec vs elemType resolve realloc))"

definition storeList ::
    "'g store_fn \<Rightarrow> nat \<Rightarrow> val \<Rightarrow> type_desc option \<Rightarrow> resolver \<Rightarrow> 'g realloc \<Rightarrow> ('g, unit) mop" where
  "storeList rec ptr v elemType resolve realloc =
     sbind (allocStoreAnyList rec v elemType resolve realloc) (store_pair ptr)"

primrec store_members :: "'g store_fn \<Rightarrow> resolver \<Rightarrow> type_ref list \<Rightarrow> nat \<Rightarrow> val list \<Rightarrow> ('g, unit) mop" where
  "store_members rec resolve [] offset vs = sret ()"
| "store_members rec resolve (ref # refs) offset vs =
     sbind (slift (resolveType (Some ref) resolve)) (\<lambda>t.
     sbind (slift (Alignment t resolve)) (\<lambda>align.
     sbind (slift (checkedAlign offset align)) (\<lambda>offset.
     sbind (rec offset t (hd vs)) (\<lambda>_.
     sbind (slift (Size t resolve)) (\<lambda>size.
     sbind (slift (checkedAdd offset size)) (\<lambda>offset.
       store_members rec resolve refs offset (tl vs)))))))"

text \<open>\<open>storeRecord\<close> and \<open>storeTuple\<close> check the shape and the number of the members, then store each.\<close>

definition store_product :: "'g store_fn \<Rightarrow> nat \<Rightarrow> val \<Rightarrow> type_ref list \<Rightarrow> resolver \<Rightarrow> ('g, unit) mop" where
  "store_product rec ptr v refs resolve =
     sbind (slift (expect_list v)) (\<lambda>vs.
       if length vs \<noteq> length refs then sfail (WrongArity (length refs) (length vs))
       else store_members rec resolve refs ptr vs)"

definition storeRecord :: "'g store_fn \<Rightarrow> nat \<Rightarrow> val \<Rightarrow> record_field list \<Rightarrow> resolver \<Rightarrow> ('g, unit) mop" where
  "storeRecord rec ptr v fs resolve = store_product rec ptr v (map FieldType fs) resolve"

definition storeTuple :: "'g store_fn \<Rightarrow> nat \<Rightarrow> val \<Rightarrow> type_ref list \<Rightarrow> resolver \<Rightarrow> ('g, unit) mop" where
  "storeTuple rec ptr v elems resolve = store_product rec ptr v elems resolve"

definition store_arm :: "'g store_fn \<Rightarrow> nat \<Rightarrow> type_ref option \<Rightarrow> val \<Rightarrow> resolver \<Rightarrow> ('g, unit) mop" where
  "store_arm rec offset arm payload resolve =
     (case arm of None \<Rightarrow> sret ()
      | Some ref \<Rightarrow> sbind (slift (resolveType (Some ref) resolve)) (\<lambda>t. rec offset t payload))"

definition storeVariant ::
    "'g store_fn \<Rightarrow> rec_fn \<Rightarrow> nat \<Rightarrow> val \<Rightarrow> variant_case list \<Rightarrow> resolver \<Rightarrow> ('g, unit) mop" where
  "storeVariant rec al ptr v cs resolve =
     (case v of VVariant disc payload \<Rightarrow>
        if unat disc \<ge> length cs then sfail (CaseOutOfRange (unat disc) (length cs))
        else
          sbind (slift (sizePrimitive (DiscriminantType (length cs)))) (\<lambda>discSize.
          sbind (storeInt ptr (VU32 disc) discSize) (\<lambda>_.
          sbind (slift (checkedAdd ptr discSize)) (\<lambda>offset.
          sbind (slift (MaxCaseAlignment al resolve cs)) (\<lambda>maxCaseAlign.
          sbind (slift (checkedAlign offset maxCaseAlign)) (\<lambda>offset.
          sbind (slift (index_at cs (unat disc))) (\<lambda>c.
            case CaseType c of None \<Rightarrow> sret ()
            | Some ref \<Rightarrow>
                sbind (slift (resolveType (Some ref) resolve)) (\<lambda>t.
                  if payload = VNil then sfail (PayloadRequired (unat disc))
                  else rec offset t payload)))))))
      | _ \<Rightarrow> sfail (ExpectedType ''VariantValue''))"

definition storeFlags :: "nat \<Rightarrow> val \<Rightarrow> string list \<Rightarrow> ('g, unit) mop" where
  "storeFlags ptr v names =
     sbind (slift (expect_u32 v)) (\<lambda>bits.
     sbind (slift (sizeFlagsNumLabels (length names))) (\<lambda>flagsSize.
       storeInt ptr (VU32 bits) flagsSize))"

definition storeEnum :: "nat \<Rightarrow> val \<Rightarrow> string list \<Rightarrow> ('g, unit) mop" where
  "storeEnum ptr v cs =
     sbind (slift (expect_u32 v)) (\<lambda>caseIdx.
       if unat caseIdx \<ge> length cs then sfail (CaseOutOfRange (unat caseIdx) (length cs))
       else sbind (slift (sizeEnumNumCases (length cs))) (\<lambda>enumSize. storeInt ptr (VU32 caseIdx) enumSize))"

definition storeOption :: "'g store_fn \<Rightarrow> nat \<Rightarrow> val \<Rightarrow> type_desc option \<Rightarrow> resolver \<Rightarrow> ('g, unit) mop" where
  "storeOption rec ptr v elemType resolve =
     (let discIdx = (if v = VNil then 0 else 1)
      in sbind (storeInt ptr (VU32 discIdx) 1) (\<lambda>_.
         sbind (slift (checkedAdd ptr 1)) (\<lambda>offset.
         sbind (slift (Alignment elemType resolve)) (\<lambda>elemAlign.
         sbind (slift (checkedAlign offset elemAlign)) (\<lambda>offset.
           if discIdx = 1 then rec offset elemType v else sret ())))))"

definition storeResult ::
    "'g store_fn \<Rightarrow> nat \<Rightarrow> val \<Rightarrow> type_ref option \<Rightarrow> type_ref option \<Rightarrow> resolver \<Rightarrow> ('g, unit) mop" where
  "storeResult rec ptr v okr errr resolve =
     (case v of VResult isErr payload \<Rightarrow>
        sbind (storeInt ptr (VU32 (if isErr then 1 else 0)) 1) (\<lambda>_.
        sbind (slift (checkedAdd ptr 1)) (\<lambda>offset.
        sbind (slift (arms_alignment okr errr resolve)) (\<lambda>maxAlign.
        sbind (slift (checkedAlign offset maxAlign)) (\<lambda>offset.
          store_arm rec offset (if isErr then errr else okr) payload resolve))))
      | _ \<Rightarrow> sfail (ExpectedType ''ResultValue''))"

primrec storeValue ::
    "nat \<Rightarrow> resolver \<Rightarrow> 'g realloc \<Rightarrow> nat \<Rightarrow> type_desc option \<Rightarrow> val \<Rightarrow> ('g, unit) mop" where
  "storeValue 0 resolve realloc ptr t v = sfail OutOfFuel"
| "storeValue (Suc fuel) resolve realloc ptr t v =
     (let rec = storeValue fuel resolve realloc
      in case t of
        None \<Rightarrow> sfail UnknownDescriptor
      | Some desc \<Rightarrow>
          (case desc of
             PrimitiveDesc p \<Rightarrow> storePrimitive ptr p v realloc
           | ListDesc elem \<Rightarrow>
               sbind (slift (resolveType (Some elem) resolve)) (\<lambda>elemType. storeList rec ptr v elemType resolve realloc)
           | RecordDesc fs \<Rightarrow> storeRecord rec ptr v fs resolve
           | VariantDesc cs \<Rightarrow> storeVariant rec (alignmentUnchecked fuel resolve) ptr v cs resolve
           | TupleDesc elems \<Rightarrow> storeTuple rec ptr v elems resolve
           | FlagsDesc names \<Rightarrow> storeFlags ptr v names
           | EnumDesc cs \<Rightarrow> storeEnum ptr v cs
           | OptionDesc elem \<Rightarrow>
               sbind (slift (resolveType (Some elem) resolve)) (\<lambda>elemType. storeOption rec ptr v elemType resolve)
           | ResultDesc okr errr \<Rightarrow> storeResult rec ptr v okr errr resolve
           | OwnDesc _ \<Rightarrow> sbind (slift (expect_u32 v)) (\<lambda>h. storeInt ptr (VU32 h) 4)
           | BorrowDesc _ \<Rightarrow> sbind (slift (expect_u32 v)) (\<lambda>h. storeInt ptr (VU32 h) 4)
           | StreamDesc _ \<Rightarrow> sbind (slift (expect_u32 v)) (\<lambda>h. storeInt ptr (VU32 h) 4)
           | FutureDesc _ \<Rightarrow> sbind (slift (expect_u32 v)) (\<lambda>h. storeInt ptr (VU32 h) 4)
           | FuncDesc _ \<Rightarrow> sfail (UnsupportedType desc) | InstanceDesc _ \<Rightarrow> sfail (UnsupportedType desc)
           | ComponentDesc \<Rightarrow> sfail (UnsupportedType desc) | ResourceDesc _ _ \<Rightarrow> sfail (UnsupportedType desc)))"

definition Store ::
    "nat \<Rightarrow> nat \<Rightarrow> type_desc option \<Rightarrow> val \<Rightarrow> resolver \<Rightarrow> 'g realloc \<Rightarrow> ('g, unit) mop" where
  "Store fuel ptr t v resolve realloc =
     sbind (slift (Alignment t resolve)) (\<lambda>align.
       if align \<noteq> 0 \<and> ptr mod align \<noteq> 0 then sfail (NotAligned ptr align)
       else
         sbind (slift (Size t resolve)) (\<lambda>size.
         sbind (checked_range_of ptr size) (\<lambda>_.
           storeValue fuel resolve realloc ptr t v)))"

subsection \<open>Reads in range\<close>

text \<open>Behind the check of their range, the slices and indices are total. The proofs use the routines in this form.\<close>

lemma checked_slice [simp]:
  "rbind (checkedRange (length m) p n) (\<lambda>(start, end'). rbind (slice_at m start end') f) =
   rbind (checkedRange (length m) p n) (\<lambda>(start, end'). f (slice_of m start (end' - start)))"
  by (simp add: checkedRange_def Let_def slice_of_def)

lemma get_le_exact: "length bytes = n \<Longrightarrow> 0 < n \<Longrightarrow> get_le n bytes = Inr (le_nat bytes)"
  by (simp add: get_le_def)

lemma loadInt_eq:
  "loadInt m ptr nbytes sgnd =
     rbind (checkedRange (length m) ptr nbytes) (\<lambda>(start, end').
       let bytes = slice_of m start (end' - start)
       in if nbytes = 1 then
            (let b = bytes ! 0
             in if sgnd \<and> b AND 0x80 \<noteq> 0 then Inr (VI32 (scast b)) else Inr (VU32 (ucast b)))
          else if nbytes = 2 then
            (let v = word_of_nat (le_nat bytes) :: 16 word
             in if sgnd then Inr (VI32 (scast v)) else Inr (VU32 (ucast v)))
          else if nbytes = 4 then
            (let v = word_of_nat (le_nat bytes)
             in if sgnd then Inr (VI32 v) else Inr (VU32 v))
          else if nbytes = 8 then
            (let v = word_of_nat (le_nat bytes)
             in if sgnd then Inr (VI64 v) else Inr (VU64 v))
          else Inl (InvalidNbytes nbytes))"
proof (cases "ptr + nbytes \<le> length m")
  case True
  then have len: "length (slice_of m ptr nbytes) = nbytes" by (simp add: slice_of_def)
  consider "nbytes = 1" | "nbytes \<in> {2, 4, 8}" | "nbytes \<notin> {1, 2, 4, 8}" by blast
  then show ?thesis
    using True len by cases (auto simp: loadInt_def checkedRange_def Let_def get_le_exact slice_of_def [symmetric])
qed (simp add: loadInt_def checkedRange_def)

lemma readU32LE_eq:
  "readU32LE m ptr = rbind (checkedRange (length m) ptr 4) (\<lambda>(start, end'). Inr (le_nat (slice_of m start (end' - start))))"
  by (cases "ptr + 4 \<le> length m") (simp_all add: readU32LE_def checkedRange_def Let_def get_le_exact slice_of_def)

lemma loadStringFromRange_eq:
  "loadStringFromRange m ptr byteLen =
     rbind (checkedRange (length m) ptr byteLen) (\<lambda>(start, end').
       let b = slice_of m start (end' - start)
       in if \<not> utf8_valid b then Inl (InvalidUtf8 ptr byteLen) else Inr b)"
  by (simp add: loadStringFromRange_def Let_def)

lemma loadVariant_eq:
  "loadVariant rec al m ptr cs resolve =
     rbind (sizePrimitive (DiscriminantType (length cs))) (\<lambda>discSize.
     rbind (loadInt m ptr discSize False) (\<lambda>discVal.
     rbind (assert_u32 discVal) (\<lambda>caseIdx.
       if unat caseIdx \<ge> length cs then Inl (CaseOutOfRange (unat caseIdx) (length cs))
       else
         rbind (checkedAdd ptr discSize) (\<lambda>offset.
         rbind (MaxCaseAlignment al resolve cs) (\<lambda>maxCaseAlign.
         rbind (checkedAlign offset maxCaseAlign) (\<lambda>offset.
         rbind (load_arm rec offset (CaseType (cs ! unat caseIdx)) resolve) (\<lambda>payload.
           Inr (VVariant caseIdx payload))))))))"
  by (auto simp: loadVariant_def intro!: rbind_cong)

lemma storeVariant_eq:
  "storeVariant rec al ptr v cs resolve =
     (case v of VVariant disc payload \<Rightarrow>
        if unat disc \<ge> length cs then sfail (CaseOutOfRange (unat disc) (length cs))
        else
          sbind (slift (sizePrimitive (DiscriminantType (length cs)))) (\<lambda>discSize.
          sbind (storeInt ptr (VU32 disc) discSize) (\<lambda>_.
          sbind (slift (checkedAdd ptr discSize)) (\<lambda>offset.
          sbind (slift (MaxCaseAlignment al resolve cs)) (\<lambda>maxCaseAlign.
          sbind (slift (checkedAlign offset maxCaseAlign)) (\<lambda>offset.
            case CaseType (cs ! unat disc) of None \<Rightarrow> sret ()
            | Some ref \<Rightarrow>
                sbind (slift (resolveType (Some ref) resolve)) (\<lambda>t.
                  if payload = VNil then sfail (PayloadRequired (unat disc))
                  else rec offset t payload))))))
      | _ \<Rightarrow> sfail (ExpectedType ''VariantValue''))"
  by (simp add: storeVariant_def split: val.split)

lemma write_bytes_eq:
  "start + length bs \<le> length (lin_mem s) \<Longrightarrow> write_bytes start bs s = (Inr (), s\<lparr>lin_mem := write_at start bs (lin_mem s)\<rparr>)"
  by (simp add: write_bytes_def)

end
