(* ===== verification/Store_Load.thy ===== *)
theory Store_Load
  imports Memory "HOL-Library.Code_Target_Nat"
begin

text \<open>
  The correctness of \<open>internal/abi/memory.go\<close>: what a store writes and leaves alone, and that a load
  reads back what was stored, for every type, given an allocator that hands out memory not in
  use. Values are compared through \<open>reload\<close>, the specification of the round trip.
\<close>

subsection \<open>Bytes and regions\<close>

lemma length_le_bytes [simp]: "length (le_bytes n x) = n"
  by (induction n arbitrary: x) simp_all

lemma le_nat_le_bytes: "le_nat (le_bytes n x) = x mod 256 ^ n"
proof (induction n arbitrary: x)
  case (Suc n)
  have "unat (word_of_nat x :: byte) = x mod 256" by (simp add: unat_of_nat)
  with Suc show ?case by (simp add: mod_mult2_eq)
qed simp

lemma length_write_at [simp]: "start + length bs \<le> length m \<Longrightarrow> length (write_at start bs m) = length m"
  by (simp add: write_at_def)

lemma nth_write_at:
  assumes "start + length bs \<le> length m" "a < length m"
  shows "write_at start bs m ! a = (if start \<le> a \<and> a < start + length bs then bs ! (a - start) else m ! a)"
  using assms by (auto simp: write_at_def nth_append min_def)

text \<open>Two memories of the same length that agree on a set of addresses.\<close>

definition same_on :: "nat set \<Rightarrow> byte list \<Rightarrow> byte list \<Rightarrow> bool" where
  "same_on A m m' \<longleftrightarrow> length m = length m' \<and> (\<forall>a \<in> A. a < length m \<longrightarrow> m ! a = m' ! a)"

lemma same_on_refl [simp]: "same_on A m m"
  by (simp add: same_on_def)

lemma same_on_trans: "same_on A m m' \<Longrightarrow> same_on A m' m'' \<Longrightarrow> same_on A m m''"
  by (auto simp: same_on_def)

lemma same_on_subset: "same_on A m m' \<Longrightarrow> B \<subseteq> A \<Longrightarrow> same_on B m m'"
  by (auto simp: same_on_def)

lemma same_on_length: "same_on A m m' \<Longrightarrow> length m = length m'"
  by (simp add: same_on_def)

lemma same_on_write_at:
  "start + length bs \<le> length m \<Longrightarrow> A \<inter> {start..<start + length bs} = {} \<Longrightarrow> same_on A m (write_at start bs m)"
  by (fastforce simp: same_on_def nth_write_at)

lemma length_slice_of: "p + n \<le> length m \<Longrightarrow> length (slice_of m p n) = n"
  by (simp add: slice_of_def)

lemma nth_slice_of: "p + n \<le> length m \<Longrightarrow> i < n \<Longrightarrow> slice_of m p n ! i = m ! (p + i)"
  by (simp add: slice_of_def)

lemma slice_of_cong:
  "same_on {p..<p + n} m m' \<Longrightarrow> p + n \<le> length m \<Longrightarrow> slice_of m p n = slice_of m' p n"
  by (auto simp: same_on_def length_slice_of nth_slice_of intro!: nth_equalityI)

lemma slice_of_write_at:
  "start + length bs \<le> length m \<Longrightarrow> slice_of (write_at start bs m) start (length bs) = bs"
  by (auto simp: length_slice_of nth_slice_of nth_write_at intro!: nth_equalityI)

subsection \<open>Integers in memory\<close>

lemma loadInt_bytes:
  assumes "ptr + n \<le> length m" "slice_of m ptr n = le_bytes n x"
  shows "n = 1 \<Longrightarrow> loadInt m ptr n False = Inr (VU32 (ucast (word_of_nat x :: byte)))"
    and "n = 1 \<Longrightarrow> loadInt m ptr n True = (let b = word_of_nat x :: byte
           in if bit b 7 then Inr (VI32 (scast b)) else Inr (VU32 (ucast b)))"
    and "n = 2 \<Longrightarrow> loadInt m ptr n False = Inr (VU32 (ucast (word_of_nat x :: 16 word)))"
    and "n = 2 \<Longrightarrow> loadInt m ptr n True = Inr (VI32 (scast (word_of_nat x :: 16 word)))"
    and "n = 4 \<Longrightarrow> loadInt m ptr n False = Inr (VU32 (word_of_nat x))"
    and "n = 4 \<Longrightarrow> loadInt m ptr n True = Inr (VI32 (word_of_nat x))"
    and "n = 8 \<Longrightarrow> loadInt m ptr n False = Inr (VU64 (word_of_nat x))"
    and "n = 8 \<Longrightarrow> loadInt m ptr n True = Inr (VI64 (word_of_nat x))"
proof -
  have m16: "word_of_nat (x mod 65536) = (word_of_nat x :: 16 word)"
    by (rule word_unat_eq_iff [THEN iffD2]) (simp add: unat_of_nat)
  have m32: "word_of_nat (x mod 4294967296) = (word_of_nat x :: 32 word)"
    by (rule word_unat_eq_iff [THEN iffD2]) (simp add: unat_of_nat)
  have m64: "word_of_nat (x mod 18446744073709551616) = (word_of_nat x :: 64 word)"
    by (rule word_unat_eq_iff [THEN iffD2]) (simp add: unat_of_nat)
  note defs = loadInt_eq checkedRange_def le_nat_le_bytes Let_def
  show "n = 1 \<Longrightarrow> loadInt m ptr n False = Inr (VU32 (ucast (word_of_nat x :: byte)))"
    "n = 1 \<Longrightarrow> loadInt m ptr n True = (let b = word_of_nat x :: byte
           in if bit b 7 then Inr (VI32 (scast b)) else Inr (VU32 (ucast b)))"
    using assms by (simp_all add: defs and_128_eq_0)
  show "n = 2 \<Longrightarrow> loadInt m ptr n False = Inr (VU32 (ucast (word_of_nat x :: 16 word)))"
    "n = 2 \<Longrightarrow> loadInt m ptr n True = Inr (VI32 (scast (word_of_nat x :: 16 word)))"
    "n = 4 \<Longrightarrow> loadInt m ptr n False = Inr (VU32 (word_of_nat x))"
    "n = 4 \<Longrightarrow> loadInt m ptr n True = Inr (VI32 (word_of_nat x))"
    "n = 8 \<Longrightarrow> loadInt m ptr n False = Inr (VU64 (word_of_nat x))"
    "n = 8 \<Longrightarrow> loadInt m ptr n True = Inr (VI64 (word_of_nat x))"
    using assms by (simp_all add: defs m16 m32 m64)
qed

text \<open>\<open>storeInt\<close> writes the low bytes of the number, and nothing else.\<close>

definition integer_nat :: "val \<Rightarrow> nat" where
  "integer_nat v = (case integer_bits v of Inr w \<Rightarrow> unat w | Inl _ \<Rightarrow> 0)"

lemma storeInt_ok:
  assumes "storeInt ptr v n s = (Inr u, s')"
  shows "s' = s\<lparr>lin_mem := write_at ptr (le_bytes n (integer_nat v)) (lin_mem s)\<rparr>"
    and "ptr + n \<le> length (lin_mem s)" "n \<in> {1, 2, 4, 8}"
proof -
  have and_le: "le_bytes k (unat (w AND mask (8 * k))) = le_bytes k (unat w)" for k and w :: u64
  proof -
    have "le_bytes k (x mod 256 ^ k) = le_bytes k x" for x
    proof (induction k arbitrary: x)
      case (Suc k)
      have "word_of_nat (x mod 256 ^ Suc k) = (word_of_nat x :: byte)"
        by (rule word_unat_eq_iff [THEN iffD2]) (simp add: unat_of_nat mod_mod_cancel)
      moreover have "x mod 256 ^ Suc k div 256 = (x div 256) mod 256 ^ k"
        by (simp add: mod_mult2_eq)
      ultimately show ?case using Suc [of "x div 256"] by simp
    qed simp
    moreover have "unat (w AND mask (8 * k)) = unat w mod 256 ^ k"
    proof -
      have "unat (w AND mask (8 * k)) = take_bit (8 * k) (unat w)"
        by (simp only: take_bit_eq_mask [symmetric] unsigned_take_bit_eq)
      then show ?thesis by (simp add: take_bit_eq_mod power_mult)
    qed
    ultimately show ?thesis by simp
  qed
  note m = and_le [of 1] and_le [of 2] and_le [of 4]
  show "s' = s\<lparr>lin_mem := write_at ptr (le_bytes n (integer_nat v)) (lin_mem s)\<rparr>"
    "ptr + n \<le> length (lin_mem s)" "n \<in> {1, 2, 4, 8}"
    using assms m
    by (auto simp: storeInt_def sbind_eq_Inr checked_range_of_def checkedRange_def write_bytes_def integer_nat_def
        mask_eq_exp_minus_1 Let_def split: if_split_asm)
qed

subsection \<open>What a store may change\<close>

text \<open>
  \<open>owned s\<close> is the set of addresses the guest's allocator has handed out (or that are in use
  otherwise) in state \<open>s\<close>. An allocator is well behaved for \<open>owned\<close> when an allocation returns a
  block that was not owned, keeps what was owned, does not change the bytes of owned addresses nor
  the length of the memory, and what is owned does not depend on the contents of the memory.
\<close>

definition allocator_ok :: "('g mstate \<Rightarrow> nat set) \<Rightarrow> 'g realloc \<Rightarrow> bool" where
  "allocator_ok owned realloc \<longleftrightarrow>
     (\<forall>s m. owned (s\<lparr>lin_mem := m\<rparr>) = owned s) \<and>
     (\<forall>call al n s p s'. realloc = Some call \<longrightarrow> call 0 0 al n s = (Inr p, s') \<longrightarrow>
        same_on (owned s) (lin_mem s) (lin_mem s') \<and> owned s \<subseteq> owned s' \<and>
        {unat p..<unat p + unat n} \<subseteq> owned s' - owned s)"

definition frame :: "('g mstate \<Rightarrow> nat set) \<Rightarrow> nat set \<Rightarrow> 'g mstate \<Rightarrow> 'g mstate \<Rightarrow> bool" where
  "frame owned P s s' \<longleftrightarrow> owned s \<subseteq> owned s' \<and> same_on (owned s - P) (lin_mem s) (lin_mem s')"

text \<open>
  \<open>stored owned P s s' Q\<close>: going from \<open>s\<close> to \<open>s'\<close> changed only \<open>P\<close> and memory that was not owned, and
  \<open>Q\<close> holds of every memory that agrees with that of \<open>s'\<close> on \<open>P\<close> and the newly owned memory (a
  32-bit memory, of at most \<open>2\<^sup>3\<^sup>2\<close> bytes).
\<close>

definition stored ::
    "('g mstate \<Rightarrow> nat set) \<Rightarrow> nat set \<Rightarrow> 'g mstate \<Rightarrow> 'g mstate \<Rightarrow> (byte list \<Rightarrow> bool) \<Rightarrow> bool" where
  "stored owned P s s' Q \<longleftrightarrow> frame owned P s s' \<and>
     (\<forall>m. length m \<le> Suc MaxUint32 \<longrightarrow> same_on (P \<union> (owned s' - owned s)) (lin_mem s') m \<longrightarrow> Q m)"

lemma frame_refl [simp]: "frame owned P s s"
  by (simp add: frame_def)

lemma stored_refl: "(\<And>m. Q m) \<Longrightarrow> stored owned P s s Q"
  by (simp add: stored_def)

lemma stored_weaken:
  assumes "stored owned P s s' Q" "P \<subseteq> R" "\<And>m. Q m \<Longrightarrow> Q' m"
  shows "stored owned R s s' Q'"
  using assms unfolding stored_def frame_def by (meson Diff_mono Un_mono order_refl same_on_subset)

text \<open>Two stores into disjoint owned regions.\<close>

lemma stored_seq:
  assumes "stored owned P s s1 Q1" "stored owned P' s1 s2 Q2" "P \<inter> P' = {}" "P \<union> P' \<subseteq> owned s"
  shows "stored owned (P \<union> P') s s2 (\<lambda>m. Q1 m \<and> Q2 m)"
  unfolding stored_def
proof (intro conjI allI impI)
  have f1: "owned s \<subseteq> owned s1" "same_on (owned s - P) (lin_mem s) (lin_mem s1)"
    and f2: "owned s1 \<subseteq> owned s2" "same_on (owned s1 - P') (lin_mem s1) (lin_mem s2)"
    using assms(1,2) by (auto simp: stored_def frame_def)
  have "same_on (owned s - (P \<union> P')) (lin_mem s) (lin_mem s1)"
    using f1(2) by (rule same_on_subset) auto
  moreover have "same_on (owned s - (P \<union> P')) (lin_mem s1) (lin_mem s2)"
    using f2(2) by (rule same_on_subset) (use f1(1) in auto)
  ultimately show "frame owned (P \<union> P') s s2"
    unfolding frame_def using f1(1) f2(1) same_on_trans by blast
  fix m :: "byte list" assume len: "length m \<le> Suc MaxUint32" and m: "same_on (P \<union> P' \<union> (owned s2 - owned s)) (lin_mem s2) m"
  have "same_on (P \<union> (owned s1 - owned s)) (lin_mem s1) (lin_mem s2)"
    using f2(2) by (rule same_on_subset) (use f1(1) assms(3,4) in auto)
  moreover have "same_on (P \<union> (owned s1 - owned s)) (lin_mem s2) m"
    using m by (rule same_on_subset) (use f2(1) in auto)
  ultimately show "Q1 m" using assms(1) len unfolding stored_def by (meson same_on_trans)
  have "same_on (P' \<union> (owned s2 - owned s1)) (lin_mem s2) m"
    using m by (rule same_on_subset) (use f1(1) in auto)
  then show "Q2 m" using assms(2) len unfolding stored_def by blast
qed

text \<open>An allocation followed by a store into the fresh block.\<close>

lemma stored_alloc:
  assumes "frame owned {} s s1" "B \<subseteq> owned s1 - owned s" "stored owned B s1 s2 Q"
  shows "stored owned {} s s2 Q"
  unfolding stored_def
proof (intro conjI allI impI)
  have f: "owned s1 \<subseteq> owned s2" "same_on (owned s1 - B) (lin_mem s1) (lin_mem s2)"
    using assms(3) by (auto simp: stored_def frame_def)
  have "same_on (owned s) (lin_mem s1) (lin_mem s2)"
    using f(2) by (rule same_on_subset) (use assms(1,2) in \<open>auto simp: frame_def\<close>)
  then show "frame owned {} s s2"
    using assms(1) f(1) same_on_trans unfolding frame_def by fastforce
  fix m :: "byte list" assume len: "length m \<le> Suc MaxUint32" and "same_on ({} \<union> (owned s2 - owned s)) (lin_mem s2) m"
  then have "same_on (B \<union> (owned s2 - owned s1)) (lin_mem s2) m"
    by (elim same_on_subset) (use assms(1,2) f(1) in \<open>auto simp: frame_def\<close>)
  then show "Q m" using assms(3) len unfolding stored_def by blast
qed

lemma stored_owned: "stored owned P s s' Q \<Longrightarrow> owned s \<subseteq> owned s'"
  by (simp add: stored_def frame_def)

lemma Grow_frame:
  assumes "allocator_ok owned realloc" "Grow realloc 0 0 al n s = (Inr p, s')" "n \<le> MaxUint32"
  shows "frame owned {} s s'" "{p..<p + n} \<subseteq> owned s' - owned s"
proof -
  obtain call w where c: "realloc = Some call" "call 0 0 (word_of_nat al) (word_of_nat n) s = (Inr w, s')" "p = unat w"
    using assms(2) by (auto simp: Grow_def sbind_eq_Inr split: option.splits)
  have n: "unat (word_of_nat n :: u32) = n"
    using assms(3) by (simp add: unat_of_nat MaxUint32_def)
  show "frame owned {} s s'" "{p..<p + n} \<subseteq> owned s' - owned s"
    using assms(1) c unfolding allocator_ok_def frame_def by (simp_all add: n) (metis n)+
qed

lemma write_bytes_stored:
  assumes "allocator_ok owned realloc" "write_bytes p bs s = (Inr u, s')" "p + length bs \<le> length (lin_mem s)"
  shows "stored owned {p..<p + length bs} s s' (\<lambda>m. p + length bs \<le> length m \<and> slice_of m p (length bs) = bs)"
proof -
  have s': "s' = s\<lparr>lin_mem := write_at p bs (lin_mem s)\<rparr>"
    using assms(2) by (simp add: write_bytes_eq [OF assms(3)])
  have own: "owned s' = owned s" using assms(1) s' by (simp add: allocator_ok_def)
  have "frame owned {p..<p + length bs} s s'"
    unfolding frame_def own using assms(3) s' by (auto intro!: same_on_write_at)
  moreover have "slice_of m p (length bs) = bs" if "same_on {p..<p + length bs} (lin_mem s') m" for m
    using slice_of_cong [OF that] slice_of_write_at [OF assms(3)] assms(3) s' by simp
  moreover have "p + length bs \<le> length m" if "same_on {p..<p + length bs} (lin_mem s') m" for m
    using same_on_length [OF that] assms(3) s' by simp
  ultimately show ?thesis unfolding stored_def own by simp
qed

lemma storeInt_stored:
  assumes "allocator_ok owned realloc" "storeInt p v n s = (Inr u, s')"
  shows "stored owned {p..<p + n} s s' (\<lambda>m. p + n \<le> length m \<and> slice_of m p n = le_bytes n (integer_nat v))"
  using write_bytes_stored [OF assms(1), of p "le_bytes n (integer_nat v)" s "()" s'] storeInt_ok [OF assms(2)]
  by (simp add: write_bytes_eq)

lemma stored_pair:
  assumes ok: "allocator_ok owned realloc" and own: "{p..<p + 8} \<subseteq> owned s"
    and st: "store_pair p (x, n) s = (Inr u, s')" and small: "x \<le> MaxUint32" "n \<le> MaxUint32"
  shows "stored owned {p..<p + 8} s s' (\<lambda>m. p + 8 \<le> length m \<and> p + 4 \<le> MaxUint32 \<and>
     slice_of m p 4 = le_bytes 4 x \<and> slice_of m (p + 4) 4 = le_bytes 4 n)"
proof -
  obtain s1 where s1: "storeInt p (VU32 (word_of_nat x)) 4 s = (Inr (), s1)" "p + 4 \<le> MaxUint32"
    "storeInt (p + 4) (VU32 (word_of_nat n)) 4 s1 = (Inr (), s')"
    using st by (auto simp: store_pair_def store_u32_def sbind_eq_Inr checkedAdd_props)
  have nat: "integer_nat (VU32 (word_of_nat y)) = y" if "y \<le> MaxUint32" for y
  proof -
    have "unat (ucast (word_of_nat y :: u32) :: u64) = y"
      using that by (simp add: unsigned_ucast_eq unat_of_nat take_bit_nat_eq_self MaxUint32_def)
    then show ?thesis by (simp add: integer_nat_def integer_bits_def)
  qed
  have P: "{p..<p + 4} \<union> {p + 4..<p + 4 + 4} = {p..<p + 8}" by auto
  have "stored owned ({p..<p + 4} \<union> {p + 4..<p + 4 + 4}) s s'
      (\<lambda>m. (p + 4 \<le> length m \<and> slice_of m p 4 = le_bytes 4 x) \<and>
           (p + 4 + 4 \<le> length m \<and> slice_of m (p + 4) 4 = le_bytes 4 n))"
    using storeInt_stored [OF ok s1(1)] storeInt_stored [OF ok s1(3)] own
    by (intro stored_seq) (auto simp: nat small)
  then show ?thesis unfolding P by (rule stored_weaken) (use s1(2) in auto)
qed

subsection \<open>What a stored value is read back as\<close>

text \<open>
  \<open>reload n r t v\<close> is the value that loading yields after \<open>v\<close> was stored as a \<open>t\<close>, and \<open>None\<close> where
  loading is stricter than storing: a string that is not UTF-8 or not shorter than \<open>2\<^sup>3\<^sup>2\<close> bytes, a
  list of more than \<open>maxListElements\<close> elements. It is the specification the store and load code are
  proved against. Narrow integers are cut to their width; an \<open>s8\<close> that is not negative comes back
  as a \<open>uint32\<close>; the payload of an arm without a type is dropped.
\<close>

definition reload_prim :: "string \<Rightarrow> val \<Rightarrow> val option" where
  "reload_prim p v = (case v of
      VU32 w \<Rightarrow> Some (VU32 (if p = ''u8'' then ucast (ucast w :: byte) else if p = ''u16'' then ucast (ucast w :: 16 word) else w))
    | VI32 w \<Rightarrow>
        if p = ''s8'' then Some (if bit (ucast w :: byte) 7 then VI32 (scast (ucast w :: byte)) else VU32 (ucast (ucast w :: byte)))
        else if p = ''s16'' then Some (VI32 (scast (ucast w :: 16 word)))
        else Some (VI32 w)
    | VString b \<Rightarrow> if utf8_valid b \<and> length b \<le> MaxUint32 then Some v else None
    | VBool b \<Rightarrow> Some v | VU64 w \<Rightarrow> Some v | VI64 w \<Rightarrow> Some v | VF32 w \<Rightarrow> Some v | VF64 w \<Rightarrow> Some v
    | _ \<Rightarrow> None)"

definition flags_value :: "nat \<Rightarrow> u32 \<Rightarrow> u32" where
  "flags_value n w = (if n \<le> 8 then ucast (ucast w :: byte) else if n \<le> 16 then ucast (ucast w :: 16 word) else w)"

type_synonym reload_fn = "type_desc option \<Rightarrow> val \<Rightarrow> val option"

definition reload_ref :: "reload_fn \<Rightarrow> resolver \<Rightarrow> type_ref \<Rightarrow> val \<Rightarrow> val option" where
  "reload_ref rec resolve ref v =
     (case resolveType (Some ref) resolve of Inl _ \<Rightarrow> None | Inr t \<Rightarrow> rec t v)"

primrec reload_members :: "reload_fn \<Rightarrow> resolver \<Rightarrow> type_ref list \<Rightarrow> val list \<Rightarrow> val list option" where
  "reload_members rec resolve [] vs = Some []"
| "reload_members rec resolve (ref # refs) vs =
     (case reload_ref rec resolve ref (hd vs) of None \<Rightarrow> None
      | Some w \<Rightarrow> (case reload_members rec resolve refs (tl vs) of None \<Rightarrow> None | Some ws \<Rightarrow> Some (w # ws)))"

definition reload_arm :: "reload_fn \<Rightarrow> resolver \<Rightarrow> type_ref option \<Rightarrow> val \<Rightarrow> val option" where
  "reload_arm rec resolve arm v = (case arm of None \<Rightarrow> Some VNil | Some ref \<Rightarrow> reload_ref rec resolve ref v)"

definition reload_list :: "reload_fn \<Rightarrow> type_desc option \<Rightarrow> val \<Rightarrow> val option" where
  "reload_list rec t v =
     (case (case v of VBytes b \<Rightarrow> Some (map (\<lambda>x. VU32 (ucast x)) b) | VList vs \<Rightarrow> Some vs | _ \<Rightarrow> None) of
        None \<Rightarrow> None
      | Some vs \<Rightarrow>
          if length vs > maxListElements then None
          else map_option VList (those (map (rec t) vs)))"

definition map_VList :: "val list option \<Rightarrow> val option" where
  "map_VList = map_option VList"

primrec reload :: "nat \<Rightarrow> resolver \<Rightarrow> reload_fn" where
  "reload 0 resolve t v = None"
| "reload (Suc fuel) resolve t v =
     (let rec = reload fuel resolve
      in case t of None \<Rightarrow> None
      | Some desc \<Rightarrow>
          (case desc of
             PrimitiveDesc p \<Rightarrow> reload_prim p v
           | ListDesc elem \<Rightarrow>
               (case resolveType (Some elem) resolve of Inl _ \<Rightarrow> None | Inr t \<Rightarrow> reload_list rec t v)
           | RecordDesc fs \<Rightarrow>
               (case v of VList vs \<Rightarrow> map_VList (reload_members rec resolve (map FieldType fs) vs) | _ \<Rightarrow> None)
           | TupleDesc elems \<Rightarrow>
               (case v of VList vs \<Rightarrow> map_VList (reload_members rec resolve elems vs) | _ \<Rightarrow> None)
           | VariantDesc cs \<Rightarrow>
               (case v of VVariant disc payload \<Rightarrow>
                  map_option (VVariant disc) (reload_arm rec resolve (CaseType (cs ! unat disc)) payload) | _ \<Rightarrow> None)
           | FlagsDesc names \<Rightarrow>
               (case v of VU32 w \<Rightarrow> Some (VU32 (flags_value (length names) w)) | _ \<Rightarrow> None)
           | EnumDesc cs \<Rightarrow> (case v of VU32 w \<Rightarrow> Some (VU32 w) | _ \<Rightarrow> None)
           | OptionDesc elem \<Rightarrow> if v = VNil then Some VNil else reload_ref rec resolve elem v
           | ResultDesc okr errr \<Rightarrow>
               (case v of VResult isErr payload \<Rightarrow>
                  map_option (VResult isErr) (reload_arm rec resolve (if isErr then errr else okr) payload) | _ \<Rightarrow> None)
           | _ \<Rightarrow> (case v of VU32 w \<Rightarrow> Some (VU32 w) | _ \<Rightarrow> None)))"

subsection \<open>Primitives\<close>

lemma u32_le_Max: "unat (w :: u32) \<le> MaxUint32"
proof -
  have "unat w < 2 ^ 32" using unsigned_less [of w] by simp
  then show ?thesis by (simp add: MaxUint32_def)
qed

lemma integer_nat_simps [simp]:
  "integer_nat (VU32 w) = unat w" "integer_nat (VU64 x) = unat x"
proof -
  have "unat w < 2 ^ 32" using unsigned_less [of w] by simp
  then have "unat (ucast w :: u64) = unat w"
    by (simp add: unsigned_ucast_eq take_bit_nat_eq_self)
  then show "integer_nat (VU32 w) = unat w" by (simp add: integer_nat_def integer_bits_def)
  show "integer_nat (VU64 x) = unat x" by (simp add: integer_nat_def integer_bits_def)
qed

lemma word_of_unat: "(word_of_nat (unat (w :: 'a::len word)) :: 'b::len word) = ucast w"
  by simp

lemma rune_check_char:
  assumes "rune_check r = Inr u"
  shows "char_check r = Inr ()"
proof -
  have r: "0 \<le> sint r" "sint r < 0x110000" "\<not> (0xD800 \<le> sint r \<and> sint r \<le> 0xDFFF)"
    using assms by (auto simp: rune_check_def split: if_split_asm)
  have "uint r = sint r"
    using r(1) uint_sint [of r] sint_lt [of r] by (simp add: take_bit_int_eq_self_iff)
  then show ?thesis
    using r by (auto simp: char_check_def word_le_def)
qed

definition prim_size :: "string \<Rightarrow> nat" where
  "prim_size p = (case sizePrimitive p of Inr s \<Rightarrow> s | Inl _ \<Rightarrow> 0)"

lemma loadPrimitive_simps [simp]:
  "loadPrimitive m ptr ''bool'' = rbind (loadInt m ptr 1 False) (\<lambda>v. rbind (assert_u32 v) (\<lambda>w. Inr (VBool (w \<noteq> 0))))"
  "loadPrimitive m ptr ''u8'' = loadInt m ptr 1 False"
  "loadPrimitive m ptr ''u16'' = loadInt m ptr 2 False"
  "loadPrimitive m ptr ''u32'' = loadInt m ptr 4 False"
  "loadPrimitive m ptr ''s8'' = loadInt m ptr 1 True"
  "loadPrimitive m ptr ''s16'' = loadInt m ptr 2 True"
  "loadPrimitive m ptr ''s32'' = loadInt m ptr 4 True"
  "loadPrimitive m ptr ''u64'' = loadInt m ptr 8 False"
  "loadPrimitive m ptr ''s64'' = loadInt m ptr 8 True"
  "loadPrimitive m ptr ''f32'' = rbind (loadInt m ptr 4 False) (\<lambda>bits. rbind (assert_u32 bits) (\<lambda>w. Inr (VF32 w)))"
  "loadPrimitive m ptr ''f64'' = rbind (loadInt m ptr 8 False) (\<lambda>bits. rbind (assert_u64 bits) (\<lambda>w. Inr (VF64 w)))"
  "loadPrimitive m ptr ''char'' = rbind (loadInt m ptr 4 False) (\<lambda>v. rbind (assert_u32 v) (\<lambda>i.
          rbind (char_check i) (\<lambda>_. Inr (VI32 i))))"
  "loadPrimitive m ptr ''string'' = loadString m ptr"
  "loadPrimitive m ptr ''error-context'' = loadInt m ptr 4 False"
  by (simp_all add: loadPrimitive_def)

lemma storePrimitive_simps [simp]:
  "storePrimitive ptr ''bool'' v realloc = (case v of VBool b \<Rightarrow> storeInt ptr (VU32 (if b then 1 else 0)) 1 | _ \<Rightarrow> sfail (ExpectedType ''bool''))"
  "storePrimitive ptr ''u8'' v realloc = (case v of VU32 u \<Rightarrow> storeInt ptr (VU32 u) 1 | _ \<Rightarrow> sfail (ExpectedType ''uint32''))"
  "storePrimitive ptr ''u16'' v realloc = (case v of VU32 u \<Rightarrow> storeInt ptr (VU32 u) 2 | _ \<Rightarrow> sfail (ExpectedType ''uint32''))"
  "storePrimitive ptr ''u32'' v realloc = (case v of VU32 u \<Rightarrow> storeInt ptr (VU32 u) 4 | _ \<Rightarrow> sfail (ExpectedType ''uint32''))"
  "storePrimitive ptr ''s8'' v realloc = (case v of VI32 u \<Rightarrow> storeInt ptr (VU32 u) 1 | _ \<Rightarrow> sfail (ExpectedType ''int32''))"
  "storePrimitive ptr ''s16'' v realloc = (case v of VI32 u \<Rightarrow> storeInt ptr (VU32 u) 2 | _ \<Rightarrow> sfail (ExpectedType ''int32''))"
  "storePrimitive ptr ''s32'' v realloc = (case v of VI32 u \<Rightarrow> storeInt ptr (VU32 u) 4 | _ \<Rightarrow> sfail (ExpectedType ''int32''))"
  "storePrimitive ptr ''u64'' v realloc = (case v of VU64 u \<Rightarrow> storeInt ptr (VU64 u) 8 | _ \<Rightarrow> sfail (ExpectedType ''uint64''))"
  "storePrimitive ptr ''s64'' v realloc = (case v of VI64 u \<Rightarrow> storeInt ptr (VU64 u) 8 | _ \<Rightarrow> sfail (ExpectedType ''int64''))"
  "storePrimitive ptr ''f32'' v realloc = (case v of VF32 u \<Rightarrow> storeInt ptr (VU32 u) 4 | _ \<Rightarrow> sfail (ExpectedType ''float32''))"
  "storePrimitive ptr ''f64'' v realloc = (case v of VF64 u \<Rightarrow> storeInt ptr (VU64 u) 8 | _ \<Rightarrow> sfail (ExpectedType ''float64''))"
  "storePrimitive ptr ''char'' v realloc = (case v of VI32 r \<Rightarrow> sbind (slift (rune_check r)) (\<lambda>_. storeInt ptr (VU32 r) 4)
         | _ \<Rightarrow> sfail (ExpectedType ''rune''))"
  "storePrimitive ptr ''string'' v realloc = (case v of VString str \<Rightarrow> storeString ptr str realloc | _ \<Rightarrow> sfail (ExpectedType ''string''))"
  "storePrimitive ptr ''error-context'' v realloc = (case v of VU32 u \<Rightarrow> storeInt ptr (VU32 u) 4 | _ \<Rightarrow> sfail (ExpectedType ''uint32''))"
  by (simp_all add: storePrimitive_def intByteSize_def cong: val.case_cong)

lemma sizePrimitive_simps [simp]:
  "sizePrimitive ''bool'' = Inr 1" "sizePrimitive ''s8'' = Inr 1" "sizePrimitive ''s16'' = Inr 2"
  "sizePrimitive ''s32'' = Inr 4" "sizePrimitive ''f32'' = Inr 4" "sizePrimitive ''char'' = Inr 4"
  "sizePrimitive ''s64'' = Inr 8" "sizePrimitive ''u64'' = Inr 8" "sizePrimitive ''f64'' = Inr 8"
  "sizePrimitive ''string'' = Inr 8" "sizePrimitive ''error-context'' = Inr 4"
  by (simp_all add: sizePrimitive_def)

definition prim_names :: "string set" where
  "prim_names = {''bool'', ''u8'', ''u16'', ''u32'', ''s8'', ''s16'', ''s32'', ''u64'', ''s64'', ''f32'', ''f64'',
     ''char'', ''string'', ''error-context''}"

lemma sizePrimitive_names: "sizePrimitive p = Inr sz \<Longrightarrow> p \<in> prim_names"
proof (rule ccontr)
  assume "sizePrimitive p = Inr sz" "p \<notin> prim_names"
  then show False by (simp add: sizePrimitive_def prim_names_def)
qed

lemma scalar_stored:
  assumes "allocator_ok owned realloc" "storeInt ptr v n s = (Inr u, s')"
    and "\<And>m. ptr + n \<le> length m \<Longrightarrow> slice_of m ptr n = le_bytes n (integer_nat v) \<Longrightarrow> Q m"
  shows "stored owned {ptr..<ptr + n} s s' Q"
  using storeInt_stored [OF assms(1,2)] by (rule stored_weaken) (use assms(3) in auto)

lemma alloc_copy_stored:
  assumes ok: "allocator_ok owned realloc" and st: "alloc_copy bs realloc s = (Inr (p, n), s')"
  shows "n = length bs mod 2 ^ 32 \<and> p \<le> MaxUint32 \<and>
    stored owned {} s s' (\<lambda>m. p + n \<le> length m \<and> slice_of m p n = take n bs)"
proof -
  define k where "k = length bs mod 2 ^ 32"
  have k: "k \<le> MaxUint32" "k \<le> length bs" by (simp_all add: k_def MaxUint32_def)
  obtain s1 where g: "Grow realloc 0 0 1 k s = (Inr p, s1)" and n: "n = k"
    and w: "write_bytes p (take k bs) s1 = (Inr (), s')" and r: "p + k \<le> length (lin_mem s1)"
    using st unfolding alloc_copy_def Let_def k_def [symmetric] sbind_eq_Inr
    by (auto simp: checkedRange_def Let_def sbind_eq_Inr split: if_split_asm)
  have "stored owned {p..<p + k} s1 s' (\<lambda>m. p + k \<le> length m \<and> slice_of m p k = take k bs)"
    using write_bytes_stored [OF ok w] k r by simp
  then have "stored owned {} s s' (\<lambda>m. p + k \<le> length m \<and> slice_of m p k = take k bs)"
    using Grow_frame [OF ok g k(1)] by (intro stored_alloc)
  moreover have "p \<le> MaxUint32"
  proof -
    obtain w :: u32 where "p = unat w" using g by (auto simp: Grow_def sbind_eq_Inr split: option.splits)
    then show ?thesis by (simp add: u32_le_Max)
  qed
  ultimately show ?thesis by (simp add: n k_def)
qed

text \<open>A region store after an operation that only touches memory it allocates itself.\<close>

lemma stored_then_region:
  assumes "stored owned {} s s1 Q1" "stored owned P s1 s2 Q2" "P \<subseteq> owned s"
  shows "stored owned P s s2 (\<lambda>m. Q1 m \<and> Q2 m)"
  using stored_seq [OF assms(1,2)] assms(3) by simp

lemma readU32LE_bytes:
  assumes "p + 4 \<le> length m" "slice_of m p 4 = le_bytes 4 x" "x \<le> MaxUint32"
  shows "readU32LE m p = Inr x"
  using assms by (simp add: readU32LE_eq checkedRange_def le_nat_le_bytes MaxUint32_def)

lemma storeString_stored:
  assumes ok: "allocator_ok owned realloc" and st: "storeString ptr str realloc s = (Inr u, s')"
    and own: "{ptr..<ptr + 8} \<subseteq> owned s"
  shows "stored owned {ptr..<ptr + 8} s s' (\<lambda>m. utf8_valid str \<and> length str \<le> MaxUint32 \<longrightarrow>
    loadString m ptr = Inr (VString str))"
proof -
  obtain p n s1 where a: "alloc_copy str realloc s = (Inr (p, n), s1)" "store_pair ptr (p, n) s1 = (Inr (), s')"
    using st by (auto simp: storeString_def allocStoreString_def sbind_eq_Inr)
  note c = alloc_copy_stored [OF ok a(1)]
  have n: "n \<le> MaxUint32" using c by (auto simp: MaxUint32_def)
  have "owned s \<subseteq> owned s1" using c stored_owned by blast
  then have "stored owned {ptr..<ptr + 8} s1 s' (\<lambda>m. ptr + 8 \<le> length m \<and> ptr + 4 \<le> MaxUint32 \<and>
     slice_of m ptr 4 = le_bytes 4 p \<and> slice_of m (ptr + 4) 4 = le_bytes 4 n)"
    using own c n by (intro stored_pair [OF ok _ a(2)]) auto
  from stored_then_region [OF _ this own] c
  have "stored owned {ptr..<ptr + 8} s s' (\<lambda>m. (p + n \<le> length m \<and> slice_of m p n = take n str) \<and>
     ptr + 8 \<le> length m \<and> ptr + 4 \<le> MaxUint32 \<and> slice_of m ptr 4 = le_bytes 4 p \<and> slice_of m (ptr + 4) 4 = le_bytes 4 n)"
    by blast
  then show ?thesis
  proof (rule stored_weaken [OF _ order_refl], intro impI)
    fix m assume m: "(p + n \<le> length m \<and> slice_of m p n = take n str) \<and>
      ptr + 8 \<le> length m \<and> ptr + 4 \<le> MaxUint32 \<and> slice_of m ptr 4 = le_bytes 4 p \<and> slice_of m (ptr + 4) 4 = le_bytes 4 n"
      and v: "utf8_valid str \<and> length str \<le> MaxUint32"
    then have "n = length str" using c by (simp add: MaxUint32_def)
    with m v c n show "loadString m ptr = Inr (VString str)"
      by (simp add: loadString_def readU32LE_bytes checkedAdd_def Let_def loadStringFromRange_eq checkedRange_def)
  qed
qed

lemma storePrimitive_stored:
  assumes ok: "allocator_ok owned realloc" and st: "storePrimitive ptr p v realloc s = (Inr u, s')"
    and sz: "sizePrimitive p = Inr sz" and own: "{ptr..<ptr + sz} \<subseteq> owned s"
  shows "stored owned {ptr..<ptr + sz} s s' (\<lambda>m. \<forall>w. reload_prim p v = Some w \<longrightarrow> loadPrimitive m ptr p = Inr w)"
proof -
  have scalar: "stored owned {ptr..<ptr + sz} s s' Q" if "storeInt ptr x sz s = (Inr u, s')"
    "\<And>m. ptr + sz \<le> length m \<Longrightarrow> slice_of m ptr sz = le_bytes sz (integer_nat x) \<Longrightarrow> Q m" for x Q
    by (rule scalar_stored [OF ok that])
  have "p \<in> prim_names" using sizePrimitive_names [OF sz] .
  then show ?thesis
    unfolding prim_names_def
  proof (elim insertE emptyE)
    assume p: "p = ''bool''"
    then obtain b where v: "v = VBool b" using st by (auto split: val.splits)
    show ?thesis
      by (rule scalar [of "VU32 (if b then 1 else 0)"])
         (use st sz p v in \<open>auto simp: loadInt_bytes(1) assert_u32_def reload_prim_def\<close>)
  next
    assume p: "p = ''u8''"
    then obtain x where v: "v = VU32 x" using st by (auto split: val.splits)
    show ?thesis
      by (rule scalar [of "VU32 x"])
         (use st sz p v in \<open>auto simp: loadInt_bytes(1) assert_u32_def reload_prim_def\<close>)
  next
    assume p: "p = ''u16''"
    then obtain x where v: "v = VU32 x" using st by (auto split: val.splits)
    show ?thesis
      by (rule scalar [of "VU32 x"])
         (use st sz p v in \<open>auto simp: loadInt_bytes(3) assert_u32_def reload_prim_def\<close>)
  next
    assume p: "p = ''u32''"
    then obtain x where v: "v = VU32 x" using st by (auto split: val.splits)
    show ?thesis
      by (rule scalar [of "VU32 x"])
         (use st sz p v in \<open>auto simp: loadInt_bytes(5) assert_u32_def reload_prim_def\<close>)
  next
    assume p: "p = ''s8''"
    then obtain x where v: "v = VI32 x" using st by (auto split: val.splits)
    show ?thesis
      by (rule scalar [of "VU32 x"])
         (use st sz p v in \<open>auto simp: loadInt_bytes(2) assert_u32_def reload_prim_def Let_def\<close>)
  next
    assume p: "p = ''s16''"
    then obtain x where v: "v = VI32 x" using st by (auto split: val.splits)
    show ?thesis
      by (rule scalar [of "VU32 x"])
         (use st sz p v in \<open>auto simp: loadInt_bytes(4) assert_u32_def reload_prim_def\<close>)
  next
    assume p: "p = ''s32''"
    then obtain x where v: "v = VI32 x" using st by (auto split: val.splits)
    show ?thesis
      by (rule scalar [of "VU32 x"])
         (use st sz p v in \<open>auto simp: loadInt_bytes(6) assert_u32_def reload_prim_def\<close>)
  next
    assume p: "p = ''u64''"
    then obtain x where v: "v = VU64 x" using st by (auto split: val.splits)
    show ?thesis
      by (rule scalar [of "VU64 x"])
         (use st sz p v in \<open>auto simp: loadInt_bytes(7) assert_u32_def reload_prim_def\<close>)
  next
    assume p: "p = ''s64''"
    then obtain x where v: "v = VI64 x" using st by (auto split: val.splits)
    show ?thesis
      by (rule scalar [of "VU64 x"])
         (use st sz p v in \<open>auto simp: loadInt_bytes(8) assert_u32_def reload_prim_def\<close>)
  next
    assume p: "p = ''f32''"
    then obtain x where v: "v = VF32 x" using st by (auto split: val.splits)
    show ?thesis
      by (rule scalar [of "VU32 x"])
         (use st sz p v in \<open>auto simp: loadInt_bytes(5) assert_u32_def reload_prim_def\<close>)
  next
    assume p: "p = ''f64''"
    then obtain x where v: "v = VF64 x" using st by (auto split: val.splits)
    show ?thesis
      by (rule scalar [of "VU64 x"])
         (use st sz p v in \<open>auto simp: loadInt_bytes(7) assert_u64_def reload_prim_def\<close>)
  next
    assume p: "p = ''char''"
    then obtain x where v: "v = VI32 x" using st by (auto split: val.splits)
    have r: "rune_check x = Inr ()" using st p v by (auto simp: sbind_eq_Inr)
    show ?thesis
      by (rule scalar [of "VU32 x"])
         (use st sz p v r in \<open>auto simp: loadInt_bytes(5) assert_u32_def reload_prim_def rune_check_char\<close>)
  next
    assume p: "p = ''string''"
    then obtain x where v: "v = VString x" using st by (auto split: val.splits)
    then have "storeString ptr x realloc s = (Inr u, s')" "sz = 8" using st sz p by simp_all
    from storeString_stored [OF ok this(1)] own this(2)
    show ?thesis by (auto simp: v p reload_prim_def elim!: stored_weaken)
  next
    assume p: "p = ''error-context''"
    then obtain x where v: "v = VU32 x" using st by (auto split: val.splits)
    show ?thesis
      by (rule scalar [of "VU32 x"])
         (use st sz p v in \<open>auto simp: loadInt_bytes(5) assert_u32_def reload_prim_def\<close>)
  qed
qed

subsection \<open>Compound types\<close>

text \<open>
  The induction hypothesis, for the recursive call \<open>rec\<close> that stores, \<open>ld\<close> that loads and \<open>rl\<close> that
  says what is reloaded.
\<close>

definition stores_ok ::
    "('g mstate \<Rightarrow> nat set) \<Rightarrow> resolver \<Rightarrow> 'g store_fn \<Rightarrow> (byte list \<Rightarrow> load_fn) \<Rightarrow> reload_fn \<Rightarrow> bool" where
  "stores_ok owned r rec ld rl \<longleftrightarrow>
     (\<forall>ptr t v s u s' z a. rec ptr t v s = (Inr u, s') \<longrightarrow> Size t r = Inr z \<longrightarrow> Alignment t r = Inr a \<longrightarrow>
        a dvd ptr \<longrightarrow> {ptr..<ptr + z} \<subseteq> owned s \<longrightarrow>
        stored owned {ptr..<ptr + z} s s' (\<lambda>m. \<forall>w. rl t v = Some w \<longrightarrow> ld m ptr t = Inr w))"

lemma stores_okD:
  assumes "stores_ok owned r rec ld rl" "rec ptr t v s = (Inr u, s')" "Size t r = Inr z" "Alignment t r = Inr a"
    "a dvd ptr" "{ptr..<ptr + z} \<subseteq> owned s"
  shows "stored owned {ptr..<ptr + z} s s' (\<lambda>m. \<forall>w. rl t v = Some w \<longrightarrow> ld m ptr t = Inr w)"
  using assms unfolding stores_ok_def by blast

lemma Alignment_is: "Alignment t r = Inr a \<Longrightarrow> is_alignment a"
  using alignmentUnchecked_is by (auto simp: Alignment_def rbind_eq_Inr aligns_def)

lemma Size_dvd:
  assumes "Size t r = Inr z" "Alignment t r = Inr a"
  shows "a dvd z"
  using assms sizeUnchecked_aligned [of layout_fuel r t z]
  by (auto simp: Size_def Alignment_def rbind_eq_Inr)

lemma aligns_Alignment: "aligns (\<lambda>t. Alignment t r)"
  by (simp add: aligns_def Alignment_is)

lemma is_alignment_pos: "is_alignment a \<Longrightarrow> 0 < a"
  by (auto simp: is_alignment_def)

lemma is_alignment_dvd: "is_alignment a \<Longrightarrow> is_alignment b \<Longrightarrow> a \<le> b \<Longrightarrow> a dvd b"
  by (auto simp: is_alignment_def)

lemma checkedAlign_shift:
  assumes "is_alignment a" "a dvd base" "checkedAlign (base + off) a = Inr x" "checkedAlign off a = Inr y"
  shows "x = base + y"
proof -
  have pos: "0 < a" using assms(1) by (rule is_alignment_pos)
  obtain k where k: "base = a * k" using assms(2) ..
  have "base + off + a - 1 = (off + a - 1) + a * k" using pos k by linarith
  then have "(base + off + a - 1) div a = ((off + a - 1) + a * k) div a" by simp
  also have "\<dots> = k + (off + a - 1) div a" using pos by (subst div_mult_self2) simp_all
  finally show ?thesis
    using assms(3,4) pos k by (simp add: checkedAlign_def Let_def algebra_simps split: if_split_asm)
qed

lemma size_field_end:
  assumes "size_field al sz r off ref = Inr off'" "aligns al"
  obtains t a y z where "resolveType (Some ref) r = Inr t" "al t = Inr a" "checkedAlign off a = Inr y"
    "sz t = Inr z" "off' = y + z" "off \<le> y" "is_alignment a"
proof -
  obtain t a y z where 1: "resolveType (Some ref) r = Inr t" "al t = Inr a" "checkedAlign off a = Inr y"
    "sz t = Inr z" "off' = y + z"
    using assms(1) by (auto simp: size_field_def rbind_eq_Inr checkedAdd_props)
  moreover have "is_alignment a" using 1(2) assms(2) by (simp add: aligns_def)
  moreover have "off \<le> y" using checkedAlign_props(2) [OF 1(3)] is_alignment_pos [OF calculation(6)] by simp
  ultimately show thesis using that by blast
qed

lemma size_fields_mono:
  assumes "foldE (size_field al sz r) off refs = Inr e" "aligns al"
  shows "off \<le> e"
  using assms(1)
proof (induction refs arbitrary: off)
  case (Cons ref refs)
  then obtain off' where o: "size_field al sz r off ref = Inr off'" "foldE (size_field al sz r) off' refs = Inr e"
    by (auto simp: rbind_eq_Inr)
  from o(1) have "off \<le> off'" by (rule size_field_end [OF _ assms(2)]) simp
  with Cons.IH [OF o(2)] show ?case by simp
qed simp

text \<open>The members of a record or tuple, from offset \<open>off\<close> of the aligned address \<open>base\<close> on.\<close>

lemma store_members_stored:
  assumes IH: "stores_ok owned r rec ld rl"
    and "store_members rec r refs (base + off) vs s = (Inr u, s')"
    and "foldE (size_field (\<lambda>t. Alignment t r) (\<lambda>t. Size t r) r) off refs = Inr e"
    and "\<And>ref a. ref \<in> set refs \<Longrightarrow> ref_alignment (\<lambda>t. Alignment t r) r ref = Inr a \<Longrightarrow> a dvd base"
    and "{base + off..<base + e} \<subseteq> owned s"
  shows "stored owned {base + off..<base + e} s s'
    (\<lambda>m. \<forall>ws. reload_members rl r refs vs = Some ws \<longrightarrow> load_members (ld m) r refs (base + off) = Inr ws)"
  using assms(2-5)
proof (induction refs arbitrary: off vs s)
  case Nil
  then show ?case by (auto intro: stored_refl)
next
  case (Cons ref refs)
  obtain t a x s1 z where st: "resolveType (Some ref) r = Inr t" "Alignment t r = Inr a"
    "checkedAlign (base + off) a = Inr x" "rec x t (hd vs) s = (Inr (), s1)" "Size t r = Inr z"
    "checkedAdd x z = Inr (x + z)" "store_members rec r refs (x + z) (tl vs) s1 = (Inr u, s')"
    using Cons.prems(1) by (auto simp: sbind_eq_Inr checkedAdd_props)
  obtain off' where off': "size_field (\<lambda>t. Alignment t r) (\<lambda>t. Size t r) r off ref = Inr off'"
    "foldE (size_field (\<lambda>t. Alignment t r) (\<lambda>t. Size t r) r) off' refs = Inr e"
    using Cons.prems(2) by (auto simp: rbind_eq_Inr)
  obtain y where y: "checkedAlign off a = Inr y" "off' = y + z" "off \<le> y" "is_alignment a"
    using size_field_end [OF off'(1) aligns_Alignment] st by (metis sum.inject(2))
  have "a dvd base" using Cons.prems(3) [of ref a] st by (simp add: ref_alignment_def)
  then have x: "x = base + y" using checkedAlign_shift [OF y(4) _ st(3) y(1)] by simp
  have e: "off' \<le> e" using size_fields_mono [OF off'(2) aligns_Alignment] .
  have own: "{x..<x + z} \<union> {base + off'..<base + e} \<subseteq> owned s"
    using Cons.prems(4) x y(2,3) e by auto
  have ax: "a dvd x" using checkedAlign_props(1) [OF st(3) is_alignment_pos [OF y(4)]] .
  have 1: "stored owned {x..<x + z} s s1 (\<lambda>m. \<forall>w. rl t (hd vs) = Some w \<longrightarrow> ld m x t = Inr w)"
    using stores_okD [OF IH st(4,5,2) ax] own by blast
  have rest: "base + off' = x + z" using x y(2) by simp
  have "stored owned {base + off'..<base + e} s1 s' (\<lambda>m. \<forall>ws. reload_members rl r refs (tl vs) = Some ws \<longrightarrow>
      load_members (ld m) r refs (base + off') = Inr ws)"
    using st(7) off'(2) Cons.prems(3) own stored_owned [OF 1] rest
    by (intro Cons.IH) auto
  from stored_seq [OF 1 this _ own] have "stored owned ({x..<x + z} \<union> {base + off'..<base + e}) s s'
    (\<lambda>m. (\<forall>w. rl t (hd vs) = Some w \<longrightarrow> ld m x t = Inr w) \<and>
      (\<forall>ws. reload_members rl r refs (tl vs) = Some ws \<longrightarrow> load_members (ld m) r refs (base + off') = Inr ws))"
    using rest by auto
  then show ?case
    by (rule stored_weaken)
       (use x y rest e st in \<open>auto simp: reload_ref_def add.assoc split: option.split_asm\<close>)
qed

lemma foldE_max:
  assumes "foldE (\<lambda>m x. rbind (f x) (\<lambda>a. Inr (if a > m then a else m))) m xs = Inr A"
  shows "m \<le> (A :: nat) \<and> (\<forall>x \<in> set xs. \<exists>a. f x = Inr a \<and> a \<le> A)"
  using assms by (induction xs arbitrary: m) (fastforce simp: rbind_eq_Inr split: if_split_asm)+

lemma foldE_max_option:
  assumes "foldE (\<lambda>m c. case g c of None \<Rightarrow> Inr m | Some ref \<Rightarrow> rbind (f ref) (\<lambda>a. Inr (if a > m then a else m))) m cs = Inr A"
  shows "m \<le> (A :: nat) \<and> (\<forall>c \<in> set cs. \<forall>ref. g c = Some ref \<longrightarrow> (\<exists>a. f ref = Inr a \<and> a \<le> A))"
  using assms
  by (induction cs arbitrary: m) (fastforce simp: rbind_eq_Inr split: if_split_asm option.split_asm)+

lemma store_product_stored:
  assumes IH: "stores_ok owned r rec ld rl"
    and st: "store_product rec ptr v refs r s = (Inr u, s')"
    and sz: "foldE (size_field (\<lambda>t. Alignment t r) (\<lambda>t. Size t r) r) 0 refs = Inr e" "e \<le> z"
    and al: "\<And>ref a'. ref \<in> set refs \<Longrightarrow> ref_alignment (\<lambda>t. Alignment t r) r ref = Inr a' \<Longrightarrow> a' dvd ptr"
    and own: "{ptr..<ptr + z} \<subseteq> owned s"
  shows "stored owned {ptr..<ptr + z} s s' (\<lambda>m. \<forall>w.
    (case v of VList vs \<Rightarrow> map_VList (reload_members rl r refs vs) | _ \<Rightarrow> None) = Some w \<longrightarrow>
    rbind (load_members (ld m) r refs ptr) (\<lambda>vs. Inr (VList vs)) = Inr w)"
proof -
  obtain vs where vs: "v = VList vs" "store_members rec r refs (ptr + 0) vs s = (Inr u, s')"
    using st by (auto simp: store_product_def sbind_eq_Inr expect_list_def split: val.splits if_split_asm)
  have "{ptr + 0..<ptr + e} \<subseteq> owned s" using own sz(2) by auto
  from store_members_stored [OF IH vs(2) sz(1) al this] show ?thesis
    by (rule stored_weaken) (use sz(2) vs(1) in \<open>auto simp: map_VList_def\<close>)
qed

lemma storeRecord_stored:
  assumes IH: "stores_ok owned r rec ld rl" and st: "storeRecord rec ptr v fs r s = (Inr u, s')"
    and sz: "Size (Some (RecordDesc fs)) r = Inr z" and al: "Alignment (Some (RecordDesc fs)) r = Inr a"
    and "a dvd ptr" "{ptr..<ptr + z} \<subseteq> owned s"
  shows "stored owned {ptr..<ptr + z} s s' (\<lambda>m. \<forall>w.
    (case v of VList vs \<Rightarrow> map_VList (reload_members rl r (map FieldType fs) vs) | _ \<Rightarrow> None) = Some w \<longrightarrow>
    loadRecord (ld m) ptr fs r = Inr w)"
proof -
  have v: "validateLayoutType (Some (RecordDesc fs)) r = Inr ()" using sz by (auto simp: Size_def rbind_eq_Inr)
  note eq = layout_equations [OF v, unfolded sz al layout_alignment_def layout_size_def Let_def type_desc.case, symmetric]
  obtain e where e: "foldE (size_field (\<lambda>t. Alignment t r) (\<lambda>t. Size t r) r) 0 (map FieldType fs) = Inr e"
    "checkedAlign e a = Inr z"
    using eq by (auto simp: sizeRecord_def rbind_eq_Inr foldE_map)
  have "e \<le> z" using checkedAlign_props(2) [OF e(2)] is_alignment_pos [OF Alignment_is [OF al]] by simp
  moreover have "a' dvd ptr" if "ref \<in> set (map FieldType fs)" "ref_alignment (\<lambda>t. Alignment t r) r ref = Inr a'" for ref a'
  proof -
    have "a' \<le> a" using eq(1) that foldE_max unfolding alignmentRecord_def by fastforce
    moreover have "is_alignment a'" using ref_alignment_is [OF aligns_Alignment that(2)] .
    ultimately show ?thesis using is_alignment_dvd [OF _ Alignment_is [OF al]] assms(5) dvd_trans by blast
  qed
  ultimately show ?thesis
    using store_product_stored [OF IH st [unfolded storeRecord_def] e(1)] assms(6) unfolding loadRecord_def by blast
qed

lemma storeTuple_stored:
  assumes IH: "stores_ok owned r rec ld rl" and st: "storeTuple rec ptr v es r s = (Inr u, s')"
    and sz: "Size (Some (TupleDesc es)) r = Inr z" and al: "Alignment (Some (TupleDesc es)) r = Inr a"
    and "a dvd ptr" "{ptr..<ptr + z} \<subseteq> owned s"
  shows "stored owned {ptr..<ptr + z} s s' (\<lambda>m. \<forall>w.
    (case v of VList vs \<Rightarrow> map_VList (reload_members rl r es vs) | _ \<Rightarrow> None) = Some w \<longrightarrow>
    loadTuple (ld m) ptr es r = Inr w)"
proof -
  have v: "validateLayoutType (Some (TupleDesc es)) r = Inr ()" using sz by (auto simp: Size_def rbind_eq_Inr)
  note eq = layout_equations [OF v, unfolded sz al layout_alignment_def layout_size_def Let_def type_desc.case, symmetric]
  obtain e where e: "foldE (size_field (\<lambda>t. Alignment t r) (\<lambda>t. Size t r) r) 0 es = Inr e"
    "checkedAlign e a = Inr z"
    using eq by (auto simp: sizeTuple_def rbind_eq_Inr)
  have "e \<le> z" using checkedAlign_props(2) [OF e(2)] is_alignment_pos [OF Alignment_is [OF al]] by simp
  moreover have "a' dvd ptr" if "ref \<in> set es" "ref_alignment (\<lambda>t. Alignment t r) r ref = Inr a'" for ref a'
  proof -
    have "a' \<le> a" using eq(1) that foldE_max unfolding alignmentTuple_def by fastforce
    moreover have "is_alignment a'" using ref_alignment_is [OF aligns_Alignment that(2)] .
    ultimately show ?thesis using is_alignment_dvd [OF _ Alignment_is [OF al]] assms(5) dvd_trans by blast
  qed
  ultimately show ?thesis
    using store_product_stored [OF IH st [unfolded storeTuple_def] e(1)] assms(6) unfolding loadTuple_def by blast
qed

text \<open>The payload of an option, variant or result, somewhere in \<open>{off..<hi}\<close>.\<close>

definition arm_fits :: "resolver \<Rightarrow> type_ref option \<Rightarrow> nat \<Rightarrow> nat \<Rightarrow> bool" where
  "arm_fits r arm off hi \<longleftrightarrow> off \<le> hi \<and> (\<forall>ref t. arm = Some ref \<longrightarrow> resolveType (Some ref) r = Inr t \<longrightarrow>
     (\<exists>z a. Size t r = Inr z \<and> Alignment t r = Inr a \<and> a dvd off \<and> off + z \<le> hi))"

lemma store_arm_stored:
  assumes IH: "stores_ok owned r rec ld rl" and st: "store_arm rec off arm v r s = (Inr u, s')"
    and fits: "arm_fits r arm off hi" and own: "{off..<hi} \<subseteq> owned s"
  shows "stored owned {off..<hi} s s' (\<lambda>m. \<forall>w. reload_arm rl r arm v = Some w \<longrightarrow> load_arm (ld m) off arm r = Inr w)"
proof (cases arm)
  case None
  then show ?thesis using st by (auto simp: store_arm_def reload_arm_def load_arm_def intro: stored_refl)
next
  case (Some ref)
  then obtain t where t: "resolveType (Some ref) r = Inr t" "rec off t v s = (Inr u, s')"
    using st by (auto simp: store_arm_def sbind_eq_Inr)
  with fits Some obtain z a where za: "Size t r = Inr z" "Alignment t r = Inr a" "a dvd off" "off + z \<le> hi"
    by (auto simp: arm_fits_def)
  from stores_okD [OF IH t(2) za(1-3)] own za(4)
  have "stored owned {off..<off + z} s s' (\<lambda>m. \<forall>w. rl t v = Some w \<longrightarrow> ld m off t = Inr w)" by fastforce
  then show ?thesis
    by (rule stored_weaken) (use za(4) t(1) Some in \<open>auto simp: reload_arm_def reload_ref_def load_arm_def\<close>)
qed

text \<open>A discriminant of \<open>d\<close> bytes at \<open>ptr\<close>, then a payload in \<open>{ptr + o..<hi}\<close>.\<close>

lemma disc_payload_stored:
  assumes ok: "allocator_ok owned realloc" and IH: "stores_ok owned r rec ld rl"
    and disc: "storeInt ptr (VU32 w) d s = (Inr (), s1)" and st: "store_arm rec off arm v r s1 = (Inr u, s')"
    and fits: "arm_fits r arm off hi" and lay: "ptr + d \<le> off" and own: "{ptr..<hi} \<subseteq> owned s"
  shows "stored owned {ptr..<hi} s s' (\<lambda>m. (ptr + d \<le> length m \<and> slice_of m ptr d = le_bytes d (unat w)) \<and>
    (\<forall>x. reload_arm rl r arm v = Some x \<longrightarrow> load_arm (ld m) off arm r = Inr x))"
proof -
  have hi: "off \<le> hi" using fits by (simp add: arm_fits_def)
  have 1: "stored owned {ptr..<ptr + d} s s1 (\<lambda>m. ptr + d \<le> length m \<and> slice_of m ptr d = le_bytes d (unat w))"
    using storeInt_stored [OF ok disc] by simp
  have "{off..<hi} \<subseteq> owned s1" using own lay stored_owned [OF 1] by fastforce
  from stored_seq [OF 1 store_arm_stored [OF IH st fits this]]
  have "stored owned ({ptr..<ptr + d} \<union> {off..<hi}) s s' (\<lambda>m. (ptr + d \<le> length m \<and> slice_of m ptr d = le_bytes d (unat w)) \<and>
    (\<forall>x. reload_arm rl r arm v = Some x \<longrightarrow> load_arm (ld m) off arm r = Inr x))"
    using own lay hi by fastforce
  then show ?thesis by (rule stored_weaken) (use lay hi in auto)
qed

lemma loadInt_disc:
  assumes "sizePrimitive (DiscriminantType n) = Inr d" "unat w < n"
    and "ptr + d \<le> length m" "slice_of m ptr d = le_bytes d (unat w)"
  shows "loadInt m ptr d False = Inr (VU32 w)"
proof (cases rule: DiscriminantType_cases [of n])
  case 2
  then have "unat w < 256" using assms(2) by simp
  then have "ucast (ucast w :: byte) = w"
    by (simp add: word_unat_eq_iff unsigned_ucast_eq unsigned_take_bit_eq take_bit_nat_eq_self)
  then show ?thesis using 2 assms(1,3,4) by (simp add: loadInt_bytes(1) word_of_unat)
next
  case 3
  then have "unat w < 65536" using assms(2) by simp
  then have "ucast (ucast w :: 16 word) = w"
    by (simp add: word_unat_eq_iff unsigned_ucast_eq unsigned_take_bit_eq take_bit_nat_eq_self)
  then show ?thesis using 3 assms(1,3,4) by (simp add: loadInt_bytes(3) word_of_unat)
next
  case 4
  then show ?thesis using assms(1,3,4) by (simp add: loadInt_bytes(5) word_of_unat)
qed (use assms(1) in simp)

lemma MaxCaseAlignment_fuel:
  assumes v: "validateLayoutType (Some (VariantDesc cs)) r = Inr ()"
    and n: "MaxCaseAlignment (alignmentUnchecked n r) r cs = Inr x"
  shows "MaxCaseAlignment (\<lambda>t. Alignment t r) r cs = Inr x"
proof -
  have le: "rec_le (alignmentUnchecked k r) (alignmentUnchecked (max n 66) r)" if "k \<le> max n 66" for k
    unfolding rec_le_def
  proof
    fix t show "fuel_le (alignmentUnchecked k r t) (alignmentUnchecked (max n 66) r t)"
      using alignmentUnchecked_mono [OF that, of r t] by (cases "returns (alignmentUnchecked k r t)") (auto simp: fuel_le_def returns_def)
  qed
  have "MaxCaseAlignment (alignmentUnchecked (max n 66) r) r cs = Inr x"
    using fuel_le_returns [OF alignment_mono(1) [OF le [of n]], of r cs] n by simp
  moreover have "agree_on r (case_refs cs) (alignmentUnchecked (max n 66) r) (\<lambda>t. Alignment t r)"
    unfolding agree_on_def
  proof (intro ballI allI impI)
    fix ref t assume "ref \<in> case_refs cs" "resolveType (Some ref) r = Inr t"
    then have "validateLayoutType t r = Inr ()" using validated_child(1) [OF v] by simp
    then show "alignmentUnchecked (max n 66) r t = Alignment t r"
      by (rule layout_fuel_enough) (simp add: layout_fuel_def)
  qed
  ultimately show ?thesis using alignment_agree(1) by metis
qed

lemma validated: "Size t r = Inr z \<Longrightarrow> validateLayoutType t r = Inr ()"
  by (auto simp: Size_def rbind_eq_Inr)

lemma storeVariant_stored:
  assumes ok: "allocator_ok owned realloc" and IH: "stores_ok owned r rec ld rl"
    and st: "storeVariant rec (alignmentUnchecked n r) ptr v cs r s = (Inr u, s')"
    and sz: "Size (Some (VariantDesc cs)) r = Inr z" and al: "Alignment (Some (VariantDesc cs)) r = Inr a"
    and dvd: "a dvd ptr" and own: "{ptr..<ptr + z} \<subseteq> owned s"
  shows "stored owned {ptr..<ptr + z} s s' (\<lambda>m. \<forall>w.
    (case v of VVariant disc payload \<Rightarrow>
       map_option (VVariant disc) (reload_arm rl r (CaseType (cs ! unat disc)) payload) | _ \<Rightarrow> None) = Some w \<longrightarrow>
    loadVariant (ld m) (alignmentUnchecked n r) m ptr cs r = Inr w)"
proof -
  note eq = layout_equations [OF validated [OF sz], unfolded sz al layout_alignment_def layout_size_def Let_def type_desc.case, symmetric]
  obtain d o1 mca mcs e where lay: "sizePrimitive (DiscriminantType (length cs)) = Inr d"
    "MaxCaseAlignment (\<lambda>t. Alignment t r) r cs = Inr mca" "checkedAlign d mca = Inr o1"
    "foldE (\<lambda>m c. case CaseType c of None \<Rightarrow> Inr m
       | Some ref \<Rightarrow> rbind (rbind (resolveType (Some ref) r) (\<lambda>t. Size t r)) (\<lambda>a. Inr (if a > m then a else m))) 0 cs = Inr mcs"
    "e = o1 + mcs" "checkedAlign e a = Inr z"
  proof -
    have f: "(\<lambda>m c. case CaseType c of None \<Rightarrow> Inr m | Some ref \<Rightarrow> rbind (resolveType (Some ref) r) (\<lambda>ct.
        rbind (Size ct r) (\<lambda>k. Inr (if k > m then k else m)))) =
      (\<lambda>m c. case CaseType c of None \<Rightarrow> Inr m
        | Some ref \<Rightarrow> rbind (rbind (resolveType (Some ref) r) (\<lambda>t. Size t r)) (\<lambda>a. Inr (if a > m then a else m)))"
      by (auto simp: fun_eq_iff rbind_assoc split: option.split)
    show thesis
      using eq(2) unfolding sizeVariant_def f rbind_eq_Inr checkedAdd_props
      by (elim exE conjE) (rule that, assumption, assumption, assumption, assumption, assumption, simp add: eq(1))
  qed
  have "is_alignment a" using al by (rule Alignment_is)
  have mca: "is_alignment mca" using alignment_is(1) [OF aligns_Alignment lay(2)] .
  have "mca \<le> a" using eq(1) lay(2) by (auto simp: alignmentVariant_def rbind_eq_Inr split: if_split_asm)
  then have mp: "mca dvd ptr" using is_alignment_dvd [OF mca \<open>is_alignment a\<close>] dvd dvd_trans by blast
  have "e \<le> z" using checkedAlign_props(2) [OF lay(6)] is_alignment_pos [OF \<open>is_alignment a\<close>] by simp
  have "d \<le> o1" using checkedAlign_props(2) [OF lay(3)] is_alignment_pos [OF mca] by simp
  obtain disc payload where v: "v = VVariant disc payload" using st by (auto simp: storeVariant_eq split: val.splits)
  obtain s1 mca' off where run: "unat disc < length cs" "storeInt ptr (VU32 disc) d s = (Inr (), s1)"
    "checkedAdd ptr d = Inr (ptr + d)" "MaxCaseAlignment (alignmentUnchecked n r) r cs = Inr mca'"
    "checkedAlign (ptr + d) mca' = Inr off" "store_arm rec off (CaseType (cs ! unat disc)) payload r s1 = (Inr u, s')"
  proof -
    have idx: "unat disc < length cs" using st unfolding v storeVariant_eq by (auto split: if_split_asm)
    then obtain s1 mca' off where 1: "storeInt ptr (VU32 disc) d s = (Inr (), s1)" "ptr + d \<le> MaxUint32"
      "MaxCaseAlignment (alignmentUnchecked n r) r cs = Inr mca'" "checkedAlign (ptr + d) mca' = Inr off"
      and arm: "(case CaseType (cs ! unat disc) of None \<Rightarrow> sret ()
        | Some ref \<Rightarrow> sbind (slift (resolveType (Some ref) r)) (\<lambda>t.
            if payload = VNil then sfail (PayloadRequired (unat disc)) else rec off t payload)) s1 = (Inr u, s')"
      using st lay(1) unfolding v storeVariant_eq by (auto simp: sbind_eq_Inr checkedAdd_props)
    from arm have "store_arm rec off (CaseType (cs ! unat disc)) payload r s1 = (Inr u, s')"
      by (cases "CaseType (cs ! unat disc)") (auto simp: store_arm_def sbind_eq_Inr split: if_split_asm)
    with idx 1 show thesis by (intro that) (auto simp: checkedAdd_props)
  qed
  have "mca' = mca" using MaxCaseAlignment_fuel [OF validated [OF sz] run(4)] lay(2) by simp
  then have off: "off = ptr + o1" using checkedAlign_shift [OF mca mp _ lay(3)] run(5) by simp
  have "arm_fits r (CaseType (cs ! unat disc)) off (ptr + z)"
    unfolding arm_fits_def
  proof (intro conjI allI impI)
    show "off \<le> ptr + z" using off lay(5) \<open>e \<le> z\<close> by simp
    fix ref t assume ref: "CaseType (cs ! unat disc) = Some ref" "resolveType (Some ref) r = Inr t"
    have "cs ! unat disc \<in> set cs" using run(1) by simp
    then obtain pz pa where p: "Size t r = Inr pz" "pz \<le> mcs" "Alignment t r = Inr pa" "pa \<le> mca"
      using foldE_max_option [OF lay(4)] foldE_max_option [OF lay(2) [unfolded MaxCaseAlignment_def]] ref
      by (fastforce simp: ref_alignment_def)
    then have "pa dvd mca" using is_alignment_dvd [OF Alignment_is mca] by blast
    then have "pa dvd off" using mp off checkedAlign_props(1) [OF lay(3) is_alignment_pos [OF mca]]
      by (meson dvd_add dvd_trans)
    then show "\<exists>z' a. Size t r = Inr z' \<and> Alignment t r = Inr a \<and> a dvd off \<and> off + z' \<le> ptr + z"
      using p off lay(5) \<open>e \<le> z\<close> by auto
  qed
  from disc_payload_stored [OF ok IH run(2,6) this _ own] off \<open>d \<le> o1\<close>
  have "stored owned {ptr..<ptr + z} s s' (\<lambda>m. (ptr + d \<le> length m \<and> slice_of m ptr d = le_bytes d (unat disc)) \<and>
    (\<forall>x. reload_arm rl r (CaseType (cs ! unat disc)) payload = Some x \<longrightarrow> load_arm (ld m) off (CaseType (cs ! unat disc)) r = Inr x))"
    by simp
  then show ?thesis
  proof (rule stored_weaken [OF _ order_refl], elim conjE, intro allI impI)
    fix m w assume m: "ptr + d \<le> length m" "slice_of m ptr d = le_bytes d (unat disc)"
      "\<forall>x. reload_arm rl r (CaseType (cs ! unat disc)) payload = Some x \<longrightarrow> load_arm (ld m) off (CaseType (cs ! unat disc)) r = Inr x"
      and w: "(case v of VVariant disc payload \<Rightarrow>
        map_option (VVariant disc) (reload_arm rl r (CaseType (cs ! unat disc)) payload) | _ \<Rightarrow> None) = Some w"
    have "loadInt m ptr d False = Inr (VU32 disc)" using loadInt_disc [OF lay(1) run(1) m(1,2)] .
    then show "loadVariant (ld m) (alignmentUnchecked n r) m ptr cs r = Inr w"
      using w m(3) run lay(1) by (auto simp: loadVariant_eq v assert_u32_def)
  qed
qed

lemma storeOption_stored:
  assumes ok: "allocator_ok owned realloc" and IH: "stores_ok owned r rec ld rl"
    and t: "resolveType (Some elem) r = Inr t" and st: "storeOption rec ptr v t r s = (Inr u, s')"
    and sz: "Size (Some (OptionDesc elem)) r = Inr z" and al: "Alignment (Some (OptionDesc elem)) r = Inr a"
    and dvd: "a dvd ptr" and own: "{ptr..<ptr + z} \<subseteq> owned s"
  shows "stored owned {ptr..<ptr + z} s s' (\<lambda>m. \<forall>w.
    (if v = VNil then Some VNil else reload_ref rl r elem v) = Some w \<longrightarrow> loadOption (ld m) m ptr t r = Inr w)"
proof -
  note eq = layout_equations [OF validated [OF sz], unfolded sz al layout_alignment_def layout_size_def Let_def type_desc.case, symmetric]
  obtain pz pa o1 where lay: "Size t r = Inr pz" "Alignment t r = Inr pa" "checkedAlign 1 pa = Inr o1"
    "checkedAlign (o1 + pz) (max 1 pa) = Inr z"
    using eq(2) t by (auto simp: sizeOption_def rbind_eq_Inr checkedAdd_props)
  have pa: "is_alignment pa" using lay(2) by (rule Alignment_is)
  have "a = max 1 pa"
    using eq(1) t lay(2) by (auto simp: alignmentOption_def ref_alignment_def split: if_split_asm)
  then have mp: "pa dvd ptr" using dvd is_alignment_pos [OF pa] by (simp add: max_def split: if_split_asm)
  have "o1 + pz \<le> z" using checkedAlign_props(2) [OF lay(4)] by simp
  have "1 \<le> o1" using checkedAlign_props(2) [OF lay(3)] is_alignment_pos [OF pa] by simp
  define w1 :: u32 where "w1 = (if v = VNil then 0 else 1)"
  define arm where "arm = (if v = VNil then None else Some elem)"
  obtain s1 off where run: "storeInt ptr (VU32 w1) 1 s = (Inr (), s1)" "checkedAdd ptr 1 = Inr (ptr + 1)"
    "checkedAlign (ptr + 1) pa = Inr off" "store_arm rec off arm v r s1 = (Inr u, s')"
    using st lay(2) t unfolding storeOption_def store_arm_def w1_def arm_def Let_def
    by (auto simp: sbind_eq_Inr checkedAdd_props split: if_split_asm)
  have off: "off = ptr + o1" using checkedAlign_shift [OF pa mp run(3) lay(3)] .
  have "pa dvd off" using checkedAlign_props(1) [OF run(3) is_alignment_pos [OF pa]] .
  then have "arm_fits r arm off (ptr + z)"
    using lay(1,2) t off \<open>o1 + pz \<le> z\<close> by (auto simp: arm_fits_def arm_def)
  from disc_payload_stored [OF ok IH run(1,4) this _ own] off \<open>1 \<le> o1\<close>
  have "stored owned {ptr..<ptr + z} s s' (\<lambda>m. (ptr + 1 \<le> length m \<and> slice_of m ptr 1 = le_bytes 1 (unat w1)) \<and>
    (\<forall>x. reload_arm rl r arm v = Some x \<longrightarrow> load_arm (ld m) off arm r = Inr x))"
    by simp
  then show ?thesis
  proof (rule stored_weaken [OF _ order_refl], elim conjE, intro allI impI)
    fix m w assume m: "ptr + 1 \<le> length m" "slice_of m ptr 1 = le_bytes 1 (unat w1)"
      "\<forall>x. reload_arm rl r arm v = Some x \<longrightarrow> load_arm (ld m) off arm r = Inr x"
      and w: "(if v = VNil then Some VNil else reload_ref rl r elem v) = Some w"
    have "loadInt m ptr 1 False = Inr (VU32 w1)" using loadInt_bytes(1) [OF m(1,2)] by (simp add: w1_def)
    then show "loadOption (ld m) m ptr t r = Inr w"
      using w m(3) run(2,3) lay(2) t
      by (auto simp: loadOption_def assert_u32_def w1_def arm_def reload_arm_def load_arm_def split: if_split_asm)
  qed
qed

lemma arms_alignment_result:
  assumes "arms_alignment okr errr r = Inr m" "alignmentResult (\<lambda>t. Alignment t r) r okr errr = Inr a"
  shows "m dvd a" "is_alignment m"
    and "x \<in> {okr, errr} \<Longrightarrow> x = Some ref \<Longrightarrow> resolveType (Some ref) r = Inr t \<Longrightarrow>
      \<exists>pa. Alignment t r = Inr pa \<and> pa dvd m"
proof -
  let ?al = "\<lambda>t. Alignment t r"
  obtain m1 where j: "join_arm_alignment ?al r okr 1 = Inr m1" "join_arm_alignment ?al r errr m1 = Inr m"
    using assms(1) by (auto simp: arms_alignment_def rbind_eq_Inr)
  have step: "k \<le> k' \<and> is_alignment k' \<and> (\<forall>ref t. arm = Some ref \<longrightarrow> resolveType (Some ref) r = Inr t \<longrightarrow>
      (\<exists>pa. Alignment t r = Inr pa \<and> pa \<le> k'))"
    if "join_arm_alignment ?al r arm k = Inr k'" "is_alignment k" for arm k k'
    using that by (auto simp: join_arm_alignment_def ref_alignment_def rbind_eq_Inr split: option.split_asm if_split_asm
        dest: Alignment_is)
  have 1: "is_alignment m1" "1 \<le> m1" using step [OF j(1)] by simp_all
  show m: "is_alignment m" using step [OF j(2) 1(1)] by simp
  have "m1 \<le> m" using step [OF j(2) 1(1)] by simp
  have "a = max 1 m" using assms(2) j by (auto simp: alignmentResult_def max_def split: if_split_asm)
  then show "m dvd a" using \<open>m1 \<le> m\<close> 1(2) by simp
  assume x: "x \<in> {okr, errr}" "x = Some ref" "resolveType (Some ref) r = Inr t"
  obtain pa where "Alignment t r = Inr pa" "pa \<le> m"
    using step [OF j(1)] step [OF j(2) 1(1)] x \<open>m1 \<le> m\<close> by fastforce
  then show "\<exists>pa. Alignment t r = Inr pa \<and> pa dvd m"
    using is_alignment_dvd [OF Alignment_is m] by blast
qed

lemma join_arm_size_ge:
  assumes "join_arm_size al sz r arm (s, k) = Inr (s', k')"
  shows "s \<le> s' \<and> (\<forall>ref t. arm = Some ref \<longrightarrow> resolveType (Some ref) r = Inr t \<longrightarrow> (\<exists>z. sz t = Inr z \<and> z \<le> s'))"
  using assms by (auto simp: join_arm_size_def rbind_eq_Inr split: option.split_asm if_split_asm)

lemma storeResult_stored:
  assumes ok: "allocator_ok owned realloc" and IH: "stores_ok owned r rec ld rl"
    and st: "storeResult rec ptr v okr errr r s = (Inr u, s')"
    and sz: "Size (Some (ResultDesc okr errr)) r = Inr z" and al: "Alignment (Some (ResultDesc okr errr)) r = Inr a"
    and dvd: "a dvd ptr" and own: "{ptr..<ptr + z} \<subseteq> owned s"
  shows "stored owned {ptr..<ptr + z} s s' (\<lambda>m. \<forall>w.
    (case v of VResult isErr payload \<Rightarrow>
       map_option (VResult isErr) (reload_arm rl r (if isErr then errr else okr) payload) | _ \<Rightarrow> None) = Some w \<longrightarrow>
    loadResult (ld m) m ptr okr errr r = Inr w)"
proof -
  note eq = layout_equations [OF validated [OF sz], unfolded sz al layout_alignment_def layout_size_def Let_def type_desc.case, symmetric]
  obtain isErr payload where v: "v = VResult isErr payload" using st by (auto simp: storeResult_def split: val.splits)
  define arm where "arm = (if isErr then errr else okr)"
  define w1 :: u32 where "w1 = (if isErr then 1 else 0)"
  obtain s1 k off where run: "storeInt ptr (VU32 w1) 1 s = (Inr (), s1)" "checkedAdd ptr 1 = Inr (ptr + 1)"
    "arms_alignment okr errr r = Inr k" "checkedAlign (ptr + 1) k = Inr off" "store_arm rec off arm payload r s1 = (Inr u, s')"
    using st unfolding v storeResult_def w1_def arm_def by (auto simp: sbind_eq_Inr checkedAdd_props)
  note k = arms_alignment_result [OF run(3) eq(1)]
  obtain s2 k2 s3 k3 o1 where lay: "join_arm_size (\<lambda>t. Alignment t r) (\<lambda>t. Size t r) r okr (0, 1) = Inr (s2, k2)"
    "join_arm_size (\<lambda>t. Alignment t r) (\<lambda>t. Size t r) r errr (s2, k2) = Inr (s3, k3)"
    "checkedAlign 1 k3 = Inr o1" "checkedAlign (o1 + s3) (max 1 k3) = Inr z"
    using eq(2) by (auto simp: sizeResult_def rbind_eq_Inr checkedAdd_props)
  have "k3 = k"
    using join_arm_size_alignment [OF lay(1)] join_arm_size_alignment [OF lay(2)] run(3) by (simp add: arms_alignment_def)
  have kp: "k dvd ptr" using k(1) dvd dvd_trans by blast
  have off: "off = ptr + o1" using checkedAlign_shift [OF k(2) kp run(4)] lay(3) \<open>k3 = k\<close> by simp
  have "o1 + s3 \<le> z" using checkedAlign_props(2) [OF lay(4)] by simp
  have "1 \<le> o1" using checkedAlign_props(2) [OF lay(3)] is_alignment_pos [OF k(2)] \<open>k3 = k\<close> by simp
  have kd: "k dvd off" using checkedAlign_props(1) [OF run(4) is_alignment_pos [OF k(2)]] .
  have "arm_fits r arm off (ptr + z)"
    unfolding arm_fits_def
  proof (intro conjI allI impI)
    show "off \<le> ptr + z" using off \<open>o1 + s3 \<le> z\<close> by simp
    fix ref t assume ref: "arm = Some ref" "resolveType (Some ref) r = Inr t"
    have arm: "arm \<in> {okr, errr}" by (simp add: arm_def)
    obtain pz where "Size t r = Inr pz" "pz \<le> s3"
      using join_arm_size_ge [OF lay(1)] join_arm_size_ge [OF lay(2)] arm ref by fastforce
    moreover obtain pa where "Alignment t r = Inr pa" "pa dvd off" using k(3) [OF arm ref] kd dvd_trans by blast
    ultimately show "\<exists>z' a. Size t r = Inr z' \<and> Alignment t r = Inr a \<and> a dvd off \<and> off + z' \<le> ptr + z"
      using off \<open>o1 + s3 \<le> z\<close> by auto
  qed
  from disc_payload_stored [OF ok IH run(1,5) this _ own] off \<open>1 \<le> o1\<close>
  have "stored owned {ptr..<ptr + z} s s' (\<lambda>m. (ptr + 1 \<le> length m \<and> slice_of m ptr 1 = le_bytes 1 (unat w1)) \<and>
    (\<forall>x. reload_arm rl r arm payload = Some x \<longrightarrow> load_arm (ld m) off arm r = Inr x))"
    by simp
  then show ?thesis
  proof (rule stored_weaken [OF _ order_refl], elim conjE, intro allI impI)
    fix m w assume m: "ptr + 1 \<le> length m" "slice_of m ptr 1 = le_bytes 1 (unat w1)"
      "\<forall>x. reload_arm rl r arm payload = Some x \<longrightarrow> load_arm (ld m) off arm r = Inr x"
      and w: "(case v of VResult isErr payload \<Rightarrow>
       map_option (VResult isErr) (reload_arm rl r (if isErr then errr else okr) payload) | _ \<Rightarrow> None) = Some w"
    have "loadInt m ptr 1 False = Inr (VU32 w1)" using loadInt_bytes(1) [OF m(1,2)] by (simp add: w1_def)
    then show "loadResult (ld m) m ptr okr errr r = Inr w"
      using w m(3) run(2-4) by (cases isErr) (auto simp: loadResult_def assert_u32_def w1_def arm_def v)
  qed
qed

subsection \<open>Lists\<close>

text \<open>The elements are stored one after the other; the element size is a multiple of the alignment.\<close>

lemma store_elems_stored:
  assumes IH: "stores_ok owned r rec ld rl" and sz: "Size t r = Inr z" and al: "Alignment t r = Inr a"
    and "store_elems (\<lambda>p. rec p t) z vs p s = (Inr u, s')" "a dvd p" "{p..<p + length vs * z} \<subseteq> owned s"
  shows "stored owned {p..<p + length vs * z} s s' (\<lambda>m. \<forall>ws. those (map (rl t) vs) = Some ws \<longrightarrow>
    load_elems (\<lambda>p. ld m p t) z (length vs) p = Inr ws)"
  using assms(4-6)
proof (induction vs arbitrary: p s)
  case Nil
  then show ?case by (auto intro: stored_refl)
next
  case (Cons v vs)
  have zdvd: "a dvd z" using Size_dvd [OF sz al] .
  obtain s1 where s1: "rec p t v s = (Inr (), s1)"
    "(if vs \<noteq> [] then sbind (slift (checkedAdd p z)) (\<lambda>p'. store_elems (\<lambda>p. rec p t) z vs p') else sret ()) s1 = (Inr u, s')"
    using Cons.prems(1) by (auto simp: sbind_eq_Inr)
  have own: "{p..<p + z} \<union> {p + z..<p + z + length vs * z} \<subseteq> owned s" using Cons.prems(3) by auto
  have 1: "stored owned {p..<p + z} s s1 (\<lambda>m. \<forall>w. rl t v = Some w \<longrightarrow> ld m p t = Inr w)"
    using stores_okD [OF IH s1(1) sz al Cons.prems(2)] own by blast
  show ?case
  proof (cases "vs = []")
    case True
    with s1(2) have "s' = s1" by simp
    with 1 show ?thesis by (auto simp: True elim!: stored_weaken split: option.split_asm)
  next
    case False
    then have st: "store_elems (\<lambda>p. rec p t) z vs (p + z) s1 = (Inr u, s')" "checkedAdd p z = Inr (p + z)"
      using s1(2) by (auto simp: sbind_eq_Inr checkedAdd_props)
    have "a dvd p + z" using Cons.prems(2) zdvd by simp
    from Cons.IH [OF st(1) this] own stored_owned [OF 1]
    have "stored owned {p + z..<p + z + length vs * z} s1 s' (\<lambda>m. \<forall>ws. those (map (rl t) vs) = Some ws \<longrightarrow>
      load_elems (\<lambda>p. ld m p t) z (length vs) (p + z) = Inr ws)" (is ?rest) by blast
    have disj: "{p..<p + z} \<inter> {p + z..<p + z + length vs * z} = {}" by auto
    from stored_seq [OF 1 \<open>?rest\<close> disj own] show ?thesis
      by (rule stored_weaken) (use st(2) False in \<open>auto simp: rbind_eq_Inr split: option.split_asm\<close>)
  qed
qed

lemma stored_length:
  "stored owned P s s' Q \<Longrightarrow>
   stored owned P s s' (\<lambda>m. Q m \<and> length m = length (lin_mem s) \<and> length m \<le> Suc MaxUint32)"
  by (auto simp: stored_def frame_def dest!: same_on_length)

lemma loadListFromRange_elems:
  assumes "Size t r = Inr z" "Alignment t r = Inr a" "n \<le> maxListElements" "n * z \<le> MaxUint32"
    "p + n * z \<le> length m" "a dvd p"
  shows "loadListFromRange rec m p n t r = load_elems (\<lambda>p. rec p t) z n p"
  using assms by (simp add: loadListFromRange_def checkedByteLength_def checkedRange_def Let_def)

lemma allocStoreList_stored:
  assumes ok: "allocator_ok owned realloc" and IH: "stores_ok owned r rec ld rl"
    and st: "allocStoreList rec vs t r realloc s = (Inr (p, n), s')"
  shows "n = length vs \<and> n \<le> MaxUint32 \<and> p \<le> MaxUint32 \<and> stored owned {} s s'
    (\<lambda>m. \<forall>ws. n \<le> maxListElements \<longrightarrow> those (map (rl t) vs) = Some ws \<longrightarrow> loadListFromRange (ld m) m p n t r = Inr ws)"
proof -
  obtain z a where za: "Size t r = Inr z" "Alignment t r = Inr a"
    using st by (auto simp: allocStoreList_def sbind_eq_Inr)
  have a: "0 < a" using is_alignment_pos [OF Alignment_is [OF za(2)]] .
  obtain s1 where run: "length vs \<le> MaxUint32" "length vs * z \<le> MaxUint32"
    "Grow realloc 0 0 a (length vs * z) s = (Inr p, s1)" "a dvd p" "p + length vs * z \<le> length (lin_mem s1)"
    "store_elems (\<lambda>p. rec p t) z vs p s1 = (Inr (), s')" "n = length vs"
    using st za unfolding allocStoreList_def
    by (auto simp: sbind_eq_Inr checkedByteLength_def checkedRange_def Let_def dvd_eq_mod_eq_0 split: if_split_asm)
  note g = Grow_frame [OF ok run(3,2)]
  have "stored owned {p..<p + length vs * z} s1 s' (\<lambda>m. \<forall>ws. those (map (rl t) vs) = Some ws \<longrightarrow>
    load_elems (\<lambda>p. ld m p t) z (length vs) p = Inr ws)"
    using store_elems_stored [OF IH za run(6,4)] g(2) by blast
  from stored_alloc [OF g(1,2) stored_length [OF this]]
  have "stored owned {} s s' (\<lambda>m. \<forall>ws. n \<le> maxListElements \<longrightarrow> those (map (rl t) vs) = Some ws \<longrightarrow>
    loadListFromRange (ld m) m p n t r = Inr ws)"
    by (rule stored_weaken) (use run za in \<open>auto simp: loadListFromRange_elems\<close>)
  moreover have "p \<le> MaxUint32"
    using run(3) u32_le_Max by (auto simp: Grow_def sbind_eq_Inr split: option.splits)
  ultimately show ?thesis using run(1,7) by simp
qed

definition loads_bytes :: "(byte list \<Rightarrow> load_fn) \<Rightarrow> reload_fn \<Rightarrow> bool" where
  "loads_bytes ld rl \<longleftrightarrow> (\<forall>m p w. p < length m \<longrightarrow>
     rl (Some (PrimitiveDesc ''u8'')) (VU32 (ucast (m ! p))) = Some w \<longrightarrow>
     ld m p (Some (PrimitiveDesc ''u8'')) = Inr w)"

lemma load_elems_bytes:
  assumes "loads_bytes ld rl" "p + length b \<le> length m" "slice_of m p (length b) = b" "length m \<le> Suc MaxUint32"
    "those (map (rl (Some (PrimitiveDesc ''u8''))) (map (\<lambda>x. VU32 (ucast x)) b)) = Some ws"
  shows "load_elems (\<lambda>p. ld m p (Some (PrimitiveDesc ''u8''))) 1 (length b) p = Inr ws"
  using assms(2-)
proof (induction b arbitrary: p ws)
  case (Cons x b)
  have x: "m ! p = x" using Cons.prems(1,2) nth_slice_of [of p "length (x # b)" m 0] by simp
  obtain w ws' where w: "rl (Some (PrimitiveDesc ''u8'')) (VU32 (ucast x)) = Some w"
    "those (map (rl (Some (PrimitiveDesc ''u8''))) (map (\<lambda>x. VU32 (ucast x)) b)) = Some ws'" "ws = w # ws'"
    using Cons.prems(4) by (auto split: option.split_asm)
  have ld: "ld m p (Some (PrimitiveDesc ''u8'')) = Inr w"
    using assms(1) w(1) x Cons.prems(1) by (auto simp: loads_bytes_def)
  have "slice_of m (Suc p) (length b) = b"
  proof (rule nth_equalityI)
    fix i assume "i < length (slice_of m (Suc p) (length b))"
    then have i: "i < length b" using Cons.prems(1) by (simp add: length_slice_of)
    then show "slice_of m (Suc p) (length b) ! i = b ! i"
      using Cons.prems(1,2) nth_slice_of [of p "length (x # b)" m "Suc i"] by (simp add: nth_slice_of)
  qed (use Cons.prems(1) in \<open>simp add: length_slice_of\<close>)
  then have rest: "load_elems (\<lambda>p. ld m p (Some (PrimitiveDesc ''u8''))) 1 (length b) (Suc p) = Inr ws'"
    using Cons.IH [of "Suc p" ws'] Cons.prems(1,3) w(2) by simp
  show ?case
  proof (cases "b = []")
    case True
    with ld w show ?thesis by simp
  next
    case False
    then have "checkedAdd p 1 = Inr (Suc p)" using Cons.prems(1,3) by (simp add: checkedAdd_props) (cases b; simp)
    with False ld rest w(3) show ?thesis by simp
  qed
qed simp

lemma allocStoreAnyList_stored:
  assumes ok: "allocator_ok owned realloc" and IH: "stores_ok owned r rec ld rl" and lb: "loads_bytes ld rl"
    and st: "allocStoreAnyList rec v t r realloc s = (Inr (p, n), s')"
  shows "n \<le> MaxUint32 \<and> p \<le> MaxUint32 \<and> stored owned {} s s'
    (\<lambda>m. \<forall>w. reload_list rl t v = Some w \<longrightarrow> (\<exists>ws. w = VList ws \<and> loadListFromRange (ld m) m p n t r = Inr ws))"
proof (cases "byteListValue v t")
  case (Some b)
  then have v: "v = VBytes b" and t: "t = Some (PrimitiveDesc ''u8'')"
    by (auto simp: byteListValue_def split: val.splits if_split_asm)
  have ac: "alloc_copy b realloc s = (Inr (p, n), s')"
    using st Some by (simp add: allocStoreAnyList_def allocStoreBytes_def)
  note c = alloc_copy_stored [OF ok ac]
  have za: "Size t r = Inr 1" "Alignment t r = Inr 1"
    by (simp_all add: t Size_def Alignment_def validateLayoutType_def validateLayoutDesc.simps maxLayoutTypeDepth_def
        layout_fuel_def layout_numeral_fuel)
  have "stored owned {} s s' (\<lambda>m. (p + n \<le> length m \<and> slice_of m p n = take n b) \<and> length m = length (lin_mem s) \<and>
     length m \<le> Suc MaxUint32)"
    using stored_length c by blast
  then have "stored owned {} s s'
    (\<lambda>m. \<forall>w. reload_list rl t v = Some w \<longrightarrow> (\<exists>ws. w = VList ws \<and> loadListFromRange (ld m) m p n t r = Inr ws))"
  proof (rule stored_weaken [OF _ order_refl], intro allI impI)
    fix m w assume m: "(p + n \<le> length m \<and> slice_of m p n = take n b) \<and> length m = length (lin_mem s) \<and>
        length m \<le> Suc MaxUint32"
      and w: "reload_list rl t v = Some w"
    from w obtain ws where ws: "length b \<le> maxListElements" "w = VList ws"
      "those (map (rl t) (map (\<lambda>x. VU32 (ucast x)) b)) = Some ws"
      by (auto simp: reload_list_def v split: if_split_asm)
    then have n: "n = length b" using c by (simp add: maxListElements_def)
    then have "load_elems (\<lambda>p. ld m p t) 1 n p = Inr ws"
      using load_elems_bytes [OF lb] m ws(3) unfolding t by simp
    then show "\<exists>ws. w = VList ws \<and> loadListFromRange (ld m) m p n t r = Inr ws"
      using m ws n za c by (subst loadListFromRange_elems [OF za]) (auto simp: maxListElements_def MaxUint32_def)
  qed
  then show ?thesis using c by (simp add: MaxUint32_def)
next
  case None
  then obtain vs where v: "v = VList vs" and al: "allocStoreList rec vs t r realloc s = (Inr (p, n), s')"
    using st by (auto simp: allocStoreAnyList_def sbind_eq_Inr expect_list_def split: val.splits)
  note c = allocStoreList_stored [OF ok IH al]
  then have "stored owned {} s s'
    (\<lambda>m. \<forall>w. reload_list rl t v = Some w \<longrightarrow> (\<exists>ws. w = VList ws \<and> loadListFromRange (ld m) m p n t r = Inr ws))"
    by (elim conjE stored_weaken) (auto simp: reload_list_def v split: if_split_asm)
  with c show ?thesis by simp
qed

lemma storeList_stored:
  assumes ok: "allocator_ok owned realloc" and IH: "stores_ok owned r rec ld rl" and lb: "loads_bytes ld rl"
    and st: "storeList rec ptr v t r realloc s = (Inr u, s')" and own: "{ptr..<ptr + 8} \<subseteq> owned s"
  shows "stored owned {ptr..<ptr + 8} s s' (\<lambda>m. \<forall>w. reload_list rl t v = Some w \<longrightarrow> loadList (ld m) m ptr t r = Inr w)"
proof -
  obtain p n s1 where a: "allocStoreAnyList rec v t r realloc s = (Inr (p, n), s1)" "store_pair ptr (p, n) s1 = (Inr (), s')"
    using st by (auto simp: storeList_def sbind_eq_Inr)
  note c = allocStoreAnyList_stored [OF ok IH lb a(1)]
  have "owned s \<subseteq> owned s1" using c stored_owned by blast
  then have "stored owned {ptr..<ptr + 8} s1 s' (\<lambda>m. ptr + 8 \<le> length m \<and> ptr + 4 \<le> MaxUint32 \<and>
     slice_of m ptr 4 = le_bytes 4 p \<and> slice_of m (ptr + 4) 4 = le_bytes 4 n)"
    using own c by (intro stored_pair [OF ok _ a(2)]) auto
  from stored_then_region [OF _ this own] c
  have "stored owned {ptr..<ptr + 8} s s' (\<lambda>m. (\<forall>w. reload_list rl t v = Some w \<longrightarrow>
       (\<exists>ws. w = VList ws \<and> loadListFromRange (ld m) m p n t r = Inr ws)) \<and>
     ptr + 8 \<le> length m \<and> ptr + 4 \<le> MaxUint32 \<and> slice_of m ptr 4 = le_bytes 4 p \<and> slice_of m (ptr + 4) 4 = le_bytes 4 n)"
    by blast
  then show ?thesis
  proof (rule stored_weaken [OF _ order_refl], elim conjE, intro allI impI)
    fix m w assume m: "ptr + 8 \<le> length m" "ptr + 4 \<le> MaxUint32" "slice_of m ptr 4 = le_bytes 4 p"
      "slice_of m (ptr + 4) 4 = le_bytes 4 n" "reload_list rl t v = Some w"
      "\<forall>w. reload_list rl t v = Some w \<longrightarrow> (\<exists>ws. w = VList ws \<and> loadListFromRange (ld m) m p n t r = Inr ws)"
    then obtain ws where "w = VList ws" "loadListFromRange (ld m) m p n t r = Inr ws" by blast
    moreover have "loadInt m ptr 4 False = Inr (VU32 (word_of_nat p))" "loadInt m (ptr + 4) 4 False = Inr (VU32 (word_of_nat n))"
      using loadInt_bytes(5) [of ptr 4 m p] loadInt_bytes(5) [of "ptr + 4" 4 m n] m by simp_all
    moreover have "unat (word_of_nat p :: u32) = p" "unat (word_of_nat n :: u32) = n"
      using c by (simp_all add: unat_of_nat MaxUint32_def)
    ultimately show "loadList (ld m) m ptr t r = Inr w"
      using m(2) by (simp add: loadList_def checkedAdd_def Let_def assert_u32_def)
  qed
qed

subsection \<open>All types\<close>

lemma loads_bytes_loadValue: "loads_bytes (\<lambda>m. loadValue n m r) (reload n r)"
proof (cases n)
  case (Suc k)
  have "loadInt m p 1 False = Inr (VU32 (ucast (m ! p)))" if "p < length m" for m :: "byte list" and p
  proof -
    have "slice_of m p 1 = [m ! p]" using that by (simp add: slice_of_def take_Suc_conv_app_nth)
    then show ?thesis using that by (simp add: loadInt_eq checkedRange_def Let_def)
  qed
  moreover have "ucast (ucast b :: u32) = b" for b :: byte
    by (rule bit_word_eqI) (auto simp: bit_ucast_iff)
  ultimately show ?thesis by (auto simp: loads_bytes_def Suc reload_prim_def)
qed (simp add: loads_bytes_def)

lemma flags_size:
  assumes "sizeFlagsNumLabels n = Inr d" "ptr + d \<le> length m" "slice_of m ptr d = le_bytes d (unat w)"
  shows "loadInt m ptr d False = Inr (VU32 (flags_value n w))"
  using assms by (auto simp: sizeFlagsNumLabels_def flags_value_def loadInt_bytes(1,3,5) split: if_split_asm)

lemma storeValue_stored:
  assumes ok: "allocator_ok owned realloc"
  shows "stores_ok owned r (storeValue n r realloc) (\<lambda>m. loadValue n m r) (reload n r)"
proof (induction n)
  case (Suc n)
  show ?case
    unfolding stores_ok_def
  proof (intro allI impI)
    fix ptr t v s u s' z a
    assume st: "storeValue (Suc n) r realloc ptr t v s = (Inr u, s')" and sz: "Size t r = Inr z"
      and al: "Alignment t r = Inr a" "a dvd ptr" and own: "{ptr..<ptr + z} \<subseteq> owned s"
    have lb: "loads_bytes (\<lambda>m. loadValue n m r) (reload n r)" by (rule loads_bytes_loadValue)
    have valid: "validateLayoutType t r = Inr ()" using sz by (rule validated)
    have handle: "stored owned {ptr..<ptr + 4} s s' (\<lambda>m. \<forall>w. (case v of VU32 w \<Rightarrow> Some (VU32 w) | _ \<Rightarrow> None) = Some w \<longrightarrow>
        loadInt m ptr 4 False = Inr w)"
      if h: "sbind (slift (expect_u32 v)) (\<lambda>h. storeInt ptr (VU32 h) 4) s = (Inr u, s')"
    proof -
      obtain h where "v = VU32 h" "storeInt ptr (VU32 h) 4 s = (Inr u, s')"
        using h by (auto simp: sbind_eq_Inr expect_u32_def split: val.splits)
      then show ?thesis by (intro scalar_stored [OF ok]) (auto simp: loadInt_bytes(5))
    qed
    show "stored owned {ptr..<ptr + z} s s' (\<lambda>m. \<forall>w. reload (Suc n) r t v = Some w \<longrightarrow> loadValue (Suc n) m r ptr t = Inr w)"
    proof (cases t)
      case (Some d)
      note eq = layout_equations [OF valid [unfolded Some], unfolded layout_size_def Let_def]
      show ?thesis
      proof (cases d)
        case (PrimitiveDesc p)
        then show ?thesis
          using storePrimitive_stored [OF ok, of ptr p v s u s' z] st sz own eq(2) Some by simp
      next
        case (RecordDesc fs)
        then show ?thesis
          using storeRecord_stored [OF Suc.IH, of ptr v fs s u s' z a] st sz own al Some by simp
      next
        case (VariantDesc cs)
        then show ?thesis
          using storeVariant_stored [OF ok Suc.IH, of n ptr v cs s u s' z a] st sz own al Some by simp
      next
        case (ListDesc e)
        then obtain te where te: "resolveType (Some e) r = Inr te" "storeList (storeValue n r realloc) ptr v te r realloc s = (Inr u, s')"
          using st Some by (auto simp: sbind_eq_Inr)
        have "z = 8" using eq(2) sz Some ListDesc by simp
        then show ?thesis
          using storeList_stored [OF ok Suc.IH lb te(2)] own te(1) Some ListDesc by simp
      next
        case (TupleDesc es)
        then show ?thesis
          using storeTuple_stored [OF Suc.IH, of ptr v es s u s' z a] st sz own al Some by simp
      next
        case (FlagsDesc names)
        then obtain w where w: "v = VU32 w" "sizeFlagsNumLabels (length names) = Inr z" "storeInt ptr (VU32 w) z s = (Inr u, s')"
          using st Some sz eq(2) by (auto simp: storeFlags_def sbind_eq_Inr expect_u32_def split: val.splits)
        show ?thesis
          by (rule scalar_stored [OF ok w(3)])
             (use w flags_size [OF w(2)] Some FlagsDesc in \<open>auto simp: loadFlags_def\<close>)
      next
        case (EnumDesc cs)
        then obtain w where w: "v = VU32 w" "sizeEnumNumCases (length cs) = Inr z" "storeInt ptr (VU32 w) z s = (Inr u, s')"
          "unat w < length cs"
          using st Some sz eq(2) by (auto simp: storeEnum_def sbind_eq_Inr expect_u32_def split: val.splits if_split_asm)
        have d: "sizePrimitive (DiscriminantType (length cs)) = Inr z"
          using w(2) by (auto simp: sizeEnumNumCases_def Let_def split: if_split_asm)
        show ?thesis
          by (rule scalar_stored [OF ok w(3)])
             (use w loadInt_disc [OF d w(4)] Some EnumDesc in \<open>auto simp: loadEnum_def assert_u32_def\<close>)
      next
        case (OptionDesc e)
        then obtain te where te: "resolveType (Some e) r = Inr te" "storeOption (storeValue n r realloc) ptr v te r s = (Inr u, s')"
          using st Some by (auto simp: sbind_eq_Inr)
        then show ?thesis
          using storeOption_stored [OF ok Suc.IH te(1,2), of z a] sz own al Some OptionDesc by simp
      next
        case (ResultDesc x y)
        then show ?thesis
          using storeResult_stored [OF ok Suc.IH, of ptr v x y s u s' z a] st sz own al Some by simp
      qed (use st sz Some eq(2) handle in simp_all)
    qed (use st in simp)
  qed
qed (simp add: stores_ok_def)

subsection \<open>No panics\<close>

definition no_panic :: "abi_error + 'a \<Rightarrow> bool" where
  "no_panic m \<longleftrightarrow> (\<forall>msg. m \<noteq> Inl (Panic msg))"

named_theorems panic_free \<open>operations that never panic\<close>

lemma no_panic_result [simp]: "no_panic (Inr x)" "no_panic (Inl e) \<longleftrightarrow> (\<forall>msg. e \<noteq> Panic msg)"
  by (simp_all add: no_panic_def)

lemma no_panic_rbind [panic_free]:
  "no_panic m \<Longrightarrow> (\<And>x. m = Inr x \<Longrightarrow> no_panic (f x)) \<Longrightarrow> no_panic (rbind m f)"
  by (cases m) auto

lemma no_panic_option [panic_free]:
  "no_panic a \<Longrightarrow> (\<And>y. x = Some y \<Longrightarrow> no_panic (f y)) \<Longrightarrow> no_panic (case x of None \<Rightarrow> a | Some y \<Rightarrow> f y)"
  by (cases x) auto

lemma no_panic_if [panic_free]:
  "(c \<Longrightarrow> no_panic a) \<Longrightarrow> (\<not> c \<Longrightarrow> no_panic b) \<Longrightarrow> no_panic (if c then a else b)"
  by simp

lemma no_panic_foldE [panic_free]:
  "(\<And>a x. x \<in> set xs \<Longrightarrow> no_panic (f a x)) \<Longrightarrow> no_panic (foldE f acc xs)"
  unfolding no_panic_def by (meson foldE_error)

lemma no_panic_forE [panic_free]: "(\<And>x. x \<in> set xs \<Longrightarrow> no_panic (f x)) \<Longrightarrow> no_panic (forE f xs)"
  unfolding forE_def by (rule no_panic_foldE)

lemma no_panic_prod [panic_free]:
  "(\<And>a b. x = (a, b) \<Longrightarrow> no_panic (f a b)) \<Longrightarrow> no_panic (case x of (a, b) \<Rightarrow> f a b)"
  by (cases x) auto

lemma no_panic_layout_basic [simp]:
  "no_panic (resolveType ref r)" "no_panic (checkedAlign a b)" "no_panic (checkedAdd a b)"
  "no_panic (checkedByteLength a b)" "no_panic (checkedRange a b c)"
  "no_panic (alignmentPrimitive p)" "no_panic (sizePrimitive p)" "no_panic (alignmentFlagsNumLabels n)"
  "no_panic (sizeFlagsNumLabels n)" "no_panic (alignmentEnum ns)" "no_panic (sizeEnumNumCases n)"
  unfolding resolveType_def checkedAlign_def checkedAdd_def checkedByteLength_def checkedRange_def
    alignmentEnum_def sizeEnumNumCases_def alignmentPrimitive_def sizePrimitive_def
    alignmentFlagsNumLabels_def sizeFlagsNumLabels_def Let_def
  by (intro panic_free; simp del: insert_iff)+

lemma no_panic_alignment:
  assumes "\<And>t. no_panic (al t)"
  shows "no_panic (MaxCaseAlignment al r cs)" "no_panic (alignmentRecord al r fs)" "no_panic (alignmentTuple al r es)"
    "no_panic (alignmentOption al r e)" "no_panic (join_arm_alignment al r a m)" "no_panic (alignmentResult al r a b)"
    "no_panic (alignmentVariant al r cs)"
  unfolding MaxCaseAlignment_def alignmentRecord_def alignmentTuple_def alignmentOption_def
    join_arm_alignment_def alignmentResult_def alignmentVariant_def ref_alignment_def Let_def
  by (intro panic_free; simp add: assms)+

lemma no_panic_alignmentUnchecked: "no_panic (alignmentUnchecked n r t)"
proof (induction n arbitrary: t)
  case (Suc n)
  show ?case
  proof (cases t)
    case (Some d)
    then show ?thesis by (cases d) (simp_all add: no_panic_alignment [OF Suc])
  qed simp
qed simp

lemma no_panic_size:
  assumes "\<And>t. no_panic (al t)" "\<And>t. no_panic (sz t)"
  shows "no_panic (sizeVariant al sz r cs)" "no_panic (sizeRecord al sz r fs)" "no_panic (sizeTuple al sz r es)"
    "no_panic (sizeOption al sz r e)" "no_panic (join_arm_size al sz r a m)" "no_panic (sizeResult al sz r a b)"
  unfolding sizeVariant_def sizeRecord_def sizeTuple_def sizeOption_def join_arm_size_def sizeResult_def
    size_field_def Let_def
  by (intro panic_free; simp add: assms no_panic_alignment)+

lemma no_panic_sizeUnchecked: "no_panic (sizeUnchecked n r t)"
proof (induction n arbitrary: t)
  case (Suc n)
  show ?case
  proof (cases t)
    case (Some d)
    then show ?thesis by (cases d) (simp_all add: no_panic_size [OF no_panic_alignmentUnchecked Suc])
  qed simp
qed simp

lemma no_panic_validate: "no_panic (validateLayoutDesc t r depth vis)"
proof (induction t r depth vis rule: validateLayoutDesc.induct)
  case (1 t r depth vis)
  show ?case
  proof (cases "depth > maxLayoutTypeDepth")
    case True
    then show ?thesis by (subst validateLayoutDesc.simps) simp
  next
    case False
    have vref: "no_panic (validateRef (\<lambda>d vis. validateLayoutDesc d r (depth + 1) vis) r vis ref)" for ref
      unfolding validateRef_def using 1 [OF False] by (intro panic_free; simp)
    show ?thesis
    proof (cases t)
      case (Some d)
      show ?thesis
        unfolding Some by (subst validateLayoutDesc.simps, cases d)
          (simp_all add: Let_def False, ((intro panic_free)?; simp add: vref [simplified])+)
    qed (subst validateLayoutDesc.simps, simp)
  qed
qed

lemma no_panic_layout [simp]: "no_panic (Alignment t r)" "no_panic (Size t r)"
  unfolding Alignment_def Size_def validateLayoutType_def
  by (intro panic_free; simp add: no_panic_validate no_panic_alignmentUnchecked no_panic_sizeUnchecked)+

lemma loadInt_type:
  "loadInt m p n False = Inr v \<Longrightarrow> n \<in> {1, 2, 4} \<Longrightarrow> \<exists>w. v = VU32 w"
  "loadInt m p 8 False = Inr v \<Longrightarrow> \<exists>w. v = VU64 w"
  by (auto simp: loadInt_eq rbind_eq_Inr Let_def)

lemma no_panic_loadInt [simp]: "no_panic (loadInt m p n sg)"
  unfolding loadInt_eq Let_def by (intro panic_free) simp_all

lemma no_panic_u32: "n \<in> {1, 2, 4} \<Longrightarrow> loadInt m p n False = Inr v \<Longrightarrow> no_panic (assert_u32 v)"
  using loadInt_type(1) [of m p n v] by (auto simp: assert_u32_def)

lemma no_panic_loadString [simp]: "no_panic (loadString m p)"
  unfolding loadString_def readU32LE_eq loadStringFromRange_eq Let_def
  by (intro panic_free; simp)

lemma no_panic_prim [simp]: "no_panic (loadPrimitive m p q)"
  unfolding loadPrimitive_def char_check_def
  by (intro panic_free; (simp; fail)?)
     (auto dest: loadInt_type(2) simp: assert_u64_def intro: no_panic_u32 [rotated])

lemma no_panic_elems:
  "(\<And>p. no_panic (ld p)) \<Longrightarrow> no_panic (load_elems ld z k p)"
  by (induction k arbitrary: p) (simp, (subst load_elems.simps, intro panic_free; simp))

lemma no_panic_members:
  "(\<And>p t. no_panic (rec p t)) \<Longrightarrow> no_panic (load_members rec r refs p)"
  by (induction refs arbitrary: p) (simp, (subst load_members.simps, intro panic_free; simp))

lemma no_panic_load_arm: "(\<And>p t. no_panic (rec p t)) \<Longrightarrow> no_panic (load_arm rec p arm r)"
  unfolding load_arm_def by (intro panic_free; simp)

lemma disc_sizes: "sizePrimitive (DiscriminantType n) = Inr d \<Longrightarrow> d \<in> {1, 2, 4}"
  by (cases rule: DiscriminantType_cases [of n]) auto

lemma no_panic_loadList:
  assumes "\<And>p t. no_panic (rec p t)"
  shows "no_panic (loadListFromRange rec m p n t r)" "no_panic (loadList rec m p t r)"
proof -
  show range: "no_panic (loadListFromRange rec m p n t r)" for p n
    unfolding loadListFromRange_def by (intro panic_free no_panic_elems; simp add: assms)
  show "no_panic (loadList rec m p t r)"
    unfolding loadList_def
    by (intro panic_free range; (simp; fail)?) (auto intro: no_panic_u32 [rotated])
qed

lemma no_panic_compound:
  assumes "\<And>p t. no_panic (rec p t)" "\<And>t. no_panic (al t)"
  shows "no_panic (loadRecord rec p fs r)" "no_panic (loadTuple rec p es r)"
    "no_panic (loadVariant rec al m p cs r)" "no_panic (loadFlags m p ns)" "no_panic (loadEnum m p ns)"
    "no_panic (loadOption rec m p t r)" "no_panic (loadResult rec m p a b r)"
proof -
  show "no_panic (loadRecord rec p fs r)" "no_panic (loadTuple rec p es r)"
    unfolding loadRecord_def loadTuple_def by (intro panic_free no_panic_members; simp add: assms)+
  show "no_panic (loadVariant rec al m p cs r)"
    unfolding loadVariant_eq
    by (intro panic_free no_panic_load_arm; (simp add: assms no_panic_alignment; fail)?) (meson disc_sizes no_panic_u32)
  show "no_panic (loadFlags m p ns)" unfolding loadFlags_def by (intro panic_free; simp)
  show "no_panic (loadEnum m p ns)"
    unfolding loadEnum_def
    by (intro panic_free; (simp; fail)?)
       (metis disc_sizes no_panic_u32 sizeEnumNumCases_def sum.distinct(1))
  show "no_panic (loadOption rec m p t r)"
    unfolding loadOption_def by (intro panic_free; (simp add: assms; fail)?) (auto intro: no_panic_u32 [rotated])
  show "no_panic (loadResult rec m p a b r)"
    unfolding loadResult_def arms_alignment_def
    by (intro panic_free no_panic_load_arm; (simp add: assms no_panic_alignment; fail)?) (auto intro: no_panic_u32 [rotated])
qed

lemma no_panic_loadValue: "no_panic (loadValue n m r p t)"
proof (induction n arbitrary: p t)
  case (Suc n)
  note c = no_panic_compound [OF Suc no_panic_alignmentUnchecked] no_panic_loadList [OF Suc]
  show ?case
  proof (cases t)
    case (Some d)
    then show ?thesis by (cases d) (simp_all add: c no_panic_rbind)
  qed simp
qed simp

subsection \<open>Values that come back unchanged\<close>

text \<open>
  \<open>canonical n r t v\<close>: \<open>v\<close> is the host representation of a value of type \<open>t\<close>, in the form loading
  yields it. An \<open>s8\<close> that is not negative is not canonical: loading yields it with another Go type
  than storing accepts.
\<close>

definition canonical_prim :: "string \<Rightarrow> val \<Rightarrow> bool" where
  "canonical_prim p v = (case v of
      VBool _ \<Rightarrow> p = ''bool''
    | VU32 w \<Rightarrow> (if p = ''u8'' then unat w < 256 else if p = ''u16'' then unat w < 65536
                else p \<in> {''u32'', ''error-context''})
    | VI32 w \<Rightarrow> (if p = ''s8'' then - 128 \<le> sint w \<and> sint w < 0
                else if p = ''s16'' then - 32768 \<le> sint w \<and> sint w < 32768
                else p = ''s32'' \<or> p = ''char'' \<and> char_check w = Inr ())
    | VU64 _ \<Rightarrow> p = ''u64'' | VI64 _ \<Rightarrow> p = ''s64'' | VF32 _ \<Rightarrow> p = ''f32'' | VF64 _ \<Rightarrow> p = ''f64''
    | VString b \<Rightarrow> p = ''string'' \<and> utf8_valid b \<and> length b \<le> MaxUint32
    | _ \<Rightarrow> False)"

definition canonical_ref :: "(type_desc option \<Rightarrow> val \<Rightarrow> bool) \<Rightarrow> resolver \<Rightarrow> type_ref \<Rightarrow> val \<Rightarrow> bool" where
  "canonical_ref rec resolve ref v = (case resolveType (Some ref) resolve of Inl _ \<Rightarrow> False | Inr t \<Rightarrow> rec t v)"

definition canonical_arm :: "(type_desc option \<Rightarrow> val \<Rightarrow> bool) \<Rightarrow> resolver \<Rightarrow> type_ref option \<Rightarrow> val \<Rightarrow> bool" where
  "canonical_arm rec resolve arm v = (case arm of None \<Rightarrow> v = VNil | Some ref \<Rightarrow> canonical_ref rec resolve ref v)"

primrec canonical :: "nat \<Rightarrow> resolver \<Rightarrow> type_desc option \<Rightarrow> val \<Rightarrow> bool" where
  "canonical 0 resolve t v = False"
| "canonical (Suc fuel) resolve t v =
     (let rec = canonical fuel resolve
      in case t of None \<Rightarrow> False
      | Some desc \<Rightarrow>
          (case desc of
             PrimitiveDesc p \<Rightarrow> canonical_prim p v
           | ListDesc elem \<Rightarrow>
               (case v of VList vs \<Rightarrow> length vs \<le> maxListElements \<and>
                    (case resolveType (Some elem) resolve of Inl _ \<Rightarrow> False | Inr t \<Rightarrow> list_all (rec t) vs)
                | _ \<Rightarrow> False)
           | RecordDesc fs \<Rightarrow>
               (case v of VList vs \<Rightarrow> list_all2 (canonical_ref rec resolve) (map FieldType fs) vs | _ \<Rightarrow> False)
           | TupleDesc elems \<Rightarrow>
               (case v of VList vs \<Rightarrow> list_all2 (canonical_ref rec resolve) elems vs | _ \<Rightarrow> False)
           | VariantDesc cs \<Rightarrow>
               (case v of VVariant disc payload \<Rightarrow>
                  unat disc < length cs \<and> canonical_arm rec resolve (CaseType (cs ! unat disc)) payload | _ \<Rightarrow> False)
           | FlagsDesc names \<Rightarrow>
               (case v of VU32 w \<Rightarrow> flags_value (length names) w = w | _ \<Rightarrow> False)
           | EnumDesc cs \<Rightarrow> (case v of VU32 w \<Rightarrow> unat w < length cs | _ \<Rightarrow> False)
           | OptionDesc elem \<Rightarrow> v = VNil \<or> canonical_ref rec resolve elem v
           | ResultDesc okr errr \<Rightarrow>
               (case v of VResult isErr payload \<Rightarrow> canonical_arm rec resolve (if isErr then errr else okr) payload
                | _ \<Rightarrow> False)
           | OwnDesc _ \<Rightarrow> (case v of VU32 w \<Rightarrow> True | _ \<Rightarrow> False)
           | BorrowDesc _ \<Rightarrow> (case v of VU32 w \<Rightarrow> True | _ \<Rightarrow> False)
           | StreamDesc _ \<Rightarrow> (case v of VU32 w \<Rightarrow> True | _ \<Rightarrow> False)
           | FutureDesc _ \<Rightarrow> (case v of VU32 w \<Rightarrow> True | _ \<Rightarrow> False)
           | _ \<Rightarrow> False))"

lemma ucast_narrow:
  "unat (w :: u32) < 256 \<Longrightarrow> ucast (ucast w :: byte) = w" "unat w < 65536 \<Longrightarrow> ucast (ucast w :: 16 word) = w"
  by (simp_all add: word_unat_eq_iff unsigned_ucast_eq take_bit_eq_mod unat_mod_distrib)

lemma sint_signed_take_bit:
  "sint (scast (ucast (w :: u32) :: byte) :: u32) = signed_take_bit 7 (sint w)"
  "sint (scast (ucast (w :: u32) :: 16 word) :: u32) = signed_take_bit 15 (sint w)"
  by (rule bit_eqI, auto simp: bit_simps min_def)+

lemma sint_inj: "sint v = sint w \<Longrightarrow> v = w"
  by (rule signed_word_eqI)

lemma scast_narrow:
  "- 128 \<le> sint (w :: u32) \<Longrightarrow> sint w < 128 \<Longrightarrow> scast (ucast w :: byte) = w"
  "- 32768 \<le> sint w \<Longrightarrow> sint w < 32768 \<Longrightarrow> scast (ucast w :: 16 word) = w"
  by (rule sint_inj; simp add: sint_signed_take_bit signed_take_bit_int_eq_self)+

lemma sign_bit_narrow:
  assumes "- 128 \<le> sint (w :: u32)" "sint w < 0"
  shows "bit (ucast w :: byte) 7"
  using sint_range_bits [of 7 w 7] assms by (simp add: bit_ucast_iff)

lemma canonical_prim_reload: "canonical_prim p v \<Longrightarrow> reload_prim p v = Some v"
  by (cases v) (simp_all add: canonical_prim_def reload_prim_def ucast_narrow scast_narrow sign_bit_narrow
      split: if_split_asm)

lemma canonical_members_reload:
  assumes "\<And>t v. can t v \<Longrightarrow> rl t v = Some v"
  shows "list_all2 (canonical_ref can r) refs vs \<Longrightarrow> reload_members rl r refs vs = Some vs"
  by (induction refs vs rule: list_all2_induct)
     (auto simp: canonical_ref_def reload_ref_def assms split: sum.splits)

lemma canonical_arm_reload:
  assumes "\<And>t v. can t v \<Longrightarrow> rl t v = Some v"
  shows "canonical_arm can r arm v \<Longrightarrow> reload_arm rl r arm v = Some v"
  by (cases arm) (auto simp: canonical_arm_def reload_arm_def canonical_ref_def reload_ref_def assms split: sum.splits)

lemma canonical_list_reload:
  assumes "\<And>t v. can t v \<Longrightarrow> rl t v = Some v"
  shows "list_all (can t) vs \<Longrightarrow> those (map (rl t) vs) = Some vs"
  by (induction vs) (auto simp: assms)

lemma canonical_reload: "canonical n r t v \<Longrightarrow> reload n r t v = Some v"
proof (induction n arbitrary: t v)
  case (Suc n)
  note sub = canonical_members_reload [OF Suc.IH] canonical_arm_reload [OF Suc.IH] canonical_list_reload [where can = "canonical n r" and rl = "reload n r", OF Suc.IH]
  from Suc.prems obtain d where t: "t = Some d" by (cases t) auto
  show ?case
    using Suc.prems unfolding t
    by (cases d; cases v)
       (auto simp: canonical_prim_reload sub map_VList_def reload_list_def canonical_ref_def reload_ref_def Suc.IH
         simp del: insert_iff split: sum.splits)
qed simp

subsection \<open>Properties\<close>

text \<open>A bump allocator, for the examples: \<open>guest\<close> is the next free address.\<close>

definition round_up :: "nat \<Rightarrow> nat \<Rightarrow> nat" where
  "round_up a n = (n + (a - 1)) div a * a"

definition bump_alloc :: "u32 \<Rightarrow> u32 \<Rightarrow> u32 \<Rightarrow> u32 \<Rightarrow> (nat, u32) mop" where
  "bump_alloc origPtr origSize align newSize s =
     (let a = unat align; p = round_up a (guest s)
      in if a = 0 \<or> p + unat newSize > length (lin_mem s) \<or> p + unat newSize > MaxUint32
         then (Inl (ReallocFailed ''out of memory''), s)
         else (Inr (word_of_nat p), s\<lparr>guest := p + unat newSize\<rparr>))"

definition bump_owned :: "nat mstate \<Rightarrow> nat set" where
  "bump_owned s = {0..<guest s}"

lemma round_up_ge: "0 < a \<Longrightarrow> n \<le> round_up a n"
  using dividend_less_div_times [of a "n + (a - 1)"] by (simp add: round_up_def)

lemma bump_alloc_ok: "allocator_ok bump_owned (Some bump_alloc)"
  unfolding allocator_ok_def
proof (intro conjI allI impI)
  fix s :: "nat mstate" and m
  show "bump_owned (s\<lparr>lin_mem := m\<rparr>) = bump_owned s" by (simp add: bump_owned_def)
next
  fix call al n s p and s' :: "nat mstate"
  assume call: "Some bump_alloc = Some call" "call 0 0 al n s = (Inr p, s')"
  define q where "q = round_up (unat al) (guest s)"
  from call have q: "unat al \<noteq> 0" "q + unat n \<le> MaxUint32" "p = word_of_nat q" "s' = s\<lparr>guest := q + unat n\<rparr>"
    by (auto simp: bump_alloc_def Let_def q_def [symmetric] split: if_split_asm)
  then have p: "unat p = q" by (simp add: unat_of_nat MaxUint32_def)
  have ge: "guest s \<le> q" unfolding q_def using q(1) by (intro round_up_ge) simp
  show "same_on (bump_owned s) (lin_mem s) (lin_mem s')" by (simp add: q(4))
  show "bump_owned s \<subseteq> bump_owned s'" using ge by (auto simp: bump_owned_def q(4))
  show "{unat p..<unat p + unat n} \<subseteq> bump_owned s' - bump_owned s"
    using ge by (auto simp: bump_owned_def q(4) p)
qed

lemma Store_stored:
  assumes "allocator_ok owned realloc" "Store n ptr t v r realloc s = (Inr u, s')" "Size t r = Inr z"
    "{ptr..<ptr + z} \<subseteq> owned s"
  shows "stored owned {ptr..<ptr + z} s s' (\<lambda>m. \<forall>w. reload n r t v = Some w \<longrightarrow> loadValue n m r ptr t = Inr w)"
    and "\<exists>a. Alignment t r = Inr a \<and> ptr mod a = 0" "ptr + z \<le> length (lin_mem s)"
proof -
  obtain a where al: "Alignment t r = Inr a" using assms(2) by (cases "Alignment t r") (simp_all add: Store_def)
  have st: "ptr + z \<le> length (lin_mem s)" "a = 0 \<or> ptr mod a = 0" "storeValue n r realloc ptr t v s = (Inr u, s')"
    using assms(2) unfolding Store_def al assms(3)
    by (simp_all add: sbind_def checked_range_of_def checkedRange_def Let_def split: if_split_asm)
  note a = al st(2,1,3)
  have dvd: "ptr mod a = 0" using a(2) is_alignment_pos [OF Alignment_is [OF a(1)]] by simp
  then have "a dvd ptr" by (simp add: mod_eq_0_iff_dvd)
  then show "stored owned {ptr..<ptr + z} s s' (\<lambda>m. \<forall>w. reload n r t v = Some w \<longrightarrow> loadValue n m r ptr t = Inr w)"
    by (rule stores_okD [OF storeValue_stored [OF assms(1)] a(4) assms(3) a(1) _ assms(4)])
  show "\<exists>a. Alignment t r = Inr a \<and> ptr mod a = 0" using al dvd by (intro exI conjI)
  show "ptr + z \<le> length (lin_mem s)" by (rule a(3))
qed

lemma Store_reload_Load:
  assumes "allocator_ok owned realloc" "Store n ptr t v r realloc s = (Inr (), s')" "Size t r = Inr z"
    "{ptr..<ptr + z} \<subseteq> owned s" "length (lin_mem s') \<le> 2 ^ 32" "reload n r t v = Some w"
  shows "Load n (lin_mem s') ptr t r = Inr w"
proof -
  note st = Store_stored [OF assms(1-4)]
  obtain a where a: "Alignment t r = Inr a" "ptr mod a = 0" using st(2) by (elim exE conjE)
  have "length (lin_mem s) = length (lin_mem s')"
    using st(1) unfolding stored_def frame_def by (blast intro: same_on_length)
  moreover have "loadValue n (lin_mem s') r ptr t = Inr w"
  proof -
    have "length (lin_mem s') \<le> Suc MaxUint32" using assms(5) by (simp add: MaxUint32_def)
    moreover have "same_on ({ptr..<ptr + z} \<union> (owned s' - owned s)) (lin_mem s') (lin_mem s')" by simp
    ultimately show ?thesis using st(1) assms(6) unfolding stored_def by blast
  qed
  ultimately show ?thesis
    using a st(3) assms(3) by (simp add: Load_def checkedRange_def)
qed

text \<open>C1. Storing a value and loading it back yields the value the specification \<open>reload\<close> gives,
  for every type: the integers, floats, chars, strings, lists, records, variants, options, results,
  flags and handles, nested in any way, with strings and lists in memory that the guest's allocator
  hands out. The allocator may be any that does not hand out memory twice.\<close>

theorem Store_Load_roundtrip:
  assumes "allocator_ok owned realloc" "Store n ptr t v r realloc s = (Inr (), s')" "Size t r = Inr z"
    "{ptr..<ptr + z} \<subseteq> owned s" "length (lin_mem s') \<le> 2 ^ 32" "reload n r t v = Some w"
  shows "Load n (lin_mem s') ptr t r = Inr w"
  by (rule Store_reload_Load [OF assms])

text \<open>C5. A store changes nothing that was in use before, except the bytes of the value it was asked
  to store: memory outside the value's own region and outside what the allocator hands out during
  the store is untouched, and the length of the memory stays.\<close>

theorem Store_frame:
  assumes "allocator_ok owned realloc" "Store n ptr t v r realloc s = (Inr (), s')" "Size t r = Inr z"
    "{ptr..<ptr + z} \<subseteq> owned s" "a \<in> owned s" "a < length (lin_mem s)" "a < ptr \<or> ptr + z \<le> a"
  shows "lin_mem s' ! a = lin_mem s ! a \<and> length (lin_mem s') = length (lin_mem s)"
proof -
  have "same_on (owned s - {ptr..<ptr + z}) (lin_mem s) (lin_mem s')"
    using Store_stored(1) [OF assms(1-4)] unfolding stored_def frame_def by blast
  moreover have "a \<in> owned s - {ptr..<ptr + z}" using assms(5,7) by auto
  ultimately show ?thesis using assms(6) by (simp add: same_on_def)
qed

text \<open>C2. Loading never panics: no index is out of range and no type assertion fails, whatever the
  memory, the address, the type and the resolver. Bad input is reported as an error.\<close>

theorem Load_no_panic: "Load n m ptr t r \<noteq> Inl (Panic msg)"
proof -
  have "no_panic (Load n m ptr t r)"
    unfolding Load_def by (intro panic_free; simp add: no_panic_loadValue)
  then show ?thesis by (simp add: no_panic_def)
qed

text \<open>The examples: a pair of a number and a string, on a guest memory of 24 bytes of which the
  first 12 are in use.\<close>

definition pair_type :: "type_desc option" where
  "pair_type = Some (TupleDesc [prim ''u16'', prim ''string''])"

definition pair_value :: val where
  "pair_value = VList [VU32 0x0102, VString [0x68, 0x69]]"

definition small_guest :: "nat mstate" where
  "small_guest = \<lparr>lin_mem = replicate 24 0, guest = 12\<rparr>"

definition pair_stored :: "nat mstate" where
  "pair_stored = \<lparr>lin_mem = [2, 1, 0, 0, 12, 0, 0, 0, 2, 0, 0, 0, 0x68, 0x69] @ replicate 10 0, guest = 14\<rparr>"

lemma pair_layout: "Size pair_type None = Inr 12"
  by code_simp

lemma pair_store: "Store 2 0 pair_type pair_value None (Some bump_alloc) small_guest = (Inr (), pair_stored)"
  by code_simp

lemma pair_owned: "{0..<0 + 12} \<subseteq> bump_owned small_guest"
  by (simp add: bump_owned_def small_guest_def)

lemma pair_length: "length (lin_mem pair_stored) \<le> 2 ^ 32"
  by (simp add: pair_stored_def)

lemma pair_canonical: "canonical 2 None pair_type pair_value"
  by code_simp

theorem Store_Load_roundtrip_witness:
  "Load 2 (lin_mem pair_stored) 0 pair_type None = Inr (VList [VU32 0x0102, VString [0x68, 0x69]])"
  by (rule Store_Load_roundtrip [OF bump_alloc_ok pair_store pair_layout pair_owned pair_length]) code_simp

theorem Store_frame_witness:
  "lin_mem (snd (Store 2 0 (Some (PrimitiveDesc ''u16'')) (VU32 7) None (Some bump_alloc) small_guest)) ! 5 = 0"
proof -
  let ?s' = "snd (Store 2 0 (Some (PrimitiveDesc ''u16'')) (VU32 7) None (Some bump_alloc) small_guest)"
  have "lin_mem ?s' ! 5 = lin_mem small_guest ! 5 \<and> length (lin_mem ?s') = length (lin_mem small_guest)"
  proof (rule Store_frame [OF bump_alloc_ok])
    show "Store 2 0 (Some (PrimitiveDesc ''u16'')) (VU32 7) None (Some bump_alloc) small_guest = (Inr (), ?s')"
      by code_simp
    show "Size (Some (PrimitiveDesc ''u16'')) None = Inr 2" by code_simp
  qed (simp_all add: bump_owned_def small_guest_def)
  then show ?thesis by (simp add: small_guest_def)
qed

text \<open>A value in the form loading yields comes back exactly as it was stored.\<close>

theorem Store_Load_identity:
  assumes "canonical n r t v" "allocator_ok owned realloc" "Store n ptr t v r realloc s = (Inr (), s')"
    "Size t r = Inr z" "{ptr..<ptr + z} \<subseteq> owned s" "length (lin_mem s') \<le> 2 ^ 32"
  shows "Load n (lin_mem s') ptr t r = Inr v"
  by (rule Store_reload_Load [OF assms(2-6) canonical_reload [OF assms(1)]])

theorem Store_Load_identity_witness: "Load 2 (lin_mem pair_stored) 0 pair_type None = Inr pair_value"
  by (rule Store_Load_identity [OF pair_canonical bump_alloc_ok pair_store pair_layout pair_owned pair_length])

text \<open>A defect of \<open>loadInt\<close>: an \<open>s8\<close> that is not negative is loaded as a \<open>uint32\<close>, where every other
  signed type, and a negative \<open>s8\<close>, is loaded as \<open>int32\<close>. The loaded value cannot be stored again.\<close>

theorem load_s8_wrong_type:
  "Load 1 [5] 0 (Some (PrimitiveDesc ''s8'')) None = Inr (VU32 5) \<and>
   Load 1 [0xFB] 0 (Some (PrimitiveDesc ''s8'')) None = Inr (VI32 (- 5)) \<and>
   Load 1 [5, 0] 0 (Some (PrimitiveDesc ''s16'')) None = Inr (VI32 5) \<and>
   fst (Store 1 0 (Some (PrimitiveDesc ''s8'')) (VU32 5) None None \<lparr>lin_mem = [0], guest = ()\<rparr>) =
     Inl (ExpectedType ''int32'')"
  by (intro conjI; code_simp)

text \<open>A defect of \<open>storeVariant\<close>: the payload of a case may be an option that is none, which is the nil
  value, and loading yields that; storing it back fails, as if the payload were missing.\<close>

definition maybe_case :: "type_desc option" where
  "maybe_case = Some (VariantDesc [plain_case ''a'' (Some (tidx 0))])"

definition maybe_resolver :: resolver where
  "maybe_resolver = Some (\<lambda>_. Some (OptionDesc (prim ''u8'')))"

theorem store_variant_none_payload:
  "Load 3 [0, 0, 0] 0 maybe_case maybe_resolver = Inr (VVariant 0 VNil) \<and>
   Store 3 0 maybe_case (VVariant 0 VNil) maybe_resolver None \<lparr>lin_mem = [0, 0, 0], guest = ()\<rparr> =
     (Inl (PayloadRequired 0), \<lparr>lin_mem = [0, 0, 0], guest = ()\<rparr>)"
  by (intro conjI; code_simp)

text \<open>Loading need not return: a list whose elements are lists of the same type, in a memory where
  the list contains itself, is loaded by an endless recursion, whatever the depth allowed. The
  layout validation does not look into list elements.\<close>

definition self_list :: "type_desc option" where "self_list = Some (ListDesc (tidx 0))"

definition self_resolver :: resolver where "self_resolver = Some (\<lambda>_. self_list)"

definition self_memory :: "byte list" where "self_memory = [0, 0, 0, 0, 1, 0, 0, 0]"

theorem Load_diverges: "Load n self_memory 0 self_list self_resolver = Inl OutOfFuel"
proof -
  have layout: "Size self_list self_resolver = Inr 8" "Alignment self_list self_resolver = Inr 4"
    by code_simp+
  have pair: "loadInt self_memory 0 4 False = Inr (VU32 0)" "loadInt self_memory 4 4 False = Inr (VU32 1)"
    "checkedAdd 0 4 = Inr 4" "checkedByteLength 1 8 = Inr 8" "checkedRange (length self_memory) 0 8 = Inr (0, 8)"
    by code_simp+
  have "loadValue n self_memory self_resolver 0 self_list = Inl OutOfFuel" for n
  proof (induction n)
    case (Suc n)
    have elem: "resolveType (Some (tidx 0)) self_resolver = Inr self_list" by (simp add: self_resolver_def)
    have "loadValue (Suc n) self_memory self_resolver 0 self_list =
      loadList (loadValue n self_memory self_resolver) self_memory 0 self_list self_resolver"
      by (subst (1) self_list_def) (simp add: elem)
    then show ?case
      using Suc pair(4,5)
      by (simp only: loadList_def loadListFromRange_def pair layout assert_u32_def rbind_Inr val.case)
         (simp add: pair [unfolded One_nat_def] maxListElements_def)
  qed simp
  then show ?thesis by (simp add: Load_def layout pair)
qed

end
