(* ===== verification/Flat.thy ===== *)
theory Flat
  imports Store_Load
begin

text \<open>
  \<open>internal/abi/flat.go\<close>: lowering a component value to core values and lifting core values back to a
  component value. Lowering is an operation over \<open>mstate\<close> like a store, because strings and lists
  are put in the guest's memory; lifting is an operation over a \<open>value_iter\<close> and reads a memory that
  does not change. \<open>fuel\<close> bounds the recursion along the type, in \<open>Flatten\<close> too, and through the
  elements of lists.
\<close>

subsection \<open>Lowering\<close>

text \<open>A negative number is made unsigned by adding \<open>1 << 32\<close> in 32-bit arithmetic, where that is 0.\<close>

definition lowerPrimitiveCore :: "val \<Rightarrow> string \<Rightarrow> abi_error + core_value" where
  "lowerPrimitiveCore v p =
     (if p = ''bool'' then
        (case v of VBool b \<Rightarrow> Inr (NewCoreValueI32 (if b then 1 else 0)) | _ \<Rightarrow> Inl (ExpectedType ''bool''))
      else if p \<in> {''u8'', ''u16'', ''u32''} then
        (case v of VU32 u \<Rightarrow> Inr (NewCoreValueI32 u) | _ \<Rightarrow> Inl (ExpectedType ''uint32''))
      else if p \<in> {''s8'', ''s16'', ''s32''} then
        (case v of VI32 i \<Rightarrow> Inr (NewCoreValueI32 (if sint i < 0 then i + push_bit 32 1 else i))
         | _ \<Rightarrow> Inl (ExpectedType ''int32''))
      else if p = ''u64'' then
        (case v of VU64 u \<Rightarrow> Inr (NewCoreValueI64 u) | _ \<Rightarrow> Inl (ExpectedType ''uint64''))
      else if p = ''s64'' then
        (case v of VI64 i \<Rightarrow> Inr (NewCoreValueI64 (if sint i < 0 then i + push_bit 64 1 else i))
         | _ \<Rightarrow> Inl (ExpectedType ''int64''))
      else if p = ''f32'' then
        (case v of VF32 f \<Rightarrow> Inr (NewCoreValueF32 f) | _ \<Rightarrow> Inl (ExpectedType ''float32''))
      else if p = ''f64'' then
        (case v of VF64 f \<Rightarrow> Inr (NewCoreValueF64 f) | _ \<Rightarrow> Inl (ExpectedType ''float64''))
      else if p = ''char'' then
        (case v of VI32 c \<Rightarrow> rbind (rune_check c) (\<lambda>_. Inr (NewCoreValueI32 c)) | _ \<Rightarrow> Inl (ExpectedType ''rune''))
      else if p = ''string'' then Inl StringNotSingle
      else if p = ''error-context'' then
        (case v of VU32 h \<Rightarrow> Inr (NewCoreValueI32 h) | _ \<Rightarrow> Inl (ExpectedType ''uint32''))
      else Inl (UnknownPrimitive p))"

text \<open>A pointer and a length as two core values.\<close>

definition flat_pair :: "nat \<times> nat \<Rightarrow> core_value list" where
  "flat_pair = (\<lambda>(ptr, len). [NewCoreValueI32 (word_of_nat ptr), NewCoreValueI32 (word_of_nat len)])"

definition lowerFlatString :: "byte list \<Rightarrow> 'g realloc \<Rightarrow> ('g, core_value list) mop" where
  "lowerFlatString str realloc = sbind (allocStoreString str realloc) (\<lambda>pl. sret (flat_pair pl))"

definition lowerFlatPrimitive :: "val \<Rightarrow> string \<Rightarrow> 'g realloc \<Rightarrow> ('g, core_value list) mop" where
  "lowerFlatPrimitive v p realloc =
     (if p = ''string'' then
        (case v of VString str \<Rightarrow> lowerFlatString str realloc | _ \<Rightarrow> sfail (ExpectedType ''string''))
      else slift (rbind (lowerPrimitiveCore v p) (\<lambda>cv. Inr [cv])))"

definition lowerFlatList ::
    "'g store_fn \<Rightarrow> val \<Rightarrow> type_desc option \<Rightarrow> resolver \<Rightarrow> 'g realloc \<Rightarrow> ('g, core_value list) mop" where
  "lowerFlatList st v elemType resolve realloc =
     sbind (allocStoreAnyList st v elemType resolve realloc) (\<lambda>pl. sret (flat_pair pl))"

type_synonym 'g lower_fn = "val \<Rightarrow> type_desc option \<Rightarrow> ('g, core_value list) mop"

text \<open>The loop over the members of a record or a tuple.\<close>

primrec lower_members :: "'g lower_fn \<Rightarrow> resolver \<Rightarrow> type_ref list \<Rightarrow> val list \<Rightarrow> ('g, core_value list) mop" where
  "lower_members rec resolve [] vs = sret []"
| "lower_members rec resolve (ref # refs) vs =
     sbind (slift (resolveType (Some ref) resolve)) (\<lambda>t.
     sbind (rec (hd vs) t) (\<lambda>flat.
     sbind (lower_members rec resolve refs (tl vs)) (\<lambda>flats. sret (flat @ flats))))"

definition lower_product :: "'g lower_fn \<Rightarrow> val \<Rightarrow> type_ref list \<Rightarrow> resolver \<Rightarrow> ('g, core_value list) mop" where
  "lower_product rec v refs resolve =
     sbind (slift (expect_list v)) (\<lambda>vs.
       if length vs \<noteq> length refs then sfail (WrongArity (length refs) (length vs))
       else lower_members rec resolve refs vs)"

definition lowerFlatRecord :: "'g lower_fn \<Rightarrow> val \<Rightarrow> record_field list \<Rightarrow> resolver \<Rightarrow> ('g, core_value list) mop" where
  "lowerFlatRecord rec v fs resolve = lower_product rec v (map FieldType fs) resolve"

definition lowerFlatTuple :: "'g lower_fn \<Rightarrow> val \<Rightarrow> type_ref list \<Rightarrow> resolver \<Rightarrow> ('g, core_value list) mop" where
  "lowerFlatTuple rec v elems resolve = lower_product rec v elems resolve"

text \<open>The coercion loop: it ends with the shorter of the payload and the joined types.\<close>

fun coerce_payload :: "core_value list \<Rightarrow> string list \<Rightarrow> string list \<Rightarrow> abi_error + core_value list" where
  "coerce_payload (cv # cvs) cas (want # joined) =
     (case cas of [] \<Rightarrow> Inl (Panic ''index out of range'')
      | have # cas \<Rightarrow>
          rbind (coerceValue cv have want) (\<lambda>c. rbind (coerce_payload cvs cas joined) (\<lambda>cs. Inr (c # cs))))"
| "coerce_payload _ _ _ = Inr []"

primrec zero_values :: "string list \<Rightarrow> abi_error + core_value list" where
  "zero_values [] = Inr []"
| "zero_values (k # ks) = rbind (zeroCoreValueForKind k) (\<lambda>z. rbind (zero_values ks) (\<lambda>zs. Inr (z # zs)))"

text \<open>The payload of a variant case or a result arm: lowered, coerced to the joined types, padded.\<close>

definition lower_payload ::
    "'g lower_fn \<Rightarrow> flat_fn \<Rightarrow> type_ref option \<Rightarrow> val \<Rightarrow> string list \<Rightarrow> resolver \<Rightarrow> ('g, core_value list) mop" where
  "lower_payload rec fl arm v joined resolve =
     sbind (case arm of None \<Rightarrow> sret []
       | Some ref \<Rightarrow>
           sbind (slift (resolveType (Some ref) resolve)) (\<lambda>caseType.
           sbind (rec v caseType) (\<lambda>casePayload.
           sbind (slift (fl caseType)) (\<lambda>cas.
             slift (coerce_payload casePayload cas joined))))) (\<lambda>payload.
     sbind (slift (zero_values (drop (length payload) joined))) (\<lambda>zs. sret (payload @ zs)))"

definition joined_types :: "string list \<Rightarrow> abi_error + string list" where
  "joined_types flat = (case flat of k # joined \<Rightarrow> if k = ''i32'' then Inr joined else Inl ExpectedDiscriminant
     | [] \<Rightarrow> Inl ExpectedDiscriminant)"

definition lowerFlatVariant ::
    "'g lower_fn \<Rightarrow> flat_fn \<Rightarrow> abi_error + string list \<Rightarrow> val \<Rightarrow> variant_case list \<Rightarrow> resolver \<Rightarrow> ('g, core_value list) mop" where
  "lowerFlatVariant rec fl whole v cs resolve =
     (case v of VVariant disc payload \<Rightarrow>
        if unat disc \<ge> length cs then sfail (CaseOutOfRange (unat disc) (length cs))
        else
          sbind (slift whole) (\<lambda>variantFlat.
          sbind (slift (joined_types variantFlat)) (\<lambda>joined.
          sbind (slift (index_at cs (unat disc))) (\<lambda>c.
          sbind (lower_payload rec fl (CaseType c) payload joined resolve) (\<lambda>payload.
            sret (NewCoreValueI32 disc # payload)))))
      | _ \<Rightarrow> sfail (ExpectedType ''VariantValue''))"

definition lowerFlatFlags :: "val \<Rightarrow> abi_error + core_value list" where
  "lowerFlatFlags v = rbind (expect_u32 v) (\<lambda>flags. Inr [NewCoreValueI32 flags])"

definition lowerFlatEnum :: "val \<Rightarrow> string list \<Rightarrow> abi_error + core_value list" where
  "lowerFlatEnum v cs =
     rbind (expect_u32 v) (\<lambda>idx.
       if unat idx \<ge> length cs then Inl (CaseOutOfRange (unat idx) (length cs)) else Inr [NewCoreValueI32 idx])"

definition lowerFlatOption :: "'g lower_fn \<Rightarrow> flat_fn \<Rightarrow> val \<Rightarrow> type_desc option \<Rightarrow> ('g, core_value list) mop" where
  "lowerFlatOption rec fl v elemType =
     sbind (slift (fl elemType)) (\<lambda>elemFlatTypes.
       if v = VNil then slift (rbind (zero_values elemFlatTypes) (\<lambda>zs. Inr (NewCoreValueI32 0 # zs)))
       else sbind (rec v elemType) (\<lambda>elemVals. sret (NewCoreValueI32 1 # elemVals)))"

definition lowerFlatResult ::
    "'g lower_fn \<Rightarrow> flat_fn \<Rightarrow> abi_error + string list \<Rightarrow> val \<Rightarrow> type_ref option \<Rightarrow> type_ref option \<Rightarrow> resolver \<Rightarrow>
     ('g, core_value list) mop" where
  "lowerFlatResult rec fl whole v okr errr resolve =
     (case v of VResult isErr payload \<Rightarrow>
        sbind (slift whole) (\<lambda>resultFlat.
        sbind (slift (joined_types resultFlat)) (\<lambda>joined.
        sbind (lower_payload rec fl (if isErr then errr else okr) payload joined resolve) (\<lambda>payload.
          sret (NewCoreValueI32 (if isErr then 1 else 0) # payload))))
      | _ \<Rightarrow> sfail (ExpectedType ''ResultValue''))"

definition lower_handle :: "val \<Rightarrow> abi_error + core_value list" where
  "lower_handle v = rbind (expect_u32 v) (\<lambda>h. Inr [NewCoreValueI32 h])"

text \<open>In \<open>lowerFlatVariant\<close> and \<open>lowerFlatResult\<close> the argument \<open>whole\<close> is \<open>Flatten(desc, resolve)\<close>.\<close>

primrec lowerFlatImpl ::
    "nat \<Rightarrow> resolver \<Rightarrow> 'g realloc \<Rightarrow> val \<Rightarrow> type_desc option \<Rightarrow> ('g, core_value list) mop" where
  "lowerFlatImpl 0 resolve realloc v t = sfail OutOfFuel"
| "lowerFlatImpl (Suc fuel) resolve realloc v t =
     (let rec = lowerFlatImpl fuel resolve realloc; fl = Flatten fuel resolve
      in case t of
        None \<Rightarrow> sfail UnknownDescriptor
      | Some desc \<Rightarrow>
          (case desc of
             PrimitiveDesc p \<Rightarrow> lowerFlatPrimitive v p realloc
           | ListDesc elem \<Rightarrow>
               sbind (slift (resolveType (Some elem) resolve)) (\<lambda>elemType.
                 lowerFlatList (storeValue fuel resolve realloc) v elemType resolve realloc)
           | RecordDesc fs \<Rightarrow> lowerFlatRecord rec v fs resolve
           | VariantDesc cs \<Rightarrow> lowerFlatVariant rec fl (Flatten (Suc fuel) resolve (Some desc)) v cs resolve
           | TupleDesc elems \<Rightarrow> lowerFlatTuple rec v elems resolve
           | FlagsDesc names \<Rightarrow> slift (lowerFlatFlags v)
           | EnumDesc cs \<Rightarrow> slift (lowerFlatEnum v cs)
           | OptionDesc elem \<Rightarrow>
               sbind (slift (resolveType (Some elem) resolve)) (\<lambda>elemType. lowerFlatOption rec fl v elemType)
           | ResultDesc okr errr \<Rightarrow>
               lowerFlatResult rec fl (Flatten (Suc fuel) resolve (Some desc)) v okr errr resolve
           | OwnDesc _ \<Rightarrow> slift (lower_handle v) | BorrowDesc _ \<Rightarrow> slift (lower_handle v)
           | StreamDesc _ \<Rightarrow> slift (lower_handle v) | FutureDesc _ \<Rightarrow> slift (lower_handle v)
           | FuncDesc _ \<Rightarrow> sfail (UnsupportedType desc) | InstanceDesc _ \<Rightarrow> sfail (UnsupportedType desc)
           | ComponentDesc \<Rightarrow> sfail (UnsupportedType desc) | ResourceDesc _ _ \<Rightarrow> sfail (UnsupportedType desc)))"

definition spillValue :: "nat \<Rightarrow> val \<Rightarrow> type_desc option \<Rightarrow> resolver \<Rightarrow> 'g realloc \<Rightarrow> ('g, nat) mop" where
  "spillValue fuel v t resolve realloc =
     sbind (slift (Alignment t resolve)) (\<lambda>align.
     sbind (slift (Size t resolve)) (\<lambda>size.
     sbind (Grow realloc 0 0 align size) (\<lambda>ptr.
     sbind (Store fuel ptr t v resolve realloc) (\<lambda>_. sret ptr))))"

definition LowerFlatInto ::
    "nat \<Rightarrow> core_value list \<Rightarrow> val \<Rightarrow> type_desc option \<Rightarrow> resolver \<Rightarrow> 'g realloc \<Rightarrow> ('g, core_value list) mop" where
  "LowerFlatInto fuel dst v t resolve realloc =
     (let walk =
        sbind (slift (Flatten fuel resolve t)) (\<lambda>flatTypes.
          if length flatTypes > MaxFlatParams then
            sbind (spillValue fuel v t resolve realloc) (\<lambda>ptr. sret (dst @ [NewCoreValueI32 (word_of_nat ptr)]))
          else sbind (lowerFlatImpl fuel resolve realloc v t) (\<lambda>flat. sret (dst @ flat)))
      in case t of
           Some (PrimitiveDesc p) \<Rightarrow>
             if p \<noteq> ''string'' then slift (rbind (lowerPrimitiveCore v p) (\<lambda>cv. Inr (dst @ [cv]))) else walk
         | _ \<Rightarrow> walk)"

definition LowerFlat ::
    "nat \<Rightarrow> val \<Rightarrow> type_desc option \<Rightarrow> resolver \<Rightarrow> 'g realloc \<Rightarrow> ('g, core_value list) mop" where
  "LowerFlat fuel v t resolve realloc = LowerFlatInto fuel [] v t resolve realloc"

subsection \<open>Lifting\<close>

type_synonym 'a vop = "(value_iter, abi_error, 'a) op"

definition liftScalarPrimitive :: "core_value \<Rightarrow> string \<Rightarrow> abi_error + val" where
  "liftScalarPrimitive cv p =
     (if p = ''bool'' then rbind (AsI32 cv) (\<lambda>i. Inr (VBool (i \<noteq> 0)))
      else if p = ''u8'' then rbind (AsI32 cv) (\<lambda>i. Inr (VU32 (i AND 0xFF)))
      else if p = ''u16'' then rbind (AsI32 cv) (\<lambda>i. Inr (VU32 (i AND 0xFFFF)))
      else if p = ''u32'' then rbind (AsI32 cv) (\<lambda>i. Inr (VU32 i))
      else if p = ''u64'' then rbind (AsI64 cv) (\<lambda>i. Inr (VU64 i))
      else if p = ''s8'' then
        rbind (AsI32 cv) (\<lambda>i. let i = i AND 0xFF
          in if i \<ge> 0x80 then Inr (VI32 (scast (ucast i :: byte))) else Inr (VI32 i))
      else if p = ''s16'' then
        rbind (AsI32 cv) (\<lambda>i. let i = i AND 0xFFFF
          in if i \<ge> 0x8000 then Inr (VI32 (scast (ucast i :: 16 word))) else Inr (VI32 i))
      else if p = ''s32'' then rbind (AsI32 cv) (\<lambda>i. Inr (VI32 i))
      else if p = ''s64'' then rbind (AsI64 cv) (\<lambda>i. Inr (VI64 i))
      else if p = ''f32'' then rbind (AsF32 cv) (\<lambda>f. Inr (VF32 f))
      else if p = ''f64'' then rbind (AsF64 cv) (\<lambda>f. Inr (VF64 f))
      else if p = ''char'' then rbind (AsI32 cv) (\<lambda>i. rbind (char_check i) (\<lambda>_. Inr (VI32 i)))
      else if p = ''error-context'' then rbind (AsI32 cv) (\<lambda>i. Inr (VU32 i))
      else Inl (UnknownPrimitive p))"

text \<open>Reading the core values of a pointer and a length.\<close>

definition next_pair :: "(nat \<times> nat) vop" where
  "next_pair =
     sbind Next (\<lambda>ptrCV. sbind Next (\<lambda>lenCV.
     sbind (slift (AsI32 ptrCV)) (\<lambda>p. sbind (slift (AsI32 lenCV)) (\<lambda>n. sret (unat p, unat n)))))"

definition liftFlatString :: "byte list \<Rightarrow> val vop" where
  "liftFlatString m = sbind next_pair (\<lambda>(p, n). slift (rbind (loadStringFromRange m p n) (\<lambda>s. Inr (VString s))))"

definition liftFlatPrimitive :: "byte list \<Rightarrow> string \<Rightarrow> val vop" where
  "liftFlatPrimitive m p =
     (if p = ''string'' then liftFlatString m
      else sbind Next (\<lambda>cv. slift (liftScalarPrimitive cv p)))"

definition liftFlatList :: "load_fn \<Rightarrow> byte list \<Rightarrow> type_desc option \<Rightarrow> resolver \<Rightarrow> val vop" where
  "liftFlatList ld m elemType resolve =
     sbind next_pair (\<lambda>(p, n). slift (rbind (loadListFromRange ld m p n elemType resolve) (\<lambda>vs. Inr (VList vs))))"

type_synonym lift_fn = "type_desc option \<Rightarrow> val vop"

primrec lift_members :: "lift_fn \<Rightarrow> resolver \<Rightarrow> type_ref list \<Rightarrow> val list vop" where
  "lift_members rec resolve [] = sret []"
| "lift_members rec resolve (ref # refs) =
     sbind (slift (resolveType (Some ref) resolve)) (\<lambda>t.
     sbind (rec t) (\<lambda>v.
     sbind (lift_members rec resolve refs) (\<lambda>vs. sret (v # vs))))"

definition liftFlatRecord :: "lift_fn \<Rightarrow> record_field list \<Rightarrow> resolver \<Rightarrow> val vop" where
  "liftFlatRecord rec fs resolve = sbind (lift_members rec resolve (map FieldType fs)) (\<lambda>vs. sret (VList vs))"

definition liftFlatTuple :: "lift_fn \<Rightarrow> type_ref list \<Rightarrow> resolver \<Rightarrow> val vop" where
  "liftFlatTuple rec elems resolve = sbind (lift_members rec resolve elems) (\<lambda>vs. sret (VList vs))"

primrec skip_values :: "nat \<Rightarrow> unit vop" where
  "skip_values 0 = sret ()"
| "skip_values (Suc k) = sbind Next (\<lambda>_. skip_values k)"

text \<open>Running an operation through a fresh coercing iterator; the values it took are counted.\<close>

definition through_coercing :: "string list \<Rightarrow> string list \<Rightarrow> 'a vop \<Rightarrow> ('a \<times> nat) vop" where
  "through_coercing joined cas m vi =
     (case m (CoercingValueIter vi joined cas 0) of
        (Inl e, ci) \<Rightarrow> (Inl e, underlying ci)
      | (Inr x, ci) \<Rightarrow> (Inr (x, idx ci), underlying ci))"

text \<open>The payload of a variant case or a result arm, and the padding after it.\<close>

definition lift_payload :: "lift_fn \<Rightarrow> flat_fn \<Rightarrow> type_ref option \<Rightarrow> string list \<Rightarrow> resolver \<Rightarrow> val vop" where
  "lift_payload rec fl arm joined resolve =
     sbind (case arm of None \<Rightarrow> sret (VNil, 0)
       | Some ref \<Rightarrow>
           sbind (slift (resolveType (Some ref) resolve)) (\<lambda>caseType.
           sbind (slift (fl caseType)) (\<lambda>cas.
             through_coercing joined cas (rec caseType)))) (\<lambda>(payload, i).
     sbind (skip_values (length joined - i)) (\<lambda>_. sret payload))"

definition liftFlatVariant ::
    "lift_fn \<Rightarrow> flat_fn \<Rightarrow> abi_error + string list \<Rightarrow> variant_case list \<Rightarrow> resolver \<Rightarrow> val vop" where
  "liftFlatVariant rec fl whole cs resolve =
     sbind (slift whole) (\<lambda>variantFlat.
     sbind (slift (joined_types variantFlat)) (\<lambda>joined.
     sbind Next (\<lambda>discCV.
     sbind (slift (AsI32 discCV)) (\<lambda>caseIdx.
       if unat caseIdx \<ge> length cs then sfail (CaseOutOfRange (unat caseIdx) (length cs))
       else
         sbind (slift (index_at cs (unat caseIdx))) (\<lambda>c.
         sbind (lift_payload rec fl (CaseType c) joined resolve) (\<lambda>payload.
           sret (VVariant caseIdx payload)))))))"

definition liftFlatFlags :: "val vop" where
  "liftFlatFlags = sbind Next (\<lambda>cv. sbind (slift (AsI32 cv)) (\<lambda>i. sret (VU32 i)))"

definition liftFlatEnum :: "string list \<Rightarrow> val vop" where
  "liftFlatEnum cs =
     sbind Next (\<lambda>cv. sbind (slift (AsI32 cv)) (\<lambda>idx.
       if unat idx \<ge> length cs then sfail (CaseOutOfRange (unat idx) (length cs)) else sret (VU32 idx)))"

definition liftFlatOption :: "lift_fn \<Rightarrow> flat_fn \<Rightarrow> type_desc option \<Rightarrow> val vop" where
  "liftFlatOption rec fl elemType =
     sbind Next (\<lambda>cv. sbind (slift (AsI32 cv)) (\<lambda>disc.
       if disc = 0 then
         sbind (slift (fl elemType)) (\<lambda>elemFlatTypes. sbind (skip_values (length elemFlatTypes)) (\<lambda>_. sret VNil))
       else if disc = 1 then rec elemType
       else sfail (InvalidDiscriminant (unat disc))))"

definition liftFlatResult ::
    "lift_fn \<Rightarrow> flat_fn \<Rightarrow> abi_error + string list \<Rightarrow> type_ref option \<Rightarrow> type_ref option \<Rightarrow> resolver \<Rightarrow> val vop" where
  "liftFlatResult rec fl whole okr errr resolve =
     sbind Next (\<lambda>cv. sbind (slift (AsI32 cv)) (\<lambda>disc.
     sbind (slift whole) (\<lambda>resultFlat.
     sbind (slift (joined_types resultFlat)) (\<lambda>joined.
       if disc = 0 \<or> disc = 1 then
         sbind (lift_payload rec fl (if disc = 1 then errr else okr) joined resolve) (\<lambda>payload.
           sret (VResult (disc = 1) payload))
       else sfail (InvalidDiscriminant (unat disc))))))"

definition lift_handle :: "val vop" where
  "lift_handle = sbind Next (\<lambda>cv. sbind (slift (AsI32 cv)) (\<lambda>i. sret (VU32 i)))"

primrec liftFlatImpl :: "nat \<Rightarrow> byte list \<Rightarrow> resolver \<Rightarrow> type_desc option \<Rightarrow> val vop" where
  "liftFlatImpl 0 m resolve t = sfail OutOfFuel"
| "liftFlatImpl (Suc fuel) m resolve t =
     (let rec = liftFlatImpl fuel m resolve; fl = Flatten fuel resolve
      in case t of
        None \<Rightarrow> sfail UnknownDescriptor
      | Some desc \<Rightarrow>
          (case desc of
             PrimitiveDesc p \<Rightarrow> liftFlatPrimitive m p
           | ListDesc elem \<Rightarrow>
               sbind (slift (resolveType (Some elem) resolve)) (\<lambda>elemType.
                 liftFlatList (loadValue fuel m resolve) m elemType resolve)
           | RecordDesc fs \<Rightarrow> liftFlatRecord rec fs resolve
           | VariantDesc cs \<Rightarrow> liftFlatVariant rec fl (Flatten (Suc fuel) resolve (Some desc)) cs resolve
           | TupleDesc elems \<Rightarrow> liftFlatTuple rec elems resolve
           | FlagsDesc names \<Rightarrow> liftFlatFlags
           | EnumDesc cs \<Rightarrow> liftFlatEnum cs
           | OptionDesc elem \<Rightarrow>
               sbind (slift (resolveType (Some elem) resolve)) (\<lambda>elemType. liftFlatOption rec fl elemType)
           | ResultDesc okr errr \<Rightarrow>
               liftFlatResult rec fl (Flatten (Suc fuel) resolve (Some desc)) okr errr resolve
           | OwnDesc _ \<Rightarrow> lift_handle | BorrowDesc _ \<Rightarrow> lift_handle
           | StreamDesc _ \<Rightarrow> lift_handle | FutureDesc _ \<Rightarrow> lift_handle
           | FuncDesc _ \<Rightarrow> sfail (UnsupportedType desc) | InstanceDesc _ \<Rightarrow> sfail (UnsupportedType desc)
           | ComponentDesc \<Rightarrow> sfail (UnsupportedType desc) | ResourceDesc _ _ \<Rightarrow> sfail (UnsupportedType desc)))"

definition LiftFlat ::
    "nat \<Rightarrow> core_value list \<Rightarrow> type_desc option \<Rightarrow> resolver \<Rightarrow> byte list \<Rightarrow> abi_error + val" where
  "LiftFlat fuel vals t resolve m =
     rbind (Flatten fuel resolve t) (\<lambda>flatTypes.
       if length flatTypes > MaxFlatParams then
         (if length vals \<noteq> 1 then Inl (ExpectedOneValue (length vals))
          else rbind (index_at vals 0) (\<lambda>cv. rbind (AsI32 cv) (\<lambda>ptr. Load fuel m (unat ptr) t resolve)))
       else fst (liftFlatImpl fuel m resolve t (CoreValueIter vals 0)))"

end
