(* ===== verification/Flat_Correct.thy ===== *)
theory Flat_Correct
  imports Flat
begin

text \<open>
  The correctness of \<open>internal/abi/flat.go\<close>: lowering yields core values of exactly the types that
  \<open>Flatten\<close> announces, lifting such values never panics and consumes exactly them, and lifting what
  was lowered gives the value back.
\<close>

subsection \<open>Coercions along a join\<close>

text \<open>\<open>want\<close> is the join of \<open>have\<close> with other core types.\<close>

definition coerces :: "string \<Rightarrow> string \<Rightarrow> bool" where
  "coerces have' want \<longleftrightarrow> want = have' \<or> want = ''i64'' \<or> (want = ''i32'' \<and> have' = ''f32'')"

lemma joinCoreTypes_coerces:
  assumes "t \<in> set ts" "set ts \<subseteq> core_kinds"
  shows "coerces t (joinCoreTypes ts)"
proof -
  obtain a us where ts: "ts = a # us" using assms(1) by (cases ts) auto
  show ?thesis
  proof (cases "\<forall>x \<in> set us. x = a")
    case True
    then show ?thesis using assms(1) by (auto simp: ts joinCoreTypes_Cons coerces_def)
  next
    case False
    then have "joinCoreTypes ts = (if \<forall>t \<in> set ts. t = ''i32'' \<or> t = ''f32'' then ''i32'' else ''i64'')"
      unfolding ts joinCoreTypes_Cons by (simp only: if_False)
    then show ?thesis using assms(1) unfolding coerces_def by (metis (full_types))
  qed
qed

lemma join_flats_coerces:
  assumes "cf \<in> set cfs" "\<forall>cf \<in> set cfs. set cf \<subseteq> core_kinds" "i < length cf"
  shows "coerces (cf ! i) (join_flats cfs ! i)" "i < length (join_flats cfs)"
proof -
  have i: "i < max_length cfs" using max_length_ge [OF assms(1)] assms(3) by simp
  have "cf ! i \<in> set (candidates cfs i)" using assms(1,3) by (auto simp: candidates_def)
  moreover have "set (candidates cfs i) \<subseteq> core_kinds"
    using assms(2) nth_mem by (fastforce simp: candidates_def)
  ultimately show "coerces (cf ! i) (join_flats cfs ! i)"
    using i by (simp add: join_flats_eq joinCoreTypes_coerces)
  show "i < length (join_flats cfs)" using i by simp
qed

text \<open>The two directions of the coercion, for a list of values.\<close>

definition coerced :: "string list \<Rightarrow> string list \<Rightarrow> core_value list \<Rightarrow> core_value list \<Rightarrow> bool" where
  "coerced cf joined cs cvs \<longleftrightarrow> length cs = length cvs \<and> length cvs = length cf \<and> length cf \<le> length joined \<and>
     (\<forall>i < length cf. deCoerceValue (cs ! i) (joined ! i) (cf ! i) = Inr (cvs ! i))"

definition fits :: "string list \<Rightarrow> string list \<Rightarrow> bool" where
  "fits cf joined \<longleftrightarrow> length cf \<le> length joined \<and> (\<forall>i < length cf. coerces (cf ! i) (joined ! i))"

lemma fits_Cons [simp]: "fits (k # cf) (j # joined) \<longleftrightarrow> coerces k j \<and> fits cf joined"
proof -
  have "(\<forall>i < Suc (length cf). P i) \<longleftrightarrow> P 0 \<and> (\<forall>i < length cf. P (Suc i))" for P
    using less_Suc_eq_0_disj by auto
  then show ?thesis by (auto simp: fits_def)
qed

lemma fits_Nil [simp]: "fits [] joined" "\<not> fits (k # cf) []"
  by (simp_all add: fits_def)

lemma coerced_Cons [simp]:
  "coerced (k # cf) (j # joined) (c # cs) (cv # cvs) \<longleftrightarrow>
    deCoerceValue c j k = Inr cv \<and> coerced cf joined cs cvs"
proof -
  have "(\<forall>i < Suc (length cf). P i) \<longleftrightarrow> P 0 \<and> (\<forall>i < length cf. P (Suc i))" for P
    using less_Suc_eq_0_disj by auto
  then show ?thesis by (auto simp: coerced_def)
qed

lemma coerced_Nil [simp]: "coerced [] joined [] []"
  by (simp add: coerced_def)

text \<open>A list of core values with these kinds.\<close>

definition of_kinds :: "string list \<Rightarrow> core_value list \<Rightarrow> bool" where
  "of_kinds ks cvs \<longleftrightarrow> map CoreKind cvs = ks \<and> list_all well_kinded cvs"

lemma of_kinds_simps [simp]:
  "of_kinds [] cvs \<longleftrightarrow> cvs = []"
  "of_kinds (k # ks) (cv # cvs) \<longleftrightarrow> CoreKind cv = k \<and> well_kinded cv \<and> of_kinds ks cvs"
  "of_kinds ks [] \<longleftrightarrow> ks = []"
  by (auto simp: of_kinds_def)

lemma of_kinds_append: "of_kinds ks cvs \<Longrightarrow> of_kinds ls dvs \<Longrightarrow> of_kinds (ks @ ls) (cvs @ dvs)"
  by (auto simp: of_kinds_def)

lemma of_kinds_length: "of_kinds ks cvs \<Longrightarrow> length cvs = length ks"
  by (auto simp: of_kinds_def)

lemma coerce_payload_ok:
  "of_kinds cf cvs \<Longrightarrow> fits cf joined \<Longrightarrow>
   \<exists>cs. coerce_payload cvs cf joined = Inr cs \<and> of_kinds (take (length cf) joined) cs \<and> coerced cf joined cs cvs"
proof (induction cvs arbitrary: cf joined)
  case (Cons cv cvs)
  then obtain k ks j js where cf: "cf = k # ks" "joined = j # js" 
    by (metis fits_Nil(2) list.distinct(1) neq_Nil_conv of_kinds_simps(1))
  with Cons.prems obtain c where "coerceValue cv k j = Inr c" "deCoerceValue c j k = Inr cv" "CoreKind c = j" "well_kinded c"
    using deCoerce_coerce [of cv j] by (auto simp: coerces_def)
  with Cons cf show ?case by fastforce
qed simp

lemma zero_values_ok: "set ks \<subseteq> core_kinds \<Longrightarrow> \<exists>zs. zero_values ks = Inr zs \<and> of_kinds ks zs"
proof (induction ks)
  case (Cons k ks)
  then obtain zs where "zero_values ks = Inr zs" "of_kinds ks zs" by auto
  moreover have "\<exists>z. zeroCoreValueForKind k = Inr z \<and> CoreKind z = k \<and> well_kinded z"
    using Cons.prems by (auto simp: core_kinds_def zeroCoreValueForKind_def)
  ultimately show ?case by fastforce
qed simp

text \<open>The join relation that the payload code relies on, for an arm.\<close>

definition arm_joins :: "flat_fn \<Rightarrow> resolver \<Rightarrow> type_ref option \<Rightarrow> string list \<Rightarrow> bool" where
  "arm_joins fl r arm joined \<longleftrightarrow> set joined \<subseteq> core_kinds \<and>
     (\<forall>ref t. arm = Some ref \<longrightarrow> resolveType (Some ref) r = Inr t \<longrightarrow> (\<exists>cf. fl t = Inr cf \<and> fits cf joined))"

lemma case_flats_mem:
  assumes "foldE (\<lambda>caseFlats c. case CaseType c of None \<Rightarrow> Inr caseFlats
       | Some ref \<Rightarrow> rbind (ref_flat f r ref) (\<lambda>cFlat. Inr (caseFlats @ [cFlat]))) acc cs = Inr cfs"
  shows "set acc \<subseteq> set cfs" "c \<in> set cs \<Longrightarrow> CaseType c = Some ref \<Longrightarrow> \<exists>cf. ref_flat f r ref = Inr cf \<and> cf \<in> set cfs"
  using assms
proof (induction cs arbitrary: acc)
  case (Cons a cs)
  {
    case 1
    from 1 Cons.IH(1) show ?case by (cases "CaseType a") (fastforce simp: rbind_eq_Inr)+
  next
    case 2
    show ?case
    proof (cases "c = a")
      case True
      with 2 obtain cf where "ref_flat f r ref = Inr cf"
        "foldE (\<lambda>caseFlats c. case CaseType c of None \<Rightarrow> Inr caseFlats
       | Some ref \<Rightarrow> rbind (ref_flat f r ref) (\<lambda>cFlat. Inr (caseFlats @ [cFlat]))) (acc @ [cf]) cs = Inr cfs"
        by (auto simp: rbind_eq_Inr)
      with Cons.IH(1) show ?thesis by fastforce
    next
      case False
      with 2 have "c \<in> set cs" by simp
      with 2 Cons.IH(2) show ?thesis by (cases "CaseType a") (auto simp: rbind_eq_Inr)
    qed
  }
qed simp_all

lemma flattenVariant_arms:
  assumes "kinds_ok f" "flattenVariant f r cs = Inr fs"
  shows "\<exists>joined. fs = ''i32'' # joined \<and> (\<forall>c \<in> set cs. arm_joins f r (CaseType c) joined)"
proof -
  define step where "step = (\<lambda>caseFlats (c :: variant_case). case CaseType c of None \<Rightarrow> Inr caseFlats
       | Some ref \<Rightarrow> rbind (ref_flat f r ref) (\<lambda>cFlat. Inr (caseFlats @ [cFlat])))"
  obtain j where j: "fs = ''i32'' # j" using flattenVariant_head [OF assms(2)] by blast
  obtain cfs dfl where cfs: "foldE step [] cs = Inr cfs" "flattenPrimitive (DiscriminantType (length cs)) = Inr dfl"
    "fs = dfl @ join_flats cfs"
    using assms(2) by (auto simp: flattenVariant_def rbind_eq_Inr step_def)
  have "dfl = [''i32'']" using cfs(2) by (cases rule: DiscriminantType_cases [of "length cs"]) auto
  then have fs: "fs = ''i32'' # join_flats cfs" using cfs(3) by simp
  have kinds: "\<forall>cf \<in> set cfs. set cf \<subseteq> core_kinds"
    by (rule case_flats_kinds [OF assms(1) cfs(1) [unfolded step_def]])
  have "arm_joins f r (CaseType c) (join_flats cfs)" if c: "c \<in> set cs" for c
    unfolding arm_joins_def
  proof (intro conjI allI impI)
    show "set (join_flats cfs) \<subseteq> core_kinds" by (rule join_flats_kinds [OF kinds])
    fix ref t assume ref: "CaseType c = Some ref" "resolveType (Some ref) r = Inr t"
    from case_flats_mem(2) [OF cfs(1) [unfolded step_def] c ref(1)] ref(2)
    obtain cf where cf: "f t = Inr cf" "cf \<in> set cfs" by (auto simp: ref_flat_def)
    have "fits cf (join_flats cfs)"
      using join_flats_coerces [OF cf(2) kinds] max_length_ge [OF cf(2)] by (simp add: fits_def)
    with cf(1) show "\<exists>cf. f t = Inr cf \<and> fits cf (join_flats cfs)" by blast
  qed
  with fs show ?thesis by blast
qed

lemma flattenResult_arms:
  assumes "kinds_ok f" "flattenResult f r a b = Inr fs"
  shows "\<exists>joined. fs = ''i32'' # joined \<and> arm_joins f r a joined \<and> arm_joins f r b joined"
  using flattenVariant_arms [OF assms [unfolded flattenResult_despecialize]] by (simp add: plain_case_def)

subsection \<open>Iterators\<close>

text \<open>Reading from \<open>vi\<close> yields the values \<open>cvs\<close> and leaves \<open>vi'\<close>.\<close>

primrec supplies :: "value_iter \<Rightarrow> core_value list \<Rightarrow> value_iter \<Rightarrow> bool" where
  "supplies vi [] vi' \<longleftrightarrow> vi' = vi"
| "supplies vi (cv # cvs) vi' \<longleftrightarrow> fst (Next vi) = Inr cv \<and> supplies (snd (Next vi)) cvs vi'"

lemma supplies_append:
  "supplies vi (a @ b) vi' \<longleftrightarrow> (\<exists>vm. supplies vi a vm \<and> supplies vm b vi')"
  by (induction a arbitrary: vi) auto

lemma supplies_values: "supplies (CoreValueIter (pre @ cvs) (length pre)) cvs (CoreValueIter (pre @ cvs) (length pre + length cvs))"
proof (induction cvs arbitrary: pre)
  case (Cons cv cvs)
  show ?case using Cons [of "pre @ [cv]"] by simp
qed simp

lemma supplies_start: "supplies (CoreValueIter cvs 0) cvs (CoreValueIter cvs (length cvs))"
  using supplies_values [of "[]"] by simp

lemma supplies_coercing:
  assumes "supplies u cs u'" "coerced cf joined cs cvs"
  shows "supplies (CoercingValueIter u joined cf 0) cvs (CoercingValueIter u' joined cf (length cf))"
proof -
  have "supplies u cs u' \<Longrightarrow> length cs = length cvs \<Longrightarrow> k + length cvs \<le> length cf \<Longrightarrow> length cf \<le> length joined \<Longrightarrow>
     (\<forall>i < length cvs. deCoerceValue (cs ! i) (joined ! (k + i)) (cf ! (k + i)) = Inr (cvs ! i)) \<Longrightarrow>
     supplies (CoercingValueIter u joined cf k) cvs (CoercingValueIter u' joined cf (k + length cvs))" for k
  proof (induction cvs arbitrary: cs u k)
    case (Cons cv cvs)
    then obtain c cs' where cs: "cs = c # cs'" by (cases cs) auto
    have "deCoerceValue c (joined ! k) (cf ! k) = Inr cv" using Cons.prems(5) cs by force
    moreover have "supplies (CoercingValueIter (snd (Next u)) joined cf (Suc k)) cvs (CoercingValueIter u' joined cf (Suc k + length cvs))"
    proof (rule Cons.IH)
      show "\<forall>i < length cvs. deCoerceValue (cs' ! i) (joined ! (Suc k + i)) (cf ! (Suc k + i)) = Inr (cvs ! i)"
        using Cons.prems(5) cs by fastforce
    qed (use Cons.prems cs in auto)
    ultimately show ?case using Cons.prems cs by (auto split: prod.split sum.split)
  qed auto
  from this [of 0] assms show ?thesis by (auto simp: coerced_def)
qed

lemma Next_supplies: "supplies vi (cv # cvs) vi' \<longleftrightarrow> (\<exists>v1. Next vi = (Inr cv, v1) \<and> supplies v1 cvs vi')"
  by (cases "Next vi") auto

lemma skip_values_supplies: "supplies vi cvs vi' \<Longrightarrow> skip_values (length cvs) vi = (Inr (), vi')"
  by (induction cvs arbitrary: vi) (auto simp: sbind_def Next_supplies simp del: supplies.simps(2))

subsection \<open>Lowering yields the flattened type\<close>

lemma foldE_acc:
  "foldE (\<lambda>flat x. rbind (g x) (\<lambda>f. Inr (flat @ f))) acc xs =
   rbind (foldE (\<lambda>flat x. rbind (g x) (\<lambda>f. Inr (flat @ f))) [] xs) (\<lambda>fs. Inr (acc @ fs))"
proof (induction xs arbitrary: acc)
  case (Cons x xs)
  show ?case
  proof (cases "g x")
    case (Inr f)
    then show ?thesis using Cons [of f] Cons [of "acc @ f"] by (simp add: rbind_assoc)
  qed simp
qed simp

lemma flat_refs_simps [simp]:
  "flat_refs fl r [] = Inr []"
  "flat_refs fl r (ref # refs) = rbind (resolveType (Some ref) r) (\<lambda>t. rbind (fl t) (\<lambda>f. rbind (flat_refs fl r refs) (\<lambda>fs. Inr (f @ fs))))"
proof -
  show "flat_refs fl r (ref # refs) = rbind (resolveType (Some ref) r) (\<lambda>t. rbind (fl t) (\<lambda>f. rbind (flat_refs fl r refs) (\<lambda>fs. Inr (f @ fs))))"
    unfolding flat_refs_def by (simp add: rbind_assoc) (subst foldE_acc, simp add: ref_flat_def rbind_assoc)
qed (simp add: flat_refs_def)

lemma flatten_products:
  "flattenRecord fl r fs = flat_refs fl r (map FieldType fs)" "flattenTuple fl r es = flat_refs fl r es"
  by (simp_all add: flattenRecord_def flattenTuple_def flat_refs_def foldE_map)

text \<open>The induction hypothesis: lowering yields values of the flattened kinds.\<close>

definition lowers_kinds :: "'g lower_fn \<Rightarrow> flat_fn \<Rightarrow> bool" where
  "lowers_kinds rec fl \<longleftrightarrow> (\<forall>v t s cvs s' fs. rec v t s = (Inr cvs, s') \<longrightarrow> fl t = Inr fs \<longrightarrow> of_kinds fs cvs)"

lemma lowers_kindsD: "lowers_kinds rec fl \<Longrightarrow> rec v t s = (Inr cvs, s') \<Longrightarrow> fl t = Inr fs \<Longrightarrow> of_kinds fs cvs"
  unfolding lowers_kinds_def by blast

lemma lower_members_kinds:
  assumes "lowers_kinds rec fl"
  shows "lower_members rec r refs vs s = (Inr cvs, s') \<Longrightarrow> flat_refs fl r refs = Inr fs \<Longrightarrow> of_kinds fs cvs"
  by (induction refs arbitrary: vs s cvs fs)
     (fastforce simp: state_simps rbind_eq_Inr intro: of_kinds_append lowers_kindsD [OF assms])+

lemma lower_product_kinds:
  assumes "lowers_kinds rec fl" "lower_product rec v refs r s = (Inr cvs, s')" "flat_refs fl r refs = Inr fs"
  shows "of_kinds fs cvs"
  using assms(2) lower_members_kinds [OF assms(1) _ assms(3)]
  by (auto simp: lower_product_def state_simps split: if_split_asm)

lemma lower_payload_inv:
  assumes rec: "lowers_kinds rec fl" and j: "arm_joins fl r arm joined"
    and l: "lower_payload rec fl arm v joined r s = (Inr cvs, s')"
  shows "of_kinds joined cvs"
    and "arm = None \<Longrightarrow> s' = s"
    and "arm = Some ref \<Longrightarrow> \<exists>t cf cs pay zs. resolveType (Some ref) r = Inr t \<and> fl t = Inr cf \<and> rec v t s = (Inr pay, s') \<and>
      of_kinds cf pay \<and> cvs = cs @ zs \<and> coerced cf joined cs pay \<and> length cvs = length joined"
proof -
  have zeros: "of_kinds ks zs" if "set ks \<subseteq> core_kinds" "zero_values ks = Inr zs" for ks zs
    using zero_values_ok [OF that(1)] that(2) by auto
  have some: "\<exists>t cf cs pay zs. resolveType (Some ref) r = Inr t \<and> fl t = Inr cf \<and> rec v t s = (Inr pay, s') \<and>
      of_kinds cf pay \<and> cvs = cs @ zs \<and> coerced cf joined cs pay \<and> of_kinds joined cvs" if arm: "arm = Some ref" for ref
  proof -
    obtain t pay cf cs zs where *: "resolveType (Some ref) r = Inr t" "rec v t s = (Inr pay, s')" "fl t = Inr cf"
      "coerce_payload pay cf joined = Inr cs" "zero_values (drop (length cs) joined) = Inr zs" "cvs = cs @ zs"
      using l arm by (auto simp: lower_payload_def state_simps)
    have pay: "of_kinds cf pay" by (rule lowers_kindsD [OF rec *(2,3)])
    have f: "fits cf joined" using j arm *(1,3) by (auto simp: arm_joins_def)
    from coerce_payload_ok [OF pay f] *(4)
    have cs: "of_kinds (take (length cf) joined) cs" "coerced cf joined cs pay" by auto
    then have "length cs = length cf" using pay by (simp add: coerced_def of_kinds_length)
    moreover have "of_kinds (drop (length cs) joined) zs"
      using zeros [OF _ *(5)] j by (meson arm_joins_def dual_order.trans set_drop_subset)
    ultimately have "of_kinds joined cvs"
      using of_kinds_append [OF cs(1)] *(6) by (metis append_take_drop_id)
    with * pay cs show ?thesis by blast
  qed
  have none: "of_kinds joined cvs \<and> s' = s" if "arm = None"
    using l that zeros [of joined cvs] j by (auto simp: lower_payload_def state_simps arm_joins_def)
  show "of_kinds joined cvs" using some none by (cases arm) blast+
  show "arm = None \<Longrightarrow> s' = s" using none by blast
  show "arm = Some ref \<Longrightarrow> \<exists>t cf cs pay zs. resolveType (Some ref) r = Inr t \<and> fl t = Inr cf \<and> rec v t s = (Inr pay, s') \<and>
      of_kinds cf pay \<and> cvs = cs @ zs \<and> coerced cf joined cs pay \<and> length cvs = length joined"
    using some of_kinds_length by blast
qed

lemma lowerPrimitiveCore_simps [simp]:
  "lowerPrimitiveCore v ''bool'' = (case v of VBool b \<Rightarrow> Inr (NewCoreValueI32 (if b then 1 else 0)) | _ \<Rightarrow> Inl (ExpectedType ''bool''))"
  "lowerPrimitiveCore v ''u8'' = (case v of VU32 u \<Rightarrow> Inr (NewCoreValueI32 u) | _ \<Rightarrow> Inl (ExpectedType ''uint32''))"
  "lowerPrimitiveCore v ''u16'' = (case v of VU32 u \<Rightarrow> Inr (NewCoreValueI32 u) | _ \<Rightarrow> Inl (ExpectedType ''uint32''))"
  "lowerPrimitiveCore v ''u32'' = (case v of VU32 u \<Rightarrow> Inr (NewCoreValueI32 u) | _ \<Rightarrow> Inl (ExpectedType ''uint32''))"
  "lowerPrimitiveCore v ''s8'' = (case v of VI32 i \<Rightarrow> Inr (NewCoreValueI32 i) | _ \<Rightarrow> Inl (ExpectedType ''int32''))"
  "lowerPrimitiveCore v ''s16'' = (case v of VI32 i \<Rightarrow> Inr (NewCoreValueI32 i) | _ \<Rightarrow> Inl (ExpectedType ''int32''))"
  "lowerPrimitiveCore v ''s32'' = (case v of VI32 i \<Rightarrow> Inr (NewCoreValueI32 i) | _ \<Rightarrow> Inl (ExpectedType ''int32''))"
  "lowerPrimitiveCore v ''u64'' = (case v of VU64 u \<Rightarrow> Inr (NewCoreValueI64 u) | _ \<Rightarrow> Inl (ExpectedType ''uint64''))"
  "lowerPrimitiveCore v ''s64'' = (case v of VI64 i \<Rightarrow> Inr (NewCoreValueI64 i) | _ \<Rightarrow> Inl (ExpectedType ''int64''))"
  "lowerPrimitiveCore v ''f32'' = (case v of VF32 f \<Rightarrow> Inr (NewCoreValueF32 f) | _ \<Rightarrow> Inl (ExpectedType ''float32''))"
  "lowerPrimitiveCore v ''f64'' = (case v of VF64 f \<Rightarrow> Inr (NewCoreValueF64 f) | _ \<Rightarrow> Inl (ExpectedType ''float64''))"
  "lowerPrimitiveCore v ''char'' = (case v of VI32 c \<Rightarrow> rbind (rune_check c) (\<lambda>_. Inr (NewCoreValueI32 c)) | _ \<Rightarrow> Inl (ExpectedType ''rune''))"
  "lowerPrimitiveCore v ''string'' = Inl StringNotSingle"
  "lowerPrimitiveCore v ''error-context'' = (case v of VU32 h \<Rightarrow> Inr (NewCoreValueI32 h) | _ \<Rightarrow> Inl (ExpectedType ''uint32''))"
proof -
  have z: "push_bit 32 (1 :: u32) = 0" "push_bit 64 (1 :: u64) = 0"
    by code_simp+
  show "lowerPrimitiveCore v ''bool'' = (case v of VBool b \<Rightarrow> Inr (NewCoreValueI32 (if b then 1 else 0)) | _ \<Rightarrow> Inl (ExpectedType ''bool''))"
    "lowerPrimitiveCore v ''u8'' = (case v of VU32 u \<Rightarrow> Inr (NewCoreValueI32 u) | _ \<Rightarrow> Inl (ExpectedType ''uint32''))"
    "lowerPrimitiveCore v ''u16'' = (case v of VU32 u \<Rightarrow> Inr (NewCoreValueI32 u) | _ \<Rightarrow> Inl (ExpectedType ''uint32''))"
    "lowerPrimitiveCore v ''u32'' = (case v of VU32 u \<Rightarrow> Inr (NewCoreValueI32 u) | _ \<Rightarrow> Inl (ExpectedType ''uint32''))"
    "lowerPrimitiveCore v ''s8'' = (case v of VI32 i \<Rightarrow> Inr (NewCoreValueI32 i) | _ \<Rightarrow> Inl (ExpectedType ''int32''))"
    "lowerPrimitiveCore v ''s16'' = (case v of VI32 i \<Rightarrow> Inr (NewCoreValueI32 i) | _ \<Rightarrow> Inl (ExpectedType ''int32''))"
    "lowerPrimitiveCore v ''s32'' = (case v of VI32 i \<Rightarrow> Inr (NewCoreValueI32 i) | _ \<Rightarrow> Inl (ExpectedType ''int32''))"
    "lowerPrimitiveCore v ''u64'' = (case v of VU64 u \<Rightarrow> Inr (NewCoreValueI64 u) | _ \<Rightarrow> Inl (ExpectedType ''uint64''))"
    "lowerPrimitiveCore v ''s64'' = (case v of VI64 i \<Rightarrow> Inr (NewCoreValueI64 i) | _ \<Rightarrow> Inl (ExpectedType ''int64''))"
    "lowerPrimitiveCore v ''f32'' = (case v of VF32 f \<Rightarrow> Inr (NewCoreValueF32 f) | _ \<Rightarrow> Inl (ExpectedType ''float32''))"
    "lowerPrimitiveCore v ''f64'' = (case v of VF64 f \<Rightarrow> Inr (NewCoreValueF64 f) | _ \<Rightarrow> Inl (ExpectedType ''float64''))"
    "lowerPrimitiveCore v ''char'' = (case v of VI32 c \<Rightarrow> rbind (rune_check c) (\<lambda>_. Inr (NewCoreValueI32 c)) | _ \<Rightarrow> Inl (ExpectedType ''rune''))"
    "lowerPrimitiveCore v ''string'' = Inl StringNotSingle"
    "lowerPrimitiveCore v ''error-context'' = (case v of VU32 h \<Rightarrow> Inr (NewCoreValueI32 h) | _ \<Rightarrow> Inl (ExpectedType ''uint32''))"
    unfolding lowerPrimitiveCore_def z add_0_right if_cancel by simp_all
qed

lemma liftScalarPrimitive_simps [simp]:
  "liftScalarPrimitive cv ''bool'' = rbind (AsI32 cv) (\<lambda>i. Inr (VBool (i \<noteq> 0)))"
  "liftScalarPrimitive cv ''u8'' = rbind (AsI32 cv) (\<lambda>i. Inr (VU32 (i AND 0xFF)))"
  "liftScalarPrimitive cv ''u16'' = rbind (AsI32 cv) (\<lambda>i. Inr (VU32 (i AND 0xFFFF)))"
  "liftScalarPrimitive cv ''u32'' = rbind (AsI32 cv) (\<lambda>i. Inr (VU32 i))"
  "liftScalarPrimitive cv ''u64'' = rbind (AsI64 cv) (\<lambda>i. Inr (VU64 i))"
  "liftScalarPrimitive cv ''s32'' = rbind (AsI32 cv) (\<lambda>i. Inr (VI32 i))"
  "liftScalarPrimitive cv ''s64'' = rbind (AsI64 cv) (\<lambda>i. Inr (VI64 i))"
  "liftScalarPrimitive cv ''f32'' = rbind (AsF32 cv) (\<lambda>f. Inr (VF32 f))"
  "liftScalarPrimitive cv ''f64'' = rbind (AsF64 cv) (\<lambda>f. Inr (VF64 f))"
  "liftScalarPrimitive cv ''char'' = rbind (AsI32 cv) (\<lambda>i. rbind (char_check i) (\<lambda>_. Inr (VI32 i)))"
  "liftScalarPrimitive cv ''error-context'' = rbind (AsI32 cv) (\<lambda>i. Inr (VU32 i))"
  by (simp_all add: liftScalarPrimitive_def)

text \<open>Lifting a narrow signed integer extends its sign.\<close>

lemma liftScalarPrimitive_narrow [simp]:
  "liftScalarPrimitive cv ''s8'' = rbind (AsI32 cv) (\<lambda>i. Inr (VI32 (scast (ucast i :: byte))))"
  "liftScalarPrimitive cv ''s16'' = rbind (AsI32 cv) (\<lambda>i. Inr (VI32 (scast (ucast i :: 16 word))))"
proof -
  have m: "(0xFF :: u32) = mask 8" "(0xFFFF :: u32) = mask 16" by (simp_all add: mask_eq_exp_minus_1)
  have half: "m \<le> x mod (m * 2) \<longleftrightarrow> odd (x div m)" if "0 < m" for m x :: nat
  proof -
    have "x mod (m * 2) = m * (x div m mod 2) + x mod m" by (rule mod_mult2_eq)
    moreover have "x mod m < m" using that by simp
    ultimately show ?thesis by (cases "even (x div m)") (simp_all add: odd_iff_mod_2_eq_one)
  qed
  have high: "(0x80 \<le> i AND 0xFF) = bit i 7" "(0x8000 \<le> i AND 0xFFFF) = bit i 15" for i :: u32
  proof -
    have "0x80 \<le> i AND 0xFF \<longleftrightarrow> 128 \<le> unat i mod 256" "0x8000 \<le> i AND 0xFFFF \<longleftrightarrow> 32768 \<le> unat i mod 65536"
      unfolding m by (simp_all add: word_le_nat_alt unsigned_take_bit_eq take_bit_eq_mod unat_mod_distrib flip: take_bit_eq_mask)
    moreover have "bit i 7 \<longleftrightarrow> bit (unat i) 7" "bit i 15 \<longleftrightarrow> bit (unat i) 15"
      by (simp_all add: bit_unsigned_iff)
    moreover have "bit (unat i) 7 \<longleftrightarrow> odd (unat i div 128)" "bit (unat i) 15 \<longleftrightarrow> odd (unat i div 32768)"
      by (simp_all only: bit_iff_odd) simp_all
    moreover have "128 \<le> x mod 256 \<longleftrightarrow> odd (x div 128)" "32768 \<le> x mod 65536 \<longleftrightarrow> odd (x div 32768)" for x :: nat
      using half [of 128 x] half [of 32768 x] by simp_all
    ultimately show "(0x80 \<le> i AND 0xFF) = bit i 7" "(0x8000 \<le> i AND 0xFFFF) = bit i 15" by blast+
  qed
  have low: "i AND 0xFF = scast (ucast i :: byte)" if "\<not> bit i 7" for i :: u32
    unfolding m
  proof (rule bit_word_eqI)
    show "bit (i AND mask 8) n = bit (scast (ucast i :: byte) :: u32) n" if "n < LENGTH(32)" for n
      using \<open>\<not> bit i 7\<close> that by (cases "n = 7") (auto simp: bit_simps min_def)
  qed
  have low16: "i AND 0xFFFF = scast (ucast i :: 16 word)" if "\<not> bit i 15" for i :: u32
    unfolding m
  proof (rule bit_word_eqI)
    show "bit (i AND mask 16) n = bit (scast (ucast i :: 16 word) :: u32) n" if "n < LENGTH(32)" for n
      using \<open>\<not> bit i 15\<close> that by (cases "n = 15") (auto simp: bit_simps min_def)
  qed
  have cut: "ucast (i AND 0xFF) = (ucast i :: byte)" "ucast (i AND 0xFFFF) = (ucast i :: 16 word)" for i :: u32
    unfolding m by (rule bit_word_eqI; simp add: bit_simps)+
  show "liftScalarPrimitive cv ''s8'' = rbind (AsI32 cv) (\<lambda>i. Inr (VI32 (scast (ucast i :: byte))))"
    "liftScalarPrimitive cv ''s16'' = rbind (AsI32 cv) (\<lambda>i. Inr (VI32 (scast (ucast i :: 16 word))))"
    by (cases "AsI32 cv"; simp add: liftScalarPrimitive_def Let_def high cut low low16 cong: if_cong)+
qed

lemma flattenPrimitive_simps [simp]:
  "flattenPrimitive ''bool'' = Inr [''i32'']" "flattenPrimitive ''s8'' = Inr [''i32'']" "flattenPrimitive ''s16'' = Inr [''i32'']"
  "flattenPrimitive ''s32'' = Inr [''i32'']" "flattenPrimitive ''f32'' = Inr [''f32'']" "flattenPrimitive ''char'' = Inr [''i32'']"
  "flattenPrimitive ''s64'' = Inr [''i64'']" "flattenPrimitive ''u64'' = Inr [''i64'']" "flattenPrimitive ''f64'' = Inr [''f64'']"
  "flattenPrimitive ''string'' = Inr [''i32'', ''i32'']" "flattenPrimitive ''error-context'' = Inr [''i32'']"
  by (simp_all add: flattenPrimitive_def)

lemma flattenPrimitive_names: "flattenPrimitive p = Inr fs \<Longrightarrow> p \<in> prim_names"
proof (rule ccontr)
  assume "flattenPrimitive p = Inr fs" "p \<notin> prim_names"
  then show False by (simp add: flattenPrimitive_def prim_names_def)
qed

text \<open>What lifting makes of a lowered primitive.\<close>

definition flat_prim :: "string \<Rightarrow> val \<Rightarrow> val option" where
  "flat_prim p v = (if p = ''s8'' then (case v of VI32 w \<Rightarrow> Some (VI32 (scast (ucast w :: byte))) | _ \<Rightarrow> None)
     else reload_prim p v)"

lemma and_narrow: "i AND 0xFF = ucast (ucast (i :: u32) :: byte)" "i AND 0xFFFF = ucast (ucast i :: 16 word)"
proof -
  have m: "(0xFF :: u32) = mask 8" "(0xFFFF :: u32) = mask 16" by (simp_all add: mask_eq_exp_minus_1)
  show "i AND 0xFF = ucast (ucast (i :: u32) :: byte)" "i AND 0xFFFF = ucast (ucast i :: 16 word)"
    unfolding m by (rule bit_word_eqI; auto simp: bit_simps)+
qed

lemma lowerPrimitiveCore_lift:
  assumes "lowerPrimitiveCore v p = Inr cv" "flattenPrimitive p = Inr fs"
  shows "fs = [CoreKind cv] \<and> well_kinded cv \<and> (\<forall>w. flat_prim p v = Some w \<longrightarrow> liftScalarPrimitive cv p = Inr w)"
  using flattenPrimitive_names [OF assms(2)] assms unfolding prim_names_def
  by (elim insertE emptyE; cases v)
     (auto simp: flat_prim_def reload_prim_def and_narrow rbind_eq_Inr rune_check_char)

lemma flat_pair_kinds: "of_kinds [''i32'', ''i32''] (flat_pair pl)"
  by (cases pl) (simp add: flat_pair_def)

lemma lowerFlatPrimitive_kinds:
  assumes "lowerFlatPrimitive v p realloc s = (Inr cvs, s')" "flattenPrimitive p = Inr fs"
  shows "of_kinds fs cvs"
proof (cases "p = ''string''")
  case True
  then show ?thesis using assms
    by (auto simp: lowerFlatPrimitive_def lowerFlatString_def state_simps flat_pair_kinds split: val.splits)
next
  case False
  then obtain cv where "lowerPrimitiveCore v p = Inr cv" "cvs = [cv]"
    using assms(1) by (auto simp: lowerFlatPrimitive_def rbind_eq_Inr)
  with lowerPrimitiveCore_lift [OF _ assms(2)] show ?thesis by simp
qed

lemma lowerFlatVariant_kinds:
  assumes "lowers_kinds rec fl" "kinds_ok fl" "flattenVariant fl r cs = Inr fs"
    and "lowerFlatVariant rec fl (Inr fs) v cs r s = (Inr cvs, s')"
  shows "of_kinds fs cvs"
proof -
  obtain joined where j: "fs = ''i32'' # joined" "\<forall>c \<in> set cs. arm_joins fl r (CaseType c) joined"
    using flattenVariant_arms [OF assms(2,3)] by blast
  obtain disc payload pcvs where v: "v = VVariant disc payload" "unat disc < length cs"
    "lower_payload rec fl (CaseType (cs ! unat disc)) payload joined r s = (Inr pcvs, s')" "cvs = NewCoreValueI32 disc # pcvs"
    using assms(4) j(1) by (auto simp: lowerFlatVariant_def joined_types_def state_simps split: val.splits if_split_asm)
  with lower_payload_inv(1) [OF assms(1) _ v(3)] j show ?thesis by simp
qed

lemma lowerFlatResult_kinds:
  assumes "lowers_kinds rec fl" "kinds_ok fl" "flattenResult fl r a b = Inr fs"
    and "lowerFlatResult rec fl (Inr fs) v a b r s = (Inr cvs, s')"
  shows "of_kinds fs cvs"
proof -
  obtain joined where j: "fs = ''i32'' # joined" "arm_joins fl r a joined" "arm_joins fl r b joined"
    using flattenResult_arms [OF assms(2,3)] by blast
  obtain e payload pcvs where v: "lower_payload rec fl (if e then b else a) payload joined r s = (Inr pcvs, s')"
    "cvs = NewCoreValueI32 (if e then 1 else 0) # pcvs"
    using assms(4) j(1) by (auto simp: lowerFlatResult_def joined_types_def state_simps split: val.splits)
  with lower_payload_inv(1) [OF assms(1) _ v(1)] j show ?thesis by (cases e) simp_all
qed

lemma lowerFlatOption_kinds:
  assumes "lowers_kinds rec fl" "kinds_ok fl" "flattenOption fl r e = Inr fs" "resolveType (Some e) r = Inr t"
    and "lowerFlatOption rec fl v t s = (Inr cvs, s')"
  shows "of_kinds fs cvs"
proof -
  obtain ef where ef: "fl t = Inr ef" "fs = ''i32'' # ef"
    using assms(3,4) by (auto simp: flattenOption_def ref_flat_def rbind_eq_Inr)
  have "set ef \<subseteq> core_kinds" using assms(2) ef(1) by (auto simp: kinds_ok_def)
  then obtain zs where "zero_values ef = Inr zs" "of_kinds ef zs" using zero_values_ok by blast
  then show ?thesis
    using assms(5) ef lowers_kindsD [OF assms(1)]
    by (auto simp: lowerFlatOption_def state_simps split: if_split_asm)
qed

lemma lower_handle_kinds: "lower_handle v = Inr cvs \<Longrightarrow> of_kinds [''i32''] cvs"
  by (auto simp: lower_handle_def rbind_eq_Inr)

lemma lowerFlatImpl_kinds: "lowers_kinds (lowerFlatImpl n r realloc) (Flatten n r)"
proof (induction n)
  case (Suc n)
  note kinds = Flatten_kinds [of n r]
  show ?case
    unfolding lowers_kinds_def
  proof (intro allI impI)
    fix v t s cvs s' fs
    assume l: "lowerFlatImpl (Suc n) r realloc v t s = (Inr cvs, s')" and f: "Flatten (Suc n) r t = Inr fs"
    then obtain d where t: "t = Some d" by (cases t) auto
    show "of_kinds fs cvs"
    proof (cases d)
      case (VariantDesc cs)
      have "lowerFlatVariant (lowerFlatImpl n r realloc) (Flatten n r) (Inr fs) v cs r s = (Inr cvs, s')"
        using l f unfolding t VariantDesc by simp
      moreover have "flattenVariant (Flatten n r) r cs = Inr fs" using f unfolding t VariantDesc by simp
      ultimately show ?thesis by (intro lowerFlatVariant_kinds [OF Suc kinds])
    next
      case (ResultDesc a b)
      have "lowerFlatResult (lowerFlatImpl n r realloc) (Flatten n r) (Inr fs) v a b r s = (Inr cvs, s')"
        using l f unfolding t ResultDesc by simp
      moreover have "flattenResult (Flatten n r) r a b = Inr fs" using f unfolding t ResultDesc by simp
      ultimately show ?thesis by (intro lowerFlatResult_kinds [OF Suc kinds])
    next
      case (OptionDesc e)
      then show ?thesis using l f lowerFlatOption_kinds [OF Suc kinds] by (auto simp: t state_simps)
    next
      case (PrimitiveDesc p)
      then show ?thesis using l f lowerFlatPrimitive_kinds by (simp add: t)
    next
      case (RecordDesc fds)
      then show ?thesis using l f lower_product_kinds [OF Suc] by (simp add: t lowerFlatRecord_def flatten_products)
    next
      case (TupleDesc es)
      then show ?thesis using l f lower_product_kinds [OF Suc] by (simp add: t lowerFlatTuple_def flatten_products)
    next
      case (ListDesc e)
      then show ?thesis using l f by (auto simp: t state_simps lowerFlatList_def flat_pair_kinds)
    next
      case (FlagsDesc ns)
      then show ?thesis using l f
        by (auto simp: t lowerFlatFlags_def flattenFlagsNumLabels_def rbind_eq_Inr split: if_split_asm)
    next
      case (EnumDesc ns)
      then show ?thesis using l f
        by (auto simp: t lowerFlatEnum_def flattenEnum_def rbind_eq_Inr split: if_split_asm)
    qed (use l f in \<open>auto simp: t dest: lower_handle_kinds\<close>)
  qed
qed (simp add: lowers_kinds_def)

subsection \<open>Lifting what was lowered\<close>

text \<open>
  \<open>flat_reload n r t v\<close> is the value that lifting yields after \<open>v\<close> was lowered as a \<open>t\<close>. It is
  \<open>reload\<close> except that a narrow signed integer is always an \<open>int32\<close> and flags are not cut to their
  width; the elements of lists, which are stored in memory, follow \<open>reload\<close>.
\<close>

primrec flat_reload :: "nat \<Rightarrow> resolver \<Rightarrow> reload_fn" where
  "flat_reload 0 resolve t v = None"
| "flat_reload (Suc fuel) resolve t v =
     (let rec = flat_reload fuel resolve
      in case t of None \<Rightarrow> None
      | Some desc \<Rightarrow>
          (case desc of
             PrimitiveDesc p \<Rightarrow> flat_prim p v
           | ListDesc elem \<Rightarrow>
               (case resolveType (Some elem) resolve of Inl _ \<Rightarrow> None | Inr t \<Rightarrow> reload_list (reload fuel resolve) t v)
           | RecordDesc fs \<Rightarrow>
               (case v of VList vs \<Rightarrow> map_VList (reload_members rec resolve (map FieldType fs) vs) | _ \<Rightarrow> None)
           | TupleDesc elems \<Rightarrow>
               (case v of VList vs \<Rightarrow> map_VList (reload_members rec resolve elems vs) | _ \<Rightarrow> None)
           | VariantDesc cs \<Rightarrow>
               (case v of VVariant disc payload \<Rightarrow>
                  map_option (VVariant disc) (reload_arm rec resolve (CaseType (cs ! unat disc)) payload) | _ \<Rightarrow> None)
           | OptionDesc elem \<Rightarrow> if v = VNil then Some VNil else reload_ref rec resolve elem v
           | ResultDesc okr errr \<Rightarrow>
               (case v of VResult isErr payload \<Rightarrow>
                  map_option (VResult isErr) (reload_arm rec resolve (if isErr then errr else okr) payload) | _ \<Rightarrow> None)
           | _ \<Rightarrow> (case v of VU32 w \<Rightarrow> Some (VU32 w) | _ \<Rightarrow> None)))"

definition lifts_back ::
    "('g mstate \<Rightarrow> nat set) \<Rightarrow> 'g lower_fn \<Rightarrow> flat_fn \<Rightarrow> (byte list \<Rightarrow> lift_fn) \<Rightarrow> reload_fn \<Rightarrow> bool" where
  "lifts_back owned rec fl lift rl \<longleftrightarrow>
     (\<forall>v t s cvs s' fs. rec v t s = (Inr cvs, s') \<longrightarrow> fl t = Inr fs \<longrightarrow>
        stored owned {} s s' (\<lambda>m. \<forall>w vi vi'. rl t v = Some w \<longrightarrow> supplies vi cvs vi' \<longrightarrow> lift m t vi = (Inr w, vi')))"

lemma lifts_backD:
  "lifts_back owned rec fl lift rl \<Longrightarrow> rec v t s = (Inr cvs, s') \<Longrightarrow> fl t = Inr fs \<Longrightarrow>
   stored owned {} s s' (\<lambda>m. \<forall>w vi vi'. rl t v = Some w \<longrightarrow> supplies vi cvs vi' \<longrightarrow> lift m t vi = (Inr w, vi'))"
  unfolding lifts_back_def by blast

lemma next_pair_supplies:
  "supplies vi (flat_pair (p, n)) vi' \<Longrightarrow> p \<le> MaxUint32 \<Longrightarrow> n \<le> MaxUint32 \<Longrightarrow> next_pair vi = (Inr (p, n), vi')"
  by (auto simp: next_pair_def flat_pair_def sbind_def Next_supplies unat_of_nat MaxUint32_def simp del: supplies.simps(2))

lemma lowerFlatString_back:
  assumes "allocator_ok owned realloc" "lowerFlatString str realloc s = (Inr cvs, s')"
  shows "stored owned {} s s' (\<lambda>m. \<forall>vi vi'. utf8_valid str \<longrightarrow> length str \<le> MaxUint32 \<longrightarrow> supplies vi cvs vi' \<longrightarrow>
    liftFlatString m vi = (Inr (VString str), vi'))"
proof -
  obtain p n where a: "alloc_copy str realloc s = (Inr (p, n), s')" "cvs = flat_pair (p, n)"
    using assms(2) by (auto simp: lowerFlatString_def allocStoreString_def state_simps)
  note c = alloc_copy_stored [OF assms(1) a(1)]
  from c have "stored owned {} s s' (\<lambda>m. p + n \<le> length m \<and> slice_of m p n = take n str)" by blast
  then show ?thesis
  proof (rule stored_weaken [OF _ order_refl], intro allI impI)
    fix m vi vi'
    assume m: "p + n \<le> length m \<and> slice_of m p n = take n str" "utf8_valid str" "length str \<le> MaxUint32" "supplies vi cvs vi'"
    then have n: "n = length str" using c by (simp add: MaxUint32_def)
    then have "next_pair vi = (Inr (p, n), vi')"
      using next_pair_supplies m(3,4) c unfolding a(2) by blast
    then show "liftFlatString m vi = (Inr (VString str), vi')"
      using m n by (simp add: liftFlatString_def sbind_def loadStringFromRange_eq checkedRange_def Let_def)
  qed
qed

lemma lowerFlatPrimitive_back:
  assumes "allocator_ok owned realloc" "lowerFlatPrimitive v p realloc s = (Inr cvs, s')" "flattenPrimitive p = Inr fs"
  shows "stored owned {} s s' (\<lambda>m. \<forall>w vi vi'. flat_prim p v = Some w \<longrightarrow> supplies vi cvs vi' \<longrightarrow>
    liftFlatPrimitive m p vi = (Inr w, vi'))"
proof (cases "p = ''string''")
  case True
  then obtain str where v: "v = VString str" "lowerFlatString str realloc s = (Inr cvs, s')"
    using assms(2) by (auto simp: lowerFlatPrimitive_def split: val.splits)
  show ?thesis
    using lowerFlatString_back [OF assms(1) v(2)]
    by (rule stored_weaken) (auto simp: True v(1) flat_prim_def reload_prim_def liftFlatPrimitive_def split: if_split_asm)
next
  case False
  then obtain cv where cv: "lowerPrimitiveCore v p = Inr cv" "cvs = [cv]" "s' = s"
    using assms(2) by (auto simp: lowerFlatPrimitive_def rbind_eq_Inr)
  have "liftFlatPrimitive m p vi = (Inr w, vi')" if "flat_prim p v = Some w" "supplies vi cvs vi'" for m w vi vi'
    using that False lowerPrimitiveCore_lift [OF cv(1) assms(3)] cv(2)
    by (auto simp: liftFlatPrimitive_def sbind_def Next_supplies simp del: supplies.simps(2)) 
  then show ?thesis unfolding cv(3) by (intro stored_refl) blast
qed

lemma lowerFlatList_back:
  assumes "allocator_ok owned realloc" "stores_ok owned r st ld rl" "loads_bytes ld rl"
    and "lowerFlatList st v t r realloc s = (Inr cvs, s')"
  shows "stored owned {} s s' (\<lambda>m. \<forall>w vi vi'. reload_list rl t v = Some w \<longrightarrow> supplies vi cvs vi' \<longrightarrow>
    liftFlatList (ld m) m t r vi = (Inr w, vi'))"
proof -
  obtain p n where a: "allocStoreAnyList st v t r realloc s = (Inr (p, n), s')" "cvs = flat_pair (p, n)"
    using assms(4) by (auto simp: lowerFlatList_def state_simps)
  note c = allocStoreAnyList_stored [OF assms(1-3) a(1)]
  from c have "stored owned {} s s' (\<lambda>m. \<forall>w. reload_list rl t v = Some w \<longrightarrow>
      (\<exists>ws. w = VList ws \<and> loadListFromRange (ld m) m p n t r = Inr ws))" by blast
  then show ?thesis
  proof (rule stored_weaken [OF _ order_refl], intro allI impI)
    fix m w vi vi'
    assume m: "\<forall>w. reload_list rl t v = Some w \<longrightarrow> (\<exists>ws. w = VList ws \<and> loadListFromRange (ld m) m p n t r = Inr ws)"
      "reload_list rl t v = Some w" "supplies vi cvs vi'"
    then have "next_pair vi = (Inr (p, n), vi')" using next_pair_supplies c unfolding a(2) by blast
    with m(1,2) show "liftFlatList (ld m) m t r vi = (Inr w, vi')"
      by (auto simp: liftFlatList_def sbind_def)
  qed
qed

lemma lower_members_back:
  assumes IH: "lifts_back owned rec fl lift rl"
  shows "lower_members rec r refs vs s = (Inr cvs, s') \<Longrightarrow> flat_refs fl r refs = Inr fs \<Longrightarrow>
    stored owned {} s s' (\<lambda>m. \<forall>ws vi vi'. reload_members rl r refs vs = Some ws \<longrightarrow> supplies vi cvs vi' \<longrightarrow>
      lift_members (lift m) r refs vi = (Inr ws, vi'))"
proof (induction refs arbitrary: vs s cvs fs)
  case (Cons ref refs)
  obtain t s1 flat flats f fs' where l: "resolveType (Some ref) r = Inr t" "rec (hd vs) t s = (Inr flat, s1)"
    "lower_members rec r refs (tl vs) s1 = (Inr flats, s')" "cvs = flat @ flats" "fl t = Inr f" "flat_refs fl r refs = Inr fs'"
    using Cons.prems by (auto simp: state_simps rbind_eq_Inr)
  from stored_seq [OF lifts_backD [OF IH l(2,5)] Cons.IH [OF l(3,6)]]
  have "stored owned {} s s' (\<lambda>m. (\<forall>w vi vi'. rl t (hd vs) = Some w \<longrightarrow> supplies vi flat vi' \<longrightarrow> lift m t vi = (Inr w, vi')) \<and>
     (\<forall>ws vi vi'. reload_members rl r refs (tl vs) = Some ws \<longrightarrow> supplies vi flats vi' \<longrightarrow>
       lift_members (lift m) r refs vi = (Inr ws, vi')))" by simp
  then show ?case
  proof (rule stored_weaken [OF _ order_refl], elim conjE, intro allI impI)
    fix m ws vi vi'
    assume m: "\<forall>w vi vi'. rl t (hd vs) = Some w \<longrightarrow> supplies vi flat vi' \<longrightarrow> lift m t vi = (Inr w, vi')"
      "\<forall>ws vi vi'. reload_members rl r refs (tl vs) = Some ws \<longrightarrow> supplies vi flats vi' \<longrightarrow>
         lift_members (lift m) r refs vi = (Inr ws, vi')"
      "reload_members rl r (ref # refs) vs = Some ws" "supplies vi cvs vi'"
    obtain w ws' where ws: "rl t (hd vs) = Some w" "reload_members rl r refs (tl vs) = Some ws'" "ws = w # ws'"
      using m(3) l(1) by (auto simp: reload_ref_def split: option.splits)
    obtain vm where "supplies vi flat vm" "supplies vm flats vi'"
      using m(4) l(4) supplies_append by blast
    with m(1,2) ws have "lift m t vi = (Inr w, vm)" "lift_members (lift m) r refs vm = (Inr ws', vi')" by blast+
    then show "lift_members (lift m) r (ref # refs) vi = (Inr ws, vi')"
      using ws(3) l(1) by (simp add: sbind_def)
  qed
qed (auto intro!: stored_refl)

lemma lower_product_back:
  assumes IH: "lifts_back owned rec fl lift rl"
    and "lower_product rec v refs r s = (Inr cvs, s')" "flat_refs fl r refs = Inr fs"
  shows "\<exists>vs. v = VList vs \<and> stored owned {} s s' (\<lambda>m. \<forall>ws vi vi'. reload_members rl r refs vs = Some ws \<longrightarrow>
    supplies vi cvs vi' \<longrightarrow> lift_members (lift m) r refs vi = (Inr ws, vi'))"
proof -
  obtain vs where "v = VList vs" "lower_members rec r refs vs s = (Inr cvs, s')"
    using assms(2) by (auto simp: lower_product_def expect_list_def state_simps split: val.splits if_split_asm)
  with lower_members_back [OF IH _ assms(3)] show ?thesis by blast
qed

lemma lower_payload_back:
  assumes IH: "lifts_back owned rec fl lift rl" and kinds: "lowers_kinds rec fl" and j: "arm_joins fl r arm joined"
    and l: "lower_payload rec fl arm v joined r s = (Inr cvs, s')"
  shows "stored owned {} s s' (\<lambda>m. \<forall>w vi vi'. reload_arm rl r arm v = Some w \<longrightarrow> supplies vi cvs vi' \<longrightarrow>
    lift_payload (lift m) fl arm joined r vi = (Inr w, vi'))"
proof (cases arm)
  case None
  have "skip_values (length joined) vi = (Inr (), vi')" if "supplies vi cvs vi'" for vi vi'
    using skip_values_supplies [OF that] of_kinds_length [OF lower_payload_inv(1) [OF kinds j l]] by simp
  then show ?thesis
    unfolding lower_payload_inv(2) [OF kinds j l None]
    by (intro stored_refl) (simp add: None lift_payload_def sbind_def reload_arm_def)
next
  case (Some ref)
  obtain t cf cs pay zs where i: "resolveType (Some ref) r = Inr t" "fl t = Inr cf" "rec v t s = (Inr pay, s')"
    "cvs = cs @ zs" "coerced cf joined cs pay" "length cvs = length joined"
    using lower_payload_inv(3) [OF kinds j l Some] by blast
  from lifts_backD [OF IH i(3,2)] show ?thesis
  proof (rule stored_weaken [OF _ order_refl], intro allI impI)
    fix m w vi vi'
    assume m: "\<forall>w vi vi'. rl t v = Some w \<longrightarrow> supplies vi pay vi' \<longrightarrow> lift m t vi = (Inr w, vi')"
      "reload_arm rl r arm v = Some w" "supplies vi cvs vi'"
    obtain u where u: "supplies vi cs u" "supplies u zs vi'" using m(3) i(4) supplies_append by blast
    have "lift m t (CoercingValueIter vi joined cf 0) = (Inr w, CoercingValueIter u joined cf (length cf))"
      using m(1,2) supplies_coercing [OF u(1) i(5)] by (simp add: Some reload_arm_def reload_ref_def i(1))
    moreover have "length joined - length cf = length zs" using i(4-6) by (auto simp: coerced_def)
    ultimately show "lift_payload (lift m) fl arm joined r vi = (Inr w, vi')"
      using skip_values_supplies [OF u(2)]
      by (simp add: Some lift_payload_def i(1,2) sbind_def through_coercing_def)
  qed
qed

lemma lowerFlatVariant_back:
  assumes IH: "lifts_back owned rec fl lift rl" and kinds: "lowers_kinds rec fl" "kinds_ok fl"
    and f: "flattenVariant fl r cs = Inr fs" and l: "lowerFlatVariant rec fl (Inr fs) v cs r s = (Inr cvs, s')"
  shows "\<exists>disc payload. v = VVariant disc payload \<and> stored owned {} s s' (\<lambda>m. \<forall>w vi vi'.
    reload_arm rl r (CaseType (cs ! unat disc)) payload = Some w \<longrightarrow> supplies vi cvs vi' \<longrightarrow>
    liftFlatVariant (lift m) fl (Inr fs) cs r vi = (Inr (VVariant disc w), vi'))"
proof -
  obtain joined where j: "fs = ''i32'' # joined" "\<forall>c \<in> set cs. arm_joins fl r (CaseType c) joined"
    using flattenVariant_arms [OF kinds(2) f] by blast
  obtain disc payload pcvs where v: "v = VVariant disc payload" "unat disc < length cs"
    "lower_payload rec fl (CaseType (cs ! unat disc)) payload joined r s = (Inr pcvs, s')" "cvs = NewCoreValueI32 disc # pcvs"
    using l j(1) by (auto simp: lowerFlatVariant_def joined_types_def state_simps split: val.splits if_split_asm)
  have "arm_joins fl r (CaseType (cs ! unat disc)) joined" using j(2) v(2) by simp
  from lower_payload_back [OF IH kinds(1) this v(3)]
  have "stored owned {} s s' (\<lambda>m. \<forall>w vi vi'.
    reload_arm rl r (CaseType (cs ! unat disc)) payload = Some w \<longrightarrow> supplies vi cvs vi' \<longrightarrow>
    liftFlatVariant (lift m) fl (Inr fs) cs r vi = (Inr (VVariant disc w), vi'))"
    by (rule stored_weaken)
       (use v(2) in \<open>auto simp: liftFlatVariant_def j(1) v(4) joined_types_def sbind_def Next_supplies simp del: supplies.simps(2)\<close>)
  with v(1) show ?thesis by blast
qed

lemma lowerFlatResult_back:
  assumes IH: "lifts_back owned rec fl lift rl" and kinds: "lowers_kinds rec fl" "kinds_ok fl"
    and f: "flattenResult fl r a b = Inr fs" and l: "lowerFlatResult rec fl (Inr fs) v a b r s = (Inr cvs, s')"
  shows "\<exists>e payload. v = VResult e payload \<and> stored owned {} s s' (\<lambda>m. \<forall>w vi vi'.
    reload_arm rl r (if e then b else a) payload = Some w \<longrightarrow> supplies vi cvs vi' \<longrightarrow>
    liftFlatResult (lift m) fl (Inr fs) a b r vi = (Inr (VResult e w), vi'))"
proof -
  obtain joined where j: "fs = ''i32'' # joined" "arm_joins fl r a joined" "arm_joins fl r b joined"
    using flattenResult_arms [OF kinds(2) f] by blast
  obtain e payload pcvs where v: "v = VResult e payload"
    "lower_payload rec fl (if e then b else a) payload joined r s = (Inr pcvs, s')"
    "cvs = NewCoreValueI32 (if e then 1 else 0) # pcvs"
    using l j(1) by (auto simp: lowerFlatResult_def joined_types_def state_simps split: val.splits)
  have "arm_joins fl r (if e then b else a) joined" using j(2,3) by simp
  from lower_payload_back [OF IH kinds(1) this v(2)]
  have "stored owned {} s s' (\<lambda>m. \<forall>w vi vi'.
    reload_arm rl r (if e then b else a) payload = Some w \<longrightarrow> supplies vi cvs vi' \<longrightarrow>
    liftFlatResult (lift m) fl (Inr fs) a b r vi = (Inr (VResult e w), vi'))"
    by (rule stored_weaken)
       (auto simp: liftFlatResult_def j(1) v(3) joined_types_def sbind_def Next_supplies simp del: supplies.simps(2))
  with v(1) show ?thesis by blast
qed

lemma lowerFlatOption_back:
  assumes IH: "lifts_back owned rec fl lift rl" and kinds: "lowers_kinds rec fl" "kinds_ok fl"
    and f: "fl t = Inr ef" and l: "lowerFlatOption rec fl v t s = (Inr cvs, s')"
  shows "stored owned {} s s' (\<lambda>m. \<forall>w vi vi'. (if v = VNil then Some VNil else rl t v) = Some w \<longrightarrow>
    supplies vi cvs vi' \<longrightarrow> liftFlatOption (lift m) fl t vi = (Inr w, vi'))"
proof (cases "v = VNil")
  case True
  have "set ef \<subseteq> core_kinds" using kinds(2) f by (auto simp: kinds_ok_def)
  then obtain zs where zs: "zero_values ef = Inr zs" "of_kinds ef zs" using zero_values_ok by blast
  then have "cvs = NewCoreValueI32 0 # zs" "s' = s" using l f True by (auto simp: lowerFlatOption_def)
  moreover have "skip_values (length ef) vi = (Inr (), vi')" if "supplies vi zs vi'" for vi vi'
    using skip_values_supplies [OF that] of_kinds_length [OF zs(2)] by simp
  ultimately show ?thesis
    by (auto simp: True liftFlatOption_def f sbind_def Next_supplies intro!: stored_refl simp del: supplies.simps(2))
next
  case False
  then obtain pay where p: "rec v t s = (Inr pay, s')" "cvs = NewCoreValueI32 1 # pay"
    using l f by (auto simp: lowerFlatOption_def state_simps)
  from lifts_backD [OF IH p(1) f] show ?thesis
    by (rule stored_weaken)
       (auto simp: False liftFlatOption_def p(2) sbind_def Next_supplies simp del: supplies.simps(2))
qed

lemma lower_handle_back:
  "lower_handle v = Inr cvs \<Longrightarrow> (case v of VU32 w \<Rightarrow> Some (VU32 w) | _ \<Rightarrow> None) = Some w \<Longrightarrow> supplies vi cvs vi' \<Longrightarrow>
   lift_handle vi = (Inr w, vi')"
  by (auto simp: lower_handle_def rbind_eq_Inr expect_u32_def lift_handle_def sbind_def Next_supplies
      simp del: supplies.simps(2) split: val.splits)

lemma lowerFlatImpl_back:
  assumes ok: "allocator_ok owned realloc"
  shows "lifts_back owned (lowerFlatImpl n r realloc) (Flatten n r) (\<lambda>m. liftFlatImpl n m r) (flat_reload n r)"
proof (induction n)
  case (Suc n)
  note kinds = lowerFlatImpl_kinds [of n r realloc] Flatten_kinds [of n r]
  show ?case
    unfolding lifts_back_def
  proof (intro allI impI)
    fix v t s cvs s' fs
    assume l: "lowerFlatImpl (Suc n) r realloc v t s = (Inr cvs, s')" and f: "Flatten (Suc n) r t = Inr fs"
    then obtain d where t: "t = Some d" by (cases t) auto
    let ?Q = "\<lambda>m. \<forall>w vi vi'. flat_reload (Suc n) r t v = Some w \<longrightarrow> supplies vi cvs vi' \<longrightarrow>
      liftFlatImpl (Suc n) m r t vi = (Inr w, vi')"
    have handle: "stored owned {} s s' ?Q"
      if "lower_handle v = Inr cvs" "s' = s" "\<And>m. liftFlatImpl (Suc n) m r t = lift_handle"
        "flat_reload (Suc n) r t v = (case v of VU32 w \<Rightarrow> Some (VU32 w) | _ \<Rightarrow> None)"
      unfolding that(2-4) by (intro stored_refl allI impI lower_handle_back [OF that(1)])
    show "stored owned {} s s' ?Q"
    proof (cases d)
      case (VariantDesc cs)
      have "lowerFlatVariant (lowerFlatImpl n r realloc) (Flatten n r) (Inr fs) v cs r s = (Inr cvs, s')"
        "flattenVariant (Flatten n r) r cs = Inr fs"
        using l f unfolding t VariantDesc by simp_all
      from lowerFlatVariant_back [OF Suc kinds this(2,1)] obtain disc payload
        where v: "v = VVariant disc payload" and st: "stored owned {} s s' (\<lambda>m. \<forall>w vi vi'.
          reload_arm (flat_reload n r) r (CaseType (cs ! unat disc)) payload = Some w \<longrightarrow> supplies vi cvs vi' \<longrightarrow>
          liftFlatVariant (liftFlatImpl n m r) (Flatten n r) (Inr fs) cs r vi = (Inr (VVariant disc w), vi'))" by blast
      show ?thesis
        by (rule stored_weaken [OF st order_refl]) (use f in \<open>auto simp: t VariantDesc v\<close>)
    next
      case (ResultDesc a b)
      have "lowerFlatResult (lowerFlatImpl n r realloc) (Flatten n r) (Inr fs) v a b r s = (Inr cvs, s')"
        "flattenResult (Flatten n r) r a b = Inr fs"
        using l f unfolding t ResultDesc by simp_all
      from lowerFlatResult_back [OF Suc kinds this(2,1)] obtain e payload
        where v: "v = VResult e payload" and st: "stored owned {} s s' (\<lambda>m. \<forall>w vi vi'.
          reload_arm (flat_reload n r) r (if e then b else a) payload = Some w \<longrightarrow> supplies vi cvs vi' \<longrightarrow>
          liftFlatResult (liftFlatImpl n m r) (Flatten n r) (Inr fs) a b r vi = (Inr (VResult e w), vi'))" by blast
      show ?thesis
        by (rule stored_weaken [OF st order_refl]) (use f in \<open>auto simp: t ResultDesc v\<close>)
    next
      case (OptionDesc e)
      obtain et ef where e: "resolveType (Some e) r = Inr et" "Flatten n r et = Inr ef"
        using f by (auto simp: t OptionDesc flattenOption_def ref_flat_def rbind_eq_Inr)
      have "lowerFlatOption (lowerFlatImpl n r realloc) (Flatten n r) v et s = (Inr cvs, s')"
        using l by (simp add: t OptionDesc e(1))
      from lowerFlatOption_back [OF Suc kinds e(2) this] show ?thesis
        by (rule stored_weaken) (auto simp: t OptionDesc e(1) reload_ref_def)
    next
      case (PrimitiveDesc p)
      then have "lowerFlatPrimitive v p realloc s = (Inr cvs, s')" "flattenPrimitive p = Inr fs"
        using l f by (simp_all add: t)
      from lowerFlatPrimitive_back [OF ok this] show ?thesis by (rule stored_weaken) (auto simp: t PrimitiveDesc)
    next
      case (RecordDesc fds)
      then have "lower_product (lowerFlatImpl n r realloc) v (map FieldType fds) r s = (Inr cvs, s')"
        "flat_refs (Flatten n r) r (map FieldType fds) = Inr fs"
        using l f by (simp_all add: t lowerFlatRecord_def flatten_products)
      from lower_product_back [OF Suc this] obtain vs where v: "v = VList vs" and
        st: "stored owned {} s s' (\<lambda>m. \<forall>ws vi vi'. reload_members (flat_reload n r) r (map FieldType fds) vs = Some ws \<longrightarrow>
          supplies vi cvs vi' \<longrightarrow> lift_members (liftFlatImpl n m r) r (map FieldType fds) vi = (Inr ws, vi'))" by blast
      show ?thesis
        by (rule stored_weaken [OF st order_refl]) (auto simp: t RecordDesc v map_VList_def liftFlatRecord_def sbind_def)
    next
      case (TupleDesc es)
      then have "lower_product (lowerFlatImpl n r realloc) v es r s = (Inr cvs, s')"
        "flat_refs (Flatten n r) r es = Inr fs"
        using l f by (simp_all add: t lowerFlatTuple_def flatten_products)
      from lower_product_back [OF Suc this] obtain vs where v: "v = VList vs" and
        st: "stored owned {} s s' (\<lambda>m. \<forall>ws vi vi'. reload_members (flat_reload n r) r es vs = Some ws \<longrightarrow>
          supplies vi cvs vi' \<longrightarrow> lift_members (liftFlatImpl n m r) r es vi = (Inr ws, vi'))" by blast
      show ?thesis
        by (rule stored_weaken [OF st order_refl]) (auto simp: t TupleDesc v map_VList_def liftFlatTuple_def sbind_def)
    next
      case (ListDesc e)
      then obtain et where e: "resolveType (Some e) r = Inr et"
        "lowerFlatList (storeValue n r realloc) v et r realloc s = (Inr cvs, s')"
        using l by (auto simp: t state_simps)
      from lowerFlatList_back [OF ok storeValue_stored [OF ok] loads_bytes_loadValue e(2)] show ?thesis
        by (rule stored_weaken) (auto simp: t ListDesc e(1))
    next
      case (FlagsDesc ns)
      then show ?thesis using l
        by (auto simp: t lowerFlatFlags_def liftFlatFlags_def rbind_eq_Inr expect_u32_def sbind_def Next_supplies
            simp del: supplies.simps(2) split: val.splits intro!: stored_refl)
    next
      case (EnumDesc ns)
      then show ?thesis using l
        by (auto simp: t lowerFlatEnum_def liftFlatEnum_def rbind_eq_Inr expect_u32_def sbind_def Next_supplies
            simp del: supplies.simps(2) split: val.splits if_split_asm intro!: stored_refl)
    next
      case (OwnDesc h)
      show ?thesis by (rule handle) (use l in \<open>auto simp: t OwnDesc\<close>)
    next
      case (BorrowDesc h)
      show ?thesis by (rule handle) (use l in \<open>auto simp: t BorrowDesc\<close>)
    next
      case (StreamDesc h)
      show ?thesis by (rule handle) (use l in \<open>auto simp: t StreamDesc\<close>)
    next
      case (FutureDesc h)
      show ?thesis by (rule handle) (use l in \<open>auto simp: t FutureDesc\<close>)
    qed (use l in \<open>auto simp: t\<close>)
  qed
qed (simp add: lifts_back_def)

subsection \<open>Lifting values of the flattened type\<close>

text \<open>\<open>m\<close> run on \<open>vi\<close> does not panic, and if it succeeds it leaves \<open>vi'\<close>.\<close>

definition consumes :: "'a vop \<Rightarrow> value_iter \<Rightarrow> value_iter \<Rightarrow> bool" where
  "consumes m vi vi' \<longleftrightarrow> no_panic (fst (m vi)) \<and> (\<forall>x. fst (m vi) = Inr x \<longrightarrow> snd (m vi) = vi')"

lemma consumes_bind:
  assumes "consumes m vi vm" "\<And>x. m vi = (Inr x, vm) \<Longrightarrow> consumes (f x) vm vi'"
  shows "consumes (sbind m f) vi vi'"
proof (cases "m vi")
  case (Pair res v1)
  then show ?thesis using assms
    by (cases res) (auto simp: consumes_def sbind_def)
qed

lemma consumes_slift: "no_panic r \<Longrightarrow> consumes (slift r) vi vi"
  by (simp add: consumes_def)

lemma consumes_sret [simp]: "consumes (sret x) vi vi"
  by (simp add: consumes_def)

lemma consumes_sfail [simp]: "consumes (sfail e) vi vi' \<longleftrightarrow> (\<forall>msg. e \<noteq> Panic msg)"
  by (simp add: consumes_def)

lemma consumes_run: "m vi = (Inr x, vi') \<Longrightarrow> consumes m vi vi'"
  by (simp add: consumes_def)

lemma consumes_Next: "supplies vi (cv # cvs) vi' \<Longrightarrow> \<exists>v1. Next vi = (Inr cv, v1) \<and> supplies v1 cvs vi'"
  by (simp only: Next_supplies)

lemma consumes_skip: "supplies vi cvs vi' \<Longrightarrow> length cvs = k \<Longrightarrow> consumes (skip_values k) vi vi'"
  using skip_values_supplies by (intro consumes_run) blast

lemma AsI32_kind: "CoreKind cv = ''i32'' \<Longrightarrow> \<exists>w. AsI32 cv = Inr w"
  and AsI64_kind: "CoreKind cv = ''i64'' \<Longrightarrow> \<exists>w. AsI64 cv = Inr w"
  and AsF32_kind: "CoreKind cv = ''f32'' \<Longrightarrow> \<exists>w. AsF32 cv = Inr w"
  and AsF64_kind: "CoreKind cv = ''f64'' \<Longrightarrow> \<exists>w. AsF64 cv = Inr w"
  by (simp_all add: AsI32_def AsI64_def AsF32_def AsF64_def)

text \<open>Reading one \<open>i32\<close>, or a pair of them.\<close>

lemma consumes_i32:
  assumes "supplies vi (cv # cvs) vi'" "CoreKind cv = ''i32''" "\<And>w v1. supplies v1 cvs vi' \<Longrightarrow> consumes (f w) v1 vi'"
  shows "consumes (sbind Next (\<lambda>cv. sbind (slift (AsI32 cv)) f)) vi vi'"
proof -
  obtain v1 where v1: "Next vi = (Inr cv, v1)" "supplies v1 cvs vi'" using consumes_Next [OF assms(1)] by blast
  obtain w where "AsI32 cv = Inr w" using AsI32_kind [OF assms(2)] by blast
  with v1 assms(3) [OF v1(2)] show ?thesis by (auto simp: consumes_def sbind_def)
qed

lemma next_pair_kinds:
  assumes "supplies vi [a, b] vi'" "CoreKind a = ''i32''" "CoreKind b = ''i32''"
  shows "\<exists>p n. next_pair vi = (Inr (p, n), vi')"
proof -
  obtain x y where "AsI32 a = Inr x" "AsI32 b = Inr y" using AsI32_kind assms(2,3) by blast
  with assms(1) show ?thesis by (auto simp: next_pair_def sbind_def Next_supplies simp del: supplies.simps(2))
qed

lemma consumes_pair:
  assumes "of_kinds [''i32'', ''i32''] cvs" "supplies vi cvs vi'" "\<And>p n. no_panic (f (p, n))"
  shows "consumes (sbind next_pair (\<lambda>pn. slift (f pn))) vi vi'"
proof -
  obtain a b where "cvs = [a, b]" "CoreKind a = ''i32''" "CoreKind b = ''i32''"
    using assms(1) by (auto simp: of_kinds_def map_eq_Cons_conv)
  with next_pair_kinds [of vi a b vi'] assms(2) obtain p n where "next_pair vi = (Inr (p, n), vi')" by blast
  then show ?thesis using assms(3) by (auto intro!: consumes_bind [OF consumes_run] consumes_slift)
qed

lemma no_panic_char_check [simp]: "no_panic (char_check i)"
  by (simp add: char_check_def)

lemma no_panic_scalar:
  assumes "flattenPrimitive p = Inr [k]" "CoreKind cv = k"
  shows "no_panic (liftScalarPrimitive cv p)"
proof -
  have r: "no_panic (rbind m f)" if "\<exists>w. m = Inr w" "\<And>w. no_panic (f w)" for m :: "abi_error + 'c" and f :: "'c \<Rightarrow> abi_error + val"
    using that by auto
  have kinds: "CoreKind cv = ''i32'' \<Longrightarrow> \<exists>w. AsI32 cv = Inr w" "CoreKind cv = ''i64'' \<Longrightarrow> \<exists>w. AsI64 cv = Inr w"
    "CoreKind cv = ''f32'' \<Longrightarrow> \<exists>w. AsF32 cv = Inr w" "CoreKind cv = ''f64'' \<Longrightarrow> \<exists>w. AsF64 cv = Inr w"
    using AsI32_kind AsI64_kind AsF32_kind AsF64_kind by blast+
  show ?thesis
    using flattenPrimitive_names [OF assms(1)] assms unfolding prim_names_def
    by (elim insertE emptyE) (auto simp: kinds r AsI32_def intro!: no_panic_rbind)
qed

lemma consumes_primitive:
  assumes "flattenPrimitive p = Inr fs" "of_kinds fs cvs" "supplies vi cvs vi'"
  shows "consumes (liftFlatPrimitive m p) vi vi'"
proof (cases "p = ''string''")
  case True
  have eq: "liftFlatString m = sbind next_pair (\<lambda>pn. slift ((\<lambda>(p, n). rbind (loadStringFromRange m p n) (\<lambda>s. Inr (VString s))) pn))"
    by (simp add: liftFlatString_def case_prod_beta')
  have "no_panic (loadStringFromRange m p n)" for p n
    unfolding loadStringFromRange_eq Let_def by (intro panic_free; simp)
  then have "consumes (liftFlatString m) vi vi'"
    unfolding eq using assms True by (intro consumes_pair [where cvs = cvs]) (auto intro!: no_panic_rbind)
  then show ?thesis using True by (simp add: liftFlatPrimitive_def)
next
  case False
  have "length fs = 1"
    using flattenPrimitive_names [OF assms(1)] assms(1) False unfolding prim_names_def by (elim insertE emptyE) auto
  then obtain cv where cv: "cvs = [cv]" "fs = [CoreKind cv]" 
    using assms(2) by (auto simp: of_kinds_def length_Suc_conv)
  with assms(3) have "Next vi = (Inr cv, vi')" by (auto simp: Next_supplies simp del: supplies.simps(2))
  with no_panic_scalar [of p _ cv] assms(1) cv show ?thesis
    using False by (auto simp: liftFlatPrimitive_def intro!: consumes_bind [OF consumes_run] consumes_slift)
qed

text \<open>De-coercing any values of the joined types gives values of the case's types.\<close>

lemma deCoerce_total:
  assumes "coerces k (CoreKind c)" "well_kinded c" "k \<in> core_kinds"
  shows "\<exists>cv. deCoerceValue c (CoreKind c) k = Inr cv \<and> CoreKind cv = k \<and> well_kinded cv"
proof (cases "k = CoreKind c")
  case False
  with assms(1) have "CoreKind c = ''i64'' \<or> (CoreKind c = ''i32'' \<and> k = ''f32'')" by (auto simp: coerces_def)
  then show ?thesis
    using assms(2,3) False by (auto simp: well_kinded_def core_kinds_def)
qed (use assms in simp)

lemma coerced_total:
  "of_kinds (take (length cf) joined) cs \<Longrightarrow> fits cf joined \<Longrightarrow> set cf \<subseteq> core_kinds \<Longrightarrow>
   \<exists>pay. coerced cf joined cs pay \<and> of_kinds cf pay"
proof (induction cf arbitrary: joined cs)
  case (Cons k cf)
  obtain j js where j: "joined = j # js" using Cons.prems(2) by (cases joined) auto
  obtain c cs' where c: "cs = c # cs'" "CoreKind c = j" "well_kinded c" "of_kinds (take (length cf) js) cs'"
    using Cons.prems(1) j by (cases cs) auto
  obtain pay where "coerced cf js cs' pay" "of_kinds cf pay"
    using Cons.IH [OF c(4)] Cons.prems(2,3) j by auto
  moreover obtain cv where "deCoerceValue c j k = Inr cv" "CoreKind cv = k" "well_kinded cv"
    using deCoerce_total [of k c] c(2,3) Cons.prems(2,3) j by auto
  ultimately have "coerced (k # cf) joined cs (cv # pay) \<and> of_kinds (k # cf) (cv # pay)"
    using c(1) j by simp
  then show ?case by blast
qed simp

text \<open>The induction hypothesis.\<close>

definition lifts_all :: "lift_fn \<Rightarrow> flat_fn \<Rightarrow> bool" where
  "lifts_all lift fl \<longleftrightarrow> (\<forall>t fs cvs vi vi'. fl t = Inr fs \<longrightarrow> of_kinds fs cvs \<longrightarrow> supplies vi cvs vi' \<longrightarrow> consumes (lift t) vi vi')"

lemma lifts_allD:
  "lifts_all lift fl \<Longrightarrow> fl t = Inr fs \<Longrightarrow> of_kinds fs cvs \<Longrightarrow> supplies vi cvs vi' \<Longrightarrow> consumes (lift t) vi vi'"
  unfolding lifts_all_def by blast

lemma of_kinds_appendD:
  "of_kinds (ks @ ls) cvs \<Longrightarrow> \<exists>as bs. cvs = as @ bs \<and> of_kinds ks as \<and> of_kinds ls bs"
  unfolding of_kinds_def by (metis list_all_append map_eq_append_conv)

lemma consumes_members:
  assumes "lifts_all lift fl"
  shows "flat_refs fl r refs = Inr fs \<Longrightarrow> of_kinds fs cvs \<Longrightarrow> supplies vi cvs vi' \<Longrightarrow> consumes (lift_members lift r refs) vi vi'"
proof (induction refs arbitrary: fs cvs vi)
  case (Cons ref refs)
  then obtain t f fs' where t: "resolveType (Some ref) r = Inr t" "fl t = Inr f" "flat_refs fl r refs = Inr fs'" "fs = f @ fs'"
    by (auto simp: rbind_eq_Inr)
  obtain as bs where c: "cvs = as @ bs" "of_kinds f as" "of_kinds fs' bs"
    using of_kinds_appendD Cons.prems(2) t(4) by blast
  obtain vm where "supplies vi as vm" "supplies vm bs vi'" using Cons.prems(3) c(1) supplies_append by blast
  then show ?case
    using lifts_allD [OF assms t(2) c(2)] Cons.IH [OF t(3) c(3)] t(1)
    by (auto intro!: consumes_bind [where m = "lift t" and vm = vm] consumes_bind [where m = "lift_members lift r refs" and vm = vi'])
qed auto

lemma consumes_payload:
  assumes IH: "lifts_all lift fl" and kinds: "kinds_ok fl" and j: "arm_joins fl r arm joined"
    and c: "of_kinds joined cvs" "supplies vi cvs vi'"
  shows "consumes (lift_payload lift fl arm joined r) vi vi'"
proof (cases arm)
  case None
  then show ?thesis using consumes_skip [OF c(2) of_kinds_length [OF c(1)]]
    by (auto simp: lift_payload_def intro: consumes_bind)
next
  case (Some ref)
  show ?thesis
  proof (cases "resolveType (Some ref) r")
    case (Inl e)
    then show ?thesis using no_panic_layout_basic(1) [of "Some ref" r]
      by (simp add: Some lift_payload_def consumes_def)
  next
    case (Inr t)
    obtain cf where cf: "fl t = Inr cf" "fits cf joined" using j Some Inr by (auto simp: arm_joins_def)
    have le: "length cf \<le> length joined" using cf(2) by (simp add: fits_def)
    obtain as bs where s: "cvs = as @ bs" "of_kinds (take (length cf) joined) as" "of_kinds (drop (length cf) joined) bs"
      using of_kinds_appendD c(1) by (metis append_take_drop_id)
    obtain u where u: "supplies vi as u" "supplies u bs vi'" using c(2) s(1) supplies_append by blast
    obtain pay where pay: "coerced cf joined as pay" "of_kinds cf pay"
      using coerced_total [OF s(2) cf(2)] kinds cf(1) by (auto simp: kinds_ok_def)
    have "consumes (lift t) (CoercingValueIter vi joined cf 0) (CoercingValueIter u joined cf (length cf))"
      by (rule lifts_allD [OF IH cf(1) pay(2) supplies_coercing [OF u(1) pay(1)]])
    then have through: "consumes (through_coercing joined cf (lift t)) vi u"
      "\<And>x i v2. through_coercing joined cf (lift t) vi = (Inr (x, i), v2) \<Longrightarrow> i = length cf"
      by (auto simp: consumes_def through_coercing_def no_panic_def split: prod.splits sum.splits)
    have "consumes (skip_values (length joined - length cf)) u vi'"
      using consumes_skip [OF u(2)] of_kinds_length [OF s(3)] by simp
    then have "consumes (sbind (through_coercing joined cf (lift t))
        (\<lambda>(payload, i). sbind (skip_values (length joined - i)) (\<lambda>_. sret payload))) vi vi'"
      using through(2) by (intro consumes_bind [OF through(1)]) (auto intro!: consumes_bind [where vm = vi'])
    then show ?thesis by (simp add: Some lift_payload_def Inr cf(1))
  qed
qed

lemma consumes_variant:
  assumes IH: "lifts_all lift fl" and kinds: "kinds_ok fl" and f: "flattenVariant fl r cs = Inr fs"
    and c: "of_kinds fs cvs" "supplies vi cvs vi'"
  shows "consumes (liftFlatVariant lift fl (Inr fs) cs r) vi vi'"
proof -
  obtain joined where j: "fs = ''i32'' # joined" "\<forall>c \<in> set cs. arm_joins fl r (CaseType c) joined"
    using flattenVariant_arms [OF kinds f] by blast
  obtain d pay where d: "cvs = d # pay" "CoreKind d = ''i32''" "of_kinds joined pay"
    using c(1) j(1) by (cases cvs) auto
  have eq: "liftFlatVariant lift fl (Inr fs) cs r = sbind Next (\<lambda>discCV. sbind (slift (AsI32 discCV)) (\<lambda>caseIdx.
      if unat caseIdx \<ge> length cs then sfail (CaseOutOfRange (unat caseIdx) (length cs))
      else sbind (lift_payload lift fl (CaseType (cs ! unat caseIdx)) joined r) (\<lambda>payload. sret (VVariant caseIdx payload))))"
    by (simp add: liftFlatVariant_def j(1) joined_types_def)
  show ?thesis
    unfolding eq using c(2) d j(2)
    by (intro consumes_i32 [where cv = d and cvs = pay])
       (auto intro!: consumes_bind [where vm = vi'] consumes_payload [OF IH kinds])
qed

lemma consumes_result:
  assumes IH: "lifts_all lift fl" and kinds: "kinds_ok fl" and f: "flattenResult fl r a b = Inr fs"
    and c: "of_kinds fs cvs" "supplies vi cvs vi'"
  shows "consumes (liftFlatResult lift fl (Inr fs) a b r) vi vi'"
proof -
  obtain joined where j: "fs = ''i32'' # joined" "arm_joins fl r a joined" "arm_joins fl r b joined"
    using flattenResult_arms [OF kinds f] by blast
  obtain d pay where d: "cvs = d # pay" "CoreKind d = ''i32''" "of_kinds joined pay"
    using c(1) j(1) by (cases cvs) auto
  have eq: "liftFlatResult lift fl (Inr fs) a b r = sbind Next (\<lambda>cv. sbind (slift (AsI32 cv)) (\<lambda>disc.
      if disc = 0 \<or> disc = 1 then
        sbind (lift_payload lift fl (if disc = 1 then b else a) joined r) (\<lambda>payload. sret (VResult (disc = 1) payload))
      else sfail (InvalidDiscriminant (unat disc))))"
    by (simp add: liftFlatResult_def j(1) joined_types_def)
  show ?thesis
    unfolding eq using c(2) d j(2,3)
    by (intro consumes_i32 [where cv = d and cvs = pay])
       (auto intro!: consumes_bind [where vm = vi'] consumes_payload [OF IH kinds])
qed

lemma consumes_option:
  assumes IH: "lifts_all lift fl" and f: "fl t = Inr ef" and c: "of_kinds (''i32'' # ef) cvs" "supplies vi cvs vi'"
  shows "consumes (liftFlatOption lift fl t) vi vi'"
proof -
  obtain d pay where d: "cvs = d # pay" "CoreKind d = ''i32''" "of_kinds ef pay"
    using c(1) by (cases cvs) auto
  then show ?thesis
    unfolding liftFlatOption_def f slift_Inr sbind_sret using c(2)
    by (intro consumes_i32 [where cv = d and cvs = pay])
       (auto intro!: consumes_bind [where vm = vi'] consumes_skip [where cvs = pay] lifts_allD [OF IH f] dest: of_kinds_length)
qed

lemma consumes_handle:
  assumes "of_kinds [''i32''] cvs" "supplies vi cvs vi'"
  shows "consumes lift_handle vi vi'" "consumes liftFlatFlags vi vi'" "consumes (liftFlatEnum ns) vi vi'"
proof -
  obtain d where d: "cvs = [d]" "CoreKind d = ''i32''" using assms(1) by (cases cvs) (auto split: if_splits)
  show "consumes lift_handle vi vi'" "consumes liftFlatFlags vi vi'" "consumes (liftFlatEnum ns) vi vi'"
    unfolding lift_handle_def liftFlatFlags_def liftFlatEnum_def using assms(2) d
    by (intro consumes_i32 [where cv = d and cvs = "[]"]; auto)+
qed

lemma consumes_list:
  assumes "of_kinds [''i32'', ''i32''] cvs" "supplies vi cvs vi'" "\<And>p t. no_panic (ld p t)"
  shows "consumes (liftFlatList ld m t r) vi vi'"
proof -
  have eq: "liftFlatList ld m t r = sbind next_pair (\<lambda>pn. slift ((\<lambda>(p, n). rbind (loadListFromRange ld m p n t r) (\<lambda>vs. Inr (VList vs))) pn))"
    by (simp add: liftFlatList_def case_prod_beta')
  show ?thesis unfolding eq
    by (rule consumes_pair [OF assms(1,2)]) (simp add: no_panic_rbind no_panic_loadList assms(3))
qed

lemma liftFlatImpl_all: "lifts_all (liftFlatImpl n m r) (Flatten n r)"
proof (induction n)
  case (Suc n)
  note kinds = Flatten_kinds [of n r]
  show ?case
    unfolding lifts_all_def
  proof (intro allI impI)
    fix t fs cvs vi vi'
    assume f: "Flatten (Suc n) r t = Inr fs" and c: "of_kinds fs cvs" "supplies vi cvs vi'"
    then obtain d where t: "t = Some d" by (cases t) auto
    show "consumes (liftFlatImpl (Suc n) m r t) vi vi'"
    proof (cases d)
      case (VariantDesc cs)
      then show ?thesis using f consumes_variant [OF Suc kinds _ c] by (simp add: t)
    next
      case (ResultDesc a b)
      then show ?thesis using f consumes_result [OF Suc kinds _ c] by (simp add: t)
    next
      case (OptionDesc e)
      obtain et ef where e: "resolveType (Some e) r = Inr et" "Flatten n r et = Inr ef" "fs = ''i32'' # ef"
        using f by (auto simp: t OptionDesc flattenOption_def ref_flat_def rbind_eq_Inr)
      then show ?thesis using consumes_option [OF Suc e(2) _ c(2)] c(1) by (simp add: t OptionDesc)
    next
      case (PrimitiveDesc p)
      then show ?thesis using f consumes_primitive [OF _ c] by (simp add: t)
    next
      case (RecordDesc fds)
      then have "flat_refs (Flatten n r) r (map FieldType fds) = Inr fs" using f by (simp add: t flatten_products)
      from consumes_members [OF Suc this c] show ?thesis
        by (auto simp: t RecordDesc liftFlatRecord_def intro: consumes_bind)
    next
      case (TupleDesc es)
      then have "flat_refs (Flatten n r) r es = Inr fs" using f by (simp add: t flatten_products)
      from consumes_members [OF Suc this c] show ?thesis
        by (auto simp: t TupleDesc liftFlatTuple_def intro: consumes_bind)
    next
      case (ListDesc e)
      have "fs = [''i32'', ''i32'']" using f by (simp add: t ListDesc)
      then have "consumes (liftFlatList (loadValue n m r) m et r) vi vi'" for et
        using consumes_list [OF _ c(2)] c(1) no_panic_loadValue by blast
      moreover have "no_panic (resolveType (Some e) r)" by simp
      ultimately show ?thesis
        by (cases "resolveType (Some e) r") (simp_all add: t ListDesc)
    next
      case (FlagsDesc ns)
      then have "fs = [''i32'']" using f by (auto simp: t flattenFlagsNumLabels_def split: if_split_asm)
      then show ?thesis using consumes_handle(2) [OF _ c(2)] c(1) by (simp add: t FlagsDesc)
    next
      case (EnumDesc ns)
      then have "fs = [''i32'']" using f by (auto simp: t flattenEnum_def split: if_split_asm)
      then show ?thesis using consumes_handle(3) [OF _ c(2)] c(1) by (simp add: t EnumDesc)
    qed (use f c consumes_handle(1) [OF _ c(2)] in \<open>auto simp: t\<close>)
  qed
qed (simp add: lifts_all_def)

subsection \<open>Canonical values\<close>

lemma canonical_prim_flat: "canonical_prim p v \<Longrightarrow> flat_prim p v = Some v"
  using canonical_prim_reload [of p v]
  by (cases v) (auto simp: flat_prim_def canonical_prim_def scast_narrow split: if_split_asm)

lemma canonical_flat_reload: "canonical n r t v \<Longrightarrow> flat_reload n r t v = Some v"
proof (induction n arbitrary: t v)
  case (Suc n)
  note sub = canonical_members_reload [where can = "canonical n r" and rl = "flat_reload n r", OF Suc.IH]
    canonical_arm_reload [where can = "canonical n r" and rl = "flat_reload n r", OF Suc.IH]
    canonical_list_reload [where can = "canonical n r" and rl = "reload n r", OF canonical_reload]
  from Suc.prems obtain d where t: "t = Some d" by (cases t) auto
  show ?case
    using Suc.prems unfolding t
    by (cases d; cases v)
       (auto simp: canonical_prim_flat sub map_VList_def reload_list_def canonical_ref_def reload_ref_def Suc.IH
         simp del: insert_iff split: sum.splits)
qed simp

subsection \<open>The top level\<close>

lemma lowerPrimitiveCore_names: "lowerPrimitiveCore v p = Inr cv \<Longrightarrow> p \<in> prim_names"
proof (rule ccontr)
  assume "lowerPrimitiveCore v p = Inr cv" "p \<notin> prim_names"
  then show False by (simp add: lowerPrimitiveCore_def prim_names_def)
qed

lemma prim_names_flatten: "p \<in> prim_names \<Longrightarrow> \<exists>fs. flattenPrimitive p = Inr fs \<and> length fs \<le> 2"
  unfolding prim_names_def by (elim insertE emptyE) simp_all

text \<open>A successful lowering is one of the two walks, whether or not it took the fast path.\<close>

lemma LowerFlat_cases:
  assumes "LowerFlat (Suc n) v t r realloc s = (Inr cvs, s')"
  obtains (flat) fs where "Flatten (Suc n) r t = Inr fs" "length fs \<le> MaxFlatParams"
      "lowerFlatImpl (Suc n) r realloc v t s = (Inr cvs, s')"
    | (spill) fs ptr where "Flatten (Suc n) r t = Inr fs" "length fs > MaxFlatParams"
      "spillValue (Suc n) v t r realloc s = (Inr ptr, s')" "cvs = [NewCoreValueI32 (word_of_nat ptr)]"
proof (cases "\<exists>p. t = Some (PrimitiveDesc p) \<and> p \<noteq> ''string''")
  case True
  then obtain p where t: "t = Some (PrimitiveDesc p)" "p \<noteq> ''string''" by blast
  then obtain cv where cv: "lowerPrimitiveCore v p = Inr cv" "cvs = [cv]" "s' = s"
    using assms by (auto simp: LowerFlat_def LowerFlatInto_def rbind_eq_Inr)
  obtain fs where "flattenPrimitive p = Inr fs" "length fs \<le> 2"
    using prim_names_flatten [OF lowerPrimitiveCore_names [OF cv(1)]] by blast
  with cv t flat show ?thesis by (simp add: lowerFlatPrimitive_def MaxFlatParams_def)
next
  case False
  define walk where "walk = sbind (slift (Flatten (Suc n) r t)) (\<lambda>flatTypes.
          if length flatTypes > MaxFlatParams then
            sbind (spillValue (Suc n) v t r realloc) (\<lambda>ptr. sret ([] @ [NewCoreValueI32 (word_of_nat ptr)]))
          else sbind (lowerFlatImpl (Suc n) r realloc v t) (\<lambda>flat. sret ([] @ flat)))"
  have "LowerFlat (Suc n) v t r realloc = walk"
    unfolding LowerFlat_def LowerFlatInto_def Let_def walk_def [symmetric]
    using False by (auto split: option.split type_desc.split)
  with assms have w: "walk s = (Inr cvs, s')" by simp
  then obtain fs where fs: "Flatten (Suc n) r t = Inr fs"
    unfolding walk_def by (cases "Flatten (Suc n) r t") (simp_all del: Flatten.simps)
  show ?thesis
  proof (cases "length fs > MaxFlatParams")
    case True
    then obtain ptr where "spillValue (Suc n) v t r realloc s = (Inr ptr, s')" "cvs = [NewCoreValueI32 (word_of_nat ptr)]"
      using w unfolding walk_def fs by (auto simp: state_simps)
    with fs True spill show ?thesis by blast
  next
    case False
    then have "lowerFlatImpl (Suc n) r realloc v t s = (Inr cvs, s')"
      using w unfolding walk_def fs by (auto simp: state_simps simp del: lowerFlatImpl.simps)
    with fs False flat show ?thesis by (meson not_less)
  qed
qed

lemma Size_le: "Size t r = Inr z \<Longrightarrow> z \<le> MaxUint32"
  using sizeUnchecked_aligned by (fastforce simp: Size_def rbind_eq_Inr aligned_size_def)

lemma Grow_le: "Grow realloc a b c d s = (Inr p, s') \<Longrightarrow> p \<le> MaxUint32"
  by (auto simp: Grow_def state_simps u32_le_Max split: option.splits)

lemma spillValue_Load:
  assumes ok: "allocator_ok owned realloc" and sp: "spillValue n v t r realloc s = (Inr ptr, s')"
    and len: "length (lin_mem s') \<le> 2 ^ 32" and w: "reload n r t v = Some w"
  shows "Load n (lin_mem s') ptr t r = Inr w" "ptr \<le> MaxUint32"
proof -
  obtain a z s1 where a: "Size t r = Inr z" "Grow realloc 0 0 a z s = (Inr ptr, s1)"
    "Store n ptr t v r realloc s1 = (Inr (), s')"
    using sp by (auto simp: spillValue_def state_simps)
  have "{ptr..<ptr + z} \<subseteq> owned s1" using Grow_frame(2) [OF ok a(2) Size_le [OF a(1)]] by auto
  then show "Load n (lin_mem s') ptr t r = Inr w"
    by (rule Store_reload_Load [OF ok a(3,1) _ len w])
  show "ptr \<le> MaxUint32" by (rule Grow_le [OF a(2)])
qed

text \<open>What the host gets back for a value that it passed in.\<close>

definition passed :: "nat \<Rightarrow> resolver \<Rightarrow> type_desc option \<Rightarrow> val \<Rightarrow> val option" where
  "passed n r t v = (case Flatten n r t of
      Inr fs \<Rightarrow> if length fs > MaxFlatParams then reload n r t v else flat_reload n r t v | Inl _ \<Rightarrow> None)"

lemma canonical_passed: "canonical n r t v \<Longrightarrow> Flatten n r t = Inr fs \<Longrightarrow> passed n r t v = Some v"
  by (simp add: passed_def canonical_reload canonical_flat_reload)

lemma LowerFlat_LiftFlat_passed:
  assumes ok: "allocator_ok owned realloc" and l: "LowerFlat n v t r realloc s = (Inr cvs, s')"
    and len: "length (lin_mem s') \<le> 2 ^ 32" and n: "0 < n" and w: "\<And>fs. Flatten n r t = Inr fs \<Longrightarrow> passed n r t v = Some w"
  shows "LiftFlat n cvs t r (lin_mem s') = Inr w"
proof -
  obtain k where k: "n = Suc k" using n by (cases n) auto
  from l [unfolded k] show ?thesis
  proof (cases rule: LowerFlat_cases)
    case (flat fs)
    have "flat_reload n r t v = Some w" using w flat(1,2) by (simp add: passed_def k)
    moreover have "stored owned {} s s' (\<lambda>m. \<forall>w vi vi'. flat_reload n r t v = Some w \<longrightarrow> supplies vi cvs vi' \<longrightarrow>
        liftFlatImpl n m r t vi = (Inr w, vi'))"
      using lifts_backD [OF lowerFlatImpl_back [OF ok] flat(3,1)] by (simp add: k)
    ultimately have "liftFlatImpl n (lin_mem s') r t (CoreValueIter cvs 0) = (Inr w, CoreValueIter cvs (length cvs))"
      using supplies_start [of cvs] len unfolding stored_def by (simp add: MaxUint32_def)
    then show ?thesis using flat(1,2) by (simp add: LiftFlat_def k)
  next
    case (spill fs ptr)
    have "reload n r t v = Some w" using w spill(1,2) by (simp add: passed_def k)
    from spillValue_Load [OF ok spill(3) [folded k] len this]
    have "Load n (lin_mem s') ptr t r = Inr w" "unat (word_of_nat ptr :: u32) = ptr"
      by (simp_all add: unat_of_nat MaxUint32_def)
    then show ?thesis using spill by (simp add: LiftFlat_def k)
  qed
qed

subsection \<open>Properties\<close>

text \<open>C6. Lowering a value yields core values whose types are exactly the flattening of its type, also for
  variants, options and results, where the payload is coerced to the joined types and padded.\<close>

theorem lowerFlatImpl_flattened:
  assumes "lowerFlatImpl n r realloc v t s = (Inr cvs, s')" "Flatten n r t = Inr fs"
  shows "map CoreKind cvs = fs"
  using lowers_kindsD [OF lowerFlatImpl_kinds assms] by (simp add: of_kinds_def)

text \<open>C3. Passing a value through the flat ABI and back: lifting the lowered core values, in the memory
  the lowering left, gives what the specification \<open>passed\<close> says, on the flat path and on the
  path through memory that is taken beyond 16 core values.\<close>

theorem LowerFlat_LiftFlat:
  assumes "allocator_ok owned realloc" "LowerFlat n v t r realloc s = (Inr cvs, s')" "length (lin_mem s') \<le> 2 ^ 32"
    "passed n r t v = Some w"
  shows "LiftFlat n cvs t r (lin_mem s') = Inr w"
proof -
  have "0 < n" using assms(4) by (cases n) (auto simp: passed_def)
  then show ?thesis by (rule LowerFlat_LiftFlat_passed [OF assms(1-3) _ assms(4)])
qed

text \<open>A canonical value passes through the flat ABI unchanged.\<close>

theorem LowerFlat_LiftFlat_identity:
  assumes "canonical n r t v" "allocator_ok owned realloc" "LowerFlat n v t r realloc s = (Inr cvs, s')"
    "length (lin_mem s') \<le> 2 ^ 32"
  shows "LiftFlat n cvs t r (lin_mem s') = Inr v"
proof -
  have "0 < n" using assms(1) by (cases n) auto
  then show ?thesis by (rule LowerFlat_LiftFlat_passed [OF assms(2-4) _ canonical_passed [OF assms(1)]])
qed

text \<open>Core values of the right number and types never make lifting panic, whatever their bits and the
  memory are: a guest cannot crash the host this way. If lifting succeeds it has
  consumed every core value, also through the nested coercing iterators of variants.\<close>

theorem liftFlatImpl_safe:
  assumes "Flatten n r t = Inr fs" "map CoreKind vals = fs" "list_all well_kinded vals"
    "liftFlatImpl n m r t (CoreValueIter vals 0) = (res, vi)"
  shows "res \<noteq> Inl (Panic msg) \<and> (\<forall>w. res = Inr w \<longrightarrow> Done vi)"
proof -
  have "of_kinds fs vals" using assms(2,3) by (simp add: of_kinds_def)
  from lifts_allD [OF liftFlatImpl_all assms(1) this supplies_start]
  have "consumes (liftFlatImpl n m r t) (CoreValueIter vals 0) (CoreValueIter vals (length vals))" .
  with assms(4) show ?thesis by (auto simp: consumes_def no_panic_def)
qed

text \<open>The join of core types loses nothing: a payload value coerced to the joined type of its position
  and de-coerced on the other side is the same value, and the payload never leaves the joined types.\<close>

theorem coerce_payload_lossless:
  assumes "of_kinds cf cvs" "fits cf joined"
  shows "\<exists>cs. coerce_payload cvs cf joined = Inr cs \<and> map CoreKind cs = take (length cf) joined \<and>
    (\<forall>i < length cf. deCoerceValue (cs ! i) (joined ! i) (cf ! i) = Inr (cvs ! i))"
  using coerce_payload_ok [OF assms] by (auto simp: of_kinds_def coerced_def)

text \<open>The examples: a variant whose three cases flatten differently, and a tuple too wide to be passed flat.\<close>

definition mixed_variant :: "type_desc option" where
  "mixed_variant = Some (VariantDesc [plain_case ''a'' (Some (prim ''f32'')), plain_case ''b'' (Some (prim ''u64'')),
     plain_case ''c'' (Some (prim ''string''))])"

definition wide_tuple :: "type_desc option" where
  "wide_tuple = Some (TupleDesc (replicate 17 (prim ''u8'')))"

definition wide_value :: val where "wide_value = VList (replicate 17 (VU32 7))"

definition wide_guest :: "nat mstate" where
  "wide_guest = \<lparr>lin_mem = replicate 20 0, guest = 1\<rparr>"

lemma mixed_flat: "Flatten 3 None mixed_variant = Inr [''i32'', ''i64'', ''i32'']"
  by code_simp

lemma mixed_lower:
  "lowerFlatImpl 3 None (Some bump_alloc) (VVariant 0 (VF32 0x3F800000)) mixed_variant small_guest =
    (Inr [NewCoreValueI32 0, NewCoreValueI64 0x3F800000, NewCoreValueI32 0], small_guest)"
  by code_simp

theorem lowerFlatImpl_flattened_witness:
  "map CoreKind [NewCoreValueI32 0, NewCoreValueI64 0x3F800000, NewCoreValueI32 0] = [''i32'', ''i64'', ''i32'']"
  by (rule lowerFlatImpl_flattened [OF mixed_lower mixed_flat])

theorem LowerFlat_LiftFlat_witness:
  "LiftFlat 2 [NewCoreValueI32 1] wide_tuple None ([0] @ replicate 17 7 @ [0, 0]) = Inr wide_value"
proof -
  have l: "LowerFlat 2 wide_value wide_tuple None (Some bump_alloc) wide_guest =
    (Inr [NewCoreValueI32 1], \<lparr>lin_mem = [0] @ replicate 17 7 @ [0, 0], guest = 18\<rparr>)"
    by code_simp
  have "passed 2 None wide_tuple wide_value = Some wide_value" by code_simp
  from LowerFlat_LiftFlat [OF bump_alloc_ok l _ this] show ?thesis by simp
qed

theorem LowerFlat_LiftFlat_identity_witness:
  "LiftFlat 3 [NewCoreValueI32 2, NewCoreValueI64 12, NewCoreValueI32 2] mixed_variant None
     (replicate 12 0 @ [0x68, 0x69] @ replicate 10 0) = Inr (VVariant 2 (VString [0x68, 0x69]))"
proof -
  have l: "LowerFlat 3 (VVariant 2 (VString [0x68, 0x69])) mixed_variant None (Some bump_alloc) small_guest =
    (Inr [NewCoreValueI32 2, NewCoreValueI64 12, NewCoreValueI32 2],
     \<lparr>lin_mem = replicate 12 0 @ [0x68, 0x69] @ replicate 10 0, guest = 14\<rparr>)"
    by code_simp
  have c: "canonical 3 None mixed_variant (VVariant 2 (VString [0x68, 0x69]))" by code_simp
  from LowerFlat_LiftFlat_identity [OF c bump_alloc_ok l] show ?thesis by simp
qed

theorem liftFlatImpl_safe_witness:
  "liftFlatImpl 3 [] None mixed_variant (CoreValueIter [NewCoreValueI32 0, NewCoreValueI64 0xFFFF3F800000, NewCoreValueI32 5] 0) =
     (Inr (VVariant 0 (VF32 0x3F800000)), CoreValueIter [NewCoreValueI32 0, NewCoreValueI64 0xFFFF3F800000, NewCoreValueI32 5] 3) \<and>
   Done (CoreValueIter [NewCoreValueI32 0, NewCoreValueI64 0xFFFF3F800000, NewCoreValueI32 5] 3)"
proof -
  let ?vals = "[NewCoreValueI32 0, NewCoreValueI64 0xFFFF3F800000, NewCoreValueI32 5]"
  have run: "liftFlatImpl 3 [] None mixed_variant (CoreValueIter ?vals 0) = (Inr (VVariant 0 (VF32 0x3F800000)), CoreValueIter ?vals 3)"
    by code_simp
  with liftFlatImpl_safe [OF mixed_flat _ _ run] show ?thesis by simp
qed

theorem coerce_payload_lossless_witness:
  "\<exists>cs. coerce_payload [NewCoreValueF32 1] [''f32''] [''i64'', ''i32''] = Inr cs"
proof -
  have "of_kinds [''f32''] [NewCoreValueF32 1]" "fits [''f32''] [''i64'', ''i32'']"
    by (simp_all add: coerces_def)
  from coerce_payload_lossless [OF this] show ?thesis by blast
qed

end
