(* ===== verification/Plan.thy ===== *)
theory Plan
  imports Flat_Correct
begin

text \<open>
  \<open>internal/abi/plan.go\<close>: the plans that are compiled once for a parameter or result type and then
  executed on every call, and their equivalence with the interpreting code of \<open>flat.go\<close>.
\<close>

subsection \<open>Lowering plans\<close>

datatype lowerKind = lowerKindPrimitive | lowerKindString | lowerKindHandle | lowerKindComposite

record LowerStep =
  ls_kind :: lowerKind
  ls_prim :: string
  ls_t :: "type_desc option"
  ls_resolve :: resolver
  ls_spills :: bool

text \<open>The zero value of the struct: fields that a kind does not use keep it.\<close>

definition zero_LowerStep :: LowerStep where
  "zero_LowerStep = \<lparr>ls_kind = lowerKindPrimitive, ls_prim = '''', ls_t = None, ls_resolve = None, ls_spills = False\<rparr>"

definition CompileLower :: "nat \<Rightarrow> type_desc option \<Rightarrow> resolver \<Rightarrow> abi_error + LowerStep" where
  "CompileLower fuel t resolve =
     (let composite =
        rbind (Flatten fuel resolve t) (\<lambda>flat.
          Inr (zero_LowerStep\<lparr>ls_kind := lowerKindComposite, ls_t := t, ls_resolve := resolve,
                 ls_spills := length flat > MaxFlatParams\<rparr>))
      in case t of
           None \<Rightarrow> composite
         | Some d \<Rightarrow>
             (case d of
                PrimitiveDesc p \<Rightarrow>
                  if p = ''string'' then Inr (zero_LowerStep\<lparr>ls_kind := lowerKindString\<rparr>)
                  else Inr (zero_LowerStep\<lparr>ls_kind := lowerKindPrimitive, ls_prim := p\<rparr>)
              | OwnDesc _ \<Rightarrow> Inr (zero_LowerStep\<lparr>ls_kind := lowerKindHandle\<rparr>)
              | BorrowDesc _ \<Rightarrow> Inr (zero_LowerStep\<lparr>ls_kind := lowerKindHandle\<rparr>)
              | StreamDesc _ \<Rightarrow> Inr (zero_LowerStep\<lparr>ls_kind := lowerKindHandle\<rparr>)
              | FutureDesc _ \<Rightarrow> Inr (zero_LowerStep\<lparr>ls_kind := lowerKindHandle\<rparr>)
              | _ \<Rightarrow> composite))"

definition Lower ::
    "nat \<Rightarrow> LowerStep \<Rightarrow> core_value list \<Rightarrow> val \<Rightarrow> 'g realloc \<Rightarrow> ('g, core_value list) mop" where
  "Lower fuel s dst v realloc =
     (case ls_kind s of
        lowerKindPrimitive \<Rightarrow> slift (rbind (lowerPrimitiveCore v (ls_prim s)) (\<lambda>cv. Inr (dst @ [cv])))
      | lowerKindString \<Rightarrow>
          (case v of
             VString str \<Rightarrow>
               sbind (allocStoreString str realloc) (\<lambda>(ptr, byteLen).
                 sret (dst @ [NewCoreValueI32 (word_of_nat ptr), NewCoreValueI32 (word_of_nat byteLen)]))
           | _ \<Rightarrow> sfail (ExpectedType ''string''))
      | lowerKindHandle \<Rightarrow> slift (rbind (expect_u32 v) (\<lambda>h. Inr (dst @ [NewCoreValueI32 h])))
      | lowerKindComposite \<Rightarrow>
          if ls_spills s then
            sbind (spillValue fuel v (ls_t s) (ls_resolve s) realloc) (\<lambda>ptr. sret (dst @ [NewCoreValueI32 (word_of_nat ptr)]))
          else
            sbind (lowerFlatImpl fuel (ls_resolve s) realloc v (ls_t s)) (\<lambda>flat. sret (dst @ flat)))"

subsection \<open>Lifting plans\<close>

datatype liftKind = liftPrimitive | liftHandle | liftSpilled | liftFlatAgg

record LiftStep =
  lt_kind :: liftKind
  lt_prim :: string
  lt_t :: "type_desc option"
  lt_resolve :: resolver

definition zero_LiftStep :: LiftStep where
  "zero_LiftStep = \<lparr>lt_kind = liftPrimitive, lt_prim = '''', lt_t = None, lt_resolve = None\<rparr>"

definition CompileLift :: "nat \<Rightarrow> type_desc option \<Rightarrow> resolver \<Rightarrow> abi_error + LiftStep" where
  "CompileLift fuel t resolve =
     (let composite =
        rbind (Flatten fuel resolve t) (\<lambda>flat.
          if length flat > MaxFlatResults then
            Inr (zero_LiftStep\<lparr>lt_kind := liftSpilled, lt_t := t, lt_resolve := resolve\<rparr>)
          else Inr (zero_LiftStep\<lparr>lt_kind := liftFlatAgg, lt_t := t, lt_resolve := resolve\<rparr>))
      in case t of
           None \<Rightarrow> composite
         | Some d \<Rightarrow>
             (case d of
                PrimitiveDesc p \<Rightarrow>
                  if p = ''string'' then Inr (zero_LiftStep\<lparr>lt_kind := liftSpilled, lt_t := t, lt_resolve := resolve\<rparr>)
                  else Inr (zero_LiftStep\<lparr>lt_kind := liftPrimitive, lt_prim := p\<rparr>)
              | OwnDesc _ \<Rightarrow> Inr (zero_LiftStep\<lparr>lt_kind := liftHandle\<rparr>)
              | BorrowDesc _ \<Rightarrow> Inr (zero_LiftStep\<lparr>lt_kind := liftHandle\<rparr>)
              | StreamDesc _ \<Rightarrow> Inr (zero_LiftStep\<lparr>lt_kind := liftHandle\<rparr>)
              | FutureDesc _ \<Rightarrow> Inr (zero_LiftStep\<lparr>lt_kind := liftHandle\<rparr>)
              | _ \<Rightarrow> composite))"

text \<open>\<open>coreResults[0]\<close>, which panics when there is no result.\<close>

definition first_result :: "core_value list \<Rightarrow> abi_error + core_value" where
  "first_result vals = (case vals of [] \<Rightarrow> Inl (Panic ''index out of range'') | cv # _ \<Rightarrow> Inr cv)"

definition Lift :: "nat \<Rightarrow> LiftStep \<Rightarrow> core_value list \<Rightarrow> byte list \<Rightarrow> abi_error + val" where
  "Lift fuel s coreResults m =
     (case lt_kind s of
        liftPrimitive \<Rightarrow> rbind (first_result coreResults) (\<lambda>cv. liftScalarPrimitive cv (lt_prim s))
      | liftHandle \<Rightarrow> rbind (first_result coreResults) (\<lambda>cv. rbind (AsI32 cv) (\<lambda>h. Inr (VU32 h)))
      | liftSpilled \<Rightarrow>
          rbind (first_result coreResults) (\<lambda>cv. rbind (AsI32 cv) (\<lambda>ptr.
            Load fuel m (unat ptr) (lt_t s) (lt_resolve s)))
      | liftFlatAgg \<Rightarrow> fst (liftFlatImpl fuel m (lt_resolve s) (lt_t s) (CoreValueIter coreResults 0)))"

subsection \<open>Equivalence\<close>

text \<open>What a call does with its results without a plan: beyond one core value they are in memory.\<close>

definition lift_result :: "nat \<Rightarrow> core_value list \<Rightarrow> type_desc option \<Rightarrow> resolver \<Rightarrow> byte list \<Rightarrow> abi_error + val" where
  "lift_result fuel vals t resolve m =
     rbind (Flatten fuel resolve t) (\<lambda>flat.
       if length flat > MaxFlatResults then
         rbind (first_result vals) (\<lambda>cv. rbind (AsI32 cv) (\<lambda>ptr. Load fuel m (unat ptr) t resolve))
       else LiftFlat fuel vals t resolve m)"

lemmas plan_simps = CompileLower_def Lower_def zero_LowerStep_def LowerFlatInto_def Let_def
lemmas lift_plan_simps = CompileLift_def Lift_def zero_LiftStep_def lift_result_def LiftFlat_def Let_def

lemma sbind_assoc_apply: "sbind (sbind m f) g s = sbind m (\<lambda>x. sbind (f x) g) s"
  by (simp add: sbind_assoc)

lemma lower_composite:
  assumes "\<And>p. t \<noteq> Some (PrimitiveDesc p)"
  shows "LowerFlatInto fuel dst v t r realloc =
    sbind (slift (Flatten fuel r t)) (\<lambda>flatTypes.
      if length flatTypes > MaxFlatParams then
        sbind (spillValue fuel v t r realloc) (\<lambda>ptr. sret (dst @ [NewCoreValueI32 (word_of_nat ptr)]))
      else sbind (lowerFlatImpl fuel r realloc v t) (\<lambda>flat. sret (dst @ flat)))"
  using assms by (auto simp: LowerFlatInto_def Let_def split: option.split type_desc.split)

lemma lower_composite_step:
  assumes "\<And>p. t \<noteq> Some (PrimitiveDesc p)" "Flatten fuel r t = Inr flat"
    "step = zero_LowerStep\<lparr>ls_kind := lowerKindComposite, ls_t := t, ls_resolve := r, ls_spills := length flat > MaxFlatParams\<rparr>"
  shows "Lower fuel step dst v realloc = LowerFlatInto fuel dst v t r realloc"
  unfolding lower_composite [OF assms(1)] assms(2,3) by (simp add: Lower_def zero_LowerStep_def)

lemma lower_handle_step:
  "d \<in> {OwnDesc h, BorrowDesc h} \<or> d \<in> {StreamDesc e, FutureDesc e} \<Longrightarrow>
   LowerFlatInto (Suc n) dst v (Some d) r realloc = slift (rbind (expect_u32 v) (\<lambda>h. Inr (dst @ [NewCoreValueI32 h])))"
  by (cases "expect_u32 v")
     (auto simp: lower_composite lower_handle_def MaxFlatParams_def)

lemma lower_string_step:
  "LowerFlatInto (Suc n) dst v (Some (PrimitiveDesc ''string'')) r realloc =
    (case v of
       VString str \<Rightarrow> sbind (allocStoreString str realloc) (\<lambda>(ptr, byteLen).
         sret (dst @ [NewCoreValueI32 (word_of_nat ptr), NewCoreValueI32 (word_of_nat byteLen)]))
     | _ \<Rightarrow> sfail (ExpectedType ''string''))"
  by (cases v) (auto simp: LowerFlatInto_def MaxFlatParams_def lowerFlatPrimitive_def lowerFlatString_def
      flat_pair_def sbind_assoc case_prod_beta', simp add: sret_def [abs_def])

lemma Lower_equivalent:
  assumes "CompileLower (Suc n) t r = Inr step"
  shows "Lower (Suc n) step dst v realloc = LowerFlatInto (Suc n) dst v t r realloc"
proof (cases t)
  case None
  then show ?thesis using assms by (simp add: CompileLower_def)
next
  case (Some d)
  have comp: ?thesis if np: "\<And>p. d \<noteq> PrimitiveDesc p" and cl:
    "CompileLower (Suc n) t r = rbind (Flatten (Suc n) r t) (\<lambda>flat.
       Inr (zero_LowerStep\<lparr>ls_kind := lowerKindComposite, ls_t := t, ls_resolve := r, ls_spills := length flat > MaxFlatParams\<rparr>))"
  proof -
    obtain flat where "Flatten (Suc n) r t = Inr flat"
      "step = zero_LowerStep\<lparr>ls_kind := lowerKindComposite, ls_t := t, ls_resolve := r, ls_spills := length flat > MaxFlatParams\<rparr>"
      using assms cl by (auto simp: rbind_eq_Inr simp del: Flatten.simps)
    then show ?thesis using np Some by (intro lower_composite_step) auto
  qed
  have handle: ?thesis if "step = zero_LowerStep\<lparr>ls_kind := lowerKindHandle\<rparr>"
    "LowerFlatInto (Suc n) dst v t r realloc = slift (rbind (expect_u32 v) (\<lambda>h. Inr (dst @ [NewCoreValueI32 h])))"
    unfolding that by (simp add: Lower_def zero_LowerStep_def)
  show ?thesis
  proof (cases d)
    case (PrimitiveDesc p)
    show ?thesis
    proof (cases "p = ''string''")
      case True
      then have "step = zero_LowerStep\<lparr>ls_kind := lowerKindString\<rparr>"
        using assms Some PrimitiveDesc by (simp add: CompileLower_def)
      then show ?thesis
        unfolding Some PrimitiveDesc True lower_string_step by (simp add: Lower_def zero_LowerStep_def)
    next
      case False
      then have "step = zero_LowerStep\<lparr>ls_kind := lowerKindPrimitive, ls_prim := p\<rparr>"
        using assms Some PrimitiveDesc by (simp add: CompileLower_def)
      then show ?thesis
        using False by (simp add: Some PrimitiveDesc Lower_def zero_LowerStep_def LowerFlatInto_def Let_def)
    qed
  next
    case (OwnDesc h)
    show ?thesis by (rule handle) (use assms Some OwnDesc lower_handle_step [of d h] in \<open>simp_all add: CompileLower_def\<close>)
  next
    case (BorrowDesc h)
    show ?thesis by (rule handle) (use assms Some BorrowDesc lower_handle_step [of d h] in \<open>simp_all add: CompileLower_def\<close>)
  next
    case (StreamDesc e)
    show ?thesis by (rule handle) (use assms Some StreamDesc lower_handle_step [of d _ e] in \<open>simp_all add: CompileLower_def\<close>)
  next
    case (FutureDesc e)
    show ?thesis by (rule handle) (use assms Some FutureDesc lower_handle_step [of d _ e] in \<open>simp_all add: CompileLower_def\<close>)
  qed (rule comp; simp add: Some CompileLower_def Let_def del: Flatten.simps)+
qed

lemma unknown_scalar: "flattenPrimitive p = Inl e \<Longrightarrow> liftScalarPrimitive cv p = Inl e"
proof -
  assume e: "flattenPrimitive p = Inl e"
  then have "p \<notin> prim_names" using prim_names_flatten [of p] by auto
  then show ?thesis using e by (simp add: liftScalarPrimitive_def flattenPrimitive_def prim_names_def)
qed

lemma lift_scalar_step:
  assumes "p \<noteq> ''string''"
  shows "lift_result (Suc n) (cv # vals) (Some (PrimitiveDesc p)) r m = liftScalarPrimitive cv p"
proof (cases "flattenPrimitive p")
  case (Inl e)
  then show ?thesis using unknown_scalar by (simp add: lift_result_def)
next
  case (Inr fs)
  have "length fs = 1"
    using flattenPrimitive_names [OF Inr] Inr assms unfolding prim_names_def by (elim insertE emptyE) auto
  then show ?thesis
    using assms by (simp add: lift_result_def LiftFlat_def Inr MaxFlatResults_def MaxFlatParams_def
        liftFlatPrimitive_def sbind_def)
qed

lemma lift_handle_step:
  "d \<in> {OwnDesc h, BorrowDesc h} \<or> d \<in> {StreamDesc e, FutureDesc e} \<Longrightarrow>
   lift_result (Suc n) (cv # vals) (Some d) r m = rbind (AsI32 cv) (\<lambda>h. Inr (VU32 h))"
  by (cases "AsI32 cv")
     (auto simp: lift_result_def LiftFlat_def MaxFlatResults_def MaxFlatParams_def lift_handle_def sbind_def)

lemma lift_composite_step:
  assumes "rbind (Flatten fuel r t) (\<lambda>flat.
      if length flat > MaxFlatResults then Inr (zero_LiftStep\<lparr>lt_kind := liftSpilled, lt_t := t, lt_resolve := r\<rparr>)
      else Inr (zero_LiftStep\<lparr>lt_kind := liftFlatAgg, lt_t := t, lt_resolve := r\<rparr>)) = Inr step"
  shows "Lift fuel step vals m = lift_result fuel vals t r m"
proof -
  obtain flat where flat: "Flatten fuel r t = Inr flat" using assms by (auto simp: rbind_eq_Inr)
  show ?thesis
    using assms
    by (auto simp: flat lift_result_def LiftFlat_def Lift_def zero_LiftStep_def MaxFlatResults_def MaxFlatParams_def
        split: if_split_asm)
qed

lemma Lift_equivalent:
  assumes "CompileLift (Suc n) t r = Inr step"
  shows "Lift (Suc n) step (cv # vals) m = lift_result (Suc n) (cv # vals) t r m"
proof (cases t)
  case None
  then show ?thesis using assms by (simp add: CompileLift_def)
next
  case (Some d)
  have handle: ?thesis if "step = zero_LiftStep\<lparr>lt_kind := liftHandle\<rparr>"
    "lift_result (Suc n) (cv # vals) t r m = rbind (AsI32 cv) (\<lambda>h. Inr (VU32 h))"
    unfolding that by (simp add: Lift_def zero_LiftStep_def first_result_def)
  have comp: ?thesis if "CompileLift (Suc n) t r = rbind (Flatten (Suc n) r t) (\<lambda>flat.
      if length flat > MaxFlatResults then Inr (zero_LiftStep\<lparr>lt_kind := liftSpilled, lt_t := t, lt_resolve := r\<rparr>)
      else Inr (zero_LiftStep\<lparr>lt_kind := liftFlatAgg, lt_t := t, lt_resolve := r\<rparr>))"
    by (rule lift_composite_step [OF assms [unfolded that]])
  show ?thesis
  proof (cases d)
    case (PrimitiveDesc p)
    show ?thesis
    proof (cases "p = ''string''")
      case True
      then have "step = zero_LiftStep\<lparr>lt_kind := liftSpilled, lt_t := t, lt_resolve := r\<rparr>"
        using assms Some PrimitiveDesc by (simp add: CompileLift_def)
      then show ?thesis
        by (simp add: Some PrimitiveDesc True Lift_def zero_LiftStep_def lift_result_def MaxFlatResults_def)
    next
      case False
      then have "step = zero_LiftStep\<lparr>lt_kind := liftPrimitive, lt_prim := p\<rparr>"
        using assms Some PrimitiveDesc by (simp add: CompileLift_def)
      then show ?thesis
        unfolding Some PrimitiveDesc lift_scalar_step [OF False]
        by (simp add: Lift_def zero_LiftStep_def first_result_def)
    qed
  next
    case (OwnDesc h)
    show ?thesis by (rule handle) (use assms Some OwnDesc lift_handle_step [of d h] in \<open>simp_all add: CompileLift_def\<close>)
  next
    case (BorrowDesc h)
    show ?thesis by (rule handle) (use assms Some BorrowDesc lift_handle_step [of d h] in \<open>simp_all add: CompileLift_def\<close>)
  next
    case (StreamDesc e)
    show ?thesis by (rule handle) (use assms Some StreamDesc lift_handle_step [of d _ e] in \<open>simp_all add: CompileLift_def\<close>)
  next
    case (FutureDesc e)
    show ?thesis by (rule handle) (use assms Some FutureDesc lift_handle_step [of d _ e] in \<open>simp_all add: CompileLift_def\<close>)
  qed (rule comp, simp only: Some, simp add: CompileLift_def Let_def del: Flatten.simps)+
qed

text \<open>The plan a type compiles to is the same call after call: it needs no more of the type than its
  flattening, so it exists whenever the interpreting code gets past \<open>Flatten\<close>.\<close>

lemma CompileLower_exists:
  "Flatten (Suc n) r t = Inr flat \<Longrightarrow> \<exists>step. CompileLower (Suc n) t r = Inr step"
  by (auto simp: CompileLower_def Let_def simp del: Flatten.simps split: option.split type_desc.split)

subsection \<open>Properties\<close>

text \<open>A compiled lowering plan does exactly what \<open>LowerFlatInto\<close> does for the type it was compiled
  from: the same core values appended to the same buffer, the same error, and the same changes to
  the guest's memory, for every value, right or wrong.\<close>

theorem LowerStep_matches:
  assumes "CompileLower (Suc n) t r = Inr step"
  shows "Lower (Suc n) step dst v realloc s = LowerFlatInto (Suc n) dst v t r realloc s"
  by (rule fun_cong [OF Lower_equivalent [OF assms]])

text \<open>A compiled lifting plan lifts a call's results as the unplanned code does: through memory when
  they flatten to more than one core value, and from the one core value otherwise.\<close>

theorem LiftStep_matches:
  assumes "CompileLift (Suc n) t r = Inr step" "vals \<noteq> []"
  shows "Lift (Suc n) step vals m = lift_result (Suc n) vals t r m"
  using Lift_equivalent [OF assms(1)] assms(2) by (cases vals) auto

theorem LowerStep_matches_witness:
  "LowerFlatInto 3 [] (VVariant 2 (VString [0x68, 0x69])) mixed_variant None (Some bump_alloc) small_guest =
    (Inr [NewCoreValueI32 2, NewCoreValueI64 12, NewCoreValueI32 2],
     \<lparr>lin_mem = replicate 12 0 @ [0x68, 0x69] @ replicate 10 0, guest = 14\<rparr>)"
proof -
  define step where "step = zero_LowerStep\<lparr>ls_kind := lowerKindComposite, ls_t := mixed_variant\<rparr>"
  have c: "CompileLower 3 mixed_variant None = Inr step"
    unfolding step_def by (simp add: CompileLower_def mixed_flat MaxFlatParams_def zero_LowerStep_def)
      (simp add: mixed_variant_def)
  have "Lower 3 step [] (VVariant 2 (VString [0x68, 0x69])) (Some bump_alloc) small_guest =
    (Inr [NewCoreValueI32 2, NewCoreValueI64 12, NewCoreValueI32 2],
     \<lparr>lin_mem = replicate 12 0 @ [0x68, 0x69] @ replicate 10 0, guest = 14\<rparr>)"
    unfolding step_def by code_simp
  moreover have "Suc 2 = (3::nat)" by simp
  ultimately show ?thesis
    using LowerStep_matches [where n = 2, unfolded \<open>Suc 2 = 3\<close>, OF c] by (metis (no_types))
qed

theorem LiftStep_matches_witness:
  "lift_result 1 [NewCoreValueI32 4] (Some (PrimitiveDesc ''string'')) None [0, 0, 0, 0, 12, 0, 0, 0, 2, 0, 0, 0, 0x68, 0x69] =
     Inr (VString [0x68, 0x69])"
proof -
  define step where "step = zero_LiftStep\<lparr>lt_kind := liftSpilled, lt_t := Some (PrimitiveDesc ''string'')\<rparr>"
  have c: "CompileLift 1 (Some (PrimitiveDesc ''string'')) None = Inr step"
    by (simp add: step_def CompileLift_def zero_LiftStep_def)
  have "Lift 1 step [NewCoreValueI32 4] [0, 0, 0, 0, 12, 0, 0, 0, 2, 0, 0, 0, 0x68, 0x69] = Inr (VString [0x68, 0x69])"
    unfolding step_def by code_simp
  moreover have "Suc 0 = (1::nat)" by simp
  ultimately show ?thesis
    using LiftStep_matches [where n = 0, unfolded \<open>Suc 0 = 1\<close>, OF c, of "[NewCoreValueI32 4]"] by (metis (no_types) list.distinct(1))
qed

end
