(* ===== verification/Handle_Table.thy ===== *)
theory Handle_Table
  imports Types
begin

text \<open>
  The per-instance handle table of \<open>internal/instance/resource.go\<close>: an index space of \<open>u32\<close>
  handles with a free list, whose entries are resources, waitable sets, subtasks, stream and future ends and
  error contexts. Entries are pointers in Go, and other parts of the program keep those pointers
  (a subtask keeps the resources lent to it), so resources live in a store and the table holds
  references into it. Each method runs under the table's mutex and is one atomic operation here;
  \<open>dropOwnedWithDtor\<close>, which releases the mutex around the destructor, is two of them with the call
  in between. Error texts, and the names and counts that only appear in them, are not modelled.
\<close>

type_synonym ref = nat

subsection \<open>Entries and tables\<close>

datatype entryKind = entryResource | entryWaitableSet | entrySubtask | entryStreamEnd | entryFutureEnd | entryErrorContext

datatype tableEntry =
    ResourceEntry ref | WaitableSetEntry ref | SubtaskEntry ref | StreamEndEntry ref | FutureEndEntry ref
  | ErrorContextEntry ref

fun kind_of :: "tableEntry \<Rightarrow> entryKind" where
  "kind_of (ResourceEntry _) = entryResource"
| "kind_of (WaitableSetEntry _) = entryWaitableSet"
| "kind_of (SubtaskEntry _) = entrySubtask"
| "kind_of (StreamEndEntry _) = entryStreamEnd"
| "kind_of (FutureEndEntry _) = entryFutureEnd"
| "kind_of (ErrorContextEntry _) = entryErrorContext"

record resourceEntry =
  typeIdx :: u32
  resource_rep :: u32
  own :: bool
  lendCount :: int
  borrowScope :: "ref option"

text \<open>A destructor callback is named by a reference; what it does is a parameter of the operations that call it.\<close>

type_synonym callback = nat

record handleTable =
  entries :: "u32 \<Rightarrow> tableEntry option"
  next_index :: u32
  free :: "u32 list"
  dtors :: "u32 \<Rightarrow> callback option"
  hostDtors :: "u32 \<Rightarrow> bool"
  closed :: bool

text \<open>A table with the store of the resource entries and the \<open>numBorrows\<close> counter of every task.\<close>

record table_state =
  tab :: handleTable
  resources :: "ref \<Rightarrow> resourceEntry"
  fresh_ref :: ref
  numBorrows :: "ref \<Rightarrow> int"

text \<open>The errors and traps of the runtime, without their texts, grouped by the component that raises them.\<close>

datatype table_fault = Unknown_Handle | Not_Resource | Wrong_Resource_Type | Not_Own | Outstanding_Lends | Unscoped_Borrow
    | No_Lends | Handle_Changed | Dtor_Unavailable | Dtor_Error nat

datatype wait_fault = Subtask_Unresolved | Set_Still_Joined nat | Set_Still_Waiting int | Async_Deadlock | Not_Waitable_Set
    | Not_Waitable | Sync_Waiter_Present | Not_Subtask | Already_Delivered | Already_Cancelled | In_Waitable_Set

datatype task_fault = Task_Resolved | Borrows_Remain int | Cancel_Not_Delivered | Exit_Unresolved | Unsupported_Callback
    | Bad_Core_Arity | May_Not_Leave | No_Active_Task | Sync_Task_Block | Sync_Task_Return | Not_Async_Task | Bad_Park_State

datatype builtin_fault = Not_Error_Context | No_Memory | Wrong_Result_Type | Slot_Out_Of_Range | Backpressure_Overflow
    | Backpressure_Underflow

datatype buffer_fault = Buffer_Too_Long u32 | Buffer_Misaligned u32 | Buffer_Bounds | Read_Past_End | Write_Past_Capacity

datatype stream_fault = Intra_Component | Not_Stream_End | Not_Future_End | Wrong_End_Side | Element_Mismatch
    | Not_Idle string | Not_Copying | End_Busy | Future_Unwritten | Not_Schedulable | Resource_Element | Borrow_Element
    | Not_Stream_Type

datatype call_fault = Nested_Async_Value | Stack_Underflow nat nat | Stack_Overflow nat nat | Wrong_Result_Count nat nat
    | Many_Results nat | Spilled_Shape nat | Out_Pointer_Range nat nat | Cannot_Enter | Wrong_Arg_Count nat nat
    | No_Core_Function | Wrong_Core_Args nat nat | Wrong_Core_Results nat nat | No_Post_Return | Result_Not_Spilled nat nat

datatype async_fault = Async_Call_Closed | Resolved_Twice | Outside_Scheduler | Cancel_Not_Requested | Call_Cancelled
    | Driver_Active | Export_Not_Found | Not_Callback | Call_In_Progress | Unknown_Thread u32 | Thread_Not_Suspended u32
    | Unpromoted_Task | Last_Thread_Unresolved

datatype runtime_error = TableFault table_fault | WaitFault wait_fault | TaskFault task_fault | BuiltinFault builtin_fault
    | BufferFault buffer_fault | StreamFault stream_fault | CallFault call_fault | AsyncFault async_fault
    | AbiError abi_error | GuestTrap nat | TablePanic string | GuestResultTrap runtime_error

text \<open>The errors by the names they have elsewhere.\<close>

abbreviation "UnknownHandle \<equiv> TableFault Unknown_Handle"
abbreviation "NotResource \<equiv> TableFault Not_Resource"
abbreviation "WrongResourceType \<equiv> TableFault Wrong_Resource_Type"
abbreviation "NotOwn \<equiv> TableFault Not_Own"
abbreviation "OutstandingLends \<equiv> TableFault Outstanding_Lends"
abbreviation "UnscopedBorrow \<equiv> TableFault Unscoped_Borrow"
abbreviation "NoLends \<equiv> TableFault No_Lends"
abbreviation "HandleChanged \<equiv> TableFault Handle_Changed"
abbreviation "DtorUnavailable \<equiv> TableFault Dtor_Unavailable"
abbreviation "DtorError x \<equiv> TableFault (Dtor_Error x)"
abbreviation "SubtaskUnresolved \<equiv> WaitFault Subtask_Unresolved"
abbreviation "SetStillJoined x \<equiv> WaitFault (Set_Still_Joined x)"
abbreviation "SetStillWaiting x \<equiv> WaitFault (Set_Still_Waiting x)"
abbreviation "AsyncDeadlock \<equiv> WaitFault Async_Deadlock"
abbreviation "NotWaitableSet \<equiv> WaitFault Not_Waitable_Set"
abbreviation "NotWaitable \<equiv> WaitFault Not_Waitable"
abbreviation "SyncWaiterPresent \<equiv> WaitFault Sync_Waiter_Present"
abbreviation "NotSubtask \<equiv> WaitFault Not_Subtask"
abbreviation "AlreadyDelivered \<equiv> WaitFault Already_Delivered"
abbreviation "AlreadyCancelled \<equiv> WaitFault Already_Cancelled"
abbreviation "InWaitableSet \<equiv> WaitFault In_Waitable_Set"
abbreviation "TaskResolved \<equiv> TaskFault Task_Resolved"
abbreviation "BorrowsRemain x \<equiv> TaskFault (Borrows_Remain x)"
abbreviation "CancelNotDelivered \<equiv> TaskFault Cancel_Not_Delivered"
abbreviation "ExitUnresolved \<equiv> TaskFault Exit_Unresolved"
abbreviation "UnsupportedCallback \<equiv> TaskFault Unsupported_Callback"
abbreviation "BadCoreArity \<equiv> TaskFault Bad_Core_Arity"
abbreviation "MayNotLeave \<equiv> TaskFault May_Not_Leave"
abbreviation "NoActiveTask \<equiv> TaskFault No_Active_Task"
abbreviation "SyncTaskBlock \<equiv> TaskFault Sync_Task_Block"
abbreviation "SyncTaskReturn \<equiv> TaskFault Sync_Task_Return"
abbreviation "NotAsyncTask \<equiv> TaskFault Not_Async_Task"
abbreviation "BadParkState \<equiv> TaskFault Bad_Park_State"
abbreviation "NotErrorContext \<equiv> BuiltinFault Not_Error_Context"
abbreviation "NoMemory \<equiv> BuiltinFault No_Memory"
abbreviation "WrongResultType \<equiv> BuiltinFault Wrong_Result_Type"
abbreviation "SlotOutOfRange \<equiv> BuiltinFault Slot_Out_Of_Range"
abbreviation "BackpressureOverflow \<equiv> BuiltinFault Backpressure_Overflow"
abbreviation "BackpressureUnderflow \<equiv> BuiltinFault Backpressure_Underflow"
abbreviation "BufferTooLong x \<equiv> BufferFault (Buffer_Too_Long x)"
abbreviation "BufferMisaligned x \<equiv> BufferFault (Buffer_Misaligned x)"
abbreviation "BufferBounds \<equiv> BufferFault Buffer_Bounds"
abbreviation "ReadPastEnd \<equiv> BufferFault Read_Past_End"
abbreviation "WritePastCapacity \<equiv> BufferFault Write_Past_Capacity"
abbreviation "IntraComponent \<equiv> StreamFault Intra_Component"
abbreviation "NotStreamEnd \<equiv> StreamFault Not_Stream_End"
abbreviation "NotFutureEnd \<equiv> StreamFault Not_Future_End"
abbreviation "WrongEndSide \<equiv> StreamFault Wrong_End_Side"
abbreviation "ElementMismatch \<equiv> StreamFault Element_Mismatch"
abbreviation "NotIdle x \<equiv> StreamFault (Not_Idle x)"
abbreviation "NotCopying \<equiv> StreamFault Not_Copying"
abbreviation "EndBusy \<equiv> StreamFault End_Busy"
abbreviation "FutureUnwritten \<equiv> StreamFault Future_Unwritten"
abbreviation "NotSchedulable \<equiv> StreamFault Not_Schedulable"
abbreviation "ResourceElement \<equiv> StreamFault Resource_Element"
abbreviation "BorrowElement \<equiv> StreamFault Borrow_Element"
abbreviation "NotStreamType \<equiv> StreamFault Not_Stream_Type"
abbreviation "NestedAsyncValue \<equiv> CallFault Nested_Async_Value"
abbreviation "StackUnderflow x y \<equiv> CallFault (Stack_Underflow x y)"
abbreviation "StackOverflow x y \<equiv> CallFault (Stack_Overflow x y)"
abbreviation "WrongResultCount x y \<equiv> CallFault (Wrong_Result_Count x y)"
abbreviation "ManyResults x \<equiv> CallFault (Many_Results x)"
abbreviation "SpilledShape x \<equiv> CallFault (Spilled_Shape x)"
abbreviation "OutPointerRange x y \<equiv> CallFault (Out_Pointer_Range x y)"
abbreviation "CannotEnter \<equiv> CallFault Cannot_Enter"
abbreviation "WrongArgCount x y \<equiv> CallFault (Wrong_Arg_Count x y)"
abbreviation "NoCoreFunction \<equiv> CallFault No_Core_Function"
abbreviation "WrongCoreArgs x y \<equiv> CallFault (Wrong_Core_Args x y)"
abbreviation "WrongCoreResults x y \<equiv> CallFault (Wrong_Core_Results x y)"
abbreviation "NoPostReturn \<equiv> CallFault No_Post_Return"
abbreviation "ResultNotSpilled x y \<equiv> CallFault (Result_Not_Spilled x y)"
abbreviation "AsyncCallClosed \<equiv> AsyncFault Async_Call_Closed"
abbreviation "ResolvedTwice \<equiv> AsyncFault Resolved_Twice"
abbreviation "OutsideScheduler \<equiv> AsyncFault Outside_Scheduler"
abbreviation "CancelNotRequested \<equiv> AsyncFault Cancel_Not_Requested"
abbreviation "CallCancelled \<equiv> AsyncFault Call_Cancelled"
abbreviation "DriverActive \<equiv> AsyncFault Driver_Active"
abbreviation "ExportNotFound \<equiv> AsyncFault Export_Not_Found"
abbreviation "NotCallback \<equiv> AsyncFault Not_Callback"
abbreviation "CallInProgress \<equiv> AsyncFault Call_In_Progress"
abbreviation "UnknownThread x \<equiv> AsyncFault (Unknown_Thread x)"
abbreviation "ThreadNotSuspended x \<equiv> AsyncFault (Thread_Not_Suspended x)"
abbreviation "UnpromotedTask \<equiv> AsyncFault Unpromoted_Task"
abbreviation "LastThreadUnresolved \<equiv> AsyncFault Last_Thread_Unresolved"

definition newHandleTable :: handleTable where
  "newHandleTable = \<lparr>entries = Map.empty, next_index = 1, free = [], dtors = Map.empty, hostDtors = (\<lambda>_. False), closed = False\<rparr>"

subsection \<open>Allocation and removal\<close>

definition addEntry :: "tableEntry \<Rightarrow> 'a table_state_scheme \<Rightarrow> u32 \<times> 'a table_state_scheme" where
  "addEntry e s =
     (let t = tab s in
      if closed t then (0, s)
      else if free t \<noteq> [] then
        (let h = last (free t)
         in (h, s\<lparr>tab := t\<lparr>free := butlast (free t), entries := (entries t)(h \<mapsto> e)\<rparr>\<rparr>))
      else
        (let h = next_index t
         in (h, s\<lparr>tab := t\<lparr>next_index := h + 1, entries := (entries t)(h \<mapsto> e)\<rparr>\<rparr>)))"

definition getEntry :: "u32 \<Rightarrow> 'a table_state_scheme \<Rightarrow> tableEntry option" where
  "getEntry h s = entries (tab s) h"

text \<open>\<open>delete(t.entries, h); t.free = append(t.free, h)\<close>\<close>

definition retire :: "u32 \<Rightarrow> 'a table_state_scheme \<Rightarrow> 'a table_state_scheme" where
  "retire h s = s\<lparr>tab := (tab s)\<lparr>entries := (entries (tab s))(h := None), free := free (tab s) @ [h]\<rparr>\<rparr>"

definition removeEntry :: "u32 \<Rightarrow> 'a table_state_scheme \<Rightarrow> tableEntry option \<times> 'a table_state_scheme" where
  "removeEntry h s =
     (case getEntry h s of
        None \<Rightarrow> (None, s)
      | Some e \<Rightarrow> (Some e, retire h s))"

text \<open>\<open>&resourceEntry{...}\<close>\<close>

definition alloc_resource :: "resourceEntry \<Rightarrow> 'a table_state_scheme \<Rightarrow> ref \<times> 'a table_state_scheme" where
  "alloc_resource e s = (fresh_ref s, s\<lparr>resources := (resources s)(fresh_ref s := e), fresh_ref := fresh_ref s + 1\<rparr>)"

definition add_resource :: "resourceEntry \<Rightarrow> 'a table_state_scheme \<Rightarrow> u32 \<times> 'a table_state_scheme" where
  "add_resource e s = (let (p, s') = alloc_resource e s in addEntry (ResourceEntry p) s')"

definition add :: "u32 \<Rightarrow> u32 \<Rightarrow> bool \<Rightarrow> 'a table_state_scheme \<Rightarrow> u32 \<times> 'a table_state_scheme" where
  "add ti r is_own = add_resource \<lparr>typeIdx = ti, resource_rep = r, own = is_own, lendCount = 0, borrowScope = None\<rparr>"

definition NewOwn :: "u32 \<Rightarrow> u32 \<Rightarrow> 'a table_state_scheme \<Rightarrow> u32 \<times> 'a table_state_scheme" where
  "NewOwn ti r = add ti r True"

definition NewBorrow :: "u32 \<Rightarrow> u32 \<Rightarrow> 'a table_state_scheme \<Rightarrow> u32 \<times> 'a table_state_scheme" where
  "NewBorrow ti r = add ti r False"

definition NewBorrowScoped :: "u32 \<Rightarrow> u32 \<Rightarrow> ref option \<Rightarrow> ('a table_state_scheme, runtime_error, u32) op" where
  "NewBorrowScoped ti r scope s =
     (case scope of
        None \<Rightarrow> (Inl (TablePanic ''BUG: NewBorrowScoped called with a nil scope''), s)
      | Some t \<Rightarrow>
          (let s1 = s\<lparr>numBorrows := (numBorrows s)(t := numBorrows s t + 1)\<rparr>;
               (h, s2) = add_resource \<lparr>typeIdx = ti, resource_rep = r, own = False, lendCount = 0, borrowScope = Some t\<rparr> s1
           in (Inr h, s2)))"

subsection \<open>Lookup\<close>

definition lookup :: "u32 \<Rightarrow> u32 \<Rightarrow> 'a table_state_scheme \<Rightarrow> runtime_error + ref" where
  "lookup ti h s =
     (case getEntry h s of
        None \<Rightarrow> Inl UnknownHandle
      | Some (ResourceEntry p) \<Rightarrow> if typeIdx (resources s p) \<noteq> ti then Inl WrongResourceType else Inr p
      | Some _ \<Rightarrow> Inl NotResource)"

definition Rep :: "u32 \<Rightarrow> u32 \<Rightarrow> 'a table_state_scheme \<Rightarrow> runtime_error + u32" where
  "Rep ti h s = rbind (lookup ti h s) (\<lambda>p. Inr (resource_rep (resources s p)))"

definition IsOwn :: "u32 \<Rightarrow> u32 \<Rightarrow> 'a table_state_scheme \<Rightarrow> runtime_error + bool" where
  "IsOwn ti h s = rbind (lookup ti h s) (\<lambda>p. Inr (own (resources s p)))"

definition entryForLend :: "u32 \<Rightarrow> u32 \<Rightarrow> 'a table_state_scheme \<Rightarrow> runtime_error + ref" where
  "entryForLend ti h s = lookup ti h s"

subsection \<open>Consuming handles\<close>

definition TakeOwn :: "u32 \<Rightarrow> u32 \<Rightarrow> ('a table_state_scheme, runtime_error, u32) op" where
  "TakeOwn ti h s =
     (case lookup ti h s of
        Inl e \<Rightarrow> (Inl e, s)
      | Inr p \<Rightarrow>
          (let e = resources s p in
           if \<not> own e then (Inl NotOwn, s)
           else if lendCount e \<noteq> 0 then (Inl OutstandingLends, s)
           else (Inr (resource_rep e), retire h s)))"

definition Drop :: "u32 \<Rightarrow> u32 \<Rightarrow> ('a table_state_scheme, runtime_error, unit) op" where
  "Drop ti h s =
     (case lookup ti h s of
        Inl e \<Rightarrow> (Inl e, s)
      | Inr p \<Rightarrow>
          (let e = resources s p in
           if lendCount e \<noteq> 0 then (Inl OutstandingLends, s)
           else if \<not> own e then
             (case borrowScope e of
                None \<Rightarrow> (Inl UnscopedBorrow, s)
              | Some t \<Rightarrow> (Inr (), retire h (s\<lparr>numBorrows := (numBorrows s)(t := numBorrows s t - 1)\<rparr>)))
           else (Inr (), retire h s)))"

text \<open>The guards that \<open>DropOwned\<close> and the first half of \<open>dropOwnedWithDtor\<close> share.\<close>

definition owned_entry :: "u32 \<Rightarrow> 'a table_state_scheme \<Rightarrow> runtime_error + ref" where
  "owned_entry h s =
     (case getEntry h s of
        None \<Rightarrow> Inl UnknownHandle
      | Some (ResourceEntry p) \<Rightarrow>
          if \<not> own (resources s p) then Inl NotOwn
          else if lendCount (resources s p) \<noteq> 0 then Inl OutstandingLends
          else Inr p
      | Some _ \<Rightarrow> Inl NotResource)"

definition DropOwned :: "u32 \<Rightarrow> ('a table_state_scheme, runtime_error, u32) op" where
  "DropOwned h s =
     (case owned_entry h s of
        Inl e \<Rightarrow> (Inl e, s)
      | Inr p \<Rightarrow> (Inr (resource_rep (resources s p)), retire h s))"

subsection \<open>Lends\<close>

definition lend_ref :: "ref \<Rightarrow> int \<Rightarrow> 'a table_state_scheme \<Rightarrow> 'a table_state_scheme" where
  "lend_ref p d s = s\<lparr>resources := (resources s)(p := (resources s p)\<lparr>lendCount := lendCount (resources s p) + d\<rparr>)\<rparr>"

definition Lend :: "u32 \<Rightarrow> u32 \<Rightarrow> ('a table_state_scheme, runtime_error, unit) op" where
  "Lend ti h s =
     (case lookup ti h s of
        Inl e \<Rightarrow> (Inl e, s)
      | Inr p \<Rightarrow> (Inr (), lend_ref p 1 s))"

definition Unlend :: "u32 \<Rightarrow> u32 \<Rightarrow> ('a table_state_scheme, runtime_error, unit) op" where
  "Unlend ti h s =
     (case lookup ti h s of
        Inl e \<Rightarrow> (Inl e, s)
      | Inr p \<Rightarrow> if lendCount (resources s p) = 0 then (Inl NoLends, s) else (Inr (), lend_ref p (- 1) s))"

subsection \<open>Destructors\<close>

definition registerDtor :: "u32 \<Rightarrow> callback option \<Rightarrow> 'a table_state_scheme \<Rightarrow> 'a table_state_scheme" where
  "registerDtor ti d s =
     s\<lparr>tab := (tab s)\<lparr>dtors := (dtors (tab s))(ti := d), hostDtors := (hostDtors (tab s))(ti := False)\<rparr>\<rparr>"

definition registerHostDtor :: "u32 \<Rightarrow> callback option \<Rightarrow> 'a table_state_scheme \<Rightarrow> 'a table_state_scheme" where
  "registerHostDtor ti d s =
     (let s' = registerDtor ti d s
      in s'\<lparr>tab := (tab s')\<lparr>hostDtors := (hostDtors (tab s'))(ti := True)\<rparr>\<rparr>)"

definition dtorFor :: "u32 \<Rightarrow> 'a table_state_scheme \<Rightarrow> callback option" where
  "dtorFor ti s = dtors (tab s) ti"

text \<open>A declared guest destructor: \<open>resolve\<close> finds its core function at drop time.\<close>

definition resourceDtor :: "'f option \<Rightarrow> ('f \<Rightarrow> u32 \<Rightarrow> ('s, runtime_error, unit) op) \<Rightarrow> u32 \<Rightarrow> ('s, runtime_error, unit) op" where
  "resourceDtor resolved call rep =
     (case resolved of None \<Rightarrow> sfail DtorUnavailable | Some fn \<Rightarrow> call fn rep)"

text \<open>What happens before the mutex is released for the destructor, and after it is taken again. The result of
  the first part is the entry, its type, its representation, its destructor and whether that is the guest's.\<close>

definition dropOwned_begin :: "u32 \<Rightarrow> 'a table_state_scheme \<Rightarrow> runtime_error + ref \<times> u32 \<times> u32 \<times> callback option \<times> bool" where
  "dropOwned_begin h s =
     rbind (owned_entry h s) (\<lambda>p.
       (let ti = typeIdx (resources s p); d = dtors (tab s) ti
        in Inr (p, ti, resource_rep (resources s p), d, d \<noteq> None \<and> \<not> hostDtors (tab s) ti)))"

definition dropOwned_end :: "u32 \<Rightarrow> ref \<Rightarrow> ('a table_state_scheme, runtime_error, unit) op" where
  "dropOwned_end h p s =
     (if getEntry h s \<noteq> Some (ResourceEntry p) then (Inl HandleChanged, s)
      else (Inr (), retire h s))"

definition dropOwnedWithDtor ::
    "(callback \<Rightarrow> u32 \<Rightarrow> ('a table_state_scheme, runtime_error, unit) op) \<Rightarrow> u32 \<Rightarrow>
     ('a table_state_scheme, runtime_error, u32 \<times> u32 \<times> bool) op" where
  "dropOwnedWithDtor call h s =
     (case dropOwned_begin h s of
        Inl e \<Rightarrow> (Inl e, s)
      | Inr (p, ti, rep, d, guest) \<Rightarrow>
          sbind (case d of None \<Rightarrow> sret () | Some f \<Rightarrow> call f rep)
            (\<lambda>_. sbind (dropOwned_end h p) (\<lambda>_. sret (ti, rep, guest))) s)"

text \<open>\<open>close\<close> empties the table and then runs the destructor of every live owned host resource, in the
  order \<open>hs\<close> in which the runtime happens to visit the map. The first error is returned at the end.\<close>

definition close_entry ::
    "(callback \<Rightarrow> u32 \<Rightarrow> ('a table_state_scheme, runtime_error, unit) op) \<Rightarrow> tableEntry option \<Rightarrow>
     ('a table_state_scheme, runtime_error, unit) op" where
  "close_entry call raw s =
     (case raw of
        Some (ResourceEntry p) \<Rightarrow>
          (let e = resources s p in
           if \<not> own e \<or> \<not> hostDtors (tab s) (typeIdx e) then (Inr (), s)
           else (case dtorFor (typeIdx e) s of None \<Rightarrow> (Inr (), s) | Some f \<Rightarrow> call f (resource_rep e) s))
      | _ \<Rightarrow> (Inr (), s))"

definition close_mark :: "'a table_state_scheme \<Rightarrow> 'a table_state_scheme" where
  "close_mark s = s\<lparr>tab := (tab s)\<lparr>closed := True, entries := Map.empty, free := []\<rparr>\<rparr>"

primrec close_entries ::
    "(callback \<Rightarrow> u32 \<Rightarrow> ('a table_state_scheme, runtime_error, unit) op) \<Rightarrow> (u32 \<Rightarrow> tableEntry option) \<Rightarrow>
     runtime_error option \<Rightarrow> u32 list \<Rightarrow> 'a table_state_scheme \<Rightarrow> runtime_error option \<times> 'a table_state_scheme" where
  "close_entries call m firstErr [] s = (firstErr, s)"
| "close_entries call m firstErr (h # hs) s =
     (case close_entry call (m h) s of
        (Inr _, s') \<Rightarrow> close_entries call m firstErr hs s'
      | (Inl e, s') \<Rightarrow> close_entries call m (if firstErr = None then Some e else firstErr) hs s')"

definition close_table ::
    "(callback \<Rightarrow> u32 \<Rightarrow> ('a table_state_scheme, runtime_error, unit) op) \<Rightarrow> u32 list \<Rightarrow>
     'a table_state_scheme \<Rightarrow> runtime_error option \<times> 'a table_state_scheme" where
  "close_table call hs s =
     (if closed (tab s) then (None, s)
      else close_entries call (entries (tab s)) None hs (close_mark s))"

subsection \<open>The index space\<close>

text \<open>
  What the other components rely on in a table of handles: a new handle is fresh, nonzero and names what was
  added; removal frees just the handle it is given; and the handle freed last is the next one handed out.
\<close>

locale index_space =
  fixes ok :: "'s \<Rightarrow> bool"
    and room :: "'s \<Rightarrow> bool"
    and get :: "u32 \<Rightarrow> 's \<Rightarrow> 'e option"
    and add :: "'e \<Rightarrow> 's \<Rightarrow> u32 \<times> 's"
    and remove :: "u32 \<Rightarrow> 's \<Rightarrow> 'e option \<times> 's"
  assumes add_ok: "ok s \<Longrightarrow> room s \<Longrightarrow> ok (snd (add e s))"
    and add_fresh: "ok s \<Longrightarrow> room s \<Longrightarrow> get (fst (add e s)) s = None"
    and add_nonzero: "ok s \<Longrightarrow> room s \<Longrightarrow> fst (add e s) \<noteq> 0"
    and get_add: "ok s \<Longrightarrow> room s \<Longrightarrow> get k (snd (add e s)) = (if k = fst (add e s) then Some e else get k s)"
    and remove_ok: "ok s \<Longrightarrow> ok (snd (remove h s))"
    and remove_fst: "fst (remove h s) = get h s"
    and get_remove: "get k (snd (remove h s)) = (if k = h then None else get k s)"
    and remove_room: "ok s \<Longrightarrow> get h s \<noteq> None \<Longrightarrow> room (snd (remove h s))"
    and add_reuses: "ok s \<Longrightarrow> get h s \<noteq> None \<Longrightarrow> fst (add e (snd (remove h s))) = h"
begin

lemma get_added [simp]: "ok s \<Longrightarrow> room s \<Longrightarrow> get (fst (add e s)) (snd (add e s)) = Some e"
  by (simp add: get_add)

lemma added_differs: "ok s \<Longrightarrow> room s \<Longrightarrow> get k s \<noteq> None \<Longrightarrow> k \<noteq> fst (add e s)"
  using add_fresh by metis

lemma live_unaffected: "ok s \<Longrightarrow> room s \<Longrightarrow> get k s = Some x \<Longrightarrow> get k (snd (add e s)) = Some x"
  using added_differs [of s k e] by (simp add: get_add)

lemma two_adds_differ:
  "ok s \<Longrightarrow> room s \<Longrightarrow> room (snd (add e s)) \<Longrightarrow> fst (add e s) \<noteq> fst (add e' (snd (add e s)))"
  using added_differs [of "snd (add e s)" "fst (add e s)" e'] by (simp add: add_ok)

lemma remove_once: "fst (remove h (snd (remove h s))) = None"
  by (simp add: remove_fst get_remove)

lemma add_remove: "ok s \<Longrightarrow> room s \<Longrightarrow> get k (snd (remove (fst (add e s)) (snd (add e s)))) = get k s"
  by (simp add: get_remove get_add add_fresh)

text \<open>Retiring an entry and adding another puts the new one under the old handle: a stale copy of the handle
  now names the new entry.\<close>

lemma reuse_names_new:
  "ok s \<Longrightarrow> get h s \<noteq> None \<Longrightarrow> get h (snd (add e (snd (remove h s)))) = Some e"
  using get_added [of "snd (remove h s)" e] by (simp add: remove_ok remove_room add_reuses)

end

text \<open>The structure behind it: live and free handles divide the indices below \<open>next\<close> among them.\<close>

definition index_ok :: "'a table_state_scheme \<Rightarrow> bool" where
  "index_ok s \<longleftrightarrow>
     \<not> closed (tab s) \<and> distinct (free (tab s)) \<and> dom (entries (tab s)) \<inter> set (free (tab s)) = {} \<and>
     dom (entries (tab s)) \<union> set (free (tab s)) = {1 ..< next_index (tab s)} \<and> 0 < next_index (tab s)"

text \<open>There is room unless the whole 32-bit index space is live: \<open>next\<close> must not wrap to 0.\<close>

definition has_room :: "'a table_state_scheme \<Rightarrow> bool" where
  "has_room s \<longleftrightarrow> free (tab s) \<noteq> [] \<or> next_index (tab s) + 1 \<noteq> 0"

lemma below_succ:
  fixes n :: u32
  assumes "n + 1 \<noteq> 0" "0 < n"
  shows "{1 ..< n + 1} = insert n {1 ..< n}" "0 < n + 1"
proof -
  have "unat (n + 1) = Suc (unat n)" using assms(1) by (metis add.commute unatSuc)
  then have less: "m < n + 1 \<longleftrightarrow> m < n \<or> m = n" for m
    by (auto simp: word_less_nat_alt less_Suc_eq word_unat_eq_iff)
  have "1 \<le> n" using assms(2) by (simp add: word_le_nat_alt word_less_nat_alt Suc_le_eq)
  with less show "{1 ..< n + 1} = insert n {1 ..< n}" by (intro set_eqI) (simp only: atLeastLessThan_iff insert_iff, blast)
  show "0 < n + 1" using assms(1) by (simp only: word_gt_0)
qed

lemma addEntry_free:
  assumes "\<not> closed (tab s)" "free (tab s) \<noteq> []"
  shows "addEntry e s = (last (free (tab s)), s\<lparr>tab := (tab s)\<lparr>free := butlast (free (tab s)),
    entries := (entries (tab s))(last (free (tab s)) \<mapsto> e)\<rparr>\<rparr>)"
  using assms by (simp add: addEntry_def Let_def)

lemma addEntry_next:
  assumes "\<not> closed (tab s)" "free (tab s) = []"
  shows "addEntry e s = (next_index (tab s), s\<lparr>tab := (tab s)\<lparr>next_index := next_index (tab s) + 1,
    entries := (entries (tab s))(next_index (tab s) \<mapsto> e)\<rparr>\<rparr>)"
  using assms by (simp add: addEntry_def Let_def)

lemma addEntry_index:
  assumes "index_ok s" "has_room s"
  shows "index_ok (snd (addEntry e s))" "entries (tab s) (fst (addEntry e s)) = None" "fst (addEntry e s) \<noteq> 0"
    "entries (tab (snd (addEntry e s))) = (entries (tab s))(fst (addEntry e s) \<mapsto> e)"
proof -
  let ?t = "tab s"
  have ok: "\<not> closed ?t" "distinct (free ?t)" "dom (entries ?t) \<inter> set (free ?t) = {}"
    "dom (entries ?t) \<union> set (free ?t) = {1 ..< next_index ?t}" "0 < next_index ?t"
    using assms(1) by (simp_all add: index_ok_def)
  have "index_ok (snd (addEntry e s)) \<and> entries ?t (fst (addEntry e s)) = None \<and> fst (addEntry e s) \<noteq> 0 \<and>
      entries (tab (snd (addEntry e s))) = (entries ?t)(fst (addEntry e s) \<mapsto> e)"
  proof (cases "free ?t = []")
    case True
    then have n: "next_index ?t + 1 \<noteq> 0" using assms(2) by (simp add: has_room_def)
    have "next_index ?t \<notin> dom (entries ?t)" using ok(4) by auto
    then show ?thesis
      using ok True below_succ [OF n ok(5)] by (auto simp: addEntry_next index_ok_def)
  next
    case False
    then obtain fs h where f: "free ?t = fs @ [h]" by (cases "free ?t" rule: rev_cases) auto
    then have h: "h \<in> {1 ..< next_index ?t}" "h \<notin> dom (entries ?t)" using ok(3,4) by auto
    then have "h \<noteq> 0" by auto
    then show ?thesis
      using ok f h by (auto simp: addEntry_free index_ok_def)
  qed
  then show "index_ok (snd (addEntry e s))" "entries (tab s) (fst (addEntry e s)) = None" "fst (addEntry e s) \<noteq> 0"
    "entries (tab (snd (addEntry e s))) = (entries (tab s))(fst (addEntry e s) \<mapsto> e)"
    by blast+
qed

lemma retire_simps [simp]:
  "entries (tab (retire h s)) = (entries (tab s))(h := None)" "free (tab (retire h s)) = free (tab s) @ [h]"
  "next_index (tab (retire h s)) = next_index (tab s)" "closed (tab (retire h s)) = closed (tab s)"
  "resources (retire h s) = resources s" "fresh_ref (retire h s) = fresh_ref s" "numBorrows (retire h s) = numBorrows s"
  "dtors (tab (retire h s)) = dtors (tab s)" "hostDtors (tab (retire h s)) = hostDtors (tab s)"
  by (simp_all add: retire_def)

lemma retire_index: "index_ok s \<Longrightarrow> entries (tab s) h \<noteq> None \<Longrightarrow> index_ok (retire h s)"
  by (auto simp: index_ok_def)

lemma removeEntry_simps:
  "fst (removeEntry h s) = entries (tab s) h"
  "entries (tab (snd (removeEntry h s))) = (entries (tab s))(h := None)"
  "entries (tab s) h \<noteq> None \<Longrightarrow> snd (removeEntry h s) = retire h s"
  "entries (tab s) h = None \<Longrightarrow> snd (removeEntry h s) = s"
  by (auto simp: removeEntry_def getEntry_def fun_eq_iff split: option.split)

lemma removeEntry_index: "index_ok s \<Longrightarrow> index_ok (snd (removeEntry h s))"
  by (cases "entries (tab s) h = None") (simp_all add: removeEntry_simps retire_index)

interpretation handles: index_space index_ok has_room getEntry addEntry removeEntry
proof unfold_locales
  fix s :: "'a table_state_scheme" and h e
  assume s: "index_ok s" "getEntry h s \<noteq> None"
  then have "snd (removeEntry h s) = retire h s" "\<not> closed (tab s)"
    by (simp_all add: removeEntry_simps getEntry_def index_ok_def)
  then show "has_room (snd (removeEntry h s))" "fst (addEntry e (snd (removeEntry h s))) = h"
    by (simp_all add: has_room_def addEntry_free)
qed (simp_all add: getEntry_def addEntry_index removeEntry_index removeEntry_simps)

subsection \<open>The invariant of a table and its store\<close>

text \<open>The handles of the live borrows that belong to a task.\<close>

definition scoped :: "'a table_state_scheme \<Rightarrow> ref \<Rightarrow> u32 set" where
  "scoped s t = {h. \<exists>p. entries (tab s) h = Some (ResourceEntry p) \<and> borrowScope (resources s p) = Some t}"

definition refs_ok :: "'a table_state_scheme \<Rightarrow> bool" where
  "refs_ok s \<longleftrightarrow>
     (\<forall>h p. entries (tab s) h = Some (ResourceEntry p) \<longrightarrow>
        p < fresh_ref s \<and> (own (resources s p) \<longrightarrow> borrowScope (resources s p) = None) \<and>
        (\<forall>h'. entries (tab s) h' = Some (ResourceEntry p) \<longrightarrow> h' = h)) \<and>
     (\<forall>p. 0 \<le> lendCount (resources s p))"

definition table_ok :: "'a table_state_scheme \<Rightarrow> bool" where
  "table_ok s \<longleftrightarrow> refs_ok s \<and>
     (if closed (tab s) then entries (tab s) = Map.empty
      else index_ok s \<and> (\<forall>t. numBorrows s t = int (card (scoped s t))))"

lemma refs_okD:
  assumes "refs_ok s" "entries (tab s) h = Some (ResourceEntry p)"
  shows "p < fresh_ref s" "own (resources s p) \<Longrightarrow> borrowScope (resources s p) = None"
    "entries (tab s) h' = Some (ResourceEntry p) \<Longrightarrow> h' = h"
  using assms by (auto simp: refs_ok_def)

text \<open>What adding an entry does to an open table.\<close>

lemma addEntry_frame [simp]:
  "resources (snd (addEntry e s)) = resources s" "fresh_ref (snd (addEntry e s)) = fresh_ref s"
  "numBorrows (snd (addEntry e s)) = numBorrows s" "closed (tab (snd (addEntry e s))) = closed (tab s)"
  by (simp_all add: addEntry_def Let_def)

lemma add_resource_closed:
  "closed (tab s) \<Longrightarrow> add_resource e s =
     (0, s\<lparr>resources := (resources s)(fresh_ref s := e), fresh_ref := fresh_ref s + 1\<rparr>)"
  by (simp add: add_resource_def alloc_resource_def addEntry_def)

lemma add_resource_open:
  assumes "index_ok s" "has_room s" "add_resource e s = (h, s')"
  shows "index_ok s'" "entries (tab s) h = None" "h \<noteq> 0" "entries (tab s') = (entries (tab s))(h \<mapsto> ResourceEntry (fresh_ref s))"
    "resources s' = (resources s)(fresh_ref s := e)" "fresh_ref s' = fresh_ref s + 1" "numBorrows s' = numBorrows s"
    "closed (tab s') = closed (tab s)"
proof -
  let ?s = "s\<lparr>resources := (resources s)(fresh_ref s := e), fresh_ref := fresh_ref s + 1\<rparr>"
  have eq: "h = fst (addEntry (ResourceEntry (fresh_ref s)) ?s)" "s' = snd (addEntry (ResourceEntry (fresh_ref s)) ?s)"
    using assms(3) by (simp_all add: add_resource_def alloc_resource_def)
  have ok: "index_ok ?s" "has_room ?s" using assms(1,2) by (simp_all add: index_ok_def has_room_def)
  show "index_ok s'" "entries (tab s) h = None" "h \<noteq> 0" "entries (tab s') = (entries (tab s))(h \<mapsto> ResourceEntry (fresh_ref s))"
    "resources s' = (resources s)(fresh_ref s := e)" "fresh_ref s' = fresh_ref s + 1" "numBorrows s' = numBorrows s"
    "closed (tab s') = closed (tab s)"
    using addEntry_index [OF ok, of "ResourceEntry (fresh_ref s)"] by (simp_all add: eq)
qed

lemma add_resource_refs:
  assumes "refs_ok s" "entries (tab s') = (entries (tab s))(h \<mapsto> ResourceEntry (fresh_ref s))"
    "resources s' = (resources s)(fresh_ref s := e)" "fresh_ref s' = fresh_ref s + 1"
    "lendCount e = 0" "own e \<Longrightarrow> borrowScope e = None"
  shows "refs_ok s'"
proof -
  have old: "k \<noteq> h \<and> entries (tab s) k = Some (ResourceEntry p) \<and> p < fresh_ref s \<or> k = h \<and> p = fresh_ref s"
    if "entries (tab s') k = Some (ResourceEntry p)" for k p
    using that refs_okD(1) [OF assms(1), of k p] by (auto simp: assms(2) split: if_splits)
  show ?thesis
    unfolding refs_ok_def
  proof (intro conjI allI impI)
    fix k p assume k: "entries (tab s') k = Some (ResourceEntry p)"
    show "p < fresh_ref s'" using old [OF k] by (auto simp: assms(4))
    show "borrowScope (resources s' p) = None" if "own (resources s' p)"
      using old [OF k] that assms(6) refs_okD(2) [OF assms(1), of k p] by (auto simp: assms(3))
    show "k' = k" if "entries (tab s') k' = Some (ResourceEntry p)" for k'
      using old [OF k] old [OF that] refs_okD(3) [OF assms(1), of k p k'] by auto
  next
    fix p show "0 \<le> lendCount (resources s' p)"
      using assms(1,5) by (simp add: assms(3) refs_ok_def)
  qed
qed

lemma add_resource_scoped:
  assumes "refs_ok s" "entries (tab s) h = None" "entries (tab s') = (entries (tab s))(h \<mapsto> ResourceEntry (fresh_ref s))"
    "resources s' = (resources s)(fresh_ref s := e)"
  shows "card (scoped s' t) = card (scoped s t) + (if borrowScope e = Some t then 1 else 0)"
proof -
  have old: "p \<noteq> fresh_ref s" if "entries (tab s) k = Some (ResourceEntry p)" for k p
    using refs_okD(1) [OF assms(1) that] by simp
  have "scoped s' t = (if borrowScope e = Some t then insert h (scoped s t) else scoped s t)"
    using assms(2) unfolding scoped_def assms(3,4) by (auto dest: old)
  moreover have "h \<notin> scoped s t" using assms(2) by (simp add: scoped_def)
  ultimately show ?thesis by simp
qed

lemma add_resource_ok:
  assumes "table_ok s" "has_room s \<or> closed (tab s)" "add_resource e s = (h, s')" "lendCount e = 0"
    "own e \<Longrightarrow> borrowScope e = None" "borrowScope e = None"
  shows "table_ok s'"
proof (cases "closed (tab s)")
  case True
  then have "s' = s\<lparr>resources := (resources s)(fresh_ref s := e), fresh_ref := fresh_ref s + 1\<rparr>"
    using assms(3) by (simp add: add_resource_closed)
  then show ?thesis using assms(1,4) True by (auto simp: table_ok_def refs_ok_def)
next
  case False
  with assms have "index_ok s" "has_room s" "refs_ok s" "\<forall>t. numBorrows s t = int (card (scoped s t))"
    by (simp_all add: table_ok_def)
  with assms(4-6) False add_resource_open [OF this(1,2) assms(3)] add_resource_refs [of s s' h e] add_resource_scoped [of s h s' e]
  show ?thesis by (simp add: table_ok_def)
qed

lemma NewBorrowScoped_ok:
  assumes "table_ok s" "has_room s \<or> closed (tab s)" "NewBorrowScoped ti r (Some t) s = (Inr h, s')"
  shows "table_ok s'"
proof -
  let ?e = "\<lparr>typeIdx = ti, resource_rep = r, own = False, lendCount = 0, borrowScope = Some t\<rparr>"
  let ?s = "s\<lparr>numBorrows := (numBorrows s)(t := numBorrows s t + 1)\<rparr>"
  have new: "add_resource ?e ?s = (h, s')"
    using assms(3) by (simp add: NewBorrowScoped_def split: prod.splits)
  show ?thesis
  proof (cases "closed (tab s)")
    case True
    then have "s' = ?s\<lparr>resources := (resources s)(fresh_ref s := ?e), fresh_ref := fresh_ref s + 1\<rparr>"
      using new by (simp add: add_resource_closed)
    then show ?thesis using assms(1) True by (auto simp: table_ok_def refs_ok_def)
  next
    case False
    with assms have s: "index_ok ?s" "has_room ?s" "refs_ok ?s" "\<forall>t. numBorrows s t = int (card (scoped s t))"
      by (simp_all add: table_ok_def index_ok_def has_room_def refs_ok_def)
    have "scoped ?s = scoped s" by (simp add: scoped_def fun_eq_iff)
    with s False add_resource_open [OF s(1,2) new] add_resource_refs [of ?s s' h ?e] add_resource_scoped [of ?s h s' ?e]
    show ?thesis by (auto simp: table_ok_def)
  qed
qed

text \<open>Retiring a handle.\<close>

lemma retire_scoped: "scoped (retire h s) t = scoped s t - {h}"
  by (auto simp: scoped_def)

lemma retire_ok:
  assumes "table_ok s" "entries (tab s) h \<noteq> None" "\<And>t. h \<notin> scoped s t"
  shows "table_ok (retire h s)"
proof -
  have "\<not> closed (tab s)" using assms(1,2) by (auto simp: table_ok_def)
  moreover have "refs_ok (retire h s)" using assms(1) by (auto simp: table_ok_def refs_ok_def)
  ultimately show ?thesis
    using assms retire_index [of s h] by (simp add: table_ok_def retire_scoped)
qed

lemma owned_unscoped:
  "table_ok s \<Longrightarrow> entries (tab s) h = Some (ResourceEntry p) \<Longrightarrow> own (resources s p) \<Longrightarrow> h \<notin> scoped s t"
  using refs_okD(2) [of s h p] by (auto simp: table_ok_def scoped_def)

lemma lookup_Inr: "lookup ti h s = Inr p \<longleftrightarrow> entries (tab s) h = Some (ResourceEntry p) \<and> typeIdx (resources s p) = ti"
  by (auto simp: lookup_def getEntry_def split: option.splits tableEntry.splits if_splits)

lemma owned_entry_Inr:
  "owned_entry h s = Inr p \<longleftrightarrow>
     entries (tab s) h = Some (ResourceEntry p) \<and> own (resources s p) \<and> lendCount (resources s p) = 0"
  by (auto simp: owned_entry_def getEntry_def split: option.splits tableEntry.splits if_splits)

lemma retire_owned_ok:
  "table_ok s \<Longrightarrow> entries (tab s) h = Some (ResourceEntry p) \<Longrightarrow> own (resources s p) \<Longrightarrow> table_ok (retire h s)"
  by (rule retire_ok) (auto dest: owned_unscoped)

lemma release_borrow_ok:
  assumes "table_ok s" "entries (tab s) h = Some (ResourceEntry p)" "borrowScope (resources s p) = Some t"
  shows "table_ok (retire h (s\<lparr>numBorrows := (numBorrows s)(t := numBorrows s t - 1)\<rparr>))"
proof -
  let ?s = "s\<lparr>numBorrows := (numBorrows s)(t := numBorrows s t - 1)\<rparr>"
  have s: "\<not> closed (tab s)" "index_ok ?s" "refs_ok ?s" "\<forall>t. numBorrows s t = int (card (scoped s t))"
    using assms(1,2) by (auto simp: table_ok_def index_ok_def refs_ok_def split: if_splits)
  have sc: "scoped (retire h ?s) u = scoped s u - {h}" for u by (auto simp: scoped_def)
  have "h \<in> scoped s t" using assms(2,3) by (auto simp: scoped_def)
  then have pos: "card (scoped s t) > 0" by (auto simp: card_gt_0_iff)
  have "h \<notin> scoped s u" if "u \<noteq> t" for u using assms(2,3) that by (auto simp: scoped_def)
  then have "numBorrows (retire h ?s) u = int (card (scoped (retire h ?s) u))" for u
    unfolding sc using s(4) \<open>h \<in> scoped s t\<close> pos by (cases "u = t") (simp_all add: card_Diff_singleton of_nat_diff)
  moreover have "refs_ok (retire h ?s)" using s(3) by (auto simp: refs_ok_def)
  ultimately show ?thesis
    using s retire_index [OF s(2)] assms(2) by (auto simp: table_ok_def)
qed

lemma lend_ref_simps [simp]:
  "tab (lend_ref p d s) = tab s" "fresh_ref (lend_ref p d s) = fresh_ref s" "numBorrows (lend_ref p d s) = numBorrows s"
  "typeIdx (resources (lend_ref p d s) q) = typeIdx (resources s q)"
  "own (resources (lend_ref p d s) q) = own (resources s q)"
  "resource_rep (resources (lend_ref p d s) q) = resource_rep (resources s q)"
  "borrowScope (resources (lend_ref p d s) q) = borrowScope (resources s q)"
  "lendCount (resources (lend_ref p d s) q) = lendCount (resources s q) + (if q = p then d else 0)"
  by (simp_all add: lend_ref_def)

lemma lend_ref_ok: "table_ok s \<Longrightarrow> 0 \<le> lendCount (resources s p) + d \<Longrightarrow> table_ok (lend_ref p d s)"
  by (auto simp: table_ok_def refs_ok_def index_ok_def scoped_def split: if_splits)

subsection \<open>The table as a state machine\<close>

text \<open>
  Every method, in any order, by whoever holds the mutex. The label says what a step may do to the table's
  entries: \<open>Added\<close> adds one, \<open>Consumed h\<close> may retire \<open>h\<close>, \<open>Destroyed h\<close> is the end of
  \<open>dropOwnedWithDtor\<close>, \<open>Counted\<close> only changes counters and callbacks, \<open>Closing\<close> empties the
  table. An allocation is a step only while the index space has room. A destructor runs between its two
  halves, so whatever it does to the table is steps of its own.
\<close>

datatype table_event = Added | Consumed u32 | Destroyed u32 | Counted | Closing

inductive table_step :: "'a table_state_scheme \<Rightarrow> table_event \<Rightarrow> 'a table_state_scheme \<Rightarrow> bool" where
  step_own: "has_room s \<or> closed (tab s) \<Longrightarrow> NewOwn ti r s = (h, s') \<Longrightarrow> table_step s Added s'"
| step_borrow: "has_room s \<or> closed (tab s) \<Longrightarrow> NewBorrow ti r s = (h, s') \<Longrightarrow> table_step s Added s'"
| step_scoped: "has_room s \<or> closed (tab s) \<Longrightarrow> NewBorrowScoped ti r (Some t) s = (Inr h, s') \<Longrightarrow> table_step s Added s'"
| step_other: "has_room s \<or> closed (tab s) \<Longrightarrow> kind_of e \<noteq> entryResource \<Longrightarrow> addEntry e s = (h, s') \<Longrightarrow> table_step s Added s'"
| step_remove: "getEntry h s = Some e \<Longrightarrow> kind_of e \<noteq> entryResource \<Longrightarrow> removeEntry h s = (x, s') \<Longrightarrow> table_step s (Consumed h) s'"
| step_take: "TakeOwn ti h s = (res, s') \<Longrightarrow> table_step s (Consumed h) s'"
| step_drop: "Drop ti h s = (res', s') \<Longrightarrow> table_step s (Consumed h) s'"
| step_drop_owned: "DropOwned h s = (res, s') \<Longrightarrow> table_step s (Consumed h) s'"
| step_drop_end: "own (resources s p) \<Longrightarrow> dropOwned_end h p s = (res', s') \<Longrightarrow> table_step s (Destroyed h) s'"
| step_lend: "Lend ti h s = (res', s') \<Longrightarrow> table_step s Counted s'"
| step_unlend: "Unlend ti h s = (res', s') \<Longrightarrow> table_step s Counted s'"
| step_register: "table_step s Counted (registerDtor ti d s)"
| step_register_host: "table_step s Counted (registerHostDtor ti d s)"
| step_close: "close_table call [] s = (x, s') \<Longrightarrow> table_step s Closing s'"

inductive_cases table_step_casesE: "table_step s ev s'"

inductive table_reachable :: "'a table_state_scheme \<Rightarrow> bool" where
  reach_init: "tab s = newHandleTable \<Longrightarrow> (\<forall>p. lendCount (resources s p) = 0) \<Longrightarrow> (\<forall>t. numBorrows s t = 0) \<Longrightarrow>
    table_reachable s"
| reach_step: "table_reachable s \<Longrightarrow> table_step s ev s' \<Longrightarrow> table_reachable s'"

lemma new_table_ok:
  "tab s = newHandleTable \<Longrightarrow> (\<forall>p. lendCount (resources s p) = 0) \<Longrightarrow> (\<forall>t. numBorrows s t = 0) \<Longrightarrow> table_ok s"
  by (auto simp: table_ok_def refs_ok_def index_ok_def newHandleTable_def scoped_def)

lemma add_other_ok:
  assumes "table_ok s" "has_room s \<or> closed (tab s)" "kind_of e \<noteq> entryResource"
  shows "table_ok (snd (addEntry e s))"
proof (cases "closed (tab s)")
  case True
  then show ?thesis using assms(1) by (simp add: addEntry_def)
next
  case False
  with assms have s: "index_ok s" "has_room s" "refs_ok s" "\<forall>t. numBorrows s t = int (card (scoped s t))"
    by (simp_all add: table_ok_def)
  have e: "e \<noteq> ResourceEntry p" for p using assms(3) by auto
  have ent: "entries (tab (snd (addEntry e s))) h = Some (ResourceEntry p) \<longleftrightarrow> entries (tab s) h = Some (ResourceEntry p)" for h p
    using addEntry_index(2,4) [OF s(1,2), of e] e by auto
  have "scoped (snd (addEntry e s)) t = scoped s t" for t by (simp add: scoped_def ent)
  moreover have "refs_ok (snd (addEntry e s))" using s(3) by (simp add: refs_ok_def ent)
  ultimately show ?thesis using False s addEntry_index(1) [OF s(1,2), of e] by (simp add: table_ok_def)
qed

lemma remove_other_ok:
  assumes "table_ok s" "getEntry h s = Some e" "kind_of e \<noteq> entryResource"
  shows "table_ok (snd (removeEntry h s))"
proof -
  have "h \<notin> scoped s t" for t using assms(2,3) by (auto simp: scoped_def getEntry_def)
  then show ?thesis using assms retire_ok [of s h] by (simp add: removeEntry_def getEntry_def)
qed

lemma consume_ok:
  assumes "table_ok s"
  shows "table_ok (snd (TakeOwn ti h s))" "table_ok (snd (Drop ti h s))" "table_ok (snd (DropOwned h s))"
  using assms retire_owned_ok [OF assms] release_borrow_ok [OF assms]
  by (auto simp: TakeOwn_def Drop_def DropOwned_def Let_def lookup_Inr owned_entry_Inr split: sum.split option.split)

lemma drop_end_ok: "table_ok s \<Longrightarrow> own (resources s p) \<Longrightarrow> table_ok (snd (dropOwned_end h p s))"
  by (auto simp: dropOwned_end_def getEntry_def intro: retire_owned_ok)

lemma lends_nonneg: "table_ok s \<Longrightarrow> 0 \<le> lendCount (resources s p)"
  by (simp add: table_ok_def refs_ok_def)

lemma lend_ops_ok:
  assumes "table_ok s"
  shows "table_ok (snd (Lend ti h s))" "table_ok (snd (Unlend ti h s))"
  using assms lends_nonneg [OF assms] lend_ref_ok [OF assms]
  by (auto simp: Lend_def Unlend_def order_less_le split: sum.split)

lemma table_ok_cong:
  assumes "table_ok s" "entries (tab s') = entries (tab s)" "next_index (tab s') = next_index (tab s)"
    "free (tab s') = free (tab s)" "closed (tab s') = closed (tab s)" "resources s' = resources s"
    "fresh_ref s' = fresh_ref s" "numBorrows s' = numBorrows s"
  shows "table_ok s'"
proof -
  have "scoped s' = scoped s" by (simp add: scoped_def fun_eq_iff assms(2,6))
  moreover have "refs_ok s' = refs_ok s" by (simp add: refs_ok_def assms(2,6,7))
  moreover have "index_ok s' = index_ok s" by (simp add: index_ok_def assms(2-5))
  ultimately show ?thesis using assms(1) by (simp add: table_ok_def assms(2,5,8))
qed

lemma register_ok: "table_ok s \<Longrightarrow> table_ok (registerDtor ti d s)" "table_ok s \<Longrightarrow> table_ok (registerHostDtor ti d s)"
  by (erule table_ok_cong; simp add: registerDtor_def registerHostDtor_def Let_def)+

lemma close_ok: "table_ok s \<Longrightarrow> close_table call [] s = (x, s') \<Longrightarrow> table_ok s'"
  by (auto simp: close_table_def close_mark_def table_ok_def refs_ok_def split: if_splits)

lemmas step_ok = add_other_ok remove_other_ok consume_ok drop_end_ok lend_ops_ok register_ok close_ok

lemma table_step_ok: "table_step s ev s' \<Longrightarrow> table_ok s \<Longrightarrow> table_ok s'"
proof (induction rule: table_step.induct)
  case (step_own s ti r h s')
  then show ?case by (auto simp: NewOwn_def add_def intro: add_resource_ok)
next
  case (step_borrow s ti r h s')
  then show ?case by (auto simp: NewBorrow_def add_def intro: add_resource_ok)
next
  case (step_scoped s ti r t h s')
  then show ?case by (rule NewBorrowScoped_ok [rotated])
next
  case (step_other s e h s')
  then show ?case using add_other_ok [of s e] by simp
next
  case (step_remove h s e x s')
  then show ?case using remove_other_ok [of s h e] by simp
next
  case (step_drop_end s p h res' s')
  then show ?case using drop_end_ok [of s p h] by simp
next
  case (step_close call s x s')
  then show ?case using close_ok by blast
qed (metis step_ok snd_conv)+

lemma reachable_table_ok: "table_reachable s \<Longrightarrow> table_ok s"
  by (induction rule: table_reachable.induct) (auto intro: new_table_ok table_step_ok)

text \<open>Entries that a step leaves alone.\<close>

lemma add_resource_keeps:
  assumes "table_ok s" "has_room s \<or> closed (tab s)" "add_resource e s' = (h', s'')" "tab s' = tab s"
    "entries (tab s) h = Some x"
  shows "entries (tab s'') h = Some x"
proof -
  have "\<not> closed (tab s)" using assms(1,5) by (auto simp: table_ok_def)
  with assms have "index_ok s'" "has_room s'" by (auto simp: table_ok_def index_ok_def has_room_def)
  from add_resource_open [OF this assms(3)] assms(4,5) show ?thesis by auto
qed

lemma addEntry_keeps:
  assumes "table_ok s" "has_room s \<or> closed (tab s)" "entries (tab s) h = Some x"
  shows "entries (tab (snd (addEntry e s))) h = Some x"
proof -
  have "\<not> closed (tab s)" using assms(1,3) by (auto simp: table_ok_def)
  with assms show ?thesis using addEntry_index [of s e] by (auto simp: table_ok_def)
qed

lemma consume_keeps:
  assumes "entries (tab s) h = Some (ResourceEntry p)" "lendCount (resources s p) \<noteq> 0"
  shows "entries (tab (snd (TakeOwn ti k s))) h = Some (ResourceEntry p)"
    "entries (tab (snd (Drop ti k s))) h = Some (ResourceEntry p)"
    "entries (tab (snd (DropOwned k s))) h = Some (ResourceEntry p)"
  using assms by (auto simp: TakeOwn_def Drop_def DropOwned_def Let_def lookup_Inr owned_entry_Inr split: sum.split option.split)

lemma table_step_keeps_lent:
  assumes "table_step s ev s'" "table_ok s" "entries (tab s) h = Some (ResourceEntry p)" "lendCount (resources s p) \<noteq> 0"
    "ev \<noteq> Closing" "ev \<noteq> Destroyed h"
  shows "entries (tab s') h = Some (ResourceEntry p)"
  using assms
proof (induction rule: table_step.induct)
  case (step_own s ti r h' s')
  then show ?case by (auto simp: NewOwn_def add_def intro: add_resource_keeps)
next
  case (step_borrow s ti r h' s')
  then show ?case by (auto simp: NewBorrow_def add_def intro: add_resource_keeps)
next
  case (step_scoped s ti r t h' s')
  then show ?case by (auto simp: NewBorrowScoped_def split: prod.splits intro: add_resource_keeps)
next
  case (step_other s e h' s')
  then show ?case using addEntry_keeps [of s h _ e] by simp
next
  case (step_remove k s e x s')
  then show ?case by (auto simp: removeEntry_def getEntry_def)
next
  case (step_take ti k s res s')
  then show ?case using consume_keeps(1) [of s h p ti k] by simp
next
  case (step_drop ti k s res' s')
  then show ?case using consume_keeps(2) [of s h p ti k] by simp
next
  case (step_drop_owned k s res s')
  then show ?case using consume_keeps(3) [of s h p k] by simp
next
  case (step_drop_end s q k res' s')
  then show ?case by (auto simp: dropOwned_end_def split: if_splits)
next
  case (step_lend ti k s res' s')
  then show ?case by (auto simp: Lend_def split: sum.splits)
next
  case (step_unlend ti k s res' s')
  then show ?case by (auto simp: Unlend_def split: sum.splits if_splits)
qed (simp_all add: registerDtor_def registerHostDtor_def Let_def)

subsection \<open>What closing a table runs\<close>

text \<open>The destructor calls that closing owes: one for each live owned handle of a host resource type.\<close>

definition close_targets :: "'a table_state_scheme \<Rightarrow> u32 list \<Rightarrow> (callback \<times> u32) list" where
  "close_targets s hs = concat (map (\<lambda>h.
     case entries (tab s) h of
       Some (ResourceEntry p) \<Rightarrow>
         (case dtors (tab s) (typeIdx (resources s p)) of
            Some f \<Rightarrow> if own (resources s p) \<and> hostDtors (tab s) (typeIdx (resources s p))
                        then [(f, resource_rep (resources s p))] else []
          | None \<Rightarrow> [])
     | _ \<Rightarrow> []) hs)"

text \<open>Every call is made; the first error is the result.\<close>

primrec run_all ::
    "(callback \<Rightarrow> u32 \<Rightarrow> ('s, runtime_error, unit) op) \<Rightarrow> runtime_error option \<Rightarrow> (callback \<times> u32) list \<Rightarrow> 's \<Rightarrow>
     runtime_error option \<times> 's" where
  "run_all call err [] s = (err, s)"
| "run_all call err (c # cs) s =
     (case call (fst c) (snd c) s of
        (Inr _, s') \<Rightarrow> run_all call err cs s'
      | (Inl e, s') \<Rightarrow> run_all call (case err of None \<Rightarrow> Some e | Some _ \<Rightarrow> err) cs s')"

text \<open>A callback of the host that leaves this table and its entries alone.\<close>

definition leaves_table :: "(callback \<Rightarrow> u32 \<Rightarrow> ('a table_state_scheme, runtime_error, unit) op) \<Rightarrow> bool" where
  "leaves_table call \<longleftrightarrow> (\<forall>f r s. tab (snd (call f r s)) = tab s \<and> resources (snd (call f r s)) = resources s)"

lemma close_entry_target:
  assumes "resources s = resources s0" "dtors (tab s) = dtors (tab s0)" "hostDtors (tab s) = hostDtors (tab s0)"
  shows "close_targets s0 [h] = [] \<and> close_entry call (entries (tab s0) h) s = (Inr (), s) \<or>
    (\<exists>f r. close_targets s0 [h] = [(f, r)] \<and> close_entry call (entries (tab s0) h) s = call f r s)"
  using assms by (auto simp: close_targets_def close_entry_def dtorFor_def Let_def split: option.split tableEntry.split)

lemma close_targets_Cons: "close_targets s (h # hs) = close_targets s [h] @ close_targets s hs"
  by (simp add: close_targets_def)

lemma close_entries_run_all:
  assumes "leaves_table call" "resources s = resources s0" "dtors (tab s) = dtors (tab s0)" "hostDtors (tab s) = hostDtors (tab s0)"
  shows "close_entries call (entries (tab s0)) err hs s = run_all call err (close_targets s0 hs) s"
  using assms(2-4)
proof (induction hs arbitrary: err s)
  case Nil
  then show ?case by (simp add: close_targets_def)
next
  case (Cons h hs)
  have same: "tab (snd (call f r s)) = tab s" "resources (snd (call f r s)) = resources s" for f r
    using assms(1) by (simp_all add: leaves_table_def)
  from close_entry_target [OF Cons.prems, of h call] show ?case
  proof (elim disjE conjE exE)
    assume "close_targets s0 [h] = []" "close_entry call (entries (tab s0) h) s = (Inr (), s)"
    then show ?thesis using Cons unfolding close_targets_Cons [of s0 h hs] by simp
  next
    fix f r assume t: "close_targets s0 [h] = [(f, r)]" "close_entry call (entries (tab s0) h) s = call f r s"
    obtain x s' where c: "call f r s = (x, s')" by (cases "call f r s")
    have "close_entries call (entries (tab s0)) e hs s' = run_all call e (close_targets s0 hs) s'" for e
      using same [of f r] Cons.prems by (intro Cons.IH) (simp_all add: c)
    then show ?thesis unfolding close_targets_Cons [of s0 h hs] t by (cases x) (auto simp: t c split: option.split)
  qed
qed

lemma run_all_keeps:
  "leaves_table call \<Longrightarrow> tab (snd (run_all call err cs s)) = tab s"
proof (induction cs arbitrary: err s)
  case (Cons c cs)
  then have "tab (snd (call (fst c) (snd c) s)) = tab s" by (simp add: leaves_table_def)
  with Cons show ?case by (auto split: prod.split sum.split)
qed simp

subsection \<open>An example table\<close>

text \<open>An empty table, and one after \<open>NewOwn(7, 42)\<close>.\<close>

definition empty_table :: table_state where
  "empty_table = \<lparr>tab = newHandleTable,
     resources = (\<lambda>_. \<lparr>typeIdx = 0, resource_rep = 0, own = False, lendCount = 0, borrowScope = None\<rparr>),
     fresh_ref = 0, numBorrows = (\<lambda>_. 0)\<rparr>"

definition one_own :: table_state where
  "one_own = snd (NewOwn 7 42 empty_table)"

lemma one_own_entries:
  "tab one_own = newHandleTable\<lparr>entries := [1 \<mapsto> ResourceEntry 0], next_index := 2\<rparr>"
  "resources one_own 0 = \<lparr>typeIdx = 7, resource_rep = 42, own = True, lendCount = 0, borrowScope = None\<rparr>"
  "NewOwn 7 42 empty_table = (1, one_own)"
  by (simp_all add: one_own_def NewOwn_def add_def add_resource_def alloc_resource_def addEntry_def empty_table_def
      newHandleTable_def Let_def)

lemma empty_table_reachable: "table_reachable empty_table"
  by (rule reach_init) (simp_all add: empty_table_def)

lemma empty_table_room: "has_room empty_table" "\<not> closed (tab empty_table)"
  by (simp_all add: has_room_def empty_table_def newHandleTable_def)

lemma one_own_reachable: "table_reachable one_own"
  using empty_table_reachable empty_table_room one_own_entries(3) by (blast intro: reach_step step_own)

subsection \<open>Properties\<close>

text \<open>C4. In every state an open handle table can reach, the live handles and the free list divide the
  indices from 1 to \<open>next\<close> among them, no index is free twice, and each task's \<open>numBorrows\<close>
  is the number of live borrow handles scoped to it.\<close>

theorem handle_table_invariant:
  assumes "table_reachable s" "\<not> closed (tab s)"
  shows "distinct (free (tab s)) \<and> dom (entries (tab s)) \<inter> set (free (tab s)) = {} \<and>
    dom (entries (tab s)) \<union> set (free (tab s)) = {1 ..< next_index (tab s)} \<and>
    (\<forall>t. numBorrows s t = int (card (scoped s t)))"
  using reachable_table_ok [OF assms(1)] assms(2) by (simp add: table_ok_def index_ok_def)

text \<open>A new owning handle is nonzero and was not live; afterwards it names the new representation under
  its own resource type and fails under any other, and what every other handle names is unchanged.\<close>

theorem NewOwn_fresh:
  assumes "table_reachable s" "\<not> closed (tab s)" "has_room s" "NewOwn ti r s = (h, s')"
  shows "h \<noteq> 0 \<and> getEntry h s = None \<and>
    Rep u k s' = (if k \<noteq> h then Rep u k s else if u = ti then Inr r else Inl WrongResourceType)"
proof -
  have ok: "table_ok s" "index_ok s" using reachable_table_ok [OF assms(1)] assms(2) by (simp_all add: table_ok_def)
  note new = add_resource_open [OF ok(2) assms(3) assms(4) [unfolded NewOwn_def add_def]]
  have old: "p \<noteq> fresh_ref s" if "entries (tab s) k = Some (ResourceEntry p)" for p
    using ok(1) refs_okD(1) [OF _ that] by (auto simp: table_ok_def)
  show ?thesis
    using new old by (auto simp: Rep_def lookup_def getEntry_def split: option.split tableEntry.split)
qed

text \<open>An owning handle is consumed once: a successful \<open>TakeOwn\<close> returns the representation the handle
  named, after it the handle fails every lookup and removal under any type, and it is the next handle to
  be handed out.\<close>

theorem TakeOwn_consumes:
  assumes "table_reachable s" "TakeOwn ti h s = (Inr r, s')"
  shows "Rep ti h s = Inr r \<and> IsOwn ti h s = Inr True \<and> Rep u h s' = Inl UnknownHandle \<and>
    TakeOwn u h s' = (Inl UnknownHandle, s') \<and> Drop u h s' = (Inl UnknownHandle, s') \<and>
    DropOwned h s' = (Inl UnknownHandle, s') \<and> fst (addEntry e s') = h"
proof -
  obtain p where p: "entries (tab s) h = Some (ResourceEntry p)" "typeIdx (resources s p) = ti" "own (resources s p)"
    "r = resource_rep (resources s p)" "s' = retire h s"
    using assms(2) by (auto simp: TakeOwn_def Let_def lookup_Inr split: sum.splits if_splits)
  have "\<not> closed (tab s)" using reachable_table_ok [OF assms(1)] p(1) by (auto simp: table_ok_def)
  with p show ?thesis
    by (simp add: Rep_def IsOwn_def TakeOwn_def Drop_def DropOwned_def owned_entry_def lookup_def getEntry_def addEntry_free)
qed

text \<open>C7. While a handle is lent out, no operation of the table takes its entry away, whatever handle or type
  it is given, except closing the table and the end of a destructor that was started before the lend.\<close>

theorem lent_handle_stays:
  assumes "table_reachable s" "table_step s ev s'" "getEntry h s = Some (ResourceEntry p)"
    "lendCount (resources s p) \<noteq> 0" "ev \<noteq> Closing" "ev \<noteq> Destroyed h"
  shows "getEntry h s' = Some (ResourceEntry p)"
  using table_step_keeps_lent [OF assms(2) reachable_table_ok [OF assms(1)] _ assms(4-6)] assms(3) by (simp add: getEntry_def)

text \<open>The exception is a lost lend: \<open>dropOwnedWithDtor\<close> checks for outstanding lends before the
  destructor and not again after it, so a lend made while the destructor runs does not stop the handle
  from being dropped, and can then not be released.\<close>

theorem dropOwnedWithDtor_loses_lend:
  assumes "getEntry h s = Some (ResourceEntry p)" "own (resources s p)" "lendCount (resources s p) = 0"
    "typeIdx (resources s p) = ti" "dtors (tab s) ti = Some f"
  shows "\<exists>s'. dropOwnedWithDtor (\<lambda>f r. Lend ti h) h s =
      (Inr (ti, resource_rep (resources s p), \<not> hostDtors (tab s) ti), s') \<and>
    getEntry h s' = None \<and> lendCount (resources s' p) = 1 \<and> Unlend ti h s' = (Inl UnknownHandle, s')"
  using assms
  by (simp add: dropOwnedWithDtor_def dropOwned_begin_def owned_entry_def Let_def sbind_def Lend_def lookup_def
      dropOwned_end_def getEntry_def Unlend_def)

text \<open>Closing a table calls the destructor of every live owned handle of a host resource type, once each and
  whatever the earlier ones returned, and of nothing else; it reports the first error, and a second close does nothing.\<close>

theorem close_runs_host_dtors:
  assumes "\<not> closed (tab s)" "leaves_table call"
  shows "close_table call hs s = run_all call None (close_targets s hs) (close_mark s) \<and>
    close_table call hs' (snd (close_table call hs s)) = (None, snd (close_table call hs s))"
proof -
  have "close_table call hs s = run_all call None (close_targets s hs) (close_mark s)"
    using assms(1) close_entries_run_all [OF assms(2), of "close_mark s" s None hs]
    by (simp add: close_table_def close_mark_def)
  moreover have "closed (tab (snd (run_all call None (close_targets s hs) (close_mark s))))"
    by (simp add: run_all_keeps [OF assms(2)] close_mark_def)
  ultimately show ?thesis by (simp add: close_table_def)
qed

text \<open>Handle numbering wraps: \<open>next\<close> is a \<open>uint32\<close> without an overflow check, so once every index has
  been used the table hands out the reserved handle 0 and then overwrites the entry of the live handle 1.\<close>

theorem addEntry_wraps:
  assumes "\<not> closed (tab s)" "free (tab s) = []" "next_index (tab s) = - 1" "entries (tab s) 1 = Some old"
  shows "\<exists>s1 s2 s3. addEntry e s = (- 1, s1) \<and> addEntry e s1 = (0, s2) \<and> addEntry e s2 = (1, s3) \<and>
    getEntry 1 s2 = Some old \<and> getEntry 1 s3 = Some e"
  using assms by (simp add: addEntry_next getEntry_def)

theorem handle_table_invariant_witness:
  "distinct (free (tab one_own)) \<and> dom (entries (tab one_own)) \<inter> set (free (tab one_own)) = {} \<and>
    dom (entries (tab one_own)) \<union> set (free (tab one_own)) = {1 ..< next_index (tab one_own)} \<and>
    (\<forall>t. numBorrows one_own t = int (card (scoped one_own t)))"
  by (rule handle_table_invariant [OF one_own_reachable]) (simp add: one_own_entries newHandleTable_def)

theorem NewOwn_fresh_witness: "(1 :: u32) \<noteq> 0 \<and> getEntry 1 empty_table = None \<and> Rep 7 1 one_own = Inr 42"
  using NewOwn_fresh [OF empty_table_reachable empty_table_room(2,1) one_own_entries(3), of 7 1] by simp

theorem TakeOwn_consumes_witness:
  "TakeOwn 7 1 one_own = (Inr 42, retire 1 one_own) \<and> Rep 7 1 (retire 1 one_own) = Inl UnknownHandle \<and>
    fst (addEntry (ErrorContextEntry 5) (retire 1 one_own)) = 1"
proof -
  have take: "TakeOwn 7 1 one_own = (Inr 42, retire 1 one_own)"
    by (simp add: TakeOwn_def lookup_def getEntry_def one_own_entries)
  then show ?thesis using TakeOwn_consumes [OF one_own_reachable take, of 7 "ErrorContextEntry 5"] by simp
qed

theorem lent_handle_stays_witness:
  "getEntry 1 (snd (Drop 7 1 (lend_ref 0 1 one_own))) = Some (ResourceEntry 0)"
proof -
  have "Lend 7 1 one_own = (Inr (), lend_ref 0 1 one_own)"
    by (simp add: Lend_def lookup_def getEntry_def one_own_entries)
  then have "table_reachable (lend_ref 0 1 one_own)"
    using one_own_reachable by (blast intro: reach_step step_lend)
  moreover have "table_step (lend_ref 0 1 one_own) (Consumed 1) (snd (Drop 7 1 (lend_ref 0 1 one_own)))"
    by (rule step_drop [OF prod.collapse [symmetric]])
  ultimately show ?thesis
    by (rule lent_handle_stays) (simp_all add: getEntry_def one_own_entries)
qed

theorem dropOwnedWithDtor_loses_lend_witness:
  "\<exists>s'. dropOwnedWithDtor (\<lambda>f r. Lend 7 1) 1 (registerHostDtor 7 (Some 3) one_own) = (Inr (7, 42, False), s') \<and>
    getEntry 1 s' = None \<and> lendCount (resources s' 0) = 1 \<and> Unlend 7 1 s' = (Inl UnknownHandle, s')"
  using dropOwnedWithDtor_loses_lend [of 1 "registerHostDtor 7 (Some 3) one_own" 0 7 3]
  by (simp add: registerHostDtor_def registerDtor_def Let_def getEntry_def one_own_entries)

theorem close_runs_host_dtors_witness:
  "close_table (\<lambda>f r s. (Inl (DtorError f), s)) [1] (registerHostDtor 7 (Some 3) one_own) =
    (Some (DtorError 3), close_mark (registerHostDtor 7 (Some 3) one_own))"
proof -
  have "leaves_table (\<lambda>f r s. (Inl (DtorError f), s :: table_state))" by (simp add: leaves_table_def)
  then show ?thesis
    using close_runs_host_dtors [of "registerHostDtor 7 (Some 3) one_own" "\<lambda>f r s. (Inl (DtorError f), s)" "[1]"]
    by (simp add: registerHostDtor_def registerDtor_def Let_def one_own_entries close_targets_def newHandleTable_def)
qed

theorem addEntry_wraps_witness:
  "\<exists>s1 s2 s3. addEntry (SubtaskEntry 9) (one_own\<lparr>tab := (tab one_own)\<lparr>next_index := - 1\<rparr>\<rparr>) = (- 1, s1) \<and>
    addEntry (SubtaskEntry 9) s1 = (0, s2) \<and> addEntry (SubtaskEntry 9) s2 = (1, s3) \<and>
    getEntry 1 s2 = Some (ResourceEntry 0) \<and> getEntry 1 s3 = Some (SubtaskEntry 9)"
  by (rule addEntry_wraps) (simp_all add: one_own_entries newHandleTable_def)

end
