(* ===== verification/Waitable.thy ===== *)
theory Waitable
  imports Handle_Table
begin

text \<open>
  Waitables, waitable sets and subtasks of \<open>internal/instance/waitable.go\<close>. A waitable is embedded in
  the entry that carries it (\<open>&s.waitable\<close>), so both have one reference; sets refer to their members and
  members to their set by reference, as in Go. A deferred event is either a closure, named here by a callback
  whose effect is a parameter, or the closure-free event of a subtask.
\<close>

subsection \<open>Events\<close>

type_synonym eventCode = u32

definition eventNone :: eventCode where "eventNone = 0"
definition eventSubtask :: eventCode where "eventSubtask = 1"
definition eventStreamRead :: eventCode where "eventStreamRead = 2"
definition eventStreamWrite :: eventCode where "eventStreamWrite = 3"
definition eventFutureRead :: eventCode where "eventFutureRead = 4"
definition eventFutureWrite :: eventCode where "eventFutureWrite = 5"
definition eventTaskCancelled :: eventCode where "eventTaskCancelled = 6"

record eventTuple =
  event_code :: eventCode
  p1 :: u32
  p2 :: u32

subsection \<open>State\<close>

record waitable =
  pendingEvent :: "callback option"
  pendingSub :: "ref option"
  pendingSubSi :: u32
  wset :: "ref option"
  syncWaiter :: bool

record waitableSet =
  elems :: "ref list"
  numWaiting :: int

datatype subtaskState =
  subtaskStarting | subtaskStarted | subtaskReturned | subtaskCancelledBeforeStarted | subtaskCancelledBeforeReturned

text \<open>The states are compared by the number Go gives them.\<close>

fun subtask_number :: "subtaskState \<Rightarrow> nat" where
  "subtask_number subtaskStarting = 0"
| "subtask_number subtaskStarted = 1"
| "subtask_number subtaskReturned = 2"
| "subtask_number subtaskCancelledBeforeStarted = 3"
| "subtask_number subtaskCancelledBeforeReturned = 4"

instantiation subtaskState :: linorder
begin

definition less_eq_subtaskState :: "subtaskState \<Rightarrow> subtaskState \<Rightarrow> bool" where
  "less_eq_subtaskState a b \<longleftrightarrow> subtask_number a \<le> subtask_number b"

definition less_subtaskState :: "subtaskState \<Rightarrow> subtaskState \<Rightarrow> bool" where
  "less_subtaskState a b \<longleftrightarrow> subtask_number a < subtask_number b"

instance
proof
  fix a b :: subtaskState
  show "a \<le> b \<Longrightarrow> b \<le> a \<Longrightarrow> a = b"
    by (cases a; cases b) (simp_all add: less_eq_subtaskState_def)
qed (auto simp: less_eq_subtaskState_def less_subtaskState_def)

end

text \<open>\<open>lenders\<close> is \<open>None\<close> for the nil slice, which says that the resolution was delivered.\<close>

record subtask =
  sub_state :: subtaskState
  lenders :: "ref list option"
  flatResults :: "u64 list"
  onCancelHook :: "callback option"
  cancelTask :: "ref option"
  cancellationRequested :: bool
  sub_index :: u32

record wait_state = table_state +
  waitables :: "ref \<Rightarrow> waitable"
  sets :: "ref \<Rightarrow> waitableSet"
  subtasks :: "ref \<Rightarrow> subtask"

text \<open>\<open>&waitable{}\<close>, \<open>&waitableSet{}\<close> and \<open>newSubtask()\<close>.\<close>

definition zero_waitable :: waitable where
  "zero_waitable = \<lparr>pendingEvent = None, pendingSub = None, pendingSubSi = 0, wset = None, syncWaiter = False\<rparr>"

definition zero_waitableSet :: waitableSet where
  "zero_waitableSet = \<lparr>elems = [], numWaiting = 0\<rparr>"

definition newSubtask :: subtask where
  "newSubtask = \<lparr>sub_state = subtaskStarting, lenders = Some [], flatResults = [], onCancelHook = None, cancelTask = None,
     cancellationRequested = False, sub_index = 0\<rparr>"

definition upd_waitable :: "ref \<Rightarrow> (waitable \<Rightarrow> waitable) \<Rightarrow> 'a wait_state_scheme \<Rightarrow> 'a wait_state_scheme" where
  "upd_waitable w f s = s\<lparr>waitables := (waitables s)(w := f (waitables s w))\<rparr>"

definition upd_set :: "ref \<Rightarrow> (waitableSet \<Rightarrow> waitableSet) \<Rightarrow> 'a wait_state_scheme \<Rightarrow> 'a wait_state_scheme" where
  "upd_set p f s = s\<lparr>sets := (sets s)(p := f (sets s p))\<rparr>"

definition upd_subtask :: "ref \<Rightarrow> (subtask \<Rightarrow> subtask) \<Rightarrow> 'a wait_state_scheme \<Rightarrow> 'a wait_state_scheme" where
  "upd_subtask p f s = s\<lparr>subtasks := (subtasks s)(p := f (subtasks s p))\<rparr>"

subsection \<open>Subtasks\<close>

definition resolved :: "ref \<Rightarrow> 'a wait_state_scheme \<Rightarrow> bool" where
  "resolved st s \<longleftrightarrow> sub_state (subtasks s st) \<ge> subtaskReturned"

definition resolveDelivered :: "ref \<Rightarrow> 'a wait_state_scheme \<Rightarrow> bool" where
  "resolveDelivered st s \<longleftrightarrow> lenders (subtasks s st) = None"

text \<open>\<open>append\<close> to a nil slice makes a slice, so lending to a delivered subtask undoes the delivery.\<close>

definition addLender :: "ref \<Rightarrow> ref \<Rightarrow> 'a wait_state_scheme \<Rightarrow> 'a wait_state_scheme" where
  "addLender st h s =
     upd_subtask st (\<lambda>t. t\<lparr>lenders := Some ((case lenders t of None \<Rightarrow> [] | Some hs \<Rightarrow> hs) @ [h])\<rparr>) (lend_ref h 1 s)"

definition deliverResolve :: "ref \<Rightarrow> 'a wait_state_scheme \<Rightarrow> 'a wait_state_scheme" where
  "deliverResolve st s =
     upd_subtask st (\<lambda>t. t\<lparr>lenders := None\<rparr>)
       (foldl (\<lambda>s h. lend_ref h (- 1) s) s (case lenders (subtasks s st) of None \<Rightarrow> [] | Some hs \<Rightarrow> hs))"

definition resolve :: "ref \<Rightarrow> subtaskState \<Rightarrow> u64 list \<Rightarrow> ('a wait_state_scheme, runtime_error, unit) op" where
  "resolve st q flat s =
     (if q \<noteq> subtaskReturned \<and> length flat \<noteq> 0
      then (Inl (TablePanic ''BUG: non-RETURNED subtask resolved with flat results''), s)
      else (Inr (), upd_subtask st (\<lambda>t. t\<lparr>sub_state := q, flatResults := flat\<rparr>) s))"

definition subtaski :: "ref \<Rightarrow> 'a wait_state_scheme \<Rightarrow> u32" where
  "subtaski st s = sub_index (subtasks s st)"

definition setSubtaski :: "ref \<Rightarrow> u32 \<Rightarrow> 'a wait_state_scheme \<Rightarrow> 'a wait_state_scheme" where
  "setSubtaski st i = upd_subtask st (\<lambda>t. t\<lparr>sub_index := i\<rparr>)"

definition hasOnCancel :: "ref \<Rightarrow> 'a wait_state_scheme \<Rightarrow> bool" where
  "hasOnCancel st s \<longleftrightarrow> cancelTask (subtasks s st) \<noteq> None \<or> onCancelHook (subtasks s st) \<noteq> None"

text \<open>\<open>requestCancellation\<close> of the callee's task and the hook of the host are parameters. A nil hook panics.\<close>

definition runOnCancel ::
    "(ref \<Rightarrow> ('a wait_state_scheme, runtime_error, unit) op) \<Rightarrow> (callback \<Rightarrow> ('a wait_state_scheme, runtime_error, unit) op) \<Rightarrow>
     ref \<Rightarrow> ('a wait_state_scheme, runtime_error, unit) op" where
  "runOnCancel requestCancellation hook st s =
     (case cancelTask (subtasks s st) of
        Some t \<Rightarrow> requestCancellation t s
      | None \<Rightarrow>
          (case onCancelHook (subtasks s st) of
             Some f \<Rightarrow> hook f s
           | None \<Rightarrow> (Inl (TablePanic ''nil function''), s)))"

subsection \<open>Waitables\<close>

definition setPendingEvent :: "ref \<Rightarrow> callback \<Rightarrow> 'a wait_state_scheme \<Rightarrow> 'a wait_state_scheme" where
  "setPendingEvent w ev = upd_waitable w (\<lambda>x. x\<lparr>pendingEvent := Some ev\<rparr>)"

definition setPendingSubtaskEvent :: "ref \<Rightarrow> ref \<Rightarrow> u32 \<Rightarrow> 'a wait_state_scheme \<Rightarrow> 'a wait_state_scheme" where
  "setPendingSubtaskEvent w st si = upd_waitable w (\<lambda>x. x\<lparr>pendingSub := Some st, pendingSubSi := si\<rparr>)"

definition hasPendingEvent :: "ref \<Rightarrow> 'a wait_state_scheme \<Rightarrow> bool" where
  "hasPendingEvent w s \<longleftrightarrow> pendingEvent (waitables s w) \<noteq> None \<or> pendingSub (waitables s w) \<noteq> None"

text \<open>What a closure does when its event is delivered.\<close>

type_synonym 's event_closure = "callback \<Rightarrow> ('s, runtime_error, eventTuple) op"

definition getPendingEvent ::
    "'a wait_state_scheme event_closure \<Rightarrow> ref \<Rightarrow> ('a wait_state_scheme, runtime_error, eventTuple) op" where
  "getPendingEvent eval w s =
     (case pendingSub (waitables s w) of
        Some st \<Rightarrow>
          (let i = pendingSubSi (waitables s w);
               s1 = upd_waitable w (\<lambda>x. x\<lparr>pendingSub := None, pendingSubSi := 0\<rparr>) s;
               s2 = (if resolved st s1 \<and> \<not> resolveDelivered st s1 then deliverResolve st s1 else s1)
           in (Inr \<lparr>event_code = eventSubtask, p1 = i, p2 = of_nat (subtask_number (sub_state (subtasks s2 st)))\<rparr>, s2))
      | None \<Rightarrow>
          (case pendingEvent (waitables s w) of
             Some f \<Rightarrow> eval f (upd_waitable w (\<lambda>x. x\<lparr>pendingEvent := None\<rparr>) s)
           | None \<Rightarrow> (Inl (TablePanic ''nil function''), upd_waitable w (\<lambda>x. x\<lparr>pendingEvent := None\<rparr>) s)))"

definition inWaitableSet :: "ref \<Rightarrow> 'a wait_state_scheme \<Rightarrow> bool" where
  "inWaitableSet w s \<longleftrightarrow> wset (waitables s w) \<noteq> None"

text \<open>\<open>waitableSet.remove\<close> takes the first occurrence out.\<close>

definition set_remove :: "ref \<Rightarrow> ref \<Rightarrow> 'a wait_state_scheme \<Rightarrow> 'a wait_state_scheme" where
  "set_remove p w = upd_set p (\<lambda>x. x\<lparr>elems := remove1 w (elems x)\<rparr>)"

definition join :: "ref \<Rightarrow> ref option \<Rightarrow> 'a wait_state_scheme \<Rightarrow> 'a wait_state_scheme" where
  "join w ws s =
     (let s1 = (case wset (waitables s w) of None \<Rightarrow> s | Some old \<Rightarrow> set_remove old w s);
          s2 = upd_waitable w (\<lambda>x. x\<lparr>wset := ws\<rparr>) s1
      in case ws of None \<Rightarrow> s2 | Some p \<Rightarrow> upd_set p (\<lambda>x. x\<lparr>elems := elems x @ [w]\<rparr>) s2)"

definition dropWaitable :: "ref \<Rightarrow> ('a wait_state_scheme, runtime_error, unit) op" where
  "dropWaitable w s =
     (if hasPendingEvent w s then (Inl (TablePanic ''BUG: dropping a waitable with a pending event''), s)
      else (Inr (), join w None s))"

definition dropSubtask :: "ref \<Rightarrow> ('a wait_state_scheme, runtime_error, unit) op" where
  "dropSubtask st s =
     (if \<not> resolveDelivered st s then (Inl SubtaskUnresolved, s) else dropWaitable st s)"

subsection \<open>Waitable sets\<close>

definition set_hasPendingEvent :: "ref \<Rightarrow> 'a wait_state_scheme \<Rightarrow> bool" where
  "set_hasPendingEvent p s \<longleftrightarrow> (\<exists>w \<in> set (elems (sets s p)). hasPendingEvent w s)"

definition set_getPendingEvent ::
    "'a wait_state_scheme event_closure \<Rightarrow> ref \<Rightarrow> ('a wait_state_scheme, runtime_error, eventTuple) op" where
  "set_getPendingEvent eval p s =
     (case find (\<lambda>w. hasPendingEvent w s) (elems (sets s p)) of
        Some w \<Rightarrow> getPendingEvent eval w s
      | None \<Rightarrow> (Inl (TablePanic ''BUG: getPendingEvent with no pending event''), s))"

definition poll :: "'a wait_state_scheme event_closure \<Rightarrow> ref \<Rightarrow> ('a wait_state_scheme, runtime_error, eventTuple) op" where
  "poll eval p s =
     (if \<not> set_hasPendingEvent p s then (Inr \<lparr>event_code = eventNone, p1 = 0, p2 = 0\<rparr>, s)
      else set_getPendingEvent eval p s)"

definition dropSet :: "ref \<Rightarrow> 'a wait_state_scheme \<Rightarrow> runtime_error + unit" where
  "dropSet p s =
     (if length (elems (sets s p)) > 0 then Inl (SetStillJoined (length (elems (sets s p))))
      else if numWaiting (sets s p) > 0 then Inl (SetStillWaiting (numWaiting (sets s p)))
      else Inr ())"

subsection \<open>Set membership\<close>

text \<open>A waitable names the set it is in, and the set lists it, once.\<close>

definition membership_ok :: "'a wait_state_scheme \<Rightarrow> bool" where
  "membership_ok s \<longleftrightarrow>
     (\<forall>w p. wset (waitables s w) = Some p \<longleftrightarrow> w \<in> set (elems (sets s p))) \<and> (\<forall>p. distinct (elems (sets s p)))"

lemma upd_simps [simp]:
  "waitables (upd_waitable w f s) = (waitables s)(w := f (waitables s w))" "sets (upd_waitable w f s) = sets s"
  "subtasks (upd_waitable w f s) = subtasks s" "resources (upd_waitable w f s) = resources s" "tab (upd_waitable w f s) = tab s"
  "waitables (upd_set p g s) = waitables s" "sets (upd_set p g s) = (sets s)(p := g (sets s p))"
  "subtasks (upd_set p g s) = subtasks s" "resources (upd_set p g s) = resources s" "tab (upd_set p g s) = tab s"
  "waitables (upd_subtask q k s) = waitables s" "sets (upd_subtask q k s) = sets s"
  "subtasks (upd_subtask q k s) = (subtasks s)(q := k (subtasks s q))" "resources (upd_subtask q k s) = resources s"
  "tab (upd_subtask q k s) = tab s"
  by (simp_all add: upd_waitable_def upd_set_def upd_subtask_def)

lemma lend_ref_wait [simp]:
  "waitables (lend_ref h d s) = waitables s" "sets (lend_ref h d s) = sets s" "subtasks (lend_ref h d s) = subtasks s"
  by (simp_all add: lend_ref_def)

lemma join_wset: "wset (waitables (join w ws s) x) = (if x = w then ws else wset (waitables s x))"
  by (auto simp: join_def set_remove_def Let_def split: option.split)

lemma join_elems:
  "elems (sets (join w ws s) p) =
     (if wset (waitables s w) = Some p then remove1 w (elems (sets s p)) else elems (sets s p)) @ (if ws = Some p then [w] else [])"
  by (auto simp: join_def set_remove_def Let_def split: option.split)

lemma join_membership_ok: "membership_ok s \<Longrightarrow> membership_ok (join w ws s)"
  unfolding membership_ok_def join_wset join_elems
  by (intro conjI allI) (auto simp: distinct_remove1 split: if_splits)

lemma join_pending: "hasPendingEvent x (join w ws s) = hasPendingEvent x s"
  by (auto simp: hasPendingEvent_def join_def set_remove_def Let_def split: option.split)

subsection \<open>Lends of a subtask\<close>

lemma upd_subtask_more [simp]:
  "fresh_ref (upd_subtask q k s) = fresh_ref s" "numBorrows (upd_subtask q k s) = numBorrows s"
  by (simp_all add: upd_subtask_def)

lemma lend_fold_resources:
  "resources (foldl (\<lambda>s h. lend_ref h d s) s hs) p =
     (resources s p)\<lparr>lendCount := lendCount (resources s p) + d * int (count_list hs p)\<rparr>"
  by (induction hs arbitrary: s) (simp_all add: lend_ref_def algebra_simps)

lemma lend_fold_frame [simp]:
  "tab (foldl (\<lambda>s h. lend_ref h d s) s hs) = tab s" "subtasks (foldl (\<lambda>s h. lend_ref h d s) s hs) = subtasks s"
  "waitables (foldl (\<lambda>s h. lend_ref h d s) s hs) = waitables s" "sets (foldl (\<lambda>s h. lend_ref h d s) s hs) = sets s"
  by (induction hs arbitrary: s) simp_all

lemma addLender_fold:
  assumes "lenders (subtasks s st) = Some ls"
  shows "lenders (subtasks (foldl (\<lambda>s h. addLender st h s) s hs) st) = Some (ls @ hs) \<and>
    tab (foldl (\<lambda>s h. addLender st h s) s hs) = tab s \<and>
    resources (foldl (\<lambda>s h. addLender st h s) s hs) p =
      (resources s p)\<lparr>lendCount := lendCount (resources s p) + int (count_list hs p)\<rparr>"
  using assms
proof (induction hs arbitrary: s ls)
  case (Cons h hs)
  have l: "lenders (subtasks (addLender st h s) st) = Some (ls @ [h])" using Cons.prems by (simp add: addLender_def)
  have r: "resources (addLender st h s) p = (resources s p)\<lparr>lendCount := lendCount (resources s p) + (if p = h then 1 else 0)\<rparr>"
    "tab (addLender st h s) = tab s"
    by (simp_all add: addLender_def lend_ref_def)
  show ?case using Cons.IH [OF l] by (simp add: r)
qed simp

lemma deliverResolve_resources:
  "resources (deliverResolve st s) p = (resources s p)\<lparr>lendCount := lendCount (resources s p) -
     int (count_list (case lenders (subtasks s st) of None \<Rightarrow> [] | Some hs \<Rightarrow> hs) p)\<rparr>"
  by (simp add: deliverResolve_def lend_fold_resources)

lemma deliverResolve_frame [simp]:
  "tab (deliverResolve st s) = tab s" "waitables (deliverResolve st s) = waitables s" "sets (deliverResolve st s) = sets s"
  "subtasks (deliverResolve st s) = (subtasks s)(st := (subtasks s st)\<lparr>lenders := None\<rparr>)"
  by (simp_all add: deliverResolve_def)

subsection \<open>Taking events\<close>

lemma getPendingEvent_subtask:
  assumes "pendingSub (waitables s w) = Some st"
  shows "\<exists>s'. getPendingEvent eval w s =
      (Inr \<lparr>event_code = eventSubtask, p1 = pendingSubSi (waitables s w),
            p2 = of_nat (subtask_number (sub_state (subtasks s st)))\<rparr>, s') \<and>
    (resolved st s \<longrightarrow> resolveDelivered st s') \<and> sets s' = sets s \<and>
    (\<forall>x. hasPendingEvent x s' = (hasPendingEvent x s \<and> (x = w \<longrightarrow> pendingEvent (waitables s w) \<noteq> None)))"
  using assms by (auto simp: getPendingEvent_def Let_def resolved_def resolveDelivered_def hasPendingEvent_def)

lemma poll_first:
  assumes "elems (sets s p) = xs @ w # ys" "\<forall>x \<in> set xs. \<not> hasPendingEvent x s" "hasPendingEvent w s"
  shows "poll eval p s = getPendingEvent eval w s"
proof -
  have "find (\<lambda>x. hasPendingEvent x s) (xs @ w # ys) = Some w"
    using assms(2,3) by (induction xs) auto
  then show ?thesis using assms by (simp add: poll_def set_hasPendingEvent_def set_getPendingEvent_def)
qed

subsection \<open>An example\<close>

text \<open>The table with one owned resource, and subtask 5 with its waitable.\<close>

definition wait_example :: wait_state where
  "wait_example = table_state.extend one_own
     (wait_state.fields (\<lambda>_. zero_waitable) (\<lambda>_. zero_waitableSet) (\<lambda>_. newSubtask))"

lemma wait_example_simps [simp]:
  "tab wait_example = tab one_own" "resources wait_example = resources one_own"
  "waitables wait_example = (\<lambda>_. zero_waitable)" "sets wait_example = (\<lambda>_. zero_waitableSet)"
  "subtasks wait_example = (\<lambda>_. newSubtask)"
  by (simp_all add: wait_example_def table_state.defs wait_state.defs)

lemma wait_example_ok: "membership_ok wait_example"
  by (simp add: membership_ok_def zero_waitable_def zero_waitableSet_def)

subsection \<open>Properties\<close>

text \<open>Joining keeps both sides of set membership consistent: whatever set the waitable was in and whatever
  set, or none, it goes to, afterwards each waitable is listed exactly by the set it names, once, the
  waitable stands last in its new set, and no event is lost or made up.\<close>

theorem join_keeps_membership:
  assumes "membership_ok s"
  shows "membership_ok (join w ws s) \<and> wset (waitables (join w ws s) w) = ws \<and>
    (ws = Some p \<longrightarrow> elems (sets (join w ws s) p) = remove1 w (elems (sets s p)) @ [w]) \<and>
    hasPendingEvent x (join w ws s) = hasPendingEvent x s"
  using assms join_membership_ok [OF assms, of w ws]
  by (auto simp: join_wset join_elems join_pending membership_ok_def remove1_idem)

text \<open>Polling a waitable set takes the event of the first member, in the order they joined, that has one. If it is
  a subtask's, the tuple has the subtask's index and state, a resolved subtask has then given back what
  was lent to it, and no other member's event is touched.\<close>

theorem poll_takes_first:
  assumes "elems (sets s p) = xs @ w # ys" "\<forall>x \<in> set xs. \<not> hasPendingEvent x s" "pendingSub (waitables s w) = Some st"
    "pendingEvent (waitables s w) = None"
  shows "\<exists>s'. poll eval p s =
      (Inr \<lparr>event_code = eventSubtask, p1 = pendingSubSi (waitables s w),
            p2 = of_nat (subtask_number (sub_state (subtasks s st)))\<rparr>, s') \<and>
    (resolved st s \<longrightarrow> resolveDelivered st s') \<and> (\<forall>x. hasPendingEvent x s' = (hasPendingEvent x s \<and> x \<noteq> w))"
proof -
  have "hasPendingEvent w s" using assms(3) by (simp add: hasPendingEvent_def)
  from poll_first [OF assms(1,2) this] getPendingEvent_subtask [OF assms(3), of eval] assms(4) show ?thesis by auto
qed

text \<open>A subtask returns exactly what it was lent: resources lent to it, any number of times, cannot be taken or
  dropped until the resolution is delivered, and delivering it puts every lend count back.\<close>

theorem lends_returned:
  assumes "lenders (subtasks s st) = Some []" "s1 = foldl (\<lambda>s h. addLender st h s) s hs"
    "entries (tab s) h = Some (ResourceEntry p)" "p \<in> set hs" "0 \<le> lendCount (resources s p)"
  shows "resources (deliverResolve st s1) = resources s \<and> resolveDelivered st (deliverResolve st s1) \<and>
    \<not> resolveDelivered st s1 \<and> TakeOwn ti h s1 \<noteq> (Inr r, s') \<and> Drop ti h s1 \<noteq> (Inr u, s') \<and> DropOwned h s1 \<noteq> (Inr r, s')"
proof -
  note l = addLender_fold [OF assms(1), of hs, folded assms(2)]
  have "resources (deliverResolve st s1) q = resources s q" for q
    using l [of q] by (simp add: deliverResolve_resources)
  moreover have "lendCount (resources s1 p) \<noteq> 0"
    using l [of p] assms(4,5) count_list_0_iff [of hs p] by (auto simp: assms(4))
  moreover have "entries (tab s1) h = Some (ResourceEntry p)" using l [of p] assms(3) by simp
  ultimately show ?thesis
    using l [of p] by (auto simp: resolveDelivered_def TakeOwn_def Drop_def DropOwned_def Let_def lookup_Inr owned_entry_Inr
        fun_eq_iff split: sum.splits option.splits if_splits)
qed

theorem join_keeps_membership_witness:
  "membership_ok (join 5 (Some 8) wait_example) \<and> elems (sets (join 5 (Some 8) wait_example) 8) = [5]"
  using join_keeps_membership [OF wait_example_ok, of 5 "Some 8" 8] by (simp add: zero_waitableSet_def)

theorem poll_takes_first_witness:
  "\<exists>s'. poll (\<lambda>_. sfail NoLends) 8 (setPendingSubtaskEvent 5 5 2 (join 5 (Some 8) wait_example)) =
      (Inr \<lparr>event_code = eventSubtask, p1 = 2, p2 = 0\<rparr>, s') \<and> hasPendingEvent 5 s' = False"
proof -
  let ?s = "setPendingSubtaskEvent 5 5 2 (join 5 (Some 8) wait_example)"
  have "subtasks (join 5 (Some 8) wait_example) 5 = newSubtask"
    by (simp add: join_def zero_waitable_def)
  moreover have "elems (sets ?s 8) = [] @ 5 # []" "pendingSub (waitables ?s 5) = Some 5"
    "pendingEvent (waitables ?s 5) = None" "pendingSubSi (waitables ?s 5) = 2"
    by (simp_all add: setPendingSubtaskEvent_def join_def zero_waitable_def zero_waitableSet_def)
  ultimately show ?thesis
    using poll_takes_first [of ?s 8 "[]" 5 "[]" 5 "\<lambda>_. sfail NoLends"]
    by (auto simp: setPendingSubtaskEvent_def newSubtask_def)
qed

theorem lends_returned_witness:
  "resources (deliverResolve 5 (addLender 5 0 (addLender 5 0 wait_example))) = resources wait_example \<and>
   Drop 7 1 (addLender 5 0 (addLender 5 0 wait_example)) \<noteq> (Inr (), wait_example)"
  using lends_returned [of wait_example 5 _ "[0, 0]" 1 0, OF _ refl] by (simp add: newSubtask_def one_own_entries)

end
