(* ===== verification/Sched.thy ===== *)
theory Sched
  imports Waitable
begin

text \<open>
  The cooperative scheduler of \<open>internal/instance/sched.go\<close>: a FIFO of completion thunks and the tasks
  parked until their predicate holds. What a thunk does when it runs, when a parked task is ready and what
  resuming it does belong to other components and are parameters, gathered in \<open>sched_env\<close>. A loop that
  pumps until a predicate holds need not end, so \<open>drive\<close>, \<open>driveToQuiescence\<close> and
  \<open>drainReady\<close> are partial functions whose value \<open>None\<close> is a run that never returns.
\<close>

subsection \<open>State\<close>

datatype schedThunk = ThunkFe callback | ThunkFv callback

record sched_state = wait_state +
  runq :: "schedThunk list"
  pumping :: bool
  parked :: "ref list"
  instantiating :: bool

record 's sched_env =
  run_fe :: "callback \<Rightarrow> ('s, runtime_error, unit) op"
  run_fv :: "callback \<Rightarrow> 's \<Rightarrow> 's"
  task_ready :: "ref \<Rightarrow> 's \<Rightarrow> bool"
  task_resume :: "ref \<Rightarrow> ('s, runtime_error, unit) op"

subsection \<open>Operations\<close>

definition run_thunk :: "'s sched_env \<Rightarrow> schedThunk \<Rightarrow> ('s, runtime_error, unit) op" where
  "run_thunk env th s = (case th of ThunkFv f \<Rightarrow> (Inr (), run_fv env f s) | ThunkFe f \<Rightarrow> run_fe env f s)"

definition enqueue :: "callback \<Rightarrow> 'a sched_state_scheme \<Rightarrow> 'a sched_state_scheme" where
  "enqueue f s = s\<lparr>runq := runq s @ [ThunkFe f]\<rparr>"

definition enqueueVoid :: "callback \<Rightarrow> 'a sched_state_scheme \<Rightarrow> 'a sched_state_scheme" where
  "enqueueVoid f s = s\<lparr>runq := runq s @ [ThunkFv f]\<rparr>"

definition park :: "ref \<Rightarrow> 'a sched_state_scheme \<Rightarrow> 'a sched_state_scheme" where
  "park pt s = s\<lparr>parked := parked s @ [pt]\<rparr>"

definition unpark :: "ref \<Rightarrow> 'a sched_state_scheme \<Rightarrow> 'a sched_state_scheme" where
  "unpark pt s = s\<lparr>parked := remove1 pt (parked s)\<rparr>"

definition isParked :: "ref \<Rightarrow> 'a sched_state_scheme \<Rightarrow> bool" where
  "isParked pt s \<longleftrightarrow> pt \<in> set (parked s)"

text \<open>The bracket around everything the scheduler runs.\<close>

definition pumped :: "('a sched_state_scheme, runtime_error, unit) op \<Rightarrow> ('a sched_state_scheme, runtime_error, unit) op" where
  "pumped f s = (let (r, s') = f (s\<lparr>pumping := True\<rparr>) in (r, s'\<lparr>pumping := False\<rparr>))"

text \<open>\<open>step\<close>; the value says whether there was work to do.\<close>

definition sched_step :: "'a sched_state_scheme sched_env \<Rightarrow> ('a sched_state_scheme, runtime_error, bool) op" where
  "sched_step env s =
     (case runq s of
        th # rest \<Rightarrow> sbind (pumped (run_thunk env th)) (\<lambda>_. sret True) (s\<lparr>runq := rest\<rparr>)
      | [] \<Rightarrow>
          (case find (\<lambda>pt. task_ready env pt s) (parked s) of
             Some pt \<Rightarrow> sbind (pumped (task_resume env pt)) (\<lambda>_. sret True) s
           | None \<Rightarrow> (Inr False, s)))"

partial_function (option) drive ::
    "'a sched_state_scheme sched_env \<Rightarrow> ('a sched_state_scheme \<Rightarrow> bool) \<Rightarrow> 'a sched_state_scheme \<Rightarrow>
     ((runtime_error + unit) \<times> 'a sched_state_scheme) option" where
  "drive env pred s =
     (if pred s then Some (Inr (), s)
      else (case sched_step env s of
              (Inl e, s') \<Rightarrow> Some (Inl e, s')
            | (Inr progressed, s') \<Rightarrow> if progressed then drive env pred s' else Some (Inl AsyncDeadlock, s')))"

partial_function (option) driveToQuiescence ::
    "'a sched_state_scheme sched_env \<Rightarrow> ('a sched_state_scheme \<Rightarrow> bool) \<Rightarrow> 'a sched_state_scheme \<Rightarrow>
     ((runtime_error + bool) \<times> 'a sched_state_scheme) option" where
  "driveToQuiescence env pred s =
     (if pred s then Some (Inr True, s)
      else (case sched_step env s of
              (Inl e, s') \<Rightarrow> Some (Inl e, s')
            | (Inr progressed, s') \<Rightarrow> if progressed then driveToQuiescence env pred s' else Some (Inr False, s')))"

partial_function (option) drainReady ::
    "'a sched_state_scheme sched_env \<Rightarrow> 'a sched_state_scheme \<Rightarrow> ((runtime_error + unit) \<times> 'a sched_state_scheme) option" where
  "drainReady env s =
     (case sched_step env s of
        (Inl e, s') \<Rightarrow> Some (Inl e, s')
      | (Inr progressed, s') \<Rightarrow> if progressed then drainReady env s' else Some (Inr (), s'))"

text \<open>The two loops of \<open>pumpSnapshot\<close>: as many steps as there were thunks, then each task that was ready.\<close>

fun pump_thunks :: "'a sched_state_scheme sched_env \<Rightarrow> nat \<Rightarrow> ('a sched_state_scheme, runtime_error, unit) op" where
  "pump_thunks env 0 s = (Inr (), s)"
| "pump_thunks env (Suc n) s = sbind (sched_step env) (\<lambda>_. pump_thunks env n) s"

fun pump_tasks :: "'a sched_state_scheme sched_env \<Rightarrow> ref list \<Rightarrow> ('a sched_state_scheme, runtime_error, unit) op" where
  "pump_tasks env [] s = (Inr (), s)"
| "pump_tasks env (pt # pts) s =
     (if \<not> isParked pt s \<or> \<not> task_ready env pt s then pump_tasks env pts s
      else sbind (pumped (task_resume env pt)) (\<lambda>_. pump_tasks env pts) s)"

definition pumpSnapshot :: "'a sched_state_scheme sched_env \<Rightarrow> ('a sched_state_scheme, runtime_error, unit) op" where
  "pumpSnapshot env s =
     sbind (pump_thunks env (length (runq s)))
       (\<lambda>_ s'. pump_tasks env (filter (\<lambda>pt. task_ready env pt s') (parked s')) s') s"

subsection \<open>One step\<close>

lemma pumped_pumping: "pumped f s = (r, s') \<Longrightarrow> \<not> pumping s'"
  by (auto simp: pumped_def split: prod.splits)

text \<open>A step always ends with \<open>pumping\<close> off. A thunk that pumps the scheduler itself therefore goes on with
  the flag off, although it is still being run by the scheduler.\<close>

lemma nested_step_clears_pumping: "sched_step env s = (Inr True, s') \<Longrightarrow> \<not> pumping s'"
  by (auto simp: sched_step_def state_simps dest: pumped_pumping split: list.splits option.splits)

definition idle :: "'a sched_state_scheme sched_env \<Rightarrow> 'a sched_state_scheme \<Rightarrow> bool" where
  "idle env s \<longleftrightarrow> runq s = [] \<and> (\<forall>pt \<in> set (parked s). \<not> task_ready env pt s)"

lemma sched_step_False: "sched_step env s = (Inr False, s') \<longleftrightarrow> idle env s \<and> s' = s"
  by (auto simp: sched_step_def idle_def state_simps find_None_iff find_Some_iff split: list.splits option.splits)

text \<open>Thunks and tasks that report errors of their own, but not the scheduler's deadlock.\<close>

definition own_errors :: "'a sched_state_scheme sched_env \<Rightarrow> bool" where
  "own_errors env \<longleftrightarrow> (\<forall>f s. fst (run_fe env f s) \<noteq> Inl AsyncDeadlock) \<and> (\<forall>pt s. fst (task_resume env pt s) \<noteq> Inl AsyncDeadlock)"

lemma pumped_fst: "fst (pumped f s) = fst (f (s\<lparr>pumping := True\<rparr>))"
  by (auto simp: pumped_def split: prod.split)

lemma sched_step_own_error:
  assumes "own_errors env"
  shows "fst (sched_step env s) \<noteq> Inl AsyncDeadlock"
proof -
  have "fst (pumped (run_thunk env th) s) \<noteq> Inl AsyncDeadlock" for th s
    using assms by (cases th) (simp_all add: pumped_fst run_thunk_def own_errors_def)
  moreover have "fst (pumped (task_resume env pt) s) \<noteq> Inl AsyncDeadlock" for pt s
    using assms by (simp add: pumped_fst own_errors_def)
  ultimately show ?thesis
    by (auto simp: sched_step_def sbind_def prod.case_eq_if sum.case_eq_if split: list.split option.split)
      (metis sum.collapse(1) sum.disc(1) sum.exhaust_sel)+
qed

subsection \<open>Driving\<close>

lemma drive_partial:
  "drive env pred s = Some y \<Longrightarrow>
    (fst y = Inr () \<longrightarrow> pred (snd y)) \<and> (fst y = Inl AsyncDeadlock \<and> own_errors env \<longrightarrow> \<not> pred (snd y) \<and> idle env (snd y))"
proof (induction rule: drive.raw_induct [rotated, consumes 1, case_names step])
  case (step drv env pred s y)
  show ?case
    using step(2) sched_step_own_error [of env s] step(1) [of env pred _ y]
    by (auto split: if_split_asm prod.split_asm sum.split_asm simp: sched_step_False)
qed

lemma drive_returns:
  assumes "\<And>s s'. sched_step env s = (Inr True, s') \<Longrightarrow> (m s' :: nat) < m s"
  shows "\<exists>r s'. drive env pred s = Some (r, s')"
proof (induction "m s" arbitrary: s rule: less_induct)
  case less
  show ?case
    using less assms [of s] by (subst drive.simps) (auto split: prod.split sum.split)
qed

subsection \<open>One round\<close>

text \<open>The thunks \<open>ths\<close> run from the front of the queue, one after the other.\<close>

primrec runs :: "'a sched_state_scheme sched_env \<Rightarrow> schedThunk list \<Rightarrow> 'a sched_state_scheme \<Rightarrow> 'a sched_state_scheme \<Rightarrow> bool" where
  "runs env [] s s' \<longleftrightarrow> s' = s"
| "runs env (th # ths) s s' \<longleftrightarrow>
     (\<exists>q s1. runq s = th # q \<and> pumped (run_thunk env th) (s\<lparr>runq := q\<rparr>) = (Inr (), s1) \<and> runs env ths s1 s')"

text \<open>Thunks that may enqueue more, but take nothing off the queue.\<close>

definition only_enqueues :: "'a sched_state_scheme sched_env \<Rightarrow> bool" where
  "only_enqueues env \<longleftrightarrow> (\<forall>th s s'. pumped (run_thunk env th) s = (Inr (), s') \<longrightarrow> (\<exists>new. runq s' = runq s @ new))"

lemma pump_thunks_runs:
  assumes "only_enqueues env" "pump_thunks env (length ths) s = (Inr (), s')" "runq s = ths @ q"
  shows "runs env ths s s' \<and> (\<exists>new. runq s' = q @ new)"
  using assms(2,3)
proof (induction ths arbitrary: s q)
  case (Cons th ths)
  then obtain s1 where s1: "pumped (run_thunk env th) (s\<lparr>runq := ths @ q\<rparr>) = (Inr (), s1)"
    "pump_thunks env (length ths) s1 = (Inr (), s')"
    by (auto simp: sched_step_def state_simps)
  from assms(1) s1(1) obtain new where "runq s1 = runq (s\<lparr>runq := ths @ q\<rparr>) @ new" unfolding only_enqueues_def by blast
  then have "runq s1 = ths @ (q @ new)" by simp
  from Cons.IH [OF s1(2) this] Cons.prems(2) s1(1) show ?case by auto
qed simp

subsection \<open>An example\<close>

text \<open>Two thunks that count, and a task that is never ready.\<close>

definition sched_example :: sched_state where
  "sched_example = wait_state.extend wait_example (sched_state.fields [ThunkFv 1, ThunkFv 2] False [7] False)"

definition counting_env :: "sched_state sched_env" where
  "counting_env = \<lparr>run_fe = \<lambda>_. sfail NoLends, run_fv = \<lambda>f s. s\<lparr>fresh_ref := fresh_ref s + f\<rparr>,
     task_ready = \<lambda>_ _. False, task_resume = \<lambda>_. sret ()\<rparr>"

lemma sched_example_simps [simp]:
  "runq sched_example = [ThunkFv 1, ThunkFv 2]" "parked sched_example = [7]" "pumping sched_example = False"
  by (simp_all add: sched_example_def wait_state.defs sched_state.defs)

lemma find_False [simp]: "find (\<lambda>_. False) xs = None"
  by (simp add: find_None_iff)

lemma counting_step: "sched_step counting_env s = (Inr True, s') \<Longrightarrow> length (runq s') < length (runq s)"
  by (auto simp: sched_step_def counting_env_def pumped_def run_thunk_def state_simps
      split: list.splits schedThunk.splits option.splits)

lemma counting_enqueues: "only_enqueues counting_env"
  by (auto simp: only_enqueues_def counting_env_def pumped_def run_thunk_def split: schedThunk.splits)

lemma counting_errors: "own_errors counting_env"
  by (simp add: own_errors_def counting_env_def)

subsection \<open>Properties\<close>

text \<open>C13. Driving the scheduler until a predicate holds returns whenever each step brings some measure down;
  returning without an error means that the predicate holds, and the deadlock error is reported only
  in a state in which the predicate is false, the queue is empty and no parked task is ready.\<close>

theorem drive_correct:
  assumes "\<And>s s'. sched_step env s = (Inr True, s') \<Longrightarrow> (m s' :: nat) < m s" "own_errors env"
  shows "\<exists>r s'. drive env pred s = Some (r, s') \<and> (r = Inr () \<longrightarrow> pred s') \<and>
    (r = Inl AsyncDeadlock \<longrightarrow> \<not> pred s' \<and> idle env s')"
  using drive_returns [of env m pred s, OF assms(1)] drive_partial [of env pred s] assms(2) by fastforce

text \<open>One scheduler round runs exactly the thunks that were queued when it began, in FIFO order, and leaves what
  they enqueued for the next round; then it resumes the tasks that were ready at that point.\<close>

theorem pumpSnapshot_round:
  assumes "only_enqueues env" "pumpSnapshot env s = (Inr (), s'')"
  shows "\<exists>s'. runs env (runq s) s s' \<and>
    pump_tasks env (filter (\<lambda>pt. task_ready env pt s') (parked s')) s' = (Inr (), s'')"
  using assms(2) pump_thunks_runs [OF assms(1), of "runq s" s _ "[]"] by (auto simp: pumpSnapshot_def state_simps)

theorem drive_correct_witness:
  "\<exists>r s'. drive counting_env (\<lambda>s. fresh_ref s \<ge> 4) sched_example = Some (r, s') \<and>
    (r = Inr () \<longrightarrow> fresh_ref s' \<ge> 4) \<and> (r = Inl AsyncDeadlock \<longrightarrow> \<not> fresh_ref s' \<ge> 4 \<and> idle counting_env s')"
  by (rule drive_correct [where m = "\<lambda>s. length (runq s)", OF counting_step counting_errors])

theorem pumpSnapshot_round_witness:
  "\<exists>s'. runs counting_env [ThunkFv 1, ThunkFv 2] sched_example s' \<and> pump_tasks counting_env [] s' =
     (Inr (), snd (pumpSnapshot counting_env sched_example))"
proof -
  have "pumpSnapshot counting_env sched_example = (Inr (), snd (pumpSnapshot counting_env sched_example))"
    by (simp add: pumpSnapshot_def sched_step_def pumped_def run_thunk_def counting_env_def sbind_def numeral_2_eq_2)
  from pumpSnapshot_round [OF counting_enqueues this] show ?thesis by (simp add: counting_env_def)
qed

end
