(* ===== verification/Task.thy ===== *)
theory Task
  imports Flat Sched
begin

text \<open>
  Tasks: \<open>internal/instance/task.go\<close>, the callback-driven task of \<open>guest_task.go\<close>, the parking of
  \<open>stackful_task.go\<close> and \<open>unpackCallbackResult\<close> of \<open>async_lift.go\<close>.
  A task and its body (a \<open>guestTask\<close> or a \<open>stackfulTask\<close>) are created in pairs and have one
  reference here. Running guest code, lowering its parameters, handing the baton to a goroutine, and the
  closures that observe a task are parameters, gathered in \<open>task_env\<close>; all of them may change the state.
\<close>

subsection \<open>State\<close>

datatype taskState = taskInitial | taskStarted | taskPendingCancel | taskCancelDelivered | taskResolved

datatype task_body = NoBody | CallbackBody | StackfulBody

record task =
  task_state :: taskState
  body :: task_body
  cancelled :: bool
  ctxStorage :: "u64 list"
  onResolve :: "callback option"
  result :: "val list"
  syncImplicit :: bool
  async_export :: bool
  export_result :: "type_desc option"
  has_export :: bool

datatype guestParkKind = parkNone | parkEntry | parkWait | parkYield | parkBlocked

record guestTask =
  gt_park :: guestParkKind
  gt_wset :: "ref option"
  gt_cancellable :: bool
  gt_cancelWake :: bool
  gt_done :: bool
  gt_err :: "runtime_error option"
  gt_finish :: "callback option"
  promoted :: bool

datatype stackfulParkKind = sparkNone | sparkEntry | sparkBlock

record stackfulTask =
  st_park :: stackfulParkKind
  st_cancellable :: bool
  st_cancelWake :: bool
  st_done :: bool
  st_err :: "runtime_error option"
  st_finish :: "callback option"

text \<open>The fields of \<open>Instance\<close> that tasks use, with the tasks.\<close>

record inst_state = sched_state +
  tasks :: "ref \<Rightarrow> task"
  gtasks :: "ref \<Rightarrow> guestTask"
  stasks :: "ref \<Rightarrow> stackfulTask"
  mayEnter :: bool
  mayLeave :: bool
  activeTask :: "ref option"
  syncBase :: "ref option"
  exclusiveHeld :: bool
  exclusiveOwner :: "ref option"
  backpressure :: int
  numWaitingToEnter :: int
  poisoned :: bool

record 's task_env =
  on_resolve :: "callback \<Rightarrow> val list \<Rightarrow> bool \<Rightarrow> 's \<Rightarrow> 's"
  on_finish :: "callback \<Rightarrow> runtime_error option \<Rightarrow> 's \<Rightarrow> 's"
  on_start :: "ref \<Rightarrow> ('s, runtime_error, val list) op"
  lower_params :: "ref \<Rightarrow> val list \<Rightarrow> ('s, runtime_error, core_value list) op"
  params_want :: "ref \<Rightarrow> nat"
  call_core :: "ref \<Rightarrow> core_value list \<Rightarrow> ('s, runtime_error, u32) op"
  call_callback :: "ref \<Rightarrow> eventTuple \<Rightarrow> ('s, runtime_error, u32) op"
  event_eval :: "'s event_closure"
  run_segment :: "ref \<Rightarrow> eventTuple option \<Rightarrow> ('s, runtime_error, unit) op"
  spawn :: "ref \<Rightarrow> ('s, runtime_error, unit) op"
  handoff :: "ref \<Rightarrow> bool \<Rightarrow> ('s, runtime_error, unit) op"
  block_ready :: "ref \<Rightarrow> 's \<Rightarrow> bool"

definition upd_task :: "ref \<Rightarrow> (task \<Rightarrow> task) \<Rightarrow> 'a inst_state_scheme \<Rightarrow> 'a inst_state_scheme" where
  "upd_task t f s = s\<lparr>tasks := (tasks s)(t := f (tasks s t))\<rparr>"

definition upd_gt :: "ref \<Rightarrow> (guestTask \<Rightarrow> guestTask) \<Rightarrow> 'a inst_state_scheme \<Rightarrow> 'a inst_state_scheme" where
  "upd_gt t f s = s\<lparr>gtasks := (gtasks s)(t := f (gtasks s t))\<rparr>"

definition upd_st :: "ref \<Rightarrow> (stackfulTask \<Rightarrow> stackfulTask) \<Rightarrow> 'a inst_state_scheme \<Rightarrow> 'a inst_state_scheme" where
  "upd_st t f s = s\<lparr>stasks := (stasks s)(t := f (stasks s t))\<rparr>"

subsection \<open>Entering and leaving the instance\<close>

definition hasBackpressure :: "'a inst_state_scheme \<Rightarrow> bool" where
  "hasBackpressure s \<longleftrightarrow> backpressure s > 0 \<or> exclusiveHeld s"

definition tryEnter :: "ref \<Rightarrow> 'a inst_state_scheme \<Rightarrow> bool \<times> 'a inst_state_scheme" where
  "tryEnter t s =
     (if hasBackpressure s \<or> numWaitingToEnter s > 0 then (False, s)
      else (True, s\<lparr>activeTask := Some t, exclusiveHeld := True, exclusiveOwner := Some t\<rparr>))"

definition enterRun :: "ref \<Rightarrow> 'a inst_state_scheme \<Rightarrow> 'a inst_state_scheme" where
  "enterRun t s = s\<lparr>mayEnter := False, activeTask := Some t, exclusiveHeld := True, exclusiveOwner := Some t\<rparr>"

definition leaveRun :: "'a inst_state_scheme \<Rightarrow> 'a inst_state_scheme" where
  "leaveRun s = s\<lparr>exclusiveHeld := False, exclusiveOwner := None, activeTask := syncBase s, mayEnter := True\<rparr>"

definition suspendRun :: "'a inst_state_scheme \<Rightarrow> 'a inst_state_scheme" where
  "suspendRun s = s\<lparr>activeTask := syncBase s, mayEnter := True\<rparr>"

definition heldByOther :: "ref \<Rightarrow> 'a inst_state_scheme \<Rightarrow> bool" where
  "heldByOther t s \<longleftrightarrow> exclusiveHeld s \<and> exclusiveOwner s \<noteq> Some t"

subsection \<open>Resolution and cancellation\<close>

definition returnValues :: "'a inst_state_scheme task_env \<Rightarrow> ref \<Rightarrow> val list \<Rightarrow> ('a inst_state_scheme, runtime_error, unit) op" where
  "returnValues env t vals s =
     (if task_state (tasks s t) = taskResolved then (Inl TaskResolved, s)
      else if numBorrows s t > 0 then (Inl (BorrowsRemain (numBorrows s t)), s)
      else
        (let s1 = (case onResolve (tasks s t) of
                     Some f \<Rightarrow> on_resolve env f vals False s
                   | None \<Rightarrow> upd_task t (\<lambda>x. x\<lparr>result := vals, cancelled := False\<rparr>) s)
         in (Inr (), upd_task t (\<lambda>x. x\<lparr>task_state := taskResolved\<rparr>) s1)))"

definition cancelDeliverable :: "ref \<Rightarrow> 'a inst_state_scheme \<Rightarrow> bool" where
  "cancelDeliverable t s \<longleftrightarrow> task_state (tasks s t) = taskPendingCancel"

definition deliverPendingCancel :: "ref \<Rightarrow> bool \<Rightarrow> 'a inst_state_scheme \<Rightarrow> bool \<times> 'a inst_state_scheme" where
  "deliverPendingCancel t cancellable s =
     (if cancellable \<and> task_state (tasks s t) = taskPendingCancel
      then (True, upd_task t (\<lambda>x. x\<lparr>task_state := taskCancelDelivered\<rparr>) s)
      else (False, s))"

definition cancelResolve :: "'a inst_state_scheme task_env \<Rightarrow> ref \<Rightarrow> ('a inst_state_scheme, runtime_error, unit) op" where
  "cancelResolve env t s =
     (if task_state (tasks s t) \<noteq> taskCancelDelivered then (Inl CancelNotDelivered, s)
      else if numBorrows s t > 0 then (Inl (BorrowsRemain (numBorrows s t)), s)
      else
        (let s1 = (case onResolve (tasks s t) of
                     Some f \<Rightarrow> on_resolve env f [] True s
                   | None \<Rightarrow> upd_task t (\<lambda>x. x\<lparr>result := []\<rparr>) s)
         in (Inr (), upd_task t (\<lambda>x. x\<lparr>cancelled := True, task_state := taskResolved\<rparr>) s1)))"

definition cancelUnentered :: "'a inst_state_scheme task_env \<Rightarrow> ref \<Rightarrow> ('a inst_state_scheme, runtime_error, unit) op" where
  "cancelUnentered env t = cancelResolve env t"

subsection \<open>The callback loop\<close>

definition callbackExit :: u32 where "callbackExit = 0"
definition callbackYield :: u32 where "callbackYield = 1"
definition callbackWait :: u32 where "callbackWait = 2"
definition callbackMax :: u32 where "callbackMax = 2"

definition unpackCallbackResult :: "u32 \<Rightarrow> runtime_error + u32 \<times> u32" where
  "unpackCallbackResult packed =
     (let code = packed AND 0xf in
      if code > callbackMax then Inl UnsupportedCallback else Inr (code, drop_bit 4 packed))"

definition finish_call :: "'a inst_state_scheme task_env \<Rightarrow> callback option \<Rightarrow> runtime_error option \<Rightarrow> 'a inst_state_scheme \<Rightarrow> 'a inst_state_scheme" where
  "finish_call env f e s = (case f of None \<Rightarrow> s | Some g \<Rightarrow> on_finish env g e s)"

definition gt_fail :: "'a inst_state_scheme task_env \<Rightarrow> ref \<Rightarrow> runtime_error \<Rightarrow> ('a inst_state_scheme, runtime_error, unit) op" where
  "gt_fail env g e s =
     (Inl e, finish_call env (gt_finish (gtasks s g)) (Some e) (upd_gt g (\<lambda>x. x\<lparr>gt_done := True, gt_err := Some e\<rparr>) s))"

definition finishExit :: "'a inst_state_scheme task_env \<Rightarrow> ref \<Rightarrow> ('a inst_state_scheme, runtime_error, unit) op" where
  "finishExit env g s =
     (let s1 = leaveRun s in
      if task_state (tasks s1 g) \<noteq> taskResolved then gt_fail env g ExitUnresolved s1
      else (Inr (), finish_call env (gt_finish (gtasks s1 g)) None (upd_gt g (\<lambda>x. x\<lparr>gt_done := True\<rparr>) s1)))"

definition advance :: "'a inst_state_scheme task_env \<Rightarrow> ref \<Rightarrow> u32 \<Rightarrow> ('a inst_state_scheme, runtime_error, unit) op" where
  "advance env g packed s =
     (case unpackCallbackResult packed of
        Inl e \<Rightarrow> gt_fail env g e (leaveRun s)
      | Inr (code, si) \<Rightarrow>
          if code = callbackExit then finishExit env g s
          else if code = callbackYield then
            (Inr (), park g (leaveRun (upd_gt g (\<lambda>x. x\<lparr>gt_park := parkYield, gt_cancellable := True\<rparr>) s)))
          else if code = callbackWait then
            (case getEntry si s of
               Some (WaitableSetEntry ws) \<Rightarrow>
                 (Inr (), park g (leaveRun (upd_set ws (\<lambda>x. x\<lparr>numWaiting := numWaiting x + 1\<rparr>)
                    (upd_gt g (\<lambda>x. x\<lparr>gt_park := parkWait, gt_wset := Some ws, gt_cancellable := True\<rparr>) s))))
             | _ \<Rightarrow> gt_fail env g NotWaitableSet (leaveRun s))
          else gt_fail env g UnsupportedCallback (leaveRun s))"

text \<open>Calling into the guest: a trap poisons the instance.\<close>

definition guest_call :: "'a inst_state_scheme task_env \<Rightarrow> ref \<Rightarrow> ('a inst_state_scheme, runtime_error, u32) op \<Rightarrow>
    ('a inst_state_scheme, runtime_error, unit) op" where
  "guest_call env g call s =
     (case call s of
        (Inl e, s') \<Rightarrow> gt_fail env g e ((leaveRun s')\<lparr>poisoned := True\<rparr>)
      | (Inr packed, s') \<Rightarrow> advance env g packed s')"

definition firstRunBody :: "'a inst_state_scheme task_env \<Rightarrow> ref \<Rightarrow> ('a inst_state_scheme, runtime_error, unit) op" where
  "firstRunBody env g s =
     (case on_start env g (enterRun g s) of
        (Inl e, s1) \<Rightarrow> gt_fail env g e (leaveRun s1)
      | (Inr args, s1) \<Rightarrow>
          (case lower_params env g args (upd_task g (\<lambda>x. x\<lparr>task_state := taskStarted\<rparr>) s1) of
             (Inl e, s2) \<Rightarrow> gt_fail env g e (leaveRun s2)
           | (Inr coreArgs, s2) \<Rightarrow>
               if length coreArgs \<noteq> params_want env g then gt_fail env g BadCoreArity (leaveRun s2)
               else guest_call env g (call_core env g coreArgs) s2))"

definition firstRun :: "'a inst_state_scheme task_env \<Rightarrow> ref \<Rightarrow> ('a inst_state_scheme, runtime_error, unit) op" where
  "firstRun env g s = (if \<not> promoted (gtasks s g) then firstRunBody env g s else run_segment env g None s)"

definition runLoopBody :: "'a inst_state_scheme task_env \<Rightarrow> ref \<Rightarrow> eventTuple \<Rightarrow> ('a inst_state_scheme, runtime_error, unit) op" where
  "runLoopBody env g ev s = guest_call env g (call_callback env g ev) (enterRun g s)"

definition runLoop :: "'a inst_state_scheme task_env \<Rightarrow> ref \<Rightarrow> eventTuple \<Rightarrow> ('a inst_state_scheme, runtime_error, unit) op" where
  "runLoop env g ev s = (if \<not> promoted (gtasks s g) then runLoopBody env g ev s else run_segment env g (Some ev) s)"

definition gt_start :: "'a inst_state_scheme task_env \<Rightarrow> ref \<Rightarrow> ('a inst_state_scheme, runtime_error, unit) op" where
  "gt_start env g s =
     (let (entered, s1) = tryEnter g s in
      if \<not> entered then
        (Inr (), park g ((upd_gt g (\<lambda>x. x\<lparr>gt_park := parkEntry, gt_cancellable := True\<rparr>) s1)
                   \<lparr>numWaitingToEnter := numWaitingToEnter s1 + 1\<rparr>))
      else firstRun env g s1)"

definition gt_ready :: "'a inst_state_scheme task_env \<Rightarrow> ref \<Rightarrow> 'a inst_state_scheme \<Rightarrow> bool" where
  "gt_ready env g s =
     (case gt_park (gtasks s g) of
        parkEntry \<Rightarrow> \<not> hasBackpressure s
      | parkWait \<Rightarrow>
          \<not> heldByOther g s \<and>
          (gt_cancelWake (gtasks s g) \<or> cancelDeliverable g s \<or>
           (case gt_wset (gtasks s g) of None \<Rightarrow> False | Some ws \<Rightarrow> set_hasPendingEvent ws s))
      | parkYield \<Rightarrow> \<not> heldByOther g s
      | parkBlocked \<Rightarrow> gt_cancelWake (gtasks s g) \<or> cancelDeliverable g s \<or> block_ready env g s
      | parkNone \<Rightarrow> False)"

definition cancelled_event :: eventTuple where
  "cancelled_event = \<lparr>event_code = eventTaskCancelled, p1 = 0, p2 = 0\<rparr>"

text \<open>\<open>!gt.cancelWake && !gt.t.deliverPendingCancel(true)\<close>: the pending cancellation is only delivered when
  the wake-up was not itself one.\<close>

definition wake_cancelled :: "ref \<Rightarrow> 'a inst_state_scheme \<Rightarrow> bool \<times> 'a inst_state_scheme" where
  "wake_cancelled g s = (if gt_cancelWake (gtasks s g) then (True, s) else deliverPendingCancel g True s)"

definition gt_resumeReady :: "'a inst_state_scheme task_env \<Rightarrow> ref \<Rightarrow> ('a inst_state_scheme, runtime_error, unit) op" where
  "gt_resumeReady env g s =
     (case gt_park (gtasks s g) of
        parkEntry \<Rightarrow>
          (let s1 = unpark g (s\<lparr>numWaitingToEnter := numWaitingToEnter s - 1\<rparr>) in
           if gt_cancelWake (gtasks s1 g) then
             (case cancelUnentered env g (upd_gt g (\<lambda>x. x\<lparr>gt_cancelWake := False\<rparr>) s1) of
                (Inl e, s2) \<Rightarrow> gt_fail env g e s2
              | (Inr _, s2) \<Rightarrow>
                  (Inr (), finish_call env (gt_finish (gtasks s2 g)) None (upd_gt g (\<lambda>x. x\<lparr>gt_done := True\<rparr>) s2)))
           else firstRun env g s1)
      | parkWait \<Rightarrow>
          (case gt_wset (gtasks s g) of
             None \<Rightarrow> (Inl (TablePanic ''nil pointer''), s)
           | Some ws \<Rightarrow>
               (let (cancel, s1) = wake_cancelled g (upd_set ws (\<lambda>x. x\<lparr>numWaiting := numWaiting x - 1\<rparr>) s)
                in sbind (if cancel then sret cancelled_event else set_getPendingEvent (event_eval env) ws)
                     (\<lambda>ev s2. runLoop env g ev (unpark g (upd_gt g (\<lambda>x. x\<lparr>gt_cancelWake := False, gt_wset := None\<rparr>) s2))) s1))
      | parkYield \<Rightarrow>
          (let (cancel, s1) = wake_cancelled g s
           in runLoop env g (if cancel then cancelled_event else \<lparr>event_code = eventNone, p1 = 0, p2 = 0\<rparr>)
                (unpark g (upd_gt g (\<lambda>x. x\<lparr>gt_cancelWake := False\<rparr>) s1)))
      | parkBlocked \<Rightarrow>
          (let mode = gt_cancelWake (gtasks s g)
           in handoff env g mode (upd_gt g (\<lambda>x. x\<lparr>gt_cancelWake := False\<rparr>) (unpark g s)))
      | parkNone \<Rightarrow> (Inl BadParkState, s))"

subsection \<open>Stackful tasks\<close>

definition st_fail :: "'a inst_state_scheme task_env \<Rightarrow> ref \<Rightarrow> runtime_error \<Rightarrow> ('a inst_state_scheme, runtime_error, unit) op" where
  "st_fail env g e s =
     (Inl e, finish_call env (st_finish (stasks s g)) (Some e) (upd_st g (\<lambda>x. x\<lparr>st_err := Some e\<rparr>) s))"

definition startTask :: "'a inst_state_scheme task_env \<Rightarrow> ref \<Rightarrow> ('a inst_state_scheme, runtime_error, unit) op" where
  "startTask env g s =
     (let (entered, s1) = tryEnter g s in
      if \<not> entered then
        (Inr (), park g ((upd_st g (\<lambda>x. x\<lparr>st_park := sparkEntry, st_cancellable := True\<rparr>) s1)
                   \<lparr>numWaitingToEnter := numWaitingToEnter s1 + 1\<rparr>))
      else spawn env g s1)"

definition st_ready :: "'a inst_state_scheme task_env \<Rightarrow> ref \<Rightarrow> 'a inst_state_scheme \<Rightarrow> bool" where
  "st_ready env g s =
     (case st_park (stasks s g) of
        sparkEntry \<Rightarrow> \<not> hasBackpressure s
      | sparkBlock \<Rightarrow> st_cancelWake (stasks s g) \<or> cancelDeliverable g s \<or> block_ready env g s
      | sparkNone \<Rightarrow> False)"

definition st_resumeReady :: "'a inst_state_scheme task_env \<Rightarrow> ref \<Rightarrow> ('a inst_state_scheme, runtime_error, unit) op" where
  "st_resumeReady env g s =
     (case st_park (stasks s g) of
        sparkEntry \<Rightarrow>
          (let s1 = upd_st g (\<lambda>x. x\<lparr>st_park := sparkNone\<rparr>) (unpark g (s\<lparr>numWaitingToEnter := numWaitingToEnter s - 1\<rparr>)) in
           if st_cancelWake (stasks s1 g) then
             (case cancelUnentered env g (upd_st g (\<lambda>x. x\<lparr>st_cancelWake := False\<rparr>) s1) of
                (Inl e, s2) \<Rightarrow> st_fail env g e (upd_st g (\<lambda>x. x\<lparr>st_done := True\<rparr>) s2)
              | (Inr _, s2) \<Rightarrow>
                  (Inr (), finish_call env (st_finish (stasks s2 g)) None (upd_st g (\<lambda>x. x\<lparr>st_done := True\<rparr>) s2)))
           else spawn env g s1)
      | sparkBlock \<Rightarrow>
          (let mode = st_cancelWake (stasks s g)
           in handoff env g mode (upd_st g (\<lambda>x. x\<lparr>st_cancelWake := False\<rparr>) (unpark g s)))
      | sparkNone \<Rightarrow> (Inl BadParkState, s))"

subsection \<open>Requesting cancellation\<close>

definition requestCancellation :: "'a inst_state_scheme task_env \<Rightarrow> ref \<Rightarrow> ('a inst_state_scheme, runtime_error, unit) op" where
  "requestCancellation env t s =
     (let deliver = upd_task t (\<lambda>x. x\<lparr>task_state := taskCancelDelivered\<rparr>);
          pend = upd_task t (\<lambda>x. x\<lparr>task_state := taskPendingCancel\<rparr>) s;
          wake_st = upd_st t (\<lambda>x. x\<lparr>st_cancelWake := True\<rparr>);
          wake_gt = upd_gt t (\<lambda>x. x\<lparr>gt_cancelWake := True\<rparr>);
          g = gtasks s t; st = stasks s t
      in case task_state (tasks s t) of
           taskInitial \<Rightarrow>
             if body (tasks s t) = StackfulBody then st_resumeReady env t (wake_st (deliver s))
             else if body (tasks s t) = NoBody then (Inl (TablePanic ''nil pointer''), deliver s)
             else gt_resumeReady env t (wake_gt (deliver s))
         | taskStarted \<Rightarrow>
             if body (tasks s t) = StackfulBody then
               (if st_park st = sparkBlock \<and> st_cancellable st \<and> \<not> heldByOther t s \<and> mayEnter s
                then st_resumeReady env t (wake_st (deliver s)) else (Inr (), pend))
             else if body (tasks s t) = NoBody then (Inl (TablePanic ''nil pointer''), s)
             else if gt_park g = parkBlocked then
               (if gt_cancellable g \<and> \<not> heldByOther t s \<and> mayEnter s
                then gt_resumeReady env t (wake_gt (deliver s)) else (Inr (), pend))
             else if gt_park g \<noteq> parkNone \<and> gt_cancellable g \<and> \<not> exclusiveHeld s \<and> mayEnter s
             then gt_resumeReady env t (wake_gt (deliver s))
             else (Inr (), pend)
         | _ \<Rightarrow> (Inl (TablePanic ''BUG: request_cancellation on a resolved task''), s))"

subsection \<open>Tasks in the scheduler\<close>

text \<open>The scheduler calls a parked task's methods through the \<open>parkedTask\<close> interface.\<close>

definition parked_ready :: "'a inst_state_scheme task_env \<Rightarrow> ref \<Rightarrow> 'a inst_state_scheme \<Rightarrow> bool" where
  "parked_ready env t s = (if body (tasks s t) = StackfulBody then st_ready env t s else gt_ready env t s)"

definition parked_resume :: "'a inst_state_scheme task_env \<Rightarrow> ref \<Rightarrow> ('a inst_state_scheme, runtime_error, unit) op" where
  "parked_resume env t s = (if body (tasks s t) = StackfulBody then st_resumeReady env t s else gt_resumeReady env t s)"

subsection \<open>Frames of the small updates\<close>

lemma upd_task_simps [simp]:
  "tasks (upd_task t f s) = (tasks s)(t := f (tasks s t))" "gtasks (upd_task t f s) = gtasks s" "stasks (upd_task t f s) = stasks s"
  "exclusiveHeld (upd_task t f s) = exclusiveHeld s" "exclusiveOwner (upd_task t f s) = exclusiveOwner s"
  "mayEnter (upd_task t f s) = mayEnter s" "sets (upd_task t f s) = sets s" "waitables (upd_task t f s) = waitables s"
  "numBorrows (upd_task t f s) = numBorrows s"
  by (simp_all add: upd_task_def)

lemma upd_gt_simps [simp]:
  "gtasks (upd_gt t f s) = (gtasks s)(t := f (gtasks s t))" "tasks (upd_gt t f s) = tasks s" "stasks (upd_gt t f s) = stasks s"
  "sets (upd_gt t f s) = sets s" "waitables (upd_gt t f s) = waitables s"
  by (simp_all add: upd_gt_def)

lemma upd_set_task [simp]:
  "tasks (upd_set p f s) = tasks s" "gtasks (upd_set p f s) = gtasks s" "exclusiveHeld (upd_set p f s) = exclusiveHeld s"
  "exclusiveOwner (upd_set p f s) = exclusiveOwner s"
  by (simp_all add: upd_set_def)

lemma unpark_simps [simp]:
  "tasks (unpark t s) = tasks s" "gtasks (unpark t s) = gtasks s" "waitables (unpark t s) = waitables s" "sets (unpark t s) = sets s"
  by (simp_all add: unpark_def)

text \<open>Bringing the state a callback is resumed in to the surface.\<close>

lemma deliverPendingCancel_pending:
  "task_state (tasks s t) = taskPendingCancel \<Longrightarrow>
   deliverPendingCancel t True s = (True, upd_task t (\<lambda>x. x\<lparr>task_state := taskCancelDelivered\<rparr>) s)"
  by (simp add: deliverPendingCancel_def)

lemma resume_wait_cancelled:
  assumes "gt_park (gtasks s g) = parkWait" "gt_wset (gtasks s g) = Some ws"
    "wake_cancelled g (upd_set ws (\<lambda>x. x\<lparr>numWaiting := numWaiting x - 1\<rparr>) s) = (True, s1)"
  shows "gt_resumeReady env g s =
    runLoop env g cancelled_event (unpark g (upd_gt g (\<lambda>x. x\<lparr>gt_cancelWake := False, gt_wset := None\<rparr>) s1))"
  using assms by (simp add: gt_resumeReady_def)

lemma resume_yield_cancelled:
  assumes "gt_park (gtasks s g) = parkYield" "wake_cancelled g s = (True, s1)"
  shows "gt_resumeReady env g s = runLoop env g cancelled_event (unpark g (upd_gt g (\<lambda>x. x\<lparr>gt_cancelWake := False\<rparr>) s1))"
  using assms by (simp add: gt_resumeReady_def)

text \<open>A task parked in its callback loop, on a set or yielding.\<close>

definition parked_in_loop :: "ref \<Rightarrow> 'a inst_state_scheme \<Rightarrow> bool" where
  "parked_in_loop g s \<longleftrightarrow>
     gt_park (gtasks s g) = parkYield \<or> gt_park (gtasks s g) = parkWait \<and> gt_wset (gtasks s g) \<noteq> None"

text \<open>The state in which such a task is resumed to be told of its cancellation: it is off the parked list, waits on no
  set, and the set it waited on has one waiter less; its state is \<open>taskCancelDelivered\<close> and the wake-up mark is
  cleared. Nothing else differs.\<close>

definition resumed_cancelled :: "ref \<Rightarrow> 'a inst_state_scheme \<Rightarrow> 'a inst_state_scheme" where
  "resumed_cancelled g s =
     (let t = gtasks s g; waits = gt_park t = parkWait in s\<lparr>
        sets := (if waits then (sets s)(the (gt_wset t) := sets s (the (gt_wset t))
                   \<lparr>numWaiting := numWaiting (sets s (the (gt_wset t))) - 1\<rparr>) else sets s),
        tasks := (tasks s)(g := (tasks s g)\<lparr>task_state := taskCancelDelivered\<rparr>),
        gtasks := (gtasks s)(g := t\<lparr>gt_cancelWake := False, gt_wset := if waits then None else gt_wset t\<rparr>),
        parked := remove1 g (parked s)\<rparr>)"

lemma resume_pending_cancel:
  assumes "parked_in_loop g s" "\<not> gt_cancelWake (gtasks s g)" "task_state (tasks s g) = taskPendingCancel"
  shows "gt_resumeReady env g s = runLoop env g cancelled_event (resumed_cancelled g s)"
proof (cases "gt_park (gtasks s g) = parkYield")
  case True
  let ?s1 = "upd_task g (\<lambda>x. x\<lparr>task_state := taskCancelDelivered\<rparr>) s"
  have "wake_cancelled g s = (True, ?s1)" using assms by (simp add: wake_cancelled_def deliverPendingCancel_pending)
  from resume_yield_cancelled [OF True this, of env] show ?thesis
    using True by (simp add: resumed_cancelled_def unpark_def upd_gt_def upd_task_def)
next
  case False
  with assms(1) obtain ws where w: "gt_park (gtasks s g) = parkWait" "gt_wset (gtasks s g) = Some ws"
    by (auto simp: parked_in_loop_def)
  let ?s0 = "upd_set ws (\<lambda>x. x\<lparr>numWaiting := numWaiting x - 1\<rparr>) s"
  let ?s1 = "upd_task g (\<lambda>x. x\<lparr>task_state := taskCancelDelivered\<rparr>) ?s0"
  have "wake_cancelled g ?s0 = (True, ?s1)" using assms by (simp add: wake_cancelled_def deliverPendingCancel_pending)
  from resume_wait_cancelled [OF w this, of env] show ?thesis
    using w by (simp add: resumed_cancelled_def unpark_def upd_gt_def upd_task_def upd_set_def)
qed

lemma resume_cancel_wake:
  assumes "parked_in_loop g s" "gt_cancelWake (gtasks s g)" "task_state (tasks s g) = taskCancelDelivered"
  shows "gt_resumeReady env g s = runLoop env g cancelled_event (resumed_cancelled g s)"
proof -
  have t: "(tasks s)(g := (tasks s g)\<lparr>task_state := taskCancelDelivered\<rparr>) = tasks s"
    using assms(3) by auto
  show ?thesis
  proof (cases "gt_park (gtasks s g) = parkYield")
    case True
    have "wake_cancelled g s = (True, s)" using assms by (simp add: wake_cancelled_def)
    from resume_yield_cancelled [OF True this, of env] show ?thesis
      using True t by (simp add: resumed_cancelled_def unpark_def upd_gt_def)
  next
    case False
    with assms(1) obtain ws where w: "gt_park (gtasks s g) = parkWait" "gt_wset (gtasks s g) = Some ws"
      by (auto simp: parked_in_loop_def)
    have "wake_cancelled g (upd_set ws (\<lambda>x. x\<lparr>numWaiting := numWaiting x - 1\<rparr>) s) =
        (True, upd_set ws (\<lambda>x. x\<lparr>numWaiting := numWaiting x - 1\<rparr>) s)"
      using assms by (simp add: wake_cancelled_def)
    from resume_wait_cancelled [OF w this, of env] show ?thesis
      using w t by (simp add: resumed_cancelled_def unpark_def upd_gt_def upd_set_def)
  qed
qed

subsection \<open>An example\<close>

text \<open>A started callback task 3 that yielded, in an idle instance whose guest exits at its next callback.\<close>

definition example_task :: task where
  "example_task = \<lparr>task_state = taskStarted, body = CallbackBody, cancelled = False, ctxStorage = [0, 0], onResolve = None,
     result = [], syncImplicit = False, async_export = True, export_result = None, has_export = True\<rparr>"

definition example_gt :: guestTask where
  "example_gt = \<lparr>gt_park = parkYield, gt_wset = None, gt_cancellable = True, gt_cancelWake = False, gt_done = False,
     gt_err = None, gt_finish = None, promoted = False\<rparr>"

definition inst_example :: inst_state where
  "inst_example = sched_state.extend sched_example (inst_state.fields (\<lambda>_. example_task) (\<lambda>_. example_gt)
     (\<lambda>_. \<lparr>st_park = sparkNone, st_cancellable = False, st_cancelWake = False, st_done = False, st_err = None, st_finish = None\<rparr>)
     True True None None False None 0 0 False)"

definition exiting_env :: "inst_state task_env" where
  "exiting_env = \<lparr>on_resolve = \<lambda>_ _ _ s. s, on_finish = \<lambda>_ _ s. s, on_start = \<lambda>_. sret [], lower_params = \<lambda>_ _. sret [],
     params_want = \<lambda>_. 0, call_core = \<lambda>_ _. sret 0, call_callback = \<lambda>_ _. sret 0, event_eval = \<lambda>_. sfail NoLends,
     run_segment = \<lambda>_ _. sret (), spawn = \<lambda>_. sret (), handoff = \<lambda>_ _. sret (), block_ready = \<lambda>_ _. False\<rparr>"

lemma inst_example_simps [simp]:
  "tasks inst_example = (\<lambda>_. example_task)" "gtasks inst_example = (\<lambda>_. example_gt)" "mayEnter inst_example"
  "\<not> exclusiveHeld inst_example" "waitables inst_example = (\<lambda>_. zero_waitable)" "parked inst_example = [7]"
  by (simp_all add: inst_example_def sched_state.defs inst_state.defs sched_example_def wait_state.defs wait_example_def
      table_state.defs)

text \<open>The same task parked on the set 5, the only waiter of it.\<close>

definition waiting_example :: inst_state where
  "waiting_example = park 3 (upd_set 5 (\<lambda>x. x\<lparr>numWaiting := 1\<rparr>)
     (upd_gt 3 (\<lambda>x. x\<lparr>gt_park := parkWait, gt_wset := Some 5\<rparr>) inst_example))"

subsection \<open>Properties\<close>

text \<open>A cancellation that could not be delivered at once is not lost: once the pending task is parked in its
  callback loop and no other task holds the instance, the scheduler finds it ready, and resuming it calls the
  guest's callback with \<open>TASK_CANCELLED\<close> instead of an event, whose event stays pending.\<close>

theorem pending_cancel_delivered:
  assumes "parked_in_loop g s" "\<not> gt_cancelWake (gtasks s g)" "task_state (tasks s g) = taskPendingCancel" "\<not> heldByOther g s"
  shows "gt_ready env g s \<and> gt_resumeReady env g s = runLoop env g cancelled_event (resumed_cancelled g s)"
  using assms resume_pending_cancel [OF assms(1-3), of env]
  by (auto simp: parked_in_loop_def gt_ready_def cancelDeliverable_def)

text \<open>C14. A cancellation requested of a started task that is parked in its callback loop, in an instance nobody runs
  in, is delivered synchronously: the request is the next segment of the task, resumed with \<open>TASK_CANCELLED\<close> (on
  its goroutine if the task was promoted), in a state that differs from the one of the request only in this: the
  task is off the parked list, it no longer waits on its set, which counts one waiter less, and its state is the one
  in which \<open>task.cancel\<close> may acknowledge the cancellation.\<close>

theorem requestCancellation_delivers:
  assumes "parked_in_loop g s" "task_state (tasks s g) = taskStarted" "body (tasks s g) = CallbackBody"
    "gt_cancellable (gtasks s g)" "\<not> exclusiveHeld s" "mayEnter s"
  shows "requestCancellation env g s = runLoop env g cancelled_event (resumed_cancelled g s)"
proof -
  let ?s1 = "upd_gt g (\<lambda>x. x\<lparr>gt_cancelWake := True\<rparr>) (upd_task g (\<lambda>x. x\<lparr>task_state := taskCancelDelivered\<rparr>) s)"
  have "requestCancellation env g s = gt_resumeReady env g ?s1"
    using assms by (auto simp: requestCancellation_def Let_def parked_in_loop_def)
  moreover have "parked_in_loop g ?s1" "gt_cancelWake (gtasks ?s1 g)" "task_state (tasks ?s1 g) = taskCancelDelivered"
    using assms(1) by (auto simp: parked_in_loop_def)
  moreover have "resumed_cancelled g ?s1 = resumed_cancelled g s"
    by (simp add: resumed_cancelled_def Let_def upd_gt_def upd_task_def)
  ultimately show ?thesis using resume_cancel_wake [of g ?s1 env] by simp
qed

text \<open>The packed result of a callback carries 28 bits of handle: a WAIT on a set whose handle is below
  \<open>2 ^ 28\<close> is decoded as that set, and a larger handle, which the table can hand out, silently as the set at
  the handle modulo \<open>2 ^ 28\<close>.\<close>

theorem callback_handle_bits:
  assumes "code \<le> callbackMax"
  shows "unpackCallbackResult (code OR push_bit 4 h) = Inr (code, h AND mask 28)"
proof -
  have "unat code = 0 \<or> unat code = 1 \<or> unat code = 2"
    using assms by (auto simp: callbackMax_def word_le_nat_alt)
  then have "code = 0 \<or> code = 1 \<or> code = 2 ^ 1"
    by (auto simp: word_unat_eq_iff)
  then have small: "\<not> bit code n" if "4 \<le> n" for n
    using that by (auto simp only: bit_exp_iff bit_0_eq bot_apply bot_bool_def bit_1_iff)
  have m: "(0xf :: u32) = mask 4" by (simp add: mask_eq_exp_minus_1)
  have "(code OR push_bit 4 h) AND 0xf = code"
    unfolding m using small by (intro bit_word_eqI) (auto simp: bit_simps not_le [symmetric])
  moreover have "drop_bit 4 (code OR push_bit 4 h) = h AND mask 28"
    by (rule bit_word_eqI) (auto simp: bit_simps small)
  ultimately show ?thesis using assms by (simp add: unpackCallbackResult_def)
qed

theorem pending_cancel_delivered_witness:
  "gt_ready exiting_env 3 (upd_task 3 (\<lambda>x. x\<lparr>task_state := taskPendingCancel\<rparr>) inst_example) = True"
  using pending_cancel_delivered [of 3 "upd_task 3 (\<lambda>x. x\<lparr>task_state := taskPendingCancel\<rparr>) inst_example" exiting_env]
  by (simp add: parked_in_loop_def example_gt_def heldByOther_def)

theorem requestCancellation_delivers_witness:
  "requestCancellation exiting_env 3 waiting_example =
    runLoop exiting_env 3 cancelled_event (resumed_cancelled 3 waiting_example) \<and>
   numWaiting (sets (resumed_cancelled 3 waiting_example) 5) = 0 \<and> numWaiting (sets waiting_example 5) = 1 \<and>
   3 \<in> set (parked waiting_example) \<and> 3 \<notin> set (parked (resumed_cancelled 3 waiting_example))"
  using requestCancellation_delivers [of 3 waiting_example exiting_env]
  by (simp add: parked_in_loop_def example_gt_def example_task_def waiting_example_def resumed_cancelled_def
      park_def upd_gt_def upd_set_def)

theorem callback_handle_bits_witness:
  "unpackCallbackResult (callbackWait OR push_bit 4 0x10000005) = Inr (callbackWait, 5)"
  using callback_handle_bits [of callbackWait "0x10000005"]
  by (simp add: callbackWait_def callbackMax_def mask_eq_exp_minus_1)

end
