(* ===== verification/Builtins.thy ===== *)
theory Builtins
  imports Task
begin

text \<open>
  The canonical built-ins a guest calls: the waitable, task and context built-ins of
  \<open>internal/instance/async_builtins.go\<close> and the error contexts of \<open>errorcontext.go\<close>. Each is the body of
  the host function that is registered under the built-in's name; its core parameters are arguments and its
  core result is the value. A Go \<open>panic\<close>, which the engine turns into a trap, is an error.
  The linear memory of the calling module is part of the state; it may be missing.
  What suspends a goroutine (\<open>taskBlocker.block\<close>) is a parameter. A built-in that drives the scheduler
  has an option as its value, as \<open>drive\<close> has.
\<close>

subsection \<open>State\<close>

record builtin_state = inst_state +
  memory :: "byte list option"
  errorContexts :: "ref \<Rightarrow> byte list"

record 's builtin_env =
  task_part :: "'s task_env"
  thunk_fe :: "callback \<Rightarrow> ('s, runtime_error, unit) op"
  thunk_fv :: "callback \<Rightarrow> 's \<Rightarrow> 's"
  cancel_hook :: "callback \<Rightarrow> ('s, runtime_error, unit) op"
  has_blocker :: "'s \<Rightarrow> bool"
  block :: "('s \<Rightarrow> bool) \<Rightarrow> bool \<Rightarrow> ('s, runtime_error, bool) op"
  guest_realloc :: "'s realloc"

text \<open>The environment the scheduler of an instance runs in.\<close>

definition instance_sched :: "'a inst_state_scheme builtin_env \<Rightarrow> 'a inst_state_scheme sched_env" where
  "instance_sched env =
     \<lparr>run_fe = thunk_fe env, run_fv = thunk_fv env, task_ready = parked_ready (task_part env),
      task_resume = parked_resume (task_part env)\<rparr>"

text \<open>An operation of the Canonical ABI on the memory of the calling module. The rest of the state is the guest's
  in the eyes of that code, because its allocator runs guest code.\<close>

definition on_memory :: "('a builtin_state_scheme, 'b) mop \<Rightarrow> ('a builtin_state_scheme, runtime_error, 'b) op" where
  "on_memory f s =
     (case memory s of
        None \<Rightarrow> (Inl NoMemory, s)
      | Some m \<Rightarrow>
          (let (r, ms) = f \<lparr>lin_mem = m, guest = s\<rparr>
           in (case r of Inl e \<Rightarrow> Inl (AbiError e) | Inr x \<Rightarrow> Inr x, (guest ms)\<lparr>memory := Some (lin_mem ms)\<rparr>)))"

definition abi_result :: "abi_error + 'b \<Rightarrow> ('s, runtime_error, 'b) op" where
  "abi_result r s = (case r of Inl e \<Rightarrow> (Inl (AbiError e), s) | Inr x \<Rightarrow> (Inr x, s))"

definition new_ref :: "('a table_state_scheme, runtime_error, ref) op" where
  "new_ref s = (Inr (fresh_ref s), s\<lparr>fresh_ref := fresh_ref s + 1\<rparr>)"

definition add_entry :: "tableEntry \<Rightarrow> ('a table_state_scheme, runtime_error, u32) op" where
  "add_entry e s = (let (h, s') = addEntry e s in (Inr h, s'))"

definition modify :: "('s \<Rightarrow> 's) \<Rightarrow> ('s, runtime_error, unit) op" where
  "modify f s = (Inr (), f s)"

definition getting :: "('s \<Rightarrow> 'b) \<Rightarrow> ('s, runtime_error, 'b) op" where
  "getting f s = (Inr (f s), s)"

definition require :: "bool \<Rightarrow> runtime_error \<Rightarrow> ('s, runtime_error, unit) op" where
  "require b e = (if b then sret () else sfail e)"

subsection \<open>Guards\<close>

definition requireMayLeave :: "('a inst_state_scheme, runtime_error, unit) op" where
  "requireMayLeave s = require (mayLeave s) MayNotLeave s"

definition requireActiveTask :: "('a inst_state_scheme, runtime_error, ref) op" where
  "requireActiveTask s =
     (if \<not> mayLeave s then (Inl MayNotLeave, s)
      else case activeTask s of None \<Rightarrow> (Inl NoActiveTask, s) | Some t \<Rightarrow> (Inr t, s))"

definition blockingTask :: "'a inst_state_scheme builtin_env \<Rightarrow> ('a inst_state_scheme, runtime_error, ref \<times> bool) op" where
  "blockingTask env s =
     (case activeTask s of
        None \<Rightarrow> (Inl SyncTaskBlock, s)
      | Some t \<Rightarrow> if syncImplicit (tasks s t) then (Inl SyncTaskBlock, s) else (Inr (t, has_blocker env s), s))"

definition activeBlocker :: "'a inst_state_scheme builtin_env \<Rightarrow> 'a inst_state_scheme \<Rightarrow> bool" where
  "activeBlocker env s = has_blocker env s"

definition requireNotSyncImplicit :: "'a inst_state_scheme builtin_env \<Rightarrow> ('a inst_state_scheme, runtime_error, bool) op" where
  "requireNotSyncImplicit env s =
     (case activeTask s of
        Some t \<Rightarrow> if syncImplicit (tasks s t) then (Inl SyncTaskBlock, s) else (Inr (activeBlocker env s), s)
      | None \<Rightarrow> (Inr (activeBlocker env s), s))"

subsection \<open>Waitable sets\<close>

definition waitableSetNew :: "('a inst_state_scheme, runtime_error, u32) op" where
  "waitableSetNew =
     sbind requireMayLeave (\<lambda>_.
     sbind new_ref (\<lambda>p.
     sbind (modify (upd_set p (\<lambda>_. zero_waitableSet))) (\<lambda>_.
     add_entry (WaitableSetEntry p))))"

definition requireWaitableSet :: "u32 \<Rightarrow> ('a inst_state_scheme, runtime_error, ref) op" where
  "requireWaitableSet si s =
     (case getEntry si s of Some (WaitableSetEntry p) \<Rightarrow> (Inr p, s) | _ \<Rightarrow> (Inl NotWaitableSet, s))"

definition u32_desc :: "type_desc option" where
  "u32_desc = Some (PrimitiveDesc ''u32'')"

definition storeEvent :: "u32 \<Rightarrow> eventTuple \<Rightarrow> ('a builtin_state_scheme, runtime_error, eventCode) op" where
  "storeEvent ptr ev =
     on_memory (sbind (Store 1 (unat ptr) u32_desc (VU32 (p1 ev)) None None) (\<lambda>_.
                sbind (Store 1 (unat (ptr + 4)) u32_desc (VU32 (p2 ev)) None None) (\<lambda>_.
                sret (event_code ev))))"

definition waiting :: "ref \<Rightarrow> int \<Rightarrow> 'a wait_state_scheme \<Rightarrow> 'a wait_state_scheme" where
  "waiting ws d = upd_set ws (\<lambda>x. x\<lparr>numWaiting := numWaiting x + d\<rparr>)"

text \<open>What follows the wait, when it was not already cancelled: the cancellation or the event.\<close>

definition take_event :: "'a inst_state_scheme builtin_env \<Rightarrow> bool \<Rightarrow> ref \<Rightarrow> ref \<Rightarrow> bool \<Rightarrow> ('a inst_state_scheme, runtime_error, eventTuple) op" where
  "take_event env cancellable t ws was_cancelled s =
     (if was_cancelled then (Inr cancelled_event, s)
      else let (d, s') = (if cancellable then deliverPendingCancel t True s else (False, s)) in
        if d then (Inr cancelled_event, s') else set_getPendingEvent (event_eval (task_part env)) ws s')"

definition waitableSetWait :: "'a builtin_state_scheme builtin_env \<Rightarrow> bool \<Rightarrow> u32 \<Rightarrow> u32 \<Rightarrow> 'a builtin_state_scheme \<Rightarrow>
    ((runtime_error + eventCode) \<times> 'a builtin_state_scheme) option" where
  "waitableSetWait env cancellable si ptr s =
     (case sbind requireMayLeave (\<lambda>_. sbind (requireWaitableSet si) (\<lambda>ws. sbind (blockingTask env) (\<lambda>tb. sret (ws, tb)))) s of
        (Inl e, s0) \<Rightarrow> Some (Inl e, s0)
      | (Inr (ws, t, blk), s0) \<Rightarrow>
          (let pred = (\<lambda>s. set_hasPendingEvent ws s \<or> cancellable \<and> cancelDeliverable t s);
               finish = (\<lambda>was_cancelled s. sbind (take_event env cancellable t ws was_cancelled) (storeEvent ptr) s)
           in if blk then
                (case block env pred cancellable (waiting ws 1 s0) of
                   (Inl e, s1) \<Rightarrow> Some (Inl e, s1)
                 | (Inr was_cancelled, s1) \<Rightarrow> Some (finish was_cancelled (waiting ws (- 1) s1)))
              else
                (case drive (instance_sched env) pred (waiting ws 1 s0) of
                   None \<Rightarrow> None
                 | Some (Inl e, s1) \<Rightarrow> Some (Inl e, waiting ws (- 1) s1)
                 | Some (Inr _, s1) \<Rightarrow> Some (finish False (waiting ws (- 1) s1)))))"

definition waitableSetPoll :: "'a builtin_state_scheme builtin_env \<Rightarrow> bool \<Rightarrow> u32 \<Rightarrow> u32 \<Rightarrow>
    ('a builtin_state_scheme, runtime_error, eventCode) op" where
  "waitableSetPoll env cancellable si ptr =
     sbind requireMayLeave (\<lambda>_.
     sbind (requireWaitableSet si) (\<lambda>ws.
     sbind requireActiveTask (\<lambda>t s.
       let (d, s') = (if cancellable then deliverPendingCancel t True s else (False, s)) in
       if d then storeEvent ptr cancelled_event s'
       else sbind (poll (event_eval (task_part env)) ws) (storeEvent ptr) s')))"

definition waitableSetDrop :: "u32 \<Rightarrow> ('a inst_state_scheme, runtime_error, unit) op" where
  "waitableSetDrop h =
     sbind requireMayLeave (\<lambda>_.
     sbind (requireWaitableSet h) (\<lambda>ws.
     sbind (\<lambda>s. slift (dropSet ws s) s) (\<lambda>_.
     modify (\<lambda>s. snd (removeEntry h s)))))"

text \<open>The waitable embedded in an entry, if the entry has one.\<close>

fun waitablePtr :: "tableEntry \<Rightarrow> ref option" where
  "waitablePtr (SubtaskEntry p) = Some p"
| "waitablePtr (StreamEndEntry p) = Some p"
| "waitablePtr (FutureEndEntry p) = Some p"
| "waitablePtr _ = None"

definition waitableJoin :: "u32 \<Rightarrow> u32 \<Rightarrow> ('a inst_state_scheme, runtime_error, unit) op" where
  "waitableJoin wi si =
     sbind requireMayLeave (\<lambda>_ s.
       case (case getEntry wi s of None \<Rightarrow> None | Some e \<Rightarrow> waitablePtr e) of
         None \<Rightarrow> (Inl NotWaitable, s)
       | Some w \<Rightarrow>
           if syncWaiter (waitables s w) then (Inl SyncWaiterPresent, s)
           else if si = 0 then (Inr (), Waitable.join w None s)
           else sbind (requireWaitableSet si) (\<lambda>ws. modify (Waitable.join w (Some ws))) s)"

subsection \<open>Subtasks and tasks\<close>

definition requireSubtask :: "u32 \<Rightarrow> ('a inst_state_scheme, runtime_error, ref) op" where
  "requireSubtask h s = (case getEntry h s of Some (SubtaskEntry p) \<Rightarrow> (Inr p, s) | _ \<Rightarrow> (Inl NotSubtask, s))"

definition subtaskDrop :: "u32 \<Rightarrow> ('a inst_state_scheme, runtime_error, unit) op" where
  "subtaskDrop h =
     sbind requireMayLeave (\<lambda>_.
     sbind (requireSubtask h) (\<lambda>st.
     sbind (dropSubtask st) (\<lambda>_.
     modify (\<lambda>s. snd (removeEntry h s)))))"

text \<open>\<open>async_export\<close> stands for the test that the task's export is lifted with asynchronous options.\<close>

definition taskCancel :: "'a inst_state_scheme builtin_env \<Rightarrow> ('a inst_state_scheme, runtime_error, unit) op" where
  "taskCancel env =
     sbind requireActiveTask (\<lambda>t s.
       if has_export (tasks s t) \<and> \<not> async_export (tasks s t) then (Inl NotAsyncTask, s)
       else cancelResolve (task_part env) t s)"

definition blockedSentinel :: u32 where "blockedSentinel = 0xffffffff"

text \<open>The end of \<open>subtask.cancel\<close>: the pending event must be the subtask's own.\<close>

definition cancel_deliver :: "'a inst_state_scheme builtin_env \<Rightarrow> u32 \<Rightarrow> ref \<Rightarrow> ('a inst_state_scheme, runtime_error, u32) op" where
  "cancel_deliver env i st =
     sbind (getPendingEvent (event_eval (task_part env)) st) (\<lambda>ev.
     sbind (require (event_code ev = eventSubtask \<and> p1 ev = i) (TablePanic ''BUG: delivered event does not name subtask'')) (\<lambda>_.
     getting (\<lambda>s. of_nat (subtask_number (sub_state (subtasks s st))))))"

definition subtaskCancel :: "'a inst_state_scheme builtin_env \<Rightarrow> bool \<Rightarrow> u32 \<Rightarrow> 'a inst_state_scheme \<Rightarrow>
    ((runtime_error + u32) \<times> 'a inst_state_scheme) option" where
  "subtaskCancel env async i s =
     (case sbind requireMayLeave (\<lambda>_.
           sbind (if async then sret False else requireNotSyncImplicit env) (\<lambda>blk.
           sbind (requireSubtask i) (\<lambda>st.
           sbind (\<lambda>s. require (\<not> resolveDelivered st s) AlreadyDelivered s) (\<lambda>_.
           sbind (\<lambda>s. require (\<not> cancellationRequested (subtasks s st)) AlreadyCancelled s) (\<lambda>_.
           sbind (\<lambda>s. require (\<not> (inWaitableSet st s \<and> \<not> async)) InWaitableSet s) (\<lambda>_.
           sret (st, blk))))))) s of
        (Inl e, s0) \<Rightarrow> Some (Inl e, s0)
      | (Inr (st, blk), s0) \<Rightarrow>
          if resolved st s0 then Some (cancel_deliver env i st s0)
          else
            (let s1 = upd_subtask st (\<lambda>x. x\<lparr>cancellationRequested := True\<rparr>) s0;
                 (r, s2) = (if hasOnCancel st s1
                            then pumped (runOnCancel (requestCancellation (task_part env)) (cancel_hook env) st) s1
                            else (Inr (), s1))
             in case r of
                  Inl e \<Rightarrow> Some (Inl e, s2)
                | Inr _ \<Rightarrow>
                    if resolved st s2 then Some (cancel_deliver env i st s2)
                    else if async then Some (Inr blockedSentinel, s2)
                    else
                      (let s3 = upd_waitable st (\<lambda>w. w\<lparr>syncWaiter := True\<rparr>) s2;
                           done = upd_waitable st (\<lambda>w. w\<lparr>syncWaiter := False\<rparr>)
                       in if blk then
                            (case block env (hasPendingEvent st) False s3 of
                               (Inl e, s4) \<Rightarrow> Some (Inl e, s4)
                             | (Inr _, s4) \<Rightarrow> Some (cancel_deliver env i st (done s4)))
                          else
                            (case drive (instance_sched env) (hasPendingEvent st) s3 of
                               None \<Rightarrow> None
                             | Some (Inl e, s4) \<Rightarrow> Some (Inl e, done s4)
                             | Some (Inr _, s4) \<Rightarrow> Some (cancel_deliver env i st (done s4))))))"

text \<open>\<open>task.return\<close>: the flattened result type is computed when the built-in is bound.\<close>

definition taskReturn_kinds :: "nat \<Rightarrow> type_desc option option \<Rightarrow> resolver \<Rightarrow> abi_error + string list" where
  "taskReturn_kinds fuel resultType rs =
     (case resultType of None \<Rightarrow> Inr [] | Some rt \<Rightarrow> Flatten fuel rs rt)"

definition liftReturned :: "nat \<Rightarrow> string list \<Rightarrow> type_desc option \<Rightarrow> resolver \<Rightarrow> u64 list \<Rightarrow>
    ('a builtin_state_scheme, runtime_error, val) op" where
  "liftReturned fuel kinds rt rs stack s =
     (if length kinds > MaxFlatParams then
        (case memory s of
           None \<Rightarrow> (Inl NoMemory, s)
         | Some m \<Rightarrow> abi_result (Load fuel m (unat (ucast (stack ! 0) :: u32)) rt rs) s)
      else
        abi_result (LiftFlat fuel (map (\<lambda>(k, b). \<lparr>CoreKind = k, Bits = b\<rparr>) (zip kinds stack)) rt rs
          (case memory s of None \<Rightarrow> [] | Some m \<Rightarrow> m)) s)"

definition taskReturn :: "'a builtin_state_scheme builtin_env \<Rightarrow> nat \<Rightarrow> string list \<Rightarrow> type_desc option option \<Rightarrow> resolver \<Rightarrow>
    u64 list \<Rightarrow> ('a builtin_state_scheme, runtime_error, unit) op" where
  "taskReturn env fuel kinds resultType rs stack =
     sbind requireActiveTask (\<lambda>t s.
       if syncImplicit (tasks s t) then (Inl SyncTaskReturn, s)
       else case resultType of
         None \<Rightarrow> returnValues (task_part env) t [] s
       | Some rt \<Rightarrow>
           if has_export (tasks s t) \<and> rt \<noteq> export_result (tasks s t) then (Inl WrongResultType, s)
           else sbind (liftReturned fuel kinds rt rs stack) (\<lambda>v. returnValues (task_part env) t [v]) s)"

definition contextGet :: "nat \<Rightarrow> ('a inst_state_scheme, runtime_error, u64) op" where
  "contextGet slot =
     sbind requireActiveTask (\<lambda>t s.
       if slot \<ge> length (ctxStorage (tasks s t)) then (Inl SlotOutOfRange, s) else (Inr (ctxStorage (tasks s t) ! slot), s))"

definition contextSet :: "nat \<Rightarrow> u64 \<Rightarrow> ('a inst_state_scheme, runtime_error, unit) op" where
  "contextSet slot v =
     sbind requireActiveTask (\<lambda>t s.
       if slot \<ge> length (ctxStorage (tasks s t)) then (Inl SlotOutOfRange, s)
       else (Inr (), upd_task t (\<lambda>x. x\<lparr>ctxStorage := (ctxStorage x)[slot := v]\<rparr>) s))"

definition backpressureInc :: "('a inst_state_scheme, runtime_error, unit) op" where
  "backpressureInc =
     sbind requireActiveTask (\<lambda>_.
     sbind (modify (\<lambda>s. s\<lparr>backpressure := backpressure s + 1\<rparr>)) (\<lambda>_ s.
     require (backpressure s \<noteq> 2 ^ 16) BackpressureOverflow s))"

definition backpressureDec :: "('a inst_state_scheme, runtime_error, unit) op" where
  "backpressureDec =
     sbind requireActiveTask (\<lambda>_.
     sbind (modify (\<lambda>s. s\<lparr>backpressure := backpressure s - 1\<rparr>)) (\<lambda>_ s.
     require (\<not> backpressure s < 0) BackpressureUnderflow s))"

subsection \<open>Error contexts\<close>

definition string_desc :: "type_desc option" where
  "string_desc = Some (PrimitiveDesc ''string'')"

definition errorContextNew :: "u32 \<Rightarrow> u32 \<Rightarrow> ('a builtin_state_scheme, runtime_error, u32) op" where
  "errorContextNew ptr len =
     sbind requireMayLeave (\<lambda>_.
     sbind (\<lambda>s. case memory s of None \<Rightarrow> (Inl NoMemory, s)
              | Some m \<Rightarrow> abi_result (LiftFlat 1 [NewCoreValueI32 ptr, NewCoreValueI32 len] string_desc None m) s) (\<lambda>v.
     sbind new_ref (\<lambda>p.
     sbind (modify (\<lambda>s. s\<lparr>errorContexts := (errorContexts s)(p := (case v of VString bs \<Rightarrow> bs | _ \<Rightarrow> []))\<rparr>)) (\<lambda>_.
     add_entry (ErrorContextEntry p)))))"

definition requireErrorContext :: "u32 \<Rightarrow> ('a inst_state_scheme, runtime_error, ref) op" where
  "requireErrorContext h s = (case getEntry h s of Some (ErrorContextEntry p) \<Rightarrow> (Inr p, s) | _ \<Rightarrow> (Inl NotErrorContext, s))"

definition errorContextDebugMessage :: "'a builtin_state_scheme builtin_env \<Rightarrow> u32 \<Rightarrow> u32 \<Rightarrow>
    ('a builtin_state_scheme, runtime_error, unit) op" where
  "errorContextDebugMessage env h ptr =
     sbind requireMayLeave (\<lambda>_.
     sbind (requireErrorContext h) (\<lambda>p s.
     on_memory (Store 1 (unat ptr) string_desc (VString (errorContexts s p)) None (guest_realloc env)) s))"

definition errorContextDrop :: "u32 \<Rightarrow> ('a inst_state_scheme, runtime_error, unit) op" where
  "errorContextDrop h =
     sbind requireMayLeave (\<lambda>_.
     sbind (requireErrorContext h) (\<lambda>_.
     modify (\<lambda>s. snd (removeEntry h s))))"

subsection \<open>Memory of a built-in\<close>

lemma lift_string:
  "LiftFlat 1 [NewCoreValueI32 ptr, NewCoreValueI32 len] string_desc None m =
     rbind (loadStringFromRange m (unat ptr) (unat len)) (\<lambda>b. Inr (VString b))"
  by (simp add: LiftFlat_def string_desc_def MaxFlatParams_def liftFlatPrimitive_def liftFlatString_def next_pair_def
      flattenPrimitive_def sbind_def slift_def)

lemma loadStringFromRange_Inr:
  "loadStringFromRange m p n = Inr b \<longleftrightarrow> p + n \<le> length m \<and> b = slice_of m p n \<and> utf8_valid b"
  by (auto simp: loadStringFromRange_eq checkedRange_def Let_def)

lemma requireMayLeave_Inr [simp]: "requireMayLeave s = (Inr u, s') \<longleftrightarrow> mayLeave s \<and> s' = s"
  by (auto simp: requireMayLeave_def require_def)

lemma add_entry_Inr [simp]: "add_entry e s = (Inr h, s') \<longleftrightarrow> addEntry e s = (h, s')"
  by (auto simp: add_entry_def split: prod.split)

lemma abi_result_Inr [simp]: "abi_result r s = (Inr x, s') \<longleftrightarrow> r = Inr x \<and> s' = s"
  by (auto simp: abi_result_def split: sum.split)

lemma small_ops [simp]:
  "new_ref s = (Inr (fresh_ref s), s\<lparr>fresh_ref := fresh_ref s + 1\<rparr>)" "modify f s = (Inr (), f s)" "getting g s = (Inr (g s), s)"
  by (simp_all add: new_ref_def modify_def getting_def)

lemma addEntry_builtin [simp]:
  "memory (snd (addEntry e s)) = memory s" "errorContexts (snd (addEntry e s)) = errorContexts s"
  "mayLeave (snd (addEntry e s)) = mayLeave s"
  by (simp_all add: addEntry_def Let_def)

text \<open>What error-context.new does, when it succeeds.\<close>

lemma errorContextNew_effect:
  assumes "errorContextNew ptr len s = (Inr h, s')" "memory s = Some m" "index_ok s" "has_room s"
  shows "\<exists>p. getEntry h s' = Some (ErrorContextEntry p) \<and> errorContexts s' p = slice_of m (unat ptr) (unat len) \<and>
    utf8_valid (slice_of m (unat ptr) (unat len)) \<and> memory s' = Some m \<and> mayLeave s' = mayLeave s \<and> fresh_ref s' = fresh_ref s + 1"
proof -
  let ?b = "slice_of m (unat ptr) (unat len)"
  let ?s = "s\<lparr>fresh_ref := fresh_ref s + 1, errorContexts := (errorContexts s)(fresh_ref s := ?b)\<rparr>"
  from assms(1,2) have b: "utf8_valid ?b" "addEntry (ErrorContextEntry (fresh_ref s)) ?s = (h, s')"
    by (auto simp: errorContextNew_def state_simps lift_string [simplified] loadStringFromRange_Inr res_simps)
  have ok: "index_ok ?s" "has_room ?s" using assms(3,4) by (simp_all add: index_ok_def has_room_def)
  have "getEntry h s' = Some (ErrorContextEntry (fresh_ref s))"
    using handles.get_added [OF ok, of "ErrorContextEntry (fresh_ref s)"] b(2) by simp
  moreover have "s' = snd (addEntry (ErrorContextEntry (fresh_ref s)) ?s)" unfolding b(2) by simp
  ultimately show ?thesis using b(1) assms(2) by auto
qed

lemma debugMessage_effect:
  assumes "errorContextDebugMessage env h out s = (Inr (), s')" "getEntry h s = Some (ErrorContextEntry p)" "memory s = Some m"
  shows "\<exists>ms. Store 1 (unat out) string_desc (VString (errorContexts s p)) None (guest_realloc env) \<lparr>lin_mem = m, guest = s\<rparr> = (Inr (), ms) \<and>
    memory s' = Some (lin_mem ms)"
  using assms
  by (auto simp: errorContextDebugMessage_def requireErrorContext_def state_simps on_memory_def Let_def
      split: sum.splits prod.splits)

lemma string_layout: "Size string_desc None = Inr 8"
  unfolding string_desc_def by code_simp

lemma string_reload:
  "utf8_valid b \<Longrightarrow> length b \<le> MaxUint32 \<Longrightarrow> reload 1 None string_desc (VString b) = Some (VString b)"
  by (rule canonical_reload) (simp add: string_desc_def canonical_prim_def)

subsection \<open>An example\<close>

text \<open>An instance with sixteen bytes of memory that spell \<open>hi\<close> at address 8, whose guest allocates upwards
  from the address in \<open>fresh_ref\<close>.\<close>

definition builtin_example :: builtin_state where
  "builtin_example = (inst_state.extend inst_example (builtin_state.fields
     (Some ([0, 0, 0, 0, 0, 0, 0, 0, 0x68, 0x69] @ replicate 14 0)) (\<lambda>_. [])))\<lparr>fresh_ref := 11\<rparr>"

lemma builtin_example_tab: "tab builtin_example = tab one_own"
  by (simp add: builtin_example_def inst_example_def sched_example_def wait_example_def inst_state.defs builtin_state.defs
      sched_state.defs wait_state.defs table_state.defs)

definition guest_bump :: "u32 \<Rightarrow> u32 \<Rightarrow> u32 \<Rightarrow> u32 \<Rightarrow> (builtin_state, u32) mop" where
  "guest_bump a b al n ms =
     (let (r, ms') = bump_alloc a b al n \<lparr>lin_mem = lin_mem ms, guest = fresh_ref (guest ms)\<rparr>
      in (r, \<lparr>lin_mem = lin_mem ms', guest = (guest ms)\<lparr>fresh_ref := guest ms'\<rparr>\<rparr>))"

definition guest_owned :: "builtin_state mstate \<Rightarrow> nat set" where
  "guest_owned ms = {0..<fresh_ref (guest ms)}"

lemma guest_bump_ok: "allocator_ok guest_owned (Some guest_bump)"
  unfolding allocator_ok_def
proof (intro conjI allI impI)
  fix s :: "builtin_state mstate" and m
  show "guest_owned (s\<lparr>lin_mem := m\<rparr>) = guest_owned s" by (simp add: guest_owned_def)
next
  fix call al n s p and s' :: "builtin_state mstate"
  assume "Some guest_bump = Some call" "call 0 0 al n s = (Inr p, s')"
  then obtain ms' where ms': "bump_alloc 0 0 al n \<lparr>lin_mem = lin_mem s, guest = fresh_ref (guest s)\<rparr> = (Inr p, ms')"
    "s' = \<lparr>lin_mem = lin_mem ms', guest = (guest s)\<lparr>fresh_ref := guest ms'\<rparr>\<rparr>"
    by (auto simp: guest_bump_def split: prod.splits)
  have b: "bump_owned \<lparr>lin_mem = lin_mem s, guest = fresh_ref (guest s)\<rparr> = guest_owned s" "bump_owned ms' = guest_owned s'"
    "lin_mem s' = lin_mem ms'"
    by (simp_all add: bump_owned_def guest_owned_def ms'(2))
  have "same_on (bump_owned \<lparr>lin_mem = lin_mem s, guest = fresh_ref (guest s)\<rparr>) (lin_mem s) (lin_mem ms') \<and>
    bump_owned \<lparr>lin_mem = lin_mem s, guest = fresh_ref (guest s)\<rparr> \<subseteq> bump_owned ms' \<and>
    {unat p..<unat p + unat n} \<subseteq> bump_owned ms' - bump_owned \<lparr>lin_mem = lin_mem s, guest = fresh_ref (guest s)\<rparr>"
    using bump_alloc_ok ms'(1) unfolding allocator_ok_def by (metis mstate.select_convs(1))
  then show "same_on (guest_owned s) (lin_mem s) (lin_mem s')" "guest_owned s \<subseteq> guest_owned s'"
    "{unat p..<unat p + unat n} \<subseteq> guest_owned s' - guest_owned s"
    by (simp_all only: b)
qed

definition example_env :: "builtin_state builtin_env" where
  "example_env = \<lparr>task_part = \<lparr>on_resolve = \<lambda>_ _ _ s. s, on_finish = \<lambda>_ _ s. s, on_start = \<lambda>_. sret [],
     lower_params = \<lambda>_ _. sret [], params_want = \<lambda>_. 0, call_core = \<lambda>_ _. sret 0, call_callback = \<lambda>_ _. sret 0,
     event_eval = \<lambda>_. sfail NoLends, run_segment = \<lambda>_ _. sret (), spawn = \<lambda>_. sret (), handoff = \<lambda>_ _. sret (),
     block_ready = \<lambda>_ _. False\<rparr>,
     thunk_fe = \<lambda>_. sfail NoLends, thunk_fv = \<lambda>_ s. s, cancel_hook = \<lambda>_. sret (), has_blocker = \<lambda>_. False,
     block = \<lambda>_ _. sret False, guest_realloc = Some guest_bump\<rparr>"

subsection \<open>Properties\<close>

text \<open>An error context keeps its message: what \<open>error-context.debug-message\<close> writes into the guest's memory loads
  as exactly the bytes the guest named when it made the context, whatever the guest's own well-behaved
  allocator does in between.\<close>

theorem error_context_roundtrip:
  assumes "errorContextNew ptr len s = (Inr h, s1)" "memory s = Some m" "index_ok s" "has_room s"
    "errorContextDebugMessage env h out s1 = (Inr (), s2)" "allocator_ok owned (guest_realloc env)"
    "{unat out ..< unat out + 8} \<subseteq> owned \<lparr>lin_mem = m, guest = s1\<rparr>" "memory s2 = Some m2" "length m2 \<le> 2 ^ 32"
  shows "Load 1 m2 (unat out) string_desc None = Inr (VString (slice_of m (unat ptr) (unat len)))"
proof -
  obtain p where p: "getEntry h s1 = Some (ErrorContextEntry p)" "errorContexts s1 p = slice_of m (unat ptr) (unat len)"
    "utf8_valid (slice_of m (unat ptr) (unat len))" "memory s1 = Some m"
    using errorContextNew_effect [OF assms(1-4)] by blast
  obtain ms where ms: "Store 1 (unat out) string_desc (VString (errorContexts s1 p)) None (guest_realloc env)
      \<lparr>lin_mem = m, guest = s1\<rparr> = (Inr (), ms)" "m2 = lin_mem ms"
    using debugMessage_effect [OF assms(5) p(1,4)] assms(8) by auto
  have "length (slice_of m (unat ptr) (unat len)) \<le> MaxUint32"
    using unsigned_less [of len, where 'a = nat] by (simp add: slice_of_def MaxUint32_def min_le_iff_disj)
  from Store_reload_Load [OF assms(6) ms(1) string_layout assms(7) _ string_reload] this p(2,3) assms(9) show ?thesis
    by (simp add: ms(2))
qed

theorem error_context_roundtrip_witness:
  "Load 1 ([12, 0, 0, 0, 2, 0, 0, 0, 0x68, 0x69, 0, 0, 0x68, 0x69] @ replicate 10 0) 0 string_desc None = Inr (VString [0x68, 0x69])"
proof -
  let ?new = "errorContextNew 8 2 builtin_example"
  let ?msg = "errorContextDebugMessage example_env 2 0 (snd ?new)"
  let ?m = "[0, 0, 0, 0, 0, 0, 0, 0, 0x68, 0x69] @ replicate 14 0 :: byte list"
  have m: "memory builtin_example = Some ?m" by (simp add: builtin_example_def inst_state.defs builtin_state.defs)
  have "fst ?new = Inr 2" by code_simp
  then have new: "?new = (Inr 2, snd ?new)" by (simp add: prod_eq_iff)
  have "fst ?msg = Inr ()" by code_simp
  then have msg: "?msg = (Inr (), snd ?msg)" by (simp add: prod_eq_iff)
  have ok: "index_ok builtin_example" "has_room builtin_example"
    using reachable_table_ok [OF one_own_reachable]
    by (simp_all add: builtin_example_tab table_ok_def index_ok_def has_room_def one_own_entries newHandleTable_def)
  have alloc: "allocator_ok guest_owned (guest_realloc example_env)" by (simp add: example_env_def guest_bump_ok)
  have "fresh_ref (snd ?new) = 12" by code_simp
  then have owned: "{unat (0 :: u32)..<unat (0 :: u32) + 8} \<subseteq> guest_owned \<lparr>lin_mem = ?m, guest = snd ?new\<rparr>"
    by (simp add: guest_owned_def)
  have mem: "memory (snd ?msg) = Some ([12, 0, 0, 0, 2, 0, 0, 0, 0x68, 0x69, 0, 0, 0x68, 0x69] @ replicate 10 0)" by code_simp
  have "slice_of ?m (unat (8 :: u32)) (unat (2 :: u32)) = [0x68, 0x69]" by code_simp
  with error_context_roundtrip [OF new m ok msg alloc owned mem] show ?thesis by simp
qed

end
