(* ===== verification/Stream.thy ===== *)
theory Stream
  imports Builtins
begin

text \<open>
  \<open>internal/instance/stream.go\<close>: the rendezvous objects of streams and futures, the buffers of both sides
  and the copies between them, with the type comparison of \<open>composition.go\<close> they use.

  A stream may join two component instances, so the state also holds the handle tables of the other instances
  and the memories of the other modules; an operation on one of them runs with that table or memory in place of
  that of the running instance. A nil module is \<open>None\<close>. The completion callbacks are named by numbers; what they
  do is a parameter here. A \<open>reclaim\<close> thunk is the reference of the stream whose pending side it clears.
\<close>

subsection \<open>State\<close>

type_synonym inst_id = nat
type_synonym mod_id = nat

datatype copyResult = copyCompleted | copyDropped | copyCancelled

primrec copy_number :: "copyResult \<Rightarrow> u32" where
  "copy_number copyCompleted = 0"
| "copy_number copyDropped = 1"
| "copy_number copyCancelled = 2"

definition maxBufferLen :: u32 where "maxBufferLen = 268435455"

record guestBuffer =
  memMod :: "mod_id option"
  gb_realloc :: "callback option"
  gb_resolve :: resolver
  gb_elem :: "type_desc option"
  gb_elemSz :: u32
  gb_numeric :: bool
  gb_inst :: inst_id
  ownElem :: "u32 option"
  gb_ptr :: u32
  gb_length :: u32
  gb_progress :: u32

record hostBuffer =
  hb_vals :: "val list"
  hb_progress :: u32
  hb_length :: u32

datatype copyBuffer = GuestBuffer guestBuffer | HostBuffer hostBuffer

record sharedStream =
  ss_elem :: "type_desc option"
  ss_elemSz :: u32
  ss_align :: u32
  ss_numeric :: bool
  ss_elemIn :: "inst_id option"
  ss_dropped :: bool
  ss_pendingInst :: "inst_id option"
  ss_pendingBuffer :: "ref option"
  ss_pendingOnCopy :: "callback option"
  ss_pendingOnCopyDone :: "callback option"

record sharedFuture =
  sf_elem :: "type_desc option"
  sf_elemSz :: u32
  sf_align :: u32
  sf_numeric :: bool
  sf_elemIn :: "inst_id option"
  sf_dropped :: bool
  sf_pendingInst :: "inst_id option"
  sf_pendingBuffer :: "ref option"
  sf_pendingOnCopyDone :: "callback option"

datatype copyState = copyIdle | copyCopying | copyCancelling | copyDone

datatype endSide = sideReadable | sideWritable

text \<open>The embedded waitable of an end has the end's reference.\<close>

record streamEnd =
  se_side :: endSide
  se_state :: copyState
  se_shared :: ref
  livePending :: bool

record futureEnd =
  fe_side :: endSide
  fe_state :: copyState
  fe_shared :: ref

record stream_state = builtin_state +
  this_inst :: inst_id
  this_mod :: mod_id
  other_tabs :: "inst_id \<Rightarrow> handleTable"
  other_mems :: "mod_id \<Rightarrow> byte list option"
  buffers :: "ref \<Rightarrow> copyBuffer"
  streams :: "ref \<Rightarrow> sharedStream"
  futures :: "ref \<Rightarrow> sharedFuture"
  streamEnds :: "ref \<Rightarrow> streamEnd"
  futureEnds :: "ref \<Rightarrow> futureEnd"

record 's stream_env =
  abi_fuel :: nat
  realloc_of :: "callback \<Rightarrow> 's realloc"
  resCanon :: "inst_id \<Rightarrow> (u32 \<Rightarrow> u32) option"
  resourceOrigin :: "inst_id \<Rightarrow> u32 \<Rightarrow> (inst_id \<times> u32) option"
  on_copy :: "callback \<Rightarrow> ref \<Rightarrow> ('s, runtime_error, unit) op"
  on_copy_done :: "callback \<Rightarrow> copyResult \<Rightarrow> ('s, runtime_error, unit) op"

definition upd_guest :: "ref \<Rightarrow> (guestBuffer \<Rightarrow> guestBuffer) \<Rightarrow> 'a stream_state_scheme \<Rightarrow> 'a stream_state_scheme" where
  "upd_guest b f s =
     (case buffers s b of GuestBuffer g \<Rightarrow> s\<lparr>buffers := (buffers s)(b := GuestBuffer (f g))\<rparr> | HostBuffer _ \<Rightarrow> s)"

definition upd_host :: "ref \<Rightarrow> (hostBuffer \<Rightarrow> hostBuffer) \<Rightarrow> 'a stream_state_scheme \<Rightarrow> 'a stream_state_scheme" where
  "upd_host b f s =
     (case buffers s b of HostBuffer h \<Rightarrow> s\<lparr>buffers := (buffers s)(b := HostBuffer (f h))\<rparr> | GuestBuffer _ \<Rightarrow> s)"

definition upd_stream :: "ref \<Rightarrow> (sharedStream \<Rightarrow> sharedStream) \<Rightarrow> 'a stream_state_scheme \<Rightarrow> 'a stream_state_scheme" where
  "upd_stream p f s = s\<lparr>streams := (streams s)(p := f (streams s p))\<rparr>"

definition upd_future :: "ref \<Rightarrow> (sharedFuture \<Rightarrow> sharedFuture) \<Rightarrow> 'a stream_state_scheme \<Rightarrow> 'a stream_state_scheme" where
  "upd_future p f s = s\<lparr>futures := (futures s)(p := f (futures s p))\<rparr>"

text \<open>An operation on the handle table of an instance, and one on the memory of a module.\<close>

definition in_instance :: "inst_id \<Rightarrow> ('a stream_state_scheme, 'e, 'b) op \<Rightarrow> ('a stream_state_scheme, 'e, 'b) op" where
  "in_instance i f s =
     (if i = this_inst s then f s
      else let (r, s') = f (s\<lparr>tab := other_tabs s i\<rparr>)
        in (r, s'\<lparr>tab := tab s, other_tabs := (other_tabs s')(i := tab s')\<rparr>))"

definition memoryBytesOf :: "mod_id option \<Rightarrow> 'a stream_state_scheme \<Rightarrow> byte list option" where
  "memoryBytesOf m s =
     (case m of None \<Rightarrow> None | Some i \<Rightarrow> if i = this_mod s then memory s else other_mems s i)"

definition in_module :: "mod_id option \<Rightarrow> ('a stream_state_scheme, 'b) mop \<Rightarrow> ('a stream_state_scheme, runtime_error, 'b) op" where
  "in_module m f s =
     (case m of
        None \<Rightarrow> (Inl NoMemory, s)
      | Some i \<Rightarrow>
          if i = this_mod s then on_memory f s
          else let (r, s') = on_memory f (s\<lparr>memory := other_mems s i\<rparr>)
            in (r, s'\<lparr>memory := memory s, other_mems := (other_mems s')(i := memory s')\<rparr>))"

subsection \<open>Resource identity\<close>

definition canonTag :: "'s stream_env \<Rightarrow> inst_id \<Rightarrow> u32 \<Rightarrow> u32" where
  "canonTag env i ti = (case resCanon env i of Some f \<Rightarrow> f ti | None \<Rightarrow> ti)"

definition originOf :: "'s stream_env \<Rightarrow> inst_id \<Rightarrow> u32 \<Rightarrow> inst_id \<times> u32" where
  "originOf env i tag = (case resourceOrigin env i tag of Some origin \<Rightarrow> origin | None \<Rightarrow> (i, tag))"

definition elemTypesCompatible ::
    "'s stream_env \<Rightarrow> inst_id option \<Rightarrow> type_desc option \<Rightarrow> inst_id option \<Rightarrow> type_desc option \<Rightarrow> bool" where
  "elemTypesCompatible env aIn a bIn b =
     (case (a, b, aIn, bIn) of
        (Some (OwnDesc ra), Some (OwnDesc rb), Some ia, Some ib) \<Rightarrow>
          originOf env ia (canonTag env ia ra) = originOf env ib (canonTag env ib rb)
      | _ \<Rightarrow> a = b)"

subsection \<open>Buffers in guest memory\<close>

definition newGuestBuffer ::
    "inst_id \<Rightarrow> mod_id option \<Rightarrow> callback option \<Rightarrow> resolver \<Rightarrow> type_desc option \<Rightarrow> u32 \<Rightarrow> u32 \<Rightarrow> bool \<Rightarrow> u32 \<Rightarrow> u32 \<Rightarrow>
     ('a stream_state_scheme, runtime_error, ref) op" where
  "newGuestBuffer inst m realloc rs elem elemSz align numeric ptr len s =
     (let chk =
        (if len > maxBufferLen then Inl (BufferTooLong len)
         else if elem \<noteq> None \<and> len > 0 then
           (case memoryBytesOf m s of
              None \<Rightarrow> Inl NoMemory
            | Some mem \<Rightarrow>
                let align' = (if align = 0 then 1 else align)
                in if unat ptr \<noteq> Align (unat ptr) (unat align') then Inl (BufferMisaligned ptr)
                   else if unat ptr + unat len * unat elemSz > length mem then Inl BufferBounds
                   else Inr ())
         else Inr ());
        own_elem = (case elem of Some (OwnDesc r) \<Rightarrow> Some r | _ \<Rightarrow> None)
      in case chk of
           Inl e \<Rightarrow> (Inl e, s)
         | Inr _ \<Rightarrow>
             (let p = fresh_ref s in
              (Inr p, s\<lparr>fresh_ref := p + 1, buffers := (buffers s)(p := GuestBuffer
                \<lparr>memMod = m, gb_realloc = realloc, gb_resolve = rs, gb_elem = elem, gb_elemSz = elemSz, gb_numeric = numeric,
                 gb_inst = inst, ownElem = own_elem, gb_ptr = ptr, gb_length = len, gb_progress = 0\<rparr>)\<rparr>)))"

text \<open>One element of \<open>guestBuffer.read\<close>: load it, and for an owned resource take the handle out of the table of
  the buffer's instance.\<close>

definition take_rep :: "'a stream_state_scheme stream_env \<Rightarrow> guestBuffer \<Rightarrow> val \<Rightarrow> ('a stream_state_scheme, runtime_error, val) op" where
  "take_rep env g v =
     (case ownElem g of
        None \<Rightarrow> sret v
      | Some r \<Rightarrow>
          (case v of
             VU32 h \<Rightarrow> sbind (in_instance (gb_inst g) (TakeOwn (canonTag env (gb_inst g) r) h)) (\<lambda>rep. sret (VU32 rep))
           | _ \<Rightarrow> sfail (AbiError (ExpectedType ''uint32''))))"

definition read_element :: "'a stream_state_scheme stream_env \<Rightarrow> ref \<Rightarrow> guestBuffer \<Rightarrow> byte list \<Rightarrow> ('a stream_state_scheme, runtime_error, val) op" where
  "read_element env b g mem =
     sbind (abi_result (Load (abi_fuel env) mem (unat (gb_ptr g)) (gb_elem g) (gb_resolve g))) (\<lambda>v.
     sbind (take_rep env g v) (\<lambda>v.
     sbind (modify (upd_guest b (\<lambda>g. g\<lparr>gb_ptr := gb_ptr g + gb_elemSz g\<rparr>))) (\<lambda>_. sret v)))"

primrec read_elements ::
    "'a stream_state_scheme stream_env \<Rightarrow> ref \<Rightarrow> guestBuffer \<Rightarrow> byte list \<Rightarrow> nat \<Rightarrow> ('a stream_state_scheme, runtime_error, val list) op" where
  "read_elements env b g mem 0 = sret []"
| "read_elements env b g mem (Suc n) =
     sbind (read_element env b g mem) (\<lambda>v.
     sbind (read_elements env b (g\<lparr>gb_ptr := gb_ptr g + gb_elemSz g\<rparr>) mem n) (\<lambda>vs. sret (v # vs)))"

definition guest_read :: "'a stream_state_scheme stream_env \<Rightarrow> ref \<Rightarrow> guestBuffer \<Rightarrow> u32 \<Rightarrow> ('a stream_state_scheme, runtime_error, val list) op" where
  "guest_read env b g n s =
     (let advance = modify (upd_guest b (\<lambda>g. g\<lparr>gb_progress := gb_progress g + n\<rparr>)) in
      case gb_elem g of
        None \<Rightarrow> sbind advance (\<lambda>_. sret (replicate (unat n) VNil)) s
      | Some _ \<Rightarrow>
          (case memoryBytesOf (memMod g) s of
             None \<Rightarrow> (Inl NoMemory, s)
           | Some mem \<Rightarrow>
               sbind (read_elements env b g mem (unat n)) (\<lambda>vs. sbind advance (\<lambda>_. sret vs)) s))"

text \<open>One element of \<open>guestBuffer.write\<close>.\<close>

definition mint_rep :: "'a stream_state_scheme stream_env \<Rightarrow> guestBuffer \<Rightarrow> val \<Rightarrow> ('a stream_state_scheme, runtime_error, val) op" where
  "mint_rep env g v =
     (case ownElem g of
        None \<Rightarrow> sret v
      | Some r \<Rightarrow>
          (case v of
             VU32 rep \<Rightarrow>
               in_instance (gb_inst g) (\<lambda>s. let (h, s') = NewOwn (canonTag env (gb_inst g) r) rep s in (Inr (VU32 h), s'))
           | _ \<Rightarrow> sfail (AbiError (ExpectedType ''uint32''))))"

definition buffer_realloc :: "'s stream_env \<Rightarrow> guestBuffer \<Rightarrow> 's realloc" where
  "buffer_realloc env g = (case gb_realloc g of None \<Rightarrow> None | Some f \<Rightarrow> realloc_of env f)"

definition write_element :: "'a stream_state_scheme stream_env \<Rightarrow> ref \<Rightarrow> guestBuffer \<Rightarrow> val \<Rightarrow> ('a stream_state_scheme, runtime_error, unit) op" where
  "write_element env b g v =
     sbind (mint_rep env g v) (\<lambda>v.
     sbind (in_module (memMod g) (Store (abi_fuel env) (unat (gb_ptr g)) (gb_elem g) v (gb_resolve g) (buffer_realloc env g))) (\<lambda>_.
       modify (upd_guest b (\<lambda>g. g\<lparr>gb_ptr := gb_ptr g + gb_elemSz g\<rparr>))))"

primrec write_elements ::
    "'a stream_state_scheme stream_env \<Rightarrow> ref \<Rightarrow> guestBuffer \<Rightarrow> val list \<Rightarrow> ('a stream_state_scheme, runtime_error, unit) op" where
  "write_elements env b g [] = sret ()"
| "write_elements env b g (v # vs) =
     sbind (write_element env b g v) (\<lambda>_. write_elements env b (g\<lparr>gb_ptr := gb_ptr g + gb_elemSz g\<rparr>) vs)"

definition guest_write :: "'a stream_state_scheme stream_env \<Rightarrow> ref \<Rightarrow> guestBuffer \<Rightarrow> val list \<Rightarrow> ('a stream_state_scheme, runtime_error, unit) op" where
  "guest_write env b g vs s =
     (let advance = modify (upd_guest b (\<lambda>g. g\<lparr>gb_progress := gb_progress g + word_of_nat (length vs)\<rparr>)) in
      case gb_elem g of
        None \<Rightarrow> advance s
      | Some _ \<Rightarrow>
          (case memoryBytesOf (memMod g) s of
             None \<Rightarrow> (Inl NoMemory, s)
           | Some _ \<Rightarrow> sbind (write_elements env b g vs) (\<lambda>_. advance) s))"

subsection \<open>Buffers of the host\<close>

definition newHostReadBuffer :: "val list \<Rightarrow> hostBuffer" where
  "newHostReadBuffer vals = \<lparr>hb_vals = vals, hb_progress = 0, hb_length = word_of_nat (length vals)\<rparr>"

definition newHostWriteBuffer :: "u32 \<Rightarrow> hostBuffer" where
  "newHostWriteBuffer n = \<lparr>hb_vals = [], hb_progress = 0, hb_length = n\<rparr>"

definition host_read :: "ref \<Rightarrow> hostBuffer \<Rightarrow> u32 \<Rightarrow> ('a stream_state_scheme, runtime_error, val list) op" where
  "host_read b h n s =
     (let end' = hb_progress h + n in
      if end' > word_of_nat (length (hb_vals h)) then (Inl ReadPastEnd, s)
      else (case slice_at (hb_vals h) (unat (hb_progress h)) (unat end') of
          Inl e \<Rightarrow> (Inl (AbiError e), s)
        | Inr out \<Rightarrow> (Inr out, upd_host b (\<lambda>h. h\<lparr>hb_progress := end'\<rparr>) s)))"

lemma host_read_Inr:
  assumes "host_read b h n s = (Inr vs, s')"
  shows "\<not> hb_progress h + n < hb_progress h" "\<not> word_of_nat (length (hb_vals h)) < hb_progress h + n"
    "vs = take (unat n) (drop (unat (hb_progress h)) (hb_vals h))" "s' = upd_host b (\<lambda>h'. h'\<lparr>hb_progress := hb_progress h + n\<rparr>) s"
proof -
  have *: "hb_progress h \<le> hb_progress h + n" "\<not> word_of_nat (length (hb_vals h)) < hb_progress h + n"
    "vs = take (unat (hb_progress h + n) - unat (hb_progress h)) (drop (unat (hb_progress h)) (hb_vals h))"
    "s' = upd_host b (\<lambda>h'. h'\<lparr>hb_progress := hb_progress h + n\<rparr>) s"
    using assms by (auto simp: host_read_def Let_def sliced_def word_le_nat_alt split: if_splits)
  then show "\<not> hb_progress h + n < hb_progress h" "\<not> word_of_nat (length (hb_vals h)) < hb_progress h + n"
    "s' = upd_host b (\<lambda>h'. h'\<lparr>hb_progress := hb_progress h + n\<rparr>) s" by simp_all
  have "unat (hb_progress h + n) - unat (hb_progress h) = unat n"
    using unat_sub [OF *(1)] by simp
  then show "vs = take (unat n) (drop (unat (hb_progress h)) (hb_vals h))" using *(3) by simp
qed

definition host_write :: "ref \<Rightarrow> hostBuffer \<Rightarrow> val list \<Rightarrow> ('a stream_state_scheme, runtime_error, unit) op" where
  "host_write b h vs s =
     (let n = word_of_nat (length vs) in
      if hb_progress h + n > hb_length h then (Inl WritePastCapacity, s)
      else (Inr (), upd_host b (\<lambda>h. h\<lparr>hb_vals := hb_vals h @ vs, hb_progress := hb_progress h + n\<rparr>) s))"

subsection \<open>The buffer interface\<close>

primrec buffer_length :: "copyBuffer \<Rightarrow> u32" where
  "buffer_length (GuestBuffer g) = gb_length g"
| "buffer_length (HostBuffer h) = hb_length h"

primrec buffer_progressed :: "copyBuffer \<Rightarrow> u32" where
  "buffer_progressed (GuestBuffer g) = gb_progress g"
| "buffer_progressed (HostBuffer h) = hb_progress h"

definition progressed :: "ref \<Rightarrow> 'a stream_state_scheme \<Rightarrow> u32" where
  "progressed b s = buffer_progressed (buffers s b)"

definition remain :: "ref \<Rightarrow> 'a stream_state_scheme \<Rightarrow> u32" where
  "remain b s = buffer_length (buffers s b) - buffer_progressed (buffers s b)"

definition isZeroLength :: "ref \<Rightarrow> 'a stream_state_scheme \<Rightarrow> bool" where
  "isZeroLength b s \<longleftrightarrow> buffer_length (buffers s b) = 0"

definition buffer_read :: "'a stream_state_scheme stream_env \<Rightarrow> ref \<Rightarrow> u32 \<Rightarrow> ('a stream_state_scheme, runtime_error, val list) op" where
  "buffer_read env b n s =
     (case buffers s b of GuestBuffer g \<Rightarrow> guest_read env b g n s | HostBuffer h \<Rightarrow> host_read b h n s)"

definition buffer_write :: "'a stream_state_scheme stream_env \<Rightarrow> ref \<Rightarrow> val list \<Rightarrow> ('a stream_state_scheme, runtime_error, unit) op" where
  "buffer_write env b vs s =
     (case buffers s b of GuestBuffer g \<Rightarrow> guest_write env b g vs s | HostBuffer h \<Rightarrow> host_write b h vs s)"

subsection \<open>Copying\<close>

text \<open>\<open>copy(dst[dp:dp+nb], src[sp:sp+nb])\<close> after the bounds checks.\<close>

definition copy_bytes :: "mod_id option \<Rightarrow> u32 \<Rightarrow> mod_id option \<Rightarrow> u32 \<Rightarrow> u32 \<Rightarrow> ('a stream_state_scheme, runtime_error, unit) op" where
  "copy_bytes dm dp sm sp nb s =
     (case (memoryBytesOf dm s, memoryBytesOf sm s) of
        (Some dst, Some src) \<Rightarrow>
          if unat dp + unat nb > length dst \<or> unat sp + unat nb > length src then (Inl BufferBounds, s)
          else (case slice_at src (unat sp) (unat sp + unat nb) of
              Inl e \<Rightarrow> (Inl (AbiError e), s)
            | Inr bs \<Rightarrow> in_module dm (write_bytes (unat dp) bs) s)
      | _ \<Rightarrow> (Inl NoMemory, s))"

definition copyElementsMemmove :: "ref \<Rightarrow> guestBuffer \<Rightarrow> ref \<Rightarrow> guestBuffer \<Rightarrow> u32 \<Rightarrow> ('a stream_state_scheme, runtime_error, unit) op" where
  "copyElementsMemmove db dst sb src n =
     (if n = 0 then sret ()
      else
        (let nb = n * gb_elemSz dst;
             step = (\<lambda>g. g\<lparr>gb_ptr := gb_ptr g + nb, gb_progress := gb_progress g + n\<rparr>)
         in sbind (if nb > 0 then copy_bytes (memMod dst) (gb_ptr dst) (memMod src) (gb_ptr src) nb else sret ()) (\<lambda>_.
              modify (\<lambda>s. upd_guest sb step (upd_guest db step s)))))"

definition copy_general :: "'a stream_state_scheme stream_env \<Rightarrow> ref \<Rightarrow> ref \<Rightarrow> u32 \<Rightarrow> ('a stream_state_scheme, runtime_error, unit) op" where
  "copy_general env dst src n = sbind (buffer_read env src n) (buffer_write env dst)"

definition copyElements :: "'a stream_state_scheme stream_env \<Rightarrow> bool \<Rightarrow> ref \<Rightarrow> ref \<Rightarrow> u32 \<Rightarrow> ('a stream_state_scheme, runtime_error, unit) op" where
  "copyElements env numeric dst src n s =
     (case (numeric, buffers s dst, buffers s src) of
        (True, GuestBuffer d, GuestBuffer g) \<Rightarrow> copyElementsMemmove dst d src g n s
      | _ \<Rightarrow> copy_general env dst src n s)"

definition packCopyResult :: "copyResult \<Rightarrow> u32 \<Rightarrow> u32" where
  "packCopyResult r progress = copy_number r OR push_bit 4 progress"

definition noneOrNumberType :: "type_desc option \<Rightarrow> bool" where
  "noneOrNumberType t =
     (case t of None \<Rightarrow> True
      | Some (PrimitiveDesc p) \<Rightarrow>
          p \<in> {''u8'', ''u16'', ''u32'', ''u64'', ''s8'', ''s16'', ''s32'', ''s64'', ''f32'', ''f64''}
      | _ \<Rightarrow> False)"

definition copyNotIdleTrapText :: "bool \<Rightarrow> endSide \<Rightarrow> copyState \<Rightarrow> string" where
  "copyNotIdleTrapText isFuture side st =
     (if st \<noteq> copyDone then ''cannot have concurrent operations active on a future/stream''
      else if isFuture \<and> side = sideWritable then ''cannot write to future after previous write succeeded or readable end dropped''
      else if isFuture then ''cannot read from future after previous read succeeded''
      else if side = sideWritable then ''cannot write to stream after being notified that the readable end dropped''
      else ''cannot read from stream after being notified that the writable end dropped'')"

definition liftNotIdleTrapText :: "bool \<Rightarrow> copyState \<Rightarrow> string" where
  "liftNotIdleTrapText isFuture st =
     (if st \<noteq> copyDone then ''cannot have concurrent operations active on a future/stream''
      else if isFuture then ''cannot lift future after previous read succeeded''
      else ''cannot lift stream after being notified that the writable end dropped'')"

subsection \<open>The rendezvous of a stream\<close>

definition call_copy :: "'s stream_env \<Rightarrow> callback option \<Rightarrow> ref \<Rightarrow> ('s, runtime_error, unit) op" where
  "call_copy env oc p = (case oc of None \<Rightarrow> sfail (TablePanic ''nil func'') | Some c \<Rightarrow> on_copy env c p)"

definition call_done :: "'s stream_env \<Rightarrow> callback option \<Rightarrow> copyResult \<Rightarrow> ('s, runtime_error, unit) op" where
  "call_done env ocd r = (case ocd of None \<Rightarrow> sfail (TablePanic ''nil func'') | Some c \<Rightarrow> on_copy_done env c r)"

definition ss_setPending ::
    "ref \<Rightarrow> inst_id option \<Rightarrow> ref option \<Rightarrow> callback option \<Rightarrow> callback option \<Rightarrow> 'a stream_state_scheme \<Rightarrow> 'a stream_state_scheme" where
  "ss_setPending p inst b oc ocd =
     upd_stream p (\<lambda>x. x\<lparr>ss_pendingInst := inst, ss_pendingBuffer := b, ss_pendingOnCopy := oc, ss_pendingOnCopyDone := ocd\<rparr>)"

definition ss_resetPending :: "ref \<Rightarrow> 'a stream_state_scheme \<Rightarrow> 'a stream_state_scheme" where
  "ss_resetPending p = ss_setPending p None None None None"

definition ss_resetAndNotifyPending ::
    "'a stream_state_scheme stream_env \<Rightarrow> ref \<Rightarrow> copyResult \<Rightarrow> ('a stream_state_scheme, runtime_error, unit) op" where
  "ss_resetAndNotifyPending env p r s =
     (let ocd = ss_pendingOnCopyDone (streams s p) in call_done env ocd r (ss_resetPending p s))"

definition ss_cancel :: "'a stream_state_scheme stream_env \<Rightarrow> ref \<Rightarrow> ('a stream_state_scheme, runtime_error, unit) op" where
  "ss_cancel env p = ss_resetAndNotifyPending env p copyCancelled"

definition ss_drop :: "'a stream_state_scheme stream_env \<Rightarrow> ref \<Rightarrow> ('a stream_state_scheme, runtime_error, unit) op" where
  "ss_drop env p s =
     (if ss_dropped (streams s p) then (Inr (), s)
      else let s1 = upd_stream p (\<lambda>x. x\<lparr>ss_dropped := True\<rparr>) s
        in if ss_pendingBuffer (streams s p) \<noteq> None then ss_resetAndNotifyPending env p copyDropped s1 else (Inr (), s1))"

text \<open>The restriction to numeric elements when both ends are in one instance.\<close>

definition intra_component :: "inst_id option \<Rightarrow> inst_id option \<Rightarrow> bool \<Rightarrow> bool" where
  "intra_component inst pending numeric \<longleftrightarrow> inst \<noteq> None \<and> inst = pending \<and> \<not> numeric"

definition ss_write ::
    "'a stream_state_scheme stream_env \<Rightarrow> ref \<Rightarrow> inst_id option \<Rightarrow> ref \<Rightarrow> callback \<Rightarrow> callback \<Rightarrow>
     ('a stream_state_scheme, runtime_error, unit) op" where
  "ss_write env p inst src onCopy onCopyDone s =
     (let x = streams s p in
      if ss_dropped x then on_copy_done env onCopyDone copyDropped s
      else case ss_pendingBuffer x of
        None \<Rightarrow> (Inr (), ss_setPending p inst (Some src) (Some onCopy) (Some onCopyDone) s)
      | Some dst \<Rightarrow>
          if intra_component inst (ss_pendingInst x) (ss_numeric x) then (Inl IntraComponent, s)
          else if remain dst s > 0 then
            sbind (if remain src s > 0 then
                     sbind (copyElements env (ss_numeric x) dst src (min (remain src s) (remain dst s))) (\<lambda>_ s'.
                       call_copy env (ss_pendingOnCopy (streams s' p)) p s')
                   else sret ())
              (\<lambda>_. on_copy_done env onCopyDone copyCompleted) s
          else if isZeroLength src s \<and> isZeroLength dst s then on_copy_done env onCopyDone copyCompleted s
          else
            sbind (ss_resetAndNotifyPending env p copyCompleted)
              (\<lambda>_. modify (ss_setPending p inst (Some src) (Some onCopy) (Some onCopyDone))) s)"

definition ss_read ::
    "'a stream_state_scheme stream_env \<Rightarrow> ref \<Rightarrow> inst_id option \<Rightarrow> ref \<Rightarrow> callback \<Rightarrow> callback \<Rightarrow>
     ('a stream_state_scheme, runtime_error, unit) op" where
  "ss_read env p inst dst onCopy onCopyDone s =
     (let x = streams s p in
      if ss_dropped x then on_copy_done env onCopyDone copyDropped s
      else case ss_pendingBuffer x of
        None \<Rightarrow> (Inr (), ss_setPending p inst (Some dst) (Some onCopy) (Some onCopyDone) s)
      | Some src \<Rightarrow>
          if intra_component inst (ss_pendingInst x) (ss_numeric x) then (Inl IntraComponent, s)
          else if remain src s > 0 then
            sbind (if remain dst s > 0 then
                     sbind (copyElements env (ss_numeric x) dst src (min (remain dst s) (remain src s))) (\<lambda>_ s'.
                       call_copy env (ss_pendingOnCopy (streams s' p)) p s')
                   else sret ())
              (\<lambda>_. on_copy_done env onCopyDone copyCompleted) s
          else
            sbind (ss_resetAndNotifyPending env p copyCompleted)
              (\<lambda>_. modify (ss_setPending p inst (Some dst) (Some onCopy) (Some onCopyDone))) s)"

subsection \<open>The rendezvous of a future\<close>

definition sf_setPending ::
    "ref \<Rightarrow> inst_id option \<Rightarrow> ref option \<Rightarrow> callback option \<Rightarrow> 'a stream_state_scheme \<Rightarrow> 'a stream_state_scheme" where
  "sf_setPending p inst b ocd =
     upd_future p (\<lambda>x. x\<lparr>sf_pendingInst := inst, sf_pendingBuffer := b, sf_pendingOnCopyDone := ocd\<rparr>)"

definition sf_resetPending :: "ref \<Rightarrow> 'a stream_state_scheme \<Rightarrow> 'a stream_state_scheme" where
  "sf_resetPending p = sf_setPending p None None None"

definition sf_resetAndNotifyPending ::
    "'a stream_state_scheme stream_env \<Rightarrow> ref \<Rightarrow> copyResult \<Rightarrow> ('a stream_state_scheme, runtime_error, unit) op" where
  "sf_resetAndNotifyPending env p r s =
     (let ocd = sf_pendingOnCopyDone (futures s p) in call_done env ocd r (sf_resetPending p s))"

definition sf_cancel :: "'a stream_state_scheme stream_env \<Rightarrow> ref \<Rightarrow> ('a stream_state_scheme, runtime_error, unit) op" where
  "sf_cancel env p = sf_resetAndNotifyPending env p copyCancelled"

definition sf_read ::
    "'a stream_state_scheme stream_env \<Rightarrow> ref \<Rightarrow> inst_id option \<Rightarrow> ref \<Rightarrow> callback \<Rightarrow> ('a stream_state_scheme, runtime_error, unit) op" where
  "sf_read env p inst dst onCopyDone s =
     (let x = futures s p in
      if sf_dropped x then (Inl (TablePanic ''BUG: sharedFuture.read on a dropped future''), s)
      else case sf_pendingBuffer x of
        None \<Rightarrow> (Inr (), sf_setPending p inst (Some dst) (Some onCopyDone) s)
      | Some src \<Rightarrow>
          if intra_component inst (sf_pendingInst x) (sf_numeric x) then (Inl IntraComponent, s)
          else sbind (copyElements env (sf_numeric x) dst src 1) (\<lambda>_.
               sbind (sf_resetAndNotifyPending env p copyCompleted) (\<lambda>_. on_copy_done env onCopyDone copyCompleted)) s)"

definition sf_write ::
    "'a stream_state_scheme stream_env \<Rightarrow> ref \<Rightarrow> inst_id option \<Rightarrow> ref \<Rightarrow> callback \<Rightarrow> ('a stream_state_scheme, runtime_error, unit) op" where
  "sf_write env p inst src onCopyDone s =
     (let x = futures s p in
      if sf_dropped x then on_copy_done env onCopyDone copyDropped s
      else case sf_pendingBuffer x of
        None \<Rightarrow> (Inr (), sf_setPending p inst (Some src) (Some onCopyDone) s)
      | Some dst \<Rightarrow>
          if intra_component inst (sf_pendingInst x) (sf_numeric x) then (Inl IntraComponent, s)
          else sbind (copyElements env (sf_numeric x) dst src 1) (\<lambda>_.
               sbind (sf_resetAndNotifyPending env p copyCompleted) (\<lambda>_. on_copy_done env onCopyDone copyCompleted)) s)"

definition sf_drop :: "'a stream_state_scheme stream_env \<Rightarrow> ref \<Rightarrow> ('a stream_state_scheme, runtime_error, unit) op" where
  "sf_drop env p s =
     (if sf_dropped (futures s p) then (Inr (), s)
      else let s1 = upd_future p (\<lambda>x. x\<lparr>sf_dropped := True\<rparr>) s
        in if sf_pendingBuffer (futures s p) \<noteq> None then sf_resetAndNotifyPending env p copyDropped s1 else (Inr (), s1))"

subsection \<open>Lifting an end\<close>

definition peekReadableStreamEnd ::
    "'a stream_state_scheme stream_env \<Rightarrow> inst_id option \<Rightarrow> type_desc option \<Rightarrow> u32 \<Rightarrow> ('a stream_state_scheme, runtime_error, ref) op" where
  "peekReadableStreamEnd env inst elem i s =
     (case getEntry i s of
        None \<Rightarrow> (Inl UnknownHandle, s)
      | Some (StreamEndEntry e) \<Rightarrow>
          (let x = streamEnds s e; sh = streams s (se_shared x) in
           if se_side x \<noteq> sideReadable then (Inl WrongEndSide, s)
           else if \<not> elemTypesCompatible env (ss_elemIn sh) (ss_elem sh) inst elem then (Inl ElementMismatch, s)
           else if se_state x \<noteq> copyIdle then (Inl (NotIdle (liftNotIdleTrapText False (se_state x))), s)
           else if inWaitableSet e s then (Inl InWaitableSet, s)
           else (Inr e, s))
      | Some _ \<Rightarrow> (Inl NotStreamEnd, s))"

definition takeReadableStreamEnd ::
    "'a stream_state_scheme stream_env \<Rightarrow> inst_id option \<Rightarrow> type_desc option \<Rightarrow> u32 \<Rightarrow> ('a stream_state_scheme, runtime_error, ref) op" where
  "takeReadableStreamEnd env inst elem i =
     sbind (peekReadableStreamEnd env inst elem i) (\<lambda>e.
     sbind (modify (snd \<circ> removeEntry i)) (\<lambda>_. getting (\<lambda>s. se_shared (streamEnds s e))))"

definition peekReadableFutureEnd ::
    "'a stream_state_scheme stream_env \<Rightarrow> inst_id option \<Rightarrow> type_desc option \<Rightarrow> u32 \<Rightarrow> ('a stream_state_scheme, runtime_error, ref) op" where
  "peekReadableFutureEnd env inst elem i s =
     (case getEntry i s of
        None \<Rightarrow> (Inl UnknownHandle, s)
      | Some (FutureEndEntry e) \<Rightarrow>
          (let x = futureEnds s e; sh = futures s (fe_shared x) in
           if fe_side x \<noteq> sideReadable then (Inl WrongEndSide, s)
           else if \<not> elemTypesCompatible env (sf_elemIn sh) (sf_elem sh) inst elem then (Inl ElementMismatch, s)
           else if fe_state x \<noteq> copyIdle then (Inl (NotIdle (liftNotIdleTrapText True (fe_state x))), s)
           else if inWaitableSet e s then (Inl InWaitableSet, s)
           else (Inr e, s))
      | Some _ \<Rightarrow> (Inl NotFutureEnd, s))"

definition takeReadableFutureEnd ::
    "'a stream_state_scheme stream_env \<Rightarrow> inst_id option \<Rightarrow> type_desc option \<Rightarrow> u32 \<Rightarrow> ('a stream_state_scheme, runtime_error, ref) op" where
  "takeReadableFutureEnd env inst elem i =
     sbind (peekReadableFutureEnd env inst elem i) (\<lambda>e.
     sbind (modify (snd \<circ> removeEntry i)) (\<lambda>_. getting (\<lambda>s. fe_shared (futureEnds s e))))"

end
