(* ===== verification/Frame.thy ===== *)
theory Frame
  imports Builtins
begin

text \<open>
  What the operations of the runtime and of the memory leave alone, as further rules of the locale \<open>frame_relation\<close>: storing a
  value keeps every relation of the guest's state that the guest's allocator keeps.
\<close>

context frame_relation
begin

lemma modify: "(\<And>s. R s (f s)) \<Longrightarrow> keeps R (modify f)"
  by (simp add: keeps_def modify_def)

lemma getting [keeping]: "keeps R (getting f)"
  by (simp add: keeps_def getting_def refl)

lemma require [keeping]: "keeps R (require b e)"
  by (simp add: keeps_def require_def refl)

lemma abi_result [keeping]: "keeps R (abi_result r)"
  by (auto simp: keeps_def abi_result_def refl split: sum.splits)

end

text \<open>The relation of memory states that relates the guests.\<close>

definition on_guest :: "('g \<Rightarrow> 'g \<Rightarrow> bool) \<Rightarrow> 'g mstate \<Rightarrow> 'g mstate \<Rightarrow> bool" where
  "on_guest R ms ms' \<longleftrightarrow> R (guest ms) (guest ms')"

definition realloc_keeps :: "('g \<Rightarrow> 'g \<Rightarrow> bool) \<Rightarrow> 'g realloc \<Rightarrow> bool" where
  "realloc_keeps R r \<longleftrightarrow> (\<forall>call a b c d. r = Some call \<longrightarrow> keeps (on_guest R) (call a b c d))"

locale guest_frame = frame_relation R for R :: "'g \<Rightarrow> 'g \<Rightarrow> bool"

sublocale guest_frame \<subseteq> mem: frame_relation "on_guest R"
  by unfold_locales (auto simp: on_guest_def refl intro: trans)

context guest_frame
begin

lemma write_bytes [keeping]: "keeps (on_guest R) (write_bytes p bs)"
  by (auto simp: keeps_def write_bytes_def on_guest_def refl split: sum.splits)

lemma checked_range_of [keeping]: "keeps (on_guest R) (checked_range_of p n)"
  by (simp add: keeps_def checked_range_of_def on_guest_def refl)

lemma storeInt [keeping]: "keeps (on_guest R) (storeInt p v n)"
  unfolding storeInt_def by (intro keeping) (auto simp: case_prod_beta intro!: keeping)

lemma store_pair [keeping]: "keeps (on_guest R) (store_pair p x)"
  unfolding store_pair_def store_u32_def case_prod_beta by (intro keeping)

lemma checked: "(\<And>m. keeps (on_guest R) (f m)) \<Longrightarrow> keeps (on_guest R) (\<lambda>s. f (lin_mem s) s)"
  by (auto simp: keeps_def)

lemma ret_state [keeping]: "keeps (on_guest R) (\<lambda>s. (r, s))"
  by (simp add: keeps_def mem.refl)

lemma case_result [keeping]: "(\<And>e. keeps (on_guest R) (f e)) \<Longrightarrow> (\<And>x. keeps (on_guest R) (g x)) \<Longrightarrow>
    keeps (on_guest R) (\<lambda>s. case r of Inl e \<Rightarrow> f e s | Inr x \<Rightarrow> g x s)"
  by (cases r) auto

lemma Grow [keeping]: "realloc_keeps R r \<Longrightarrow> keeps (on_guest R) (Grow r a b c n)"
  unfolding Grow_def realloc_keeps_def by (auto intro!: keeping split: option.split)

lemma alloc_copy [keeping]: "realloc_keeps R r \<Longrightarrow> keeps (on_guest R) (alloc_copy bs r)"
  unfolding alloc_copy_def Let_def case_prod_beta by (intro keeping checked) assumption+

lemma storePrimitive [keeping]: "realloc_keeps R r \<Longrightarrow> keeps (on_guest R) (storePrimitive p q v r)"
  unfolding storePrimitive_def storeString_def allocStoreString_def
  by (auto intro!: keeping split: val.split)

lemma store_elems [keeping]:
  "(\<And>p v. keeps (on_guest R) (st p v)) \<Longrightarrow> keeps (on_guest R) (store_elems st k vs p)"
  by (induction vs arbitrary: p) (auto intro!: keeping)

lemma allocStoreList [keeping]:
  assumes "\<And>p t v. keeps (on_guest R) (rec p t v)" "realloc_keeps R r"
  shows "keeps (on_guest R) (allocStoreList rec vs t rs r)"
  unfolding allocStoreList_def
proof (intro keeping assms(2))
  fix k al n q
  show "keeps (on_guest R) (\<lambda>s. if q mod al \<noteq> 0 then (Inl (NotAligned q al), s)
      else (case checkedRange (length (lin_mem s)) q n of Inl _ \<Rightarrow> (Inl (AllocatedOutOfBounds q n), s)
        | Inr _ \<Rightarrow> sbind (store_elems (\<lambda>p. rec p t) k vs q) (\<lambda>_. sret (q, length vs)) s))"
    using mem.sbind [OF store_elems [where st = "\<lambda>p. rec p t", OF assms(1)] mem.sret, of k vs q "\<lambda>_. (q, length vs)"]
    by (auto simp: keeps_def mem.refl split: sum.splits if_splits)
qed

lemma storeList [keeping]:
  assumes "\<And>p t v. keeps (on_guest R) (rec p t v)" "realloc_keeps R r"
  shows "keeps (on_guest R) (storeList rec p v t rs r)"
proof -
  have "keeps (on_guest R) (allocStoreAnyList rec v t rs r)"
    unfolding allocStoreAnyList_def allocStoreBytes_def
    by (cases "byteListValue v t") (simp_all add: alloc_copy assms mem.sbind mem.slift allocStoreList)
  then show ?thesis unfolding storeList_def by (intro mem.sbind store_pair)
qed

lemma store_members [keeping]:
  assumes "\<And>p t v. keeps (on_guest R) (rec p t v)"
  shows "keeps (on_guest R) (store_members rec rs refs q vs)"
  using assms by (induction refs arbitrary: q vs) (auto intro!: keeping)

lemma store_product [keeping]:
  assumes "\<And>p t v. keeps (on_guest R) (rec p t v)"
  shows "keeps (on_guest R) (store_product rec q v refs rs)"
  unfolding store_product_def by (intro keeping assms)

lemma store_arm [keeping]:
  assumes "\<And>p t v. keeps (on_guest R) (rec p t v)"
  shows "keeps (on_guest R) (store_arm rec q arm v rs)"
  unfolding store_arm_def by (intro keeping assms)

lemma storeVariant [keeping]:
  assumes "\<And>p t v. keeps (on_guest R) (rec p t v)"
  shows "keeps (on_guest R) (storeVariant rec al q v cs rs)"
  unfolding storeVariant_eq by (cases v; simp only: val.case; intro keeping assms)

lemma store_small [keeping]: "keeps (on_guest R) (storeFlags q v ls)" "keeps (on_guest R) (storeEnum q v ls)"
  unfolding storeFlags_def storeEnum_def by (intro keeping)+

lemma storeOption [keeping]:
  assumes "\<And>p t v. keeps (on_guest R) (rec p t v)"
  shows "keeps (on_guest R) (storeOption rec q v t rs)"
  unfolding storeOption_def Let_def by (intro keeping assms)

lemma storeResult [keeping]:
  assumes "\<And>p t v. keeps (on_guest R) (rec p t v)"
  shows "keeps (on_guest R) (storeResult rec q v okr errr rs)"
  unfolding storeResult_def by (cases v; simp only: val.case; intro keeping assms)

lemma storeValue: "realloc_keeps R r \<Longrightarrow> keeps (on_guest R) (storeValue fuel rs r p t v)"
proof (induction fuel arbitrary: p t v)
  case 0
  show ?case by (simp only: storeValue.simps(1) mem.sfail)
next
  case (Suc fuel)
  show ?case
  proof (cases t)
    case None
    then show ?thesis by (simp only: storeValue.simps(2) Let_def option.case mem.sfail)
  next
    case (Some d)
    note IH = Suc.IH [OF Suc.prems]
    show ?thesis unfolding Some storeValue.simps Let_def option.case storeRecord_def storeTuple_def
      by (cases d; simp only: type_desc.case; intro keeping IH Suc.prems)
  qed
qed

lemma Store: "realloc_keeps R r \<Longrightarrow> keeps (on_guest R) (Store fuel p t v rs r)"
  unfolding Store_def by (intro keeping storeValue)

end

end
