(* ===== verification/Stream_Copy.thy ===== *)
theory Stream_Copy
  imports Stream Frame
begin

text \<open>
  The copies of \<open>stream.go\<close>: the fast path for numeric elements agrees with the general one, a rendezvous moves the same
  number of elements on both sides, and a packed copy result is unambiguous.
\<close>

subsection \<open>Numeric elements in memory\<close>

definition memcpy_prims :: "string set" where
  "memcpy_prims = {''u8'', ''u16'', ''u32'', ''u64'', ''s16'', ''s32'', ''s64'', ''f32'', ''f64''}"

lemma le_bytes_le_nat: "le_bytes (length bs) (le_nat bs) = bs"
proof (induction bs)
  case (Cons b bs)
  have "word_of_nat (unat b + 256 * le_nat bs) = b"
    by (rule word_unat_eq_iff [THEN iffD2]) (use unsigned_less [of b, where 'a = nat] in \<open>simp only: unat_of_nat, simp\<close>)
  moreover have "(unat b + 256 * le_nat bs) div 256 = le_nat bs" using unsigned_less [of b, where 'a = nat] by simp
  ultimately show ?case using Cons by simp
qed simp

lemma le_bytes_slice:
  assumes "ptr + n \<le> length m"
  shows "slice_of m ptr n = le_bytes n (le_nat (slice_of m ptr n))"
  using le_bytes_le_nat [of "slice_of m ptr n"] assms by (simp add: length_slice_of)

lemma prim_layout:
  assumes "p \<in> memcpy_prims"
  shows "Alignment (Some (PrimitiveDesc p)) rs = Inr (prim_size p)" "Size (Some (PrimitiveDesc p)) rs = Inr (prim_size p)"
    "prim_size p \<in> {1, 2, 4, 8}"
proof -
  have ok: "alignmentPrimitive p = Inr (prim_size p)" "sizePrimitive p = Inr (prim_size p)" "prim_size p \<in> {1, 2, 4, 8}"
    using assms by (auto simp: memcpy_prims_def prim_size_def alignmentPrimitive_def sizePrimitive_def)
  have "validateLayoutType (Some (PrimitiveDesc p)) rs = Inr ()"
    by (simp add: validateLayoutType_def validateLayoutDesc.simps [of "Some (PrimitiveDesc p)"] maxLayoutTypeDepth_def)
  then show "Alignment (Some (PrimitiveDesc p)) rs = Inr (prim_size p)" "Size (Some (PrimitiveDesc p)) rs = Inr (prim_size p)"
    using ok by (simp_all add: Alignment_def Size_def layout_fuel_def layout_numeral_fuel)
  show "prim_size p \<in> {1, 2, 4, 8}" by (rule ok)
qed

lemma le_bytes_mod: "le_bytes n (x mod 256 ^ n) = le_bytes n x"
  using le_bytes_le_nat [of "le_bytes n x"] by (simp add: le_nat_le_bytes)

lemma le_bytes_cong: "x mod 256 ^ n = y mod 256 ^ n \<Longrightarrow> le_bytes n x = le_bytes n y"
  by (metis le_bytes_mod)

lemma storeInt_exact:
  assumes "n \<in> {1, 2, 4, 8}" "q + n \<le> length (lin_mem s)" "integer_bits v = Inr w" "unat w mod 256 ^ n = x mod 256 ^ n"
  shows "storeInt q v n s = (Inr (), s\<lparr>lin_mem := write_at q (le_bytes n x) (lin_mem s)\<rparr>)"
proof -
  have "fst (storeInt q v n s) = Inr ()"
    using assms(1-3) by (auto simp: storeInt_def checked_range_of_def checkedRange_def write_bytes_def sbind_def)
  then have st: "storeInt q v n s = (Inr (), snd (storeInt q v n s))" by (simp add: prod_eq_iff)
  have "le_bytes n (integer_nat v) = le_bytes n x"
    using assms(3,4) by (intro le_bytes_cong) (simp add: integer_nat_def)
  with storeInt_ok(1) [OF st] st show ?thesis by simp
qed

text \<open>The value a numeric primitive with the bytes \<open>x\<close> loads as.\<close>

definition prim_val :: "string \<Rightarrow> nat \<Rightarrow> val" where
  "prim_val p x =
     (if p = ''u8'' then VU32 (ucast (word_of_nat x :: byte)) else if p = ''u16'' then VU32 (ucast (word_of_nat x :: 16 word))
      else if p = ''u32'' then VU32 (word_of_nat x) else if p = ''u64'' then VU64 (word_of_nat x)
      else if p = ''s16'' then VI32 (scast (word_of_nat x :: 16 word)) else if p = ''s32'' then VI32 (word_of_nat x)
      else if p = ''s64'' then VI64 (word_of_nat x) else if p = ''f32'' then VF32 (word_of_nat x) else VF64 (word_of_nat x))"

lemma memcpy_prims_cases:
  assumes "p \<in> memcpy_prims"
  obtains "p = ''u8''" | "p = ''u16''" | "p = ''u32''" | "p = ''u64''" | "p = ''s16''" | "p = ''s32''" | "p = ''s64''"
    | "p = ''f32''" | "p = ''f64''"
  using assms unfolding memcpy_prims_def by (elim insertE emptyE) (erule that)+

lemma load_prim_val:
  assumes "p \<in> memcpy_prims" "n = prim_size p" "ptr + n \<le> length m" "slice_of m ptr n = le_bytes n x"
  shows "loadPrimitive m ptr p = Inr (prim_val p x)"
  using assms(1)
proof (rule memcpy_prims_cases)
  note ld = loadInt_bytes [OF assms(3,4)]
  note simps = prim_val_def assert_u32_def assert_u64_def
  show ?thesis if "p = ''u8''" using ld(1) assms(2) by (simp add: that prim_size_def simps)
  show ?thesis if "p = ''u16''" using ld(3) assms(2) by (simp add: that prim_size_def simps)
  show ?thesis if "p = ''u32''" using ld(5) assms(2) by (simp add: that prim_size_def simps)
  show ?thesis if "p = ''u64''" using ld(7) assms(2) by (simp add: that prim_size_def simps)
  show ?thesis if "p = ''s16''" using ld(4) assms(2) by (simp add: that prim_size_def simps)
  show ?thesis if "p = ''s32''" using ld(6) assms(2) by (simp add: that prim_size_def simps)
  show ?thesis if "p = ''s64''" using ld(8) assms(2) by (simp add: that prim_size_def simps)
  show ?thesis if "p = ''f32''" using ld(5) assms(2) by (simp add: that prim_size_def simps)
  show ?thesis if "p = ''f64''" using ld(7) assms(2) by (simp add: that prim_size_def simps)
qed

lemma narrow_mod:
  "unat (ucast (word_of_nat x :: byte) :: u64) mod 256 = x mod 256"
  "unat (ucast (word_of_nat x :: 16 word) :: u64) mod 65536 = x mod 65536"
  "unat (ucast (word_of_nat x :: 32 word) :: u64) mod 4294967296 = x mod 4294967296"
  "unat (ucast (scast (word_of_nat x :: 16 word) :: 32 word) :: u64) mod 65536 = x mod 65536"
  "unat (word_of_nat x :: u64) mod 18446744073709551616 = x mod 18446744073709551616"
  "ucast (ucast (w8 :: byte) :: u32) = (ucast w8 :: u64)" "ucast (ucast (w16 :: 16 word) :: u32) = (ucast w16 :: u64)"
proof -
  show "unat (ucast (word_of_nat x :: byte) :: u64) mod 256 = x mod 256"
    "unat (ucast (word_of_nat x :: 16 word) :: u64) mod 65536 = x mod 65536"
    "unat (ucast (word_of_nat x :: 32 word) :: u64) mod 4294967296 = x mod 4294967296"
    "unat (word_of_nat x :: u64) mod 18446744073709551616 = x mod 18446744073709551616"
    by (simp_all add: unsigned_ucast_eq unat_of_nat take_bit_eq_mod)
  have "take_bit 16 (ucast (scast w :: 32 word) :: u64) = ucast w" for w :: "16 word"
  proof (rule bit_word_eqI)
    fix n
    show "bit (take_bit 16 (ucast (scast w :: 32 word) :: u64)) n \<longleftrightarrow> bit (ucast w :: u64) n"
      using bit_imp_le_length [of w n] by (cases "n = 15") (auto simp: bit_simps min_def)
  qed
  moreover have "unat y mod 65536 = unat (take_bit 16 y)" for y :: u64
    using unsigned_take_bit_eq [where 'a = nat and 'b = 64, of 16 y] by (simp add: take_bit_eq_mod [where 'a = nat])
  ultimately show "unat (ucast (scast (word_of_nat x :: 16 word) :: 32 word) :: u64) mod 65536 = x mod 65536"
    by (simp only:) (simp add: unsigned_ucast_eq unat_of_nat take_bit_eq_mod)
  show "ucast (ucast w8 :: u32) = (ucast w8 :: u64)" "ucast (ucast w16 :: u32) = (ucast w16 :: u64)"
    by (rule bit_word_eqI; auto simp: bit_simps dest: bit_imp_le_length)+
qed

definition raw_bits :: "val \<Rightarrow> val" where
  "raw_bits v = (case v of VI32 w \<Rightarrow> VU32 w | VI64 w \<Rightarrow> VU64 w | VF32 w \<Rightarrow> VU32 w | VF64 w \<Rightarrow> VU64 w | _ \<Rightarrow> v)"

lemma raw_prim_val:
  assumes "p \<in> memcpy_prims"
  shows "\<exists>w. integer_bits (raw_bits (prim_val p x)) = Inr w \<and> unat w mod 256 ^ prim_size p = x mod 256 ^ prim_size p"
  using assms by (rule memcpy_prims_cases) (simp_all add: prim_val_def prim_size_def raw_bits_def integer_bits_def narrow_mod)

lemma store_prim_val:
  assumes "p \<in> memcpy_prims" "q + prim_size p \<le> length (lin_mem s)"
  shows "storePrimitive q p (prim_val p x) r s = (Inr (), s\<lparr>lin_mem := write_at q (le_bytes (prim_size p) x) (lin_mem s)\<rparr>)"
proof -
  have "storePrimitive q p (prim_val p x) r = storeInt q (raw_bits (prim_val p x)) (prim_size p)"
    using assms(1) by (rule memcpy_prims_cases) (simp_all add: prim_val_def prim_size_def raw_bits_def)
  moreover have "prim_size p \<in> {1, 2, 4, 8}" using prim_layout(3) [OF assms(1)] .
  ultimately show ?thesis using storeInt_exact raw_prim_val [OF assms(1), of x] assms(2) by metis
qed

lemma Load_prim:
  assumes "p \<in> memcpy_prims" "ptr mod prim_size p = 0" "ptr + prim_size p \<le> length m"
  shows "Load (Suc f) m ptr (Some (PrimitiveDesc p)) rs = Inr (prim_val p (le_nat (slice_of m ptr (prim_size p))))"
  using assms load_prim_val [OF assms(1) refl assms(3) le_bytes_slice [OF assms(3)]] prim_layout [OF assms(1)]
  by (simp add: Load_def checkedRange_def)

lemma Store_prim:
  assumes "p \<in> memcpy_prims" "q mod prim_size p = 0" "q + prim_size p \<le> length (lin_mem s)"
  shows "Store (Suc f) q (Some (PrimitiveDesc p)) (prim_val p x) rs r s =
    (Inr (), s\<lparr>lin_mem := write_at q (le_bytes (prim_size p) x) (lin_mem s)\<rparr>)"
  using assms store_prim_val [OF assms(1,3)] prim_layout [OF assms(1)]
  by (simp add: Store_def checked_range_of_def checkedRange_def sbind_def)

subsection \<open>Memories of modules\<close>

definition put_mem :: "mod_id \<Rightarrow> byte list \<Rightarrow> 'a stream_state_scheme \<Rightarrow> 'a stream_state_scheme" where
  "put_mem i m s = (if i = this_mod s then s\<lparr>memory := Some m\<rparr> else s\<lparr>other_mems := (other_mems s)(i := Some m)\<rparr>)"

lemma in_module_write:
  assumes "memoryBytesOf (Some i) s = Some mem" "\<And>ms. lin_mem ms = mem \<Longrightarrow> f ms = (Inr r, ms\<lparr>lin_mem := mem'\<rparr>)"
  shows "in_module (Some i) f s = (Inr r, put_mem i mem' s)"
  using assms(1) assms(2) by (auto simp: in_module_def memoryBytesOf_def put_mem_def on_memory_def)

lemma put_mem_simps [simp]:
  "buffers (put_mem i m s) = buffers s" "this_mod (put_mem i m s) = this_mod s"
  "memoryBytesOf (Some i) (put_mem i m s) = Some m" "put_mem i m' (put_mem i m s) = put_mem i m' s"
  by (simp_all add: put_mem_def memoryBytesOf_def)

lemma put_mem_same: "memoryBytesOf (Some i) s = Some m \<Longrightarrow> put_mem i m s = s"
  by (auto simp: put_mem_def memoryBytesOf_def fun_upd_idem split: if_split_asm)

lemma upd_guest_simps [simp]:
  "memoryBytesOf m (upd_guest b f s) = memoryBytesOf m s" "this_mod (upd_guest b f s) = this_mod s"
  "put_mem i m' (upd_guest b f s) = upd_guest b f (put_mem i m' s)"
  "upd_guest b f (upd_guest b g s) = upd_guest b (f \<circ> g) s"
  "b \<noteq> c \<Longrightarrow> buffers (upd_guest b f s) c = buffers s c"
  "buffers s b = GuestBuffer x \<Longrightarrow> buffers (upd_guest b f s) b = GuestBuffer (f x)"
  by (auto simp: upd_guest_def memoryBytesOf_def put_mem_def split: copyBuffer.split option.split)

lemma upd_guest_commute: "b \<noteq> c \<Longrightarrow> upd_guest b f (upd_guest c g s) = upd_guest c g (upd_guest b f s)"
  by (cases "buffers s b"; cases "buffers s c") (simp_all add: upd_guest_def fun_upd_twist)

lemma upd_guest_id: "(\<And>g. f g = g) \<Longrightarrow> upd_guest b f s = s"
  by (auto simp: upd_guest_def fun_upd_idem split: copyBuffer.split)

lemma write_at_append:
  assumes "a + length xs + length ys \<le> length m"
  shows "write_at (a + length xs) ys (write_at a xs m) = write_at a (xs @ ys) m"
  using assms by (cases xs) (auto simp: write_at_def min_def add.commute add.left_commute)

lemma slice_of_append: "slice_of m a k @ slice_of m (a + k) n = slice_of m a (k + n)"
  by (simp add: slice_of_def take_add drop_drop add.commute)

subsection \<open>The fast path\<close>

lemma empty_slice [simp]: "write_at a [] m = m" "slice_of m a 0 = []"
  by (simp_all add: write_at_def slice_of_def)

definition prim_vals :: "string \<Rightarrow> byte list \<Rightarrow> nat \<Rightarrow> nat \<Rightarrow> val list" where
  "prim_vals p m a n = map (\<lambda>i. prim_val p (le_nat (slice_of m (a + i * prim_size p) (prim_size p)))) [0..<n]"

lemma prim_vals_0 [simp]: "prim_vals p m a 0 = []"
  by (simp add: prim_vals_def)

lemma prim_vals_Suc:
  "prim_vals p m a (Suc n) = prim_val p (le_nat (slice_of m a (prim_size p))) # prim_vals p m (a + prim_size p) n"
  by (simp add: prim_vals_def upt_conv_Cons map_Suc_upt [symmetric] add.assoc del: upt_Suc)

lemma length_prim_vals [simp]: "length (prim_vals p m a n) = n"
  by (simp add: prim_vals_def)

text \<open>A guest buffer of numeric elements that has \<open>n\<close> elements of room in its memory \<open>m\<close>.\<close>

definition numeric_buffer :: "string \<Rightarrow> guestBuffer \<Rightarrow> nat \<Rightarrow> byte list \<Rightarrow> bool" where
  "numeric_buffer p g n m \<longleftrightarrow> gb_elem g = Some (PrimitiveDesc p) \<and> ownElem g = None \<and> unat (gb_elemSz g) = prim_size p \<and>
     unat (gb_ptr g) mod prim_size p = 0 \<and> unat (gb_ptr g) + n * prim_size p \<le> length m \<and> length m \<le> 2 ^ 32"

abbreviation step_ptr :: "nat \<Rightarrow> guestBuffer \<Rightarrow> guestBuffer" where
  "step_ptr n g \<equiv> g\<lparr>gb_ptr := gb_ptr g + word_of_nat n * gb_elemSz g\<rparr>"

lemma numeric_buffer_step:
  assumes "numeric_buffer p g (Suc n) m" "0 < n"
  shows "numeric_buffer p (step_ptr 1 g) n m" "unat (gb_ptr g + gb_elemSz g) = unat (gb_ptr g) + prim_size p"
proof -
  have "unat (gb_ptr g) + prim_size p < 2 ^ 32 \<or> prim_size p = 0"
    using assms unfolding numeric_buffer_def by (cases n; cases "prim_size p") auto
  then show *: "unat (gb_ptr g + gb_elemSz g) = unat (gb_ptr g) + prim_size p"
    using assms(1) unsigned_less [of "gb_ptr g", where 'a = nat] by (auto simp: numeric_buffer_def unat_word_ariths)
  show "numeric_buffer p (step_ptr 1 g) n m" using assms(1) * by (simp add: numeric_buffer_def)
qed

lemma read_elements_numeric:
  assumes "p \<in> memcpy_prims" "0 < abi_fuel env" "numeric_buffer p g n m"
  shows "read_elements env b g m n s = (Inr (prim_vals p m (unat (gb_ptr g)) n), upd_guest b (step_ptr n) s)"
  using assms(3)
proof (induction n arbitrary: g s)
  case 0
  show ?case by (simp add: upd_guest_id)
next
  case (Suc n)
  obtain f where f: "abi_fuel env = Suc f" using assms(2) by (cases "abi_fuel env") auto
  have ld: "Load (abi_fuel env) m (unat (gb_ptr g)) (gb_elem g) (gb_resolve g) =
      Inr (prim_val p (le_nat (slice_of m (unat (gb_ptr g)) (prim_size p))))"
    using Suc.prems Load_prim [OF assms(1), of "unat (gb_ptr g)" m] by (simp add: f numeric_buffer_def)
  have own: "ownElem g = None" using Suc.prems by (simp add: numeric_buffer_def)
  have step: "step_ptr n \<circ> (\<lambda>g. g\<lparr>gb_ptr := gb_ptr g + gb_elemSz g\<rparr>) = step_ptr (Suc n)"
    by (simp add: fun_eq_iff algebra_simps)
  have IH: "read_elements env b (step_ptr 1 g) m n s' = (Inr (prim_vals p m (unat (gb_ptr g) + prim_size p) n), upd_guest b (step_ptr n) s')" for s'
  proof (cases "n = 0")
    case True
    then show ?thesis by (simp add: upd_guest_id)
  next
    case False
    then show ?thesis using Suc.IH [of "step_ptr 1 g" s'] numeric_buffer_step [OF Suc.prems] by simp
  qed
  then show ?case
    using own by (simp add: read_element_def abi_result_def ld take_rep_def modify_def sbind_def prim_vals_Suc step)
qed

lemma write_elements_numeric:
  assumes "p \<in> memcpy_prims" "0 < abi_fuel env" "numeric_buffer p g n m" "memMod g = Some i" "memoryBytesOf (Some i) s = Some m"
    "a + n * prim_size p \<le> length src"
  shows "write_elements env b g (prim_vals p src a n) s =
    (Inr (), upd_guest b (step_ptr n) (put_mem i (write_at (unat (gb_ptr g)) (slice_of src a (n * prim_size p)) m) s))"
  using assms(3-6)
proof (induction n arbitrary: g s m a)
  case 0
  then show ?case by (simp add: upd_guest_id put_mem_same comp_def)
next
  case (Suc n)
  let ?q = "unat (gb_ptr g)" and ?k = "prim_size p"
  let ?bs = "slice_of src a ?k"
  let ?m = "write_at ?q ?bs m"
  obtain f where f: "abi_fuel env = Suc f" using assms(2) by (cases "abi_fuel env") auto
  have bs: "length ?bs = ?k" "le_bytes ?k (le_nat ?bs) = ?bs"
    using Suc.prems(4) le_bytes_slice [of a ?k src] by (simp_all add: length_slice_of)
  have own: "ownElem g = None" and fit: "?q + ?k \<le> length m" using Suc.prems(1) by (auto simp: numeric_buffer_def)
  have st: "in_module (memMod g) (Store (abi_fuel env) ?q (gb_elem g) (prim_val p (le_nat ?bs)) (gb_resolve g) (buffer_realloc env g)) s
      = (Inr (), put_mem i ?m s)"
    unfolding Suc.prems(2) using Suc.prems(1) fit
    by (intro in_module_write [OF Suc.prems(3)]) (simp add: f numeric_buffer_def Store_prim [OF assms(1)] bs(2))
  have step: "step_ptr n \<circ> (\<lambda>g. g\<lparr>gb_ptr := gb_ptr g + gb_elemSz g\<rparr>) = step_ptr (Suc n)"
    by (simp add: fun_eq_iff algebra_simps)
  let ?s = "upd_guest b (step_ptr 1) (put_mem i ?m s)"
  have IH: "write_elements env b (step_ptr 1 g) (prim_vals p src (a + ?k) n) ?s =
    (Inr (), upd_guest b (step_ptr n) (put_mem i (write_at (?q + ?k) (slice_of src (a + ?k) (n * ?k)) ?m) ?s))"
  proof (cases "n = 0")
    case True
    then show ?thesis by (simp add: upd_guest_id put_mem_same comp_def)
  next
    case False
    have len: "length ?m = length m" using fit bs(1) by simp
    have "numeric_buffer p (step_ptr 1 g) n ?m" using numeric_buffer_step(1) [OF Suc.prems(1)] False len by (simp add: numeric_buffer_def)
    then show ?thesis using Suc.IH [of "step_ptr 1 g" ?m ?s "a + ?k"] numeric_buffer_step(2) [OF Suc.prems(1)] Suc.prems(2-4) False by simp
  qed
  have "write_at (?q + ?k) (slice_of src (a + ?k) (n * ?k)) ?m = write_at ?q (slice_of src a (Suc n * ?k)) m"
    using write_at_append [of ?q ?bs "slice_of src (a + ?k) (n * ?k)" m] bs(1) Suc.prems(1,4)
    by (simp add: slice_of_append length_slice_of numeric_buffer_def add.assoc)
  then show ?case
    using own IH st by (simp add: write_element_def mint_rep_def modify_def sbind_def prim_vals_Suc step)
qed

text \<open>What the builtins guarantee of the two buffers of a copy of \<open>n\<close> elements.\<close>

definition copy_ready :: "string \<Rightarrow> ref \<Rightarrow> nat \<Rightarrow> 'a stream_state_scheme \<Rightarrow> bool" where
  "copy_ready p b n s \<longleftrightarrow>
     (case buffers s b of
        GuestBuffer g \<Rightarrow> (case memoryBytesOf (memMod g) s of Some m \<Rightarrow> numeric_buffer p g n m | None \<Rightarrow> False)
      | HostBuffer _ \<Rightarrow> False)"

lemma copy_general_numeric:
  assumes "p \<in> memcpy_prims" "0 < abi_fuel env" "db \<noteq> sb"
    and d: "buffers s db = GuestBuffer d" "memMod d = Some i" "memoryBytesOf (Some i) s = Some dm" "numeric_buffer p d (unat n) dm"
    and g: "buffers s sb = GuestBuffer g" "memoryBytesOf (memMod g) s = Some sm" "numeric_buffer p g (unat n) sm"
  shows "copy_general env db sb n s = (Inr (), upd_guest db (\<lambda>g. g\<lparr>gb_ptr := gb_ptr g + n * gb_elemSz g, gb_progress := gb_progress g + n\<rparr>)
    (upd_guest sb (\<lambda>g. g\<lparr>gb_ptr := gb_ptr g + n * gb_elemSz g, gb_progress := gb_progress g + n\<rparr>)
      (put_mem i (write_at (unat (gb_ptr d)) (slice_of sm (unat (gb_ptr g)) (unat n * prim_size p)) dm) s)))"
proof -
  let ?adv = "\<lambda>g. g\<lparr>gb_ptr := gb_ptr g + n * gb_elemSz g, gb_progress := gb_progress g + n\<rparr>"
  let ?s1 = "upd_guest sb ?adv s"
  let ?vs = "prim_vals p sm (unat (gb_ptr g)) (unat n)"
  have elem: "gb_elem g \<noteq> None" "gb_elem d \<noteq> None" using d(4) g(3) by (auto simp: numeric_buffer_def)
  have adv: "(\<lambda>g. g\<lparr>gb_progress := gb_progress g + n\<rparr>) \<circ> step_ptr (unat n) = ?adv" by (simp add: fun_eq_iff)
  have "buffer_read env sb n s = (Inr ?vs, ?s1)"
    using g elem(1) adv read_elements_numeric [OF assms(1,2) g(3), of sb s]
    by (auto simp: buffer_read_def guest_read_def sbind_def modify_def)
  moreover have "buffer_write env db ?vs ?s1 = (Inr (), upd_guest db ?adv (put_mem i
      (write_at (unat (gb_ptr d)) (slice_of sm (unat (gb_ptr g)) (unat n * prim_size p)) dm) ?s1))"
    using d elem(2) adv assms(3) write_elements_numeric [OF assms(1,2) d(4,2), of ?s1 "unat (gb_ptr g)" sm db] g(3)
    by (auto simp: buffer_write_def guest_write_def sbind_def modify_def numeric_buffer_def)
  ultimately show ?thesis by (simp add: copy_general_def sbind_def)
qed

lemma memmove_numeric:
  assumes "p \<in> memcpy_prims" "db \<noteq> sb" "n \<le> maxBufferLen"
    and d: "buffers s db = GuestBuffer d" "memMod d = Some i" "memoryBytesOf (Some i) s = Some dm" "numeric_buffer p d (unat n) dm"
    and g: "buffers s sb = GuestBuffer g" "memoryBytesOf (memMod g) s = Some sm" "numeric_buffer p g (unat n) sm"
  shows "copyElementsMemmove db d sb g n s = (Inr (), upd_guest db (\<lambda>g. g\<lparr>gb_ptr := gb_ptr g + n * gb_elemSz g, gb_progress := gb_progress g + n\<rparr>)
    (upd_guest sb (\<lambda>g. g\<lparr>gb_ptr := gb_ptr g + n * gb_elemSz g, gb_progress := gb_progress g + n\<rparr>)
      (put_mem i (write_at (unat (gb_ptr d)) (slice_of sm (unat (gb_ptr g)) (unat n * prim_size p)) dm) s)))"
    (is "_ = (_, ?s')")
proof (cases "n = 0")
  case True
  then show ?thesis using d(3) by (simp add: copyElementsMemmove_def upd_guest_id put_mem_same)
next
  case False
  let ?nb = "n * gb_elemSz d"
  have k: "prim_size p \<in> {1, 2, 4, 8}" using prim_layout(3) [OF assms(1)] .
  have sz: "gb_elemSz d = gb_elemSz g" "unat (gb_elemSz d) = prim_size p"
    using d(4) g(3) by (simp_all add: numeric_buffer_def word_unat_eq_iff)
  have "unat n \<le> 268435455" using assms(3) by (simp add: maxBufferLen_def word_le_nat_alt)
  then have nb: "unat ?nb = unat n * prim_size p" using k sz(2) by (auto simp: unat_word_ariths)
  have "?nb \<noteq> 0" using nb False k by (auto simp: word_unat_eq_iff)
  then have pos: "?nb > 0" by (simp add: word_gt_0)
  have cb: "copy_bytes (memMod d) (gb_ptr d) (memMod g) (gb_ptr g) ?nb s =
      (Inr (), put_mem i (write_at (unat (gb_ptr d)) (slice_of sm (unat (gb_ptr g)) (unat n * prim_size p)) dm) s)"
    using d g nb by (auto simp: copy_bytes_def numeric_buffer_def slice_of_def [symmetric] write_bytes_eq length_slice_of intro!: in_module_write)
  have com: "upd_guest sb (\<lambda>g. g\<lparr>gb_ptr := gb_ptr g + ?nb, gb_progress := gb_progress g + n\<rparr>)
      (upd_guest db (\<lambda>g. g\<lparr>gb_ptr := gb_ptr g + ?nb, gb_progress := gb_progress g + n\<rparr>) s1) =
    upd_guest db (\<lambda>g. g\<lparr>gb_ptr := gb_ptr g + n * gb_elemSz g, gb_progress := gb_progress g + n\<rparr>)
      (upd_guest sb (\<lambda>g. g\<lparr>gb_ptr := gb_ptr g + n * gb_elemSz g, gb_progress := gb_progress g + n\<rparr>) s1)"
    if "buffers s1 = buffers s" for s1
    using that d(1) g(1) sz(1) assms(2) by (auto simp: upd_guest_def fun_upd_twist)
  from False pos cb com [of "put_mem i (write_at (unat (gb_ptr d)) (slice_of sm (unat (gb_ptr g)) (unat n * prim_size p)) dm) s"]
  show ?thesis by (simp add: copyElementsMemmove_def sbind_def modify_def Let_def)
qed

lemma copy_readyE:
  assumes "copy_ready p b n s"
  obtains g i m where "buffers s b = GuestBuffer g" "memMod g = Some i" "memoryBytesOf (Some i) s = Some m" "numeric_buffer p g n m"
  using assms by (auto simp: copy_ready_def memoryBytesOf_def split: copyBuffer.splits option.splits)

text \<open>C17. The fast path of a copy between two guest buffers is an optimisation only: for every numeric element type except
  \<open>s8\<close>, copying the bytes at once ends in the same state as loading each element and storing it again, be it between the
  memories of two modules or, also when the ranges overlap, within one.\<close>

theorem memmove_equals_general:
  assumes "p \<in> memcpy_prims" "db \<noteq> sb" "n \<le> maxBufferLen" "0 < abi_fuel env"
    and "copy_ready p db (unat n) s" "copy_ready p sb (unat n) s"
    and "buffers s db = GuestBuffer d" "buffers s sb = GuestBuffer g"
  shows "copyElementsMemmove db d sb g n s = copy_general env db sb n s"
proof -
  obtain i dm where d: "memMod d = Some i" "memoryBytesOf (Some i) s = Some dm" "numeric_buffer p d (unat n) dm"
    using assms(5,7) by (auto elim!: copy_readyE)
  obtain sm where g: "memoryBytesOf (memMod g) s = Some sm" "numeric_buffer p g (unat n) sm"
    using assms(6,8) by (auto elim!: copy_readyE)
  show ?thesis
    unfolding memmove_numeric [OF assms(1-3,7) d assms(8) g] copy_general_numeric [OF assms(1,4,2,7) d assms(8) g] ..
qed

subsection \<open>What moves a buffer\<close>

text \<open>\<open>ptr_moves b\<close>: of all the buffers only \<open>b\<close> may have changed, and of it only the pointer.\<close>

primrec at_ptr :: "u32 \<Rightarrow> copyBuffer \<Rightarrow> copyBuffer" where
  "at_ptr p (GuestBuffer g) = GuestBuffer (g\<lparr>gb_ptr := p\<rparr>)"
| "at_ptr p (HostBuffer h) = HostBuffer h"

definition ptr_moves :: "ref \<Rightarrow> 'a stream_state_scheme \<Rightarrow> 'a stream_state_scheme \<Rightarrow> bool" where
  "ptr_moves b s s' \<longleftrightarrow> (buffers s' = buffers s \<or> (\<exists>p. buffers s' = (buffers s)(b := at_ptr p (buffers s b))))"

lemma at_ptr_at_ptr [simp]: "at_ptr p (at_ptr q x) = at_ptr p x"
  by (cases x) simp_all

interpretation moves: guest_frame "ptr_moves b" for b
  by unfold_locales (auto simp: ptr_moves_def)

lemma keeps_buffers:
  assumes "\<And>s. buffers (snd (f s)) = buffers s"
  shows "keeps (ptr_moves b) f"
  unfolding keeps_def ptr_moves_def using assms by (metis snd_conv)

lemma keeps_in_instance [keeping]: "keeps (ptr_moves b) f \<Longrightarrow> keeps (ptr_moves b) (in_instance i f)"
  by (fastforce simp: keeps_def in_instance_def ptr_moves_def Let_def split: prod.splits if_splits)

lemma keeps_TakeOwn [keeping]: "keeps (ptr_moves b) (TakeOwn ti h)"
  by (rule keeps_buffers) (simp add: TakeOwn_def Let_def retire_def split: sum.split)

lemma keeps_NewOwn [keeping]: "keeps (ptr_moves b) (\<lambda>s. case NewOwn ti r s of (h, s') \<Rightarrow> (Inr (f h), s'))"
  by (rule keeps_buffers)
    (simp add: NewOwn_def add_def alloc_resource_def add_resource_def addEntry_def Let_def split: prod.split)

lemma keeps_on_memory:
  assumes "keeps (on_guest (ptr_moves b)) f"
  shows "keeps (ptr_moves b) (on_memory f)"
  using assms
  by (fastforce simp: keeps_def on_memory_def on_guest_def ptr_moves_def Let_def split: prod.splits option.splits sum.splits)

lemma keeps_in_module [keeping]:
  assumes "keeps (on_guest (ptr_moves b)) f"
  shows "keeps (ptr_moves b) (in_module m f)"
  using keeps_on_memory [OF assms]
  by (fastforce simp: keeps_def in_module_def ptr_moves_def Let_def split: prod.splits option.splits if_splits)

lemma keeps_advance [keeping]: "keeps (ptr_moves b) (modify (upd_guest b (\<lambda>g. g\<lparr>gb_ptr := f g\<rparr>)))"
  by (rule moves.modify) (auto simp: ptr_moves_def upd_guest_def split: copyBuffer.split)

text \<open>The guests' allocators do not touch the buffers of the host.\<close>

definition quiet :: "'a stream_state_scheme stream_env \<Rightarrow> bool" where
  "quiet env \<longleftrightarrow> (\<forall>f b. realloc_keeps (ptr_moves b) (realloc_of env f))"

lemma keeps_take_rep [keeping]: "keeps (ptr_moves b) (take_rep env g v)"
  unfolding take_rep_def by (cases v) (auto intro!: keeping split: option.split)

lemma keeps_mint_rep [keeping]: "keeps (ptr_moves b) (mint_rep env g v)"
  unfolding mint_rep_def by (cases v) (auto intro!: keeping split: option.split)

lemma keeps_read_elements [keeping]: "keeps (ptr_moves b) (read_elements env b g m n)"
  by (induction n arbitrary: g) (auto simp: read_element_def intro!: keeping simp del: upd_guest_simps)

lemma quiet_realloc: "quiet env \<Longrightarrow> realloc_keeps (ptr_moves b) (buffer_realloc env g)"
  by (auto simp: quiet_def buffer_realloc_def realloc_keeps_def split: option.split)

lemma keeps_write_elements [keeping]: "quiet env \<Longrightarrow> keeps (ptr_moves b) (write_elements env b g vs)"
  by (induction vs arbitrary: g) (auto simp: write_element_def intro!: keeping moves.Store quiet_realloc)

lemma length_read_elements: "read_elements env b g m n s = (Inr vs, s') \<Longrightarrow> length vs = n"
  by (induction n arbitrary: g s vs s') (auto simp: sbind_eq_Inr)

text \<open>What a successful read or write does to the buffers.\<close>

primrec advanced :: "u32 \<Rightarrow> copyBuffer \<Rightarrow> copyBuffer \<Rightarrow> bool" where
  "advanced n x (GuestBuffer g') \<longleftrightarrow> (\<exists>g p. x = GuestBuffer g \<and> g' = g\<lparr>gb_ptr := p, gb_progress := gb_progress g + n\<rparr>)"
| "advanced n x (HostBuffer h') \<longleftrightarrow> (\<exists>h. x = HostBuffer h \<and> hb_progress h' = hb_progress h + n \<and> hb_length h' = hb_length h)"

definition advances :: "ref \<Rightarrow> u32 \<Rightarrow> 'a stream_state_scheme \<Rightarrow> 'a stream_state_scheme \<Rightarrow> bool" where
  "advances b n s s' \<longleftrightarrow> (\<exists>x. buffers s' = (buffers s)(b := x) \<and> advanced n (buffers s b) x)"

lemma moves_then_progress:
  assumes "ptr_moves b s s1" "buffers s b = GuestBuffer g"
  shows "advances b n s (upd_guest b (\<lambda>g. g\<lparr>gb_progress := gb_progress g + n\<rparr>) s1)"
proof -
  obtain p where "buffers s1 b = GuestBuffer (g\<lparr>gb_ptr := p\<rparr>)" "buffers s1 = (buffers s)(b := GuestBuffer (g\<lparr>gb_ptr := p\<rparr>))"
    using assms by (auto simp: ptr_moves_def fun_upd_idem intro: that [of "gb_ptr g"])
  then show ?thesis by (auto simp: advances_def upd_guest_def assms(2) intro!: exI)
qed

lemma buffer_read_advances:
  assumes "buffer_read env b n s = (Inr vs, s')"
  shows "length vs = unat n \<and> advances b n s s'"
proof (cases "buffers s b")
  case (GuestBuffer g)
  show ?thesis
  proof (cases "gb_elem g")
    case None
    then show ?thesis using assms GuestBuffer moves_then_progress [OF moves.refl GuestBuffer]
      by (auto simp: buffer_read_def guest_read_def sbind_def modify_def)
  next
    case (Some t)
    then obtain m s1 where st: "read_elements env b g m (unat n) s = (Inr vs, s1)" "s' = upd_guest b (\<lambda>g. g\<lparr>gb_progress := gb_progress g + n\<rparr>) s1"
      using assms GuestBuffer by (auto simp: buffer_read_def guest_read_def sbind_eq_Inr modify_def split: option.splits)
    show ?thesis
      using length_read_elements [OF st(1)] moves_then_progress [OF keepsD [OF keeps_read_elements st(1)] GuestBuffer]
      by (simp add: st(2))
  qed
next
  case (HostBuffer h)
  let ?e = "hb_progress h + n"
  have e: "\<not> word_of_nat (length (hb_vals h)) < ?e" "\<not> ?e < hb_progress h" "vs = take (unat n) (drop (unat (hb_progress h)) (hb_vals h))"
    "s' = upd_host b (\<lambda>h. h\<lparr>hb_progress := ?e\<rparr>) s"
    using assms HostBuffer by (auto simp: buffer_read_def dest: host_read_Inr)
  have "unat ?e = unat (hb_progress h) + unat n"
    using e(2) unat_plus_simple [of "hb_progress h" n] by (simp add: linorder_not_less)
  moreover have "unat ?e \<le> length (hb_vals h)"
    using e(1) mod_less_eq_dividend [of "length (hb_vals h)" "2 ^ 32"]
    by (simp add: linorder_not_less word_le_nat_alt unat_of_nat)
  ultimately have "length vs = unat n" by (simp add: e(3))
  then show ?thesis using HostBuffer by (auto simp: e(4) upd_host_def advances_def intro!: exI)
qed

lemma buffer_write_advances:
  assumes "quiet env" "buffer_write env b vs s = (Inr (), s')"
  shows "advances b (word_of_nat (length vs)) s s'"
proof (cases "buffers s b")
  case (GuestBuffer g)
  show ?thesis
  proof (cases "gb_elem g")
    case None
    then show ?thesis using assms GuestBuffer moves_then_progress [OF moves.refl GuestBuffer]
      by (auto simp: buffer_write_def guest_write_def modify_def)
  next
    case (Some t)
    then obtain s1 where st: "write_elements env b g vs s = (Inr (), s1)"
      "s' = upd_guest b (\<lambda>g. g\<lparr>gb_progress := gb_progress g + word_of_nat (length vs)\<rparr>) s1"
      using assms GuestBuffer by (auto simp: buffer_write_def guest_write_def sbind_eq_Inr modify_def split: option.splits)
    show ?thesis
      using moves_then_progress [OF keepsD [OF keeps_write_elements [OF assms(1)] st(1)] GuestBuffer] by (simp add: st(2))
  qed
next
  case (HostBuffer h)
  then show ?thesis using assms
    by (auto simp: buffer_write_def host_write_def Let_def upd_host_def advances_def split: if_splits intro!: exI)
qed

subsection \<open>The interface of a buffer\<close>

text \<open>One side of a copy: how much is left, how much was moved, and the two operations. A client only relies on the
  counters moving by the number of elements read or written.\<close>

locale copy_buffer =
  fixes rem prog :: "'s \<Rightarrow> u32" and rd :: "u32 \<Rightarrow> ('s, 'e, 'v list) op" and wr :: "'v list \<Rightarrow> ('s, 'e, unit) op"
  assumes read_law: "rd n s = (Inr vs, s') \<Longrightarrow> length vs = unat n \<and> prog s' = prog s + n \<and> rem s' = rem s - n"
    and write_law: "wr vs s = (Inr (), s') \<Longrightarrow>
      prog s' = prog s + word_of_nat (length vs) \<and> rem s' = rem s - word_of_nat (length vs)"
begin

lemma total_constant: "rd n s = (Inr vs, s') \<Longrightarrow> rem s' + prog s' = rem s + prog s"
  using read_law by force

end

text \<open>Two buffers that do not interfere.\<close>

locale copy_pair = src: copy_buffer rem prog rd wr + dst: copy_buffer rem' prog' rd' wr'
  for rem prog :: "'s \<Rightarrow> u32" and rd :: "u32 \<Rightarrow> ('s, 'e, 'v list) op" and wr
    and rem' prog' :: "'s \<Rightarrow> u32" and rd' and wr' :: "'v list \<Rightarrow> ('s, 'e, unit) op" +
  assumes read_frame: "rd n s = (Inr vs, s') \<Longrightarrow> rem' s' = rem' s \<and> prog' s' = prog' s"
    and write_frame: "wr' vs s = (Inr (), s') \<Longrightarrow> rem s' = rem s \<and> prog s' = prog s"
begin

lemma copy_moves:
  assumes "sbind (rd n) wr' s = (Inr (), s')"
  shows "prog s' = prog s + n \<and> rem s' = rem s - n \<and> prog' s' = prog' s + n \<and> rem' s' = rem' s - n"
proof -
  obtain vs s1 where st: "rd n s = (Inr vs, s1)" "wr' vs s1 = (Inr (), s')" using assms by (auto simp: sbind_eq_Inr)
  have "word_of_nat (length vs) = n" using src.read_law [OF st(1)] by simp
  then show ?thesis
    using src.read_law [OF st(1)] dst.write_law [OF st(2)] read_frame [OF st(1)] write_frame [OF st(2)] by simp
qed

end

text \<open>The buffers of the code provide the interface. The allocator is replaced by one that fails where it would touch
  a buffer, which changes nothing in a quiet environment.\<close>

definition calm :: "'a stream_state_scheme stream_env \<Rightarrow> 'a stream_state_scheme stream_env" where
  "calm env = env\<lparr>realloc_of := \<lambda>f. if \<forall>b. realloc_keeps (ptr_moves b) (realloc_of env f) then realloc_of env f else None\<rparr>"

lemma calm_quiet: "quiet env \<Longrightarrow> calm env = env"
  by (simp add: calm_def quiet_def)

lemma quiet_calm: "quiet (calm env)"
  by (simp add: calm_def quiet_def realloc_keeps_def)

lemma advances_counters:
  assumes "advances b n s s'"
  shows "progressed b s' = progressed b s + n" "remain b s' = remain b s - n"
    "c \<noteq> b \<Longrightarrow> progressed c s' = progressed c s" "c \<noteq> b \<Longrightarrow> remain c s' = remain c s"
proof -
  obtain x where x: "buffers s' = (buffers s)(b := x)" "advanced n (buffers s b) x" using assms by (auto simp: advances_def)
  have "buffer_progressed x = buffer_progressed (buffers s b) + n \<and> buffer_length x = buffer_length (buffers s b)"
    using x(2) by (cases x) auto
  then show "progressed b s' = progressed b s + n" "remain b s' = remain b s - n"
    "c \<noteq> b \<Longrightarrow> progressed c s' = progressed c s" "c \<noteq> b \<Longrightarrow> remain c s' = remain c s"
    using x(1) by (simp_all add: progressed_def remain_def)
qed

interpretation buffer: copy_buffer "remain b" "progressed b" "buffer_read (calm env) b" "buffer_write (calm env) b" for env b
proof unfold_locales
  fix n s vs s'
  show "buffer_read (calm env) b n s = (Inr vs, s') \<Longrightarrow> length vs = unat n \<and> progressed b s' = progressed b s + n \<and> remain b s' = remain b s - n"
    using buffer_read_advances advances_counters by metis
  show "buffer_write (calm env) b vs s = (Inr (), s') \<Longrightarrow>
    progressed b s' = progressed b s + word_of_nat (length vs) \<and> remain b s' = remain b s - word_of_nat (length vs)"
    using buffer_write_advances [OF quiet_calm] advances_counters by metis
qed

text \<open>A buffer and another one.\<close>

definition other :: "ref \<Rightarrow> ref \<Rightarrow> ref" where
  "other a b = (if b = a then a + 1 else b)"

interpretation pair: copy_pair "remain a" "progressed a" "buffer_read (calm env) a" "buffer_write (calm env) a"
    "remain (other a b)" "progressed (other a b)" "buffer_read (calm env) (other a b)" "buffer_write (calm env) (other a b)"
  for env a b
proof unfold_locales
  have ne: "other a b \<noteq> a" by (simp add: other_def)
  fix n s vs s'
  show "buffer_read (calm env) a n s = (Inr vs, s') \<Longrightarrow> remain (other a b) s' = remain (other a b) s \<and> progressed (other a b) s' = progressed (other a b) s"
    using buffer_read_advances advances_counters(3,4) ne by metis
  show "buffer_write (calm env) (other a b) vs s = (Inr (), s') \<Longrightarrow> remain a s' = remain a s \<and> progressed a s' = progressed a s"
    using buffer_write_advances [OF quiet_calm] advances_counters(3,4) ne by metis
qed

definition moved :: "ref \<Rightarrow> ref \<Rightarrow> u32 \<Rightarrow> 'a stream_state_scheme \<Rightarrow> 'a stream_state_scheme \<Rightarrow> bool" where
  "moved src dst n s s' \<longleftrightarrow> progressed src s' = progressed src s + n \<and> remain src s' = remain src s - n \<and>
     progressed dst s' = progressed dst s + n \<and> remain dst s' = remain dst s - n"

lemma copy_general_moves:
  assumes "quiet env" "dst \<noteq> src" "copy_general env dst src n s = (Inr (), s')"
  shows "moved src dst n s s'"
  using pair.copy_moves [of env src n dst s s'] assms by (simp add: other_def calm_quiet copy_general_def moved_def)

lemma copy_bytes_buffers: "buffers (snd (copy_bytes dm dp sm sp nb s)) = buffers s"
  by (auto simp: copy_bytes_def in_module_def on_memory_def write_bytes_def Let_def split: option.splits sum.splits)

lemma memmove_moves:
  assumes "dst \<noteq> src" "buffers s dst = GuestBuffer d" "buffers s src = GuestBuffer g"
    and "copyElementsMemmove dst d src g n s = (Inr (), s')"
  shows "moved src dst n s s'"
proof (cases "n = 0")
  case True
  then show ?thesis using assms(4) by (simp add: copyElementsMemmove_def moved_def)
next
  case False
  obtain s1 f where "buffers s1 = buffers s" "s' = upd_guest src f (upd_guest dst f s1)"
    "\<And>x. gb_progress (f x) = gb_progress x + n" "\<And>x. gb_length (f x) = gb_length x"
    using assms(4) False copy_bytes_buffers [of "memMod d" "gb_ptr d" "memMod g" "gb_ptr g" "n * gb_elemSz d" s]
    by (fastforce simp: copyElementsMemmove_def Let_def sbind_eq_Inr modify_def split: if_splits)
  then show ?thesis using assms(1-3) by (simp add: moved_def progressed_def remain_def)
qed

lemma copyElements_moves:
  assumes "quiet env" "dst \<noteq> src" "copyElements env numeric dst src n s = (Inr (), s')"
  shows "moved src dst n s s'"
  using assms copy_general_moves memmove_moves
  by (auto simp: copyElements_def split: copyBuffer.splits bool.splits prod.splits)

subsection \<open>The rendezvous\<close>

lemma moved_min:
  assumes "moved src dst (min (remain src s) (remain dst s)) s s'"
  shows "unat (remain src s') + unat (min (remain src s) (remain dst s)) = unat (remain src s)"
    "unat (remain dst s') + unat (min (remain src s) (remain dst s)) = unat (remain dst s)"
    "remain src s' = 0 \<or> remain dst s' = 0"
  using assms unat_sub [of "min (remain src s) (remain dst s)" "remain src s"]
    unat_sub [of "min (remain src s) (remain dst s)" "remain dst s"]
  by (auto simp: moved_def word_le_nat_alt min_def)

text \<open>The elements that change hands when both sides have room or data, and what is called then.\<close>

definition met :: "'a stream_state_scheme stream_env \<Rightarrow> ref \<Rightarrow> ref \<Rightarrow> ref \<Rightarrow> callback \<Rightarrow> 'a stream_state_scheme \<Rightarrow> 'a stream_state_scheme \<Rightarrow> bool" where
  "met env p src dst ocd s s' \<longleftrightarrow> (\<exists>s1.
     moved src dst (min (remain src s) (remain dst s)) s s1 \<and> (remain src s1 = 0 \<or> remain dst s1 = 0) \<and>
     sbind (call_copy env (ss_pendingOnCopy (streams s1 p)) p) (\<lambda>_. on_copy_done env ocd copyCompleted) s1 = (Inr (), s'))"

lemma copy_met:
  assumes "quiet env" "dst \<noteq> src"
    and "sbind (sbind (copyElements env numeric dst src (min (remain src s) (remain dst s))) (\<lambda>_ s'. call_copy env (ss_pendingOnCopy (streams s' p)) p s'))
       (\<lambda>_. on_copy_done env ocd copyCompleted) s = (Inr (), s')"
  shows "met env p src dst ocd s s'"
proof -
  obtain s1 where 1: "copyElements env numeric dst src (min (remain src s) (remain dst s)) s = (Inr (), s1)"
    "sbind (call_copy env (ss_pendingOnCopy (streams s1 p)) p) (\<lambda>_. on_copy_done env ocd copyCompleted) s1 = (Inr (), s')"
    using assms(3) by (auto simp: sbind_eq_Inr)
  note mv = copyElements_moves [OF assms(1,2) 1(1)]
  then show ?thesis unfolding met_def using moved_min(3) [OF mv] 1(2) by blast
qed

text \<open>C16. A rendezvous loses and invents nothing: when a writer meets a parked reader, or a reader a parked writer, and
  both have something to move, as many elements leave the source as arrive in the destination, namely as many as the smaller side
  has; afterwards one side is used up. Only then is the parked side told of its progress, and the arriving side that it is done.\<close>

theorem rendezvous_conserves:
  assumes "quiet env" "src \<noteq> dst" "\<not> ss_dropped (streams s p)" "0 < remain src s" "0 < remain dst s"
  shows "(ss_pendingBuffer (streams s p) = Some dst \<and> ss_write env p inst src oc ocd s = (Inr (), s') \<longrightarrow> met env p src dst ocd s s') \<and>
    (ss_pendingBuffer (streams s p) = Some src \<and> ss_read env p inst dst oc ocd s = (Inr (), s') \<longrightarrow> met env p src dst ocd s s')"
  using copy_met [OF assms(1) assms(2) [symmetric], of "ss_numeric (streams s p)" s p ocd s'] assms
  by (auto simp: ss_write_def ss_read_def Let_def min.commute split: if_splits)

lemma copy_number_small: "unat (copy_number r) \<le> 2"
  by (cases r) simp_all

lemma pack_unat:
  assumes "n \<le> maxBufferLen"
  shows "unat (packCopyResult r n) = unat (copy_number r) + 16 * unat n"
proof -
  have n: "unat n \<le> 268435455" using assms by (simp add: maxBufferLen_def word_le_nat_alt)
  have "copy_number r AND push_bit 4 n = 0"
    by (cases r) (auto intro!: bit_word_eqI simp: bit_simps)
  then have "packCopyResult r n = copy_number r + push_bit 4 n"
    by (simp add: packCopyResult_def disjunctive_add_eq_or)
  then show ?thesis using n copy_number_small [of r] by (simp add: push_bit_eq_mult unat_word_ariths)
qed

text \<open>The packed result of a copy is unambiguous: for a progress within the limit of a buffer the low 4 bits are the result and the
  others the progress; it is never the sentinel that says the copy blocked.\<close>

theorem packCopyResult_roundtrip:
  assumes "n \<le> maxBufferLen"
  shows "packCopyResult r n AND 0xF = copy_number r \<and> drop_bit 4 (packCopyResult r n) = n \<and> packCopyResult r n \<noteq> blockedSentinel"
proof -
  let ?w = "packCopyResult r n"
  have n: "unat n \<le> 268435455" using assms by (simp add: maxBufferLen_def word_le_nat_alt)
  have w: "unat ?w = unat (copy_number r) + 16 * unat n" by (rule pack_unat [OF assms])
  have "?w AND 0xF = take_bit 4 ?w" by (simp add: take_bit_eq_mask mask_eq_exp_minus_1)
  also have "unat \<dots> = unat (copy_number r)" 
    using w copy_number_small [of r] unsigned_take_bit_eq [where 'a = nat and 'b = 32, of 4 ?w] by (simp add: take_bit_eq_mod [where 'a = nat])
  finally have "?w AND 0xF = copy_number r" by (simp add: word_unat_eq_iff)
  moreover have "drop_bit 4 ?w = n"
    using w n copy_number_small [of r] unsigned_drop_bit_eq [where 'a = nat and 'b = 32, of 4 ?w] by (simp add: word_unat_eq_iff unat_div drop_bit_eq_div [where 'a = nat] take_bit_eq_mod)
  moreover have "?w \<noteq> blockedSentinel" using w n copy_number_small [of r] by (auto simp: blockedSentinel_def)
  ultimately show ?thesis by blast
qed

subsection \<open>What a copy leaves alone\<close>

text \<open>A relation that does not see the buffers, memories and handle tables is kept by every copy, if the allocators keep it.\<close>

locale outside_frame = guest_frame R for R :: "'a stream_state_scheme \<Rightarrow> 'a stream_state_scheme \<Rightarrow> bool" +
  assumes outside: "R s (s\<lparr>buffers := x\<rparr>)" "R s (s\<lparr>tab := t\<rparr>)" "R s (s\<lparr>other_tabs := ot\<rparr>)" "R s (s\<lparr>memory := m\<rparr>)"
    "R s (s\<lparr>other_mems := om\<rparr>)" "R s (s\<lparr>fresh_ref := n\<rparr>)" "R s (s\<lparr>resources := rs\<rparr>)"
begin

lemma upd_guest: "R s (upd_guest b f s)"
  by (simp add: upd_guest_def outside refl split: copyBuffer.split)

lemma upd_host: "R s (upd_host b f s)"
  by (simp add: upd_host_def outside refl split: copyBuffer.split)

lemma TakeOwn: "keeps R (TakeOwn ti h)"
  by (auto simp: keeps_def TakeOwn_def Let_def retire_def outside refl split: sum.splits if_splits)

lemma addEntry: "R s (snd (addEntry e s))"
  by (simp add: addEntry_def Let_def outside refl)

lemma NewOwn: "keeps R (\<lambda>s. case NewOwn ti r s of (h, s') \<Rightarrow> (Inr (f h), s'))"
proof (unfold keeps_def, intro allI impI)
  fix s s' :: "'a stream_state_scheme" and q
  assume st: "(case NewOwn ti r s of (h, s') \<Rightarrow> (Inr (f h), s')) = (q, s')"
  let ?rs = "(resources s)(fresh_ref s := \<lparr>typeIdx = ti, resource_rep = r, own = True, lendCount = 0, borrowScope = None\<rparr>)"
  let ?s1 = "s\<lparr>resources := ?rs, fresh_ref := fresh_ref s + 1\<rparr>"
  have "R s ?s1" using trans [OF outside(7) outside(6)] .
  moreover have "s' = snd (addEntry (ResourceEntry (fresh_ref s)) ?s1)"
    using st by (simp add: NewOwn_def add_def add_resource_def alloc_resource_def split: prod.splits)
  ultimately show "R s s'" using trans addEntry by blast
qed

lemma in_instance: "keeps R f \<Longrightarrow> keeps R (in_instance i f)"
proof (unfold keeps_def, intro allI impI)
  fix s r s'
  assume f: "\<forall>s r s'. f s = (r, s') \<longrightarrow> R s s'" and st: "in_instance i f s = (r, s')"
  show "R s s'"
  proof (cases "i = this_inst s")
    case True
    then show ?thesis using f st by (simp add: in_instance_def)
  next
    case False
    obtain s1 where 1: "f (s\<lparr>tab := other_tabs s i\<rparr>) = (r, s1)" "s' = s1\<lparr>tab := tab s, other_tabs := (other_tabs s1)(i := tab s1)\<rparr>"
      using st False by (auto simp: in_instance_def Let_def split: prod.splits)
    have "R s s1" using f 1(1) outside(2) trans by blast
    then show ?thesis unfolding 1(2) using outside(2,3) trans by blast
  qed
qed

lemma on_memory:
  assumes "keeps (on_guest R) f"
  shows "keeps R (on_memory f)"
proof (unfold keeps_def, intro allI impI)
  fix s r s'
  assume st: "on_memory f s = (r, s')"
  show "R s s'"
  proof (cases "memory s")
    case None
    then show ?thesis using st refl by (simp add: on_memory_def)
  next
    case (Some m)
    obtain q ms where f: "f \<lparr>lin_mem = m, guest = s\<rparr> = (q, ms)" by fastforce
    then have "R s (guest ms)" using keepsD [OF assms f] by (simp add: on_guest_def)
    moreover have "s' = (guest ms)\<lparr>memory := Some (lin_mem ms)\<rparr>" using st Some f by (simp add: on_memory_def)
    ultimately show ?thesis using outside(4) trans by blast
  qed
qed

lemma in_module:
  assumes "keeps (on_guest R) f"
  shows "keeps R (in_module m f)"
proof (unfold keeps_def, intro allI impI)
  fix s r s'
  assume st: "in_module m f s = (r, s')"
  note on_mem = on_memory [OF assms]
  consider "m = None" | "m = Some (this_mod s)" | i where "m = Some i" "i \<noteq> this_mod s" by (cases m) auto
  then show "R s s'"
  proof cases
    case 1
    then show ?thesis using st refl by (simp add: in_module_def)
  next
    case 2
    then show ?thesis using st keepsD [OF on_mem] by (simp add: in_module_def)
  next
    case 3
    obtain s1 where 1: "Builtins.on_memory f (s\<lparr>memory := other_mems s i\<rparr>) = (r, s1)"
      "s' = s1\<lparr>memory := memory s, other_mems := (other_mems s1)(i := memory s1)\<rparr>"
      using st 3 by (auto simp: in_module_def Let_def split: prod.splits)
    have "R s s1" using keepsD [OF on_mem 1(1)] outside(4) trans by blast
    then show ?thesis unfolding 1(2) using outside(4,5) trans by blast
  qed
qed

lemma read_elements: "keeps R (read_elements env b g m n)"
proof (induction n arbitrary: g)
  case (Suc n)
  have "keeps R (take_rep env g v)" for v
    unfolding take_rep_def by (cases v) (auto intro!: keeping in_instance TakeOwn split: option.split)
  then show ?case using Suc by (auto simp: read_element_def intro!: keeping modify upd_guest simp del: upd_guest_simps)
qed (auto intro!: keeping)

lemma write_elements:
  assumes "realloc_keeps R (buffer_realloc env g)"
  shows "keeps R (write_elements env b g vs)"
  using assms
proof (induction vs arbitrary: g)
  case (Cons v vs)
  have "keeps R (mint_rep env g v)" for v
    unfolding mint_rep_def Let_def by (cases v) (auto intro!: keeping in_instance NewOwn split: option.split)
  moreover have "realloc_keeps R (buffer_realloc env (g\<lparr>gb_ptr := p\<rparr>))" for p
    using Cons.prems by (simp add: buffer_realloc_def)
  ultimately show ?case
    using Cons.IH Cons.prems
    by (auto simp: write_element_def intro!: keeping in_module Store modify upd_guest simp del: upd_guest_simps)
qed (auto intro!: keeping)

lemma buffer_read: "keeps R (buffer_read env b n)"
proof (unfold keeps_def, intro allI impI)
  fix s s' :: "'a stream_state_scheme" and q
  assume st: "buffer_read env b n s = (q, s')"
  have adv: "keeps R (modify (Stream.upd_guest b f))" for f by (rule modify [OF upd_guest])
  show "R s s'"
  proof (cases "buffers s b")
    case (GuestBuffer g)
    note k = keepsD [OF sbind [OF read_elements sbind [OF adv sret]]] keepsD [OF sbind [OF adv sret]]
    show ?thesis using st GuestBuffer refl k
      by (auto simp: buffer_read_def guest_read_def Let_def split: option.splits)
  next
    case (HostBuffer h)
    then show ?thesis using st refl upd_host by (auto simp: buffer_read_def host_read_def Let_def split: if_splits sum.splits)
  qed
qed

lemma buffer_write:
  assumes "\<And>f. realloc_keeps R (realloc_of env f)"
  shows "keeps R (buffer_write env b vs)"
proof (unfold keeps_def, intro allI impI)
  fix s s' :: "'a stream_state_scheme" and q
  assume st: "buffer_write env b vs s = (q, s')"
  have adv: "keeps R (modify (Stream.upd_guest b f))" for f by (rule modify [OF upd_guest])
  have ra: "realloc_keeps R (buffer_realloc env g)" for g
    using assms by (auto simp: buffer_realloc_def realloc_keeps_def split: option.split)
  show "R s s'"
  proof (cases "buffers s b")
    case (GuestBuffer g)
    note k = keepsD [OF sbind [OF write_elements [OF ra] adv]] keepsD [OF adv]
    show ?thesis using st GuestBuffer refl k
      by (auto simp: buffer_write_def guest_write_def Let_def split: option.splits)
  next
    case (HostBuffer h)
    then show ?thesis using st refl upd_host by (auto simp: buffer_write_def host_write_def Let_def split: if_splits)
  qed
qed

lemma copy_bytes: "keeps R (copy_bytes dm dp sm sp nb)"
proof (unfold keeps_def, intro allI impI)
  fix s s' :: "'a stream_state_scheme" and q
  assume "copy_bytes dm dp sm sp nb s = (q, s')"
  then show "R s s'"
    using refl keepsD [OF in_module [OF write_bytes]] by (auto simp: copy_bytes_def split: option.splits if_splits sum.splits)
qed

lemma copyElements:
  assumes "\<And>f. realloc_keeps R (realloc_of env f)"
  shows "keeps R (copyElements env numeric dst src n)"
proof -
  have general: "keeps R (copy_general env dst src n)"
    unfolding copy_general_def by (intro sbind buffer_read buffer_write assms)
  have fast: "keeps R (copyElementsMemmove dst d src g n)" for d g
    unfolding copyElementsMemmove_def Let_def
    by (intro keeping sbind copy_bytes modify trans [OF upd_guest upd_guest])
  show ?thesis using keepsD [OF general] keepsD [OF fast]
    by (auto simp: keeps_def copyElements_def split: bool.splits copyBuffer.splits)
qed

end

subsection \<open>Examples\<close>

text \<open>A reader of instance 0 is parked with two \<open>u16\<close> of room; a writer of instance 1 has three in the memory of module 1.\<close>

definition example_buffer :: "mod_id \<Rightarrow> u32 \<Rightarrow> u32 \<Rightarrow> guestBuffer" where
  "example_buffer m ptr len = \<lparr>memMod = Some m, gb_realloc = None, gb_resolve = None, gb_elem = Some (PrimitiveDesc ''u16''),
     gb_elemSz = 2, gb_numeric = True, gb_inst = m, ownElem = None, gb_ptr = ptr, gb_length = len, gb_progress = 0\<rparr>"

definition stream_example :: stream_state where
  "stream_example = builtin_state.extend builtin_example (stream_state.fields 0 0 (\<lambda>_. newHandleTable)
     (\<lambda>_. Some [9, 9, 1, 2, 3, 4, 5, 6])
     (\<lambda>b. if b = 20 then GuestBuffer (example_buffer 0 8 2) else GuestBuffer (example_buffer 1 2 3))
     (\<lambda>_. \<lparr>ss_elem = Some (PrimitiveDesc ''u16''), ss_elemSz = 2, ss_align = 2, ss_numeric = True, ss_elemIn = Some 0,
        ss_dropped = False, ss_pendingInst = Some 0, ss_pendingBuffer = Some 20, ss_pendingOnCopy = Some 0, ss_pendingOnCopyDone = Some 0\<rparr>)
     (\<lambda>_. \<lparr>sf_elem = None, sf_elemSz = 0, sf_align = 0, sf_numeric = True, sf_elemIn = Some 0, sf_dropped = False,
        sf_pendingInst = None, sf_pendingBuffer = None, sf_pendingOnCopyDone = None\<rparr>)
     (\<lambda>_. \<lparr>se_side = sideReadable, se_state = copyIdle, se_shared = 30, livePending = False\<rparr>)
     (\<lambda>_. \<lparr>fe_side = sideReadable, fe_state = copyIdle, fe_shared = 30\<rparr>))"

definition stream_example_env :: "stream_state stream_env" where
  "stream_example_env = \<lparr>abi_fuel = 1, realloc_of = \<lambda>_. None, resCanon = \<lambda>_. None, resourceOrigin = \<lambda>_ _. None,
     on_copy = \<lambda>_ p. modify (ss_resetPending p), on_copy_done = \<lambda>_ _. sret ()\<rparr>"

lemma stream_example_simps [simp]:
  "buffers stream_example b = GuestBuffer (if b = 20 then example_buffer 0 8 2 else example_buffer 1 2 3)"
  "memoryBytesOf (Some 0) stream_example = Some ([0, 0, 0, 0, 0, 0, 0, 0, 0x68, 0x69] @ replicate 14 0)"
  "memoryBytesOf (Some (Suc 0)) stream_example = Some [9, 9, 1, 2, 3, 4, 5, 6]"
  by (simp_all add: stream_example_def memoryBytesOf_def builtin_example_def inst_state.defs builtin_state.defs stream_state.defs)

lemma stream_example_quiet: "quiet stream_example_env"
  by (simp add: quiet_def stream_example_env_def realloc_keeps_def)

theorem memmove_equals_general_witness:
  "copyElementsMemmove 20 (example_buffer 0 8 2) 21 (example_buffer 1 2 3) 2 stream_example =
   copy_general stream_example_env 20 21 2 stream_example"
proof (rule memmove_equals_general)
  show "copy_ready ''u16'' 20 (unat (2 :: u32)) stream_example" "copy_ready ''u16'' 21 (unat (2 :: u32)) stream_example"
    by (simp_all add: copy_ready_def example_buffer_def numeric_buffer_def prim_size_def sizePrimitive_def)
qed (simp_all add: memcpy_prims_def maxBufferLen_def stream_example_env_def)

theorem rendezvous_conserves_witness:
  "met stream_example_env 30 21 20 7 stream_example (snd (ss_write stream_example_env 30 (Some 1) 21 6 7 stream_example))"
proof -
  have "fst (ss_write stream_example_env 30 (Some 1) 21 6 7 stream_example) = Inr ()" by code_simp
  then have st: "ss_write stream_example_env 30 (Some 1) 21 6 7 stream_example =
    (Inr (), snd (ss_write stream_example_env 30 (Some 1) 21 6 7 stream_example))" by (simp add: prod_eq_iff)
  have "ss_pendingBuffer (streams stream_example 30) = Some 20" "\<not> ss_dropped (streams stream_example 30)"
    by (simp_all add: stream_example_def builtin_state.defs stream_state.defs)
  with rendezvous_conserves [OF stream_example_quiet, of 21 20 stream_example 30 "Some 1" 6 7] st show ?thesis
    by (simp add: remain_def example_buffer_def)
qed

theorem packCopyResult_roundtrip_witness:
  "packCopyResult copyDropped 5 AND 0xF = 1 \<and> drop_bit 4 (packCopyResult copyDropped 5) = 5 \<and> packCopyResult copyDropped 5 \<noteq> blockedSentinel"
  using packCopyResult_roundtrip [of 5 copyDropped] by (simp add: maxBufferLen_def)

end
