(* ===== verification/Type_Walk.thy ===== *)
theory Type_Walk
  imports Flatten
begin

text \<open>
  The walks over a type that decide, when an export or a built-in is bound, what its values need: \<open>typeContainsResource\<close>,
  \<open>typeContainsAsyncValueNested\<close> and \<open>usesMemory\<close> of \<open>internal/instance/instance.go\<close>, and the two walks over the element
  type of a stream of \<open>stream_builtins.go\<close>. The source writes the same recursion four times, with a guard on the depth;
  here it is one function with the test of a node as a parameter. \<open>usesMemory\<close> has no guard: its recursion is bounded by
  fuel, and \<open>None\<close> says that the fuel was used up. The resolver of an instance is never nil.
\<close>

type_synonym instance_resolver = "u32 \<Rightarrow> type_desc option"

definition maxResourceWalkDepth :: nat where "maxResourceWalkDepth = 64"

definition resolveTypeRef :: "type_ref \<Rightarrow> instance_resolver \<Rightarrow> abi_error + type_desc" where
  "resolveTypeRef ref resolve =
     (if Primitive ref \<noteq> '''' then Inr (PrimitiveDesc (Primitive ref))
      else case TypeIndex ref of
        None \<Rightarrow> Inl NeitherPrimitiveNorIndex
      | Some i \<Rightarrow> (case resolve i of None \<Rightarrow> Inl (ResolvedToNil i) | Some t \<Rightarrow> Inr t))"

text \<open>The references a walk follows, in its order.\<close>

fun walk_refs :: "type_desc \<Rightarrow> type_ref list" where
  "walk_refs (ListDesc e) = [e]"
| "walk_refs (OptionDesc e) = [e]"
| "walk_refs (RecordDesc fs) = map FieldType fs"
| "walk_refs (TupleDesc es) = es"
| "walk_refs (VariantDesc cs) = List.map_filter CaseType cs"
| "walk_refs (ResultDesc a b) = (case a of None \<Rightarrow> [] | Some r \<Rightarrow> [r]) @ (case b of None \<Rightarrow> [] | Some r \<Rightarrow> [r])"
| "walk_refs _ = []"

function walk :: "(nat \<Rightarrow> type_desc \<Rightarrow> bool option) \<Rightarrow> instance_resolver \<Rightarrow> nat \<Rightarrow> type_desc \<Rightarrow> bool" where
  "walk here resolve depth t =
     (if depth > maxResourceWalkDepth then False
      else case here depth t of
        Some b \<Rightarrow> b
      | None \<Rightarrow> list_ex (\<lambda>ref. case resolveTypeRef ref resolve of
          Inl _ \<Rightarrow> False | Inr t' \<Rightarrow> walk here resolve (depth + 1) t') (walk_refs t))"
  by pat_completeness auto
termination
  by (relation "measure (\<lambda>(here, resolve, depth, t). Suc maxResourceWalkDepth - depth)") auto

declare walk.simps [simp del]

definition typeContainsResource :: "type_desc \<Rightarrow> instance_resolver \<Rightarrow> nat \<Rightarrow> bool" where
  "typeContainsResource t resolve depth =
     walk (\<lambda>_ d. case d of OwnDesc _ \<Rightarrow> Some True | BorrowDesc _ \<Rightarrow> Some True | StreamDesc _ \<Rightarrow> Some True | FutureDesc _ \<Rightarrow> Some True
       | PrimitiveDesc p \<Rightarrow> Some (p = ''error-context'') | _ \<Rightarrow> None) resolve depth t"

definition typeContainsAsyncValueNested :: "type_desc \<Rightarrow> instance_resolver \<Rightarrow> nat \<Rightarrow> bool" where
  "typeContainsAsyncValueNested t resolve depth =
     walk (\<lambda>depth d. if depth > 0 then
         (case d of StreamDesc _ \<Rightarrow> Some True | FutureDesc _ \<Rightarrow> Some True
          | PrimitiveDesc p \<Rightarrow> if p = ''error-context'' then Some True else None | _ \<Rightarrow> None)
       else None) resolve depth t"

definition elemContainsResourceHandle :: "type_desc \<Rightarrow> instance_resolver \<Rightarrow> nat \<Rightarrow> bool" where
  "elemContainsResourceHandle t resolve depth =
     walk (\<lambda>_ d. case d of OwnDesc _ \<Rightarrow> Some True | BorrowDesc _ \<Rightarrow> Some True | _ \<Rightarrow> None) resolve depth t"

definition elemContainsBorrowHandle :: "type_desc \<Rightarrow> instance_resolver \<Rightarrow> nat \<Rightarrow> bool" where
  "elemContainsBorrowHandle t resolve depth =
     walk (\<lambda>_ d. case d of BorrowDesc _ \<Rightarrow> Some True | OwnDesc _ \<Rightarrow> Some False | _ \<Rightarrow> None) resolve depth t"

definition resourceTypeIdxOf :: "type_desc \<Rightarrow> u32 option" where
  "resourceTypeIdxOf t = (case t of OwnDesc r \<Rightarrow> Some r | BorrowDesc r \<Rightarrow> Some r | _ \<Rightarrow> None)"

text \<open>\<open>any_member f xs\<close>: does \<open>f\<close> hold of a member; \<open>None\<close> where \<open>f\<close> did not return.\<close>

primrec any_member :: "('a \<Rightarrow> bool option) \<Rightarrow> 'a list \<Rightarrow> bool option" where
  "any_member f [] = Some False"
| "any_member f (x # xs) = (case f x of None \<Rightarrow> None | Some b \<Rightarrow> if b then Some True else any_member f xs)"

primrec usesMemory :: "nat \<Rightarrow> instance_resolver \<Rightarrow> type_desc \<Rightarrow> bool option" where
  "usesMemory 0 resolve t = None"
| "usesMemory (Suc fuel) resolve t =
     (case t of
        PrimitiveDesc p \<Rightarrow> Some (p = ''string'')
      | ListDesc _ \<Rightarrow> Some True
      | _ \<Rightarrow> any_member (\<lambda>ref. case resolveTypeRef ref resolve of Inl _ \<Rightarrow> Some False | Inr t' \<Rightarrow> usesMemory fuel resolve t') (walk_refs t))"

subsection \<open>What a walk finds\<close>

text \<open>One reference from a type to the type it names.\<close>

definition walk_step :: "instance_resolver \<Rightarrow> (type_desc \<times> type_desc) set" where
  "walk_step rs = {(t, t'). \<exists>ref \<in> set (walk_refs t). resolveTypeRef ref rs = Inr t'}"

lemma walk_reaches:
  assumes stop: "\<And>t b. here t = Some b \<Longrightarrow> walk_refs t = []"
  shows "walk (\<lambda>_. here) rs depth t \<longleftrightarrow>
    (\<exists>k d. depth + k \<le> maxResourceWalkDepth \<and> (t, d) \<in> walk_step rs ^^ k \<and> here d = Some True)"
proof (induction "Suc maxResourceWalkDepth - depth" arbitrary: depth t)
  case 0
  then show ?case by (simp add: walk.simps [of _ _ depth])
next
  case (Suc n)
  then have le: "depth \<le> maxResourceWalkDepth" and n: "n = Suc maxResourceWalkDepth - Suc depth" by simp_all
  have child: "(\<exists>ref \<in> set (walk_refs t). case resolveTypeRef ref rs of Inl _ \<Rightarrow> False | Inr t' \<Rightarrow> P t') \<longleftrightarrow>
      (\<exists>t'. (t, t') \<in> walk_step rs \<and> P t')" for P
  proof -
    have "(case resolveTypeRef ref rs of Inl _ \<Rightarrow> False | Inr t' \<Rightarrow> P t') \<longleftrightarrow> (\<exists>t'. resolveTypeRef ref rs = Inr t' \<and> P t')" for ref
      by (cases "resolveTypeRef ref rs") simp_all
    then show ?thesis by (auto simp: walk_step_def)
  qed
  have split: "(\<exists>k d. depth + k \<le> maxResourceWalkDepth \<and> (t, d) \<in> walk_step rs ^^ k \<and> here d = Some True) \<longleftrightarrow>
      here t = Some True \<or> (\<exists>t'. (t, t') \<in> walk_step rs \<and>
        (\<exists>k d. Suc depth + k \<le> maxResourceWalkDepth \<and> (t', d) \<in> walk_step rs ^^ k \<and> here d = Some True))" (is "?L \<longleftrightarrow> ?R")
  proof
    assume ?L
    then obtain k d where kd: "depth + k \<le> maxResourceWalkDepth" "(t, d) \<in> walk_step rs ^^ k" "here d = Some True" by blast
    show ?R
    proof (cases k)
      case 0
      then show ?thesis using kd by simp
    next
      case (Suc m)
      then obtain t' where "(t, t') \<in> walk_step rs" "(t', d) \<in> walk_step rs ^^ m" using kd(2) relpow_Suc_D2 by metis
      then show ?thesis using kd Suc by auto
    qed
  next
    assume ?R
    then show ?L
    proof
      assume "here t = Some True"
      then show ?L using le by (intro exI [of _ 0] exI [of _ t]) simp
    next
      assume "\<exists>t'. (t, t') \<in> walk_step rs \<and>
        (\<exists>k d. Suc depth + k \<le> maxResourceWalkDepth \<and> (t', d) \<in> walk_step rs ^^ k \<and> here d = Some True)"
      then obtain t' k d where "(t, t') \<in> walk_step rs" "Suc depth + k \<le> maxResourceWalkDepth" "(t', d) \<in> walk_step rs ^^ k" "here d = Some True"
        by blast
      moreover from this have "(t, d) \<in> walk_step rs ^^ Suc k" by (blast intro: relpow_Suc_I2)
      ultimately show ?L by (intro exI [of _ "Suc k"] exI [of _ d]) (simp del: relpow.simps)
    qed
  qed
  have IH: "walk (\<lambda>_. here) rs (Suc depth) t' \<longleftrightarrow>
      (\<exists>k d. Suc depth + k \<le> maxResourceWalkDepth \<and> (t', d) \<in> walk_step rs ^^ k \<and> here d = Some True)" for t'
    using Suc.hyps(1) [OF n, of t'] .
  show ?case
  proof (cases "here t")
    case None
    then show ?thesis unfolding split IH [symmetric] using le
      by (simp add: walk.simps [of _ _ depth] list_ex_iff child)
  next
    case (Some b)
    then have "walk_refs t = []" by (rule stop)
    then show ?thesis unfolding split using le Some by (simp add: walk.simps [of _ _ depth] walk_step_def)
  qed
qed

definition is_handle :: "type_desc \<Rightarrow> bool" where
  "is_handle t \<longleftrightarrow> (\<exists>r. t = OwnDesc r \<or> t = BorrowDesc r)"

definition is_async_value :: "type_desc \<Rightarrow> bool" where
  "is_async_value t \<longleftrightarrow> (\<exists>e. t = StreamDesc e \<or> t = FutureDesc e) \<or> t = PrimitiveDesc ''error-context''"

text \<open>A type with the property is at most \<open>k\<close> references away.\<close>

definition found_within :: "instance_resolver \<Rightarrow> nat \<Rightarrow> type_desc \<Rightarrow> (type_desc \<Rightarrow> bool) \<Rightarrow> bool" where
  "found_within rs k t P \<longleftrightarrow> (\<exists>j d. j \<le> k \<and> (t, d) \<in> walk_step rs ^^ j \<and> P d)"

lemma walk_finds:
  assumes "\<And>d. here d = Some True \<longleftrightarrow> P d" "\<And>d b. here d = Some b \<Longrightarrow> walk_refs d = []"
  shows "walk (\<lambda>_. here) rs 0 t \<longleftrightarrow> found_within rs maxResourceWalkDepth t P"
  using walk_reaches [of here rs 0 t, OF assms(2)] assms(1) by (simp add: found_within_def)

lemma typeContainsResource_iff:
  "typeContainsResource t rs 0 \<longleftrightarrow> found_within rs maxResourceWalkDepth t (\<lambda>d. is_handle d \<or> is_async_value d)"
  unfolding typeContainsResource_def
  by (rule walk_finds) (simp_all add: is_handle_def is_async_value_def split: type_desc.split type_desc.split_asm)

lemma elemContainsResourceHandle_iff:
  "elemContainsResourceHandle t rs 0 \<longleftrightarrow> found_within rs maxResourceWalkDepth t is_handle"
  unfolding elemContainsResourceHandle_def
  by (rule walk_finds) (simp_all add: is_handle_def split: type_desc.split type_desc.split_asm)

lemma elemContainsBorrowHandle_iff:
  "elemContainsBorrowHandle t rs 0 \<longleftrightarrow> found_within rs maxResourceWalkDepth t (\<lambda>d. \<exists>r. d = BorrowDesc r)"
  unfolding elemContainsBorrowHandle_def
  by (rule walk_finds) (simp_all split: type_desc.split type_desc.split_asm)

text \<open>What the walks over a type find: a value of the type needs the handle table exactly if a handle, a stream, a future or an
  error context is at most 64 references away; the two walks over an element type find exactly the handles, and
  the borrowed handles, at that distance. A handle further away is overlooked.\<close>

theorem type_walks_complete:
  "(typeContainsResource t rs 0 \<longleftrightarrow> found_within rs 64 t (\<lambda>d. is_handle d \<or> is_async_value d)) \<and>
   (elemContainsResourceHandle t rs 0 \<longleftrightarrow> found_within rs 64 t is_handle) \<and>
   (elemContainsBorrowHandle t rs 0 \<longleftrightarrow> found_within rs 64 t (\<lambda>d. \<exists>r. d = BorrowDesc r))"
  using typeContainsResource_iff elemContainsResourceHandle_iff elemContainsBorrowHandle_iff
  by (simp add: maxResourceWalkDepth_def)

text \<open>\<open>usesMemory\<close> has no guard: on a record that contains itself it does not return, whatever the fuel.\<close>

lemma usesMemory_diverges:
  assumes "rs i = Some (RecordDesc [f])" "Primitive (FieldType f) = ''''" "TypeIndex (FieldType f) = Some i"
  shows "usesMemory fuel rs (RecordDesc [f]) = None"
  using assms by (induction fuel) (simp_all add: resolveTypeRef_def)

end
