(* ===== verification/Stream_Builtins.thy ===== *)
theory Stream_Builtins
  imports Stream_Copy Type_Walk
begin

text \<open>
  The built-ins of streams and futures (\<open>internal/instance/stream_builtins.go\<close>) and the ends the host holds
  (\<open>stream_host.go\<close>). The completion callbacks of a copy are closures in the source; here they are data, the
  variables each captures, in a store, and \<open>run_on_copy\<close>, \<open>run_on_copy_done\<close> and \<open>run_event\<close> are their bodies. The callback a
  host passes (\<open>onDone\<close>) is a parameter. What a built-in was bound with, the element type and the memory and allocator of
  its options, are arguments.
\<close>

subsection \<open>State\<close>

text \<open>The closures of a copy: of a stream end, of a future end, and of the four operations of the host.\<close>

datatype copy_closure =
    StreamCopy ref eventCode u32 ref
  | FutureCopy ref eventCode u32
  | HostWrite ref callback ref
  | HostRead ref callback ref
  | HostSet ref callback
  | HostGet ref callback ref

text \<open>The event thunks: the end, the event code, the handle, the buffer, the result and the stream to reclaim.\<close>

datatype event_thunk =
    StreamEvent ref eventCode u32 ref copyResult "ref option"
  | FutureEvent ref eventCode u32 copyResult

record host_end =
  he_shared :: ref
  he_state :: copyState

record endpoint_state = stream_state +
  copy_closures :: "callback \<Rightarrow> copy_closure"
  event_thunks :: "callback \<Rightarrow> event_thunk"
  host_ends :: "ref \<Rightarrow> host_end"
  inHostCall :: int

record 's endpoint_env =
  be :: "'s builtin_env"
  ep_fuel :: nat
  ep_realloc :: "callback \<Rightarrow> 's realloc"
  ep_resCanon :: "inst_id \<Rightarrow> (u32 \<Rightarrow> u32) option"
  ep_origin :: "inst_id \<Rightarrow> u32 \<Rightarrow> (inst_id \<times> u32) option"
  inst_resolve :: "inst_id \<Rightarrow> instance_resolver"
  cabi_realloc :: "mod_id \<Rightarrow> callback option"
  on_host_done :: "callback \<Rightarrow> copyResult \<Rightarrow> u32 \<Rightarrow> val list \<Rightarrow> ('s, runtime_error, unit) op"

definition upd_end :: "ref \<Rightarrow> (streamEnd \<Rightarrow> streamEnd) \<Rightarrow> 'a stream_state_scheme \<Rightarrow> 'a stream_state_scheme" where
  "upd_end e f s = s\<lparr>streamEnds := (streamEnds s)(e := f (streamEnds s e))\<rparr>"

definition upd_fend :: "ref \<Rightarrow> (futureEnd \<Rightarrow> futureEnd) \<Rightarrow> 'a stream_state_scheme \<Rightarrow> 'a stream_state_scheme" where
  "upd_fend e f s = s\<lparr>futureEnds := (futureEnds s)(e := f (futureEnds s e))\<rparr>"

definition upd_host_end :: "ref \<Rightarrow> (host_end \<Rightarrow> host_end) \<Rightarrow> 'a endpoint_state_scheme \<Rightarrow> 'a endpoint_state_scheme" where
  "upd_host_end e f s = s\<lparr>host_ends := (host_ends s)(e := f (host_ends s e))\<rparr>"

text \<open>Making a closure.\<close>

definition new_copy_closure :: "copy_closure \<Rightarrow> ('a endpoint_state_scheme, runtime_error, callback) op" where
  "new_copy_closure c s = (Inr (fresh_ref s), s\<lparr>fresh_ref := fresh_ref s + 1, copy_closures := (copy_closures s)(fresh_ref s := c)\<rparr>)"

definition set_event :: "ref \<Rightarrow> event_thunk \<Rightarrow> 'a endpoint_state_scheme \<Rightarrow> 'a endpoint_state_scheme" where
  "set_event w ev s =
     setPendingEvent w (fresh_ref s) (s\<lparr>fresh_ref := fresh_ref s + 1, event_thunks := (event_thunks s)(fresh_ref s := ev)\<rparr>)"

subsection \<open>The closures of a copy\<close>

text \<open>\<open>streamEvent\<close> and \<open>futureEvent\<close>: the state of the end changes when the event is delivered.\<close>

definition run_event :: "callback \<Rightarrow> ('a endpoint_state_scheme, runtime_error, eventTuple) op" where
  "run_event c s =
     (case event_thunks s c of
        StreamEvent e code i b res reclaim \<Rightarrow>
          (let s1 = (case reclaim of None \<Rightarrow> s | Some p \<Rightarrow> ss_resetPending p s);
               s2 = upd_end e (\<lambda>x. x\<lparr>se_state := (if res = copyDropped then copyDone else copyIdle)\<rparr>) s1
           in (Inr \<lparr>event_code = code, p1 = i, p2 = packCopyResult res (progressed b s2)\<rparr>, s2))
      | FutureEvent e code i res \<Rightarrow>
          (Inr \<lparr>event_code = code, p1 = i, p2 = copy_number res\<rparr>,
           upd_fend e (\<lambda>x. x\<lparr>fe_state := (if res = copyDropped \<or> res = copyCompleted then copyDone else copyIdle)\<rparr>) s))"

definition host_vals :: "ref \<Rightarrow> 'a stream_state_scheme \<Rightarrow> val list" where
  "host_vals b s = (case buffers s b of HostBuffer h \<Rightarrow> hb_vals h | GuestBuffer _ \<Rightarrow> [])"

text \<open>\<open>fire\<close> of \<open>StreamWriter.Write\<close> and \<open>StreamReader.Read\<close>.\<close>

definition fire :: "'a endpoint_state_scheme endpoint_env \<Rightarrow> ref \<Rightarrow> callback \<Rightarrow> ref \<Rightarrow> copyResult \<Rightarrow> ('a endpoint_state_scheme, runtime_error, unit) op" where
  "fire env w onDone b res s =
     (let s1 = upd_host_end w (\<lambda>x. x\<lparr>he_state := (if res = copyDropped then copyDone else copyIdle)\<rparr>) s
      in on_host_done env onDone res (progressed b s1) (host_vals b s1) s1)"

definition run_on_copy :: "'a endpoint_state_scheme endpoint_env \<Rightarrow> callback \<Rightarrow> ref \<Rightarrow> ('a endpoint_state_scheme, runtime_error, unit) op" where
  "run_on_copy env c p s =
     (case copy_closures s c of
        StreamCopy e code i b \<Rightarrow>
          (let s1 = upd_end e (\<lambda>x. x\<lparr>livePending := remain b s > 0\<rparr>) s
           in (Inr (), set_event e (StreamEvent e code i b copyCompleted (Some p)) s1))
      | HostWrite w onDone b \<Rightarrow> fire env w onDone b copyCompleted (ss_resetPending p s)
      | HostRead r onDone b \<Rightarrow> fire env r onDone b copyCompleted (ss_resetPending p s)
      | _ \<Rightarrow> (Inl (TablePanic ''nil func''), s))"

definition run_on_copy_done :: "'a endpoint_state_scheme endpoint_env \<Rightarrow> callback \<Rightarrow> copyResult \<Rightarrow> ('a endpoint_state_scheme, runtime_error, unit) op" where
  "run_on_copy_done env c res s =
     (case copy_closures s c of
        StreamCopy e code i b \<Rightarrow>
          (Inr (), set_event e (StreamEvent e code i b res None) (upd_end e (\<lambda>x. x\<lparr>livePending := False\<rparr>) s))
      | FutureCopy e code i \<Rightarrow> (Inr (), set_event e (FutureEvent e code i res) s)
      | HostWrite w onDone b \<Rightarrow> fire env w onDone b res s
      | HostRead r onDone b \<Rightarrow> fire env r onDone b res s
      | HostSet w onDone \<Rightarrow>
          on_host_done env onDone res 0 [] (upd_host_end w (\<lambda>x. x\<lparr>he_state := copyDone\<rparr>) s)
      | HostGet r onDone b \<Rightarrow>
          (let s1 = upd_host_end r (\<lambda>x. x\<lparr>he_state := copyDone\<rparr>) s; vs = host_vals b s1
           in on_host_done env onDone res 0 (if length vs = 1 then [hd vs] else [VNil]) s1))"

definition stream_part :: "'a endpoint_state_scheme endpoint_env \<Rightarrow> 'a endpoint_state_scheme stream_env" where
  "stream_part env =
     \<lparr>abi_fuel = ep_fuel env, realloc_of = ep_realloc env, resCanon = ep_resCanon env, resourceOrigin = ep_origin env,
      on_copy = run_on_copy env, on_copy_done = run_on_copy_done env\<rparr>"

subsection \<open>Binding\<close>

text \<open>\<open>ResolveType\<close> of the component is a parameter. The result is the element type, its size and alignment and whether it is
  numeric.\<close>

definition abi :: "abi_error + 'b \<Rightarrow> runtime_error + 'b" where
  "abi r = (case r of Inl e \<Rightarrow> Inl (AbiError e) | Inr x \<Rightarrow> Inr x)"

definition is_own :: "type_desc \<Rightarrow> bool" where
  "is_own t = (case t of OwnDesc _ \<Rightarrow> True | _ \<Rightarrow> False)"

definition resolveStreamOrFutureElem ::
    "(u32 \<Rightarrow> abi_error + type_desc) \<Rightarrow> instance_resolver \<Rightarrow> bool \<Rightarrow> u32 \<Rightarrow>
     runtime_error + type_desc option \<times> nat \<times> nat \<times> bool" where
  "resolveStreamOrFutureElem resolve_type rs isFuture ti =
     (rbind (abi (resolve_type ti)) (\<lambda>td.
      rbind (case td of
               FutureDesc e \<Rightarrow> if isFuture then Inr e else Inl NotStreamType
             | StreamDesc e \<Rightarrow> if isFuture then Inl NotStreamType else Inr e
             | _ \<Rightarrow> Inl NotStreamType) (\<lambda>ref.
      case ref of None \<Rightarrow> Inr (None, 0, 0, True)
      | Some ref \<Rightarrow>
          rbind (abi (resolveTypeRef ref rs)) (\<lambda>elem.
          if elemContainsBorrowHandle elem rs 0 then Inl BorrowElement
          else if \<not> is_own elem \<and> elemContainsResourceHandle elem rs 0 then Inl ResourceElement
          else rbind (abi (Size (Some elem) (Some rs))) (\<lambda>sz.
               rbind (abi (Alignment (Some elem) (Some rs))) (\<lambda>al.
               Inr (Some elem, sz, al, noneOrNumberType (Some elem))))))))"

subsection \<open>Operations that may drive the scheduler\<close>

type_synonym ('s, 'b) driven = "'s \<Rightarrow> ((runtime_error + 'b) \<times> 's) option"

definition dlift :: "('s, runtime_error, 'b) op \<Rightarrow> ('s, 'b) driven" where
  "dlift f s = Some (f s)"

definition dbind :: "('s, 'b) driven \<Rightarrow> ('b \<Rightarrow> ('s, 'c) driven) \<Rightarrow> ('s, 'c) driven" where
  "dbind f g s =
     (case f s of None \<Rightarrow> None | Some (Inl e, s') \<Rightarrow> Some (Inl e, s') | Some (Inr x, s') \<Rightarrow> g x s')"

text \<open>\<open>wait_for_pending_event\<close>: the waitable is marked while its task is blocked, or the scheduler driven, until it has an event.\<close>

definition await_event :: "'a endpoint_state_scheme endpoint_env \<Rightarrow> bool \<Rightarrow> ref \<Rightarrow> ('a endpoint_state_scheme, unit) driven" where
  "await_event env blk w s =
     (let mark = (\<lambda>b. upd_waitable w (\<lambda>x. x\<lparr>syncWaiter := b\<rparr>)) in
      if blk then
        (case block (be env) (hasPendingEvent w) False (mark True s) of
           (Inl e, s1) \<Rightarrow> Some (Inl e, s1)
         | (Inr _, s1) \<Rightarrow> Some (Inr (), mark False s1))
      else
        (case drive (instance_sched (be env)) (hasPendingEvent w) (mark True s) of
           None \<Rightarrow> None
         | Some (r, s1) \<Rightarrow> Some (r, mark False s1)))"

definition deliver :: "ref \<Rightarrow> ('a endpoint_state_scheme, runtime_error, u32) op" where
  "deliver e = sbind (getPendingEvent run_event e) (\<lambda>ev. sret (p2 ev))"

text \<open>The end of a copy or a cancellation: deliver at once, report that it blocked, or wait.\<close>

definition complete :: "'a endpoint_state_scheme endpoint_env \<Rightarrow> bool \<Rightarrow> bool \<Rightarrow> ref \<Rightarrow> ('a endpoint_state_scheme, u32) driven" where
  "complete env async blk e s =
     (if hasPendingEvent e s then Some (deliver e s)
      else if async then Some (Inr blockedSentinel, s)
      else dbind (await_event env blk e) (\<lambda>_. dlift (deliver e)) s)"

subsection \<open>The ends in the handle table\<close>

definition requireStreamEnd ::
    "'a endpoint_state_scheme endpoint_env \<Rightarrow> u32 \<Rightarrow> endSide \<Rightarrow> type_desc option \<Rightarrow> ('a endpoint_state_scheme, runtime_error, ref) op" where
  "requireStreamEnd env i side elem s =
     (case getEntry i s of
        Some (StreamEndEntry e) \<Rightarrow>
          (let x = streamEnds s e; sh = streams s (se_shared x) in
           if se_side x \<noteq> side then (Inl WrongEndSide, s)
           else if \<not> elemTypesCompatible (stream_part env) (ss_elemIn sh) (ss_elem sh) (Some (this_inst s)) elem then (Inl ElementMismatch, s)
           else (Inr e, s))
      | _ \<Rightarrow> (Inl NotStreamEnd, s))"

definition requireFutureEnd ::
    "'a endpoint_state_scheme endpoint_env \<Rightarrow> u32 \<Rightarrow> endSide \<Rightarrow> type_desc option \<Rightarrow> ('a endpoint_state_scheme, runtime_error, ref) op" where
  "requireFutureEnd env i side elem s =
     (case getEntry i s of
        Some (FutureEndEntry e) \<Rightarrow>
          (let x = futureEnds s e; sh = futures s (fe_shared x) in
           if fe_side x \<noteq> side then (Inl WrongEndSide, s)
           else if \<not> elemTypesCompatible (stream_part env) (sf_elemIn sh) (sf_elem sh) (Some (this_inst s)) elem then (Inl ElementMismatch, s)
           else (Inr e, s))
      | _ \<Rightarrow> (Inl NotFutureEnd, s))"

text \<open>The two new handles, the readable one in the low half.\<close>

definition pack_handles :: "u32 \<Rightarrow> u32 \<Rightarrow> u64" where
  "pack_handles ri wi = ucast ri OR push_bit 32 (ucast wi)"

definition streamNew :: "type_desc option \<Rightarrow> u32 \<Rightarrow> u32 \<Rightarrow> bool \<Rightarrow> ('a endpoint_state_scheme, runtime_error, u64) op" where
  "streamNew elem elemSz align numeric =
     sbind requireMayLeave (\<lambda>_ s.
       (let p = fresh_ref s;
            s1 = s\<lparr>fresh_ref := p + 3,
              streams := (streams s)(p := \<lparr>ss_elem = elem, ss_elemSz = elemSz, ss_align = align, ss_numeric = numeric,
                ss_elemIn = Some (this_inst s), ss_dropped = False, ss_pendingInst = None, ss_pendingBuffer = None,
                ss_pendingOnCopy = None, ss_pendingOnCopyDone = None\<rparr>),
              streamEnds := (streamEnds s)(p + 1 := \<lparr>se_side = sideReadable, se_state = copyIdle, se_shared = p, livePending = False\<rparr>,
                p + 2 := \<lparr>se_side = sideWritable, se_state = copyIdle, se_shared = p, livePending = False\<rparr>),
              waitables := (waitables s)(p + 1 := zero_waitable, p + 2 := zero_waitable)\<rparr>;
            (ri, s2) = addEntry (StreamEndEntry (p + 1)) s1;
            (wi, s3) = addEntry (StreamEndEntry (p + 2)) s2
        in (Inr (pack_handles ri wi), s3)))"

definition futureNew :: "type_desc option \<Rightarrow> u32 \<Rightarrow> u32 \<Rightarrow> bool \<Rightarrow> ('a endpoint_state_scheme, runtime_error, u64) op" where
  "futureNew elem elemSz align numeric =
     sbind requireMayLeave (\<lambda>_ s.
       (let p = fresh_ref s;
            s1 = s\<lparr>fresh_ref := p + 3,
              futures := (futures s)(p := \<lparr>sf_elem = elem, sf_elemSz = elemSz, sf_align = align, sf_numeric = numeric,
                sf_elemIn = Some (this_inst s), sf_dropped = False, sf_pendingInst = None, sf_pendingBuffer = None,
                sf_pendingOnCopyDone = None\<rparr>),
              futureEnds := (futureEnds s)(p + 1 := \<lparr>fe_side = sideReadable, fe_state = copyIdle, fe_shared = p\<rparr>,
                p + 2 := \<lparr>fe_side = sideWritable, fe_state = copyIdle, fe_shared = p\<rparr>),
              waitables := (waitables s)(p + 1 := zero_waitable, p + 2 := zero_waitable)\<rparr>;
            (ri, s2) = addEntry (FutureEndEntry (p + 1)) s1;
            (wi, s3) = addEntry (FutureEndEntry (p + 2)) s2
        in (Inr (pack_handles ri wi), s3)))"

subsection \<open>Copying\<close>

text \<open>The module and the allocator of a call: those of the options, else the calling module and its \<open>cabi_realloc\<close>.\<close>

definition call_module :: "mod_id option \<Rightarrow> 'a stream_state_scheme \<Rightarrow> mod_id" where
  "call_module mm s = (case mm of Some m \<Rightarrow> m | None \<Rightarrow> this_mod s)"

definition call_buffer ::
    "'a endpoint_state_scheme endpoint_env \<Rightarrow> mod_id option \<Rightarrow> callback option \<Rightarrow> type_desc option \<Rightarrow> u32 \<Rightarrow> u32 \<Rightarrow> bool \<Rightarrow> u32 \<Rightarrow> u32 \<Rightarrow>
     ('a endpoint_state_scheme, runtime_error, ref) op" where
  "call_buffer env mm reallocFn elem elemSz align numeric ptr n s =
     (let m = call_module mm s;
          ra = (case reallocFn of Some f \<Rightarrow> Some f | None \<Rightarrow> cabi_realloc env m)
      in newGuestBuffer (this_inst s) (Some m) ra (Some (inst_resolve env (this_inst s))) elem elemSz align numeric ptr n s)"

definition maySync :: "'a endpoint_state_scheme endpoint_env \<Rightarrow> bool \<Rightarrow> ('a endpoint_state_scheme, runtime_error, bool) op" where
  "maySync env async = (if async then sret False else requireNotSyncImplicit (be env))"

definition streamCopy_start ::
    "'a endpoint_state_scheme endpoint_env \<Rightarrow> endSide \<Rightarrow> eventCode \<Rightarrow> type_desc option \<Rightarrow> u32 \<Rightarrow> u32 \<Rightarrow> bool \<Rightarrow> bool \<Rightarrow> mod_id option \<Rightarrow>
     callback option \<Rightarrow> u32 \<Rightarrow> u32 \<Rightarrow> u32 \<Rightarrow> ('a endpoint_state_scheme, runtime_error, bool \<times> ref) op" where
  "streamCopy_start env side code elem elemSz align numeric async mm reallocFn i ptr n =
     sbind requireMayLeave (\<lambda>_.
     sbind (maySync env async) (\<lambda>blk.
     sbind (requireStreamEnd env i side elem) (\<lambda>e.
     sbind (getting (\<lambda>s. se_state (streamEnds s e))) (\<lambda>st.
     sbind (require (st = copyIdle) (NotIdle (copyNotIdleTrapText False side st))) (\<lambda>_.
     sbind (getting (inWaitableSet e)) (\<lambda>joined.
     sbind (require (\<not> (joined \<and> \<not> async)) InWaitableSet) (\<lambda>_.
     sbind (call_buffer env mm reallocFn elem elemSz align numeric ptr n) (\<lambda>b.
     sbind (new_copy_closure (StreamCopy e code i b)) (\<lambda>c.
     sbind (modify (upd_end e (\<lambda>x. x\<lparr>livePending := False, se_state := copyCopying\<rparr>))) (\<lambda>_.
     sbind (\<lambda>s. (if side = sideReadable then ss_read else ss_write) (stream_part env) (se_shared (streamEnds s e))
              (Some (this_inst s)) b c c s) (\<lambda>_.
     sret (blk, e))))))))))))"

definition streamCopy ::
    "'a endpoint_state_scheme endpoint_env \<Rightarrow> endSide \<Rightarrow> eventCode \<Rightarrow> type_desc option \<Rightarrow> u32 \<Rightarrow> u32 \<Rightarrow> bool \<Rightarrow> bool \<Rightarrow> mod_id option \<Rightarrow>
     callback option \<Rightarrow> u32 \<Rightarrow> u32 \<Rightarrow> u32 \<Rightarrow> ('a endpoint_state_scheme, u32) driven" where
  "streamCopy env side code elem elemSz align numeric async mm reallocFn i ptr n =
     dbind (dlift (streamCopy_start env side code elem elemSz align numeric async mm reallocFn i ptr n))
       (\<lambda>(blk, e). complete env async blk e)"

definition futureCopy_start ::
    "'a endpoint_state_scheme endpoint_env \<Rightarrow> endSide \<Rightarrow> eventCode \<Rightarrow> type_desc option \<Rightarrow> u32 \<Rightarrow> u32 \<Rightarrow> bool \<Rightarrow> bool \<Rightarrow> mod_id option \<Rightarrow>
     callback option \<Rightarrow> u32 \<Rightarrow> u32 \<Rightarrow> ('a endpoint_state_scheme, runtime_error, bool \<times> ref) op" where
  "futureCopy_start env side code elem elemSz align numeric async mm reallocFn i ptr =
     sbind requireMayLeave (\<lambda>_.
     sbind (maySync env async) (\<lambda>blk.
     sbind (requireFutureEnd env i side elem) (\<lambda>e.
     sbind (getting (\<lambda>s. fe_state (futureEnds s e))) (\<lambda>st.
     sbind (require (st = copyIdle) (NotIdle (copyNotIdleTrapText True side st))) (\<lambda>_.
     sbind (getting (inWaitableSet e)) (\<lambda>joined.
     sbind (require (\<not> (joined \<and> \<not> async)) InWaitableSet) (\<lambda>_.
     sbind (call_buffer env mm reallocFn elem elemSz align numeric ptr 1) (\<lambda>b.
     sbind (new_copy_closure (FutureCopy e code i)) (\<lambda>c.
     sbind (modify (upd_fend e (\<lambda>x. x\<lparr>fe_state := copyCopying\<rparr>))) (\<lambda>_.
     sbind (\<lambda>s. (if side = sideReadable then sf_read else sf_write) (stream_part env) (fe_shared (futureEnds s e))
              (Some (this_inst s)) b c s) (\<lambda>_.
     sret (blk, e))))))))))))"

definition futureCopy ::
    "'a endpoint_state_scheme endpoint_env \<Rightarrow> endSide \<Rightarrow> eventCode \<Rightarrow> type_desc option \<Rightarrow> u32 \<Rightarrow> u32 \<Rightarrow> bool \<Rightarrow> bool \<Rightarrow> mod_id option \<Rightarrow>
     callback option \<Rightarrow> u32 \<Rightarrow> u32 \<Rightarrow> ('a endpoint_state_scheme, u32) driven" where
  "futureCopy env side code elem elemSz align numeric async mm reallocFn i ptr =
     dbind (dlift (futureCopy_start env side code elem elemSz align numeric async mm reallocFn i ptr))
       (\<lambda>(blk, e). complete env async blk e)"

subsection \<open>Dropping and cancelling\<close>

definition copying :: "copyState \<Rightarrow> bool" where
  "copying st \<longleftrightarrow> st = copyCopying \<or> st = copyCancelling"

definition streamDrop ::
    "'a endpoint_state_scheme endpoint_env \<Rightarrow> endSide \<Rightarrow> type_desc option \<Rightarrow> u32 \<Rightarrow> ('a endpoint_state_scheme, runtime_error, unit) op" where
  "streamDrop env side elem i =
     sbind requireMayLeave (\<lambda>_.
     sbind (requireStreamEnd env i side elem) (\<lambda>e.
     sbind (getting (\<lambda>s. streamEnds s e)) (\<lambda>x.
     sbind (require (\<not> copying (se_state x)) EndBusy) (\<lambda>_.
     sbind (ss_drop (stream_part env) (se_shared x)) (\<lambda>_.
     sbind (dropWaitable e) (\<lambda>_.
     modify (\<lambda>s. snd (removeEntry i s))))))))"

definition futureDrop ::
    "'a endpoint_state_scheme endpoint_env \<Rightarrow> endSide \<Rightarrow> type_desc option \<Rightarrow> u32 \<Rightarrow> ('a endpoint_state_scheme, runtime_error, unit) op" where
  "futureDrop env side elem i =
     sbind requireMayLeave (\<lambda>_.
     sbind (requireFutureEnd env i side elem) (\<lambda>e.
     sbind (getting (\<lambda>s. futureEnds s e)) (\<lambda>x.
     sbind (require (\<not> (side = sideWritable \<and> fe_state x \<noteq> copyDone)) FutureUnwritten) (\<lambda>_.
     sbind (require (\<not> copying (fe_state x)) EndBusy) (\<lambda>_.
     sbind (sf_drop (stream_part env) (fe_shared x)) (\<lambda>_.
     sbind (dropWaitable e) (\<lambda>_.
     modify (\<lambda>s. snd (removeEntry i s)))))))))"

text \<open>The accessors that \<open>cancel-read\<close> and \<open>cancel-write\<close> choose between for a future and a stream.\<close>

definition end_state :: "bool \<Rightarrow> ref \<Rightarrow> 'a stream_state_scheme \<Rightarrow> copyState" where
  "end_state isFuture e s = (if isFuture then fe_state (futureEnds s e) else se_state (streamEnds s e))"

definition set_cancelling :: "bool \<Rightarrow> ref \<Rightarrow> 'a stream_state_scheme \<Rightarrow> 'a stream_state_scheme" where
  "set_cancelling isFuture e =
     (if isFuture then upd_fend e (\<lambda>x. x\<lparr>fe_state := copyCancelling\<rparr>) else upd_end e (\<lambda>x. x\<lparr>se_state := copyCancelling\<rparr>))"

definition shared_cancel :: "'a endpoint_state_scheme endpoint_env \<Rightarrow> bool \<Rightarrow> ref \<Rightarrow> ('a endpoint_state_scheme, runtime_error, unit) op" where
  "shared_cancel env isFuture e s =
     (if isFuture then sf_cancel (stream_part env) (fe_shared (futureEnds s e)) s
      else ss_cancel (stream_part env) (se_shared (streamEnds s e)) s)"

definition is_live :: "bool \<Rightarrow> ref \<Rightarrow> 'a stream_state_scheme \<Rightarrow> bool" where
  "is_live isFuture e s \<longleftrightarrow> \<not> isFuture \<and> livePending (streamEnds s e)"

definition cancelCopy_start ::
    "'a endpoint_state_scheme endpoint_env \<Rightarrow> bool \<Rightarrow> endSide \<Rightarrow> type_desc option \<Rightarrow> bool \<Rightarrow> u32 \<Rightarrow>
     ('a endpoint_state_scheme, runtime_error, bool \<times> ref) op" where
  "cancelCopy_start env isFuture side elem async i =
     sbind requireMayLeave (\<lambda>_.
     sbind (maySync env async) (\<lambda>blk.
     sbind (if isFuture then requireFutureEnd env i side elem else requireStreamEnd env i side elem) (\<lambda>e.
     sbind (getting (end_state isFuture e)) (\<lambda>st.
     sbind (require (st = copyCopying) NotCopying) (\<lambda>_.
     sbind (getting (inWaitableSet e)) (\<lambda>joined.
     sbind (require (\<not> (joined \<and> \<not> async)) InWaitableSet) (\<lambda>_.
     sbind (modify (set_cancelling isFuture e)) (\<lambda>_.
     sbind (getting (\<lambda>s. \<not> hasPendingEvent e s \<or> is_live isFuture e s)) (\<lambda>cancel.
     sbind (if cancel then shared_cancel env isFuture e else sret ()) (\<lambda>_.
     sret (blk, e)))))))))))"

definition cancelCopy ::
    "'a endpoint_state_scheme endpoint_env \<Rightarrow> bool \<Rightarrow> endSide \<Rightarrow> type_desc option \<Rightarrow> bool \<Rightarrow> u32 \<Rightarrow> ('a endpoint_state_scheme, u32) driven" where
  "cancelCopy env isFuture side elem async i =
     dbind (dlift (cancelCopy_start env isFuture side elem async i)) (\<lambda>(blk, e). complete env async blk e)"

subsection \<open>The ends of the host\<close>

definition requireSchedulable :: "('a endpoint_state_scheme, runtime_error, unit) op" where
  "requireSchedulable s = require (\<not> (activeTask s \<noteq> None \<and> \<not> pumping s \<and> inHostCall s = 0)) NotSchedulable s"

definition resolveNewElem :: "instance_resolver \<Rightarrow> type_desc option \<Rightarrow> runtime_error + nat \<times> nat \<times> bool" where
  "resolveNewElem rs elem =
     (case elem of None \<Rightarrow> Inr (0, 0, True)
      | Some t \<Rightarrow>
          if elemContainsResourceHandle t rs 0 then Inl ResourceElement
          else rbind (abi (Size elem (Some rs))) (\<lambda>sz.
               rbind (abi (Alignment elem (Some rs))) (\<lambda>al. Inr (sz, al, noneOrNumberType elem))))"

definition newStream :: "'a endpoint_state_scheme endpoint_env \<Rightarrow> type_desc option \<Rightarrow> ('a endpoint_state_scheme, runtime_error, ref \<times> ref) op" where
  "newStream env elem s =
     (case resolveNewElem (inst_resolve env (this_inst s)) elem of
        Inl e \<Rightarrow> (Inl e, s)
      | Inr (sz, al, numeric) \<Rightarrow>
          (let p = fresh_ref s in
           (Inr (p + 1, p), s\<lparr>fresh_ref := p + 2,
              streams := (streams s)(p := \<lparr>ss_elem = elem, ss_elemSz = word_of_nat sz, ss_align = word_of_nat al, ss_numeric = numeric,
                ss_elemIn = None, ss_dropped = False, ss_pendingInst = None, ss_pendingBuffer = None,
                ss_pendingOnCopy = None, ss_pendingOnCopyDone = None\<rparr>),
              host_ends := (host_ends s)(p + 1 := \<lparr>he_shared = p, he_state = copyIdle\<rparr>)\<rparr>)))"

definition newFuture :: "'a endpoint_state_scheme endpoint_env \<Rightarrow> type_desc option \<Rightarrow> ('a endpoint_state_scheme, runtime_error, ref \<times> ref) op" where
  "newFuture env elem s =
     (case resolveNewElem (inst_resolve env (this_inst s)) elem of
        Inl e \<Rightarrow> (Inl e, s)
      | Inr (sz, al, numeric) \<Rightarrow>
          (let p = fresh_ref s in
           (Inr (p + 1, p), s\<lparr>fresh_ref := p + 2,
              futures := (futures s)(p := \<lparr>sf_elem = elem, sf_elemSz = word_of_nat sz, sf_align = word_of_nat al, sf_numeric = numeric,
                sf_elemIn = None, sf_dropped = False, sf_pendingInst = None, sf_pendingBuffer = None, sf_pendingOnCopyDone = None\<rparr>),
              host_ends := (host_ends s)(p + 1 := \<lparr>he_shared = p, he_state = copyIdle\<rparr>)\<rparr>)))"

text \<open>A new buffer of the host, a closure that captures it, and the end in the state of a copy.\<close>

definition host_copy ::
    "ref \<Rightarrow> hostBuffer \<Rightarrow> (ref \<Rightarrow> copy_closure) \<Rightarrow> ('a endpoint_state_scheme, runtime_error, ref \<times> callback) op" where
  "host_copy w buf mk =
     sbind requireSchedulable (\<lambda>_.
     sbind (getting (\<lambda>s. he_state (host_ends s w))) (\<lambda>st.
     sbind (require (st = copyIdle) (NotIdle ''previous operation pending'')) (\<lambda>_.
     sbind new_ref (\<lambda>b.
     sbind (modify (\<lambda>s. s\<lparr>buffers := (buffers s)(b := HostBuffer buf)\<rparr>)) (\<lambda>_.
     sbind (modify (upd_host_end w (\<lambda>x. x\<lparr>he_state := copyCopying\<rparr>))) (\<lambda>_.
     sbind (new_copy_closure (mk b)) (\<lambda>c. sret (b, c))))))))"

definition writer_Write :: "'a endpoint_state_scheme endpoint_env \<Rightarrow> ref \<Rightarrow> val list \<Rightarrow> callback \<Rightarrow> ('a endpoint_state_scheme, runtime_error, unit) op" where
  "writer_Write env w vals onDone =
     sbind (host_copy w (newHostReadBuffer vals) (HostWrite w onDone)) (\<lambda>(b, c) s.
       ss_write (stream_part env) (he_shared (host_ends s w)) None b c c s)"

definition reader_Read :: "'a endpoint_state_scheme endpoint_env \<Rightarrow> ref \<Rightarrow> u32 \<Rightarrow> callback \<Rightarrow> ('a endpoint_state_scheme, runtime_error, unit) op" where
  "reader_Read env r n onDone =
     sbind (host_copy r (newHostWriteBuffer n) (HostRead r onDone)) (\<lambda>(b, c) s.
       ss_read (stream_part env) (he_shared (host_ends s r)) None b c c s)"

definition future_Set :: "'a endpoint_state_scheme endpoint_env \<Rightarrow> ref \<Rightarrow> val \<Rightarrow> callback \<Rightarrow> ('a endpoint_state_scheme, runtime_error, unit) op" where
  "future_Set env w v onDone =
     sbind (host_copy w (newHostReadBuffer [v]) (\<lambda>_. HostSet w onDone)) (\<lambda>(b, c) s.
       sf_write (stream_part env) (he_shared (host_ends s w)) None b c s)"

definition future_Get :: "'a endpoint_state_scheme endpoint_env \<Rightarrow> ref \<Rightarrow> callback \<Rightarrow> ('a endpoint_state_scheme, runtime_error, unit) op" where
  "future_Get env r onDone =
     sbind (host_copy r (newHostWriteBuffer 1) (HostGet r onDone)) (\<lambda>(b, c) s.
       sf_read (stream_part env) (he_shared (host_ends s r)) None b c s)"

text \<open>\<open>Close\<close> of the four ends: dropping, unless a copy is pending; the writer of a future must have written.\<close>

definition stream_Close :: "'a endpoint_state_scheme endpoint_env \<Rightarrow> ref \<Rightarrow> ('a endpoint_state_scheme, runtime_error, unit) op" where
  "stream_Close env w =
     sbind requireSchedulable (\<lambda>_.
     sbind (getting (\<lambda>s. host_ends s w)) (\<lambda>x.
     sbind (require (\<not> copying (he_state x)) EndBusy) (\<lambda>_.
     sbind (ss_drop (stream_part env) (he_shared x)) (\<lambda>_.
     modify (upd_host_end w (\<lambda>x. x\<lparr>he_state := copyDone\<rparr>))))))"

definition future_reader_Close :: "'a endpoint_state_scheme endpoint_env \<Rightarrow> ref \<Rightarrow> ('a endpoint_state_scheme, runtime_error, unit) op" where
  "future_reader_Close env r =
     sbind requireSchedulable (\<lambda>_.
     sbind (getting (\<lambda>s. host_ends s r)) (\<lambda>x.
     sbind (require (\<not> copying (he_state x)) EndBusy) (\<lambda>_.
     sbind (sf_drop (stream_part env) (he_shared x)) (\<lambda>_.
     modify (upd_host_end r (\<lambda>x. x\<lparr>he_state := copyDone\<rparr>))))))"

definition future_writer_Close :: "'a endpoint_state_scheme endpoint_env \<Rightarrow> ref \<Rightarrow> ('a endpoint_state_scheme, runtime_error, unit) op" where
  "future_writer_Close env w =
     sbind requireSchedulable (\<lambda>_.
     sbind (getting (\<lambda>s. host_ends s w)) (\<lambda>x.
     sbind (require (he_state x = copyDone) FutureUnwritten) (\<lambda>_.
     sf_drop (stream_part env) (he_shared x))))"

text \<open>\<open>Cancel\<close> of the two ends of a stream and of the reader of a future.\<close>

definition stream_Cancel :: "'a endpoint_state_scheme endpoint_env \<Rightarrow> ref \<Rightarrow> ('a endpoint_state_scheme, runtime_error, unit) op" where
  "stream_Cancel env w =
     sbind requireSchedulable (\<lambda>_ s.
       (if he_state (host_ends s w) \<noteq> copyCopying then (Inr (), s)
        else let s1 = upd_host_end w (\<lambda>x. x\<lparr>he_state := copyCancelling\<rparr>) s; p = he_shared (host_ends s w)
          in if ss_pendingBuffer (streams s1 p) \<noteq> None then ss_cancel (stream_part env) p s1 else (Inr (), s1)))"

definition future_Cancel :: "'a endpoint_state_scheme endpoint_env \<Rightarrow> ref \<Rightarrow> ('a endpoint_state_scheme, runtime_error, unit) op" where
  "future_Cancel env r =
     sbind requireSchedulable (\<lambda>_ s.
       (if he_state (host_ends s r) \<noteq> copyCopying then (Inr (), s)
        else let s1 = upd_host_end r (\<lambda>x. x\<lparr>he_state := copyCancelling\<rparr>) s; p = he_shared (host_ends s r)
          in if sf_pendingBuffer (futures s1 p) \<noteq> None then sf_cancel (stream_part env) p s1 else (Inr (), s1)))"

end
