(* ===== verification/Stream_Safety.thy ===== *)
theory Stream_Safety
  imports Stream_Builtins
begin

text \<open>
  What a guest relies on when it copies through a stream: a copy that cannot complete at once is parked at the stream
  and is never lost, a cancelled copy is given its event and leaves the end idle, and dropping one end completes the
  copy parked by the other. The events are those of the closures of \<open>Stream_Builtins\<close>.
\<close>

subsection \<open>No copy is lost\<close>

text \<open>A copy is \<open>pending\<close> at an end if the end has an event, or its buffer is parked at the stream with the closure
  that will give it one.\<close>

definition copy_pending :: "ref \<Rightarrow> ref \<Rightarrow> eventCode \<Rightarrow> u32 \<Rightarrow> 'a endpoint_state_scheme \<Rightarrow> bool" where
  "copy_pending p e code i s \<longleftrightarrow> hasPendingEvent e s \<or>
     (\<exists>b c. ss_pendingBuffer (streams s p) = Some b \<and> ss_pendingOnCopy (streams s p) = Some c \<and>
        ss_pendingOnCopyDone (streams s p) = Some c \<and> copy_closures s c = StreamCopy e code i b)"




lemma set_event_simps [simp]:
  "hasPendingEvent e (set_event e ev s)" "copy_closures (set_event w ev s) = copy_closures s"
  "streams (set_event w ev s) = streams s" "buffers (set_event w ev s) = buffers s" "streamEnds (set_event w ev s) = streamEnds s"
  by (simp_all add: set_event_def setPendingEvent_def upd_waitable_def hasPendingEvent_def)

lemma upd_end_simps [simp]:
  "copy_closures (upd_end e f s) = copy_closures s" "streams (upd_end e f s) = streams s"
  "copy_closures (upd_stream p g s) = copy_closures s" "hasPendingEvent w (upd_end e f s) = hasPendingEvent w s"
  "copy_closures (upd_host_end e h s) = copy_closures s" "copy_closures (upd_fend e k s) = copy_closures s"
  "copy_closures (ss_resetPending p s) = copy_closures s"
  by (simp_all add: upd_end_def upd_stream_def upd_host_end_def upd_fend_def hasPendingEvent_def ss_resetPending_def ss_setPending_def)









lemma stream_part_simps [simp]:
  "on_copy_done (stream_part env) = run_on_copy_done env" "on_copy (stream_part env) = run_on_copy env"
  "realloc_of (stream_part env) = ep_realloc env" "abi_fuel (stream_part env) = ep_fuel env"
  by (simp_all add: stream_part_def)

definition copy_parked :: "ref \<Rightarrow> ref \<Rightarrow> callback \<Rightarrow> 'a stream_state_scheme \<Rightarrow> bool" where
  "copy_parked p b c s \<longleftrightarrow> ss_pendingBuffer (streams s p) = Some b \<and> ss_pendingOnCopy (streams s p) = Some c \<and>
     ss_pendingOnCopyDone (streams s p) = Some c"

lemma setPending_copy_parked [simp]: "copy_parked p b c (ss_setPending p inst (Some b) (Some c) (Some c) s)"
  "copy_closures (ss_setPending p inst x y z s') = copy_closures s'"
  by (simp_all add: copy_parked_def ss_setPending_def upd_stream_def)






subsection \<open>Cancelling and dropping\<close>

text \<open>Delivering the event that a final notification installed.\<close>

lemma deliver_final:
  assumes "pendingSub (waitables s e) = None"
  shows "\<exists>s'. getPendingEvent run_event e (set_event e (StreamEvent e code i b res None) s) =
      (Inr \<lparr>event_code = code, p1 = i, p2 = packCopyResult res (progressed b s)\<rparr>, s') \<and>
    se_state (streamEnds s' e) = (if res = copyDropped then copyDone else copyIdle) \<and>
    streams s' = streams s \<and> \<not> hasPendingEvent e s' \<and> tab s' = tab s"
  using assms
  by (auto simp: getPendingEvent_def set_event_def setPendingEvent_def upd_waitable_def run_event_def upd_end_def Let_def
      progressed_def hasPendingEvent_def)

lemma notify_stream_end:
  assumes "copy_parked p b c s" "copy_closures s c = StreamCopy e code i b"
  shows "ss_resetAndNotifyPending (stream_part env) p res s =
    (Inr (), set_event e (StreamEvent e code i b res None) (upd_end e (\<lambda>x. x\<lparr>livePending := False\<rparr>) (ss_resetPending p s)))"
  using assms by (simp add: ss_resetAndNotifyPending_def copy_parked_def call_done_def run_on_copy_done_def)

lemma reset_simps [simp]:
  "ss_pendingBuffer (streams (ss_resetPending p s) p) = None" "waitables (ss_resetPending p s) = waitables s"
  "waitables (upd_end e f s) = waitables s" "buffers (ss_resetPending p s) = buffers s" "buffers (upd_end e f s) = buffers s"
  "streamEnds (ss_resetPending p s) = streamEnds s" "tab (ss_resetPending p s) = tab s" "tab (upd_end e f s) = tab s"
  by (simp_all add: ss_resetPending_def ss_setPending_def upd_stream_def upd_end_def)

text \<open>C18. A parked copy can be cancelled: \<open>stream.cancel-read\<close> or \<open>stream.cancel-write\<close>, asynchronous or not, on
  an end whose copy is parked, and that has no event yet or only that of a partial copy, completes at once, reports the elements
  the copy has moved as cancelled instead of any earlier event, takes the buffer out of the stream and makes the end idle.\<close>

theorem cancel_completes:
  assumes "mayLeave s" "requireStreamEnd env i side elem s = (Inr e, s)" "se_state (streamEnds s e) = copyCopying"
    and "maySync env async s = (Inr blk, s)" "async \<or> \<not> inWaitableSet e s"
    and "hasPendingEvent e s \<Longrightarrow> livePending (streamEnds s e)" "pendingSub (waitables s e) = None"
    and "copy_parked (se_shared (streamEnds s e)) b c s" "copy_closures s c = StreamCopy e code i b"
  shows "\<exists>s'. cancelCopy env False side elem async i s = Some (Inr (packCopyResult copyCancelled (progressed b s)), s') \<and>
    se_state (streamEnds s' e) = copyIdle \<and> ss_pendingBuffer (streams s' (se_shared (streamEnds s e))) = None \<and> \<not> hasPendingEvent e s'"
proof -
  let ?p = "se_shared (streamEnds s e)"
  let ?s1 = "upd_end e (\<lambda>x. x\<lparr>se_state := copyCancelling\<rparr>) s"
  let ?s2 = "upd_end e (\<lambda>x. x\<lparr>livePending := False\<rparr>) (ss_resetPending ?p ?s1)"
  have park: "copy_parked ?p b c ?s1" "copy_closures ?s1 c = StreamCopy e code i b" using assms(8,9) by (simp_all add: copy_parked_def)
  have live: "\<not> hasPendingEvent e s \<or> livePending (streamEnds s e)" using assms(6) by blast
  have start: "cancelCopy_start env False side elem async i s =
      (Inr (blk, e), set_event e (StreamEvent e code i b copyCancelled None) ?s2)"
    using assms(1-5) live notify_stream_end [OF park, of env copyCancelled]
    by (auto simp: cancelCopy_start_def sbind_def requireMayLeave_def require_def getting_def modify_def end_state_def
        set_cancelling_def is_live_def shared_cancel_def ss_cancel_def upd_end_def [of _ _ s])
  have sub: "pendingSub (waitables ?s2 e) = None" using assms(7) by simp
  obtain s' where s': "getPendingEvent run_event e (set_event e (StreamEvent e code i b copyCancelled None) ?s2) =
      (Inr \<lparr>event_code = code, p1 = i, p2 = packCopyResult copyCancelled (progressed b ?s2)\<rparr>, s')"
    "se_state (streamEnds s' e) = copyIdle" "streams s' = streams ?s2" "\<not> hasPendingEvent e s'"
    using deliver_final [OF sub, of code i b copyCancelled] by auto
  have "progressed b ?s2 = progressed b s" by (simp add: progressed_def)
  then show ?thesis using s' start
    by (intro exI [of _ s']) (simp add: cancelCopy_def dbind_def dlift_def complete_def deliver_def sbind_def)
qed

lemma deliver_thunk:
  assumes "pendingSub (waitables s e) = None" "pendingEvent (waitables s e) = Some f" "event_thunks s f = StreamEvent e code i b res None"
  shows "\<exists>s'. getPendingEvent run_event e s = (Inr \<lparr>event_code = code, p1 = i, p2 = packCopyResult res (progressed b s)\<rparr>, s') \<and>
    se_state (streamEnds s' e) = (if res = copyDropped then copyDone else copyIdle)"
  using assms
  by (auto simp: getPendingEvent_def upd_waitable_def run_event_def upd_end_def Let_def progressed_def)

lemma join_None_simps [simp]:
  "tab (join w None s) = tab s" "streams (join w None s) = streams s" "buffers (join w None s) = buffers s"
  "event_thunks (join w None s) = event_thunks s" "e \<noteq> w \<Longrightarrow> waitables (join w None s) e = waitables s e"
  by (simp_all add: join_def set_remove_def upd_set_def upd_waitable_def Let_def split: option.split)

lemma removeEntry_end [simp]:
  "streams (snd (removeEntry i s)) = streams s" "buffers (snd (removeEntry i s)) = buffers s"
  "event_thunks (snd (removeEntry i s)) = event_thunks s" "waitables (snd (removeEntry i s)) = waitables s"
  "getEntry i (snd (removeEntry i s)) = None"
  by (simp_all add: removeEntry_def retire_def getEntry_def split: option.split)

text \<open>C19. Dropping an end reaches the other one: when the end at handle \<open>i\<close> is dropped while the counterpart's copy is parked, the handle is gone,
  the stream counts as dropped, and the next event of the counterpart, also where it had one of a partial copy, reports its progress
  as \<open>DROPPED\<close> and leaves it done.\<close>

theorem drop_wakes_counterpart:
  assumes "mayLeave s" "requireStreamEnd env i side elem s = (Inr w, s)" "\<not> copying (se_state (streamEnds s w))" "\<not> hasPendingEvent w s"
    and "\<not> ss_dropped (streams s (se_shared (streamEnds s w)))" "copy_parked (se_shared (streamEnds s w)) b c s"
    and "copy_closures s c = StreamCopy e code j b" "e \<noteq> w" "pendingSub (waitables s e) = None"
  shows "\<exists>s' s''. streamDrop env side elem i s = (Inr (), s') \<and> getEntry i s' = None \<and>
    ss_dropped (streams s' (se_shared (streamEnds s w))) \<and>
    getPendingEvent run_event e s' = (Inr \<lparr>event_code = code, p1 = j, p2 = packCopyResult copyDropped (progressed b s)\<rparr>, s'') \<and>
    se_state (streamEnds s'' e) = copyDone"
proof -
  let ?p = "se_shared (streamEnds s w)"
  let ?s1 = "upd_stream ?p (\<lambda>x. x\<lparr>ss_dropped := True\<rparr>) s"
  let ?s2 = "upd_end e (\<lambda>x. x\<lparr>livePending := False\<rparr>) (ss_resetPending ?p ?s1)"
  let ?s3 = "set_event e (StreamEvent e code j b copyDropped None) ?s2"
  let ?s4 = "join w None ?s3"
  let ?s5 = "snd (removeEntry i ?s4)"
  have park: "copy_parked ?p b c ?s1" "copy_closures ?s1 c = StreamCopy e code j b"
    using assms(6,7) by (simp_all add: copy_parked_def upd_stream_def)
  have drop: "ss_drop (stream_part env) ?p s = (Inr (), ?s3)"
    using assms(5,6) notify_stream_end [OF park, of env copyDropped] by (simp add: ss_drop_def copy_parked_def)
  have w: "\<not> hasPendingEvent w ?s3"
    using assms(4,8) by (simp add: hasPendingEvent_def set_event_def setPendingEvent_def upd_waitable_def upd_stream_def)
  have st: "streamDrop env side elem i s = (Inr (), ?s5)"
    using assms(1-3) drop w
    by (simp add: streamDrop_def sbind_def requireMayLeave_def require_def getting_def modify_def dropWaitable_def)
  have ev: "pendingSub (waitables ?s5 e) = None" "pendingEvent (waitables ?s5 e) = Some (fresh_ref ?s2)"
    "event_thunks ?s5 (fresh_ref ?s2) = StreamEvent e code j b copyDropped None"
    using assms(8,9) by (simp_all add: set_event_def setPendingEvent_def upd_waitable_def hasPendingEvent_def upd_stream_def)
  have "progressed b ?s5 = progressed b s" by (simp add: progressed_def upd_stream_def)
  moreover have "ss_dropped (streams ?s5 ?p)"
    by (simp add: ss_resetPending_def ss_setPending_def upd_stream_def)
  ultimately show ?thesis using st deliver_thunk [OF ev] by auto
qed

subsection \<open>Examples\<close>

definition endpoint_example_env :: "endpoint_state endpoint_env" where
  "endpoint_example_env = \<lparr>be = \<lparr>task_part = \<lparr>on_resolve = \<lambda>_ _ _ s. s, on_finish = \<lambda>_ _ s. s, on_start = \<lambda>_. sret [],
       lower_params = \<lambda>_ _. sret [], params_want = \<lambda>_. 0, call_core = \<lambda>_ _. sret 0, call_callback = \<lambda>_ _. sret 0,
       event_eval = run_event, run_segment = \<lambda>_ _. sret (), spawn = \<lambda>_. sret (), handoff = \<lambda>_ _. sret (),
       block_ready = \<lambda>_ _. False\<rparr>,
     thunk_fe = \<lambda>_. sfail NoLends, thunk_fv = \<lambda>_ s. s, cancel_hook = \<lambda>_. sret (), has_blocker = \<lambda>_. False,
     block = \<lambda>_ _. sret False, guest_realloc = None\<rparr>,
     ep_fuel = 1, ep_realloc = \<lambda>_. None, ep_resCanon = \<lambda>_. None, ep_origin = \<lambda>_ _. None, inst_resolve = \<lambda>_ _. None,
     cabi_realloc = \<lambda>_. None, on_host_done = \<lambda>_ _ _ _. sret ()\<rparr>"

text \<open>An instance that makes a stream of \<open>u16\<close> and starts an asynchronous read of two elements to address 8.\<close>

definition endpoint_example :: endpoint_state where
  "endpoint_example = stream_state.extend stream_example (endpoint_state.fields (\<lambda>_. HostSet 0 0)
     (\<lambda>_. FutureEvent 0 0 0 copyCompleted) (\<lambda>_. \<lparr>he_shared = 0, he_state = copyIdle\<rparr>) 0)"

abbreviation u16_elem :: "type_desc option" where
  "u16_elem \<equiv> Some (PrimitiveDesc ''u16'')"




text \<open>A state in which such a read is parked: handle 2 names the readable end 12, handle 3 the writable end 13 of stream 11.\<close>

definition read_parked :: endpoint_state where
  "read_parked = endpoint_example\<lparr>
     streams := \<lambda>_. \<lparr>ss_elem = u16_elem, ss_elemSz = 2, ss_align = 2, ss_numeric = True, ss_elemIn = Some 0, ss_dropped = False,
       ss_pendingInst = Some 0, ss_pendingBuffer = Some 14, ss_pendingOnCopy = Some 15, ss_pendingOnCopyDone = Some 15\<rparr>,
     streamEnds := (\<lambda>e. if e = 12 then \<lparr>se_side = sideReadable, se_state = copyCopying, se_shared = 11, livePending = False\<rparr>
       else \<lparr>se_side = sideWritable, se_state = copyIdle, se_shared = 11, livePending = False\<rparr>),
     copy_closures := \<lambda>_. StreamCopy 12 eventStreamRead 2 14,
     waitables := \<lambda>_. zero_waitable,
     tab := newHandleTable\<lparr>entries := [2 \<mapsto> StreamEndEntry 12, 3 \<mapsto> StreamEndEntry 13]\<rparr>\<rparr>"

lemma read_parked_facts:
  "mayLeave read_parked" "\<not> hasPendingEvent 12 read_parked" "\<not> hasPendingEvent 13 read_parked"
  "se_state (streamEnds read_parked 12) = copyCopying" "se_state (streamEnds read_parked 13) = copyIdle"
  "se_shared (streamEnds read_parked 12) = 11" "se_shared (streamEnds read_parked 13) = 11"
  "copy_parked 11 14 15 read_parked" "copy_closures read_parked 15 = StreamCopy 12 eventStreamRead 2 14" "\<not> ss_dropped (streams read_parked 11)"
  "progressed 14 read_parked = 0"
  by (simp_all add: read_parked_def hasPendingEvent_def zero_waitable_def copy_parked_def progressed_def endpoint_example_def
      stream_example_def builtin_example_def inst_example_def example_buffer_def
      sched_example_def endpoint_state.defs stream_state.defs builtin_state.defs inst_state.defs sched_state.defs wait_state.defs)

lemma read_parked_ends:
  "requireStreamEnd endpoint_example_env 2 sideReadable u16_elem read_parked = (Inr 12, read_parked)"
  "requireStreamEnd endpoint_example_env 3 sideWritable u16_elem read_parked = (Inr 13, read_parked)"
  by (simp_all add: requireStreamEnd_def read_parked_def getEntry_def elemTypesCompatible_def)

text \<open>The same state after a writer has moved one of the two elements: the reader has the event of the partial copy.\<close>

definition read_partial :: endpoint_state where
  "read_partial = upd_waitable 12 (\<lambda>x. x\<lparr>pendingEvent := Some 16\<rparr>) (read_parked\<lparr>
     streamEnds := (streamEnds read_parked)(12 := \<lparr>se_side = sideReadable, se_state = copyCopying, se_shared = 11, livePending = True\<rparr>),
     buffers := \<lambda>_. GuestBuffer ((example_buffer 0 8 2)\<lparr>gb_progress := 1\<rparr>),
     event_thunks := \<lambda>_. StreamEvent 12 eventStreamRead 2 14 copyCompleted (Some 11)\<rparr>)"

lemma read_partial_facts:
  "mayLeave read_partial" "\<not> inWaitableSet 12 read_partial" "\<not> hasPendingEvent 13 read_partial" "hasPendingEvent 12 read_partial"
  "se_state (streamEnds read_partial 12) = copyCopying" "se_state (streamEnds read_partial 13) = copyIdle"
  "se_shared (streamEnds read_partial 12) = 11" "se_shared (streamEnds read_partial 13) = 11" "livePending (streamEnds read_partial 12)"
  "pendingSub (waitables read_partial 12) = None" "copy_parked 11 14 15 read_partial"
  "copy_closures read_partial 15 = StreamCopy 12 eventStreamRead 2 14" "\<not> ss_dropped (streams read_partial 11)"
  "progressed 14 read_partial = 1" "tab read_partial = tab read_parked"
  using read_parked_facts
  by (simp_all add: read_partial_def read_parked_def upd_waitable_def hasPendingEvent_def inWaitableSet_def zero_waitable_def
      copy_parked_def progressed_def example_buffer_def)

lemma read_partial_ends:
  "requireStreamEnd endpoint_example_env 2 sideReadable u16_elem read_partial = (Inr 12, read_partial)"
  "requireStreamEnd endpoint_example_env 3 sideWritable u16_elem read_partial = (Inr 13, read_partial)"
  by (simp_all add: requireStreamEnd_def read_partial_def read_parked_def upd_waitable_def getEntry_def elemTypesCompatible_def)

theorem cancel_completes_witness:
  "\<exists>s'. cancelCopy endpoint_example_env False sideReadable u16_elem True 2 read_partial = Some (Inr (packCopyResult copyCancelled 1), s') \<and>
    se_state (streamEnds s' 12) = copyIdle \<and> ss_pendingBuffer (streams s' 11) = None \<and> \<not> hasPendingEvent 12 s'"
  using cancel_completes [OF read_partial_facts(1) read_partial_ends(1) read_partial_facts(5), of True False 14 15 eventStreamRead]
  by (simp add: read_partial_facts maySync_def sret_def)

theorem drop_wakes_counterpart_witness:
  "\<exists>s' s''. streamDrop endpoint_example_env sideWritable u16_elem 3 read_partial = (Inr (), s') \<and> getEntry 3 s' = None \<and>
    ss_dropped (streams s' 11) \<and>
    getPendingEvent run_event 12 s' = (Inr \<lparr>event_code = eventStreamRead, p1 = 2, p2 = packCopyResult copyDropped 1\<rparr>, s'') \<and>
    se_state (streamEnds s'' 12) = copyDone"
  using drop_wakes_counterpart [OF read_partial_facts(1) read_partial_ends(2), of 14 15 12 eventStreamRead 2]
  by (simp add: read_partial_facts copying_def)

end
