(* ===== verification/Decode.thy ===== *)
theory Decode
  imports Types Leb128
begin

text \<open>
  The readers of the component binary format: \<open>internal/binary/types.go\<close>, the readers of \<open>descriptor.go\<close>
  and the bounded vector count of \<open>decoder.go\<close>. A reader takes the buffer and an offset and returns a value and the offset
  behind it, as in the source; the offset that the source returns beside an error is used by no caller and is left out.
  An index or a slice of the buffer that is out of range panics in Go and is the error \<open>SliceBounds\<close> here, so that its
  absence is a theorem and not an assumption. The nesting of types is followed by recursion; its depth is the fuel, and running
  out of it is \<open>DecodeFuel\<close>.
\<close>

datatype decode_error =
    SliceBounds
  | DecodeFuel
  | ErrTruncatedBinary
  | LebError leb_error
  | InvalidPrimitiveCode byte
  | InvalidTag byte
  | UnsupportedM1 byte
  | StreamOfChar
  | VectorLimit u32
  | VectorTooLong u32
  \<comment> \<open>decoder.go\<close>
  | ReadFailed
  | InputLimit
  | DepthLimit
  | SectionLimit
  | ErrInvalidMagicNumber
  | ErrInvalidVersion
  | ErrInvalidLayer
  | ErrInvalidSectionID byte
  | ErrUnsupportedSection byte
  | SectionSize u32 nat
  | DuplicateStart

subsection \<open>Readers\<close>

type_synonym 'a reader = "byte list \<Rightarrow> nat \<Rightarrow> decode_error + 'a \<times> nat"

definition rd_ret :: "'a \<Rightarrow> 'a reader" where
  "rd_ret x buf off = Inr (x, off)"

definition rd_fail :: "decode_error \<Rightarrow> 'a reader" where
  "rd_fail e buf off = Inl e"

definition rd_bind :: "'a reader \<Rightarrow> ('a \<Rightarrow> 'b reader) \<Rightarrow> 'b reader" where
  "rd_bind m f buf off = rbind (m buf off) (\<lambda>(x, off'). f x buf off')"

definition rd_map :: "('a \<Rightarrow> 'b) \<Rightarrow> 'a reader \<Rightarrow> 'b reader" where
  "rd_map f m = rd_bind m (\<lambda>x. rd_ret (f x))"

text \<open>\<open>if off >= len(buf) { return ErrTruncatedBinary }; b := buf[off]; off++\<close>\<close>

definition byte_at :: "byte reader" where
  "byte_at buf off =
     (if off \<ge> length buf then Inl ErrTruncatedBinary else rbind (indexed SliceBounds buf off) (\<lambda>b. Inr (b, off + 1)))"

lemma byte_at_eq: "byte_at buf off = (if off \<ge> length buf then Inl ErrTruncatedBinary else Inr (buf ! off, off + 1))"
  by (simp add: byte_at_def)

definition expect_byte :: "byte \<Rightarrow> decode_error \<Rightarrow> unit reader" where
  "expect_byte b e buf off =
     (if off \<ge> length buf then Inl e
      else rbind (indexed SliceBounds buf off) (\<lambda>x. if x \<noteq> b then Inl e else Inr ((), off + 1)))"

lemma expect_byte_eq: "expect_byte b e buf off = (if off \<ge> length buf \<or> buf ! off \<noteq> b then Inl e else Inr ((), off + 1))"
  by (simp add: expect_byte_def)

text \<open>\<open>leb128.LoadUint32(buf[off:])\<close> and \<open>leb128.LoadInt33AsInt64(buf[off:])\<close>\<close>

definition leb_at :: "(byte list \<Rightarrow> leb_error + 'a \<times> nat) \<Rightarrow> 'a reader" where
  "leb_at load buf off =
     (if off > length buf then Inl SliceBounds
      else case load (drop off buf) of Inl e \<Rightarrow> Inl (LebError e) | Inr (v, n) \<Rightarrow> Inr (v, off + n))"

abbreviation u32_at :: "u32 reader" where
  "u32_at \<equiv> leb_at LoadUint32"

text \<open>A loop that reads a fixed number of elements.\<close>

primrec read_n :: "nat \<Rightarrow> 'a reader \<Rightarrow> 'a list reader" where
  "read_n 0 elem = rd_ret []"
| "read_n (Suc n) elem = rd_bind elem (\<lambda>x. rd_bind (read_n n elem) (\<lambda>xs. rd_ret (x # xs)))"

definition maxVectorElements :: nat where "maxVectorElements = 2 ^ 20"

definition readBoundedVecCount :: "nat \<Rightarrow> u32 reader" where
  "readBoundedVecCount minElementBytes buf off =
     (if off > length buf then Inl ErrTruncatedBinary
      else rbind (u32_at buf off) (\<lambda>(count, after).
        if unat count > maxVectorElements then Inl (VectorLimit count)
        else if after > length buf \<or> unat count * minElementBytes > length buf - after then Inl (VectorTooLong count)
        else Inr (count, after)))"

definition read_vec :: "'a reader \<Rightarrow> 'a list reader" where
  "read_vec elem = rd_bind (readBoundedVecCount 1) (\<lambda>count. read_n (unat count) elem)"

subsection \<open>Leaf readers (types.go)\<close>

definition isPrimValtype :: "byte \<Rightarrow> bool" where
  "isPrimValtype b \<longleftrightarrow> (b \<ge> 0x73 \<and> b \<le> 0x7f) \<or> b = 0x64"

definition hex_digit :: "nat \<Rightarrow> char" where
  "hex_digit n = ''0123456789abcdef'' ! n"

text \<open>The verb \<open>%#x\<close> for a byte.\<close>

definition hex_byte :: "byte \<Rightarrow> string" where
  "hex_byte b = ''0x'' @ (if unat b < 16 then [hex_digit (unat b)] else [hex_digit (unat b div 16), hex_digit (unat b mod 16)])"

definition primName :: "byte \<Rightarrow> string" where
  "primName b =
     (if b = 0x64 then ''error-context'' else if b = 0x7f then ''bool'' else if b = 0x7e then ''s8''
      else if b = 0x7d then ''u8'' else if b = 0x7c then ''s16'' else if b = 0x7b then ''u16''
      else if b = 0x7a then ''s32'' else if b = 0x79 then ''u32'' else if b = 0x78 then ''s64''
      else if b = 0x77 then ''u64'' else if b = 0x76 then ''f32'' else if b = 0x75 then ''f64''
      else if b = 0x74 then ''char'' else if b = 0x73 then ''string''
      else ''prim('' @ hex_byte b @ '')'')"

text \<open>A Go string is its bytes.\<close>

definition bytes_string :: "byte list \<Rightarrow> string" where
  "bytes_string bs = map (\<lambda>b. char_of (unat b)) bs"

definition name_bytes :: "byte list reader" where
  "name_bytes = rd_bind u32_at (\<lambda>len buf off.
     if unat len > length buf - off then Inl ErrTruncatedBinary
     else rbind (sliced SliceBounds buf off (off + unat len)) (\<lambda>bs. Inr (bs, off + unat len)))"

definition readLabel :: "string reader" where
  "readLabel = rd_map bytes_string name_bytes"

definition readExternName :: "string reader" where
  "readExternName = rd_bind byte_at (\<lambda>kind.
     if kind = 0x00 \<or> kind = 0x01 then readLabel
     else if kind = 0x02 then rd_fail (UnsupportedM1 kind)
     else rd_fail (InvalidTag kind))"

text \<open>The sort, and the index it carries if it is one of a function or the equality bound of a type.\<close>

definition readExterndesc :: "(byte \<times> u32 option) reader" where
  "readExterndesc = rd_bind byte_at (\<lambda>sort.
     if sort = 0x00 then rd_bind (expect_byte 0x11 (InvalidTag sort)) (\<lambda>_. rd_map (\<lambda>_. (sort, None)) u32_at)
     else if sort = 0x01 then rd_map (\<lambda>i. (sort, Some i)) u32_at
     else if sort = 0x04 \<or> sort = 0x05 then rd_map (\<lambda>_. (sort, None)) u32_at
     else if sort = 0x03 then rd_bind byte_at (\<lambda>bound.
       if bound = 0x00 then rd_map (\<lambda>i. (sort, Some i)) u32_at else rd_ret (sort, None))
     else rd_fail (UnsupportedM1 sort))"

definition readSort :: "unit reader" where
  "readSort buf off =
     (if off \<ge> length buf then Inl ErrTruncatedBinary
      else rbind (indexed SliceBounds buf off) (\<lambda>sort.
        if sort = 0x00 then (if off + 1 \<ge> length buf then Inl ErrTruncatedBinary else Inr ((), off + 2))
        else Inr ((), off + 1)))"

definition readAlias :: "unit reader" where
  "readAlias = rd_bind readSort (\<lambda>_. rd_bind byte_at (\<lambda>target.
     if target = 0x00 \<or> target = 0x01 then rd_bind u32_at (\<lambda>_. rd_map (\<lambda>_. ()) readLabel)
     else if target = 0x02 then rd_bind u32_at (\<lambda>_. rd_map (\<lambda>_. ()) u32_at)
     else rd_fail (InvalidTag target)))"

subsection \<open>Value types (descriptor.go)\<close>

definition readValTypeRef :: "type_ref reader" where
  "readValTypeRef = rd_bind (leb_at LoadInt33AsInt64) (\<lambda>v.
     if sint v < 0 then
       (let b = ucast (v AND 0x7f)
        in if isPrimValtype b then rd_ret \<lparr>Primitive = primName b, TypeIndex = None\<rparr>
           else rd_fail (InvalidPrimitiveCode b))
     else rd_ret \<lparr>Primitive = '''', TypeIndex = Some (ucast v)\<rparr>)"

definition readOptValTypeRef :: "type_ref option reader" where
  "readOptValTypeRef = rd_bind byte_at (\<lambda>tag.
     if tag = 0x00 then rd_ret None
     else if tag = 0x01 then rd_map Some readValTypeRef
     else rd_fail (InvalidTag tag))"

definition readLabelValtype :: "(string \<times> type_ref) reader" where
  "readLabelValtype = rd_bind readLabel (\<lambda>n. rd_map (\<lambda>t. (n, t)) readValTypeRef)"

definition readLabelValtypeVecDesc :: "(string \<times> type_ref) list reader" where
  "readLabelValtypeVecDesc = read_vec readLabelValtype"

definition readLabelVecDesc :: "string list reader" where
  "readLabelVecDesc = read_vec readLabel"

definition readValtypeVecDesc :: "type_ref list reader" where
  "readValtypeVecDesc = read_vec readValTypeRef"

definition readRecordDesc :: "type_desc reader" where
  "readRecordDesc = rd_map (\<lambda>fs. RecordDesc (map (\<lambda>(n, t). \<lparr>FieldName = n, FieldType = t\<rparr>) fs)) readLabelValtypeVecDesc"

definition readRefines :: "unit reader" where
  "readRefines = rd_bind byte_at (\<lambda>tag.
     if tag = 0x00 then rd_ret ()
     else if tag = 0x01 then rd_map (\<lambda>_. ()) u32_at
     else rd_fail (InvalidTag tag))"

definition readVariantCaseDesc :: "variant_case reader" where
  "readVariantCaseDesc = rd_bind readLabel (\<lambda>n. rd_bind readOptValTypeRef (\<lambda>t. rd_bind readRefines (\<lambda>_.
     rd_ret \<lparr>CaseName = n, CaseType = t\<rparr>)))"

definition readVariantDesc :: "type_desc reader" where
  "readVariantDesc = rd_map VariantDesc (read_vec readVariantCaseDesc)"

definition readResultListDesc :: "func_results reader" where
  "readResultListDesc = rd_bind byte_at (\<lambda>tag.
     if tag = 0x00 then rd_map (\<lambda>t. \<lparr>Unnamed = Some t, Named = []\<rparr>) readValTypeRef
     else if tag = 0x01 then
       rd_map (\<lambda>fs. \<lparr>Unnamed = None, Named = map (\<lambda>(n, t). \<lparr>ResultName = n, ResultType = t\<rparr>) fs\<rparr>) readLabelValtypeVecDesc
     else rd_fail (InvalidTag tag))"

definition readFunctypeDesc :: "bool \<Rightarrow> type_desc reader" where
  "readFunctypeDesc async = rd_bind readLabelValtypeVecDesc (\<lambda>fs.
     rd_map (\<lambda>rs. FuncDesc \<lparr>Params = map (\<lambda>(n, t). \<lparr>ParamName = n, ParamType = t\<rparr>) fs, Results = rs, Async = async\<rparr>)
       readResultListDesc)"

definition readStreamDesc :: "type_desc reader" where
  "readStreamDesc = rd_bind readOptValTypeRef (\<lambda>elem.
     case elem of
       Some t \<Rightarrow> if Primitive t = ''char'' then rd_fail StreamOfChar else rd_ret (StreamDesc elem)
     | None \<Rightarrow> rd_ret (StreamDesc elem))"

definition readDefvaltypeDesc :: "byte \<Rightarrow> type_desc reader" where
  "readDefvaltypeDesc tag =
     (if isPrimValtype tag then rd_ret (PrimitiveDesc (primName tag))
      else if tag = 0x72 then readRecordDesc
      else if tag = 0x71 then readVariantDesc
      else if tag = 0x70 then rd_map ListDesc readValTypeRef
      else if tag = 0x6f then rd_map TupleDesc readValtypeVecDesc
      else if tag = 0x6e then rd_map FlagsDesc readLabelVecDesc
      else if tag = 0x6d then rd_map EnumDesc readLabelVecDesc
      else if tag = 0x6b then rd_map OptionDesc readValTypeRef
      else if tag = 0x6a then rd_bind readOptValTypeRef (\<lambda>ok. rd_map (ResultDesc ok) readOptValTypeRef)
      else if tag = 0x69 then rd_map OwnDesc u32_at
      else if tag = 0x68 then rd_map BorrowDesc u32_at
      else if tag = 0x66 then readStreamDesc
      else if tag = 0x65 then rd_map FutureDesc readOptValTypeRef
      else rd_fail (UnsupportedM1 tag))"

definition coreValtypeName :: "byte \<Rightarrow> decode_error + string" where
  "coreValtypeName b =
     (if b = 0x7f then Inr ''i32'' else if b = 0x7e then Inr ''i64'' else if b = 0x7d then Inr ''f32''
      else if b = 0x7c then Inr ''f64'' else if b = 0x7b then Inr ''v128'' else Inl (InvalidPrimitiveCode b))"

definition readResourcetypeDesc :: "type_desc reader" where
  "readResourcetypeDesc = rd_bind byte_at (\<lambda>b.
     case coreValtypeName b of
       Inl e \<Rightarrow> rd_fail e
     | Inr repName \<Rightarrow> rd_bind byte_at (\<lambda>dtor.
         if dtor = 0x01 then rd_map (\<lambda>i. ResourceDesc \<lparr>Primitive = repName, TypeIndex = None\<rparr> (Some i)) u32_at
         else if dtor = 0x00 then rd_ret (ResourceDesc \<lparr>Primitive = repName, TypeIndex = None\<rparr> None)
         else rd_fail (InvalidTag dtor)))"

subsection \<open>Core types\<close>

definition readCoreValtypeVec :: "unit reader" where
  "readCoreValtypeVec = rd_bind (readBoundedVecCount 1) (\<lambda>count buf off.
     if off + unat count > length buf then Inl ErrTruncatedBinary else Inr ((), off + unat count))"

definition skipName :: "unit reader" where
  "skipName = rd_map (\<lambda>_. ()) name_bytes"

definition readCoreImportdesc :: "unit reader" where
  "readCoreImportdesc = rd_bind byte_at (\<lambda>sort.
     if sort = 0x00 then rd_map (\<lambda>_. ()) u32_at else rd_fail (UnsupportedM1 sort))"

definition readCoreModuleAlias :: "unit reader" where
  "readCoreModuleAlias = rd_bind byte_at (\<lambda>_. rd_bind byte_at (\<lambda>target.
     if target = 0x01 then rd_bind u32_at (\<lambda>_. rd_map (\<lambda>_. ()) u32_at) else rd_fail (UnsupportedM1 target)))"

definition readCoreModuleDecl :: "unit reader \<Rightarrow> unit reader" where
  "readCoreModuleDecl coretype = rd_bind byte_at (\<lambda>tag.
     if tag = 0x00 then rd_bind skipName (\<lambda>_. rd_bind skipName (\<lambda>_. readCoreImportdesc))
     else if tag = 0x01 then coretype
     else if tag = 0x02 then readCoreModuleAlias
     else if tag = 0x03 then rd_bind skipName (\<lambda>_. readCoreImportdesc)
     else rd_fail (InvalidTag tag))"

primrec readCoretypeDef :: "nat \<Rightarrow> unit reader" where
  "readCoretypeDef 0 = rd_fail DecodeFuel"
| "readCoretypeDef (Suc fuel) = rd_bind byte_at (\<lambda>tag.
     if tag = 0x60 then rd_bind readCoreValtypeVec (\<lambda>_. readCoreValtypeVec)
     else if tag = 0x50 then rd_map (\<lambda>_. ()) (read_vec (readCoreModuleDecl (readCoretypeDef fuel)))
     else rd_fail (InvalidTag tag))"

subsection \<open>Type definitions\<close>

definition readInstanceDeclDesc :: "unit reader \<Rightarrow> type_desc reader \<Rightarrow> unit reader" where
  "readInstanceDeclDesc coretype deftype = rd_bind byte_at (\<lambda>tag.
     if tag = 0x01 then rd_map (\<lambda>_. ()) deftype
     else if tag = 0x04 then rd_bind readExternName (\<lambda>_. rd_map (\<lambda>_. ()) readExterndesc)
     else if tag = 0x02 then readAlias
     else if tag = 0x00 then coretype
     else rd_fail (InvalidTag tag))"

definition readComponentDecl :: "unit reader \<Rightarrow> type_desc reader \<Rightarrow> unit reader" where
  "readComponentDecl coretype deftype buf off =
     (if off \<ge> length buf then Inl ErrTruncatedBinary
      else rbind (indexed SliceBounds buf off) (\<lambda>tag.
        if tag = 0x03 then rd_bind readExternName (\<lambda>_. rd_map (\<lambda>_. ()) readExterndesc) buf (off + 1)
        else readInstanceDeclDesc coretype deftype buf off))"

definition readComponenttype :: "unit reader \<Rightarrow> type_desc reader \<Rightarrow> unit reader" where
  "readComponenttype coretype deftype = rd_map (\<lambda>_. ()) (read_vec (readComponentDecl coretype deftype))"

definition readInstancetypeDesc :: "unit reader \<Rightarrow> type_desc reader \<Rightarrow> type_desc reader" where
  "readInstancetypeDesc coretype deftype = rd_map (\<lambda>_. InstanceDesc []) (read_vec (readInstanceDeclDesc coretype deftype))"

primrec readDeftypeDesc :: "nat \<Rightarrow> type_desc reader" where
  "readDeftypeDesc 0 = rd_fail DecodeFuel"
| "readDeftypeDesc (Suc fuel) = rd_bind byte_at (\<lambda>tag.
     if tag = 0x40 then readFunctypeDesc False
     else if tag = 0x43 then readFunctypeDesc True
     else if tag = 0x41 then rd_map (\<lambda>_. ComponentDesc) (readComponenttype (readCoretypeDef fuel) (readDeftypeDesc fuel))
     else if tag = 0x42 then readInstancetypeDesc (readCoretypeDef fuel) (readDeftypeDesc fuel)
     else if tag = 0x3f then readResourcetypeDesc
     else if isPrimValtype tag then rd_ret (PrimitiveDesc (primName tag))
     else readDefvaltypeDesc tag)"

end
