(* ===== verification/Decode_Correct.thy ===== *)
theory Decode_Correct
  imports Decode
begin

text \<open>
  The readers of \<open>Decode\<close> stay in their buffer, never slice behind its end and end with as much fuel as there are bytes
  to come (\<open>reads_in\<close>). Against them stands the binary grammar of types as an encoder: the locale \<open>wire\<close> is a reader
  with the encoding it inverts, interpreted for names, references, fields and cases, and types are read back from their encoding.
\<close>

subsection \<open>Readers stay in the buffer\<close>

text \<open>\<open>reads_in n k rd\<close>: started in the buffer with at most \<open>n\<close> bytes to come, \<open>rd\<close> neither slices behind the end nor runs out of
  fuel, and if it succeeds it has consumed at least \<open>k\<close> bytes and is still in the buffer.\<close>

definition reads_in :: "nat \<Rightarrow> nat \<Rightarrow> 'a reader \<Rightarrow> bool" where
  "reads_in n k rd \<longleftrightarrow> (\<forall>buf off. off \<le> length buf \<and> length buf - off \<le> n \<longrightarrow>
     (case rd buf off of Inl e \<Rightarrow> e \<noteq> SliceBounds \<and> e \<noteq> DecodeFuel
      | Inr (x, off') \<Rightarrow> off + k \<le> off' \<and> off' \<le> length buf))"

named_theorems reading \<open>readers stay in the buffer\<close>

lemma reads_inI:
  assumes "\<And>buf off. off \<le> length buf \<Longrightarrow> length buf - off \<le> n \<Longrightarrow>
     (case rd buf off of Inl e \<Rightarrow> e \<noteq> SliceBounds \<and> e \<noteq> DecodeFuel | Inr (x, off') \<Rightarrow> off + k \<le> off' \<and> off' \<le> length buf)"
  shows "reads_in n k rd"
  using assms unfolding reads_in_def by blast

lemma reads_inD:
  assumes "reads_in n k rd" "off \<le> length buf" "length buf - off \<le> n"
  shows "case rd buf off of Inl e \<Rightarrow> e \<noteq> SliceBounds \<and> e \<noteq> DecodeFuel | Inr (x, off') \<Rightarrow> off + k \<le> off' \<and> off' \<le> length buf"
  using assms unfolding reads_in_def by blast

lemma reads_in_weaken: "reads_in n 1 rd \<Longrightarrow> reads_in n 0 rd"
  unfolding reads_in_def by (fastforce split: sum.splits)

lemma reads_in_less: "reads_in n k rd \<Longrightarrow> m \<le> n \<Longrightarrow> reads_in m k rd"
  unfolding reads_in_def by (meson le_trans)

lemma reads_ret [reading]: "reads_in n 0 (rd_ret x)"
  by (simp add: reads_in_def rd_ret_def)

lemma reads_fail [reading]: "e \<noteq> SliceBounds \<Longrightarrow> e \<noteq> DecodeFuel \<Longrightarrow> reads_in n k (rd_fail e)"
  by (simp add: reads_in_def rd_fail_def)

lemma reads_bind_gen:
  assumes m: "reads_in n j m" and f: "\<And>x. j \<le> n \<Longrightarrow> reads_in (n - j) 0 (f x)"
  shows "reads_in n j (rd_bind m f)"
proof (rule reads_inI)
  fix buf :: "byte list" and off
  assume *: "off \<le> length buf" "length buf - off \<le> n"
  show "case rd_bind m f buf off of Inl e \<Rightarrow> e \<noteq> SliceBounds \<and> e \<noteq> DecodeFuel
    | Inr (x, off') \<Rightarrow> off + j \<le> off' \<and> off' \<le> length buf"
  proof (cases "m buf off")
    case (Inl e)
    then show ?thesis using reads_inD [OF m *] by (simp add: rd_bind_def)
  next
    case (Inr r)
    obtain x o1 where r: "r = (x, o1)" by (cases r)
    then have o1: "off + j \<le> o1" "o1 \<le> length buf" using Inr reads_inD [OF m *] by simp_all
    with * have "j \<le> n" "length buf - o1 \<le> n - j" by simp_all
    then show ?thesis using reads_inD [OF f o1(2)] o1 Inr r
      by (fastforce simp: rd_bind_def split: sum.splits)
  qed
qed

lemma reads_bind_1: "reads_in n 1 m \<Longrightarrow> (\<And>x. 1 \<le> n \<Longrightarrow> reads_in (n - 1) 0 (f x)) \<Longrightarrow> reads_in n 1 (rd_bind m f)"
  by (rule reads_bind_gen)

lemma reads_bind_0: "reads_in n 0 m \<Longrightarrow> (\<And>x. reads_in n 0 (f x)) \<Longrightarrow> reads_in n 0 (rd_bind m f)"
  using reads_bind_gen [of n 0 m f] by simp

lemma reads_map_1 [reading]: "reads_in n 1 m \<Longrightarrow> reads_in n 1 (rd_map f m)"
  unfolding rd_map_def by (intro reads_bind_1 reads_ret)

lemma reads_map_0 [reading]: "reads_in n 0 m \<Longrightarrow> reads_in n 0 (rd_map f m)"
  unfolding rd_map_def by (intro reads_bind_0 reads_ret)

lemma reads_if [reading]: "(c \<Longrightarrow> reads_in n k a) \<Longrightarrow> (\<not> c \<Longrightarrow> reads_in n k b) \<Longrightarrow> reads_in n k (if c then a else b)"
  by simp

lemma reads_byte [reading]: "reads_in n 1 byte_at"
  by (simp add: reads_in_def byte_at_eq)

lemma LoadUint32_loop_length: "LoadUint32_loop buf i s r = Inr (v, n) \<Longrightarrow> i < n \<and> n \<le> length buf"
proof (induction buf i s r rule: LoadUint32_loop.induct)
  case (1 buf i s ret)
  from 1(2) show ?case unfolding LoadUint32_loop.simps [of buf i s ret]
    using 1(1) by (auto simp: Let_def simp del: leb_consts split: if_splits)
qed

lemma LoadInt33_loop_length:
  "LoadInt33_loop buf s i b r = Inr (b', s', n, r') \<Longrightarrow> i \<le> length buf \<Longrightarrow> i \<le> n \<and> (s < 35 \<longrightarrow> i < n) \<and> n \<le> length buf"
proof (induction buf s i b r rule: LoadInt33_loop.induct)
  case (1 buf s i b ret)
  from 1(2,3) show ?case unfolding LoadInt33_loop.simps [of buf s i b ret]
    using 1(1) [OF _ _ refl refl refl refl] by (fastforce simp: Let_def split: if_splits)
qed

lemma reads_leb:
  assumes "\<And>bs v n. load bs = Inr (v, n) \<Longrightarrow> 0 < n \<and> n \<le> length bs"
  shows "reads_in m 1 (leb_at load)"
proof (rule reads_inI)
  fix buf :: "byte list" and off
  assume "off \<le> length buf"
  then show "case leb_at load buf off of Inl e \<Rightarrow> e \<noteq> SliceBounds \<and> e \<noteq> DecodeFuel
    | Inr (x, off') \<Rightarrow> off + 1 \<le> off' \<and> off' \<le> length buf"
    using assms [of "drop off buf"] by (auto simp: leb_at_def split: sum.splits prod.splits)
qed

lemma reads_u32 [reading]: "reads_in n 1 u32_at"
  by (rule reads_leb) (auto simp: LoadUint32_def dest: LoadUint32_loop_length)

lemma reads_s33 [reading]: "reads_in n 1 (leb_at LoadInt33AsInt64)"
  by (rule reads_leb) (auto simp: LoadInt33AsInt64_def res_simps dest!: int33Finish_bytes LoadInt33_loop_length)


lemma reads_count [reading]: "reads_in n 1 (readBoundedVecCount k)"
proof (rule reads_inI)
  fix buf :: "byte list" and off
  assume "off \<le> length buf" "length buf - off \<le> n"
  with reads_inD [OF reads_u32 this] show "case readBoundedVecCount k buf off of Inl e \<Rightarrow> e \<noteq> SliceBounds \<and> e \<noteq> DecodeFuel
    | Inr (x, off') \<Rightarrow> off + 1 \<le> off' \<and> off' \<le> length buf"
    by (auto simp: readBoundedVecCount_def rbind_def split: sum.splits prod.splits)
qed

lemma reads_read_n [reading]: "reads_in n 0 elem \<Longrightarrow> reads_in n 0 (read_n c elem)"
  by (induction c) (auto intro!: reads_bind_0 reads_ret)

lemma reads_vec [reading]: "(1 \<le> n \<Longrightarrow> reads_in (n - 1) 0 elem) \<Longrightarrow> reads_in n 1 (read_vec elem)"
  unfolding read_vec_def by (intro reads_bind_1 reads_count reads_read_n)

lemma reads_name_bytes [reading]: "reads_in n 1 name_bytes"
  unfolding name_bytes_def by (intro reads_bind_1 reads_u32 reads_inI) auto

lemma reads_expect [reading]: "e \<noteq> SliceBounds \<Longrightarrow> e \<noteq> DecodeFuel \<Longrightarrow> reads_in n 1 (expect_byte b e)"
  by (simp add: reads_in_def expect_byte_eq)

lemmas reads_leaves [reading] =
  reads_byte [THEN reads_in_weaken] reads_expect [THEN reads_in_weaken] reads_u32 [THEN reads_in_weaken]
  reads_s33 [THEN reads_in_weaken] reads_count [THEN reads_in_weaken] reads_vec [THEN reads_in_weaken]
  reads_name_bytes [THEN reads_in_weaken]

lemmas reads_seq = reads_bind_0 reads_bind_1

lemma reads_option [reading]:
  "(x = None \<Longrightarrow> reads_in n k a) \<Longrightarrow> (\<And>y. x = Some y \<Longrightarrow> reads_in n k (f y)) \<Longrightarrow>
   reads_in n k (case x of None \<Rightarrow> a | Some y \<Rightarrow> f y)"
  by (cases x) auto

text \<open>The readers without recursion.\<close>

lemma reads_readLabel [reading]: "reads_in n 1 readLabel"
  unfolding readLabel_def by (intro reading)

lemmas reads_readLabel_0 [reading] = reads_readLabel [THEN reads_in_weaken]

lemma reads_readExternName [reading]: "reads_in n 1 readExternName"
  unfolding readExternName_def by (intro reads_seq reading) simp_all

lemmas reads_readExternName_0 [reading] = reads_readExternName [THEN reads_in_weaken]

lemma reads_readExterndesc [reading]: "reads_in n 1 readExterndesc"
  unfolding readExterndesc_def by (intro reads_seq reading) simp_all

lemmas reads_readExterndesc_0 [reading] = reads_readExterndesc [THEN reads_in_weaken]

lemma reads_readSort [reading]: "reads_in n 1 readSort"
  by (simp add: reads_in_def readSort_def)

lemmas reads_readSort_0 [reading] = reads_readSort [THEN reads_in_weaken]

lemma reads_readAlias [reading]: "reads_in n 1 readAlias"
  unfolding readAlias_def by (intro reads_seq reading) simp_all

lemmas reads_readAlias_0 [reading] = reads_readAlias [THEN reads_in_weaken]

lemma reads_readValTypeRef [reading]: "reads_in n 1 readValTypeRef"
  unfolding readValTypeRef_def Let_def by (intro reads_seq reading) simp_all

lemmas reads_readValTypeRef_0 [reading] = reads_readValTypeRef [THEN reads_in_weaken]

lemma reads_readOptValTypeRef [reading]: "reads_in n 1 readOptValTypeRef"
  unfolding readOptValTypeRef_def by (intro reads_seq reading) simp_all

lemmas reads_readOptValTypeRef_0 [reading] = reads_readOptValTypeRef [THEN reads_in_weaken]

lemma reads_labelled [reading]:
  "reads_in n 0 readLabelValtype" "reads_in n 1 readLabelValtypeVecDesc" "reads_in n 1 readLabelVecDesc" "reads_in n 1 readValtypeVecDesc"
  unfolding readLabelValtypeVecDesc_def readLabelVecDesc_def readValtypeVecDesc_def readLabelValtype_def
  by (intro reads_seq reading)+

lemmas reads_vectors [reading] = reads_labelled(2-4) [THEN reads_in_weaken]

lemma reads_compounds [reading]:
  "reads_in n 1 readRecordDesc" "reads_in n 0 readVariantCaseDesc" "reads_in n 1 readVariantDesc"
  "reads_in n 1 readResultListDesc" "reads_in n 1 (readFunctypeDesc async)" "reads_in n 1 readStreamDesc"
proof -
  have refines: "reads_in n 0 readRefines" for n
    unfolding readRefines_def by (intro reads_seq reading) simp_all
  have case_desc: "reads_in n 0 readVariantCaseDesc" for n
    unfolding readVariantCaseDesc_def by (intro reads_seq reading refines)
  have results: "reads_in n 1 readResultListDesc" for n
    unfolding readResultListDesc_def by (intro reads_seq reading) simp_all
  show "reads_in n 0 readVariantCaseDesc" "reads_in n 1 readResultListDesc" by (rule case_desc results)+
  show "reads_in n 1 readRecordDesc"
    unfolding readRecordDesc_def by (intro reading)
  show "reads_in n 1 readVariantDesc"
    unfolding readVariantDesc_def by (intro reading case_desc)
  show "reads_in n 1 (readFunctypeDesc async)"
    unfolding readFunctypeDesc_def by (intro reads_seq reading results [THEN reads_in_weaken])
  show "reads_in n 1 readStreamDesc"
    unfolding readStreamDesc_def by (intro reads_seq reading) simp_all
qed

lemmas reads_compound_leaves [reading] = reads_compounds(1,3-) [THEN reads_in_weaken]

lemma reads_readDefvaltypeDesc [reading]: "reads_in n 0 (readDefvaltypeDesc tag)"
  unfolding readDefvaltypeDesc_def by (intro reads_seq reading) simp_all

lemma reads_core_name:
  "(\<And>x. reads_in n 0 (f x)) \<Longrightarrow> reads_in n 0 (case coreValtypeName b of Inl e \<Rightarrow> rd_fail e | Inr x \<Rightarrow> f x)"
  by (auto simp: coreValtypeName_def intro: reading split: sum.splits)

lemma reads_readResourcetypeDesc [reading]: "reads_in n 0 readResourcetypeDesc"
  unfolding readResourcetypeDesc_def by (intro reads_core_name reads_seq reading) simp_all

subsection \<open>Nested types\<close>

text \<open>Each nesting consumes a byte, so that as much fuel as there are bytes to come is enough.\<close>

lemma reads_core_alias_etc [reading]:
  "reads_in n 0 skipName" "reads_in n 0 readCoreImportdesc" "reads_in n 0 readCoreModuleAlias" "reads_in n 0 readCoreValtypeVec"
proof -
  show "reads_in n 0 skipName" unfolding skipName_def by (intro reading)
  show "reads_in n 0 readCoreImportdesc" unfolding readCoreImportdesc_def by (intro reads_seq reading) simp_all
  show "reads_in n 0 readCoreModuleAlias" unfolding readCoreModuleAlias_def by (intro reads_seq reading) simp_all
  show "reads_in n 0 readCoreValtypeVec" unfolding readCoreValtypeVec_def by (intro reads_seq reading reads_inI) auto
qed

lemma reads_readCoreModuleDecl [reading]:
  "(1 \<le> n \<Longrightarrow> reads_in (n - 1) 0 ct) \<Longrightarrow> reads_in n 1 (readCoreModuleDecl ct)"
  unfolding readCoreModuleDecl_def by (intro reads_seq reading) simp_all

lemma reads_readCoretypeDef: "n < fuel \<Longrightarrow> reads_in n 1 (readCoretypeDef fuel)"
proof (induction fuel arbitrary: n)
  case (Suc fuel)
  then have "reads_in m 1 (readCoretypeDef fuel)" if "m < n" for m using that by simp
  note rec = this [THEN reads_in_weaken]
  show ?case unfolding readCoretypeDef.simps
    by (intro reads_seq reading reads_readCoreModuleDecl [THEN reads_in_weaken] rec) simp_all
qed simp

lemma reads_decls [reading]:
  assumes "1 \<le> n \<Longrightarrow> reads_in (n - 1) 0 ct" "1 \<le> n \<Longrightarrow> reads_in (n - 1) 0 dt"
  shows "reads_in n 1 (readInstanceDeclDesc ct dt)" "reads_in n 1 (readComponentDecl ct dt)"
proof -
  show decl: "reads_in n 1 (readInstanceDeclDesc ct dt)"
    unfolding readInstanceDeclDesc_def by (intro reads_seq reading assms) simp_all
  show "reads_in n 1 (readComponentDecl ct dt)"
  proof (rule reads_inI)
    fix buf :: "byte list" and off
    assume *: "off \<le> length buf" "length buf - off \<le> n"
    have imp: "reads_in (length buf) 0 (rd_bind readExternName (\<lambda>_. rd_map (\<lambda>_. ()) readExterndesc))"
      by (intro reads_seq reading)
    show "case readComponentDecl ct dt buf off of Inl e \<Rightarrow> e \<noteq> SliceBounds \<and> e \<noteq> DecodeFuel
      | Inr (x, off') \<Rightarrow> off + 1 \<le> off' \<and> off' \<le> length buf"
      using reads_inD [OF decl *] reads_inD [OF imp, of "off + 1" buf] *
      by (auto simp: readComponentDecl_def split: sum.splits)
  qed
qed

lemma reads_readDeftypeDesc: "n < fuel \<Longrightarrow> reads_in n 1 (readDeftypeDesc fuel)"
proof (induction fuel arbitrary: n)
  case (Suc fuel)
  then have "reads_in m 1 (readDeftypeDesc fuel)" "reads_in m 1 (readCoretypeDef fuel)" if "m < n" for m
    using that reads_readCoretypeDef by simp_all
  note rec = this [THEN reads_in_weaken]
  show ?case
    unfolding readDeftypeDesc.simps readComponenttype_def readInstancetypeDesc_def
    by (intro reads_seq reading reads_decls [THEN reads_in_weaken] rec) simp_all
qed simp

subsection \<open>The wire format\<close>

text \<open>\<open>encodes rd x bs\<close>: wherever \<open>bs\<close> stands in a buffer, \<open>rd\<close> reads \<open>x\<close> from it and stops behind it.\<close>

definition encodes :: "'a reader \<Rightarrow> 'a \<Rightarrow> byte list \<Rightarrow> bool" where
  "encodes rd x bs \<longleftrightarrow> (\<forall>pre suf. rd (pre @ bs @ suf) (length pre) = Inr (x, length pre + length bs))"

named_theorems wire_intros \<open>reading back what was encoded\<close>

lemma encodesD: "encodes rd x bs \<Longrightarrow> rd (pre @ bs @ suf) (length pre) = Inr (x, length pre + length bs)"
  by (simp add: encodes_def)

lemma encodes_ret: "encodes (rd_ret x) x []"
  by (simp add: encodes_def rd_ret_def)

lemma encodes_bind:
  assumes "encodes m x bs" "encodes (f x) y cs"
  shows "encodes (rd_bind m f) y (bs @ cs)"
  unfolding encodes_def
proof (intro allI)
  fix pre suf :: "byte list"
  show "rd_bind m f (pre @ (bs @ cs) @ suf) (length pre) = Inr (y, length pre + length (bs @ cs))"
    using encodesD [OF assms(1), of pre "cs @ suf"] encodesD [OF assms(2), of "pre @ bs" suf]
    by (simp add: rd_bind_def add.assoc)
qed

lemma encodes_map: "encodes m x bs \<Longrightarrow> f x = y \<Longrightarrow> encodes (rd_map f m) y bs"
  unfolding rd_map_def using encodes_bind [OF _ encodes_ret] by fastforce

lemma encodes_byte: "encodes byte_at b [b]"
  by (simp add: encodes_def byte_at_eq nth_append)

lemma encodes_byte_then: "encodes (f b) y cs \<Longrightarrow> encodes (rd_bind byte_at f) y (b # cs)"
  using encodes_bind [OF encodes_byte] by fastforce

lemma encodes_leb: "(\<And>rest. load (bs @ rest) = Inr (v, length bs)) \<Longrightarrow> encodes (leb_at load) v bs"
  by (simp add: encodes_def leb_at_def)

lemma encodes_u32: "encodes u32_at v (EncodeUint32 v)"
  by (intro encodes_leb LoadUint32_EncodeUint32)

lemma encodes_nonempty: "encodes rd x bs \<Longrightarrow> reads_in 0 1 rd \<Longrightarrow> bs \<noteq> []"
  using encodesD [of rd x bs "[]" "[]"] reads_inD [of 0 1 rd 0 "[]"] by fastforce

definition enc_vec :: "('a \<Rightarrow> byte list) \<Rightarrow> 'a list \<Rightarrow> byte list" where
  "enc_vec enc xs = EncodeUint32 (word_of_nat (length xs)) @ concat (map enc xs)"

definition enc_opt :: "('a \<Rightarrow> byte list) \<Rightarrow> 'a option \<Rightarrow> byte list" where
  "enc_opt enc x = (case x of None \<Rightarrow> [0x00] | Some y \<Rightarrow> 0x01 # enc y)"

definition vec_fits :: "('a \<Rightarrow> bool) \<Rightarrow> 'a list \<Rightarrow> bool" where
  "vec_fits ok xs \<longleftrightarrow> length xs \<le> maxVectorElements \<and> list_all ok xs"

locale wire =
  fixes rd :: "'a reader" and enc :: "'a \<Rightarrow> byte list" and ok :: "'a \<Rightarrow> bool"
  assumes reads_back: "ok x \<Longrightarrow> encodes rd x (enc x)"
    and progress: "reads_in 0 1 rd"
begin

lemma nonempty: "ok x \<Longrightarrow> enc x \<noteq> []"
  by (rule encodes_nonempty [OF reads_back progress])

lemma elements: "list_all ok xs \<Longrightarrow> encodes (read_n (length xs) rd) xs (concat (map enc xs))"
proof (induction xs)
  case (Cons x xs)
  then have "encodes (rd_bind rd (\<lambda>x. rd_bind (read_n (length xs) rd) (\<lambda>xs. rd_ret (x # xs)))) (x # xs) (enc x @ concat (map enc xs) @ [])"
    by (intro encodes_bind [OF reads_back] encodes_bind [OF Cons.IH] encodes_ret) simp_all
  then show ?case by simp
qed (simp add: encodes_ret)

lemma longer: "list_all ok xs \<Longrightarrow> length xs \<le> length (concat (map enc xs))"
proof (induction xs)
  case (Cons x xs)
  then show ?case using nonempty [of x] by (cases "enc x") auto
qed simp

lemma vec:
  assumes "vec_fits ok xs"
  shows "encodes (read_vec rd) xs (enc_vec enc xs)"
  unfolding encodes_def
proof (intro allI)
  fix pre suf :: "byte list"
  let ?c = "word_of_nat (length xs) :: u32" and ?body = "concat (map enc xs)"
  have n: "unat ?c = length xs" "length xs \<le> maxVectorElements" and all: "list_all ok xs"
    using assms by (simp_all add: vec_fits_def maxVectorElements_def unat_of_nat)
  have "readBoundedVecCount 1 (pre @ EncodeUint32 ?c @ ?body @ suf) (length pre) = Inr (?c, length pre + length (EncodeUint32 ?c))"
    using encodesD [OF encodes_u32, of pre ?c "?body @ suf"] n longer [OF all] by (simp add: readBoundedVecCount_def)
  then show "read_vec rd (pre @ enc_vec enc xs @ suf) (length pre) = Inr (xs, length pre + length (enc_vec enc xs))"
    using encodesD [OF elements [OF all], of "pre @ EncodeUint32 ?c" suf] n
    by (simp add: read_vec_def rd_bind_def enc_vec_def add.assoc)
qed

end

text \<open>Names, primitives and references.\<close>

definition string_bytes :: "string \<Rightarrow> byte list" where
  "string_bytes s = map (\<lambda>c. word_of_nat (of_char c)) s"

definition enc_name :: "string \<Rightarrow> byte list" where
  "enc_name s = EncodeUint32 (word_of_nat (length s)) @ string_bytes s"

definition name_fits :: "string \<Rightarrow> bool" where
  "name_fits s \<longleftrightarrow> length s < 2 ^ 32"

definition prim_codes :: "(string \<times> byte) list" where
  "prim_codes = [(''error-context'', 0x64), (''bool'', 0x7f), (''s8'', 0x7e), (''u8'', 0x7d), (''s16'', 0x7c), (''u16'', 0x7b),
     (''s32'', 0x7a), (''u32'', 0x79), (''s64'', 0x78), (''u64'', 0x77), (''f32'', 0x76), (''f64'', 0x75), (''char'', 0x74),
     (''string'', 0x73)]"

definition enc_prim :: "string \<Rightarrow> byte" where
  "enc_prim p = (case map_of prim_codes p of Some b \<Rightarrow> b | None \<Rightarrow> 0)"

definition is_prim :: "string \<Rightarrow> bool" where
  "is_prim p \<longleftrightarrow> p \<in> fst ` set prim_codes"

definition enc_ref :: "type_ref \<Rightarrow> byte list" where
  "enc_ref t = (case TypeIndex t of Some i \<Rightarrow> EncodeInt64 (ucast i) | None \<Rightarrow> [enc_prim (Primitive t)])"

definition ref_fits :: "type_ref \<Rightarrow> bool" where
  "ref_fits t \<longleftrightarrow> (case TypeIndex t of Some i \<Rightarrow> Primitive t = '''' | None \<Rightarrow> is_prim (Primitive t))"

lemma string_bytes_back [simp]: "bytes_string (string_bytes s) = s" "length (string_bytes s) = length s"
proof -
  have "char_of (unat (word_of_nat (of_char c) :: byte)) = c" for c
    by (simp add: unat_of_nat char_of_eq_iff)
  then show "bytes_string (string_bytes s) = s" by (simp add: bytes_string_def string_bytes_def map_idI)
qed (simp add: string_bytes_def)

lemma all_prims: "is_prim p \<Longrightarrow> list_all P (map fst prim_codes) \<Longrightarrow> P p"
  by (force simp: is_prim_def list_all_iff)

lemma prim_code_back: "is_prim p \<Longrightarrow> isPrimValtype (enc_prim p) \<and> primName (enc_prim p) = p"
  by (erule all_prims) (simp add: prim_codes_def enc_prim_def isPrimValtype_def primName_def)

text \<open>The code of a primitive is the one-byte signed integer of that byte.\<close>

definition prim_s33 :: "byte \<Rightarrow> u64" where
  "prim_s33 b = ucast b - 128"

lemma prim_code_s33:
  assumes "is_prim p"
  shows "EncodeInt64 (prim_s33 (enc_prim p)) = [enc_prim p] \<and> sint (prim_s33 (enc_prim p)) < 0 \<and>
    - (2 ^ 32) \<le> sint (prim_s33 (enc_prim p)) \<and> ucast (prim_s33 (enc_prim p) AND 0x7f) = enc_prim p"
  using assms
  by (rule all_prims) (simp add: prim_codes_def enc_prim_def prim_s33_def EncodeInt64_unfold last_group_iff)

interpretation refs: wire readValTypeRef enc_ref ref_fits
proof
  fix t :: type_ref assume fits: "ref_fits t"
  obtain p i where t: "t = \<lparr>Primitive = p, TypeIndex = i\<rparr>" by (cases t)
  show "encodes readValTypeRef t (enc_ref t)"
  proof (cases i)
    case None
    with fits have p: "is_prim p" by (simp add: ref_fits_def t)
    let ?v = "prim_s33 (enc_prim p)"
    have "encodes (leb_at LoadInt33AsInt64) ?v (EncodeInt64 ?v)"
      using prim_code_s33 [OF p] by (intro encodes_leb LoadInt33_EncodeInt64) simp_all
    then show ?thesis
      using prim_code_s33 [OF p] prim_code_back [OF p] None unfolding readValTypeRef_def enc_ref_def
      by (auto intro!: encodes_bind [where cs = "[]", simplified] simp: Let_def t encodes_ret)
  next
    case (Some i)
    have "encodes (leb_at LoadInt33AsInt64) (ucast i) (EncodeInt64 (ucast i))"
      by (intro encodes_leb LoadInt33_index)
    moreover have "\<not> sint (ucast i :: u64) < 0" by (simp add: sint_index64)
    ultimately show ?thesis using Some fits unfolding readValTypeRef_def enc_ref_def
      by (auto intro!: encodes_bind [where cs = "[]", simplified]
          simp: t ref_fits_def encodes_ret ucast_down_ucast_id is_down_def target_size_def source_size_def word_size)
  qed
qed (rule reads_readValTypeRef)

interpretation names: wire readLabel enc_name name_fits
proof
  fix s assume "name_fits s"
  then have "unat (word_of_nat (length s) :: u32) = length s" by (simp add: name_fits_def unat_of_nat)
  then have "encodes name_bytes (string_bytes s) (enc_name s)"
    unfolding enc_name_def name_bytes_def
    by (intro encodes_bind [OF encodes_u32]) (simp add: encodes_def)
  then show "encodes readLabel s (enc_name s)"
    unfolding readLabel_def by (rule encodes_map) simp
qed (rule reads_readLabel)

text \<open>Optional values and the parts of compound types.\<close>

definition opt_fits :: "('a \<Rightarrow> bool) \<Rightarrow> 'a option \<Rightarrow> bool" where
  "opt_fits ok x \<longleftrightarrow> (case x of None \<Rightarrow> True | Some y \<Rightarrow> ok y)"

definition enc_field :: "string \<times> type_ref \<Rightarrow> byte list" where
  "enc_field f = enc_name (fst f) @ enc_ref (snd f)"

definition field_fits :: "string \<times> type_ref \<Rightarrow> bool" where
  "field_fits f \<longleftrightarrow> name_fits (fst f) \<and> ref_fits (snd f)"

definition enc_case :: "variant_case \<Rightarrow> byte list" where
  "enc_case c = enc_name (CaseName c) @ enc_opt enc_ref (CaseType c) @ [0x00]"

definition case_fits :: "variant_case \<Rightarrow> bool" where
  "case_fits c \<longleftrightarrow> name_fits (CaseName c) \<and> opt_fits ref_fits (CaseType c)"

lemma encodes_opt: "opt_fits ref_fits x \<Longrightarrow> encodes readOptValTypeRef x (enc_opt enc_ref x)"
  unfolding readOptValTypeRef_def enc_opt_def
  by (cases x) (auto simp: opt_fits_def intro!: encodes_byte_then encodes_ret encodes_map [OF refs.reads_back])

interpretation fields: wire readLabelValtype enc_field field_fits
proof
  fix f :: "string \<times> type_ref" assume "field_fits f"
  then show "encodes readLabelValtype f (enc_field f)"
    unfolding readLabelValtype_def enc_field_def
    by (intro encodes_bind [OF names.reads_back] encodes_map [OF refs.reads_back]) (simp_all add: field_fits_def)
qed (unfold readLabelValtype_def, intro reads_seq reading)

interpretation cases: wire readVariantCaseDesc enc_case case_fits
proof
  fix c :: variant_case assume fits: "case_fits c"
  obtain n t where c: "c = \<lparr>CaseName = n, CaseType = t\<rparr>" by (cases c)
  have "encodes readRefines () [0x00]"
    unfolding readRefines_def by (intro encodes_byte_then) (simp add: encodes_ret)
  from encodes_bind [OF this encodes_ret]
  have "encodes (rd_bind readRefines (\<lambda>_. rd_ret c)) c [0x00]" by fastforce
  then show "encodes readVariantCaseDesc c (enc_case c)"
    using fits unfolding readVariantCaseDesc_def enc_case_def c
    by (intro encodes_bind [OF names.reads_back] encodes_bind [OF encodes_opt]) (simp_all add: case_fits_def)
qed (unfold readVariantCaseDesc_def readRefines_def, intro reads_seq reading, simp_all)

subsection \<open>Type definitions\<close>

text \<open>The binary form of a value, function or resource type, and the types that have one: names and vectors within the limits,
  references that are a primitive or an index but not both.\<close>

definition enc_results :: "func_results \<Rightarrow> byte list" where
  "enc_results rs = (case Unnamed rs of
     Some t \<Rightarrow> 0x00 # enc_ref t
   | None \<Rightarrow> 0x01 # enc_vec enc_field (map (\<lambda>r. (ResultName r, ResultType r)) (Named rs)))"

definition results_fit :: "func_results \<Rightarrow> bool" where
  "results_fit rs \<longleftrightarrow> (case Unnamed rs of
     Some t \<Rightarrow> ref_fits t \<and> Named rs = []
   | None \<Rightarrow> vec_fits field_fits (map (\<lambda>r. (ResultName r, ResultType r)) (Named rs)))"

definition core_codes :: "(string \<times> byte) list" where
  "core_codes = [(''i32'', 0x7f), (''i64'', 0x7e), (''f32'', 0x7d), (''f64'', 0x7c), (''v128'', 0x7b)]"

fun encodeDesc :: "type_desc \<Rightarrow> byte list" where
  "encodeDesc (PrimitiveDesc p) = [enc_prim p]"
| "encodeDesc (RecordDesc fs) = 0x72 # enc_vec enc_field (map (\<lambda>f. (FieldName f, FieldType f)) fs)"
| "encodeDesc (VariantDesc cs) = 0x71 # enc_vec enc_case cs"
| "encodeDesc (ListDesc t) = 0x70 # enc_ref t"
| "encodeDesc (TupleDesc ts) = 0x6f # enc_vec enc_ref ts"
| "encodeDesc (FlagsDesc ns) = 0x6e # enc_vec enc_name ns"
| "encodeDesc (EnumDesc ns) = 0x6d # enc_vec enc_name ns"
| "encodeDesc (OptionDesc t) = 0x6b # enc_ref t"
| "encodeDesc (ResultDesc a b) = 0x6a # enc_opt enc_ref a @ enc_opt enc_ref b"
| "encodeDesc (OwnDesc i) = 0x69 # EncodeUint32 i"
| "encodeDesc (BorrowDesc i) = 0x68 # EncodeUint32 i"
| "encodeDesc (StreamDesc e) = 0x66 # enc_opt enc_ref e"
| "encodeDesc (FutureDesc e) = 0x65 # enc_opt enc_ref e"
| "encodeDesc (FuncDesc f) = (if Async f then 0x43 else 0x40) #
     enc_vec enc_field (map (\<lambda>p. (ParamName p, ParamType p)) (Params f)) @ enc_results (Results f)"
| "encodeDesc (ResourceDesc rep dtor) = 0x3f # the (map_of core_codes (Primitive rep)) # enc_opt EncodeUint32 dtor"
| "encodeDesc _ = []"

fun encodable :: "type_desc \<Rightarrow> bool" where
  "encodable (PrimitiveDesc p) = is_prim p"
| "encodable (RecordDesc fs) = vec_fits field_fits (map (\<lambda>f. (FieldName f, FieldType f)) fs)"
| "encodable (VariantDesc cs) = vec_fits case_fits cs"
| "encodable (ListDesc t) = ref_fits t"
| "encodable (TupleDesc ts) = vec_fits ref_fits ts"
| "encodable (FlagsDesc ns) = vec_fits name_fits ns"
| "encodable (EnumDesc ns) = vec_fits name_fits ns"
| "encodable (OptionDesc t) = ref_fits t"
| "encodable (ResultDesc a b) = (opt_fits ref_fits a \<and> opt_fits ref_fits b)"
| "encodable (OwnDesc _) = True"
| "encodable (BorrowDesc _) = True"
| "encodable (StreamDesc e) = (opt_fits ref_fits e \<and> opt_fits (\<lambda>t. Primitive t \<noteq> ''char'') e)"
| "encodable (FutureDesc e) = opt_fits ref_fits e"
| "encodable (FuncDesc f) = (vec_fits field_fits (map (\<lambda>p. (ParamName p, ParamType p)) (Params f)) \<and> results_fit (Results f))"
| "encodable (ResourceDesc rep dtor) = (Primitive rep \<in> fst ` set core_codes \<and> TypeIndex rep = None)"
| "encodable _ = False"

lemma map_fields [simp]:
  "map ((\<lambda>(n, t). \<lparr>FieldName = n, FieldType = t\<rparr>) \<circ> (\<lambda>f. (FieldName f, FieldType f))) fs = fs"
  "map ((\<lambda>(n, t). \<lparr>ParamName = n, ParamType = t\<rparr>) \<circ> (\<lambda>p. (ParamName p, ParamType p))) ps = ps"
  "map ((\<lambda>(n, t). \<lparr>ResultName = n, ResultType = t\<rparr>) \<circ> (\<lambda>r. (ResultName r, ResultType r))) rs = rs"
  by (simp_all add: map_idI)

lemma encodes_results:
  assumes "results_fit rs"
  shows "encodes readResultListDesc rs (enc_results rs)"
proof -
  obtain u ns where rs: "rs = \<lparr>Unnamed = u, Named = ns\<rparr>" by (cases rs)
  show ?thesis
    using assms unfolding readResultListDesc_def enc_results_def readLabelValtypeVecDesc_def rs
    by (cases u) (auto simp: results_fit_def intro!: encodes_byte_then encodes_map [OF refs.reads_back] encodes_map [OF fields.vec])
qed

lemma encodes_func:
  assumes "encodable (FuncDesc f)"
  shows "encodes (readFunctypeDesc (Async f)) (FuncDesc f)
    (enc_vec enc_field (map (\<lambda>p. (ParamName p, ParamType p)) (Params f)) @ enc_results (Results f))"
proof -
  obtain ps rs a where f: "f = \<lparr>Params = ps, Results = rs, Async = a\<rparr>" by (cases f)
  show ?thesis
    using assms unfolding readFunctypeDesc_def readLabelValtypeVecDesc_def f
    by (intro encodes_bind [OF fields.vec] encodes_map [OF encodes_results]) simp_all
qed

lemma encodes_resource:
  assumes "encodable (ResourceDesc rep dtor)"
  shows "encodes readResourcetypeDesc (ResourceDesc rep dtor) (the (map_of core_codes (Primitive rep)) # enc_opt EncodeUint32 dtor)"
proof -
  obtain p where rep: "rep = \<lparr>Primitive = p, TypeIndex = None\<rparr>" and p: "p \<in> fst ` set core_codes"
    using assms by (cases rep) auto
  from p have "coreValtypeName (the (map_of core_codes p)) = Inr p"
    by (auto simp: core_codes_def coreValtypeName_def)
  then show ?thesis unfolding readResourcetypeDesc_def enc_opt_def rep
    by (cases dtor) (auto intro!: encodes_byte_then encodes_ret encodes_map [OF encodes_u32])
qed

lemma encodes_stream: "encodable (StreamDesc e) \<Longrightarrow> encodes readStreamDesc (StreamDesc e) (enc_opt enc_ref e)"
  unfolding readStreamDesc_def
  by (rule encodes_bind [OF encodes_opt, where cs = "[]", simplified]) (auto simp: opt_fits_def intro: encodes_ret split: option.splits)

lemma enc_prim_not_tag:
  "is_prim p \<Longrightarrow> enc_prim p \<noteq> 0x40 \<and> enc_prim p \<noteq> 0x43 \<and> enc_prim p \<noteq> 0x41 \<and> enc_prim p \<noteq> 0x42 \<and> enc_prim p \<noteq> 0x3f"
  by (erule all_prims) (simp add: prim_codes_def enc_prim_def)

lemma not_prim_tags [simp]:
  "\<not> isPrimValtype 0x72" "\<not> isPrimValtype 0x71" "\<not> isPrimValtype 0x70" "\<not> isPrimValtype 0x6f" "\<not> isPrimValtype 0x6e"
  "\<not> isPrimValtype 0x6d" "\<not> isPrimValtype 0x6b" "\<not> isPrimValtype 0x6a" "\<not> isPrimValtype 0x69" "\<not> isPrimValtype 0x68"
  "\<not> isPrimValtype 0x66" "\<not> isPrimValtype 0x65"
  by (simp_all add: isPrimValtype_def)

text \<open>The tag, and the reader of what follows it.\<close>

lemma encodes_tagged:
  "encodes (readDefvaltypeDesc tag) d bs \<Longrightarrow> \<not> isPrimValtype tag \<Longrightarrow> tag \<notin> {0x40, 0x43, 0x41, 0x42, 0x3f} \<Longrightarrow>
   encodes (readDeftypeDesc (Suc fuel)) d (tag # bs)"
  unfolding readDeftypeDesc.simps by (intro encodes_byte_then) simp

declare readDeftypeDesc.simps(2) [simp del]

lemma encodes_desc: "encodable d \<Longrightarrow> encodes (readDeftypeDesc (Suc fuel)) d (encodeDesc d)"
proof (induction d rule: encodeDesc.induct)
  case (1 p)
  then show ?case using enc_prim_not_tag [of p] prim_code_back [of p]
    by (auto simp: readDeftypeDesc.simps(2) intro!: encodes_byte_then encodes_ret)
next
  case (14 f)
  then show ?case using encodes_func [of f]
    by (cases "Async f") (auto simp: readDeftypeDesc.simps(2) intro!: encodes_byte_then)
next
  case (15 rep dtor)
  then show ?case using encodes_resource [of rep dtor]
    by (auto simp: readDeftypeDesc.simps(2) intro!: encodes_byte_then)
next
  case (9 a b)
  then show ?case
    by (auto simp: readDefvaltypeDesc_def intro!: encodes_tagged encodes_bind encodes_opt encodes_map)
qed (auto simp: readDefvaltypeDesc_def readRecordDesc_def readVariantDesc_def readLabelValtypeVecDesc_def readLabelVecDesc_def
    readValtypeVecDesc_def intro!: encodes_tagged encodes_map [OF refs.reads_back] encodes_map [OF fields.vec]
    encodes_map [OF cases.vec] encodes_map [OF refs.vec] encodes_map [OF names.vec] encodes_map [OF encodes_u32]
    encodes_map [OF encodes_opt] encodes_stream)

interpretation descs: wire "readDeftypeDesc (Suc fuel)" encodeDesc encodable for fuel
  by (unfold_locales, erule encodes_desc, rule reads_readDeftypeDesc, simp)

subsection \<open>Properties\<close>

text \<open>Every value, function and resource type is read back from its binary form, whatever bytes stand before and behind it:
  the reader returns exactly that descriptor and stops right behind it.\<close>

theorem type_encoding_roundtrip:
  "encodable d \<Longrightarrow>
   readDeftypeDesc (Suc fuel) (pre @ encodeDesc d @ suf) (length pre) = Inr (d, length pre + length (encodeDesc d))"
  by (rule encodesD [OF encodes_desc])

definition point_type :: type_desc where
  "point_type = RecordDesc [\<lparr>FieldName = ''x'', FieldType = prim ''u32''\<rparr>, \<lparr>FieldName = ''next'', FieldType = tidx 300\<rparr>]"

theorem type_encoding_roundtrip_witness:
  "readDeftypeDesc (Suc 0) ([0x2a] @ encodeDesc point_type @ [0x07]) 1 = Inr (point_type, 1 + length (encodeDesc point_type))"
  using type_encoding_roundtrip [of point_type 0 "[0x2a]" "[0x07]"]
  by (simp add: point_type_def vec_fits_def maxVectorElements_def field_fits_def name_fits_def ref_fits_def prim_def tidx_def
      is_prim_def prim_codes_def)

text \<open>The nesting of types is not limited: for every depth there is a type whose reading needs a recursion that deep, on three bytes
  for each level. \<open>DecodeLimits.MaxDepth\<close> only limits nested components.\<close>

definition nested_type :: "nat \<Rightarrow> byte list" where
  "nested_type n = concat (replicate n [0x41, 0x01, 0x01]) @ [0x7f]"

lemma vec_count_one: "off + 1 < length buf \<Longrightarrow> buf ! off = 0x01 \<Longrightarrow> readBoundedVecCount 1 buf off = Inr (1, off + 1)"
  by (simp add: readBoundedVecCount_def leb_at_def LoadUint32_def LoadUint32_loop.simps maxVectorElements_def)

lemma nested_type_step:
  assumes "buf ! off = 0x41" "buf ! (off + 1) = 0x01" "buf ! (off + 2) = 0x01" "off + 3 < length buf"
  shows "readDeftypeDesc (Suc fuel) buf off = rbind (readDeftypeDesc fuel buf (Suc (Suc (Suc off)))) (\<lambda>(_, off'). Inr (ComponentDesc, off'))"
  using assms vec_count_one [of "off + 1" buf]
  by (simp add: readDeftypeDesc.simps(2) rd_bind_def byte_at_eq rd_map_def rd_ret_def readComponenttype_def read_vec_def
      readComponentDecl_def readInstanceDeclDesc_def rbind_assoc case_prod_unfold add.commute)

lemma nested_type_deep:
  "readDeftypeDesc k (pre @ nested_type n @ suf) (length pre) =
     (if k \<le> n then Inl DecodeFuel
      else Inr (if n = 0 then PrimitiveDesc ''bool'' else ComponentDesc, length pre + length (nested_type n)))"
proof (induction n arbitrary: k pre)
  case 0
  show ?case
    by (cases k) (simp_all add: nested_type_def readDeftypeDesc.simps(2) rd_fail_def rd_bind_def byte_at_eq nth_append
        isPrimValtype_def primName_def rd_ret_def)
next
  case (Suc n)
  let ?buf = "pre @ nested_type (Suc n) @ suf"
  have buf: "?buf = (pre @ [0x41, 0x01, 0x01]) @ nested_type n @ suf" by (simp add: nested_type_def)
  have len: "0 < length (nested_type n)" by (simp add: nested_type_def)
  show ?case
  proof (cases k)
    case (Suc k')
    have "readDeftypeDesc (Suc k') ?buf (length pre) = rbind (readDeftypeDesc k' ?buf (Suc (Suc (Suc (length pre))))) (\<lambda>(_, off'). Inr (ComponentDesc, off'))"
      by (rule nested_type_step) (use len in \<open>simp_all add: nested_type_def nth_append\<close>)
    then show ?thesis
      using Suc.IH [of k' "pre @ [0x41, 0x01, 0x01]"] Suc buf by (simp add: nested_type_def)
  qed (simp add: rd_fail_def)
qed

lemma type_nesting_unbounded:
  "readDeftypeDesc n (nested_type n) 0 = Inl DecodeFuel \<and>
   (\<exists>d. readDeftypeDesc (Suc n) (nested_type n) 0 = Inr (d, 3 * n + 1))"
  using nested_type_deep [of n "[]" n "[]"] nested_type_deep [of "Suc n" "[]" n "[]"]
  by (simp add: nested_type_def length_concat sum_list_replicate)

text \<open>A primitive is accepted in other encodings than the single byte of the grammar: only the low seven bits of a negative reference are
  looked at.\<close>

lemma valtype_overlong: "readValTypeRef [0xff, 0x7e] 0 = Inr (prim ''bool'', 2)"
  by (simp add: readValTypeRef_def rd_bind_def leb_at_def LoadInt33AsInt64_def LoadInt33_loop.simps int33Finish_def Let_def
      isPrimValtype_def primName_def rd_ret_def prim_def)

text \<open>Every bound of a type other than equality is taken for a subtype bound.\<close>

lemma any_type_bound: "b \<noteq> 0 \<Longrightarrow> readExterndesc [0x03, b] 0 = Inr ((0x03, None), 2)"
  by (simp add: readExterndesc_def rd_bind_def byte_at_eq rd_ret_def)

end
