(* ===== verification/Component.thy ===== *)
theory Component
  imports Decode_Correct
begin

text \<open>
  A component and its decoding: \<open>internal/binary/component.go\<close>, the sections of \<open>decoder.go\<close> and the index spaces
  (\<open>typespace.go\<close>, \<open>corefuncspace.go\<close>, \<open>componentfuncspace.go\<close>, \<open>componentinstancespace.go\<close>). An entry of an
  index space, a struct of which one field counts by its kind, is a datatype. A section decoder sees the buffer up to the end
  of its section. The counter of sections and the depth are natural numbers: they count bytes that were read, so that the
  fixed width of the source cannot overflow.
\<close>

subsection \<open>The data (component.go)\<close>

record type_def =
  Type_Index :: u32
  Type_Kind :: string
  Descriptor :: type_desc

record import_def =
  Import_Name :: string
  Import_ExternType :: byte
  Import_ExternIndex :: u32
  TypeEqIndex :: u32
  TypeEqBound :: bool

record export_def =
  Export_Name :: string
  Export_ExternType :: byte
  Export_ExternIndex :: u32

record core_module =
  Module_Offset :: nat
  Module_Size :: nat

record core_instantiate_arg =
  CoreArg_Name :: string
  CoreArg_InstanceIdx :: u32

record core_inline_export =
  CoreExport_Name :: string
  CoreExport_Sort :: byte
  CoreSortIdx :: u32

record core_instance =
  CoreInstance_Kind :: byte
  ModuleIdx :: u32
  CoreInstance_Args :: "core_instantiate_arg list"
  CoreInstance_Exports :: "core_inline_export list"

record instantiate_arg =
  Arg_Name :: string
  Arg_Sort :: byte
  Arg_SortIdx :: u32

record inline_export =
  Inline_Name :: string
  Inline_Sort :: byte
  Inline_SortIdx :: u32

record instance_def =
  Instance_Kind :: byte
  ComponentIdx :: u32
  Instance_Args :: "instantiate_arg list"
  Instance_Exports :: "inline_export list"

record canon_opt =
  Opt_Kind :: byte
  Opt_Idx :: u32

record canon =
  Canon_Kind :: byte
  CoreFuncIdx :: u32
  Canon_FuncIdx :: u32
  Canon_Opts :: "canon_opt list"
  TypeIdx :: u32
  Canon_Async :: bool
  Cancellable :: bool
  TableIdx :: u32
  MemIdx :: u32
  CoreValType :: byte
  Slot :: u32
  TaskReturnResult :: func_results

record alias_def =
  Alias_Sort :: byte
  TargetKind :: byte
  Alias_InstanceIdx :: u32
  Alias_Name :: string
  OuterCount :: u32
  OuterIndex :: u32
  CoreSort :: byte

record start_def =
  Start_FuncIdx :: u32
  Start_Args :: "u32 list"
  ResultCount :: u32

record raw_section =
  Raw_ID :: byte
  Raw_Size :: u32

text \<open>The index spaces.\<close>

datatype type_space_entry = TypeSpaceDef u32 | TypeSpaceAlias u32 | TypeSpaceImport u32 | TypeSpaceExport u32

datatype core_func_entry = CoreFuncFromAlias u32 | CoreFuncFromCanon u32

datatype component_func_entry =
  ComponentFuncFromImport u32 | ComponentFuncFromAlias u32 | ComponentFuncFromCanonLift u32 | ComponentFuncFromExport u32

datatype component_instance_entry =
    ComponentInstanceFromImport u32
  | ComponentInstanceFromDefinition u32
  | ComponentInstanceFromAlias u32
  | ComponentInstanceFromExport u32

text \<open>The component without the components nested in it, and the tree of both.\<close>

record component_data =
  c_Types :: "type_def list"
  c_TypeSpace :: "type_space_entry list"
  c_Imports :: "import_def list"
  c_Exports :: "export_def list"
  c_ComponentFuncSpace :: "component_func_entry list"
  c_ComponentInstanceSpace :: "component_instance_entry list"
  c_CoreModules :: "core_module list"
  c_CoreInstances :: "core_instance list"
  c_Instances :: "instance_def list"
  c_Aliases :: "alias_def list"
  c_Canons :: "canon list"
  c_CoreFuncSpace :: "core_func_entry list"
  c_Start :: "start_def option"
  c_RawSections :: "raw_section list"
  c_Bytes :: "byte list"
  c_Decoded :: bool

datatype component = Component (data: component_data) (NestedComponents: "component list")

definition zero_component :: component_data where
  "zero_component = \<lparr>c_Types = [], c_TypeSpace = [], c_Imports = [], c_Exports = [], c_ComponentFuncSpace = [],
     c_ComponentInstanceSpace = [], c_CoreModules = [], c_CoreInstances = [], c_Instances = [], c_Aliases = [], c_Canons = [],
     c_CoreFuncSpace = [], c_Start = None, c_RawSections = [], c_Bytes = [], c_Decoded = False\<rparr>"

definition zero_canon :: "byte \<Rightarrow> canon" where
  "zero_canon k = \<lparr>Canon_Kind = k, CoreFuncIdx = 0, Canon_FuncIdx = 0, Canon_Opts = [], TypeIdx = 0, Canon_Async = False,
     Cancellable = False, TableIdx = 0, MemIdx = 0, CoreValType = 0, Slot = 0,
     TaskReturnResult = \<lparr>Unnamed = None, Named = []\<rparr>\<rparr>"

subsection \<open>Section payloads (decoder.go)\<close>

definition readSortidx :: "(byte \<times> u32) reader" where
  "readSortidx = rd_bind byte_at (\<lambda>sort.
     if sort = 0x00 then rd_bind byte_at (\<lambda>_. rd_map (\<lambda>i. (sort, i)) u32_at)
     else rd_map (\<lambda>i. (sort, i)) u32_at)"

definition decodeBool :: "bool reader" where
  "decodeBool = rd_bind byte_at (\<lambda>b.
     if b = 0x00 then rd_ret False else if b = 0x01 then rd_ret True else rd_fail (InvalidTag b))"

definition decodeCanonOpt :: "canon_opt reader" where
  "decodeCanonOpt = rd_bind byte_at (\<lambda>k.
     if k = 0x00 \<or> k = 0x01 \<or> k = 0x02 then rd_ret \<lparr>Opt_Kind = k, Opt_Idx = 0\<rparr>
     else if k = 0x03 \<or> k = 0x04 \<or> k = 0x05 \<or> k = 0x07 then rd_map (\<lambda>i. \<lparr>Opt_Kind = k, Opt_Idx = i\<rparr>) u32_at
     else if k = 0x06 then rd_ret \<lparr>Opt_Kind = k, Opt_Idx = 0\<rparr>
     else rd_fail (UnsupportedM1 k))"

definition decodeCanonOpts :: "canon_opt list reader" where
  "decodeCanonOpts = read_vec decodeCanonOpt"

text \<open>A section decoder checks in the end that it has not read more than the size of its section.\<close>

definition within_section :: "u32 \<Rightarrow> 'a reader \<Rightarrow> 'a reader" where
  "within_section sectionSize rd buf off = rbind (rd buf off) (\<lambda>(x, off').
     if off' - off > unat sectionSize then Inl (SectionSize sectionSize (off' - off)) else Inr (x, off'))"

definition number_types :: "type_desc list \<Rightarrow> type_def list" where
  "number_types ds = map (\<lambda>(i, d). \<lparr>Type_Index = word_of_nat i, Type_Kind = Kind d, Descriptor = d\<rparr>) (enumerate 0 ds)"

definition decodeTypeSection :: "u32 \<Rightarrow> type_def list reader" where
  "decodeTypeSection sz buf =
     within_section sz (rd_map number_types (read_vec (readDeftypeDesc (Suc (length buf))))) buf"

definition decodeImport :: "import_def reader" where
  "decodeImport = rd_bind readExternName (\<lambda>n. rd_map (\<lambda>(sort, idx).
     \<lparr>Import_Name = n, Import_ExternType = sort,
      Import_ExternIndex = (case idx of Some i \<Rightarrow> if sort = 0x01 then i else 0 | None \<Rightarrow> 0),
      TypeEqIndex = (case idx of Some i \<Rightarrow> if sort = 0x03 then i else 0 | None \<Rightarrow> 0),
      TypeEqBound = (sort = 0x03 \<and> idx \<noteq> None)\<rparr>) readExterndesc)"

definition decodeImportSection :: "u32 \<Rightarrow> import_def list reader" where
  "decodeImportSection sz = within_section sz (read_vec decodeImport)"

definition decodeExport :: "export_def reader" where
  "decodeExport = rd_bind readExternName (\<lambda>n. rd_bind readSortidx (\<lambda>(sort, idx). rd_bind byte_at (\<lambda>hasType.
     let ex = \<lparr>Export_Name = n, Export_ExternType = sort, Export_ExternIndex = idx\<rparr>
     in if hasType = 0x00 then rd_ret ex
        else if hasType = 0x01 then rd_map (\<lambda>_. ex) readExterndesc
        else rd_fail (InvalidTag hasType))))"

definition decodeExportSection :: "u32 \<Rightarrow> export_def list reader" where
  "decodeExportSection sz = within_section sz (read_vec decodeExport)"

definition decodeCoreModuleSection :: "nat \<Rightarrow> u32 \<Rightarrow> decode_error + nat" where
  "decodeCoreModuleSection offset sectionSize = Inr (offset + unat sectionSize)"

definition decodeCoreArg :: "core_instantiate_arg reader" where
  "decodeCoreArg = rd_bind readLabel (\<lambda>n. rd_bind (expect_byte 0x12 (InvalidTag 0x12)) (\<lambda>_.
     rd_map (\<lambda>i. \<lparr>CoreArg_Name = n, CoreArg_InstanceIdx = i\<rparr>) u32_at))"

definition decodeCoreInline :: "core_inline_export reader" where
  "decodeCoreInline = rd_bind readLabel (\<lambda>n. rd_bind byte_at (\<lambda>sort.
     rd_map (\<lambda>i. \<lparr>CoreExport_Name = n, CoreExport_Sort = sort, CoreSortIdx = i\<rparr>) u32_at))"

definition decodeCoreInstance :: "core_instance reader" where
  "decodeCoreInstance = rd_bind byte_at (\<lambda>k.
     if k = 0x00 then rd_bind u32_at (\<lambda>m.
       rd_map (\<lambda>as. \<lparr>CoreInstance_Kind = k, ModuleIdx = m, CoreInstance_Args = as, CoreInstance_Exports = []\<rparr>) (read_vec decodeCoreArg))
     else if k = 0x01 then
       rd_map (\<lambda>es. \<lparr>CoreInstance_Kind = k, ModuleIdx = 0, CoreInstance_Args = [], CoreInstance_Exports = es\<rparr>) (read_vec decodeCoreInline)
     else rd_fail (InvalidTag k))"

definition decodeCoreInstanceSection :: "u32 \<Rightarrow> core_instance list reader" where
  "decodeCoreInstanceSection sz = within_section sz (read_vec decodeCoreInstance)"

definition decodeInstanceArg :: "instantiate_arg reader" where
  "decodeInstanceArg = rd_bind readLabel (\<lambda>n.
     rd_map (\<lambda>(sort, i). \<lparr>Arg_Name = n, Arg_Sort = sort, Arg_SortIdx = i\<rparr>) readSortidx)"

definition decodeInline :: "inline_export reader" where
  "decodeInline = rd_bind readExternName (\<lambda>n.
     rd_map (\<lambda>(sort, i). \<lparr>Inline_Name = n, Inline_Sort = sort, Inline_SortIdx = i\<rparr>) readSortidx)"

definition decodeInstance :: "instance_def reader" where
  "decodeInstance = rd_bind byte_at (\<lambda>k.
     if k = 0x00 then rd_bind u32_at (\<lambda>c.
       rd_map (\<lambda>as. \<lparr>Instance_Kind = k, ComponentIdx = c, Instance_Args = as, Instance_Exports = []\<rparr>) (read_vec decodeInstanceArg))
     else if k = 0x01 then
       rd_map (\<lambda>es. \<lparr>Instance_Kind = k, ComponentIdx = 0, Instance_Args = [], Instance_Exports = es\<rparr>) (read_vec decodeInline)
     else rd_fail (InvalidTag k))"

definition decodeInstanceSection :: "u32 \<Rightarrow> instance_def list reader" where
  "decodeInstanceSection sz = within_section sz (read_vec decodeInstance)"

definition decodeAlias :: "alias_def reader" where
  "decodeAlias = rd_bind byte_at (\<lambda>sort.
     rd_bind (if sort = 0x00 then byte_at else rd_ret 0) (\<lambda>coreSort. rd_bind byte_at (\<lambda>target.
     if target = 0x00 \<or> target = 0x01 then rd_bind u32_at (\<lambda>i. rd_map (\<lambda>n.
       \<lparr>Alias_Sort = sort, TargetKind = target, Alias_InstanceIdx = i, Alias_Name = n, OuterCount = 0, OuterIndex = 0,
        CoreSort = coreSort\<rparr>) readLabel)
     else if target = 0x02 then rd_bind u32_at (\<lambda>c. rd_map (\<lambda>i.
       \<lparr>Alias_Sort = sort, TargetKind = target, Alias_InstanceIdx = 0, Alias_Name = [], OuterCount = c, OuterIndex = i,
        CoreSort = coreSort\<rparr>) u32_at)
     else rd_fail (InvalidTag target))))"

definition decodeAliasSection :: "u32 \<Rightarrow> alias_def list reader" where
  "decodeAliasSection sz = within_section sz (read_vec decodeAlias)"

text \<open>The kinds of canonical definitions, by their payload.\<close>

definition typeidx_kinds :: "byte list" where
  "typeidx_kinds = [0x02, 0x03, 0x04, 0x07, 0x0e, 0x15, 0x13, 0x14, 0x1a, 0x1b]"

definition no_payload_kinds :: "byte list" where
  "no_payload_kinds = [0x05, 0x0d, 0x1f, 0x22, 0x23, 0x24, 0x25, 0x1e, 0x26]"

definition decodeCanon :: "canon reader" where
  "decodeCanon = rd_bind byte_at (\<lambda>k.
     let c = zero_canon k in
     if k = 0x00 then
       rd_bind (expect_byte 0x00 (InvalidTag k)) (\<lambda>_. rd_bind u32_at (\<lambda>f. rd_bind decodeCanonOpts (\<lambda>opts.
         rd_map (\<lambda>t. c\<lparr>CoreFuncIdx := f, Canon_Opts := opts, TypeIdx := t\<rparr>) u32_at)))
     else if k = 0x01 then
       rd_bind (expect_byte 0x00 (InvalidTag k)) (\<lambda>_. rd_bind u32_at (\<lambda>f.
         rd_map (\<lambda>opts. c\<lparr>Canon_FuncIdx := f, Canon_Opts := opts\<rparr>) decodeCanonOpts))
     else if k \<in> set typeidx_kinds then rd_map (\<lambda>t. c\<lparr>TypeIdx := t\<rparr>) u32_at
     else if k \<in> set no_payload_kinds then rd_ret c
     else if k = 0x06 then rd_map (\<lambda>b. c\<lparr>Canon_Async := b\<rparr>) decodeBool
     else if k = 0x09 then
       rd_bind readResultListDesc (\<lambda>r. rd_map (\<lambda>opts. c\<lparr>TaskReturnResult := r, Canon_Opts := opts\<rparr>) decodeCanonOpts)
     else if k = 0x0a \<or> k = 0x0b then
       rd_bind byte_at (\<lambda>t. rd_map (\<lambda>i. c\<lparr>CoreValType := t, Slot := i\<rparr>) u32_at)
     else if k = 0x0f \<or> k = 0x10 \<or> k = 0x16 \<or> k = 0x17 then
       rd_bind u32_at (\<lambda>t. rd_map (\<lambda>opts. c\<lparr>TypeIdx := t, Canon_Opts := opts\<rparr>) decodeCanonOpts)
     else if k = 0x11 \<or> k = 0x12 \<or> k = 0x18 \<or> k = 0x19 then
       rd_bind u32_at (\<lambda>t. rd_map (\<lambda>b. c\<lparr>TypeIdx := t, Canon_Async := b\<rparr>) decodeBool)
     else if k = 0x1c \<or> k = 0x1d then rd_map (\<lambda>opts. c\<lparr>Canon_Opts := opts\<rparr>) decodeCanonOpts
     else if k = 0x20 \<or> k = 0x21 then
       rd_bind decodeBool (\<lambda>b. rd_map (\<lambda>i. c\<lparr>Cancellable := b, MemIdx := i\<rparr>) u32_at)
     else if k = 0x27 then rd_bind u32_at (\<lambda>t. rd_map (\<lambda>i. c\<lparr>TypeIdx := t, TableIdx := i\<rparr>) u32_at)
     else if k = 0x0c \<or> k = 0x29 \<or> k = 0x2b then rd_map (\<lambda>b. c\<lparr>Cancellable := b\<rparr>) decodeBool
     else rd_fail (UnsupportedM1 k))"

definition decodeCanonSection :: "u32 \<Rightarrow> canon list reader" where
  "decodeCanonSection sz = within_section sz (read_vec decodeCanon)"

definition decodeStartSection :: "u32 \<Rightarrow> start_def reader" where
  "decodeStartSection sz = within_section sz (rd_bind u32_at (\<lambda>f. rd_bind (read_vec u32_at) (\<lambda>as.
     rd_map (\<lambda>r. \<lparr>Start_FuncIdx = f, Start_Args = as, ResultCount = r\<rparr>) u32_at)))"

subsection \<open>Decoding a component (decoder.go)\<close>

record decode_limits =
  MaxInputBytes :: u64
  MaxDepth :: u32
  MaxSections :: u64

definition DefaultDecodeLimits :: decode_limits where
  "DefaultDecodeLimits = \<lparr>MaxInputBytes = 268435456, MaxDepth = 64, MaxSections = 1048576\<rparr>"

definition normalizeDecodeLimits :: "decode_limits \<Rightarrow> decode_limits" where
  "normalizeDecodeLimits l =
     \<lparr>MaxInputBytes = (if MaxInputBytes l = 0 then MaxInputBytes DefaultDecodeLimits else MaxInputBytes l),
      MaxDepth = (if MaxDepth l = 0 then MaxDepth DefaultDecodeLimits else MaxDepth l),
      MaxSections = (if MaxSections l = 0 then MaxSections DefaultDecodeLimits else MaxSections l)\<rparr>"

definition magic :: "byte list" where "magic = [0x00, 0x61, 0x73, 0x6d]"
definition componentVersion :: "byte list" where "componentVersion = [0x0d, 0x00]"
definition componentLayer :: "byte list" where "componentLayer = [0x01, 0x00]"

text \<open>What a section adds to the component: its definitions, and for each of them the entry it makes in an index space. The
  \<open>base\<close> is the number of definitions before.\<close>

definition numbered :: "nat \<Rightarrow> 'a list \<Rightarrow> (u32 \<times> 'a) list" where
  "numbered base xs = map (\<lambda>(j, x). (word_of_nat base + word_of_nat j, x)) (enumerate 0 xs)"

definition add_instances :: "instance_def list \<Rightarrow> component_data \<Rightarrow> component_data" where
  "add_instances xs c = c\<lparr>c_Instances := c_Instances c @ xs,
     c_ComponentInstanceSpace := c_ComponentInstanceSpace c @
       map (\<lambda>(j, _). ComponentInstanceFromDefinition j) (numbered (length (c_Instances c)) xs)\<rparr>"

definition add_aliases :: "alias_def list \<Rightarrow> component_data \<Rightarrow> component_data" where
  "add_aliases xs c = (let ns = numbered (length (c_Aliases c)) xs in
     c\<lparr>c_Aliases := c_Aliases c @ xs,
       c_TypeSpace := c_TypeSpace c @ map (\<lambda>(j, _). TypeSpaceAlias j) (filter (\<lambda>(_, al). Alias_Sort al = 0x03) ns),
       c_CoreFuncSpace := c_CoreFuncSpace c @
         map (\<lambda>(j, _). CoreFuncFromAlias j) (filter (\<lambda>(_, al). Alias_Sort al = 0x00 \<and> CoreSort al = 0x00) ns),
       c_ComponentFuncSpace := c_ComponentFuncSpace c @
         map (\<lambda>(j, _). ComponentFuncFromAlias j) (filter (\<lambda>(_, al). Alias_Sort al = 0x01) ns),
       c_ComponentInstanceSpace := c_ComponentInstanceSpace c @
         map (\<lambda>(j, _). ComponentInstanceFromAlias j) (filter (\<lambda>(_, al). Alias_Sort al = 0x05) ns)\<rparr>)"

definition add_types :: "type_def list \<Rightarrow> component_data \<Rightarrow> component_data" where
  "add_types xs c = (let ns = numbered (length (c_Types c)) xs in
     c\<lparr>c_Types := c_Types c @ map (\<lambda>(j, t). t\<lparr>Type_Index := j\<rparr>) ns,
       c_TypeSpace := c_TypeSpace c @ map (\<lambda>(j, _). TypeSpaceDef j) ns\<rparr>)"

definition add_canons :: "canon list \<Rightarrow> component_data \<Rightarrow> component_data" where
  "add_canons xs c = (let ns = numbered (length (c_Canons c)) xs in
     c\<lparr>c_Canons := c_Canons c @ xs,
       c_ComponentFuncSpace := c_ComponentFuncSpace c @
         map (\<lambda>(j, _). ComponentFuncFromCanonLift j) (filter (\<lambda>(_, cn). Canon_Kind cn = 0x00) ns),
       c_CoreFuncSpace := c_CoreFuncSpace c @
         map (\<lambda>(j, _). CoreFuncFromCanon j) (filter (\<lambda>(_, cn). Canon_Kind cn \<noteq> 0x00) ns)\<rparr>)"

definition add_imports :: "import_def list \<Rightarrow> component_data \<Rightarrow> component_data" where
  "add_imports xs c = (let ns = numbered (length (c_Imports c)) xs in
     c\<lparr>c_Imports := c_Imports c @ xs,
       c_TypeSpace := c_TypeSpace c @ map (\<lambda>(j, _). TypeSpaceImport j) (filter (\<lambda>(_, im). Import_ExternType im = 0x03) ns),
       c_ComponentFuncSpace := c_ComponentFuncSpace c @
         map (\<lambda>(j, _). ComponentFuncFromImport j) (filter (\<lambda>(_, im). Import_ExternType im = 0x01) ns),
       c_ComponentInstanceSpace := c_ComponentInstanceSpace c @
         map (\<lambda>(j, _). ComponentInstanceFromImport j) (filter (\<lambda>(_, im). Import_ExternType im = 0x05) ns)\<rparr>)"

definition add_exports :: "export_def list \<Rightarrow> component_data \<Rightarrow> component_data" where
  "add_exports xs c = (let ns = numbered (length (c_Exports c)) xs in
     c\<lparr>c_Exports := c_Exports c @ xs,
       c_TypeSpace := c_TypeSpace c @ map (\<lambda>(j, _). TypeSpaceExport j) (filter (\<lambda>(_, ex). Export_ExternType ex = 0x03) ns),
       c_ComponentFuncSpace := c_ComponentFuncSpace c @
         map (\<lambda>(j, _). ComponentFuncFromExport j) (filter (\<lambda>(_, ex). Export_ExternType ex = 0x01) ns),
       c_ComponentInstanceSpace := c_ComponentInstanceSpace c @
         map (\<lambda>(j, _). ComponentInstanceFromExport j) (filter (\<lambda>(_, ex). Export_ExternType ex = 0x05) ns)\<rparr>)"

text \<open>One section, of the given id and size, at an offset of a buffer that ends with it: the offset behind it, and the component and
  the number of sections after it. \<open>nested\<close> decodes an embedded component.\<close>

type_synonym section_state = "component_data \<times> component list \<times> nat"

definition decode_section ::
    "(byte list \<Rightarrow> nat \<Rightarrow> decode_error + component \<times> nat) \<Rightarrow> byte \<Rightarrow> u32 \<Rightarrow> byte list \<Rightarrow> nat \<Rightarrow> section_state \<Rightarrow>
     decode_error + nat \<times> section_state" where
  "decode_section nested sectionID sz buf off = (\<lambda>(c, cs, budget).
     if sectionID = 0 then
       Inr (off + unat sz, c\<lparr>c_RawSections := c_RawSections c @ [\<lparr>Raw_ID = sectionID, Raw_Size = sz\<rparr>]\<rparr>, cs, budget)
     else if sectionID = 1 then
       rbind (decodeCoreModuleSection off sz) (\<lambda>off'.
         Inr (off', c\<lparr>c_CoreModules := c_CoreModules c @ [\<lparr>Module_Offset = off, Module_Size = unat sz\<rparr>]\<rparr>, cs, budget))
     else if sectionID = 2 then
       rbind (decodeCoreInstanceSection sz buf off) (\<lambda>(x, off').
         Inr (off', c\<lparr>c_CoreInstances := c_CoreInstances c @ x\<rparr>, cs, budget))
     else if sectionID = 3 then Inl (ErrUnsupportedSection sectionID)
     else if sectionID = 4 then
       rbind (sliced SliceBounds buf off (off + unat sz)) (\<lambda>bytes.
       rbind (nested bytes budget) (\<lambda>(d, budget'). Inr (off + unat sz, c, cs @ [d], budget')))
     else if sectionID = 5 then
       rbind (decodeInstanceSection sz buf off) (\<lambda>(x, off'). Inr (off', add_instances x c, cs, budget))
     else if sectionID = 6 then rbind (decodeAliasSection sz buf off) (\<lambda>(x, off'). Inr (off', add_aliases x c, cs, budget))
     else if sectionID = 7 then rbind (decodeTypeSection sz buf off) (\<lambda>(x, off'). Inr (off', add_types x c, cs, budget))
     else if sectionID = 8 then rbind (decodeCanonSection sz buf off) (\<lambda>(x, off'). Inr (off', add_canons x c, cs, budget))
     else if sectionID = 9 then
       (if c_Start c \<noteq> None then Inl DuplicateStart
        else rbind (decodeStartSection sz buf off) (\<lambda>(x, off'). Inr (off', c\<lparr>c_Start := Some x\<rparr>, cs, budget)))
     else if sectionID = 10 then rbind (decodeImportSection sz buf off) (\<lambda>(x, off'). Inr (off', add_imports x c, cs, budget))
     else if sectionID = 11 then rbind (decodeExportSection sz buf off) (\<lambda>(x, off'). Inr (off', add_exports x c, cs, budget))
     else if sectionID = 12 then Inl (ErrUnsupportedSection sectionID)
     else Inl (ErrInvalidSectionID sectionID))"

lemma leb_at_forward: "leb_at load buf off = Inr (v, off') \<Longrightarrow> off \<le> off'"
  by (auto simp: leb_at_def split: if_splits sum.splits prod.splits)

declare rbind_cong [fundef_cong]

function decode_sections ::
    "(byte list \<Rightarrow> nat \<Rightarrow> decode_error + component \<times> nat) \<Rightarrow> decode_limits \<Rightarrow> byte list \<Rightarrow> nat \<Rightarrow> section_state \<Rightarrow>
     decode_error + section_state" where
  "decode_sections nested limits buf off (c, cs, budget) =
     (if off \<ge> length buf then Inr (c, cs, budget)
      else if budget + 1 > unat (MaxSections limits) then Inl SectionLimit
      else rbind (indexed SliceBounds buf off) (\<lambda>sectionID.
        rbind (u32_at buf (off + 1)) (\<lambda>(sz, start).
        if unat sz > length buf - start then Inl ErrTruncatedBinary
        else rbind (sliced SliceBounds buf 0 (start + unat sz)) (\<lambda>sectionBuf.
          rbind (decode_section nested sectionID sz sectionBuf start (c, cs, budget + 1)) (\<lambda>(off', st).
          if off' \<noteq> start + unat sz then Inl (SectionSize sz (off' - start))
          else decode_sections nested limits buf off' st)))))"
  by pat_completeness auto
termination
  by (relation "measure (\<lambda>(nested, limits, buf, off, st). length buf - off)") (auto dest!: leb_at_forward)

declare decode_sections.simps [simp del]

text \<open>The loop without the slices, which are in range by the checks before them.\<close>

lemma u32_at_end: "u32_at buf off = Inr (v, off') \<Longrightarrow> off < length buf \<Longrightarrow> off < off' \<and> off' \<le> length buf"
  using reads_inD [OF reads_u32 [of "length buf"], of off buf] by simp

lemma u32_at_start: "u32_at buf off = Inr (v, off') \<Longrightarrow> off < length buf"
  by (auto simp: leb_at_def LoadUint32_def LoadUint32_loop.simps split: if_splits sum.splits prod.splits)

lemma decode_sections_eq:
  "decode_sections nested limits buf off (c, cs, budget) =
     (if off \<ge> length buf then Inr (c, cs, budget)
      else if budget + 1 > unat (MaxSections limits) then Inl SectionLimit
      else rbind (u32_at buf (off + 1)) (\<lambda>(sz, start).
        if unat sz > length buf - start then Inl ErrTruncatedBinary
        else rbind (decode_section nested (buf ! off) sz (take (start + unat sz) buf) start (c, cs, budget + 1)) (\<lambda>(off', st).
          if off' \<noteq> start + unat sz then Inl (SectionSize sz (off' - start))
          else decode_sections nested limits buf off' st)))"
proof (cases "u32_at buf (off + 1)")
  case (Inr p)
  obtain sz start where p: "p = (sz, start)" by fastforce
  have "start \<le> length buf" using u32_at_end [of buf "off + 1" sz start] u32_at_start [of buf "off + 1" sz start] Inr p by simp
  then show ?thesis using Inr p by (subst decode_sections.simps) simp
qed (subst decode_sections.simps, simp)

text \<open>\<open>len(buf) < off+n || !bytes.Equal(buf[off:off+n], want)\<close>\<close>

definition expect_bytes :: "nat \<Rightarrow> byte list \<Rightarrow> decode_error \<Rightarrow> byte list \<Rightarrow> nat \<Rightarrow> decode_error + unit" where
  "expect_bytes n want e buf off =
     (if length buf < off + n then Inl e
      else rbind (sliced SliceBounds buf off (off + n)) (\<lambda>bs. if bs \<noteq> want then Inl e else Inr ()))"

primrec decodeComponent :: "nat \<Rightarrow> decode_limits \<Rightarrow> nat \<Rightarrow> byte list \<Rightarrow> nat \<Rightarrow> decode_error + component \<times> nat" where
  "decodeComponent 0 limits depth buf budget = Inl DecodeFuel"
| "decodeComponent (Suc fuel) limits depth buf budget =
     (if depth > unat (MaxDepth limits) then Inl DepthLimit
      else rbind (expect_bytes 4 magic ErrInvalidMagicNumber buf 0) (\<lambda>_.
        rbind (expect_bytes 2 componentVersion ErrInvalidVersion buf 4) (\<lambda>_.
        rbind (expect_bytes 2 componentLayer ErrInvalidLayer buf 6) (\<lambda>_.
        rbind (decode_sections (decodeComponent fuel limits (depth + 1)) limits buf 8 (zero_component, [], budget))
          (\<lambda>(c, cs, budget'). Inr (Component (c\<lparr>c_Decoded := True, c_Bytes := buf\<rparr>) cs, budget'))))))"

text \<open>A reader is the bytes it gives and whether it fails after them. \<open>io.ReadAll(io.LimitReader(r, n))\<close>:\<close>

definition read_all :: "nat \<Rightarrow> byte list \<times> bool \<Rightarrow> decode_error + byte list" where
  "read_all n r = (if n \<le> length (fst r) then Inr (take n (fst r)) else if snd r then Inl ReadFailed else Inr (fst r))"

definition DecodeWithLimits :: "byte list \<times> bool \<Rightarrow> decode_limits \<Rightarrow> decode_error + component" where
  "DecodeWithLimits r limits0 =
     (let limits = normalizeDecodeLimits limits0;
          readLimit = (if unat (MaxInputBytes limits) \<ge> 2 ^ 63 - 1 then 2 ^ 63 - 2 else unat (MaxInputBytes limits))
      in rbind (read_all (readLimit + 1) r) (\<lambda>buf.
         if length buf > unat (MaxInputBytes limits) then Inl InputLimit
         else rbind (decodeComponent (Suc (length buf)) limits 0 buf 0) (\<lambda>(d, _). Inr d)))"

definition Decode :: "byte list \<times> bool \<Rightarrow> decode_error + component" where
  "Decode r = DecodeWithLimits r DefaultDecodeLimits"

subsection \<open>Names (component.go)\<close>

definition externTypeName :: "byte \<Rightarrow> string" where
  "externTypeName t =
     (if t = 0x00 then ''module'' else if t = 0x01 then ''func'' else if t = 0x02 then ''value'' else if t = 0x03 then ''type''
      else if t = 0x04 then ''component'' else if t = 0x05 then ''instance'' else ''unknown'')"

definition sectionIDName :: "byte \<Rightarrow> string" where
  "sectionIDName s =
     (if s = 0 then ''Custom'' else if s = 1 then ''CoreModule'' else if s = 2 then ''CoreInstance'' else if s = 3 then ''CoreType''
      else if s = 4 then ''Component'' else if s = 5 then ''Instance'' else if s = 6 then ''Alias'' else if s = 7 then ''Type''
      else if s = 8 then ''Canonical'' else if s = 9 then ''Start'' else if s = 10 then ''Import'' else if s = 11 then ''Export''
      else if s = 12 then ''Value'' else ''Unknown'')"

text \<open>The constants \<open>CanonKind*\<close> with their names.\<close>

definition canonKindNames :: "(byte \<times> string) list" where
  "canonKindNames = [
    (0x00, ''lift''), (0x01, ''lower''), (0x02, ''resource.new''), (0x03, ''resource.drop''), (0x04, ''resource.rep''),
    (0x07, ''resource.drop (async)''), (0x05, ''task.cancel''), (0x06, ''subtask.cancel''), (0x09, ''task.return''),
    (0x0a, ''context.get''), (0x0b, ''context.set''), (0x0d, ''subtask.drop''), (0x0e, ''stream.new''),
    (0x0f, ''stream.read''), (0x10, ''stream.write''), (0x11, ''stream.cancel-read''), (0x12, ''stream.cancel-write''),
    (0x13, ''stream.drop-readable''), (0x14, ''stream.drop-writable''), (0x15, ''future.new''), (0x16, ''future.read''),
    (0x17, ''future.write''), (0x18, ''future.cancel-read''), (0x19, ''future.cancel-write''),
    (0x1a, ''future.drop-readable''), (0x1b, ''future.drop-writable''), (0x1c, ''error-context.new''),
    (0x1d, ''error-context.debug-message''), (0x1e, ''error-context.drop''), (0x1f, ''waitable-set.new''),
    (0x20, ''waitable-set.wait''), (0x21, ''waitable-set.poll''), (0x22, ''waitable-set.drop''), (0x23, ''waitable.join''),
    (0x24, ''backpressure.inc''), (0x25, ''backpressure.dec''), (0x0c, ''thread.yield''), (0x26, ''thread.index''),
    (0x27, ''thread.new-indirect''), (0x29, ''thread.suspend''), (0x2b, ''thread.yield-then-resume'')]"

definition canonKindName :: "byte \<Rightarrow> string" where
  "canonKindName k = (case map_of canonKindNames k of Some n \<Rightarrow> n | None \<Rightarrow> ''canon kind '' @ hex_byte k)"

end
