(* ===== verification/Component_Correct.thy ===== *)
theory Component_Correct
  imports Component
begin

section \<open>Correctness of the component decoder\<close>

text \<open>What \<open>Decode\<close> promises of the component it returns. Decoding is safe on every input: no read is out of the bounds of the buffer
  and the fuel of the model never runs out. Every entry of an index space names a definition that exists, the limits hold of
  the whole tree of nested components, and type sections written by the encoder of Decode_Correct are read back. A section is
  abstracted by the relation \<open>section_adds\<close>, and \<open>decode_sections_invariant\<close> is the induction principle of the section
  loop that the invariants share.\<close>


subsection \<open>Decoding is safe\<close>

lemma reads_readSortidx [reading]: "reads_in n 0 readSortidx"
  unfolding readSortidx_def by (intro reads_seq reading)

lemma reads_decodeBool [reading]: "reads_in n 0 decodeBool"
  unfolding decodeBool_def by (intro reads_seq reading) simp_all

lemma reads_decodeCanonOpts [reading]: "reads_in n 0 decodeCanonOpts"
proof -
  have "reads_in n 0 decodeCanonOpt" for n
    unfolding decodeCanonOpt_def by (intro reads_seq reading) simp_all
  then show ?thesis unfolding decodeCanonOpts_def by (intro reading)
qed

lemma reads_elements [reading]:
  "reads_in n 0 decodeImport" "reads_in n 0 decodeExport" "reads_in n 0 decodeCoreArg" "reads_in n 0 decodeCoreInline"
  "reads_in n 0 decodeInstanceArg" "reads_in n 0 decodeInline" "reads_in n 0 decodeAlias"
proof -
  show "reads_in n 0 decodeImport" unfolding decodeImport_def by (intro reads_seq reading)
  have pair: "reads_in n 0 (case p of (a, b) \<Rightarrow> f a b)" if "\<And>a b. reads_in n 0 (f a b)" for p :: "byte \<times> u32" and f :: "byte \<Rightarrow> u32 \<Rightarrow> export_def reader"
    using that by (cases p) simp
  show "reads_in n 0 decodeExport"
    unfolding decodeExport_def Let_def by (intro reads_seq reading pair) simp_all
  show "reads_in n 0 decodeCoreArg" unfolding decodeCoreArg_def by (intro reads_seq reading) simp_all
  show "reads_in n 0 decodeCoreInline" unfolding decodeCoreInline_def by (intro reads_seq reading)
  show "reads_in n 0 decodeInstanceArg" unfolding decodeInstanceArg_def by (intro reads_seq reading)
  show "reads_in n 0 decodeInline" unfolding decodeInline_def by (intro reads_seq reading)
  show "reads_in n 0 decodeAlias" unfolding decodeAlias_def by (intro reads_seq reading) simp_all
qed

lemma reads_instances [reading]: "reads_in n 0 decodeCoreInstance" "reads_in n 0 decodeInstance"
  unfolding decodeCoreInstance_def decodeInstance_def by (intro reads_seq reading; simp)+

lemma reads_decodeCanon [reading]: "reads_in n 0 decodeCanon"
  unfolding decodeCanon_def Let_def by (intro reads_seq reading) simp_all

lemma reads_within [reading]: "reads_in n 0 rd \<Longrightarrow> reads_in n 0 (within_section sz rd)"
proof (rule reads_inI)
  fix buf :: "byte list" and off
  assume rd: "reads_in n 0 rd" and *: "off \<le> length buf" "length buf - off \<le> n"
  show "case within_section sz rd buf off of Inl e \<Rightarrow> e \<noteq> SliceBounds \<and> e \<noteq> DecodeFuel
    | Inr (x, off') \<Rightarrow> off + 0 \<le> off' \<and> off' \<le> length buf"
    using reads_inD [OF rd *] by (auto simp: within_section_def rbind_def split: sum.splits prod.splits)
qed

lemma reads_sections [reading]:
  "reads_in n 0 (decodeImportSection sz)" "reads_in n 0 (decodeExportSection sz)" "reads_in n 0 (decodeCoreInstanceSection sz)"
  "reads_in n 0 (decodeInstanceSection sz)" "reads_in n 0 (decodeAliasSection sz)" "reads_in n 0 (decodeCanonSection sz)"
  "reads_in n 0 (decodeStartSection sz)"
  unfolding decodeImportSection_def decodeExportSection_def decodeCoreInstanceSection_def decodeInstanceSection_def
    decodeAliasSection_def decodeCanonSection_def decodeStartSection_def
  by (intro reads_seq reading)+

lemma reads_decodeTypeSection: 
  assumes "off \<le> length buf"
  shows "case decodeTypeSection sz buf off of Inl e \<Rightarrow> e \<noteq> SliceBounds \<and> e \<noteq> DecodeFuel | Inr (x, off') \<Rightarrow> off \<le> off' \<and> off' \<le> length buf"
proof -
  have "reads_in (length buf) 0 (within_section sz (rd_map number_types (read_vec (readDeftypeDesc (Suc (length buf))))))"
    by (intro reading reads_readDeftypeDesc [THEN reads_in_weaken]) simp
  from reads_inD [OF this assms] show ?thesis by (auto simp: decodeTypeSection_def split: sum.splits)
qed

text \<open>\<open>fine r\<close>: neither of the two errors that stand for a panic.\<close>

definition fine :: "decode_error + 'a \<Rightarrow> bool" where
  "fine r \<longleftrightarrow> r \<noteq> Inl SliceBounds \<and> r \<noteq> Inl DecodeFuel"

named_theorems fine_intros \<open>no panic\<close>

lemma fine_rules [fine_intros]:
  "fine (Inr x)" "e \<noteq> SliceBounds \<Longrightarrow> e \<noteq> DecodeFuel \<Longrightarrow> fine (Inl e)"
  "(c \<Longrightarrow> fine a) \<Longrightarrow> (\<not> c \<Longrightarrow> fine b) \<Longrightarrow> fine (if c then a else b)"
  "(\<And>x y. p = (x, y) \<Longrightarrow> fine (f x y)) \<Longrightarrow> fine (case p of (x, y) \<Rightarrow> f x y)"
  "fine m \<Longrightarrow> (\<And>x. m = Inr x \<Longrightarrow> fine (g x)) \<Longrightarrow> fine (rbind m g)"
  by (auto simp: fine_def rbind_def split: prod.splits sum.splits)

lemma fine_reader: "reads_in (length buf) 0 rd \<Longrightarrow> off \<le> length buf \<Longrightarrow> fine (rd buf off)"
  using reads_inD [of "length buf" 0 rd off buf] by (auto simp: fine_def split: sum.splits)

lemma fine_types: "off \<le> length buf \<Longrightarrow> fine (decodeTypeSection sz buf off)"
  using reads_decodeTypeSection [of off buf sz] by (auto simp: fine_def split: sum.splits)

lemma fine_sliced [fine_intros]: "i \<le> j \<Longrightarrow> j \<le> length xs \<Longrightarrow> fine (sliced e xs i j)"
  by (simp add: fine_def)

lemma fine_expect_bytes [fine_intros]: "e \<noteq> SliceBounds \<Longrightarrow> e \<noteq> DecodeFuel \<Longrightarrow> fine (expect_bytes n want e buf off)"
  unfolding expect_bytes_def by (intro fine_intros) simp_all

lemma decode_section_fine:
  assumes off: "off \<le> length buf" and sz: "off + unat sz \<le> length buf"
    and nested: "\<And>bs budget. length bs \<le> unat sz \<Longrightarrow> fine (nested bs budget)"
  shows "fine (decode_section nested sid sz buf off st)"
  unfolding decode_section_def decodeCoreModuleSection_def
  by (intro fine_intros fine_types [OF off] reads_sections [THEN fine_reader, OF off] nested) (use sz in \<open>auto simp: sliced_def\<close>)

text \<open>The size of a section is read from the two bytes or more before it.\<close>

lemma section_start:
  assumes "u32_at buf (off + 1) = Inr (sz, start)" "off < length buf"
  shows "off + 2 \<le> start" "start \<le> length buf"
  using assms reads_inD [OF reads_u32 [of "length buf"], of "off + 1" buf] by simp_all

lemma decode_sections_fine:
  assumes nested: "\<And>bs budget. length bs < length buf \<Longrightarrow> fine (nested bs budget)"
  shows "fine (decode_sections nested limits buf off st)"
proof (induction "length buf - off" arbitrary: off st rule: less_induct)
  case less
  obtain c cs budget where st: "st = (c, cs, budget)" by (cases st)
  show ?case
    unfolding st decode_sections_eq
  proof (intro fine_intros; (simp; fail)?)
    assume "\<not> length buf \<le> off"
    then show "fine (u32_at buf (off + 1))" by (intro fine_reader [OF reads_in_weaken [OF reads_u32]]) simp
  next
    fix x sz start
    assume off: "\<not> length buf \<le> off" and x: "u32_at buf (off + 1) = Inr x" "x = (sz, start)"
      and sz: "\<not> length buf - start < unat sz"
    with section_start [of buf off sz start] have "start + unat sz \<le> length buf" "unat sz < length buf" by simp_all
    then show "fine (decode_section nested (buf ! off) sz (take (start + unat sz) buf) start (c, cs, budget + 1))"
      by (intro decode_section_fine nested) simp_all
  next
    fix x sz start y off' st'
    assume "\<not> length buf \<le> off" "u32_at buf (off + 1) = Inr x" "x = (sz, start)" "\<not> off' \<noteq> start + unat sz"
    with section_start [of buf off sz start] show "fine (decode_sections nested limits buf off' st')"
      by (intro less) simp
  qed
qed

lemma decodeComponent_fine: "length buf < fuel \<Longrightarrow> fine (decodeComponent fuel limits depth buf budget)"
proof (induction fuel arbitrary: depth buf budget)
  case (Suc fuel)
  show ?case unfolding decodeComponent.simps
    by (intro fine_intros decode_sections_fine Suc.IH) (use Suc.prems in simp_all)
qed simp

text \<open>C8. Decoding never fails but with an error of the format: for every input and all limits no slice goes behind the end of its buffer,
  and the recursion is never deeper than the input is long.\<close>

theorem decode_safe:
  "DecodeWithLimits r limits \<noteq> Inl SliceBounds \<and> DecodeWithLimits r limits \<noteq> Inl DecodeFuel"
proof -
  have "fine (DecodeWithLimits r limits)"
    unfolding DecodeWithLimits_def read_all_def Let_def by (intro fine_intros decodeComponent_fine) simp_all
  then show ?thesis by (simp add: fine_def)
qed

subsection \<open>The index spaces\<close>

lemma numbered_nth: "i < length xs \<Longrightarrow> numbered b xs ! i = (word_of_nat b + word_of_nat i, xs ! i)"
  by (simp add: numbered_def nth_enumerate_eq)

lemma numbered_Nil [simp]: "numbered b [] = []"
  by (simp add: numbered_def)

lemma length_numbered [simp]: "length (numbered b xs) = length xs"
  by (simp add: numbered_def)

lemma numbered_append: "numbered b (xs @ ys) = numbered b xs @ numbered (b + length xs) ys"
  by (rule nth_equalityI) (auto simp: numbered_nth nth_append algebra_simps of_nat_diff)

lemma numbered_fst: "map fst (numbered b xs) = map (\<lambda>j. word_of_nat b + word_of_nat j) [0..<length xs]"
  by (rule nth_equalityI) (auto simp: numbered_nth)

lemma filter_all_pairs [simp]: "filter (\<lambda>(_, _). True) xs = xs"
  by (simp add: split_def)

text \<open>The indices that the definitions of one sort contribute to an index space, in order: those of the definitions that satisfy \<open>P\<close>.\<close>

definition contributes :: "('a \<Rightarrow> bool) \<Rightarrow> 'a list \<Rightarrow> u32 list" where
  "contributes P xs = map fst (filter (\<lambda>(_, x). P x) (numbered 0 xs))"

lemma contributes_append:
  "contributes P (xs @ ys) = contributes P xs @ map fst (filter (\<lambda>(_, x). P x) (numbered (length xs) ys))"
  by (simp add: contributes_def numbered_append)

lemma contributes_Nil [simp]: "contributes P [] = []"
  by (simp add: contributes_def)

fun type_def_idx :: "type_space_entry \<Rightarrow> u32 option" where
  "type_def_idx (TypeSpaceDef i) = Some i" | "type_def_idx _ = None"
fun type_alias_idx :: "type_space_entry \<Rightarrow> u32 option" where
  "type_alias_idx (TypeSpaceAlias i) = Some i" | "type_alias_idx _ = None"
fun type_import_idx :: "type_space_entry \<Rightarrow> u32 option" where
  "type_import_idx (TypeSpaceImport i) = Some i" | "type_import_idx _ = None"
fun type_export_idx :: "type_space_entry \<Rightarrow> u32 option" where
  "type_export_idx (TypeSpaceExport i) = Some i" | "type_export_idx _ = None"

fun core_alias_idx :: "core_func_entry \<Rightarrow> u32 option" where
  "core_alias_idx (CoreFuncFromAlias i) = Some i" | "core_alias_idx _ = None"
fun core_canon_idx :: "core_func_entry \<Rightarrow> u32 option" where
  "core_canon_idx (CoreFuncFromCanon i) = Some i" | "core_canon_idx _ = None"

fun func_import_idx :: "component_func_entry \<Rightarrow> u32 option" where
  "func_import_idx (ComponentFuncFromImport i) = Some i" | "func_import_idx _ = None"
fun func_alias_idx :: "component_func_entry \<Rightarrow> u32 option" where
  "func_alias_idx (ComponentFuncFromAlias i) = Some i" | "func_alias_idx _ = None"
fun func_lift_idx :: "component_func_entry \<Rightarrow> u32 option" where
  "func_lift_idx (ComponentFuncFromCanonLift i) = Some i" | "func_lift_idx _ = None"
fun func_export_idx :: "component_func_entry \<Rightarrow> u32 option" where
  "func_export_idx (ComponentFuncFromExport i) = Some i" | "func_export_idx _ = None"

fun inst_import_idx :: "component_instance_entry \<Rightarrow> u32 option" where
  "inst_import_idx (ComponentInstanceFromImport i) = Some i" | "inst_import_idx _ = None"
fun inst_def_idx :: "component_instance_entry \<Rightarrow> u32 option" where
  "inst_def_idx (ComponentInstanceFromDefinition i) = Some i" | "inst_def_idx _ = None"
fun inst_alias_idx :: "component_instance_entry \<Rightarrow> u32 option" where
  "inst_alias_idx (ComponentInstanceFromAlias i) = Some i" | "inst_alias_idx _ = None"
fun inst_export_idx :: "component_instance_entry \<Rightarrow> u32 option" where
  "inst_export_idx (ComponentInstanceFromExport i) = Some i" | "inst_export_idx _ = None"

definition indices :: "('e \<Rightarrow> u32 option) \<Rightarrow> 'e list \<Rightarrow> u32 list" where
  "indices f es = List.map_filter f es"

lemma indices_append [simp]: "indices f (es @ es') = indices f es @ indices f es'"
  by (simp add: indices_def List.map_filter_def)

lemma indices_map:
  "(\<And>j. f (C j) = Some j) \<Longrightarrow> indices f (map (\<lambda>(j, _). C j) ns) = map fst ns"
  "(\<And>j. f (C j) = None) \<Longrightarrow> indices f (map (\<lambda>(j, _). C j) ns) = []"
  by (induction ns) (auto simp: indices_def map_filter_simps)

text \<open>\<open>spaces_ok\<close>: each index space holds an entry for every definition that produces one, once, in the order of the definitions,
  and no other entries; the types are numbered through.\<close>

definition spaces_ok :: "component_data \<Rightarrow> bool" where
  "spaces_ok c \<longleftrightarrow>
     map Type_Index (c_Types c) = contributes (\<lambda>_. True) (c_Types c) \<and>
     indices type_def_idx (c_TypeSpace c) = contributes (\<lambda>_. True) (c_Types c) \<and>
     indices type_alias_idx (c_TypeSpace c) = contributes (\<lambda>al. Alias_Sort al = 0x03) (c_Aliases c) \<and>
     indices type_import_idx (c_TypeSpace c) = contributes (\<lambda>im. Import_ExternType im = 0x03) (c_Imports c) \<and>
     indices type_export_idx (c_TypeSpace c) = contributes (\<lambda>ex. Export_ExternType ex = 0x03) (c_Exports c) \<and>
     indices core_alias_idx (c_CoreFuncSpace c) = contributes (\<lambda>al. Alias_Sort al = 0x00 \<and> CoreSort al = 0x00) (c_Aliases c) \<and>
     indices core_canon_idx (c_CoreFuncSpace c) = contributes (\<lambda>cn. Canon_Kind cn \<noteq> 0x00) (c_Canons c) \<and>
     indices func_import_idx (c_ComponentFuncSpace c) = contributes (\<lambda>im. Import_ExternType im = 0x01) (c_Imports c) \<and>
     indices func_alias_idx (c_ComponentFuncSpace c) = contributes (\<lambda>al. Alias_Sort al = 0x01) (c_Aliases c) \<and>
     indices func_lift_idx (c_ComponentFuncSpace c) = contributes (\<lambda>cn. Canon_Kind cn = 0x00) (c_Canons c) \<and>
     indices func_export_idx (c_ComponentFuncSpace c) = contributes (\<lambda>ex. Export_ExternType ex = 0x01) (c_Exports c) \<and>
     indices inst_import_idx (c_ComponentInstanceSpace c) = contributes (\<lambda>im. Import_ExternType im = 0x05) (c_Imports c) \<and>
     indices inst_def_idx (c_ComponentInstanceSpace c) = contributes (\<lambda>_. True) (c_Instances c) \<and>
     indices inst_alias_idx (c_ComponentInstanceSpace c) = contributes (\<lambda>al. Alias_Sort al = 0x05) (c_Aliases c) \<and>
     indices inst_export_idx (c_ComponentInstanceSpace c) = contributes (\<lambda>ex. Export_ExternType ex = 0x05) (c_Exports c)"

primrec tree_all :: "(component_data \<Rightarrow> bool) \<Rightarrow> component \<Rightarrow> bool" where
  "tree_all P (Component c cs) \<longleftrightarrow> P c \<and> list_all (tree_all P) cs"

lemma spaces_ok_zero: "spaces_ok zero_component"
  by (simp add: spaces_ok_def zero_component_def indices_def map_filter_simps)

lemma renumber_types:
  "map Type_Index (map (\<lambda>(j, t). t\<lparr>Type_Index := j\<rparr>) ns) = map fst ns"
  "map fst (numbered b (map (\<lambda>(j, t). t\<lparr>Type_Index := j\<rparr>) (numbered b ts))) = map fst (numbered b ts)"
  by (simp_all add: numbered_fst case_prod_unfold)

lemma spaces_ok_add:
  assumes "spaces_ok c"
  shows "spaces_ok (add_instances ins c)" "spaces_ok (add_aliases als c)" "spaces_ok (add_types ts c)"
    "spaces_ok (add_canons cns c)" "spaces_ok (add_imports ims c)" "spaces_ok (add_exports exs c)"
  using assms unfolding spaces_ok_def add_instances_def add_aliases_def add_canons_def add_imports_def add_exports_def
    add_types_def Let_def
  by (simp_all add: contributes_append indices_map renumber_types del: map_map)


lemma spaces_ok_done [simp]: "spaces_ok (c\<lparr>c_Decoded := b, c_Bytes := bs\<rparr>) \<longleftrightarrow> spaces_ok c"
  by (simp add: spaces_ok_def)

text \<open>What a section may do to the data of the component.\<close>

inductive section_adds :: "component_data \<Rightarrow> component_data \<Rightarrow> bool" where
  raw_section: "section_adds c (c\<lparr>c_RawSections := c_RawSections c @ [r]\<rparr>)"
| core_module_section: "section_adds c (c\<lparr>c_CoreModules := c_CoreModules c @ [m]\<rparr>)"
| core_instances_section: "section_adds c (c\<lparr>c_CoreInstances := c_CoreInstances c @ is\<rparr>)"
| start_section: "section_adds c (c\<lparr>c_Start := Some s\<rparr>)"
| instances_section: "section_adds c (add_instances ins c)"
| aliases_section: "section_adds c (add_aliases als c)"
| types_section: "section_adds c (add_types ts c)"
| canons_section: "section_adds c (add_canons cns c)"
| imports_section: "section_adds c (add_imports ims c)"
| exports_section: "section_adds c (add_exports exs c)"

lemma decode_section_cases:
  assumes "decode_section nested sid sz buf off (c, cs, budget) = Inr (off', c', cs', budget')"
  obtains (adds) "section_adds c c'" "cs' = cs" "budget' = budget"
  | (nested) d where "c' = c" "cs' = cs @ [d]" "nested (take (unat sz) (drop off buf)) budget = Inr (d, budget')"
proof -
  have "section_adds c c' \<and> cs' = cs \<and> budget' = budget \<or>
      (\<exists>d. c' = c \<and> cs' = cs @ [d] \<and> nested (take (unat sz) (drop off buf)) budget = Inr (d, budget'))"
    using assms unfolding decode_section_def decodeCoreModuleSection_def prod.case
    by (simp add: rbind_eq_Inr split_beta sliced_def split: if_splits) (auto intro: section_adds.intros simp: prod_eq_iff)
  then show thesis using adds nested by blast
qed

lemma section_adds_spaces: "section_adds c c' \<Longrightarrow> spaces_ok c \<Longrightarrow> spaces_ok c'"
proof (induction rule: section_adds.induct)
  case (raw_section c r)
  then show ?case by (simp add: spaces_ok_def)
next
  case (core_module_section c m)
  then show ?case by (simp add: spaces_ok_def)
next
  case (core_instances_section c "is")
  then show ?case by (simp add: spaces_ok_def)
next
  case (start_section c s)
  then show ?case by (simp add: spaces_ok_def)
qed (simp_all add: spaces_ok_add)


text \<open>The rule for the loop over the sections: an invariant that every section keeps.\<close>

lemma decode_sections_invariant:
  assumes "decode_sections nested limits buf off st = Inr st'" "I st"
    and adds: "\<And>c cs b c'. I (c, cs, b) \<Longrightarrow> b < unat (MaxSections limits) \<Longrightarrow> section_adds c c' \<Longrightarrow> I (c', cs, Suc b)"
    and nest: "\<And>c cs b bs d b'. I (c, cs, b) \<Longrightarrow> b < unat (MaxSections limits) \<Longrightarrow> nested bs (Suc b) = Inr (d, b') \<Longrightarrow> I (c, cs @ [d], b')"
  shows "I st'"
  using assms(1,2)
proof (induction "length buf - off" arbitrary: off st rule: less_induct)
  case less
  obtain c cs budget where st: "st = (c, cs, budget)" by (cases st)
  show ?case
  proof (cases "off < length buf")
    case True
    with less.prems(1) obtain sz start off' c1 cs1 b1 where
      b: "budget < unat (MaxSections limits)" and u: "u32_at buf (off + 1) = Inr (sz, start)" "unat sz \<le> length buf - start"
      and sec: "decode_section nested (buf ! off) sz (take (start + unat sz) buf) start (c, cs, budget + 1) = Inr (off', c1, cs1, b1)"
      and off': "off' = start + unat sz" and rest: "decode_sections nested limits buf off' (c1, cs1, b1) = Inr st'"
      unfolding st decode_sections_eq [of nested limits buf off c cs budget]
      by (auto simp: rbind_eq_Inr split: if_splits)
    have "I (c1, cs1, b1)"
      using sec by (rule decode_section_cases) (use less.prems(2) adds nest b st in auto)
    moreover have "length buf - off' < length buf - off" using section_start [OF u(1) True] off' True by simp
    ultimately show ?thesis using less.hyps rest by blast
  next
    case False
    with less.prems show ?thesis by (simp add: st decode_sections_eq)
  qed
qed

lemma expect_bytes_Inr: "expect_bytes n want e buf off = Inr () \<longleftrightarrow> off + n \<le> length buf \<and> take n (drop off buf) = want"
  by (auto simp: expect_bytes_def)

lemma decodeComponentE:
  assumes "decodeComponent fuel limits depth buf b = Inr (d, b')"
  obtains fuel' c cs where "fuel = Suc fuel'" "depth \<le> unat (MaxDepth limits)"
    "d = Component (c\<lparr>c_Decoded := True, c_Bytes := buf\<rparr>) cs"
    "decode_sections (decodeComponent fuel' limits (depth + 1)) limits buf 8 (zero_component, [], b) = Inr (c, cs, b')" "8 \<le> length buf"
  using assms by (cases fuel) (auto simp: rbind_eq_Inr expect_bytes_Inr split: if_splits)

lemma DecodeWithLimitsE:
  assumes "DecodeWithLimits r limits = Inr d"
  obtains buf b where "length buf \<le> unat (MaxInputBytes (normalizeDecodeLimits limits))"
    "decodeComponent (Suc (length buf)) (normalizeDecodeLimits limits) 0 buf 0 = Inr (d, b)"
  using assms by (auto simp: DecodeWithLimits_def Let_def rbind_eq_Inr not_less simp del: decodeComponent.simps intro: that split: if_splits)

subsection \<open>The order of the index spaces\<close>

text \<open>The specification. The definitions of a component are those of its sections, in the order of the bytes; each is numbered
  among those of its kind, and each index space is the list of the definitions that make an entry in it, in that order, whatever
  their kinds.\<close>

datatype definition_item =
    InstanceItem instance_def
  | AliasItem alias_def
  | TypeItem type_def
  | CanonItem canon
  | ImportItem import_def
  | ExportItem export_def

datatype item_kind = InstanceDefs | AliasDefs | TypeDefs | CanonDefs | ImportDefs | ExportDefs

primrec item_kind_of :: "definition_item \<Rightarrow> item_kind" where
  "item_kind_of (InstanceItem _) = InstanceDefs"
| "item_kind_of (AliasItem _) = AliasDefs"
| "item_kind_of (TypeItem _) = TypeDefs"
| "item_kind_of (CanonItem _) = CanonDefs"
| "item_kind_of (ImportItem _) = ImportDefs"
| "item_kind_of (ExportItem _) = ExportDefs"

text \<open>The entry that a definition makes, if any, from its number.\<close>

primrec type_entry :: "definition_item \<Rightarrow> u32 \<Rightarrow> type_space_entry option" where
  "type_entry (InstanceItem _) j = None"
| "type_entry (AliasItem al) j = (if Alias_Sort al = 0x03 then Some (TypeSpaceAlias j) else None)"
| "type_entry (TypeItem _) j = Some (TypeSpaceDef j)"
| "type_entry (CanonItem _) j = None"
| "type_entry (ImportItem im) j = (if Import_ExternType im = 0x03 then Some (TypeSpaceImport j) else None)"
| "type_entry (ExportItem ex) j = (if Export_ExternType ex = 0x03 then Some (TypeSpaceExport j) else None)"

primrec core_entry :: "definition_item \<Rightarrow> u32 \<Rightarrow> core_func_entry option" where
  "core_entry (InstanceItem _) j = None"
| "core_entry (AliasItem al) j = (if Alias_Sort al = 0x00 \<and> CoreSort al = 0x00 then Some (CoreFuncFromAlias j) else None)"
| "core_entry (TypeItem _) j = None"
| "core_entry (CanonItem cn) j = (if Canon_Kind cn \<noteq> 0x00 then Some (CoreFuncFromCanon j) else None)"
| "core_entry (ImportItem _) j = None"
| "core_entry (ExportItem _) j = None"

primrec func_entry :: "definition_item \<Rightarrow> u32 \<Rightarrow> component_func_entry option" where
  "func_entry (InstanceItem _) j = None"
| "func_entry (AliasItem al) j = (if Alias_Sort al = 0x01 then Some (ComponentFuncFromAlias j) else None)"
| "func_entry (TypeItem _) j = None"
| "func_entry (CanonItem cn) j = (if Canon_Kind cn = 0x00 then Some (ComponentFuncFromCanonLift j) else None)"
| "func_entry (ImportItem im) j = (if Import_ExternType im = 0x01 then Some (ComponentFuncFromImport j) else None)"
| "func_entry (ExportItem ex) j = (if Export_ExternType ex = 0x01 then Some (ComponentFuncFromExport j) else None)"

primrec instance_entry :: "definition_item \<Rightarrow> u32 \<Rightarrow> component_instance_entry option" where
  "instance_entry (InstanceItem _) j = Some (ComponentInstanceFromDefinition j)"
| "instance_entry (AliasItem al) j = (if Alias_Sort al = 0x05 then Some (ComponentInstanceFromAlias j) else None)"
| "instance_entry (TypeItem _) j = None"
| "instance_entry (CanonItem _) j = None"
| "instance_entry (ImportItem im) j = (if Import_ExternType im = 0x05 then Some (ComponentInstanceFromImport j) else None)"
| "instance_entry (ExportItem ex) j = (if Export_ExternType ex = 0x05 then Some (ComponentInstanceFromExport j) else None)"

text \<open>The space of a list of definitions, of which \<open>n k\<close> of kind \<open>k\<close> came before.\<close>

primrec space_from :: "(definition_item \<Rightarrow> u32 \<Rightarrow> 'e option) \<Rightarrow> (item_kind \<Rightarrow> nat) \<Rightarrow> definition_item list \<Rightarrow> 'e list" where
  "space_from f n [] = []"
| "space_from f n (x # xs) =
     (case f x (word_of_nat (n (item_kind_of x))) of None \<Rightarrow> [] | Some e \<Rightarrow> [e]) @
     space_from f (n(item_kind_of x := Suc (n (item_kind_of x)))) xs"

definition items_of :: "item_kind \<Rightarrow> definition_item list \<Rightarrow> definition_item list" where
  "items_of k = filter (\<lambda>x. item_kind_of x = k)"

definition kind_count :: "definition_item list \<Rightarrow> item_kind \<Rightarrow> nat" where
  "kind_count items k = length (items_of k items)"

text \<open>A component holds these definitions, and its spaces are theirs.\<close>

definition spaces_laid :: "component_data \<Rightarrow> definition_item list \<Rightarrow> bool" where
  "spaces_laid c items \<longleftrightarrow>
     map InstanceItem (c_Instances c) = items_of InstanceDefs items \<and>
     map AliasItem (c_Aliases c) = items_of AliasDefs items \<and>
     map CanonItem (c_Canons c) = items_of CanonDefs items \<and>
     map ImportItem (c_Imports c) = items_of ImportDefs items \<and>
     map ExportItem (c_Exports c) = items_of ExportDefs items \<and>
     (\<exists>ts. map Descriptor (c_Types c) = map Descriptor ts \<and> map TypeItem ts = items_of TypeDefs items) \<and>
     c_TypeSpace c = space_from type_entry (\<lambda>_. 0) items \<and>
     c_CoreFuncSpace c = space_from core_entry (\<lambda>_. 0) items \<and>
     c_ComponentFuncSpace c = space_from func_entry (\<lambda>_. 0) items \<and>
     c_ComponentInstanceSpace c = space_from instance_entry (\<lambda>_. 0) items"

text \<open>The definitions that a section holds, and those of all the sections from an offset to the end of the bytes.\<close>

inductive section_items :: "byte \<Rightarrow> u32 \<Rightarrow> byte list \<Rightarrow> nat \<Rightarrow> definition_item list \<Rightarrow> bool" where
  instance_items: "decodeInstanceSection sz buf off = Inr (xs, off') \<Longrightarrow> section_items 5 sz buf off (map InstanceItem xs)"
| alias_items: "decodeAliasSection sz buf off = Inr (xs, off') \<Longrightarrow> section_items 6 sz buf off (map AliasItem xs)"
| type_items: "decodeTypeSection sz buf off = Inr (xs, off') \<Longrightarrow> section_items 7 sz buf off (map TypeItem xs)"
| canon_items: "decodeCanonSection sz buf off = Inr (xs, off') \<Longrightarrow> section_items 8 sz buf off (map CanonItem xs)"
| import_items: "decodeImportSection sz buf off = Inr (xs, off') \<Longrightarrow> section_items 10 sz buf off (map ImportItem xs)"
| export_items: "decodeExportSection sz buf off = Inr (xs, off') \<Longrightarrow> section_items 11 sz buf off (map ExportItem xs)"
| no_items: "sid \<notin> {5, 6, 7, 8, 10, 11} \<Longrightarrow> section_items sid sz buf off []"

inductive laid_out :: "byte list \<Rightarrow> nat \<Rightarrow> definition_item list \<Rightarrow> bool" where
  laid_end: "laid_out buf (length buf) []"
| laid_section: "off < length buf \<Longrightarrow> u32_at buf (off + 1) = Inr (sz, start) \<Longrightarrow> start + unat sz \<le> length buf \<Longrightarrow>
    section_items (buf ! off) sz (take (start + unat sz) buf) start items \<Longrightarrow> laid_out buf (start + unat sz) rest \<Longrightarrow>
    laid_out buf off (items @ rest)"

lemma kind_count_simps [simp]:
  "kind_count [] k = 0" "kind_count (x # xs) k = (if item_kind_of x = k then Suc (kind_count xs k) else kind_count xs k)"
  "kind_count (xs @ ys) k = kind_count xs k + kind_count ys k"
  by (simp_all add: kind_count_def items_of_def)

lemma space_from_append: "space_from f n (xs @ ys) = space_from f n xs @ space_from f (\<lambda>k. n k + kind_count xs k) ys"
proof (induction xs arbitrary: n)
  case (Cons x xs)
  have "(\<lambda>k. (n(item_kind_of x := Suc (n (item_kind_of x)))) k + kind_count xs k) = (\<lambda>k. n k + kind_count (x # xs) k)"
    by auto
  then show ?case by (simp only: append_Cons space_from.simps Cons.IH append_assoc)
qed simp

lemma numbered_Cons: "numbered b (x # xs) = (word_of_nat b, x) # numbered (Suc b) xs"
  using numbered_append [of b "[x]" xs] by (simp add: numbered_def)

text \<open>Definitions of one kind.\<close>

lemma space_from_kind:
  assumes "\<And>x. item_kind_of (K x) = k" "\<And>x j. f (K x) j = (if P x then Some (E j) else None)"
  shows "space_from f n (map K xs) = map (\<lambda>(j, _). E j) (filter (\<lambda>(_, x). P x) (numbered (n k) xs))"
  by (induction xs arbitrary: n) (simp_all add: assms numbered_Cons)

lemma space_from_other:
  assumes "\<And>x j. f (K x) j = None"
  shows "space_from f n (map K xs) = []"
  by (induction xs arbitrary: n) (simp_all add: assms)

lemmas type_spaces = space_from_kind [of AliasItem AliasDefs type_entry "\<lambda>al. Alias_Sort al = 0x03" TypeSpaceAlias, simplified]
  space_from_kind [of TypeItem TypeDefs type_entry "\<lambda>_. True" TypeSpaceDef, simplified]
  space_from_kind [of ImportItem ImportDefs type_entry "\<lambda>im. Import_ExternType im = 0x03" TypeSpaceImport, simplified]
  space_from_kind [of ExportItem ExportDefs type_entry "\<lambda>ex. Export_ExternType ex = 0x03" TypeSpaceExport, simplified]

lemmas func_spaces =
  space_from_kind [of AliasItem AliasDefs core_entry "\<lambda>al. Alias_Sort al = 0x00 \<and> CoreSort al = 0x00" CoreFuncFromAlias, simplified]
  space_from_kind [of CanonItem CanonDefs core_entry "\<lambda>cn. Canon_Kind cn \<noteq> 0x00" CoreFuncFromCanon, simplified]
  space_from_kind [of AliasItem AliasDefs func_entry "\<lambda>al. Alias_Sort al = 0x01" ComponentFuncFromAlias, simplified]
  space_from_kind [of CanonItem CanonDefs func_entry "\<lambda>cn. Canon_Kind cn = 0x00" ComponentFuncFromCanonLift, simplified]
  space_from_kind [of ImportItem ImportDefs func_entry "\<lambda>im. Import_ExternType im = 0x01" ComponentFuncFromImport, simplified]
  space_from_kind [of ExportItem ExportDefs func_entry "\<lambda>ex. Export_ExternType ex = 0x01" ComponentFuncFromExport, simplified]

lemmas instance_spaces =
  space_from_kind [of InstanceItem InstanceDefs instance_entry "\<lambda>_. True" ComponentInstanceFromDefinition, simplified]
  space_from_kind [of AliasItem AliasDefs instance_entry "\<lambda>al. Alias_Sort al = 0x05" ComponentInstanceFromAlias, simplified]
  space_from_kind [of ImportItem ImportDefs instance_entry "\<lambda>im. Import_ExternType im = 0x05" ComponentInstanceFromImport, simplified]
  space_from_kind [of ExportItem ExportDefs instance_entry "\<lambda>ex. Export_ExternType ex = 0x05" ComponentInstanceFromExport, simplified]

lemma items_of_simps [simp]:
  "items_of k (xs @ ys) = items_of k xs @ items_of k ys" "items_of k [] = []"
  by (simp_all add: items_of_def)

lemma items_of_map:
  assumes "\<And>x. item_kind_of (K x) = k"
  shows "items_of k (map K xs) = map K xs" "k \<noteq> k' \<Longrightarrow> items_of k' (map K xs) = []"
  by (induction xs) (simp_all add: items_of_def assms)

lemma spaces_laid_counts:
  assumes "spaces_laid c items"
  shows "kind_count items InstanceDefs = length (c_Instances c)" "kind_count items AliasDefs = length (c_Aliases c)"
    "kind_count items CanonDefs = length (c_Canons c)" "kind_count items ImportDefs = length (c_Imports c)"
    "kind_count items ExportDefs = length (c_Exports c)" "kind_count items TypeDefs = length (c_Types c)"
  using assms unfolding spaces_laid_def kind_count_def by (metis length_map)+

lemma map_snd_enumerate: "map (f \<circ> snd) (enumerate n xs) = map f xs"
  by (simp flip: map_map)

lemma renumbered_descriptors: "map Descriptor (map (\<lambda>(j, t). t\<lparr>Type_Index := j\<rparr>) (numbered k ts)) = map Descriptor ts"
  using map_snd_enumerate [of Descriptor 0 ts] by (simp add: numbered_def o_def case_prod_unfold)

text \<open>Each section adds its definitions behind those before it.\<close>

lemmas laid_defs = add_instances_def add_aliases_def add_types_def add_canons_def add_imports_def add_exports_def Let_def

lemma spaces_laid_add:
  assumes "spaces_laid c items"
  shows "spaces_laid (add_instances ins c) (items @ map InstanceItem ins)" "spaces_laid (add_aliases als c) (items @ map AliasItem als)"
    "spaces_laid (add_types ts c) (items @ map TypeItem ts)" "spaces_laid (add_canons cns c) (items @ map CanonItem cns)"
    "spaces_laid (add_imports ims c) (items @ map ImportItem ims)" "spaces_laid (add_exports exs c) (items @ map ExportItem exs)"
proof -
  note n = spaces_laid_counts [OF assms]
  note laid = assms [unfolded spaces_laid_def]
  note simps = space_from_append items_of_map space_from_other laid_defs n
  obtain ts' where ts': "map Descriptor (c_Types c) = map Descriptor ts'" "map TypeItem ts' = items_of TypeDefs items"
    using laid by blast
  then have old: "\<exists>ts. map Descriptor (c_Types c) = map Descriptor ts \<and> map TypeItem ts = items_of TypeDefs items" by blast
  have new: "\<exists>us. map Descriptor (c_Types c) @ map Descriptor ts = map Descriptor us \<and> map TypeItem us = items_of TypeDefs items @ map TypeItem ts"
    using ts' by (intro exI [of _ "ts' @ ts"]) simp
  show "spaces_laid (add_instances ins c) (items @ map InstanceItem ins)"
    using laid old unfolding spaces_laid_def by (simp add: simps instance_spaces)
  show "spaces_laid (add_aliases als c) (items @ map AliasItem als)"
    using laid old unfolding spaces_laid_def by (simp add: simps type_spaces func_spaces instance_spaces)
  show "spaces_laid (add_types ts c) (items @ map TypeItem ts)"
    using laid new unfolding spaces_laid_def by (simp add: simps type_spaces renumbered_descriptors del: map_map)
  show "spaces_laid (add_canons cns c) (items @ map CanonItem cns)"
    using laid old unfolding spaces_laid_def by (simp add: simps func_spaces)
  show "spaces_laid (add_imports ims c) (items @ map ImportItem ims)"
    using laid old unfolding spaces_laid_def by (simp add: simps type_spaces func_spaces instance_spaces)
  show "spaces_laid (add_exports exs c) (items @ map ExportItem exs)"
    using laid old unfolding spaces_laid_def by (simp add: simps type_spaces func_spaces instance_spaces)
qed

lemma section_dispatch:
  "decode_section nested 5 sz buf off (c, cs, b) = rbind (decodeInstanceSection sz buf off) (\<lambda>(x, off'). Inr (off', add_instances x c, cs, b))"
  "decode_section nested 6 sz buf off (c, cs, b) = rbind (decodeAliasSection sz buf off) (\<lambda>(x, off'). Inr (off', add_aliases x c, cs, b))"
  "decode_section nested 7 sz buf off (c, cs, b) = rbind (decodeTypeSection sz buf off) (\<lambda>(x, off'). Inr (off', add_types x c, cs, b))"
  "decode_section nested 8 sz buf off (c, cs, b) = rbind (decodeCanonSection sz buf off) (\<lambda>(x, off'). Inr (off', add_canons x c, cs, b))"
  "decode_section nested 10 sz buf off (c, cs, b) = rbind (decodeImportSection sz buf off) (\<lambda>(x, off'). Inr (off', add_imports x c, cs, b))"
  "decode_section nested 11 sz buf off (c, cs, b) = rbind (decodeExportSection sz buf off) (\<lambda>(x, off'). Inr (off', add_exports x c, cs, b))"
  by (simp_all add: decode_section_def)

lemma decode_section_items:
  assumes "decode_section nested sid sz buf off (c, cs, budget) = Inr (off', c', cs', budget')" "spaces_laid c items"
  shows "\<exists>new. section_items sid sz buf off new \<and> spaces_laid c' (items @ new)"
proof -
  have keep: "spaces_laid (c\<lparr>c_RawSections := rs\<rparr>) items" "spaces_laid (c\<lparr>c_CoreModules := ms\<rparr>) items"
    "spaces_laid (c\<lparr>c_CoreInstances := is\<rparr>) items" "spaces_laid (c\<lparr>c_Start := st\<rparr>) items" for rs ms "is" st
    using assms(2) by (simp_all add: spaces_laid_def)
  have none: "sid \<notin> {5, 6, 7, 8, 10, 11} \<Longrightarrow> spaces_laid c' items \<Longrightarrow> ?thesis"
    using no_items [of sid sz buf off] by (intro exI [of _ "[]"]) simp
  show ?thesis
  proof (cases "sid \<in> {5, 6, 7, 8, 10, 11}")
    case True
    then consider "sid = 5" | "sid = 6" | "sid = 7" | "sid = 8" | "sid = 10" | "sid = 11" by blast
    then show ?thesis
    proof cases
      case 1
      then obtain xs where "decodeInstanceSection sz buf off = Inr (xs, off')" "c' = add_instances xs c"
        using assms(1) by (auto simp: section_dispatch rbind_eq_Inr)
      then show ?thesis using 1 instance_items spaces_laid_add(1) [OF assms(2)] by blast
    next
      case 2
      then obtain xs where "decodeAliasSection sz buf off = Inr (xs, off')" "c' = add_aliases xs c"
        using assms(1) by (auto simp: section_dispatch rbind_eq_Inr)
      then show ?thesis using 2 alias_items spaces_laid_add(2) [OF assms(2)] by blast
    next
      case 3
      then obtain xs where "decodeTypeSection sz buf off = Inr (xs, off')" "c' = add_types xs c"
        using assms(1) by (auto simp: section_dispatch rbind_eq_Inr)
      then show ?thesis using 3 type_items spaces_laid_add(3) [OF assms(2)] by blast
    next
      case 4
      then obtain xs where "decodeCanonSection sz buf off = Inr (xs, off')" "c' = add_canons xs c"
        using assms(1) by (auto simp: section_dispatch rbind_eq_Inr)
      then show ?thesis using 4 canon_items spaces_laid_add(4) [OF assms(2)] by blast
    next
      case 5
      then obtain xs where "decodeImportSection sz buf off = Inr (xs, off')" "c' = add_imports xs c"
        using assms(1) by (auto simp: section_dispatch rbind_eq_Inr)
      then show ?thesis using 5 import_items spaces_laid_add(5) [OF assms(2)] by blast
    next
      case 6
      then obtain xs where "decodeExportSection sz buf off = Inr (xs, off')" "c' = add_exports xs c"
        using assms(1) by (auto simp: section_dispatch rbind_eq_Inr)
      then show ?thesis using 6 export_items spaces_laid_add(6) [OF assms(2)] by blast
    qed
  next
    case False
    have "spaces_laid c' items"
      using assms keep False unfolding decode_section_def decodeCoreModuleSection_def prod.case
      by (auto simp: rbind_eq_Inr split: if_splits)
    then show ?thesis using none False by blast
  qed
qed

lemma decode_sections_laid:
  assumes "decode_sections nested limits buf off (c, cs, b) = Inr (c', cs', b')" "spaces_laid c items" "off \<le> length buf"
  shows "\<exists>new. laid_out buf off new \<and> spaces_laid c' (items @ new)"
  using assms
proof (induction "length buf - off" arbitrary: off c cs b items rule: less_induct)
  case less
  show ?case
  proof (cases "off < length buf")
    case True
    with less.prems(1) obtain sz start c1 cs1 b1 where
      u: "u32_at buf (off + 1) = Inr (sz, start)" "unat sz \<le> length buf - start"
      and sec: "decode_section nested (buf ! off) sz (take (start + unat sz) buf) start (c, cs, b + 1) = Inr (start + unat sz, c1, cs1, b1)"
      and rest: "decode_sections nested limits buf (start + unat sz) (c1, cs1, b1) = Inr (c', cs', b')"
      unfolding decode_sections_eq [of nested limits buf off c cs b]
      by (auto simp: rbind_eq_Inr split: if_splits)
    have start: "off + 2 \<le> start" "start + unat sz \<le> length buf" using section_start [OF u(1) True] u(2) by simp_all
    obtain new where new: "section_items (buf ! off) sz (take (start + unat sz) buf) start new" "spaces_laid c1 (items @ new)"
      using decode_section_items [OF sec less.prems(2)] by blast
    obtain more where "laid_out buf (start + unat sz) more" "spaces_laid c' (items @ new @ more)"
      using less.hyps [OF _ rest new(2) start(2)] start True by (auto simp: diff_less_mono2)
    then show ?thesis using laid_section [OF True u(1) start(2) new(1)] by blast
  next
    case False
    with less.prems have "off = length buf" "c' = c" by (simp_all add: decode_sections_eq)
    then show ?thesis using laid_end less.prems(2) by (intro exI [of _ "[]"]) simp
  qed
qed

text \<open>The definitions of a component are those behind the eight bytes of its header.\<close>

definition spaces_of_bytes :: "component_data \<Rightarrow> bool" where
  "spaces_of_bytes c \<longleftrightarrow> (\<exists>items. laid_out (c_Bytes c) 8 items \<and> spaces_laid c items)"

lemma spaces_laid_zero: "spaces_laid zero_component []"
  by (simp add: spaces_laid_def zero_component_def)

definition well_indexed :: "component_data \<Rightarrow> bool" where
  "well_indexed c \<longleftrightarrow> spaces_ok c \<and> spaces_of_bytes c"

lemma decodeComponent_spaces: "decodeComponent fuel limits depth buf b = Inr (d, b') \<Longrightarrow> tree_all well_indexed d"
proof (induction fuel arbitrary: depth buf b d b')
  case (Suc fuel)
  from Suc.prems show ?case
  proof (rule decodeComponentE)
    fix fuel' c cs
    assume "Suc fuel = Suc fuel'" and d: "d = Component (c\<lparr>c_Decoded := True, c_Bytes := buf\<rparr>) cs"
      and "decode_sections (decodeComponent fuel' limits (depth + 1)) limits buf 8 (zero_component, [], b) = Inr (c, cs, b')"
      and long: "8 \<le> length buf"
    note run = this(3)
    let ?I = "\<lambda>(c, cs, b :: nat). spaces_ok c \<and> list_all (tree_all well_indexed) cs"
    have "?I (c, cs, b')"
    proof (rule decode_sections_invariant [OF run])
      fix c cs b1 c' assume "?I (c, cs, b1)" "section_adds c c'"
      then show "?I (c', cs, Suc b1)" using section_adds_spaces by simp
    next
      fix c cs b1 bs d b2
      assume "?I (c, cs, b1)" "decodeComponent fuel' limits (depth + 1) bs (Suc b1) = Inr (d, b2)"
      then show "?I (c, cs @ [d], b2)" using Suc.IH \<open>Suc fuel = Suc fuel'\<close> by simp
    qed (simp add: spaces_ok_zero)
    moreover obtain items where "laid_out buf 8 items" "spaces_laid c items"
      using decode_sections_laid [OF run spaces_laid_zero long] by auto
    then have "spaces_of_bytes (c\<lparr>c_Decoded := True, c_Bytes := buf\<rparr>)"
      by (auto simp: spaces_of_bytes_def spaces_laid_def)
    ultimately show ?thesis by (simp add: d well_indexed_def [of "c\<lparr>c_Decoded := True, c_Bytes := buf\<rparr>"])
  qed
qed simp

lemma decoded_well_indexed: "DecodeWithLimits r limits = Inr d \<Longrightarrow> tree_all well_indexed d"
  by (erule DecodeWithLimitsE) (rule decodeComponent_spaces)

text \<open>C10. The index spaces of a decoded component, and of every component nested in it, are those of the specification: taken in the
  order of the bytes, across all its sections however they are interleaved or repeated, the definitions that make an entry in a
  space, of whatever kind, are the entries of that space, each by its number among the definitions of its kind.\<close>

theorem decoded_index_spaces:
  assumes "DecodeWithLimits r limits = Inr d"
  shows "tree_all (\<lambda>c. spaces_ok c \<and> (\<exists>items. laid_out (c_Bytes c) 8 items \<and> spaces_laid c items)) d"
  using decoded_well_indexed [OF assms] unfolding well_indexed_def spaces_of_bytes_def .

subsection \<open>The limits\<close>

primrec tree_depth :: "component \<Rightarrow> nat" where
  "tree_depth (Component c cs) = foldr max (map (\<lambda>d. Suc (tree_depth d)) cs) 0"

definition sections_of :: "component_data \<Rightarrow> nat" where
  "sections_of c = length (c_RawSections c) + length (c_CoreModules c)"

primrec tree_sections :: "component \<Rightarrow> nat" where
  "tree_sections (Component c cs) = sections_of c + sum_list (map (\<lambda>d. Suc (tree_sections d)) cs)"

lemma section_adds_count: "section_adds c c' \<Longrightarrow> sections_of c' \<le> Suc (sections_of c)"
  by (induction rule: section_adds.induct)
    (simp_all add: sections_of_def add_instances_def add_aliases_def add_types_def add_canons_def add_imports_def add_exports_def Let_def)

lemma foldr_max_start: "foldr max xs (x :: nat) = max (foldr max xs 0) x"
  by (induction xs) auto

lemma decodeComponent_limits:
  "decodeComponent fuel limits depth buf b = Inr (d, b') \<Longrightarrow>
   depth + tree_depth d \<le> unat (MaxDepth limits) \<and> b + tree_sections d \<le> b' \<and> b' \<le> max b (unat (MaxSections limits))"
proof (induction fuel arbitrary: depth buf b d b')
  case (Suc fuel)
  from Suc.prems show ?case
  proof (rule decodeComponentE)
    fix fuel' c cs
    let ?I = "\<lambda>(c, cs, b1). depth + foldr max (map (\<lambda>d. Suc (tree_depth d)) cs) 0 \<le> unat (MaxDepth limits) \<and>
      b + sections_of c + sum_list (map (\<lambda>d. Suc (tree_sections d)) cs) \<le> b1 \<and> b1 \<le> max b (unat (MaxSections limits))"
    assume *: "Suc fuel = Suc fuel'" "depth \<le> unat (MaxDepth limits)"
      "decode_sections (decodeComponent fuel' limits (depth + 1)) limits buf 8 (zero_component, [], b) = Inr (c, cs, b')"
      and d: "d = Component (c\<lparr>c_Decoded := True, c_Bytes := buf\<rparr>) cs"
    have "?I (c, cs, b')"
    proof (rule decode_sections_invariant [OF *(3)])
      show "?I (zero_component, [], b)" using *(2) by (simp add: zero_component_def sections_of_def)
    next
      fix c cs b1 c' assume "?I (c, cs, b1)" "b1 < unat (MaxSections limits)" "section_adds c c'"
      then show "?I (c', cs, Suc b1)" using section_adds_count [of c c'] by auto
    next
      fix c cs b1 bs d b2
      assume I: "?I (c, cs, b1)" "b1 < unat (MaxSections limits)"
        and "decodeComponent fuel' limits (depth + 1) bs (Suc b1) = Inr (d, b2)"
      with Suc.IH [of "depth + 1" bs "Suc b1" d b2] *(1)
      show "?I (c, cs @ [d], b2)" by (auto simp: foldr_max_start [of _ "Suc _"])
    qed
    then show ?thesis by (simp add: d sections_of_def)
  qed
qed simp

text \<open>C12. A decoded component is within the limits the caller chose: the input is no longer than \<open>MaxInputBytes\<close>, no component is nested
  deeper than \<open>MaxDepth\<close>, and the custom sections, core modules and nested components of the whole tree are
  together no more than \<open>MaxSections\<close>.\<close>

theorem decoded_within_limits:
  assumes "DecodeWithLimits r limits = Inr d"
  shows "length (c_Bytes (data d)) \<le> unat (MaxInputBytes (normalizeDecodeLimits limits)) \<and>
    tree_depth d \<le> unat (MaxDepth (normalizeDecodeLimits limits)) \<and>
    tree_sections d \<le> unat (MaxSections (normalizeDecodeLimits limits))"
proof -
  from assms obtain buf b where buf: "length buf \<le> unat (MaxInputBytes (normalizeDecodeLimits limits))"
    and d: "decodeComponent (Suc (length buf)) (normalizeDecodeLimits limits) 0 buf 0 = Inr (d, b)"
    by (rule DecodeWithLimitsE)
  from d have "c_Bytes (data d) = buf" by (rule decodeComponentE) simp
  then show ?thesis using buf decodeComponent_limits [OF d] by simp
qed


subsection \<open>Types survive the container\<close>

text \<open>A component that is a list of type sections.\<close>

definition type_section :: "type_desc list \<Rightarrow> byte list" where
  "type_section ds = 0x07 # EncodeUint32 (word_of_nat (length (enc_vec encodeDesc ds))) @ enc_vec encodeDesc ds"

definition types_component :: "type_desc list list \<Rightarrow> byte list" where
  "types_component dss = magic @ componentVersion @ componentLayer @ concat (map type_section dss)"

lemma decodeTypeSection_encoded:
  assumes "vec_fits encodable ds" "unat sz = length (enc_vec encodeDesc ds)"
  shows "decodeTypeSection sz (pre @ enc_vec encodeDesc ds) (length pre) =
    Inr (number_types ds, length pre + length (enc_vec encodeDesc ds))"
proof -
  have "encodes (rd_map number_types (read_vec (readDeftypeDesc (Suc fuel)))) (number_types ds) (enc_vec encodeDesc ds)" for fuel
    by (rule encodes_map [OF descs.vec [OF assms(1)] refl])
  from encodesD [OF this, where pre = pre and suf = "[]"] show ?thesis
    using assms(2) by (simp add: decodeTypeSection_def within_section_def)
qed

lemma decode_type_sections:
  assumes "list_all (vec_fits encodable) dss" "b + length dss \<le> unat (MaxSections limits)"
    "length (concat (map type_section dss)) < 2 ^ 32"
  shows "decode_sections nested limits (pre @ concat (map type_section dss)) (length pre) (c, cs, b) =
    Inr (fold (\<lambda>ds. add_types (number_types ds)) dss c, cs, b + length dss)"
  using assms
proof (induction dss arbitrary: pre c b)
  case Nil
  then show ?case by (simp add: decode_sections_eq)
next
  case (Cons ds dss)
  define payload where "payload = enc_vec encodeDesc ds"
  define sz :: u32 where "sz = word_of_nat (length payload)"
  define rest where "rest = concat (map type_section dss)"
  let ?pre = "pre @ [0x07] @ EncodeUint32 sz"
  let ?buf = "?pre @ payload @ rest"
  have buf: "pre @ concat (map type_section (ds # dss)) = ?buf"
    by (simp add: type_section_def payload_def sz_def rest_def)
  have sz: "unat sz = length payload"
    using Cons.prems(3) by (simp add: type_section_def payload_def sz_def unat_of_nat)
  have u: "u32_at ?buf (length pre + 1) = Inr (sz, length ?pre)"
    using encodesD [OF encodes_u32, of "pre @ [0x07]" sz "payload @ rest"] by simp
  have sec: "decode_section nested 0x07 sz (?pre @ payload) (length ?pre) (c, cs, b + 1) =
      Inr (length ?pre + length payload, add_types (number_types ds) c, cs, b + 1)"
    using decodeTypeSection_encoded [of ds sz ?pre] Cons.prems(1) sz by (simp add: decode_section_def payload_def)
  have "decode_sections nested limits ?buf (length pre) (c, cs, b) =
      decode_sections nested limits ((?pre @ payload) @ rest) (length (?pre @ payload)) (add_types (number_types ds) c, cs, Suc b)"
    using u sec sz Cons.prems(2) by (subst decode_sections_eq) (simp add: nth_append add.assoc)
  also have "\<dots> = Inr (fold (\<lambda>ds. add_types (number_types ds)) dss (add_types (number_types ds) c), cs, Suc b + length dss)"
    unfolding rest_def by (rule Cons.IH) (use Cons.prems in simp_all)
  finally show ?case unfolding buf by simp
qed

lemma number_types_descriptors: "map Descriptor (number_types ds) = ds"
  using map_snd_enumerate [of "\<lambda>x. x" 0 ds] by (simp add: number_types_def o_def case_prod_unfold)

lemma fold_add_types:
  "map Descriptor (c_Types (fold (\<lambda>ds. add_types (number_types ds)) dss c)) = map Descriptor (c_Types c) @ concat dss"
  by (induction dss arbitrary: c)
    (simp_all add: add_types_def Let_def renumbered_descriptors number_types_descriptors del: map_map)

text \<open>Adding types changes the types and their index space only, which number them through.\<close>

lemma add_types_frame: "add_types ts c = c\<lparr>c_Types := c_Types (add_types ts c), c_TypeSpace := c_TypeSpace (add_types ts c)\<rparr>"
  by (simp add: add_types_def Let_def)

lemma fold_types_frame:
  "\<exists>ts sp. fold (\<lambda>ds. add_types (number_types ds)) dss c = c\<lparr>c_Types := ts, c_TypeSpace := sp\<rparr>"
proof (induction dss arbitrary: c)
  case Nil
  show ?case by (intro exI [of _ "c_Types c"] exI [of _ "c_TypeSpace c"]) simp
next
  case (Cons ds dss)
  obtain ts sp where "add_types (number_types ds) c = c\<lparr>c_Types := ts, c_TypeSpace := sp\<rparr>"
    using add_types_frame by blast
  then show ?case using Cons [of "add_types (number_types ds) c"] by fastforce
qed

lemma fold_types_space:
  "c_TypeSpace c = map (\<lambda>t. TypeSpaceDef (Type_Index t)) (c_Types c) \<Longrightarrow>
   map Type_Index (c_Types c) = map word_of_nat [0..<length (c_Types c)] \<Longrightarrow>
   let c' = fold (\<lambda>ds. add_types (number_types ds)) dss c in
     c_TypeSpace c' = map (\<lambda>t. TypeSpaceDef (Type_Index t)) (c_Types c') \<and>
     map Type_Index (c_Types c') = map word_of_nat [0..<length (c_Types c')]"
proof (induction dss arbitrary: c)
  case (Cons ds dss)
  let ?c = "add_types (number_types ds) c"
  have "c_TypeSpace ?c = map (\<lambda>t. TypeSpaceDef (Type_Index t)) (c_Types ?c)"
    using Cons.prems(1) by (simp add: add_types_def Let_def case_prod_unfold)
  moreover have "map Type_Index (c_Types ?c) = map word_of_nat [0..<length (c_Types ?c)]"
    using Cons.prems(2) by (auto simp: add_types_def Let_def renumber_types numbered_fst nth_append intro!: nth_equalityI simp del: map_map)
  ultimately show ?case using Cons.IH [of ?c] by simp
qed simp

definition decoded_types :: "type_desc list list \<Rightarrow> component" where
  "decoded_types dss = Component ((fold (\<lambda>ds. add_types (number_types ds)) dss zero_component)\<lparr>c_Decoded := True, c_Bytes := types_component dss\<rparr>) []"

lemma decode_types_component:
  assumes "list_all (vec_fits encodable) dss" "length dss \<le> unat (MaxSections (normalizeDecodeLimits limits))"
    "length (types_component dss) \<le> unat (MaxInputBytes (normalizeDecodeLimits limits))" "length (types_component dss) < 2 ^ 32"
  shows "DecodeWithLimits (types_component dss, False) limits = Inr (decoded_types dss)"
proof -
  let ?L = "normalizeDecodeLimits limits" and ?buf = "types_component dss"
  let ?c = "fold (\<lambda>ds. add_types (number_types ds)) dss zero_component"
  have head: "length (magic @ componentVersion @ componentLayer) = 8" "take 4 ?buf = magic"
    "take 2 (drop 4 ?buf) = componentVersion" "take 2 (drop 6 ?buf) = componentLayer"
    by (simp_all add: types_component_def magic_def componentVersion_def componentLayer_def)
  have "decode_sections (decodeComponent (length ?buf) ?L 1) ?L ?buf 8 (zero_component, [], 0) = Inr (?c, [], length dss)"
    using decode_type_sections [OF assms(1), of 0 ?L "decodeComponent (length ?buf) ?L 1" "magic @ componentVersion @ componentLayer" zero_component "[]"]
      assms(2,4) head(1) by (simp add: types_component_def)
  moreover have "expect_bytes 4 magic ErrInvalidMagicNumber ?buf 0 = Inr ()" "expect_bytes 2 componentVersion ErrInvalidVersion ?buf 4 = Inr ()"
    "expect_bytes 2 componentLayer ErrInvalidLayer ?buf 6 = Inr ()"
    using head by (simp_all add: expect_bytes_Inr types_component_def)
  ultimately have "decodeComponent (Suc (length ?buf)) ?L 0 ?buf 0 = Inr (decoded_types dss, length dss)" by (simp add: decoded_types_def)
  moreover have "read_all (n + 1) (?buf, False) = Inr ?buf" if "length ?buf \<le> n" for n
    using that by (simp add: read_all_def)
  ultimately show ?thesis
    using assms(3,4) by (simp add: DecodeWithLimits_def Let_def del: decodeComponent.simps)
qed

definition sample_types :: "type_desc list list" where
  "sample_types = [[point_type], [PrimitiveDesc ''bool'', OwnDesc 0]]"

lemma sample_types_fit: "list_all (vec_fits encodable) sample_types" "length sample_types = 2" "length (types_component sample_types) = 29"
  subgoal by (simp add: sample_types_def point_type_def vec_fits_def maxVectorElements_def field_fits_def name_fits_def ref_fits_def
    prim_def tidx_def is_prim_def prim_codes_def)
  subgoal by (simp add: sample_types_def)
  subgoal by code_simp
  done

lemma decode_sample:
  "DecodeWithLimits (types_component sample_types, False) DefaultDecodeLimits = Inr (decoded_types sample_types)"
  by (rule decode_types_component) (simp_all add: sample_types_fit normalizeDecodeLimits_def DefaultDecodeLimits_def)

text \<open>C9. Types survive the container: a component of any number of type sections decodes, within the limits, to a component whose types
  are exactly those of all the sections, in order, that numbers them through in its type index space, and that contains nothing
  else: no import, export, alias, instance, canon, core module or nested component.\<close>

theorem component_types_roundtrip:
  assumes "list_all (vec_fits encodable) dss" "length dss \<le> unat (MaxSections (normalizeDecodeLimits limits))"
    "length (types_component dss) \<le> unat (MaxInputBytes (normalizeDecodeLimits limits))" "length (types_component dss) < 2 ^ 32"
  shows "\<exists>ts. map Descriptor ts = concat dss \<and> map Type_Index ts = map word_of_nat [0..<length ts] \<and>
    DecodeWithLimits (types_component dss, False) limits = Inr (Component (zero_component\<lparr>c_Types := ts,
      c_TypeSpace := map (\<lambda>t. TypeSpaceDef (Type_Index t)) ts, c_Decoded := True, c_Bytes := types_component dss\<rparr>) [])"
proof -
  let ?c = "fold (\<lambda>ds. add_types (number_types ds)) dss zero_component"
  have "c_TypeSpace ?c = map (\<lambda>t. TypeSpaceDef (Type_Index t)) (c_Types ?c)"
    "map Type_Index (c_Types ?c) = map word_of_nat [0..<length (c_Types ?c)]"
    using fold_types_space [of zero_component dss] by (simp_all add: Let_def zero_component_def)
  moreover have "map Descriptor (c_Types ?c) = concat dss" by (simp add: fold_add_types zero_component_def)
  moreover have "decoded_types dss = Component (zero_component\<lparr>c_Types := c_Types ?c, c_TypeSpace := c_TypeSpace ?c,
      c_Decoded := True, c_Bytes := types_component dss\<rparr>) []"
    using fold_types_frame [of dss zero_component] by (auto simp: decoded_types_def)
  ultimately show ?thesis using decode_types_component [OF assms] by metis
qed

theorem component_types_roundtrip_witness:
  "\<exists>ts. map Descriptor ts = concat sample_types \<and> map Type_Index ts = map word_of_nat [0..<length ts] \<and>
    DecodeWithLimits (types_component sample_types, False) DefaultDecodeLimits = Inr (Component (zero_component\<lparr>c_Types := ts,
      c_TypeSpace := map (\<lambda>t. TypeSpaceDef (Type_Index t)) ts, c_Decoded := True, c_Bytes := types_component sample_types\<rparr>) [])"
  using component_types_roundtrip [of sample_types DefaultDecodeLimits]
  by (simp add: sample_types_fit normalizeDecodeLimits_def DefaultDecodeLimits_def)

theorem decoded_index_spaces_witness:
  "tree_all (\<lambda>c. spaces_ok c \<and> (\<exists>items. laid_out (c_Bytes c) 8 items \<and> spaces_laid c items)) (decoded_types sample_types)"
  using decoded_index_spaces [OF decode_sample] .

theorem decoded_within_limits_witness:
  "tree_sections (decoded_types sample_types) \<le> unat (MaxSections (normalizeDecodeLimits DefaultDecodeLimits))"
  using decoded_within_limits [OF decode_sample] by blast

end
