(* ===== verification/Type_Space.thy ===== *)
theory Type_Space
  imports Component_Correct
begin

section \<open>Resolving indices of the type and instance spaces\<close>

text \<open>
  \<open>internal/binary/typespace.go\<close> and \<open>ResolveComponentInstance\<close> of \<open>componentinstancespace.go\<close>: from an index of the type
  space to the type it names, from the alias of a resource to the index that defines it, and from an index of the instance
  space to an instance definition. The recursion of the source counts a depth up to \<open>maxTypeAliasDepth\<close>; here it ends by the
  measure of what is left. The specification is the relation \<open>type_link\<close>, one step from an index to the index it is an alias of.
\<close>

subsection \<open>The code\<close>

definition maxTypeAliasDepth :: nat where "maxTypeAliasDepth = 32"

datatype type_error =
    AliasChainTooDeep
  | TypeOutOfRange
  | InternalError
  | ImportedType string
  | UnresolvedAlias string
  | EnclosingOuterAlias
  | AliasTargetKind byte

text \<open>\<open>resolveAlias\<close>; \<open>rec\<close> is \<open>resolveTypeDepth\<close> at the next depth.\<close>

definition resolveAlias :: "component_data \<Rightarrow> (u32 \<Rightarrow> type_error + type_desc) \<Rightarrow> alias_def \<Rightarrow> type_error + type_desc" where
  "resolveAlias c rec al =
     (if TargetKind al = 0x00 then
        (if unat (Alias_InstanceIdx al) < length (c_Instances c) then
           let inst = c_Instances c ! unat (Alias_InstanceIdx al)
           in if Instance_Kind inst = 0x01 then
                (case find (\<lambda>ie. Inline_Name ie = Alias_Name al \<and> Inline_Sort ie = 0x03) (Instance_Exports inst) of
                   Some ie \<Rightarrow> rec (Inline_SortIdx ie)
                 | None \<Rightarrow> Inl (UnresolvedAlias (Alias_Name al)))
              else Inl (UnresolvedAlias (Alias_Name al))
         else Inl (UnresolvedAlias (Alias_Name al)))
      else if TargetKind al = 0x02 then
        (if OuterCount al = 0 then rec (OuterIndex al) else Inl EnclosingOuterAlias)
      else Inl (AliasTargetKind (TargetKind al)))"

function resolveTypeDepth :: "component_data \<Rightarrow> u32 \<Rightarrow> nat \<Rightarrow> type_error + type_desc" where
  "resolveTypeDepth c idx depth =
     (if depth > maxTypeAliasDepth then Inl AliasChainTooDeep
      else if c_TypeSpace c = [] then
        (if unat idx \<ge> length (c_Types c) then Inl TypeOutOfRange else Inr (Descriptor (c_Types c ! unat idx)))
      else if unat idx \<ge> length (c_TypeSpace c) then Inl TypeOutOfRange
      else case c_TypeSpace c ! unat idx of
        TypeSpaceDef i \<Rightarrow>
          if unat i \<ge> length (c_Types c) then Inl InternalError else Inr (Descriptor (c_Types c ! unat i))
      | TypeSpaceImport i \<Rightarrow>
          if unat i < length (c_Imports c) then
            (let im = c_Imports c ! unat i
             in if TypeEqBound im then resolveTypeDepth c (TypeEqIndex im) (depth + 1) else Inl (ImportedType (Import_Name im)))
          else Inl (ImportedType ''?'')
      | TypeSpaceAlias i \<Rightarrow>
          if unat i \<ge> length (c_Aliases c) then Inl InternalError
          else resolveAlias c (\<lambda>idx'. resolveTypeDepth c idx' (depth + 1)) (c_Aliases c ! unat i)
      | TypeSpaceExport i \<Rightarrow>
          if unat i \<ge> length (c_Exports c) then Inl InternalError
          else resolveTypeDepth c (Export_ExternIndex (c_Exports c ! unat i)) (depth + 1))"
  by pat_completeness auto
termination
  by (relation "measure (\<lambda>(c, idx, depth). Suc maxTypeAliasDepth - depth)") auto

declare resolveTypeDepth.simps [simp del]

definition ResolveType :: "component_data \<Rightarrow> u32 \<Rightarrow> type_error + type_desc" where
  "ResolveType c idx = resolveTypeDepth c idx 0"

function resourceDefIndexDepth :: "component_data \<Rightarrow> u32 \<Rightarrow> nat \<Rightarrow> u32" where
  "resourceDefIndexDepth c idx depth =
     (if depth > maxTypeAliasDepth \<or> unat idx \<ge> length (c_TypeSpace c) then idx
      else case c_TypeSpace c ! unat idx of
        TypeSpaceExport i \<Rightarrow>
          if unat i < length (c_Exports c) then resourceDefIndexDepth c (Export_ExternIndex (c_Exports c ! unat i)) (depth + 1)
          else idx
      | TypeSpaceImport i \<Rightarrow>
          if unat i < length (c_Imports c) \<and> TypeEqBound (c_Imports c ! unat i)
          then resourceDefIndexDepth c (TypeEqIndex (c_Imports c ! unat i)) (depth + 1) else idx
      | TypeSpaceAlias i \<Rightarrow>
          if unat i < length (c_Aliases c) \<and> Alias_Sort (c_Aliases c ! unat i) = 0x03 \<and>
             TargetKind (c_Aliases c ! unat i) = 0x02 \<and> OuterCount (c_Aliases c ! unat i) = 0
          then resourceDefIndexDepth c (OuterIndex (c_Aliases c ! unat i)) (depth + 1) else idx
      | TypeSpaceDef _ \<Rightarrow> idx)"
  by pat_completeness auto
termination
  by (relation "measure (\<lambda>(c, idx, depth). Suc maxTypeAliasDepth - depth)") auto

declare resourceDefIndexDepth.simps [simp del]

definition ResourceDefIndex :: "component_data \<Rightarrow> u32 \<Rightarrow> u32" where
  "ResourceDefIndex c idx = resourceDefIndexDepth c idx 0"

definition resolveInstanceMaxDepth :: nat where "resolveInstanceMaxDepth = 64"

text \<open>The loop of \<open>ResolveComponentInstance\<close>, with the number of its rounds that are left.\<close>

primrec resolveInstance_loop :: "component_data \<Rightarrow> nat \<Rightarrow> u32 \<Rightarrow> nat option" where
  "resolveInstance_loop c 0 idx = None"
| "resolveInstance_loop c (Suc rounds) idx =
     (if unat idx \<ge> length (c_ComponentInstanceSpace c) then None
      else case c_ComponentInstanceSpace c ! unat idx of
        ComponentInstanceFromDefinition i \<Rightarrow> if unat i \<ge> length (c_Instances c) then None else Some (unat i)
      | ComponentInstanceFromExport i \<Rightarrow>
          if unat i \<ge> length (c_Exports c) then None
          else resolveInstance_loop c rounds (Export_ExternIndex (c_Exports c ! unat i))
      | _ \<Rightarrow> None)"

definition ResolveComponentInstance :: "component_data \<Rightarrow> u32 \<Rightarrow> nat option" where
  "ResolveComponentInstance c idx = resolveInstance_loop c resolveInstanceMaxDepth idx"

subsection \<open>The specification\<close>

definition entry_at :: "'a list \<Rightarrow> u32 \<Rightarrow> 'a option" where
  "entry_at xs i = (if unat i < length xs then Some (xs ! unat i) else None)"

definition exported_type :: "instance_def \<Rightarrow> string \<Rightarrow> inline_export option" where
  "exported_type inst name =
     (if Instance_Kind inst = 0x01 then find (\<lambda>ie. Inline_Name ie = name \<and> Inline_Sort ie = 0x03) (Instance_Exports inst) else None)"

text \<open>One step from a type index to the index it is declared equal to: an export aliases what it exports, an import with an
  \<open>eq\<close> bound is that type, and so on. The resource links are those that the identity of a resource follows.\<close>

inductive resource_link :: "component_data \<Rightarrow> u32 \<Rightarrow> u32 \<Rightarrow> bool" for c where
  of_export: "entry_at (c_TypeSpace c) idx = Some (TypeSpaceExport i) \<Longrightarrow> entry_at (c_Exports c) i = Some ex \<Longrightarrow>
    resource_link c idx (Export_ExternIndex ex)"
| of_import: "entry_at (c_TypeSpace c) idx = Some (TypeSpaceImport i) \<Longrightarrow> entry_at (c_Imports c) i = Some im \<Longrightarrow> TypeEqBound im \<Longrightarrow>
    resource_link c idx (TypeEqIndex im)"
| of_outer: "entry_at (c_TypeSpace c) idx = Some (TypeSpaceAlias i) \<Longrightarrow> entry_at (c_Aliases c) i = Some al \<Longrightarrow> Alias_Sort al = 0x03 \<Longrightarrow>
    TargetKind al = 0x02 \<Longrightarrow> OuterCount al = 0 \<Longrightarrow> resource_link c idx (OuterIndex al)"

inductive type_link :: "component_data \<Rightarrow> u32 \<Rightarrow> u32 \<Rightarrow> bool" for c where
  of_type_export: "entry_at (c_TypeSpace c) idx = Some (TypeSpaceExport i) \<Longrightarrow> entry_at (c_Exports c) i = Some ex \<Longrightarrow>
    type_link c idx (Export_ExternIndex ex)"
| of_type_import: "entry_at (c_TypeSpace c) idx = Some (TypeSpaceImport i) \<Longrightarrow> entry_at (c_Imports c) i = Some im \<Longrightarrow> TypeEqBound im \<Longrightarrow>
    type_link c idx (TypeEqIndex im)"
| of_type_outer: "entry_at (c_TypeSpace c) idx = Some (TypeSpaceAlias i) \<Longrightarrow> entry_at (c_Aliases c) i = Some al \<Longrightarrow>
    TargetKind al = 0x02 \<Longrightarrow> OuterCount al = 0 \<Longrightarrow> type_link c idx (OuterIndex al)"
| of_local_instance: "entry_at (c_TypeSpace c) idx = Some (TypeSpaceAlias i) \<Longrightarrow> entry_at (c_Aliases c) i = Some al \<Longrightarrow>
    TargetKind al = 0x00 \<Longrightarrow> entry_at (c_ComponentInstanceSpace c) (Alias_InstanceIdx al) = Some (ComponentInstanceFromDefinition k) \<Longrightarrow>
    entry_at (c_Instances c) k = Some inst \<Longrightarrow> exported_type inst (Alias_Name al) = Some ie \<Longrightarrow> type_link c idx (Inline_SortIdx ie)"

text \<open>The step that the code takes: it reads the instance of an alias as an index of the definitions.\<close>

inductive code_link :: "component_data \<Rightarrow> u32 \<Rightarrow> u32 \<Rightarrow> bool" for c where
  through_export: "entry_at (c_TypeSpace c) idx = Some (TypeSpaceExport i) \<Longrightarrow> entry_at (c_Exports c) i = Some ex \<Longrightarrow>
    code_link c idx (Export_ExternIndex ex)"
| through_import: "entry_at (c_TypeSpace c) idx = Some (TypeSpaceImport i) \<Longrightarrow> entry_at (c_Imports c) i = Some im \<Longrightarrow> TypeEqBound im \<Longrightarrow>
    code_link c idx (TypeEqIndex im)"
| through_outer: "entry_at (c_TypeSpace c) idx = Some (TypeSpaceAlias i) \<Longrightarrow> entry_at (c_Aliases c) i = Some al \<Longrightarrow>
    TargetKind al = 0x02 \<Longrightarrow> OuterCount al = 0 \<Longrightarrow> code_link c idx (OuterIndex al)"
| through_instance: "entry_at (c_TypeSpace c) idx = Some (TypeSpaceAlias i) \<Longrightarrow> entry_at (c_Aliases c) i = Some al \<Longrightarrow>
    TargetKind al = 0x00 \<Longrightarrow> entry_at (c_Instances c) (Alias_InstanceIdx al) = Some inst \<Longrightarrow>
    exported_type inst (Alias_Name al) = Some ie \<Longrightarrow> code_link c idx (Inline_SortIdx ie)"

inductive type_defined :: "component_data \<Rightarrow> u32 \<Rightarrow> type_desc \<Rightarrow> bool" for c where
  "entry_at (c_TypeSpace c) idx = Some (TypeSpaceDef i) \<Longrightarrow> entry_at (c_Types c) i = Some t \<Longrightarrow> type_defined c idx (Descriptor t)"

inductive instance_link :: "component_data \<Rightarrow> u32 \<Rightarrow> u32 \<Rightarrow> bool" for c where
  "entry_at (c_ComponentInstanceSpace c) idx = Some (ComponentInstanceFromExport i) \<Longrightarrow> entry_at (c_Exports c) i = Some ex \<Longrightarrow>
    instance_link c idx (Export_ExternIndex ex)"

inductive instance_defined :: "component_data \<Rightarrow> u32 \<Rightarrow> nat \<Rightarrow> bool" for c where
  "entry_at (c_ComponentInstanceSpace c) idx = Some (ComponentInstanceFromDefinition i) \<Longrightarrow> unat i < length (c_Instances c) \<Longrightarrow>
    instance_defined c idx (unat i)"

lemmas space_relations = resource_link.simps code_link.simps type_defined.simps instance_link.simps instance_defined.simps

lemma entry_at_simps [simp]:
  "unat i < length xs \<Longrightarrow> entry_at xs i = Some (xs ! unat i)" "length xs \<le> unat i \<Longrightarrow> entry_at xs i = None"
  by (simp_all add: entry_at_def)

lemma entry_at_Some: "entry_at xs i = Some x \<longleftrightarrow> unat i < length xs \<and> xs ! unat i = x"
  by (simp add: entry_at_def)

text \<open>A lookup that follows a deterministic link a bounded number of times reaches exactly what is at the end of a chain that short.\<close>

text \<open>The two agree where the aliases of types agree: the index of the instance space that such an alias names is a definition exactly
  when it is an index of the definitions, and then of that one. A component has this if no instance is imported, aliased or exported
  before an instance that it defines, and also if it defines none and aliases the types of imported instances only.\<close>

definition instances_agree :: "component_data \<Rightarrow> bool" where
  "instances_agree c \<longleftrightarrow> (\<forall>i al. TypeSpaceAlias i \<in> set (c_TypeSpace c) \<longrightarrow> entry_at (c_Aliases c) i = Some al \<longrightarrow> TargetKind al = 0x00 \<longrightarrow>
     (\<forall>k. entry_at (c_ComponentInstanceSpace c) (Alias_InstanceIdx al) = Some (ComponentInstanceFromDefinition k) \<longleftrightarrow>
       k = Alias_InstanceIdx al \<and> unat k < length (c_Instances c)))"



lemma no_link: "(\<And>j. \<not> link i j) \<Longrightarrow> (link ^^ m) i k \<longleftrightarrow> m = 0 \<and> k = i"
  by (cases m) (auto elim: relpowp_0_E intro: relpowp_0_I simp del: relpowp.simps elim!: relpowp_Suc_E2 [of _ link])

locale chase =
  fixes link :: "'i \<Rightarrow> 'i \<Rightarrow> bool" and there :: "'i \<Rightarrow> 'r \<Rightarrow> bool" and look :: "nat \<Rightarrow> 'i \<Rightarrow> 'r option" and bound :: nat
  assumes link_fun: "link i j \<Longrightarrow> link i k \<Longrightarrow> j = k"
    and there_ends: "there i r \<Longrightarrow> \<not> link i j"
    and there_fun: "there i r \<Longrightarrow> there i r' \<Longrightarrow> r = r'"
    and look_none: "look 0 i = None"
    and look_there: "n < bound \<Longrightarrow> there i r \<Longrightarrow> look (Suc n) i = Some r"
    and look_link: "n < bound \<Longrightarrow> link i j \<Longrightarrow> look (Suc n) i = look n j"
    and look_fails: "n < bound \<Longrightarrow> (\<And>r. \<not> there i r) \<Longrightarrow> (\<And>j. \<not> link i j) \<Longrightarrow> look (Suc n) i = None"
begin

lemma look_iff: "n \<le> bound \<Longrightarrow> look n i = Some r \<longleftrightarrow> (\<exists>m<n. \<exists>j. (link ^^ m) i j \<and> there j r)"
proof (induction n arbitrary: i)
  case 0
  show ?case by (simp add: look_none)
next
  case (Suc n)
  then have n: "n < bound" by simp
  consider (there) s where "there i s" | (link) j where "link i j" | (neither) "\<And>s. \<not> there i s" "\<And>j. \<not> link i j" by blast
  then show ?case
  proof cases
    case there
    then show ?thesis
      by (auto simp: look_there [OF n there] no_link [of link, OF there_ends [OF there]] dest: there_fun)
  next
    case link
    have "(\<exists>m<Suc n. \<exists>k. (link ^^ m) i k \<and> there k r) \<longleftrightarrow> (\<exists>m<n. \<exists>k. (link ^^ m) j k \<and> there k r)"
    proof
      assume "\<exists>m<Suc n. \<exists>k. (link ^^ m) i k \<and> there k r"
      then obtain m k where m: "m < Suc n" "(link ^^ m) i k" "there k r" by blast
      with link there_ends have "m \<noteq> 0" by (metis relpowp_0_E)
      then obtain m' where m': "m = Suc m'" by (cases m) auto
      from m(2) [unfolded m'] obtain b where "link i b" "(link ^^ m') b k" by (rule relpowp_Suc_E2)
      with m m' link_fun [OF link] show "\<exists>m<n. \<exists>k. (link ^^ m) j k \<and> there k r" by auto
    next
      assume "\<exists>m<n. \<exists>k. (link ^^ m) j k \<and> there k r"
      then show "\<exists>m<Suc n. \<exists>k. (link ^^ m) i k \<and> there k r" using link relpowp_Suc_I2 by (metis Suc_mono)
    qed
    then show ?thesis using Suc by (simp add: look_link [OF n link])
  next
    case neither
    then show ?thesis by (simp add: look_fails [OF n] no_link)
  qed
qed

end

subsection \<open>The code follows the links\<close>

definition found :: "'e + 'a \<Rightarrow> 'a option" where
  "found r = (case r of Inl _ \<Rightarrow> None | Inr x \<Rightarrow> Some x)"

lemma found_simps [simp]: "found (Inl e) = None" "found (Inr x) = Some x" "found r = Some x \<longleftrightarrow> r = Inr x"
  by (simp_all add: found_def split: sum.splits)

lemma resolve_link:
  "code_link c i j \<Longrightarrow> depth \<le> maxTypeAliasDepth \<Longrightarrow> resolveTypeDepth c i depth = resolveTypeDepth c j (Suc depth)"
  by (subst resolveTypeDepth.simps, erule code_link.cases)
    (auto simp: entry_at_Some resolveAlias_def exported_type_def Let_def split: if_splits)



lemma code_link_fun: "code_link c i j \<Longrightarrow> code_link c i k \<Longrightarrow> j = k"
  by (elim code_link.cases) auto




interpretation instance_chase: chase "instance_link c" "instance_defined c" "resolveInstance_loop c" resolveInstanceMaxDepth for c
proof unfold_locales
  fix n i assume n: "n < resolveInstanceMaxDepth"
  show "resolveInstance_loop c (Suc n) i = Some r" if "instance_defined c i r" for r
    using that by (auto simp: instance_defined.simps entry_at_Some)
  show "resolveInstance_loop c (Suc n) i = resolveInstance_loop c n j" if "instance_link c i j" for j
    using that by (auto simp: instance_link.simps entry_at_Some)
  show "resolveInstance_loop c (Suc n) i = None" if "\<And>r. \<not> instance_defined c i r" "\<And>j. \<not> instance_link c i j"
    using that by (auto simp: instance_link.simps instance_defined.simps entry_at_Some not_le split: component_instance_entry.splits)
qed (auto simp: instance_link.simps instance_defined.simps entry_at_Some)

text \<open>A chain that is longer than the limit is an error, whatever is at its end.\<close>

lemma long_chain:
  "(code_link c ^^ n) i j \<Longrightarrow> maxTypeAliasDepth < depth + n \<Longrightarrow> depth \<le> Suc maxTypeAliasDepth \<Longrightarrow>
   resolveTypeDepth c i depth = Inl AliasChainTooDeep"
proof (induction n arbitrary: i depth)
  case 0
  then show ?case by (simp add: resolveTypeDepth.simps)
next
  case (Suc n)
  from Suc.prems(1) obtain k where k: "code_link c i k" "(code_link c ^^ n) k j" by (rule relpowp_Suc_E2)
  show ?case
  proof (cases "depth \<le> maxTypeAliasDepth")
    case True
    with k Suc show ?thesis by (simp add: resolve_link)
  qed (use Suc.prems in \<open>simp add: resolveTypeDepth.simps\<close>)
qed

lemma resource_link_step:
  "resource_link c i j \<Longrightarrow> depth \<le> maxTypeAliasDepth \<Longrightarrow> resourceDefIndexDepth c i depth = resourceDefIndexDepth c j (Suc depth)"
  by (subst resourceDefIndexDepth.simps, erule resource_link.cases) (auto simp: entry_at_Some)

lemma resource_end: "(\<And>j. \<not> resource_link c i j) \<Longrightarrow> resourceDefIndexDepth c i depth = i"
  by (subst resourceDefIndexDepth.simps) (auto simp: resource_link.simps entry_at_Some not_le split: type_space_entry.splits)

lemma resource_chain:
  "(resource_link c ^^ n) i k \<Longrightarrow> depth + n \<le> Suc maxTypeAliasDepth \<Longrightarrow> (\<And>j. \<not> resource_link c k j) \<Longrightarrow>
   resourceDefIndexDepth c i depth = k"
proof (induction n arbitrary: i depth)
  case 0
  then show ?case by (auto simp: resource_end elim: relpowp_0_E)
next
  case (Suc n)
  from Suc.prems(1) obtain m where "resource_link c i m" "(resource_link c ^^ n) m k" by (rule relpowp_Suc_E2)
  with Suc show ?case by (simp add: resource_link_step)
qed

subsection \<open>Decoded components\<close>








lemma relpowp_cycle: "(R ^^ n) i i \<Longrightarrow> (R ^^ (n * m)) i i"
  by (induction m) (auto simp: relpowp_add intro: relpowp_0_I)

subsection \<open>Properties\<close>


text \<open>A component that exports a type from an instance of its own and aliases it back.\<close>

definition local_alias :: component_data where
  "local_alias =
     add_aliases [\<lparr>Alias_Sort = 0x03, TargetKind = 0x00, Alias_InstanceIdx = 0, Alias_Name = ''t'', OuterCount = 0, OuterIndex = 0, CoreSort = 0\<rparr>]
     (add_instances [\<lparr>Instance_Kind = 0x01, ComponentIdx = 0, Instance_Args = [],
        Instance_Exports = [\<lparr>Inline_Name = ''t'', Inline_Sort = 0x03, Inline_SortIdx = 0\<rparr>]\<rparr>]
     (add_types (number_types [point_type]) zero_component))"

lemma local_alias_links: "type_link local_alias 1 0" "instances_agree local_alias"
  by (auto simp: local_alias_def add_aliases_def add_instances_def add_types_def number_types_def Let_def zero_component_def numbered_def
      instances_agree_def entry_at_def exported_type_def type_link.simps split: if_splits)


text \<open>Aliases that lead back to themselves are an error: an index on a cycle resolves to no type, and the
  recursion ends.\<close>

theorem type_cycle_fails:
  "(code_link c)\<^sup>+\<^sup>+ idx idx \<Longrightarrow> ResolveType c idx = Inl AliasChainTooDeep"
proof -
  assume "(code_link c)\<^sup>+\<^sup>+ idx idx"
  then obtain n where n: "n > 0" "(code_link c ^^ n) idx idx" by (auto simp: tranclp_power)
  have "maxTypeAliasDepth < n * Suc maxTypeAliasDepth" using n(1) by (cases n) auto
  with long_chain [OF relpowp_cycle [OF n(2), of "Suc maxTypeAliasDepth"], of 0] show ?thesis
    by (simp add: ResolveType_def)
qed

definition cyclic_types :: component_data where
  "cyclic_types = add_exports [\<lparr>Export_Name = ''t'', Export_ExternType = 0x03, Export_ExternIndex = 0\<rparr>] zero_component"

lemma cyclic_types_link: "code_link cyclic_types 0 0"
  using through_export [of cyclic_types 0 0] by (simp add: cyclic_types_def add_exports_def zero_component_def numbered_def entry_at_def)

theorem type_cycle_fails_witness: "ResolveType cyclic_types 0 = Inl AliasChainTooDeep"
  using type_cycle_fails [OF tranclp.r_into_trancl, OF cyclic_types_link] .

text \<open>A resource has one identity: all the indices from which a chain of at most 33 aliases leads to the same definition \<open>k\<close> have \<open>k\<close> as their
  \<open>ResourceDefIndex\<close>, so that a handle made under one name of the resource is accepted under each other.\<close>

theorem resource_identity:
  assumes "(resource_link c ^^ m) i k" "(resource_link c ^^ n) j k" "m \<le> Suc maxTypeAliasDepth" "n \<le> Suc maxTypeAliasDepth"
    and "\<And>l. \<not> resource_link c k l"
  shows "ResourceDefIndex c i = ResourceDefIndex c j \<and> ResourceDefIndex c i = k"
  using resource_chain [OF assms(1) _ assms(5), of 0] resource_chain [OF assms(2) _ assms(5), of 0] assms(3,4)
  by (simp add: ResourceDefIndex_def)

definition exported_resource :: component_data where
  "exported_resource = add_exports [\<lparr>Export_Name = ''r'', Export_ExternType = 0x03, Export_ExternIndex = 0\<rparr>]
     (add_types (number_types [ResourceDesc (prim ''i32'') None]) zero_component)"

lemma exported_resource_links: "resource_link exported_resource 1 0" "\<not> resource_link exported_resource 0 k"
  using of_export [of exported_resource 1 0]
  by (simp_all add: exported_resource_def add_exports_def add_types_def Let_def zero_component_def numbered_def number_types_def
    entry_at_def resource_link.simps)

theorem resource_identity_witness: "ResourceDefIndex exported_resource 1 = 0"
  using resource_identity [of 1 exported_resource 1 0 0 0] exported_resource_links
  by (auto simp: maxTypeAliasDepth_def relpowp_0_I eq_OO)

text \<open>\<open>ResolveComponentInstance\<close> returns an instance definition exactly when fewer than 64 exports lead from the index to it; imported
  and aliased instances, indices out of range and cycles have no definition.\<close>

theorem resolve_instance_spec:
  "ResolveComponentInstance c idx = Some i \<longleftrightarrow>
   (\<exists>n<resolveInstanceMaxDepth. \<exists>j. (instance_link c ^^ n) idx j \<and> instance_defined c j i)"
  by (simp add: ResolveComponentInstance_def instance_chase.look_iff)

text \<open>The instance of an alias is an index of the instance space, but \<open>resolveAlias\<close> takes it for an index of the instance
  definitions: the type of an imported instance resolves to a type that a local instance exports under the same name.\<close>

definition imported_alias :: component_data where
  "imported_alias =
     add_aliases [\<lparr>Alias_Sort = 0x03, TargetKind = 0x00, Alias_InstanceIdx = 0, Alias_Name = ''t'', OuterCount = 0, OuterIndex = 0, CoreSort = 0\<rparr>]
     (add_instances [\<lparr>Instance_Kind = 0x01, ComponentIdx = 0, Instance_Args = [],
        Instance_Exports = [\<lparr>Inline_Name = ''t'', Inline_Sort = 0x03, Inline_SortIdx = 0\<rparr>]\<rparr>]
     (add_types (number_types [point_type])
     (add_imports [\<lparr>Import_Name = ''i'', Import_ExternType = 0x05, Import_ExternIndex = 0, TypeEqIndex = 0, TypeEqBound = False\<rparr>]
        zero_component)))"

lemma alias_of_import_disagrees: "\<not> instances_agree imported_alias"
  by (auto simp: imported_alias_def add_aliases_def add_instances_def add_types_def add_imports_def number_types_def Let_def
      zero_component_def numbered_def instances_agree_def entry_at_def)

lemma alias_of_import_resolves_locally:
  "entry_at (c_ComponentInstanceSpace imported_alias) 0 = Some (ComponentInstanceFromImport 0)"
  "map Alias_InstanceIdx (c_Aliases imported_alias) = [0]"
  "ResolveType imported_alias 1 = Inr point_type"
  by code_simp+

end
