(* ===== verification/Core_Module.thy ===== *)
theory Core_Module
  imports Decode_Correct
begin

section \<open>Core modules that are built or rewritten\<close>

text \<open>
  \<open>internal/instance/shim.go\<close>, which encodes a core module that imports items and exports them again, and
  \<open>importrewrite.go\<close>, which gives the empty module names in the import section of a core module a name. A Go slice is the
  bytes of its array from its start on, up to its capacity, and its length: reslicing is checked against the capacity, so that
  a slice can be extended over its end without a panic. The other reads are the readers of Decode.
\<close>

subsection \<open>Rewriting imports (importrewrite.go)\<close>

definition writeName :: "byte list \<Rightarrow> byte list" where
  "writeName name = EncodeUint32 (word_of_nat (length name)) @ name"

definition readCoreWasmName :: "byte list reader" where
  "readCoreWasmName = rd_bind u32_at (\<lambda>len buf off.
     if off + unat len > length buf then Inl ErrTruncatedBinary
     else rbind (sliced SliceBounds buf off (off + unat len)) (\<lambda>name. Inr (name, off + unat len)))"

definition skipLimits :: "unit reader" where
  "skipLimits = rd_bind byte_at (\<lambda>flag. rd_bind u32_at (\<lambda>_.
     if flag = 0x01 then rd_map (\<lambda>_. ()) u32_at else rd_ret ()))"

text \<open>\<open>offset += n\<close>, without a look at the end of the buffer.\<close>

definition rd_skip :: "nat \<Rightarrow> unit reader" where
  "rd_skip n buf off = Inr ((), off + n)"

definition skipImportDesc :: "unit reader" where
  "skipImportDesc = rd_bind byte_at (\<lambda>kind.
     if kind = 0x00 then rd_map (\<lambda>_. ()) u32_at
     else if kind = 0x01 then rd_bind (rd_skip 1) (\<lambda>_. skipLimits)
     else if kind = 0x02 then skipLimits
     else if kind = 0x03 then rd_skip 2
     else rd_fail (InvalidTag kind))"

text \<open>The loop over the imports. \<open>arr\<close> and \<open>len\<close> are the slice \<open>body\<close>.\<close>

primrec rewrite_imports :: "nat \<Rightarrow> byte list \<Rightarrow> byte list \<Rightarrow> nat \<Rightarrow> nat \<Rightarrow> decode_error + byte list \<times> bool" where
  "rewrite_imports 0 newName arr len off = Inr ([], False)"
| "rewrite_imports (Suc n) newName arr len off =
     rbind (readCoreWasmName (take len arr) off) (\<lambda>(modName, off1).
     rbind (readCoreWasmName (take len arr) off1) (\<lambda>(fieldName, descStart).
     rbind (skipImportDesc (take len arr) descStart) (\<lambda>(_, off2).
     rbind (sliced SliceBounds arr descStart off2) (\<lambda>desc.
     rbind (rewrite_imports n newName arr len off2) (\<lambda>(out, changed).
       Inr (writeName (if modName = [] then newName else modName) @ writeName fieldName @ desc @ out,
            modName = [] \<or> changed))))))"

definition rewriteImportSectionBody :: "byte list \<Rightarrow> byte list \<Rightarrow> nat \<Rightarrow> decode_error + byte list \<times> bool" where
  "rewriteImportSectionBody newName arr len =
     rbind (u32_at (take len arr) 0) (\<lambda>(count, off).
     rbind (rewrite_imports (unat count) newName arr len off) (\<lambda>(out, changed).
       Inr (EncodeUint32 count @ out, changed)))"

lemma u32_at_progress: "u32_at buf off = Inr (v, off') \<Longrightarrow> off < off'"
  using reads_inD [OF reads_u32 [of "length buf"], of off buf] by (cases "off \<le> length buf") (auto simp: leb_at_def)

declare rbind_cong [fundef_cong]

function rewrite_sections :: "byte list \<Rightarrow> byte list \<Rightarrow> nat \<Rightarrow> nat \<Rightarrow> decode_error + byte list \<times> bool" where
  "rewrite_sections newName arr len offset =
     (if offset \<ge> len then Inr ([], False)
      else rbind (u32_at (take len arr) (offset + 1)) (\<lambda>(sz, start).
        if start + unat sz > len then Inl ErrTruncatedBinary
        else rbind (indexed SliceBounds (take len arr) offset) (\<lambda>sid.
        rbind (sliced SliceBounds arr start (start + unat sz)) (\<lambda>body.
        if sid \<noteq> 2 then
          rbind (rewrite_sections newName arr len (start + unat sz)) (\<lambda>(out, changed).
            Inr (sid # EncodeUint32 sz @ body @ out, changed))
        else rbind (rewriteImportSectionBody newName (drop start arr) (unat sz)) (\<lambda>(newBody, sectionChanged).
          rbind (rewrite_sections newName arr len (start + unat sz)) (\<lambda>(out, changed).
            Inr (sid # EncodeUint32 (word_of_nat (length newBody)) @ newBody @ out, sectionChanged \<or> changed)))))))"
  by pat_completeness auto
termination
  by (relation "measure (\<lambda>(newName, arr, len, offset). len - offset)") (auto dest!: u32_at_progress)

declare rewrite_sections.simps [simp del]

definition rewriteEmptyImportModuleName :: "byte list \<Rightarrow> nat \<Rightarrow> byte list \<Rightarrow> decode_error + byte list \<times> bool" where
  "rewriteEmptyImportModuleName arr len newName =
     (if len < 8 then Inl ErrTruncatedBinary
      else rbind (sliced SliceBounds arr 0 8) (\<lambda>preamble.
        rbind (rewrite_sections newName arr len 8) (\<lambda>(out, changed). Inr (preamble @ out, changed))))"

subsection \<open>Shims (shim.go)\<close>

record shim_item =
  Sort :: byte
  FromModule :: "byte list"
  FromName :: "byte list"
  ExportName :: "byte list"
  Params :: "byte list"
  Results :: "byte list"
  GlobalType :: byte
  GlobalMutable :: bool

datatype shim_error = NoItems | EmptySourceModule nat | NoValueType nat | UnsupportedSort nat byte

record shim_state =
  typeSec :: "byte list"
  importSec :: "byte list"
  exportSec :: "byte list"
  typeCount :: u32
  importCount :: u32
  exportCount :: u32
  funcIdx :: u32
  tableIdx :: u32
  memIdx :: u32
  globalIdx :: u32

definition empty_shim :: shim_state where
  "empty_shim = \<lparr>typeSec = [], importSec = [], exportSec = [], typeCount = 0, importCount = 0, exportCount = 0,
     funcIdx = 0, tableIdx = 0, memIdx = 0, globalIdx = 0\<rparr>"

definition writeFuncType :: "byte list \<Rightarrow> byte list \<Rightarrow> byte list" where
  "writeFuncType params results =
     0x60 # EncodeUint32 (word_of_nat (length params)) @ params @ EncodeUint32 (word_of_nat (length results)) @ results"

definition writeLimits :: "u32 \<Rightarrow> byte list" where
  "writeLimits m = 0x00 # EncodeUint32 m"

definition prefixCount :: "u32 \<Rightarrow> byte list \<Rightarrow> byte list" where
  "prefixCount count body = EncodeUint32 count @ body"

definition writeSection :: "byte \<Rightarrow> byte list \<Rightarrow> byte list" where
  "writeSection sid body = sid # EncodeUint32 (word_of_nat (length body)) @ body"

text \<open>One round of the loop over the items.\<close>

definition shim_step :: "nat \<Rightarrow> shim_item \<Rightarrow> shim_state \<Rightarrow> shim_error + shim_state" where
  "shim_step i it s =
     (let names = writeName (FromModule it) @ writeName (FromName it) in
      if FromModule it = [] then Inl (EmptySourceModule i)
      else if Sort it = 0x00 then
        Inr (s\<lparr>typeSec := typeSec s @ writeFuncType (Params it) (Results it), typeCount := typeCount s + 1,
               importSec := importSec s @ names @ 0x00 # EncodeUint32 (typeCount s), importCount := importCount s + 1,
               exportSec := exportSec s @ writeName (ExportName it) @ 0x00 # EncodeUint32 (funcIdx s),
               exportCount := exportCount s + 1, funcIdx := funcIdx s + 1\<rparr>)
      else if Sort it = 0x01 then
        Inr (s\<lparr>importSec := importSec s @ names @ [0x01, 0x70] @ writeLimits 0, importCount := importCount s + 1,
               exportSec := exportSec s @ writeName (ExportName it) @ 0x01 # EncodeUint32 (tableIdx s),
               exportCount := exportCount s + 1, tableIdx := tableIdx s + 1\<rparr>)
      else if Sort it = 0x02 then
        Inr (s\<lparr>importSec := importSec s @ names @ [0x02] @ writeLimits 0, importCount := importCount s + 1,
               exportSec := exportSec s @ writeName (ExportName it) @ 0x02 # EncodeUint32 (memIdx s),
               exportCount := exportCount s + 1, memIdx := memIdx s + 1\<rparr>)
      else if Sort it = 0x03 then
        (if GlobalType it = 0 then Inl (NoValueType i)
         else Inr (s\<lparr>importSec := importSec s @ names @ [0x03, GlobalType it, if GlobalMutable it then 0x01 else 0x00],
               importCount := importCount s + 1,
               exportSec := exportSec s @ writeName (ExportName it) @ 0x03 # EncodeUint32 (globalIdx s),
               exportCount := exportCount s + 1, globalIdx := globalIdx s + 1\<rparr>))
      else Inl (UnsupportedSort i (Sort it)))"

primrec shim_loop :: "nat \<Rightarrow> shim_item list \<Rightarrow> shim_state \<Rightarrow> shim_error + shim_state" where
  "shim_loop i [] s = Inr s"
| "shim_loop i (it # items) s = rbind (shim_step i it s) (shim_loop (Suc i) items)"

definition core_preamble :: "byte list" where
  "core_preamble = [0x00, 0x61, 0x73, 0x6d, 0x01, 0x00, 0x00, 0x00]"

definition buildPassthroughShim :: "shim_item list \<Rightarrow> shim_error + byte list" where
  "buildPassthroughShim items =
     (if items = [] then Inl NoItems
      else rbind (shim_loop 0 items empty_shim) (\<lambda>s. Inr (core_preamble @
        (if typeCount s > 0 then writeSection 1 (prefixCount (typeCount s) (typeSec s)) else []) @
        writeSection 2 (prefixCount (importCount s) (importSec s)) @
        writeSection 7 (prefixCount (exportCount s) (exportSec s)))))"

subsection \<open>Core modules as lists of sections\<close>

text \<open>An import is a module name, a field name and the bytes of its descriptor.\<close>

type_synonym core_import = "byte list \<times> byte list \<times> byte list"

datatype core_section = Imports "core_import list" | Section byte "byte list"

fun enc_import :: "core_import \<Rightarrow> byte list" where
  "enc_import (m, f, d) = writeName m @ writeName f @ d"

definition import_section :: "core_import list \<Rightarrow> byte list" where
  "import_section is = EncodeUint32 (word_of_nat (length is)) @ concat (map enc_import is)"

fun enc_section :: "core_section \<Rightarrow> byte list" where
  "enc_section (Imports is) = writeSection 2 (import_section is)"
| "enc_section (Section i body) = writeSection i body"

definition enc_module :: "core_section list \<Rightarrow> byte list" where
  "enc_module secs = core_preamble @ concat (map enc_section secs)"

text \<open>The descriptor of an import, by the grammar of core modules: the index of a function type, the type of a table or of a memory
  with its limits, or the type of a global, a value type and its mutability. A number may be padded.\<close>

definition is_u32 :: "byte list \<Rightarrow> bool" where
  "is_u32 bs \<longleftrightarrow> (\<exists>v. \<forall>rest. LoadUint32 (bs @ rest) = Inr (v, length bs))"

inductive is_limits :: "byte list \<Rightarrow> bool" where
  min_limits: "is_u32 lo \<Longrightarrow> is_limits (0x00 # lo)"
| max_limits: "is_u32 lo \<Longrightarrow> is_u32 hi \<Longrightarrow> is_limits (0x01 # lo @ hi)"

inductive import_desc :: "byte list \<Rightarrow> bool" where
  func_desc: "is_u32 typeidx \<Longrightarrow> import_desc (0x00 # typeidx)"
| table_desc: "reftype \<in> {0x70, 0x6f} \<Longrightarrow> is_limits limits \<Longrightarrow> import_desc (0x01 # reftype # limits)"
| memory_desc: "is_limits limits \<Longrightarrow> import_desc (0x02 # limits)"
| global_desc: "valtype \<in> {0x7f, 0x7e, 0x7d, 0x7c, 0x7b, 0x70, 0x6f} \<Longrightarrow> mut \<in> {0x00, 0x01} \<Longrightarrow> import_desc [0x03, valtype, mut]"

fun import_wf :: "core_import \<Rightarrow> bool" where
  "import_wf (m, f, d) \<longleftrightarrow> import_desc d"

fun section_wf :: "core_section \<Rightarrow> bool" where
  "section_wf (Imports is) \<longleftrightarrow> list_all import_wf is"
| "section_wf (Section i body) \<longleftrightarrow> i \<noteq> 2"

text \<open>What the reader of the code takes for one: it takes exactly these bytes. The other sections may be anything.\<close>

fun import_ok :: "core_import \<Rightarrow> bool" where
  "import_ok (m, f, d) \<longleftrightarrow> encodes skipImportDesc () d"

fun section_ok :: "core_section \<Rightarrow> bool" where
  "section_ok (Imports is) \<longleftrightarrow> list_all import_ok is"
| "section_ok (Section i body) \<longleftrightarrow> i \<noteq> 2"

fun rename_import :: "byte list \<Rightarrow> core_import \<Rightarrow> core_import" where
  "rename_import new (m, f, d) = (if m = [] then new else m, f, d)"

fun rename_section :: "byte list \<Rightarrow> core_section \<Rightarrow> core_section" where
  "rename_section new (Imports is) = Imports (map (rename_import new) is)"
| "rename_section new (Section i body) = Section i body"

fun unnamed_import :: "core_import \<Rightarrow> bool" where
  "unnamed_import (m, f, d) \<longleftrightarrow> m = []"

fun unnamed_section :: "core_section \<Rightarrow> bool" where
  "unnamed_section (Imports is) \<longleftrightarrow> list_ex unnamed_import is"
| "unnamed_section (Section i body) \<longleftrightarrow> False"

lemma encodes_coreName: "length m < 2 ^ 32 \<Longrightarrow> encodes readCoreWasmName m (writeName m)"
  unfolding readCoreWasmName_def writeName_def
  by (rule encodes_bind [OF encodes_u32]) (simp add: encodes_def unat_of_nat)

lemma encodes_skip: "length bs = n \<Longrightarrow> encodes (rd_skip n) () bs"
  by (simp add: encodes_def rd_skip_def)

lemma rewrite_imports_encoded:
  "list_all import_ok is \<Longrightarrow> list_all (\<lambda>(m, f, d). length m < 2 ^ 32 \<and> length f < 2 ^ 32) is \<Longrightarrow>
   len = length pre + length (concat (map enc_import is)) + length tail \<Longrightarrow>
   rewrite_imports (length is) new (pre @ concat (map enc_import is) @ tail @ spare) len (length pre) =
     Inr (concat (map (enc_import \<circ> rename_import new) is), list_ex unnamed_import is)"
proof (induction "is" arbitrary: pre)
  case (Cons i "is")
  obtain m f d where i: "i = (m, f, d)" by (cases i)
  let ?rest = "concat (map enc_import is) @ tail"
  let ?arr = "pre @ writeName m @ writeName f @ d @ ?rest @ spare"
  have take: "take len ?arr = pre @ writeName m @ writeName f @ d @ ?rest" using Cons.prems(3) i by simp
  have "readCoreWasmName (take len ?arr) (length pre) = Inr (m, length pre + length (writeName m))"
    using encodesD [OF encodes_coreName [of m], of pre] Cons.prems(2) i unfolding take by simp
  moreover have "readCoreWasmName (take len ?arr) (length pre + length (writeName m)) =
      Inr (f, length pre + length (writeName m) + length (writeName f))"
    using encodesD [OF encodes_coreName [of f], of "pre @ writeName m"] Cons.prems(2) i unfolding take by simp
  moreover have "skipImportDesc (take len ?arr) (length pre + length (writeName m) + length (writeName f)) =
      Inr ((), length pre + length (writeName m) + length (writeName f) + length d)"
    using encodesD [of skipImportDesc "()" d "pre @ writeName m @ writeName f"] Cons.prems(1) i unfolding take by (simp add: add.assoc)
  moreover have "rewrite_imports (length is) new ?arr len (length pre + length (writeName m) + length (writeName f) + length d) =
      Inr (concat (map (enc_import \<circ> rename_import new) is), list_ex unnamed_import is)"
    using Cons.IH [of "pre @ writeName m @ writeName f @ d"] Cons.prems i by (simp add: add.assoc o_def)
  ultimately show ?case by (simp add: i o_def)
qed simp

lemma writeName_nonempty [simp]: "writeName m \<noteq> []" "length m \<le> length (writeName m)"
  using encodes_nonempty [OF encodes_u32 reads_u32] by (simp_all add: writeName_def)

lemma names_short:
  "length (concat (map enc_import is)) < n \<Longrightarrow> list_all (\<lambda>(m, f, d). length m < n \<and> length f < n) is"
  by (induction "is") (auto intro: le_less_trans [OF writeName_nonempty(2)])

lemma imports_counted: "length is \<le> length (concat (map enc_import is))"
proof (induction "is")
  case (Cons i "is")
  have "enc_import i \<noteq> []" by (cases i) simp
  with Cons.IH show ?case by (cases "enc_import i") simp_all
qed simp

lemma rewrite_import_section:
  assumes "list_all import_ok is" "length (import_section is) < 2 ^ 32"
  shows "rewriteImportSectionBody new (import_section is @ spare) (length (import_section is)) =
    Inr (import_section (map (rename_import new) is), list_ex unnamed_import is)"
proof -
  let ?c = "word_of_nat (length is) :: u32"
  have short: "length (concat (map enc_import is)) < 2 ^ 32" using assms(2) by (simp add: import_section_def)
  then have count: "unat ?c = length is" using imports_counted [of "is"] by (simp add: unat_of_nat)
  have "u32_at (import_section is) 0 = Inr (?c, length (EncodeUint32 ?c))"
    using encodesD [OF encodes_u32, of "[]" ?c] by (simp add: import_section_def)
  moreover have "rewrite_imports (length is) new (import_section is @ spare) (length (import_section is)) (length (EncodeUint32 ?c)) =
      Inr (concat (map (enc_import \<circ> rename_import new) is), list_ex unnamed_import is)"
    using rewrite_imports_encoded [OF assms(1) names_short [OF short], of "length (import_section is)" "EncodeUint32 ?c" "[]" new spare]
    by (simp add: import_section_def)
  ultimately show ?thesis by (simp add: rewriteImportSectionBody_def count import_section_def)
qed

lemma rewrite_sections_encoded:
  assumes "list_all section_ok secs" "length (concat (map enc_section secs)) < 2 ^ 32"
    "len = length pre + length (concat (map enc_section secs))"
  shows "rewrite_sections new (pre @ concat (map enc_section secs) @ spare) len (length pre) =
    Inr (concat (map (enc_section \<circ> rename_section new) secs), list_ex unnamed_section secs)"
  using assms
proof (induction secs arbitrary: pre)
  case Nil
  then show ?case by (simp add: rewrite_sections.simps)
next
  case (Cons sec secs)
  define i where "i = (case sec of Imports _ \<Rightarrow> 2 | Section i _ \<Rightarrow> i)"
  define body where "body = (case sec of Imports is \<Rightarrow> import_section is | Section _ body \<Rightarrow> body)"
  define sz :: u32 where "sz = word_of_nat (length body)"
  define rest where "rest = concat (map enc_section secs)"
  have sec: "enc_section sec = i # EncodeUint32 sz @ body"
    by (cases sec) (simp_all add: i_def body_def sz_def writeSection_def)
  have sz: "unat sz = length body" using Cons.prems(2) by (simp add: sec sz_def unat_of_nat)
  let ?pre = "pre @ [i] @ EncodeUint32 sz" and ?tail = "Inr (concat (map (enc_section \<circ> rename_section new) secs), list_ex unnamed_section secs)"
  let ?arr = "?pre @ body @ rest @ spare"
  have len: "len = length ?pre + length body + length rest" using Cons.prems(3) by (simp add: sec rest_def)
  have "take len ?arr = ?pre @ body @ rest" by (simp add: len)
  then have u: "u32_at (take len ?arr) (Suc (length pre)) = Inr (sz, length ?pre)"
    using encodesD [OF encodes_u32, of "pre @ [i]" sz "body @ rest"] by simp
  have IH: "rewrite_sections new ?arr len (length ?pre + length body) = ?tail"
    using Cons.IH [of "?pre @ body"] Cons.prems len by (simp add: rest_def sec o_def add.assoc)
  have "rewrite_sections new ?arr len (length pre) =
      Inr (concat (map (enc_section \<circ> rename_section new) (sec # secs)), list_ex unnamed_section (sec # secs))"
  proof (cases sec)
    case (Section j b)
    then have "i \<noteq> 2" "i = j" "body = b" using Cons.prems(1) by (simp_all add: i_def body_def)
    with Section u IH sz len show ?thesis
      by (subst rewrite_sections.simps) (simp add: nth_append writeSection_def sz_def o_def)
  next
    case (Imports "is")
    then have i2: "i = 2" and body: "body = import_section is" by (simp_all add: i_def body_def)
    have "rewriteImportSectionBody new (body @ rest @ spare) (unat sz) =
        Inr (import_section (map (rename_import new) is), list_ex unnamed_import is)"
      using rewrite_import_section [of "is" new "rest @ spare"] Cons.prems(1,2) Imports by (simp add: sz body writeSection_def)
    with Imports u IH sz len i2 show ?thesis
      by (subst rewrite_sections.simps) (simp add: nth_append writeSection_def o_def)
  qed
  then show ?case by (simp add: sec rest_def o_def)
qed

lemma rewrite_encoded:
  assumes "list_all section_ok secs" "length (enc_module secs) < 2 ^ 32"
  shows "rewriteEmptyImportModuleName (enc_module secs @ spare) (length (enc_module secs)) new =
    Inr (enc_module (map (rename_section new) secs), list_ex unnamed_section secs)"
proof -
  have pre: "length core_preamble = 8" by (simp add: core_preamble_def)
  then show ?thesis
    using rewrite_sections_encoded [of secs "length (enc_module secs)" core_preamble new spare] assms
    by (simp add: rewriteEmptyImportModuleName_def enc_module_def o_def)
qed

text \<open>The code skips each descriptor of the grammar, and no more.\<close>

lemma is_u32_encodes: "is_u32 bs \<Longrightarrow> \<exists>v. encodes u32_at v bs"
  unfolding is_u32_def using encodes_leb [of LoadUint32 bs] by blast

lemma encodes_is_u32: "is_u32 bs \<Longrightarrow> encodes (rd_map (\<lambda>_. ()) u32_at) () bs"
  using is_u32_encodes [of bs] encodes_map [of u32_at _ bs "\<lambda>_. ()" "()"] by blast

lemma is_u32_Encode: "is_u32 (EncodeUint32 v)"
  using encodes_u32 [of v] LoadUint32_EncodeUint32 by (auto simp: is_u32_def)

lemma encodes_limits: "is_limits bs \<Longrightarrow> encodes skipLimits () bs"
proof (induction rule: is_limits.induct)
  case (min_limits lo)
  then obtain v where "encodes u32_at v lo" using is_u32_encodes by blast
  from encodes_bind [OF this encodes_ret [of "()"]] show ?case
    unfolding skipLimits_def by (intro encodes_byte_then) simp
next
  case (max_limits lo hi)
  then obtain v where "encodes u32_at v lo" using is_u32_encodes by blast
  from encodes_bind [OF this encodes_is_u32 [OF max_limits(2)]] show ?case
    unfolding skipLimits_def by (intro encodes_byte_then) simp
qed

lemma encodes_import_desc: "import_desc d \<Longrightarrow> encodes skipImportDesc () d"
proof (induction rule: import_desc.induct)
  case (table_desc reftype limits)
  from encodes_bind [OF encodes_skip [of "[reftype]" 1] encodes_limits [OF table_desc(2)]] show ?case
    unfolding skipImportDesc_def by (intro encodes_byte_then) simp
qed (unfold skipImportDesc_def, (rule encodes_byte_then; simp add: encodes_is_u32 encodes_limits encodes_skip)+)

lemma section_wf_ok: "section_wf sec \<Longrightarrow> section_ok sec"
  by (cases sec) (auto simp: list_all_iff encodes_import_desc)

lemma encodes_skipImportDesc:
  "encodes skipImportDesc () (0x00 # EncodeUint32 t)" "encodes skipImportDesc () (0x02 # writeLimits n)"
  "encodes skipImportDesc () (0x01 # e # writeLimits n)" "encodes skipImportDesc () [0x03, v, m]"
proof -
  have limits: "encodes skipLimits () (writeLimits n)" for n
    using encodes_bind [OF encodes_u32 [of n] encodes_ret [of "()"]] unfolding skipLimits_def writeLimits_def
    by (intro encodes_byte_then) simp
  show "encodes skipImportDesc () (0x00 # EncodeUint32 t)" "encodes skipImportDesc () (0x02 # writeLimits n)"
    "encodes skipImportDesc () [0x03, v, m]"
    unfolding skipImportDesc_def by (rule encodes_byte_then; simp add: encodes_map [OF encodes_u32] limits encodes_skip)+
  show "encodes skipImportDesc () (0x01 # e # writeLimits n)"
    using encodes_bind [OF encodes_skip [of "[e]" 1] limits [of n]] unfolding skipImportDesc_def by (intro encodes_byte_then) simp
qed

text \<open>C20. Only the missing names change: on a well-formed core module, whose sizes and counts are written without padding, the rewriter
  gives each import without a module name the new one and leaves all other imports, their order, the descriptors and all other
  sections as they are; it reports a change exactly when there was such an import, whatever bytes lie behind the module in its array.\<close>

theorem rewrite_changes_names_only:
  assumes "list_all section_wf secs" "length (enc_module secs) < 2 ^ 32"
  shows "rewriteEmptyImportModuleName (enc_module secs @ spare) (length (enc_module secs)) new =
    Inr (enc_module (map (rename_section new) secs), list_ex unnamed_section secs)"
  by (rule rewrite_encoded [OF _ assms(2)]) (use assms(1) in \<open>auto simp: list_all_iff section_wf_ok\<close>)

definition sample_module :: "core_section list" where
  "sample_module = [Section 1 [0x01, 0x60, 0x00, 0x00],
     Imports [([], [0x66], [0x00, 0x00]), ([0x6d], [], [0x02, 0x00, 0x01]), ([], [0x67], [0x03, 0x7f, 0x01])], Section 8 [0x00]]"

lemma EncodeUint32_small: "EncodeUint32 0 = [0]" "EncodeUint32 1 = [1]"
  by code_simp+

theorem rewrite_changes_names_only_witness:
  "rewriteEmptyImportModuleName (enc_module sample_module @ [0xff]) (length (enc_module sample_module)) [0x78] =
     Inr (enc_module (map (rename_section [0x78]) sample_module), True)"
proof -
  have "list_all section_wf sample_module"
    using func_desc [OF is_u32_Encode [of 0]] memory_desc [OF min_limits [OF is_u32_Encode [of 1]]] global_desc [where valtype = "0x7f" and mut = 1]
    by (simp add: sample_module_def EncodeUint32_small)
  moreover have "length (enc_module sample_module) = 37" by code_simp
  ultimately show ?thesis using rewrite_changes_names_only [of sample_module "[0xff]" "[0x78]"] by (simp add: sample_module_def)
qed

subsection \<open>What a shim is\<close>

definition sort_count :: "byte \<Rightarrow> shim_item list \<Rightarrow> nat" where
  "sort_count k items = length (filter (\<lambda>it. Sort it = k) items)"

definition shim_desc :: "u32 \<Rightarrow> shim_item \<Rightarrow> byte list" where
  "shim_desc t it =
     (if Sort it = 0x00 then 0x00 # EncodeUint32 t
      else if Sort it = 0x01 then 0x01 # 0x70 # writeLimits 0
      else if Sort it = 0x02 then 0x02 # writeLimits 0
      else [0x03, GlobalType it, if GlobalMutable it then 0x01 else 0x00])"

text \<open>The imports and exports of a shim; \<open>before\<close> are the items in front. A function has the type with its own number, and
  each export names the item of its sort that was imported at the same place.\<close>

fun shim_imports :: "shim_item list \<Rightarrow> shim_item list \<Rightarrow> core_import list" where
  "shim_imports before [] = []"
| "shim_imports before (it # items) =
     (FromModule it, FromName it, shim_desc (word_of_nat (sort_count 0 before)) it) # shim_imports (before @ [it]) items"

fun shim_exports :: "shim_item list \<Rightarrow> shim_item list \<Rightarrow> (byte list \<times> byte \<times> u32) list" where
  "shim_exports before [] = []"
| "shim_exports before (it # items) =
     (ExportName it, Sort it, word_of_nat (sort_count (Sort it) before)) # shim_exports (before @ [it]) items"

fun enc_export :: "byte list \<times> byte \<times> u32 \<Rightarrow> byte list" where
  "enc_export (n, k, i) = writeName n @ k # EncodeUint32 i"

definition shim_types :: "shim_item list \<Rightarrow> byte list" where
  "shim_types items = concat (map (\<lambda>it. writeFuncType (Params it) (Results it)) (filter (\<lambda>it. Sort it = 0) items))"

definition shim_sections :: "shim_item list \<Rightarrow> core_section list" where
  "shim_sections items =
     (if sort_count 0 items > 0 then [Section 1 (prefixCount (word_of_nat (sort_count 0 items)) (shim_types items))] else []) @
     [Imports (shim_imports [] items), Section 7 (prefixCount (word_of_nat (length items)) (concat (map enc_export (shim_exports [] items))))]"

definition item_ok :: "shim_item \<Rightarrow> bool" where
  "item_ok it \<longleftrightarrow> FromModule it \<noteq> [] \<and> Sort it \<in> {0, 1, 2, 3} \<and> (Sort it = 3 \<longrightarrow> GlobalType it \<noteq> 0)"

lemma shim_lists_append:
  "shim_imports before (xs @ ys) = shim_imports before xs @ shim_imports (before @ xs) ys"
  "shim_exports before (xs @ ys) = shim_exports before xs @ shim_exports (before @ xs) ys"
  by (induction xs arbitrary: before) simp_all

lemma length_shim_lists [simp]:
  "length (shim_imports before items) = length items" "length (shim_exports before items) = length items"
  by (induction items arbitrary: before) simp_all

lemma shim_exports_nth:
  "i < length items \<Longrightarrow> shim_exports before items ! i =
     (ExportName (items ! i), Sort (items ! i), word_of_nat (sort_count (Sort (items ! i)) (before @ take i items)))"
  by (induction items arbitrary: before i) (simp_all add: nth_Cons split: nat.split)

definition shim_of :: "shim_item list \<Rightarrow> shim_state" where
  "shim_of items = \<lparr>typeSec = shim_types items, importSec = concat (map enc_import (shim_imports [] items)),
     exportSec = concat (map enc_export (shim_exports [] items)), typeCount = word_of_nat (sort_count 0 items),
     importCount = word_of_nat (length items), exportCount = word_of_nat (length items), funcIdx = word_of_nat (sort_count 0 items),
     tableIdx = word_of_nat (sort_count 1 items), memIdx = word_of_nat (sort_count 2 items), globalIdx = word_of_nat (sort_count 3 items)\<rparr>"

lemma shim_step_of: "item_ok it \<Longrightarrow> shim_step i it (shim_of items) = Inr (shim_of (items @ [it]))"
proof -
  assume ok: "item_ok it"
  from ok consider "Sort it = 0" | "Sort it = 1" | "Sort it = 2" | "Sort it = 3" by (auto simp: item_ok_def)
  then show ?thesis
    using ok by cases (simp_all add: item_ok_def shim_step_def shim_of_def shim_lists_append sort_count_def shim_types_def shim_desc_def
      add.commute [of 1])
qed

lemma shim_loop_of: "list_all item_ok items \<Longrightarrow> shim_loop i items (shim_of before) = Inr (shim_of (before @ items))"
  by (induction items arbitrary: i before) (simp_all add: shim_step_of)

lemma shim_imports_ok: "list_all item_ok items \<Longrightarrow> list_all import_ok (shim_imports before items)"
  by (induction items arbitrary: before) (auto simp: shim_desc_def encodes_skipImportDesc)

lemma shim_imports_named: "list_all item_ok items \<Longrightarrow> \<not> list_ex unnamed_import (shim_imports before items)"
  by (induction items arbitrary: before) (auto simp: item_ok_def)

lemma rename_named: "\<not> unnamed_section sec \<Longrightarrow> rename_section new sec = sec"
  by (cases sec) (auto simp: list_ex_iff intro!: map_idI elim!: ballE)

text \<open>The item that an export of a shim names.\<close>

lemma nth_of_sort:
  "i < length items \<Longrightarrow>
   sort_count (Sort (items ! i)) (take i items) < sort_count (Sort (items ! i)) items \<and>
   filter (\<lambda>it. Sort it = Sort (items ! i)) items ! sort_count (Sort (items ! i)) (take i items) = items ! i"
proof -
  assume i: "i < length items"
  have "filter P items = filter P (take i items) @ items ! i # filter P (drop (Suc i) items)" if "P (items ! i)" for P
    using that by (subst id_take_nth_drop [OF i]) (simp only: filter_append filter.simps if_True)
  from this [of "\<lambda>it. Sort it = Sort (items ! i)"] show ?thesis by (simp add: sort_count_def nth_append)
qed

text \<open>C21. A shim passes its items on, and nothing else: the module has a function type for each function, imports each item under its
  source name with a descriptor that the import reader accepts, and exports it under its own name with the index that the
  import of the very same item has among those of its sort. The rewriter of empty module names leaves it byte for byte alone.\<close>

theorem shim_reexports:
  assumes "items \<noteq> []" "list_all item_ok items" "length (enc_module (shim_sections items)) < 2 ^ 32"
  shows "buildPassthroughShim items = Inr (enc_module (shim_sections items)) \<and>
    list_all section_ok (shim_sections items) \<and>
    (\<forall>i<length items. \<exists>k. shim_exports [] items ! i = (ExportName (items ! i), Sort (items ! i), word_of_nat k) \<and>
       k < sort_count (Sort (items ! i)) items \<and> filter (\<lambda>it. Sort it = Sort (items ! i)) items ! k = items ! i) \<and>
    rewriteEmptyImportModuleName (enc_module (shim_sections items) @ spare) (length (enc_module (shim_sections items))) new =
      Inr (enc_module (shim_sections items), False)"
proof -
  have "length (concat (map enc_import (shim_imports [] items))) < 2 ^ 32"
    using assms(3) by (simp add: enc_module_def shim_sections_def writeSection_def import_section_def)
  then have "length items < 2 ^ 32" using imports_counted [of "shim_imports [] items"] by simp
  moreover have "sort_count 0 items \<le> length items" by (simp add: sort_count_def)
  ultimately have "sort_count 0 items < 2 ^ 32" by linarith
  then have count: "(word_of_nat (sort_count 0 items) :: u32) > 0 \<longleftrightarrow> sort_count 0 items > 0"
    by (simp add: word_greater_zero_iff unat_of_nat flip: unat_eq_zero)
  have "shim_loop 0 items empty_shim = Inr (shim_of items)"
    using shim_loop_of [OF assms(2), of 0 "[]"] by (simp add: shim_of_def empty_shim_def shim_types_def sort_count_def)
  then have build: "buildPassthroughShim items = Inr (enc_module (shim_sections items))"
    using assms(1) count
    by (simp add: buildPassthroughShim_def enc_module_def shim_sections_def shim_of_def prefixCount_def import_section_def)
  have ok: "list_all section_ok (shim_sections items)" and named: "\<not> list_ex unnamed_section (shim_sections items)"
    using shim_imports_ok [OF assms(2)] shim_imports_named [OF assms(2)] by (simp_all add: shim_sections_def)
  then have "map (rename_section new) (shim_sections items) = shim_sections items"
    by (intro map_idI rename_named) (auto simp: list_ex_iff)
  then have "rewriteEmptyImportModuleName (enc_module (shim_sections items) @ spare) (length (enc_module (shim_sections items))) new =
      Inr (enc_module (shim_sections items), False)"
    using rewrite_encoded [OF ok assms(3)] named by simp
  moreover have "\<exists>k. shim_exports [] items ! i = (ExportName (items ! i), Sort (items ! i), word_of_nat k) \<and>
      k < sort_count (Sort (items ! i)) items \<and> filter (\<lambda>it. Sort it = Sort (items ! i)) items ! k = items ! i" if "i < length items" for i
    using shim_exports_nth [OF that, of "[]"] nth_of_sort [OF that] by auto
  ultimately show ?thesis using build ok by blast
qed

definition sample_shim :: "shim_item list" where
  "sample_shim =
    [\<lparr>Sort = 2, FromModule = [0x61], FromName = [0x6d], ExportName = [], Params = [], Results = [], GlobalType = 0, GlobalMutable = False\<rparr>,
     \<lparr>Sort = 0, FromModule = [0x62], FromName = [], ExportName = [0x66], Params = [0x7f], Results = [], GlobalType = 0, GlobalMutable = False\<rparr>,
     \<lparr>Sort = 3, FromModule = [0x61], FromName = [0x67], ExportName = [0x67], Params = [], Results = [], GlobalType = 0x7f, GlobalMutable = True\<rparr>]"

theorem shim_reexports_witness:
  "buildPassthroughShim sample_shim = Inr (enc_module (shim_sections sample_shim))"
proof -
  have "length (enc_module (shim_sections sample_shim)) = 51" by code_simp
  then show ?thesis using shim_reexports [of sample_shim "[]" "[]"] by (simp add: sample_shim_def item_ok_def)
qed

subsection \<open>Malformed modules\<close>

text \<open>The descriptor of a global is skipped without a look at the end of the section: one that is cut off takes the first bytes of
  the next section as its own, and at the end of the array the slice panics.\<close>

definition cut_global :: "byte list" where
  "cut_global = core_preamble @ [0x02, 0x05, 0x01, 0x01, 0x6d, 0x00, 0x03]"

lemma cut_global_overruns:
  "rewriteEmptyImportModuleName (cut_global @ [0x08, 0x01, 0x00]) 18 [0x78] =
     Inr (core_preamble @ [0x02, 0x07, 0x01, 0x01, 0x6d, 0x00, 0x03, 0x08, 0x01] @ [0x08, 0x01, 0x00], False)"
  by code_simp

lemma cut_global_panics: "rewriteEmptyImportModuleName cut_global 15 [0x78] = Inl SliceBounds"
  by code_simp

text \<open>A module in which nothing is renamed is not always copied byte for byte: a size in more bytes than it needs is written anew.\<close>

lemma padded_size_rewritten:
  "rewriteEmptyImportModuleName (core_preamble @ [0x00, 0x80, 0x00]) 11 [0x78] = Inr (core_preamble @ [0x00, 0x00], False)"
  by code_simp

end
