(* ===== verification/Type_Table.thy ===== *)
theory Type_Table
  imports Flatten
begin

section \<open>The type table of a host signature\<close>

text \<open>
  \<open>typetable.go\<close> and \<open>Prim\<close> of \<open>types.go\<close>: the table in which an embedder builds the types of a host function. Each
  method appends a descriptor and returns the reference to it, so a table that is built by the methods alone has references to
  earlier entries only. What the theorems show of such tables is what the ABI code needs and does not check by
  itself: every reference resolves, and flattening ends.
\<close>

subsection \<open>The methods\<close>

type_synonym type_table = "type_desc option list"

definition NewTypeTable :: type_table where
  "NewTypeTable = []"

definition Prim :: "string \<Rightarrow> type_ref" where
  "Prim name = \<lparr>Primitive = name, TypeIndex = None\<rparr>"

text \<open>\<open>TypeRef{}\<close>\<close>

definition zero_ref :: type_ref where
  "zero_ref = \<lparr>Primitive = '''', TypeIndex = None\<rparr>"

definition table_Add :: "type_desc option \<Rightarrow> type_table \<Rightarrow> type_ref \<times> type_table" where
  "table_Add td t = (case td of
     Some (PrimitiveDesc p) \<Rightarrow> (\<lparr>Primitive = p, TypeIndex = None\<rparr>, t)
   | _ \<Rightarrow> (\<lparr>Primitive = '''', TypeIndex = Some (word_of_nat (length t))\<rparr>, t @ [td]))"

definition table_Resolver :: "type_table \<Rightarrow> resolver" where
  "table_Resolver t = Some (\<lambda>idx. if unat idx \<ge> length t then None else t ! unat idx)"

definition table_List :: "type_ref \<Rightarrow> type_table \<Rightarrow> type_ref \<times> type_table" where
  "table_List elem = table_Add (Some (ListDesc elem))"

definition table_Option :: "type_ref \<Rightarrow> type_table \<Rightarrow> type_ref \<times> type_table" where
  "table_Option elem = table_Add (Some (OptionDesc elem))"

definition optional_ref :: "type_ref \<Rightarrow> type_ref option" where
  "optional_ref ref = (if ref \<noteq> zero_ref then Some ref else None)"

definition table_Result :: "type_ref \<Rightarrow> type_ref \<Rightarrow> type_table \<Rightarrow> type_ref \<times> type_table" where
  "table_Result okr errr = table_Add (Some (ResultDesc (optional_ref okr) (optional_ref errr)))"

definition table_Tuple :: "type_ref list \<Rightarrow> type_table \<Rightarrow> type_ref \<times> type_table" where
  "table_Tuple elems = table_Add (Some (TupleDesc elems))"

text \<open>The arguments of \<open>Record\<close> are of any type.\<close>

datatype any_arg = AnyString string | AnyRef type_ref | AnyOther

fun record_fields :: "any_arg list \<Rightarrow> abi_error + record_field list" where
  "record_fields [] = Inr []"
| "record_fields [_] = Inl (Panic ''Record expects alternating name, type pairs'')"
| "record_fields (n # r # rest) =
     (case n of AnyString name \<Rightarrow>
        (case r of AnyRef ref \<Rightarrow> rbind (record_fields rest) (\<lambda>fs. Inr (\<lparr>FieldName = name, FieldType = ref\<rparr> # fs))
         | _ \<Rightarrow> Inl (Panic ''Record: expected a TypeRef''))
      | _ \<Rightarrow> Inl (Panic ''Record: expected a field name string''))"

definition table_Record :: "any_arg list \<Rightarrow> type_table \<Rightarrow> abi_error + type_ref \<times> type_table" where
  "table_Record args t =
     (if length args mod 2 \<noteq> 0 then Inl (Panic ''Record expects alternating name, type pairs'')
      else rbind (record_fields args) (\<lambda>fs. Inr (table_Add (Some (RecordDesc fs)) t)))"

record variant_case_spec =
  Spec_Name :: string
  Spec_Type :: type_ref

definition table_Variant :: "variant_case_spec list \<Rightarrow> type_table \<Rightarrow> type_ref \<times> type_table" where
  "table_Variant cs = table_Add (Some (VariantDesc (map (\<lambda>c. \<lparr>CaseName = Spec_Name c, CaseType = optional_ref (Spec_Type c)\<rparr>) cs)))"

definition table_Enum :: "string list \<Rightarrow> type_table \<Rightarrow> type_ref \<times> type_table" where
  "table_Enum cs = table_Add (Some (EnumDesc cs))"

definition table_Flags :: "string list \<Rightarrow> type_table \<Rightarrow> type_ref \<times> type_table" where
  "table_Flags names = table_Add (Some (FlagsDesc names))"

definition table_Own :: "u32 \<Rightarrow> type_table \<Rightarrow> type_ref \<times> type_table" where
  "table_Own tag = table_Add (Some (OwnDesc tag))"

definition table_Borrow :: "u32 \<Rightarrow> type_table \<Rightarrow> type_ref \<times> type_table" where
  "table_Borrow tag = table_Add (Some (BorrowDesc tag))"

text \<open>\<open>itoa\<close> for a number that is not negative; \<open>n\<close> is how much of the buffer of eight bytes is free.\<close>

primrec itoa_loop :: "nat \<Rightarrow> nat \<Rightarrow> string \<Rightarrow> abi_error + string" where
  "itoa_loop 0 i acc = (if i > 0 then Inl (Panic ''index out of range [-1]'') else Inr acc)"
| "itoa_loop (Suc n) i acc =
     (if i > 0 then itoa_loop n (i div 10) (char_of (48 + i mod 10) # acc) else Inr acc)"

definition itoa :: "nat \<Rightarrow> abi_error + string" where
  "itoa i = (if i = 0 then Inr ''0'' else itoa_loop 8 i [])"

definition paramName :: "nat \<Rightarrow> abi_error + string" where
  "paramName i = rbind (itoa i) (\<lambda>s. Inr (CHR ''p'' # s))"

primrec func_params :: "nat \<Rightarrow> type_ref list \<Rightarrow> abi_error + func_param list" where
  "func_params i [] = Inr []"
| "func_params i (p # ps) = rbind (paramName i) (\<lambda>n.
     rbind (func_params (Suc i) ps) (\<lambda>rest. Inr (\<lparr>ParamName = n, ParamType = p\<rparr> # rest)))"

definition table_Func :: "type_ref list \<Rightarrow> type_ref \<Rightarrow> abi_error + func_desc" where
  "table_Func params result =
     rbind (func_params 0 params) (\<lambda>ps.
       Inr \<lparr>Params = ps, Results = \<lparr>Unnamed = optional_ref result, Named = []\<rparr>, Async = False\<rparr>)"

subsection \<open>Tables that are built by the methods\<close>

definition ref_below :: "nat \<Rightarrow> type_ref \<Rightarrow> bool" where
  "ref_below n ref \<longleftrightarrow> Primitive ref \<noteq> '''' \<or> (\<exists>i. TypeIndex ref = Some i \<and> unat i < n)"

abbreviation optional_below :: "nat \<Rightarrow> type_ref \<Rightarrow> bool" where
  "optional_below n ref \<equiv> ref = zero_ref \<or> ref_below n ref"

text \<open>One method call with references to entries that are there.\<close>

inductive table_step :: "type_table \<Rightarrow> type_ref \<times> type_table \<Rightarrow> bool" where
  step_List: "ref_below (length t) e \<Longrightarrow> table_step t (table_List e t)"
| step_Option: "ref_below (length t) e \<Longrightarrow> table_step t (table_Option e t)"
| step_Result: "optional_below (length t) a \<Longrightarrow> optional_below (length t) b \<Longrightarrow> table_step t (table_Result a b t)"
| step_Tuple: "list_all (ref_below (length t)) es \<Longrightarrow> table_step t (table_Tuple es t)"
| step_Record: "table_Record args t = Inr r \<Longrightarrow> (\<And>e. AnyRef e \<in> set args \<Longrightarrow> ref_below (length t) e) \<Longrightarrow> table_step t r"
| step_Variant: "list_all (\<lambda>c. optional_below (length t) (Spec_Type c)) cs \<Longrightarrow> table_step t (table_Variant cs t)"
| step_Enum: "table_step t (table_Enum ns t)"
| step_Flags: "table_step t (table_Flags ns t)"
| step_Own: "table_step t (table_Own tag t)"
| step_Borrow: "table_step t (table_Borrow tag t)"

inductive built :: "type_table \<Rightarrow> bool" where
  built_new: "built NewTypeTable"
| built_step: "built t \<Longrightarrow> length t < 2 ^ 32 \<Longrightarrow> table_step t (ref, t') \<Longrightarrow> built t'"

text \<open>The references of a descriptor, and a table in which they all name earlier entries.\<close>

fun desc_refs :: "type_desc \<Rightarrow> type_ref set" where
  "desc_refs (ListDesc e) = {e}"
| "desc_refs d = inline_refs d"

definition refs_below :: "nat \<Rightarrow> type_desc option \<Rightarrow> bool" where
  "refs_below n td \<longleftrightarrow> (\<exists>d. td = Some d \<and> (\<forall>ref\<in>desc_refs d. ref_below n ref))"

definition earlier_refs :: "type_table \<Rightarrow> bool" where
  "earlier_refs t \<longleftrightarrow> (\<forall>i<length t. refs_below i (t ! i))"

lemma ref_below_mono: "ref_below m ref \<Longrightarrow> m \<le> n \<Longrightarrow> ref_below n ref"
  by (auto simp: ref_below_def)

lemma earlier_refs_append: "earlier_refs t \<Longrightarrow> refs_below (length t) td \<Longrightarrow> earlier_refs (t @ [td])"
  by (auto simp: earlier_refs_def nth_append less_Suc_eq)

lemma optional_ref_Some [simp]: "optional_ref ref = Some r \<longleftrightarrow> ref = r \<and> ref \<noteq> zero_ref"
  by (auto simp: optional_ref_def)

lemma record_fields_refs: "record_fields args = Inr fs \<Longrightarrow> f \<in> set fs \<Longrightarrow> AnyRef (FieldType f) \<in> set args"
proof (induction args arbitrary: fs rule: record_fields.induct)
  case (3 n r rest)
  from 3(2) obtain name ref fs' where "n = AnyString name" "r = AnyRef ref" "record_fields rest = Inr fs'"
    "fs = \<lparr>FieldName = name, FieldType = ref\<rparr> # fs'"
    by (auto simp: rbind_eq_Inr split: any_arg.splits)
  with 3 show ?case by auto
qed simp_all

text \<open>Each method appends one descriptor whose references are below it.\<close>

lemma table_step_appends:
  assumes "table_step t r"
  shows "\<exists>td. refs_below (length t) td \<and> r = (\<lparr>Primitive = '''', TypeIndex = Some (word_of_nat (length t))\<rparr>, t @ [td])"
  using assms
proof cases
  case (step_Record args)
  then obtain fs where fs: "record_fields args = Inr fs" and r: "r = table_Add (Some (RecordDesc fs)) t"
    by (auto simp: table_Record_def rbind_eq_Inr split: if_splits)
  have "refs_below (length t) (Some (RecordDesc fs))"
    using record_fields_refs [OF fs] step_Record(2) by (auto simp: refs_below_def)
  with r show ?thesis by (auto simp: table_Add_def)
qed (auto simp: table_List_def table_Option_def table_Result_def table_Tuple_def table_Variant_def table_Enum_def table_Flags_def
  table_Own_def table_Borrow_def table_Add_def refs_below_def list_all_iff case_refs_def)

lemma built_earlier_refs: "built t \<Longrightarrow> earlier_refs t"
  by (induction rule: built.induct)
    (auto simp: NewTypeTable_def earlier_refs_def [of "[]"] dest!: table_step_appends intro: earlier_refs_append)

subsection \<open>What the ABI code can rely on\<close>

lemma resolve_below:
  assumes "earlier_refs t" "ref_below n ref" "n \<le> length t"
  obtains (prim) p where "Primitive ref \<noteq> ''''" "resolveType (Some ref) (table_Resolver t) = Inr (Some (PrimitiveDesc p))"
  | (entry) i d where "Primitive ref = ''''" "TypeIndex ref = Some i" "unat i < n" "table_Resolver t = Some (\<lambda>idx. if unat idx \<ge> length t then None else t ! unat idx)"
    "t ! unat i = Some d" "refs_below (unat i) (Some d)" "resolveType (Some ref) (table_Resolver t) = Inr (Some d)"
proof (cases "Primitive ref = ''''")
  case True
  with assms(2) obtain i where i: "TypeIndex ref = Some i" "unat i < n" by (auto simp: ref_below_def)
  with assms(1,3) have below: "refs_below (unat i) (t ! unat i)" by (auto simp: earlier_refs_def)
  then obtain d where "t ! unat i = Some d" by (auto simp: refs_below_def)
  with i assms(3) True below show ?thesis by (intro entry) (auto simp: resolveType_def table_Resolver_def)
next
  case False
  then show ?thesis by (intro prim) (auto simp: resolveType_def)
qed

lemma inline_desc_refs: "inline_refs d \<subseteq> desc_refs d"
  by (cases d) auto

lemma prim_flatten_returns [simp]: "returns (flattenPrimitive p)"
  by (auto simp: flattenPrimitive_def)

lemma Flatten_refs_return:
  assumes "\<And>ref. ref \<in> inline_refs d \<Longrightarrow> returns (ref_flat (Flatten fuel r) r ref)"
  shows "returns (Flatten (Suc fuel) r (Some d))"
  using assms
  by (cases d)
    (auto simp: Let_def flattenRecord_def flattenVariant_def flattenTuple_def flattenOption_def flattenResult_def arm_flat_def
      flattenFlagsNumLabels_def flattenEnum_def case_refs_def intro!: no_fuel)

lemma Flatten_built:
  "earlier_refs t \<Longrightarrow> n \<le> length t \<Longrightarrow> refs_below n (Some d) \<Longrightarrow> Suc n < fuel \<Longrightarrow> returns (Flatten fuel (table_Resolver t) (Some d))"
proof (induction n arbitrary: d fuel rule: less_induct)
  case (less n)
  then obtain fuel' where fuel: "fuel = Suc fuel'" "n < fuel'" by (cases fuel) auto
  show ?case unfolding fuel
  proof (rule Flatten_refs_return)
    fix ref assume "ref \<in> inline_refs d"
    with less.prems(3) inline_desc_refs have "ref_below n ref" by (auto simp: refs_below_def)
    from less.prems(1) this less.prems(2) show "returns (ref_flat (Flatten fuel' (table_Resolver t)) (table_Resolver t) ref)"
    proof (cases rule: resolve_below)
      case (prim p)
      with fuel(2) show ?thesis by (cases fuel') (auto simp: ref_flat_def)
    next
      case (entry i d')
      have "returns (Flatten fuel' (table_Resolver t) (Some d'))"
        by (rule less.IH [OF entry(3) less.prems(1)]) (use entry fuel less.prems in auto)
      with entry show ?thesis by (simp add: ref_flat_def)
    qed
  qed
qed

text \<open>The validation can at most say that the nesting is too deep, and not even that if the depth is \<open>allowed\<close>.\<close>

definition only_deep :: "bool \<Rightarrow> abi_error + unit \<Rightarrow> bool" where
  "only_deep allowed m \<longleftrightarrow> m = Inr () \<or> \<not> allowed \<and> m = Inl NestingTooDeep"

lemma only_deep_rules:
  "only_deep a (Inr ())" "only_deep a m \<Longrightarrow> only_deep a m' \<Longrightarrow> only_deep a (rbind m (\<lambda>_. m'))"
  "(\<And>x. x \<in> set xs \<Longrightarrow> only_deep a (f x)) \<Longrightarrow> only_deep a (forE f xs)"
  "only_deep a m \<Longrightarrow> (\<And>y. x = Some y \<Longrightarrow> only_deep a (f y)) \<Longrightarrow> only_deep a (case x of None \<Rightarrow> m | Some y \<Rightarrow> f y)"
proof -
  show bind: "only_deep a m \<Longrightarrow> only_deep a m' \<Longrightarrow> only_deep a (rbind m (\<lambda>_. m'))" for m m'
    by (auto simp: only_deep_def)
  show "(\<And>x. x \<in> set xs \<Longrightarrow> only_deep a (f x)) \<Longrightarrow> only_deep a (forE f xs)"
    by (induction xs) (auto simp: only_deep_def [of a "Inr ()"] intro: bind)
qed (auto simp: only_deep_def split: option.splits)

lemma validate_refs:
  assumes "\<And>ref. ref \<in> inline_refs d \<Longrightarrow> only_deep a (validateRef (\<lambda>d vis. validateLayoutDesc d r (depth + 1) vis) r vis ref)"
    "a \<Longrightarrow> depth \<le> maxLayoutTypeDepth"
  shows "only_deep a (validateLayoutDesc (Some d) r depth vis)"
proof (cases "depth > maxLayoutTypeDepth")
  case True
  with assms(2) show ?thesis by (subst validateLayoutDesc.simps) (auto simp: only_deep_def)
next
  case False
  with assms(1) show ?thesis
    by (subst validateLayoutDesc.simps, cases d) (auto simp: Let_def case_refs_def intro!: only_deep_rules)
qed

lemma validate_built:
  "earlier_refs t \<Longrightarrow> n \<le> length t \<Longrightarrow> refs_below n (Some d) \<Longrightarrow> vis \<subseteq> {i. n \<le> unat i} \<Longrightarrow>
   only_deep (depth + n \<le> maxLayoutTypeDepth) (validateLayoutDesc (Some d) (table_Resolver t) depth vis)"
proof (induction n arbitrary: d depth vis rule: less_induct)
  case (less n)
  show ?case
  proof (rule validate_refs)
    fix ref assume "ref \<in> inline_refs d"
    with less.prems(3) inline_desc_refs have "ref_below n ref" by (auto simp: refs_below_def)
    from less.prems(1) this less.prems(2)
    show "only_deep (depth + n \<le> maxLayoutTypeDepth)
        (validateRef (\<lambda>d vis. validateLayoutDesc d (table_Resolver t) (depth + 1) vis) (table_Resolver t) vis ref)"
    proof (cases rule: resolve_below)
      case (entry i d')
      have "only_deep (depth + 1 + unat i \<le> maxLayoutTypeDepth) (validateLayoutDesc (Some d') (table_Resolver t) (depth + 1) (insert i vis))"
        by (rule less.IH [OF entry(3) less.prems(1)]) (use entry less.prems in auto)
      then have "only_deep (depth + n \<le> maxLayoutTypeDepth) (validateLayoutDesc (Some d') (table_Resolver t) (depth + 1) (insert i vis))"
        using entry(3) by (auto simp: only_deep_def)
      moreover have "i \<notin> vis" using entry(3) less.prems(4) by auto
      ultimately show ?thesis using entry(1,2,3,5) less.prems(2) by (simp add: validateRef_def entry(4) not_le)
    qed (simp add: validateRef_def only_deep_rules(1))
  qed simp
qed

text \<open>Every type that is built by the methods of a type table is one the ABI code can work with: its reference resolves, flattening ends, with a
  recursion no deeper than the table is long, and the layout validation finds no cycle and no dangling reference; with up to
  64 entries it succeeds.\<close>

theorem type_table_types_usable:
  assumes "built t" "ref_below (length t) ref"
  shows "\<exists>d. resolveType (Some ref) (table_Resolver t) = Inr (Some d) \<and>
    returns (Flatten (length t + 2) (table_Resolver t) (Some d)) \<and>
    validateLayoutType (Some d) (table_Resolver t) \<in> {Inr (), Inl NestingTooDeep} \<and>
    (length t \<le> maxLayoutTypeDepth \<longrightarrow> validateLayoutType (Some d) (table_Resolver t) = Inr ())"
proof -
  have E: "earlier_refs t" using assms(1) by (rule built_earlier_refs)
  have good: ?thesis if "resolveType (Some ref) (table_Resolver t) = Inr (Some d)" "n \<le> length t" "refs_below n (Some d)" for n d
    using that Flatten_built [OF E that(2,3), of "length t + 2"] validate_built [OF E that(2,3), of "{}" 0]
    by (auto simp: only_deep_def validateLayoutType_def)
  from E assms(2) order_refl [of "length t"] show ?thesis
  proof (cases rule: resolve_below)
    case (prim p)
    then show ?thesis by (intro good [of _ 0]) (auto simp: refs_below_def)
  next
    case (entry i d)
    then show ?thesis by (intro good [of d "unat i"]) auto
  qed
qed

definition sample_table :: type_table where
  "sample_table = snd (table_Result (tidx 0) (Prim ''u32'') (snd (table_List (Prim ''string'') NewTypeTable)))"

lemma built_sample: "built sample_table" "length sample_table = 2"
proof -
  let ?t = "snd (table_List (Prim ''string'') NewTypeTable)"
  have one: "built ?t" "length ?t = 1"
    using built_step [OF built_new, where ref = "fst (table_List (Prim ''string'') NewTypeTable)" and t' = ?t]
      step_List [where t = NewTypeTable and e = "Prim ''string''"]
    by (simp_all add: NewTypeTable_def ref_below_def Prim_def table_List_def table_Add_def)
  then show "built sample_table"
    using built_step [OF one(1), where ref = "fst (table_Result (tidx 0) (Prim ''u32'') ?t)" and t' = sample_table] step_Result [where t = ?t and a = "tidx 0" and b = "Prim ''u32''"]
    by (simp add: sample_table_def ref_below_def Prim_def tidx_def)
  show "length sample_table = 2"
    by (simp add: sample_table_def table_Result_def table_List_def table_Add_def NewTypeTable_def)
qed

theorem type_table_types_usable_witness:
  "\<exists>d. resolveType (Some (tidx 1)) (table_Resolver sample_table) = Inr (Some d) \<and>
    returns (Flatten 4 (table_Resolver sample_table) (Some d)) \<and> validateLayoutType (Some d) (table_Resolver sample_table) = Inr ()"
  using type_table_types_usable [OF built_sample(1), of "tidx 1"] by (auto simp: built_sample(2) ref_below_def tidx_def maxLayoutTypeDepth_def)

text \<open>The names of the parameters are numbered with at most eight digits.\<close>

lemma itoa_loop_full: "10 ^ n \<le> i \<Longrightarrow> itoa_loop n i acc = Inl (Panic ''index out of range [-1]'')"
proof (induction n arbitrary: i acc)
  case (Suc n)
  then have "10 ^ n \<le> i div 10" by (simp add: div_le_mono [of "10 * 10 ^ n" i 10, simplified])
  moreover have "i > 0" using Suc.prems by (cases i) auto
  ultimately show ?case by (simp add: Suc.IH)
qed simp

lemma itoa_panics: "10 ^ 8 \<le> i \<Longrightarrow> paramName i = Inl (Panic ''index out of range [-1]'')"
  using itoa_loop_full [of 8 i "[]"] by (simp add: paramName_def itoa_def)

end
