(* ===== verification/Host_Call.thy ===== *)
theory Host_Call
  imports Stream_Builtins
begin

text \<open>
  Calls of a guest out of its component: the wrapper of a host function (\<open>internal/instance/host_import.go\<close>), the lifting of
  the arguments of an asynchronous import (\<open>async_host_import.go\<close>) and the translation of handles between the tables of two
  instances when an import is satisfied by another component (\<open>composition.go\<close>).

  An \<open>abi.Value\<close> is of any Go type. At the outer level of an argument or result it may also be a pointer to one of the objects of
  the runtime, or an \<open>alreadyProviderRep\<close>; a value inside a composite is a \<open>val\<close>, since the types that would need more are
  refused when the call is bound. The table \<open>resources\<close> is that of the running instance, and \<open>in\<close> is not nil. A panic of the
  wrapper, which the engine turns into a trap, is an error.
\<close>

datatype host_value =
    Plain val
  | SharedStreamValue ref
  | StreamReaderValue ref
  | SharedFutureValue ref
  | FutureReaderValue ref
  | ErrorContextValue ref
  | AlreadyProviderRep u32

text \<open>What the stores and lowerings of the ABI make of a value: the pointers are of no type they know.\<close>

definition abi_value :: "host_value \<Rightarrow> val" where
  "abi_value v = (case v of
     Plain x \<Rightarrow> x
   | SharedStreamValue _ \<Rightarrow> VOther ''*instance.sharedStream''
   | StreamReaderValue _ \<Rightarrow> VOther ''*instance.StreamReader''
   | SharedFutureValue _ \<Rightarrow> VOther ''*instance.sharedFuture''
   | FutureReaderValue _ \<Rightarrow> VOther ''*instance.FutureReader''
   | ErrorContextValue _ \<Rightarrow> VOther ''*instance.errorContext''
   | AlreadyProviderRep _ \<Rightarrow> VOther ''instance.alreadyProviderRep'')"

subsection \<open>Signatures\<close>

definition funcResultTypeRefs :: "func_desc \<Rightarrow> type_ref list" where
  "funcResultTypeRefs fd =
     (case Unnamed (Results fd) of Some r \<Rightarrow> [r] | None \<Rightarrow> map ResultType (Named (Results fd)))"

definition mk_ref :: "type_desc option \<Rightarrow> type_desc option list \<Rightarrow> type_ref \<times> type_desc option list" where
  "mk_ref td table = (case td of
     Some (PrimitiveDesc p) \<Rightarrow> (\<lparr>Primitive = p, TypeIndex = None\<rparr>, table)
   | _ \<Rightarrow> (\<lparr>Primitive = '''', TypeIndex = Some (word_of_nat (length table))\<rparr>, table @ [td]))"

primrec mk_refs :: "type_desc option list \<Rightarrow> type_desc option list \<Rightarrow> type_ref list \<times> type_desc option list" where
  "mk_refs [] table = ([], table)"
| "mk_refs (td # tds) table =
     (let (r, table1) = mk_ref td table; (rs, table2) = mk_refs tds table1 in (r # rs, table2))"

definition synthFuncDesc :: "type_desc option list \<Rightarrow> type_desc option list \<Rightarrow> func_desc \<times> instance_resolver" where
  "synthFuncDesc params results =
     (let (ps, table1) = mk_refs params []; (rs, table) = mk_refs results table1 in
      (\<lparr>Params = map (\<lambda>(i, r). \<lparr>ParamName = CHR ''p'' # FormatUint i, ParamType = r\<rparr>) (enumerate 0 ps),
        Results = \<lparr>Unnamed = None, Named = map (\<lambda>(i, r). \<lparr>ResultName = CHR ''r'' # FormatUint i, ResultType = r\<rparr>) (enumerate 0 rs)\<rparr>,
        Async = False\<rparr>,
       \<lambda>idx. if unat idx \<ge> length table then None else table ! unat idx))"

primrec flatten_refs :: "nat \<Rightarrow> instance_resolver \<Rightarrow> type_ref list \<Rightarrow> abi_error + string list" where
  "flatten_refs fuel rs [] = Inr []"
| "flatten_refs fuel rs (r # refs) =
     rbind (resolveTypeRef r rs) (\<lambda>t.
     rbind (Flatten fuel (Some rs) (Some t)) (\<lambda>f.
     rbind (flatten_refs fuel rs refs) (\<lambda>out. Inr (f @ out))))"

definition flattenRefs :: "nat \<Rightarrow> instance_resolver \<Rightarrow> func_param list \<Rightarrow> abi_error + string list" where
  "flattenRefs fuel rs params = flatten_refs fuel rs (map ParamType params)"

definition flattenResultRefs :: "nat \<Rightarrow> instance_resolver \<Rightarrow> func_desc \<Rightarrow> abi_error + string list" where
  "flattenResultRefs fuel rs fd = flatten_refs fuel rs (funcResultTypeRefs fd)"

subsection \<open>Plans\<close>

record hostParamPlan =
  pp_pt :: type_desc
  pp_flat :: "string list"
  pp_usesMem :: bool
  pp_isBorrow :: bool
  pp_borrowRT :: u32

definition uses_memory :: "nat \<Rightarrow> instance_resolver \<Rightarrow> type_desc \<Rightarrow> runtime_error + bool" where
  "uses_memory fuel rs t = (case usesMemory fuel rs t of None \<Rightarrow> Inl (AbiError OutOfFuel) | Some b \<Rightarrow> Inr b)"

definition buildHostParamPlan :: "nat \<Rightarrow> instance_resolver \<Rightarrow> func_param \<Rightarrow> runtime_error + hostParamPlan" where
  "buildHostParamPlan fuel rs p =
     rbind (abi (resolveTypeRef (ParamType p) rs)) (\<lambda>pt.
       if typeContainsAsyncValueNested pt rs 0 then Inl NestedAsyncValue
       else rbind (abi (Flatten fuel (Some rs) (Some pt))) (\<lambda>flat.
            rbind (uses_memory fuel rs pt) (\<lambda>um.
              Inr \<lparr>pp_pt = pt, pp_flat = flat, pp_usesMem = um,
                   pp_isBorrow = (case pt of BorrowDesc _ \<Rightarrow> True | _ \<Rightarrow> False),
                   pp_borrowRT = (case pt of BorrowDesc r \<Rightarrow> r | _ \<Rightarrow> 0)\<rparr>)))"

primrec build_plans :: "nat \<Rightarrow> instance_resolver \<Rightarrow> func_param list \<Rightarrow> runtime_error + hostParamPlan list" where
  "build_plans fuel rs [] = Inr []"
| "build_plans fuel rs (p # ps) =
     rbind (buildHostParamPlan fuel rs p) (\<lambda>pp. rbind (build_plans fuel rs ps) (\<lambda>pps. Inr (pp # pps)))"

definition buildHostParamPlans :: "nat \<Rightarrow> instance_resolver \<Rightarrow> func_desc \<Rightarrow> runtime_error + hostParamPlan list" where
  "buildHostParamPlans fuel rs fd = build_plans fuel rs (Params fd)"

text \<open>The number of results and, when there is exactly one, its type and whether it needs memory.\<close>

definition buildHostResultPlan :: "nat \<Rightarrow> instance_resolver \<Rightarrow> func_desc \<Rightarrow> runtime_error + nat \<times> type_desc option \<times> bool" where
  "buildHostResultPlan fuel rs fd =
     (case funcResultTypeRefs fd of
        [r] \<Rightarrow>
          rbind (abi (resolveTypeRef r rs)) (\<lambda>rt.
            if typeContainsAsyncValueNested rt rs 0 then Inl NestedAsyncValue
            else rbind (uses_memory fuel rs rt) (\<lambda>um. Inr (1, Some rt, um)))
      | refs \<Rightarrow> Inr (length refs, None, False))"

subsection \<open>Handles in arguments\<close>

record lentHandle =
  lh_tag :: u32
  lh_handle :: u32

definition expect_handle :: "host_value \<Rightarrow> ('s, runtime_error, u32) op" where
  "expect_handle v = (case v of Plain (VU32 h) \<Rightarrow> sret h | _ \<Rightarrow> sfail (AbiError (ExpectedType ''uint32'')))"

definition elem_desc :: "instance_resolver \<Rightarrow> type_ref option \<Rightarrow> ('s, runtime_error, type_desc option) op" where
  "elem_desc rs e =
     slift (abi (case e of None \<Rightarrow> Inr None | Some r \<Rightarrow> rbind (resolveTypeRef r rs) (\<lambda>t. Inr (Some t))))"

text \<open>\<open>&StreamReader{in, shared, copyIdle}\<close> and \<open>&FutureReader{...}\<close>.\<close>

definition new_host_end :: "ref \<Rightarrow> ('a endpoint_state_scheme, runtime_error, ref) op" where
  "new_host_end p =
     sbind new_ref (\<lambda>r. sbind (modify (upd_host_end r (\<lambda>_. \<lparr>he_shared = p, he_state = copyIdle\<rparr>))) (\<lambda>_. sret r))"

definition resolveHandleArg ::
    "'a endpoint_state_scheme endpoint_env \<Rightarrow> inst_id \<Rightarrow> (u32 \<Rightarrow> u32) option \<Rightarrow> type_desc \<Rightarrow> host_value \<Rightarrow>
     ('a endpoint_state_scheme, runtime_error, host_value) op" where
  "resolveHandleArg env i tagOf pt v =
     (let tag = (\<lambda>rt. case tagOf of Some f \<Rightarrow> f rt | None \<Rightarrow> rt) in
      case pt of
        OwnDesc rt \<Rightarrow>
          sbind (expect_handle v) (\<lambda>h. sbind (TakeOwn (tag rt) h) (\<lambda>rep. sret (Plain (VU32 rep))))
      | BorrowDesc rt \<Rightarrow>
          sbind (expect_handle v) (\<lambda>h. sbind (\<lambda>s. slift (Rep (tag rt) h s) s) (\<lambda>rep. sret (Plain (VU32 rep))))
      | StreamDesc e \<Rightarrow>
          sbind (expect_handle v) (\<lambda>h.
          sbind (elem_desc (inst_resolve env i) e) (\<lambda>elem.
          sbind (takeReadableStreamEnd (stream_part env) (Some i) elem h) (\<lambda>p.
          sbind (new_host_end p) (\<lambda>r. sret (StreamReaderValue r)))))
      | FutureDesc e \<Rightarrow>
          sbind (expect_handle v) (\<lambda>h.
          sbind (elem_desc (inst_resolve env i) e) (\<lambda>elem.
          sbind (takeReadableFutureEnd (stream_part env) (Some i) elem h) (\<lambda>p.
          sbind (new_host_end p) (\<lambda>r. sret (FutureReaderValue r)))))
      | PrimitiveDesc p \<Rightarrow>
          if p \<noteq> ''error-context'' then sret v
          else sbind (expect_handle v) (\<lambda>h s.
                 case getEntry h s of
                   Some (ErrorContextEntry ec) \<Rightarrow> (Inr (ErrorContextValue ec), s)
                 | _ \<Rightarrow> (Inl NotErrorContext, s))
      | _ \<Rightarrow> sret v)"

text \<open>The lend of a borrowed argument; one that cannot be lent is left to \<open>resolveHandleArg\<close> to report.\<close>

definition lend_arg :: "hostParamPlan \<Rightarrow> val \<Rightarrow> ('a table_state_scheme, runtime_error, lentHandle list) op" where
  "lend_arg pp v s =
     (case (pp_isBorrow pp, v) of
        (True, VU32 h) \<Rightarrow>
          (case Lend (pp_borrowRT pp) h s of
             (Inr _, s') \<Rightarrow> (Inr [\<lparr>lh_tag = pp_borrowRT pp, lh_handle = h\<rparr>], s')
           | (Inl _, s') \<Rightarrow> (Inr [], s'))
      | _ \<Rightarrow> (Inr [], s))"

text \<open>One argument after its value has been lifted.\<close>

definition host_arg ::
    "'a endpoint_state_scheme endpoint_env \<Rightarrow> inst_id \<Rightarrow> hostParamPlan \<Rightarrow> val \<Rightarrow>
     ('a endpoint_state_scheme, runtime_error, host_value \<times> lentHandle list) op" where
  "host_arg env i pp v =
     sbind (lend_arg pp v) (\<lambda>lent.
     sbind (resolveHandleArg env i None (pp_pt pp) (Plain v)) (\<lambda>a. sret (a, lent)))"

subsection \<open>Lifting arguments\<close>

text \<open>The values of the core stack from a position on, with the kinds of a plan.\<close>

definition stack_values :: "u64 list \<Rightarrow> nat \<Rightarrow> string list \<Rightarrow> runtime_error + core_value list" where
  "stack_values stack pos kinds =
     (if pos + length kinds > length stack then Inl (StackUnderflow (pos + length kinds) (length stack))
      else Inr (map (\<lambda>(k, b). \<lparr>CoreKind = k, Bits = b\<rparr>) (zip kinds (drop pos stack))))"

text \<open>The bytes of the memory of the module, or of none: only a plan that uses memory looks at them.\<close>

definition lift_stack_value ::
    "'a endpoint_state_scheme endpoint_env \<Rightarrow> instance_resolver \<Rightarrow> u64 list \<Rightarrow> byte list option \<Rightarrow> nat \<Rightarrow> hostParamPlan \<Rightarrow>
     ('a endpoint_state_scheme, runtime_error, val) op" where
  "lift_stack_value env rs stack mem pos pp =
     (if pp_usesMem pp \<and> mem = None then sfail NoMemory
      else sbind (slift (stack_values stack pos (pp_flat pp))) (\<lambda>cvs.
           abi_result (LiftFlat (ep_fuel env) cvs (Some (pp_pt pp)) (Some rs) (case mem of Some m \<Rightarrow> m | None \<Rightarrow> []))))"

text \<open>The lends taken before an error are dropped with it: each caller panics before it has deferred their release.\<close>

primrec lift_planned ::
    "'a endpoint_state_scheme endpoint_env \<Rightarrow> inst_id \<Rightarrow> instance_resolver \<Rightarrow> u64 list \<Rightarrow> byte list option \<Rightarrow> nat \<Rightarrow>
     hostParamPlan list \<Rightarrow> ('a endpoint_state_scheme, runtime_error, host_value list \<times> lentHandle list) op" where
  "lift_planned env i rs stack mem pos [] = sret ([], [])"
| "lift_planned env i rs stack mem pos (pp # pps) =
     sbind (lift_stack_value env rs stack mem pos pp) (\<lambda>v.
     sbind (host_arg env i pp v) (\<lambda>(a, l).
     sbind (lift_planned env i rs stack mem (pos + length (pp_flat pp)) pps) (\<lambda>(args, lent). sret (a # args, l @ lent))))"

definition liftHostArgsPlanned ::
    "'a endpoint_state_scheme endpoint_env \<Rightarrow> inst_id \<Rightarrow> hostParamPlan list \<Rightarrow> instance_resolver \<Rightarrow> u64 list \<Rightarrow> mod_id option \<Rightarrow>
     ('a endpoint_state_scheme, runtime_error, host_value list \<times> lentHandle list) op" where
  "liftHostArgsPlanned env i plans rs stack m s = lift_planned env i rs stack (memoryBytesOf m s) 0 plans s"

text \<open>The loop over arguments that come from a tuple in memory.\<close>

primrec host_args ::
    "'a endpoint_state_scheme endpoint_env \<Rightarrow> inst_id \<Rightarrow> (hostParamPlan \<times> val) list \<Rightarrow>
     ('a endpoint_state_scheme, runtime_error, host_value list \<times> lentHandle list) op" where
  "host_args env i [] = sret ([], [])"
| "host_args env i (p # ps) =
     sbind (host_arg env i (fst p) (snd p)) (\<lambda>(a, l).
     sbind (host_args env i ps) (\<lambda>(args, lent). sret (a # args, l @ lent)))"

text \<open>The values of a spilled parameter list.\<close>

definition load_spilled ::
    "'a endpoint_state_scheme endpoint_env \<Rightarrow> nat \<Rightarrow> type_ref list \<Rightarrow> instance_resolver \<Rightarrow> u32 \<Rightarrow> mod_id option \<Rightarrow>
     ('a endpoint_state_scheme, runtime_error, val list) op" where
  "load_spilled env n tuple rs ptr m s =
     (case memoryBytesOf m s of
        None \<Rightarrow> (Inl NoMemory, s)
      | Some mem \<Rightarrow>
          sbind (abi_result (Load (ep_fuel env) mem (unat ptr) (Some (TupleDesc tuple)) (Some rs))) (\<lambda>v.
            case v of VList raw \<Rightarrow> if length raw \<noteq> n then sfail (SpilledShape n) else sret raw | _ \<Rightarrow> sfail (SpilledShape n)) s)"

definition liftHostArgsSpilled ::
    "'a endpoint_state_scheme endpoint_env \<Rightarrow> inst_id \<Rightarrow> hostParamPlan list \<Rightarrow> type_ref list \<Rightarrow> instance_resolver \<Rightarrow> u32 \<Rightarrow>
     mod_id option \<Rightarrow> ('a endpoint_state_scheme, runtime_error, host_value list \<times> lentHandle list) op" where
  "liftHostArgsSpilled env i plans tuple rs ptr m =
     sbind (load_spilled env (length plans) tuple rs ptr m) (\<lambda>raw. host_args env i (zip plans raw))"

subsection \<open>Results\<close>

text \<open>A fresh readable end of a stream or future, and a fresh handle of an error context, in the table of the running instance.\<close>

definition new_readable_stream :: "ref \<Rightarrow> ('a stream_state_scheme, runtime_error, host_value) op" where
  "new_readable_stream p =
     sbind new_ref (\<lambda>e.
     sbind (modify (\<lambda>s. s\<lparr>streamEnds := (streamEnds s)(e := \<lparr>se_side = sideReadable, se_state = copyIdle, se_shared = p, livePending = False\<rparr>),
                          waitables := (waitables s)(e := zero_waitable)\<rparr>)) (\<lambda>_.
     sbind (add_entry (StreamEndEntry e)) (\<lambda>h. sret (Plain (VU32 h)))))"

definition new_readable_future :: "ref \<Rightarrow> ('a stream_state_scheme, runtime_error, host_value) op" where
  "new_readable_future p =
     sbind new_ref (\<lambda>e.
     sbind (modify (\<lambda>s. s\<lparr>futureEnds := (futureEnds s)(e := \<lparr>fe_side = sideReadable, fe_state = copyIdle, fe_shared = p\<rparr>),
                          waitables := (waitables s)(e := zero_waitable)\<rparr>)) (\<lambda>_.
     sbind (add_entry (FutureEndEntry e)) (\<lambda>h. sret (Plain (VU32 h)))))"

definition new_error_context :: "host_value \<Rightarrow> ('a builtin_state_scheme, runtime_error, host_value) op" where
  "new_error_context v =
     sbind (case v of
         ErrorContextValue p \<Rightarrow> sret p
       | Plain (VString bs) \<Rightarrow>
           sbind new_ref (\<lambda>p. sbind (modify (\<lambda>s. s\<lparr>errorContexts := (errorContexts s)(p := bs)\<rparr>)) (\<lambda>_. sret p))
       | _ \<Rightarrow> sfail NotErrorContext) (\<lambda>p.
     sbind (add_entry (ErrorContextEntry p)) (\<lambda>h. sret (Plain (VU32 h))))"

definition allocHandleResult :: "type_desc \<Rightarrow> host_value \<Rightarrow> ('a endpoint_state_scheme, runtime_error, host_value) op" where
  "allocHandleResult rt v =
     (case rt of
        OwnDesc r \<Rightarrow> sbind (expect_handle v) (\<lambda>rep s. let (h, s') = NewOwn r rep s in (Inr (Plain (VU32 h)), s'))
      | BorrowDesc r \<Rightarrow> sbind (expect_handle v) (\<lambda>rep s. let (h, s') = NewBorrow r rep s in (Inr (Plain (VU32 h)), s'))
      | StreamDesc _ \<Rightarrow>
          sbind (\<lambda>s. case v of
              SharedStreamValue p \<Rightarrow> (Inr p, s) | StreamReaderValue r \<Rightarrow> (Inr (he_shared (host_ends s r)), s)
            | _ \<Rightarrow> (Inl NotStreamType, s)) (\<lambda>p. new_readable_stream p)
      | FutureDesc _ \<Rightarrow>
          sbind (\<lambda>s. case v of
              SharedFutureValue p \<Rightarrow> (Inr p, s) | FutureReaderValue r \<Rightarrow> (Inr (he_shared (host_ends s r)), s)
            | _ \<Rightarrow> (Inl NotStreamType, s)) (\<lambda>p. new_readable_future p)
      | PrimitiveDesc p \<Rightarrow> if p \<noteq> ''error-context'' then sret v else new_error_context v
      | _ \<Rightarrow> sret v)"

text \<open>The allocator of a canonical option, or else the \<open>cabi_realloc\<close> of the module.\<close>

definition host_realloc :: "'a endpoint_state_scheme endpoint_env \<Rightarrow> mod_id option \<Rightarrow> callback option \<Rightarrow> 'a endpoint_state_scheme realloc" where
  "host_realloc env m fn =
     (case fn of Some c \<Rightarrow> ep_realloc env c
      | None \<Rightarrow> (case m of None \<Rightarrow> None
          | Some i \<Rightarrow> (case cabi_realloc env i of None \<Rightarrow> None | Some c \<Rightarrow> ep_realloc env c)))"

text \<open>\<open>LowerFlat\<close> with the memory of a module; without one the slice is nil.\<close>

definition lower_in_module ::
    "'a endpoint_state_scheme endpoint_env \<Rightarrow> mod_id option \<Rightarrow> type_desc \<Rightarrow> val \<Rightarrow> instance_resolver \<Rightarrow> callback option \<Rightarrow>
     ('a endpoint_state_scheme, runtime_error, core_value list) op" where
  "lower_in_module env m t v rs fn s =
     (let f = LowerFlat (ep_fuel env) v (Some t) (Some rs) (host_realloc env m fn) in
      case memoryBytesOf m s of
        Some _ \<Rightarrow> in_module m f s
      | None \<Rightarrow> (let (r, ms) = f \<lparr>lin_mem = [], guest = s\<rparr> in (abi r, guest ms)))"

text \<open>Writing the lowered values over the front of the core stack.\<close>

definition put_results :: "core_value list \<Rightarrow> u64 list \<Rightarrow> runtime_error + u64 list" where
  "put_results flat stack =
     (if length flat > length stack then Inl (StackOverflow (length flat) (length stack))
      else Inr (map Bits flat @ drop (length flat) stack))"

definition lowerHostResultsPlanned ::
    "'a endpoint_state_scheme endpoint_env \<Rightarrow> nat \<times> type_desc option \<times> bool \<Rightarrow> instance_resolver \<Rightarrow> host_value list \<Rightarrow> u64 list \<Rightarrow>
     mod_id option \<Rightarrow> nat option \<Rightarrow> callback option \<Rightarrow> ('a endpoint_state_scheme, runtime_error, u64 list) op" where
  "lowerHostResultsPlanned env plan rs results stack m outPtr fn s =
     (case plan of (resultCount, rt, um) \<Rightarrow>
        if length results \<noteq> resultCount then (Inl (WrongResultCount (length results) resultCount), s)
        else if resultCount = 0 then (Inr stack, s)
        else (case rt of
            None \<Rightarrow> (Inl (ManyResults resultCount), s)
          | Some t \<Rightarrow>
              if um \<and> memoryBytesOf m s = None then (Inl NoMemory, s)
              else
                sbind (allocHandleResult t (hd results)) (\<lambda>rv s1.
                  case outPtr of
                    Some k \<Rightarrow>
                      if memoryBytesOf m s1 = None then (Inl NoMemory, s1)
                      else if k \<ge> length stack then (Inl (OutPointerRange k (length stack)), s1)
                      else sbind (in_module m (Store (ep_fuel env) (unat (ucast (stack ! k) :: u32)) (Some t) (abi_value rv) (Some rs) (host_realloc env m fn)))
                             (\<lambda>_. sret stack) s1
                  | None \<Rightarrow>
                      sbind (lower_in_module env m t (abi_value rv) rs fn) (\<lambda>flat. slift (put_results flat stack)) s1) s))"

subsection \<open>The wrapper of a host function\<close>

text \<open>\<open>toApiValueTypes\<close>: the codes of the core value types.\<close>

primrec toApiValueTypes :: "string list \<Rightarrow> abi_error + byte list" where
  "toApiValueTypes [] = Inr []"
| "toApiValueTypes (k # ks) =
     rbind (if k = ''i32'' then Inr 0x7f else if k = ''i64'' then Inr 0x7e else if k = ''f32'' then Inr 0x7d
            else if k = ''f64'' then Inr 0x7c else Inl (UnknownPrimitive k)) (\<lambda>t.
     rbind (toApiValueTypes ks) (\<lambda>ts. Inr (t # ts)))"

record host_wrapper =
  hw_paramsSpill :: bool
  hw_tuple :: "type_ref list"
  hw_outPtr :: "nat option"
  hw_params :: "byte list"
  hw_results :: "byte list"
  hw_plans :: "hostParamPlan list"
  hw_result :: "nat \<times> type_desc option \<times> bool"

definition buildHostWrapper :: "nat \<Rightarrow> func_desc \<Rightarrow> instance_resolver \<Rightarrow> runtime_error + host_wrapper" where
  "buildHostWrapper fuel fd rs =
     rbind (abi (flattenRefs fuel rs (Params fd))) (\<lambda>rawParams.
     rbind (abi (flattenResultRefs fuel rs fd)) (\<lambda>rawResults.
     rbind (abi (FlattenFunc fuel fd (Some rs) ''lower'')) (\<lambda>(coreParams, coreResults).
     rbind (abi (toApiValueTypes coreParams)) (\<lambda>apiParams.
     rbind (abi (toApiValueTypes coreResults)) (\<lambda>apiResults.
     rbind (buildHostParamPlans fuel rs fd) (\<lambda>plans.
     rbind (buildHostResultPlan fuel rs fd) (\<lambda>result.
       (let spill = length rawParams > MaxFlatParams in
        Inr \<lparr>hw_paramsSpill = spill, hw_tuple = (if spill then map ParamType (Params fd) else []),
             hw_outPtr = (if length rawResults > MaxFlatResults then Some (if spill then 1 else length rawParams) else None),
             hw_params = apiParams, hw_results = apiResults, hw_plans = plans, hw_result = result\<rparr>))))))))"

text \<open>What a call looks at of the import: whether it is the outer component's own function, whether it is satisfied by an
  asynchronous lift, and the function itself. With a task that can block, an asynchronous callee is started from its
  blocker (\<open>startDelegatedFromBlocker\<close>).\<close>

record 's hostImport =
  lineage :: bool
  async_target :: bool
  hi_fn :: "host_value list \<Rightarrow> ('s, runtime_error, host_value list) op"
  start_delegated :: "host_value list \<Rightarrow> ('s, runtime_error, host_value list) op"

primrec unlend_all :: "lentHandle list \<Rightarrow> 'a table_state_scheme \<Rightarrow> 'a table_state_scheme" where
  "unlend_all [] s = s"
| "unlend_all (l # ls) s = unlend_all ls (snd (Unlend (lh_tag l) (lh_handle l) s))"

definition releasing :: "lentHandle list \<Rightarrow> ('a table_state_scheme, 'e, 'b) op \<Rightarrow> ('a table_state_scheme, 'e, 'b) op" where
  "releasing lent f s = (let (r, s') = f s in (r, unlend_all lent s'))"

text \<open>The bracket around the Go call.\<close>

definition in_host_call :: "('a endpoint_state_scheme, 'e, 'b) op \<Rightarrow> ('a endpoint_state_scheme, 'e, 'b) op" where
  "in_host_call f s =
     (let (r, s') = f (s\<lparr>inHostCall := inHostCall s + 1\<rparr>) in (r, s'\<lparr>inHostCall := inHostCall s' - 1\<rparr>))"

text \<open>May a synchronous lower of an asynchronous lift block here? The value says whether the caller has a blocker.\<close>

definition blocking_caller :: "'a endpoint_state_scheme endpoint_env \<Rightarrow> bool \<Rightarrow> ('a endpoint_state_scheme, runtime_error, bool) op" where
  "blocking_caller env async s =
     (if \<not> async then (Inr False, s)
      else case activeTask s of
        None \<Rightarrow> if instantiating s then (Inl SyncTaskBlock, s) else (Inr False, s)
      | Some t \<Rightarrow> if syncImplicit (tasks s t) then (Inl SyncTaskBlock, s) else (Inr (has_blocker (be env) s), s))"

definition host_wrapper_call ::
    "'a endpoint_state_scheme endpoint_env \<Rightarrow> inst_id \<Rightarrow> host_wrapper \<Rightarrow> 'a endpoint_state_scheme hostImport \<Rightarrow> instance_resolver \<Rightarrow>
     mod_id option \<Rightarrow> mod_id option \<Rightarrow> callback option \<Rightarrow> u64 list \<Rightarrow> ('a endpoint_state_scheme, runtime_error, u64 list) op" where
  "host_wrapper_call env i hw hi rs memOverride m fn stack =
     (if lineage hi then sfail CannotEnter
      else
        (let memMod = (if memOverride \<noteq> None then memOverride else m) in
         sbind (if hw_paramsSpill hw then
                  (if stack = [] then sfail (TablePanic ''index out of range'')
                   else liftHostArgsSpilled env i (hw_plans hw) (hw_tuple hw) rs (ucast (hd stack)) memMod)
                else liftHostArgsPlanned env i (hw_plans hw) rs stack memMod) (\<lambda>(args, lent).
         releasing lent
           (sbind (blocking_caller env (async_target hi)) (\<lambda>blk.
            sbind (in_host_call (if blk then start_delegated hi args else hi_fn hi args)) (\<lambda>results.
              lowerHostResultsPlanned env (hw_result hw) rs results stack memMod (hw_outPtr hw) fn))))))"

subsection \<open>Arguments of an asynchronous import\<close>

text \<open>A borrowed argument is lent to the subtask, which returns it when its event is delivered.\<close>

definition lend_to_subtask :: "ref \<Rightarrow> hostParamPlan \<Rightarrow> val \<Rightarrow> 'a wait_state_scheme \<Rightarrow> 'a wait_state_scheme" where
  "lend_to_subtask st pp v s =
     (case (pp_isBorrow pp, v) of
        (True, VU32 h) \<Rightarrow> (case entryForLend (pp_borrowRT pp) h s of Inr p \<Rightarrow> addLender st p s | Inl _ \<Rightarrow> s)
      | _ \<Rightarrow> s)"

definition async_arg ::
    "'a endpoint_state_scheme endpoint_env \<Rightarrow> inst_id \<Rightarrow> ref \<Rightarrow> hostParamPlan \<Rightarrow> val \<Rightarrow>
     ('a endpoint_state_scheme, runtime_error, host_value) op" where
  "async_arg env i st pp v =
     sbind (modify (lend_to_subtask st pp v)) (\<lambda>_. resolveHandleArg env i None (pp_pt pp) (Plain v))"

primrec lift_async_planned ::
    "'a endpoint_state_scheme endpoint_env \<Rightarrow> inst_id \<Rightarrow> ref \<Rightarrow> instance_resolver \<Rightarrow> u64 list \<Rightarrow> byte list option \<Rightarrow> nat \<Rightarrow>
     hostParamPlan list \<Rightarrow> ('a endpoint_state_scheme, runtime_error, host_value list) op" where
  "lift_async_planned env i st rs stack mem pos [] = sret []"
| "lift_async_planned env i st rs stack mem pos (pp # pps) =
     sbind (lift_stack_value env rs stack mem pos pp) (\<lambda>v.
     sbind (async_arg env i st pp v) (\<lambda>a.
     sbind (lift_async_planned env i st rs stack mem (pos + length (pp_flat pp)) pps) (\<lambda>args. sret (a # args))))"

definition liftAsyncHostArgsPlanned ::
    "'a endpoint_state_scheme endpoint_env \<Rightarrow> inst_id \<Rightarrow> hostParamPlan list \<Rightarrow> instance_resolver \<Rightarrow> u64 list \<Rightarrow> mod_id option \<Rightarrow> ref \<Rightarrow>
     ('a endpoint_state_scheme, runtime_error, host_value list) op" where
  "liftAsyncHostArgsPlanned env i plans rs stack m st s = lift_async_planned env i st rs stack (memoryBytesOf m s) 0 plans s"

primrec async_args ::
    "'a endpoint_state_scheme endpoint_env \<Rightarrow> inst_id \<Rightarrow> ref \<Rightarrow> (hostParamPlan \<times> val) list \<Rightarrow>
     ('a endpoint_state_scheme, runtime_error, host_value list) op" where
  "async_args env i st [] = sret []"
| "async_args env i st (p # ps) =
     sbind (async_arg env i st (fst p) (snd p)) (\<lambda>a. sbind (async_args env i st ps) (\<lambda>args. sret (a # args)))"

definition liftAsyncHostArgsSpilled ::
    "'a endpoint_state_scheme endpoint_env \<Rightarrow> inst_id \<Rightarrow> hostParamPlan list \<Rightarrow> type_ref list \<Rightarrow> instance_resolver \<Rightarrow> u32 \<Rightarrow>
     mod_id option \<Rightarrow> ref \<Rightarrow> ('a endpoint_state_scheme, runtime_error, host_value list) op" where
  "liftAsyncHostArgsSpilled env i plans tuple rs ptr m st =
     sbind (load_spilled env (length plans) tuple rs ptr m) (\<lambda>raw. async_args env i st (zip plans raw))"

subsection \<open>Imports that another instance provides\<close>

text \<open>\<open>j\<close> is the provider. \<open>guest_resource\<close> is its \<open>isGuestResource\<close>; a nil one is false everywhere.\<close>

definition repToProviderHandle ::
    "'a endpoint_state_scheme endpoint_env \<Rightarrow> (inst_id \<Rightarrow> u32 \<Rightarrow> bool) \<Rightarrow> inst_id \<Rightarrow> type_desc \<Rightarrow> host_value \<Rightarrow> ref option \<Rightarrow>
     ('a endpoint_state_scheme, runtime_error, host_value) op" where
  "repToProviderHandle env guest_resource j desc v scope =
     (let tag = canonTag (stream_part env) j in
      case desc of
        OwnDesc r \<Rightarrow>
          sbind (expect_handle v) (\<lambda>rep.
            in_instance j (\<lambda>s. let (h, s') = NewOwn (tag r) rep s in (Inr (Plain (VU32 h)), s')))
      | BorrowDesc r \<Rightarrow>
          sbind (expect_handle v) (\<lambda>rep.
            if guest_resource j (tag r) then sret (AlreadyProviderRep rep)
            else if scope \<noteq> None then
              sbind (in_instance j (NewBorrowScoped (tag r) rep scope)) (\<lambda>h. sret (Plain (VU32 h)))
            else in_instance j (\<lambda>s. let (h, s') = NewBorrow (tag r) rep s in (Inr (Plain (VU32 h)), s')))
      | StreamDesc _ \<Rightarrow>
          (case v of SharedStreamValue p \<Rightarrow> sret v
           | StreamReaderValue r \<Rightarrow> getting (\<lambda>s. SharedStreamValue (he_shared (host_ends s r)))
           | _ \<Rightarrow> sfail NotStreamType)
      | FutureDesc _ \<Rightarrow>
          (case v of SharedFutureValue p \<Rightarrow> sret v
           | FutureReaderValue r \<Rightarrow> getting (\<lambda>s. SharedFutureValue (he_shared (host_ends s r)))
           | _ \<Rightarrow> sfail NotStreamType)
      | _ \<Rightarrow> sret v)"

definition providerHandleToRep ::
    "'a endpoint_state_scheme endpoint_env \<Rightarrow> inst_id \<Rightarrow> type_desc \<Rightarrow> host_value \<Rightarrow>
     ('a endpoint_state_scheme, runtime_error, host_value) op" where
  "providerHandleToRep env j desc v =
     (let tag = canonTag (stream_part env) j in
      case desc of
        OwnDesc r \<Rightarrow>
          sbind (expect_handle v) (\<lambda>h. sbind (in_instance j (TakeOwn (tag r) h)) (\<lambda>rep. sret (Plain (VU32 rep))))
      | BorrowDesc r \<Rightarrow>
          sbind (expect_handle v) (\<lambda>h. sbind (in_instance j (\<lambda>s. slift (Rep (tag r) h s) s)) (\<lambda>rep. sret (Plain (VU32 rep))))
      | StreamDesc e \<Rightarrow>
          sbind (expect_handle v) (\<lambda>h.
          sbind (elem_desc (inst_resolve env j) e) (\<lambda>elem.
          sbind (in_instance j (takeReadableStreamEnd (stream_part env) (Some j) elem h)) (\<lambda>p. sret (SharedStreamValue p))))
      | FutureDesc e \<Rightarrow>
          sbind (expect_handle v) (\<lambda>h.
          sbind (elem_desc (inst_resolve env j) e) (\<lambda>elem.
          sbind (in_instance j (takeReadableFutureEnd (stream_part env) (Some j) elem h)) (\<lambda>p. sret (SharedFutureValue p))))
      | _ \<Rightarrow> sret v)"

text \<open>A list of values, each with its type; values beyond the types pass through, and so does one whose type could not be resolved.\<close>

primrec map_values ::
    "(type_desc \<Rightarrow> host_value \<Rightarrow> ('s, runtime_error, host_value) op) \<Rightarrow> type_desc option list \<Rightarrow> host_value list \<Rightarrow>
     ('s, runtime_error, host_value list) op" where
  "map_values f ts [] = sret []"
| "map_values f ts (v # vs) =
     sbind (case ts of Some t # _ \<Rightarrow> f t v | _ \<Rightarrow> sret v) (\<lambda>x. sbind (map_values f (tl ts) vs) (\<lambda>xs. sret (x # xs)))"

definition mapArgsToProvider ::
    "'a endpoint_state_scheme endpoint_env \<Rightarrow> (inst_id \<Rightarrow> u32 \<Rightarrow> bool) \<Rightarrow> inst_id \<Rightarrow> type_desc option list \<Rightarrow> host_value list \<Rightarrow>
     ref option \<Rightarrow> ('a endpoint_state_scheme, runtime_error, host_value list) op" where
  "mapArgsToProvider env guest_resource j paramDescs args scope =
     map_values (\<lambda>t v. repToProviderHandle env guest_resource j t v scope) paramDescs args"

definition resultDescs :: "type_desc option \<Rightarrow> type_desc option list" where
  "resultDescs resultType = (case resultType of None \<Rightarrow> [] | Some t \<Rightarrow> [Some t])"

definition mapResultsFromProvider ::
    "'a endpoint_state_scheme endpoint_env \<Rightarrow> inst_id \<Rightarrow> type_desc option \<Rightarrow> host_value list \<Rightarrow>
     ('a endpoint_state_scheme, runtime_error, host_value list) op" where
  "mapResultsFromProvider env j resultType vals = map_values (providerHandleToRep env j) (resultDescs resultType) vals"

text \<open>\<open>delegatingHostImport\<close>: the function that stands for an export of instance \<open>j\<close>. \<open>invoke\<close> calls the export there. With a
  borrowed parameter there is a task that only counts the borrows the callee still holds.\<close>

definition new_scope :: "type_desc option list \<Rightarrow> ('a table_state_scheme, runtime_error, ref option) op" where
  "new_scope paramDescs =
     (if list_ex (\<lambda>d. case d of Some (BorrowDesc _) \<Rightarrow> True | _ \<Rightarrow> False) paramDescs then
        sbind new_ref (\<lambda>t. sbind (modify (\<lambda>s. s\<lparr>numBorrows := (numBorrows s)(t := 0)\<rparr>)) (\<lambda>_. sret (Some t)))
      else sret None)"

definition check_scope :: "ref option \<Rightarrow> ('a table_state_scheme, runtime_error, unit) op" where
  "check_scope scope s =
     (case scope of
        Some t \<Rightarrow> if numBorrows s t > 0 then (Inl (BorrowsRemain (numBorrows s t)), s) else (Inr (), s)
      | None \<Rightarrow> (Inr (), s))"

definition delegatingHostImport ::
    "'a endpoint_state_scheme endpoint_env \<Rightarrow> (inst_id \<Rightarrow> u32 \<Rightarrow> bool) \<Rightarrow> inst_id \<Rightarrow> type_desc option list \<Rightarrow> type_desc option \<Rightarrow>
     (host_value list \<Rightarrow> ('a endpoint_state_scheme, runtime_error, host_value list) op) \<Rightarrow> host_value list \<Rightarrow>
     ('a endpoint_state_scheme, runtime_error, host_value list) op" where
  "delegatingHostImport env guest_resource j paramDescs resultType invoke args =
     sbind (new_scope paramDescs) (\<lambda>scope.
     sbind (mapArgsToProvider env guest_resource j paramDescs args scope) (\<lambda>provided.
     sbind (invoke provided) (\<lambda>out.
     sbind (check_scope scope) (\<lambda>_. mapResultsFromProvider env j resultType out))))"

subsection \<open>The signature of a delegated import\<close>

text \<open>\<open>translateResourceFD\<close>: the references that were translated so far, and the next synthetic index.\<close>

definition translateResourceIdxBase :: u32 where "translateResourceIdxBase = 16777216"

record synth_types =
  synth :: "u32 \<Rightarrow> type_desc option"
  synth_next :: u32

definition translated_desc :: "(u32 \<Rightarrow> u32 option) \<Rightarrow> type_desc \<Rightarrow> type_desc option" where
  "translated_desc translate td =
     (case td of OwnDesc r \<Rightarrow> map_option OwnDesc (translate r) | BorrowDesc r \<Rightarrow> map_option BorrowDesc (translate r) | _ \<Rightarrow> None)"

definition translate_ref :: "instance_resolver \<Rightarrow> (u32 \<Rightarrow> u32 option) \<Rightarrow> type_ref \<Rightarrow> synth_types \<Rightarrow> type_ref \<times> synth_types" where
  "translate_ref prov translate ref st =
     (case resolveTypeRef ref prov of
        Inl _ \<Rightarrow> (ref, st)
      | Inr td \<Rightarrow>
          (case translated_desc translate td of
             None \<Rightarrow> (ref, st)
           | Some d \<Rightarrow> (\<lparr>Primitive = '''', TypeIndex = Some (synth_next st)\<rparr>,
                        st\<lparr>synth := (synth st)(synth_next st \<mapsto> d), synth_next := synth_next st + 1\<rparr>)))"

primrec translate_refs :: "instance_resolver \<Rightarrow> (u32 \<Rightarrow> u32 option) \<Rightarrow> type_ref list \<Rightarrow> synth_types \<Rightarrow> type_ref list \<times> synth_types" where
  "translate_refs prov translate [] st = ([], st)"
| "translate_refs prov translate (r # refs) st =
     (let (r', st1) = translate_ref prov translate r st; (refs', st2) = translate_refs prov translate refs st1 in (r' # refs', st2))"

definition translateResourceFD :: "func_desc \<Rightarrow> instance_resolver \<Rightarrow> (u32 \<Rightarrow> u32 option) \<Rightarrow> func_desc \<times> instance_resolver" where
  "translateResourceFD fd prov translate =
     (let (ps, st1) = translate_refs prov translate (map ParamType (Params fd)) \<lparr>synth = Map.empty, synth_next = translateResourceIdxBase\<rparr>;
          (un, st2) = (case Unnamed (Results fd) of
             Some r \<Rightarrow> (let (r', st) = translate_ref prov translate r st1 in (Some r', st)) | None \<Rightarrow> (None, st1));
          (ns, st3) = (if Unnamed (Results fd) \<noteq> None then ([], st2)
             else translate_refs prov translate (map ResultType (Named (Results fd))) st2)
      in (\<lparr>Params = map (\<lambda>(p, r). \<lparr>ParamName = ParamName p, ParamType = r\<rparr>) (zip (Params fd) ps),
           Results = \<lparr>Unnamed = un, Named = map (\<lambda>(n, r). \<lparr>ResultName = ResultName n, ResultType = r\<rparr>) (zip (Named (Results fd)) ns)\<rparr>,
           Async = False\<rparr>,
          \<lambda>idx. case synth st3 idx of Some d \<Rightarrow> Some d | None \<Rightarrow> prov idx))"

end
