(* ===== verification/Call_Safety.thy ===== *)
theory Call_Safety
  imports Host_Call Stream_Safety
begin

text \<open>
  What a call between two instances does to the resources that cross: an owned handle leaves one table and enters the other,
  a borrowed one is lent exactly as long as the call runs, and the signature of a delegated import differs from the export's
  only in the resources it names.
\<close>

subsection \<open>Owned resources\<close>

definition table_of :: "'a stream_state_scheme \<Rightarrow> inst_id \<Rightarrow> handleTable" where
  "table_of s i = (if i = this_inst s then tab s else other_tabs s i)"

text \<open>The handles of an instance that own the resource with a representation, and their number.\<close>

definition own_handles :: "'a stream_state_scheme \<Rightarrow> inst_id \<Rightarrow> u32 \<Rightarrow> u32 set" where
  "own_handles s i r =
     {h. \<exists>p. entries (table_of s i) h = Some (ResourceEntry p) \<and> own (resources s p) \<and> resource_rep (resources s p) = r}"

definition owned :: "'a stream_state_scheme \<Rightarrow> inst_id \<Rightarrow> u32 \<Rightarrow> nat" where
  "owned s i r = card (own_handles s i r)"

text \<open>The representations among the values of owned types.\<close>

definition is_rep :: "type_desc \<Rightarrow> host_value \<Rightarrow> u32 \<Rightarrow> bool" where
  "is_rep t v r \<longleftrightarrow> is_own t \<and> v = Plain (VU32 r)"

primrec carried :: "type_desc option list \<Rightarrow> host_value list \<Rightarrow> u32 \<Rightarrow> nat" where
  "carried ts [] r = 0"
| "carried ts (v # vs) r =
     (case ts of Some t # _ \<Rightarrow> if is_rep t v r then 1 else 0 | _ \<Rightarrow> 0) + carried (tl ts) vs r"

text \<open>Nothing but the handles of one instance may change, and of the store of resources only the lend counts and what is new.\<close>

definition keeps_owned :: "inst_id \<Rightarrow> 'a stream_state_scheme \<Rightarrow> 'a stream_state_scheme \<Rightarrow> bool" where
  "keeps_owned i s s' \<longleftrightarrow>
     this_inst s' = this_inst s \<and> fresh_ref s \<le> fresh_ref s' \<and>
     (\<forall>k. k \<noteq> i \<longrightarrow> table_of s' k = table_of s k) \<and>
     (\<forall>p < fresh_ref s. own (resources s' p) = own (resources s p) \<and> resource_rep (resources s' p) = resource_rep (resources s p))"

lemma keeps_owned_refl [simp, intro]: "keeps_owned i s s"
  by (simp add: keeps_owned_def)

lemma keeps_owned_trans [trans]: "keeps_owned i s s' \<Longrightarrow> keeps_owned i s' s'' \<Longrightarrow> keeps_owned i s s''"
  unfolding keeps_owned_def by fastforce

definition known_refs :: "'a stream_state_scheme \<Rightarrow> inst_id \<Rightarrow> bool" where
  "known_refs s i \<longleftrightarrow> (\<forall>h p. entries (table_of s i) h = Some (ResourceEntry p) \<longrightarrow> p < fresh_ref s)"

text \<open>The owned handles of the other instances stay.\<close>

lemma owned_other:
  assumes "keeps_owned i s s'" "k \<noteq> i" "known_refs s k"
  shows "owned s' k r = owned s k r" "known_refs s' k"
proof -
  have "own_handles s' k r = own_handles s k r"
    using assms unfolding own_handles_def keeps_owned_def known_refs_def by fastforce
  then show "owned s' k r = owned s k r" by (simp add: owned_def)
  show "known_refs s' k" using assms unfolding known_refs_def keeps_owned_def by fastforce
qed

text \<open>An owned handle that goes, and one that comes.\<close>

lemma owned_removed:
  assumes "entries (table_of s' i) = (entries (table_of s i))(h := None)" "resources s' = resources s"
    "entries (table_of s i) h = Some (ResourceEntry p)" "own (resources s p)"
  shows "owned s i r = owned s' i r + (if resource_rep (resources s p) = r then 1 else 0)"
proof -
  have eq: "own_handles s' i r = own_handles s i r - {h}"
    by (auto simp: own_handles_def assms(1,2) split: if_splits)
  have "h \<in> own_handles s i r \<longleftrightarrow> resource_rep (resources s p) = r"
    using assms(3,4) by (auto simp: own_handles_def)
  then show ?thesis
    by (auto simp: owned_def eq card_Diff_singleton_if Suc_diff_1 intro!: Suc_pred [symmetric] card_gt_0_iff [THEN iffD2])
qed

lemma owned_added:
  assumes "entries (table_of s' i) = (entries (table_of s i))(h \<mapsto> ResourceEntry (fresh_ref s))" "entries (table_of s i) h = None"
    "resources s' = (resources s)(fresh_ref s := e)" "known_refs s i"
  shows "owned s' i r = owned s i r + (if own e \<and> resource_rep e = r then 1 else 0)"
proof -
  have old: "p \<noteq> fresh_ref s" if "entries (table_of s i) k = Some (ResourceEntry p)" for k p
    using assms(4) that by (auto simp: known_refs_def)
  have "own_handles s' i r = (if own e \<and> resource_rep e = r then insert h (own_handles s i r) else own_handles s i r)"
    using assms(2) unfolding own_handles_def assms(1,3) by (auto dest: old)
  moreover have "h \<notin> own_handles s i r" using assms(2) by (simp add: own_handles_def)
  ultimately show ?thesis by (simp add: owned_def)
qed

lemma owned_same:
  assumes "entries (table_of s' i) = entries (table_of s i)"
    "\<And>p. own (resources s' p) = own (resources s p) \<and> resource_rep (resources s' p) = resource_rep (resources s p)"
  shows "owned s' i r = owned s i r"
  using assms by (simp add: owned_def own_handles_def)

subsection \<open>Arguments leave the table of the caller\<close>

lemma expect_handle_Inr: "expect_handle v s = (Inr h, s') \<longleftrightarrow> v = Plain (VU32 h) \<and> s' = s"
  by (auto simp: expect_handle_def split: host_value.splits val.splits)

lemma TakeOwn_Inr:
  "TakeOwn ti h s = (Inr r, s') \<longleftrightarrow>
     (\<exists>p. lookup ti h s = Inr p \<and> own (resources s p) \<and> lendCount (resources s p) = 0 \<and>
          r = resource_rep (resources s p) \<and> s' = retire h s)"
  by (auto simp: TakeOwn_def Let_def split: sum.splits if_splits)

lemma elem_desc_Inr: "elem_desc rs e s = (Inr x, s') \<Longrightarrow> s' = s"
  by (simp add: elem_desc_def)

lemma peek_Inr:
  "peekReadableStreamEnd env i elem h s = (Inr e, s') \<Longrightarrow> s' = s \<and> entries (tab s) h = Some (StreamEndEntry e)"
  "peekReadableFutureEnd env i elem h s = (Inr e, s') \<Longrightarrow> s' = s \<and> entries (tab s) h = Some (FutureEndEntry e)"
  by (auto simp: peekReadableStreamEnd_def peekReadableFutureEnd_def getEntry_def Let_def
      split: option.splits tableEntry.splits if_splits)

lemma take_end_Inr:
  "takeReadableStreamEnd env i elem h s = (Inr p, s') \<Longrightarrow> s' = retire h s \<and> (\<exists>e. entries (tab s) h = Some (StreamEndEntry e))"
  "takeReadableFutureEnd env i elem h s = (Inr p, s') \<Longrightarrow> s' = retire h s \<and> (\<exists>e. entries (tab s) h = Some (FutureEndEntry e))"
  by (auto simp: takeReadableStreamEnd_def takeReadableFutureEnd_def sbind_def modify_def getting_def removeEntry_simps
      split: prod.splits sum.splits dest!: peek_Inr)

lemma new_host_end_Inr:
  "new_host_end p s = (Inr r, s') \<Longrightarrow>
     s' = s\<lparr>fresh_ref := fresh_ref s + 1, host_ends := (host_ends s)(fresh_ref s := \<lparr>he_shared = p, he_state = copyIdle\<rparr>)\<rparr>"
  by (auto simp: new_host_end_def sbind_def new_ref_def modify_def upd_host_end_def)

text \<open>What an operation takes out of the table of the running instance: at most one handle, counted by \<open>f\<close>.\<close>

definition takes :: "(u32 \<Rightarrow> nat) \<Rightarrow> 'a stream_state_scheme \<Rightarrow> 'a stream_state_scheme \<Rightarrow> bool" where
  "takes f s s' \<longleftrightarrow> keeps_owned (this_inst s) s s' \<and> entries (tab s') \<subseteq>\<^sub>m entries (tab s) \<and>
     (\<forall>r. owned s (this_inst s) r = owned s' (this_inst s) r + f r)"

lemma takes_refl: "takes (\<lambda>_. 0) s s"
  by (simp add: takes_def)

lemma takes_trans:
  assumes "takes f s s'" "takes g s' s''"
  shows "takes (\<lambda>r. f r + g r) s s''"
proof -
  have "this_inst s' = this_inst s" using assms(1) by (simp add: takes_def keeps_owned_def)
  then show ?thesis using assms unfolding takes_def by (auto intro: keeps_owned_trans map_le_trans)
qed

lemma takes_known: "takes f s s' \<Longrightarrow> known_refs s (this_inst s) \<Longrightarrow> known_refs s' (this_inst s)"
  unfolding takes_def known_refs_def keeps_owned_def table_of_def map_le_def by (fastforce simp: dom_def)

lemma takes_retire_own:
  assumes "entries (tab s) h = Some (ResourceEntry p)" "own (resources s p)"
  shows "takes (\<lambda>r. if resource_rep (resources s p) = r then 1 else 0) s (retire h s)"
  using assms owned_removed [of "retire h s" "this_inst s" s h p]
  by (auto simp: takes_def keeps_owned_def table_of_def retire_def map_le_def)

lemma TakeOwn_takes: "TakeOwn ti h s = (Inr rep, s') \<Longrightarrow> takes (\<lambda>r. if rep = r then 1 else 0) s s'"
  using takes_retire_own by (fastforce simp: TakeOwn_Inr lookup_Inr)

lemma takes_unowned:
  assumes "entries (tab s') = (entries (tab s))(h := None) \<or> entries (tab s') = entries (tab s)"
    "\<And>p. entries (tab s) h = Some (ResourceEntry p) \<Longrightarrow> entries (tab s') = entries (tab s)"
    "\<And>p. own (resources s' p) = own (resources s p) \<and> resource_rep (resources s' p) = resource_rep (resources s p)"
    "this_inst s' = this_inst s" "fresh_ref s \<le> fresh_ref s'" "other_tabs s' = other_tabs s"
  shows "takes (\<lambda>_. 0) s s'"
proof -
  have "entries (tab s') k = Some (ResourceEntry p) \<longleftrightarrow> entries (tab s) k = Some (ResourceEntry p)" for k p
    using assms(1,2) by (cases "k = h") auto
  then have "own_handles s' (this_inst s) r = own_handles s (this_inst s) r" for r
    using assms(3,4) by (simp add: own_handles_def table_of_def)
  then show ?thesis
    using assms by (auto simp: takes_def keeps_owned_def table_of_def owned_def map_le_def split: if_splits)
qed

lemma takes_new_host_end: "new_host_end p s = (Inr r, s') \<Longrightarrow> takes (\<lambda>_. 0) s s'"
  by (drule new_host_end_Inr, rule takes_unowned [of _ _ 0]) auto

lemma lend_ref_instance [simp]: "this_inst (lend_ref p d s) = this_inst s" "other_tabs (lend_ref p d s) = other_tabs s"
  by (simp_all add: lend_ref_def)

lemma takes_lend:
  "lend_arg pp v s = (Inr l, s') \<Longrightarrow> takes (\<lambda>_. 0) s s'"
  by (rule takes_unowned [of _ _ 0])
    (auto simp: lend_arg_def Lend_def split: val.splits bool.splits sum.splits prod.splits)

lemma takes_end:
  "takeReadableStreamEnd env i elem h s = (Inr p, s') \<Longrightarrow> takes (\<lambda>_. 0) s s'"
  "takeReadableFutureEnd env i elem h s = (Inr p, s') \<Longrightarrow> takes (\<lambda>_. 0) s s'"
  by (drule take_end_Inr, rule takes_unowned [of _ _ h]; force simp: retire_def)+

lemma sbind_Inr: "sbind f g s = (Inr y, s') \<longleftrightarrow> (\<exists>x s1. f s = (Inr x, s1) \<and> g x s1 = (Inr y, s'))"
  by (auto simp: sbind_def split: prod.splits sum.splits)

lemma takes_then: "takes (\<lambda>_. 0) s s' \<Longrightarrow> takes f s' s'' \<Longrightarrow> takes f s s''"
  using takes_trans [of "\<lambda>_. 0" s s' f s''] by simp

lemma error_context_Inr:
  "(case getEntry h s of Some (ErrorContextEntry ec) \<Rightarrow> (Inr (f ec), s) | _ \<Rightarrow> (Inl e, s)) = (Inr a, s') \<Longrightarrow> s' = s"
  by (auto split: option.splits tableEntry.splits)

lemma resolveHandleArg_takes:
  assumes "resolveHandleArg env i can pt v s = (Inr a, s')"
  shows "takes (\<lambda>r. if is_rep pt a r then 1 else 0) s s'"
proof -
  have other: "takes (\<lambda>r. if is_rep pt a r then 1 else 0) s s'" if "takes (\<lambda>_. 0) s s'" "\<not> is_own pt"
    using that by (simp add: is_rep_def)
  note defs = resolveHandleArg_def Let_def sbind_Inr expect_handle_Inr
  show ?thesis
  proof (cases pt)
    case (OwnDesc x)
    then obtain h p where "lookup (case can of Some f \<Rightarrow> f x | None \<Rightarrow> x) h s = Inr p" "own (resources s p)"
      "a = Plain (VU32 (resource_rep (resources s p)))" "s' = retire h s"
      using assms by (auto simp: defs TakeOwn_Inr)
    then show ?thesis using takes_retire_own [of s h p] OwnDesc by (simp add: lookup_Inr is_rep_def is_own_def)
  next
    case (StreamDesc e)
    then show ?thesis using assms
      by (intro other) (auto simp: defs is_own_def dest!: elem_desc_Inr takes_end takes_new_host_end intro: takes_then)
  next
    case (FutureDesc e)
    then show ?thesis using assms
      by (intro other) (auto simp: defs is_own_def dest!: elem_desc_Inr takes_end takes_new_host_end intro: takes_then)
  qed (use assms in \<open>auto simp: defs is_rep_def is_own_def takes_refl split: if_splits dest!: error_context_Inr\<close>)
qed

lemma host_arg_takes: "host_arg env i pp v s = (Inr (a, l), s') \<Longrightarrow> takes (\<lambda>r. if is_rep (pp_pt pp) a r then 1 else 0) s s'"
  by (auto simp: host_arg_def sbind_Inr dest!: takes_lend resolveHandleArg_takes intro: takes_then)

lemma lift_stack_value_Inr: "lift_stack_value env rs stack mem pos pp s = (Inr v, s') \<Longrightarrow> s' = s"
  by (auto simp: lift_stack_value_def sbind_Inr split: if_splits)

lemma carried_Nil: "carried ts [] = (\<lambda>_. 0)"
  by (simp add: fun_eq_iff)

lemma lift_planned_takes:
  "lift_planned env i rs stack mem pos pps s = (Inr (args, lent), s') \<Longrightarrow>
   length args = length pps \<and> takes (carried (map (Some \<circ> pp_pt) pps) args) s s'"
proof (induction pps arbitrary: pos args lent s)
  case (Cons pp pps)
  then obtain v a l s1 args' lent' where 1: "host_arg env i pp v s = (Inr (a, l), s1)"
    and 2: "lift_planned env i rs stack mem (pos + length (pp_flat pp)) pps s1 = (Inr (args', lent'), s')" and "args = a # args'"
    by (auto simp: sbind_Inr dest!: lift_stack_value_Inr)
  then show ?case
    using Cons.IH [OF 2] takes_trans [OF host_arg_takes [OF 1], of "carried (map (Some \<circ> pp_pt) pps) args'" s'] by (simp add: o_def)
qed (auto simp: carried_Nil takes_refl)

lemma host_args_takes:
  "host_args env i ps s = (Inr (args, lent), s') \<Longrightarrow>
   length args = length ps \<and> takes (carried (map (Some \<circ> pp_pt \<circ> fst) ps) args) s s'"
proof (induction ps arbitrary: args lent s)
  case (Cons p ps)
  then obtain a l s1 args' lent' where 1: "host_arg env i (fst p) (snd p) s = (Inr (a, l), s1)"
    and 2: "host_args env i ps s1 = (Inr (args', lent'), s')" and "args = a # args'"
    by (auto simp: sbind_Inr)
  then show ?case
    using Cons.IH [OF 2] takes_trans [OF host_arg_takes [OF 1], of "carried (map (Some \<circ> pp_pt \<circ> fst) ps) args'" s'] by (simp add: o_def)
qed (auto simp: carried_Nil takes_refl)

subsection \<open>Arguments enter the table of the provider\<close>

text \<open>The room a table has: its free handles and the indices that were never used.\<close>

definition room :: "nat \<Rightarrow> handleTable \<Rightarrow> bool" where
  "room n t \<longleftrightarrow> n \<le> length (free t) + (2 ^ 32 - 1 - unat (next_index t))"

definition open_table :: "'a stream_state_scheme \<Rightarrow> inst_id \<Rightarrow> bool" where
  "open_table s j \<longleftrightarrow> index_ok (s\<lparr>tab := table_of s j\<rparr>) \<and> known_refs s j"

lemma last_index: "(n :: u32) + 1 = 0 \<longleftrightarrow> unat n = 2 ^ 32 - 1"
proof -
  have "n + 1 = 0 \<longleftrightarrow> n = - 1" by (simp add: eq_neg_iff_add_eq_0)
  moreover have "unat (- 1 :: u32) = 2 ^ 32 - 1" by code_simp
  ultimately show ?thesis by (metis word_unat_eq_iff)
qed

lemma room_has_room: "room (Suc n) (tab s) \<Longrightarrow> has_room s"
  by (cases "free (tab s)") (auto simp: room_def has_room_def last_index)

lemma room_addEntry: "index_ok s \<Longrightarrow> room (Suc n) (tab s) \<Longrightarrow> room n (tab (snd (addEntry e s)))"
proof (cases "free (tab s) = []")
  case True
  assume "index_ok s" and r: "room (Suc n) (tab s)"
  then have "unat (next_index (tab s) + 1) = Suc (unat (next_index (tab s)))"
    using True last_index [of "next_index (tab s)"] unatSuc [of "next_index (tab s)"]
    by (simp add: room_def add.commute)
  then show ?thesis using \<open>index_ok s\<close> True r by (simp add: addEntry_next index_ok_def room_def)
qed (simp add: addEntry_free index_ok_def room_def)

text \<open>What an operation adds to the table of an instance: at most \<open>n\<close> handles, and \<open>f\<close> owned ones.\<close>

definition puts :: "(u32 \<Rightarrow> nat) \<Rightarrow> inst_id \<Rightarrow> nat \<Rightarrow> 'a stream_state_scheme \<Rightarrow> 'a stream_state_scheme \<Rightarrow> bool" where
  "puts f j n s s' \<longleftrightarrow> keeps_owned j s s' \<and> open_table s' j \<and> (\<forall>m. room (n + m) (table_of s j) \<longrightarrow> room m (table_of s' j)) \<and>
     (\<forall>r. owned s' j r = owned s j r + f r)"

lemma puts_refl: "open_table s j \<Longrightarrow> puts (\<lambda>_. 0) j n s s"
  by (auto simp: puts_def room_def)

lemma puts_trans:
  assumes "puts f j m s s'" "puts g j n s' s''"
  shows "puts (\<lambda>r. f r + g r) j (m + n) s s''"
  using assms unfolding puts_def by (auto intro: keeps_owned_trans simp: add.assoc)

lemma in_other_instance:
  assumes "j \<noteq> this_inst s" "f (s\<lparr>tab := other_tabs s j\<rparr>) = (r, s1)"
  shows "in_instance j f s = (r, s1\<lparr>tab := tab s, other_tabs := (other_tabs s1)(j := tab s1)\<rparr>)"
  using assms by (simp add: in_instance_def)

lemma puts_add_resource:
  assumes j: "j \<noteq> this_inst s" and s: "open_table s j" "room (Suc 0) (table_of s j)"
    and add: "add_resource e (s\<lparr>tab := other_tabs s j\<rparr>) = (h, s1)"
  shows "puts (\<lambda>r. if own e \<and> resource_rep e = r then 1 else 0) j 1 s (s1\<lparr>tab := tab s, other_tabs := (other_tabs s1)(j := tab s1)\<rparr>)"
proof -
  let ?s = "s\<lparr>tab := other_tabs s j\<rparr>" and ?s' = "s1\<lparr>tab := tab s, other_tabs := (other_tabs s1)(j := tab s1)\<rparr>"
  have t: "table_of s j = other_tabs s j" using j by (simp add: table_of_def)
  have ok: "index_ok ?s" "has_room ?s" using s t room_has_room [of 0 ?s] by (simp_all add: open_table_def)
  note o = add_resource_open [OF ok add]
  have s1: "this_inst s1 = this_inst s" "other_tabs s1 = other_tabs s"
    using add by (auto simp: add_resource_def alloc_resource_def addEntry_def Let_def split: if_splits)
  have t': "table_of ?s' j = tab s1" "\<And>k. k \<noteq> j \<Longrightarrow> table_of ?s' k = table_of s k" "this_inst ?s' = this_inst s"
    using j s1 by (auto simp: table_of_def)
  have "keeps_owned j s ?s'" using t' o by (auto simp: keeps_owned_def)
  moreover have "open_table ?s' j"
  proof -
    have "index_ok (?s'\<lparr>tab := table_of ?s' j\<rparr>)" using o(1) by (simp add: t'(1) index_ok_def)
    moreover have "known_refs ?s' j"
      using s(1) unfolding open_table_def known_refs_def t'(1) t by (simp add: o(4,6)) (metis less_SucI)
    ultimately show ?thesis by (simp add: open_table_def)
  qed
  moreover have "room m (table_of ?s' j)" if "room (1 + m) (table_of s j)" for m
    using room_addEntry [of "snd (alloc_resource e ?s)" m "ResourceEntry (fresh_ref s)"] ok that add t t'(1)
    by (simp add: add_resource_def alloc_resource_def index_ok_def)
  moreover have "owned ?s' j r = owned s j r + (if own e \<and> resource_rep e = r then 1 else 0)" for r
    using owned_added [of ?s' j s h e r] o t t' s(1) by (simp add: open_table_def)
  ultimately show ?thesis by (simp add: puts_def)
qed

lemma puts_minted:
  assumes "j \<noteq> this_inst s" "open_table s j" "room (Suc 0) (table_of s j)"
    "add_resource e (s\<lparr>tab := other_tabs s j, numBorrows := n\<rparr>) = (h, s1)"
  shows "puts (\<lambda>r. if own e \<and> resource_rep e = r then 1 else 0) j 1 s (s1\<lparr>tab := tab s, other_tabs := (other_tabs s1)(j := tab s1)\<rparr>)"
proof -
  let ?s = "s\<lparr>numBorrows := n\<rparr>"
  have t: "table_of ?s = table_of s" by (simp add: table_of_def fun_eq_iff)
  have o: "open_table ?s j" using assms(2) by (simp add: open_table_def t known_refs_def index_ok_def)
  have j: "j \<noteq> this_inst ?s" using assms(1) by simp
  have r: "room (Suc 0) (table_of ?s j)" using assms(3) by (simp only: t)
  have swap: "s\<lparr>tab := other_tabs s j, numBorrows := n\<rparr> = ?s\<lparr>tab := other_tabs ?s j\<rparr>" by simp
  from puts_add_resource [OF j o r assms(4) [unfolded swap]]
  show ?thesis by (simp add: puts_def keeps_owned_def owned_def own_handles_def t)
qed

lemma repToProviderHandle_puts:
  assumes "repToProviderHandle env gr j t v scope s = (Inr a, s')" "j \<noteq> this_inst s" "open_table s j" "room (Suc 0) (table_of s j)"
  shows "puts (\<lambda>r. if is_rep t v r then 1 else 0) j 1 s s'"
proof -
  have pure: "puts (\<lambda>r. if is_rep t v r then 1 else 0) j 1 s s'" if "s' = s" "\<not> is_own t"
    using that puts_refl [OF assms(3)] by (simp add: is_rep_def)
  note mint = puts_minted [OF assms(2-4)]
  note defs = repToProviderHandle_def Let_def sbind_Inr expect_handle_Inr NewOwn_def NewBorrow_def add_def
  show ?thesis
  proof (cases t)
    case (OwnDesc x)
    let ?e = "\<lambda>rep. \<lparr>typeIdx = canonTag (stream_part env) j x, resource_rep = rep, own = True, lendCount = 0, borrowScope = None\<rparr>"
    obtain rep h s1 where v: "v = Plain (VU32 rep)" and "add_resource (?e rep) (s\<lparr>tab := other_tabs s j\<rparr>) = (h, s1)"
      and s': "s' = s1\<lparr>tab := tab s, other_tabs := (other_tabs s1)(j := tab s1)\<rparr>"
      using assms(1,2) OwnDesc by (auto simp: defs in_instance_def split: prod.splits)
    with mint [of "?e rep" "numBorrows s" h s1] show ?thesis by (simp add: v OwnDesc is_rep_def is_own_def eq_commute)
  next
    case (BorrowDesc x)
    let ?e = "\<lambda>rep. \<lparr>typeIdx = canonTag (stream_part env) j x, resource_rep = rep, own = False, lendCount = 0, borrowScope = scope\<rparr>"
    obtain rep where v: "v = Plain (VU32 rep)" using assms(1) BorrowDesc by (auto simp: defs)
    show ?thesis
    proof (cases "gr j (canonTag (stream_part env) j x)")
      case True
      then show ?thesis using assms(1) BorrowDesc v by (intro pure) (simp_all add: defs is_own_def expect_handle_def)
    next
      case False
      obtain n h s1 where "add_resource (?e rep) (s\<lparr>tab := other_tabs s j, numBorrows := n\<rparr>) = (h, s1)"
        and "s' = s1\<lparr>tab := tab s, other_tabs := (other_tabs s1)(j := tab s1)\<rparr>"
      proof (cases scope)
        case None
        then show thesis using assms(1,2) BorrowDesc v False that [of "numBorrows s"]
          by (auto simp: defs in_instance_def split: prod.splits)
      next
        case (Some c)
        then show thesis using assms(1,2) BorrowDesc v False that [of "(numBorrows s)(c := numBorrows s c + 1)"]
          by (auto simp: defs in_instance_def NewBorrowScoped_def split: prod.splits)
      qed
      with mint [of "?e rep" n h s1] show ?thesis by (simp add: BorrowDesc is_rep_def is_own_def)
    qed
  qed (rule pure; use assms(1) in \<open>auto simp: defs is_own_def getting_def split: host_value.splits\<close>)+
qed

lemma map_values_puts:
  assumes f: "\<And>t v a s s'. f t v s = (Inr a, s') \<Longrightarrow> j \<noteq> this_inst s \<Longrightarrow> open_table s j \<Longrightarrow> room (Suc 0) (table_of s j) \<Longrightarrow>
      puts (\<lambda>r. if is_rep t v r then 1 else 0) j 1 s s'"
  shows "map_values f ts args s = (Inr out, s') \<Longrightarrow> j \<noteq> this_inst s \<Longrightarrow> open_table s j \<Longrightarrow> room (length args) (table_of s j) \<Longrightarrow>
    puts (carried ts args) j (length args) s s'"
proof (induction args arbitrary: ts out s)
  case Nil
  then show ?case using puts_refl [of s j 0] by (simp add: carried_Nil)
next
  case (Cons v args)
  then obtain x s1 xs where 1: "(case ts of Some t # _ \<Rightarrow> f t v | _ \<Rightarrow> sret v) s = (Inr x, s1)"
    and 2: "map_values f (tl ts) args s1 = (Inr xs, s')"
    by (auto simp: sbind_Inr)
  have step: "puts (\<lambda>r. case ts of Some t # _ \<Rightarrow> if is_rep t v r then 1 else 0 | _ \<Rightarrow> 0) j 1 s s1"
  proof (cases "\<exists>t ts'. ts = Some t # ts'")
    case True
    then show ?thesis using f [of _ v s x s1] 1 Cons.prems by (auto simp: room_def)
  next
    case False
    then have "s1 = s" and none: "(case ts of Some t # _ \<Rightarrow> if is_rep t v r then 1 else 0 | _ \<Rightarrow> 0) = (0 :: nat)" for r
      using 1 by (auto split: list.splits option.splits)
    then show ?thesis using puts_refl [OF Cons.prems(3), of 1] by (simp only: none)
  qed
  moreover have "puts (carried (tl ts) args) j (length args) s1 s'"
    using step Cons.prems by (intro Cons.IH [OF 2]) (auto simp: puts_def keeps_owned_def)
  ultimately show ?case using puts_trans [of _ j 1 s s1 "carried (tl ts) args" "length args" s'] by (simp add: fun_eq_iff)
qed

text \<open>The types on both sides of a delegated call own at the same places.\<close>

definition same_owns :: "type_desc list \<Rightarrow> type_desc list \<Rightarrow> bool" where
  "same_owns ts ts' \<longleftrightarrow> list_all2 (\<lambda>t t'. is_own t \<longleftrightarrow> is_own t') ts ts'"

lemma carried_same: "same_owns ts ts' \<Longrightarrow> carried (map Some ts) vs r = carried (map Some ts') vs r"
  unfolding same_owns_def
proof (induction vs arbitrary: ts ts')
  case (Cons v vs)
  from Cons.prems show ?case by (cases rule: list.rel_cases) (simp_all add: is_rep_def Cons.IH)
qed simp

lemma takes_open:
  assumes "takes f s s'" "j \<noteq> this_inst s" "open_table s j"
  shows "open_table s' j" "table_of s' j = table_of s j" "j \<noteq> this_inst s'" "owned s' j r = owned s j r"
proof -
  from assms(1) have k: "keeps_owned (this_inst s) s s'" by (simp add: takes_def)
  then show t: "table_of s' j = table_of s j" and "j \<noteq> this_inst s'" using assms(2) by (simp_all add: keeps_owned_def)
  have known: "known_refs s j" using assms(3) by (simp add: open_table_def)
  from owned_other [OF k assms(2) known] t assms(3)
  show "open_table s' j" "owned s' j r = owned s j r" by (simp_all add: open_table_def index_ok_def)
qed

text \<open>C25. An owned resource that is passed to another component is neither lost nor duplicated: after the arguments of a delegated
  call have been lifted from the caller and mapped into the provider, the provider has one more handle that owns a
  representation for each argument that carries it, the caller has as many fewer, and the tables of all other instances are as
  they were.\<close>

theorem arguments_move_owned:
  assumes lift: "liftHostArgsPlanned env i plans rs stack m s = (Inr (args, lent), s1)"
    and put: "mapArgsToProvider env gr j (map Some ts) args scope s1 = (Inr provided, s2)"
    and same: "same_owns (map pp_pt plans) ts"
    and ok: "j \<noteq> this_inst s" "known_refs s (this_inst s)" "open_table s j" "room (length plans) (table_of s j)"
  shows "owned s2 j r = owned s j r + carried (map Some ts) args r \<and>
    owned s (this_inst s) r = owned s2 (this_inst s) r + carried (map Some ts) args r \<and>
    (\<forall>k. k \<noteq> j \<longrightarrow> k \<noteq> this_inst s \<longrightarrow> table_of s2 k = table_of s k)"
proof -
  have t: "takes (carried (map (Some \<circ> pp_pt) plans) args) s s1" and n: "length args = length plans"
    using lift_planned_takes [OF lift [unfolded liftHostArgsPlanned_def]] by simp_all
  note o = takes_open [OF t ok(1,3)]
  have p: "puts (carried (map Some ts) args) j (length args) s1 s2"
    by (rule map_values_puts [OF _ put [unfolded mapArgsToProvider_def] o(3,1)], erule (3) repToProviderHandle_puts)
      (simp add: n o(2) ok(4))
  have kept: "keeps_owned j s1 s2" "this_inst s1 = this_inst s" "keeps_owned (this_inst s) s s1"
    using p t by (simp_all add: puts_def takes_def keeps_owned_def)
  have "owned s2 (this_inst s) r = owned s1 (this_inst s) r"
    using owned_other(1) [OF kept(1), of "this_inst s" r] takes_known [OF t ok(2)] ok(1) kept(2) by simp
  moreover have "carried (map (Some \<circ> pp_pt) plans) args r = carried (map Some ts) args r"
    using carried_same [OF same, of args r] by simp
  ultimately show ?thesis using t p o(4) [of r] kept by (auto simp: takes_def puts_def keeps_owned_def)
qed

subsection \<open>Results come back\<close>

definition takes_from :: "inst_id \<Rightarrow> (u32 \<Rightarrow> nat) \<Rightarrow> 'a stream_state_scheme \<Rightarrow> 'a stream_state_scheme \<Rightarrow> bool" where
  "takes_from j f s s' \<longleftrightarrow> keeps_owned j s s' \<and> entries (table_of s' j) \<subseteq>\<^sub>m entries (table_of s j) \<and> (\<forall>r. owned s j r = owned s' j r + f r)"

lemma in_instance_takes:
  assumes "in_instance j f s = (x, s')" "j \<noteq> this_inst s"
    "\<And>s1. f (s\<lparr>tab := other_tabs s j\<rparr>) = (x, s1) \<Longrightarrow> takes g (s\<lparr>tab := other_tabs s j\<rparr>) s1"
  shows "takes_from j g s s'"
proof -
  let ?s = "s\<lparr>tab := other_tabs s j\<rparr>"
  obtain s1 where f: "f ?s = (x, s1)" and s': "s' = s1\<lparr>tab := tab s, other_tabs := (other_tabs s1)(j := tab s1)\<rparr>"
    using assms(1,2) by (auto simp: in_instance_def split: prod.splits)
  from assms(3) [OF f] have t: "takes g ?s s1" .
  then have inst: "this_inst s1 = this_inst s" and others: "\<And>k. k \<noteq> this_inst s \<Longrightarrow> other_tabs s1 k = other_tabs s k"
    by (auto simp: takes_def keeps_owned_def table_of_def split: if_splits)
  have "owned ?s (this_inst s) r = owned s j r" "owned s1 (this_inst s) r = owned s' j r" for r
    using assms(2) by (simp_all add: owned_def own_handles_def table_of_def s' inst)
  then show ?thesis
    using t assms(2) others by (auto simp: takes_from_def takes_def keeps_owned_def table_of_def s' inst)
qed

lemma providerHandleToRep_takes:
  assumes "providerHandleToRep env j t v s = (Inr a, s')" "j \<noteq> this_inst s"
  shows "takes_from j (\<lambda>r. if is_rep t a r then 1 else 0) s s'"
proof -
  note defs = providerHandleToRep_def Let_def sbind_Inr expect_handle_Inr
  have none: "takes_from j (\<lambda>_. 0) s s" by (simp add: takes_from_def)
  show ?thesis
  proof (cases t)
    case (OwnDesc x)
    then obtain h rep where "a = Plain (VU32 rep)" and i: "in_instance j (TakeOwn (canonTag (stream_part env) j x) h) s = (Inr rep, s')"
      using assms(1) by (auto simp: defs)
    moreover have "takes_from j (\<lambda>r. if rep = r then 1 else 0) s s'"
      by (rule in_instance_takes [OF i assms(2)]) (rule TakeOwn_takes)
    ultimately show ?thesis using OwnDesc by (simp add: is_rep_def is_own_def)
  next
    case (BorrowDesc x)
    then obtain h rep where i: "in_instance j (\<lambda>s. slift (Rep (canonTag (stream_part env) j x) h s) s) s = (Inr rep, s')"
      using assms(1) by (auto simp: defs)
    have "takes_from j (\<lambda>_. 0) s s'" by (rule in_instance_takes [OF i assms(2)]) (auto intro: takes_refl)
    then show ?thesis using BorrowDesc by (simp add: is_rep_def is_own_def)
  next
    case (StreamDesc e)
    then obtain elem h p where i: "in_instance j (takeReadableStreamEnd (stream_part env) (Some j) elem h) s = (Inr p, s')"
      using assms(1) by (auto simp: defs dest!: elem_desc_Inr)
    have "takes_from j (\<lambda>_. 0) s s'" by (rule in_instance_takes [OF i assms(2)]) (auto intro: takes_end)
    then show ?thesis using StreamDesc by (simp add: is_rep_def is_own_def)
  next
    case (FutureDesc e)
    then obtain elem h p where i: "in_instance j (takeReadableFutureEnd (stream_part env) (Some j) elem h) s = (Inr p, s')"
      using assms(1) by (auto simp: defs dest!: elem_desc_Inr)
    have "takes_from j (\<lambda>_. 0) s s'" by (rule in_instance_takes [OF i assms(2)]) (auto intro: takes_end)
    then show ?thesis using FutureDesc by (simp add: is_rep_def is_own_def)
  qed (use assms(1) none in \<open>simp_all add: defs is_rep_def is_own_def\<close>)
qed

text \<open>What the running instance gains by a result.\<close>

definition gains :: "(u32 \<Rightarrow> nat) \<Rightarrow> 'a stream_state_scheme \<Rightarrow> 'a stream_state_scheme \<Rightarrow> bool" where
  "gains f s s' \<longleftrightarrow> keeps_owned (this_inst s) s s' \<and> (\<forall>r. owned s' (this_inst s) r = owned s (this_inst s) r + f r)"

lemma gains_resource:
  assumes "add_resource e s = (h, s')" "index_ok s" "known_refs s (this_inst s)" "has_room s"
  shows "gains (\<lambda>r. if own e \<and> resource_rep e = r then 1 else 0) s s'"
proof -
  note o = add_resource_open [OF assms(2,4,1)]
  have s': "this_inst s' = this_inst s" "other_tabs s' = other_tabs s"
    using assms(1) by (auto simp: add_resource_def alloc_resource_def addEntry_def Let_def split: if_splits)
  have "owned s' (this_inst s) r = owned s (this_inst s) r + (if own e \<and> resource_rep e = r then 1 else 0)" for r
    using owned_added [of s' "this_inst s" s h e r] o s' assms(3) by (simp add: table_of_def)
  then show ?thesis using o s' by (auto simp: gains_def keeps_owned_def table_of_def)
qed

lemma gains_entry:
  assumes "addEntry x s1 = (h, s')" "index_ok s" "has_room s" "\<And>p. x \<noteq> ResourceEntry p"
    "tab s1 = tab s" "resources s1 = resources s" "fresh_ref s \<le> fresh_ref s1" "this_inst s1 = this_inst s" "other_tabs s1 = other_tabs s"
  shows "gains (\<lambda>_. 0) s s'"
proof -
  have "index_ok s1" "has_room s1" using assms(2,3,5) by (simp_all add: index_ok_def has_room_def)
  note o = addEntry_index [OF this, of x]
  have s': "s' = snd (addEntry x s1)" "h = fst (addEntry x s1)" using assms(1) by simp_all
  have f: "this_inst s' = this_inst s" "other_tabs s' = other_tabs s" "resources s' = resources s" "fresh_ref s \<le> fresh_ref s'"
    using assms(1,5-9) by (auto simp: addEntry_def Let_def split: if_splits)
  have "entries (tab s') k = Some (ResourceEntry p) \<longleftrightarrow> entries (tab s) k = Some (ResourceEntry p)" for k p
    using o(2,4) assms(4) by (simp add: s' assms(5))
  then have "own_handles s' (this_inst s) r = own_handles s (this_inst s) r" for r
    by (simp add: own_handles_def table_of_def f)
  then show ?thesis using f by (simp add: gains_def keeps_owned_def table_of_def owned_def)
qed

lemma returned_pair: "(case x of (h, s1) \<Rightarrow> (Inr (g h), s1)) = (Inr a, s') \<longleftrightarrow> (\<exists>h. x = (h, s') \<and> a = g h)"
  by (auto split: prod.splits)

lemma allocHandleResult_gains:
  assumes "allocHandleResult t v s = (Inr a, s')" "index_ok s" "known_refs s (this_inst s)" "has_room s"
  shows "gains (\<lambda>r. if is_rep t v r then 1 else 0) s s'"
proof -
  note defs = allocHandleResult_def sbind_Inr expect_handle_Inr NewOwn_def NewBorrow_def add_def
    new_readable_stream_def new_readable_future_def new_error_context_def new_ref_def modify_def add_entry_def Let_def returned_pair
  have pure: "gains (\<lambda>_. 0) s s" by (simp add: gains_def)
  show ?thesis
  proof (cases t)
    case (OwnDesc x)
    then obtain rep h where v: "v = Plain (VU32 rep)" and
      "add_resource \<lparr>typeIdx = x, resource_rep = rep, own = True, lendCount = 0, borrowScope = None\<rparr> s = (h, s')"
      using assms(1) by (auto simp: defs)
    from gains_resource [OF this(2) assms(2-4)] show ?thesis by (simp add: v OwnDesc is_rep_def is_own_def eq_commute)
  next
    case (BorrowDesc x)
    then show ?thesis using assms by (auto simp: defs is_rep_def is_own_def dest!: gains_resource)
  next
    case (StreamDesc e)
    then obtain h x s1 where "addEntry (StreamEndEntry x) s1 = (h, s')" "tab s1 = tab s" "resources s1 = resources s"
      "fresh_ref s \<le> fresh_ref s1" "this_inst s1 = this_inst s" "other_tabs s1 = other_tabs s"
      using assms(1) by (auto simp: defs split: host_value.splits prod.splits)
    from gains_entry [OF this(1) assms(2,4) _ this(2-6)] show ?thesis using StreamDesc by (simp add: is_rep_def is_own_def)
  next
    case (FutureDesc e)
    then obtain h x s1 where "addEntry (FutureEndEntry x) s1 = (h, s')" "tab s1 = tab s" "resources s1 = resources s"
      "fresh_ref s \<le> fresh_ref s1" "this_inst s1 = this_inst s" "other_tabs s1 = other_tabs s"
      using assms(1) by (auto simp: defs split: host_value.splits prod.splits)
    from gains_entry [OF this(1) assms(2,4) _ this(2-6)] show ?thesis using FutureDesc by (simp add: is_rep_def is_own_def)
  next
    case (PrimitiveDesc p)
    show ?thesis
    proof (cases "p = ''error-context''")
      case True
      then obtain h x s1 where "addEntry (ErrorContextEntry x) s1 = (h, s')" "tab s1 = tab s" "resources s1 = resources s"
        "fresh_ref s \<le> fresh_ref s1" "this_inst s1 = this_inst s" "other_tabs s1 = other_tabs s"
        using assms(1) PrimitiveDesc by (auto simp: defs split: host_value.splits val.splits prod.splits)
      from gains_entry [OF this(1) assms(2,4) _ this(2-6)] show ?thesis using PrimitiveDesc by (simp add: is_rep_def is_own_def)
    qed (use assms(1) PrimitiveDesc pure in \<open>simp add: defs is_rep_def is_own_def\<close>)
  qed (use assms(1) pure in \<open>simp_all add: defs is_rep_def is_own_def\<close>)
qed

text \<open>C26. Nor is an owned resource lost or duplicated on the way back: the result of the provider leaves its table and enters that of
  the caller, under a handle that owns the same representation.\<close>

theorem result_moves_owned:
  assumes take: "mapResultsFromProvider env j (Some t') [v] s = (Inr [w], s1)"
    and put: "allocHandleResult t w s1 = (Inr a, s2)"
    and same: "is_own t \<longleftrightarrow> is_own t'"
    and ok: "j \<noteq> this_inst s" "open_table s (this_inst s)" "known_refs s j" "room 1 (tab s)"
  shows "owned s j r = owned s2 j r + carried [Some t] [w] r \<and>
    owned s2 (this_inst s) r = owned s (this_inst s) r + carried [Some t] [w] r \<and>
    (\<forall>k. k \<noteq> j \<longrightarrow> k \<noteq> this_inst s \<longrightarrow> table_of s2 k = table_of s k)"
proof -
  have "providerHandleToRep env j t' v s = (Inr w, s1)"
    using take by (auto simp: mapResultsFromProvider_def resultDescs_def sbind_Inr)
  from providerHandleToRep_takes [OF this ok(1)] have t: "takes_from j (\<lambda>r. if is_rep t w r then 1 else 0) s s1"
    using same by (simp add: is_rep_def)
  then have k: "keeps_owned j s s1" and i: "this_inst s1 = this_inst s" by (simp_all add: takes_from_def keeps_owned_def)
  then have tab: "tab s1 = tab s" using ok(1) unfolding keeps_owned_def table_of_def by (metis i)
  have known: "known_refs s (this_inst s)" using ok(2) by (simp add: open_table_def)
  note this_kept = owned_other [OF k ok(1) [symmetric] known]
  have g: "gains (\<lambda>r. if is_rep t w r then 1 else 0) s1 s2"
    using ok(2,4) room_has_room [of 0 s1] this_kept(2)
    by (intro allocHandleResult_gains [OF put]) (simp_all add: i tab open_table_def table_of_def index_ok_def)
  have "known_refs s1 j"
    using t ok(3) unfolding takes_from_def keeps_owned_def known_refs_def map_le_def by (fastforce simp: dom_def)
  then have "owned s2 j r = owned s1 j r" using g owned_other(1) [of "this_inst s1" s1 s2 j r] ok(1) i by (simp add: gains_def)
  then show ?thesis using t g this_kept(1) [of r] i by (auto simp: takes_from_def gains_def keeps_owned_def)
qed

subsection \<open>Lends\<close>

definition lookup_lent :: "lentHandle \<Rightarrow> 'a table_state_scheme \<Rightarrow> runtime_error + ref" where
  "lookup_lent l s = lookup (lh_tag l) (lh_handle l) s"

text \<open>How often a resource is among some lends.\<close>

definition lends :: "lentHandle list \<Rightarrow> 'a table_state_scheme \<Rightarrow> ref \<Rightarrow> nat" where
  "lends ls s p = length (filter (\<lambda>l. lookup_lent l s = Inr p) ls)"

lemma lends_simps [simp]:
  "lends [] s p = 0" "lends (l # ls) s p = (if lookup_lent l s = Inr p then 1 else 0) + lends ls s p"
  "lends (ls @ ms) s p = lends ls s p + lends ms s p"
  by (simp_all add: lends_def)

text \<open>The lends are counted, they can be found, and no lent handle went away.\<close>

definition lent_ok :: "lentHandle list \<Rightarrow> 'a table_state_scheme \<Rightarrow> 'a table_state_scheme \<Rightarrow> bool" where
  "lent_ok ls s s' \<longleftrightarrow>
     (\<forall>p. resources s' p = (resources s p)\<lparr>lendCount := lendCount (resources s p) + int (lends ls s' p)\<rparr>) \<and>
     (\<forall>l \<in> set ls. \<exists>p. lookup_lent l s' = Inr p) \<and>
     (\<forall>h p. entries (tab s) h = Some (ResourceEntry p) \<longrightarrow> lendCount (resources s p) > 0 \<longrightarrow> entries (tab s') h = Some (ResourceEntry p))"

lemma lent_ok_keeps: "lent_ok [] s s" "resources s' = resources s \<Longrightarrow> tab s' = tab s \<Longrightarrow> lent_ok [] s s'"
  by (simp_all add: lent_ok_def)

text \<open>A lent handle is still found after further lends.\<close>

lemma lent_ok_found:
  assumes "lent_ok ls s s1" "lent_ok ms s1 s2" "\<And>p. 0 \<le> lendCount (resources s p)" "l \<in> set ls"
  shows "lookup_lent l s2 = lookup_lent l s1"
proof -
  obtain p where p: "lookup_lent l s1 = Inr p" using assms(1,4) unfolding lent_ok_def by blast
  then have "lends ls s1 p > 0" using assms(4) by (auto simp: lends_def filter_empty_conv)
  then have "lendCount (resources s1 p) > 0" using assms(1,3) by (simp add: lent_ok_def add_nonneg_pos)
  then have "lookup_lent l s2 = Inr p" using p assms(2) by (auto simp: lookup_lent_def lookup_Inr lent_ok_def)
  with p show ?thesis by simp
qed

lemma lent_ok_append:
  assumes "lent_ok ls s s1" "lent_ok ms s1 s2" "\<And>p. 0 \<le> lendCount (resources s p)"
  shows "lent_ok (ls @ ms) s s2"
proof -
  note found = lent_ok_found [OF assms]
  have "lends ls s2 p = lends ls s1 p" for p
    using found by (simp add: lends_def cong: filter_cong)
  moreover have "lendCount (resources s1 p) \<ge> lendCount (resources s p)" for p using assms(1) by (simp add: lent_ok_def)
  ultimately show ?thesis
    using assms(1,2) found unfolding lent_ok_def by (auto simp: add.assoc)
qed

lemma lend_arg_lent: "lend_arg pp v s = (Inr l, s') \<Longrightarrow> lent_ok l s s'"
  by (auto simp: lend_arg_def Lend_def lent_ok_def lookup_lent_def lookup_Inr lend_ref_def
      split: val.splits bool.splits sum.splits prod.splits)

lemma retire_lent:
  "entries (tab s) h = Some (ResourceEntry p) \<Longrightarrow> lendCount (resources s p) = 0 \<Longrightarrow> lent_ok [] s (retire h s)"
  "(\<And>p. entries (tab s) h \<noteq> Some (ResourceEntry p)) \<Longrightarrow> lent_ok [] s (retire h s)"
  by (auto simp: lent_ok_def)

lemma lent_ok_then: "lent_ok [] s s1 \<Longrightarrow> resources s2 = resources s1 \<Longrightarrow> tab s2 = tab s1 \<Longrightarrow> lent_ok [] s s2"
  by (simp add: lent_ok_def)

lemma resolveHandleArg_lent:
  assumes "resolveHandleArg env i can pt v s = (Inr a, s')"
  shows "lent_ok [] s s'"
proof -
  note defs = resolveHandleArg_def Let_def sbind_Inr expect_handle_Inr
  show ?thesis
  proof (cases pt)
    case (OwnDesc x)
    then show ?thesis using assms by (auto simp: defs TakeOwn_Inr lookup_Inr intro: retire_lent)
  next
    case (StreamDesc e)
    then show ?thesis using assms
      by (auto simp: defs dest!: elem_desc_Inr take_end_Inr new_host_end_Inr intro!: lent_ok_then [OF retire_lent(2)])
  next
    case (FutureDesc e)
    then show ?thesis using assms
      by (auto simp: defs dest!: elem_desc_Inr take_end_Inr new_host_end_Inr intro!: lent_ok_then [OF retire_lent(2)])
  qed (use assms in \<open>auto simp: defs lent_ok_keeps split: if_splits dest!: error_context_Inr\<close>)
qed

lemma host_arg_lent: "host_arg env i pp v s = (Inr (a, l), s') \<Longrightarrow> (\<And>p. 0 \<le> lendCount (resources s p)) \<Longrightarrow> lent_ok l s s'"
  using lent_ok_append [of l s _ "[]"] by (fastforce simp: host_arg_def sbind_Inr dest: lend_arg_lent resolveHandleArg_lent)

lemma lift_planned_lent:
  "lift_planned env i rs stack mem pos pps s = (Inr (args, lent), s') \<Longrightarrow> (\<And>p. 0 \<le> lendCount (resources s p)) \<Longrightarrow> lent_ok lent s s'"
proof (induction pps arbitrary: pos args lent s)
  case (Cons pp pps)
  then obtain v a l s1 args' lent' where 1: "host_arg env i pp v s = (Inr (a, l), s1)"
    and 2: "lift_planned env i rs stack mem (pos + length (pp_flat pp)) pps s1 = (Inr (args', lent'), s')" and lent: "lent = l @ lent'"
    by (auto simp: sbind_Inr dest!: lift_stack_value_Inr)
  note l = host_arg_lent [OF 1 Cons.prems(2)]
  then have "0 \<le> lendCount (resources s1 p)" for p using Cons.prems(2) [of p] by (simp add: lent_ok_def)
  from lent_ok_append [OF l Cons.IH [OF 2 this] Cons.prems(2)] show ?case by (simp add: lent)
qed (simp add: lent_ok_keeps)

text \<open>The plans that are made of a signature know which parameters are borrows.\<close>

definition plan_ok :: "hostParamPlan \<Rightarrow> bool" where
  "plan_ok pp \<longleftrightarrow> (pp_isBorrow pp \<longleftrightarrow> pp_pt pp = BorrowDesc (pp_borrowRT pp)) \<and> (\<forall>r. pp_pt pp = BorrowDesc r \<longrightarrow> pp_borrowRT pp = r)"

lemma buildHostParamPlan_ok: "buildHostParamPlan fuel rs p = Inr pp \<Longrightarrow> plan_ok pp"
  unfolding buildHostParamPlan_def plan_ok_def
  by (clarsimp simp: rbind_eq_Inr split: if_splits) (simp split: type_desc.splits)

lemma plan_okD:
  "plan_ok pp \<Longrightarrow> pp_isBorrow pp \<Longrightarrow> pp_pt pp = BorrowDesc (pp_borrowRT pp)"
  "plan_ok pp \<Longrightarrow> pp_pt pp = BorrowDesc r \<Longrightarrow> pp_isBorrow pp"
  "plan_ok pp \<Longrightarrow> pp_pt pp = BorrowDesc r \<Longrightarrow> pp_borrowRT pp = r"
  unfolding plan_ok_def by metis+

lemma build_plans_ok: "build_plans fuel rs ps = Inr pps \<Longrightarrow> list_all plan_ok pps"
proof (induction ps arbitrary: pps)
  case (Cons p ps)
  then show ?case
    by (auto simp: rbind_eq_Inr dest: buildHostParamPlan_ok)
qed simp

text \<open>A borrowed argument is lent when it is lifted, and its value is the representation of what was lent.\<close>

lemma host_arg_borrow:
  assumes "host_arg env i pp v s = (Inr (a, l), s')" "plan_ok pp"
  shows "length l = (if pp_isBorrow pp then 1 else 0)"
    and "pp_pt pp = BorrowDesc r \<Longrightarrow> \<exists>h p. l = [\<lparr>lh_tag = r, lh_handle = h\<rparr>] \<and> lookup r h s' = Inr p \<and> a = Plain (VU32 (resource_rep (resources s' p)))"
proof -
  obtain s1 where 1: "lend_arg pp v s = (Inr l, s1)" "resolveHandleArg env i None (pp_pt pp) (Plain v) s1 = (Inr a, s')"
    using assms(1) by (auto simp: host_arg_def sbind_Inr)
  have borrow: "\<exists>h p. l = [\<lparr>lh_tag = r, lh_handle = h\<rparr>] \<and> lookup r h s' = Inr p \<and> a = Plain (VU32 (resource_rep (resources s' p)))"
    if pt: "pp_pt pp = BorrowDesc r" for r
  proof -
    note b = plan_okD(2,3) [OF assms(2) pt]
    obtain h rep where h: "v = VU32 h" "Rep r h s1 = Inr rep" "a = Plain (VU32 rep)" "s' = s1"
      using 1(2) pt by (auto simp: resolveHandleArg_def Let_def sbind_Inr expect_handle_Inr slift_def split: sum.splits)
    then obtain p where p: "lookup r h s1 = Inr p" "rep = resource_rep (resources s1 p)" by (auto simp: Rep_def rbind_eq_Inr)
    show ?thesis
    proof (cases "lookup r h s")
      case (Inl e)
      then have "s1 = s" using 1(1) b h(1) by (simp add: lend_arg_def Lend_def)
      then show ?thesis using p(1) Inl by simp
    next
      case (Inr q)
      then have "l = [\<lparr>lh_tag = r, lh_handle = h\<rparr>]" using 1(1) b h(1) by (simp add: lend_arg_def Lend_def)
      then show ?thesis using p h by blast
    qed
  qed
  then show "pp_pt pp = BorrowDesc r \<Longrightarrow> \<exists>h p. l = [\<lparr>lh_tag = r, lh_handle = h\<rparr>] \<and> lookup r h s' = Inr p \<and> a = Plain (VU32 (resource_rep (resources s' p)))"
    by blast
  show "length l = (if pp_isBorrow pp then 1 else 0)"
  proof (cases "pp_isBorrow pp")
    case True
    from borrow [OF plan_okD(1) [OF assms(2) True]] True show ?thesis by auto
  next
    case False
    then show ?thesis using 1(1) by (simp add: lend_arg_def)
  qed
qed

lemma lift_planned_borrows:
  assumes "lift_planned env i rs stack mem pos pps s = (Inr (args, lent), s')" "\<And>p. 0 \<le> lendCount (resources s p)" "list_all plan_ok pps"
  shows "length lent = length (filter pp_isBorrow pps) \<and> (\<forall>k < length pps. \<forall>r. pp_pt (pps ! k) = BorrowDesc r \<longrightarrow>
    (\<exists>h p. \<lparr>lh_tag = r, lh_handle = h\<rparr> \<in> set lent \<and> lookup r h s' = Inr p \<and> args ! k = Plain (VU32 (resource_rep (resources s' p)))))"
  using assms
proof (induction pps arbitrary: pos args lent s)
  case (Cons pp pps)
  then obtain v a l s1 args' lent' where 1: "host_arg env i pp v s = (Inr (a, l), s1)"
    and 2: "lift_planned env i rs stack mem (pos + length (pp_flat pp)) pps s1 = (Inr (args', lent'), s')" and lent: "lent = l @ lent'" "args = a # args'"
    by (auto simp: sbind_Inr dest!: lift_stack_value_Inr)
  note l = host_arg_lent [OF 1 Cons.prems(2)]
  then have nonneg: "0 \<le> lendCount (resources s1 p)" for p using Cons.prems(2) [of p] by (simp add: lent_ok_def)
  note rest = lift_planned_lent [OF 2 nonneg]
  have ok: "plan_ok pp" "list_all plan_ok pps" using Cons.prems(3) by simp_all
  note IH = Cons.IH [OF 2 nonneg ok(2)]
  have first: "\<exists>h p. \<lparr>lh_tag = r, lh_handle = h\<rparr> \<in> set l \<and> lookup r h s' = Inr p \<and> a = Plain (VU32 (resource_rep (resources s' p)))"
    if "pp_pt pp = BorrowDesc r" for r
  proof -
    obtain h p where h: "l = [\<lparr>lh_tag = r, lh_handle = h\<rparr>]" "lookup r h s1 = Inr p" "a = Plain (VU32 (resource_rep (resources s1 p)))"
      using host_arg_borrow(2) [OF 1 ok(1) \<open>pp_pt pp = BorrowDesc r\<close>] by blast
    have "lookup r h s' = Inr p"
      using lent_ok_found [OF l rest Cons.prems(2), of "\<lparr>lh_tag = r, lh_handle = h\<rparr>"] h by (simp add: lookup_lent_def)
    moreover have "resource_rep (resources s' p) = resource_rep (resources s1 p)" using rest by (simp add: lent_ok_def)
    ultimately show ?thesis using h by auto
  qed
  have "length lent = length (filter pp_isBorrow (pp # pps))"
    using IH host_arg_borrow(1) [OF 1 ok(1)] by (simp add: lent(1))
  moreover have "\<exists>h p. \<lparr>lh_tag = r, lh_handle = h\<rparr> \<in> set lent \<and> lookup r h s' = Inr p \<and> args ! k = Plain (VU32 (resource_rep (resources s' p)))"
    if "k < length (pp # pps)" "pp_pt ((pp # pps) ! k) = BorrowDesc r" for k r
  proof (cases k)
    case 0
    then show ?thesis using first [of r] that(2) by (auto simp: lent)
  next
    case (Suc j)
    then have "j < length pps" "pp_pt (pps ! j) = BorrowDesc r" using that by simp_all
    then show ?thesis using IH Suc by (fastforce simp: lent)
  qed
  ultimately show ?case by blast
qed simp

lemma unlend_all_lends:
  assumes "\<And>l. l \<in> set ls \<Longrightarrow> \<exists>p. lookup_lent l s = Inr p" "\<And>p. int (lends ls s p) \<le> lendCount (resources s p)"
  shows "lendCount (resources (unlend_all ls s) p) = lendCount (resources s p) - int (lends ls s p)"
  using assms
proof (induction ls arbitrary: s)
  case (Cons l ls)
  obtain q where q: "lookup_lent l s = Inr q" using Cons.prems(1) by auto
  have "lendCount (resources s q) \<noteq> 0" using Cons.prems(2) [of q] q by simp
  then have u: "snd (Unlend (lh_tag l) (lh_handle l) s) = lend_ref q (- 1) s"
    using q by (simp add: Unlend_def lookup_lent_def)
  have same: "lookup_lent k (lend_ref q (- 1) s) = lookup_lent k s" for k
    by (simp add: lookup_lent_def lookup_def getEntry_def split: option.split tableEntry.split)
  then have n: "lends ls (lend_ref q (- 1) s) p = lends ls s p" for p by (simp add: lends_def)
  have c: "lendCount (resources (lend_ref q (- 1) s) p) = lendCount (resources s p) - (if p = q then 1 else 0)" for p
    by (simp add: lend_ref_def)
  have "int (lends ls (lend_ref q (- 1) s) p) \<le> lendCount (resources (lend_ref q (- 1) s) p)" for p
    using Cons.prems(2) [of p] q by (auto simp: n c split: if_splits)
  from Cons.IH [OF _ this] Cons.prems(1) show ?case by (simp add: u same n c q)
qed simp

text \<open>C27. A borrowed argument is lent exactly as long as the call runs: when the arguments have been lifted by the plans of a signature,
  each borrowed parameter has a lend of its own, which names a live resource that is lent more often than before, and its argument is
  the representation of this resource; no other lends were made. If the call leaves these handles and counts as it found them, their
  release afterwards gives every resource the count it had before.\<close>

theorem borrows_lent_for_the_call:
  assumes plans: "buildHostParamPlans fuel types fd = Inr plans"
    and lift: "liftHostArgsPlanned env i plans rs stack m s = (Inr (args, lent), s1)"
    and nonneg: "\<And>p. 0 \<le> lendCount (resources s p)"
    and call: "f s1 = (r, s2)" "\<And>l. l \<in> set lent \<Longrightarrow> lookup_lent l s2 = lookup_lent l s1"
      "\<And>p. lendCount (resources s2 p) = lendCount (resources s1 p)"
  shows "length lent = length (filter pp_isBorrow plans) \<and>
    (\<forall>k < length plans. \<forall>rt. pp_pt (plans ! k) = BorrowDesc rt \<longrightarrow>
      (\<exists>h p. \<lparr>lh_tag = rt, lh_handle = h\<rparr> \<in> set lent \<and> lookup rt h s1 = Inr p \<and>
         lendCount (resources s p) < lendCount (resources s1 p) \<and> args ! k = Plain (VU32 (resource_rep (resources s1 p))))) \<and>
    (\<forall>p. lendCount (resources s1 p) = lendCount (resources s p) + int (lends lent s1 p)) \<and>
    (\<forall>p. lendCount (resources (snd (releasing lent f s1)) p) = lendCount (resources s p))"
proof -
  have l: "lent_ok lent s s1"
    using lift_planned_lent [OF lift [unfolded liftHostArgsPlanned_def] nonneg] .
  then have count: "lendCount (resources s1 p) = lendCount (resources s p) + int (lends lent s1 p)" for p by (simp add: lent_ok_def)
  have found: "\<exists>p. lookup_lent l s1 = Inr p" if "l \<in> set lent" for l using l that unfolding lent_ok_def by blast
  have same: "lends lent s2 p = lends lent s1 p" for p using call(2) by (simp add: lends_def cong: filter_cong)
  have "lendCount (resources (unlend_all lent s2) p) = lendCount (resources s2 p) - int (lends lent s2 p)" for p
    using found call(2,3) nonneg by (intro unlend_all_lends) (simp_all add: same count)
  then have released: "lendCount (resources (snd (releasing lent f s1)) p) = lendCount (resources s p)" for p
    using call(1,3) by (simp add: releasing_def same count)
  have up: "lendCount (resources s p) < lendCount (resources s1 p)" if "\<lparr>lh_tag = rt, lh_handle = h\<rparr> \<in> set lent" "lookup rt h s1 = Inr p" for rt h p
    using that by (force simp: count lends_def lookup_lent_def filter_empty_conv)
  have ok: "list_all plan_ok plans" using plans build_plans_ok by (simp add: buildHostParamPlans_def)
  from lift_planned_borrows [OF lift [unfolded liftHostArgsPlanned_def] nonneg ok] show ?thesis
    using up count released by blast
qed

subsection \<open>Signatures\<close>

definition retarget :: "(u32 \<Rightarrow> u32 option) \<Rightarrow> type_desc \<Rightarrow> type_desc" where
  "retarget translate td = (case translated_desc translate td of Some d \<Rightarrow> d | None \<Rightarrow> td)"

text \<open>The synthetic indices are the ones from the base up to the next.\<close>

definition synth_ok :: "nat \<Rightarrow> synth_types \<Rightarrow> bool" where
  "synth_ok n st \<longleftrightarrow> unat (synth_next st) \<le> unat translateResourceIdxBase + n \<and> unat translateResourceIdxBase \<le> unat (synth_next st) \<and>
     (\<forall>i \<in> dom (synth st). translateResourceIdxBase \<le> i \<and> i < synth_next st)"

definition with_synth :: "synth_types \<Rightarrow> instance_resolver \<Rightarrow> instance_resolver" where
  "with_synth st prov k = (case synth st k of Some d \<Rightarrow> Some d | None \<Rightarrow> prov k)"

lemma translate_ref_extends:
  assumes "translate_ref prov translate ref st = (ref', st')" "synth_ok n st" "n < 2 ^ 24"
  shows "synth_ok (Suc n) st'" "synth st \<subseteq>\<^sub>m synth st'"
    "resolveTypeRef ref prov = Inr td \<Longrightarrow> synth st' \<subseteq>\<^sub>m synth fin \<Longrightarrow> (\<And>i. i \<in> dom (synth fin) \<Longrightarrow> prov i = None) \<Longrightarrow>
      resolveTypeRef ref' (with_synth fin prov) = Inr (retarget translate td)"
proof -
  have base: "unat translateResourceIdxBase = 16777216" by (simp add: translateResourceIdxBase_def)
  have step: "synth_ok (Suc n) (st\<lparr>synth := (synth st)(synth_next st \<mapsto> d), synth_next := synth_next st + 1\<rparr>)" for d
  proof -
    have "unat (synth_next st) + 1 < 2 ^ 32" using assms(2,3) by (simp add: synth_ok_def base)
    then have "unat (synth_next st + 1) = Suc (unat (synth_next st))" by (simp add: unat_plus_if')
    then show ?thesis using assms(2) by (auto simp: synth_ok_def base word_le_nat_alt word_less_nat_alt less_Suc_eq Ball_def dom_def)
  qed
  have new: "synth st \<subseteq>\<^sub>m (synth st)(synth_next st \<mapsto> d)" for d
    using assms(2) by (auto simp: map_le_def synth_ok_def)
  have weak: "synth_ok (Suc n) st" using assms(2) by (auto simp: synth_ok_def)
  show "synth_ok (Suc n) st'" "synth st \<subseteq>\<^sub>m synth st'"
    using assms(1) step new weak by (auto simp: translate_ref_def split: sum.splits option.splits)
  assume r: "resolveTypeRef ref prov = Inr td" and fin: "synth st' \<subseteq>\<^sub>m synth fin" "\<And>i. i \<in> dom (synth fin) \<Longrightarrow> prov i = None"
  show "resolveTypeRef ref' (with_synth fin prov) = Inr (retarget translate td)"
  proof (cases "translated_desc translate td")
    case None
    then have "ref' = ref" using assms(1) r by (simp add: translate_ref_def)
    moreover have "synth fin i = None" if "prov i = Some t" for i t using fin(2) [of i] that by (cases "synth fin i") auto
    ultimately show ?thesis using r None
      by (auto simp: resolveTypeRef_def with_synth_def retarget_def split: if_splits option.splits)
  next
    case (Some d)
    then have "ref' = \<lparr>Primitive = '''', TypeIndex = Some (synth_next st)\<rparr>" "synth st' (synth_next st) = Some d"
      using assms(1) r by (auto simp: translate_ref_def)
    moreover from this(2) fin(1) have "synth fin (synth_next st) = Some d" by (auto simp: map_le_def dom_def)
    ultimately show ?thesis using Some by (simp add: resolveTypeRef_def with_synth_def retarget_def)
  qed
qed

lemma translate_refs_extends:
  assumes "translate_refs prov translate refs st = (refs', st')" "synth_ok n st" "n + length refs < 2 ^ 24"
  shows "synth_ok (n + length refs) st' \<and> synth st \<subseteq>\<^sub>m synth st' \<and> length refs' = length refs \<and>
    (\<forall>fin. synth st' \<subseteq>\<^sub>m synth fin \<longrightarrow> (\<forall>i \<in> dom (synth fin). prov i = None) \<longrightarrow>
      (\<forall>k < length refs. \<forall>td. resolveTypeRef (refs ! k) prov = Inr td \<longrightarrow>
         resolveTypeRef (refs' ! k) (with_synth fin prov) = Inr (retarget translate td)))"
  using assms
proof (induction refs arbitrary: st refs' n)
  case (Cons r refs)
  obtain r' st1 rs' where 1: "translate_ref prov translate r st = (r', st1)"
    and 2: "translate_refs prov translate refs st1 = (rs', st')" and refs': "refs' = r' # rs'"
    using Cons.prems(1) by (auto simp: Let_def split: prod.splits)
  have n: "n < 2 ^ 24" using Cons.prems(3) by simp
  note first = translate_ref_extends [OF 1 Cons.prems(2) n]
  have rest: "synth_ok (Suc n + length refs) st' \<and> synth st1 \<subseteq>\<^sub>m synth st' \<and> length rs' = length refs \<and>
    (\<forall>fin. synth st' \<subseteq>\<^sub>m synth fin \<longrightarrow> (\<forall>i \<in> dom (synth fin). prov i = None) \<longrightarrow>
      (\<forall>k < length refs. \<forall>td. resolveTypeRef (refs ! k) prov = Inr td \<longrightarrow>
         resolveTypeRef (rs' ! k) (with_synth fin prov) = Inr (retarget translate td)))"
    using Cons.prems(3) by (intro Cons.IH [OF 2 first(1)]) simp
  then have ext: "synth st \<subseteq>\<^sub>m synth st'" using first(2) by (blast intro: map_le_trans)
  have "resolveTypeRef ((r' # rs') ! k) (with_synth fin prov) = Inr (retarget translate td)"
    if "synth st' \<subseteq>\<^sub>m synth fin" "\<forall>i \<in> dom (synth fin). prov i = None" "k < length (r # refs)"
      "resolveTypeRef ((r # refs) ! k) prov = Inr td" for fin k td
  proof (cases k)
    case 0
    have "synth st1 \<subseteq>\<^sub>m synth fin" using rest that(1) by (blast intro: map_le_trans)
    with first(3) [of td fin] that 0 show ?thesis by simp
  next
    case (Suc m)
    then show ?thesis using rest that by simp
  qed
  then show ?case using rest ext by (simp add: refs')
qed (simp add: synth_ok_def)

lemma renamed_refs:
  "length rs = length ps \<Longrightarrow> map ParamType (map (\<lambda>(p, r). \<lparr>ParamName = ParamName p, ParamType = r\<rparr>) (zip ps rs)) = rs \<and>
     map ParamName (map (\<lambda>(p, r). \<lparr>ParamName = ParamName p, ParamType = r\<rparr>) (zip ps rs)) = map ParamName ps"
  "length rs = length ns \<Longrightarrow> map ResultType (map (\<lambda>(n, r). \<lparr>ResultName = ResultName n, ResultType = r\<rparr>) (zip ns rs)) = rs"
  subgoal by (induction rs ps rule: list_induct2) simp_all
  subgoal by (induction rs ns rule: list_induct2) simp_all
  done

lemma translateResourceFD_parts:
  assumes "translateResourceFD fd prov translate = (fd', rs')"
    "translate_refs prov translate (map ParamType (Params fd)) \<lparr>synth = Map.empty, synth_next = translateResourceIdxBase\<rparr> = (ps, st1)"
    "translate_refs prov translate (funcResultTypeRefs fd) st1 = (rs, st3)"
    "length ps = length (Params fd)" "length rs = length (funcResultTypeRefs fd)"
  shows "map ParamType (Params fd') = ps" "map ParamName (Params fd') = map ParamName (Params fd)"
    "funcResultTypeRefs fd' = rs" "rs' = with_synth st3 prov"
  using assms renamed_refs(1) [OF assms(4)] renamed_refs(2) [of rs "Named (Results fd)"]
  by (cases "Unnamed (Results fd)";
      auto simp: translateResourceFD_def funcResultTypeRefs_def with_synth_def fun_eq_iff Let_def split: prod.splits; fail)+

text \<open>The signature of a delegated import is that of the export with the resources of the importer: each parameter and each
  result whose type the provider can resolve resolves under the importer's resolver to the same type, except that a handle of a
  resource that both sides name is a handle of the importer's resource; every other type keeps its index and its meaning, and
  the names are the export's. The provider's own indices are below the first synthetic one.\<close>

theorem translated_signature:
  assumes fd: "translateResourceFD fd prov translate = (fd', rs')"
    and prov: "\<And>i. translateResourceIdxBase \<le> i \<Longrightarrow> prov i = None"
    and small: "length (Params fd) + length (funcResultTypeRefs fd) < 2 ^ 24"
  shows "map ParamName (Params fd') = map ParamName (Params fd) \<and>
    length (funcResultTypeRefs fd') = length (funcResultTypeRefs fd) \<and>
    (\<forall>k < length (Params fd). \<forall>td. resolveTypeRef (ParamType (Params fd ! k)) prov = Inr td \<longrightarrow>
       resolveTypeRef (ParamType (Params fd' ! k)) rs' = Inr (retarget translate td)) \<and>
    (\<forall>k < length (funcResultTypeRefs fd). \<forall>td. resolveTypeRef (funcResultTypeRefs fd ! k) prov = Inr td \<longrightarrow>
       resolveTypeRef (funcResultTypeRefs fd' ! k) rs' = Inr (retarget translate td)) \<and>
    (\<forall>i < translateResourceIdxBase. rs' i = prov i)"
proof -
  let ?st = "\<lparr>synth = Map.empty, synth_next = translateResourceIdxBase\<rparr>"
  obtain ps st1 where 1: "translate_refs prov translate (map ParamType (Params fd)) ?st = (ps, st1)" by (rule prod.exhaust)
  have "synth_ok 0 ?st" by (simp add: synth_ok_def)
  note p = translate_refs_extends [OF 1 this]
  obtain rs st3 where 2: "translate_refs prov translate (funcResultTypeRefs fd) st1 = (rs, st3)" by (rule prod.exhaust)
  have r: "synth_ok (length (Params fd) + length (funcResultTypeRefs fd)) st3 \<and> synth st1 \<subseteq>\<^sub>m synth st3 \<and> length rs = length (funcResultTypeRefs fd) \<and>
    (\<forall>fin. synth st3 \<subseteq>\<^sub>m synth fin \<longrightarrow> (\<forall>i \<in> dom (synth fin). prov i = None) \<longrightarrow>
      (\<forall>k < length (funcResultTypeRefs fd). \<forall>td. resolveTypeRef (funcResultTypeRefs fd ! k) prov = Inr td \<longrightarrow>
         resolveTypeRef (rs ! k) (with_synth fin prov) = Inr (retarget translate td)))"
    using p small by (intro translate_refs_extends [OF 2]) simp_all
  have low: "prov i = None" "translateResourceIdxBase \<le> i" if "i \<in> dom (synth st3)" for i
    using r that prov by (auto simp: synth_ok_def)
  have "length ps = length (Params fd)" "length rs = length (funcResultTypeRefs fd)" using p r small by simp_all
  note eq = translateResourceFD_parts [OF fd 1 2 this]
  have "length (Params fd') = length (Params fd)" using eq(2) by (metis length_map)
  then have nth: "ParamType (Params fd' ! k) = ps ! k" if "k < length (Params fd)" for k using eq(1) that by auto
  have "rs' i = prov i" if "i < translateResourceIdxBase" for i
    using low(2) [of i] that by (cases "synth st3 i") (auto simp: eq with_synth_def dom_def)
  then show ?thesis using p r low small eq nth by auto
qed

subsection \<open>Examples\<close>

text \<open>Instance 0 holds handle 1, which owns resource 42 of type 7. It is passed to instance 5, which knows the type as 3, and
  comes back; and it is lent to the host.\<close>

definition own_plan :: hostParamPlan where
  "own_plan = \<lparr>pp_pt = OwnDesc 7, pp_flat = [''i32''], pp_usesMem = False, pp_isBorrow = False, pp_borrowRT = 0\<rparr>"

definition borrow_plan :: hostParamPlan where
  "borrow_plan = \<lparr>pp_pt = BorrowDesc 7, pp_flat = [''i32''], pp_usesMem = False, pp_isBorrow = True, pp_borrowRT = 7\<rparr>"

lemma endpoint_example_tables:
  "tab endpoint_example = newHandleTable\<lparr>entries := [1 \<mapsto> ResourceEntry 0], next_index := 2\<rparr>"
  "this_inst endpoint_example = 0" "other_tabs endpoint_example k = newHandleTable" "fresh_ref endpoint_example = 11"
  "resources endpoint_example 0 = \<lparr>typeIdx = 7, resource_rep = 42, own = True, lendCount = 0, borrowScope = None\<rparr>"
  "0 \<le> lendCount (resources endpoint_example p)"
  by (simp_all add: endpoint_example_def stream_example_def builtin_example_def inst_example_def sched_example_def wait_example_def
      one_own_def empty_table_def NewOwn_def add_def add_resource_def alloc_resource_def addEntry_def newHandleTable_def
      endpoint_state.defs stream_state.defs builtin_state.defs inst_state.defs sched_state.defs wait_state.defs table_state.defs)

lemma below_two: "Suc 0 \<le> unat x \<Longrightarrow> unat x < 2 \<Longrightarrow> x = (1 :: u32)"
  by (simp add: word_unat_eq_iff)

lemma endpoint_example_open: "open_table endpoint_example 0" "open_table endpoint_example 5"
  by (auto simp: open_table_def index_ok_def known_refs_def table_of_def endpoint_example_tables newHandleTable_def word_le_nat_alt word_less_nat_alt
      dest: below_two split: if_splits)

abbreviation (input) lift_example where
  "lift_example pp \<equiv> liftHostArgsPlanned endpoint_example_env 0 [pp] (\<lambda>_. None) [1] None endpoint_example"

lemma lift_own_example: "fst (lift_example own_plan) = Inr ([Plain (VU32 42)], [])"
  by code_simp

lemma lift_borrow_example: "fst (lift_example borrow_plan) = Inr ([Plain (VU32 42)], [\<lparr>lh_tag = 7, lh_handle = 1\<rparr>])"
  by code_simp

abbreviation (input) give_example where
  "give_example \<equiv> mapArgsToProvider endpoint_example_env (\<lambda>_ _. False) 5 (map Some [OwnDesc 3]) [Plain (VU32 42)] None (snd (lift_example own_plan))"

lemma give_own_example: "fst give_example = Inr [Plain (VU32 1)]"
  by code_simp

theorem arguments_move_owned_witness:
  "owned (snd give_example) 5 42 = owned endpoint_example 5 42 + 1 \<and> owned endpoint_example 0 42 = owned (snd give_example) 0 42 + 1"
proof -
  have lift: "lift_example own_plan = (Inr ([Plain (VU32 42)], []), snd (lift_example own_plan))"
    using lift_own_example by (simp add: prod_eq_iff)
  have give: "give_example = (Inr [Plain (VU32 1)], snd give_example)" using give_own_example by (simp add: prod_eq_iff)
  have "same_owns (map pp_pt [own_plan]) [OwnDesc 3]" by (simp add: same_owns_def own_plan_def is_own_def)
  moreover have "known_refs endpoint_example 0" using endpoint_example_open(1) by (simp add: open_table_def)
  moreover have "room (length [own_plan]) (table_of endpoint_example 5)"
    by (simp add: room_def table_of_def endpoint_example_tables newHandleTable_def)
  ultimately show ?thesis
    using arguments_move_owned [OF lift give, of 42] endpoint_example_open(2)
    by (simp add: endpoint_example_tables is_rep_def is_own_def)
qed

text \<open>Instance 5 holds the resource and returns it.\<close>

abbreviation (input) provider_example :: endpoint_state where
  "provider_example \<equiv> endpoint_example\<lparr>tab := newHandleTable, other_tabs := (\<lambda>_. tab endpoint_example)\<rparr>"

abbreviation (input) back_example where
  "back_example \<equiv> mapResultsFromProvider endpoint_example_env 5 (Some (OwnDesc 7)) [Plain (VU32 1)] provider_example"

theorem result_moves_owned_witness:
  "owned (snd (allocHandleResult (OwnDesc 9) (Plain (VU32 42)) (snd back_example))) 0 42 = owned provider_example 0 42 + 1"
proof -
  have "fst back_example = Inr [Plain (VU32 42)]" by code_simp
  then have take: "back_example = (Inr [Plain (VU32 42)], snd back_example)" by (simp add: prod_eq_iff)
  let ?p = "allocHandleResult (OwnDesc 9) (Plain (VU32 42)) (snd back_example)"
  have "fst ?p = Inr (Plain (VU32 1))" by code_simp
  then have put: "?p = (Inr (Plain (VU32 1)), snd ?p)" by (simp add: prod_eq_iff)
  have ok: "5 \<noteq> this_inst provider_example" "open_table provider_example (this_inst provider_example)" "known_refs provider_example 5"
    "room 1 (tab provider_example)"
    by (auto simp: open_table_def index_ok_def known_refs_def table_of_def room_def endpoint_example_tables newHandleTable_def
        split: if_splits)
  show ?thesis
    using result_moves_owned [OF take put _ ok, of 42] by (simp add: is_own_def is_rep_def endpoint_example_tables)
qed

lemma borrow_plan_built:
  "buildHostParamPlans 1 (\<lambda>_. Some (BorrowDesc 7)) \<lparr>Params = [\<lparr>ParamName = ''x'', ParamType = tidx 0\<rparr>],
     Results = \<lparr>Unnamed = None, Named = []\<rparr>, Async = False\<rparr> = Inr [borrow_plan]"
  by code_simp

theorem borrows_lent_for_the_call_witness:
  "\<exists>s1. lift_example borrow_plan = (Inr ([Plain (VU32 42)], [\<lparr>lh_tag = 7, lh_handle = 1\<rparr>]), s1) \<and>
     (\<exists>p. lookup 7 1 s1 = Inr p \<and> 0 < lendCount (resources s1 p)) \<and>
     (\<forall>p. lendCount (resources (snd (releasing [\<lparr>lh_tag = 7, lh_handle = 1\<rparr>] (sret ()) s1)) p) = lendCount (resources endpoint_example p))"
proof -
  have lift: "lift_example borrow_plan = (Inr ([Plain (VU32 42)], [\<lparr>lh_tag = 7, lh_handle = 1\<rparr>]), snd (lift_example borrow_plan))"
    using lift_borrow_example by (simp add: prod_eq_iff)
  have nonneg: "0 \<le> lendCount (resources endpoint_example p)" for p by (simp add: endpoint_example_tables)
  have "sret () (snd (lift_example borrow_plan)) = (Inr (), snd (lift_example borrow_plan))" by (simp add: sret_def)
  note all = borrows_lent_for_the_call [where f = "sret ()", OF borrow_plan_built lift nonneg this refl refl]
  obtain h p where "\<lparr>lh_tag = 7, lh_handle = h\<rparr> \<in> set [\<lparr>lh_tag = 7, lh_handle = 1\<rparr>]" "lookup 7 h (snd (lift_example borrow_plan)) = Inr p"
    "lendCount (resources endpoint_example p) < lendCount (resources (snd (lift_example borrow_plan)) p)"
    using all by (fastforce simp: borrow_plan_def)
  then have p: "lookup 7 1 (snd (lift_example borrow_plan)) = Inr p"
    "lendCount (resources endpoint_example p) < lendCount (resources (snd (lift_example borrow_plan)) p)" by simp_all
  have "0 < lendCount (resources (snd (lift_example borrow_plan)) p)" using p(2) nonneg [of p] by linarith
  then show ?thesis using lift all p(1) by blast
qed

theorem translated_signature_witness:
  "\<exists>fd' rs'. translateResourceFD \<lparr>Params = [\<lparr>ParamName = ''x'', ParamType = tidx 2\<rparr>], Results = \<lparr>Unnamed = None, Named = []\<rparr>, Async = False\<rparr>
       (\<lambda>i. if i = 2 then Some (OwnDesc 3) else None) (\<lambda>r. if r = 3 then Some 7 else None) = (fd', rs') \<and>
     resolveTypeRef (ParamType (Params fd' ! 0)) rs' = Inr (OwnDesc 7)"
proof -
  let ?fd = "\<lparr>Params = [\<lparr>ParamName = ''x'', ParamType = tidx 2\<rparr>], Results = \<lparr>Unnamed = None, Named = []\<rparr>, Async = False\<rparr>"
  let ?prov = "\<lambda>i :: u32. if i = 2 then Some (OwnDesc 3) else None" and ?tr = "\<lambda>r :: u32. if r = 3 then Some 7 else None"
  obtain fd' rs' where fd: "translateResourceFD ?fd ?prov ?tr = (fd', rs')" by (rule prod.exhaust)
  have "?prov i = None" if "translateResourceIdxBase \<le> i" for i
    using that by (auto simp: translateResourceIdxBase_def word_le_nat_alt)
  from translated_signature [OF fd this] fd show ?thesis
    by (simp add: funcResultTypeRefs_def resolveTypeRef_def tidx_def retarget_def translated_desc_def)
qed

subsection \<open>Where the code falls short\<close>

text \<open>A second argument that cannot be lifted leaves the first one lent: the wrapper panics before it defers the release.\<close>

lemma failed_argument_leaves_lend:
  "let s' = snd (liftHostArgsPlanned endpoint_example_env 0 [borrow_plan, own_plan] (\<lambda>_. None) [1, 9] None endpoint_example) in
   fst (liftHostArgsPlanned endpoint_example_env 0 [borrow_plan, own_plan] (\<lambda>_. None) [1, 9] None endpoint_example) = Inl UnknownHandle \<and>
   lendCount (resources s' 0) = 1"
  by code_simp

text \<open>The type of the elements of a stream argument is looked up among the types of the importer, although the signature of a
  delegated import, and the resolver that belongs to it, are the provider's: the resolver \<open>rs\<close> has no influence, and where the
  importer has no type with the provider's number the call fails.\<close>

lemma stream_element_of_importer:
  assumes "inst_resolve env i k = None"
  shows "resolveHandleArg env i can (StreamDesc (Some (tidx k))) (Plain (VU32 h)) s = (Inl (AbiError (ResolvedToNil k)), s)"
  using assms by (simp add: resolveHandleArg_def sbind_def expect_handle_def elem_desc_def resolveTypeRef_def tidx_def abi_def)

end
