(* ===== verification/Export_Call.thy ===== *)
theory Export_Call
  imports Host_Call Plan
begin

text \<open>
  Calls into a component: the synchronous call path of \<open>internal/instance/instance.go\<close>, from what is computed once when an
  export is bound (\<open>computeBoundExportABI\<close>) over the lowering of the arguments and the call of the core function to the lifting
  of its result. The running instance is the target of the call, and \<open>mod\<close>, the module whose memory is used, is never nil. A core
  function is a parameter: an operation on the core values of its parameters that traps or returns those of its results.
  The pools of scratch buffers and the lock that serialises the calls of an instance are not modelled.
\<close>

subsection \<open>Binding\<close>

record param_abi =
  pa_type :: "type_desc option"
  pa_usesMemory :: bool
  pa_err :: "runtime_error option"
  pa_step :: LowerStep
  pa_hasResource :: bool

record boundExportABI =
  coreParamsWant :: "string list"
  coreResultsWant :: "string list"
  flattenErr :: "runtime_error option"
  param_abis :: "param_abi list"
  paramsSpill :: bool
  paramTuple :: "type_ref list"
  hasResult :: bool
  tooManyResults :: nat
  resultType :: "type_desc option"
  resultUsesMemory :: bool
  resultFlatKinds :: "string list"
  resultStep :: LiftStep
  resultErr :: "runtime_error option"

text \<open>One round of the loops over the parameters.\<close>

definition compute_param :: "nat \<Rightarrow> instance_resolver \<Rightarrow> func_param \<Rightarrow> param_abi" where
  "compute_param fuel rs p =
     (case resolveTypeRef (ParamType p) rs of
        Inl e \<Rightarrow> \<lparr>pa_type = None, pa_usesMemory = False, pa_err = Some (AbiError e), pa_step = zero_LowerStep, pa_hasResource = False\<rparr>
      | Inr pt \<Rightarrow>
          (let a = \<lparr>pa_type = Some pt, pa_usesMemory = False, pa_err = None, pa_step = zero_LowerStep,
                    pa_hasResource = typeContainsResource pt rs 0\<rparr> in
           if typeContainsAsyncValueNested pt rs 0 then a\<lparr>pa_err := Some NestedAsyncValue\<rparr>
           else case uses_memory fuel rs pt of
               Inl e \<Rightarrow> a\<lparr>pa_err := Some e\<rparr>
             | Inr um \<Rightarrow>
                 (case CompileLower fuel (Some pt) (Some rs) of
                    Inl e \<Rightarrow> a\<lparr>pa_usesMemory := um, pa_err := Some (AbiError e)\<rparr>
                  | Inr step \<Rightarrow> a\<lparr>pa_usesMemory := um, pa_step := step\<rparr>)))"

text \<open>The flat width of the parameters whose type can be flattened.\<close>

definition raw_flat :: "nat \<Rightarrow> instance_resolver \<Rightarrow> param_abi list \<Rightarrow> nat" where
  "raw_flat fuel rs ps =
     sum_list (map (\<lambda>a. case pa_type a of None \<Rightarrow> 0
       | Some pt \<Rightarrow> (case Flatten fuel (Some rs) (Some pt) of Inl _ \<Rightarrow> 0 | Inr fl \<Rightarrow> length fl)) ps)"

record result_abi =
  ra_type :: "type_desc option"
  ra_usesMemory :: bool
  ra_kinds :: "string list"
  ra_step :: LiftStep
  ra_err :: "runtime_error option"

definition no_result :: result_abi where
  "no_result = \<lparr>ra_type = None, ra_usesMemory = False, ra_kinds = [], ra_step = zero_LiftStep, ra_err = None\<rparr>"

definition compute_result :: "nat \<Rightarrow> instance_resolver \<Rightarrow> type_ref \<Rightarrow> result_abi" where
  "compute_result fuel rs ref =
     (case resolveTypeRef ref rs of
        Inl e \<Rightarrow> no_result\<lparr>ra_err := Some (AbiError e)\<rparr>
      | Inr rt \<Rightarrow>
          (let a = no_result\<lparr>ra_type := Some rt\<rparr> in
           if typeContainsAsyncValueNested rt rs 0 then a\<lparr>ra_err := Some NestedAsyncValue\<rparr>
           else case uses_memory fuel rs rt of
               Inl e \<Rightarrow> a\<lparr>ra_err := Some e\<rparr>
             | Inr um \<Rightarrow>
                 (case Flatten fuel (Some rs) (Some rt) of
                    Inl e \<Rightarrow> a\<lparr>ra_usesMemory := um, ra_err := Some (AbiError e)\<rparr>
                  | Inr fl \<Rightarrow>
                      (case CompileLift fuel (Some rt) (Some rs) of
                         Inl e \<Rightarrow> a\<lparr>ra_usesMemory := um, ra_kinds := fl, ra_err := Some (AbiError e)\<rparr>
                       | Inr step \<Rightarrow> a\<lparr>ra_usesMemory := um, ra_kinds := fl, ra_step := step\<rparr>))))"

definition computeBoundExportABI :: "nat \<Rightarrow> func_desc \<Rightarrow> instance_resolver \<Rightarrow> boundExportABI" where
  "computeBoundExportABI fuel fd rs =
     (let ff = FlattenFunc fuel fd (Some rs) ''lift'';
          ps = map (compute_param fuel rs) (Params fd);
          spill = raw_flat fuel rs ps > MaxFlatParams;
          refs = funcResultTypeRefs fd;
          ra = (case refs of [r] \<Rightarrow> compute_result fuel rs r | _ \<Rightarrow> no_result)
      in \<lparr>coreParamsWant = (case ff of Inl _ \<Rightarrow> [] | Inr (cp, _) \<Rightarrow> cp), coreResultsWant = (case ff of Inl _ \<Rightarrow> [] | Inr (_, cr) \<Rightarrow> cr),
          flattenErr = (case ff of Inl e \<Rightarrow> Some (AbiError e) | Inr _ \<Rightarrow> None), param_abis = ps, paramsSpill = spill,
          paramTuple = (if spill then map ParamType (Params fd) else []),
          hasResult = (length refs = 1), tooManyResults = (if length refs > 1 then length refs else 0),
          resultType = ra_type ra, resultUsesMemory = ra_usesMemory ra, resultFlatKinds = ra_kinds ra, resultStep = ra_step ra,
          resultErr = ra_err ra\<rparr>)"

text \<open>A bound export. \<open>be_comp\<close> says that it was bound with a component; without one no parameter is searched for resources.\<close>

record 's boundExport =
  be_mod :: mod_id
  be_params :: nat
  be_abi :: boundExportABI
  be_comp :: bool
  be_realloc :: "'s realloc"
  coreFn :: "(u64 list \<Rightarrow> ('s, runtime_error, u64 list) op) option"
  coreResultCount :: nat
  postReturn :: "(u64 list \<Rightarrow> ('s, runtime_error, u64 list) op) option option"
  asyncCallback :: bool
  stackful :: bool

text \<open>\<open>coreReallocCall\<close>: the allocator behind an exported function. Its failure is a \<open>guestCallError\<close>, here \<open>ReallocFailed\<close>, and
  no other error of the ABI is.\<close>

definition coreReallocCall :: "(u64 list \<Rightarrow> ('g mstate, string, u64 list) op) option \<Rightarrow> 'g realloc" where
  "coreReallocCall fn =
     (case fn of None \<Rightarrow> None
      | Some f \<Rightarrow> Some (\<lambda>origPtr origSize align newSize ms.
          case f [ucast origPtr, ucast origSize, ucast align, ucast newSize] ms of
            (Inl e, ms') \<Rightarrow> (Inl (ReallocFailed e), ms')
          | (Inr buf, ms') \<Rightarrow> (Inr (ucast ((buf @ [ucast origPtr]) ! 0)), ms')))"

definition guestCallError :: "runtime_error \<Rightarrow> bool" where
  "guestCallError e \<longleftrightarrow> (case e of AbiError (ReallocFailed _) \<Rightarrow> True | _ \<Rightarrow> False)"

subsection \<open>Handles in arguments\<close>

definition plain_value :: "host_value \<Rightarrow> val" where
  "plain_value v = (case v of Plain x \<Rightarrow> x | _ \<Rightarrow> VNil)"

text \<open>A loop over members and their types; values beyond the types stay.\<close>

primrec resolve_members ::
    "(host_value \<Rightarrow> type_desc \<Rightarrow> ('s, runtime_error, host_value) op) \<Rightarrow> instance_resolver \<Rightarrow> type_ref list \<Rightarrow> val list \<Rightarrow>
     ('s, runtime_error, val list) op" where
  "resolve_members f rs refs [] = sret []"
| "resolve_members f rs refs (v # vs) =
     (case refs of
        [] \<Rightarrow> sret (v # vs)
      | r # refs' \<Rightarrow>
          sbind (slift (abi (resolveTypeRef r rs))) (\<lambda>t.
          sbind (f (Plain v) t) (\<lambda>x.
          sbind (resolve_members f rs refs' vs) (\<lambda>xs. sret (plain_value x # xs)))))"

definition resolve_payload ::
    "(host_value \<Rightarrow> type_desc \<Rightarrow> ('s, runtime_error, host_value) op) \<Rightarrow> instance_resolver \<Rightarrow> type_ref \<Rightarrow> val \<Rightarrow>
     ('s, runtime_error, val) op" where
  "resolve_payload f rs r v =
     sbind (slift (abi (resolveTypeRef r rs))) (\<lambda>t. sbind (f (Plain v) t) (\<lambda>x. sret (plain_value x)))"

text \<open>\<open>resolveArgHandlesDepth\<close> with the number of levels that are left. \<open>guest_resource\<close> is \<open>isGuestResource\<close> of the instance.\<close>

primrec resolve_arg_handles ::
    "nat \<Rightarrow> 'a endpoint_state_scheme endpoint_env \<Rightarrow> (u32 \<Rightarrow> bool) \<Rightarrow> inst_id \<Rightarrow> host_value \<Rightarrow> type_desc \<Rightarrow>
     ('a endpoint_state_scheme, runtime_error, host_value) op" where
  "resolve_arg_handles 0 env guest_resource i v t = sret v"
| "resolve_arg_handles (Suc n) env guest_resource i v t =
     (let rec = resolve_arg_handles n env guest_resource i; rs = inst_resolve env i in
      case t of
        OwnDesc _ \<Rightarrow> sret v
      | BorrowDesc rt \<Rightarrow>
          (case v of
             AlreadyProviderRep r \<Rightarrow> sret (Plain (VU32 r))
           | _ \<Rightarrow> if \<not> guest_resource rt then sret v else resolveHandleArg env i (ep_resCanon env i) t v)
      | StreamDesc _ \<Rightarrow> (case v of SharedStreamValue p \<Rightarrow> new_readable_stream p | _ \<Rightarrow> sfail NotStreamType)
      | FutureDesc _ \<Rightarrow> (case v of SharedFutureValue p \<Rightarrow> new_readable_future p | _ \<Rightarrow> sfail NotStreamType)
      | PrimitiveDesc p \<Rightarrow> if p \<noteq> ''error-context'' then sret v else new_error_context v
      | ListDesc e \<Rightarrow>
          (case v of
             Plain (VList xs) \<Rightarrow>
               sbind (slift (abi (resolveTypeRef e rs))) (\<lambda>_.
               sbind (resolve_members rec rs (replicate (length xs) e) xs) (\<lambda>ys. sret (Plain (VList ys))))
           | _ \<Rightarrow> sret v)
      | RecordDesc fs \<Rightarrow>
          (case v of Plain (VList xs) \<Rightarrow> sbind (resolve_members rec rs (map FieldType fs) xs) (\<lambda>ys. sret (Plain (VList ys))) | _ \<Rightarrow> sret v)
      | TupleDesc es \<Rightarrow>
          (case v of Plain (VList xs) \<Rightarrow> sbind (resolve_members rec rs es xs) (\<lambda>ys. sret (Plain (VList ys))) | _ \<Rightarrow> sret v)
      | OptionDesc e \<Rightarrow>
          if v = Plain VNil then sret v
          else sbind (slift (abi (resolveTypeRef e rs))) (\<lambda>t'. rec v t')
      | VariantDesc cs \<Rightarrow>
          (case v of
             Plain (VVariant d x) \<Rightarrow>
               (if unat d \<ge> length cs \<or> x = VNil then sret v
                else case CaseType (cs ! unat d) of None \<Rightarrow> sret v
                  | Some r \<Rightarrow> sbind (resolve_payload rec rs r x) (\<lambda>y. sret (Plain (VVariant d y))))
           | _ \<Rightarrow> sret v)
      | ResultDesc okr errr \<Rightarrow>
          (case v of
             Plain (VResult isErr x) \<Rightarrow>
               (if x = VNil then sret v
                else case (if isErr then errr else okr) of None \<Rightarrow> sret v
                  | Some r \<Rightarrow> sbind (resolve_payload rec rs r x) (\<lambda>y. sret (Plain (VResult isErr y))))
           | _ \<Rightarrow> sret v)
      | _ \<Rightarrow> sret v)"

definition resolveArgHandles ::
    "'a endpoint_state_scheme endpoint_env \<Rightarrow> (u32 \<Rightarrow> bool) \<Rightarrow> inst_id \<Rightarrow> host_value \<Rightarrow> type_desc \<Rightarrow>
     ('a endpoint_state_scheme, runtime_error, host_value) op" where
  "resolveArgHandles = resolve_arg_handles (Suc maxResourceWalkDepth)"

subsection \<open>Lowering the arguments\<close>

text \<open>The handles of one argument, when its type has any.\<close>

definition resolve_param ::
    "'a endpoint_state_scheme endpoint_env \<Rightarrow> (u32 \<Rightarrow> bool) \<Rightarrow> inst_id \<Rightarrow> bool \<Rightarrow> param_abi \<Rightarrow> host_value \<Rightarrow>
     ('a endpoint_state_scheme, runtime_error, host_value) op" where
  "resolve_param env guest_resource i graph a v =
     (case pa_type a of
        Some t \<Rightarrow> if graph \<and> pa_hasResource a then resolveArgHandles env guest_resource i v t else sret v
      | None \<Rightarrow> sret v)"

primrec resolve_params ::
    "'a endpoint_state_scheme endpoint_env \<Rightarrow> (u32 \<Rightarrow> bool) \<Rightarrow> inst_id \<Rightarrow> bool \<Rightarrow> param_abi list \<Rightarrow> host_value list \<Rightarrow>
     ('a endpoint_state_scheme, runtime_error, val list) op" where
  "resolve_params env guest_resource i graph [] args = sret []"
| "resolve_params env guest_resource i graph (a # as) args =
     (case pa_err a of
        Some e \<Rightarrow> sfail e
      | None \<Rightarrow>
          sbind (resolve_param env guest_resource i graph a (hd args)) (\<lambda>v.
          sbind (resolve_params env guest_resource i graph as (tl args)) (\<lambda>vs. sret (abi_value v # vs))))"

text \<open>An operation of the ABI on the memory of the module of an export, or on none.\<close>

definition on_export_memory ::
    "mod_id \<Rightarrow> ('a stream_state_scheme, 'b) mop \<Rightarrow> ('a stream_state_scheme, runtime_error, 'b) op" where
  "on_export_memory m f s =
     (case memoryBytesOf (Some m) s of
        Some _ \<Rightarrow> in_module (Some m) f s
      | None \<Rightarrow> (let (r, ms) = f \<lparr>lin_mem = [], guest = s\<rparr> in (abi r, guest ms)))"

primrec lower_each ::
    "'a endpoint_state_scheme endpoint_env \<Rightarrow> (u32 \<Rightarrow> bool) \<Rightarrow> inst_id \<Rightarrow> 'a endpoint_state_scheme boundExport \<Rightarrow> bool \<Rightarrow>
     param_abi list \<Rightarrow> host_value list \<Rightarrow> core_value list \<Rightarrow> ('a endpoint_state_scheme, runtime_error, core_value list) op" where
  "lower_each env guest_resource i b memAvailable [] args dst = sret dst"
| "lower_each env guest_resource i b memAvailable (a # as) args dst =
     (case pa_err a of
        Some e \<Rightarrow> sfail e
      | None \<Rightarrow>
          if pa_usesMemory a \<and> \<not> memAvailable then sfail NoMemory
          else
            sbind (resolve_param env guest_resource i (be_comp b) a (hd args)) (\<lambda>v.
            sbind (on_export_memory (be_mod b) (Lower (ep_fuel env) (pa_step a) dst (abi_value v) (be_realloc b))) (\<lambda>dst'.
              lower_each env guest_resource i b memAvailable as (tl args) dst')))"

definition lowerParams ::
    "'a endpoint_state_scheme endpoint_env \<Rightarrow> (u32 \<Rightarrow> bool) \<Rightarrow> inst_id \<Rightarrow> 'a endpoint_state_scheme boundExport \<Rightarrow> host_value list \<Rightarrow>
     ('a endpoint_state_scheme, runtime_error, core_value list) op" where
  "lowerParams env guest_resource i b args s =
     (let m = be_abi b; memAvailable = memoryBytesOf (Some (be_mod b)) s \<noteq> None in
      if paramsSpill m then
        (if \<not> memAvailable then (Inl NoMemory, s)
         else if length args \<noteq> be_params b then (Inl (WrongArgCount (length args) (be_params b)), s)
         else
           sbind (resolve_params env guest_resource i (be_comp b) (param_abis m) args) (\<lambda>vs.
           sbind (on_export_memory (be_mod b)
                    (spillValue (ep_fuel env) (VList vs) (Some (TupleDesc (paramTuple m))) (Some (inst_resolve env i)) (be_realloc b))) (\<lambda>ptr.
             sret [NewCoreValueI32 (word_of_nat ptr)])) s)
      else lower_each env guest_resource i b memAvailable (param_abis m) args [] s)"

subsection \<open>Lifting the result\<close>

definition validateLiftedStreamFutureResult ::
    "'a endpoint_state_scheme endpoint_env \<Rightarrow> inst_id \<Rightarrow> type_desc \<Rightarrow> val \<Rightarrow> ('a endpoint_state_scheme, runtime_error, unit) op" where
  "validateLiftedStreamFutureResult env i rt v s =
     (case (rt, v) of
        (StreamDesc e, VU32 h) \<Rightarrow>
          sbind (elem_desc (inst_resolve env i) e) (\<lambda>elem s.
            case peekReadableStreamEnd (stream_part env) (Some i) elem h s of
              (Inl x, s') \<Rightarrow> (Inl (GuestResultTrap x), s') | (Inr _, s') \<Rightarrow> (Inr (), s')) s
      | (FutureDesc e, VU32 h) \<Rightarrow>
          sbind (elem_desc (inst_resolve env i) e) (\<lambda>elem s.
            case peekReadableFutureEnd (stream_part env) (Some i) elem h s of
              (Inl x, s') \<Rightarrow> (Inl (GuestResultTrap x), s') | (Inr _, s') \<Rightarrow> (Inr (), s')) s
      | _ \<Rightarrow> (Inr (), s))"

definition markGuestResultTrap :: "abi_error + 'b \<Rightarrow> runtime_error + 'b" where
  "markGuestResultTrap r = (case r of Inl e \<Rightarrow> Inl (GuestResultTrap (AbiError e)) | Inr x \<Rightarrow> Inr x)"

definition liftResult ::
    "'a endpoint_state_scheme endpoint_env \<Rightarrow> inst_id \<Rightarrow> 'a endpoint_state_scheme boundExport \<Rightarrow> u64 list \<Rightarrow>
     ('a endpoint_state_scheme, runtime_error, val list) op" where
  "liftResult env i b rawResults s =
     (let m = be_abi b; mem = memoryBytesOf (Some (be_mod b)) s;
          bytes = (case mem of Some bs \<Rightarrow> bs | None \<Rightarrow> []); flatKinds = resultFlatKinds m in
      if tooManyResults m > 0 then (Inl (ManyResults (tooManyResults m)), s)
      else if \<not> hasResult m then
        (if rawResults \<noteq> [] then (Inl (WrongCoreResults (length rawResults) 0), s) else (Inr [], s))
      else case resultErr m of
          Some e \<Rightarrow> (Inl e, s)
        | None \<Rightarrow>
            if resultUsesMemory m \<and> mem = None then (Inl NoMemory, s)
            else
              (let finish = (\<lambda>v. sbind (case resultType m of Some rt \<Rightarrow> validateLiftedStreamFutureResult env i rt v | None \<Rightarrow> sret ())
                               (\<lambda>_. sret [v])) in
               if length (coreResultsWant m) = MaxFlatResults \<and> length flatKinds > MaxFlatResults then
                 (if mem = None then (Inl NoMemory, s)
                  else if length rawResults \<noteq> 1 then (Inl (WrongCoreResults (length rawResults) 1), s)
                  else sbind (slift (markGuestResultTrap
                          (Load (ep_fuel env) bytes (unat (ucast (hd rawResults) :: u32)) (resultType m) (Some (inst_resolve env i))))) finish s)
               else if length flatKinds \<noteq> length (coreResultsWant m) then
                 (Inl (ResultNotSpilled (length flatKinds) (length (coreResultsWant m))), s)
               else if length rawResults \<noteq> length flatKinds then
                 (Inl (WrongCoreResults (length rawResults) (length flatKinds)), s)
               else sbind (slift (markGuestResultTrap
                      (Lift (ep_fuel env) (resultStep m) (map (\<lambda>(k, u). \<lparr>CoreKind = k, Bits = u\<rparr>) (zip flatKinds rawResults)) bytes))) finish s))"

subsection \<open>The call\<close>

text \<open>The task of a synchronous call, for the instances that need one, and the restoration of the caller's.\<close>

definition enter_sync :: "bool \<Rightarrow> 'a inst_state_scheme \<Rightarrow> 'a inst_state_scheme" where
  "enter_sync needed s =
     (if \<not> needed then s
      else
        (let t = fresh_ref s in
         s\<lparr>fresh_ref := t + 1, tasks := (tasks s)(t := \<lparr>task_state = taskStarted, body = NoBody, cancelled = False,
             ctxStorage = [0, 0], onResolve = None, result = [], syncImplicit = True, async_export = False, export_result = None,
             has_export = True\<rparr>), numBorrows := (numBorrows s)(t := 0), activeTask := Some t, syncBase := Some t\<rparr>))"

definition sync_task :: "bool \<Rightarrow> ('a inst_state_scheme, 'e, 'b) op \<Rightarrow> ('a inst_state_scheme, 'e, 'b) op" where
  "sync_task needed f s =
     (let (r, s2) = f (enter_sync needed s)
      in (r, if needed then s2\<lparr>activeTask := activeTask s, syncBase := syncBase s\<rparr> else s2))"

definition poison :: "bool \<Rightarrow> 'a inst_state_scheme \<Rightarrow> 'a inst_state_scheme" where
  "poison p s = (if p then s\<lparr>poisoned := True\<rparr> else s)"

text \<open>An operation whose errors of one kind poison the instance.\<close>

definition poisoning :: "(runtime_error \<Rightarrow> bool) \<Rightarrow> ('a inst_state_scheme, runtime_error, 'b) op \<Rightarrow> ('a inst_state_scheme, runtime_error, 'b) op" where
  "poisoning bad f s = (case f s of (Inl e, s') \<Rightarrow> (Inl e, poison (bad e) s') | (Inr x, s') \<Rightarrow> (Inr x, s'))"

definition is_result_trap :: "runtime_error \<Rightarrow> bool" where
  "is_result_trap e = (case e of GuestResultTrap _ \<Rightarrow> True | _ \<Rightarrow> False)"

text \<open>The results a core function leaves at the front of the stack it was called with.\<close>

definition core_results :: "nat \<Rightarrow> u64 list \<Rightarrow> u64 list \<Rightarrow> u64 list" where
  "core_results n args rs = take n (rs @ drop (length rs) (args @ replicate (n - length args) 0))"

definition call_post_return ::
    "'a endpoint_state_scheme boundExport \<Rightarrow> u64 list \<Rightarrow> ('a endpoint_state_scheme, runtime_error, unit) op" where
  "call_post_return b raw =
     (case postReturn b of
        None \<Rightarrow> sret ()
      | Some None \<Rightarrow> sfail NoPostReturn
      | Some (Some fn) \<Rightarrow> poisoning (\<lambda>_. True) (sbind (fn raw) (\<lambda>_. sret ())))"

definition invokeEntered ::
    "'a endpoint_state_scheme endpoint_env \<Rightarrow> (u32 \<Rightarrow> bool) \<Rightarrow> inst_id \<Rightarrow> bool \<Rightarrow> 'a endpoint_state_scheme boundExport \<Rightarrow>
     (u64 list \<Rightarrow> ('a endpoint_state_scheme, runtime_error, u64 list) op) \<Rightarrow> host_value list \<Rightarrow>
     ('a endpoint_state_scheme, runtime_error, val list) op" where
  "invokeEntered env guest_resource i task_needed b fn args =
     sync_task task_needed
       (sbind (poisoning guestCallError (lowerParams env guest_resource i b args)) (\<lambda>coreArgs.
        if length coreArgs \<noteq> length (coreParamsWant (be_abi b))
        then sfail (WrongCoreArgs (length coreArgs) (length (coreParamsWant (be_abi b))))
        else
          sbind (poisoning (\<lambda>_. True) (fn (map Bits coreArgs))) (\<lambda>rs.
            (let raw = core_results (coreResultCount b) (map Bits coreArgs) rs in
             sbind (poisoning is_result_trap (liftResult env i b raw)) (\<lambda>results.
             sbind (call_post_return b raw) (\<lambda>_. sret results))))))"

text \<open>\<open>invoke\<close>; the paths of the two kinds of asynchronous export are parameters.\<close>

definition invoke ::
    "'a endpoint_state_scheme endpoint_env \<Rightarrow> (u32 \<Rightarrow> bool) \<Rightarrow> inst_id \<Rightarrow> bool \<Rightarrow>
     (host_value list \<Rightarrow> ('a endpoint_state_scheme, runtime_error, val list) op) \<Rightarrow>
     (host_value list \<Rightarrow> ('a endpoint_state_scheme, runtime_error, val list) op) \<Rightarrow>
     'a endpoint_state_scheme boundExport \<Rightarrow> host_value list \<Rightarrow> ('a endpoint_state_scheme, runtime_error, val list) op" where
  "invoke env guest_resource i task_needed invokeAsyncCallback invokeStackful b args s =
     (if asyncCallback b then invokeAsyncCallback args s
      else if stackful b then invokeStackful args s
      else if poisoned s then (Inl CannotEnter, s)
      else if length args \<noteq> be_params b then (Inl (WrongArgCount (length args) (be_params b)), s)
      else case coreFn b of
          None \<Rightarrow> (Inl NoCoreFunction, s)
        | Some fn \<Rightarrow>
            (case flattenErr (be_abi b) of
               Some e \<Rightarrow> (Inl e, s)
             | None \<Rightarrow> invokeEntered env guest_resource i task_needed b fn args s))"

end
