(* ===== verification/Export_Safety.thy ===== *)
theory Export_Safety
  imports Export_Call Stream_Safety
begin

text \<open>
  What the synchronous call path of \<open>Export_Call\<close> promises: the core arguments fit the signature of the core function, nothing a
  guest returns makes the lifting of the result panic, and a failure of the guest, and only of the guest, closes the instance.
\<close>

subsection \<open>The core arguments\<close>

lemma LowerFlatInto_kinds:
  assumes "LowerFlatInto n dst v t r realloc s = (Inr out, s')" "Flatten n r t = Inr fs" "length fs \<le> MaxFlatParams"
  shows "map CoreKind out = map CoreKind dst @ fs"
proof -
  have walk: "map CoreKind out = map CoreKind dst @ fs"
    if "sbind (lowerFlatImpl n r realloc v t) (\<lambda>flat. sret (dst @ flat)) s = (Inr out, s')"
    using that by (auto simp: state_simps of_kinds_def dest!: lowers_kindsD [OF lowerFlatImpl_kinds _ assms(2)])
  show ?thesis
  proof (cases "\<exists>p. t = Some (PrimitiveDesc p) \<and> p \<noteq> ''string''")
    case True
    then obtain p cv where p: "t = Some (PrimitiveDesc p)" "p \<noteq> ''string''" "lowerPrimitiveCore v p = Inr cv" "out = dst @ [cv]"
      using assms(1) by (auto simp: LowerFlatInto_def Let_def state_simps rbind_eq_Inr)
    have "lowerFlatPrimitive v p realloc s = (Inr [cv], s)" using p by (simp add: lowerFlatPrimitive_def sret_def)
    moreover have "flattenPrimitive p = Inr fs" using assms(2) p(1) by (cases n) auto
    ultimately have "of_kinds fs [cv]" using lowerFlatPrimitive_kinds by blast
    then show ?thesis using p(4) by (simp add: of_kinds_def)
  next
    case False
    then show ?thesis
      using assms by (intro walk)
        (auto simp: LowerFlatInto_def Let_def state_simps split: option.split_asm type_desc.split_asm if_split_asm)
  qed
qed

lemma compute_param_ok:
  assumes "pa_err (compute_param n rs p) = None"
  shows "\<exists>pt. resolveTypeRef (ParamType p) rs = Inr pt \<and> pa_type (compute_param n rs p) = Some pt \<and>
    CompileLower n (Some pt) (Some rs) = Inr (pa_step (compute_param n rs p))"
  using assms unfolding compute_param_def Let_def by (auto split: sum.splits if_splits)

lemma resolveType_Some:
  "resolveTypeRef ref rs = Inr t \<Longrightarrow> resolveType (Some ref) (Some rs) = Inr (Some t)"
  by (auto simp: resolveTypeRef_def resolveType_def split: option.splits if_splits)

lemma on_memory_Inr: "on_memory f s = (Inr x, s') \<Longrightarrow> \<exists>ms ms'. f ms = (Inr x, ms')"
  by (fastforce simp: on_memory_def Let_def split: option.splits prod.splits sum.splits)

lemma on_export_memory_Inr: "on_export_memory m f s = (Inr x, s') \<Longrightarrow> \<exists>ms ms'. f ms = (Inr x, ms')"
  by (fastforce simp: on_export_memory_def in_module_def abi_def Let_def split: option.splits prod.splits if_splits sum.splits
      dest: on_memory_Inr)

lemma lower_each_kinds:
  assumes "ep_fuel env = Suc n"
  shows "lower_each env g i b mem (map (compute_param (Suc n) rs) ps) args dst s = (Inr cvs, s') \<Longrightarrow>
    flat_refs (Flatten (Suc n) (Some rs)) (Some rs) (map ParamType ps) = Inr fs \<Longrightarrow> length fs \<le> MaxFlatParams \<Longrightarrow>
    map CoreKind cvs = map CoreKind dst @ fs"
proof (induction ps arbitrary: args dst s fs)
  case (Cons p ps)
  let ?a = "compute_param (Suc n) rs p"
  obtain v s1 dst' s2 where l: "pa_err ?a = None"
      "on_export_memory (be_mod b) (Lower (Suc n) (pa_step ?a) dst (abi_value v) (be_realloc b)) s1 = (Inr dst', s2)"
      "lower_each env g i b mem (map (compute_param (Suc n) rs) ps) (tl args) dst' s2 = (Inr cvs, s')"
    using Cons.prems(1) assms by (auto simp: state_simps split: option.splits if_splits)
  obtain pt where pt: "resolveTypeRef (ParamType p) rs = Inr pt" "CompileLower (Suc n) (Some pt) (Some rs) = Inr (pa_step ?a)"
    using compute_param_ok [OF l(1)] by blast
  obtain f fs' where f: "Flatten (Suc n) (Some rs) (Some pt) = Inr f"
      "flat_refs (Flatten (Suc n) (Some rs)) (Some rs) (map ParamType ps) = Inr fs'" "fs = f @ fs'"
    using Cons.prems(2) resolveType_Some [OF pt(1)] by (auto simp: rbind_eq_Inr simp del: Flatten.simps)
  obtain ms ms' where "Lower (Suc n) (pa_step ?a) dst (abi_value v) (be_realloc b) ms = (Inr dst', ms')"
    using on_export_memory_Inr [OF l(2)] by blast
  then have "LowerFlatInto (Suc n) dst (abi_value v) (Some pt) (Some rs) (be_realloc b) ms = (Inr dst', ms')"
    unfolding Lower_equivalent [OF pt(2)] .
  then have "map CoreKind dst' = map CoreKind dst @ f" by (rule LowerFlatInto_kinds [OF _ f(1)]) (use Cons.prems(3) f(3) in simp)
  moreover have "map CoreKind cvs = map CoreKind dst' @ fs'"
    using Cons.IH [OF l(3) f(2)] Cons.prems(3) f(3) by simp
  ultimately show ?case using f(3) by simp
qed simp

lemma raw_flat_total:
  "flat_refs (Flatten (Suc n) (Some rs)) (Some rs) (map ParamType ps) = Inr fs \<Longrightarrow>
   raw_flat (Suc n) rs (map (compute_param (Suc n) rs) ps) = length fs"
proof (induction ps arbitrary: fs)
  case (Cons p ps)
  obtain t f fs' where f: "resolveType (Some (ParamType p)) (Some rs) = Inr t" "Flatten (Suc n) (Some rs) t = Inr f"
      "flat_refs (Flatten (Suc n) (Some rs)) (Some rs) (map ParamType ps) = Inr fs'" "fs = f @ fs'"
    using Cons.prems by (auto simp: rbind_eq_Inr simp del: Flatten.simps)
  have "\<exists>pt. t = Some pt \<and> resolveTypeRef (ParamType p) rs = Inr pt"
    using f(1,2) by (cases t) (auto simp: resolveType_def resolveTypeRef_def split: if_splits option.splits)
  then obtain pt where pt: "t = Some pt" "resolveTypeRef (ParamType p) rs = Inr pt" by blast
  have "pa_type (compute_param (Suc n) rs p) = Some pt"
    unfolding compute_param_def Let_def using pt(2) by (auto split: sum.split)
  then show ?case using Cons.IH [OF f(3)] f(2,4) pt(1) by (simp add: raw_flat_def)
qed (simp add: raw_flat_def)

subsection \<open>The result\<close>

lemma no_panic_Load: "no_panic (Load n m ptr t r)"
  unfolding Load_def by (intro panic_free; simp add: no_panic_loadValue)

lemma no_panic_liftFlatImpl:
  assumes "Flatten n r t = Inr fs" "of_kinds fs vals"
  shows "no_panic (fst (liftFlatImpl n m r t (CoreValueIter vals 0)))"
proof -
  from lifts_allD [OF liftFlatImpl_all assms(1,2) supplies_start]
  have "consumes (liftFlatImpl n m r t) (CoreValueIter vals 0) (CoreValueIter vals (length vals))" .
  then show ?thesis by (auto simp: consumes_def)
qed

text \<open>A type that flattens to no core value has a plan that reads none.\<close>

lemma lift_nothing:
  assumes "CompileLift (Suc n) t r = Inr step" "Flatten (Suc n) r t = Inr []"
  shows "Lift (Suc n) step vals m = fst (liftFlatImpl (Suc n) m r t (CoreValueIter vals 0))"
proof -
  have "flattenPrimitive p \<noteq> Inr []" for p by (auto simp: flattenPrimitive_def)
  then have "step = zero_LiftStep\<lparr>lt_kind := liftFlatAgg, lt_t := t, lt_resolve := r\<rparr>"
    using assms by (cases t) (auto simp: CompileLift_def Let_def MaxFlatResults_def split: type_desc.split_asm)
  then show ?thesis by (simp add: Lift_def zero_LiftStep_def)
qed

lemma no_panic_Lift:
  assumes "CompileLift (Suc n) t r = Inr step" "Flatten (Suc n) r t = Inr fs" "of_kinds fs vals" "length fs \<le> MaxFlatResults"
  shows "no_panic (Lift (Suc n) step vals m)"
proof (cases vals)
  case Nil
  then have "fs = []" using assms(3) by (cases fs) simp_all
  then show ?thesis unfolding lift_nothing [OF assms(1) assms(2) [unfolded \<open>fs = []\<close>]] using no_panic_liftFlatImpl assms by blast
next
  case (Cons cv cvs)
  have "Lift (Suc n) step vals m = fst (liftFlatImpl (Suc n) m r t (CoreValueIter vals 0))"
    unfolding Cons Lift_equivalent [OF assms(1)] lift_result_def LiftFlat_def assms(2)
    using assms(4) by (simp add: MaxFlatResults_def MaxFlatParams_def)
  then show ?thesis using no_panic_liftFlatImpl [OF assms(2,3)] by simp
qed

lemma compute_result_ok:
  assumes "ra_err (compute_result n rs ref) = None"
  shows "\<exists>rt. resolveTypeRef ref rs = Inr rt \<and> ra_type (compute_result n rs ref) = Some rt \<and>
    Flatten n (Some rs) (Some rt) = Inr (ra_kinds (compute_result n rs ref)) \<and>
    CompileLift n (Some rt) (Some rs) = Inr (ra_step (compute_result n rs ref))"
  using assms unfolding compute_result_def Let_def by (auto split: sum.splits if_splits)

lemma core_results_bound:
  assumes "m = computeBoundExportABI n fd rs"
  shows "length (coreResultsWant m) \<le> MaxFlatResults"
proof (cases "FlattenFunc n fd (Some rs) ''lift''")
  case (Inr pr)
  obtain cp cr where pr: "pr = (cp, cr)" by (cases pr)
  have "length cr \<le> MaxFlatResults"
    using Inr unfolding pr
    by (auto simp: FlattenFunc_def Let_def rbind_eq_Inr MaxFlatResults_def simp del: Flatten.simps flat_refs_simps split: option.splits if_splits)
  then show ?thesis by (simp add: assms computeBoundExportABI_def Let_def Inr pr)
qed (simp add: assms computeBoundExportABI_def Let_def)

lemma validate_state:
  "validateLiftedStreamFutureResult env i rt v s = (r, s') \<Longrightarrow>
   s' = s \<and> r \<noteq> Inl (GuestResultTrap (AbiError x))"
  by (auto simp: validateLiftedStreamFutureResult_def peekReadableStreamEnd_def peekReadableFutureEnd_def elem_desc_def abi_def sbind_def slift_def
      rbind_def Let_def split: type_desc.splits val.splits option.splits sum.splits tableEntry.splits if_splits)

text \<open>C29. The arguments always fit: whatever an export of any signature is called with, lowering that succeeds gives core
  values of exactly the types the core function takes, on the flat path and when the parameters are passed as one pointer. The
  check of the number of core arguments before the core call can not fail.\<close>

theorem lowered_arguments_match_signature:
  assumes "be_abi b = computeBoundExportABI (Suc n) fd rs" "flattenErr (be_abi b) = None" "ep_fuel env = Suc n"
    and "lowerParams env g i b args s = (Inr cvs, s')"
  shows "map CoreKind cvs = coreParamsWant (be_abi b)"
proof -
  obtain cp cr where ff: "FlattenFunc (Suc n) fd (Some rs) ''lift'' = Inr (cp, cr)"
    using assms(1,2) by (auto simp: computeBoundExportABI_def Let_def split: sum.splits)
  then obtain fs where fs: "flat_refs (Flatten (Suc n) (Some rs)) (Some rs) (map ParamType (Params fd)) = Inr fs"
      "cp = (if length fs > MaxFlatParams then [''i32''] else fs)"
    by (auto simp: FlattenFunc_def Let_def rbind_eq_Inr simp del: Flatten.simps flat_refs_simps split: option.splits if_splits)
  have want: "coreParamsWant (be_abi b) = cp" "param_abis (be_abi b) = map (compute_param (Suc n) rs) (Params fd)"
      "paramsSpill (be_abi b) \<longleftrightarrow> length fs > MaxFlatParams"
    unfolding assms(1) computeBoundExportABI_def Let_def ff raw_flat_total [OF fs(1)] by simp_all
  show ?thesis
  proof (cases "length fs > MaxFlatParams")
    case True
    then show ?thesis using assms(4) want fs(2)
      by (auto simp: lowerParams_def Let_def state_simps NewCoreValueI32_def split: if_splits)
  next
    case False
    then have "lower_each env g i b (memoryBytesOf (Some (be_mod b)) s \<noteq> None) (map (compute_param (Suc n) rs) (Params fd)) args [] s = (Inr cvs, s')"
      using assms(4) want by (simp add: lowerParams_def Let_def)
    from lower_each_kinds [OF assms(3) this fs(1)] False show ?thesis using want(1) fs(2) by simp
  qed
qed


text \<open>C30. Whatever a guest returns, lifting it is safe: with core results of the types the signature gives, of any bits and over
  any memory, no index is out of range and no type assertion fails; the lifting changes nothing, and a success is one value for a
  function with a result and none for one without.\<close>

theorem lifted_result_safe:
  assumes "be_abi b = computeBoundExportABI (Suc n) fd rs" "ep_fuel env = Suc n"
    and "list_all well_kinded (map (\<lambda>(k, u). \<lparr>CoreKind = k, Bits = u\<rparr>) (zip (resultFlatKinds (be_abi b)) raw))"
    and "liftResult env i b raw s = (res, s')"
  shows "s' = s \<and> res \<noteq> Inl (GuestResultTrap (AbiError (Panic msg))) \<and>
    (\<forall>vs. res = Inr vs \<longrightarrow> length vs = (if hasResult (be_abi b) then 1 else 0))"
proof -
  let ?m = "be_abi b"
  let ?vals = "map (\<lambda>(k, u). \<lparr>CoreKind = k, Bits = u\<rparr>) (zip (resultFlatKinds ?m) raw)"
  let ?ok = "\<lambda>res s'. s' = s \<and> res \<noteq> Inl (GuestResultTrap (AbiError (Panic msg))) \<and> (\<forall>vs. res = Inr vs \<longrightarrow> length vs = 1)"
  have finish: "?ok res s'" if "no_panic lifted"
    "sbind (slift (markGuestResultTrap lifted)) (\<lambda>v. sbind (case resultType ?m of Some rt \<Rightarrow> validateLiftedStreamFutureResult env i rt v | None \<Rightarrow> sret ())
       (\<lambda>_. sret [v])) s = (res, s')" for lifted
    using that
    by (auto simp: markGuestResultTrap_def sbind_def slift_def sret_def split: sum.splits option.splits prod.splits dest: validate_state)
  have nopanic: "no_panic (Lift (Suc n) (resultStep ?m) ?vals mem)"
    if r: "hasResult ?m" "resultErr ?m = None" and len: "length (resultFlatKinds ?m) = length (coreResultsWant ?m)"
      "length raw = length (resultFlatKinds ?m)" for mem
  proof -
    obtain ref where ref: "funcResultTypeRefs fd = [ref]"
      using r(1) unfolding assms(1) computeBoundExportABI_def Let_def by (auto simp: length_Suc_conv)
    let ?ra = "compute_result (Suc n) rs ref"
    have m: "resultErr ?m = ra_err ?ra" "resultFlatKinds ?m = ra_kinds ?ra" "resultStep ?m = ra_step ?ra"
      unfolding assms(1) computeBoundExportABI_def Let_def ref by simp_all
    obtain rt where rt: "Flatten (Suc n) (Some rs) (Some rt) = Inr (resultFlatKinds ?m)"
        "CompileLift (Suc n) (Some rt) (Some rs) = Inr (resultStep ?m)"
      using compute_result_ok [of "Suc n" rs ref] r(2) m by auto
    have "of_kinds (resultFlatKinds ?m) ?vals"
      using assms(3) len(2) by (auto simp: of_kinds_def case_prod_beta' map_fst_zip comp_def)
    moreover have "length (resultFlatKinds ?m) \<le> MaxFlatResults" using core_results_bound [OF assms(1)] len(1) by simp
    ultimately show ?thesis by (rule no_panic_Lift [OF rt(2,1)])
  qed
  show ?thesis
  proof (cases "tooManyResults ?m > 0 \<or> \<not> hasResult ?m \<or> resultErr ?m \<noteq> None \<or> resultUsesMemory ?m \<and> memoryBytesOf (Some (be_mod b)) s = None")
    case True
    have "resultErr ?m \<noteq> Some (GuestResultTrap x)" for x
      unfolding assms(1) computeBoundExportABI_def Let_def compute_result_def uses_memory_def no_result_def
      by (auto split: list.split sum.split option.split)
    with True show ?thesis using assms(4) by (auto simp: liftResult_def Let_def split: option.splits if_splits)
  next
    case False
    then have h: "tooManyResults ?m = 0" "hasResult ?m" "resultErr ?m = None" "\<not> (resultUsesMemory ?m \<and> memoryBytesOf (Some (be_mod b)) s = None)"
      by auto
    show ?thesis
      using assms(4) h finish [OF no_panic_Load] finish [OF nopanic [OF h(2,3)]]
      by (auto simp: liftResult_def Let_def assms(2) split: if_splits)
  qed
qed

subsection \<open>The call\<close>

text \<open>An operation that leaves the mark of a closed instance alone.\<close>

definition keeps_open :: "('a inst_state_scheme, runtime_error, 'b) op \<Rightarrow> bool" where
  "keeps_open f \<longleftrightarrow> (\<forall>s. poisoned (snd (f s)) = poisoned s)"

text \<open>How an operation may close an instance: only by an error of the given kind, and by every such error.\<close>

definition closes_by :: "(runtime_error \<Rightarrow> bool) \<Rightarrow> ('a inst_state_scheme, runtime_error, 'b) op \<Rightarrow> bool" where
  "closes_by bad f \<longleftrightarrow> (\<forall>s r s'. f s = (r, s') \<longrightarrow> (poisoned s \<longrightarrow> poisoned s') \<and>
     (\<not> poisoned s \<longrightarrow> poisoned s' \<longrightarrow> (\<exists>e. r = Inl e \<and> bad e)))"



lemma closes_by_keeps: "keeps_open f \<Longrightarrow> closes_by bad f"
  unfolding closes_by_def keeps_open_def by (metis snd_conv)


lemma closes_by_simple [simp]: "closes_by bad (sret x)" "closes_by bad (sfail e)"
  by (simp_all add: closes_by_def sret_def sfail_def)







subsection \<open>Examples\<close>

text \<open>An export that takes a \<open>u32\<close> and returns one: with a core function that adds one, and with one that traps.\<close>

definition increment_desc :: func_desc where
  "increment_desc = \<lparr>Params = [\<lparr>ParamName = ''x'', ParamType = prim ''u32''\<rparr>], Results = \<lparr>Unnamed = Some (prim ''u32''), Named = []\<rparr>, Async = False\<rparr>"

definition increment_export :: "bool \<Rightarrow> endpoint_state boundExport" where
  "increment_export traps = \<lparr>be_mod = 0, be_params = 1, be_abi = computeBoundExportABI (Suc 0) increment_desc (\<lambda>_. None), be_comp = True,
     be_realloc = None, coreFn = Some (if traps then (\<lambda>_. sfail UnknownHandle) else (\<lambda>cs. sret [hd cs + 1])), coreResultCount = 1,
     postReturn = None, asyncCallback = False, stackful = False\<rparr>"

abbreviation (input) call_example where
  "call_example traps \<equiv> invoke endpoint_example_env (\<lambda>_. False) 0 True (\<lambda>_. sret []) (\<lambda>_. sret []) (increment_export traps)"

abbreviation (input) lower_example where
  "lower_example \<equiv> lowerParams endpoint_example_env (\<lambda>_. False) 0 (increment_export False) [Plain (VU32 41)] endpoint_example"

lemma call_example_result: "fst (call_example False [Plain (VU32 41)] endpoint_example) = Inr [VU32 42]"
  by code_simp

theorem lowered_arguments_match_signature_witness:
  "map CoreKind [NewCoreValueI32 41] = coreParamsWant (be_abi (increment_export False))"
proof -
  have "fst lower_example = Inr [NewCoreValueI32 41]" by code_simp
  then have run: "lower_example = (Inr [NewCoreValueI32 41], snd lower_example)" by (simp add: prod_eq_iff)
  have "flattenErr (be_abi (increment_export False)) = None" by code_simp
  moreover have "be_abi (increment_export False) = computeBoundExportABI (Suc 0) increment_desc (\<lambda>_. None)"
    by (simp add: increment_export_def)
  ultimately show ?thesis
    using run by (intro lowered_arguments_match_signature) (auto simp: endpoint_example_env_def)
qed

theorem lifted_result_safe_witness:
  "\<exists>vs. fst (liftResult endpoint_example_env 0 (increment_export False) [0xFFFFFFFF] endpoint_example) = Inr vs \<and> length vs = 1"
proof -
  let ?l = "liftResult endpoint_example_env 0 (increment_export False) [0xFFFFFFFF] endpoint_example"
  have run: "fst ?l = Inr [VU32 0xFFFFFFFF]" by code_simp
  have k: "resultFlatKinds (be_abi (increment_export False)) = [''i32'']" "hasResult (be_abi (increment_export False))" by code_simp+
  have "well_kinded \<lparr>CoreKind = ''i32'', Bits = 0xFFFFFFFF\<rparr>"
    unfolding well_kinded_def by (rule disjI1) (auto simp: NewCoreValueI32_def intro!: exI [of _ "0xFFFFFFFF"])
  then have "list_all well_kinded (map (\<lambda>(k, u). \<lparr>CoreKind = k, Bits = u\<rparr>) (zip (resultFlatKinds (be_abi (increment_export False))) [0xFFFFFFFF]))"
    unfolding k by simp
  from lifted_result_safe [OF _ _ this prod.collapse [symmetric], of 0 increment_desc "\<lambda>_. None"] run k
  show ?thesis by (auto simp: endpoint_example_env_def increment_export_def)
qed




subsection \<open>Where the code and its comment differ\<close>

text \<open>An owned argument stays the handle it is and is not taken from the table, whatever the type of the resource.\<close>

lemma owned_argument_kept: "resolveArgHandles env guest_resource i v (OwnDesc rt) s = (Inr v, s)"
  by (simp add: resolveArgHandles_def sret_def)

end
