(* ===== verification/Async_Call.thy ===== *)
theory Async_Call
  imports Host_Call
begin

text \<open>
  Imports that complete later, and calls that do not wait for them: \<open>AsyncCall\<close> and the wrapper of an asynchronously lowered import
  (\<open>internal/instance/async_host_import.go\<close>), and \<open>CallAsync\<close> with its mailbox (\<open>callasync.go\<close>). An \<open>AsyncCall\<close> is embedded in
  its subtask and has its reference, and the \<open>guestTask\<close> of a pending call has the reference of its task. Each section under the
  lock \<open>amu\<close> is one operation; the condition variable is the decision \<open>awaitHead\<close> when there is nothing to wait for. The done
  channel of a pending call is closed exactly when the call is. The goroutines are in \<open>Async_Protocol\<close>.
\<close>

subsection \<open>State\<close>

datatype asyncCallState = asyncCallOpen | asyncCallQueued | asyncCallApplied | asyncCallClosed

record asyncCompletion =
  cp_call :: ref
  cp_results :: "host_value list"
  cp_cancelled :: bool

record asyncResolveCfg =
  rc_count :: nat
  rc_type :: "type_desc option"
  rc_usesMem :: bool
  rc_resolve :: instance_resolver
  rc_realloc :: "callback option"

text \<open>The fields of a subtask that only asynchronous imports use.\<close>

record sub_call =
  resolveCfg :: "asyncResolveCfg option"
  retPtr :: u32
  memMod :: "mod_id option"
  resolveFn :: "callback option"

record PendingCall =
  pc_task :: ref
  pc_result :: "val list"
  pc_err :: "runtime_error option"
  pc_closed :: bool
  lease :: bool
  pc_calls :: "ref list"
  pc_driver :: bool
  cancelRequested :: bool

text \<open>\<open>executing\<close> is the lock \<open>syncCallMu\<close>: some call is executing on the instance.\<close>

record async_state = endpoint_state +
  ac_state :: "ref \<Rightarrow> asyncCallState"
  inCall :: "ref \<Rightarrow> bool"
  sub_calls :: "ref \<Rightarrow> sub_call"
  mailbox :: "asyncCompletion list"
  pending_call :: "ref option"
  pcalls :: "ref \<Rightarrow> PendingCall"
  asyncActive :: bool
  executing :: bool

text \<open>\<open>resolve_fn\<close> is the function a test may inject; \<open>reapParkedGoroutines\<close> ends the goroutines that are parked.\<close>

record 's async_env =
  ep :: "'s endpoint_env"
  resolve_fn :: "callback \<Rightarrow> host_value list \<Rightarrow> ('s, runtime_error, unit) op"
  reapParkedGoroutines :: "'s \<Rightarrow> 's"

definition set_ac :: "ref \<Rightarrow> asyncCallState \<Rightarrow> 'a async_state_scheme \<Rightarrow> 'a async_state_scheme" where
  "set_ac ac x s = s\<lparr>ac_state := (ac_state s)(ac := x)\<rparr>"

definition upd_pc :: "ref \<Rightarrow> (PendingCall \<Rightarrow> PendingCall) \<Rightarrow> 'a async_state_scheme \<Rightarrow> 'a async_state_scheme" where
  "upd_pc p f s = s\<lparr>pcalls := (pcalls s)(p := f (pcalls s p))\<rparr>"

subsection \<open>Resolving a subtask\<close>

definition applyResolve :: "'a async_state_scheme async_env \<Rightarrow> ref \<Rightarrow> host_value list \<Rightarrow> ('a async_state_scheme, runtime_error, unit) op" where
  "applyResolve env st vals s =
     (let x = sub_calls s st in
      case resolveFn x of
        Some f \<Rightarrow> resolve_fn env f vals s
      | None \<Rightarrow>
          (case resolveCfg x of
             None \<Rightarrow> (Inl (TablePanic ''BUG: applyResolve on a subtask with no resolve source''), s)
           | Some cfg \<Rightarrow>
               if length vals \<noteq> rc_count cfg then (Inl (WrongResultCount (length vals) (rc_count cfg)), s)
               else if rc_count cfg = 0 then resolve st subtaskReturned [] s
               else if rc_usesMem cfg \<and> memoryBytesOf (memMod x) s = None then (Inl NoMemory, s)
               else (case rc_type cfg of
                   None \<Rightarrow> (Inl (ManyResults (rc_count cfg)), s)
                 | Some t \<Rightarrow>
                     sbind (allocHandleResult t (hd vals)) (\<lambda>rv.
                     sbind (in_module (memMod x)
                              (Store (ep_fuel (ep env)) (unat (retPtr x)) (Some t) (abi_value rv) (Some (rc_resolve cfg))
                                 (if rc_usesMem cfg then host_realloc (ep env) (memMod x) (rc_realloc cfg) else None))) (\<lambda>_.
                       resolve st subtaskReturned [])) s)))"

text \<open>\<open>installSubtaskEvent\<close>, and the same at the end of \<open>Resolve\<close>: the waitable is embedded in the subtask.\<close>

definition installSubtaskEvent :: "ref \<Rightarrow> u32 \<Rightarrow> 'a async_state_scheme \<Rightarrow> 'a async_state_scheme" where
  "installSubtaskEvent st si = setPendingSubtaskEvent st st si"

definition installParkedPendingEventIfNeeded :: "ref \<Rightarrow> 'a async_state_scheme \<Rightarrow> 'a async_state_scheme" where
  "installParkedPendingEventIfNeeded ac s = (if inCall s ac then s else setPendingSubtaskEvent ac ac (subtaski ac s) s)"

subsection \<open>The mailbox\<close>

definition stateError :: "ref \<Rightarrow> 'a async_state_scheme \<Rightarrow> runtime_error" where
  "stateError ac s = (if ac_state s ac = asyncCallClosed then AsyncCallClosed else ResolvedTwice)"

definition call_pending :: "'a async_state_scheme \<Rightarrow> ref option" where
  "call_pending s = (case pending_call s of None \<Rightarrow> None | Some p \<Rightarrow> if pc_closed (pcalls s p) then None else Some p)"

definition queueExternalCompletion :: "asyncCompletion \<Rightarrow> ('a async_state_scheme, runtime_error, unit) op" where
  "queueExternalCompletion c s =
     (if call_pending s = None then (Inl AsyncCallClosed, set_ac (cp_call c) asyncCallClosed s)
      else if ac_state s (cp_call c) \<noteq> asyncCallOpen then (Inl (stateError (cp_call c) s), s)
      else (Inr (), (set_ac (cp_call c) asyncCallQueued s)\<lparr>mailbox := mailbox s @ [c]\<rparr>))"

definition resolve_cancelled :: "ref \<Rightarrow> ('a async_state_scheme, runtime_error, unit) op" where
  "resolve_cancelled st s =
     (if \<not> cancellationRequested (subtasks s st) then (Inl CancelNotRequested, s)
      else resolve st subtaskCancelledBeforeReturned [] s)"

definition applyQueued :: "'a async_state_scheme async_env \<Rightarrow> asyncCompletion \<Rightarrow> ('a async_state_scheme, runtime_error, unit) op" where
  "applyQueued env c =
     (let st = cp_call c in
      sbind (if cp_cancelled c then resolve_cancelled st else applyResolve env st (cp_results c)) (\<lambda>_.
        modify (\<lambda>s. set_ac st asyncCallApplied
          (if subtaski st s \<noteq> 0 then installSubtaskEvent st (subtaski st s) s else s))))"

primrec apply_all :: "'a async_state_scheme async_env \<Rightarrow> asyncCompletion list \<Rightarrow> ('a async_state_scheme, runtime_error, unit) op" where
  "apply_all env [] = sret ()"
| "apply_all env (c # cs) = sbind (applyQueued env c) (\<lambda>_. apply_all env cs)"

definition drainMailbox :: "'a async_state_scheme async_env \<Rightarrow> ('a async_state_scheme, runtime_error, bool) op" where
  "drainMailbox env s = sbind (apply_all env (mailbox s)) (\<lambda>_. sret (mailbox s \<noteq> [])) (s\<lparr>mailbox := []\<rparr>)"

definition registerAsyncCall :: "ref \<Rightarrow> 'a async_state_scheme \<Rightarrow> 'a async_state_scheme" where
  "registerAsyncCall ac s =
     (case call_pending s of
        Some p \<Rightarrow> upd_pc p (\<lambda>x. x\<lparr>pc_calls := pc_calls x @ [ac]\<rparr>) s
      | None \<Rightarrow> set_ac ac asyncCallClosed s)"

subsection \<open>What the host does with an asynchronous call\<close>

text \<open>The part of \<open>Resolve\<close> and of \<open>ResolveCancelled\<close> outside \<open>CallAsync\<close>. A panic of the code is an error here.\<close>

definition resolve_directly :: "ref \<Rightarrow> ('a async_state_scheme, runtime_error, unit) op \<Rightarrow> ('a async_state_scheme, runtime_error, unit) op" where
  "resolve_directly ac f s =
     (if ac_state s ac \<noteq> asyncCallOpen then (Inl (stateError ac s), s)
      else if \<not> inCall s ac \<and> \<not> pumping s then (Inl OutsideScheduler, set_ac ac asyncCallClosed s)
      else sbind f (\<lambda>_. modify (installParkedPendingEventIfNeeded ac)) (set_ac ac asyncCallApplied s))"

definition Resolve :: "'a async_state_scheme async_env \<Rightarrow> ref \<Rightarrow> host_value list \<Rightarrow> ('a async_state_scheme, runtime_error, unit) op" where
  "Resolve env ac results s =
     (if asyncActive s then queueExternalCompletion \<lparr>cp_call = ac, cp_results = results, cp_cancelled = False\<rparr> s
      else resolve_directly ac (applyResolve env ac results) s)"

definition ResolveCancelled :: "ref \<Rightarrow> ('a async_state_scheme, runtime_error, unit) op" where
  "ResolveCancelled ac s =
     (if asyncActive s then queueExternalCompletion \<lparr>cp_call = ac, cp_results = [], cp_cancelled = True\<rparr> s
      else resolve_directly ac (resolve_cancelled ac) s)"

definition OnCancel :: "ref \<Rightarrow> callback \<Rightarrow> 'a async_state_scheme \<Rightarrow> 'a async_state_scheme" where
  "OnCancel ac fn = upd_subtask ac (\<lambda>x. x\<lparr>onCancelHook := Some fn\<rparr>)"

definition Defer :: "callback \<Rightarrow> 'a async_state_scheme \<Rightarrow> 'a async_state_scheme" where
  "Defer fn = enqueueVoid fn"

subsection \<open>The pending call\<close>

definition finishAsync :: "ref \<Rightarrow> val list \<Rightarrow> runtime_error option \<Rightarrow> 'a async_state_scheme \<Rightarrow> 'a async_state_scheme" where
  "finishAsync p res err s =
     (let s1 = (if pc_closed (pcalls s p) then s
                else (upd_pc p (\<lambda>x. x\<lparr>pc_result := res, pc_err := err, pc_closed := True\<rparr>) s)
                       \<lparr>ac_state := (\<lambda>ac. if ac \<in> set (pc_calls (pcalls s p)) \<and> ac_state s ac \<noteq> asyncCallApplied
                                      then asyncCallClosed else ac_state s ac)\<rparr>)
      in if pending_call s1 = Some p then s1\<lparr>pending_call := None, mailbox := [], asyncActive := False\<rparr> else s1)"

definition releaseAsyncExecution :: "'a async_state_scheme \<Rightarrow> 'a async_state_scheme" where
  "releaseAsyncExecution s = s\<lparr>executing := False\<rparr>"

text \<open>The section of \<open>releasePendingLease\<close> under the lock of the mailbox, and the whole.\<close>

definition take_lease :: "ref \<Rightarrow> 'a async_state_scheme \<Rightarrow> bool \<times> 'a async_state_scheme" where
  "take_lease p s = (lease (pcalls s p), upd_pc p (\<lambda>x. x\<lparr>lease := False\<rparr>) s)"

definition releasePendingLease :: "ref \<Rightarrow> 'a async_state_scheme \<Rightarrow> 'a async_state_scheme" where
  "releasePendingLease p s = (let (release, s1) = take_lease p s in if release then releaseAsyncExecution s1 else s1)"

text \<open>The end of a call that failed, and of one that resolved.\<close>

definition fail_call :: "'a async_state_scheme async_env \<Rightarrow> ref \<Rightarrow> runtime_error \<Rightarrow> 'a async_state_scheme \<Rightarrow> 'a async_state_scheme" where
  "fail_call env p e s = releasePendingLease p (reapParkedGoroutines env (finishAsync p [] (Some e) s))"

definition resolve_call :: "ref \<Rightarrow> 'a async_state_scheme \<Rightarrow> 'a async_state_scheme" where
  "resolve_call p s = releasePendingLease p (finishAsync p (result (tasks s (pc_task (pcalls s p)))) None s)"

partial_function (option) pumpPending :: "'a async_state_scheme async_env \<Rightarrow> ref \<Rightarrow> ('a async_state_scheme, unit) driven" where
  "pumpPending env p s =
     Option.bind (driveToQuiescence (instance_sched (be (ep env))) (\<lambda>s. gt_done (gtasks s (pc_task (pcalls s p)))) s) (\<lambda>(r, s1).
       case r of
         Inl e \<Rightarrow> Some (Inl e, fail_call env p e s1)
       | Inr q \<Rightarrow>
           if q then
             (case gt_err (gtasks s1 (pc_task (pcalls s1 p))) of
                Some e \<Rightarrow> Some (Inl e, fail_call env p e s1)
              | None \<Rightarrow> Some (Inr (), resolve_call p s1))
           else
             (case drainMailbox env s1 of
                (Inl e, s2) \<Rightarrow> Some (Inl e, fail_call env p e s2)
              | (Inr applied, s2) \<Rightarrow> if applied then pumpPending env p s2 else Some (Inr (), s2)))"

definition claimDriver :: "ref \<Rightarrow> ('a async_state_scheme, runtime_error, unit) op" where
  "claimDriver p s =
     (if pc_closed (pcalls s p) then (Inr (), s)
      else if pc_driver (pcalls s p) then (Inl DriverActive, s)
      else (Inr (), upd_pc p (\<lambda>x. x\<lparr>pc_driver := True\<rparr>) s))"

definition releaseDriver :: "ref \<Rightarrow> 'a async_state_scheme \<Rightarrow> 'a async_state_scheme" where
  "releaseDriver p = upd_pc p (\<lambda>x. x\<lparr>pc_driver := False\<rparr>)"

text \<open>What is known of the export before \<open>CallAsync\<close> starts: its number of parameters and whether it is a callback lift. The task
  that is made has no finish function: the pending call looks at the task itself.\<close>

record async_export =
  ae_params :: nat
  ae_callback :: bool
  ae_result :: "type_desc option"
  ae_promoted :: bool

definition begin_call :: "async_export \<Rightarrow> 'a async_state_scheme \<Rightarrow> ref \<times> 'a async_state_scheme" where
  "begin_call x s =
     (let t = fresh_ref s; p = t + 1 in
      (p, s\<lparr>fresh_ref := t + 2, executing := True,
            tasks := (tasks s)(t := \<lparr>task_state = taskInitial, body = CallbackBody, cancelled = False, ctxStorage = [0, 0], onResolve = None,
                result = [], syncImplicit = False, async_export = True, export_result = ae_result x, has_export = True\<rparr>),
            numBorrows := (numBorrows s)(t := 0),
            gtasks := (gtasks s)(t := \<lparr>gt_park = parkNone, gt_wset = None, gt_cancellable = False, gt_cancelWake = False, gt_done = False,
                gt_err = None, gt_finish = None, promoted = ae_promoted x\<rparr>),
            pcalls := (pcalls s)(p := \<lparr>pc_task = t, pc_result = [], pc_err = None, pc_closed = False, lease = True, pc_calls = [],
                pc_driver = False, cancelRequested = False\<rparr>),
            pending_call := Some p, mailbox := [], asyncActive := True\<rparr>))"

definition CallAsync ::
    "'a async_state_scheme async_env \<Rightarrow> async_export option \<Rightarrow> val list \<Rightarrow> ('a async_state_scheme, ref) driven" where
  "CallAsync env export args s =
     (case export of
        None \<Rightarrow> Some (Inl ExportNotFound, s)
      | Some x \<Rightarrow>
          if \<not> ae_callback x then Some (Inl NotCallback, s)
          else if poisoned s \<or> \<not> mayEnter s then Some (Inl CannotEnter, s)
          else if length args \<noteq> ae_params x then Some (Inl (WrongArgCount (length args) (ae_params x)), s)
          else if executing s then Some (Inl CallInProgress, s)
          else
            (let (p, s1) = begin_call x s in
             case gt_start (task_part (be (ep env))) (pc_task (pcalls s1 p)) s1 of
               (Inl e, s2) \<Rightarrow> Some (Inl e, fail_call env p e s2)
             | (Inr _, s2) \<Rightarrow>
                 (case pumpPending env p (upd_pc p (\<lambda>c. c\<lparr>pc_driver := True\<rparr>) s2) of
                    None \<Rightarrow> None
                  | Some (Inl e, s3) \<Rightarrow> Some (Inl e, releaseDriver p s3)
                  | Some (Inr _, s3) \<Rightarrow> Some (Inr p, releaseDriver p s3))))"

text \<open>One turn of the loop of \<open>Await\<close> under the lock: it waits, returns, ends the call or pumps.\<close>

datatype await_choice = AwaitWait | AwaitClosed | AwaitContext | AwaitCancelled | AwaitPump

definition awaitHead :: "ref \<Rightarrow> bool \<Rightarrow> 'a async_state_scheme \<Rightarrow> await_choice" where
  "awaitHead p ctxDone s =
     (let x = pcalls s p in
      if mailbox s = [] \<and> \<not> pc_closed x \<and> \<not> cancelRequested x \<and> \<not> ctxDone then AwaitWait
      else if pc_closed x then AwaitClosed
      else if ctxDone then AwaitContext
      else if cancelRequested x then AwaitCancelled
      else AwaitPump)"

text \<open>The locked section of \<open>Cancel\<close>; the value says whether the canceller has become the driver.\<close>

definition Cancel_begin :: "ref \<Rightarrow> 'a async_state_scheme \<Rightarrow> bool \<times> 'a async_state_scheme" where
  "Cancel_begin p s =
     (if pc_closed (pcalls s p) then (False, s)
      else (\<not> pc_driver (pcalls s p), upd_pc p (\<lambda>x. x\<lparr>cancelRequested := True, pc_driver := True\<rparr>) s))"

subsection \<open>The wrapper of an asynchronously lowered import\<close>

definition maxFlatAsyncParams :: nat where "maxFlatAsyncParams = 4"

record async_wrapper =
  aw_paramsSpill :: bool
  aw_tuple :: "type_ref list"
  aw_width :: nat
  aw_outPtr :: "nat option"
  aw_params :: "byte list"
  aw_results :: "byte list"
  aw_plans :: "hostParamPlan list"
  aw_cfg :: asyncResolveCfg

definition buildAsyncHostWrapper :: "nat \<Rightarrow> func_desc \<Rightarrow> instance_resolver \<Rightarrow> callback option \<Rightarrow> runtime_error + async_wrapper" where
  "buildAsyncHostWrapper fuel fd rs reallocOverride =
     rbind (buildHostParamPlans fuel rs fd) (\<lambda>plans.
       (let width = sum_list (map (\<lambda>pp. length (pp_flat pp)) plans); spill = width > maxFlatAsyncParams in
        rbind (buildHostResultPlan fuel rs fd) (\<lambda>(count, rt, um).
          if count > 1 then Inl (ManyResults count)
          else
            (let kinds = (if spill then [''i32''] else concat (map pp_flat plans)) in
             rbind (abi (toApiValueTypes (kinds @ (if count = 1 then [''i32''] else [])))) (\<lambda>apiParams.
               Inr \<lparr>aw_paramsSpill = spill, aw_tuple = (if spill then map ParamType (Params fd) else []), aw_width = width,
                    aw_outPtr = (if count = 1 then Some (length kinds) else None), aw_params = apiParams, aw_results = [0x7f],
                    aw_plans = plans,
                    aw_cfg = \<lparr>rc_count = count, rc_type = rt, rc_usesMem = um, rc_resolve = rs, rc_realloc = reallocOverride\<rparr>\<rparr>)))))"

text \<open>What a call looks at of the import. \<open>at_start\<close> is \<open>startAsyncExportTask\<close> of the instance that provides it, which is given the
  two functions that lift the arguments and take the results.\<close>

record 's async_target =
  at_sub :: inst_id
  at_guest :: "inst_id \<Rightarrow> u32 \<Rightarrow> bool"
  at_params :: "type_desc option list"
  at_result :: "type_desc option"
  at_start :: "(ref \<Rightarrow> ('s, runtime_error, host_value list) op) \<Rightarrow> (host_value list \<Rightarrow> bool \<Rightarrow> ('s, runtime_error, unit) op) \<Rightarrow>
    ('s, runtime_error, ref) op"

record 's async_import =
  ai_lineage :: bool
  ai_fn :: "host_value list \<Rightarrow> ref \<Rightarrow> ('s, runtime_error, unit) op"
  ai_target :: "'s async_target option"

definition new_subtask :: "sub_call \<Rightarrow> ('a async_state_scheme, runtime_error, ref) op" where
  "new_subtask c =
     sbind new_ref (\<lambda>st. sbind (modify (\<lambda>s.
       s\<lparr>subtasks := (subtasks s)(st := newSubtask), waitables := (waitables s)(st := zero_waitable),
         ac_state := (ac_state s)(st := asyncCallOpen), inCall := (inCall s)(st := False), sub_calls := (sub_calls s)(st := c)\<rparr>)) (\<lambda>_. sret st))"

definition stack_at :: "u64 list \<Rightarrow> nat \<Rightarrow> ('s, runtime_error, u32) op" where
  "stack_at stack k = (if k < length stack then sret (ucast (stack ! k)) else sfail (TablePanic ''index out of range''))"

definition lift_async ::
    "'a async_state_scheme endpoint_env \<Rightarrow> inst_id \<Rightarrow> async_wrapper \<Rightarrow> instance_resolver \<Rightarrow> u64 list \<Rightarrow> mod_id option \<Rightarrow> ref \<Rightarrow>
     ('a async_state_scheme, runtime_error, host_value list) op" where
  "lift_async env i aw rs stack m st =
     sbind (if aw_paramsSpill aw then
              sbind (stack_at stack 0) (\<lambda>ptr. liftAsyncHostArgsSpilled env i (aw_plans aw) (aw_tuple aw) rs ptr m st)
            else liftAsyncHostArgsPlanned env i (aw_plans aw) rs stack m st) (\<lambda>args.
     sbind (modify (upd_subtask st (\<lambda>x. x\<lparr>sub_state := subtaskStarted\<rparr>))) (\<lambda>_. sret args))"

text \<open>The two closures that are given to a callee in another instance.\<close>

definition on_start_of ::
    "'a async_state_scheme endpoint_env \<Rightarrow> inst_id \<Rightarrow> async_wrapper \<Rightarrow> 'a async_state_scheme async_target \<Rightarrow> instance_resolver \<Rightarrow>
     u64 list \<Rightarrow> mod_id option \<Rightarrow> ref \<Rightarrow> ref \<Rightarrow> ('a async_state_scheme, runtime_error, host_value list) op" where
  "on_start_of env i aw tgt rs flat m st calleeTask =
     sbind (lift_async env i aw rs flat m st) (\<lambda>args.
       mapArgsToProvider env (at_guest tgt) (at_sub tgt) (at_params tgt) args (Some calleeTask))"

definition on_resolve_of ::
    "'a async_state_scheme async_env \<Rightarrow> 'a async_state_scheme async_target \<Rightarrow> ref \<Rightarrow> host_value list \<Rightarrow> bool \<Rightarrow>
     ('a async_state_scheme, runtime_error, unit) op" where
  "on_resolve_of env tgt st vals wasCancelled =
     sbind (if wasCancelled then
              (\<lambda>s. resolve st (if sub_state (subtasks s st) = subtaskStarting then subtaskCancelledBeforeStarted
                               else subtaskCancelledBeforeReturned) [] s)
            else sbind (mapResultsFromProvider (ep env) (at_sub tgt) (at_result tgt) vals) (applyResolve env st)) (\<lambda>_.
       modify (\<lambda>s. if subtaski st s \<noteq> 0 then installSubtaskEvent st (subtaski st s) s else s))"

text \<open>The bracket around the Go function: both marks are taken back whatever it returns.\<close>

definition in_async_host_call :: "ref \<Rightarrow> ('a async_state_scheme, 'e, 'b) op \<Rightarrow> ('a async_state_scheme, 'e, 'b) op" where
  "in_async_host_call ac f s =
     (let (r, s') = f (s\<lparr>inCall := (inCall s)(ac := True), inHostCall := inHostCall s + 1\<rparr>)
      in (r, s'\<lparr>inCall := (inCall s')(ac := False), inHostCall := inHostCall s' - 1\<rparr>))"

text \<open>The packed status that the core function returns: the state of the subtask, and the handle of one that has not resolved.\<close>

definition async_status :: "bool \<Rightarrow> ref \<Rightarrow> ('a async_state_scheme, runtime_error, u64) op" where
  "async_status own_state st s =
     (if resolved st s then
        (Inr (if own_state then of_nat (subtask_number (sub_state (subtasks s st))) else of_nat (subtask_number subtaskReturned)),
         deliverResolve st s)
      else
        (let (si, s1) = addEntry (SubtaskEntry st) s in
         (Inr (of_nat (subtask_number (sub_state (subtasks s st))) OR push_bit 4 (ucast si)), setSubtaski st si s1)))"

definition host_arm ::
    "'a async_state_scheme async_env \<Rightarrow> inst_id \<Rightarrow> async_wrapper \<Rightarrow> 'a async_state_scheme async_import \<Rightarrow> instance_resolver \<Rightarrow>
     u64 list \<Rightarrow> mod_id option \<Rightarrow> ref \<Rightarrow> ('a async_state_scheme, runtime_error, u64) op" where
  "host_arm env i aw hi rs stack m st =
     sbind (lift_async (ep env) i aw rs stack m st) (\<lambda>args.
     sbind (modify (\<lambda>s. if asyncActive s then registerAsyncCall st s else s)) (\<lambda>_.
     sbind (in_async_host_call st (ai_fn hi args st)) (\<lambda>_.
     sbind (\<lambda>s. if asyncActive s then drainMailbox env s else (Inr False, s)) (\<lambda>_.
       async_status False st))))"

definition guest_arm ::
    "'a async_state_scheme async_env \<Rightarrow> inst_id \<Rightarrow> async_wrapper \<Rightarrow> 'a async_state_scheme async_target \<Rightarrow> instance_resolver \<Rightarrow>
     u64 list \<Rightarrow> mod_id option \<Rightarrow> ref \<Rightarrow> ('a async_state_scheme, u64) driven" where
  "guest_arm env i aw tgt rs stack m st =
     (let flat = (if aw_paramsSpill aw then take 1 stack else take (aw_width aw) stack) in
      dbind (dlift (at_start tgt (on_start_of (ep env) i aw tgt rs flat m st) (on_resolve_of env tgt st))) (\<lambda>calleeTask.
      dbind (dlift (modify (upd_subtask st (\<lambda>x. x\<lparr>cancelTask := Some calleeTask\<rparr>)))) (\<lambda>_.
      dbind (\<lambda>s. if (case activeTask s of None \<Rightarrow> True | Some t \<Rightarrow> syncImplicit (tasks s t)) then
                   (case drainReady (instance_sched (be (ep env))) s of
                      Some (Inl e, s') \<Rightarrow> Some (Inl e, reapParkedGoroutines env s')
                    | r \<Rightarrow> r)
                 else Some (Inr (), s)) (\<lambda>_.
        dlift (async_status True st)))))"

definition async_wrapper_call ::
    "'a async_state_scheme async_env \<Rightarrow> inst_id \<Rightarrow> async_wrapper \<Rightarrow> 'a async_state_scheme async_import \<Rightarrow> instance_resolver \<Rightarrow>
     mod_id option \<Rightarrow> mod_id option \<Rightarrow> u64 list \<Rightarrow> ('a async_state_scheme, u64) driven" where
  "async_wrapper_call env i aw hi rs memOverride m stack =
     (if ai_lineage hi then dlift (sfail CannotEnter)
      else
        (let mm = (if memOverride \<noteq> None then memOverride else m) in
         dbind (dlift (case aw_outPtr aw of Some k \<Rightarrow> stack_at stack k | None \<Rightarrow> sret 0)) (\<lambda>ret.
         dbind (dlift (new_subtask \<lparr>resolveCfg = Some (aw_cfg aw), retPtr = ret, memMod = mm, resolveFn = None\<rparr>)) (\<lambda>st.
           case ai_target hi of
             Some tgt \<Rightarrow> guest_arm env i aw tgt rs stack mm st
           | None \<Rightarrow> dlift (host_arm env i aw hi rs stack mm st)))))"

end
