(* ===== verification/Async_Protocol.thy ===== *)
theory Async_Protocol
  imports Stream_Safety Async_Call
begin

text \<open>
  The protocol of a pending call: goroutines of the host that post completions, the one that drives the call, and those that cancel
  it. Every section under the lock \<open>amu\<close> of \<open>internal/instance/callasync.go\<close> is one step of \<open>protocol_step\<close>, in any order; what runs
  between two of them on the driver is the place the driver is at. The configuration carries the list of the completions that were
  accepted and of those that were applied.
\<close>

subsection \<open>Steps\<close>

datatype driver_place =
    NoDriver
  | AtHead
  | Pumping
  | Applying "asyncCompletion list"
  | Failing runtime_error
  | Reaping
  | Unleasing
  | Freeing bool
  | Ended

record 's protocol =
  cfg :: 's
  place :: driver_place
  cancellers :: nat
  accepted :: "asyncCompletion list"
  applied :: "asyncCompletion list"

text \<open>What the guest and the parts of the runtime that belong to no step leave alone.\<close>

definition same_call :: "'a async_state_scheme \<Rightarrow> 'a async_state_scheme \<Rightarrow> bool" where
  "same_call s s' \<longleftrightarrow> mailbox s' = mailbox s \<and> pending_call s' = pending_call s \<and> pcalls s' = pcalls s \<and> asyncActive s' = asyncActive s \<and>
     executing s' = executing s \<and> ac_state s' = ac_state s"

text \<open>The guests' allocators, the function a test injects and the code that ends parked goroutines know nothing of the call.\<close>

definition keeps_call :: "'a async_state_scheme async_env \<Rightarrow> bool" where
  "keeps_call env \<longleftrightarrow> (\<forall>f. realloc_keeps same_call (ep_realloc (ep env) f)) \<and> (\<forall>f vals. keeps same_call (resolve_fn env f vals)) \<and>
     (\<forall>s. same_call s (reapParkedGoroutines env s))"

text \<open>A posting goroutine; the driver in \<open>Await\<close>, in \<open>pumpPending\<close>, and when the call ends; a canceller. The end is four steps of the driver,
  between which the others go on: \<open>finishAsync\<close>, after a failure the reaping, the lock in \<open>releasePendingLease\<close>, and
  \<open>releaseAsyncExecution\<close>. An \<open>Await\<close> that comes when the call has ended gives up a driver it never was.\<close>

inductive protocol_step :: "'a async_state_scheme async_env \<Rightarrow> ref \<Rightarrow> 'a async_state_scheme protocol \<Rightarrow> 'a async_state_scheme protocol \<Rightarrow> bool"
  for env p where
  accept: "queueExternalCompletion c (cfg k) = (Inr (), s') \<Longrightarrow> protocol_step env p k (k\<lparr>cfg := s', accepted := accepted k @ [c]\<rparr>)"
| refuse: "queueExternalCompletion c (cfg k) = (Inl e, s') \<Longrightarrow> protocol_step env p k (k\<lparr>cfg := s'\<rparr>)"
| claim: "place k = NoDriver \<Longrightarrow> \<not> pc_closed (pcalls (cfg k) p) \<Longrightarrow> claimDriver p (cfg k) = (Inr (), s') \<Longrightarrow>
    protocol_step env p k (k\<lparr>cfg := s', place := AtHead\<rparr>)"
| pump: "place k = AtHead \<Longrightarrow> awaitHead p d (cfg k) = AwaitPump \<Longrightarrow> protocol_step env p k (k\<lparr>place := Pumping\<rparr>)"
| leave: "place k = AtHead \<Longrightarrow> awaitHead p d (cfg k) \<in> {AwaitClosed, AwaitContext} \<Longrightarrow>
    protocol_step env p k (k\<lparr>cfg := releaseDriver p (cfg k), place := NoDriver\<rparr>)"
| cancelled: "place k = AtHead \<Longrightarrow> awaitHead p d (cfg k) = AwaitCancelled \<Longrightarrow> protocol_step env p k (k\<lparr>place := Failing CallCancelled\<rparr>)"
| guest: "place k = Pumping \<Longrightarrow> same_call (cfg k) s' \<Longrightarrow> protocol_step env p k (k\<lparr>cfg := s'\<rparr>)"
| register: "place k = Pumping \<Longrightarrow> ac_state (cfg k) ac = asyncCallOpen \<Longrightarrow>
    protocol_step env p k (k\<lparr>cfg := registerAsyncCall ac (cfg k)\<rparr>)"
| drain: "place k = Pumping \<Longrightarrow> protocol_step env p k (k\<lparr>cfg := (cfg k)\<lparr>mailbox := []\<rparr>, place := Applying (mailbox (cfg k))\<rparr>)"
| apply_one: "place k = Applying (c # cs) \<Longrightarrow> applyQueued env c (cfg k) = (Inr (), s') \<Longrightarrow>
    protocol_step env p k (k\<lparr>cfg := s', place := Applying cs, applied := applied k @ [c]\<rparr>)"
| apply_fails: "place k = Applying (c # cs) \<Longrightarrow> applyQueued env c (cfg k) = (Inl e, s') \<Longrightarrow>
    protocol_step env p k (k\<lparr>cfg := s', place := Failing e\<rparr>)"
| drained: "place k = Applying [] \<Longrightarrow> protocol_step env p k (k\<lparr>place := Pumping\<rparr>)"
| park: "place k = Pumping \<Longrightarrow> mailbox (cfg k) = [] \<Longrightarrow> protocol_step env p k (k\<lparr>place := AtHead\<rparr>)"
| started: "place k = Pumping \<Longrightarrow> mailbox (cfg k) = [] \<Longrightarrow>
    protocol_step env p k (k\<lparr>cfg := releaseDriver p (cfg k), place := NoDriver\<rparr>)"
| fails: "place k = Pumping \<Longrightarrow> protocol_step env p k (k\<lparr>place := Failing e\<rparr>)"
| resolves: "place k = Pumping \<Longrightarrow>
    protocol_step env p k (k\<lparr>cfg := finishAsync p (result (tasks (cfg k) (pc_task (pcalls (cfg k) p)))) None (cfg k), place := Unleasing\<rparr>)"
| ends: "place k = Failing e \<Longrightarrow> protocol_step env p k (k\<lparr>cfg := finishAsync p [] (Some e) (cfg k), place := Reaping\<rparr>)"
| reaps: "place k = Reaping \<Longrightarrow> protocol_step env p k (k\<lparr>cfg := reapParkedGoroutines env (cfg k), place := Unleasing\<rparr>)"
| unleases: "place k = Unleasing \<Longrightarrow> take_lease p (cfg k) = (held, s') \<Longrightarrow> protocol_step env p k (k\<lparr>cfg := s', place := Freeing held\<rparr>)"
| frees: "place k = Freeing held \<Longrightarrow>
    protocol_step env p k (k\<lparr>cfg := (if held then releaseAsyncExecution (cfg k) else cfg k), place := Ended\<rparr>)"
| release: "place k = Ended \<Longrightarrow> protocol_step env p k (k\<lparr>cfg := releaseDriver p (cfg k), place := NoDriver\<rparr>)"
| cancel: "\<not> pc_closed (pcalls (cfg k) p) \<Longrightarrow> Cancel_begin p (cfg k) = (True, s') \<Longrightarrow>
    protocol_step env p k (k\<lparr>cfg := s', place := Failing CallCancelled\<rparr>)"
| cancel_waits: "\<not> pc_closed (pcalls (cfg k) p) \<Longrightarrow> Cancel_begin p (cfg k) = (False, s') \<Longrightarrow>
    protocol_step env p k (k\<lparr>cfg := s', cancellers := cancellers k + 1\<rparr>)"
| late_release: "pc_closed (pcalls (cfg k) p) \<Longrightarrow> protocol_step env p k (k\<lparr>cfg := releaseDriver p (cfg k)\<rparr>)"
| cancel_returns: "pc_closed (pcalls (cfg k) p) \<Longrightarrow> 0 < cancellers k \<Longrightarrow> protocol_step env p k (k\<lparr>cancellers := cancellers k - 1\<rparr>)"

text \<open>The call as \<open>CallAsync\<close> makes it, when it starts to pump.\<close>

definition fresh_call :: "ref \<Rightarrow> 'a async_state_scheme \<Rightarrow> bool" where
  "fresh_call p s \<longleftrightarrow> pending_call s = Some p \<and> mailbox s = [] \<and> asyncActive s \<and> executing s \<and> \<not> pc_closed (pcalls s p) \<and> lease (pcalls s p) \<and>
     pc_driver (pcalls s p) \<and> pc_calls (pcalls s p) = [] \<and> \<not> cancelRequested (pcalls s p)"

inductive reachable :: "'a async_state_scheme async_env \<Rightarrow> ref \<Rightarrow> 'a async_state_scheme protocol \<Rightarrow> bool" for env p where
  start: "fresh_call p s \<Longrightarrow> reachable env p \<lparr>cfg = s, place = Pumping, cancellers = 0, accepted = [], applied = []\<rparr>"
| step: "reachable env p k \<Longrightarrow> protocol_step env p k k' \<Longrightarrow> reachable env p k'"

subsection \<open>The invariant\<close>

text \<open>The completions that the driver has taken out of the mailbox and not applied yet.\<close>

definition in_flight :: "driver_place \<Rightarrow> asyncCompletion list" where
  "in_flight pl = (case pl of Applying cs \<Rightarrow> cs | _ \<Rightarrow> [])"

definition is_failing :: "driver_place \<Rightarrow> bool" where
  "is_failing pl = (case pl of Failing _ \<Rightarrow> True | _ \<Rightarrow> False)"

definition is_ending :: "driver_place \<Rightarrow> bool" where
  "is_ending pl = (case pl of Reaping \<Rightarrow> True | Unleasing \<Rightarrow> True | Freeing _ \<Rightarrow> True | Ended \<Rightarrow> True | _ \<Rightarrow> False)"

text \<open>While the call is open and the driver is not about to fail it, what was accepted has been applied, is in flight or is in the
  mailbox, in this order.\<close>

definition open_inv :: "ref \<Rightarrow> 'a async_state_scheme protocol \<Rightarrow> bool" where
  "open_inv p k \<longleftrightarrow>
     (let s = cfg k in
      (pc_driver (pcalls s p) \<longleftrightarrow> place k \<noteq> NoDriver) \<and> pending_call s = Some p \<and> asyncActive s \<and> lease (pcalls s p) \<and> executing s \<and> \<not> is_ending (place k) \<and>
      (\<not> is_failing (place k) \<longrightarrow> accepted k = applied k @ in_flight (place k) @ mailbox s))"

text \<open>When the call is closed, its driver is on the way to give the instance back, or has done so.\<close>

definition closed_inv :: "ref \<Rightarrow> 'a async_state_scheme protocol \<Rightarrow> bool" where
  "closed_inv p k \<longleftrightarrow>
     (let s = cfg k in
      pending_call s = None \<and> mailbox s = [] \<and> \<not> asyncActive s \<and> (is_ending (place k) \<or> place k = NoDriver) \<and>
      (lease (pcalls s p) \<longleftrightarrow> place k \<in> {Reaping, Unleasing}) \<and> (executing s \<longleftrightarrow> place k \<in> {Reaping, Unleasing, Freeing True}) \<and>
      place k \<noteq> Freeing False \<and>
      (\<forall>ac \<in> set (pc_calls (pcalls s p)). ac_state s ac \<in> {asyncCallApplied, asyncCallClosed}))"

definition protocol_inv :: "ref \<Rightarrow> 'a async_state_scheme protocol \<Rightarrow> bool" where
  "protocol_inv p k \<longleftrightarrow>
     (let s = cfg k in
      (if pc_closed (pcalls s p) then closed_inv p k else open_inv p k) \<and>
      (\<exists>rest. accepted k = applied k @ rest) \<and> distinct (map cp_call (accepted k)) \<and>
      (\<forall>c \<in> set (accepted k). ac_state s (cp_call c) \<noteq> asyncCallOpen))"

lemmas inv_defs = protocol_inv_def open_inv_def closed_inv_def in_flight_def is_failing_def is_ending_def Let_def
lemmas call_defs = upd_pc_def set_ac_def

lemma protocol_inv_start: "fresh_call p s \<Longrightarrow> protocol_inv p \<lparr>cfg = s, place = Pumping, cancellers = 0, accepted = [], applied = []\<rparr>"
  by (simp add: fresh_call_def inv_defs)

lemma same_call_refl [simp]: "same_call s s"
  by (simp add: same_call_def)

lemma same_call_trans: "same_call s s' \<Longrightarrow> same_call s' s'' \<Longrightarrow> same_call s s''"
  by (simp add: same_call_def)

lemma same_call_subtask [simp]: "same_call s (upd_subtask st f s)" "same_call s (installSubtaskEvent st si s)"
  by (simp_all add: same_call_def upd_subtask_def installSubtaskEvent_def setPendingSubtaskEvent_def upd_waitable_def)

interpretation async_calls: guest_frame same_call
  by unfold_locales (auto intro: same_call_trans)

lemma keeps_resolve [keeping]: "keeps same_call (resolve st q flat)"
  by (auto simp: keeps_def resolve_def split: if_splits)

lemma keeps_resolve_cancelled [keeping]: "keeps same_call (resolve_cancelled st)"
  by (auto simp: keeps_def resolve_cancelled_def resolve_def split: if_splits)

lemma keeps_new_handle [keeping]:
  "keeps same_call (add_entry e)" "keeps same_call (\<lambda>s. let (h, s') = NewOwn r rep s in (Inr (Plain (VU32 h)), s'))"
  "keeps same_call (\<lambda>s. let (h, s') = NewBorrow r rep s in (Inr (Plain (VU32 h)), s'))"
  by (auto simp: keeps_def add_entry_def NewOwn_def NewBorrow_def add_def alloc_resource_def add_resource_def addEntry_def same_call_def Let_def
      split: prod.splits)

lemma keeps_new_ref [keeping]: "keeps same_call new_ref"
  by (auto simp: keeps_def new_ref_def same_call_def)

lemma keeps_readable_end [keeping]: "keeps same_call (new_readable_stream p)" "keeps same_call (new_readable_future p)"
  unfolding new_readable_stream_def new_readable_future_def
  by (intro keeping async_calls.sbind async_calls.sret async_calls.modify; simp add: same_call_def)+

lemma keeps_new_error_context [keeping]: "keeps same_call (new_error_context v)"
proof -
  have "keeps same_call (sbind new_ref (\<lambda>p. sbind (modify (\<lambda>s. s\<lparr>errorContexts := (errorContexts s)(p := bs)\<rparr>)) (\<lambda>_. sret p)))" for bs
    by (intro keeping async_calls.sbind async_calls.sret async_calls.modify) (simp add: same_call_def)
  then show ?thesis
    unfolding new_error_context_def
    by (intro keeping async_calls.sbind async_calls.sret)
      (auto split: host_value.split val.split intro: async_calls.sret async_calls.sfail)
qed

lemma keeps_allocHandleResult [keeping]: "keeps same_call (allocHandleResult t v)"
proof -
  have read: "keeps same_call (\<lambda>s. case v of
      SharedStreamValue p \<Rightarrow> (Inr p, s) | StreamReaderValue r \<Rightarrow> (Inr (he_shared (host_ends s r)), s) | _ \<Rightarrow> (Inl NotStreamType, s))"
    "keeps same_call (\<lambda>s. case v of
      SharedFutureValue p \<Rightarrow> (Inr p, s) | FutureReaderValue r \<Rightarrow> (Inr (he_shared (host_ends s r)), s) | _ \<Rightarrow> (Inl NotStreamType, s))"
    by (auto simp: keeps_def split: host_value.splits)
  have rep: "keeps same_call (expect_handle v)"
    by (auto simp: expect_handle_def split: host_value.split val.split intro: async_calls.sret async_calls.sfail)
  show ?thesis
    unfolding allocHandleResult_def
    by (cases t) (auto intro!: async_calls.sbind async_calls.sret keeping read rep keeps_new_handle [simplified])
qed

lemma keeps_in_module_call [keeping]:
  assumes "keeps (on_guest same_call) f"
  shows "keeps same_call (in_module m f)"
proof -
  have "keeps same_call (on_memory f)"
    using assms by (fastforce simp: keeps_def on_memory_def on_guest_def same_call_def Let_def split: prod.splits option.splits sum.splits)
  then show ?thesis
    by (fastforce simp: keeps_def in_module_def same_call_def Let_def split: prod.splits option.splits if_splits)
qed

lemma keeps_applyResolve:
  assumes "keeps_call env"
  shows "keeps same_call (applyResolve env st vals)"
proof -
  have "realloc_keeps same_call (if b then host_realloc (ep env) m f else None)" for b m f
    using assms by (simp add: keeps_call_def host_realloc_def realloc_keeps_def split: option.split)
  then have store: "keeps same_call (sbind (allocHandleResult t v) (\<lambda>rv. sbind (in_module m (Store fuel q (Some t) (abi_value rv) rs
      (if b then host_realloc (ep env) m f else None))) (\<lambda>_. resolve st subtaskReturned [])))" for t v m fuel q rs b f
    by (intro async_calls.sbind keeping async_calls.Store)
  note store1 = store [where b = True, simplified] and store2 = store [where b = False, simplified]
  have "same_call s s'" if "applyResolve env st vals s = (r, s')" for s r s'
    using that assms
    by (auto simp: applyResolve_def Let_def keeps_call_def split: option.splits if_splits
        dest: keepsD [OF store1] keepsD [OF store2] keepsD [OF keeps_resolve] keepsD [where f = "resolve_fn env f vals" for f])
  then show ?thesis by (simp add: keeps_def)
qed

lemma keeps_callD: "keeps_call env \<Longrightarrow> applyResolve env st vals s = (r, s') \<Longrightarrow> same_call s s'"
  "keeps_call env \<Longrightarrow> same_call s (reapParkedGoroutines env s)"
   apply (rule keepsD [OF keeps_applyResolve])
   apply assumption+
  by (simp add: keeps_call_def)

lemmas resolve_cancelled_same_call = keepsD [OF keeps_resolve_cancelled]

text \<open>Applying a completion changes of the call the state of this one only.\<close>

lemma applyQueued_call:
  assumes "keeps_call env" "applyQueued env c s = (r, s')"
  shows "r = Inr () \<Longrightarrow> \<exists>s1. same_call s s1 \<and> same_call (set_ac (cp_call c) asyncCallApplied s1) s'"
    and "r = Inl e \<Longrightarrow> same_call s s'"
proof -
  obtain q s1 where 1: "(if cp_cancelled c then resolve_cancelled (cp_call c) else applyResolve env (cp_call c) (cp_results c)) s = (q, s1)"
    by (rule prod.exhaust)
  then have same: "same_call s s1"
    using keeps_callD(1) [OF assms(1)] resolve_cancelled_same_call by (auto split: if_splits)
  have run: "(case q of Inl e \<Rightarrow> (Inl e, s1)
      | Inr _ \<Rightarrow> modify (\<lambda>s. set_ac (cp_call c) asyncCallApplied
          (if subtaski (cp_call c) s \<noteq> 0 then installSubtaskEvent (cp_call c) (subtaski (cp_call c) s) s else s)) s1) = (r, s')"
    using assms(2) 1 by (simp add: applyQueued_def Let_def sbind_def)
  show "r = Inl e \<Longrightarrow> same_call s s'" using run same by (auto simp: modify_def split: sum.splits)
  have "same_call (set_ac ac a s1) (set_ac ac a s2)" if "same_call s1 s2" for ac a s2
    using that by (simp add: same_call_def set_ac_def)
  then show "r = Inr () \<Longrightarrow> \<exists>s1. same_call s s1 \<and> same_call (set_ac (cp_call c) asyncCallApplied s1) s'"
    using run same by (intro exI [of _ s1]) (auto simp: modify_def split: sum.splits)
qed

lemma finishAsync_fields:
  assumes "pending_call s = Some p" "\<not> pc_closed (pcalls s p)"
  shows "pending_call (finishAsync p res err s) = None" "mailbox (finishAsync p res err s) = []" "\<not> asyncActive (finishAsync p res err s)"
    "executing (finishAsync p res err s) = executing s"
    "pcalls (finishAsync p res err s) p = (pcalls s p)\<lparr>pc_result := res, pc_err := err, pc_closed := True\<rparr>"
    "\<forall>ac \<in> set (pc_calls (pcalls s p)). ac_state (finishAsync p res err s) ac \<in> {asyncCallApplied, asyncCallClosed}"
    "ac_state s ac \<noteq> asyncCallOpen \<Longrightarrow> ac_state (finishAsync p res err s) ac \<noteq> asyncCallOpen"
  using assms by (auto simp: finishAsync_def call_defs Let_def)

lemma protocol_step_inv:
  assumes env: "keeps_call env" and inv: "protocol_inv p k" and step: "protocol_step env p k k'"
  shows "protocol_inv p k'"
  using step
proof cases
  case (accept c s')
  then have q: "call_pending (cfg k) \<noteq> None" "ac_state (cfg k) (cp_call c) = asyncCallOpen"
    "s' = (set_ac (cp_call c) asyncCallQueued (cfg k))\<lparr>mailbox := mailbox (cfg k) @ [c]\<rparr>"
    by (auto simp: queueExternalCompletion_def split: if_splits)
  have "cp_call c \<notin> cp_call ` set (accepted k)" using inv q(2) by (auto simp: protocol_inv_def Let_def)
  then show ?thesis using inv q accept(1)
    by (auto simp: inv_defs call_defs call_pending_def split: driver_place.splits option.splits if_splits)
next
  case (refuse c e s')
  then have s': "mailbox s' = mailbox (cfg k)" "pending_call s' = pending_call (cfg k)" "pcalls s' = pcalls (cfg k)"
    "asyncActive s' = asyncActive (cfg k)" "executing s' = executing (cfg k)"
    and ac: "ac_state s' ac = ac_state (cfg k) ac \<or> ac_state s' ac = asyncCallClosed" for ac
    by (auto simp: queueExternalCompletion_def set_ac_def split: if_splits)
  have "\<forall>c \<in> set (accepted k). ac_state s' (cp_call c) \<noteq> asyncCallOpen"
    using inv ac by (metis (no_types, lifting) asyncCallState.distinct(5) protocol_inv_def)
  moreover have "ac_state s' ac \<in> {asyncCallApplied, asyncCallClosed}" if "ac_state (cfg k) ac \<in> {asyncCallApplied, asyncCallClosed}" for ac
    using that ac [of ac] by auto
  ultimately show ?thesis
    using inv unfolding refuse(1) protocol_inv_def open_inv_def closed_inv_def Let_def by (simp add: s' split: if_splits)
next
  case (apply_one c cs s')
  obtain s1 where "same_call (cfg k) s1" "same_call (set_ac (cp_call c) asyncCallApplied s1) s'"
    using applyQueued_call(1) [OF env apply_one(3)] by blast
  then have "mailbox s' = mailbox (cfg k)" "pending_call s' = pending_call (cfg k)" "pcalls s' = pcalls (cfg k)" "asyncActive s' = asyncActive (cfg k)"
    "executing s' = executing (cfg k)" "ac_state s' = (ac_state (cfg k))(cp_call c := asyncCallApplied)"
    by (simp_all add: same_call_def set_ac_def)
  then show ?thesis using inv apply_one(1,2) by (auto simp: inv_defs split: if_splits)
next
  case (apply_fails c cs e s')
  have "same_call (cfg k) s'" using applyQueued_call(2) [OF env apply_fails(3)] by blast
  then show ?thesis using inv apply_fails(1,2) by (auto simp: inv_defs same_call_def split: if_splits)
next
  case (guest s')
  then show ?thesis using inv by (auto simp: inv_defs same_call_def split: if_splits)
next
  case (register ac)
  then show ?thesis using inv
    by (auto simp: inv_defs registerAsyncCall_def call_pending_def call_defs split: option.splits if_splits)
next
  case resolves
  then have o: "\<not> pc_closed (pcalls (cfg k) p)" using inv by (auto simp: inv_defs split: if_splits)
  then have "pending_call (cfg k) = Some p" using inv by (auto simp: inv_defs)
  note f = finishAsync_fields [OF this o]
  show ?thesis using f resolves o inv by (auto simp: protocol_inv_def closed_inv_def open_inv_def is_ending_def Let_def)
next
  case (ends e)
  then have o: "\<not> pc_closed (pcalls (cfg k) p)" using inv by (auto simp: inv_defs split: if_splits)
  then have "pending_call (cfg k) = Some p" using inv by (auto simp: inv_defs)
  note f = finishAsync_fields [OF this o]
  show ?thesis using f ends o inv by (auto simp: protocol_inv_def closed_inv_def open_inv_def is_ending_def Let_def)
next
  case reaps
  then show ?thesis using inv keeps_callD(2) [OF env, of "cfg k"] by (auto simp: inv_defs same_call_def split: if_splits)
next
  case (unleases held s')
  then show ?thesis using inv by (auto simp: inv_defs take_lease_def call_defs split: if_splits)
next
  case (frees held)
  then show ?thesis using inv by (cases held) (auto simp: inv_defs releaseAsyncExecution_def split: if_splits)
qed (use inv in \<open>auto simp: inv_defs call_defs claimDriver_def releaseDriver_def Cancel_begin_def simp del: distinct_append split: if_splits\<close>)

lemma reachable_inv:
  assumes "keeps_call env" "reachable env p k"
  shows "protocol_inv p k"
  using assms(2) by induction (auto intro: protocol_inv_start protocol_step_inv [OF assms(1)])

text \<open>A call that has ended stays ended, with its result.\<close>

lemma closed_step:
  assumes "keeps_call env" "reachable env p k" "pc_closed (pcalls (cfg k) p)" "protocol_step env p k k'"
  shows "pc_closed (pcalls (cfg k') p) \<and> pc_result (pcalls (cfg k') p) = pc_result (pcalls (cfg k) p) \<and>
    pc_err (pcalls (cfg k') p) = pc_err (pcalls (cfg k) p)"
proof -
  have "is_ending (place k) \<or> place k = NoDriver"
    using reachable_inv [OF assms(1,2)] assms(3) by (simp add: protocol_inv_def closed_inv_def Let_def)
  with assms(4,3) show ?thesis
  proof cases
    case reaps
    then show ?thesis using assms(3) keeps_callD(2) [OF assms(1), of "cfg k"] by (simp add: same_call_def)
  qed (auto simp: is_ending_def take_lease_def releaseAsyncExecution_def releaseDriver_def call_defs queueExternalCompletion_def split: if_splits)
qed

subsection \<open>What a completion does\<close>

lemma applyResolve_returned:
  assumes "applyResolve env st vals s = (Inr (), s')" "resolveFn (sub_calls s st) = None"
  shows "sub_state (subtasks s' st) = subtaskReturned"
  using assms
  by (auto simp: applyResolve_def Let_def resolve_def upd_subtask_def state_simps split: option.splits if_splits)

lemma subtask_event_fields [simp]:
  "subtasks (set_ac ac a s) = subtasks s" "subtasks (installSubtaskEvent st si s) = subtasks s"
  "waitables (set_ac ac a s) = waitables s" "ac_state (set_ac ac a s) ac = a"
  "pendingSub (waitables (installSubtaskEvent st si s) st) = Some st" "pendingSubSi (waitables (installSubtaskEvent st si s) st) = si"
  by (simp_all add: set_ac_def installSubtaskEvent_def setPendingSubtaskEvent_def upd_waitable_def)

subsection \<open>What is lost\<close>

text \<open>A canceller that waits for the driver waits for nobody when the context of the driver's \<open>Await\<close> ends first: the driver leaves
  without looking at the request, and the call stays open.\<close>

lemma cancel_not_served:
  assumes env: "keeps_call env" and r: "reachable env p k" and k: "place k = AtHead" "\<not> pc_closed (pcalls (cfg k) p)"
  shows "\<exists>k'. reachable env p k' \<and> place k' = NoDriver \<and> cancellers k' = Suc (cancellers k) \<and> \<not> pc_closed (pcalls (cfg k') p) \<and>
    cancelRequested (pcalls (cfg k') p) \<and> executing (cfg k')"
proof -
  have inv: "pc_driver (pcalls (cfg k) p)" "executing (cfg k)"
    using reachable_inv [OF env r] k by (simp_all add: protocol_inv_def open_inv_def Let_def)
  let ?s = "upd_pc p (\<lambda>x. x\<lparr>cancelRequested := True, pc_driver := True\<rparr>) (cfg k)"
  let ?k = "k\<lparr>cfg := ?s, cancellers := cancellers k + 1\<rparr>"
  have "Cancel_begin p (cfg k) = (False, ?s)" using inv k(2) by (simp add: Cancel_begin_def)
  then have 1: "reachable env p ?k" using reachable.step [OF r cancel_waits [OF k(2)]] by simp
  have "awaitHead p True ?s = AwaitContext" using k(2) by (simp add: awaitHead_def upd_pc_def)
  then have "reachable env p (?k\<lparr>cfg := releaseDriver p ?s, place := NoDriver\<rparr>)"
    using reachable.step [OF 1 leave [of ?k p True]] k(1) by simp
  then show ?thesis using k(2) inv(2) by - (rule exI, erule conjI, simp add: releaseDriver_def upd_pc_def)
qed

text \<open>An asynchronous call that an earlier call of the instance left open is not among the calls of the pending one: its completion is
  accepted, and thrown away when the pending call ends. It stays queued for ever.\<close>

lemma foreign_completion_lost:
  assumes "queueExternalCompletion c s = (Inr (), s1)" "pending_call s = Some p" "cp_call c \<notin> set (pc_calls (pcalls s p))"
  shows "let s' = resolve_call p s1 in mailbox s' = [] \<and> ac_state s' (cp_call c) = asyncCallQueued \<and>
    fst (Resolve env (cp_call c) vals s') = Inl ResolvedTwice"
proof -
  have s1: "s1 = (set_ac (cp_call c) asyncCallQueued s)\<lparr>mailbox := mailbox s @ [c]\<rparr>" and o: "\<not> pc_closed (pcalls s p)"
    using assms(1,2) by (auto simp: queueExternalCompletion_def call_pending_def split: if_splits)
  have e: "mailbox (resolve_call p s1) = [] \<and> ac_state (resolve_call p s1) (cp_call c) = asyncCallQueued \<and> \<not> asyncActive (resolve_call p s1)"
    using assms(2,3) o by (simp add: s1 resolve_call_def releasePendingLease_def take_lease_def releaseAsyncExecution_def finishAsync_def call_defs)
  then show ?thesis by (simp add: Let_def Resolve_def resolve_directly_def stateError_def)
qed

subsection \<open>The packed status\<close>

lemma packed_status:
  fixes si :: u32
  assumes "n < 16"
  shows "(of_nat n OR push_bit 4 (ucast si) :: u64) AND 15 = of_nat n" "ucast (drop_bit 4 (of_nat n OR push_bit 4 (ucast si) :: u64)) = si"
proof -
  have n: "take_bit 4 (of_nat n :: u64) = of_nat n"
    using assms by (simp only: take_bit_of_nat) (simp add: take_bit_nat_eq_self)
  have "take_bit 4 (of_nat n OR push_bit 4 (ucast si) :: u64) = of_nat n"
    using n by (simp add: take_bit_or take_bit_push_bit)
  then show "(of_nat n OR push_bit 4 (ucast si) :: u64) AND 15 = of_nat n"
    by (simp add: take_bit_eq_mask mask_numeral)
  have "\<not> bit (of_nat n :: u64) (4 + k)" for k
    using n by (metis bit_take_bit_iff not_add_less1)
  then show "ucast (drop_bit 4 (of_nat n OR push_bit 4 (ucast si) :: u64)) = si"
    by (intro bit_word_eqI) (auto simp: bit_simps)
qed

lemma deliverResolve_keeps [simp]: "tab (deliverResolve st s) = tab s" "resolveDelivered st (deliverResolve st s)"
proof -
  have "tab (foldl (\<lambda>s h. lend_ref h (- 1) s) t hs) = tab t" for t :: "'a wait_state_scheme" and hs
    by (induction hs arbitrary: t) (simp_all add: lend_ref_def)
  then show "tab (deliverResolve st s) = tab s" by (simp add: deliverResolve_def upd_subtask_def)
qed (simp add: resolveDelivered_def deliverResolve_def upd_subtask_def)

subsection \<open>Properties\<close>

text \<open>C22. Completions are neither lost, repeated nor reordered: whatever the interleaving of the goroutines that post completions, drive
  and cancel a call, what was applied is a prefix of what was accepted, no call is accepted twice, and until the call fails or
  ends everything accepted is applied, in the hands of the driver or in the mailbox.\<close>

theorem completions_in_order:
  assumes "keeps_call env" "reachable env p k"
  shows "(\<exists>rest. accepted k = applied k @ rest) \<and> distinct (map cp_call (accepted k)) \<and>
    (\<not> pc_closed (pcalls (cfg k) p) \<and> \<not> is_failing (place k) \<longrightarrow>
       accepted k = applied k @ in_flight (place k) @ mailbox (cfg k))"
  using reachable_inv [OF assms] by (auto simp: protocol_inv_def open_inv_def Let_def simp del: distinct_append split: if_splits)

text \<open>C23. A pending call has one driver and ends once. While it is open a second driver is refused and the instance belongs to the call. From
  the moment it has ended nothing is left in the mailbox, every asynchronous call of it was applied or is closed, a completion that
  comes later is refused, and no step of any goroutine opens it again or changes its result; the instance still belongs to it until
  its driver has reaped what is parked and given up the lease, and is free when the driver is gone.\<close>

theorem call_ends_cleanly:
  assumes "keeps_call env" "reachable env p k"
  shows "if pc_closed (pcalls (cfg k) p)
    then mailbox (cfg k) = [] \<and> pending_call (cfg k) = None \<and>
      (\<forall>ac \<in> set (pc_calls (pcalls (cfg k) p)). ac_state (cfg k) ac \<in> {asyncCallApplied, asyncCallClosed}) \<and>
      (\<forall>c. fst (queueExternalCompletion c (cfg k)) = Inl AsyncCallClosed) \<and>
      (\<forall>k'. protocol_step env p k k' \<longrightarrow> pc_closed (pcalls (cfg k') p) \<and>
         pc_result (pcalls (cfg k') p) = pc_result (pcalls (cfg k) p) \<and> pc_err (pcalls (cfg k') p) = pc_err (pcalls (cfg k) p)) \<and>
      (executing (cfg k) \<longleftrightarrow> place k \<in> {Reaping, Unleasing, Freeing True}) \<and>
      (place k \<in> {Ended, NoDriver} \<longrightarrow> \<not> executing (cfg k) \<and> \<not> lease (pcalls (cfg k) p))
    else executing (cfg k) \<and> lease (pcalls (cfg k) p) \<and> pending_call (cfg k) = Some p \<and>
      (place k \<noteq> NoDriver \<longrightarrow> claimDriver p (cfg k) = (Inl DriverActive, cfg k))"
proof (cases "pc_closed (pcalls (cfg k) p)")
  case True
  then have "closed_inv p k" using reachable_inv [OF assms] by (simp add: protocol_inv_def Let_def)
  with True closed_step [OF assms True] show ?thesis
    by (auto simp: closed_inv_def Let_def queueExternalCompletion_def call_pending_def)
next
  case False
  then show ?thesis using reachable_inv [OF assms] by (simp add: protocol_inv_def open_inv_def Let_def claimDriver_def)
qed

text \<open>C24. A completion that was applied reaches the guest: the subtask is resolved, as returned or as cancelled, and if it is parked
  under a handle its event is pending and delivers this handle and this state, and the lends of the subtask with it.\<close>

theorem applied_completion_delivered:
  assumes "applyQueued env c s = (Inr (), s')" "resolveFn (sub_calls s (cp_call c)) = None"
  shows "ac_state s' (cp_call c) = asyncCallApplied \<and>
    sub_state (subtasks s' (cp_call c)) = (if cp_cancelled c then subtaskCancelledBeforeReturned else subtaskReturned) \<and>
    (subtaski (cp_call c) s' \<noteq> 0 \<longrightarrow>
      (\<exists>s''. getPendingEvent eval (cp_call c) s' =
         (Inr \<lparr>event_code = eventSubtask, p1 = subtaski (cp_call c) s', p2 = (if cp_cancelled c then 4 else 2)\<rparr>, s'') \<and>
         resolveDelivered (cp_call c) s''))"
proof -
  let ?st = "cp_call c"
  obtain s1 where 1: "(if cp_cancelled c then resolve_cancelled ?st else applyResolve env ?st (cp_results c)) s = (Inr (), s1)"
    and s': "s' = set_ac ?st asyncCallApplied (if subtaski ?st s1 \<noteq> 0 then installSubtaskEvent ?st (subtaski ?st s1) s1 else s1)"
    using assms(1) by (auto simp: applyQueued_def Let_def modify_def state_simps)
  have q: "sub_state (subtasks s1 ?st) = (if cp_cancelled c then subtaskCancelledBeforeReturned else subtaskReturned)"
    using 1 assms(2) applyResolve_returned
    by (auto simp: resolve_cancelled_def resolve_def upd_subtask_def split: if_splits)
  have sub: "subtasks s' = subtasks s1" unfolding s' by simp
  then have res: "resolved ?st s'" using q by (simp add: resolved_def less_eq_subtaskState_def)
  have "\<exists>s''. getPendingEvent eval ?st s' =
      (Inr \<lparr>event_code = eventSubtask, p1 = subtaski ?st s', p2 = (if cp_cancelled c then 4 else 2)\<rparr>, s'') \<and> resolveDelivered ?st s''"
    if si: "subtaski ?st s' \<noteq> 0"
  proof -
    have w: "pendingSub (waitables s' ?st) = Some ?st" "pendingSubSi (waitables s' ?st) = subtaski ?st s'"
      using si sub unfolding s' by (auto simp: subtaski_def)
    let ?s1 = "upd_waitable ?st (\<lambda>x. x\<lparr>pendingSub := None, pendingSubSi := 0\<rparr>) s'"
    let ?s2 = "if resolved ?st ?s1 \<and> \<not> resolveDelivered ?st ?s1 then deliverResolve ?st ?s1 else ?s1"
    have f: "subtasks (foldl (\<lambda>s h. lend_ref h (- 1) s) t hs) = subtasks t" for t :: "'a async_state_scheme" and hs
      by (induction hs arbitrary: t) (simp_all add: lend_ref_def)
    have st: "sub_state (subtasks ?s2 ?st) = sub_state (subtasks s' ?st)"
      by (simp add: deliverResolve_def upd_subtask_def upd_waitable_def f)
    have "resolved ?st ?s1" using res by (simp add: resolved_def upd_waitable_def)
    then have "resolveDelivered ?st ?s2"
      by (auto simp: resolveDelivered_def deliverResolve_def upd_subtask_def)
    moreover have "getPendingEvent eval ?st s' = (Inr \<lparr>event_code = eventSubtask, p1 = subtaski ?st s',
        p2 = of_nat (subtask_number (sub_state (subtasks ?s2 ?st)))\<rparr>, ?s2)"
      unfolding getPendingEvent_def w by (simp add: Let_def)
    ultimately show ?thesis unfolding st using q sub by auto
  qed
  then show ?thesis using q sub by (simp add: s')
qed

text \<open>What the guest reads off the word that an asynchronous call returns: of a call that has resolved only a state, no handle
  is made and the lends are delivered; of one that has not, the low four bits are its state and the rest is a fresh handle that
  names the subtask, the one its events will carry.\<close>

theorem async_status_packed:
  assumes "async_status own_state st s = (Inr v, s')" "index_ok s" "has_room s"
  shows "if resolved st s
    then v = of_nat (subtask_number (if own_state then sub_state (subtasks s st) else subtaskReturned)) \<and> drop_bit 4 v = 0 \<and>
      entries (tab s') = entries (tab s) \<and> resolveDelivered st s'
    else v AND 15 = of_nat (subtask_number (sub_state (subtasks s st))) \<and>
      (let si = ucast (drop_bit 4 v) in
       si \<noteq> 0 \<and> getEntry si s = None \<and> getEntry si s' = Some (SubtaskEntry st) \<and> subtaski st s' = si)"
proof -
  have n: "subtask_number q < 16" for q by (cases q) simp_all
  have small: "drop_bit 4 (of_nat (subtask_number q) :: u64) = 0" for q by (cases q) simp_all
  obtain si s1 where a: "addEntry (SubtaskEntry st) s = (si, s1)" by (rule prod.exhaust)
  note e = addEntry_index [OF assms(2,3), of "SubtaskEntry st", unfolded a fst_conv snd_conv]
  show ?thesis
  proof (cases "resolved st s")
    case True
    then show ?thesis using assms(1) small by (auto simp: async_status_def split: if_splits)
  next
    case False
    then have "v = of_nat (subtask_number (sub_state (subtasks s st))) OR push_bit 4 (ucast si)" "s' = setSubtaski st si s1"
      using assms(1) a by (auto simp: async_status_def)
    then show ?thesis
      using False e packed_status [OF n, of "sub_state (subtasks s st)" si]
      by (simp add: Let_def getEntry_def setSubtaski_def upd_subtask_def subtaski_def)
  qed
qed

subsection \<open>Examples\<close>

text \<open>An instance whose only asynchronous call is open and registered with a pending call that is parked.\<close>

definition async_example_env :: "async_state async_env" where
  "async_example_env = \<lparr>ep = \<lparr>be = \<lparr>task_part = \<lparr>on_resolve = \<lambda>_ _ _ s. s, on_finish = \<lambda>_ _ s. s, on_start = \<lambda>_. sret [],
       lower_params = \<lambda>_ _. sret [], params_want = \<lambda>_. 0, call_core = \<lambda>_ _. sret 0, call_callback = \<lambda>_ _. sret 0,
       event_eval = \<lambda>_. sret \<lparr>event_code = 0, p1 = 0, p2 = 0\<rparr>, run_segment = \<lambda>_ _. sret (), spawn = \<lambda>_. sret (), handoff = \<lambda>_ _. sret (),
       block_ready = \<lambda>_ _. False\<rparr>,
     thunk_fe = \<lambda>_. sfail NoLends, thunk_fv = \<lambda>_ s. s, cancel_hook = \<lambda>_. sret (), has_blocker = \<lambda>_. False,
     block = \<lambda>_ _. sret False, guest_realloc = None\<rparr>,
     ep_fuel = 1, ep_realloc = \<lambda>_. None, ep_resCanon = \<lambda>_. None, ep_origin = \<lambda>_ _. None, inst_resolve = \<lambda>_ _. None,
     cabi_realloc = \<lambda>_. None, on_host_done = \<lambda>_ _ _ _. sret ()\<rparr>,
   resolve_fn = \<lambda>_ _. sret (), reapParkedGoroutines = \<lambda>s. s\<rparr>"

definition async_example :: async_state where
  "async_example = endpoint_state.extend endpoint_example (async_state.fields (\<lambda>_. asyncCallOpen) (\<lambda>_. False)
     (\<lambda>_. \<lparr>resolveCfg = Some \<lparr>rc_count = 0, rc_type = None, rc_usesMem = False, rc_resolve = \<lambda>_. None, rc_realloc = None\<rparr>,
             retPtr = 0, memMod = None, resolveFn = None\<rparr>)
     [] (Some 1) (\<lambda>_. \<lparr>pc_task = 0, pc_result = [], pc_err = None, pc_closed = False, lease = True, pc_calls = [], pc_driver = True,
        cancelRequested = False\<rparr>) True True)"

lemma async_example_ok: "keeps_call async_example_env"
  by (simp add: keeps_call_def async_example_env_def realloc_keeps_def async_calls.sret)

lemma async_example_fresh: "fresh_call 1 async_example"
  by (simp add: fresh_call_def async_example_def endpoint_state.defs async_state.defs)

definition done_example :: asyncCompletion where
  "done_example = \<lparr>cp_call = 12, cp_results = [], cp_cancelled = False\<rparr>"

text \<open>The call is posted to while it is pumped, and then cancelled by its driver.\<close>

definition posted_example :: async_state where
  "posted_example = snd (queueExternalCompletion done_example async_example)"

lemma posted_example_reachable:
  "reachable async_example_env 1 \<lparr>cfg = posted_example, place = Pumping, cancellers = 0, accepted = [done_example], applied = []\<rparr>"
proof -
  have "queueExternalCompletion done_example async_example = (Inr (), posted_example)"
    by (simp add: posted_example_def queueExternalCompletion_def call_pending_def async_example_def endpoint_state.defs async_state.defs)
  then show ?thesis
    using reachable.step [OF reachable.start [OF async_example_fresh] protocol_step.accept, of done_example posted_example] by simp
qed

theorem completions_in_order_witness:
  "accepted \<lparr>cfg = posted_example, place = Pumping, cancellers = 0, accepted = [done_example], applied = []\<rparr> = mailbox posted_example"
  using completions_in_order [OF async_example_ok posted_example_reachable]
  by (simp add: in_flight_def is_failing_def posted_example_def queueExternalCompletion_def call_pending_def async_example_def
      endpoint_state.defs async_state.defs set_ac_def)

theorem call_ends_cleanly_witness: "executing posted_example \<and> claimDriver 1 posted_example = (Inl DriverActive, posted_example)"
  using call_ends_cleanly [OF async_example_ok posted_example_reachable]
  by (simp add: posted_example_def queueExternalCompletion_def call_pending_def async_example_def
      endpoint_state.defs async_state.defs set_ac_def)

theorem applied_completion_delivered_witness:
  "sub_state (subtasks (snd (applyQueued async_example_env done_example posted_example)) 12) = subtaskReturned"
proof -
  have "fst (applyQueued async_example_env done_example posted_example) = Inr ()"
    "resolveFn (sub_calls posted_example (cp_call done_example)) = None"
    by code_simp+
  then have "applyQueued async_example_env done_example posted_example = (Inr (), snd (applyQueued async_example_env done_example posted_example))"
    "resolveFn (sub_calls posted_example (cp_call done_example)) = None"
    by (simp_all add: prod_eq_iff)
  from applied_completion_delivered [OF this] show ?thesis by (simp add: done_example_def)
qed

theorem async_status_packed_witness:
  "let (r, s') = async_status False 12 async_example in
   \<exists>v. r = Inr v \<and> v AND 15 = 0 \<and> getEntry (ucast (drop_bit 4 v)) s' = Some (SubtaskEntry 12)"
proof -
  have t: "tab async_example = newHandleTable\<lparr>entries := [1 \<mapsto> ResourceEntry 0], next_index := 2\<rparr>"
    by (simp add: async_example_def endpoint_example_def stream_example_def builtin_example_def inst_example_def sched_example_def
        wait_example_def one_own_def empty_table_def NewOwn_def add_def add_resource_def alloc_resource_def addEntry_def newHandleTable_def
        endpoint_state.defs stream_state.defs builtin_state.defs inst_state.defs sched_state.defs wait_state.defs table_state.defs)
  have "Suc 0 \<le> unat x \<Longrightarrow> unat x < 2 \<Longrightarrow> x = 1" for x :: u32 by (simp add: word_unat_eq_iff)
  then have ok: "index_ok async_example" "has_room async_example"
    by (auto simp: index_ok_def has_room_def t newHandleTable_def word_le_nat_alt word_less_nat_alt split: if_splits)
  have st: "sub_state (subtasks async_example 12) = subtaskStarting" by code_simp
  then have "\<not> resolved 12 async_example" by (simp add: resolved_def less_eq_subtaskState_def)
  moreover obtain v where v: "async_status False 12 async_example = (Inr v, snd (async_status False 12 async_example))"
    by (cases "resolved 12 async_example"; cases "addEntry (SubtaskEntry 12) async_example") (auto simp: async_status_def)
  ultimately show ?thesis using async_status_packed [OF v ok] st by (auto simp: Let_def split: prod.splits)
qed

end
