(* ===== verification/Linking.thy ===== *)
theory Linking
  imports Type_Space
begin

text \<open>
  What is decided about a component before anything of it runs: the checks of \<open>Instantiate\<close>, the choice of the path, and the path for
  a component of one core module without imports (\<open>internal/instance/instance.go\<close>); the keys under which imports are registered,
  and the recognition of imported resources and of re-export shims (\<open>host_import.go\<close>, \<open>composition.go\<close>). Names are strings as in
  the decoded component. The core engine is a parameter: it instantiates the bytes of a module or fails.
\<close>

subsection \<open>Errors\<close>

datatype check_fault = Utf16_Encoding nat | Latin1_Utf16_Encoding nat | Component_Start | Async_Lift_Type nat
    | Async_Lower_Type nat | Async_Option_On_Sync nat

datatype func_fault = Func_Alias_Chain_Too_Deep | Func_Out_Of_Range u32 | Import_Out_Of_Range u32
    | Import_Not_Function string | Export_Out_Of_Range u32 | Func_Alias_Out_Of_Range u32 | Func_Alias_Target
    | Aliased_Instance_Unresolved u32 | Aliased_Instance_Not_Component u32 | Lift_Out_Of_Range u32 | Lift_Not_Function
    | Not_Direct_Lift string | No_Func_Export string

datatype simple_fault = Not_Trivial | Module_Bytes_Out_Of_Bounds | Trivial_Alias nat | Trivial_Canon_Kind nat
    | Trivial_Core_Func_Range nat | Trivial_Canon_Type nat | Trivial_Export_Kind string | Trivial_Export_Range string
    | No_Interface u32 | Not_Shim

datatype core_fault = Func_Is_Import u32 | Func_Alias_Kind u32 | Core_Func_Range u32 | Core_Instance_Missing u32
    | Core_Canon_Range u32 | Core_Mem_Range u32 | No_Core_Function string | Post_Return_Elsewhere | Callback_Elsewhere
    | Core_Module_Range nat | Core_Arg_Missing string | Bad_Inline_Sort string | Inline_Range string | No_Core_Global string
    | Unknown_Core_Instance nat

datatype export_fault = Nested_Export_Missing string | Exports_Imported_Func string | Export_Kind string
    | Instance_Reexport string | Instance_Out_Of_Range string | Bad_Instance_Kind string | Nested_Out_Of_Range string
    | Shim_Index string | Shim_Arg_Missing string | Shim_Arg_Sort string | Import_Kind string | Hand_Built

datatype link_error = CheckFault check_fault | FuncFault func_fault | SimpleFault simple_fault | CoreFault core_fault
    | ExportFault export_fault | LinkType type_error | LinkPanic | EngineError string

text \<open>The errors by the names they have elsewhere.\<close>

abbreviation "Utf16Encoding x \<equiv> CheckFault (Utf16_Encoding x)"
abbreviation "Latin1Utf16Encoding x \<equiv> CheckFault (Latin1_Utf16_Encoding x)"
abbreviation "ComponentStart \<equiv> CheckFault Component_Start"
abbreviation "AsyncLiftType x \<equiv> CheckFault (Async_Lift_Type x)"
abbreviation "AsyncLowerType x \<equiv> CheckFault (Async_Lower_Type x)"
abbreviation "AsyncOptionOnSync x \<equiv> CheckFault (Async_Option_On_Sync x)"
abbreviation "FuncAliasChainTooDeep \<equiv> FuncFault Func_Alias_Chain_Too_Deep"
abbreviation "FuncOutOfRange x \<equiv> FuncFault (Func_Out_Of_Range x)"
abbreviation "ImportOutOfRange x \<equiv> FuncFault (Import_Out_Of_Range x)"
abbreviation "ImportNotFunction x \<equiv> FuncFault (Import_Not_Function x)"
abbreviation "ExportOutOfRange x \<equiv> FuncFault (Export_Out_Of_Range x)"
abbreviation "FuncAliasOutOfRange x \<equiv> FuncFault (Func_Alias_Out_Of_Range x)"
abbreviation "FuncAliasTarget \<equiv> FuncFault Func_Alias_Target"
abbreviation "AliasedInstanceUnresolved x \<equiv> FuncFault (Aliased_Instance_Unresolved x)"
abbreviation "AliasedInstanceNotComponent x \<equiv> FuncFault (Aliased_Instance_Not_Component x)"
abbreviation "LiftOutOfRange x \<equiv> FuncFault (Lift_Out_Of_Range x)"
abbreviation "LiftNotFunction \<equiv> FuncFault Lift_Not_Function"
abbreviation "NotDirectLift x \<equiv> FuncFault (Not_Direct_Lift x)"
abbreviation "NoFuncExport x \<equiv> FuncFault (No_Func_Export x)"
abbreviation "NotTrivial \<equiv> SimpleFault Not_Trivial"
abbreviation "ModuleBytesOutOfBounds \<equiv> SimpleFault Module_Bytes_Out_Of_Bounds"
abbreviation "TrivialAlias x \<equiv> SimpleFault (Trivial_Alias x)"
abbreviation "TrivialCanonKind x \<equiv> SimpleFault (Trivial_Canon_Kind x)"
abbreviation "TrivialCoreFuncRange x \<equiv> SimpleFault (Trivial_Core_Func_Range x)"
abbreviation "TrivialCanonType x \<equiv> SimpleFault (Trivial_Canon_Type x)"
abbreviation "TrivialExportKind x \<equiv> SimpleFault (Trivial_Export_Kind x)"
abbreviation "TrivialExportRange x \<equiv> SimpleFault (Trivial_Export_Range x)"
abbreviation "NoInterface x \<equiv> SimpleFault (No_Interface x)"
abbreviation "NotShim \<equiv> SimpleFault Not_Shim"
abbreviation "FuncIsImport x \<equiv> CoreFault (Func_Is_Import x)"
abbreviation "FuncAliasKind x \<equiv> CoreFault (Func_Alias_Kind x)"
abbreviation "CoreFuncRange x \<equiv> CoreFault (Core_Func_Range x)"
abbreviation "CoreInstanceMissing x \<equiv> CoreFault (Core_Instance_Missing x)"
abbreviation "CoreCanonRange x \<equiv> CoreFault (Core_Canon_Range x)"
abbreviation "CoreMemRange x \<equiv> CoreFault (Core_Mem_Range x)"
abbreviation "NoCoreFunction x \<equiv> CoreFault (No_Core_Function x)"
abbreviation "PostReturnElsewhere \<equiv> CoreFault Post_Return_Elsewhere"
abbreviation "CallbackElsewhere \<equiv> CoreFault Callback_Elsewhere"
abbreviation "CoreModuleRange x \<equiv> CoreFault (Core_Module_Range x)"
abbreviation "CoreArgMissing x \<equiv> CoreFault (Core_Arg_Missing x)"
abbreviation "InlineSort x \<equiv> CoreFault (Bad_Inline_Sort x)"
abbreviation "InlineRange x \<equiv> CoreFault (Inline_Range x)"
abbreviation "NoCoreGlobal x \<equiv> CoreFault (No_Core_Global x)"
abbreviation "UnknownCoreInstance x \<equiv> CoreFault (Unknown_Core_Instance x)"
abbreviation "NestedExportMissing x \<equiv> ExportFault (Nested_Export_Missing x)"
abbreviation "ExportsImportedFunc x \<equiv> ExportFault (Exports_Imported_Func x)"
abbreviation "ExportKind x \<equiv> ExportFault (Export_Kind x)"
abbreviation "InstanceReexport x \<equiv> ExportFault (Instance_Reexport x)"
abbreviation "InstanceOutOfRange x \<equiv> ExportFault (Instance_Out_Of_Range x)"
abbreviation "InstanceKind x \<equiv> ExportFault (Bad_Instance_Kind x)"
abbreviation "NestedOutOfRange x \<equiv> ExportFault (Nested_Out_Of_Range x)"
abbreviation "ShimIndex x \<equiv> ExportFault (Shim_Index x)"
abbreviation "ShimArgMissing x \<equiv> ExportFault (Shim_Arg_Missing x)"
abbreviation "ShimArgSort x \<equiv> ExportFault (Shim_Arg_Sort x)"
abbreviation "ImportKind x \<equiv> ExportFault (Import_Kind x)"
abbreviation "HandBuilt \<equiv> ExportFault Hand_Built"

subsection \<open>Checks of Instantiate\<close>

definition CanonKindLift :: byte where "CanonKindLift = 0x00"

definition validateCanonicalStringEncodings :: "component_data \<Rightarrow> link_error + unit" where
  "validateCanonicalStringEncodings c =
     (case find (\<lambda>(i, opt). Opt_Kind opt = 0x01 \<or> Opt_Kind opt = 0x02)
             [(i, opt). (i, cn) \<leftarrow> enumerate 0 (c_Canons c), opt \<leftarrow> Canon_Opts cn] of
        None \<Rightarrow> Inr ()
      | Some (i, opt) \<Rightarrow> Inl (if Opt_Kind opt = 0x01 then Utf16Encoding i else Latin1Utf16Encoding i))"

fun partitioned_from :: "bool \<Rightarrow> core_func_entry list \<Rightarrow> bool" where
  "partitioned_from sawAlias [] = True"
| "partitioned_from sawAlias (CoreFuncFromAlias _ # es) = partitioned_from True es"
| "partitioned_from sawAlias (CoreFuncFromCanon _ # es) = (if sawAlias then False else partitioned_from sawAlias es)"

definition coreFuncSpacePartitioned :: "core_func_entry list \<Rightarrow> bool" where
  "coreFuncSpacePartitioned space = partitioned_from False space"

definition needsGraphPath :: "component_data \<Rightarrow> bool" where
  "needsGraphPath c \<longleftrightarrow>
     list_ex (\<lambda>cn. Canon_Kind cn = CanonKindLift \<and> list_ex (\<lambda>opt. Opt_Kind opt \<noteq> 0x00) (Canon_Opts cn)) (c_Canons c) \<or>
     list_ex (\<lambda>ci. CoreInstance_Kind ci = 0x01 \<and> list_ex (\<lambda>e. CoreExport_Sort e \<noteq> 0x00) (CoreInstance_Exports ci)) (c_CoreInstances c) \<or>
     list_ex (\<lambda>al. Alias_Sort al = 0x00 \<and> CoreSort al \<noteq> 0x00) (c_Aliases c) \<or>
     \<not> coreFuncSpacePartitioned (c_CoreFuncSpace c)"

definition needsImportPath :: "component_data \<Rightarrow> bool" where
  "needsImportPath c \<longleftrightarrow>
     c_Imports c \<noteq> [] \<or> c_Instances c \<noteq> [] \<or> list_ex (\<lambda>cn. Canon_Kind cn \<noteq> 0x00) (c_Canons c) \<or>
     length (c_CoreInstances c) \<noteq> 1 \<or> CoreInstance_Args (hd (c_CoreInstances c)) \<noteq> []"

text \<open>The type of a type index that has to be a function's.\<close>

definition func_desc_at :: "component_data \<Rightarrow> u32 \<Rightarrow> link_error + func_desc" where
  "func_desc_at c idx =
     (case ResolveType c idx of Inl e \<Rightarrow> Inl (LinkType e) | Inr (FuncDesc fd) \<Rightarrow> Inr fd | Inr _ \<Rightarrow> Inl LiftNotFunction)"

definition resolveStaticExportFuncDesc :: "component_data \<Rightarrow> string \<Rightarrow> link_error + func_desc" where
  "resolveStaticExportFuncDesc c name =
     (case find (\<lambda>ex. Export_ExternType ex = 0x01 \<and> Export_Name ex = name) (c_Exports c) of
        None \<Rightarrow> Inl (NoFuncExport name)
      | Some ex \<Rightarrow>
          if unat (Export_ExternIndex ex) \<ge> length (c_ComponentFuncSpace c) then Inl (FuncOutOfRange (Export_ExternIndex ex))
          else (case c_ComponentFuncSpace c ! unat (Export_ExternIndex ex) of
              ComponentFuncFromCanonLift i \<Rightarrow>
                if unat i \<ge> length (c_Canons c) then Inl LinkPanic else func_desc_at c (TypeIdx (c_Canons c ! unat i))
            | _ \<Rightarrow> Inl (NotDirectLift name)))"

definition maxFuncAliasDepth :: nat where "maxFuncAliasDepth = 64"

function resolveCanonLowerFuncDesc :: "component \<Rightarrow> u32 \<Rightarrow> nat \<Rightarrow> link_error + func_desc" where
  "resolveCanonLowerFuncDesc cmp idx depth =
     (let c = data cmp in
      if depth > maxFuncAliasDepth then Inl FuncAliasChainTooDeep
      else if unat idx \<ge> length (c_ComponentFuncSpace c) then Inl (FuncOutOfRange idx)
      else case c_ComponentFuncSpace c ! unat idx of
        ComponentFuncFromImport i \<Rightarrow>
          if unat i \<ge> length (c_Imports c) then Inl (ImportOutOfRange i)
          else (let im = c_Imports c ! unat i in
            if Import_ExternType im \<noteq> 0x01 then Inl (ImportNotFunction (Import_Name im))
            else func_desc_at c (Import_ExternIndex im))
      | ComponentFuncFromExport i \<Rightarrow>
          if unat i \<ge> length (c_Exports c) then Inl (ExportOutOfRange i)
          else resolveCanonLowerFuncDesc cmp (Export_ExternIndex (c_Exports c ! unat i)) (depth + 1)
      | ComponentFuncFromAlias i \<Rightarrow>
          if unat i \<ge> length (c_Aliases c) then Inl (FuncAliasOutOfRange i)
          else (let al = c_Aliases c ! unat i in
            if Alias_Sort al \<noteq> 0x01 \<or> TargetKind al \<noteq> 0x00 then Inl FuncAliasTarget
            else (case ResolveComponentInstance c (Alias_InstanceIdx al) of
                None \<Rightarrow> Inl (AliasedInstanceUnresolved (Alias_InstanceIdx al))
              | Some k \<Rightarrow>
                  if k \<ge> length (c_Instances c) then Inl (AliasedInstanceUnresolved (Alias_InstanceIdx al))
                  else (let inst = c_Instances c ! k in
                    if Instance_Kind inst \<noteq> 0x00 \<or> unat (ComponentIdx inst) \<ge> length (NestedComponents cmp)
                    then Inl (AliasedInstanceNotComponent (Alias_InstanceIdx al))
                    else resolveStaticExportFuncDesc (data (NestedComponents cmp ! unat (ComponentIdx inst))) (Alias_Name al))))
      | ComponentFuncFromCanonLift i \<Rightarrow>
          if unat i \<ge> length (c_Canons c) then Inl (LiftOutOfRange i)
          else func_desc_at c (TypeIdx (c_Canons c ! unat i)))"
  by pat_completeness auto
termination
  by (relation "measure (\<lambda>(c, idx, depth). Suc maxFuncAliasDepth - depth)") auto

declare resolveCanonLowerFuncDesc.simps [simp del]

text \<open>The check of one canon whose options ask for the asynchronous ABI, and of all.\<close>

definition check_async_canon :: "component \<Rightarrow> nat \<Rightarrow> canon \<Rightarrow> link_error + unit" where
  "check_async_canon cmp i cn =
     (if Canon_Kind cn \<noteq> 0x00 \<and> Canon_Kind cn \<noteq> 0x01 then Inr ()
      else if \<not> list_ex (\<lambda>opt. Opt_Kind opt = 0x06) (Canon_Opts cn) then Inr ()
      else
        rbind (if Canon_Kind cn = 0x00 then
                 (case func_desc_at (data cmp) (TypeIdx cn) of Inl _ \<Rightarrow> Inl (AsyncLiftType i) | Inr fd \<Rightarrow> Inr fd)
               else
                 (case resolveCanonLowerFuncDesc cmp (Canon_FuncIdx cn) 0 of Inl _ \<Rightarrow> Inl (AsyncLowerType i) | Inr fd \<Rightarrow> Inr fd))
          (\<lambda>fd. if \<not> Async fd then Inl (AsyncOptionOnSync i) else Inr ()))"

definition validateAsyncCanonOptsAgreeWithTypes :: "component \<Rightarrow> link_error + unit" where
  "validateAsyncCanonOptsAgreeWithTypes cmp = forE (\<lambda>(i, cn). check_async_canon cmp i cn) (enumerate 0 (c_Canons (data cmp)))"

datatype path = GraphPath | TrivialPath

text \<open>\<open>Instantiate\<close> between the decoder and the path it takes.\<close>

definition choose_path :: "component \<Rightarrow> link_error + path" where
  "choose_path cmp =
     rbind (validateCanonicalStringEncodings (data cmp)) (\<lambda>_.
       if c_Start (data cmp) \<noteq> None then Inl ComponentStart
       else rbind (validateAsyncCanonOptsAgreeWithTypes cmp) (\<lambda>_.
         Inr (if needsGraphPath (data cmp) \<or> needsImportPath (data cmp) then GraphPath else TrivialPath)))"

subsection \<open>The path without imports\<close>

definition coreModuleBytes :: "core_module \<Rightarrow> byte list \<Rightarrow> link_error + byte list" where
  "coreModuleBytes cm componentBytes =
     (if Module_Offset cm + Module_Size cm > length componentBytes then Inl ModuleBytesOutOfBounds
      else Inr (take (Module_Size cm) (drop (Module_Offset cm) componentBytes)))"

text \<open>The core functions are the aliases, in order.\<close>

definition check_trivial_alias :: "nat \<Rightarrow> alias_def \<Rightarrow> link_error + unit" where
  "check_trivial_alias i al =
     (if Alias_Sort al \<noteq> 0x00 \<or> TargetKind al \<noteq> 0x01 \<or> CoreSort al \<noteq> 0x00 \<or> Alias_InstanceIdx al \<noteq> 0 then Inl (TrivialAlias i) else Inr ())"

definition buildCoreFuncIndexSpace :: "component_data \<Rightarrow> link_error + string list" where
  "buildCoreFuncIndexSpace c =
     rbind (forE (\<lambda>(i, al). check_trivial_alias i al) (enumerate 0 (c_Aliases c))) (\<lambda>_. Inr (map Alias_Name (c_Aliases c)))"

definition check_trivial_canon :: "component_data \<Rightarrow> nat \<Rightarrow> nat \<Rightarrow> canon \<Rightarrow> link_error + unit" where
  "check_trivial_canon c funcs i cn =
     (if Canon_Kind cn \<noteq> 0x00 then Inl (TrivialCanonKind i)
      else if unat (CoreFuncIdx cn) \<ge> funcs then Inl (TrivialCoreFuncRange i)
      else (case func_desc_at c (TypeIdx cn) of Inl _ \<Rightarrow> Inl (TrivialCanonType i) | Inr _ \<Rightarrow> Inr ()))"

definition validateCanons :: "component_data \<Rightarrow> string list \<Rightarrow> link_error + unit" where
  "validateCanons c coreFuncIdx =
     forE (\<lambda>(i, cn). check_trivial_canon c (length coreFuncIdx) i cn) (enumerate 0 (c_Canons c))"

text \<open>The map from the names of the exports to canons; a later export of a name replaces an earlier one.\<close>

definition check_trivial_export :: "component_data \<Rightarrow> export_def \<Rightarrow> link_error + unit" where
  "check_trivial_export c ex =
     (if Export_ExternType ex \<noteq> 0x01 then Inl (TrivialExportKind (Export_Name ex))
      else if unat (Export_ExternIndex ex) \<ge> length (c_Canons c) then Inl (TrivialExportRange (Export_Name ex))
      else Inr ())"

definition buildExportIndex :: "component_data \<Rightarrow> link_error + (string \<rightharpoonup> nat)" where
  "buildExportIndex c =
     rbind (forE (check_trivial_export c) (c_Exports c)) (\<lambda>_.
       Inr (map_of (rev (map (\<lambda>ex. (Export_Name ex, unat (Export_ExternIndex ex))) (c_Exports c)))))"

text \<open>An export of this path: the exported core function and the type of the lift.\<close>

record trivial_export =
  te_funcName :: string
  te_fd :: func_desc

definition bind_trivial :: "component_data \<Rightarrow> string list \<Rightarrow> nat \<Rightarrow> trivial_export option" where
  "bind_trivial c funcs i =
     (case func_desc_at c (TypeIdx (c_Canons c ! i)) of
        Inr fd \<Rightarrow> Some \<lparr>te_funcName = funcs ! unat (CoreFuncIdx (c_Canons c ! i)), te_fd = fd\<rparr>
      | Inl _ \<Rightarrow> None)"

text \<open>\<open>instantiateComponent\<close>: on failure, what was instantiated and is closed again. \<open>engine\<close> is \<open>InstantiateWithConfig\<close>.\<close>

definition instantiateComponent ::
    "(byte list \<Rightarrow> string + 'm) \<Rightarrow> component \<Rightarrow> byte list \<Rightarrow> (link_error \<times> 'm option) + 'm \<times> (string \<rightharpoonup> trivial_export)" where
  "instantiateComponent engine cmp componentBytes =
     (let c = data cmp; ci = hd (c_CoreInstances c) in
      if c_Imports c \<noteq> [] \<or> c_Instances c \<noteq> [] \<or> length (c_CoreModules c) \<noteq> 1 \<or> length (c_CoreInstances c) \<noteq> 1 \<or>
         CoreInstance_Kind ci \<noteq> 0x00 \<or> ModuleIdx ci \<noteq> 0 \<or> CoreInstance_Args ci \<noteq> []
      then Inl (NotTrivial, None)
      else case coreModuleBytes (hd (c_CoreModules c)) componentBytes of
          Inl e \<Rightarrow> Inl (e, None)
        | Inr coreBytes \<Rightarrow>
            (case engine coreBytes of
               Inl e \<Rightarrow> Inl (EngineError e, None)
             | Inr core \<Rightarrow>
                 (case rbind (buildCoreFuncIndexSpace c) (\<lambda>funcs. rbind (validateCanons c funcs) (\<lambda>_.
                         rbind (buildExportIndex c) (\<lambda>index. Inr (\<lambda>name. Option.bind (index name) (bind_trivial c funcs))))) of
                    Inl e \<Rightarrow> Inl (e, Some core)
                  | Inr exports \<Rightarrow> Inr (core, exports))))"

subsection \<open>Names of imports (host_import.go)\<close>

text \<open>\<open>strings.Split\<close> at one character, and the text on either side of the first and the last occurrence of one.\<close>

fun split_at :: "char \<Rightarrow> string \<Rightarrow> string list" where
  "split_at d [] = [[]]"
| "split_at d (x # xs) = (if x = d then [] # split_at d xs else (x # hd (split_at d xs)) # tl (split_at d xs))"

definition cut_first :: "char \<Rightarrow> string \<Rightarrow> (string \<times> string) option" where
  "cut_first d s = (if d \<in> set s then Some (takeWhile (\<lambda>x. x \<noteq> d) s, tl (dropWhile (\<lambda>x. x \<noteq> d) s)) else None)"

definition cut_last :: "char \<Rightarrow> string \<Rightarrow> (string \<times> string) option" where
  "cut_last d s = (case cut_first d (rev s) of None \<Rightarrow> None | Some (a, b) \<Rightarrow> Some (rev b, rev a))"

definition is_digit :: "char \<Rightarrow> bool" where
  "is_digit ch \<longleftrightarrow> 48 \<le> (of_char ch :: nat) \<and> (of_char ch :: nat) \<le> 57"

definition is_identifier_char :: "char \<Rightarrow> bool" where
  "is_identifier_char ch \<longleftrightarrow>
     is_digit ch \<or> (65 \<le> (of_char ch :: nat) \<and> (of_char ch :: nat) \<le> 90) \<or> (97 \<le> (of_char ch :: nat) \<and> (of_char ch :: nat) \<le> 122) \<or> ch = CHR ''-''"

definition validSemverIdentifiers :: "string \<Rightarrow> bool \<Rightarrow> bool" where
  "validSemverIdentifiers s prerelease \<longleftrightarrow>
     s \<noteq> [] \<and>
     list_all (\<lambda>identifier. identifier \<noteq> [] \<and> list_all is_identifier_char identifier \<and>
        \<not> (prerelease \<and> list_all is_digit identifier \<and> length identifier > 1 \<and> hd identifier = CHR ''0'')) (split_at (CHR ''.'') s)"

text \<open>\<open>strconv.ParseUint\<close> in base 10 with 32 bits.\<close>

definition digits_value :: "string \<Rightarrow> nat" where
  "digits_value s = foldl (\<lambda>n ch. 10 * n + (of_char ch - 48)) 0 s"

definition ParseUint :: "string \<Rightarrow> nat option" where
  "ParseUint s = (if s \<noteq> [] \<and> list_all is_digit s \<and> digits_value s < 2 ^ 32 then Some (digits_value s) else None)"

definition version_part :: "string \<Rightarrow> nat option" where
  "version_part p = (if p = [] \<or> (length p > 1 \<and> hd p = CHR ''0'') then None else ParseUint p)"

definition canonical_version :: "nat \<Rightarrow> nat \<Rightarrow> nat \<Rightarrow> string" where
  "canonical_version a b c =
     (if a \<noteq> 0 then FormatUint a else if b \<noteq> 0 then ''0.'' @ FormatUint b else ''0.0.'' @ FormatUint c)"

definition compatibleInterfaceVersion :: "string \<Rightarrow> string option" where
  "compatibleInterfaceVersion version =
     Option.bind (case cut_first (CHR ''+'') version of
                    None \<Rightarrow> Some version
                  | Some (a, b) \<Rightarrow> if CHR ''+'' \<in> set b \<or> \<not> validSemverIdentifiers b False then None else Some a) (\<lambda>core1.
     Option.bind (case cut_first (CHR ''-'') core1 of
                    None \<Rightarrow> Some core1
                  | Some (a, b) \<Rightarrow> if \<not> validSemverIdentifiers b True then None else Some a) (\<lambda>core.
       (case map version_part (split_at (CHR ''.'') core) of
          [Some a, Some b, Some c] \<Rightarrow> Some (canonical_version a b c)
        | _ \<Rightarrow> None)))"

type_synonym import_key = "string \<times> string"

definition mkImportKey :: "string \<Rightarrow> string \<Rightarrow> import_key" where
  "mkImportKey iface name =
     ((case cut_last (CHR ''@'') iface of
         None \<Rightarrow> iface
       | Some (base, version) \<Rightarrow>
           (case compatibleInterfaceVersion version of Some v \<Rightarrow> base @ ''@'' @ v | None \<Rightarrow> iface)), name)"

text \<open>The name of the imported instance with a number, and what the two together say of a resource type.\<close>

definition importInterfaceName :: "component_data \<Rightarrow> u32 \<Rightarrow> link_error + string" where
  "importInterfaceName c instIdx =
     (let ims = filter (\<lambda>im. Import_ExternType im = 0x05) (c_Imports c) in
      if unat instIdx < length ims then Inr (Import_Name (ims ! unat instIdx)) else Inl (NoInterface instIdx))"

definition resolveImportedResourceName :: "component_data \<Rightarrow> u32 \<Rightarrow> (string \<times> string) option" where
  "resolveImportedResourceName c typeIdx =
     (if unat typeIdx \<ge> length (c_TypeSpace c) then None
      else case c_TypeSpace c ! unat typeIdx of
        TypeSpaceAlias i \<Rightarrow>
          if unat i \<ge> length (c_Aliases c) then None
          else (let al = c_Aliases c ! unat i in
            if Alias_Sort al \<noteq> 0x03 \<or> TargetKind al \<noteq> 0x00 then None
            else (case importInterfaceName c (Alias_InstanceIdx al) of Inl _ \<Rightarrow> None | Inr iface \<Rightarrow> Some (iface, Alias_Name al)))
      | _ \<Rightarrow> None)"

definition effectiveResourceTypeIdx :: "component_data \<Rightarrow> (import_key \<rightharpoonup> u32) \<Rightarrow> u32 \<Rightarrow> u32" where
  "effectiveResourceTypeIdx c resourceTags typeIdx =
     (case resolveImportedResourceName c typeIdx of
        None \<Rightarrow> typeIdx
      | Some (iface, name) \<Rightarrow> (case resourceTags (mkImportKey iface name) of Some tag \<Rightarrow> tag | None \<Rightarrow> typeIdx))"

definition is_resource :: "component_data \<Rightarrow> u32 \<Rightarrow> bool" where
  "is_resource c idx = (case ResolveType c idx of Inr (ResourceDesc _ _) \<Rightarrow> True | _ \<Rightarrow> False)"

definition exportedResourceDefs :: "component_data \<Rightarrow> string \<rightharpoonup> u32" where
  "exportedResourceDefs c =
     map_of (rev (map (\<lambda>ex. (Export_Name ex, ResourceDefIndex c (Export_ExternIndex ex)))
       (filter (\<lambda>ex. Export_ExternType ex = 0x03 \<and> is_resource c (Export_ExternIndex ex)) (c_Exports c))))"

definition importedResourceIndices :: "component_data \<Rightarrow> string \<Rightarrow> string \<rightharpoonup> u32" where
  "importedResourceIndices c importName =
     map_of [(name, word_of_nat idx). idx \<leftarrow> [0 ..< length (c_TypeSpace c)],
        (iface, name) \<leftarrow> (case resolveImportedResourceName c (word_of_nat idx) of None \<Rightarrow> [] | Some x \<Rightarrow> [x]), iface = importName]"

subsection \<open>Re-export shims\<close>

definition validateShimComponent :: "component \<Rightarrow> link_error + unit" where
  "validateShimComponent cmp =
     (let c = data cmp in
      if c_CoreModules c \<noteq> [] \<or> c_CoreInstances c \<noteq> [] \<or> c_Canons c \<noteq> [] \<or> c_Instances c \<noteq> [] \<or> NestedComponents cmp \<noteq> [] then Inl NotShim
      else if list_ex (\<lambda>al. Alias_Sort al = 0x01) (c_Aliases c) then Inl NotShim
      else Inr ())"

definition shimFuncImportNames :: "component_data \<Rightarrow> string list" where
  "shimFuncImportNames c = map Import_Name (filter (\<lambda>im. Import_ExternType im = 0x01) (c_Imports c))"

definition instanceExportKey :: "string \<Rightarrow> string \<Rightarrow> string" where
  "instanceExportKey instanceName memberName = instanceName @ ''#'' @ memberName"

text \<open>\<open>buildInstanceExportIndex\<close>: the members of an instance, with the name under which each is bound.\<close>

definition buildInstanceExportIndex :: "(string \<rightharpoonup> 'b) \<Rightarrow> string \<Rightarrow> string \<Rightarrow> ('b \<times> string) option" where
  "buildInstanceExportIndex exports instanceName memberName =
     (if CHR ''#'' \<in> set instanceName then None
      else map_option (\<lambda>b. (b, instanceExportKey instanceName memberName)) (exports (instanceExportKey instanceName memberName)))"

definition call_export_target :: "(string \<rightharpoonup> 'b) \<Rightarrow> string \<Rightarrow> string \<Rightarrow> ('b \<times> string) option" where
  "call_export_target exports instanceName memberName =
     (case buildInstanceExportIndex exports instanceName memberName of
        Some entry \<Rightarrow> Some entry
      | None \<Rightarrow> (let key = instanceExportKey instanceName memberName in map_option (\<lambda>b. (b, key)) (exports key)))"

end
