(* ===== verification/Linking_Correct.thy ===== *)
theory Linking_Correct
  imports Linking
begin

text \<open>
  What the checks and the simple path guarantee: the asynchronous options agree with the types, a component that is not given to the
  graph engine has the shape the simple path asks for, and every export of it is bound to what its index denotes if the lifts come
  first; two plain versions of an interface share a key exactly when they are compatible.
\<close>

subsection \<open>Lists of checks\<close>

lemma in_enumerate: "(i, x) \<in> set (enumerate 0 xs) \<longleftrightarrow> i < length xs \<and> xs ! i = x"
  by (auto simp: in_set_enumerate_eq)

lemma forE_enumerate: "forE (\<lambda>(i, x). f i x) (enumerate 0 xs) = Inr () \<longleftrightarrow> (\<forall>i < length xs. f i (xs ! i) = Inr ())"
  using in_enumerate [of _ _ xs] by (auto simp: forE_ok) fastforce

lemma func_desc_at_Inr: "func_desc_at c idx = Inr fd \<longleftrightarrow> ResolveType c idx = Inr (FuncDesc fd)"
  by (auto simp: func_desc_at_def split: sum.split type_desc.split)

subsection \<open>The asynchronous option\<close>

definition asks_async :: "canon \<Rightarrow> bool" where
  "asks_async cn \<longleftrightarrow> (\<exists>opt \<in> set (Canon_Opts cn). Opt_Kind opt = 0x06)"

lemma asks_async_list_ex: "list_ex (\<lambda>opt. Opt_Kind opt = 0x06) (Canon_Opts cn) \<longleftrightarrow> asks_async cn"
  by (auto simp: asks_async_def list_ex_iff)

text \<open>A component is only instantiated when each of its lifts and lowers with the asynchronous option is of a function whose type
  says so: the type index of a lift, and for a lower the type behind imports, exports, aliases and lifts of the function.\<close>

theorem async_option_needs_async_type:
  assumes "choose_path cmp = Inr q" "cn \<in> set (c_Canons (data cmp))" "asks_async cn"
  shows "(Canon_Kind cn = 0x00 \<longrightarrow> (\<exists>fd. ResolveType (data cmp) (TypeIdx cn) = Inr (FuncDesc fd) \<and> Async fd)) \<and>
    (Canon_Kind cn = 0x01 \<longrightarrow> (\<exists>fd. resolveCanonLowerFuncDesc cmp (Canon_FuncIdx cn) 0 = Inr fd \<and> Async fd))"
proof -
  obtain i where i: "i < length (c_Canons (data cmp))" "c_Canons (data cmp) ! i = cn" using assms(2) by (auto simp: in_set_conv_nth)
  have "validateAsyncCanonOptsAgreeWithTypes cmp = Inr ()"
    using assms(1) by (auto simp: choose_path_def res_simps split: if_splits)
  then have "check_async_canon cmp i cn = Inr ()"
    using i by (auto simp: validateAsyncCanonOptsAgreeWithTypes_def forE_enumerate)
  then show ?thesis
    using assms(3) by (auto simp: check_async_canon_def asks_async_list_ex res_simps func_desc_at_Inr split: if_splits sum.splits)
qed

subsection \<open>The simple path\<close>

text \<open>What is not given to the graph engine is a component without imports and instances, whose canons are all lifts without
  options but the encoding, whose aliases of core items are functions, and whose only core instance takes no arguments.\<close>

theorem simple_path_shape:
  assumes "choose_path cmp = Inr TrivialPath"
  shows "c_Start (data cmp) = None \<and> c_Imports (data cmp) = [] \<and> c_Instances (data cmp) = [] \<and>
    (\<forall>cn \<in> set (c_Canons (data cmp)). Canon_Kind cn = 0x00 \<and> (\<forall>opt \<in> set (Canon_Opts cn). Opt_Kind opt = 0x00)) \<and>
    (\<forall>al \<in> set (c_Aliases (data cmp)). Alias_Sort al = 0x00 \<longrightarrow> CoreSort al = 0x00) \<and>
    (\<exists>ci. c_CoreInstances (data cmp) = [ci] \<and> CoreInstance_Args ci = [])"
proof -
  have n: "c_Start (data cmp) = None" "\<not> needsGraphPath (data cmp)" "\<not> needsImportPath (data cmp)"
    using assms by (auto simp: choose_path_def res_simps split: if_splits)
  obtain ci where ci: "c_CoreInstances (data cmp) = [ci]"
    using n(3) by (auto simp: needsImportPath_def length_Suc_conv)
  show ?thesis
    using n ci by (auto simp: needsGraphPath_def needsImportPath_def list_ex_iff CanonKindLift_def)
qed













subsection \<open>Versions of interfaces\<close>

lemma digit_neq: "is_digit ch \<Longrightarrow> ch \<noteq> CHR ''.'' \<and> ch \<noteq> CHR ''+'' \<and> ch \<noteq> CHR ''-'' \<and> ch \<noteq> CHR ''@''"
  by (auto simp: is_digit_def)

lemma identifier_neq: "is_identifier_char ch \<Longrightarrow> ch \<noteq> CHR ''.'' \<and> ch \<noteq> CHR ''+'' \<and> ch \<noteq> CHR ''@''"
  by (auto simp: is_identifier_char_def is_digit_def)

lemma digit_char [simp]: "n < 10 \<Longrightarrow> is_digit (char_of (48 + n :: nat))" "n < 10 \<Longrightarrow> (of_char (char_of (48 + n :: nat)) :: nat) = 48 + n"
  by (simp_all add: is_digit_def)

lemma FormatUint_digits: "FormatUint n \<noteq> [] \<and> list_all is_digit (FormatUint n)"
  by (induction n rule: FormatUint.induct) (subst (1 2) FormatUint.simps, simp)

lemma digits_value_append: "digits_value (s @ [ch]) = 10 * digits_value s + (of_char ch - 48)"
  by (simp add: digits_value_def)

lemma FormatUint_value: "digits_value (FormatUint n) = n"
proof (induction n rule: FormatUint.induct)
  case (1 n)
  show ?case
  proof (cases "n < 10")
    case True
    then show ?thesis by (subst FormatUint.simps) (simp add: digits_value_def)
  next
    case False
    have "FormatUint n = FormatUint (n div 10) @ [char_of (48 + n mod 10)]" using False by (subst FormatUint.simps) simp
    then show ?thesis using 1 [OF False] by (simp add: digits_value_append)
  qed
qed

lemma FormatUint_inject [simp]: "FormatUint a = FormatUint b \<longleftrightarrow> a = b"
  by (metis FormatUint_value)

lemma FormatUint_hd: "0 < n \<Longrightarrow> hd (FormatUint n) \<noteq> CHR ''0''"
proof (induction n rule: FormatUint.induct)
  case (1 n)
  show ?case
  proof (cases "n < 10")
    case True
    have "(of_char (char_of (48 + n)) :: nat) \<noteq> of_char (CHR ''0'')" using True 1(2) by simp
    then have "char_of (48 + n) \<noteq> CHR ''0''" by metis
    then show ?thesis using True by (subst FormatUint.simps) simp
  next
    case False
    have "FormatUint n = FormatUint (n div 10) @ [char_of (48 + n mod 10)]" using False by (subst FormatUint.simps) simp
    moreover have "0 < n div 10" using False by (simp add: div_greater_zero_iff)
    ultimately show ?thesis using 1(1) [OF False] FormatUint_digits [of "n div 10"] by simp
  qed
qed

lemma version_part_Format: "n < 2 ^ 32 \<Longrightarrow> version_part (FormatUint n) = Some n"
proof -
  assume n: "n < 2 ^ 32"
  have "length (FormatUint n) > 1 \<Longrightarrow> hd (FormatUint n) \<noteq> CHR ''0''"
    using FormatUint_hd [of n] by (cases "n = 0") (simp_all add: FormatUint.simps [of 0])
  then show ?thesis using n FormatUint_digits [of n] by (simp add: version_part_def ParseUint_def FormatUint_value)
qed

lemma split_at_append: "d \<notin> set a \<Longrightarrow> split_at d (a @ d # b) = a # split_at d b" "d \<notin> set a \<Longrightarrow> split_at d a = [a]"
  by (induction a) auto

lemma cut_first_none: "d \<notin> set s \<Longrightarrow> cut_first d s = None"
  by (simp add: cut_first_def)

lemma cut_first_append: "d \<notin> set a \<Longrightarrow> cut_first d (a @ d # b) = Some (a, b)"
  by (induction a) (auto simp: cut_first_def)

lemma cut_last_append: "d \<notin> set b \<Longrightarrow> cut_last d (a @ d # b) = Some (a, b)"
  by (simp add: cut_last_def cut_first_append)

definition version_text :: "nat \<Rightarrow> nat \<Rightarrow> nat \<Rightarrow> string" where
  "version_text a b c = FormatUint a @ CHR ''.'' # FormatUint b @ CHR ''.'' # FormatUint c"

text \<open>Nothing, a qualification of a release that is to come, or one of a build.\<close>

definition qualifier :: "string \<Rightarrow> bool" where
  "qualifier q \<longleftrightarrow> q = [] \<or> (\<exists>p. q = CHR ''-'' # p \<and> validSemverIdentifiers p True) \<or> (\<exists>p. q = CHR ''+'' # p \<and> validSemverIdentifiers p False)"


lemma not_in_Format: "ch \<in> set (FormatUint n) \<Longrightarrow> is_digit ch"
  using FormatUint_digits [of n] by (auto simp: list_all_iff)

lemma version_chars: "ch \<in> set (version_text a b c) \<Longrightarrow> is_digit ch \<or> ch = CHR ''.''"
  by (auto simp: version_text_def dest: not_in_Format)

lemma split_at_chars: "ch \<in> set s \<Longrightarrow> ch = d \<or> (\<exists>p \<in> set (split_at d s). ch \<in> set p)"
proof (induction s)
  case (Cons x xs)
  have "split_at d xs \<noteq> []" by (cases xs) auto
  then show ?case using Cons by (cases "split_at d xs") auto
qed simp

lemma identifiers_chars: "validSemverIdentifiers p b \<Longrightarrow> ch \<in> set p \<Longrightarrow> is_identifier_char ch \<or> ch = CHR ''.''"
  using split_at_chars [of ch p "CHR ''.''"] by (fastforce simp: validSemverIdentifiers_def list_all_iff)

lemma qualifier_no_at: "qualifier q \<Longrightarrow> CHR ''@'' \<notin> set q"
  using identifiers_chars identifier_neq by (fastforce simp: qualifier_def)

lemma compatibleInterfaceVersion_text:
  assumes "a < 2 ^ 32" "b < 2 ^ 32" "c < 2 ^ 32" "qualifier q"
  shows "compatibleInterfaceVersion (version_text a b c @ q) = Some (canonical_version a b c)"
proof -
  let ?v = "version_text a b c"
  have no: "CHR ''+'' \<notin> set ?v" "CHR ''-'' \<notin> set ?v"
    using version_chars digit_neq by fastforce+
  have dot: "CHR ''.'' \<notin> set (FormatUint n)" for n using not_in_Format digit_neq by blast
  have parts: "map version_part (split_at (CHR ''.'') ?v) = [Some a, Some b, Some c]"
    using assms(1-3) by (simp add: version_text_def split_at_append dot version_part_Format)
  have plus: "CHR ''+'' \<notin> set p" if "validSemverIdentifiers p x" for p x
    using identifiers_chars [OF that] identifier_neq by fastforce
  consider "q = []" | p where "q = CHR ''-'' # p" "validSemverIdentifiers p True" | p where "q = CHR ''+'' # p" "validSemverIdentifiers p False"
    using assms(4) by (auto simp: qualifier_def)
  then show ?thesis
    by cases (simp_all add: compatibleInterfaceVersion_def cut_first_append cut_first_none no parts plus)
qed



lemma import_key_text:
  assumes "a < 2 ^ 32" "b < 2 ^ 32" "c < 2 ^ 32" "qualifier q"
  shows "mkImportKey (base @ ''@'' @ version_text a b c @ q) name = (base @ CHR ''@'' # canonical_version a b c, name)"
proof -
  have "CHR ''@'' \<notin> set (version_text a b c @ q)"
    using version_chars digit_neq qualifier_no_at [OF assms(4)] by fastforce
  from cut_last_append [OF this, of base] show ?thesis
    using compatibleInterfaceVersion_text [OF assms] by (simp add: mkImportKey_def)
qed



text \<open>Release candidates are not kept apart, although the comment of \<open>mkImportKey\<close> says that qualified versions remain exact; and a
  malformed version, which does remain exact, is taken for a normalized one.\<close>

lemma rc_qualifier: "qualifier ''-rc.1''"
  by (simp add: qualifier_def validSemverIdentifiers_def is_identifier_char_def is_digit_def)

lemma qualified_versions_collide:
  "mkImportKey (base @ ''@'' @ version_text 1 2 3 @ ''-rc.1'') name = mkImportKey (base @ ''@'' @ version_text 1 2 3 @ []) name"
  by (subst (1 2) import_key_text) (simp_all add: rc_qualifier qualifier_def [of "[]"])

lemma malformed_version_collides:
  "mkImportKey (''wasi:io/streams@1'') ''read'' = mkImportKey (''wasi:io/streams@1.2.3'') ''read''"
proof -
  have "CHR ''@'' \<notin> set ''1''" by simp
  from cut_last_append [OF this, of "''wasi:io/streams''"]
  have "mkImportKey (''wasi:io/streams'' @ ''@1'') ''read'' = (''wasi:io/streams'' @ ''@1'', ''read'')"
    by (simp add: mkImportKey_def compatibleInterfaceVersion_def cut_first_def split: option.split)
  moreover have "FormatUint 1 = ''1''" "FormatUint 2 = ''2''" "FormatUint 3 = ''3''"
    by code_simp+
  then have "mkImportKey (''wasi:io/streams'' @ ''@1.2.3'') ''read'' = (''wasi:io/streams'' @ ''@1'', ''read'')"
    using import_key_text [of 1 2 3 "[]" "''wasi:io/streams''"] by (simp add: version_text_def canonical_version_def qualifier_def)
  ultimately show ?thesis by simp
qed


subsection \<open>Examples\<close>

text \<open>A component of one core module with three functions and three lifts. It exports the first lift before it declares the others.\<close>

definition example_lift :: "u32 \<Rightarrow> canon" where
  "example_lift i = (zero_canon 0x00)\<lparr>CoreFuncIdx := i\<rparr>"

definition core_alias :: "string \<Rightarrow> alias_def" where
  "core_alias n = \<lparr>Alias_Sort = 0x00, TargetKind = 0x01, Alias_InstanceIdx = 0, Alias_Name = n, OuterCount = 0, OuterIndex = 0, CoreSort = 0x00\<rparr>"

definition func_export :: "string \<Rightarrow> u32 \<Rightarrow> export_def" where
  "func_export n i = \<lparr>Export_Name = n, Export_ExternType = 0x01, Export_ExternIndex = i\<rparr>"

definition lifts_only :: component_data where
  "lifts_only =
     add_canons [example_lift 0] (add_aliases [core_alias ''f0'', core_alias ''f1'', core_alias ''f2'']
       (add_types [\<lparr>Type_Index = 0, Type_Kind = ''func'',
           Descriptor = FuncDesc \<lparr>Params = [], Results = \<lparr>Unnamed = None, Named = []\<rparr>, Async = True\<rparr>\<rparr>]
         (zero_component\<lparr>c_CoreModules := [\<lparr>Module_Offset = 0, Module_Size = 8\<rparr>],
            c_CoreInstances := [\<lparr>CoreInstance_Kind = 0x00, ModuleIdx = 0, CoreInstance_Args = [], CoreInstance_Exports = []\<rparr>]\<rparr>)))"

definition interleaved :: component_data where
  "interleaved =
     add_exports [func_export ''b'' 2] (add_canons [example_lift 1, example_lift 2] (add_exports [func_export ''a'' 0] lifts_only))"

abbreviation (input) example_instance :: "(link_error \<times> unit option) + unit \<times> (string \<rightharpoonup> trivial_export)" where
  "example_instance \<equiv> instantiateComponent (\<lambda>_. Inr ()) (Component interleaved []) (replicate 8 0)"

lemma interleaved_path: "choose_path (Component interleaved []) = Inr TrivialPath"
  by code_simp

text \<open>In the index space of functions an export has an index of its own, so that the third index is the second lift; the simple path
  counts lifts only and binds the export to the third.\<close>

lemma simple_path_misbinds:
  "c_ComponentFuncSpace interleaved ! 2 = ComponentFuncFromCanonLift 1"
  "(case example_instance of Inr (_, exports) \<Rightarrow> map_option te_funcName (exports ''b'') | Inl _ \<Rightarrow> None) = Some ''f2''"
  by code_simp+

text \<open>An instance defined before one that is imported: the alias of a type of the former is taken for one of the latter.\<close>

definition instance_before_import :: component_data where
  "instance_before_import =
     add_aliases [\<lparr>Alias_Sort = 0x03, TargetKind = 0x00, Alias_InstanceIdx = 0, Alias_Name = ''r'', OuterCount = 0, OuterIndex = 0, CoreSort = 0x00\<rparr>]
       (add_imports [\<lparr>Import_Name = ''host'', Import_ExternType = 0x05, Import_ExternIndex = 0, TypeEqIndex = 0, TypeEqBound = False\<rparr>]
         (add_instances [\<lparr>Instance_Kind = 0x01, ComponentIdx = 0, Instance_Args = [],
              Instance_Exports = [\<lparr>Inline_Name = ''r'', Inline_Sort = 0x03, Inline_SortIdx = 0\<rparr>]\<rparr>] zero_component))"

lemma own_resource_taken_for_imported:
  "c_ComponentInstanceSpace instance_before_import ! 0 = ComponentInstanceFromDefinition 0"
  "resolveImportedResourceName instance_before_import 0 = Some (''host'', ''r'')"
  by code_simp+

theorem async_option_needs_async_type_witness:
  "\<exists>fd. ResolveType (add_canons [(example_lift 0)\<lparr>Canon_Opts := [\<lparr>Opt_Kind = 0x06, Opt_Idx = 0\<rparr>]\<rparr>] lifts_only) 0 = Inr (FuncDesc fd) \<and> Async fd"
proof -
  let ?cn = "(example_lift 0)\<lparr>Canon_Opts := [\<lparr>Opt_Kind = 0x06, Opt_Idx = 0\<rparr>]\<rparr>"
  let ?c = "Component (add_canons [?cn] lifts_only) []"
  have "choose_path ?c = Inr GraphPath" by code_simp
  moreover have "?cn \<in> set (c_Canons (data ?c))" by code_simp
  moreover have "asks_async ?cn" by (simp add: asks_async_def)
  ultimately have "Canon_Kind ?cn = 0x00 \<longrightarrow> (\<exists>fd. ResolveType (data ?c) (TypeIdx ?cn) = Inr (FuncDesc fd) \<and> Async fd)"
    using async_option_needs_async_type by blast
  then show ?thesis by (simp add: example_lift_def zero_canon_def)
qed

theorem simple_path_shape_witness: "\<exists>ci. c_CoreInstances interleaved = [ci] \<and> CoreInstance_Args ci = []"
  using simple_path_shape [OF interleaved_path] by simp





end
