(* ===== verification/Graph.thy ===== *)
theory Graph
  imports Linking Core_Module
begin

text \<open>
  The instantiation graph (\<open>internal/instance/graph.go\<close>): the core instances of a component are instantiated in order, each by the
  engine or as a shim that passes on items of earlier ones, under keys that other instances import them by; then the exports of the
  component are bound to core functions. The engine is a parameter with a state of its own. What a canon makes as a core function is
  a parameter too (its parts are in the theories of the built-ins and of the calls), and so are the instances of nested components.
\<close>

subsection \<open>The engine and the state\<close>

record core_sig =
  sig_params :: "byte list"
  sig_results :: "byte list"

record host_def =
  hd_fn :: nat
  hd_sig :: core_sig

text \<open>\<open>InspectModuleImports\<close>, \<open>InstantiateWithConfig\<close> with an import resolver, the builder of host modules, and what a module exports.\<close>

record ('m, 'e) core_engine =
  ce_inspect :: "byte list \<Rightarrow> string + (string \<times> string \<times> core_sig) list"
  ce_instantiate :: "(string \<Rightarrow> 'm option) \<Rightarrow> byte list \<Rightarrow> ('e, string, 'm) op"
  ce_host :: "string \<Rightarrow> (string \<times> host_def) list \<Rightarrow> ('e, string, 'm) op"
  ce_function :: "'m \<Rightarrow> string \<Rightarrow> core_sig option"
  ce_global :: "'m \<Rightarrow> string \<Rightarrow> (byte \<times> bool) option"
  ce_name :: "'m \<Rightarrow> string"

record ('m, 'e) graph_state =
  instMods :: "nat \<rightharpoonup> 'm"
  keyToInst :: "string \<rightharpoonup> 'm"
  closers :: "'m list"
  closed_mods :: "'m list"
  canonMods :: "nat \<rightharpoonup> 'm"
  privateHostModCount :: nat
  coreModuleCount :: nat
  engine_state :: 'e

record 'm graph_export =
  gx_mod :: 'm
  gx_funcName :: string
  gx_fd :: func_desc
  gx_postReturn :: string
  gx_reallocMod :: "'m option"
  gx_realloc :: string
  gx_callback :: string
  gx_asyncCallback :: bool
  gx_stackful :: bool
  gx_stackfulAsyncOpts :: bool
  gx_home :: "nat option"

record 'm sub_instance =
  sub_id :: nat
  sub_exports :: "string \<rightharpoonup> 'm graph_export"
  sub_syncTaskNeeded :: bool

type_synonym ('m, 'e, 'a) gop = "(('m, 'e) graph_state, link_error, 'a) op"

record ('m, 'e) graph_env =
  ge_engine :: "('m, 'e) core_engine"
  ge_parent :: "string \<Rightarrow> 'm option"
  ge_prefix :: string
  ge_registered :: "import_key \<Rightarrow> bool"
  ge_canon :: "canon \<Rightarrow> string list \<Rightarrow> string \<Rightarrow> ('m, 'e, host_def) gop"
  ge_nested :: "('m, 'e, nat \<rightharpoonup> 'm sub_instance) gop"

definition on_engine :: "('e, string, 'a) op \<Rightarrow> ('m, 'e, 'a) gop" where
  "on_engine f s =
     (let (r, e) = f (engine_state s)
      in (case r of Inl msg \<Rightarrow> Inl (EngineError msg) | Inr x \<Rightarrow> Inr x, s\<lparr>engine_state := e\<rparr>))"

subsection \<open>Index spaces\<close>

record aliasTarget =
  at_instIdx :: u32
  at_name :: string

datatype func_source = Lift nat | InstanceFunc aliasTarget

text \<open>An export of a function stands for the function it exports; nothing stops an export that stands for itself.\<close>

partial_function (option) componentFunc :: "component_data \<Rightarrow> u32 \<Rightarrow> (link_error + func_source) option" where
  "componentFunc c idx =
     (if unat idx \<ge> length (c_ComponentFuncSpace c) then Some (Inl (FuncOutOfRange idx))
      else case c_ComponentFuncSpace c ! unat idx of
        ComponentFuncFromCanonLift i \<Rightarrow> Some (Inr (Lift (unat i)))
      | ComponentFuncFromAlias i \<Rightarrow>
          if unat i \<ge> length (c_Aliases c) then Some (Inl LinkPanic)
          else if TargetKind (c_Aliases c ! unat i) \<noteq> 0x00 then Some (Inl (FuncAliasKind idx))
          else Some (Inr (InstanceFunc \<lparr>at_instIdx = Alias_InstanceIdx (c_Aliases c ! unat i), at_name = Alias_Name (c_Aliases c ! unat i)\<rparr>))
      | ComponentFuncFromExport i \<Rightarrow>
          if unat i \<ge> length (c_Exports c) then Some (Inl LinkPanic)
          else componentFunc c (Export_ExternIndex (c_Exports c ! unat i))
      | ComponentFuncFromImport i \<Rightarrow> Some (Inl (FuncIsImport idx)))"

definition core_space :: "byte \<Rightarrow> component_data \<Rightarrow> aliasTarget list" where
  "core_space k c =
     map (\<lambda>al. \<lparr>at_instIdx = Alias_InstanceIdx al, at_name = Alias_Name al\<rparr>)
       (filter (\<lambda>al. Alias_Sort al = 0x00 \<and> TargetKind al = 0x01 \<and> CoreSort al = k) (c_Aliases c))"

definition numImportedInstances :: "component_data \<Rightarrow> nat" where
  "numImportedInstances c = length (filter (\<lambda>im. Import_ExternType im = 0x05) (c_Imports c))"

definition componentInstanceDef :: "component_data \<Rightarrow> u32 \<Rightarrow> nat option" where
  "componentInstanceDef c idx =
     (if c_ComponentInstanceSpace c \<noteq> [] then ResolveComponentInstance c idx
      else if unat idx < numImportedInstances c \<or> unat idx - numImportedInstances c \<ge> length (c_Instances c) then None
      else Some (unat idx - numImportedInstances c))"

definition componentInstanceSpaceIndices :: "component_data \<Rightarrow> int list" where
  "componentInstanceSpaceIndices c =
     (let n = length (c_Instances c) in
      if c_ComponentInstanceSpace c \<noteq> [] then
        foldl (\<lambda>out (spaceIdx, e). case e of
            ComponentInstanceFromDefinition i \<Rightarrow> if unat i < n then out[unat i := int spaceIdx] else out
          | _ \<Rightarrow> out) (replicate n (- 1)) (enumerate 0 (c_ComponentInstanceSpace c))
      else map (\<lambda>i. int (numImportedInstances c + i)) [0 ..< n])"

subsection \<open>Names of core instances\<close>

definition coreInstanceKeyPrefix :: string where "coreInstanceKeyPrefix = ''wazy:core-instance/''"
definition graphEmptyImportKey :: string where "graphEmptyImportKey = ''wazy:component/empty-import''"

definition coreInstanceKey :: "nat \<Rightarrow> string" where
  "coreInstanceKey k = coreInstanceKeyPrefix @ FormatUint k"

definition canonGroupKey :: "nat \<Rightarrow> string" where
  "canonGroupKey k = ''wazy:canon-group/'' @ FormatUint k"

definition canonExportName :: "nat \<Rightarrow> string" where
  "canonExportName i = CHR ''f'' # FormatUint i"

text \<open>The distinct names under which the instantiations of a component pass an instance on.\<close>

definition with_args :: "component_data \<Rightarrow> core_instantiate_arg list" where
  "with_args c = concat (map CoreInstance_Args (filter (\<lambda>ci. CoreInstance_Kind ci = 0x00) (c_CoreInstances c)))"

definition add_ref :: "(u32 \<Rightarrow> string list) \<Rightarrow> core_instantiate_arg \<Rightarrow> u32 \<Rightarrow> string list" where
  "add_ref m arg =
     (let i = CoreArg_InstanceIdx arg; n = CoreArg_Name arg in if n \<in> set (m i) then m else m(i := m i @ [n]))"

definition refNames :: "component_data \<Rightarrow> u32 \<Rightarrow> string list" where
  "refNames c = foldl add_ref (\<lambda>_. []) (with_args c)"

definition emptyNameTarget :: "component_data \<Rightarrow> string" where
  "emptyNameTarget c =
     (if list_ex (\<lambda>arg. [] \<in> set (refNames c (CoreArg_InstanceIdx arg))) (with_args c) then graphEmptyImportKey else [])"

definition argImportName :: "string \<Rightarrow> string \<Rightarrow> string" where
  "argImportName argName target = (if argName = [] then target else argName)"

definition groupNamesForGraph :: "string list \<Rightarrow> string \<Rightarrow> string list" where
  "groupNamesForGraph names target = (if [] \<notin> set names then names else map (\<lambda>n. if n = [] then target else n) names)"

definition moduleKeyForGraph :: "nat \<Rightarrow> string list \<Rightarrow> string" where
  "moduleKeyForGraph k groupNames = (if groupNames = [] then ''core'' @ FormatUint k else hd groupNames)"

type_synonym needed_types = "string \<Rightarrow> string \<rightharpoonup> core_sig"

fun lookupCoreFuncSig :: "needed_types \<Rightarrow> string list \<Rightarrow> string \<Rightarrow> core_sig option" where
  "lookupCoreFuncSig needed [] entryName = None"
| "lookupCoreFuncSig needed (g # gs) entryName =
     (case needed g entryName of Some sig \<Rightarrow> Some sig | None \<Rightarrow> lookupCoreFuncSig needed gs entryName)"

text \<open>The bytes of the core modules with the empty import name rewritten, and the signatures they import functions with.\<close>

definition text_bytes :: "string \<Rightarrow> byte list" where
  "text_bytes s = map of_char s"

definition discover_module :: "('m, 'e) core_engine \<Rightarrow> string \<Rightarrow> byte list \<Rightarrow> core_module \<Rightarrow> link_error + byte list \<times> (string \<times> string \<times> core_sig) list" where
  "discover_module eng target componentBytes cm =
     rbind (coreModuleBytes cm componentBytes) (\<lambda>bs.
     rbind (if target \<noteq> [] then
              (case rewriteEmptyImportModuleName bs (length bs) (text_bytes target) of Inl _ \<Rightarrow> Inl LinkPanic | Inr (out, _) \<Rightarrow> Inr out)
            else Inr bs) (\<lambda>bs'.
       case ce_inspect eng bs' of Inl msg \<Rightarrow> Inl (EngineError msg) | Inr imports \<Rightarrow> Inr (bs', imports)))"

fun discover_all :: "('m, 'e) core_engine \<Rightarrow> string \<Rightarrow> byte list \<Rightarrow> core_module list \<Rightarrow> link_error + (byte list \<times> (string \<times> string \<times> core_sig) list) list" where
  "discover_all eng target bs [] = Inr []"
| "discover_all eng target bs (cm # cms) =
     rbind (discover_module eng target bs cm) (\<lambda>x. rbind (discover_all eng target bs cms) (\<lambda>xs. Inr (x # xs)))"

definition discoverNeededFuncTypes :: "('m, 'e) core_engine \<Rightarrow> component_data \<Rightarrow> byte list \<Rightarrow> link_error + needed_types \<times> byte list list" where
  "discoverNeededFuncTypes eng c componentBytes =
     rbind (discover_all eng (emptyNameTarget c) componentBytes (c_CoreModules c)) (\<lambda>xs.
       Inr (\<lambda>m n. map_of (rev (map (\<lambda>(m, n, sig). ((m, n), sig)) (concat (map snd xs)))) (m, n), map fst xs))"

subsection \<open>Core items\<close>

definition nextPrivateName :: "('m, 'e) graph_env \<Rightarrow> ('m, 'e, string) gop" where
  "nextPrivateName env s =
     (let n = privateHostModCount s + 1 in (Inr (ge_prefix env @ ''priv'' @ FormatUint n), s\<lparr>privateHostModCount := n\<rparr>))"

definition graphResolver :: "('m, 'e) graph_env \<Rightarrow> ('m, 'e) graph_state \<Rightarrow> string \<Rightarrow> 'm option" where
  "graphResolver env s name = (case keyToInst s name of Some m \<Rightarrow> Some m | None \<Rightarrow> ge_parent env name)"

definition add_closer :: "'m \<Rightarrow> ('m, 'e) graph_state \<Rightarrow> ('m, 'e) graph_state" where
  "add_closer m s = s\<lparr>closers := closers s @ [m]\<rparr>"

definition update :: "('s \<Rightarrow> 's) \<Rightarrow> ('s, 'err, unit) op" where
  "update f s = (Inr (), f s)"

definition func_item :: "string \<Rightarrow> string \<Rightarrow> string \<Rightarrow> core_sig \<Rightarrow> shim_item" where
  "func_item fromModule fromName exportName sig =
     \<lparr>Sort = 0x00, FromModule = text_bytes fromModule, FromName = text_bytes fromName, ExportName = text_bytes exportName,
      Params = sig_params sig, Results = sig_results sig, GlobalType = 0, GlobalMutable = False\<rparr>"

definition buildCanonHostModule :: "('m, 'e) graph_env \<Rightarrow> canon \<Rightarrow> string list \<Rightarrow> string \<Rightarrow> string \<Rightarrow> ('m, 'e, 'm \<times> core_sig) gop" where
  "buildCanonHostModule env cn groupNames entryName privateName =
     sbind (ge_canon env cn groupNames entryName) (\<lambda>d.
     sbind (on_engine (ce_host (ge_engine env) privateName [(''f'', d)])) (\<lambda>m. sret (m, hd_sig d)))"

text \<open>A canon that is used as a function directly: a host module, and a shim around it that may be called.\<close>

definition canon_target :: "component_data \<Rightarrow> ('m, 'e) graph_env \<Rightarrow> nat \<Rightarrow> ('m, 'e, 'm \<times> string) gop" where
  "canon_target c env i s =
     (case canonMods s i of
        Some m \<Rightarrow> (Inr (m, ''f''), s)
      | None \<Rightarrow>
          if i \<ge> length (c_Canons c) then (Inl (CoreCanonRange (word_of_nat i)), s)
          else
            sbind (nextPrivateName env) (\<lambda>privName.
            sbind (buildCanonHostModule env (c_Canons c ! i) [] privName privName) (\<lambda>(hostMod, sig).
              case buildPassthroughShim [func_item privName ''f'' ''f'' sig] of
                Inl _ \<Rightarrow> sfail LinkPanic
              | Inr shimBytes \<Rightarrow>
                  sbind (on_engine (ce_instantiate (ge_engine env) (ge_parent env) shimBytes)) (\<lambda>shim.
                  sbind (update (\<lambda>s. add_closer shim (add_closer hostMod (s\<lparr>canonMods := (canonMods s)(i \<mapsto> shim)\<rparr>)))) (\<lambda>_.
                    sret (shim, ''f''))))) s)"

definition coreFuncTarget :: "component_data \<Rightarrow> ('m, 'e) graph_env \<Rightarrow> u32 \<Rightarrow> ('m, 'e, 'm \<times> string) gop" where
  "coreFuncTarget c env cfi s =
     (if unat cfi \<ge> length (c_CoreFuncSpace c) then (Inl (CoreFuncRange cfi), s)
      else case c_CoreFuncSpace c ! unat cfi of
        CoreFuncFromAlias i \<Rightarrow>
          if unat i \<ge> length (c_Aliases c) then (Inl LinkPanic, s)
          else (let al = c_Aliases c ! unat i in
            case instMods s (unat (Alias_InstanceIdx al)) of
              None \<Rightarrow> (Inl (CoreInstanceMissing (Alias_InstanceIdx al)), s)
            | Some m \<Rightarrow> (Inr (m, Alias_Name al), s))
      | CoreFuncFromCanon i \<Rightarrow> canon_target c env (unat i) s)"

definition coreMemTarget :: "component_data \<Rightarrow> u32 \<Rightarrow> ('m, 'e, 'm) gop" where
  "coreMemTarget c idx s =
     (if unat idx \<ge> length (core_space 0x02 c) then (Inl (CoreMemRange idx), s)
      else (let at = core_space 0x02 c ! unat idx in
        case instMods s (unat (at_instIdx at)) of
          None \<Rightarrow> (Inl (CoreInstanceMissing (at_instIdx at)), s)
        | Some m \<Rightarrow> (Inr m, s)))"

text \<open>The memory and the allocator that a canon names, the last option of a kind counting.\<close>

primrec canon_options :: "component_data \<Rightarrow> ('m, 'e) graph_env \<Rightarrow> canon_opt list \<Rightarrow> 'm option \<times> ('m \<times> string) option \<Rightarrow>
    ('m, 'e, 'm option \<times> ('m \<times> string) option) gop" where
  "canon_options c env [] acc = sret acc"
| "canon_options c env (opt # opts) acc =
     (if Opt_Kind opt = 0x03 then
        sbind (coreMemTarget c (Opt_Idx opt)) (\<lambda>m. canon_options c env opts (Some m, snd acc))
      else if Opt_Kind opt = 0x04 then
        sbind (coreFuncTarget c env (Opt_Idx opt)) (\<lambda>(m, name).
          if ce_function (ge_engine env) m name = None then sfail (NoCoreFunction name)
          else canon_options c env opts (fst acc, Some (m, name)))
      else canon_options c env opts acc)"

definition canonMemoryAndRealloc :: "component_data \<Rightarrow> ('m, 'e) graph_env \<Rightarrow> canon \<Rightarrow> ('m, 'e, 'm option \<times> ('m \<times> string) option) gop" where
  "canonMemoryAndRealloc c env cn = canon_options c env (Canon_Opts cn) (None, None)"

subsection \<open>Core instances\<close>

text \<open>An item of an inline-export instance that is no canon: an alias of an item of an earlier core instance.\<close>

definition alias_item :: "byte \<Rightarrow> aliasTarget \<Rightarrow> string \<Rightarrow> byte \<Rightarrow> bool \<Rightarrow> core_sig \<Rightarrow> shim_item" where
  "alias_item srt at exportName gtype gmut sig =
     \<lparr>Sort = srt, FromModule = text_bytes (coreInstanceKey (unat (at_instIdx at))), FromName = text_bytes (at_name at),
      ExportName = text_bytes exportName, Params = sig_params sig, Results = sig_results sig, GlobalType = gtype, GlobalMutable = gmut\<rparr>"

definition no_sig :: core_sig where
  "no_sig = \<lparr>sig_params = [], sig_results = []\<rparr>"

definition resolveInlineExportItem :: "component_data \<Rightarrow> ('m, 'e) graph_env \<Rightarrow> core_inline_export \<Rightarrow> ('m, 'e, shim_item) gop" where
  "resolveInlineExportItem c env e s =
     (let idx = unat (CoreSortIdx e); name = CoreExport_Name e in
      if CoreExport_Sort e = 0x00 then
        (if idx \<ge> length (c_CoreFuncSpace c) then (Inl (InlineRange name), s)
         else (case c_CoreFuncSpace c ! idx of
             CoreFuncFromAlias i \<Rightarrow>
               if unat i \<ge> length (c_Aliases c) then (Inl LinkPanic, s)
               else (let al = c_Aliases c ! unat i in
                 case instMods s (unat (Alias_InstanceIdx al)) of
                   None \<Rightarrow> (Inl (CoreInstanceMissing (Alias_InstanceIdx al)), s)
                 | Some m \<Rightarrow>
                     (case ce_function (ge_engine env) m (Alias_Name al) of
                        None \<Rightarrow> (Inl (NoCoreFunction (Alias_Name al)), s)
                      | Some sig \<Rightarrow>
                          (Inr (alias_item 0x00 \<lparr>at_instIdx = Alias_InstanceIdx al, at_name = Alias_Name al\<rparr> name 0 False sig), s)))
           | CoreFuncFromCanon i \<Rightarrow> (Inl LinkPanic, s)))
      else if CoreExport_Sort e \<in> {0x01, 0x02, 0x03} then
        (let space = core_space (CoreExport_Sort e) c in
         if idx \<ge> length space then (Inl (InlineRange name), s)
         else (let at = space ! idx in
           case instMods s (unat (at_instIdx at)) of
             None \<Rightarrow> (Inl (CoreInstanceMissing (at_instIdx at)), s)
           | Some m \<Rightarrow>
               if CoreExport_Sort e = 0x03 then
                 (case ce_global (ge_engine env) m (at_name at) of
                    None \<Rightarrow> (Inl (NoCoreGlobal (at_name at)), s)
                  | Some (gtype, gmut) \<Rightarrow> (Inr (alias_item 0x03 at name gtype gmut no_sig), s))
               else (Inr (alias_item (CoreExport_Sort e) at name 0 False no_sig), s)))
      else (Inl (InlineSort name), s))"

text \<open>The items of an inline-export instance, and the definitions of those that are canons.\<close>

primrec collect_items :: "component_data \<Rightarrow> ('m, 'e) graph_env \<Rightarrow> string list \<Rightarrow> core_inline_export list \<Rightarrow>
    ('m, 'e, (shim_item \<times> host_def option) list) gop" where
  "collect_items c env groupNames [] = sret []"
| "collect_items c env groupNames (e # es) =
     sbind (let idx = unat (CoreSortIdx e) in
            case if CoreExport_Sort e = 0x00 \<and> idx < length (c_CoreFuncSpace c) then Some (c_CoreFuncSpace c ! idx) else None of
              Some (CoreFuncFromCanon i) \<Rightarrow>
                if unat i \<ge> length (c_Canons c) then sfail (CoreCanonRange i)
                else sbind (ge_canon env (c_Canons c ! unat i) groupNames (CoreExport_Name e)) (\<lambda>d.
                  sret (func_item [] [] (CoreExport_Name e) (hd_sig d), Some d))
            | _ \<Rightarrow> sbind (resolveInlineExportItem c env e) (\<lambda>it. sret (it, None)))
       (\<lambda>x. sbind (collect_items c env groupNames es) (\<lambda>xs. sret (x # xs)))"

fun name_canons :: "string \<Rightarrow> nat \<Rightarrow> (shim_item \<times> host_def option) list \<Rightarrow> shim_item list" where
  "name_canons fromModule j [] = []"
| "name_canons fromModule j ((it, None) # xs) = it # name_canons fromModule j xs"
| "name_canons fromModule j ((it, Some _) # xs) =
     it\<lparr>FromModule := text_bytes fromModule, FromName := text_bytes (canonExportName j)\<rparr> # name_canons fromModule (Suc j) xs"

definition canon_defs :: "(shim_item \<times> host_def option) list \<Rightarrow> host_def list" where
  "canon_defs xs = List.map_filter snd xs"

definition buildMergedCanonHostModule :: "('m, 'e) graph_env \<Rightarrow> string \<Rightarrow> host_def list \<Rightarrow> ('m, 'e, 'm) gop" where
  "buildMergedCanonHostModule env privateName defs =
     on_engine (ce_host (ge_engine env) privateName (map (\<lambda>(j, d). (canonExportName j, d)) (enumerate 0 defs)))"

text \<open>The host module of a group of canons and the key its shim imports it by.\<close>

definition group_module :: "('m, 'e) graph_env \<Rightarrow> nat \<Rightarrow> host_def list \<Rightarrow> ('m, 'e, string) gop" where
  "group_module env k defs =
     (if defs = [] then sret []
      else
        sbind (nextPrivateName env) (\<lambda>privName.
        sbind (buildMergedCanonHostModule env privName defs) (\<lambda>hostMod.
        sbind (update (add_closer hostMod)) (\<lambda>_ s.
          if keyToInst s (canonGroupKey k) = None
          then (Inr (canonGroupKey k), s\<lparr>keyToInst := (keyToInst s)(canonGroupKey k \<mapsto> hostMod)\<rparr>)
          else (Inr (ce_name (ge_engine env) hostMod), s)))))"

definition register_core :: "nat \<Rightarrow> string \<Rightarrow> 'm \<Rightarrow> ('m, 'e) graph_state \<Rightarrow> ('m, 'e) graph_state" where
  "register_core k key m s =
     add_closer m (s\<lparr>instMods := (instMods s)(k \<mapsto> m), keyToInst := (keyToInst s)(coreInstanceKey k \<mapsto> m, key \<mapsto> m)\<rparr>)"

text \<open>The arguments of an instantiation, and whether one differs from what the graph resolves its name to.\<close>

primrec check_args :: "('m, 'e) graph_env \<Rightarrow> string \<Rightarrow> ('m, 'e) graph_state \<Rightarrow> core_instantiate_arg list \<Rightarrow> link_error + bool" where
  "check_args env target s [] = Inr False"
| "check_args env target s (arg # args) =
     (case instMods s (unat (CoreArg_InstanceIdx arg)) of
        None \<Rightarrow> Inl (CoreArgMissing (CoreArg_Name arg))
      | Some src \<Rightarrow>
          rbind (check_args env target s args) (\<lambda>needLocal.
            Inr (needLocal \<or> graphResolver env s (argImportName (CoreArg_Name arg) target) \<noteq> Some src)))"

definition localResolver :: "('m, 'e) graph_env \<Rightarrow> string \<Rightarrow> ('m, 'e) graph_state \<Rightarrow> core_instantiate_arg list \<Rightarrow> string \<Rightarrow> 'm option" where
  "localResolver env target s args name =
     (case find (\<lambda>arg. argImportName (CoreArg_Name arg) target = name) args of
        Some arg \<Rightarrow> instMods s (unat (CoreArg_InstanceIdx arg))
      | None \<Rightarrow> graphResolver env s name)"

definition import_resolver :: "('m, 'e) graph_env \<Rightarrow> string \<Rightarrow> ('m, 'e) graph_state \<Rightarrow> core_instantiate_arg list \<Rightarrow> bool \<Rightarrow> string \<Rightarrow> 'm option" where
  "import_resolver env target s args needLocal = (if needLocal then localResolver env target s args else graphResolver env s)"

definition instantiate_module :: "component_data \<Rightarrow> ('m, 'e) graph_env \<Rightarrow> byte list list \<Rightarrow> nat \<Rightarrow> string \<Rightarrow> core_instance \<Rightarrow> ('m, 'e, unit) gop" where
  "instantiate_module c env rewritten k key ci s =
     (if unat (ModuleIdx ci) \<ge> length (c_CoreModules c) then (Inl (CoreModuleRange k), s)
      else case check_args env (emptyNameTarget c) s (CoreInstance_Args ci) of
          Inl e \<Rightarrow> (Inl e, s)
        | Inr needLocal \<Rightarrow>
            sbind (on_engine (ce_instantiate (ge_engine env)
                     (import_resolver env (emptyNameTarget c) s (CoreInstance_Args ci) needLocal) (rewritten ! unat (ModuleIdx ci)))) (\<lambda>m.
              update (\<lambda>s. (register_core k key m s)\<lparr>coreModuleCount := coreModuleCount s + 1\<rparr>)) s)"

definition instantiate_shim :: "component_data \<Rightarrow> ('m, 'e) graph_env \<Rightarrow> nat \<Rightarrow> string list \<Rightarrow> string \<Rightarrow> core_instance \<Rightarrow> ('m, 'e, unit) gop" where
  "instantiate_shim c env k groupNames key ci =
     sbind (collect_items c env groupNames (CoreInstance_Exports ci)) (\<lambda>xs.
     sbind (group_module env k (canon_defs xs)) (\<lambda>fromModule.
       case buildPassthroughShim (name_canons fromModule 0 xs) of
         Inl _ \<Rightarrow> sfail LinkPanic
       | Inr shimBytes \<Rightarrow>
           (\<lambda>s. sbind (on_engine (ce_instantiate (ge_engine env) (graphResolver env s) shimBytes)) (\<lambda>m. update (register_core k key m)) s)))"

definition instantiate_core :: "component_data \<Rightarrow> ('m, 'e) graph_env \<Rightarrow> byte list list \<Rightarrow> nat \<Rightarrow> core_instance \<Rightarrow> ('m, 'e, unit) gop" where
  "instantiate_core c env rewritten k ci =
     (let groupNames = groupNamesForGraph (refNames c (word_of_nat k)) (emptyNameTarget c); key = moduleKeyForGraph k groupNames in
      if CoreInstance_Kind ci = 0x00 then instantiate_module c env rewritten k key ci
      else if CoreInstance_Kind ci = 0x01 then instantiate_shim c env k groupNames key ci
      else sfail (UnknownCoreInstance k))"

primrec instantiate_cores :: "component_data \<Rightarrow> ('m, 'e) graph_env \<Rightarrow> byte list list \<Rightarrow> nat \<Rightarrow> core_instance list \<Rightarrow> ('m, 'e, unit) gop" where
  "instantiate_cores c env rewritten k [] = sret ()"
| "instantiate_cores c env rewritten k (ci # cis) =
     sbind (instantiate_core c env rewritten k ci) (\<lambda>_. instantiate_cores c env rewritten (Suc k) cis)"

subsection \<open>Exports\<close>

text \<open>The first option of a kind, resolved to the function it names.\<close>

definition option_target :: "component_data \<Rightarrow> ('m, 'e) graph_env \<Rightarrow> byte \<Rightarrow> canon \<Rightarrow> ('m, 'e, ('m \<times> string) option) gop" where
  "option_target c env k cn =
     (case find (\<lambda>opt. Opt_Kind opt = k) (Canon_Opts cn) of
        None \<Rightarrow> sret None
      | Some opt \<Rightarrow> sbind (coreFuncTarget c env (Opt_Idx opt)) (\<lambda>t. sret (Some t)))"

definition resolvePostReturnFuncGraph :: "component_data \<Rightarrow> ('m, 'e) graph_env \<Rightarrow> canon \<Rightarrow> 'm \<Rightarrow> ('m, 'e, string) gop" where
  "resolvePostReturnFuncGraph c env cn liftMod =
     sbind (option_target c env 0x05 cn) (\<lambda>t. case t of None \<Rightarrow> sret []
       | Some (m, name) \<Rightarrow> if m \<noteq> liftMod then sfail PostReturnElsewhere else sret name)"

definition resolveReallocFuncGraph :: "component_data \<Rightarrow> ('m, 'e) graph_env \<Rightarrow> canon \<Rightarrow> 'm \<Rightarrow> ('m, 'e, 'm option \<times> string) gop" where
  "resolveReallocFuncGraph c env cn liftMod =
     sbind (option_target c env 0x04 cn) (\<lambda>t. case t of None \<Rightarrow> sret (None, [])
       | Some (m, name) \<Rightarrow> sret (if m = liftMod then None else Some m, name))"

definition resolveCallbackFuncGraph :: "component_data \<Rightarrow> ('m, 'e) graph_env \<Rightarrow> canon \<Rightarrow> 'm \<Rightarrow> ('m, 'e, string) gop" where
  "resolveCallbackFuncGraph c env cn liftMod =
     sbind (option_target c env 0x07 cn) (\<lambda>t. case t of None \<Rightarrow> sret []
       | Some (m, name) \<Rightarrow> if m \<noteq> liftMod then sfail CallbackElsewhere else sret name)"

definition bind_lift :: "component_data \<Rightarrow> ('m, 'e) graph_env \<Rightarrow> canon \<Rightarrow> ('m, 'e, 'm graph_export) gop" where
  "bind_lift c env cn =
     (let isAsyncLift = list_ex (\<lambda>opt. Opt_Kind opt = 0x06) (Canon_Opts cn) in
      case func_desc_at c (TypeIdx cn) of
        Inl e \<Rightarrow> sfail e
      | Inr fd \<Rightarrow>
          sbind (coreFuncTarget c env (CoreFuncIdx cn)) (\<lambda>(m, name).
          sbind (resolvePostReturnFuncGraph c env cn m) (\<lambda>postReturn.
          sbind (resolveReallocFuncGraph c env cn m) (\<lambda>(reallocMod, realloc).
          sbind (resolveCallbackFuncGraph c env cn m) (\<lambda>cb.
            sret \<lparr>gx_mod = m, gx_funcName = name, gx_fd = fd, gx_postReturn = postReturn, gx_reallocMod = reallocMod, gx_realloc = realloc,
                  gx_callback = (if isAsyncLift then cb else []), gx_asyncCallback = isAsyncLift \<and> cb \<noteq> [],
                  gx_stackful = (if isAsyncLift then cb = [] else Async fd), gx_stackfulAsyncOpts = isAsyncLift \<and> cb = [],
                  gx_home = None\<rparr>)))))"

text \<open>The export of a nested instance, which keeps its home, or gets it where its state lives with that instance.\<close>

definition reexport :: "'m sub_instance \<Rightarrow> 'm graph_export \<Rightarrow> 'm graph_export" where
  "reexport sub be =
     (if (gx_asyncCallback be \<or> gx_stackful be \<or> sub_syncTaskNeeded sub) \<and> gx_home be = None
      then be\<lparr>gx_home := Some (sub_id sub)\<rparr> else be)"

definition bind_source :: "component_data \<Rightarrow> ('m, 'e) graph_env \<Rightarrow> (nat \<rightharpoonup> 'm sub_instance) \<Rightarrow> string \<Rightarrow> func_source \<Rightarrow> ('m, 'e, 'm graph_export) gop" where
  "bind_source c env compInstances diagName src =
     (case src of
        InstanceFunc at \<Rightarrow>
          (case compInstances (unat (at_instIdx at)) of
             None \<Rightarrow> sfail (ExportsImportedFunc diagName)
           | Some sub \<Rightarrow>
               (case sub_exports sub (at_name at) of
                  None \<Rightarrow> sfail (NestedExportMissing diagName)
                | Some be \<Rightarrow> sret (reexport sub be)))
      | Lift i \<Rightarrow> if i \<ge> length (c_Canons c) then sfail LinkPanic else bind_lift c env (c_Canons c ! i))"

definition bindFuncExportGraph ::
    "component_data \<Rightarrow> ('m, 'e) graph_env \<Rightarrow> (nat \<rightharpoonup> 'm sub_instance) \<Rightarrow> u32 \<Rightarrow> string \<Rightarrow> ('m, 'e) graph_state \<Rightarrow>
     ((link_error + 'm graph_export) \<times> ('m, 'e) graph_state) option" where
  "bindFuncExportGraph c env compInstances idx diagName s =
     (case componentFunc c idx of
        None \<Rightarrow> None
      | Some (Inl e) \<Rightarrow> Some (Inl e, s)
      | Some (Inr src) \<Rightarrow> Some (bind_source c env compInstances diagName src s))"

type_synonym 'm exports = "string \<rightharpoonup> 'm graph_export"

primrec bind_members :: "component_data \<Rightarrow> ('m, 'e) graph_env \<Rightarrow> (string \<times> (link_error + u32)) list \<Rightarrow> 'm exports \<Rightarrow>
    ('m, 'e) graph_state \<Rightarrow> ((link_error + 'm exports) \<times> ('m, 'e) graph_state) option" where
  "bind_members c env [] exports s = Some (Inr exports, s)"
| "bind_members c env (m # ms) exports s =
     (case snd m of
        Inl e \<Rightarrow> Some (Inl e, s)
      | Inr idx \<Rightarrow>
          (case bindFuncExportGraph c env (\<lambda>_. None) idx (fst m) s of
             None \<Rightarrow> None
           | Some (Inl e, s') \<Rightarrow> Some (Inl e, s')
           | Some (Inr be, s') \<Rightarrow> bind_members c env ms (exports(fst m \<mapsto> be)) s'))"

text \<open>The functions an exported instance consists of: those it lists itself, or those that a re-export shim passes on.\<close>

definition shim_member :: "instance_def \<Rightarrow> string list \<Rightarrow> string \<Rightarrow> export_def \<Rightarrow> string \<times> (link_error + u32)" where
  "shim_member inst names expName member =
     (let diagName = instanceExportKey expName (Export_Name member); i = unat (Export_ExternIndex member) in
      (diagName,
       if i \<ge> length names then Inl (ShimIndex diagName)
       else (case map_of (rev (map (\<lambda>a. (Arg_Name a, a)) (Instance_Args inst))) (names ! i) of
           None \<Rightarrow> Inl (ShimArgMissing diagName)
         | Some arg \<Rightarrow> if Arg_Sort arg \<noteq> 0x01 then Inl (ShimArgSort diagName) else Inr (Arg_SortIdx arg))))"

definition instance_members :: "component \<Rightarrow> export_def \<Rightarrow> link_error + (string \<times> (link_error + u32)) list" where
  "instance_members cmp ex =
     (let c = data cmp; idx = Export_ExternIndex ex; expName = Export_Name ex in
      case componentInstanceDef c idx of
        None \<Rightarrow>
          Inl (if unat idx < length (c_ComponentInstanceSpace c) \<and>
                   (case c_ComponentInstanceSpace c ! unat idx of ComponentInstanceFromImport _ \<Rightarrow> True | _ \<Rightarrow> False) \<or>
                  c_ComponentInstanceSpace c = [] \<and> unat idx < numImportedInstances c
               then InstanceReexport expName else InstanceOutOfRange expName)
      | Some k \<Rightarrow>
          (let inst = c_Instances c ! k in
           if Instance_Kind inst = 0x01 then
             Inr (map (\<lambda>m. (instanceExportKey expName (Inline_Name m), Inr (Inline_SortIdx m)))
               (filter (\<lambda>m. Inline_Sort m = 0x01) (Instance_Exports inst)))
           else if Instance_Kind inst \<noteq> 0x00 then Inl (InstanceKind expName)
           else if unat (ComponentIdx inst) \<ge> length (NestedComponents cmp) then Inl (NestedOutOfRange expName)
           else
             (let nested = NestedComponents cmp ! unat (ComponentIdx inst) in
              rbind (validateShimComponent nested) (\<lambda>_.
                Inr (map (shim_member inst (shimFuncImportNames (data nested)) expName)
                  (filter (\<lambda>m. Export_ExternType m = 0x01) (c_Exports (data nested))))))))"

definition bindInstanceExportGraph :: "component \<Rightarrow> ('m, 'e) graph_env \<Rightarrow> export_def \<Rightarrow> 'm exports \<Rightarrow> ('m, 'e) graph_state \<Rightarrow>
    ((link_error + 'm exports) \<times> ('m, 'e) graph_state) option" where
  "bindInstanceExportGraph cmp env ex exports s =
     (case instance_members cmp ex of Inl e \<Rightarrow> Some (Inl e, s) | Inr ms \<Rightarrow> bind_members (data cmp) env ms exports s)"

primrec bind_exports :: "component \<Rightarrow> ('m, 'e) graph_env \<Rightarrow> (nat \<rightharpoonup> 'm sub_instance) \<Rightarrow> export_def list \<Rightarrow> 'm exports \<Rightarrow>
    ('m, 'e) graph_state \<Rightarrow> ((link_error + 'm exports) \<times> ('m, 'e) graph_state) option" where
  "bind_exports cmp env compInstances [] exports s = Some (Inr exports, s)"
| "bind_exports cmp env compInstances (ex # exs) exports s =
     (if Export_ExternType ex = 0x01 then
        (case bindFuncExportGraph (data cmp) env compInstances (Export_ExternIndex ex) (Export_Name ex) s of
           None \<Rightarrow> None
         | Some (Inl e, s') \<Rightarrow> Some (Inl e, s')
         | Some (Inr be, s') \<Rightarrow> bind_exports cmp env compInstances exs (exports(Export_Name ex \<mapsto> be)) s')
      else if Export_ExternType ex = 0x05 then
        (case bindInstanceExportGraph cmp env ex exports s of
           None \<Rightarrow> None
         | Some (Inl e, s') \<Rightarrow> Some (Inl e, s')
         | Some (Inr exports', s') \<Rightarrow> bind_exports cmp env compInstances exs exports' s')
      else if Export_ExternType ex = 0x03 then bind_exports cmp env compInstances exs exports s
      else Some (Inl (ExportKind (Export_Name ex)), s))"

definition bindImportExportsGraph :: "component \<Rightarrow> ('m, 'e) graph_env \<Rightarrow> (nat \<rightharpoonup> 'm sub_instance) \<Rightarrow> ('m, 'e) graph_state \<Rightarrow>
    ((link_error + 'm exports) \<times> ('m, 'e) graph_state) option" where
  "bindImportExportsGraph cmp env compInstances s = bind_exports cmp env compInstances (c_Exports (data cmp)) (\<lambda>_. None) s"

subsection \<open>The whole graph\<close>

definition check_graph_import :: "('m, 'e) graph_env \<Rightarrow> import_def \<Rightarrow> link_error + unit" where
  "check_graph_import env im =
     (if Import_ExternType im = 0x03 then Inr ()
      else if Import_ExternType im = 0x01 \<and> ge_registered env (mkImportKey (Import_Name im) []) then Inr ()
      else if Import_ExternType im \<noteq> 0x05 then Inl (ImportKind (Import_Name im))
      else Inr ())"

text \<open>The destructors of the resources a component defines: for each type index the index of the core function.\<close>

definition declared_dtor :: "component_data \<Rightarrow> type_space_entry \<Rightarrow> u32 option" where
  "declared_dtor c entry =
     (case entry of
        TypeSpaceDef i \<Rightarrow>
          if unat i \<ge> length (c_Types c) then None
          else (case Descriptor (c_Types c ! unat i) of ResourceDesc _ d \<Rightarrow> d | _ \<Rightarrow> None)
      | _ \<Rightarrow> None)"

definition resolveDefinedResourceDtors :: "component_data \<Rightarrow> link_error + (nat \<times> u32) list" where
  "resolveDefinedResourceDtors c =
     (let ds = [(idx, d). (idx, entry) \<leftarrow> enumerate 0 (c_TypeSpace c), d \<leftarrow> (case declared_dtor c entry of None \<Rightarrow> [] | Some d \<Rightarrow> [d])] in
      case find (\<lambda>(idx, d). unat d \<ge> length (c_CoreFuncSpace c)) ds of
        Some (idx, d) \<Rightarrow> Inl (CoreFuncRange d)
      | None \<Rightarrow> Inr ds)"

definition dtor_sig :: core_sig where
  "dtor_sig = \<lparr>sig_params = [0x7f], sig_results = []\<rparr>"

primrec check_dtors :: "component_data \<Rightarrow> ('m, 'e) graph_env \<Rightarrow> (nat \<times> u32) list \<Rightarrow> ('m, 'e, unit) gop" where
  "check_dtors c env [] = sret ()"
| "check_dtors c env (d # ds) =
     (\<lambda>s. case coreFuncTarget c env (snd d) s of
        (Inl _, s') \<Rightarrow> (Inl (NoCoreFunction []), s')
      | (Inr (m, name), s') \<Rightarrow>
          if ce_function (ge_engine env) m name \<noteq> Some dtor_sig then (Inl (NoCoreFunction name), s') else check_dtors c env ds s')"

text \<open>\<open>closeAll\<close>, in the reverse order. The pass before, which detaches the core instances of the same modules in the same order, happens
  inside the engine.\<close>

definition close_all :: "('m, 'e) graph_state \<Rightarrow> ('m, 'e) graph_state" where
  "close_all s = s\<lparr>closers := [], closed_mods := closed_mods s @ rev (closers s)\<rparr>"

definition closing ::
    "((link_error + 'a) \<times> ('m, 'e) graph_state) option \<Rightarrow> ((link_error + 'a) \<times> ('m, 'e) graph_state) option" where
  "closing r = (case r of Some (Inl e, s) \<Rightarrow> Some (Inl e, close_all s) | _ \<Rightarrow> r)"

definition fresh_graph :: "'e \<Rightarrow> ('m, 'e) graph_state" where
  "fresh_graph e = \<lparr>instMods = (\<lambda>_. None), keyToInst = (\<lambda>_. None), closers = [], closed_mods = [], canonMods = (\<lambda>_. None),
     privateHostModCount = 0, coreModuleCount = 0, engine_state = e\<rparr>"

definition run_graph :: "component \<Rightarrow> ('m, 'e) graph_env \<Rightarrow> byte list list \<Rightarrow> ('m, 'e) graph_state \<Rightarrow>
    ((link_error + 'm exports) \<times> ('m, 'e) graph_state) option" where
  "run_graph cmp env rewritten s =
     (let c = data cmp in
      case sbind (\<lambda>s. (resolveDefinedResourceDtors c, s)) (\<lambda>dtors.
           sbind (instantiate_cores c env rewritten 0 (c_CoreInstances c)) (\<lambda>_.
           sbind (ge_nested env) (\<lambda>compInstances.
           sbind (check_dtors c env dtors) (\<lambda>_. sret compInstances)))) s of
        (Inl e, s') \<Rightarrow> Some (Inl e, s')
      | (Inr compInstances, s') \<Rightarrow> bindImportExportsGraph cmp env compInstances s')"

definition instantiateGraph :: "component \<Rightarrow> byte list \<Rightarrow> ('m, 'e) graph_env \<Rightarrow> 'e \<Rightarrow>
    ((link_error + 'm exports) \<times> ('m, 'e) graph_state) option" where
  "instantiateGraph cmp componentBytes env e =
     (let c = data cmp in
      case rbind (forE (check_graph_import env) (c_Imports c)) (\<lambda>_.
           if \<not> c_Decoded c \<and> (c_Aliases c \<noteq> [] \<or> c_Canons c \<noteq> []) then Inl HandBuilt
           else discoverNeededFuncTypes (ge_engine env) c componentBytes) of
        Inl err \<Rightarrow> Some (Inl err, fresh_graph e)
      | Inr (needed, rewritten) \<Rightarrow> closing (run_graph cmp env rewritten (fresh_graph e)))"

subsection \<open>What a canon lowers\<close>

text \<open>The function a canon lowers: one that the host may have registered under a key, or an export of a nested instance that is made later.\<close>

datatype lowered = FromHost string string | FromNested u32 string func_desc

definition lowered_func :: "component \<Rightarrow> canon \<Rightarrow> link_error + lowered" where
  "lowered_func cmp cn =
     (let c = data cmp; fi = Canon_FuncIdx cn in
      if unat fi \<ge> length (c_ComponentFuncSpace c) then Inl (FuncOutOfRange fi)
      else case c_ComponentFuncSpace c ! unat fi of
        ComponentFuncFromImport i \<Rightarrow>
          if unat i \<ge> length (c_Imports c) then Inl (ImportOutOfRange i)
          else (let im = c_Imports c ! unat i in
            if Import_ExternType im \<noteq> 0x01 then Inl (ImportNotFunction (Import_Name im)) else Inr (FromHost (Import_Name im) []))
      | ComponentFuncFromAlias i \<Rightarrow>
          if unat i \<ge> length (c_Aliases c) then Inl LinkPanic
          else (let al = c_Aliases c ! unat i in
            if Alias_Sort al \<noteq> 0x01 \<or> TargetKind al \<noteq> 0x00 then Inl FuncAliasTarget
            else (case componentInstanceDef c (Alias_InstanceIdx al) of
                Some k \<Rightarrow>
                  (let inst = c_Instances c ! k in
                   if Instance_Kind inst \<noteq> 0x00 \<or> unat (ComponentIdx inst) \<ge> length (NestedComponents cmp)
                   then Inl (AliasedInstanceNotComponent (Alias_InstanceIdx al))
                   else rbind (resolveStaticExportFuncDesc (data (NestedComponents cmp ! unat (ComponentIdx inst))) (Alias_Name al))
                     (\<lambda>fd. Inr (FromNested (Alias_InstanceIdx al) (Alias_Name al) fd)))
              | None \<Rightarrow> rbind (importInterfaceName c (Alias_InstanceIdx al)) (\<lambda>iface. Inr (FromHost iface (Alias_Name al)))))
      | _ \<Rightarrow> Inl FuncAliasTarget)"

subsection \<open>Which nested instances are instantiated\<close>

definition exportedAsInstance :: "component_data \<Rightarrow> int set" where
  "exportedAsInstance c = (\<lambda>ex. int (unat (Export_ExternIndex ex))) ` set (filter (\<lambda>ex. Export_ExternType ex = 0x05) (c_Exports c))"

definition needed_first :: "component_data \<Rightarrow> int set" where
  "needed_first c =
     (\<lambda>i. componentInstanceSpaceIndices c ! i) ` set (filter (\<lambda>i. Instance_Kind (c_Instances c ! i) = 0x00 \<and>
        componentInstanceSpaceIndices c ! i \<notin> exportedAsInstance c) [0 ..< length (c_Instances c)])"

definition instance_args :: "instance_def \<Rightarrow> int set" where
  "instance_args inst = (\<lambda>a. int (unat (Arg_SortIdx a))) ` set (filter (\<lambda>a. Arg_Sort a = 0x05) (Instance_Args inst))"

text \<open>One pass over the definitions from the last to the first.\<close>

primrec needed_pass :: "component_data \<Rightarrow> nat \<Rightarrow> int set \<Rightarrow> int set" where
  "needed_pass c 0 needed = needed"
| "needed_pass c (Suc i) needed =
     needed_pass c i (if componentInstanceSpaceIndices c ! i \<in> needed then needed \<union> instance_args (c_Instances c ! i) else needed)"

definition needed_instances :: "component_data \<Rightarrow> int set" where
  "needed_instances c = (if needed_first c = {} then {} else needed_pass c (length (c_Instances c)) (needed_first c))"

end
