(* ===== verification/Graph_Correct.thy ===== *)
theory Graph_Correct
  imports Graph Linking_Correct
begin

text \<open>
  What the instantiation graph guarantees: functions are found behind exports, arguments reach the core module they are given to,
  a core instance keeps its key, and no module that was made is forgotten.
\<close>

subsection \<open>Functions behind exports\<close>

text \<open>What a function index stands for: a lift, an export of an instance, or what the function it exports stands for.\<close>

inductive denotes :: "component_data \<Rightarrow> u32 \<Rightarrow> func_source \<Rightarrow> bool" for c where
  den_lift: "entry_at (c_ComponentFuncSpace c) idx = Some (ComponentFuncFromCanonLift i) \<Longrightarrow> denotes c idx (Lift (unat i))"
| den_alias: "entry_at (c_ComponentFuncSpace c) idx = Some (ComponentFuncFromAlias i) \<Longrightarrow> entry_at (c_Aliases c) i = Some al \<Longrightarrow>
    TargetKind al = 0x00 \<Longrightarrow> denotes c idx (InstanceFunc \<lparr>at_instIdx = Alias_InstanceIdx al, at_name = Alias_Name al\<rparr>)"
| den_export: "entry_at (c_ComponentFuncSpace c) idx = Some (ComponentFuncFromExport i) \<Longrightarrow> entry_at (c_Exports c) i = Some ex \<Longrightarrow>
    denotes c (Export_ExternIndex ex) src \<Longrightarrow> denotes c idx src"

definition exports_backward :: "component_data \<Rightarrow> bool" where
  "exports_backward c \<longleftrightarrow>
     (\<forall>idx i ex. entry_at (c_ComponentFuncSpace c) idx = Some (ComponentFuncFromExport i) \<longrightarrow> entry_at (c_Exports c) i = Some ex \<longrightarrow>
        unat (Export_ExternIndex ex) < unat idx)"

lemma componentFunc_denotes: "componentFunc c idx = Some r \<Longrightarrow> \<forall>src. r = Inr src \<longrightarrow> denotes c idx src"
proof (induction rule: componentFunc.raw_induct [rotated, consumes 1, case_names step])
  case (step cf c idx r)
  show ?case
  proof (cases "entry_at (c_ComponentFuncSpace c) idx")
    case (Some e)
    then have e: "unat idx < length (c_ComponentFuncSpace c)" "c_ComponentFuncSpace c ! unat idx = e" by (auto simp: entry_at_Some)
    show ?thesis
    proof (cases e)
      case (ComponentFuncFromCanonLift i)
      then show ?thesis using step(2) e Some den_lift by auto
    next
      case (ComponentFuncFromAlias i)
      then show ?thesis using step(2) e Some
        by (auto split: if_splits intro!: den_alias simp: entry_at_Some)
    next
      case (ComponentFuncFromExport i)
      then have i: "\<not> length (c_Exports c) \<le> unat i \<Longrightarrow> cf c (Export_ExternIndex (c_Exports c ! unat i)) = Some r"
        and r: "length (c_Exports c) \<le> unat i \<Longrightarrow> r = Inl LinkPanic" using step(2) e by simp_all
      show ?thesis
        using step(1) [OF i] r ComponentFuncFromExport Some den_export [of c idx i "c_Exports c ! unat i"]
        by (cases "length (c_Exports c) \<le> unat i") (auto simp: entry_at_Some)
    qed (use step(2) e in auto)
  qed (use step(2) in \<open>auto simp: entry_at_def split: if_splits\<close>)
qed

lemma denotes_componentFunc: "denotes c idx src \<Longrightarrow> componentFunc c idx = Some (Inr src)"
  by (induction rule: denotes.induct; subst componentFunc.simps; simp add: entry_at_Some)

lemma componentFunc_returns:
  assumes "exports_backward c"
  shows "\<exists>r. componentFunc c idx = Some r"
proof (induction "unat idx" arbitrary: idx rule: less_induct)
  case less
  show ?case
  proof (cases "entry_at (c_ComponentFuncSpace c) idx")
    case (Some e)
    then have e: "unat idx < length (c_ComponentFuncSpace c)" "c_ComponentFuncSpace c ! unat idx = e" by (auto simp: entry_at_Some)
    show ?thesis
    proof (cases e)
      case (ComponentFuncFromExport i)
      show ?thesis
      proof (cases "unat i < length (c_Exports c)")
        case True
        then have "unat (Export_ExternIndex (c_Exports c ! unat i)) < unat idx"
          using assms e ComponentFuncFromExport by (auto simp: exports_backward_def entry_at_Some)
        from less [OF this] show ?thesis using e ComponentFuncFromExport True by (subst componentFunc.simps) simp
      qed (use e ComponentFuncFromExport in \<open>subst componentFunc.simps, simp\<close>)
    qed (use e in \<open>subst componentFunc.simps, simp add: Let_def\<close>)+
  qed (subst componentFunc.simps, simp add: entry_at_def split: if_splits)
qed

text \<open>C37. Where every export of a function stands for an earlier one, looking a function up returns, with the lift or the export of an
  instance that the index stands for exactly when it stands for one.\<close>

theorem function_behind_exports:
  assumes "exports_backward c"
  shows "\<exists>r. componentFunc c idx = Some r \<and> (\<forall>src. r = Inr src \<longleftrightarrow> denotes c idx src)"
  proof -
  obtain r where r: "componentFunc c idx = Some r" using componentFunc_returns [OF assms] by blast
  have "r = Inr src \<longleftrightarrow> denotes c idx src" for src
    using componentFunc_denotes [OF r] denotes_componentFunc [of c idx src] r by auto
  then show ?thesis using r by blast
qed

definition lift_and_export :: component_data where
  "lift_and_export = zero_component\<lparr>c_ComponentFuncSpace := [ComponentFuncFromCanonLift 7, ComponentFuncFromExport 0],
     c_Exports := [\<lparr>Export_Name = ''a'', Export_ExternType = 0x01, Export_ExternIndex = 0\<rparr>]\<rparr>"

lemma function_behind_exports_witness: "\<exists>r. componentFunc lift_and_export 1 = Some r \<and> (\<forall>src. r = Inr src \<longleftrightarrow> denotes lift_and_export 1 src)"
  by (rule function_behind_exports)
    (auto simp: exports_backward_def entry_at_Some lift_and_export_def nth_Cons' split: if_splits)

text \<open>Nothing checks that. An export of itself is never looked up to the end, and a component that has one is given to the graph.\<close>

definition self_export :: component_data where
  "self_export = add_exports [\<lparr>Export_Name = ''a'', Export_ExternType = 0x01, Export_ExternIndex = 0\<rparr>] (zero_component\<lparr>c_Decoded := True\<rparr>)"

lemma self_export_space [simp]:
  "c_ComponentFuncSpace self_export = [ComponentFuncFromExport 0]"
  "c_Exports self_export = [\<lparr>Export_Name = ''a'', Export_ExternType = 0x01, Export_ExternIndex = 0\<rparr>]"
  by code_simp+

lemma componentFunc_diverges: "componentFunc self_export 0 = None"
proof -
  have "componentFunc c idx = Some r \<Longrightarrow> \<not> (c = self_export \<and> idx = 0)" for c idx r
  proof (induction rule: componentFunc.raw_induct [rotated, consumes 1, case_names step])
    case (step cf c idx r)
    show ?case
    proof
      assume *: "c = self_export \<and> idx = 0"
      then have "cf self_export 0 = Some r" using step(2) by simp
      from step(1) [OF this] show False by simp
    qed
  qed
  then show ?thesis by fastforce
qed

subsection \<open>Arguments of core modules\<close>

lemma check_args_agree:
  "check_args env target s args = Inr False \<Longrightarrow>
    \<forall>arg \<in> set args. graphResolver env s (argImportName (CoreArg_Name arg) target) = instMods s (unat (CoreArg_InstanceIdx arg))"
  by (induction args) (auto simp: res_simps split: option.splits)

text \<open>C36. An import of a core module resolves as its instantiation says: to the instance given by the first argument of this name, and
  only without one through the names of the whole graph. Leaving out the local resolver when no argument disagrees with the
  graph changes nothing.\<close>

theorem own_arguments_first:
  assumes "check_args env target s args = Inr needLocal"
  shows "import_resolver env target s args needLocal name =
    (case find (\<lambda>arg. argImportName (CoreArg_Name arg) target = name) args of
       Some arg \<Rightarrow> instMods s (unat (CoreArg_InstanceIdx arg)) | None \<Rightarrow> graphResolver env s name)"
proof (cases needLocal)
  case False
  have agree: "\<forall>arg \<in> set args. graphResolver env s (argImportName (CoreArg_Name arg) target) = instMods s (unat (CoreArg_InstanceIdx arg))"
    using assms False by (simp add: check_args_agree)
  show ?thesis
  proof (cases "find (\<lambda>arg. argImportName (CoreArg_Name arg) target = name) args")
    case (Some arg)
    then have "arg \<in> set args" "argImportName (CoreArg_Name arg) target = name" by (auto simp: find_Some_iff)
    then show ?thesis using agree Some False by (auto simp: import_resolver_def)
  qed (simp add: import_resolver_def False)
qed (simp add: import_resolver_def localResolver_def)

subsection \<open>What running the graph keeps\<close>

text \<open>The canons and the nested instances are made by steps that keep a relation.\<close>

definition env_keeps :: "(('m, 'e) graph_state \<Rightarrow> ('m, 'e) graph_state \<Rightarrow> bool) \<Rightarrow> ('m, 'e) graph_env \<Rightarrow> bool" where
  "env_keeps R env \<longleftrightarrow> (\<forall>cn names name. keeps R (ge_canon env cn names name)) \<and> keeps R (ge_nested env)"

lemma env_keepsD [keeping]:
  "env_keeps R env \<Longrightarrow> keeps R (ge_canon env cn names name)" "env_keeps R env \<Longrightarrow> keeps R (ge_nested env)"
  by (simp_all add: env_keeps_def)

text \<open>
  What the graph's steps keep is a relation of states that its few writes keep: the engine's own, the count of private names, a canon's
  shim, the module of a group of canons, and a core instance, under the keys \<open>ok\<close> allows.
\<close>

locale graph_frame = frame_relation R for R :: "('m, 'e) graph_state \<Rightarrow> ('m, 'e) graph_state \<Rightarrow> bool" +
  fixes ok :: "string \<Rightarrow> bool"
  assumes engine: "R s (s\<lparr>engine_state := e\<rparr>)"
    and named: "R s (s\<lparr>privateHostModCount := n\<rparr>)"
    and modules: "R s (s\<lparr>coreModuleCount := n\<rparr>)"
    and made: "R s (add_closer m s)"
    and canon: "R s (add_closer m (add_closer h (s\<lparr>canonMods := (canonMods s)(i \<mapsto> m)\<rparr>)))"
    and group: "R s ((add_closer m s)\<lparr>keyToInst := (keyToInst s)(canonGroupKey k \<mapsto> m)\<rparr>)"
    and core: "ok key \<Longrightarrow> R s (register_core k key m s)"
begin

lemma on_engine [keeping]: "keeps R (on_engine f)"
  by (auto simp: keeps_def on_engine_def Let_def engine split: prod.splits)

lemma keyToInst_closer: "keyToInst (add_closer m s) = keyToInst s"
  by (simp add: add_closer_def)

text \<open>Steps that look at the state first.\<close>

lemma at_result [keeping]: "keeps R (\<lambda>s. (r s, s))"
  by (simp add: keeps_def refl)

lemma at_if [keeping]: "keeps R f \<Longrightarrow> keeps R g \<Longrightarrow> keeps R (\<lambda>s. if b s then f s else g s)"
  by (simp add: keeps_def)

lemma at_option [keeping]: "keeps R f \<Longrightarrow> (\<And>x. keeps R (g x)) \<Longrightarrow> keeps R (\<lambda>s. case m s of None \<Rightarrow> f s | Some x \<Rightarrow> g x s)"
  by (auto simp: keeps_def split: option.splits)

lemma at_sum [keeping]: "(\<And>x. keeps R (f x)) \<Longrightarrow> (\<And>x. keeps R (g x)) \<Longrightarrow> keeps R (\<lambda>s. case m s of Inl x \<Rightarrow> f x s | Inr x \<Rightarrow> g x s)"
  by (auto simp: keeps_def split: sum.splits)

lemma case_sum [keeping]: "(\<And>x. keeps R (f x)) \<Longrightarrow> (\<And>x. keeps R (g x)) \<Longrightarrow> keeps R (case m of Inl x \<Rightarrow> f x | Inr x \<Rightarrow> g x)"
  by (auto split: sum.splits)

lemma case_pair [keeping]: "(\<And>x y. keeps R (f x y)) \<Longrightarrow> keeps R (case p of (x, y) \<Rightarrow> f x y)"
  by (cases p) simp

lemma at_sbind: "(\<And>s. keeps R (f s)) \<Longrightarrow> (\<And>x. keeps R (g x)) \<Longrightarrow> keeps R (\<lambda>s. sbind (f s) g s)"
  by (subst keeps_def) (blast dest: keepsD [OF sbind])

lemma nextPrivateName [keeping]: "keeps R (nextPrivateName env)"
  by (auto simp: keeps_def nextPrivateName_def Let_def named)

lemma buildCanonHostModule [keeping]: "env_keeps R env \<Longrightarrow> keeps R (buildCanonHostModule env cn names name priv)"
  unfolding buildCanonHostModule_def by (intro keeping)

lemma canon_target [keeping]:
  assumes "env_keeps R env"
  shows "keeps R (canon_target c env i)"
proof -
  have *: "keeps R (update (\<lambda>s. add_closer m (add_closer h (s\<lparr>canonMods := (canonMods s)(i \<mapsto> m)\<rparr>))))" for m h
    by (auto simp: keeps_def update_def canon)
  show ?thesis unfolding canon_target_def [abs_def] by (intro keeping * assms)
qed

lemma coreFuncTarget [keeping]:
  assumes "env_keeps R env"
  shows "keeps R (coreFuncTarget c env i)"
proof (cases "unat i < length (c_CoreFuncSpace c)")
  case True
  then show ?thesis unfolding coreFuncTarget_def [abs_def] Let_def
    by (cases "c_CoreFuncSpace c ! unat i") (auto intro!: keeping assms)
qed (auto simp: coreFuncTarget_def [abs_def] intro!: keeping)

lemma resolveInlineExportItem [keeping]: "keeps R (resolveInlineExportItem c env e)"
proof -
  have "snd (resolveInlineExportItem c env e s) = s" for s
    by (auto simp: resolveInlineExportItem_def Let_def split: core_func_entry.splits option.splits)
  then show ?thesis by (metis keeps_def refl snd_conv)
qed

lemma collect_items [keeping]: "env_keeps R env \<Longrightarrow> keeps R (collect_items c env names es)"
  by (induction es) (auto simp: Let_def split: option.splits core_func_entry.splits intro!: keeping)

lemma group_module [keeping]: "keeps R (group_module env k defs)"
proof -
  have *: "keeps R (sbind (update (add_closer m)) (\<lambda>_ s.
      if keyToInst s (canonGroupKey k) = None
      then (Inr (canonGroupKey k), s\<lparr>keyToInst := (keyToInst s)(canonGroupKey k \<mapsto> m)\<rparr>)
      else (Inr (ce_name (ge_engine env) m), s)))" for m
  proof -
    show ?thesis using made group by (simp add: keeps_def sbind_def update_def keyToInst_closer)
  qed
  then show ?thesis unfolding group_module_def buildMergedCanonHostModule_def
    by (intro keeps_if sret sbind [OF nextPrivateName] sbind [OF on_engine] *)
qed

lemma instantiate_module [keeping]: "ok key \<Longrightarrow> keeps R (instantiate_module c env rewritten k key ci)"
proof -
  assume "ok key"
  then have "R s (register_core k key m s\<lparr>coreModuleCount := coreModuleCount s + 1\<rparr>)" for m s
    using trans [OF core modules] by blast
  then have *: "keeps R (update (\<lambda>s. register_core k key m s\<lparr>coreModuleCount := coreModuleCount s + 1\<rparr>))" for m
    by (auto simp: keeps_def update_def)
  show ?thesis unfolding instantiate_module_def [abs_def] by (intro keeping at_sbind *)
qed

lemma instantiate_shim [keeping]:
  assumes "env_keeps R env" "ok key"
  shows "keeps R (instantiate_shim c env k names key ci)"
proof -
  have "keeps R (update (register_core k key m))" for m
    using assms(2) by (auto simp: keeps_def update_def core)
  then have "keeps R (\<lambda>s. sbind (on_engine (ce_instantiate (ge_engine env) (graphResolver env s) bs)) (\<lambda>m. update (register_core k key m)) s)"
    for bs by (intro at_sbind keeping)
  then show ?thesis unfolding instantiate_shim_def by (auto split: sum.splits intro!: keeping assms)
qed

lemma instantiate_cores [keeping]:
  "env_keeps R env \<Longrightarrow> (\<And>j. ok (moduleKeyForGraph j (groupNamesForGraph (refNames c (word_of_nat j)) (emptyNameTarget c)))) \<Longrightarrow>
    keeps R (instantiate_cores c env rewritten k cis)"
  by (induction cis arbitrary: k) (auto simp: instantiate_core_def Let_def intro!: keeping)

lemma check_dtors [keeping]: "env_keeps R env \<Longrightarrow> keeps R (check_dtors c env ds)"
proof (induction ds)
  case (Cons d ds)
  have "R s s'" if "check_dtors c env (d # ds) s = (r, s')" for s r s'
    using that keepsD [OF coreFuncTarget [OF Cons.prems], of c "snd d" s] keepsD [OF Cons.IH [OF Cons.prems]] trans
    by (auto split: prod.splits sum.splits if_splits)
  then show ?case by (simp add: keeps_def)
qed (simp add: sret)

subsubsection \<open>Binding exports\<close>

lemma option_target [keeping]: "env_keeps R env \<Longrightarrow> keeps R (option_target c env k cn)"
  unfolding option_target_def by (intro keeping)

lemma bind_lift [keeping]: "env_keeps R env \<Longrightarrow> keeps R (bind_lift c env cn)"
  unfolding bind_lift_def Let_def resolvePostReturnFuncGraph_def resolveReallocFuncGraph_def resolveCallbackFuncGraph_def
  by (intro keeping)

lemma bind_source [keeping]: "env_keeps R env \<Longrightarrow> keeps R (bind_source c env sub name src)"
  by (cases src) (auto simp: bind_source_def intro!: keeping)

lemma bindFuncExportGraph:
  "env_keeps R env \<Longrightarrow> bindFuncExportGraph c env sub idx name s = Some (r, s') \<Longrightarrow> R s s'"
  by (auto simp: bindFuncExportGraph_def refl dest: keepsD [OF bind_source] split: option.splits sum.splits)

lemma bind_members:
  "env_keeps R env \<Longrightarrow> bind_members c env ms exports s = Some (r, s') \<Longrightarrow> R s s'"
  by (induction ms arbitrary: exports s)
    (auto simp: refl dest!: bindFuncExportGraph intro: trans split: option.splits sum.splits)

lemma bindInstanceExportGraph:
  "env_keeps R env \<Longrightarrow> bindInstanceExportGraph cmp env ex exports s = Some (r, s') \<Longrightarrow> R s s'"
  by (auto simp: bindInstanceExportGraph_def refl dest: bind_members split: sum.splits)

lemma bind_exports:
  "env_keeps R env \<Longrightarrow> bind_exports cmp env sub exs exports s = Some (r, s') \<Longrightarrow> R s s'"
proof (induction exs arbitrary: exports s)
  case (Cons ex exs)
  consider "Export_ExternType ex = 0x01" | "Export_ExternType ex = 0x05" | "Export_ExternType ex \<notin> {0x01, 0x05}" by blast
  then show ?case
  proof cases
    case 1
    then show ?thesis using Cons.prems Cons.IH [OF Cons.prems(1)] trans bindFuncExportGraph [OF Cons.prems(1)]
      by (auto split: option.splits sum.splits prod.splits) blast
  next
    case 2
    then show ?thesis using Cons.prems Cons.IH [OF Cons.prems(1)] trans bindInstanceExportGraph [OF Cons.prems(1)]
      by (auto split: option.splits sum.splits prod.splits) blast
  next
    case 3
    then show ?thesis using Cons.prems Cons.IH refl by (auto split: if_splits)
  qed
qed (simp add: refl)

lemma run_graph:
  assumes "env_keeps R env"
    and "\<And>j. ok (moduleKeyForGraph j (groupNamesForGraph (refNames (data cmp) (word_of_nat j)) (emptyNameTarget (data cmp))))"
    and "run_graph cmp env rewritten s = Some (r, s')"
  shows "R s s'"
proof -
  define before where "before = sbind (\<lambda>s. (resolveDefinedResourceDtors (data cmp), s)) (\<lambda>dtors.
     sbind (instantiate_cores (data cmp) env rewritten 0 (c_CoreInstances (data cmp))) (\<lambda>_.
     sbind (ge_nested env) (\<lambda>sub. sbind (check_dtors (data cmp) env dtors) (\<lambda>_. sret sub))))"
  have "keeps R before" unfolding before_def by (intro keeping assms(1,2))
  then show ?thesis
    using assms(3) bind_exports [OF assms(1)] trans
    by (auto simp: run_graph_def Let_def bindImportExportsGraph_def before_def [symmetric] dest: keepsD split: prod.splits sum.splits)
qed

end

lemma coreInstanceKey_inject [simp]: "coreInstanceKey i = coreInstanceKey j \<longleftrightarrow> i = j"
  by (simp add: coreInstanceKey_def)

subsection \<open>No module is forgotten\<close>

text \<open>The modules that core instances, canons and names refer to, and whether all of them are to be closed.\<close>

definition held :: "('m, 'e) graph_state \<Rightarrow> 'm set" where
  "held s = ran (instMods s) \<union> ran (keyToInst s) \<union> ran (canonMods s)"

definition owned :: "('m, 'e) graph_state \<Rightarrow> bool" where
  "owned s \<longleftrightarrow> held s \<subseteq> set (closers s)"

definition keeps_owned :: "('m, 'e) graph_state \<Rightarrow> ('m, 'e) graph_state \<Rightarrow> bool" where
  "keeps_owned s s' \<longleftrightarrow> closed_mods s' = closed_mods s \<and> (owned s \<longrightarrow> owned s')"

lemmas owned_simps = keeps_owned_def owned_def held_def add_closer_def register_core_def

lemma ran_upd: "ran (f(k \<mapsto> x)) \<subseteq> insert x (ran f)"
  by (auto simp: ran_def)

interpretation owning: graph_frame keeps_owned "\<lambda>_. True"
  by unfold_locales (auto simp: owned_simps dest!: ran_upd [THEN subsetD])

subsection \<open>Core instances keep their keys\<close>

definition identified :: "('m, 'e) graph_state \<Rightarrow> bool" where
  "identified s \<longleftrightarrow> (\<forall>k. keyToInst s (coreInstanceKey k) = instMods s k)"

definition keeps_identified :: "('m, 'e) graph_state \<Rightarrow> ('m, 'e) graph_state \<Rightarrow> bool" where
  "keeps_identified s s' \<longleftrightarrow> (identified s \<longrightarrow> identified s')"

definition reserved_key :: "string \<Rightarrow> bool" where
  "reserved_key key \<longleftrightarrow> take (length coreInstanceKeyPrefix) key = coreInstanceKeyPrefix"

lemma reserved_core [simp]: "reserved_key (coreInstanceKey k)"
  by (simp add: reserved_key_def coreInstanceKey_def)

lemma reserved_group [simp]: "\<not> reserved_key (canonGroupKey k)"
  by (simp add: reserved_key_def canonGroupKey_def coreInstanceKeyPrefix_def)

interpretation identity: graph_frame keeps_identified "\<lambda>key. \<not> reserved_key key"
proof unfold_locales
  fix s :: "('m, 'e) graph_state" and k m
  have "coreInstanceKey j \<noteq> canonGroupKey k" for j using reserved_group reserved_core by metis
  then show "keeps_identified s (add_closer m s\<lparr>keyToInst := (keyToInst s)(canonGroupKey k \<mapsto> m)\<rparr>)"
    by (simp add: keeps_identified_def identified_def add_closer_def)
next
  fix s :: "('m, 'e) graph_state" and key k m
  assume "\<not> reserved_key key"
  then have "key \<noteq> coreInstanceKey j" for j using reserved_core by metis
  then show "keeps_identified s (register_core k key m s)"
    by (auto simp: keeps_identified_def identified_def add_closer_def register_core_def)
qed (auto simp: keeps_identified_def identified_def add_closer_def)

text \<open>The names the graph gives to core instances are those of arguments, or made up.\<close>

lemma refNames_args: "n \<in> set (refNames c i) \<Longrightarrow> \<exists>arg \<in> set (with_args c). n = CoreArg_Name arg"
proof -
  have "n \<in> set (foldl add_ref m args i) \<Longrightarrow> n \<in> set (m i) \<or> (\<exists>arg \<in> set args. n = CoreArg_Name arg)" for m args
    by (induction args arbitrary: m) (force simp: add_ref_def Let_def split: if_splits)+
  then show "n \<in> set (refNames c i) \<Longrightarrow> ?thesis" by (force simp: refNames_def)
qed

lemma key_not_reserved:
  assumes "\<forall>arg \<in> set (with_args c). \<not> reserved_key (CoreArg_Name arg)"
  shows "\<not> reserved_key (moduleKeyForGraph j (groupNamesForGraph (refNames c i) (emptyNameTarget c)))"
proof (cases "groupNamesForGraph (refNames c i) (emptyNameTarget c)")
  case Nil
  then show ?thesis by (simp add: moduleKeyForGraph_def reserved_key_def coreInstanceKeyPrefix_def)
next
  case (Cons n ns)
  then have "n \<in> set (refNames c i) \<or> n = emptyNameTarget c"
    by (auto simp: groupNamesForGraph_def split: if_splits)
  moreover have "\<not> reserved_key (emptyNameTarget c)"
    by (simp add: emptyNameTarget_def reserved_key_def coreInstanceKeyPrefix_def graphEmptyImportKey_def)
  ultimately have "\<not> reserved_key n" using assms refNames_args by metis
  then show ?thesis by (simp add: moduleKeyForGraph_def Cons)
qed

subsection \<open>What instantiating keeps\<close>

lemma owned_fresh [simp]: "owned (fresh_graph e)" "closed_mods (fresh_graph e) = []" "identified (fresh_graph e)"
  by (simp_all add: owned_def held_def fresh_graph_def identified_def)

text \<open>C34. No module is forgotten: whatever instantiating a component does, every module that a core instance, a canon or a name of the
  graph stands for is closed when it fails, and is among those its instance closes when it succeeds, if making a canon or a nested
  instance forgets none.\<close>

theorem no_module_forgotten:
  assumes "env_keeps keeps_owned env"
    and run: "instantiateGraph cmp componentBytes env e = Some (r, s)"
  shows "case r of Inl _ \<Rightarrow> closers s = [] \<and> held s \<subseteq> set (closed_mods s)
                 | Inr _ \<Rightarrow> closed_mods s = [] \<and> held s \<subseteq> set (closers s)"
proof (cases "discoverNeededFuncTypes (ge_engine env) (data cmp) componentBytes")
  case (Inr d)
  show ?thesis
  proof (cases "run_graph cmp env (snd d) (fresh_graph e)")
    case (Some x)
    obtain r1 s1 where x: "x = (r1, s1)" by fastforce
    have "keeps_owned (fresh_graph e) s1" using owning.run_graph [OF assms(1)] Some x by auto
    then have "owned s1" "closed_mods s1 = []" by (simp_all add: keeps_owned_def)
    then show ?thesis using run Some x Inr
      by (auto simp: instantiateGraph_def Let_def closing_def close_all_def owned_def held_def fresh_graph_def rbind_def
          split: sum.splits if_splits prod.splits)
  qed (use run Inr in \<open>auto simp: instantiateGraph_def Let_def closing_def rbind_def held_def fresh_graph_def
        split: sum.splits if_splits prod.splits\<close>)
qed (use run in \<open>auto simp: instantiateGraph_def Let_def rbind_def held_def fresh_graph_def split: sum.splits if_splits\<close>)

text \<open>C35. A core instance is imported by its own key: whichever core instances of a component have been made, what the graph resolves
  the key of the instance \<open>k\<close> to is the module of \<open>k\<close>, so that an item a shim passes on comes from the instance its alias
  names. This takes that no argument of an instantiation has a name with the prefix of these keys.\<close>

theorem core_instance_key:
  assumes "env_keeps keeps_identified env"
    and names: "\<forall>arg \<in> set (with_args (data cmp)). \<not> reserved_key (CoreArg_Name arg)"
    and run: "instantiate_cores (data cmp) env rewritten 0 cis (fresh_graph e) = (r, s)"
    and "instMods s k = Some m"
  shows "graphResolver env s (coreInstanceKey k) = Some m"
proof -
  have "\<not> reserved_key (moduleKeyForGraph j (groupNamesForGraph (refNames (data cmp) i) (emptyNameTarget (data cmp))))" for i j
    by (rule key_not_reserved [OF names])
  then have "keeps_identified (fresh_graph e) s"
    using keepsD [OF identity.instantiate_cores [OF assms(1)] run] by blast
  then have "identified s" by (simp add: keeps_identified_def)
  then show ?thesis using assms(4) by (simp add: identified_def graphResolver_def)
qed

subsection \<open>An engine that numbers its modules\<close>

definition counting_engine :: "(nat, nat) core_engine" where
  "counting_engine = \<lparr>ce_inspect = (\<lambda>_. Inr []), ce_instantiate = (\<lambda>_ _ n. (if n < 5 then Inr n else Inl ''full'', n + 1)),
     ce_host = (\<lambda>_ _ n. (Inr n, n + 1)), ce_function = (\<lambda>_ _. Some no_sig), ce_global = (\<lambda>_ _. None), ce_name = (\<lambda>_. ''m'')\<rparr>"

definition counting_env :: "(nat, nat) graph_env" where
  "counting_env = \<lparr>ge_engine = counting_engine, ge_parent = (\<lambda>_. None), ge_prefix = ''p'', ge_registered = (\<lambda>_. True),
     ge_canon = (\<lambda>_ _ _. sret \<lparr>hd_fn = 0, hd_sig = no_sig\<rparr>), ge_nested = sret (\<lambda>_. None)\<rparr>"

lemma counting_keeps: "env_keeps keeps_owned counting_env" "env_keeps keeps_identified counting_env"
  by (auto simp: env_keeps_def counting_env_def intro: owning.sret identity.sret)

definition core_of :: "byte \<Rightarrow> core_instantiate_arg list \<Rightarrow> core_instance" where
  "core_of k args = \<lparr>CoreInstance_Kind = k, ModuleIdx = 0, CoreInstance_Args = args, CoreInstance_Exports = []\<rparr>"

definition env_arg :: core_instantiate_arg where
  "env_arg = \<lparr>CoreArg_Name = ''env'', CoreArg_InstanceIdx = 0\<rparr>"

text \<open>A module, the same module with the first instance as its argument, and an instance of an unknown kind.\<close>

definition two_cores :: component_data where
  "two_cores = zero_component\<lparr>c_CoreModules := [\<lparr>Module_Offset = 0, Module_Size = 1\<rparr>],
     c_CoreInstances := [core_of 0x00 [], core_of 0x00 [env_arg], core_of 0x02 []], c_Decoded := True\<rparr>"

definition after_two :: "(nat, nat) graph_state" where
  "after_two = \<lparr>instMods = [0 \<mapsto> 0, 1 \<mapsto> 1],
     keyToInst = [coreInstanceKey 0 \<mapsto> 0, ''env'' \<mapsto> 0, coreInstanceKey 1 \<mapsto> 1, ''core'' @ FormatUint 1 \<mapsto> 1],
     closers = [0, 1], closed_mods = [], canonMods = Map.empty, privateHostModCount = 0, coreModuleCount = 2, engine_state = 2\<rparr>"

lemma two_cores_names: "refNames two_cores 0 = [''env'']" "refNames two_cores 1 = []" "refNames two_cores 2 = []" "emptyNameTarget two_cores = []"
  "c_CoreInstances two_cores = [core_of 0x00 [], core_of 0x00 [env_arg], core_of 0x02 []]" "length (c_CoreModules two_cores) = 1"
  by code_simp+

lemma two_cores_run:
  "instantiate_cores two_cores counting_env [[0]] 0 [core_of 0x00 [], core_of 0x00 [env_arg]] (fresh_graph 0) = (Inr (), after_two)"
  by (simp add: instantiate_core_def two_cores_names Let_def groupNamesForGraph_def moduleKeyForGraph_def core_of_def env_arg_def
      instantiate_module_def sbind_def on_engine_def update_def register_core_def add_closer_def fresh_graph_def counting_env_def
      counting_engine_def argImportName_def graphResolver_def after_two_def)

text \<open>An argument may give the second instance the name of the first.\<close>

definition second_as_env :: core_instantiate_arg where
  "second_as_env = \<lparr>CoreArg_Name = ''env'', CoreArg_InstanceIdx = 1\<rparr>"

lemma own_arguments_first_witness:
  "import_resolver counting_env [] after_two [second_as_env] True ''env'' = Some 1 \<and> graphResolver counting_env after_two ''env'' = Some 0"
proof
  have keys: "''env'' \<noteq> coreInstanceKey k" "''env'' \<noteq> ''core'' @ FormatUint 1" for k
    by (simp_all add: coreInstanceKey_def coreInstanceKeyPrefix_def)
  then show "graphResolver counting_env after_two ''env'' = Some 0" by (simp add: graphResolver_def after_two_def)
  then have "check_args counting_env [] after_two [second_as_env] = Inr True"
    by (simp add: second_as_env_def argImportName_def after_two_def)
  from own_arguments_first [OF this, of "''env''"]
  show "import_resolver counting_env [] after_two [second_as_env] True ''env'' = Some 1"
    by (simp add: second_as_env_def argImportName_def after_two_def)
qed

lemma core_instance_key_witness: "graphResolver counting_env after_two (coreInstanceKey 1) = Some 1"
proof (rule core_instance_key)
  show "env_keeps keeps_identified counting_env" by (rule counting_keeps)
  show "instantiate_cores (data (Component two_cores [])) counting_env [[0]] 0 [core_of 0x00 [], core_of 0x00 [env_arg]] (fresh_graph 0) =
      (Inr (), after_two)"
    unfolding component.sel by (rule two_cores_run)
  show "\<forall>arg \<in> set (with_args (data (Component two_cores []))). \<not> reserved_key (CoreArg_Name arg)" by code_simp
  show "instMods after_two 1 = Some 1" by (simp add: after_two_def)
qed

lemma instantiate_cores_append:
  "instantiate_cores c env rewritten k (xs @ ys) =
    sbind (instantiate_cores c env rewritten k xs) (\<lambda>_. instantiate_cores c env rewritten (k + length xs) ys)"
  by (induction xs arbitrary: k) (simp_all add: sbind_assoc)

lemma no_module_forgotten_witness:
  "\<exists>s. instantiateGraph (Component two_cores []) [0] counting_env 0 = Some (Inl (UnknownCoreInstance 2), s) \<and>
     closers s = [] \<and> held s \<subseteq> set (closed_mods s) \<and> 1 \<in> held s"
proof -
  have "instantiate_cores two_cores counting_env [[0]] 0 (c_CoreInstances two_cores) (fresh_graph 0) = (Inl (UnknownCoreInstance 2), after_two)"
  proof -
    have split: "c_CoreInstances two_cores = [core_of 0x00 [], core_of 0x00 [env_arg]] @ [core_of 0x02 []]" by (simp add: two_cores_names)
    have last: "instantiate_cores two_cores counting_env [[0]] 2 [core_of 0x02 []] after_two = (Inl (UnknownCoreInstance 2), after_two)"
      by (simp add: instantiate_core_def core_of_def)
    show ?thesis unfolding split instantiate_cores_append using last
      by (simp add: two_cores_run sbind_def numeral_2_eq_2 del: instantiate_cores.simps)
  qed
  moreover have "\<exists>needed. discoverNeededFuncTypes (ge_engine counting_env) two_cores [0] = Inr (needed, [[0]])"
    by (simp add: discoverNeededFuncTypes_def discover_module_def two_cores_def zero_component_def emptyNameTarget_def with_args_def
        coreModuleBytes_def counting_env_def counting_engine_def core_of_def refNames_def add_ref_def env_arg_def)
  moreover have "c_Imports two_cores = []" "c_Decoded two_cores" "resolveDefinedResourceDtors two_cores = Inr []" by code_simp+
  ultimately have run: "instantiateGraph (Component two_cores []) [0] counting_env 0 = Some (Inl (UnknownCoreInstance 2), close_all after_two)"
    by (auto simp: instantiateGraph_def closing_def run_graph_def sbind_def)
  have "1 \<in> held (close_all after_two)" by (auto simp: held_def close_all_def after_two_def ran_def)
  then show ?thesis using no_module_forgotten [OF counting_keeps(1) run] run by simp
qed

text \<open>A host module made for a canon is forgotten when the shim around it cannot be made.\<close>

definition one_canon :: component_data where
  "one_canon = zero_component\<lparr>c_Canons := [zero_canon 0x02], c_CoreFuncSpace := [CoreFuncFromCanon 0]\<rparr>"

definition full :: "(nat, nat) graph_state" where
  "full = (fresh_graph 5)\<lparr>privateHostModCount := 3\<rparr>"

lemma host_module_forgotten:
  "(case coreFuncTarget one_canon counting_env 0 full of (Inl e, s) \<Rightarrow> e = EngineError ''full'' \<and> closers s = [] \<and> engine_state s = 7
      | _ \<Rightarrow> False)"
  by code_simp

subsection \<open>Which nested instances are needed\<close>

text \<open>The instances that are made: those not merely exported, and, again and again, those an instance that is made takes as arguments.\<close>

inductive needs :: "component_data \<Rightarrow> int \<Rightarrow> bool" for c where
  needs_first: "x \<in> needed_first c \<Longrightarrow> needs c x"
| needs_argument: "needs c (componentInstanceSpaceIndices c ! i) \<Longrightarrow> i < length (c_Instances c) \<Longrightarrow> x \<in> instance_args (c_Instances c ! i) \<Longrightarrow>
    needs c x"

definition arguments_backward :: "component_data \<Rightarrow> bool" where
  "arguments_backward c \<longleftrightarrow> (\<forall>i < length (c_Instances c). \<forall>j < length (c_Instances c).
     componentInstanceSpaceIndices c ! j \<in> instance_args (c_Instances c ! i) \<longrightarrow> j < i)"

lemma needed_pass_sound: "k \<le> length (c_Instances c) \<Longrightarrow> N \<subseteq> Collect (needs c) \<Longrightarrow> needed_pass c k N \<subseteq> Collect (needs c)"
proof (induction k arbitrary: N)
  case (Suc k)
  then have "componentInstanceSpaceIndices c ! k \<in> N \<Longrightarrow> instance_args (c_Instances c ! k) \<subseteq> Collect (needs c)"
    by (auto intro: needs_argument)
  then show ?case using Suc by simp
qed simp

lemma needed_pass_mono: "N \<subseteq> needed_pass c k N"
  by (induction k arbitrary: N) (auto, blast+)

lemma needed_pass_closed:
  assumes "arguments_backward c" "k \<le> length (c_Instances c)"
    and "\<forall>i. k \<le> i \<and> i < length (c_Instances c) \<and> componentInstanceSpaceIndices c ! i \<in> N \<longrightarrow> instance_args (c_Instances c ! i) \<subseteq> N"
    and "i < length (c_Instances c)" "componentInstanceSpaceIndices c ! i \<in> needed_pass c k N"
  shows "instance_args (c_Instances c ! i) \<subseteq> needed_pass c k N"
  using assms(2,3,5)
proof (induction k arbitrary: N)
  case 0
  then show ?case using assms(4) by simp
next
  case (Suc k)
  define N' where "N' = (if componentInstanceSpaceIndices c ! k \<in> N then N \<union> instance_args (c_Instances c ! k) else N)"
  have "instance_args (c_Instances c ! j) \<subseteq> N'"
    if "k \<le> j" "j < length (c_Instances c)" "componentInstanceSpaceIndices c ! j \<in> N'" for j
  proof -
    have "componentInstanceSpaceIndices c ! j \<notin> instance_args (c_Instances c ! k)"
      using assms(1) that Suc.prems(1) unfolding arguments_backward_def by (meson Suc_le_lessD not_le)
    then have "componentInstanceSpaceIndices c ! j \<in> N" using that by (simp add: N'_def split: if_splits)
    then have "instance_args (c_Instances c ! j) \<subseteq> N" if "j \<noteq> k"
      using Suc.prems(2) \<open>k \<le> j\<close> \<open>j < _\<close> that by simp
    then show ?thesis using \<open>_ \<in> N\<close> by (cases "j = k") (auto simp: N'_def)
  qed
  then show ?case using Suc.IH [of N'] Suc.prems by (simp add: N'_def)
qed

text \<open>One pass over the nested instances from the last to the first finds all that are needed, and no others, where instances take
  only earlier ones as arguments.\<close>

theorem needed_in_one_pass:
  assumes "arguments_backward c"
  shows "needed_instances c = {x. needs c x}"
proof -
  let ?N = "needed_pass c (length (c_Instances c)) (needed_first c)"
  have complete: "x \<in> ?N" if "needs c x" for x
    using that
  proof induction
    case (needs_argument i x)
    have "instance_args (c_Instances c ! i) \<subseteq> ?N"
      by (rule needed_pass_closed [OF assms order.refl]) (use needs_argument in auto)
    then show ?case using needs_argument by blast
  qed (rule needed_pass_mono [THEN subsetD])
  have sound: "?N \<subseteq> Collect (needs c)"
    using needed_pass_sound [OF order.refl, of "needed_first c" c] by (auto intro: needs_first)
  have none: "\<not> needs c x" if "needed_first c = {}" for x
  proof
    assume "needs c x"
    then show False by induction (use that in auto)
  qed
  show ?thesis
  proof (cases "needed_first c = {}")
    case False
    then have "needed_instances c = ?N" by (simp add: needed_instances_def)
    then show ?thesis using complete sound by blast
  qed (use none in \<open>simp add: needed_instances_def\<close>)
qed

definition three_instances :: component_data where
  "three_instances = zero_component\<lparr>
     c_Instances := [\<lparr>Instance_Kind = 0x00, ComponentIdx = 0, Instance_Args = [], Instance_Exports = []\<rparr>,
       \<lparr>Instance_Kind = 0x01, ComponentIdx = 0, Instance_Args = [], Instance_Exports = []\<rparr>,
       \<lparr>Instance_Kind = 0x00, ComponentIdx = 1, Instance_Args = [\<lparr>Arg_Name = ''a'', Arg_Sort = 0x05, Arg_SortIdx = 0\<rparr>], Instance_Exports = []\<rparr>],
     c_Exports := [\<lparr>Export_Name = ''i'', Export_ExternType = 0x05, Export_ExternIndex = 0\<rparr>]\<rparr>"

lemma needed_in_one_pass_witness: "needed_instances three_instances = {x. needs three_instances x} \<and> needed_instances three_instances = {0, 2}"
proof
  have "componentInstanceSpaceIndices three_instances = [0, 1, 2]" "length (c_Instances three_instances) = 3"
    "map instance_args (c_Instances three_instances) = [{}, {}, {0}]" by code_simp+
  then have "componentInstanceSpaceIndices three_instances = [0, 1, 2]" "length (c_Instances three_instances) = 3"
    "\<And>i. i < 3 \<Longrightarrow> instance_args (c_Instances three_instances ! i) = [{}, {}, {0}] ! i"
    by (metis nth_map)+
  then have "arguments_backward three_instances"
    by (simp add: arguments_backward_def numeral_3_eq_3 All_less_Suc)
  then show "needed_instances three_instances = {x. needs three_instances x}" by (rule needed_in_one_pass)
qed code_simp

end
