(* ===== verification/Thread.thy ===== *)
theory Thread
  imports Export_Call
begin

text \<open>
  Threads and blocking: the table of threads, spawned threads and the \<open>thread.*\<close> built-ins of \<open>internal/instance/thread.go\<close>, with the
  blocking of all three carriers of guest frames: a stackful task (\<open>stackful_task.go\<close>), the segment of a callback task
  (\<open>guest_task.go\<close>) and a spawned thread; and \<open>reapParkedGoroutines\<close>. What a goroutine does with the baton is a parameter:
  \<open>switch b\<close> is everything between giving it up in \<open>block\<close> and getting it back.
\<close>

subsection \<open>State\<close>

datatype resumeMode = resumeNormal | resumeCancelled | resumeAbort

text \<open>A slot of the table: the marker of a task's implicit thread, or a spawned thread.\<close>

datatype thread_slot = ImplicitThreadMarker ref | SpawnedThread ref

record threadTable =
  slots :: "thread_slot option list"
  free_slots :: "u32 list"

record guestThread =
  th_task :: ref
  th_index :: u32
  th_arg :: u64
  th_spawned :: bool
  th_parked :: bool
  th_cancellable :: bool
  th_cancelWake :: bool
  th_done :: bool
  th_err :: "runtime_error option"

text \<open>The predicates that park a goroutine; the closures of target built-ins have a number.\<close>

datatype ready_pred = AlwaysReady | NeverReady | ReadyWhen callback

record thread_state = endpoint_state +
  segs :: "ref \<Rightarrow> bool"
  gthreads :: "ref \<rightharpoonup> guestThread"
  parkReady :: "ref \<rightharpoonup> ready_pred"
  threads :: threadTable
  activeThread :: "ref option"
  liveThreads :: "ref \<Rightarrow> int"
  implicitThreadIdx :: "ref \<Rightarrow> u32"

datatype taskBlocker = StackfulBlocker ref | SegmentBlocker ref | ThreadBlocker ref

record 's thread_env =
  tbe :: "'s builtin_env"
  ready_eval :: "callback \<Rightarrow> 's \<Rightarrow> bool"
  switch :: "taskBlocker \<Rightarrow> ('s, runtime_error, resumeMode) op"
  call_thread :: "ref \<Rightarrow> ('s, runtime_error, unit) op"
  thread_handoff :: "ref \<Rightarrow> resumeMode \<Rightarrow> ('s, runtime_error, unit) op"
  unwind :: "taskBlocker \<Rightarrow> 's \<Rightarrow> 's"

definition upd_th :: "ref \<Rightarrow> (guestThread \<Rightarrow> guestThread) \<Rightarrow> 'a thread_state_scheme \<Rightarrow> 'a thread_state_scheme" where
  "upd_th th f s = s\<lparr>gthreads := (gthreads s)(th := map_option f (gthreads s th))\<rparr>"

definition set_ready :: "ref \<Rightarrow> ready_pred option \<Rightarrow> 'a thread_state_scheme \<Rightarrow> 'a thread_state_scheme" where
  "set_ready p r s = s\<lparr>parkReady := (parkReady s)(p := r)\<rparr>"

subsection \<open>The table\<close>

definition tt_add :: "thread_slot \<Rightarrow> threadTable \<Rightarrow> u32 \<times> threadTable" where
  "tt_add v tt =
     (let ss = (if slots tt = [] then [None] else slots tt) in
      if free_slots tt \<noteq> [] then
        (let i = last (free_slots tt) in (i, \<lparr>slots = ss[unat i := Some v], free_slots = butlast (free_slots tt)\<rparr>))
      else (word_of_nat (length ss), \<lparr>slots = ss @ [Some v], free_slots = free_slots tt\<rparr>))"

definition tt_remove :: "u32 \<Rightarrow> threadTable \<Rightarrow> threadTable" where
  "tt_remove i tt =
     (if i = 0 \<or> unat i \<ge> length (slots tt) \<or> slots tt ! unat i = None then tt
      else \<lparr>slots = (slots tt)[unat i := None], free_slots = free_slots tt @ [i]\<rparr>)"

definition getThread :: "u32 \<Rightarrow> threadTable \<Rightarrow> ref option" where
  "getThread i tt =
     (if i = 0 \<or> unat i \<ge> length (slots tt) then None
      else case slots tt ! unat i of Some (SpawnedThread th) \<Rightarrow> Some th | _ \<Rightarrow> None)"

subsection \<open>Blocking\<close>

definition task_blocker :: "ref \<Rightarrow> 'a thread_state_scheme \<Rightarrow> taskBlocker option" where
  "task_blocker t s =
     (if body (tasks s t) = StackfulBody then Some (StackfulBlocker t)
      else if body (tasks s t) = CallbackBody \<and> segs s t then Some (SegmentBlocker t) else None)"

definition currentBlocker :: "'a thread_state_scheme \<Rightarrow> taskBlocker option" where
  "currentBlocker s =
     (case activeThread s of
        Some th \<Rightarrow> Some (ThreadBlocker th)
      | None \<Rightarrow> (case activeTask s of Some t \<Rightarrow> task_blocker t s | None \<Rightarrow> None))"

fun blocker_task :: "taskBlocker \<Rightarrow> 'a thread_state_scheme \<Rightarrow> ref" where
  "blocker_task (StackfulBlocker t) s = t"
| "blocker_task (SegmentBlocker t) s = t"
| "blocker_task (ThreadBlocker th) s = (case gthreads s th of Some x \<Rightarrow> th_task x | None \<Rightarrow> 0)"

fun blocker_ref :: "taskBlocker \<Rightarrow> ref" where
  "blocker_ref (StackfulBlocker t) = t"
| "blocker_ref (SegmentBlocker t) = t"
| "blocker_ref (ThreadBlocker th) = th"

text \<open>The three \<open>block\<close> methods up to the point where the baton is given up, and from the point where it is back.\<close>

fun mark_parked :: "taskBlocker \<Rightarrow> bool \<Rightarrow> 'a thread_state_scheme \<Rightarrow> 'a thread_state_scheme" where
  "mark_parked (StackfulBlocker t) cancellable s = upd_st t (\<lambda>x. x\<lparr>st_park := sparkBlock, st_cancellable := cancellable\<rparr>) s"
| "mark_parked (SegmentBlocker t) cancellable s = upd_gt t (\<lambda>x. x\<lparr>gt_park := parkBlocked, gt_cancellable := cancellable\<rparr>) s"
| "mark_parked (ThreadBlocker th) cancellable s =
     (upd_th th (\<lambda>x. x\<lparr>th_parked := True, th_cancellable := cancellable\<rparr>) s)\<lparr>activeThread := None\<rparr>"

definition block_begin :: "taskBlocker \<Rightarrow> ready_pred \<Rightarrow> bool \<Rightarrow> 'a thread_state_scheme \<Rightarrow> 'a thread_state_scheme" where
  "block_begin b r cancellable s = park (blocker_ref b) (suspendRun (set_ready (blocker_ref b) (Some r) (mark_parked b cancellable s)))"

fun mark_running :: "taskBlocker \<Rightarrow> 'a thread_state_scheme \<Rightarrow> 'a thread_state_scheme" where
  "mark_running (StackfulBlocker t) s = upd_st t (\<lambda>x. x\<lparr>st_park := sparkNone, st_cancellable := False\<rparr>) s"
| "mark_running (SegmentBlocker t) s = upd_gt t (\<lambda>x. x\<lparr>gt_park := parkNone, gt_cancellable := False\<rparr>) s"
| "mark_running (ThreadBlocker th) s = (upd_th th (\<lambda>x. x\<lparr>th_cancellable := False\<rparr>) s)\<lparr>activeThread := Some th\<rparr>"

definition block_end :: "taskBlocker \<Rightarrow> 'a thread_state_scheme \<Rightarrow> 'a thread_state_scheme" where
  "block_end b s = enterRun (blocker_task b s) (set_ready (blocker_ref b) None (mark_running b s))"

text \<open>An abort unwinds the frames of the guest with a panic, which becomes an error of the call.\<close>

definition errStackfulAbort :: runtime_error where
  "errStackfulAbort = TablePanic ''stackful task aborted''"

definition block_on :: "'a thread_state_scheme thread_env \<Rightarrow> taskBlocker \<Rightarrow> ready_pred \<Rightarrow> bool \<Rightarrow>
    ('a thread_state_scheme, runtime_error, bool) op" where
  "block_on env b r cancellable s =
     (let (d, s1) = deliverPendingCancel (blocker_task b s) cancellable s in
      if d then (Inr True, s1)
      else case switch env b (block_begin b r cancellable s1) of
          (Inl e, s2) \<Rightarrow> (Inl e, s2)
        | (Inr mode, s2) \<Rightarrow>
            if mode = resumeAbort then (Inl errStackfulAbort, s2) else (Inr (mode = resumeCancelled), block_end b s2))"

subsection \<open>Spawned threads\<close>

definition eval_ready :: "'a thread_state_scheme thread_env \<Rightarrow> ready_pred \<Rightarrow> 'a thread_state_scheme \<Rightarrow> bool" where
  "eval_ready env r s = (case r of AlwaysReady \<Rightarrow> True | NeverReady \<Rightarrow> False | ReadyWhen f \<Rightarrow> ready_eval env f s)"

definition suspendedState :: "ref \<Rightarrow> 'a thread_state_scheme \<Rightarrow> bool" where
  "suspendedState th s \<longleftrightarrow> (case gthreads s th of Some x \<Rightarrow> th_parked x \<and> parkReady s th = None | None \<Rightarrow> False)"

definition th_ready :: "'a thread_state_scheme thread_env \<Rightarrow> ref \<Rightarrow> 'a thread_state_scheme \<Rightarrow> bool" where
  "th_ready env th s \<longleftrightarrow>
     (case (parkReady s th, gthreads s th) of
        (Some r, Some x) \<Rightarrow> th_cancelWake x \<or> th_cancellable x \<and> cancelDeliverable (th_task x) s \<or> eval_ready env r s
      | _ \<Rightarrow> False)"

text \<open>The tail of \<open>run\<close>: the thread leaves the table, and the last one must leave its task resolved.\<close>

definition unregister :: "guestThread \<Rightarrow> 'a thread_state_scheme \<Rightarrow> 'a thread_state_scheme" where
  "unregister x s =
     s\<lparr>threads := tt_remove (th_index x) (threads s), liveThreads := (liveThreads s)(th_task x := liveThreads s (th_task x) - 1)\<rparr>"

definition th_run :: "'a thread_state_scheme thread_env \<Rightarrow> ref \<Rightarrow> guestThread \<Rightarrow> ('a thread_state_scheme, runtime_error, unit) op" where
  "th_run env th x s =
     (case call_thread env th ((enterRun (th_task x) s)\<lparr>activeThread := Some th\<rparr>) of
        (Inl e, s1) \<Rightarrow> (Inl e, (unregister x (leaveRun (s1\<lparr>activeThread := None\<rparr>)))\<lparr>poisoned := True\<rparr>)
      | (Inr _, s1) \<Rightarrow>
          (let s2 = unregister x (leaveRun (s1\<lparr>activeThread := None\<rparr>)) in
           if liveThreads s2 (th_task x) = 0 \<and> task_state (tasks s2 (th_task x)) \<noteq> taskResolved then (Inl ExitUnresolved, s2)
           else (Inr (), s2)))"

definition th_main :: "'a thread_state_scheme thread_env \<Rightarrow> ref \<Rightarrow> guestThread \<Rightarrow> resumeMode \<Rightarrow> ('a thread_state_scheme, runtime_error, unit) op" where
  "th_main env th x mode s =
     (if mode = resumeAbort then (Inr (), upd_th th (\<lambda>x. x\<lparr>th_done := True\<rparr>) s)
      else (case th_run env th x s of
          (Inl e, s1) \<Rightarrow> (Inl e, upd_th th (\<lambda>x. x\<lparr>th_done := True, th_err := Some e\<rparr>) s1)
        | (Inr _, s1) \<Rightarrow> (Inr (), upd_th th (\<lambda>x. x\<lparr>th_done := True\<rparr>) s1)))"

definition th_resumeReady :: "'a thread_state_scheme thread_env \<Rightarrow> ref \<Rightarrow> ('a thread_state_scheme, runtime_error, unit) op" where
  "th_resumeReady env th s =
     (case gthreads s th of
        None \<Rightarrow> (Inl (TablePanic ''nil pointer''), s)
      | Some x \<Rightarrow>
          (let mode = (if th_cancelWake x then resumeCancelled else resumeNormal);
               s1 = upd_th th (\<lambda>x. x\<lparr>th_parked := False, th_cancelWake := False, th_spawned := True\<rparr>) (set_ready th None (unpark th s))
           in if th_spawned x then thread_handoff env th mode s1 else th_main env th x mode s1))"

text \<open>The scheduler finds threads among the parked tasks.\<close>

definition thread_sched :: "'a thread_state_scheme thread_env \<Rightarrow> 'a thread_state_scheme sched_env" where
  "thread_sched env =
     \<lparr>run_fe = thunk_fe (tbe env), run_fv = thunk_fv (tbe env),
      task_ready = (\<lambda>p s. if gthreads s p \<noteq> None then th_ready env p s else parked_ready (task_part (tbe env)) p s),
      task_resume = (\<lambda>p s. if gthreads s p \<noteq> None then th_resumeReady env p s else parked_resume (task_part (tbe env)) p s)\<rparr>"

subsection \<open>The built-ins\<close>

text \<open>\<open>requireActiveTask\<close> and the like are those of the target built-ins; \<open>blockingTask\<close> is here with the carrier it finds.\<close>

definition thread_blockingTask :: "('a thread_state_scheme, runtime_error, ref \<times> taskBlocker option) op" where
  "thread_blockingTask s =
     (case activeTask s of
        None \<Rightarrow> (Inl SyncTaskBlock, s)
      | Some t \<Rightarrow> if syncImplicit (tasks s t) then (Inl SyncTaskBlock, s) else (Inr (t, currentBlocker s), s))"

definition cancelled_value :: "bool \<Rightarrow> u32" where
  "cancelled_value c = (if c then 1 else 0)"

definition threadYield :: "'a thread_state_scheme thread_env \<Rightarrow> bool \<Rightarrow> ('a thread_state_scheme, runtime_error, u32) op" where
  "threadYield env cancellable =
     sbind requireMayLeave (\<lambda>_ s.
       case currentBlocker s of
         Some b \<Rightarrow> sbind (block_on env b AlwaysReady cancellable) (\<lambda>c. sret (cancelled_value c)) s
       | None \<Rightarrow>
           (let pump = sbind (pumpSnapshot (thread_sched env)) (\<lambda>_. sret 0) in
            case activeTask s of
              Some t \<Rightarrow>
                if syncImplicit (tasks s t) then pump s
                else (let (d, s1) = deliverPendingCancel t cancellable s in if d then (Inr 1, s1) else pump s1)
            | None \<Rightarrow> pump s))"

definition threadIndex :: "('a thread_state_scheme, runtime_error, u32) op" where
  "threadIndex =
     sbind requireMayLeave (\<lambda>_ s.
       case activeThread s of
         Some th \<Rightarrow> (case gthreads s th of Some x \<Rightarrow> (Inr (th_index x), s) | None \<Rightarrow> (Inl (TablePanic ''nil pointer''), s))
       | None \<Rightarrow>
           sbind requireActiveTask (\<lambda>t s.
             if implicitThreadIdx s t = 0 then
               (let (i, tt) = tt_add (ImplicitThreadMarker t) (threads s)
                in (Inr i, s\<lparr>threads := tt, implicitThreadIdx := (implicitThreadIdx s)(t := i)\<rparr>))
             else (Inr (implicitThreadIdx s t), s)) s)"

definition threadSuspend :: "'a thread_state_scheme thread_env \<Rightarrow> bool \<Rightarrow> ('a thread_state_scheme, runtime_error, u32) op" where
  "threadSuspend env cancellable =
     sbind requireMayLeave (\<lambda>_.
     sbind thread_blockingTask (\<lambda>(t, blk).
       case blk of
         None \<Rightarrow> sfail (TablePanic ''not supported from an unpromoted callback task'')
       | Some b \<Rightarrow> (\<lambda>s.
           let (d, s1) = deliverPendingCancel t cancellable s in
           if d then (Inr 1, s1) else sbind (block_on env b NeverReady cancellable) (\<lambda>c. sret (cancelled_value c)) s1)))"

text \<open>\<open>thread.new-indirect\<close> is refused when it is bound.\<close>

definition threadNewIndirect :: "runtime_error + unit" where
  "threadNewIndirect = Inl (TablePanic ''not available in the WASI 0.2 runtime'')"

definition threadYieldThenResume :: "'a thread_state_scheme thread_env \<Rightarrow> bool \<Rightarrow> u32 \<Rightarrow> ('a thread_state_scheme, runtime_error, u32) op" where
  "threadYieldThenResume env cancellable i =
     sbind requireMayLeave (\<lambda>_ s.
       case getThread i (threads s) of
         None \<Rightarrow> (Inl (TablePanic ''not a live spawned thread''), s)
       | Some target \<Rightarrow>
           if \<not> suspendedState target s then (Inl (TablePanic ''not suspended''), s)
           else
             sbind thread_blockingTask (\<lambda>(t, blk).
               case blk of
                 None \<Rightarrow> sfail (TablePanic ''not supported from an unpromoted callback task'')
               | Some b \<Rightarrow> (\<lambda>s.
                   let (d, s1) = deliverPendingCancel t cancellable s in
                   if d then (Inr 1, s1)
                   else
                     sbind (th_resumeReady env target) (\<lambda>_.
                     sbind (block_on env b AlwaysReady cancellable) (\<lambda>c. sret (cancelled_value c))) s1)) s)"

subsection \<open>Reaping\<close>

text \<open>A parked task that holds a goroutine; a stackful task counts even before it has one.\<close>

definition pins :: "'a thread_state_scheme \<Rightarrow> ref \<Rightarrow> bool" where
  "pins s p \<longleftrightarrow> gthreads s p \<noteq> None \<or> body (tasks s p) = StackfulBody \<or> (body (tasks s p) = CallbackBody \<and> segs s p)"

definition reap_one :: "'a thread_state_scheme thread_env \<Rightarrow> ref \<Rightarrow> 'a thread_state_scheme \<Rightarrow> 'a thread_state_scheme" where
  "reap_one env p s =
     (let s1 = unpark p s in
      case gthreads s p of
        Some x \<Rightarrow>
          if \<not> th_spawned x then upd_th p (\<lambda>x. x\<lparr>th_done := True\<rparr>) (unregister x s1)
          else unwind env (ThreadBlocker p) s1
      | None \<Rightarrow>
          if body (tasks s p) = StackfulBody then
            (if st_park (stasks s p) = sparkEntry then upd_st p (\<lambda>x. x\<lparr>st_done := True, st_park := sparkNone\<rparr>) s1
             else unwind env (StackfulBlocker p) s1)
          else unwind env (SegmentBlocker p) s1)"

partial_function (option) reapParkedGoroutines ::
    "'a thread_state_scheme thread_env \<Rightarrow> 'a thread_state_scheme \<Rightarrow> 'a thread_state_scheme option" where
  "reapParkedGoroutines env s =
     (case find (pins s) (parked s) of
        None \<Rightarrow> Some s
      | Some p \<Rightarrow> reapParkedGoroutines env (reap_one env p s))"

text \<open>\<open>assertThreadsQuiescent\<close>: whether it does not panic.\<close>

definition parked_goroutine :: "'a thread_state_scheme \<Rightarrow> ref \<Rightarrow> bool" where
  "parked_goroutine s p \<longleftrightarrow>
     (case gthreads s p of
        Some x \<Rightarrow> th_spawned x \<and> \<not> th_done x
      | None \<Rightarrow> (body (tasks s p) = StackfulBody \<and> st_park (stasks s p) \<noteq> sparkEntry \<and> \<not> st_done (stasks s p)) \<or>
               (body (tasks s p) = CallbackBody \<and> segs s p))"

definition assertThreadsQuiescent :: "'a thread_state_scheme \<Rightarrow> bool" where
  "assertThreadsQuiescent s \<longleftrightarrow>
     activeThread s = None \<and> list_all (\<lambda>slot. case slot of Some (SpawnedThread _) \<Rightarrow> False | _ \<Rightarrow> True) (slots (threads s)) \<and>
     list_all (\<lambda>p. \<not> parked_goroutine s p) (parked s)"

end
