(* ===== verification/Async_Lift.thy ===== *)
theory Async_Lift
  imports Thread
begin

text \<open>
  The asynchronous ways into a component: \<open>stackfulTask.run\<close> of \<open>internal/instance/stackful_task.go\<close>, and the entries of
  \<open>async_lift.go\<close>, by which the host calls an export lifted with a callback or as a stackful task and drives the scheduler until it is
  done, and by which another component starts one as a task. The arguments are what \<open>start_args\<close> produces when the task runs; the
  goroutine of a stackful task runs in one piece, in which the core function may block.
\<close>

record 's lift_env =
  le_ep :: "'s endpoint_env"
  le_thread :: "'s thread_env"
  start_args :: "ref \<Rightarrow> ('s, runtime_error, host_value list) op"
  guest_resource :: "u32 \<Rightarrow> bool"
  le_inst :: inst_id

definition le_tasks :: "'s lift_env \<Rightarrow> 's task_env" where
  "le_tasks env = task_part (tbe (le_thread env))"

subsection \<open>Running a stackful task\<close>

definition finishOK :: "'a inst_state_scheme task_env \<Rightarrow> ref \<Rightarrow> ('a inst_state_scheme, runtime_error, unit) op" where
  "finishOK env g s = (Inr (), finish_call env (st_finish (stasks s g)) None s)"

text \<open>After the core function: the shape without a callback must have resolved its task, the other lifts its results, resolves the task
  and calls post-return.\<close>

definition st_results :: "'a thread_state_scheme lift_env \<Rightarrow> 'a thread_state_scheme boundExport \<Rightarrow> ref \<Rightarrow> u64 list \<Rightarrow>
    ('a thread_state_scheme, runtime_error, unit) op" where
  "st_results env b g raw s =
     (let tenv = le_tasks env in
      case liftResult (le_ep env) (le_inst env) b raw s of
        (Inl e, s1) \<Rightarrow> st_fail tenv g e (poison (is_result_trap e) (leaveRun s1))
      | (Inr results, s1) \<Rightarrow>
          (case returnValues tenv g results s1 of
             (Inl e, s2) \<Rightarrow> st_fail tenv g e (leaveRun s2)
           | (Inr _, s2) \<Rightarrow>
               (case postReturn b of
                  None \<Rightarrow> finishOK tenv g (leaveRun s2)
                | Some None \<Rightarrow> st_fail tenv g NoPostReturn (leaveRun s2)
                | Some (Some fn) \<Rightarrow>
                    (case fn raw s2 of
                       (Inl e, s3) \<Rightarrow> st_fail tenv g e (poison True (leaveRun s3))
                     | (Inr _, s3) \<Rightarrow> finishOK tenv g (leaveRun s3)))))"

definition st_returned :: "'a thread_state_scheme lift_env \<Rightarrow> 'a thread_state_scheme boundExport \<Rightarrow> bool \<Rightarrow> ref \<Rightarrow> u64 list \<Rightarrow>
    ('a thread_state_scheme, runtime_error, unit) op" where
  "st_returned env b asyncOpts g raw s =
     (if asyncOpts then
        (let s1 = leaveRun s in
         if task_state (tasks s1 g) \<noteq> taskResolved then st_fail (le_tasks env) g ExitUnresolved s1 else finishOK (le_tasks env) g s1)
      else st_results env b g raw s)"

definition st_run :: "'a thread_state_scheme lift_env \<Rightarrow> 'a thread_state_scheme boundExport \<Rightarrow>
    (u64 list \<Rightarrow> ('a thread_state_scheme, runtime_error, u64 list) op) \<Rightarrow> bool \<Rightarrow> ref \<Rightarrow> ('a thread_state_scheme, runtime_error, unit) op" where
  "st_run env b fn asyncOpts g s =
     (let tenv = le_tasks env in
      case start_args env g (enterRun g s) of
        (Inl e, s1) \<Rightarrow> st_fail tenv g e (leaveRun s1)
      | (Inr args, s1) \<Rightarrow>
          (case lowerParams (le_ep env) (guest_resource env) (le_inst env) b args (upd_task g (\<lambda>x. x\<lparr>task_state := taskStarted\<rparr>) s1) of
             (Inl e, s2) \<Rightarrow> st_fail tenv g e (leaveRun s2)
           | (Inr coreArgs, s2) \<Rightarrow>
               if length coreArgs \<noteq> length (coreParamsWant (be_abi b)) then st_fail tenv g BadCoreArity (leaveRun s2)
               else
                 (case fn (map Bits coreArgs) s2 of
                    (Inl e, s3) \<Rightarrow> st_fail tenv g e (poison True (leaveRun s3))
                  | (Inr rs, s3) \<Rightarrow> st_returned env b asyncOpts g (core_results (coreResultCount b) (map Bits coreArgs) rs) s3)))"

definition st_main :: "'a thread_state_scheme lift_env \<Rightarrow> 'a thread_state_scheme boundExport \<Rightarrow>
    (u64 list \<Rightarrow> ('a thread_state_scheme, runtime_error, u64 list) op) \<Rightarrow> bool \<Rightarrow> ref \<Rightarrow> resumeMode \<Rightarrow>
    ('a thread_state_scheme, runtime_error, unit) op" where
  "st_main env b fn asyncOpts g mode s =
     (if mode = resumeAbort then (Inr (), upd_st g (\<lambda>x. x\<lparr>st_done := True\<rparr>) s)
      else (case st_run env b fn asyncOpts g s of
          (Inl e, s1) \<Rightarrow> (Inl e, upd_st g (\<lambda>x. x\<lparr>st_done := True, st_err := Some e\<rparr>) s1)
        | (Inr _, s1) \<Rightarrow> (Inr (), upd_st g (\<lambda>x. x\<lparr>st_done := True, st_err := None\<rparr>) s1)))"

text \<open>\<open>runSegment\<close>: a promoted callback task runs its guest code on a goroutine of its own, its segment, which lives until the code
  returns.\<close>

definition seg_main :: "ref \<Rightarrow> resumeMode \<Rightarrow> ('a thread_state_scheme, runtime_error, unit) op \<Rightarrow> ('a thread_state_scheme, runtime_error, unit) op" where
  "seg_main g mode fn s =
     (let (r, s1) = (if mode = resumeAbort then (Inr (), s) else fn s) in (r, s1\<lparr>segs := (segs s1)(g := False)\<rparr>))"

definition runSegment :: "ref \<Rightarrow> ('a thread_state_scheme, runtime_error, unit) op \<Rightarrow> ('a thread_state_scheme, runtime_error, unit) op" where
  "runSegment g fn s =
     (if \<not> promoted (gtasks s g) then fn s else seg_main g resumeNormal fn (s\<lparr>segs := (segs s)(g := True)\<rparr>))"

subsection \<open>Entries\<close>

definition new_task :: "task_body \<Rightarrow> callback option \<Rightarrow> bool \<Rightarrow> type_desc option \<Rightarrow> 'a inst_state_scheme \<Rightarrow> ref \<times> 'a inst_state_scheme" where
  "new_task k onres prom rt s =
     (let t = fresh_ref s in
      (t, s\<lparr>fresh_ref := t + 1,
            tasks := (tasks s)(t := \<lparr>task_state = taskInitial, body = k, cancelled = False, ctxStorage = [0, 0], onResolve = onres,
                result = [], syncImplicit = False, async_export = True, export_result = rt, has_export = True\<rparr>),
            numBorrows := (numBorrows s)(t := 0),
            gtasks := (gtasks s)(t := \<lparr>gt_park = parkNone, gt_wset = None, gt_cancellable = False, gt_cancelWake = False, gt_done = False,
                gt_err = None, gt_finish = None, promoted = prom\<rparr>),
            stasks := (stasks s)(t := \<lparr>st_park = sparkNone, st_cancellable = False, st_cancelWake = False, st_done = False,
                st_err = None, st_finish = None\<rparr>)\<rparr>))"

text \<open>An error ends with the parked goroutines reaped.\<close>

definition reaping :: "'a thread_state_scheme lift_env \<Rightarrow> runtime_error \<Rightarrow> ('a thread_state_scheme, 'b) driven" where
  "reaping env e s = map_option (\<lambda>s'. (Inl e, s')) (reapParkedGoroutines (le_thread env) s)"

text \<open>What both entries of the host do once the task is made: start it, drive until it is done, and drain what is ready.\<close>

definition drive_task :: "'a thread_state_scheme lift_env \<Rightarrow> ('a thread_state_scheme, runtime_error, unit) op \<Rightarrow>
    ('a thread_state_scheme \<Rightarrow> bool) \<Rightarrow> ('a thread_state_scheme \<Rightarrow> runtime_error option) \<Rightarrow> ref \<Rightarrow>
    ('a thread_state_scheme, val list) driven" where
  "drive_task env start isDone err t s =
     (case start s of
        (Inl e, s1) \<Rightarrow> reaping env e s1
      | (Inr _, s1) \<Rightarrow>
          (case drive (thread_sched (le_thread env)) isDone s1 of
             None \<Rightarrow> None
           | Some (Inl e, s2) \<Rightarrow> reaping env e s2
           | Some (Inr _, s2) \<Rightarrow>
               (case err s2 of
                  Some e \<Rightarrow> reaping env e s2
                | None \<Rightarrow>
                    (case drainReady (thread_sched (le_thread env)) s2 of
                       None \<Rightarrow> None
                     | Some (Inl e, s3) \<Rightarrow> reaping env e s3
                     | Some (Inr _, s3) \<Rightarrow> Some (Inr (result (tasks s3 t)), s3)))))"

definition invokeAsyncCallback :: "'a thread_state_scheme lift_env \<Rightarrow> 'a thread_state_scheme boundExport \<Rightarrow> bool \<Rightarrow> nat \<Rightarrow>
    ('a thread_state_scheme, val list) driven" where
  "invokeAsyncCallback env b callbackFound nargs s =
     (if nargs \<noteq> be_params b then Some (Inl (WrongArgCount nargs (be_params b)), s)
      else if coreFn b = None \<or> \<not> callbackFound then Some (Inl NoCoreFunction, s)
      else case flattenErr (be_abi b) of
          Some e \<Rightarrow> Some (Inl e, s)
        | None \<Rightarrow>
            if coreResultCount b < 1 then Some (Inl (WrongCoreResults (coreResultCount b) 1), s)
            else if poisoned s \<or> \<not> mayEnter s then Some (Inl CannotEnter, s)
            else (let (t, s1) = new_task CallbackBody None False (resultType (be_abi b)) s in
              drive_task env (gt_start (le_tasks env) t) (\<lambda>s. gt_done (gtasks s t)) (\<lambda>s. gt_err (gtasks s t)) t s1))"

definition invokeStackful :: "'a thread_state_scheme lift_env \<Rightarrow> 'a thread_state_scheme boundExport \<Rightarrow> nat \<Rightarrow>
    ('a thread_state_scheme, val list) driven" where
  "invokeStackful env b nargs s =
     (if nargs \<noteq> be_params b then Some (Inl (WrongArgCount nargs (be_params b)), s)
      else if coreFn b = None then Some (Inl NoCoreFunction, s)
      else case flattenErr (be_abi b) of
          Some e \<Rightarrow> Some (Inl e, s)
        | None \<Rightarrow>
            if poisoned s \<or> \<not> mayEnter s then Some (Inl CannotEnter, s)
            else (let (t, s1) = new_task StackfulBody None False (resultType (be_abi b)) s in
              drive_task env (startTask (le_tasks env) t) (\<lambda>s. st_done (stasks s t)) (\<lambda>s. st_err (stasks s t)) t s1))"

definition startStackfulExportTask :: "'a inst_state_scheme task_env \<Rightarrow> 'a inst_state_scheme boundExport \<Rightarrow> callback \<Rightarrow>
    ('a inst_state_scheme, runtime_error, ref) op" where
  "startStackfulExportTask env b cb s =
     (if poisoned s \<or> \<not> mayEnter s then (Inl CannotEnter, s)
      else (let (t, s1) = new_task StackfulBody (Some cb) False (resultType (be_abi b)) s in
        sbind (startTask env t) (\<lambda>_. sret t) s1))"

definition startAsyncExportTask :: "'a inst_state_scheme task_env \<Rightarrow> 'a inst_state_scheme boundExport \<Rightarrow> bool \<Rightarrow> callback \<Rightarrow>
    ('a inst_state_scheme, runtime_error, ref) op" where
  "startAsyncExportTask env b mayBlockSync cb s =
     (if stackful b then startStackfulExportTask env b cb s
      else if poisoned s \<or> \<not> mayEnter s then (Inl CannotEnter, s)
      else (let (t, s1) = new_task CallbackBody (Some cb) mayBlockSync (resultType (be_abi b)) s in
        sbind (gt_start env t) (\<lambda>_. sret t) s1))"

end
