(* ===== verification/Thread_Correct.thy ===== *)
theory Thread_Correct
  imports Thread Stream_Safety
begin

text \<open>
  What the table of threads, blocking and reaping guarantee: a slot belongs to one thread at a time, a carrier that blocks gives the
  instance back and gets it again, and reaping ends with no goroutine left.
\<close>

subsection \<open>The table\<close>

definition threads_ok :: "threadTable \<Rightarrow> bool" where
  "threads_ok tt \<longleftrightarrow>
     (slots tt = [] \<and> free_slots tt = []) \<or>
     (slots tt \<noteq> [] \<and> slots tt ! 0 = None \<and> length (slots tt) \<le> 2 ^ 32 \<and> distinct (free_slots tt) \<and>
      set (free_slots tt) = {i. i \<noteq> 0 \<and> unat i < length (slots tt) \<and> slots tt ! unat i = None})"

definition slot_at :: "u32 \<Rightarrow> threadTable \<Rightarrow> thread_slot option" where
  "slot_at i tt = (if unat i < length (slots tt) then slots tt ! unat i else None)"

lemma slot_at_unat: "slot_at i tt = Some v \<longleftrightarrow> unat i < length (slots tt) \<and> slots tt ! unat i = Some v"
  by (simp add: slot_at_def)

lemma unat_of_small: "n < 2 ^ 32 \<Longrightarrow> unat (word_of_nat n :: u32) = n"
  by (simp add: unsigned_of_nat take_bit_nat_eq_self)

lemma unat_eq: "unat j = unat i \<longleftrightarrow> j = i" for i j :: u32
  by (metis unsigned_word_eqI)

lemma threads_okI:
  "ss \<noteq> [] \<Longrightarrow> ss ! 0 = None \<Longrightarrow> length ss \<le> 2 ^ 32 \<Longrightarrow> distinct fs \<Longrightarrow>
    (\<And>i. i \<in> set fs \<longleftrightarrow> i \<noteq> 0 \<and> unat i < length ss \<and> ss ! unat i = None) \<Longrightarrow> threads_ok \<lparr>slots = ss, free_slots = fs\<rparr>"
  by (simp add: threads_ok_def set_eq_iff)

lemma butlast_last: "distinct xs \<Longrightarrow> xs \<noteq> [] \<Longrightarrow> set (butlast xs) = set xs - {last xs}"
  by (induction xs rule: rev_induct) auto

lemma add_from_free:
  assumes ok: "threads_ok tt" and free: "free_slots tt \<noteq> []" and add: "tt_add v tt = (i, tt')"
  shows "threads_ok tt' \<and> i \<noteq> 0 \<and> slot_at i tt = None \<and> slot_at i tt' = Some v \<and> (\<forall>j. j \<noteq> i \<longrightarrow> slot_at j tt' = slot_at j tt)"
proof -
  have slots: "slots tt \<noteq> []" and z: "slots tt ! 0 = None" and len: "length (slots tt) \<le> 2 ^ 32" and dist: "distinct (free_slots tt)"
    and set: "set (free_slots tt) = {i. i \<noteq> 0 \<and> unat i < length (slots tt) \<and> slots tt ! unat i = None}"
    using ok free by (auto simp: threads_ok_def)
  have i: "i = last (free_slots tt)" and tt': "tt' = \<lparr>slots = (slots tt)[unat i := Some v], free_slots = butlast (free_slots tt)\<rparr>"
    using add free slots by (auto simp: tt_add_def Let_def)
  have "i \<in> set (free_slots tt)" using free i by simp
  then have i': "i \<noteq> 0" "unat i < length (slots tt)" "slots tt ! unat i = None" using set by auto
  then have i0: "unat i \<noteq> 0" by (simp add: unat_eq_zero)
  note eq = unat_eq
  have "threads_ok tt'" unfolding tt'
  proof (rule threads_okI)
    fix j :: u32
    have "j \<in> set (butlast (free_slots tt)) \<longleftrightarrow> j \<in> set (free_slots tt) \<and> j \<noteq> i" using butlast_last [OF dist free] i by simp
    then show "j \<in> set (butlast (free_slots tt)) \<longleftrightarrow>
        j \<noteq> 0 \<and> unat j < length ((slots tt)[unat i := Some v]) \<and> (slots tt)[unat i := Some v] ! unat j = None"
      using set i' by (simp add: nth_list_update eq)
  qed (use slots z len dist i0 in \<open>simp_all add: distinct_butlast\<close>)
  moreover have "slot_at j tt' = slot_at j tt" if "j \<noteq> i" for j
    using that eq [of j i] by (auto simp: slot_at_def tt')
  ultimately show ?thesis using i' by (simp add: slot_at_def tt')
qed

lemma add_at_end:
  assumes ok: "threads_ok tt" and free: "free_slots tt = []" and room: "length (slots tt) < 2 ^ 32" and add: "tt_add v tt = (i, tt')"
  shows "threads_ok tt' \<and> i \<noteq> 0 \<and> slot_at i tt = None \<and> slot_at i tt' = Some v \<and> (\<forall>j. j \<noteq> i \<longrightarrow> slot_at j tt' = slot_at j tt)"
proof -
  define ss where "ss = (if slots tt = [] then [None] else slots tt)"
  have i: "i = word_of_nat (length ss)" and tt': "tt' = \<lparr>slots = ss @ [Some v], free_slots = []\<rparr>"
    using add free by (auto simp: tt_add_def Let_def ss_def)
  have ss: "ss \<noteq> []" "length ss < 2 ^ 32" "ss ! 0 = None" using ok room by (auto simp: ss_def threads_ok_def)
  have ui: "unat i = length ss" using unat_of_small [OF ss(2)] i by simp
  have all: "j \<noteq> 0 \<Longrightarrow> unat j < length ss \<Longrightarrow> ss ! unat j \<noteq> None" for j :: u32
    using ok free unfolding threads_ok_def ss_def by (auto simp: unat_eq_zero split: if_splits)
  note eq = unat_eq
  have "threads_ok tt'" unfolding tt'
  proof (rule threads_okI)
    fix j :: u32
    have "(ss @ [Some v]) ! unat j \<noteq> None" if "j \<noteq> 0" "unat j < length (ss @ [Some v])"
      using all [OF that(1)] that(2) by (cases "unat j < length ss") (simp_all add: nth_append)
    then show "j \<in> set [] \<longleftrightarrow> j \<noteq> 0 \<and> unat j < length (ss @ [Some v]) \<and> (ss @ [Some v]) ! unat j = None" by auto
  qed (use ss in \<open>simp_all add: nth_append\<close>)
  moreover have "slot_at j tt' = slot_at j tt" if "j \<noteq> i" for j
    
  proof -
    have "unat j \<noteq> length ss" using that eq [of j i] ui by simp
    then show ?thesis by (cases "slots tt = []") (auto simp: slot_at_def tt' ss_def nth_append nth_Cons' split: if_splits)
  qed
  moreover have "i \<noteq> 0" using ui ss(1) by auto
  moreover have "slot_at i tt = None" using ui by (auto simp: slot_at_def ss_def split: if_splits)
  ultimately show ?thesis using ui by (simp add: slot_at_def tt')
qed

lemma remove_ok:
  assumes ok: "threads_ok tt"
  shows "threads_ok (tt_remove i tt) \<and> slot_at i (tt_remove i tt) = None \<and> (\<forall>j. j \<noteq> i \<longrightarrow> slot_at j (tt_remove i tt) = slot_at j tt)"
proof (cases "i = 0 \<or> unat i \<ge> length (slots tt) \<or> slots tt ! unat i = None")
  case True
  then have "tt_remove i tt = tt" unfolding tt_remove_def by (rule if_P)
  moreover have "slot_at i tt = None"
  proof (cases "i = 0")
    case 0: True
    show ?thesis using ok by (cases "slots tt = []") (simp_all add: slot_at_def 0 threads_ok_def)
  qed (use True in \<open>auto simp: slot_at_def\<close>)
  ultimately show ?thesis using ok by simp
next
  case False
  then have tt': "tt_remove i tt = \<lparr>slots = (slots tt)[unat i := None], free_slots = free_slots tt @ [i]\<rparr>"
    unfolding tt_remove_def by (rule if_not_P)
  have i0: "unat i \<noteq> 0" using False by (simp add: unat_eq_zero)
  note eq = unat_eq
  have "slots tt \<noteq> []" using False by auto
  then have ss: "slots tt \<noteq> []" "slots tt ! 0 = None" "length (slots tt) \<le> 2 ^ 32" "distinct (free_slots tt)"
    and set: "set (free_slots tt) = {i. i \<noteq> 0 \<and> unat i < length (slots tt) \<and> slots tt ! unat i = None}"
    using ok by (simp_all add: threads_ok_def)
  have "threads_ok (tt_remove i tt)" unfolding tt'
  proof (rule threads_okI)
    fix j :: u32
    show "j \<in> set (free_slots tt @ [i]) \<longleftrightarrow>
        j \<noteq> 0 \<and> unat j < length ((slots tt)[unat i := None]) \<and> (slots tt)[unat i := None] ! unat j = None"
    proof (cases "j = i")
      case False
      then have "unat i \<noteq> unat j" by (simp add: eq)
      then show ?thesis using set False by simp
    qed (use False in simp)
  qed (use ss set False i0 in \<open>simp_all add: nth_list_update\<close>)
  moreover have "slot_at j (tt_remove i tt) = slot_at j tt" if "j \<noteq> i" for j
    using that eq [of i j] by (simp add: slot_at_def tt')
  ultimately show ?thesis using False by (simp add: slot_at_def tt')
qed

text \<open>The table of threads never hands out an index that is in use, nor index 0: adding gives a free index and removing frees it,
  neither touches another slot, and both keep the free list to be exactly the free slots, until \<open>2 ^ 32\<close> slots are in use.\<close>

theorem thread_table_invariant:
  assumes "threads_ok tt" and "length (slots tt) < 2 ^ 32"
  shows "(case tt_add v tt of (i, tt') \<Rightarrow>
      threads_ok tt' \<and> i \<noteq> 0 \<and> slot_at i tt = None \<and> slot_at i tt' = Some v \<and> (\<forall>j. j \<noteq> i \<longrightarrow> slot_at j tt' = slot_at j tt)) \<and>
    threads_ok (tt_remove k tt) \<and> slot_at k (tt_remove k tt) = None \<and> (\<forall>j. j \<noteq> k \<longrightarrow> slot_at j (tt_remove k tt) = slot_at j tt)"
proof
  obtain i tt' where *: "tt_add v tt = (i, tt')" by fastforce
  show "case tt_add v tt of (i, tt') \<Rightarrow>
      threads_ok tt' \<and> i \<noteq> 0 \<and> slot_at i tt = None \<and> slot_at i tt' = Some v \<and> (\<forall>j. j \<noteq> i \<longrightarrow> slot_at j tt' = slot_at j tt)"
    using add_from_free [OF assms(1) _ *] add_at_end [OF assms(1) _ assms(2) *] * by (cases "free_slots tt = []") simp_all
qed (rule remove_ok [OF assms(1)])

definition two_threads :: threadTable where
  "two_threads = \<lparr>slots = [None, None, Some (ImplicitThreadMarker 7)], free_slots = [1]\<rparr>"

lemma thread_table_invariant_witness:
  "threads_ok (snd (tt_add (SpawnedThread 9) two_threads)) \<and> fst (tt_add (SpawnedThread 9) two_threads) = 1"
proof
  have "threads_ok two_threads"
    by (auto simp: threads_ok_def two_threads_def nth_Cons' unat_eq_zero split: if_splits) (metis One_nat_def le_Suc_eq le_zero_eq unat_eq unsigned_1 unsigned_0)
  from thread_table_invariant [OF this, of "SpawnedThread 9" 2]
  show "threads_ok (snd (tt_add (SpawnedThread 9) two_threads))" by (simp add: two_threads_def split: prod.splits)
qed (simp add: tt_add_def two_threads_def)

subsection \<open>Blocking\<close>

text \<open>What the rest of the program leaves alone while a carrier of guest frames is parked: the carrier itself, and that no spawned
  thread counts as running when the baton comes back.\<close>

definition switch_keeps :: "'a thread_state_scheme thread_env \<Rightarrow> bool" where
  "switch_keeps env \<longleftrightarrow> (\<forall>b s m s'. switch env b s = (Inr m, s') \<longrightarrow>
     (activeThread s = None \<longrightarrow> activeThread s' = None) \<and> blocker_task b s' = blocker_task b s \<and>
     body (tasks s' (blocker_ref b)) = body (tasks s (blocker_ref b)) \<and> (segs s (blocker_ref b) \<longrightarrow> segs s' (blocker_ref b)))"

lemma deliverPendingCancel_not: "\<not> (c \<and> cancelDeliverable t s) \<Longrightarrow> deliverPendingCancel t c s = (False, s)"
  by (auto simp: deliverPendingCancel_def cancelDeliverable_def)

lemma begin_simps [simp]:
  "mayEnter (block_begin b r c s)" "activeTask (block_begin b r c s) = syncBase s"
  "exclusiveHeld (block_begin b r c s) = exclusiveHeld s" "exclusiveOwner (block_begin b r c s) = exclusiveOwner s"
  "isParked (blocker_ref b) (block_begin b r c s)" "parkReady (block_begin b r c s) (blocker_ref b) = Some r"
  "tasks (block_begin b r c s) = tasks s" "segs (block_begin b r c s) = segs s"
  by (cases b; simp add: block_begin_def park_def suspendRun_def set_ready_def isParked_def upd_st_def upd_gt_def upd_th_def)+

lemma begin_thread: "activeThread (block_begin b r c s) = (case b of ThreadBlocker _ \<Rightarrow> None | _ \<Rightarrow> activeThread s)"
  by (cases b) (simp_all add: block_begin_def park_def suspendRun_def set_ready_def upd_st_def upd_gt_def upd_th_def)

lemma begin_task [simp]: "blocker_task b (block_begin b r c s) = blocker_task b s"
  by (cases b) (auto simp: block_begin_def park_def suspendRun_def set_ready_def upd_th_def split: option.splits)

lemma end_simps [simp]:
  "mayEnter (block_end b s) = False" "activeTask (block_end b s) = Some (blocker_task b s)"
  "exclusiveHeld (block_end b s)" "exclusiveOwner (block_end b s) = Some (blocker_task b s)"
  "parkReady (block_end b s) (blocker_ref b) = None" "segs (block_end b s) = segs s" "body (tasks (block_end b s) t) = body (tasks s t)"
  by (cases b; auto simp: block_end_def enterRun_def set_ready_def upd_st_def upd_gt_def upd_th_def)+

lemma end_thread: "activeThread (block_end b s) = (case b of ThreadBlocker th \<Rightarrow> Some th | _ \<Rightarrow> activeThread s)"
  by (cases b) (simp_all add: block_end_def enterRun_def set_ready_def upd_st_def upd_gt_def upd_th_def)

text \<open>C32. What blocks is what goes on. A carrier of guest frames that blocks leaves the instance enterable and itself parked, with the
  exclusive lock still held; when \<open>block\<close> returns to it, it is the current blocker of the active task again, the instance is closed
  to others, and the value says whether it was woken to be cancelled, whatever ran in between.\<close>

theorem blocking_resumes_carrier:
  assumes keeps: "switch_keeps env"
    and cur: "currentBlocker s = Some b" and active: "activeTask s = Some (blocker_task b s)"
    and pending: "\<not> (c \<and> cancelDeliverable (blocker_task b s) s)"
    and run: "block_on env b r c s = (Inr w, s')"
  shows "\<exists>mode s1 s2. switch env b s1 = (Inr mode, s2) \<and> w = (mode = resumeCancelled) \<and>
      isParked (blocker_ref b) s1 \<and> mayEnter s1 \<and> exclusiveOwner s1 = exclusiveOwner s \<and>
      currentBlocker s' = Some b \<and> activeTask s' = activeTask s \<and> \<not> mayEnter s' \<and> exclusiveOwner s' = activeTask s \<and>
      parkReady s' (blocker_ref b) = None"
proof -
  let ?s1 = "block_begin b r c s"
  obtain mode s2 where sw: "switch env b ?s1 = (Inr mode, s2)" and w: "w = (mode = resumeCancelled)" and s': "s' = block_end b s2"
    using run by (auto simp: block_on_def deliverPendingCancel_not [OF pending] split: prod.splits sum.splits if_splits)
  have task: "blocker_task b s2 = blocker_task b s" and none: "activeThread ?s1 = None \<Longrightarrow> activeThread s2 = None"
    and seg: "segs s (blocker_ref b) \<Longrightarrow> segs s2 (blocker_ref b)"
    and body: "body (tasks s2 (blocker_ref b)) = body (tasks s (blocker_ref b))"
    using keeps [unfolded switch_keeps_def, rule_format, OF sw] by simp_all
  have "currentBlocker s' = Some b"
    using cur none seg body task
    by (cases b) (auto simp: currentBlocker_def s' end_thread begin_thread task_blocker_def split: option.splits if_splits)
  then show ?thesis
    using sw w task active by (intro exI [of _ mode] exI [of _ ?s1] exI [of _ s2]) (simp add: s')
qed

text \<open>A thread that suspends itself waits with a predicate that never holds, and is therefore not in the state from which
  \<open>thread.yield-then-resume\<close> could resume it: only a cancellation wakes it.\<close>

lemma suspended_is_not_suspended:
  assumes "gthreads s th = Some x"
  shows "\<not> suspendedState th (block_begin (ThreadBlocker th) NeverReady c s)"
    "\<not> c \<Longrightarrow> \<not> th_cancelWake x \<Longrightarrow> \<not> th_ready env th (block_begin (ThreadBlocker th) NeverReady c s)"
  using assms
  by (auto simp: suspendedState_def th_ready_def block_begin_def park_def suspendRun_def set_ready_def upd_th_def eval_ready_def)

subsection \<open>Reaping\<close>

text \<open>Unwinding the frames of a goroutine parks nothing.\<close>

definition unwinds :: "'a thread_state_scheme thread_env \<Rightarrow> bool" where
  "unwinds env \<longleftrightarrow> (\<forall>b s. set (parked (unwind env b s)) \<subseteq> set (parked s) \<and> length (parked (unwind env b s)) \<le> length (parked s))"

lemma reap_one_less:
  assumes "unwinds env" "p \<in> set (parked s)"
  shows "length (parked (reap_one env p s)) < length (parked s)" "set (parked (reap_one env p s)) \<subseteq> set (parked s)"
proof -
  have len: "length (parked (unpark p s)) < length (parked s)" and sub: "set (parked (unpark p s)) \<subseteq> set (parked s)"
    using assms(2) by (auto simp: unpark_def length_remove1 dest: length_pos_if_in_set set_remove1_subset [THEN subsetD])
  have un: "length (parked (unwind env b (unpark p s))) < length (parked s)" "set (parked (unwind env b (unpark p s))) \<subseteq> set (parked s)" for b
    using assms(1) len sub unfolding unwinds_def by (meson order.strict_trans1 order.trans)+
  show "length (parked (reap_one env p s)) < length (parked s)" "set (parked (reap_one env p s)) \<subseteq> set (parked s)"
    using len sub un by (auto simp: reap_one_def Let_def upd_th_def unregister_def upd_st_def split: option.splits)
qed

text \<open>C33. Reaping returns, and then no goroutine is parked: what stays parked was parked before and holds no frames of the guest.\<close>

theorem reaping_leaves_no_goroutine:
  assumes "unwinds env"
  shows "\<exists>s'. reapParkedGoroutines env s = Some s' \<and> set (parked s') \<subseteq> set (parked s) \<and>
    (\<forall>p \<in> set (parked s'). \<not> pins s' p \<and> \<not> parked_goroutine s' p)"
proof (induction "length (parked s)" arbitrary: s rule: less_induct)
  case less
  show ?case
  proof (cases "find (pins s) (parked s)")
    case None
    then have "\<forall>p \<in> set (parked s). \<not> pins s p" by (auto simp: find_None_iff)
    then show ?thesis using None
      by (subst reapParkedGoroutines.simps) (auto simp: parked_goroutine_def pins_def split: option.splits)
  next
    case (Some p)
    then have "p \<in> set (parked s)" by (auto simp: find_Some_iff)
    from less [OF reap_one_less(1) [OF assms this]] reap_one_less(2) [OF assms this]
    show ?thesis by (subst reapParkedGoroutines.simps) (simp add: Some, blast)
  qed
qed

text \<open>A stackful task that is reaped while it waits to enter is still counted as waiting.\<close>

lemma reaped_entry_still_waits:
  assumes "gthreads s p = None" "body (tasks s p) = StackfulBody" "st_park (stasks s p) = sparkEntry" "numWaitingToEnter s > 0"
  shows "numWaitingToEnter (reap_one env p s) = numWaitingToEnter s" "\<not> fst (tryEnter t (reap_one env p s))"
  using assms by (simp_all add: reap_one_def upd_st_def unpark_def tryEnter_def)

subsection \<open>An instance with stackful tasks\<close>

definition thread_example :: thread_state where
  "thread_example = endpoint_state.extend
     (endpoint_example\<lparr>tasks := \<lambda>t. example_task\<lparr>body := if t = 9 then CallbackBody else StackfulBody\<rparr>, activeTask := Some 7, mayEnter := False,
        exclusiveHeld := True, exclusiveOwner := Some 7, parked := [8, 9]\<rparr>)
     (thread_state.fields (\<lambda>_. False) Map.empty Map.empty \<lparr>slots = [], free_slots = []\<rparr> None (\<lambda>_. 0) (\<lambda>_. 0))"

definition quiet_tasks :: "thread_state task_env" where
  "quiet_tasks = \<lparr>on_resolve = \<lambda>_ _ _ s. s, on_finish = \<lambda>_ _ s. s, on_start = \<lambda>_. sret [], lower_params = \<lambda>_ _. sret [], params_want = \<lambda>_. 0,
     call_core = \<lambda>_ _. sret 0, call_callback = \<lambda>_ _. sret 0, event_eval = \<lambda>_ s. (Inr cancelled_event, s), run_segment = \<lambda>_ _. sret (),
     spawn = \<lambda>_. sret (), handoff = \<lambda>_ _. sret (), block_ready = \<lambda>_ _. True\<rparr>"

text \<open>Somebody enters the instance and leaves it while the carrier is parked.\<close>

definition switching :: "thread_state thread_env" where
  "switching = \<lparr>tbe = \<lparr>task_part = quiet_tasks, thunk_fe = \<lambda>_. sret (), thunk_fv = \<lambda>_ s. s, cancel_hook = \<lambda>_. sret (), has_blocker = \<lambda>_. True,
       block = \<lambda>_ _. sret False, guest_realloc = None\<rparr>,
     ready_eval = \<lambda>_ _. True, switch = \<lambda>b s. (Inr resumeNormal, leaveRun (enterRun 3 (unpark (blocker_ref b) s))),
     call_thread = \<lambda>_. sret (), thread_handoff = \<lambda>_ _. sret (), unwind = \<lambda>_ s. s\<rparr>"

lemma switching_keeps: "switch_keeps switching" "unwinds switching"
proof -
  have "blocker_task b (leaveRun (enterRun t (unpark p s))) = blocker_task b (s :: thread_state)" for b t p s
    by (cases b) (auto simp: leaveRun_def enterRun_def unpark_def split: option.splits)
  then show "switch_keeps switching"
    by (auto simp: switch_keeps_def switching_def leaveRun_def enterRun_def unpark_def)
qed (simp add: unwinds_def switching_def)

lemma thread_example_simps [simp]:
  "activeThread thread_example = None" "activeTask thread_example = Some 7" "parked thread_example = [8, 9]"
  "tasks thread_example t = example_task\<lparr>body := if t = 9 then CallbackBody else StackfulBody\<rparr>"
  "gthreads thread_example p = None" "segs thread_example p = False"
  by (simp_all add: thread_example_def endpoint_state.extend_def thread_state.defs)

lemma blocking_resumes_carrier_witness:
  "case block_on switching (StackfulBlocker 7) AlwaysReady True thread_example of
     (Inr w, s) \<Rightarrow> \<not> w \<and> currentBlocker s = Some (StackfulBlocker 7) \<and> \<not> mayEnter s \<and> exclusiveOwner s = Some 7
   | _ \<Rightarrow> False"
proof -
  have cur: "currentBlocker thread_example = Some (StackfulBlocker 7)" by (simp add: currentBlocker_def task_blocker_def)
  have active: "activeTask thread_example = Some (blocker_task (StackfulBlocker 7) thread_example)" by simp
  have pending: "\<not> (True \<and> cancelDeliverable (blocker_task (StackfulBlocker 7) thread_example) thread_example)"
    by (simp add: cancelDeliverable_def example_task_def)
  obtain s' where run: "block_on switching (StackfulBlocker 7) AlwaysReady True thread_example = (Inr False, s')"
    using pending by (simp add: block_on_def deliverPendingCancel_not switching_def)
  from blocking_resumes_carrier [OF switching_keeps(1) cur active pending run] show ?thesis by (auto simp: run)
qed

lemma reaping_leaves_no_goroutine_witness:
  "pins thread_example 8 \<and> (\<exists>s'. reapParkedGoroutines switching thread_example = Some s' \<and> list_all (\<lambda>p. \<not> pins s' p) (parked s'))"
  using reaping_leaves_no_goroutine [OF switching_keeps(2), of thread_example] by (auto simp: pins_def list_all_iff)

end
