(* ===== verification/Async_Lift_Correct.thy ===== *)
theory Async_Lift_Correct
  imports Async_Lift Thread_Correct
begin

text \<open>What the asynchronous entries guarantee: a stackful task leaves the instance however it ends, and ends well only when its task
  is resolved.\<close>

subsection \<open>Leaving\<close>

definition left :: "'a inst_state_scheme \<Rightarrow> bool" where
  "left s \<longleftrightarrow> mayEnter s \<and> \<not> exclusiveHeld s \<and> exclusiveOwner s = None \<and> activeTask s = syncBase s"

text \<open>What waits for the task is told of its end, and neither enters the instance nor changes the task before it returns.\<close>

definition finish_keeps :: "'a inst_state_scheme task_env \<Rightarrow> bool" where
  "finish_keeps env \<longleftrightarrow> (\<forall>f e s g. (left s \<longrightarrow> left (on_finish env f e s)) \<and> task_state (tasks (on_finish env f e s) g) = task_state (tasks s g) \<and>
     st_err (stasks (on_finish env f e s) g) = st_err (stasks s g) \<and> poisoned (on_finish env f e s) = poisoned s)"

text \<open>A task that is resolved stays resolved while post-return runs.\<close>

definition stays_resolved :: "'a inst_state_scheme boundExport \<Rightarrow> ref \<Rightarrow> bool" where
  "stays_resolved b g \<longleftrightarrow> (\<forall>fn raw s r s'. postReturn b = Some (Some fn) \<longrightarrow> task_state (tasks s g) = taskResolved \<longrightarrow>
     fn raw s = (Inr r, s') \<longrightarrow> task_state (tasks s' g) = taskResolved)"

lemma left_leaveRun [simp]: "left (leaveRun s)" "left (poison c (leaveRun s))"
  by (simp_all add: left_def leaveRun_def poison_def)

lemma leaveRun_tasks [simp]: "tasks (leaveRun s) = tasks s" "stasks (leaveRun s) = stasks s" "poisoned (leaveRun s) = poisoned s"
  "tasks (poison c s) = tasks s"
  by (simp_all add: leaveRun_def poison_def)

lemma left_upd_st [simp]: "left (upd_st g f s) = left s"
  by (simp add: left_def upd_st_def)

lemma finish_call_facts:
  assumes "finish_keeps env"
  shows "left s \<Longrightarrow> left (finish_call env f e s)" "task_state (tasks (finish_call env f e s) g) = task_state (tasks s g)"
    "st_err (stasks (finish_call env f e s) g) = st_err (stasks s g)" "poisoned (finish_call env f e s) = poisoned s"
  using assms by (simp_all add: finish_call_def finish_keeps_def split: option.splits)

text \<open>The two ends of a run.\<close>

definition ended :: "ref \<Rightarrow> (runtime_error + unit) \<times> 'a inst_state_scheme \<Rightarrow> bool" where
  "ended g rs \<longleftrightarrow> left (snd rs) \<and>
     (case fst rs of Inr _ \<Rightarrow> task_state (tasks (snd rs) g) = taskResolved | Inl e \<Rightarrow> st_err (stasks (snd rs) g) = Some e)"

lemma ended_fail: "finish_keeps env \<Longrightarrow> left s \<Longrightarrow> ended g (st_fail env g e s)"
  by (simp add: ended_def st_fail_def finish_call_facts) (simp add: upd_st_def)

lemma ended_ok: "finish_keeps env \<Longrightarrow> left s \<Longrightarrow> task_state (tasks s g) = taskResolved \<Longrightarrow> ended g (finishOK env g s)"
  by (simp add: ended_def finishOK_def finish_call_facts)

lemma returnValues_resolves: "returnValues env g vals s = (Inr u, s') \<Longrightarrow> task_state (tasks s' g) = taskResolved"
  by (auto simp: returnValues_def upd_task_def Let_def split: if_splits)

text \<open>C31. However a stackful task ends, it has left the instance: others may enter it, nobody holds the exclusive lock, and the active
  task is the one below. It ends without an error only when its task is resolved, and its error is recorded.\<close>

theorem stackful_task_leaves:
  assumes "finish_keeps (le_tasks env)" "stays_resolved b g" and run: "st_run env b fn asyncOpts g s = (r, s')"
  shows "left s' \<and> (case r of Inr _ \<Rightarrow> task_state (tasks s' g) = taskResolved | Inl e \<Rightarrow> st_err (stasks s' g) = Some e)"
proof -
  note fail = ended_fail [OF assms(1)] and fine = ended_ok [OF assms(1)]
  have results: "ended g (st_results env b g raw s)" for raw s
  proof (cases "liftResult (le_ep env) (le_inst env) b raw s")
    case (Pair r1 s1)
    show ?thesis
    proof (cases r1)
      case (Inr vals)
      obtain r2 s2 where ret: "returnValues (le_tasks env) g vals s1 = (r2, s2)" by fastforce
      show ?thesis
      proof (cases r2)
        case (Inr u)
        have res: "task_state (tasks s2 g) = taskResolved" using returnValues_resolves ret Inr by blast
        then show ?thesis
          using assms(2) Pair \<open>r1 = Inr vals\<close> ret Inr
          by (auto simp: st_results_def Let_def stays_resolved_def intro!: fail fine split: option.splits prod.splits sum.splits)
      qed (simp add: st_results_def Let_def Pair Inr ret fail)
    qed (simp add: st_results_def Let_def Pair fail)
  qed
  have "ended g (st_returned env b asyncOpts g raw s)" for raw s
    using results by (simp add: st_returned_def Let_def fail fine)
  then have "ended g (st_run env b fn asyncOpts g s)"
    by (auto simp: st_run_def Let_def intro!: fail split: prod.splits sum.splits)
  then show ?thesis by (cases r) (simp_all add: run ended_def)
qed

text \<open>A trap of the allocator while the arguments are lowered closes the instance on the synchronous path; here it does not.\<close>

lemma allocator_trap_not_poisoned:
  assumes "finish_keeps (le_tasks env)" "start_args env g (enterRun g s) = (Inr args, s1)"
    and "lowerParams (le_ep env) (guest_resource env) (le_inst env) b args (upd_task g (\<lambda>x. x\<lparr>task_state := taskStarted\<rparr>) s1) = (Inl e, s2)"
  shows "st_run env b fn asyncOpts g s = (Inl e, snd (st_run env b fn asyncOpts g s)) \<and> poisoned (snd (st_run env b fn asyncOpts g s)) = poisoned s2"
  using assms by (simp add: st_run_def Let_def st_fail_def finish_call_facts) (simp add: upd_st_def)

subsection \<open>An export without parameters\<close>

definition plain_export :: "thread_state boundExport" where
  "plain_export = \<lparr>be_mod = 0, be_params = 0,
     be_abi = computeBoundExportABI (Suc 0) \<lparr>Params = [], Results = \<lparr>Unnamed = None, Named = []\<rparr>, Async = True\<rparr> (\<lambda>_. None),
     be_comp = True, be_realloc = None, coreFn = Some (\<lambda>_. sret []), coreResultCount = 0, postReturn = Some (Some (\<lambda>_. sret [])),
     asyncCallback = False, stackful = True\<rparr>"

definition plain_env :: "thread_state lift_env" where
  "plain_env = \<lparr>le_ep = \<lparr>be = tbe switching, ep_fuel = 1, ep_realloc = \<lambda>_. None, ep_resCanon = \<lambda>_. None, ep_origin = \<lambda>_ _. None,
       inst_resolve = \<lambda>_ _. None, cabi_realloc = \<lambda>_. None, on_host_done = \<lambda>_ _ _ _. sret ()\<rparr>,
     le_thread = switching, start_args = \<lambda>_. sret [], guest_resource = \<lambda>_. True, le_inst = 0\<rparr>"

lemma plain_run: "fst (st_run plain_env plain_export (\<lambda>_. sret []) False 7 thread_example) = Inr ()"
  by code_simp

lemma stackful_task_leaves_witness:
  "left (snd (st_run plain_env plain_export (\<lambda>_. sret []) False 7 thread_example)) \<and>
   task_state (tasks (snd (st_run plain_env plain_export (\<lambda>_. sret []) False 7 thread_example)) 7) = taskResolved"
proof -
  obtain s' where run: "st_run plain_env plain_export (\<lambda>_. sret []) False 7 thread_example = (Inr (), s')"
    using plain_run by (metis prod.collapse)
  have "finish_keeps (le_tasks plain_env)" by (simp add: finish_keeps_def le_tasks_def plain_env_def switching_def quiet_tasks_def)
  moreover have "stays_resolved plain_export 7" by (simp add: stays_resolved_def plain_export_def)
  ultimately show ?thesis using stackful_task_leaves [OF _ _ run] run by simp
qed

end
