(* ===== verification/Spec2Isabelle.thy ===== *)
theory Spec2Isabelle
  imports Leb128 Plan Stream_Safety Type_Space Core_Module Type_Table Call_Safety Export_Safety Async_Protocol Linking_Correct Graph_Correct Async_Lift_Correct
begin

text \<open>
  A verification library for the Go implementation of the WebAssembly Component Model.

  \<^bold>\<open>The program.\<close> A component is a binary that nests core modules, types, imports, exports and other components. The package
  \<open>internal/binary\<close> decodes it. The package \<open>internal/instance\<close> links it: it checks it, instantiates its core modules in the order the
  component gives, makes host functions of its imports and canonical built-ins, and binds its exports to core functions. At run time
  an instance keeps a table of handles, which names resources and the ends of streams and futures to the guest, and a cooperative
  scheduler of the tasks that are running in it. The package \<open>internal/abi\<close> is what both directions of a call share: it converts
  values of the component between their form in the host, in the linear memory of the guest and as core values. The core engine,
  which compiles and runs core modules, is a package of its own that is not part of the repository.

  \<^bold>\<open>The theories.\<close> They follow the order of the calls, each importing what it uses. Where definitions and proofs are apart, the proofs
  are in the theory in brackets. Source files are under \<open>src/internal\<close>, unless another directory is named.

    \<^item> \<open>Prelude\<close>: results of fallible operations, operations over a state, widths, bytes; the locale \<open>frame_relation\<close> of relations between
      states that operations keep, whose rules are the collection \<open>keeping\<close>.
    \<^item> \<open>Leb128\<close>: \<open>leb128/leb128.go\<close>.
    \<^item> \<open>Types\<close>, \<open>Layout\<close>, \<open>Flatten\<close>: the descriptors of \<open>binary/descriptor.go\<close>, and \<open>abi/layout.go\<close> and \<open>abi/flatten.go\<close>.
    \<^item> \<open>Values\<close>, \<open>Memory\<close> (\<open>Store_Load\<close>), \<open>Flat\<close> (\<open>Flat_Correct\<close>), \<open>Plan\<close>: \<open>abi/value.go\<close> and \<open>abi/coreval.go\<close>, \<open>abi/memory.go\<close>,
      \<open>abi/flat.go\<close>, \<open>abi/plan.go\<close>.
    \<^item> \<open>Type_Table\<close>: \<open>src/typetable.go\<close>, the types a host gives with its functions.
    \<^item> \<open>Decode\<close> (\<open>Decode_Correct\<close>), \<open>Component\<close> (\<open>Component_Correct\<close>), \<open>Type_Space\<close>: \<open>binary/types.go\<close> and the readers of
      \<open>binary/descriptor.go\<close>; \<open>binary/component.go\<close>, \<open>binary/decoder.go\<close> and the index spaces; the resolution of indices in
      \<open>binary/typespace.go\<close> and \<open>binary/componentinstancespace.go\<close>.
    \<^item> \<open>Handle_Table\<close>, \<open>Waitable\<close>, \<open>Sched\<close>, \<open>Task\<close>, \<open>Builtins\<close>: \<open>resource.go\<close>, \<open>waitable.go\<close>, \<open>sched.go\<close>, \<open>task.go\<close> and
      \<open>guest_task.go\<close>, \<open>async_builtins.go\<close> and \<open>errorcontext.go\<close>, all of \<open>internal/instance\<close>, as are the files below.
    \<^item> \<open>Stream\<close> (\<open>Frame\<close>, \<open>Stream_Copy\<close>), \<open>Type_Walk\<close>, \<open>Stream_Builtins\<close> (\<open>Stream_Safety\<close>): \<open>stream.go\<close>, the walks over types of
      \<open>instance.go\<close>, \<open>stream_builtins.go\<close> and \<open>stream_host.go\<close>.
    \<^item> \<open>Host_Call\<close> (\<open>Call_Safety\<close>): calls out of a component, \<open>host_import.go\<close> and the delegation to another component in
      \<open>composition.go\<close>. \<open>Export_Call\<close> (\<open>Export_Safety\<close>): calls into one, the synchronous path of \<open>instance.go\<close>.
    \<^item> \<open>Async_Call\<close> (\<open>Async_Protocol\<close>): \<open>async_host_import.go\<close> and \<open>callasync.go\<close>. \<open>Thread\<close> (\<open>Thread_Correct\<close>): \<open>thread.go\<close> and the
      blocking of \<open>stackful_task.go\<close> and \<open>guest_task.go\<close>. \<open>Async_Lift\<close> (\<open>Async_Lift_Correct\<close>): \<open>async_lift.go\<close> and the run of a task.
    \<^item> \<open>Core_Module\<close>: \<open>shim.go\<close> and \<open>importrewrite.go\<close>. \<open>Linking\<close> (\<open>Linking_Correct\<close>): the checks and the path for components without
      imports of \<open>instance.go\<close>. \<open>Graph\<close> (\<open>Graph_Correct\<close>): \<open>graph.go\<close>.

  \<^bold>\<open>How the code is translated.\<close> A Go function that returns an error is a function into \<open>'e + 'a\<close>; over a state it is an \<open>op\<close>, which
  returns the state in every case, because the code does not undo what it did before an error. Errors are constructors without their
  text. A panic is an error of its own (\<open>Panic\<close>, \<open>TablePanic\<close>, \<open>LinkPanic\<close>, \<open>SliceBounds\<close>): each slice expression, index and type
  assertion that can fail has its check written out. Integers of the guest are words. Sizes, offsets and lengths are natural
  numbers with the comparisons against \<open>MaxUint32\<close> that the code makes. Floats are their bits, since no code computes with them. A
  value's string is its bytes; names are \<open>string\<close>. Pointers are references into stores of the state; the state of an instance is a record
  that each theory extends: \<open>table_state\<close>, \<open>wait_state\<close>, \<open>sched_state\<close>, \<open>inst_state\<close>, \<open>builtin_state\<close>, \<open>stream_state\<close>, \<open>endpoint_state\<close>,
  then \<open>async_state\<close> or \<open>thread_state\<close>. A closure that is kept in the state is a number, what calling it does a parameter (the fields
  of the records whose names end in \<open>env\<close>), instantiated in the theories on top by the closures the code makes. A section under a
  mutex is one operation. Where several goroutines run such sections (\<open>Async_Protocol\<close>) they are the steps of an inductive relation,
  in any order. The baton of the goroutines that hold frames of a guest is the parameter \<open>switch\<close> of \<open>Thread\<close>: all that happens between
  giving the baton up and regaining it.

  \<^bold>\<open>Loops, bounds and fuel.\<close> A recursion along a type graph, whose depth is not that of a datatype, has fuel, and a function of the
  source takes its recursive call as an argument. The code bounds the walks of the layout by 64 references; \<open>layout_fuel\<close> is 66, and a
  validated type needs no more, as \<open>Layout\<close> shows, nor does \<open>Flatten\<close> on such a type. The loads, stores, lowerings and liftings have
  the fuel as an argument, and their theorems hold for each amount: running out is the error \<open>OutOfFuel\<close>. The readers of types and of
  components have one unit more than bytes in the buffer, and never run out, since each level reads a byte (\<open>decode_safe\<close>). The chains
  of aliases of a type, of an instance and of a function are followed as far as the constants of the code say (32, 64 and 64). Loops that
  need not end are partial functions: the loops of the scheduler, the driver of a pending call, \<open>componentFunc\<close> and the reaping of
  goroutines; their theorems say when they return.

  \<^bold>\<open>What is shown.\<close> Numbers, types and values: each LEB128 integer, each type and each value comes back from its encoding; layouts and
  flattenings terminate or report a cycle, are aligned and fit; loads never panic and stores touch only their own memory; lowered core
  values have the types of the flattening, and compiled plans do the same as the direct code. The decoder: errors are errors
  of the format only, the limits hold of the tree, index spaces are those of the specification. Resources: the handle table is
  partitioned into live and free handles in each reachable state, a lent handle stays, what is owned moves across a call and is never
  doubled, what is borrowed is lent for the call. The scheduler, tasks and streams: driving ends, cancellations are delivered,
  copies conserve their elements and are never lost, dropping an end wakes the other. Calls: arguments fit the core signature,
  results are lifted safely whatever the guest returns, only a failure of the guest closes an instance, completions are applied
  once and in order, a task leaves the instance however it ends, a carrier that blocks is the one that goes on, and reaping ends.
  Linking: import keys agree exactly for compatible versions, exports are bound to their lifts, the arguments of a core
  module are its own first, an instance keeps its key, and every module made is closed in the end or kept by the instance.
  Lemmas whose \<open>text\<close> says so show where the code departs from what it or its comments promise.

  \<^bold>\<open>Parameters.\<close> The core engine (compiling, instantiating, exports and calls of core modules), the code of the guest with its allocator, of
  the host and of destructors, the switch of goroutines, what a canon makes as a host function of the graph, and the instances of nested
  components. Theorems assume of them only what they say: that an allocator hands out fresh memory, that guest code keeps
  the relation at hand, or that fewer tasks remain after a step.

  \<^bold>\<open>Not modelled.\<close> The texts of errors and \<open>Dump\<close>, which prints; the pools of slices and iterators and the caches of plans and compiled modules,
  which only save work; channels, condition variables and contexts, of which the model has the decisions they bring; the wiring of the instances of nested
  components, the choice of the host function for a canon and the table of registered hosts, which put together what is modelled;
  the public interface, which delegates; the adapter to the core engine; the support for tests and the Rust tool that
  prepares test data.
\<close>

end
